(* ===== verification/Prelude.thy ===== *)
theory Prelude
  imports Complex_Main "HOL-Library.AList"
begin

text \<open>
  The vocabulary every component of the development shares: the JavaScript values the sources
  handle (strings with \<open>trim\<close>, numbers with \<open>NaN\<close> and the infinities, JSON-like data), refusals as
  values of a sum type, plain objects as association lists with JavaScript's insertion order, and
  the lemma collections the component theories extend.

  A JavaScript string is a \<^typ>\<open>string\<close>: each \<^typ>\<open>char\<close> is one UTF-16 code unit below 256, which
  covers every literal and identifier the modelled sources compare. A time stamp
  (\<open>Date.toISOString()\<close>, read back by \<open>Date.parse\<close>) is its number of milliseconds since the epoch, an
  \<^typ>\<open>int\<close>.
\<close>

named_theorems refusal_simps \<open>how a refusal propagates through a sequence of fallible calls\<close>
named_theorems wf_intros \<open>introduction rules for the well-formedness invariants of the stores\<close>

subsection \<open>Refusals\<close>

text \<open>
  An exception is a value: \<open>OrchestratorError code\<close> is the class of that name (its message is a
  rendering of the code and the arguments and is left out), \<open>ThrownError code\<close> an \<open>Error\<close> whose message
  is, or starts with, \<open>code\<close>; \<open>SkillError code\<close> is the refusal class of the skill layer.
\<close>

datatype failure = OrchestratorError string | ThrownError string | SkillError string

type_synonym 'a result = "failure + 'a"

definition andThen :: "'a result \<Rightarrow> ('a \<Rightarrow> 'b result) \<Rightarrow> 'b result" where
  "andThen r f = (case r of Inl e \<Rightarrow> Inl e | Inr x \<Rightarrow> f x)"

lemma andThen_simps [simp, refusal_simps]:
  "andThen (Inl e) f = Inl e"
  "andThen (Inr x) f = f x"
  by (simp_all add: andThen_def)

lemma andThen_Inr_iff [refusal_simps]:
  "andThen r f = Inr y \<longleftrightarrow> (\<exists>x. r = Inr x \<and> f x = Inr y)"
  by (cases r) auto

lemma andThen_Inl_iff [refusal_simps]:
  "andThen r f = Inl e \<longleftrightarrow> r = Inl e \<or> (\<exists>x. r = Inr x \<and> f x = Inl e)"
  by (cases r) auto

definition succeeds :: "'a result \<Rightarrow> bool" where
  "succeeds r = (case r of Inl _ \<Rightarrow> False | Inr _ \<Rightarrow> True)"

lemma succeeds_simps [simp, refusal_simps]: "succeeds (Inl e) = False" "succeeds (Inr x) = True"
  by (simp_all add: succeeds_def)

lemma succeeds_iff: "succeeds r \<longleftrightarrow> (\<exists>x. r = Inr x)"
  by (cases r) auto

subsection \<open>Strings\<close>

text \<open>White space as \<open>String.prototype.trim\<close> removes it, among the code units below 256.\<close>

definition is_ws :: "char \<Rightarrow> bool" where
  "is_ws c \<longleftrightarrow> c = CHR 0x09 \<or> c = CHR 0x0A \<or> c = CHR 0x0B \<or> c = CHR 0x0C \<or> c = CHR 0x0D
     \<or> c = CHR 0x20 \<or> c = CHR 0xA0"

definition trim :: "string \<Rightarrow> string" where
  "trim s = rev (dropWhile is_ws (rev (dropWhile is_ws s)))"

lemma trim_Nil [simp]: "trim [] = []"
  by (simp add: trim_def)

lemma trim_fixed: "s = [] \<or> (\<not> is_ws (hd s) \<and> \<not> is_ws (last s)) \<Longrightarrow> trim s = s"
proof (cases s)
  case Nil
  then show ?thesis by simp
next
  case (Cons c cs)
  assume "s = [] \<or> (\<not> is_ws (hd s) \<and> \<not> is_ws (last s))"
  with Cons have "\<not> is_ws c" and l: "\<not> is_ws (last s)" by auto
  then have d: "dropWhile is_ws s = s" using Cons by simp
  have "rev s = last s # rev (butlast s)"
    using Cons by (metis append_butlast_last_id list.distinct(1) rev.simps(2) rev_rev_ident)
  then have "dropWhile is_ws (rev s) = rev s"
    using l by (metis dropWhile.simps(2))
  with d show ?thesis by (simp add: trim_def)
qed

lemma dropWhile_nonempty_hd: "dropWhile P xs \<noteq> [] \<Longrightarrow> \<not> P (hd (dropWhile P xs))"
  by (induction xs) auto

lemma last_dropWhile: "dropWhile P xs \<noteq> [] \<Longrightarrow> last (dropWhile P xs) = last xs"
  by (induction xs) auto

lemma trim_ends: "trim s \<noteq> [] \<Longrightarrow> \<not> is_ws (hd (trim s)) \<and> \<not> is_ws (last (trim s))"
proof -
  assume ne: "trim s \<noteq> []"
  let ?d = "dropWhile is_ws s"
  let ?e = "dropWhile is_ws (rev ?d)"
  have e: "?e \<noteq> []" using ne by (simp add: trim_def)
  then have dn: "?d \<noteq> []" by (cases "?d = []") simp_all
  have "last (trim s) = hd ?e" using e by (simp add: trim_def last_rev)
  then have "\<not> is_ws (last (trim s))" using dropWhile_nonempty_hd [OF e] by simp
  moreover have "hd (trim s) = last ?e" using e by (simp add: trim_def hd_rev)
  then have "hd (trim s) = hd ?d" using last_dropWhile [OF e] dn by (simp add: last_rev)
  then have "\<not> is_ws (hd (trim s))" using dropWhile_nonempty_hd [OF dn] by simp
  ultimately show ?thesis by simp
qed

lemma trim_trim [simp]: "trim (trim s) = trim s"
  by (rule trim_fixed) (use trim_ends in blast)

text \<open>The test \<open>s.trim().length === 0\<close>.\<close>

definition blank :: "string \<Rightarrow> bool" where
  "blank s \<longleftrightarrow> trim s = []"

lemma blank_Nil [simp]: "blank []"
  by (simp add: blank_def)

lemma blank_trim [simp]: "blank (trim s) = blank s"
  by (simp add: blank_def)

text \<open>\<open>a || b\<close> on strings: the first one that is not empty.\<close>

definition or_else :: "string \<Rightarrow> string \<Rightarrow> string" where
  "or_else a b = (if a = [] then b else a)"

text \<open>\<open>a?.trim() || b\<close> for an optional string.\<close>

definition trimmed_or :: "string option \<Rightarrow> string \<Rightarrow> string" where
  "trimmed_or a b = or_else (case a of None \<Rightarrow> [] | Some s \<Rightarrow> trim s) b"

subsection \<open>Numbers\<close>

text \<open>
  A JavaScript number. A finite value is the rational it denotes; every comparison of two finite
  numbers is exact. Comparisons with \<open>NaN\<close> are false.
\<close>

datatype jnum = NaN | PosInf | NegInf | Fin rat

fun is_finite :: "jnum \<Rightarrow> bool" where
  "is_finite (Fin _) = True"
| "is_finite _ = False"

fun num_less :: "jnum \<Rightarrow> jnum \<Rightarrow> bool" where
  "num_less NaN _ = False"
| "num_less _ NaN = False"
| "num_less (Fin a) (Fin b) = (a < b)"
| "num_less NegInf NegInf = False"
| "num_less NegInf _ = True"
| "num_less _ PosInf = True"
| "num_less _ _ = False"

definition is_int_rat :: "rat \<Rightarrow> bool" where
  "is_int_rat q \<longleftrightarrow> of_int \<lfloor>q\<rfloor> = q"

text \<open>\<open>Number.isInteger(v) && v >= 0\<close>.\<close>

fun is_natural :: "jnum \<Rightarrow> bool" where
  "is_natural (Fin q) = (is_int_rat q \<and> 0 \<le> q)"
| "is_natural _ = False"

text \<open>\<open>Number.isSafeInteger(v)\<close>: an integer of magnitude at most \<open>2 ^ 53 - 1\<close>.\<close>

definition max_safe :: int where
  "max_safe = 9007199254740991"

fun is_safe_integer :: "jnum \<Rightarrow> bool" where
  "is_safe_integer (Fin q) = (is_int_rat q \<and> \<bar>\<lfloor>q\<rfloor>\<bar> \<le> max_safe)"
| "is_safe_integer _ = False"

lemma is_int_rat_of_int [simp]: "is_int_rat (of_int n)"
  by (simp add: is_int_rat_def)

lemma is_int_rat_numeral [simp]:
  "is_int_rat 0" "is_int_rat 1" "is_int_rat (numeral k)" "is_int_rat (- numeral k)" "is_int_rat (- 1)"
  by (simp_all add: is_int_rat_def)

subsection \<open>Data\<close>

text \<open>
  A value of static type \<open>unknown\<close>. An object holds its own members in insertion order.
  \<open>JOther\<close> stands for what JSON cannot represent: a function, a symbol, a \<open>BigInt\<close> or an
  instance of a class.
\<close>

datatype json =
    JUndef
  | JNull
  | JBool bool
  | JNum jnum
  | JStr string
  | JArr "json list"
  | JObj "(string \<times> json) list"
  | JOther

type_synonym jobject = "(string \<times> json) list"

text \<open>\<open>v ?? null\<close>.\<close>

definition or_null :: "json \<Rightarrow> json" where
  "or_null v = (if v = JUndef then JNull else v)"

text \<open>\<open>isPlainRecord\<close>: \<open>typeof value === 'object' && value !== null && !Array.isArray(value)\<close>.\<close>

fun as_record :: "json \<Rightarrow> jobject option" where
  "as_record (JObj o1) = Some o1"
| "as_record _ = None"

text \<open>\<open>{ ...a, ...b }\<close>: the members of \<open>b\<close> override those of \<open>a\<close> in place, new ones go to the end.\<close>

definition spread :: "('k \<times> 'v) list \<Rightarrow> ('k \<times> 'v) list \<Rightarrow> ('k \<times> 'v) list" where
  "spread a b = fold (\<lambda>(k, v) acc. AList.update k v acc) b a"

lemma spread_Nil [simp]: "spread a [] = a"
  by (simp add: spread_def)

lemma spread_Cons [simp]: "spread a ((k, v) # b) = spread (AList.update k v a) b"
  by (simp add: spread_def)

lemma map_of_update: "map_of (AList.update k v al) = (map_of al)(k \<mapsto> v)"
  by (rule update_conv')

lemma map_of_spread:
  "distinct (map fst b) \<Longrightarrow> map_of (spread a b) k = (case map_of b k of None \<Rightarrow> map_of a k | Some v \<Rightarrow> Some v)"
proof (induction b arbitrary: a)
  case Nil
  then show ?case by simp
next
  case (Cons kv b)
  obtain k' v' where kv: "kv = (k', v')" by force
  from Cons.prems kv have d: "distinct (map fst b)" and n: "k' \<notin> fst ` set b" by auto
  from n have "map_of b k' = None" by (simp add: map_of_eq_None_iff)
  then show ?case
    using Cons.IH [OF d, of "AList.update k' v' a"] kv
    by (auto simp: map_of_update split: option.splits)
qed

lemma map_of_spread_absent: "k \<notin> fst ` set b \<Longrightarrow> map_of (spread a b) k = map_of a k"
proof (induction b arbitrary: a)
  case Nil
  then show ?case by simp
next
  case (Cons kv b)
  then show ?case by (cases kv) (auto simp: map_of_update)
qed

subsection \<open>Lists\<close>

lemma find_Some_set: "find P xs = Some x \<Longrightarrow> x \<in> set xs \<and> P x"
  by (auto simp: find_Some_iff)

lemma find_None_set: "find P xs = None \<longleftrightarrow> (\<forall>x \<in> set xs. \<not> P x)"
  by (auto simp: find_None_iff)

text \<open>Rewriting the first element that satisfies a test, as mutating a found row does.\<close>

fun update_first :: "('a \<Rightarrow> bool) \<Rightarrow> ('a \<Rightarrow> 'a) \<Rightarrow> 'a list \<Rightarrow> 'a list" where
  "update_first P f [] = []"
| "update_first P f (x # xs) = (if P x then f x # xs else x # update_first P f xs)"

lemma length_update_first [simp]: "length (update_first P f xs) = length xs"
  by (induction xs) auto

lemma map_update_first: "(\<And>x. g (f x) = g x) \<Longrightarrow> map g (update_first P f xs) = map g xs"
  by (induction xs) auto

lemma set_update_first:
  "y \<in> set (update_first P f xs) \<Longrightarrow> y \<in> set xs \<or> (\<exists>x \<in> set xs. P x \<and> y = f x)"
  by (induction xs) (auto split: if_splits)

lemma filter_update_first_other:
  "(\<And>x. P x \<Longrightarrow> \<not> Q x) \<Longrightarrow> (\<And>x. P x \<Longrightarrow> \<not> Q (f x)) \<Longrightarrow>
   filter Q (update_first P f xs) = filter Q xs"
  by (induction xs) auto

lemma find_update_first_same:
  "(\<And>x. P x \<Longrightarrow> P (f x)) \<Longrightarrow> find P (update_first P f xs) = map_option f (find P xs)"
  by (induction xs) auto

lemma find_update_first_other:
  "(\<And>x. P x \<Longrightarrow> \<not> Q x) \<Longrightarrow> (\<And>x. P x \<Longrightarrow> \<not> Q (f x)) \<Longrightarrow> find Q (update_first P f xs) = find Q xs"
  by (induction xs) auto

lemma length_filter_update_first:
  "(\<And>x. P x \<Longrightarrow> Q (f x) \<Longrightarrow> Q x) \<Longrightarrow> length (filter Q (update_first P f xs)) \<le> length (filter Q xs)"
  by (induction xs) (auto intro: le_SucI)

lemma find_append: "find P (xs @ ys) = (case find P xs of None \<Rightarrow> find P ys | Some x \<Rightarrow> Some x)"
  by (induction xs) auto

lemma find_filter: "find P (filter Q xs) = find (\<lambda>x. Q x \<and> P x) xs"
  by (induction xs) auto

lemma take_until: "c \<notin> set a \<Longrightarrow> c \<notin> set b \<Longrightarrow> a @ c # x = b @ c # y \<Longrightarrow> a = b \<and> x = y"
proof (induction a arbitrary: b)
  case Nil
  then show ?case by (cases b) auto
next
  case (Cons d a)
  then show ?case by (cases b) auto
qed

end
