(* ===== verification/Programs.thy ===== *)
theory Programs
  imports Prelude
begin

text \<open>
  Asynchronous methods as programs over a state: a program returns a result or the failure it throws,
  and the state it leaves either way. \<open>await a; rest\<close> is \<open>bind\<close>, \<open>try / catch\<close> and \<open>try / finally\<close>
  have their combinators. A partial correctness logic in the style of Hoare carries the proofs: a
  triple names what holds after a normal return and what holds after a throw; its rules are in the
  collection \<open>prog_rules\<close>.
\<close>

named_theorems prog_rules \<open>rules of the program logic\<close>

type_synonym ('s, 'a) prog = "'s \<Rightarrow> 'a result \<times> 's"

definition ret :: "'a \<Rightarrow> ('s, 'a) prog" where
  "ret x = (\<lambda>s. (Inr x, s))"

definition throw :: "failure \<Rightarrow> ('s, 'a) prog" where
  "throw e = (\<lambda>s. (Inl e, s))"

definition bind :: "('s, 'a) prog \<Rightarrow> ('a \<Rightarrow> ('s, 'b) prog) \<Rightarrow> ('s, 'b) prog" where
  "bind m f = (\<lambda>s. case m s of (Inl e, t) \<Rightarrow> (Inl e, t) | (Inr x, t) \<Rightarrow> f x t)"

definition catch :: "('s, 'a) prog \<Rightarrow> (failure \<Rightarrow> ('s, 'a) prog) \<Rightarrow> ('s, 'a) prog" where
  "catch m h = (\<lambda>s. case m s of (Inl e, t) \<Rightarrow> h e t | (Inr x, t) \<Rightarrow> (Inr x, t))"

text \<open>\<open>try { m } finally { c }\<close>: a throw of \<open>c\<close> replaces the outcome of \<open>m\<close>.\<close>

definition finally_do :: "('s, 'a) prog \<Rightarrow> ('s, unit) prog \<Rightarrow> ('s, 'a) prog" where
  "finally_do m c = (\<lambda>s. case m s of (r, t) \<Rightarrow>
     (case c t of (Inl e, u) \<Rightarrow> (Inl e, u) | (Inr _, u) \<Rightarrow> (r, u)))"

definition lift :: "'a result \<Rightarrow> ('s, 'a) prog" where
  "lift r = (\<lambda>s. (r, s))"

definition look :: "('s \<Rightarrow> 'a) \<Rightarrow> ('s, 'a) prog" where
  "look f = (\<lambda>s. (Inr (f s), s))"

definition modify :: "('s \<Rightarrow> 's) \<Rightarrow> ('s, unit) prog" where
  "modify f = (\<lambda>s. (Inr (), f s))"

text \<open>\<open>if (c) m\<close> without an else branch.\<close>

definition perform_if :: "bool \<Rightarrow> ('s, unit) prog \<Rightarrow> ('s, unit) prog" where
  "perform_if c m = (if c then m else ret ())"

definition guard_that :: "bool \<Rightarrow> string \<Rightarrow> ('s, unit) prog" where
  "guard_that ok code = (if ok then ret () else throw (OrchestratorError code))"

subsection \<open>Laws\<close>

lemma bind_ret [simp]: "bind (ret x) f = f x"
  by (simp add: bind_def ret_def)

lemma bind_throw [simp]: "bind (throw e) f = throw e"
  by (simp add: bind_def throw_def)

lemma run_simps:
  "ret x s = (Inr x, s)" "throw e s = (Inl e, s)" "lift r s = (r, s)" "look g s = (Inr (g s), s)"
  "modify h s = (Inr (), h s)"
  by (simp_all add: ret_def throw_def lift_def look_def modify_def)

lemma bind_Inr: "m s = (Inr x, t) \<Longrightarrow> bind m f s = f x t"
  by (simp add: bind_def)

lemma bind_Inl: "m s = (Inl e, t) \<Longrightarrow> bind m f s = (Inl e, t)"
  by (simp add: bind_def)

subsection \<open>Triples\<close>

definition triple :: "('s \<Rightarrow> bool) \<Rightarrow> ('s, 'a) prog \<Rightarrow> ('a \<Rightarrow> 's \<Rightarrow> bool) \<Rightarrow> (failure \<Rightarrow> 's \<Rightarrow> bool) \<Rightarrow> bool" where
  "triple P m Q E \<longleftrightarrow> (\<forall>s. P s \<longrightarrow> (case m s of (Inl e, t) \<Rightarrow> E e t | (Inr x, t) \<Rightarrow> Q x t))"

lemma tripleI: "(\<And>s. P s \<Longrightarrow> case m s of (Inl e, t) \<Rightarrow> E e t | (Inr x, t) \<Rightarrow> Q x t) \<Longrightarrow> triple P m Q E"
  by (simp add: triple_def)

lemma triple_Inr: "triple P m Q E \<Longrightarrow> P s \<Longrightarrow> m s = (Inr x, t) \<Longrightarrow> Q x t"
  by (auto simp: triple_def)

lemma triple_Inl: "triple P m Q E \<Longrightarrow> P s \<Longrightarrow> m s = (Inl e, t) \<Longrightarrow> E e t"
  by (auto simp: triple_def)

lemma triple_conseq:
  "triple P' m Q' E' \<Longrightarrow> (\<And>s. P s \<Longrightarrow> P' s) \<Longrightarrow> (\<And>x s. Q' x s \<Longrightarrow> Q x s) \<Longrightarrow> (\<And>e s. E' e s \<Longrightarrow> E e s) \<Longrightarrow>
   triple P m Q E"
  by (fastforce simp: triple_def split: prod.splits sum.splits)

lemma triple_pre: "triple P' m Q E \<Longrightarrow> (\<And>s. P s \<Longrightarrow> P' s) \<Longrightarrow> triple P m Q E"
  by (simp add: triple_def)

lemma triple_False [prog_rules]: "triple (\<lambda>s. False) m Q E"
  by (simp add: triple_def)

lemma triple_ret [prog_rules]: "(\<And>s. P s \<Longrightarrow> Q x s) \<Longrightarrow> triple P (ret x) Q E"
  by (simp add: triple_def ret_def)

lemma triple_throw [prog_rules]: "(\<And>s. P s \<Longrightarrow> E e s) \<Longrightarrow> triple P (throw e) Q E"
  by (simp add: triple_def throw_def)

lemma triple_bind [prog_rules]:
  "triple P m R E \<Longrightarrow> (\<And>x. triple (R x) (f x) Q E) \<Longrightarrow> triple P (bind m f) Q E"
  by (fastforce simp: triple_def bind_def split: prod.splits sum.splits)

lemma triple_catch [prog_rules]:
  "triple P m Q R \<Longrightarrow> (\<And>e. triple (R e) (h e) Q E) \<Longrightarrow> triple P (catch m h) Q E"
  by (fastforce simp: triple_def catch_def split: prod.splits sum.splits)

lemma triple_finally [prog_rules]:
  assumes "triple P m Q' E'" and "\<And>x. triple (Q' x) c (\<lambda>_. Q x) E" and "\<And>e. triple (E' e) c (\<lambda>_. E e) E"
  shows "triple P (finally_do m c) Q E"
proof (rule tripleI)
  fix s
  assume s: "P s"
  obtain r t where m: "m s = (r, t)" by force
  obtain v u where c: "c t = (v, u)" by force
  have "case r of Inl e \<Rightarrow> E' e t | Inr x \<Rightarrow> Q' x t"
    using assms(1) s m by (auto simp: triple_def split: sum.splits)
  then show "case finally_do m c s of (Inl e, t) \<Rightarrow> E e t | (Inr x, t) \<Rightarrow> Q x t"
    using assms(2,3) m c by (cases r; cases v) (force simp: triple_def finally_do_def)+
qed

lemma triple_lift [prog_rules]:
  "(\<And>x s. r = Inr x \<Longrightarrow> P s \<Longrightarrow> Q x s) \<Longrightarrow> (\<And>e s. r = Inl e \<Longrightarrow> P s \<Longrightarrow> E e s) \<Longrightarrow> triple P (lift r) Q E"
  by (simp add: triple_def lift_def split: sum.split)

lemma triple_look [prog_rules]: "(\<And>s. P s \<Longrightarrow> Q (f s) s) \<Longrightarrow> triple P (look f) Q E"
  by (simp add: triple_def look_def)

lemma triple_modify [prog_rules]: "(\<And>s. P s \<Longrightarrow> Q () (f s)) \<Longrightarrow> triple P (modify f) Q E"
  by (simp add: triple_def modify_def)

lemma triple_when [prog_rules]:
  "(c \<Longrightarrow> triple P m Q E) \<Longrightarrow> (\<And>s. \<not> c \<Longrightarrow> P s \<Longrightarrow> Q () s) \<Longrightarrow> triple P (perform_if c m) Q E"
  by (simp add: perform_if_def triple_ret)

lemma triple_guard [prog_rules]:
  "(\<And>s. ok \<Longrightarrow> P s \<Longrightarrow> Q () s) \<Longrightarrow> (\<And>s. \<not> ok \<Longrightarrow> P s \<Longrightarrow> E (OrchestratorError code) s) \<Longrightarrow>
   triple P (guard_that ok code) Q E"
  by (simp add: guard_that_def triple_ret triple_throw)

lemma triple_if [prog_rules]:
  "(c \<Longrightarrow> triple P m Q E) \<Longrightarrow> (\<not> c \<Longrightarrow> triple P n Q E) \<Longrightarrow> triple P (if c then m else n) Q E"
  by simp

lemma triple_option [prog_rules]:
  "(v = None \<Longrightarrow> triple P m Q E) \<Longrightarrow> (\<And>x. v = Some x \<Longrightarrow> triple P (f x) Q E) \<Longrightarrow>
   triple P (case v of None \<Rightarrow> m | Some x \<Rightarrow> f x) Q E"
  by (cases v) simp_all

lemma triple_prod [prog_rules]:
  "(\<And>a b. v = (a, b) \<Longrightarrow> triple P (f a b) Q E) \<Longrightarrow> triple P (case v of (a, b) \<Rightarrow> f a b) Q E"
  by (cases v) simp

lemma triple_conj:
  "triple P m Q E \<Longrightarrow> triple P m Q' E' \<Longrightarrow> triple P m (\<lambda>x s. Q x s \<and> Q' x s) (\<lambda>e s. E e s \<and> E' e s)"
  by (fastforce simp: triple_def split: prod.splits sum.splits)

text \<open>A program every step of which keeps \<open>P\<close>.\<close>

definition keeps :: "('s \<Rightarrow> bool) \<Rightarrow> ('s, 'a) prog \<Rightarrow> bool" where
  "keeps P m \<longleftrightarrow> triple P m (\<lambda>_. P) (\<lambda>_. P)"

lemma keeps_snd: "keeps P m \<Longrightarrow> P s \<Longrightarrow> P (snd (m s))"
  by (cases "m s"; cases "fst (m s)") (auto simp: keeps_def triple_def)

lemma keepsI: "(\<And>s. P s \<Longrightarrow> P (snd (m s))) \<Longrightarrow> keeps P m"
  unfolding keeps_def by (rule tripleI) (auto split: prod.split sum.split, (metis snd_conv)+)

named_theorems keeps_rules \<open>programs that keep an assertion\<close>

lemma keeps_ret [keeps_rules]: "keeps P (ret x)"
  by (simp add: keeps_def triple_ret)

lemma keeps_throw [keeps_rules]: "keeps P (throw e)"
  by (simp add: keeps_def triple_throw)

lemma keeps_lift [keeps_rules]: "keeps P (lift r)"
  by (simp add: keeps_def triple_lift)

lemma keeps_look [keeps_rules]: "keeps P (look f)"
  by (simp add: keeps_def triple_look)

lemma keeps_guard [keeps_rules]: "keeps P (guard_that ok code)"
  by (simp add: keeps_def triple_guard)

lemma keeps_bind [keeps_rules]: "keeps P m \<Longrightarrow> (\<And>x. keeps P (f x)) \<Longrightarrow> keeps P (bind m f)"
  unfolding keeps_def by (rule triple_bind)

lemma keeps_catch [keeps_rules]: "keeps P m \<Longrightarrow> (\<And>e. keeps P (h e)) \<Longrightarrow> keeps P (catch m h)"
  unfolding keeps_def by (rule triple_catch)

lemma keeps_finally [keeps_rules]: "keeps P m \<Longrightarrow> keeps P c \<Longrightarrow> keeps P (finally_do m c)"
  unfolding keeps_def by (rule triple_finally)

lemma keeps_when [keeps_rules]: "(c \<Longrightarrow> keeps P m) \<Longrightarrow> keeps P (perform_if c m)"
  unfolding keeps_def by (rule triple_when)

lemma keeps_if [keeps_rules]: "(c \<Longrightarrow> keeps P m) \<Longrightarrow> (\<not> c \<Longrightarrow> keeps P n) \<Longrightarrow> keeps P (if c then m else n)"
  by simp

lemma keeps_option [keeps_rules]:
  "(v = None \<Longrightarrow> keeps P m) \<Longrightarrow> (\<And>x. v = Some x \<Longrightarrow> keeps P (f x)) \<Longrightarrow>
   keeps P (case v of None \<Rightarrow> m | Some x \<Rightarrow> f x)"
  by (cases v) simp_all

lemma keeps_prod [keeps_rules]:
  "(\<And>a b. v = (a, b) \<Longrightarrow> keeps P (f a b)) \<Longrightarrow> keeps P (case v of (a, b) \<Rightarrow> f a b)"
  by (cases v) simp

end
