(* ===== verification/Lifecycle.thy ===== *)
theory Lifecycle
  imports Prelude
begin

text \<open>
  The eleven-stage run lifecycle of \<open>packages/core-engine/src/lifecycle/stages.ts\<close>:
  \<open>LEGAL_TRANSITIONS\<close>, \<open>assertValidTransition\<close> and the append-only \<open>StageJournal\<close>. The main lemma
  describes every journal the guard lets a run record as a prefix of the canonical stage
  sequence with its plan-step loop. \<open>UnknownStage\<close> is a stage value replayed from durable state
  that is outside the vocabulary.
\<close>

datatype stage =
    SIGNAL | CONTEXT | HYPOTHESIS | DECISION | PLAN | ACTION
  | APPROVAL | EXECUTION | EVIDENCE | OUTCOME | LEARNING
  | UnknownStage string

definition LIFECYCLE_STAGES :: "stage list" where
  "LIFECYCLE_STAGES =
     [SIGNAL, CONTEXT, HYPOTHESIS, DECISION, PLAN, ACTION,
      APPROVAL, EXECUTION, EVIDENCE, OUTCOME, LEARNING]"

fun LEGAL_TRANSITIONS :: "stage \<Rightarrow> stage list" where
  "LEGAL_TRANSITIONS SIGNAL = [CONTEXT]"
| "LEGAL_TRANSITIONS CONTEXT = [HYPOTHESIS]"
| "LEGAL_TRANSITIONS HYPOTHESIS = [DECISION]"
| "LEGAL_TRANSITIONS DECISION = [PLAN]"
| "LEGAL_TRANSITIONS PLAN = [ACTION]"
| "LEGAL_TRANSITIONS ACTION = [APPROVAL]"
| "LEGAL_TRANSITIONS APPROVAL = [EXECUTION]"
| "LEGAL_TRANSITIONS EXECUTION = [EVIDENCE]"
| "LEGAL_TRANSITIONS EVIDENCE = [ACTION, OUTCOME]"
| "LEGAL_TRANSITIONS OUTCOME = [LEARNING]"
| "LEGAL_TRANSITIONS LEARNING = []"
| "LEGAL_TRANSITIONS (UnknownStage _) = []"

definition isLifecycleStage :: "stage \<Rightarrow> bool" where
  "isLifecycleStage s = List.member LIFECYCLE_STAGES s"

definition successors :: "stage option \<Rightarrow> stage list" where
  "successors from = (case from of None \<Rightarrow> [SIGNAL] | Some s \<Rightarrow> LEGAL_TRANSITIONS s)"

definition assertValidTransition :: "stage option \<Rightarrow> stage \<Rightarrow> unit result" where
  "assertValidTransition from to =
    (if \<not> isLifecycleStage to then Inl (OrchestratorError ''INVALID_STAGE_TRANSITION'')
     else if (case from of None \<Rightarrow> False | Some s \<Rightarrow> \<not> isLifecycleStage s)
     then Inl (OrchestratorError ''INVALID_STAGE_TRANSITION'')
     else if \<not> List.member (successors from) to
     then Inl (OrchestratorError ''INVALID_STAGE_TRANSITION'')
     else Inr ())"

text \<open>\<open>StageJournal.enter\<close>: \<open>this.stages.at(-1) ?? null\<close> is the stage entered last.\<close>

definition journal_enter :: "stage list \<Rightarrow> stage \<Rightarrow> stage list result" where
  "journal_enter stages s =
    andThen (assertValidTransition (if stages = [] then None else Some (last stages)) s)
      (\<lambda>_. Inr (stages @ [s]))"

text \<open>A run of a journal: each requested stage is entered, and the first refusal stops it.\<close>

fun journal_run :: "stage list \<Rightarrow> stage list \<Rightarrow> stage list result" where
  "journal_run j [] = Inr j"
| "journal_run j (s # ss) = andThen (journal_enter j s) (\<lambda>j'. journal_run j' ss)"

subsection \<open>The shape of a journal\<close>

definition run_opening :: "stage list" where
  "run_opening = [SIGNAL, CONTEXT, HYPOTHESIS, DECISION, PLAN]"

definition plan_step :: "stage list" where
  "plan_step = [ACTION, APPROVAL, EXECUTION, EVIDENCE]"

text \<open>The canonical journal of a run that finished \<open>n + 1\<close> plan steps and learned from them.\<close>

definition full_journal :: "nat \<Rightarrow> stage list" where
  "full_journal n = run_opening @ concat (replicate n plan_step) @ plan_step @ [OUTCOME, LEARNING]"

inductive journal :: "stage list \<Rightarrow> bool" where
  journal_empty: "journal []"
| journal_step: "journal j \<Longrightarrow> journal_enter j s = Inr j' \<Longrightarrow> journal j'"

lemma known_cases: "isLifecycleStage s \<longleftrightarrow> (\<forall>x. s \<noteq> UnknownStage x)"
  by (cases s) (auto simp: isLifecycleStage_def LIFECYCLE_STAGES_def)

lemma assertValidTransition_iff:
  "assertValidTransition from to = Inr () \<longleftrightarrow> to \<in> set (successors from)"
proof -
  have "to \<in> set (successors from) \<Longrightarrow> isLifecycleStage to \<and>
      (case from of None \<Rightarrow> True | Some s \<Rightarrow> isLifecycleStage s)"
  proof (cases "from")
    case None
    then show "to \<in> set (successors from) \<Longrightarrow> ?thesis"
      by (simp add: successors_def known_cases)
  next
    case (Some s)
    then show "to \<in> set (successors from) \<Longrightarrow> ?thesis"
      by (cases s) (auto simp: successors_def known_cases)
  qed
  then show ?thesis
    by (auto simp: assertValidTransition_def split: option.splits if_splits)
qed

lemma journal_enter_iff:
  "journal_enter j s = Inr j' \<longleftrightarrow>
     s \<in> set (successors (if j = [] then None else Some (last j))) \<and> j' = j @ [s]"
proof -
  have "andThen r (\<lambda>_. Inr (j @ [s])) = Inr j' \<longleftrightarrow> r = Inr () \<and> j' = j @ [s]" for r :: "unit result"
    by (cases r) auto
  then show ?thesis unfolding journal_enter_def by (simp only: assertValidTransition_iff)
qed

text \<open>
  Where a journal stands: the loop count and the position inside the sequence. \<open>shape\<close> lists the
  journals that end in each stage.
\<close>

fun shape :: "nat \<Rightarrow> stage \<Rightarrow> stage list" where
  "shape n SIGNAL = [SIGNAL]"
| "shape n CONTEXT = [SIGNAL, CONTEXT]"
| "shape n HYPOTHESIS = [SIGNAL, CONTEXT, HYPOTHESIS]"
| "shape n DECISION = [SIGNAL, CONTEXT, HYPOTHESIS, DECISION]"
| "shape n PLAN = run_opening"
| "shape n ACTION = run_opening @ concat (replicate n plan_step) @ [ACTION]"
| "shape n APPROVAL = run_opening @ concat (replicate n plan_step) @ [ACTION, APPROVAL]"
| "shape n EXECUTION = run_opening @ concat (replicate n plan_step) @ [ACTION, APPROVAL, EXECUTION]"
| "shape n EVIDENCE = run_opening @ concat (replicate n plan_step) @ plan_step"
| "shape n OUTCOME = run_opening @ concat (replicate n plan_step) @ plan_step @ [OUTCOME]"
| "shape n LEARNING = full_journal n"
| "shape n (UnknownStage _) = []"

lemma concat_replicate_comm:
  "concat (replicate n xs) @ xs @ ys = xs @ concat (replicate n xs) @ ys"
  by (induction n) auto

lemma shape_last: "isLifecycleStage s \<Longrightarrow> shape n s \<noteq> [] \<and> last (shape n s) = s"
  by (cases s) (auto simp: known_cases run_opening_def plan_step_def full_journal_def)

lemma shape_step:
  assumes "t \<in> set (LEGAL_TRANSITIONS s)"
  shows "\<exists>m. shape n s @ [t] = shape m t"
proof (cases s)
  case PLAN
  with assms show ?thesis by (intro exI [of _ 0]) simp
next
  case EVIDENCE
  with assms consider "t = ACTION" | "t = OUTCOME" by auto
  then show ?thesis
  proof cases
    case 1
    then have "shape n s @ [t] = shape (Suc n) t"
      using EVIDENCE by (simp add: concat_replicate_comm)
    then show ?thesis ..
  next
    case 2
    then have "shape n s @ [t] = shape n t"
      using EVIDENCE by simp
    then show ?thesis ..
  qed
qed (use assms in \<open>auto simp: run_opening_def plan_step_def full_journal_def intro!: exI [of _ n]\<close>)

lemma journal_shape:
  "journal j \<Longrightarrow> j = [] \<or> (\<exists>n s. isLifecycleStage s \<and> j = shape n s)"
proof (induction rule: journal.induct)
  case journal_empty
  show ?case by simp
next
  case (journal_step j s j')
  then have t: "s \<in> set (successors (if j = [] then None else Some (last j)))" and j': "j' = j @ [s]"
    by (auto simp: journal_enter_iff)
  show ?case
  proof (cases "j = []")
    case True
    with t have "s = SIGNAL" by (simp add: successors_def)
    with True j' have "isLifecycleStage s \<and> j' = shape 0 s" by (simp add: known_cases)
    then show ?thesis by blast
  next
    case False
    with journal_step.IH obtain n r where r: "isLifecycleStage r" "j = shape n r" by auto
    then have "last j = r" using shape_last by auto
    with t False have l: "s \<in> set (LEGAL_TRANSITIONS r)" by (simp add: successors_def)
    then have "isLifecycleStage s" by (cases r) (auto simp: known_cases)
    with shape_step [OF l, of n] r j' show ?thesis by blast
  qed
qed

lemma journal_run_journal: "journal j \<Longrightarrow> journal_run j ss = Inr j' \<Longrightarrow> journal j'"
  by (induction ss arbitrary: j) (auto simp: andThen_Inr_iff intro: journal.journal_step)

lemma shape_prefix:
  assumes "isLifecycleStage s"
  shows "\<exists>rest. full_journal n = shape n s @ rest"
proof (cases s)
  case (UnknownStage x)
  with assms show ?thesis by (simp add: known_cases)
qed (auto simp: full_journal_def run_opening_def plan_step_def)

lemma journal_run_result: "journal_run j ss = Inr j' \<Longrightarrow> j' = j @ ss"
proof (induction ss arbitrary: j)
  case Nil
  then show ?case by simp
next
  case (Cons s ss)
  then obtain j1 where e: "journal_enter j s = Inr j1" and r: "journal_run j1 ss = Inr j'"
    by (auto simp: andThen_Inr_iff)
  from e have "j1 = j @ [s]" by (simp add: journal_enter_iff)
  with Cons.IH [OF r] show ?case by simp
qed

lemma journal_run_append:
  "journal_run j (xs @ ys) = andThen (journal_run j xs) (\<lambda>j'. journal_run j' ys)"
proof (induction xs arbitrary: j)
  case Nil
  then show ?case by simp
next
  case (Cons x xs)
  show ?case by (cases "journal_enter j x") (auto simp: Cons.IH)
qed

lemma enter_after: "r \<in> set (LEGAL_TRANSITIONS (last (x # xs))) \<Longrightarrow>
  journal_run (x # xs) (r # rs) = journal_run (x # xs @ [r]) rs"
  using journal_enter_iff [of "x # xs" r "x # xs @ [r]"] by (simp add: successors_def)

lemma run_plan_steps:
  "j \<noteq> [] \<Longrightarrow> last j = PLAN \<or> last j = EVIDENCE \<Longrightarrow>
   journal_run j (concat (replicate n plan_step)) = Inr (j @ concat (replicate n plan_step))"
proof (induction n arbitrary: j)
  case 0
  then show ?case by simp
next
  case (Suc n)
  have e: "journal_enter (j @ xs) s = Inr (j @ xs @ [s])"
    if "s \<in> set (LEGAL_TRANSITIONS (last (j @ xs)))" for xs s
    using that Suc.prems by (subst journal_enter_iff) (simp add: successors_def)
  have "ACTION \<in> set (LEGAL_TRANSITIONS (last j))" using Suc.prems by auto
  then have "journal_run j plan_step = Inr (j @ plan_step)"
    using e [of ACTION "[]"] e [of APPROVAL "[ACTION]"] e [of EXECUTION "[ACTION, APPROVAL]"]
      e [of EVIDENCE "[ACTION, APPROVAL, EXECUTION]"]
    by (simp add: plan_step_def)
  moreover have "journal_run (j @ plan_step) (concat (replicate n plan_step))
      = Inr ((j @ plan_step) @ concat (replicate n plan_step))"
    by (rule Suc.IH) (simp_all add: plan_step_def)
  ultimately show ?case by (simp add: journal_run_append)
qed

lemma full_journal_accepted: "journal_run [] (full_journal n) = Inr (full_journal n)"
proof -
  let ?b = "run_opening @ concat (replicate n plan_step) @ plan_step"
  have o: "journal_run [] run_opening = Inr run_opening" by code_simp
  have b: "journal_run run_opening (concat (replicate (Suc n) plan_step))
      = Inr (run_opening @ concat (replicate (Suc n) plan_step))"
    by (rule run_plan_steps) (simp_all add: run_opening_def)
  have r: "concat (replicate (Suc n) plan_step) = concat (replicate n plan_step) @ plan_step"
    using concat_replicate_comm [of n plan_step "[]"] by simp
  have la: "last ?b = EVIDENCE" and ne: "?b \<noteq> []" by (simp_all add: plan_step_def)
  have e1: "journal_enter ?b OUTCOME = Inr (?b @ [OUTCOME])"
    unfolding journal_enter_iff using ne la by (simp add: successors_def)
  have e2: "journal_enter (?b @ [OUTCOME]) LEARNING = Inr ((?b @ [OUTCOME]) @ [LEARNING])"
    unfolding journal_enter_iff by (simp add: successors_def)
  have "journal_run [] ?b = Inr ?b"
    using o b by (simp only: journal_run_append r andThen_simps)
  then have "journal_run [] (?b @ [OUTCOME, LEARNING]) = Inr ((?b @ [OUTCOME]) @ [LEARNING])"
    using e1 e2 by (simp only: journal_run_append [of _ ?b] journal_run.simps andThen_simps)
  then show ?thesis by (simp add: full_journal_def)
qed

text \<open>
  the guard lets a run record exactly the prefixes of the canonical sequences: the five opening
  stages, then one or more whole plan steps (action, approval, execution, evidence) in that order,
  then outcome and learning. So no run executes without having entered approval first, and none
  reports an outcome without evidence.
\<close>

theorem journal_accepts_exactly_canonical_prefixes:
  "journal_run [] ss = Inr j \<longleftrightarrow> j = ss \<and> (\<exists>n rest. full_journal n = ss @ rest)"
proof
  assume run: "journal_run [] ss = Inr j"
  have "journal j" using journal_run_journal [OF journal.journal_empty run] .
  then consider "j = []" | n s where "isLifecycleStage s" "j = shape n s"
    using journal_shape by blast
  then have "\<exists>n rest. full_journal n = j @ rest"
    by cases (simp, metis shape_prefix)
  then show "j = ss \<and> (\<exists>n rest. full_journal n = ss @ rest)"
    using journal_run_result [OF run] by simp
next
  assume "j = ss \<and> (\<exists>n rest. full_journal n = ss @ rest)"
  then obtain n rest where j: "j = ss" and f: "full_journal n = ss @ rest" by blast
  have "succeeds (journal_run [] ss)"
    using full_journal_accepted [of n] f by (auto simp: journal_run_append andThen_Inr_iff)
  then show "journal_run [] ss = Inr j"
    using j journal_run_result [of "[]" ss] by (auto simp: succeeds_iff)
qed

end
