(* ===== verification/TaskFsm.thy ===== *)
theory TaskFsm
  imports Prelude
begin

text \<open>
  The task life cycle of \<open>packages/core-engine/src/workflow/task-fsm.ts\<close>: the transition matrix,
  \<open>assertTaskTransition\<close> and \<open>taskTransitionEvent\<close>, the step relation they induce and what a
  task can reach. \<open>UnknownState\<close> is a persisted value outside the canonical vocabulary.
\<close>

datatype task_state =
    Queued | Running | Waiting | AwaitingHuman | Completed | Stopped | Failed
  | UnknownState string

record task_transition =
  tt_from :: task_state
  tt_event :: string
  tt_to :: task_state

definition edge :: "task_state \<Rightarrow> string \<Rightarrow> task_state \<Rightarrow> task_transition" where
  "edge f e t = \<lparr>tt_from = f, tt_event = e, tt_to = t\<rparr>"

definition TASK_TRANSITIONS :: "task_transition list" where
  "TASK_TRANSITIONS =
    [edge Queued ''task.claim'' Running,
     edge Running ''task.dispatch_timeout'' Waiting,
     edge Running ''task.effect_in_flight'' Waiting,
     edge Running ''task.await_event'' Waiting,
     edge Running ''task.require_auth4'' AwaitingHuman,
     edge Running ''task.success'' Completed,
     edge Running ''task.retryable_error'' Queued,
     edge Running ''task.fatal_error'' Failed,
     edge Running ''human.takeover'' Stopped,
     edge Running ''task.authority_denied'' Stopped,
     edge Waiting ''event.received'' Running,
     edge Waiting ''timer.expired'' Running,
     edge Waiting ''reconcile.completed'' Running,
     edge Waiting ''human.reconcile'' Waiting,
     edge Waiting ''human.takeover'' Stopped,
     edge AwaitingHuman ''human.approval'' Running,
     edge AwaitingHuman ''human.modify'' Running,
     edge AwaitingHuman ''human.pause'' AwaitingHuman,
     edge AwaitingHuman ''human.takeover'' Stopped,
     edge AwaitingHuman ''human.reject'' Stopped,
     edge AwaitingHuman ''human.cancel'' Stopped,
     edge Stopped ''human.resume'' Stopped]"

fun isTaskLifecycleState :: "task_state \<Rightarrow> bool" where
  "isTaskLifecycleState (UnknownState _) = False"
| "isTaskLifecycleState _ = True"

definition assertTaskTransition :: "task_state \<Rightarrow> task_state \<Rightarrow> string \<Rightarrow> unit result" where
  "assertTaskTransition from to event =
    (if \<not> isTaskLifecycleState from \<or> \<not> isTaskLifecycleState to
     then Inl (OrchestratorError ''INVALID_TASK_STATE'')
     else if list_ex (\<lambda>t. tt_from t = from \<and> tt_event t = event \<and> tt_to t = to) TASK_TRANSITIONS
     then Inr ()
     else Inl (OrchestratorError ''INVALID_TASK_STATE''))"

definition taskTransitionEvent :: "task_state \<Rightarrow> task_state \<Rightarrow> string option" where
  "taskTransitionEvent from to =
    (case find (\<lambda>t. tt_from t = from \<and> tt_to t = to) TASK_TRANSITIONS of
       None \<Rightarrow> None
     | Some t \<Rightarrow> Some (tt_event t))"

subsection \<open>The step relation of the matrix\<close>

inductive task_step :: "task_state \<Rightarrow> string \<Rightarrow> task_state \<Rightarrow> bool" where
  legal: "assertTaskTransition from to event = Inr () \<Longrightarrow> task_step from event to"

inductive_cases task_stepE: "task_step from event to"

inductive task_path :: "task_state \<Rightarrow> task_state \<Rightarrow> bool" where
  path_refl: "task_path s s"
| path_step: "task_path s t \<Longrightarrow> task_step t e u \<Longrightarrow> task_path s u"

lemma edge_sel [simp]:
  "tt_from (edge f e t) = f" "tt_event (edge f e t) = e" "tt_to (edge f e t) = t"
  by (simp_all add: edge_def)

lemma edge_inject [simp]: "edge f e t = edge f' e' t' \<longleftrightarrow> f = f' \<and> e = e' \<and> t = t'"
  by (auto simp: edge_def)

lemma transitions_known:
  "t \<in> set TASK_TRANSITIONS \<Longrightarrow> isTaskLifecycleState (tt_from t) \<and> isTaskLifecycleState (tt_to t)"
  unfolding TASK_TRANSITIONS_def by auto

lemma assertTaskTransition_iff:
  "assertTaskTransition from to event = Inr () \<longleftrightarrow> edge from event to \<in> set TASK_TRANSITIONS"
proof -
  have "(\<exists>t\<in>set TASK_TRANSITIONS. tt_from t = from \<and> tt_event t = event \<and> tt_to t = to)
      \<longleftrightarrow> edge from event to \<in> set TASK_TRANSITIONS"
  proof
    assume "\<exists>t\<in>set TASK_TRANSITIONS. tt_from t = from \<and> tt_event t = event \<and> tt_to t = to"
    then obtain t where "t \<in> set TASK_TRANSITIONS" "tt_from t = from" "tt_event t = event"
      "tt_to t = to" by blast
    moreover have "t = edge (tt_from t) (tt_event t) (tt_to t)" by (simp add: edge_def)
    ultimately show "edge from event to \<in> set TASK_TRANSITIONS" by metis
  qed force
  moreover have "edge from event to \<in> set TASK_TRANSITIONS \<Longrightarrow>
      isTaskLifecycleState from \<and> isTaskLifecycleState to"
    using transitions_known by fastforce
  ultimately show ?thesis
    unfolding assertTaskTransition_def list_ex_iff by auto
qed

lemma assertTaskTransition_refusal:
  "assertTaskTransition from to event = Inr () \<or>
   assertTaskTransition from to event = Inl (OrchestratorError ''INVALID_TASK_STATE'')"
  by (auto simp: assertTaskTransition_def)

lemma task_step_iff: "task_step from event to \<longleftrightarrow> edge from event to \<in> set TASK_TRANSITIONS"
  by (auto simp: assertTaskTransition_iff intro: task_step.intros elim!: task_stepE)

lemma taskTransitionEvent_Some:
  "taskTransitionEvent from to = Some e \<Longrightarrow> edge from e to \<in> set TASK_TRANSITIONS"
proof -
  assume "taskTransitionEvent from to = Some e"
  then obtain t where f: "find (\<lambda>t. tt_from t = from \<and> tt_to t = to) TASK_TRANSITIONS = Some t"
    and e: "tt_event t = e"
    by (auto simp: taskTransitionEvent_def split: option.splits)
  have "t \<in> set TASK_TRANSITIONS \<and> tt_from t = from \<and> tt_to t = to"
    using find_Some_set [OF f] by simp
  moreover have "t = edge (tt_from t) (tt_event t) (tt_to t)" by (simp add: edge_def)
  ultimately show ?thesis using e by metis
qed

lemma taskTransitionEvent_None:
  "taskTransitionEvent from to = None \<longleftrightarrow> (\<forall>e. edge from e to \<notin> set TASK_TRANSITIONS)"
proof
  assume "taskTransitionEvent from to = None"
  then show "\<forall>e. edge from e to \<notin> set TASK_TRANSITIONS"
    by (fastforce simp: taskTransitionEvent_def find_None_set split: option.splits)
next
  assume "\<forall>e. edge from e to \<notin> set TASK_TRANSITIONS"
  then show "taskTransitionEvent from to = None"
    using taskTransitionEvent_Some by (cases "taskTransitionEvent from to") auto
qed

text \<open>The event the engine derives for a target state always passes the engine's own guard.\<close>

lemma derived_event_passes_guard:
  "taskTransitionEvent from to = Some e \<Longrightarrow> assertTaskTransition from to e = Inr ()"
  by (simp add: assertTaskTransition_iff taskTransitionEvent_Some)

lemmas fsm_table = assertTaskTransition_iff TASK_TRANSITIONS_def

lemma from_terminal:
  "task_step s e t \<Longrightarrow> s = Completed \<or> s = Failed \<or> s = Stopped \<Longrightarrow> s = Stopped \<and> t = Stopped"
  unfolding task_step_iff TASK_TRANSITIONS_def by auto

lemma into_completed: "task_step s e Completed \<Longrightarrow> s = Running \<and> e = ''task.success''"
  unfolding task_step_iff TASK_TRANSITIONS_def by auto

text \<open>
  the event the engine derives for a target state is one its own guard accepts, and it derives
  none exactly when the guard refuses every event for that pair of states.
\<close>

theorem derived_event_iff_legal:
  "(\<exists>e. taskTransitionEvent from to = Some e \<and> assertTaskTransition from to e = Inr ())
     \<longleftrightarrow> (\<exists>e. assertTaskTransition from to e = Inr ())"
proof
  assume "\<exists>e. assertTaskTransition from to e = Inr ()"
  then have "taskTransitionEvent from to \<noteq> None"
    by (auto simp: assertTaskTransition_iff taskTransitionEvent_None)
  then show "\<exists>e. taskTransitionEvent from to = Some e \<and> assertTaskTransition from to e = Inr ()"
    using derived_event_passes_guard by blast
qed blast

text \<open>
  a task that is completed, failed or stopped never becomes live again, whatever sequence of
  legal transitions follows.
\<close>

theorem terminal_states_absorb:
  assumes "task_path s t" and "s \<in> {Completed, Failed, Stopped}"
  shows "t = s"
  using assms
proof (induction rule: task_path.induct)
  case (path_refl s)
  show ?case by simp
next
  case (path_step s t e u)
  then show ?case using from_terminal [OF path_step.hyps(2)] by auto
qed

theorem terminal_states_absorb_witness:
  "task_path Stopped Stopped \<and> Stopped = Stopped"
proof -
  have st: "task_step Stopped ''human.resume'' Stopped"
    by (simp add: task_step_iff TASK_TRANSITIONS_def)
  have p: "task_path Stopped Stopped"
    by (rule task_path.path_step [OF task_path.path_refl st])
  show ?thesis using p terminal_states_absorb [OF p] by simp
qed

end
