(* ===== verification/Authority.thy ===== *)
theory Authority
  imports Prelude
begin

text \<open>
  The authority gate of \<open>packages/core-engine/src/policy/authority.ts\<close> over the vocabulary of
  \<open>contracts/types.ts\<close>: the rank table of the four assignable clearances, the order on requirements,
  \<open>strictestRequirement\<close> and \<open>evaluateAuthorityVerdict\<close>. A grant or a requirement reaches the gate as
  an unchecked value (\<^typ>\<open>json\<close>), because it is read from a registry row. The levels are a linear
  order (\<open>instantiation\<close>), the one \<open>requirementOrder\<close> gives.
\<close>

datatype authority_level = AUTH0 | AUTH1 | AUTH2 | AUTH3 | AUTH4 | AUTH5

datatype authority_verdict = AUTO_APPROVED | AWAITING_HUMAN_APPROVAL | DENIED

definition AUTHORITY_LEVELS :: "authority_level list" where
  "AUTHORITY_LEVELS = [AUTH0, AUTH1, AUTH2, AUTH3, AUTH4, AUTH5]"

fun level_label :: "authority_level \<Rightarrow> string" where
  "level_label AUTH0 = ''AUTH-0''"
| "level_label AUTH1 = ''AUTH-1''"
| "level_label AUTH2 = ''AUTH-2''"
| "level_label AUTH3 = ''AUTH-3''"
| "level_label AUTH4 = ''AUTH-4''"
| "level_label AUTH5 = ''AUTH-5''"

text \<open>\<open>AUTHORITY_RANK\<close>; a level outside its domain has no rank.\<close>

fun AUTHORITY_RANK :: "authority_level \<Rightarrow> nat option" where
  "AUTHORITY_RANK AUTH0 = Some 0"
| "AUTHORITY_RANK AUTH1 = Some 1"
| "AUTHORITY_RANK AUTH2 = Some 2"
| "AUTHORITY_RANK AUTH3 = Some 3"
| "AUTHORITY_RANK _ = None"

text \<open>The level a string denotes: what narrowing by \<open>isAuthorityLevel\<close> leaves.\<close>

definition level_of_string :: "string \<Rightarrow> authority_level option" where
  "level_of_string s = find (\<lambda>l. level_label l = s) AUTHORITY_LEVELS"

fun level_of :: "json \<Rightarrow> authority_level option" where
  "level_of (JStr s) = level_of_string s"
| "level_of _ = None"

definition isAuthorityLevel :: "json \<Rightarrow> bool" where
  "isAuthorityLevel v = (case v of JStr s \<Rightarrow> list_ex (\<lambda>l. level_label l = s) AUTHORITY_LEVELS | _ \<Rightarrow> False)"

definition isAssignableAuthority :: "json \<Rightarrow> bool" where
  "isAssignableAuthority v =
     (case v of JStr s \<Rightarrow> list_ex (\<lambda>l. AUTHORITY_RANK l \<noteq> None \<and> level_label l = s) AUTHORITY_LEVELS
              | _ \<Rightarrow> False)"

definition requirementOrder :: "authority_level \<Rightarrow> nat" where
  "requirementOrder l =
     (case AUTHORITY_RANK l of Some r \<Rightarrow> r | None \<Rightarrow> if l = AUTH4 then 4 else 5)"

definition strictestRequirement :: "authority_level \<Rightarrow> authority_level \<Rightarrow> authority_level" where
  "strictestRequirement registryRequirement declaredRequirement =
     (if requirementOrder declaredRequirement \<le> requirementOrder registryRequirement
      then registryRequirement else declaredRequirement)"

datatype authority_deny_code =
    CLEARANCE_REQUIRED | INVALID_CLEARANCE | INVALID_AUTHORITY_REQUIREMENT
  | PROHIBITED_ACTION | INSUFFICIENT_AUTHORITY

text \<open>The outcome of the gate; its \<open>reason\<close> is a rendering of the other members and is left out.\<close>

record authority_decision =
  ad_verdict :: authority_verdict
  ad_granted :: "authority_level option"
  ad_required :: "authority_level option"
  ad_errorCode :: "authority_deny_code option"
  ad_rankCompared :: bool

definition absent_grant :: "json \<Rightarrow> bool" where
  "absent_grant v \<longleftrightarrow> v = JUndef \<or> v = JNull \<or> v = JStr []"

text \<open>\<open>AUTHORITY_RANK[granted] < AUTHORITY_RANK[required]\<close> on two assignable levels.\<close>

fun rank_below :: "nat option \<Rightarrow> nat option \<Rightarrow> bool" where
  "rank_below (Some a) (Some b) = (a < b)"
| "rank_below _ _ = False"

definition evaluateAuthorityVerdict :: "json \<Rightarrow> json \<Rightarrow> authority_decision" where
  "evaluateAuthorityVerdict granted required =
    (if \<not> isAssignableAuthority granted then
       \<lparr>ad_verdict = DENIED, ad_granted = None, ad_required = level_of required,
        ad_errorCode = Some (if absent_grant granted then CLEARANCE_REQUIRED else INVALID_CLEARANCE),
        ad_rankCompared = False\<rparr>
     else let g = level_of granted in
     if \<not> isAuthorityLevel required then
       \<lparr>ad_verdict = DENIED, ad_granted = g, ad_required = None,
        ad_errorCode = Some INVALID_AUTHORITY_REQUIREMENT, ad_rankCompared = False\<rparr>
     else let r = level_of required in
     if r = Some AUTH5 then
       \<lparr>ad_verdict = DENIED, ad_granted = g, ad_required = r,
        ad_errorCode = Some PROHIBITED_ACTION, ad_rankCompared = False\<rparr>
     else if r = Some AUTH4 then
       \<lparr>ad_verdict = AWAITING_HUMAN_APPROVAL, ad_granted = g, ad_required = r,
        ad_errorCode = None, ad_rankCompared = False\<rparr>
     else if rank_below (Option.bind g AUTHORITY_RANK) (Option.bind r AUTHORITY_RANK) then
       \<lparr>ad_verdict = DENIED, ad_granted = g, ad_required = r,
        ad_errorCode = Some INSUFFICIENT_AUTHORITY, ad_rankCompared = True\<rparr>
     else
       \<lparr>ad_verdict = AUTO_APPROVED, ad_granted = g, ad_required = r,
        ad_errorCode = None, ad_rankCompared = True\<rparr>)"

subsection \<open>The order on requirements\<close>

lemma requirementOrder_simps [simp]:
  "requirementOrder AUTH0 = 0" "requirementOrder AUTH1 = 1" "requirementOrder AUTH2 = 2"
  "requirementOrder AUTH3 = 3" "requirementOrder AUTH4 = 4" "requirementOrder AUTH5 = 5"
  by (simp_all add: requirementOrder_def)

lemma requirementOrder_inj: "requirementOrder a = requirementOrder b \<Longrightarrow> a = b"
  by (cases a; cases b) simp_all

instantiation authority_level :: linorder
begin

definition less_eq_authority_level :: "authority_level \<Rightarrow> authority_level \<Rightarrow> bool" where
  "less_eq_authority_level a b \<longleftrightarrow> requirementOrder a \<le> requirementOrder b"

definition less_authority_level :: "authority_level \<Rightarrow> authority_level \<Rightarrow> bool" where
  "less_authority_level a b \<longleftrightarrow> requirementOrder a < requirementOrder b"

instance
  by standard
    (auto simp: less_eq_authority_level_def less_authority_level_def dest: requirementOrder_inj)

end

lemma strictestRequirement_max: "strictestRequirement a b = max a b"
  by (auto simp: strictestRequirement_def max_def less_eq_authority_level_def
      dest: requirementOrder_inj)

lemmas level_order = less_eq_authority_level_def less_authority_level_def

lemma level_of_string_label [simp]: "level_of_string (level_label l) = Some l"
  by (cases l) (simp_all add: level_of_string_def AUTHORITY_LEVELS_def)

lemma level_label_inject [simp]: "level_label a = level_label b \<longleftrightarrow> a = b"
  by (metis level_of_string_label option.inject)

lemma level_label_AUTH4 [simp]:
  "level_label r = ''AUTH-4'' \<longleftrightarrow> r = AUTH4" "''AUTH-4'' = level_label r \<longleftrightarrow> r = AUTH4"
  by (cases r; simp)+

lemma level_of_string_Some: "level_of_string s = Some l \<Longrightarrow> s = level_label l"
  by (auto simp: level_of_string_def dest: find_Some_set)

lemma level_of_Some: "level_of v = Some l \<longleftrightarrow> v = JStr (level_label l)"
  by (cases v) (auto dest: level_of_string_Some)

lemma isAuthorityLevel_iff: "isAuthorityLevel v \<longleftrightarrow> (\<exists>l. level_of v = Some l)"
proof -
  have "list_ex P xs \<longleftrightarrow> (\<exists>x. find P xs = Some x)" for P and xs :: "authority_level list"
    by (induction xs) auto
  then show ?thesis
    by (cases v) (simp_all add: isAuthorityLevel_def level_of_string_def)
qed

lemma isAssignableAuthority_iff:
  "isAssignableAuthority v \<longleftrightarrow> (\<exists>l. v = JStr (level_label l) \<and> l \<le> AUTH3)"
proof -
  have "AUTHORITY_RANK l \<noteq> None \<longleftrightarrow> l \<le> AUTH3" for l
    by (cases l) (simp_all add: level_order)
  moreover have "l \<in> set AUTHORITY_LEVELS" for l
    by (cases l) (simp_all add: AUTHORITY_LEVELS_def)
  ultimately show ?thesis
    by (cases v) (auto simp: isAssignableAuthority_def list_ex_iff)
qed

lemma rank_below_iff:
  "g \<le> AUTH3 \<Longrightarrow> r \<le> AUTH3 \<Longrightarrow> rank_below (AUTHORITY_RANK g) (AUTHORITY_RANK r) \<longleftrightarrow> g < r"
  by (cases g; cases r) (simp_all add: level_order)

subsection \<open>What the gate decides\<close>

lemma verdict_bad_grant:
  "\<not> isAssignableAuthority g \<Longrightarrow> ad_verdict (evaluateAuthorityVerdict g r) = DENIED"
  by (simp add: evaluateAuthorityVerdict_def)

lemma verdict_bad_requirement:
  "level_of r = None \<Longrightarrow> ad_verdict (evaluateAuthorityVerdict g r) = DENIED"
  by (simp add: evaluateAuthorityVerdict_def isAuthorityLevel_iff)

lemma verdict_levels:
  assumes "g \<le> AUTH3"
  shows "evaluateAuthorityVerdict (JStr (level_label g)) (JStr (level_label r)) =
    \<lparr>ad_verdict = (if r = AUTH4 then AWAITING_HUMAN_APPROVAL
                   else if r \<le> g then AUTO_APPROVED else DENIED),
     ad_granted = Some g, ad_required = Some r,
     ad_errorCode = (if r = AUTH5 then Some PROHIBITED_ACTION
                     else if r = AUTH4 \<or> r \<le> g then None else Some INSUFFICIENT_AUTHORITY),
     ad_rankCompared = (r \<le> AUTH3)\<rparr>"
proof -
  have a: "isAssignableAuthority (JStr (level_label g))"
    using assms by (auto simp: isAssignableAuthority_iff)
  have l: "isAuthorityLevel (JStr (level_label r))" by (simp add: isAuthorityLevel_iff)
  show ?thesis
  proof (cases "r \<le> AUTH3")
    case True
    then have "r \<noteq> AUTH4" "r \<noteq> AUTH5" by (auto simp: level_order)
    then show ?thesis
      using a l True rank_below_iff [OF assms True]
      by (auto simp: evaluateAuthorityVerdict_def Let_def not_le)
  next
    case False
    then have "r = AUTH4 \<or> r = AUTH5" by (cases r) (simp_all add: level_order)
    moreover have "\<not> AUTH5 \<le> g" "\<not> AUTH4 \<le> g" using assms by (cases g; simp add: level_order)+
    ultimately show ?thesis
      using a l False by (auto simp: evaluateAuthorityVerdict_def Let_def)
  qed
qed

text \<open>
  the gate approves on its own exactly when the grant is one of the four assignable
  clearances, the requirement is a level of the vocabulary, and the requirement is at most the
  grant; so neither AUTH-4 nor AUTH-5 is ever approved without a human, whatever is granted.
\<close>

theorem auto_approved_iff:
  "ad_verdict (evaluateAuthorityVerdict g r) = AUTO_APPROVED \<longleftrightarrow>
     (\<exists>gl rl. g = JStr (level_label gl) \<and> r = JStr (level_label rl) \<and> gl \<le> AUTH3 \<and> rl \<le> gl)"
proof (cases "isAssignableAuthority g")
  case False
  then show ?thesis by (auto simp: verdict_bad_grant isAssignableAuthority_iff)
next
  case True
  then obtain gl where gl: "g = JStr (level_label gl)" "gl \<le> AUTH3"
    by (auto simp: isAssignableAuthority_iff)
  show ?thesis
  proof (cases "level_of r")
    case None
    then show ?thesis by (auto simp: verdict_bad_requirement level_of_Some)
  next
    case (Some rl)
    then have r: "r = JStr (level_label rl)" by (simp add: level_of_Some)
    have "rl = AUTH4 \<Longrightarrow> \<not> rl \<le> gl" using gl(2) by (cases gl) (simp_all add: level_order)
    then show ?thesis
      using gl r by (auto simp: verdict_levels)
  qed
qed

text \<open>
  a requirement a proposal declares for itself can only restrict: if the gate approves the
  stricter of the registry's and the declared requirement, it approves the registry's alone; and a
  declared AUTH-5 is always denied.
\<close>

theorem declared_requirement_only_restricts:
  "(ad_verdict (evaluateAuthorityVerdict g (JStr (level_label (strictestRequirement reg decl)))) = AUTO_APPROVED
     \<longrightarrow> ad_verdict (evaluateAuthorityVerdict g (JStr (level_label reg))) = AUTO_APPROVED)
   \<and> ad_verdict (evaluateAuthorityVerdict g (JStr (level_label (strictestRequirement reg AUTH5)))) = DENIED"
proof
  show "ad_verdict (evaluateAuthorityVerdict g (JStr (level_label (strictestRequirement reg decl)))) = AUTO_APPROVED
     \<longrightarrow> ad_verdict (evaluateAuthorityVerdict g (JStr (level_label reg))) = AUTO_APPROVED"
  proof
    assume "ad_verdict (evaluateAuthorityVerdict g (JStr (level_label (strictestRequirement reg decl)))) = AUTO_APPROVED"
    then obtain gl rl where "isAssignableAuthority g" "g = JStr (level_label gl)" "gl \<le> AUTH3"
      and l: "level_label (strictestRequirement reg decl) = level_label rl" and "rl \<le> gl"
    proof (cases "isAssignableAuthority g")
      case False
      then show ?thesis
        using \<open>ad_verdict _ = AUTO_APPROVED\<close> by (simp add: verdict_bad_grant)
    next
      case True
      then obtain gl where gl: "g = JStr (level_label gl)" "gl \<le> AUTH3"
        by (auto simp: isAssignableAuthority_iff)
      then have "strictestRequirement reg decl \<le> gl"
        using \<open>ad_verdict _ = AUTO_APPROVED\<close> by (simp add: verdict_levels split: if_splits)
      with True gl that show ?thesis by blast
    qed
    then have "reg \<le> gl"
      using l by (metis level_label_inject strictestRequirement_max max.cobounded1 order.trans)
    moreover have "reg \<noteq> AUTH4"
      using \<open>reg \<le> gl\<close> \<open>gl \<le> AUTH3\<close> by (auto simp: level_order)
    ultimately show "ad_verdict (evaluateAuthorityVerdict g (JStr (level_label reg))) = AUTO_APPROVED"
      using \<open>g = JStr (level_label gl)\<close> \<open>gl \<le> AUTH3\<close> by (simp add: verdict_levels)
  qed
  have m: "strictestRequirement reg AUTH5 = AUTH5"
    by (cases reg) (simp_all add: strictestRequirement_def)
  show "ad_verdict (evaluateAuthorityVerdict g (JStr (level_label (strictestRequirement reg AUTH5)))) = DENIED"
  proof (cases "isAssignableAuthority g")
    case False
    then show ?thesis by (rule verdict_bad_grant)
  next
    case True
    then obtain gl where gl: "g = JStr (level_label gl)" "gl \<le> AUTH3"
      by (auto simp: isAssignableAuthority_iff)
    then have "\<not> AUTH5 \<le> gl" by (cases gl) (simp_all add: level_order)
    then show ?thesis using verdict_levels [OF gl(2), of AUTH5] gl m by simp
  qed
qed

theorem declared_requirement_only_restricts_witness:
  "ad_verdict (evaluateAuthorityVerdict (JStr ''AUTH-2'') (JStr ''AUTH-1'')) = AUTO_APPROVED"
proof -
  have s: "level_label (strictestRequirement AUTH1 AUTH2) = ''AUTH-2''"
    by (simp add: strictestRequirement_def)
  have "ad_verdict (evaluateAuthorityVerdict (JStr ''AUTH-2'')
      (JStr (level_label (strictestRequirement AUTH1 AUTH2)))) = AUTO_APPROVED"
    unfolding s by code_simp
  then show ?thesis
    using declared_requirement_only_restricts [of "JStr ''AUTH-2''" AUTH1 AUTH2] by simp
qed

end
