(* ===== verification/Contracts.thy ===== *)
theory Contracts
  imports Prelude
begin

text \<open>
  Records that several components exchange (\<open>packages/core-engine/src/contracts/types.ts\<close>): the
  draft of an action, its object form, and the reading of an object member.
\<close>

text \<open>\<open>o[k]\<close> on a plain object: an absent member reads as \<open>undefined\<close>.\<close>

definition member :: "jobject \<Rightarrow> string \<Rightarrow> json" where
  "member o1 k = (case map_of o1 k of None \<Rightarrow> JUndef | Some v \<Rightarrow> v)"

text \<open>An optional member of an object literal, \<open>...(v !== undefined ? { k: v } : {})\<close>.\<close>

definition opt_member :: "string \<Rightarrow> json option \<Rightarrow> jobject" where
  "opt_member k v = (case v of None \<Rightarrow> [] | Some x \<Rightarrow> [(k, x)])"

lemma member_Cons: "member ((k', v) # o1) k = (if k = k' then v else member o1 k)"
  by (simp add: member_def)

lemma member_update: "member (AList.update k' v o1) k = (if k = k' then v else member o1 k)"
  by (simp add: member_def map_of_update)

lemma member_delete: "member (AList.delete k' o1) k = (if k = k' then JUndef else member o1 k)"
  by (simp add: member_def delete_conv')

lemma member_spread_one: "member (spread o1 [(k', v)]) k = (if k = k' then v else member o1 k)"
  by (simp add: member_update)

text \<open>
  \<open>ActionDraft\<close>. The fields the modelled code never reads are kept because the engine stores the
  whole draft in the checkpoint.
\<close>

record action_draft =
  ac_action_id :: string
  ac_run_id :: string
  ac_tenant_id :: string
  ac_agent_id :: string
  ac_skill_id :: string
  ac_adapter_target :: string
  ac_step_index :: jnum
  ac_mutating :: bool
  ac_price_bearing :: bool
  ac_request_id :: string
  ac_action_revision :: jnum
  ac_effect_key :: string
  ac_required_authority :: json
  ac_payload :: jobject
  ac_computed_price_floor :: "jnum option"
  ac_floor_source :: "string option"
  ac_proposed_price :: "jnum option"
  ac_approval_payload_digest :: "string option"
  ac_approval_id :: "string option"

definition draft_object :: "action_draft \<Rightarrow> jobject" where
  "draft_object d =
    [(''action_id'', JStr (ac_action_id d)),
     (''run_id'', JStr (ac_run_id d)),
     (''tenant_id'', JStr (ac_tenant_id d)),
     (''agent_id'', JStr (ac_agent_id d)),
     (''skill_id'', JStr (ac_skill_id d)),
     (''adapter_target'', JStr (ac_adapter_target d)),
     (''step_index'', JNum (ac_step_index d)),
     (''mutating'', JBool (ac_mutating d)),
     (''price_bearing'', JBool (ac_price_bearing d)),
     (''request_id'', JStr (ac_request_id d)),
     (''action_revision'', JNum (ac_action_revision d)),
     (''effect_key'', JStr (ac_effect_key d)),
     (''required_authority'', ac_required_authority d),
     (''payload'', JObj (ac_payload d))]
    @ opt_member ''computed_price_floor'' (map_option JNum (ac_computed_price_floor d))
    @ opt_member ''floor_source'' (map_option JStr (ac_floor_source d))
    @ opt_member ''proposed_price'' (map_option JNum (ac_proposed_price d))
    @ opt_member ''approval_payload_digest'' (map_option JStr (ac_approval_payload_digest d))
    @ opt_member ''approval_id'' (map_option JStr (ac_approval_id d))"

end
