(* ===== verification/CanonicalJson.thy ===== *)
theory CanonicalJson
  imports Prelude "HOL-Library.Multiset" "HOL-Library.List_Lexorder" "HOL-Library.Char_ord"
begin

text \<open>
  Canonical JSON and digests: \<open>packages/database/src/repositories/canonical-json.ts\<close> and the
  wrappers of \<open>packages/core-engine/src/durability/canonical-json.ts\<close> and
  \<open>effects/canonical-json.ts\<close>. \<open>sha256\<close>, \<open>hmac\<close> (\<open>node:crypto\<close>) and the decimal rendering of a
  finite number (ECMAScript's \<open>Number::toString\<close>) are the members of a \<open>runtime\<close> record that every
  digest takes as its first argument. Members are sorted by code unit, as
  \<^theory_text>\<open>HOL-Library.List_Lexorder\<close> over \<^theory_text>\<open>HOL-Library.Char_ord\<close> does. A code unit below 256 is no
  surrogate, so the well-formedness test of strings always passes here.
\<close>

record runtime =
  rt_sha256 :: "string \<Rightarrow> string"
  rt_hmac :: "string \<Rightarrow> string \<Rightarrow> string"
  rt_numtext :: "rat \<Rightarrow> string"

subsection \<open>\<open>JSON.stringify\<close> of a string\<close>

definition hex_digit :: "nat \<Rightarrow> char" where
  "hex_digit n = ''0123456789abcdef'' ! n"

definition json_escape :: "char \<Rightarrow> string" where
  "json_escape c =
    (if c = CHR 0x22 then [CHR 0x5C, CHR 0x22]
     else if c = CHR 0x5C then [CHR 0x5C, CHR 0x5C]
     else if c = CHR 0x08 then [CHR 0x5C, CHR ''b'']
     else if c = CHR 0x09 then [CHR 0x5C, CHR ''t'']
     else if c = CHR 0x0A then [CHR 0x5C, CHR ''n'']
     else if c = CHR 0x0C then [CHR 0x5C, CHR ''f'']
     else if c = CHR 0x0D then [CHR 0x5C, CHR ''r'']
     else if of_char c < (32 :: nat)
     then [CHR 0x5C, CHR ''u'', CHR ''0'', CHR ''0'',
           hex_digit (of_char c div 16), hex_digit (of_char c mod 16)]
     else [c])"

definition json_quote :: "string \<Rightarrow> string" where
  "json_quote s = CHR 0x22 # concat (map json_escape s) @ [CHR 0x22]"

subsection \<open>Canonical serialization\<close>

definition join_with :: "string \<Rightarrow> string list \<Rightarrow> string" where
  "join_with sep xs = concat (case xs of [] \<Rightarrow> [] | y # ys \<Rightarrow> y # map (\<lambda>z. sep @ z) ys)"

definition canonical_invalid :: failure where
  "canonical_invalid = ThrownError ''CANONICAL_JSON_INVALID''"

fun serializeCanonical :: "runtime \<Rightarrow> json \<Rightarrow> string result"
  and serialize_items :: "runtime \<Rightarrow> json list \<Rightarrow> string list result"
  and serialize_members :: "runtime \<Rightarrow> (string \<times> json) list \<Rightarrow> (string \<times> string) list result" where
  "serializeCanonical rt JNull = Inr ''null''"
| "serializeCanonical rt (JBool b) = Inr (if b then ''true'' else ''false'')"
| "serializeCanonical rt (JNum (Fin q)) = Inr (rt_numtext rt q)"
| "serializeCanonical rt (JNum _) = Inl canonical_invalid"
| "serializeCanonical rt (JStr s) = Inr (json_quote s)"
| "serializeCanonical rt (JArr xs) =
     andThen (serialize_items rt xs) (\<lambda>parts. Inr (''['' @ join_with '','' parts @ '']''))"
| "serializeCanonical rt (JObj ms) =
     andThen (serialize_members rt ms)
       (\<lambda>parts. Inr (''{'' @ join_with '',''
          (map (\<lambda>(k, t). json_quote k @ '':'' @ t) (sort_key fst parts)) @ ''}''))"
| "serializeCanonical rt JUndef = Inl canonical_invalid"
| "serializeCanonical rt JOther = Inl canonical_invalid"
| "serialize_items rt [] = Inr []"
| "serialize_items rt (x # xs) =
     andThen (serializeCanonical rt x) (\<lambda>t. andThen (serialize_items rt xs) (\<lambda>ts. Inr (t # ts)))"
| "serialize_members rt [] = Inr []"
| "serialize_members rt ((k, x) # ms) =
     andThen (serializeCanonical rt x)
       (\<lambda>t. andThen (serialize_members rt ms) (\<lambda>ts. Inr ((k, t) # ts)))"

text \<open>\<open>canonicalizeJson\<close> of the database package and of the two layers above it.\<close>

definition database_canonicalizeJson :: "runtime \<Rightarrow> json \<Rightarrow> string result" where
  "database_canonicalizeJson rt v = serializeCanonical rt v"

definition durable_canonicalizeJson :: "runtime \<Rightarrow> json \<Rightarrow> string result" where
  "durable_canonicalizeJson rt v =
     (case database_canonicalizeJson rt v of
        Inl _ \<Rightarrow> Inl (OrchestratorError ''CANONICAL_JSON_INVALID'')
      | Inr t \<Rightarrow> Inr t)"

definition effect_canonicalizeJson :: "runtime \<Rightarrow> json \<Rightarrow> string result" where
  "effect_canonicalizeJson rt v =
     (case durable_canonicalizeJson rt v of
        Inl _ \<Rightarrow> Inl (OrchestratorError ''CANONICAL_JSON_UNSUPPORTED'')
      | Inr t \<Rightarrow> Inr t)"

definition sha256CanonicalJson :: "runtime \<Rightarrow> json \<Rightarrow> string result" where
  "sha256CanonicalJson rt v = andThen (durable_canonicalizeJson rt v) (\<lambda>t. Inr (rt_sha256 rt t))"

definition isSha256Hex :: "string \<Rightarrow> bool" where
  "isSha256Hex s \<longleftrightarrow> length s = 64 \<and> list_all (\<lambda>c. c \<in> set ''0123456789abcdef'') s"

lemma hex_length: "isSha256Hex k \<Longrightarrow> length k = 64"
  by (simp add: isSha256Hex_def)

subsection \<open>Which values have a canonical form\<close>

fun canonical :: "json \<Rightarrow> bool" where
  "canonical JNull = True"
| "canonical (JBool _) = True"
| "canonical (JNum n) = is_finite n"
| "canonical (JStr _) = True"
| "canonical (JArr xs) = list_all canonical xs"
| "canonical (JObj ms) = list_all (\<lambda>(k, v). canonical v) ms"
| "canonical JUndef = False"
| "canonical JOther = False"

lemma serialize_succeeds:
  "succeeds (serializeCanonical rt v) = canonical v"
  "succeeds (serialize_items rt xs) = list_all canonical xs"
  "succeeds (serialize_members rt ms) = list_all (\<lambda>(k, v). canonical v) ms"
proof (induction rt v and rt xs and rt ms
    rule: serializeCanonical_serialize_items_serialize_members.induct)
  case (6 rt xs)
  then show ?case by (cases "serialize_items rt xs") auto
next
  case (7 rt ms)
  then show ?case by (cases "serialize_members rt ms") auto
next
  case (11 rt x xs)
  then show ?case
    by (cases "serializeCanonical rt x"; cases "serialize_items rt xs") auto
next
  case (13 rt k x ms)
  then show ?case
    by (cases "serializeCanonical rt x"; cases "serialize_members rt ms") auto
qed simp_all

subsection \<open>Strings are uniquely decodable\<close>

definition hex_value :: "char \<Rightarrow> nat" where
  "hex_value c = (if of_char c < (58 :: nat) then of_char c - 48 else of_char c - 87)"

lemma hex_value_digit: "n < 16 \<Longrightarrow> hex_value (hex_digit n) = n"
proof -
  assume n: "n < 16"
  have "list_all (\<lambda>n. hex_value (hex_digit n) = n) [0..<16]" by code_simp
  with n show ?thesis by (simp add: list_all_iff)
qed

fun json_unescape :: "string \<Rightarrow> (char \<times> string) option" where
  "json_unescape (c # cs) =
    (if c \<noteq> CHR 0x5C then Some (c, cs) else
     case cs of
       [] \<Rightarrow> None
     | d # ds \<Rightarrow>
       if d = CHR ''b'' then Some (CHR 0x08, ds)
       else if d = CHR ''t'' then Some (CHR 0x09, ds)
       else if d = CHR ''n'' then Some (CHR 0x0A, ds)
       else if d = CHR ''f'' then Some (CHR 0x0C, ds)
       else if d = CHR ''r'' then Some (CHR 0x0D, ds)
       else if d = CHR ''u'' then
         (case ds of
            _ # _ # a # b # rest \<Rightarrow> Some (char_of (16 * hex_value a + hex_value b), rest)
          | _ \<Rightarrow> None)
       else Some (d, ds))"
| "json_unescape [] = None"

lemma unescape_escape: "json_unescape (json_escape c @ rest) = Some (c, rest)"
proof -
  have "of_char c < (32 :: nat) \<Longrightarrow>
      16 * hex_value (hex_digit (of_char c div 16)) + hex_value (hex_digit (of_char c mod 16)) = of_char c"
    by (simp add: hex_value_digit)
  then show ?thesis by (auto simp: json_escape_def)
qed

lemma escape_not_quote: "json_escape c @ rest \<noteq> CHR 0x22 # rest'"
  by (auto simp: json_escape_def)

lemma escape_body_inj:
  "concat (map json_escape a) @ CHR 0x22 # x = concat (map json_escape b) @ CHR 0x22 # y \<Longrightarrow>
   a = b \<and> x = y"
proof (induction a arbitrary: b)
  case Nil
  then show ?case
    using escape_not_quote [of "hd b" "concat (map json_escape (tl b)) @ CHR 0x22 # y" x]
    by (cases b) auto
next
  case (Cons c cs)
  show ?case
  proof (cases b)
    case Nil
    with Cons.prems show ?thesis
      using escape_not_quote [of c "concat (map json_escape cs) @ CHR 0x22 # x" y] by simp
  next
    case (Cons d ds)
    with Cons.prems have e: "json_escape c @ concat (map json_escape cs) @ CHR 0x22 # x =
        json_escape d @ concat (map json_escape ds) @ CHR 0x22 # y" by simp
    then have "json_unescape (json_escape c @ concat (map json_escape cs) @ CHR 0x22 # x) =
        json_unescape (json_escape d @ concat (map json_escape ds) @ CHR 0x22 # y)"
      by simp
    then have "c = d" and
      "concat (map json_escape cs) @ CHR 0x22 # x = concat (map json_escape ds) @ CHR 0x22 # y"
      by (simp_all only: unescape_escape option.inject prod.inject)
    with Cons.IH Cons show ?thesis by blast
  qed
qed

lemma json_quote_inj: "json_quote a @ x = json_quote b @ y \<Longrightarrow> a = b \<and> x = y"
  by (rule escape_body_inj) (simp add: json_quote_def)

lemma serialize_refusal_code:
  "serializeCanonical rt v = Inl e \<Longrightarrow> e = canonical_invalid"
  "serialize_items rt xs = Inl e \<Longrightarrow> e = canonical_invalid"
  "serialize_members rt ms = Inl e \<Longrightarrow> e = canonical_invalid"
  by (induction rt v and rt xs and rt ms
      rule: serializeCanonical_serialize_items_serialize_members.induct)
    (auto simp: andThen_Inl_iff)

text \<open>The text of a canonical value; only used where the value is canonical.\<close>

definition text_of :: "runtime \<Rightarrow> json \<Rightarrow> string" where
  "text_of rt v = (case serializeCanonical rt v of Inr t \<Rightarrow> t | Inl _ \<Rightarrow> [])"

lemma serialize_text_of: "serializeCanonical rt v =
    (if canonical v then Inr (text_of rt v) else Inl canonical_invalid)"
  using serialize_succeeds(1) [of rt v] serialize_refusal_code(1) [of rt v]
  by (cases "serializeCanonical rt v") (auto simp: text_of_def)

lemma serialize_members_text_of: "serialize_members rt ms =
    (if list_all (\<lambda>(k, v). canonical v) ms then Inr (map (\<lambda>(k, v). (k, text_of rt v)) ms)
     else Inl canonical_invalid)"
  by (induction ms) (auto simp: serialize_text_of)

text \<open>
  the canonical form of an object does not depend on the order its members were inserted in:
  two objects with the same members have the same text, hence the same digest.
\<close>

theorem canonical_form_ignores_member_order:
  assumes "mset ms = mset ms'" and "distinct (map fst ms)"
  shows "sha256CanonicalJson rt (JObj ms) = sha256CanonicalJson rt (JObj ms')"
proof -
  let ?f = "\<lambda>(k, v). (k, text_of rt v)"
  have set: "set ms = set ms'" using assms(1) by (rule mset_eq_setD)
  have "map fst (map ?f ms) = map fst ms" by (simp add: case_prod_beta comp_def)
  then have "inj_on fst (set (map ?f ms))" using assms(2) by (metis distinct_map)
  moreover have "mset (map ?f ms) = mset (map ?f ms')" using assms(1) by simp
  ultimately have "sort_key fst (map ?f ms) = sort_key fst (map ?f ms')"
    by (metis sort_key_eq_sort_key)
  then have "serializeCanonical rt (JObj ms) = serializeCanonical rt (JObj ms')"
    using set by (simp add: serialize_members_text_of list_all_iff)
  then show ?thesis
    by (simp add: sha256CanonicalJson_def durable_canonicalizeJson_def database_canonicalizeJson_def)
qed

text \<open>A runtime whose digest is the text itself.\<close>

definition echo_runtime :: runtime where
  "echo_runtime = \<lparr>rt_sha256 = (\<lambda>s. s), rt_hmac = (\<lambda>k s. k @ s), rt_numtext = (\<lambda>_. ''0'')\<rparr>"

theorem canonical_form_ignores_member_order_witness:
  "sha256CanonicalJson echo_runtime (JObj [(''b'', JNull), (''a'', JBool True)])
     = sha256CanonicalJson echo_runtime (JObj [(''a'', JBool True), (''b'', JNull)])"
  by (rule canonical_form_ignores_member_order) simp_all

end
