(* ===== verification/EffectKey.thy ===== *)
theory EffectKey
  imports CanonicalJson
begin

text \<open>
  The identity of an external effect: \<open>computeEffectKey\<close> and \<open>computeRequestFingerprint\<close> of
  \<open>packages/core-engine/src/effects/effect-key.ts\<close>. The lemmas show that the text the key is a
  digest of determines the identity it was built from.
\<close>

record effect_key_input =
  ek_tenant_id :: string
  ek_skill_id :: string
  ek_step_index :: jnum
  ek_action_revision :: jnum
  ek_request_id :: string

definition effect_identity :: "effect_key_input \<Rightarrow> json" where
  "effect_identity i = JObj
     [(''tenant_id'', JStr (ek_tenant_id i)),
      (''skill_id'', JStr (ek_skill_id i)),
      (''step_index'', JNum (ek_step_index i)),
      (''action_revision'', JNum (ek_action_revision i)),
      (''request_id'', JStr (ek_request_id i))]"

definition computeEffectKey :: "runtime \<Rightarrow> effect_key_input \<Rightarrow> string result" where
  "computeEffectKey rt i =
    (if trim (ek_tenant_id i) = [] then Inl (OrchestratorError ''TENANT_CONTEXT_REQUIRED'')
     else if trim (ek_skill_id i) = [] then Inl (OrchestratorError ''SKILL_ID_REQUIRED'')
     else if trim (ek_request_id i) = [] then Inl (OrchestratorError ''REQUEST_ID_REQUIRED'')
     else if \<not> is_natural (ek_step_index i) then Inl (OrchestratorError ''STEP_INDEX_INVALID'')
     else if \<not> is_natural (ek_action_revision i) then Inl (OrchestratorError ''ACTION_REVISION_INVALID'')
     else andThen (effect_canonicalizeJson rt (effect_identity i)) (\<lambda>t. Inr (rt_sha256 rt t)))"

definition computeRequestFingerprint :: "runtime \<Rightarrow> jobject \<Rightarrow> string result" where
  "computeRequestFingerprint rt payload =
     andThen (effect_canonicalizeJson rt (JObj payload)) (\<lambda>t. Inr (rt_sha256 rt t))"

subsection \<open>The canonical text of an identity\<close>

definition identity_text :: "runtime \<Rightarrow> effect_key_input \<Rightarrow> string" where
  "identity_text rt i = text_of rt (effect_identity i)"

text \<open>
  What is used of ECMAScript's number rendering: it tells natural numbers apart, and its text
  contains no comma and no closing brace.
\<close>

definition renders_naturals :: "runtime \<Rightarrow> bool" where
  "renders_naturals rt \<longleftrightarrow>
     (\<forall>p q. rt_numtext rt p = rt_numtext rt q \<longrightarrow> p = q) \<and>
     (\<forall>q. CHR '','' \<notin> set (rt_numtext rt q) \<and> CHR ''}'' \<notin> set (rt_numtext rt q))"

lemma identity_sorted:
  "sort_key fst [(''tenant_id'', a), (''skill_id'', b), (''step_index'', c), (''action_revision'', d),
       (''request_id'', e)]
   = [(''action_revision'', d), (''request_id'', e), (''skill_id'', b), (''step_index'', c),
      (''tenant_id'', a :: string)]"
  by code_simp

lemma identity_text_eq:
  assumes "ek_step_index i = Fin s" and "ek_action_revision i = Fin r"
  shows "identity_text rt i =
     ''{'' @ json_quote ''action_revision'' @ '':'' @ rt_numtext rt r
     @ '','' @ json_quote ''request_id'' @ '':'' @ json_quote (ek_request_id i)
     @ '','' @ json_quote ''skill_id'' @ '':'' @ json_quote (ek_skill_id i)
     @ '','' @ json_quote ''step_index'' @ '':'' @ rt_numtext rt s
     @ '','' @ json_quote ''tenant_id'' @ '':'' @ json_quote (ek_tenant_id i) @ ''}''"
  using assms
  by (simp add: identity_text_def effect_identity_def text_of_def join_with_def identity_sorted
      del: sort_key_simps)

lemma identity_text_inj:
  assumes rt: "renders_naturals rt"
    and i: "ek_step_index i = Fin si" "ek_action_revision i = Fin ri"
    and j: "ek_step_index j = Fin sj" "ek_action_revision j = Fin rj"
    and eq: "identity_text rt i = identity_text rt j"
  shows "i = j"
proof -
  note t = eq [unfolded identity_text_eq [OF i] identity_text_eq [OF j] append_Cons append_Nil,
      simplified]
  have c: "CHR '','' \<notin> set (rt_numtext rt q)" for q
    using rt by (simp add: renders_naturals_def)
  obtain x y where "rt_numtext rt ri = rt_numtext rt rj" and
    2: "json_quote (ek_request_id i) @ '','' @ json_quote ''skill_id'' @ '':'' @ json_quote (ek_skill_id i)
     @ '','' @ json_quote ''step_index'' @ '':'' @ rt_numtext rt si
     @ '','' @ json_quote ''tenant_id'' @ '':'' @ json_quote (ek_tenant_id i) @ ''}''
     = json_quote (ek_request_id j) @ '','' @ json_quote ''skill_id'' @ '':'' @ json_quote (ek_skill_id j)
     @ '','' @ json_quote ''step_index'' @ '':'' @ rt_numtext rt sj
     @ '','' @ json_quote ''tenant_id'' @ '':'' @ json_quote (ek_tenant_id j) @ ''}''"
    using take_until [OF c c t] by auto
  from 2 have 3: "json_quote (ek_skill_id i)
     @ '','' @ json_quote ''step_index'' @ '':'' @ rt_numtext rt si
     @ '','' @ json_quote ''tenant_id'' @ '':'' @ json_quote (ek_tenant_id i) @ ''}''
     = json_quote (ek_skill_id j)
     @ '','' @ json_quote ''step_index'' @ '':'' @ rt_numtext rt sj
     @ '','' @ json_quote ''tenant_id'' @ '':'' @ json_quote (ek_tenant_id j) @ ''}''"
    and "ek_request_id i = ek_request_id j"
    using json_quote_inj [OF 2] by auto
  from 3 have 4: "rt_numtext rt si @ '','' @ json_quote ''tenant_id'' @ '':'' @ json_quote (ek_tenant_id i) @ ''}''
     = rt_numtext rt sj @ '','' @ json_quote ''tenant_id'' @ '':'' @ json_quote (ek_tenant_id j) @ ''}''"
    and "ek_skill_id i = ek_skill_id j"
    using json_quote_inj [OF 3] by auto
  from 4 have "rt_numtext rt si = rt_numtext rt sj" and
    5: "json_quote (ek_tenant_id i) @ ''}'' = json_quote (ek_tenant_id j) @ ''}''"
    using take_until [OF c c 4 [unfolded append_Cons append_Nil]] by simp_all
  moreover have "ek_tenant_id i = ek_tenant_id j" using json_quote_inj [OF 5] by simp
  moreover have "ri = rj" "si = sj"
    using rt \<open>rt_numtext rt ri = rt_numtext rt rj\<close> \<open>rt_numtext rt si = rt_numtext rt sj\<close>
    by (auto simp: renders_naturals_def)
  ultimately show ?thesis
    using i j \<open>ek_request_id i = ek_request_id j\<close> \<open>ek_skill_id i = ek_skill_id j\<close>
    by (cases i; cases j) simp
qed

lemma computeEffectKey_Inr:
  assumes "computeEffectKey rt i = Inr k"
  obtains s r where "ek_step_index i = Fin s" "ek_action_revision i = Fin r"
    "k = rt_sha256 rt (identity_text rt i)"
    "\<not> blank (ek_tenant_id i)" "\<not> blank (ek_skill_id i)" "\<not> blank (ek_request_id i)"
proof -
  from assms have n: "is_natural (ek_step_index i)" "is_natural (ek_action_revision i)"
    and b: "\<not> blank (ek_tenant_id i)" "\<not> blank (ek_skill_id i)" "\<not> blank (ek_request_id i)"
    and k: "andThen (effect_canonicalizeJson rt (effect_identity i)) (\<lambda>t. Inr (rt_sha256 rt t)) = Inr k"
    by (auto simp: computeEffectKey_def blank_def split: if_splits)
  from n obtain s r where sr: "ek_step_index i = Fin s" "ek_action_revision i = Fin r"
    by (metis is_natural.elims(2))
  have "canonical (effect_identity i)" using sr by (simp add: effect_identity_def)
  with k have "k = rt_sha256 rt (identity_text rt i)"
    by (simp add: effect_canonicalizeJson_def durable_canonicalizeJson_def
        database_canonicalizeJson_def serialize_text_of identity_text_def)
  then show ?thesis using sr b by (intro that) auto
qed

text \<open>
  two requests have the same effect key only if they are the same request: same tenant, skill,
  step, action revision and inbound request id, provided SHA-256 does not collide on the two
  canonical texts. Nothing else (a run id, a retry counter, a time) enters the key.
\<close>

theorem effect_key_identifies_request:
  assumes "renders_naturals rt"
    and "computeEffectKey rt i = Inr k" and "computeEffectKey rt j = Inr k"
    and "rt_sha256 rt (identity_text rt i) = rt_sha256 rt (identity_text rt j) \<Longrightarrow>
         identity_text rt i = identity_text rt j"
  shows "i = j"
proof -
  obtain si ri where i: "ek_step_index i = Fin si" "ek_action_revision i = Fin ri"
    "k = rt_sha256 rt (identity_text rt i)"
    using assms(2) by (rule computeEffectKey_Inr)
  obtain sj rj where j: "ek_step_index j = Fin sj" "ek_action_revision j = Fin rj"
    "k = rt_sha256 rt (identity_text rt j)"
    using assms(3) by (rule computeEffectKey_Inr)
  have "identity_text rt i = identity_text rt j" using assms(4) i(3) j(3) by simp
  with assms(1) i(1,2) j(1,2) show ?thesis by (rule identity_text_inj)
qed

text \<open>A runtime for closed examples: numbers in unary, and a digest that keeps its input.\<close>

definition unary_text :: "rat \<Rightarrow> string" where
  "unary_text q = (let (a, b) = quotient_of q in
     (if a < 0 then ''-'' else '''') @ replicate (nat \<bar>a\<bar>) CHR ''1'' @ ''/'' @ replicate (nat b) CHR ''1'')"

definition example_runtime :: runtime where
  "example_runtime = \<lparr>rt_sha256 = (\<lambda>t. t), rt_hmac = (\<lambda>k t. k @ t), rt_numtext = unary_text\<rparr>"

lemma unary_text_set: "set (unary_text q) \<subseteq> {CHR ''1'', CHR ''-'', CHR ''/''}"
  by (auto simp: unary_text_def split: prod.splits)

lemma unary_text_inj: "unary_text p = unary_text q \<Longrightarrow> p = q"
proof -
  assume e: "unary_text p = unary_text q"
  obtain a b where p: "quotient_of p = (a, b)" by force
  obtain c d where q: "quotient_of q = (c, d)" by force
  have pos: "b > 0" "d > 0" using p q quotient_of_denom_pos by auto
  let ?n = "\<lambda>x :: int. (if x < 0 then ''-'' else '''') @ replicate (nat \<bar>x\<bar>) CHR ''1''"
  have n: "CHR ''/'' \<notin> set (?n x)" for x by auto
  have "?n a @ CHR ''/'' # replicate (nat b) CHR ''1'' = ?n c @ CHR ''/'' # replicate (nat d) CHR ''1''"
    using e p q by (simp add: unary_text_def)
  from take_until [OF n n this]
  have s: "?n a = ?n c" and "replicate (nat b) CHR ''1'' = replicate (nat d) CHR ''1''" by blast+
  then have "nat b = nat d" by (metis length_replicate)
  have m: "replicate n CHR ''1'' \<noteq> CHR ''-'' # xs" "CHR ''-'' # xs \<noteq> replicate n CHR ''1''" for n xs
    by (cases n; simp)+
  have "a = c"
    using s m by (auto split: if_splits)
  moreover have "b = d" using \<open>nat b = nat d\<close> pos by simp
  ultimately show ?thesis using p q quotient_of_inject by simp
qed

lemma example_runtime_renders: "renders_naturals example_runtime"
proof -
  note unary_text_set
  then have "CHR '','' \<notin> set (unary_text q)" "CHR ''}'' \<notin> set (unary_text q)" for q
    by force+
  then show ?thesis
    using unary_text_inj by (auto simp: renders_naturals_def example_runtime_def)
qed

definition example_identity :: effect_key_input where
  "example_identity = \<lparr>ek_tenant_id = ''t1'', ek_skill_id = ''skill.sales.create_order'',
     ek_step_index = Fin 1, ek_action_revision = Fin 0, ek_request_id = ''sig-9''\<rparr>"

theorem effect_key_identifies_request_witness:
  "\<exists>k. computeEffectKey example_runtime example_identity = Inr k \<and>
     (\<forall>j. computeEffectKey example_runtime j = Inr k \<longrightarrow> j = example_identity)"
proof -
  have "succeeds (computeEffectKey example_runtime example_identity)"
    by (simp add: computeEffectKey_def example_identity_def effect_identity_def trim_def is_ws_def
        effect_canonicalizeJson_def durable_canonicalizeJson_def database_canonicalizeJson_def)
  then obtain k where k: "computeEffectKey example_runtime example_identity = Inr k"
    by (auto simp: succeeds_iff)
  have "j = example_identity" if "computeEffectKey example_runtime j = Inr k" for j
    by (rule effect_key_identifies_request [OF example_runtime_renders that k])
      (simp add: example_runtime_def)
  with k show ?thesis by blast
qed

end
