(* ===== verification/CrossDomainHandoff.thy ===== *)
theory CrossDomainHandoff
  imports Authority Contracts EffectKey
begin

text \<open>
  The cross-domain handoff contract of
  \<open>packages/core-engine/src/contracts/cross-domain-handoff.ts\<close>: the journey graph, the derived
  classification, the idempotency key, the package a hop builds and the rules that admit it, and the
  journey a sequence of admissions makes. A domain is its name; an evidence reference is an unchecked
  value. \<open>instant\<close> renders a parsable instant as \<open>toISOString\<close> does. Counters are integers below
  \<open>2 ^ 53\<close>; \<open>Object.freeze\<close> has no counterpart.
\<close>

definition JOURNEY_DOMAINS :: "string list" where
  "JOURNEY_DOMAINS = [''marketing'', ''sales'', ''care'', ''retention'']"

definition MAX_HANDOFF_HOPS :: nat where
  "MAX_HANDOFF_HOPS = 3"

definition JOURNEY_DOMAIN_MODULES :: "(string \<times> string) list" where
  "JOURNEY_DOMAIN_MODULES =
    [(''marketing'', ''marketing''), (''sales'', ''sales''), (''care'', ''support''), (''retention'', ''support'')]"

record lifecycle_ref =
  hl_version :: int
  hl_state :: string

record handoff_intent =
  hi_source_domain :: string
  hi_target_domain :: string
  hi_target_agent :: string
  hi_reason :: string

definition JOURNEY_DOMAIN_AGENT_PREFIXES :: "(string \<times> string list) list" where
  "JOURNEY_DOMAIN_AGENT_PREFIXES =
    [(''marketing'', [''MKT-'']), (''sales'', [''SAL-'']), (''care'', [''CS-'']), (''retention'', [''CS-''])]"

definition starts_with :: "string \<Rightarrow> string \<Rightarrow> bool" where
  "starts_with p s \<longleftrightarrow> take (length p) s = p"

definition assertHandoffSourceDomain :: "string \<Rightarrow> string list \<Rightarrow> unit result" where
  "assertHandoffSourceDomain source_domain agent_ids =
    (case map_of JOURNEY_DOMAIN_AGENT_PREFIXES source_domain of
       None \<Rightarrow> Inl (ThrownError ''TypeError'')
     | Some prefixes \<Rightarrow>
         let corroborating = filter (\<lambda>a. list_ex (\<lambda>p. starts_with p a) prefixes) agent_ids in
         if agent_ids = [] \<or> length corroborating \<noteq> length agent_ids
         then Inl (OrchestratorError ''HANDOFF_PACKAGE_INVALID'') else Inr ())"

record handoff_edge =
  he_target :: string
  he_allowed_agents :: "string list"
  he_minimum_source_authority :: authority_level

definition HANDOFF_DOMAIN_EDGES :: "(string \<times> handoff_edge list) list" where
  "HANDOFF_DOMAIN_EDGES =
    [(''marketing'', [\<lparr>he_target = ''sales'', he_allowed_agents = [''SAL-02''], he_minimum_source_authority = AUTH1\<rparr>]),
     (''sales'', [\<lparr>he_target = ''care'', he_allowed_agents = [''CS-01''], he_minimum_source_authority = AUTH1\<rparr>]),
     (''care'', [\<lparr>he_target = ''retention'', he_allowed_agents = [''CS-02''], he_minimum_source_authority = AUTH1\<rparr>]),
     (''retention'', [])]"

definition edges_of :: "string \<Rightarrow> handoff_edge list" where
  "edges_of domain = (case map_of HANDOFF_DOMAIN_EDGES domain of None \<Rightarrow> [] | Some es \<Rightarrow> es)"

record handoff_package =
  hp_handoff_id :: string
  hp_tenant_id :: string
  hp_customer_id :: string
  hp_correlation_id :: string
  hp_source_domain :: string
  hp_source_agent :: string
  hp_source_run_id :: string
  hp_target_domain :: string
  hp_target_agent :: string
  hp_reason :: string
  hp_evidence :: "json list"
  hp_classification :: string
  hp_lifecycle :: lifecycle_ref
  hp_idempotency_key :: string
  hp_hop_count :: nat
  hp_visited_domains :: "string list"
  hp_occurred_at :: string

record handoff_context =
  hx_tenant_id :: string
  hx_customer_id :: string
  hx_lifecycle :: "lifecycle_ref option"
  hx_visited_domains :: "string list"
  hx_previous_hop_count :: nat
  hx_source_authority :: authority_level

record handoff_draft =
  hd_tenant_id :: string
  hd_customer_id :: string
  hd_correlation_id :: string
  hd_source_domain :: string
  hd_source_agent :: string
  hd_source_run_id :: string
  hd_source_authority :: authority_level
  hd_target_domain :: string
  hd_target_agent :: string
  hd_reason :: string
  hd_evidence :: "json list"
  hd_occurred_at :: string

definition EPISTEMIC_HANDOFF_STRENGTH :: "string list" where
  "EPISTEMIC_HANDOFF_STRENGTH = [''SIGNAL'', ''HYPOTHESIS'', ''ACTION'', ''DECISION'', ''FACT'']"

definition MAX_HANDOFF_EVIDENCE_REFS :: nat where
  "MAX_HANDOFF_EVIDENCE_REFS = 32"

definition MAX_HANDOFF_REASON_LENGTH :: nat where
  "MAX_HANDOFF_REASON_LENGTH = 1024"

definition isJourneyDomain :: "string \<Rightarrow> bool" where
  "isJourneyDomain value = List.member JOURNEY_DOMAINS value"

definition journeyNextDomains :: "string \<Rightarrow> string list" where
  "journeyNextDomains domain = map he_target (edges_of domain)"

subsection \<open>Classification\<close>

text \<open>\<open>EPISTEMIC_HANDOFF_STRENGTH.indexOf(value)\<close>, \<open>-1\<close> for a value outside the list.\<close>

fun index_of :: "string list \<Rightarrow> string \<Rightarrow> int" where
  "index_of [] v = - 1"
| "index_of (x # xs) v = (if x = v then 0 else let i = index_of xs v in if i < 0 then - 1 else i + 1)"

definition strength :: "json \<Rightarrow> int" where
  "strength v = (case v of JStr s \<Rightarrow> index_of EPISTEMIC_HANDOFF_STRENGTH s | _ \<Rightarrow> - 1)"

text \<open>The member \<open>classification\<close> of a reference, already known to be an object.\<close>

definition ref_class :: "json \<Rightarrow> json" where
  "ref_class r = (case as_record r of None \<Rightarrow> JUndef | Some o1 \<Rightarrow> member o1 ''classification'')"

definition strongest :: "json list \<Rightarrow> json" where
  "strongest evidence = fold (\<lambda>r derived. if strength (ref_class r) > strength derived then ref_class r else derived)
     evidence (JStr ''SIGNAL'')"

definition deriveHandoffClassification :: "json list \<Rightarrow> json result" where
  "deriveHandoffClassification evidence =
    (if evidence = [] then Inl (OrchestratorError ''HANDOFF_EVIDENCE_INVALID'') else Inr (strongest evidence))"

subsection \<open>Identity of a hop\<close>

definition handoff_identity :: "string \<Rightarrow> string \<Rightarrow> string \<Rightarrow> string \<Rightarrow> string \<Rightarrow> int \<Rightarrow> string \<Rightarrow> json" where
  "handoff_identity tenant customer run domain agent version reason = JObj
    [(''tenant_id'', JStr tenant), (''customer_id'', JStr customer), (''source_run_id'', JStr run),
     (''target_domain'', JStr domain), (''target_agent'', JStr agent),
     (''lifecycle_version'', JNum (Fin (of_int version))), (''reason'', JStr reason)]"

definition computeHandoffIdempotencyKey :: "runtime \<Rightarrow> string \<Rightarrow> string \<Rightarrow> string \<Rightarrow> string \<Rightarrow> string \<Rightarrow>
    int \<Rightarrow> string \<Rightarrow> string result" where
  "computeHandoffIdempotencyKey rt tenant customer run domain agent version reason =
    andThen (effect_canonicalizeJson rt (handoff_identity tenant customer run domain agent version reason))
      (\<lambda>t. Inr (rt_sha256 rt t))"

definition createCrossDomainHandoffPackage :: "runtime \<Rightarrow> string \<Rightarrow> handoff_draft \<Rightarrow> lifecycle_ref option \<Rightarrow>
    nat \<Rightarrow> string list \<Rightarrow> handoff_package result" where
  "createCrossDomainHandoffPackage rt uuid d previous_lifecycle previous_hop_count visited_domains =
    andThen (deriveHandoffClassification (hd_evidence d)) (\<lambda>classification.
    let lifecycle = \<lparr>hl_version = (case previous_lifecycle of None \<Rightarrow> 0 | Some l \<Rightarrow> hl_version l) + 1,
                     hl_state = ''HANDED_OFF''\<rparr> in
    andThen (computeHandoffIdempotencyKey rt (hd_tenant_id d) (hd_customer_id d) (hd_source_run_id d)
        (hd_target_domain d) (hd_target_agent d) (hl_version lifecycle) (hd_reason d)) (\<lambda>key.
      Inr \<lparr>hp_handoff_id = uuid, hp_tenant_id = hd_tenant_id d, hp_customer_id = hd_customer_id d,
        hp_correlation_id = hd_correlation_id d, hp_source_domain = hd_source_domain d,
        hp_source_agent = hd_source_agent d, hp_source_run_id = hd_source_run_id d,
        hp_target_domain = hd_target_domain d, hp_target_agent = hd_target_agent d,
        hp_reason = hd_reason d, hp_evidence = hd_evidence d,
        hp_classification = (case classification of JStr s \<Rightarrow> s | _ \<Rightarrow> []),
        hp_lifecycle = lifecycle, hp_idempotency_key = key, hp_hop_count = previous_hop_count + 1,
        hp_visited_domains = visited_domains @ [hd_source_domain d],
        hp_occurred_at = hd_occurred_at d\<rparr>))"

subsection \<open>Authority of a run\<close>

definition authorityRank :: "authority_level \<Rightarrow> nat" where
  "authorityRank level =
    (case AUTHORITY_RANK level of Some r \<Rightarrow> r | None \<Rightarrow> if level = AUTH4 then 4 else 5)"

definition highestAuthority :: "authority_level list \<Rightarrow> authority_level" where
  "highestAuthority levels = fold (\<lambda>level highest.
     if authorityRank level > authorityRank highest then level else highest) levels AUTH0"

subsection \<open>Admission\<close>

definition isCanonicalInstant :: "(string \<Rightarrow> string option) \<Rightarrow> string \<Rightarrow> bool" where
  "isCanonicalInstant instant value \<longleftrightarrow> instant value = Some value"

definition assertText :: "json \<Rightarrow> nat \<Rightarrow> unit result" where
  "assertText value maxLength =
    (case value of
       JStr s \<Rightarrow> if blank s \<or> length s > maxLength then Inl (OrchestratorError ''HANDOFF_PACKAGE_INVALID'') else Inr ()
     | _ \<Rightarrow> Inl (OrchestratorError ''HANDOFF_PACKAGE_INVALID''))"

definition assertEvidenceRefShape :: "json \<Rightarrow> unit result" where
  "assertEvidenceRefShape ref =
    (case as_record ref of
       None \<Rightarrow> Inl (OrchestratorError ''HANDOFF_EVIDENCE_INVALID'')
     | Some candidate \<Rightarrow>
         if member candidate ''classification''
              \<notin> JStr ` {''FACT'', ''SIGNAL'', ''HYPOTHESIS'', ''DECISION'', ''ACTION''}
         then Inl (OrchestratorError ''HANDOFF_EVIDENCE_INVALID'')
         else andThen (assertText (member candidate ''claim'') 2048) (\<lambda>_.
           andThen (assertText (member candidate ''source_uri'') 255) (\<lambda>_.
           andThen (assertText (member candidate ''source_version'') 64) (\<lambda>_.
             assertText (member candidate ''verified_by'') 128))))"

fun each :: "('a \<Rightarrow> unit result) \<Rightarrow> 'a list \<Rightarrow> unit result" where
  "each f [] = Inr ()"
| "each f (x # xs) = andThen (f x) (\<lambda>_. each f xs)"

definition require :: "bool \<Rightarrow> string \<Rightarrow> unit result" where
  "require ok code = (if ok then Inr () else Inl (OrchestratorError code))"

text \<open>Step 1: the package is self-consistent.\<close>

definition package_consistent :: "(string \<Rightarrow> string option) \<Rightarrow> runtime \<Rightarrow> handoff_package \<Rightarrow> unit result" where
  "package_consistent instant rt pkg =
    andThen (assertText (JStr (hp_handoff_id pkg)) 128) (\<lambda>_.
    andThen (assertText (JStr (hp_correlation_id pkg)) 128) (\<lambda>_.
    andThen (assertText (JStr (hp_source_run_id pkg)) 128) (\<lambda>_.
    andThen (assertText (JStr (hp_reason pkg)) MAX_HANDOFF_REASON_LENGTH) (\<lambda>_.
    andThen (require (isJourneyDomain (hp_source_domain pkg) \<and> isJourneyDomain (hp_target_domain pkg))
      ''HANDOFF_PACKAGE_INVALID'') (\<lambda>_.
    andThen (require (isCanonicalInstant instant (hp_occurred_at pkg)) ''HANDOFF_PACKAGE_INVALID'') (\<lambda>_.
    andThen (require (hl_version (hp_lifecycle pkg) \<ge> 1) ''HANDOFF_PACKAGE_INVALID'') (\<lambda>_.
    andThen (require (hl_state (hp_lifecycle pkg) \<in> {''ENTERED'', ''IN_PROGRESS'', ''HANDED_OFF'', ''COMPLETED''})
      ''HANDOFF_PACKAGE_INVALID'') (\<lambda>_.
    andThen (require (hp_visited_domains pkg \<noteq> [] \<and> hp_source_domain pkg \<in> set (hp_visited_domains pkg)
        \<and> hp_hop_count pkg = length (hp_visited_domains pkg)) ''HANDOFF_PACKAGE_INVALID'') (\<lambda>_.
    andThen (require (hp_evidence pkg \<noteq> [] \<and> length (hp_evidence pkg) \<le> MAX_HANDOFF_EVIDENCE_REFS)
      ''HANDOFF_EVIDENCE_INVALID'') (\<lambda>_.
    andThen (each assertEvidenceRefShape (hp_evidence pkg)) (\<lambda>_.
    andThen (deriveHandoffClassification (hp_evidence pkg)) (\<lambda>derived.
    andThen (require (JStr (hp_classification pkg) = derived) ''HANDOFF_EVIDENCE_INVALID'') (\<lambda>_.
    andThen (computeHandoffIdempotencyKey rt (hp_tenant_id pkg) (hp_customer_id pkg) (hp_source_run_id pkg)
        (hp_target_domain pkg) (hp_target_agent pkg) (hl_version (hp_lifecycle pkg)) (hp_reason pkg)) (\<lambda>key.
      require (hp_idempotency_key pkg = key) ''HANDOFF_PACKAGE_INVALID''))))))))))))))"

text \<open>Step 5: a superseded version, a finished journey, a leg already left, or another history.\<close>

definition shares_history :: "string list \<Rightarrow> string list \<Rightarrow> bool" where
  "shares_history history visited \<longleftrightarrow> length history < length visited \<and> take (length history) visited = history"

definition not_stale :: "handoff_package \<Rightarrow> handoff_context \<Rightarrow> unit result" where
  "not_stale pkg ctx =
    (case hx_lifecycle ctx of None \<Rightarrow> Inr ()
     | Some lifecycle \<Rightarrow>
         if hl_version (hp_lifecycle pkg) \<le> hl_version lifecycle \<or> hl_state lifecycle = ''COMPLETED''
            \<or> hp_source_domain pkg \<in> set (hx_visited_domains ctx)
            \<or> \<not> shares_history (hx_visited_domains ctx) (hp_visited_domains pkg)
         then Inl (OrchestratorError ''HANDOFF_STALE_REPLAY'') else Inr ())"

definition assertHandoffAdmissible :: "(string \<Rightarrow> string option) \<Rightarrow> runtime \<Rightarrow> handoff_package \<Rightarrow>
    handoff_context \<Rightarrow> unit result" where
  "assertHandoffAdmissible instant rt pkg ctx =
    andThen (package_consistent instant rt pkg) (\<lambda>_.
    andThen (require (hp_tenant_id pkg = hx_tenant_id ctx) ''HANDOFF_TENANT_MISMATCH'') (\<lambda>_.
    andThen (require (\<not> blank (hp_customer_id pkg) \<and> hp_customer_id pkg = hx_customer_id ctx)
      ''HANDOFF_CUSTOMER_MISMATCH'') (\<lambda>_.
    (case find (\<lambda>c. he_target c = hp_target_domain pkg) (edges_of (hp_source_domain pkg)) of
       None \<Rightarrow> Inl (OrchestratorError ''HANDOFF_DOMAIN_EDGE_REJECTED'')
     | Some edge \<Rightarrow>
        andThen (require (hp_target_agent pkg \<in> set (he_allowed_agents edge)) ''HANDOFF_AUTHORITY_ESCALATION'') (\<lambda>_.
        andThen (require (\<not> (hx_source_authority ctx = AUTH5
            \<or> authorityRank (hx_source_authority ctx) < authorityRank (he_minimum_source_authority edge)))
          ''HANDOFF_AUTHORITY_ESCALATION'') (\<lambda>_.
        andThen (require (\<not> (hp_target_domain pkg \<in> set (hp_visited_domains pkg)
            \<or> hp_hop_count pkg > MAX_HANDOFF_HOPS
            \<or> hp_hop_count pkg \<noteq> hx_previous_hop_count ctx + 1)) ''HANDOFF_LOOP_REJECTED'') (\<lambda>_.
          not_stale pkg ctx)))))))"

end
