(* ===== verification/ChainPrimitives.thy ===== *)
theory ChainPrimitives
  imports Contracts CanonicalJson
begin

text \<open>
  The byte contracts of the two hash chains: the evidence chain of a run and the audit chain of a
  tenant. The core engine (\<open>packages/core-engine/src/durability/evidence.ts\<close>) and the database
  package (\<open>packages/database/src/repositories/audit-evidence.chain.ts\<close>) each have their own copy of
  the formulas, which differ in the error class they throw; both are modelled. The lemmas show which
  fields a preimage determines.
\<close>

definition GENESIS_HASH :: string where
  "GENESIS_HASH = replicate 64 CHR ''0''"

lemma genesis_hex [simp]: "isSha256Hex GENESIS_HASH"
  by (simp add: isSha256Hex_def GENESIS_HASH_def list_all_iff)

text \<open>A number inside a template literal.\<close>

fun template_number :: "runtime \<Rightarrow> jnum \<Rightarrow> string" where
  "template_number rt (Fin q) = rt_numtext rt q"
| "template_number rt NaN = ''NaN''"
| "template_number rt PosInf = ''Infinity''"
| "template_number rt NegInf = ''-Infinity''"

text \<open>
  \<open>AUDIT_TIMESTAMP_UTC_ISO_MS\<close>, the pattern \<open>^dddd-dd-ddTdd:dd:dd.dddZ$\<close>.
\<close>

definition utc_iso_ms :: "string \<Rightarrow> bool" where
  "utc_iso_ms t \<longleftrightarrow> list_all2 (\<lambda>p c. if p = CHR ''d'' then c \<in> set ''0123456789'' else c = p)
     ''dddd-dd-ddTdd:dd:dd.dddZ'' t"

subsection \<open>The formulas\<close>

definition evidence_preimage :: "runtime \<Rightarrow> string \<Rightarrow> string \<Rightarrow> string \<Rightarrow> jnum \<Rightarrow> string" where
  "evidence_preimage rt previous payload_sha256 effect_key step_index =
     previous @ ''|'' @ payload_sha256 @ ''|'' @ effect_key @ ''|'' @ template_number rt step_index"

definition evidence_id_of :: "runtime \<Rightarrow> string \<Rightarrow> string \<Rightarrow> string \<Rightarrow> jnum \<Rightarrow> string" where
  "evidence_id_of rt tenant_id run_id effect_key step_index =
     ''ev_'' @ take 16 (rt_sha256 rt (tenant_id @ ''|'' @ run_id @ ''|'' @ effect_key @ ''|''
       @ template_number rt step_index))"

definition audit_preimage :: "string \<Rightarrow> string \<Rightarrow> string \<Rightarrow> string" where
  "audit_preimage prev_hash payload_text timestamp =
     prev_hash @ ''|'' @ payload_text @ ''|'' @ timestamp"

subsection \<open>The core engine's copy\<close>

definition requireAuditHmacSecret :: "string option \<Rightarrow> string option \<Rightarrow> string result" where
  "requireAuditHmacSecret secret env =
    (case (case secret of Some s \<Rightarrow> Some s | None \<Rightarrow> env) of
       None \<Rightarrow> Inl (OrchestratorError ''AUDIT_SECRET_MISSING'')
     | Some s \<Rightarrow> if blank s then Inl (OrchestratorError ''AUDIT_SECRET_MISSING'') else Inr s)"

definition evidenceChainHash :: "runtime \<Rightarrow> string \<Rightarrow> string \<Rightarrow> string \<Rightarrow> jnum \<Rightarrow> string result" where
  "evidenceChainHash rt previous payload_sha256 effect_key step_index =
    (let invalid = Inl (OrchestratorError ''EVIDENCE_INPUT_INVALID'') in
     if \<not> isSha256Hex previous then invalid
     else if \<not> isSha256Hex payload_sha256 then invalid
     else if blank effect_key then invalid
     else if \<not> is_natural step_index then invalid
     else Inr (rt_sha256 rt (evidence_preimage rt previous payload_sha256 effect_key step_index)))"

definition signEvidenceChainHash :: "runtime \<Rightarrow> string \<Rightarrow> string option \<Rightarrow> string option \<Rightarrow> string result" where
  "signEvidenceChainHash rt chain_hash secret env =
    (if \<not> isSha256Hex chain_hash then Inl (OrchestratorError ''EVIDENCE_INPUT_INVALID'')
     else andThen (requireAuditHmacSecret secret env) (\<lambda>s. Inr (rt_hmac rt s chain_hash)))"

text \<open>\<open>ImmutableEvidenceRecord\<close>, with the payload the database and the in-memory logger keep beside it.\<close>

record evidence_record =
  ev_evidence_id :: string
  ev_run_id :: string
  ev_tenant_id :: string
  ev_correlation_id :: string
  ev_step_index :: jnum
  ev_effect_key :: string
  ev_previous :: string
  ev_payload_sha256 :: string
  ev_chain_hash :: string
  ev_signature :: string
  ev_raw_payload :: json
  ev_created_at :: string

record evidence_link =
  el_tenant_id :: string
  el_run_id :: string
  el_correlation_id :: string
  el_step_index :: jnum
  el_effect_key :: string
  el_payload :: jobject
  el_previous :: "string option"
  el_secret :: "string option"
  el_created_at :: "string option"

definition createEvidenceChainLink :: "runtime \<Rightarrow> string option \<Rightarrow> string \<Rightarrow> evidence_link \<Rightarrow>
    evidence_record result" where
  "createEvidenceChainLink rt env now p =
    (let previous = (case el_previous p of None \<Rightarrow> GENESIS_HASH | Some h \<Rightarrow> h) in
     andThen (sha256CanonicalJson rt (JObj (el_payload p))) (\<lambda>payload_sha256.
     andThen (evidenceChainHash rt previous payload_sha256 (el_effect_key p) (el_step_index p)) (\<lambda>chain_hash.
     andThen (signEvidenceChainHash rt chain_hash (el_secret p) env) (\<lambda>signature.
       Inr \<lparr>ev_evidence_id = evidence_id_of rt (el_tenant_id p) (el_run_id p) (el_effect_key p) (el_step_index p),
            ev_run_id = el_run_id p, ev_tenant_id = el_tenant_id p,
            ev_correlation_id = el_correlation_id p, ev_step_index = el_step_index p,
            ev_effect_key = el_effect_key p, ev_previous = previous,
            ev_payload_sha256 = payload_sha256, ev_chain_hash = chain_hash, ev_signature = signature,
            ev_raw_payload = JObj (el_payload p),
            ev_created_at = (case el_created_at p of None \<Rightarrow> now | Some t \<Rightarrow> t)\<rparr>))))"

definition durable_auditChainHash :: "runtime \<Rightarrow> string \<Rightarrow> jobject \<Rightarrow> string \<Rightarrow> string result" where
  "durable_auditChainHash rt prev_hash payload timestamp =
    (if \<not> isSha256Hex prev_hash then Inl (OrchestratorError ''AUDIT_INPUT_INVALID'')
     else if \<not> utc_iso_ms timestamp then Inl (OrchestratorError ''AUDIT_INPUT_INVALID'')
     else andThen (durable_canonicalizeJson rt (JObj payload))
       (\<lambda>t. Inr (rt_sha256 rt (audit_preimage prev_hash t timestamp))))"

subsection \<open>The database package's copy\<close>

definition stored_secret :: "string option \<Rightarrow> string option \<Rightarrow> string result" where
  "stored_secret secret env =
    (case (case secret of Some s \<Rightarrow> Some s | None \<Rightarrow> env) of
       None \<Rightarrow> Inl (ThrownError ''AUDIT_SECRET_MISSING'')
     | Some s \<Rightarrow> if blank s then Inl (ThrownError ''AUDIT_SECRET_MISSING'') else Inr s)"

definition assertSha256Digest :: "string \<Rightarrow> string \<Rightarrow> string result" where
  "assertSha256Digest v code = (if isSha256Hex v then Inr v else Inl (ThrownError code))"

definition stored_evidenceChainHash :: "runtime \<Rightarrow> string \<Rightarrow> string \<Rightarrow> string \<Rightarrow> jnum \<Rightarrow> string result" where
  "stored_evidenceChainHash rt previous payload_sha256 effect_key step_index =
    andThen (assertSha256Digest previous ''EVIDENCE_INPUT_INVALID'') (\<lambda>_.
    andThen (assertSha256Digest payload_sha256 ''EVIDENCE_INPUT_INVALID'') (\<lambda>_.
     if blank effect_key then Inl (ThrownError ''EVIDENCE_INPUT_INVALID'')
     else if \<not> is_natural step_index then Inl (ThrownError ''EVIDENCE_INPUT_INVALID'')
     else Inr (rt_sha256 rt (evidence_preimage rt previous payload_sha256 effect_key step_index))))"

definition stored_signEvidenceChainHash :: "runtime \<Rightarrow> string \<Rightarrow> string option \<Rightarrow> string option \<Rightarrow> string result" where
  "stored_signEvidenceChainHash rt chain_hash secret env =
    andThen (assertSha256Digest chain_hash ''EVIDENCE_INPUT_INVALID'') (\<lambda>_.
    andThen (stored_secret secret env) (\<lambda>s. Inr (rt_hmac rt s chain_hash)))"

definition stored_sha256CanonicalJson :: "runtime \<Rightarrow> json \<Rightarrow> string result" where
  "stored_sha256CanonicalJson rt v = andThen (database_canonicalizeJson rt v) (\<lambda>t. Inr (rt_sha256 rt t))"

text \<open>The 18 hashed fields of an audit event (\<open>AuditRecordInput\<close>).\<close>

record audit_fields =
  af_run_id :: string
  af_tenant_id :: string
  af_agent_id :: string
  af_customer_or_entity_id :: string
  af_trigger :: string
  af_context :: json
  af_skill :: string
  af_tool :: string
  af_decision :: json
  af_authority :: string
  af_approval :: json
  af_action :: json
  af_execution_status :: string
  af_evidence :: json
  af_outcome :: json
  af_latency_ms :: jnum
  af_cost :: json
  af_error :: json

definition audit_payload :: "(json \<Rightarrow> json) \<Rightarrow> audit_fields \<Rightarrow> jobject" where
  "audit_payload nullable r =
    [(''run_id'', JStr (af_run_id r)), (''tenant_id'', JStr (af_tenant_id r)),
     (''agent_id'', JStr (af_agent_id r)),
     (''customer_or_entity_id'', JStr (af_customer_or_entity_id r)),
     (''trigger'', JStr (af_trigger r)), (''context'', af_context r), (''skill'', JStr (af_skill r)),
     (''tool'', JStr (af_tool r)), (''decision'', af_decision r),
     (''authority'', JStr (af_authority r)), (''approval'', nullable (af_approval r)),
     (''action'', af_action r), (''execution_status'', JStr (af_execution_status r)),
     (''evidence'', af_evidence r), (''outcome'', nullable (af_outcome r)),
     (''latency_ms'', JNum (af_latency_ms r)), (''cost'', af_cost r),
     (''error'', nullable (af_error r))]"

definition durable_buildAuditPayload :: "audit_fields \<Rightarrow> jobject" where
  "durable_buildAuditPayload r = audit_payload (\<lambda>v. v) r"

definition buildAuditPayload :: "audit_fields \<Rightarrow> jobject" where
  "buildAuditPayload r = audit_payload or_null r"

definition auditChainHash :: "runtime \<Rightarrow> string \<Rightarrow> jobject \<Rightarrow> string \<Rightarrow> string result" where
  "auditChainHash rt prev_hash payload timestamp =
    andThen (assertSha256Digest prev_hash ''AUDIT_INPUT_INVALID'') (\<lambda>_.
     if \<not> utc_iso_ms timestamp then Inl (ThrownError ''AUDIT_INPUT_INVALID'')
     else andThen (database_canonicalizeJson rt (JObj payload))
       (\<lambda>t. Inr (rt_sha256 rt (audit_preimage prev_hash t timestamp))))"

subsection \<open>What a preimage determines\<close>

text \<open>
  What is used of ECMAScript's number rendering: it tells numbers apart and contains no bar.
\<close>

definition renders_ordinals :: "runtime \<Rightarrow> bool" where
  "renders_ordinals rt \<longleftrightarrow>
     (\<forall>p q. rt_numtext rt p = rt_numtext rt q \<longrightarrow> p = q) \<and> (\<forall>q. CHR ''|'' \<notin> set (rt_numtext rt q))"

lemma split_at_last:
  assumes "c \<notin> set x" and "c \<notin> set y" and "a @ c # x = b @ c # y"
  shows "a = b \<and> x = y"
proof -
  have "rev x @ c # rev a = rev y @ c # rev b"
    using arg_cong [OF assms(3), of rev] by simp
  then show ?thesis using take_until [of c "rev x" "rev y" "rev a" "rev b"] assms(1,2) by simp
qed

lemma evidence_preimage_inj:
  assumes "renders_ordinals rt" and "isSha256Hex p" "isSha256Hex q" "isSha256Hex d" "isSha256Hex e"
    and "is_natural m" "is_natural n"
    and "evidence_preimage rt p d k m = evidence_preimage rt q e l n"
  shows "p = q \<and> d = e \<and> k = l \<and> m = n"
proof -
  obtain a b where mn: "m = Fin a" "n = Fin b" using assms(6,7) by (metis is_natural.elims(2))
  have "p @ CHR ''|'' # d @ CHR ''|'' # k @ CHR ''|'' # rt_numtext rt a
      = q @ CHR ''|'' # e @ CHR ''|'' # l @ CHR ''|'' # rt_numtext rt b"
    using assms(8) mn by (simp add: evidence_preimage_def)
  moreover have "length p = length q" "length d = length e" using assms(2-5) by (simp_all add: hex_length)
  ultimately have "p = q" "d = e" and "k @ CHR ''|'' # rt_numtext rt a = l @ CHR ''|'' # rt_numtext rt b"
    by auto
  moreover have "k = l \<and> rt_numtext rt a = rt_numtext rt b"
    by (rule split_at_last [OF _ _ calculation(3)]) (use assms(1) in \<open>auto simp: renders_ordinals_def\<close>)
  ultimately show ?thesis using assms(1) mn by (auto simp: renders_ordinals_def)
qed

lemma utc_iso_ms_length: "utc_iso_ms t \<Longrightarrow> length t = 24"
  by (auto simp: utc_iso_ms_def dest: list_all2_lengthD)

lemma audit_preimage_inj:
  assumes "isSha256Hex p" "isSha256Hex q" "utc_iso_ms s" "utc_iso_ms t"
    and "audit_preimage p x s = audit_preimage q y t"
  shows "p = q \<and> x = y \<and> s = t"
proof -
  have "p @ ''|'' @ x @ ''|'' @ s = q @ ''|'' @ y @ ''|'' @ t"
    using assms(5) by (simp add: audit_preimage_def)
  moreover have "length p = length q" "length s = length t"
    using assms(1-4) by (simp_all add: hex_length utc_iso_ms_length)
  ultimately have "p = q" and "(x @ ''|'') @ s = (y @ ''|'') @ t" by auto
  with \<open>length s = length t\<close> show ?thesis by (simp add: append_eq_append_conv)
qed

subsection \<open>The two copies agree\<close>

lemma stored_evidenceChainHash_eq:
  "stored_evidenceChainHash rt p d k n =
    (if isSha256Hex p \<and> isSha256Hex d \<and> \<not> blank k \<and> is_natural n
     then Inr (rt_sha256 rt (evidence_preimage rt p d k n)) else Inl (ThrownError ''EVIDENCE_INPUT_INVALID''))"
  by (simp add: stored_evidenceChainHash_def assertSha256Digest_def)

lemma evidenceChainHash_eq:
  "evidenceChainHash rt p d k n =
    (if isSha256Hex p \<and> isSha256Hex d \<and> \<not> blank k \<and> is_natural n
     then Inr (rt_sha256 rt (evidence_preimage rt p d k n)) else Inl (OrchestratorError ''EVIDENCE_INPUT_INVALID''))"
  by (simp add: evidenceChainHash_def Let_def)

lemma auditChainHash_eq:
  "auditChainHash rt p o1 t =
    (if isSha256Hex p \<and> utc_iso_ms t
     then if canonical (JObj o1) then Inr (rt_sha256 rt (audit_preimage p (text_of rt (JObj o1)) t))
          else Inl canonical_invalid
     else Inl (ThrownError ''AUDIT_INPUT_INVALID''))"
  by (simp add: auditChainHash_def assertSha256Digest_def database_canonicalizeJson_def serialize_text_of
      del: canonical.simps)

lemma stored_sha256_eq:
  "stored_sha256CanonicalJson rt v =
    (if canonical v then Inr (rt_sha256 rt (text_of rt v)) else Inl canonical_invalid)"
  by (simp add: stored_sha256CanonicalJson_def database_canonicalizeJson_def serialize_text_of)

lemma durable_sha256_eq:
  "sha256CanonicalJson rt v =
    (if canonical v then Inr (rt_sha256 rt (text_of rt v)) else Inl (OrchestratorError ''CANONICAL_JSON_INVALID''))"
  by (simp add: sha256CanonicalJson_def durable_canonicalizeJson_def database_canonicalizeJson_def
      serialize_text_of)

lemma stored_secret_Inr:
  "stored_secret secret env = Inr s \<Longrightarrow> requireAuditHmacSecret secret env = Inr s \<and> \<not> blank s"
  by (auto simp: stored_secret_def requireAuditHmacSecret_def split: option.splits if_splits)

end
