(* ===== verification/ChainVerification.thy ===== *)
theory ChainVerification
  imports ChainPrimitives
begin

text \<open>
  The chain verifiers of \<open>packages/database/src/repositories/audit-evidence.chain.ts\<close>: the walk over
  the links (\<open>walkChain\<close>), \<open>verifyEvidenceChain\<close> and \<open>verifyAuditChain\<close>. A break is its kind, the
  record it names and its row; the texts are left out. A \<open>Map\<close> is an association list in insertion
  order.
\<close>

datatype chain_break_kind =
    GENESIS_MISSING | GENESIS_FORK | CHAIN_FORK | MISSING_PREDECESSOR | CHAIN_HASH_DUPLICATE
  | DIGEST_INVALID | PAYLOAD_DIGEST_MISMATCH | CHAIN_HASH_MISMATCH | SIGNATURE_INVALID
  | STEP_ORDER_INVALID | TIMESTAMP_INVALID

record chain_break =
  br_kind :: chain_break_kind
  br_record :: "string option"
  br_row :: int

record chain_report =
  cr_valid :: bool
  cr_records :: nat
  cr_verified :: nat
  cr_head_hash :: "string option"
  cr_breaks :: "chain_break list"

record chain_link =
  ln_record :: string
  ln_prev :: string
  ln_chain :: string

subsection \<open>The walk\<close>

type_synonym child_map = "(string \<times> nat list) list"

fun add_child :: "string \<Rightarrow> nat \<Rightarrow> child_map \<Rightarrow> child_map" where
  "add_child h i [] = [(h, [i])]"
| "add_child h i ((h', is) # m) = (if h' = h then (h', is @ [i]) # m else (h', is) # add_child h i m)"

definition children_of :: "child_map \<Rightarrow> string \<Rightarrow> nat list" where
  "children_of m h = (case map_of m h of None \<Rightarrow> [] | Some is \<Rightarrow> is)"

text \<open>The first loop: duplicates, the hashes seen so far and the children of every predecessor.\<close>

fun index_links :: "nat \<Rightarrow> chain_link list \<Rightarrow> chain_break list \<times> string list \<times> child_map \<Rightarrow>
    chain_break list \<times> string list \<times> child_map" where
  "index_links i [] acc = acc"
| "index_links i (l # ls) (breaks, seen, children) =
    index_links (Suc i) ls
      (if ln_chain l \<in> set seen
       then (breaks @ [\<lparr>br_kind = CHAIN_HASH_DUPLICATE, br_record = Some (ln_record l), br_row = int i\<rparr>],
             seen, add_child (ln_prev l) i children)
       else (breaks, seen @ [ln_chain l], add_child (ln_prev l) i children))"

definition fork_breaks :: "chain_link list \<Rightarrow> child_map \<Rightarrow> chain_break list" where
  "fork_breaks links children =
    concat (map (\<lambda>(prev_hash, holders).
      map (\<lambda>i. \<lparr>br_kind = (if prev_hash = GENESIS_HASH then GENESIS_FORK else CHAIN_FORK),
                br_record = Some (ln_record (links ! i)), br_row = int i\<rparr>) (tl holders)) children)"

text \<open>The second loop: from the first root along the first unvisited child.\<close>

function follow_links :: "chain_link list \<Rightarrow> child_map \<Rightarrow> nat option \<Rightarrow> nat list \<Rightarrow> nat list" where
  "follow_links links children None order = order"
| "follow_links links children (Some c) order =
    (if c \<in> set order \<or> length links \<le> c then order
     else follow_links links children
       (find (\<lambda>x. x \<notin> set (order @ [c])) (children_of children (ln_chain (links ! c)))) (order @ [c]))"
  by pat_completeness auto

termination
proof (relation "measure (\<lambda>(links, ch, cur, order). card ({..<length links} - set order))", goal_cases)
  case 1
  then show ?case by simp
next
  case (2 links children c order)
  then have "c \<in> {..<length links} - set order" by auto
  then have "{..<length links} - set (order @ [c]) \<subset> {..<length links} - set order" by auto
  then show ?case by (simp add: psubset_card_mono)
qed

definition missing_predecessors :: "chain_link list \<Rightarrow> string list \<Rightarrow> nat list \<Rightarrow> chain_break list" where
  "missing_predecessors links seen order =
    concat (map (\<lambda>(i, l).
      if i \<in> set order \<or> ln_prev l \<in> set seen \<or> ln_prev l = GENESIS_HASH then []
      else [\<lparr>br_kind = MISSING_PREDECESSOR, br_record = Some (ln_record l), br_row = int i\<rparr>])
      (List.enumerate 0 links))"

definition walkChain :: "chain_link list \<Rightarrow> nat list \<times> chain_break list" where
  "walkChain links =
    (let (duplicates, seen, children) = index_links 0 links ([], [], []);
         roots = children_of children GENESIS_HASH;
         order = follow_links links children (case roots of [] \<Rightarrow> None | r # _ \<Rightarrow> Some r) []
     in (order,
         duplicates
         @ (if roots = [] then [\<lparr>br_kind = GENESIS_MISSING, br_record = None, br_row = - 1\<rparr>] else [])
         @ fork_breaks links children
         @ missing_predecessors links seen order))"

subsection \<open>The evidence chain\<close>

definition evidence_break :: "chain_break_kind \<Rightarrow> evidence_record \<Rightarrow> nat \<Rightarrow> chain_break" where
  "evidence_break k r row = \<lparr>br_kind = k, br_record = Some (ev_evidence_id r), br_row = int row\<rparr>"

definition recomputedPayloadDigest :: "runtime \<Rightarrow> evidence_record \<Rightarrow> nat \<Rightarrow> chain_break + string" where
  "recomputedPayloadDigest rt r row =
    (case stored_sha256CanonicalJson rt (ev_raw_payload r) of
       Inl _ \<Rightarrow> Inl (evidence_break PAYLOAD_DIGEST_MISMATCH r row)
     | Inr recomputed \<Rightarrow>
         if recomputed \<noteq> ev_payload_sha256 r then Inl (evidence_break PAYLOAD_DIGEST_MISMATCH r row)
         else Inr recomputed)"

definition recomputedChainHash :: "runtime \<Rightarrow> evidence_record \<Rightarrow> string \<Rightarrow> nat \<Rightarrow> chain_break + string" where
  "recomputedChainHash rt r payload_sha256 row =
    (case stored_evidenceChainHash rt (ev_previous r) payload_sha256 (ev_effect_key r) (ev_step_index r) of
       Inl _ \<Rightarrow> Inl (evidence_break CHAIN_HASH_MISMATCH r row)
     | Inr recomputed \<Rightarrow>
         if recomputed \<noteq> ev_chain_hash r then Inl (evidence_break CHAIN_HASH_MISMATCH r row)
         else Inr recomputed)"

text \<open>The breaks of one record; none exactly when every digest reproduced.\<close>

definition evidence_record_breaks :: "runtime \<Rightarrow> string \<Rightarrow> evidence_record \<Rightarrow> nat \<Rightarrow> chain_break list" where
  "evidence_record_breaks rt secret r row =
    (let malformed = filter (\<lambda>v. \<not> isSha256Hex v)
           [ev_previous r, ev_payload_sha256 r, ev_chain_hash r, ev_signature r] in
     if malformed \<noteq> [] then map (\<lambda>_. evidence_break DIGEST_INVALID r row) malformed
     else case recomputedPayloadDigest rt r row of
       Inl b \<Rightarrow> [b]
     | Inr payload_sha256 \<Rightarrow>
       (case recomputedChainHash rt r payload_sha256 row of
          Inl b \<Rightarrow> [b]
        | Inr chain_hash \<Rightarrow>
            if rt_hmac rt secret (ev_chain_hash r) \<noteq> ev_signature r
            then [evidence_break SIGNATURE_INVALID r row] else []))"

fun step_order_breaks :: "evidence_record list \<Rightarrow> jnum option \<Rightarrow> nat list \<Rightarrow> chain_break list" where
  "step_order_breaks records previous [] = []"
| "step_order_breaks records previous (row # rows) =
    (let r = records ! row in
     (case previous of
        Some p \<Rightarrow> if num_less (ev_step_index r) p then [evidence_break STEP_ORDER_INVALID r row] else []
      | None \<Rightarrow> [])
     @ step_order_breaks records (Some (ev_step_index r)) rows)"

definition evidence_link_of :: "evidence_record \<Rightarrow> chain_link" where
  "evidence_link_of r =
     \<lparr>ln_record = ev_evidence_id r, ln_prev = ev_previous r, ln_chain = ev_chain_hash r\<rparr>"

definition last_hash :: "('r \<Rightarrow> string) \<Rightarrow> 'r list \<Rightarrow> nat list \<Rightarrow> string option" where
  "last_hash chain records order = (if order = [] then None else Some (chain (records ! last order)))"

definition verifyEvidenceChain :: "runtime \<Rightarrow> string option \<Rightarrow> string option \<Rightarrow> evidence_record list \<Rightarrow>
    chain_report result" where
  "verifyEvidenceChain rt env secret records =
    andThen (stored_secret secret env) (\<lambda>key.
      (let (order, linkage) = walkChain (map evidence_link_of records);
           checked = map (\<lambda>(row, r). evidence_record_breaks rt key r row) (List.enumerate 0 records);
           breaks = linkage @ concat checked @ step_order_breaks records None order
       in Inr \<lparr>cr_valid = (breaks = []),
               cr_records = length records,
               cr_verified = length (filter (\<lambda>row. checked ! row = []) order),
               cr_head_hash = last_hash ev_chain_hash records order,
               cr_breaks = breaks\<rparr>))"

subsection \<open>The audit chain\<close>

record audit_row =
  au_id :: string
  au_chain_seq :: nat
  au_fields :: audit_fields
  au_timestamp :: string
  au_prev_hash :: string
  au_chain_hash :: string

definition audit_break :: "chain_break_kind \<Rightarrow> audit_row \<Rightarrow> nat \<Rightarrow> chain_break" where
  "audit_break k r row = \<lparr>br_kind = k, br_record = Some (au_id r), br_row = int row\<rparr>"

definition audit_record_breaks :: "runtime \<Rightarrow> audit_row \<Rightarrow> nat \<Rightarrow> chain_break list" where
  "audit_record_breaks rt r row =
    (let malformed = filter (\<lambda>v. \<not> isSha256Hex v) [au_prev_hash r, au_chain_hash r] in
     if malformed \<noteq> [] then map (\<lambda>_. audit_break DIGEST_INVALID r row) malformed
     else if \<not> utc_iso_ms (au_timestamp r) then [audit_break TIMESTAMP_INVALID r row]
     else case auditChainHash rt (au_prev_hash r) (buildAuditPayload (au_fields r)) (au_timestamp r) of
       Inl _ \<Rightarrow> [audit_break CHAIN_HASH_MISMATCH r row]
     | Inr recomputed \<Rightarrow>
         if recomputed \<noteq> au_chain_hash r then [audit_break CHAIN_HASH_MISMATCH r row] else [])"

definition audit_link_of :: "audit_row \<Rightarrow> chain_link" where
  "audit_link_of r = \<lparr>ln_record = au_id r, ln_prev = au_prev_hash r, ln_chain = au_chain_hash r\<rparr>"

definition verifyAuditChain :: "runtime \<Rightarrow> audit_row list \<Rightarrow> chain_report" where
  "verifyAuditChain rt records =
    (let (order, linkage) = walkChain (map audit_link_of records);
         checked = map (\<lambda>(row, r). audit_record_breaks rt r row) (List.enumerate 0 records);
         breaks = linkage @ concat checked
     in \<lparr>cr_valid = (breaks = []),
         cr_records = length records,
         cr_verified = length (filter (\<lambda>row. checked ! row = []) order),
         cr_head_hash = last_hash au_chain_hash records order,
         cr_breaks = breaks\<rparr>)"

end
