(* ===== verification/ChainWalk.thy ===== *)
theory ChainWalk
  imports ChainVerification
begin

text \<open>
  What the walk of the chain verifier establishes: without a linkage break the reached rows form one
  chain from the genesis digest, and whatever it does not reach hangs on itself; and rows that are
  such a chain in read order are walked completely and without a break.
\<close>

subsection \<open>Chains\<close>

fun chained :: "('r \<Rightarrow> string) \<Rightarrow> ('r \<Rightarrow> string) \<Rightarrow> string \<Rightarrow> 'r list \<Rightarrow> bool" where
  "chained prev chain h [] = True"
| "chained prev chain h (r # rs) = (prev r = h \<and> chained prev chain (chain r) rs)"

definition end_hash :: "('r \<Rightarrow> string) \<Rightarrow> string \<Rightarrow> 'r list \<Rightarrow> string" where
  "end_hash chain h rs = (if rs = [] then h else chain (last rs))"

lemma chained_append:
  "chained prev chain h (xs @ ys) = (chained prev chain h xs \<and> chained prev chain (end_hash chain h xs) ys)"
  by (induction xs arbitrary: h) (auto simp: end_hash_def)

lemma chained_map: "chained prev chain h (map f xs) = chained (prev \<circ> f) (chain \<circ> f) h xs"
  by (induction xs arbitrary: h) auto

lemma chained_next:
  "chained prev chain h xs \<Longrightarrow> x \<in> set xs \<Longrightarrow> x \<noteq> last xs \<Longrightarrow> \<exists>y \<in> set xs. prev y = chain x"
proof (induction xs arbitrary: h)
  case Nil
  then show ?case by simp
next
  case (Cons z zs)
  show ?case
  proof (cases "x = z")
    case True
    with Cons.prems obtain w ws where "zs = w # ws" by (cases zs) auto
    with Cons.prems True show ?thesis by auto
  next
    case False
    with Cons.prems have x: "x \<in> set zs" by auto
    then have "zs \<noteq> []" by auto
    then have "x \<noteq> last zs" using Cons.prems by simp
    then show ?thesis using Cons.IH [of "chain z"] Cons.prems x by auto
  qed
qed

lemma chained_nth:
  "chained prev chain h xs \<longleftrightarrow>
   (\<forall>i < length xs. prev (xs ! i) = (if i = 0 then h else chain (xs ! (i - 1))))"
proof (induction xs arbitrary: h)
  case Nil
  then show ?case by simp
next
  case (Cons x xs)
  show ?case
    unfolding length_Cons All_less_Suc2 chained.simps Cons.IH
    by (auto simp: nth_Cons' split: if_splits)
qed

subsection \<open>The index\<close>

lemma children_add_child:
  "children_of (add_child h i m) h' = (if h' = h then children_of m h @ [i] else children_of m h')"
  by (induction m) (auto simp: children_of_def)

lemma index_children:
  "children_of (snd (snd (index_links i ls (b, s, ch)))) h
     = children_of ch h @ filter (\<lambda>k. ln_prev (ls ! (k - i)) = h) [i..<i + length ls]"
proof (induction ls arbitrary: i b s ch)
  case Nil
  then show ?case by simp
next
  case (Cons l ls)
  have shift: "filter (\<lambda>k. ln_prev (ls ! (k - Suc i)) = h) [Suc i..<Suc i + length ls]
      = filter (\<lambda>k. ln_prev ((l # ls) ! (k - i)) = h) [Suc i..<Suc i + length ls]"
    by (rule filter_cong) (auto simp: nth_Cons' Suc_diff_Suc)
  have up: "[i..<i + length (l # ls)] = i # [Suc i..<Suc i + length ls]"
    using upt_conv_Cons [of i "i + length (l # ls)"] by simp
  have split: "filter (\<lambda>k. ln_prev ((l # ls) ! (k - i)) = h) [i..<i + length (l # ls)]
      = (if ln_prev l = h then [i] else [])
        @ filter (\<lambda>k. ln_prev (ls ! (k - Suc i)) = h) [Suc i..<Suc i + length ls]"
    unfolding up shift by simp
  show ?case
    unfolding split by (simp add: Cons.IH children_add_child del: upt_Suc)
qed

lemma index_seen: "set (fst (snd (index_links i ls (b, s, ch)))) = set s \<union> ln_chain ` set ls"
  by (induction ls arbitrary: i b s ch) auto

lemma index_duplicates_grow: "\<exists>d. fst (index_links i ls (b, s, ch)) = b @ d"
  by (induction ls arbitrary: i b s ch) (auto, metis append_assoc)

lemma index_duplicates:
  "fst (index_links i ls (b, s, ch)) = b \<longleftrightarrow>
     distinct (map ln_chain ls) \<and> set s \<inter> ln_chain ` set ls = {}"
proof (induction ls arbitrary: i b s ch)
  case Nil
  then show ?case by simp
next
  case (Cons l ls)
  show ?case
  proof (cases "ln_chain l \<in> set s")
    case True
    let ?b = "b @ [\<lparr>br_kind = CHAIN_HASH_DUPLICATE, br_record = Some (ln_record l), br_row = int i\<rparr>]"
    have "fst (index_links i (l # ls) (b, s, ch)) \<noteq> b"
      using True index_duplicates_grow [of "Suc i" ls ?b s "add_child (ln_prev l) i ch"] by auto
    with True show ?thesis by auto
  next
    case False
    then show ?thesis using Cons.IH by auto
  qed
qed

definition rows_of :: "chain_link list \<Rightarrow> string \<Rightarrow> nat list" where
  "rows_of ls h = filter (\<lambda>i. ln_prev (ls ! i) = h) [0..<length ls]"

lemma set_rows_of: "set (rows_of ls h) = {i. i < length ls \<and> ln_prev (ls ! i) = h}"
  by (auto simp: rows_of_def)

lemma index_rows: "children_of (snd (snd (index_links 0 ls ([], [], [])))) h = rows_of ls h"
  by (simp add: index_children rows_of_def) (simp add: children_of_def)

lemma fork_free:
  assumes "fork_breaks ls ch = []"
  shows "length (children_of ch h) \<le> 1"
proof (cases "map_of ch h")
  case None
  then show ?thesis by (simp add: children_of_def)
next
  case (Some holders)
  then have "(h, holders) \<in> set ch" by (rule map_of_SomeD)
  with assms have "tl holders = []" by (force simp: fork_breaks_def)
  with Some show ?thesis by (cases holders) (auto simp: children_of_def)
qed

subsection \<open>The walk\<close>

lemma follow_links_extends:
  "\<exists>ext. follow_links ls ch cur order = order @ ext
     \<and> (case cur of None \<Rightarrow> ext = [] | Some c \<Rightarrow>
          if c \<in> set order \<or> length ls \<le> c then ext = [] else ext \<noteq> [] \<and> hd ext = c)"
proof (induction ls ch cur order rule: follow_links.induct)
  case (1 links ch order)
  then show ?case by simp
next
  case (2 links ch c order)
  show ?case
  proof (cases "c \<in> set order \<or> length links \<le> c")
    case True
    then show ?thesis by simp
  next
    case False
    with 2 obtain ext where "follow_links links ch
        (find (\<lambda>x. x \<notin> set (order @ [c])) (children_of ch (ln_chain (links ! c)))) (order @ [c])
        = (order @ [c]) @ ext" by blast
    with False show ?thesis by (intro exI [of _ "c # ext"]) simp
  qed
qed

text \<open>What one walk keeps: distinct reached rows, linked to each other, closed under children.\<close>

definition walk_inv :: "chain_link list \<Rightarrow> nat list \<Rightarrow> bool" where
  "walk_inv ls order \<longleftrightarrow> distinct order \<and> set order \<subseteq> {..<length ls}
     \<and> chained ln_prev ln_chain GENESIS_HASH (map ((!) ls) order)"

lemma follow_links_inv:
  assumes "\<And>h. children_of ch h = rows_of ls h"
  shows "walk_inv ls order \<Longrightarrow>
    (case cur of None \<Rightarrow> True | Some c \<Rightarrow> ln_prev (ls ! c) = end_hash ln_chain GENESIS_HASH (map ((!) ls) order)) \<Longrightarrow>
    walk_inv ls (follow_links ls ch cur order)"
  using assms
proof (induction ls ch cur order rule: follow_links.induct)
  case (1 links ch order)
  then show ?case by simp
next
  case (2 links ch c order)
  let ?next = "find (\<lambda>x. x \<notin> set (order @ [c])) (children_of ch (ln_chain (links ! c)))"
  show ?case
  proof (cases "c \<in> set order \<or> length links \<le> c")
    case True
    with 2 show ?thesis by simp
  next
    case False
    have inv: "walk_inv links (order @ [c])"
      using 2(2,3) False by (auto simp: walk_inv_def chained_append)
    have "case ?next of None \<Rightarrow> True | Some d \<Rightarrow>
        ln_prev (links ! d) = end_hash ln_chain GENESIS_HASH (map ((!) links) (order @ [c]))"
      using 2(4) by (auto simp: end_hash_def set_rows_of split: option.split dest!: find_Some_set)
    from 2(1) [OF False inv this 2(4)] False show ?thesis by simp
  qed
qed

lemma follow_links_closed:
  assumes "\<And>h. children_of ch h = rows_of ls h"
  shows "cur = Some c \<Longrightarrow> c \<notin> set order \<Longrightarrow> c < length ls \<Longrightarrow>
    set (rows_of ls (ln_chain (ls ! last (follow_links ls ch cur order)))) \<subseteq> set (follow_links ls ch cur order)"
  using assms
proof (induction ls ch cur order arbitrary: c rule: follow_links.induct)
  case (1 links ch order)
  then show ?case by simp
next
  case (2 links ch b order)
  then have bc: "\<not> (b \<in> set order \<or> length links \<le> b)" "b = c" by simp_all
  let ?next = "find (\<lambda>x. x \<notin> set (order @ [b])) (children_of ch (ln_chain (links ! b)))"
  show ?case
  proof (cases ?next)
    case None
    then have "set (rows_of links (ln_chain (links ! b))) \<subseteq> set (order @ [b])"
      using 2(5) by (auto simp: find_None_set)
    with None bc show ?thesis by simp
  next
    case (Some d)
    then have "d \<in> set (rows_of links (ln_chain (links ! b)))" "d \<notin> set (order @ [b])"
      using 2(5) by (auto dest!: find_Some_set)
    then have "d < length links" by (simp add: set_rows_of)
    from 2(1) [OF bc(1) Some \<open>d \<notin> _\<close> this 2(5)] bc Some show ?thesis by simp
  qed
qed

subsection \<open>A walk without breaks\<close>

lemma walkChain_eq:
  "walkChain ls =
    (let order = follow_links ls (snd (snd (index_links 0 ls ([], [], []))))
           (case rows_of ls GENESIS_HASH of [] \<Rightarrow> None | r # _ \<Rightarrow> Some r) []
     in (order, fst (index_links 0 ls ([], [], []))
         @ (if rows_of ls GENESIS_HASH = [] then [\<lparr>br_kind = GENESIS_MISSING, br_record = None, br_row = - 1\<rparr>] else [])
         @ fork_breaks ls (snd (snd (index_links 0 ls ([], [], []))))
         @ missing_predecessors ls (fst (snd (index_links 0 ls ([], [], [])))) order))"
  by (simp add: walkChain_def index_rows split_beta Let_def del: index_links.simps)

lemma missing_predecessors_none:
  "missing_predecessors ls seen order = [] \<longleftrightarrow>
   (\<forall>i < length ls. i \<in> set order \<or> ln_prev (ls ! i) \<in> set seen \<or> ln_prev (ls ! i) = GENESIS_HASH)"
proof -
  have "set (List.enumerate 0 ls) = (\<lambda>i. (i, ls ! i)) ` {..<length ls}"
    by (auto simp: in_set_enumerate_eq image_iff)
  then show ?thesis by (auto simp: missing_predecessors_def)
qed

lemma walk_sound:
  assumes "walkChain ls = (order, [])"
  shows "walk_inv ls order" and "distinct (map ln_chain ls)" and "order \<noteq> []"
    and "\<And>h. length (rows_of ls h) \<le> 1"
    and "\<And>i. i < length ls \<Longrightarrow> i \<notin> set order \<Longrightarrow>
      \<exists>j < length ls. j \<notin> set order \<and> ln_prev (ls ! i) = ln_chain (ls ! j)"
proof -
  define ch where "ch = snd (snd (index_links 0 ls ([], [], [])))"
  define seen where "seen = fst (snd (index_links 0 ls ([], [], [])))"
  have rows: "children_of ch h = rows_of ls h" for h by (simp add: ch_def index_rows)
  have seen: "set seen = ln_chain ` set ls" by (simp add: seen_def index_seen)
  let ?cur = "case rows_of ls GENESIS_HASH of [] \<Rightarrow> None | r # _ \<Rightarrow> Some r"
  have order: "order = follow_links ls ch ?cur []"
    and none: "fst (index_links 0 ls ([], [], [])) = []" "rows_of ls GENESIS_HASH \<noteq> []"
      "fork_breaks ls ch = []" "missing_predecessors ls seen order = []"
    using assms by (auto simp: walkChain_eq ch_def seen_def Let_def split: if_splits)
  show "distinct (map ln_chain ls)" using none(1) index_duplicates [of 0 ls "[]" "[]" "[]"] by simp
  show one: "length (rows_of ls h) \<le> 1" for h using fork_free [OF none(3)] rows by simp
  from none(2) one [of GENESIS_HASH] obtain r where r: "rows_of ls GENESIS_HASH = [r]"
    by (cases "rows_of ls GENESIS_HASH") auto
  then have "r \<in> set (rows_of ls GENESIS_HASH)" by simp
  then have rg: "r < length ls" "ln_prev (ls ! r) = GENESIS_HASH" by (simp_all add: set_rows_of)
  have o: "order = follow_links ls ch (Some r) []" using order r by simp
  then obtain ext where "order = [] @ ext" "ext \<noteq> [] \<and> hd ext = r"
    using follow_links_extends [of ls ch "Some r" "[]"] rg by auto
  then have ne: "order \<noteq> []" and hd: "hd order = r" by auto
  show "order \<noteq> []" by (rule ne)
  show inv: "walk_inv ls order"
    unfolding o by (rule follow_links_inv [OF rows]) (use rg in \<open>simp_all add: walk_inv_def end_hash_def\<close>)
  have closed: "set (rows_of ls (ln_chain (ls ! last order))) \<subseteq> set order"
    unfolding o by (rule follow_links_closed [OF rows]) (use rg in simp_all)
  have next_in: "i \<in> set order" if "i < length ls" "j \<in> set order" "ln_prev (ls ! i) = ln_chain (ls ! j)" for i j
  proof (cases "j = last order")
    case True
    then show ?thesis using closed that by (auto simp: set_rows_of)
  next
    case False
    have "chained (ln_prev \<circ> (!) ls) (ln_chain \<circ> (!) ls) GENESIS_HASH order"
      using inv by (simp add: walk_inv_def chained_map)
    from chained_next [OF this that(2) False] obtain k where k: "k \<in> set order"
      "ln_prev (ls ! k) = ln_chain (ls ! j)" by auto
    then have "k < length ls" using inv by (auto simp: walk_inv_def)
    then have "i \<in> set (rows_of ls (ln_chain (ls ! j)))" "k \<in> set (rows_of ls (ln_chain (ls ! j)))"
      using that k by (simp_all add: set_rows_of)
    then have "i = k" using one [of "ln_chain (ls ! j)"]
      by (cases "rows_of ls (ln_chain (ls ! j))") auto
    with k show ?thesis by simp
  qed
  show "\<exists>j < length ls. j \<notin> set order \<and> ln_prev (ls ! i) = ln_chain (ls ! j)"
    if i: "i < length ls" "i \<notin> set order" for i
  proof -
    have "ln_prev (ls ! i) \<noteq> GENESIS_HASH"
    proof
      assume "ln_prev (ls ! i) = GENESIS_HASH"
      then have "i \<in> set (rows_of ls GENESIS_HASH)" using i by (simp add: set_rows_of)
      then have "i = hd order" using r hd by simp
      then show False using i(2) ne by simp
    qed
    then have "ln_prev (ls ! i) \<in> ln_chain ` set ls"
      using none(4) i seen by (auto simp: missing_predecessors_none)
    then obtain j where j: "j < length ls" "ln_prev (ls ! i) = ln_chain (ls ! j)"
      by (auto simp: in_set_conv_nth)
    with next_in i have "j \<notin> set order" by blast
    with j show ?thesis by blast
  qed
qed

subsection \<open>Rows that are a chain\<close>

lemma distinct_chain_rows:
  assumes "chained ln_prev ln_chain GENESIS_HASH ls" and "distinct (GENESIS_HASH # map ln_chain ls)"
    and "i < length ls" "j < length ls" "ln_prev (ls ! i) = ln_prev (ls ! j)"
  shows "i = j"
proof -
  let ?h = "GENESIS_HASH # map ln_chain ls"
  have p: "ln_prev (ls ! k) = ?h ! k" if "k < length ls" for k
    using assms(1) that by (cases k) (auto simp: chained_nth)
  have "?h ! i = ?h ! j" using p assms(3-5) by metis
  then show ?thesis using nth_eq_iff_index_eq [OF assms(2), of i j] assms(3,4) by simp
qed

lemma chain_rows_next:
  assumes "chained ln_prev ln_chain GENESIS_HASH ls" and "distinct (GENESIS_HASH # map ln_chain ls)"
    and "k < length ls"
  shows "rows_of ls (ln_chain (ls ! k)) = (if Suc k < length ls then [Suc k] else [])"
proof -
  let ?h = "GENESIS_HASH # map ln_chain ls"
  have p: "ln_prev (ls ! i) = ?h ! i" if "i < length ls" for i
    using assms(1) that by (cases i) (auto simp: chained_nth)
  have "ln_prev (ls ! i) = ln_chain (ls ! k) \<longleftrightarrow> i = Suc k" if "i < length ls" for i
    using p [OF that] nth_eq_iff_index_eq [OF assms(2), of i "Suc k"] that assms(3) by simp
  then have "rows_of ls (ln_chain (ls ! k)) = filter (\<lambda>i. i = Suc k) [0..<length ls]"
    unfolding rows_of_def by (intro filter_cong) auto
  also have "\<dots> = (if Suc k < length ls then [Suc k] else [])"
    by (induction ls) auto
  finally show ?thesis .
qed

lemma rows_short:
  assumes "chained ln_prev ln_chain GENESIS_HASH ls" and "distinct (GENESIS_HASH # map ln_chain ls)"
  shows "length (rows_of ls h) \<le> 1"
proof -
  have "distinct (rows_of ls h)" by (simp add: rows_of_def)
  moreover have "set (rows_of ls h) \<subseteq> {i}" if "i \<in> set (rows_of ls h)" for i
    using distinct_chain_rows [OF assms] that by (auto simp: set_rows_of)
  ultimately show ?thesis
    by (metis One_nat_def card_mono card.empty card_insert_disjoint distinct_card empty_iff
        finite.emptyI finite.insertI last_in_set le0 length_0_conv list.size(3))
qed

lemma follow_chain:
  assumes "chained ln_prev ln_chain GENESIS_HASH ls" and "distinct (GENESIS_HASH # map ln_chain ls)"
    and "\<And>h. children_of ch h = rows_of ls h"
  shows "k < length ls \<Longrightarrow> follow_links ls ch (Some k) [0..<k] = [0..<length ls]"
proof (induction "length ls - k" arbitrary: k)
  case 0
  then show ?case by simp
next
  case (Suc n)
  have up: "[0..<k] @ [k] = [0..<Suc k]" by simp
  show ?case
  proof (cases "Suc k < length ls")
    case True
    then show ?thesis
      using Suc.hyps(1) [of "Suc k"] Suc.hyps(2) Suc.prems chain_rows_next [OF assms(1,2), of k] assms(3)
      by (simp add: up del: upt_Suc)
  next
    case False
    then have "length ls = Suc k" using Suc.prems by simp
    then show ?thesis using chain_rows_next [OF assms(1,2), of k] assms(3) Suc.prems by simp
  qed
qed

lemma add_child_key: "fst ` set (add_child h i m) = insert h (fst ` set m)"
  by (induction h i m rule: add_child.induct) (simp_all add: insert_commute)

lemma add_child_keys: "distinct (map fst m) \<Longrightarrow> distinct (map fst (add_child h i m))"
  by (induction h i m rule: add_child.induct) (auto simp: add_child_key)

lemma index_keys: "distinct (map fst ch) \<Longrightarrow> distinct (map fst (snd (snd (index_links i ls (b, s, ch)))))"
  by (induction ls arbitrary: i b s ch) (auto simp: add_child_keys)

lemma walk_complete:
  assumes "chained ln_prev ln_chain GENESIS_HASH ls" and "distinct (GENESIS_HASH # map ln_chain ls)"
    and "ls \<noteq> []"
  shows "walkChain ls = ([0..<length ls], [])"
proof -
  define ch where "ch = snd (snd (index_links 0 ls ([], [], [])))"
  have rows: "children_of ch h = rows_of ls h" for h by (simp add: ch_def index_rows)
  have keys: "distinct (map fst ch)" by (simp add: ch_def index_keys)
  have "ln_prev (ls ! 0) = GENESIS_HASH" using assms(1,3) by (cases ls) auto
  then have z: "0 \<in> set (rows_of ls GENESIS_HASH)" using assms(3) by (simp add: set_rows_of)
  then have root: "rows_of ls GENESIS_HASH = [0]"
    using rows_short [OF assms(1,2), of GENESIS_HASH] by (cases "rows_of ls GENESIS_HASH") auto
  have order: "follow_links ls ch (Some 0) [] = [0..<length ls]"
    using follow_chain [OF assms(1,2) rows, of 0] assms(3) by simp
  have "fst (index_links 0 ls ([], [], [])) = []"
    using index_duplicates [of 0 ls "[]" "[]" "[]"] assms(2) by simp
  moreover have "tl holders = []" if "(h, holders) \<in> set ch" for h holders
  proof -
    have "map_of ch h = Some holders" using that keys by simp
    then have "holders = rows_of ls h" using rows [of h] by (simp add: children_of_def)
    then have "length holders \<le> 1" using rows_short [OF assms(1,2), of h] by simp
    then show ?thesis by (cases holders) auto
  qed
  then have "fork_breaks ls ch = []" by (auto simp: fork_breaks_def)
  moreover have "missing_predecessors ls seen [0..<length ls] = []" for seen
    by (simp add: missing_predecessors_none)
  ultimately show ?thesis using root order by (simp add: walkChain_eq ch_def Let_def)
qed

end
