(* ===== verification/ChainProperties.thy ===== *)
theory ChainProperties
  imports ChainWalk EffectKey
begin

text \<open>
  What a valid report of the chain verifiers says about the rows, for the evidence chain of a run and
  the audit chain of a tenant: they are one chain from the genesis digest, every row of it reproduces,
  and the head digest fixes its whole content. The interface \<open>hash_chain\<close> holds the argument both
  chains share.
\<close>

subsection \<open>Digests along a chain\<close>

locale hash_chain =
  fixes prev :: "'r \<Rightarrow> string"
    and chain :: "'r \<Rightarrow> string"
    and preimage :: "'r \<Rightarrow> string"
    and content :: "'r \<Rightarrow> 'c"
    and digest :: "string \<Rightarrow> string"
    and sound :: "'r \<Rightarrow> bool"
  assumes sealed: "sound r \<Longrightarrow> chain r = digest (preimage r)"
    and commits: "sound r \<Longrightarrow> sound q \<Longrightarrow> preimage r = preimage q \<Longrightarrow> prev r = prev q \<and> content r = content q"
begin

lemma head_commits:
  assumes "chained prev chain g rs" "chained prev chain g qs"
    and "\<forall>r \<in> set rs \<union> set qs. sound r \<and> digest (preimage r) \<noteq> g"
    and "\<forall>r \<in> set rs. \<forall>q \<in> set qs. digest (preimage r) = digest (preimage q) \<longrightarrow> preimage r = preimage q"
    and "end_hash chain g rs = end_hash chain g qs"
  shows "map content rs = map content qs"
  using assms
proof (induction rs arbitrary: qs rule: rev_induct)
  case Nil
  show ?case
  proof (cases "qs = []")
    case False
    then have "last qs \<in> set qs" by simp
    then have "chain (last qs) \<noteq> g" using Nil.prems(3) sealed by auto
    with Nil.prems(5) False show ?thesis by (simp add: end_hash_def)
  qed simp
next
  case (snoc r rs)
  have r: "sound r" "digest (preimage r) \<noteq> g" using snoc.prems(3) by auto
  have ch: "chain r = digest (preimage r)" by (rule sealed [OF r(1)])
  have "qs \<noteq> []"
    using snoc.prems(5) r(2) ch unfolding end_hash_def by force
  then obtain q qs' where qs: "qs = qs' @ [q]" by (metis append_butlast_last_id)
  have q: "sound q" using snoc.prems(3) qs by auto
  have "digest (preimage r) = digest (preimage q)"
    using snoc.prems(5) qs ch sealed [OF q] by (simp add: end_hash_def)
  then have "preimage r = preimage q" using snoc.prems(4) qs by auto
  then have c: "prev r = prev q" "content r = content q" using commits [OF r(1) q] by simp_all
  have "map content rs = map content qs'"
  proof (rule snoc.IH)
    show "chained prev chain g rs" "chained prev chain g qs'"
      using snoc.prems(1,2) qs by (simp_all add: chained_append)
    show "end_hash chain g rs = end_hash chain g qs'"
      using snoc.prems(1,2) qs c by (simp add: chained_append)
  qed (use snoc.prems(3,4) qs in auto)
  with c qs show ?case by simp
qed

end

subsection \<open>Rows whose digests reproduce\<close>

definition evidence_text :: "runtime \<Rightarrow> evidence_record \<Rightarrow> string" where
  "evidence_text rt r =
     evidence_preimage rt (ev_previous r) (ev_payload_sha256 r) (ev_effect_key r) (ev_step_index r)"

definition evidence_intact :: "runtime \<Rightarrow> string \<Rightarrow> evidence_record \<Rightarrow> bool" where
  "evidence_intact rt key r \<longleftrightarrow>
     list_all isSha256Hex [ev_previous r, ev_payload_sha256 r, ev_chain_hash r, ev_signature r]
     \<and> canonical (ev_raw_payload r) \<and> ev_payload_sha256 r = rt_sha256 rt (text_of rt (ev_raw_payload r))
     \<and> \<not> blank (ev_effect_key r) \<and> is_natural (ev_step_index r)
     \<and> ev_chain_hash r = rt_sha256 rt (evidence_text rt r)
     \<and> ev_signature r = rt_hmac rt key (ev_chain_hash r)"

lemma evidence_intactD:
  assumes "evidence_intact rt key r"
  shows "isSha256Hex (ev_previous r)" "isSha256Hex (ev_payload_sha256 r)" "isSha256Hex (ev_chain_hash r)"
    "is_natural (ev_step_index r)" "ev_chain_hash r = rt_sha256 rt (evidence_text rt r)"
    "ev_signature r = rt_hmac rt key (ev_chain_hash r)"
  using assms unfolding evidence_intact_def list.pred_inject by blast+

lemma evidence_record_breaks_none:
  "evidence_record_breaks rt key r row = [] \<longleftrightarrow> evidence_intact rt key r"
proof (cases "list_all isSha256Hex [ev_previous r, ev_payload_sha256 r, ev_chain_hash r, ev_signature r]")
  case False
  then have "filter (\<lambda>v. \<not> isSha256Hex v) [ev_previous r, ev_payload_sha256 r, ev_chain_hash r, ev_signature r] \<noteq> []"
    by (auto simp: filter_empty_conv list_all_iff)
  with False show ?thesis
    by (simp only: evidence_record_breaks_def Let_def evidence_intact_def) simp
next
  case True
  then show ?thesis
    by (auto simp: evidence_record_breaks_def evidence_intact_def recomputedPayloadDigest_def
        recomputedChainHash_def stored_sha256_eq stored_evidenceChainHash_eq evidence_text_def)
qed

definition audit_text :: "runtime \<Rightarrow> audit_row \<Rightarrow> string" where
  "audit_text rt r = audit_preimage (au_prev_hash r)
     (text_of rt (JObj (buildAuditPayload (au_fields r)))) (au_timestamp r)"

definition audit_intact :: "runtime \<Rightarrow> audit_row \<Rightarrow> bool" where
  "audit_intact rt r \<longleftrightarrow>
     isSha256Hex (au_prev_hash r) \<and> isSha256Hex (au_chain_hash r) \<and> utc_iso_ms (au_timestamp r)
     \<and> canonical (JObj (buildAuditPayload (au_fields r)))
     \<and> au_chain_hash r = rt_sha256 rt (audit_text rt r)"

lemma audit_record_breaks_none: "audit_record_breaks rt r row = [] \<longleftrightarrow> audit_intact rt r"
  by (auto simp: audit_record_breaks_def audit_intact_def auditChainHash_eq audit_text_def
      simp del: canonical.simps)

interpretation evidence_chain: hash_chain ev_previous ev_chain_hash "evidence_text rt"
    "\<lambda>r. (ev_payload_sha256 r, ev_effect_key r, ev_step_index r)" "rt_sha256 rt"
    "\<lambda>r. renders_ordinals rt \<and> evidence_intact rt key r"
  for rt :: runtime and key :: string
proof
  fix r q
  assume "renders_ordinals rt \<and> evidence_intact rt key r"
  then show "ev_chain_hash r = rt_sha256 rt (evidence_text rt r)" by (simp add: evidence_intact_def)
next
  fix r q
  assume s: "renders_ordinals rt \<and> evidence_intact rt key r" "renders_ordinals rt \<and> evidence_intact rt key q"
    and t: "evidence_text rt r = evidence_text rt q"
  have "ev_previous r = ev_previous q \<and> ev_payload_sha256 r = ev_payload_sha256 q
      \<and> ev_effect_key r = ev_effect_key q \<and> ev_step_index r = ev_step_index q"
    by (rule evidence_preimage_inj [OF _ _ _ _ _ _ _ t [unfolded evidence_text_def]])
      (use s in \<open>auto dest: evidence_intactD\<close>)
  then show "ev_previous r = ev_previous q
      \<and> (ev_payload_sha256 r, ev_effect_key r, ev_step_index r)
        = (ev_payload_sha256 q, ev_effect_key q, ev_step_index q)" by simp
qed

interpretation audit_chain: hash_chain au_prev_hash au_chain_hash "audit_text rt"
    "\<lambda>r. (text_of rt (JObj (buildAuditPayload (au_fields r))), au_timestamp r)" "rt_sha256 rt"
    "audit_intact rt"
  for rt :: runtime
proof
  fix r
  assume "audit_intact rt r"
  then show "au_chain_hash r = rt_sha256 rt (audit_text rt r)" by (simp add: audit_intact_def)
next
  fix r q
  assume "audit_intact rt r" "audit_intact rt q" "audit_text rt r = audit_text rt q"
  then show "au_prev_hash r = au_prev_hash q
      \<and> (text_of rt (JObj (buildAuditPayload (au_fields r))), au_timestamp r)
        = (text_of rt (JObj (buildAuditPayload (au_fields q))), au_timestamp q)"
    using audit_preimage_inj [of "au_prev_hash r" "au_prev_hash q" "au_timestamp r" "au_timestamp q"]
    by (simp add: audit_intact_def audit_text_def)
qed

subsection \<open>The rows of a valid report\<close>

lemma mset_partition: "mset xs = mset (filter P xs) + mset (filter (\<lambda>x. \<not> P x) xs)"
  by (induction xs) auto

lemma mset_rows:
  assumes "distinct order" and "set order \<subseteq> {..<length rs}"
  shows "mset rs = mset (map ((!) rs) order)
    + mset (map ((!) rs) (filter (\<lambda>i. i \<notin> set order) [0..<length rs]))"
proof -
  have "mset order = mset_set (set order)" using assms(1) by (simp add: mset_set_set)
  also have "set order = set (filter (\<lambda>i. i \<in> set order) [0..<length rs])"
    using assms(2) by auto
  also have "mset_set \<dots> = mset (filter (\<lambda>i. i \<in> set order) [0..<length rs])"
    by (rule mset_set_set) simp
  finally have "mset [0..<length rs] = mset order + mset (filter (\<lambda>i. i \<notin> set order) [0..<length rs])"
    using mset_partition [of "[0..<length rs]" "\<lambda>i. i \<in> set order"] by (simp only:)
  then have "image_mset ((!) rs) (mset [0..<length rs])
      = image_mset ((!) rs) (mset order + mset (filter (\<lambda>i. i \<notin> set order) [0..<length rs]))"
    by (rule arg_cong)
  moreover have "image_mset ((!) rs) (mset [0..<length rs]) = mset rs"
    by (metis map_nth mset_map)
  ultimately show ?thesis by simp
qed

text \<open>The rows a walk does not reach.\<close>

definition detached :: "('r \<Rightarrow> string) \<Rightarrow> ('r \<Rightarrow> string) \<Rightarrow> 'r list \<Rightarrow> bool" where
  "detached prev chain rest \<longleftrightarrow> (\<forall>r \<in> set rest. \<exists>q \<in> set rest. prev r = chain q)"

lemma walk_partition:
  assumes "walkChain (map link rs) = (order, [])"
    and "\<And>r. ln_prev (link r) = prev r" "\<And>r. ln_chain (link r) = chain r"
  obtains rest where "mset rs = mset (map ((!) rs) order) + mset rest"
    "chained prev chain GENESIS_HASH (map ((!) rs) order)" "order \<noteq> []" "distinct order"
    "set order \<subseteq> {..<length rs}" "distinct (map chain rs)" "detached prev chain rest"
proof -
  note w = walk_sound [OF assms(1)]
  let ?rest = "map ((!) rs) (filter (\<lambda>i. i \<notin> set order) [0..<length rs])"
  have o: "distinct order" "set order \<subseteq> {..<length rs}" using w(1) by (simp_all add: walk_inv_def)
  have "chained ln_prev ln_chain GENESIS_HASH (map ((!) (map link rs)) order)"
    using w(1) by (simp add: walk_inv_def)
  moreover have "map ((!) (map link rs)) order = map link (map ((!) rs) order)"
    using o(2) by (auto simp: subset_iff)
  moreover have "ln_prev \<circ> link = prev" "ln_chain \<circ> link = chain" using assms(2,3) by auto
  ultimately have c: "chained prev chain GENESIS_HASH (map ((!) rs) order)"
    by (simp only: chained_map)
  have "\<exists>q \<in> set ?rest. prev r = chain q" if "r \<in> set ?rest" for r
  proof -
    from that obtain i where i: "i < length rs" "i \<notin> set order" "r = rs ! i" by auto
    then obtain j where "j < length rs" "j \<notin> set order" "prev r = chain (rs ! j)"
      using w(5) [of i] assms(2,3) by auto
    then show ?thesis by auto
  qed
  then have "detached prev chain ?rest" by (simp add: detached_def)
  moreover have "distinct (map chain rs)" using w(2) assms(3) by (simp add: comp_def)
  ultimately show ?thesis using that [OF mset_rows [OF o] c w(3) o] by blast
qed

lemma checked_none:
  "concat (map (\<lambda>(row, r). f r row) (List.enumerate 0 rs)) = [] \<longleftrightarrow> (\<forall>i < length rs. f (rs ! i) i = [])"
proof -
  have "set (List.enumerate 0 rs) = (\<lambda>i. (i, rs ! i)) ` {..<length rs}"
    by (auto simp: in_set_enumerate_eq image_iff)
  then show ?thesis by auto
qed

fun step_value :: "jnum \<Rightarrow> rat" where
  "step_value (Fin q) = q"
| "step_value _ = 0"

lemma step_order_none:
  assumes "\<forall>i \<in> set rows. is_natural (ev_step_index (rs ! i))"
    and "case p of None \<Rightarrow> True | Some n \<Rightarrow> is_natural n"
    and "step_order_breaks rs p rows = []"
  shows "sorted (map (\<lambda>i. step_value (ev_step_index (rs ! i))) rows)
    \<and> (\<forall>n. p = Some n \<longrightarrow> (\<forall>i \<in> set rows. step_value n \<le> step_value (ev_step_index (rs ! i))))"
  using assms
proof (induction rs p rows rule: step_order_breaks.induct)
  case (1 records previous)
  then show ?case by simp
next
  case (2 records p row rows)
  have nat: "is_natural n \<Longrightarrow> \<exists>q. n = Fin q" for n by (metis is_natural.elims(2))
  from 2 have ih: "sorted (map (\<lambda>i. step_value (ev_step_index (records ! i))) rows)"
    "\<forall>i \<in> set rows. step_value (ev_step_index (records ! row)) \<le> step_value (ev_step_index (records ! i))"
    by (simp_all add: Let_def)
  have "step_value n \<le> step_value (ev_step_index (records ! row))" if "p = Some n" for n
  proof -
    have "is_natural n" "is_natural (ev_step_index (records ! row))"
      "\<not> num_less (ev_step_index (records ! row)) n"
      using 2(2-4) that by (auto simp: Let_def split: if_splits)
    moreover from calculation(1,2) nat obtain a b where "n = Fin a" "ev_step_index (records ! row) = Fin b"
      by blast
    ultimately show ?thesis by simp
  qed
  with ih show ?case by (auto intro: order_trans)
qed

subsection \<open>Reports\<close>

lemma evidence_report:
  assumes "verifyEvidenceChain rt env secret records = Inr report" and "cr_valid report"
  obtains key order where "stored_secret secret env = Inr key"
    "walkChain (map evidence_link_of records) = (order, [])"
    "list_all (evidence_intact rt key) records" "step_order_breaks records None order = []"
    "cr_records report = length records"
    "cr_verified report = length order" "cr_head_hash report = last_hash ev_chain_hash records order"
proof -
  from assms(1) obtain key where key: "stored_secret secret env = Inr key"
    by (auto simp: verifyEvidenceChain_def andThen_Inr_iff)
  obtain order linkage where walk: "walkChain (map evidence_link_of records) = (order, linkage)" by force
  let ?checked = "map (\<lambda>(row, r). evidence_record_breaks rt key r row) (List.enumerate 0 records)"
  have report: "report = \<lparr>cr_valid = (linkage @ concat ?checked @ step_order_breaks records None order = []),
      cr_records = length records, cr_verified = length (filter (\<lambda>row. ?checked ! row = []) order),
      cr_head_hash = last_hash ev_chain_hash records order,
      cr_breaks = linkage @ concat ?checked @ step_order_breaks records None order\<rparr>"
    using assms(1) key walk by (simp add: verifyEvidenceChain_def Let_def)
  then have none: "linkage = []" "concat ?checked = []" "step_order_breaks records None order = []"
    using assms(2) by (simp_all only: chain_report.simps append_is_Nil_conv)
  then have intact: "list_all (evidence_intact rt key) records"
    by (auto simp only: checked_none evidence_record_breaks_none list_all_length)
  have o: "set order \<subseteq> {..<length records}"
    using walk_sound(1) [OF walk [unfolded none(1)]] by (simp add: walk_inv_def)
  have "?checked ! row = []" if "row \<in> set order" for row
  proof -
    have "row < length records" using o that by auto
    then show ?thesis using intact by (simp add: nth_enumerate_eq evidence_record_breaks_none list_all_length)
  qed
  then have "filter (\<lambda>row. ?checked ! row = []) order = order" by (intro filter_True ballI)
  then show ?thesis using that [OF key _ intact none(3)] walk none(1) report by simp
qed

lemma link_members [simp]:
  "ln_prev (evidence_link_of r) = ev_previous r" "ln_chain (evidence_link_of r) = ev_chain_hash r"
  "ln_prev (audit_link_of a) = au_prev_hash a" "ln_chain (audit_link_of a) = au_chain_hash a"
  by (simp_all add: evidence_link_of_def audit_link_of_def)

text \<open>
  C25: a valid report of the evidence verifier means this of the rows it was given: a non-empty part of
  them, in some order, is a chain from the genesis digest; every row's payload digest, chain digest
  and signature reproduce; the steps never go back along the chain; its count of verified rows is the chain's length and
  its head digest is the chain's end. Rows outside the chain can only hang on each other, each one's predecessor
  being another of them, which means a cycle of SHA-256 digests.
\<close>

theorem valid_evidence_is_one_chain:
  assumes "verifyEvidenceChain rt env secret records = Inr report" and "cr_valid report"
  shows "\<exists>key chain rest. stored_secret secret env = Inr key \<and> mset records = mset chain + mset rest
    \<and> chain \<noteq> [] \<and> chained ev_previous ev_chain_hash GENESIS_HASH chain
    \<and> list_all (evidence_intact rt key) records
    \<and> sorted (map (\<lambda>r. step_value (ev_step_index r)) chain)
    \<and> distinct (map ev_chain_hash records)
    \<and> cr_verified report = length chain \<and> cr_head_hash report = Some (ev_chain_hash (last chain))
    \<and> detached ev_previous ev_chain_hash rest"
proof -
  obtain key order where k: "stored_secret secret env = Inr key"
    and walk: "walkChain (map evidence_link_of records) = (order, [])"
    and intact: "list_all (evidence_intact rt key) records"
    and steps: "step_order_breaks records None order = []"
    and report: "cr_verified report = length order" "cr_head_hash report = last_hash ev_chain_hash records order"
    using evidence_report [OF assms] by metis
  obtain rest where rest: "mset records = mset (map ((!) records) order) + mset rest"
    "chained ev_previous ev_chain_hash GENESIS_HASH (map ((!) records) order)" "order \<noteq> []"
    "set order \<subseteq> {..<length records}" "distinct (map ev_chain_hash records)"
    "detached ev_previous ev_chain_hash rest"
    using walk_partition [OF walk, of ev_previous ev_chain_hash] by auto
  have "\<forall>i \<in> set order. is_natural (ev_step_index (records ! i))"
    using intact rest(4) by (auto simp: list_all_length dest: evidence_intactD(4))
  then have "sorted (map (\<lambda>i. step_value (ev_step_index (records ! i))) order)"
    using step_order_none [OF _ _ steps] by simp
  then have "sorted (map (\<lambda>r. step_value (ev_step_index r)) (map ((!) records) order))"
    by (simp add: comp_def)
  moreover have "cr_head_hash report = Some (ev_chain_hash (last (map ((!) records) order)))"
    using report(2) rest(3) by (simp add: last_hash_def last_map)
  ultimately show ?thesis using k rest intact report(1)
    by (intro exI [of _ key] exI [of _ "map ((!) records) order"] exI [of _ rest]) simp
qed

subsection \<open>Rows that verify\<close>

lemma step_order_sorted:
  assumes "\<forall>i \<in> set rows. is_natural (ev_step_index (rs ! i))"
    and "sorted (map (\<lambda>i. step_value (ev_step_index (rs ! i))) rows)"
    and "case p of None \<Rightarrow> True
      | Some n \<Rightarrow> is_natural n \<and> (\<forall>i \<in> set rows. step_value n \<le> step_value (ev_step_index (rs ! i)))"
  shows "step_order_breaks rs p rows = []"
  using assms
proof (induction rs p rows rule: step_order_breaks.induct)
  case (1 records previous)
  then show ?case by simp
next
  case (2 records p row rows)
  have nat: "is_natural n \<Longrightarrow> \<exists>q. n = Fin q" for n by (metis is_natural.elims(2))
  have "\<not> num_less (ev_step_index (records ! row)) n" if "p = Some n" for n
  proof -
    from that 2(2,4) nat obtain a b where "n = Fin a" "ev_step_index (records ! row) = Fin b"
      by (auto; blast)
    then show ?thesis using 2(4) that by simp
  qed
  moreover have "step_order_breaks records (Some (ev_step_index (records ! row))) rows = []"
    using 2 by auto
  ultimately show ?case by (auto simp: Let_def split: option.split)
qed

lemma verify_complete:
  assumes "stored_secret secret env = Inr key" and "rs \<noteq> []" and "list_all (evidence_intact rt key) rs"
    and "chained ev_previous ev_chain_hash GENESIS_HASH rs" and "distinct (GENESIS_HASH # map ev_chain_hash rs)"
    and "sorted (map (\<lambda>r. step_value (ev_step_index r)) rs)"
  shows "verifyEvidenceChain rt env secret rs = Inr \<lparr>cr_valid = True, cr_records = length rs,
    cr_verified = length rs, cr_head_hash = Some (ev_chain_hash (last rs)), cr_breaks = []\<rparr>"
proof -
  have comp: "ln_prev \<circ> evidence_link_of = ev_previous" "ln_chain \<circ> evidence_link_of = ev_chain_hash"
    by auto
  have walk: "walkChain (map evidence_link_of rs) = ([0..<length rs], [])"
    using walk_complete [of "map evidence_link_of rs"] assms(2,4,5) by (simp add: chained_map comp)
  let ?checked = "map (\<lambda>(row, r). evidence_record_breaks rt key r row) (List.enumerate 0 rs)"
  have c: "concat ?checked = []"
    using assms(3) by (auto simp only: checked_none evidence_record_breaks_none list_all_length)
  have "filter (\<lambda>row. ?checked ! row = []) [0..<length rs] = [0..<length rs]"
    using assms(3) by (intro filter_True) (auto simp: nth_enumerate_eq evidence_record_breaks_none list_all_length)
  moreover have "map (\<lambda>i. step_value (ev_step_index (rs ! i))) [0..<length rs]
      = map (\<lambda>r. step_value (ev_step_index r)) rs"
    by (rule nth_equalityI) simp_all
  then have "step_order_breaks rs None [0..<length rs] = []"
    using assms(3,6) by (intro step_order_sorted) (auto simp: list_all_length dest: evidence_intactD(4))
  moreover have "last_hash ev_chain_hash rs [0..<length rs] = Some (ev_chain_hash (last rs))"
    using assms(2) by (simp add: last_hash_def last_conv_nth)
  ultimately show ?thesis using walk c assms(1)
    by (simp add: verifyEvidenceChain_def Let_def del: concat_eq_Nil_conv)
qed

subsection \<open>The head digest\<close>

text \<open>What is assumed of the digest on two sets of rows: no collision among their preimages and payloads.\<close>

definition collision_free :: "runtime \<Rightarrow> evidence_record list \<Rightarrow> evidence_record list \<Rightarrow> bool" where
  "collision_free rt rs qs \<longleftrightarrow>
     list_all (\<lambda>r. rt_sha256 rt (evidence_text rt r) \<noteq> GENESIS_HASH) (rs @ qs)
     \<and> list_all (\<lambda>r. list_all (\<lambda>q.
          (rt_sha256 rt (evidence_text rt r) = rt_sha256 rt (evidence_text rt q) \<longrightarrow>
             evidence_text rt r = evidence_text rt q)
          \<and> (rt_sha256 rt (text_of rt (ev_raw_payload r)) = rt_sha256 rt (text_of rt (ev_raw_payload q)) \<longrightarrow>
             text_of rt (ev_raw_payload r) = text_of rt (ev_raw_payload q))) qs) rs"

text \<open>The canonical payload, effect key and step of every row.\<close>

definition evidence_history :: "runtime \<Rightarrow> evidence_record list \<Rightarrow> (string \<times> string \<times> jnum) list" where
  "evidence_history rt rs =
     map (\<lambda>r. (text_of rt (ev_raw_payload r), ev_effect_key r, ev_step_index r)) rs"

lemma chains_with_one_head:
  assumes "renders_ordinals rt" and "collision_free rt rs qs"
    and "list_all (evidence_intact rt k) rs" "list_all (evidence_intact rt k) qs"
    and "chained ev_previous ev_chain_hash GENESIS_HASH rs" "chained ev_previous ev_chain_hash GENESIS_HASH qs"
    and "rs \<noteq> []" "qs \<noteq> []" "ev_chain_hash (last rs) = ev_chain_hash (last qs)"
  shows "evidence_history rt rs = evidence_history rt qs"
proof -
  let ?c = "\<lambda>r. (ev_payload_sha256 r, ev_effect_key r, ev_step_index r)"
  have m: "map ?c rs = map ?c qs"
  proof (rule evidence_chain.head_commits [of GENESIS_HASH _ _ rt k])
    show "\<forall>r \<in> set rs \<union> set qs. (renders_ordinals rt \<and> evidence_intact rt k r)
        \<and> rt_sha256 rt (evidence_text rt r) \<noteq> GENESIS_HASH"
      using assms(1-4) unfolding collision_free_def list_all_iff set_append by blast
    show "\<forall>r \<in> set rs. \<forall>q \<in> set qs. rt_sha256 rt (evidence_text rt r) = rt_sha256 rt (evidence_text rt q)
        \<longrightarrow> evidence_text rt r = evidence_text rt q"
      using assms(2) unfolding collision_free_def list_all_iff by blast
    show "end_hash ev_chain_hash GENESIS_HASH rs = end_hash ev_chain_hash GENESIS_HASH qs"
      using assms(7-9) by (simp add: end_hash_def)
  qed (rule assms(5,6))+
  have len: "length rs = length qs" using arg_cong [OF m, of length] by simp
  show ?thesis
    unfolding evidence_history_def
  proof (rule nth_equalityI)
    fix i assume "i < length (map (\<lambda>r. (text_of rt (ev_raw_payload r), ev_effect_key r, ev_step_index r)) rs)"
    then have i: "i < length rs" "i < length qs" using len by simp_all
    then have in_set: "rs ! i \<in> set rs" "qs ! i \<in> set qs" by simp_all
    have c: "?c (rs ! i) = ?c (qs ! i)" using arg_cong [OF m, of "\<lambda>xs. xs ! i"] i by simp
    moreover have "ev_payload_sha256 (rs ! i) = rt_sha256 rt (text_of rt (ev_raw_payload (rs ! i)))"
      "ev_payload_sha256 (qs ! i) = rt_sha256 rt (text_of rt (ev_raw_payload (qs ! i)))"
      using assms(3,4) in_set unfolding list_all_iff evidence_intact_def by blast+
    ultimately have "text_of rt (ev_raw_payload (rs ! i)) = text_of rt (ev_raw_payload (qs ! i))"
      using assms(2) in_set unfolding collision_free_def list_all_iff by auto
    with c i show "map (\<lambda>r. (text_of rt (ev_raw_payload r), ev_effect_key r, ev_step_index r)) rs ! i
        = map (\<lambda>r. (text_of rt (ev_raw_payload r), ev_effect_key r, ev_step_index r)) qs ! i" by simp
  qed (simp add: len)
qed

text \<open>
  C26: the head digest of a fully verified run fixes its whole history: two sets of rows that verify
  with one secret, every row counted, and report the same head digest, hold the same canonical
  payloads, effect keys and steps in the same order, provided SHA-256 does not collide on their
  preimages. An auditor who keeps the head alone detects any later edit, insertion, deletion,
  reordering or truncation.
\<close>

theorem head_digest_fixes_the_history:
  assumes "verifyEvidenceChain rt env secret rs = Inr a" "cr_valid a" "cr_verified a = cr_records a"
    and "verifyEvidenceChain rt env secret qs = Inr b" "cr_valid b" "cr_verified b = cr_records b"
    and "cr_head_hash a = cr_head_hash b"
    and "renders_ordinals rt" "collision_free rt rs qs"
  shows "\<exists>rs' qs'. mset rs' = mset rs \<and> mset qs' = mset qs
    \<and> chained ev_previous ev_chain_hash GENESIS_HASH rs' \<and> evidence_history rt rs' = evidence_history rt qs'"
proof -
  have full: "\<exists>key rs'. stored_secret secret env = Inr key \<and> mset rs' = mset rs
      \<and> chained ev_previous ev_chain_hash GENESIS_HASH rs' \<and> list_all (evidence_intact rt key) rs'
      \<and> rs' \<noteq> [] \<and> cr_head_hash a = Some (ev_chain_hash (last rs'))"
    if v: "verifyEvidenceChain rt env secret rs = Inr a" "cr_valid a" "cr_verified a = cr_records a" for rs a
  proof -
    obtain key order where k: "stored_secret secret env = Inr key"
      and walk: "walkChain (map evidence_link_of rs) = (order, [])"
      and intact: "list_all (evidence_intact rt key) rs"
      and n: "cr_records a = length rs" "cr_verified a = length order"
        "cr_head_hash a = last_hash ev_chain_hash rs order"
      using evidence_report [OF v(1,2)] by metis
    obtain rest where rest: "mset rs = mset (map ((!) rs) order) + mset rest"
      "chained ev_previous ev_chain_hash GENESIS_HASH (map ((!) rs) order)" "order \<noteq> []"
      using walk_partition [OF walk, of ev_previous ev_chain_hash] by auto
    have "size (mset rs) = size (mset (map ((!) rs) order)) + size (mset rest)"
      using rest(1) by (metis size_union)
    then have "rest = []" using n(1,2) v(3) by simp
    then have m: "mset (map ((!) rs) order) = mset rs" using rest(1) by simp
    then have "list_all (evidence_intact rt key) (map ((!) rs) order)"
      using intact unfolding list_all_iff by (metis mset_eq_setD)
    then show ?thesis using k m rest(2,3) n(3)
      by (intro exI [of _ key] exI [of _ "map ((!) rs) order"]) (simp add: last_hash_def last_map)
  qed
  obtain k rs' where r: "stored_secret secret env = Inr k" "mset rs' = mset rs"
    "chained ev_previous ev_chain_hash GENESIS_HASH rs'" "list_all (evidence_intact rt k) rs'" "rs' \<noteq> []"
    "cr_head_hash a = Some (ev_chain_hash (last rs'))" using full [OF assms(1-3)] by blast
  obtain k' qs' where q: "stored_secret secret env = Inr k'" "mset qs' = mset qs"
    "chained ev_previous ev_chain_hash GENESIS_HASH qs'" "list_all (evidence_intact rt k') qs'" "qs' \<noteq> []"
    "cr_head_hash b = Some (ev_chain_hash (last qs'))" using full [OF assms(4-6)] by blast
  have sets: "set rs' = set rs" "set qs' = set qs" using r(2) q(2) by (metis mset_eq_setD)+
  have "collision_free rt rs' qs'"
    using assms(9) by (simp add: collision_free_def list_all_iff sets)
  moreover have "k = k'" using r(1) q(1) by simp
  ultimately have "evidence_history rt rs' = evidence_history rt qs'"
    using chains_with_one_head [OF assms(8) _ r(4) _ r(3) q(3) r(5) q(5)] q(4) r(6) q(6) assms(7) by simp
  with r(2,3) q(2) show ?thesis by blast
qed

subsection \<open>The audit chain\<close>

lemma audit_report:
  assumes "cr_valid (verifyAuditChain rt records)"
  obtains order where "walkChain (map audit_link_of records) = (order, [])"
    "list_all (audit_intact rt) records" "cr_verified (verifyAuditChain rt records) = length order"
    "cr_head_hash (verifyAuditChain rt records) = last_hash au_chain_hash records order"
proof -
  obtain order linkage where walk: "walkChain (map audit_link_of records) = (order, linkage)" by force
  let ?checked = "map (\<lambda>(row, r). audit_record_breaks rt r row) (List.enumerate 0 records)"
  have report: "verifyAuditChain rt records = \<lparr>cr_valid = (linkage @ concat ?checked = []),
      cr_records = length records, cr_verified = length (filter (\<lambda>row. ?checked ! row = []) order),
      cr_head_hash = last_hash au_chain_hash records order, cr_breaks = linkage @ concat ?checked\<rparr>"
    using walk by (simp add: verifyAuditChain_def Let_def)
  then have none: "linkage = []" "concat ?checked = []"
    using assms by (simp_all only: chain_report.simps append_is_Nil_conv)
  then have intact: "list_all (audit_intact rt) records"
    by (auto simp only: checked_none audit_record_breaks_none list_all_length)
  have o: "set order \<subseteq> {..<length records}"
    using walk_sound(1) [OF walk [unfolded none(1)]] by (simp add: walk_inv_def)
  have "?checked ! row = []" if "row \<in> set order" for row
  proof -
    have "row < length records" using o that by auto
    then show ?thesis using intact by (simp add: nth_enumerate_eq audit_record_breaks_none list_all_length)
  qed
  then have "filter (\<lambda>row. ?checked ! row = []) order = order" by (intro filter_True ballI)
  then show ?thesis using that [OF _ intact] walk none(1) report by simp
qed

lemma valid_audit_is_one_chain:
  assumes "cr_valid (verifyAuditChain rt records)"
  shows "\<exists>chain rest. mset records = mset chain + mset rest \<and> chain \<noteq> []
    \<and> chained au_prev_hash au_chain_hash GENESIS_HASH chain \<and> list_all (audit_intact rt) records
    \<and> distinct (map au_chain_hash records)
    \<and> cr_verified (verifyAuditChain rt records) = length chain
    \<and> cr_head_hash (verifyAuditChain rt records) = Some (au_chain_hash (last chain))
    \<and> detached au_prev_hash au_chain_hash rest"
proof -
  obtain order where walk: "walkChain (map audit_link_of records) = (order, [])"
    and intact: "list_all (audit_intact rt) records"
    and report: "cr_verified (verifyAuditChain rt records) = length order"
      "cr_head_hash (verifyAuditChain rt records) = last_hash au_chain_hash records order"
    using audit_report [OF assms] by metis
  obtain rest where rest: "mset records = mset (map ((!) records) order) + mset rest"
    "chained au_prev_hash au_chain_hash GENESIS_HASH (map ((!) records) order)" "order \<noteq> []"
    "distinct (map au_chain_hash records)" "detached au_prev_hash au_chain_hash rest"
    using walk_partition [OF walk, of au_prev_hash au_chain_hash] by auto
  then show ?thesis using report intact
    by (intro exI [of _ "map ((!) records) order"] exI [of _ rest]) (simp add: last_hash_def last_map)
qed

lemma verify_audit_complete:
  assumes "rs \<noteq> []" and "list_all (audit_intact rt) rs"
    and "chained au_prev_hash au_chain_hash GENESIS_HASH rs" and "distinct (GENESIS_HASH # map au_chain_hash rs)"
  shows "verifyAuditChain rt rs = \<lparr>cr_valid = True, cr_records = length rs,
    cr_verified = length rs, cr_head_hash = Some (au_chain_hash (last rs)), cr_breaks = []\<rparr>"
proof -
  have comp: "ln_prev \<circ> audit_link_of = au_prev_hash" "ln_chain \<circ> audit_link_of = au_chain_hash"
    by auto
  have walk: "walkChain (map audit_link_of rs) = ([0..<length rs], [])"
    using walk_complete [of "map audit_link_of rs"] assms(1,3,4) by (simp add: chained_map comp)
  let ?checked = "map (\<lambda>(row, r). audit_record_breaks rt r row) (List.enumerate 0 rs)"
  have c: "concat ?checked = []"
    using assms(2) by (auto simp only: checked_none audit_record_breaks_none list_all_length)
  have "filter (\<lambda>row. ?checked ! row = []) [0..<length rs] = [0..<length rs]"
    using assms(2) by (intro filter_True) (auto simp: nth_enumerate_eq audit_record_breaks_none list_all_length)
  moreover have "last_hash au_chain_hash rs [0..<length rs] = Some (au_chain_hash (last rs))"
    using assms(1) by (simp add: last_hash_def last_conv_nth)
  ultimately show ?thesis using walk c
    by (simp add: verifyAuditChain_def Let_def del: concat_eq_Nil_conv)
qed

subsection \<open>Closed examples\<close>

text \<open>A runtime whose digests are well-formed and never the genesis digest, and one row it verifies.\<close>

definition chain_runtime :: runtime where
  "chain_runtime = \<lparr>rt_sha256 = (\<lambda>_. replicate 64 CHR ''a''), rt_hmac = (\<lambda>_ _. replicate 64 CHR ''b''),
     rt_numtext = unary_text\<rparr>"

lemma chain_runtime_renders: "renders_ordinals chain_runtime"
proof -
  note unary_text_set
  then have "CHR ''|'' \<notin> set (unary_text q)" for q by force
  then show ?thesis using unary_text_inj by (auto simp: renders_ordinals_def chain_runtime_def)
qed

lemma chain_digests [simp]:
  "rt_sha256 chain_runtime t = replicate 64 CHR ''a''" "rt_hmac chain_runtime k t = replicate 64 CHR ''b''"
  "isSha256Hex (replicate 64 CHR ''a'')" "isSha256Hex (replicate 64 CHR ''b'')"
  "replicate 64 CHR ''a'' \<noteq> GENESIS_HASH"
  by (simp_all add: chain_runtime_def isSha256Hex_def list_all_iff GENESIS_HASH_def numeral_eq_Suc)

definition example_evidence :: evidence_record where
  "example_evidence = \<lparr>ev_evidence_id = ''ev_1'', ev_run_id = ''run-1'', ev_tenant_id = ''t1'',
     ev_correlation_id = ''c-1'', ev_step_index = Fin 1, ev_effect_key = ''k-1'',
     ev_previous = GENESIS_HASH, ev_payload_sha256 = replicate 64 CHR ''a'',
     ev_chain_hash = replicate 64 CHR ''a'', ev_signature = replicate 64 CHR ''b'',
     ev_raw_payload = JObj [(''ok'', JBool True)], ev_created_at = ''2026-01-01T00:00:00.000Z''\<rparr>"

lemma example_evidence_intact: "evidence_intact chain_runtime ''s'' example_evidence"
  by (simp add: evidence_intact_def example_evidence_def blank_def trim_def is_ws_def)

lemma example_secret: "stored_secret (Some ''s'') None = Inr ''s''"
  by (simp add: stored_secret_def blank_def trim_def is_ws_def)

lemma example_evidence_verifies:
  "verifyEvidenceChain chain_runtime None (Some ''s'') [example_evidence\<lparr>ev_created_at := t\<rparr>]
    = Inr \<lparr>cr_valid = True, cr_records = 1, cr_verified = 1,
        cr_head_hash = Some (replicate 64 CHR ''a''), cr_breaks = []\<rparr>"
proof -
  have i: "evidence_intact chain_runtime ''s'' (example_evidence\<lparr>ev_created_at := t\<rparr>)"
    using example_evidence_intact by (simp add: evidence_intact_def evidence_text_def)
  have "GENESIS_HASH \<noteq> replicate 64 CHR ''a''" using chain_digests(5) by metis
  with verify_complete [OF example_secret, of "[example_evidence\<lparr>ev_created_at := t\<rparr>]" chain_runtime] i
  show ?thesis by (simp add: example_evidence_def)
qed

theorem valid_evidence_is_one_chain_witness:
  "\<exists>chain rest. mset [example_evidence\<lparr>ev_created_at := ''x''\<rparr>] = mset chain + mset rest \<and> chain \<noteq> []
    \<and> chained ev_previous ev_chain_hash GENESIS_HASH chain"
  using valid_evidence_is_one_chain [OF example_evidence_verifies [of "''x''"]] by auto

theorem head_digest_fixes_the_history_witness:
  "\<exists>rs' qs'. mset rs' = mset [example_evidence\<lparr>ev_created_at := ''x''\<rparr>]
    \<and> mset qs' = mset [example_evidence\<lparr>ev_created_at := ''y''\<rparr>]
    \<and> evidence_history chain_runtime rs' = evidence_history chain_runtime qs'"
proof -
  have "collision_free chain_runtime [example_evidence\<lparr>ev_created_at := ''x''\<rparr>] [example_evidence\<lparr>ev_created_at := ''y''\<rparr>]"
    by (simp add: collision_free_def evidence_text_def)
  from head_digest_fixes_the_history [OF example_evidence_verifies [of "''x''"] _ _
      example_evidence_verifies [of "''y''"] _ _ _ chain_runtime_renders this]
  show ?thesis by auto
qed

end
