(* ===== verification/Session.thy ===== *)
theory Session
  imports Prelude
begin

text \<open>
  The contracts a stateful component is held to, as locales over its step function \<open>exec\<close>: what
  every operation preserves, isolation of the tenants, and decisions that are taken once. Each one
  lifts a law of single operations to whole sequences of them; the components interpret it.
\<close>

fun run_ops :: "('o \<Rightarrow> 's \<Rightarrow> 'r \<times> 's) \<Rightarrow> 'o list \<Rightarrow> 's \<Rightarrow> ('o \<times> 'r) list \<times> 's" where
  "run_ops exec [] s = ([], s)"
| "run_ops exec (x # xs) s =
    (let (r, s') = exec x s; (rs, t) = run_ops exec xs s' in ((x, r) # rs, t))"

lemma run_ops_Cons:
  "run_ops exec (x # xs) s =
    ((x, fst (exec x s)) # fst (run_ops exec xs (snd (exec x s))), snd (run_ops exec xs (snd (exec x s))))"
  by (simp add: split_def Let_def)

declare run_ops.simps(2) [simp del]
declare run_ops_Cons [simp]

lemma run_ops_append:
  "snd (run_ops exec (xs @ ys) s) = snd (run_ops exec ys (snd (run_ops exec xs s)))"
  by (induction xs arbitrary: s) auto

lemma map_fst_run_ops [simp]: "map fst (fst (run_ops exec xs s)) = xs"
  by (induction xs arbitrary: s) auto

subsection \<open>Invariants\<close>

locale invariant_system =
  fixes exec :: "'o \<Rightarrow> 's \<Rightarrow> 'r \<times> 's"
    and inv :: "'s \<Rightarrow> bool"
  assumes inv_step: "inv s \<Longrightarrow> inv (snd (exec x s))"
begin

lemma inv_run: "inv s \<Longrightarrow> inv (snd (run_ops exec xs s))"
  by (induction xs arbitrary: s) (auto simp: inv_step)

end

subsection \<open>Observations that only move along a preorder\<close>

text \<open>
  \<open>obs k s\<close> is the entry the state holds for a key, if any: an operation adds an entry, leaves it or
  moves it by \<open>moved\<close>, which composes; it never removes one.
\<close>

locale tracked_rows =
  fixes exec :: "'o \<Rightarrow> 's \<Rightarrow> 'r \<times> 's"
    and obs :: "'k \<Rightarrow> 's \<Rightarrow> 'v option"
    and moved :: "'v \<Rightarrow> 'v \<Rightarrow> bool"
  assumes obs_step: "obs k s = Some v \<Longrightarrow> \<exists>w. obs k (snd (exec x s)) = Some w \<and> moved v w"
    and moved_refl: "moved v v"
    and moved_trans: "moved u v \<Longrightarrow> moved v w \<Longrightarrow> moved u w"
begin

lemma obs_run: "obs k s = Some v \<Longrightarrow> \<exists>w. obs k (snd (run_ops exec xs s)) = Some w \<and> moved v w"
proof (induction xs arbitrary: s v)
  case Nil
  then show ?case using moved_refl by auto
next
  case (Cons x xs)
  obtain w where w: "obs k (snd (exec x s)) = Some w" "moved v w"
    using obs_step [OF Cons.prems] by blast
  from Cons.IH [OF w(1)] obtain z where
    "obs k (snd (run_ops exec xs (snd (exec x s)))) = Some z" "moved w z" by blast
  with w(2) show ?case using moved_trans by auto
qed

end

subsection \<open>Isolation of tenants\<close>

locale tenant_isolated_within =
  fixes exec :: "'o \<Rightarrow> 's \<Rightarrow> 'r \<times> 's"
    and tenant_of :: "'o \<Rightarrow> string"
    and view :: "string \<Rightarrow> 's \<Rightarrow> 'v"
    and inv :: "'s \<Rightarrow> bool"
    and legal :: "'o \<Rightarrow> bool"
  assumes foreign: "inv s \<Longrightarrow> legal x \<Longrightarrow> tenant_of x \<noteq> t \<Longrightarrow> view t (snd (exec x s)) = view t s"
    and own_reply: "inv s \<Longrightarrow> inv s' \<Longrightarrow> legal x \<Longrightarrow> view (tenant_of x) s = view (tenant_of x) s' \<Longrightarrow>
      fst (exec x s) = fst (exec x s')"
    and own_view: "inv s \<Longrightarrow> inv s' \<Longrightarrow> legal x \<Longrightarrow> view (tenant_of x) s = view (tenant_of x) s' \<Longrightarrow>
      view (tenant_of x) (snd (exec x s)) = view (tenant_of x) (snd (exec x s'))"
    and inv_kept: "inv s \<Longrightarrow> legal x \<Longrightarrow> inv (snd (exec x s))"
begin

lemma noninterference:
  "inv s \<Longrightarrow> inv s' \<Longrightarrow> list_all legal xs \<Longrightarrow> view t s = view t s' \<Longrightarrow>
   filter (\<lambda>p. tenant_of (fst p) = t) (fst (run_ops exec xs s))
     = fst (run_ops exec (filter (\<lambda>x. tenant_of x = t) xs) s')
   \<and> view t (snd (run_ops exec xs s)) = view t (snd (run_ops exec (filter (\<lambda>x. tenant_of x = t) xs) s'))"
proof (induction xs arbitrary: s s')
  case Nil
  then show ?case by simp
next
  case (Cons x xs)
  have k: "inv (snd (exec x s))" "inv (snd (exec x s'))" "list_all legal xs"
    using Cons.prems inv_kept by auto
  show ?case
  proof (cases "tenant_of x = t")
    case True
    have "view t (snd (exec x s)) = view t (snd (exec x s'))"
      using own_view [of s s' x] Cons.prems True by simp
    moreover have "fst (exec x s) = fst (exec x s')"
      using own_reply [of s s' x] Cons.prems True by simp
    ultimately show ?thesis using Cons.IH [of "snd (exec x s)" "snd (exec x s')"] k True by simp
  next
    case False
    then have "view t (snd (exec x s)) = view t s'"
      using foreign [of s x t] Cons.prems by simp
    then show ?thesis using Cons.IH [OF k(1) Cons.prems(2)] k False by simp
  qed
qed

end

text \<open>The same contract without an invariant, for every operation.\<close>

locale tenant_isolated =
  fixes exec :: "'o \<Rightarrow> 's \<Rightarrow> 'r \<times> 's"
    and tenant_of :: "'o \<Rightarrow> string"
    and view :: "string \<Rightarrow> 's \<Rightarrow> 'v"
  assumes foreign_any: "tenant_of x \<noteq> t \<Longrightarrow> view t (snd (exec x s)) = view t s"
    and own_reply_any: "view (tenant_of x) s = view (tenant_of x) s' \<Longrightarrow> fst (exec x s) = fst (exec x s')"
    and own_view_any: "view (tenant_of x) s = view (tenant_of x) s' \<Longrightarrow>
      view (tenant_of x) (snd (exec x s)) = view (tenant_of x) (snd (exec x s'))"

sublocale tenant_isolated \<subseteq> tenant_isolated_within exec tenant_of view "\<lambda>_. True" "\<lambda>_. True"
  by unfold_locales (auto intro: foreign_any own_reply_any own_view_any)

subsection \<open>Decisions taken once\<close>

locale single_use =
  fixes exec :: "'o \<Rightarrow> 's \<Rightarrow> 'r \<times> 's"
    and grants :: "'k \<Rightarrow> 'o \<times> 'r \<Rightarrow> bool"
    and spent :: "'k \<Rightarrow> 's \<Rightarrow> bool"
  assumes grant_spends: "grants k (x, fst (exec x s)) \<Longrightarrow> spent k (snd (exec x s))"
    and spent_refuses: "spent k s \<Longrightarrow> \<not> grants k (x, fst (exec x s))"
    and spent_stays: "spent k s \<Longrightarrow> spent k (snd (exec x s))"
begin

lemma spent_grants_none: "spent k s \<Longrightarrow> filter (grants k) (fst (run_ops exec xs s)) = []"
  by (induction xs arbitrary: s) (auto simp: spent_refuses spent_stays)

lemma granted_once: "length (filter (grants k) (fst (run_ops exec xs s))) \<le> 1"
proof (induction xs arbitrary: s)
  case Nil
  then show ?case by simp
next
  case (Cons x xs)
  show ?case
  proof (cases "grants k (x, fst (exec x s))")
    case True
    then show ?thesis using spent_grants_none [OF grant_spends [OF True]] by simp
  next
    case False
    then show ?thesis using Cons.IH by simp
  qed
qed

end

end
