(* ===== verification/DatabaseGuards.thy ===== *)
theory DatabaseGuards
  imports Prelude
begin

text \<open>
  The guards every repository of the database package runs before a statement: the tenant binding of
  \<open>packages/database/src/rls.ts\<close> and the column guards of
  \<open>src/repositories/durable-workflows.guards.ts\<close>.
\<close>

definition assertIdentifier :: "string \<Rightarrow> nat \<Rightarrow> string \<Rightarrow> unit result" where
  "assertIdentifier v max_length code =
    (if blank v then Inl (ThrownError code)
     else if max_length < length v then Inl (ThrownError code) else Inr ())"

fun assertPositiveInteger :: "jnum \<Rightarrow> string \<Rightarrow> unit result" where
  "assertPositiveInteger (Fin q) code =
    (if \<not> is_int_rat q \<or> q < 1 then Inl (ThrownError code) else Inr ())"
| "assertPositiveInteger _ code = Inl (ThrownError code)"

definition hex_any_case :: "char \<Rightarrow> bool" where
  "hex_any_case c \<longleftrightarrow> c \<in> set ''0123456789abcdefABCDEF''"

text \<open>\<open>TENANT_UUID_PATTERN\<close>; the pattern ignores case.\<close>

definition tenant_uuid :: "string \<Rightarrow> bool" where
  "tenant_uuid t \<longleftrightarrow> list_all2 (\<lambda>p c. if p = CHR ''x'' then hex_any_case c else c = p)
     ''xxxxxxxx-xxxx-xxxx-xxxx-xxxxxxxxxxxx'' t"

definition assertTenantContext :: "string \<Rightarrow> unit result" where
  "assertTenantContext t =
    (if \<not> tenant_uuid t then Inl (ThrownError ''TENANT_CONTEXT_REQUIRED'') else Inr ())"

text \<open>What a \<open>UUID\<close> column publishes for a hexadecimal text: its lower-case form.\<close>

definition lower_hex :: "char \<Rightarrow> char" where
  "lower_hex c = (case map_of (zip ''ABCDEF'' ''abcdef'') c of None \<Rightarrow> c | Some d \<Rightarrow> d)"

definition uuid_text :: "string \<Rightarrow> string" where
  "uuid_text t = map lower_hex t"

lemma lower_hex_twice [simp]: "lower_hex (lower_hex c) = lower_hex c"
  by (simp add: lower_hex_def)

lemma uuid_text_twice [simp]: "uuid_text (uuid_text t) = uuid_text t"
  by (simp add: uuid_text_def)

text \<open>A tenant for closed examples.\<close>

definition example_tenant :: string where
  "example_tenant = ''0000000a-0000-0000-0000-000000000001''"

lemma example_tenant_uuid: "tenant_uuid example_tenant"
  by (simp add: tenant_uuid_def example_tenant_def hex_any_case_def)

lemma example_tenant_text [simp]: "uuid_text example_tenant = example_tenant" "\<not> blank example_tenant"
  by (simp_all add: uuid_text_def lower_hex_def example_tenant_def blank_def trim_def is_ws_def)

end
