(* ===== verification/EvidenceStore.thy ===== *)
theory EvidenceStore
  imports ChainProperties Session DatabaseGuards "HOL-Library.Product_Lexorder"
begin

text \<open>
  The durable evidence and audit chains of the database package:
  \<open>packages/database/src/repositories/audit-evidence.ts\<close> with the statements of
  \<open>audit-evidence.sql.ts\<close>. A table is the list of its rows in insertion order. Its SQL is
  written out: the primary key, the \<open>UNIQUE (tenant_id, chain_hash)\<close> constraints, the tail and read
  orders, and the \<open>UUID\<close> column, which publishes a tenant in lower case. A failed statement rolls the
  transaction back, so a refusal leaves the table as it was; the advisory lock makes the transactions
  of one chain a sequence. Strings are compared by code unit (the identifiers are lower-case
  hexadecimal), and values outside the range of an \<open>INT\<close> column are left out.
\<close>

subsection \<open>The evidence table\<close>

text \<open>\<open>SELECT_EVIDENCE_BY_RUN\<close>; its last row is the one of \<open>SELECT_EVIDENCE_TAIL\<close>.\<close>

definition read_order :: "evidence_record \<Rightarrow> rat \<times> string" where
  "read_order r = (step_value (ev_step_index r), ev_evidence_id r)"

definition select_run :: "string \<Rightarrow> string \<Rightarrow> evidence_record list \<Rightarrow> evidence_record list" where
  "select_run tenant_id run_id table =
     sort_key read_order
       (filter (\<lambda>r. ev_tenant_id r = uuid_text tenant_id \<and> ev_run_id r = run_id) table)"

definition select_tail :: "string \<Rightarrow> string \<Rightarrow> evidence_record list \<Rightarrow> evidence_record option" where
  "select_tail tenant_id run_id table =
     (let rows = select_run tenant_id run_id table in if rows = [] then None else Some (last rows))"

definition insert_evidence :: "evidence_record \<Rightarrow> evidence_record list \<Rightarrow>
    evidence_record result \<times> evidence_record list" where
  "insert_evidence row table =
    (if list_ex (\<lambda>r. ev_evidence_id r = ev_evidence_id row
          \<or> (ev_tenant_id r = ev_tenant_id row \<and> ev_chain_hash r = ev_chain_hash row)) table
     then (Inl (ThrownError ''23505''), table) else (Inr row, table @ [row]))"

text \<open>\<open>instant\<close> renders a parsable instant as \<open>toISOString\<close> does; \<open>now\<close> is the column default.\<close>

definition append_guards :: "(string \<Rightarrow> string option) \<Rightarrow> runtime \<Rightarrow> string option \<Rightarrow> evidence_link \<Rightarrow>
    (string \<times> string) result" where
  "append_guards instant rt env i =
    andThen (assertIdentifier (el_tenant_id i) 36 ''EVIDENCE_INPUT_INVALID'') (\<lambda>_.
    andThen (assertIdentifier (el_run_id i) 64 ''EVIDENCE_INPUT_INVALID'') (\<lambda>_.
    andThen (assertIdentifier (el_correlation_id i) 64 ''EVIDENCE_INPUT_INVALID'') (\<lambda>_.
    andThen (assertIdentifier (el_effect_key i) 128 ''EVIDENCE_INPUT_INVALID'') (\<lambda>_.
    andThen (assertPositiveInteger (el_step_index i) ''EVIDENCE_INPUT_INVALID'') (\<lambda>_.
    andThen (stored_secret (el_secret i) env) (\<lambda>secret.
    andThen (stored_sha256CanonicalJson rt (JObj (el_payload i))) (\<lambda>payload_sha256.
    andThen (case el_created_at i of None \<Rightarrow> Inr ()
             | Some t \<Rightarrow> if instant t = None then Inl (ThrownError ''EVIDENCE_INPUT_INVALID'') else Inr ()) (\<lambda>_.
    andThen (case el_previous i of None \<Rightarrow> Inr ()
             | Some h \<Rightarrow> andThen (assertSha256Digest h ''EVIDENCE_INPUT_INVALID'') (\<lambda>_. Inr ())) (\<lambda>_.
      Inr (secret, payload_sha256))))))))))"

definition appendEvidence :: "(string \<Rightarrow> string option) \<Rightarrow> runtime \<Rightarrow> string option \<Rightarrow> string \<Rightarrow>
    evidence_link \<Rightarrow> evidence_record list \<Rightarrow> evidence_record result \<times> evidence_record list" where
  "appendEvidence instant rt env now i table =
    (case append_guards instant rt env i of Inl e \<Rightarrow> (Inl e, table) | Inr (secret, payload_sha256) \<Rightarrow>
     case assertTenantContext (el_tenant_id i) of Inl e \<Rightarrow> (Inl e, table) | Inr _ \<Rightarrow>
     (let previous = (case select_tail (el_tenant_id i) (el_run_id i) table of
            None \<Rightarrow> GENESIS_HASH | Some row \<Rightarrow> ev_chain_hash row) in
      if (case el_previous i of None \<Rightarrow> False | Some h \<Rightarrow> h \<noteq> previous)
      then (Inl (ThrownError ''EVIDENCE_CHAIN_STALE''), table)
      else case stored_evidenceChainHash rt previous payload_sha256 (el_effect_key i) (el_step_index i) of
        Inl e \<Rightarrow> (Inl e, table)
      | Inr chain_hash \<Rightarrow>
        (case stored_signEvidenceChainHash rt chain_hash (Some secret) None of
           Inl e \<Rightarrow> (Inl e, table)
         | Inr signature \<Rightarrow>
           (case insert_evidence
              \<lparr>ev_evidence_id = evidence_id_of rt (el_tenant_id i) (el_run_id i) (el_effect_key i) (el_step_index i),
               ev_run_id = el_run_id i, ev_tenant_id = uuid_text (el_tenant_id i),
               ev_correlation_id = el_correlation_id i, ev_step_index = el_step_index i,
               ev_effect_key = el_effect_key i, ev_previous = previous,
               ev_payload_sha256 = payload_sha256, ev_chain_hash = chain_hash, ev_signature = signature,
               ev_raw_payload = JObj (el_payload i),
               ev_created_at = (case el_created_at i of None \<Rightarrow> now | Some t \<Rightarrow> the (instant t))\<rparr> table of
              (Inl _, t) \<Rightarrow> (Inl (ThrownError ''EVIDENCE_ALREADY_APPENDED''), t)
            | (Inr row, t) \<Rightarrow> (Inr row, t)))))"

definition findEvidence :: "string \<Rightarrow> string \<Rightarrow> string \<Rightarrow> jnum \<Rightarrow> evidence_record list \<Rightarrow>
    evidence_record option result" where
  "findEvidence tenant_id run_id effect_key step_index table =
    andThen (assertIdentifier tenant_id 36 ''EVIDENCE_INPUT_INVALID'') (\<lambda>_.
    andThen (assertIdentifier run_id 64 ''EVIDENCE_INPUT_INVALID'') (\<lambda>_.
    andThen (assertIdentifier effect_key 128 ''EVIDENCE_INPUT_INVALID'') (\<lambda>_.
    andThen (assertPositiveInteger step_index ''EVIDENCE_INPUT_INVALID'') (\<lambda>_.
    andThen (assertTenantContext tenant_id) (\<lambda>_.
      Inr (find (\<lambda>r. ev_tenant_id r = uuid_text tenant_id \<and> ev_run_id r = run_id
        \<and> ev_effect_key r = effect_key \<and> ev_step_index r = step_index) table))))))"

definition readEvidenceChain :: "string \<Rightarrow> string \<Rightarrow> evidence_record list \<Rightarrow> evidence_record list result" where
  "readEvidenceChain tenant_id run_id table =
    andThen (assertIdentifier tenant_id 36 ''EVIDENCE_INPUT_INVALID'') (\<lambda>_.
    andThen (assertIdentifier run_id 64 ''EVIDENCE_INPUT_INVALID'') (\<lambda>_.
    andThen (assertTenantContext tenant_id) (\<lambda>_. Inr (select_run tenant_id run_id table))))"

definition verifyRunChain :: "runtime \<Rightarrow> string option \<Rightarrow> string option \<Rightarrow> string \<Rightarrow> string \<Rightarrow>
    evidence_record list \<Rightarrow> chain_report result" where
  "verifyRunChain rt env secret tenant_id run_id table =
    andThen (readEvidenceChain tenant_id run_id table) (verifyEvidenceChain rt env secret)"

subsection \<open>One append\<close>

text \<open>What is assumed of the digest primitives: lower-case hexadecimal results, none of them all zeros.\<close>

definition hex_digests :: "runtime \<Rightarrow> bool" where
  "hex_digests rt \<longleftrightarrow>
     (\<forall>t. isSha256Hex (rt_sha256 rt t) \<and> rt_sha256 rt t \<noteq> GENESIS_HASH) \<and> (\<forall>k t. isSha256Hex (rt_hmac rt k t))"

definition tail_hash :: "string \<Rightarrow> string \<Rightarrow> evidence_record list \<Rightarrow> string" where
  "tail_hash tenant_id run_id table = (case select_tail tenant_id run_id table of
     None \<Rightarrow> GENESIS_HASH | Some row \<Rightarrow> ev_chain_hash row)"

lemma tail_hash_end: "tail_hash t r table = end_hash ev_chain_hash GENESIS_HASH (select_run t r table)"
  by (simp add: tail_hash_def select_tail_def end_hash_def Let_def)

text \<open>An accepted append: the row it inserts and what held of the table before.\<close>

definition appended_row :: "runtime \<Rightarrow> string \<Rightarrow> evidence_link \<Rightarrow> evidence_record list \<Rightarrow> evidence_record \<Rightarrow> bool" where
  "appended_row rt key i table row \<longleftrightarrow>
     ev_tenant_id row = uuid_text (el_tenant_id i) \<and> ev_run_id row = el_run_id i
     \<and> ev_step_index row = el_step_index i \<and> ev_effect_key row = el_effect_key i
     \<and> ev_raw_payload row = JObj (el_payload i)
     \<and> ev_evidence_id row = evidence_id_of rt (el_tenant_id i) (el_run_id i) (el_effect_key i) (el_step_index i)
     \<and> ev_previous row = tail_hash (el_tenant_id i) (el_run_id i) table
     \<and> (\<forall>h. el_previous i = Some h \<longrightarrow> h = ev_previous row)
     \<and> evidence_intact rt key row
     \<and> (\<forall>r \<in> set table. \<not> (ev_tenant_id r = ev_tenant_id row \<and> ev_chain_hash r = ev_chain_hash row))"

lemma positive_natural: "assertPositiveInteger n code = Inr u \<Longrightarrow> is_natural n"
  by (cases n) (auto split: if_splits)

lemma append_guards_Inr:
  assumes "append_guards instant rt env i = Inr (secret, payload_sha256)"
  shows "stored_secret (el_secret i) env = Inr secret" and "canonical (JObj (el_payload i))"
    and "payload_sha256 = rt_sha256 rt (text_of rt (JObj (el_payload i)))"
    and "\<not> blank (el_effect_key i)" and "is_natural (el_step_index i)" and "\<not> blank secret"
proof -
  note g = assms [unfolded append_guards_def andThen_Inr_iff]
  show s: "stored_secret (el_secret i) env = Inr secret" using g by auto
  have "stored_sha256CanonicalJson rt (JObj (el_payload i)) = Inr payload_sha256" using g by auto
  then show "canonical (JObj (el_payload i))"
    "payload_sha256 = rt_sha256 rt (text_of rt (JObj (el_payload i)))"
    by (simp_all add: stored_sha256_eq split: if_splits)
  have "assertIdentifier (el_effect_key i) 128 ''EVIDENCE_INPUT_INVALID'' = Inr ()" using g by auto
  then show "\<not> blank (el_effect_key i)" by (simp add: assertIdentifier_def split: if_splits)
  show "is_natural (el_step_index i)" using g positive_natural by blast
  show "\<not> blank secret" using s stored_secret_Inr by blast
qed

lemma appendEvidence_cases:
  assumes "hex_digests rt" and "stored_secret (el_secret i) env = Inr key"
  obtains (refused) e where "appendEvidence instant rt env now i table = (Inl e, table)"
  | (accepted) row where "appendEvidence instant rt env now i table = (Inr row, table @ [row])"
      "appended_row rt key i table row"
proof (cases "fst (appendEvidence instant rt env now i table)")
  case (Inl e)
  then have "appendEvidence instant rt env now i table = (Inl e, table)"
    by (auto simp: appendEvidence_def insert_evidence_def Let_def split: sum.splits prod.splits if_splits)
  then show ?thesis by (rule refused)
next
  case (Inr row)
  then obtain secret payload_sha256 where g: "append_guards instant rt env i = Inr (secret, payload_sha256)"
    by (auto simp: appendEvidence_def split: sum.splits)
  note gi = append_guards_Inr [OF g]
  have key: "secret = key" using gi(1) assms(2) by simp
  then have sign: "stored_signEvidenceChainHash rt h (Some secret) None
      = (if isSha256Hex h then Inr (rt_hmac rt key h) else Inl (ThrownError ''EVIDENCE_INPUT_INVALID''))" for h
    using gi(6) by (simp add: stored_signEvidenceChainHash_def assertSha256Digest_def stored_secret_def)
  show ?thesis
  proof (rule accepted)
    show "appendEvidence instant rt env now i table = (Inr row, table @ [row])"
      using Inr by (auto simp: appendEvidence_def insert_evidence_def Let_def
          split: sum.splits prod.splits if_splits)
    show "appended_row rt key i table row"
      using Inr g gi sign assms(1)
      by (auto simp: appendEvidence_def insert_evidence_def Let_def appended_row_def tail_hash_def
          evidence_intact_def evidence_text_def stored_evidenceChainHash_eq hex_digests_def list_ex_iff
          simp del: canonical.simps split: sum.splits prod.splits if_splits)
  qed
qed

text \<open>The row an append without cursor inserts, and when it is inserted.\<close>

definition linked_row :: "runtime \<Rightarrow> string \<Rightarrow> string \<Rightarrow> evidence_link \<Rightarrow> string \<Rightarrow> evidence_record" where
  "linked_row rt key now i previous =
    (let payload_sha256 = rt_sha256 rt (text_of rt (JObj (el_payload i)));
         chain_hash = rt_sha256 rt (evidence_preimage rt previous payload_sha256 (el_effect_key i) (el_step_index i))
     in \<lparr>ev_evidence_id = evidence_id_of rt (el_tenant_id i) (el_run_id i) (el_effect_key i) (el_step_index i),
         ev_run_id = el_run_id i, ev_tenant_id = uuid_text (el_tenant_id i),
         ev_correlation_id = el_correlation_id i, ev_step_index = el_step_index i,
         ev_effect_key = el_effect_key i, ev_previous = previous,
         ev_payload_sha256 = payload_sha256, ev_chain_hash = chain_hash,
         ev_signature = rt_hmac rt key chain_hash, ev_raw_payload = JObj (el_payload i),
         ev_created_at = now\<rparr>)"

lemma appendEvidence_accepts:
  assumes "hex_digests rt" and "append_guards instant rt env i = Inr (key, payload_sha256)"
    and "tenant_uuid (el_tenant_id i)" "el_previous i = None" "el_created_at i = None"
    and "tail_hash (el_tenant_id i) (el_run_id i) table = previous" "isSha256Hex previous"
    and "\<forall>r \<in> set table. ev_evidence_id r \<noteq> ev_evidence_id (linked_row rt key now i previous)
      \<and> ev_chain_hash r \<noteq> ev_chain_hash (linked_row rt key now i previous)"
  shows "appendEvidence instant rt env now i table
    = (Inr (linked_row rt key now i previous), table @ [linked_row rt key now i previous])"
proof -
  note g = append_guards_Inr [OF assms(2)]
  have "assertTenantContext (el_tenant_id i) = Inr ()" using assms(3) by (simp add: assertTenantContext_def)
  moreover have "stored_signEvidenceChainHash rt h (Some key) None = Inr (rt_hmac rt key h)" if "isSha256Hex h" for h
    using g(6) that by (simp add: stored_signEvidenceChainHash_def assertSha256Digest_def stored_secret_def)
  moreover have "isSha256Hex (rt_sha256 rt t)" for t using assms(1) by (simp add: hex_digests_def)
  moreover have "(case select_tail (el_tenant_id i) (el_run_id i) table of
      None \<Rightarrow> GENESIS_HASH | Some row \<Rightarrow> ev_chain_hash row) = previous"
    using assms(6) by (simp add: tail_hash_def)
  ultimately show ?thesis
    using assms(2,4,5,7,8) g(3-5)
    by (auto simp: appendEvidence_def insert_evidence_def linked_row_def Let_def stored_evidenceChainHash_eq
        list_ex_iff)
qed

subsection \<open>Runs\<close>

lemma sort_key_snoc:
  assumes "\<forall>y \<in> set xs. f y \<le> f x"
  shows "sort_key f (xs @ [x]) = sort_key f xs @ [x]"
proof (rule properties_for_sort_key)
  show "mset (sort_key f xs @ [x]) = mset (xs @ [x])" by simp
  show "sorted (map f (sort_key f xs @ [x]))" using assms by (simp add: sorted_append)
  fix k
  show "filter (\<lambda>y. f k = f y) (sort_key f xs @ [x]) = filter (\<lambda>y. f k = f y) (xs @ [x])"
    using sort_key_stable [of f "f k" xs] by (simp add: eq_commute)
qed

definition targets :: "string \<Rightarrow> string \<Rightarrow> evidence_link \<Rightarrow> bool" where
  "targets t r i \<longleftrightarrow> uuid_text (el_tenant_id i) = uuid_text t \<and> el_run_id i = r"

lemma select_run_same: "targets t r i \<Longrightarrow> select_run (el_tenant_id i) (el_run_id i) table = select_run t r table"
  by (simp add: select_run_def targets_def)

lemma select_run_append_other:
  "appended_row rt key i table row \<Longrightarrow> \<not> targets t r i \<Longrightarrow> select_run t r (table @ [row]) = select_run t r table"
  by (auto simp: select_run_def targets_def appended_row_def)

lemma select_run_append:
  assumes "appended_row rt key i table row" "targets t r i"
    and "\<forall>q \<in> set (select_run t r table). step_value (ev_step_index q) < step_value (el_step_index i)"
  shows "select_run t r (table @ [row]) = select_run t r table @ [row]"
proof -
  let ?P = "\<lambda>q. ev_tenant_id q = uuid_text t \<and> ev_run_id q = r"
  have "?P row" using assms(1,2) by (simp add: appended_row_def targets_def)
  moreover have "\<forall>q \<in> set (filter ?P table). read_order q \<le> read_order row"
    using assms(1,3) by (auto simp: select_run_def read_order_def appended_row_def less_eq_prod_def)
  ultimately show ?thesis by (simp add: select_run_def sort_key_snoc)
qed

text \<open>A run whose rows, in read order, are a verified chain of increasing steps.\<close>

definition run_sound :: "runtime \<Rightarrow> string \<Rightarrow> evidence_record list \<Rightarrow> bool" where
  "run_sound rt key rows \<longleftrightarrow> list_all (evidence_intact rt key) rows
     \<and> chained ev_previous ev_chain_hash GENESIS_HASH rows \<and> distinct (map ev_chain_hash rows)
     \<and> sorted (map (\<lambda>q. step_value (ev_step_index q)) rows)"

lemma run_sound_append:
  assumes "run_sound rt key (select_run t r table)" and "appended_row rt key i table row" "targets t r i"
    and "\<forall>q \<in> set (select_run t r table). step_value (ev_step_index q) < step_value (el_step_index i)"
  shows "run_sound rt key (select_run t r table @ [row])"
proof -
  have prev: "ev_previous row = end_hash ev_chain_hash GENESIS_HASH (select_run t r table)"
    using assms(2) select_run_same [OF assms(3), of table]
    by (simp add: appended_row_def tail_hash_end)
  have "ev_chain_hash row \<notin> ev_chain_hash ` set (select_run t r table)"
    using assms(2,3) by (auto simp: appended_row_def select_run_def targets_def)
  then show ?thesis
    using assms prev
    by (auto simp: run_sound_def chained_append appended_row_def sorted_append less_imp_le)
qed

text \<open>A call of the writer: its clock reading and its input.\<close>

type_synonym evidence_call = "string \<times> evidence_link"

definition evidence_exec :: "(string \<Rightarrow> string option) \<Rightarrow> runtime \<Rightarrow> string option \<Rightarrow> evidence_call \<Rightarrow>
    evidence_record list \<Rightarrow> evidence_record result \<times> evidence_record list" where
  "evidence_exec instant rt env c table = appendEvidence instant rt env (fst c) (snd c) table"

abbreviation accepted :: "evidence_call \<times> evidence_record result \<Rightarrow> bool" where
  "accepted e \<equiv> succeeds (snd e)"

lemma run_appends:
  assumes "hex_digests rt" and "\<forall>c \<in> set xs. stored_secret (el_secret (snd c)) env = Inr key"
    and "sorted_wrt (\<lambda>c d. step_value (el_step_index (snd c)) < step_value (el_step_index (snd d)))
           (filter (\<lambda>c. targets t r (snd c)) xs)"
    and "run_sound rt key (select_run t r table)"
    and "\<forall>c \<in> set xs. targets t r (snd c) \<longrightarrow>
      (\<forall>q \<in> set (select_run t r table). step_value (ev_step_index q) < step_value (el_step_index (snd c)))"
  shows "run_sound rt key (select_run t r (snd (run_ops (evidence_exec instant rt env) xs table)))
    \<and> length (select_run t r (snd (run_ops (evidence_exec instant rt env) xs table)))
      = length (select_run t r table)
        + length (filter (\<lambda>e. targets t r (snd (fst e)) \<and> accepted e)
            (fst (run_ops (evidence_exec instant rt env) xs table)))"
  using assms(2-5)
proof (induction xs arbitrary: table)
  case Nil
  then show ?case by simp
next
  case (Cons c xs)
  have key: "stored_secret (el_secret (snd c)) env = Inr key" using Cons.prems(1) by simp
  let ?i = "snd c"
  show ?case
  proof (rule appendEvidence_cases [OF assms(1) key, of instant "fst c" table], goal_cases)
    case (1 e)
    then have "evidence_exec instant rt env c table = (Inl e, table)" by (simp add: evidence_exec_def)
    then show ?thesis using Cons by (auto split: if_splits)
  next
    case (2 row)
    then have ex: "evidence_exec instant rt env c table = (Inr row, table @ [row])"
      by (simp add: evidence_exec_def)
    show ?thesis
    proof (cases "targets t r ?i")
      case False
      note same = select_run_append_other [OF 2(2) False]
      have "sorted_wrt (\<lambda>c d. step_value (el_step_index (snd c)) < step_value (el_step_index (snd d)))
          (filter (\<lambda>c. targets t r (snd c)) xs)" using Cons.prems(2) False by simp
      with Cons.IH [of "table @ [row]"] Cons.prems(1,3,4) same ex False show ?thesis by simp
    next
      case True
      have below: "\<forall>q \<in> set (select_run t r table). step_value (ev_step_index q) < step_value (el_step_index ?i)"
        using Cons.prems(4) True by simp
      note rows = select_run_append [OF 2(2) True below]
      have sound: "run_sound rt key (select_run t r (table @ [row]))"
        unfolding rows by (rule run_sound_append [OF Cons.prems(3) 2(2) True below])
      have later: "sorted_wrt (\<lambda>c d. step_value (el_step_index (snd c)) < step_value (el_step_index (snd d)))
          (filter (\<lambda>c. targets t r (snd c)) xs)"
        "\<forall>d \<in> set xs. targets t r (snd d) \<longrightarrow>
          step_value (el_step_index ?i) < step_value (el_step_index (snd d))"
        using Cons.prems(2) True by auto
      have "ev_step_index row = el_step_index ?i" using 2(2) by (simp add: appended_row_def)
      then have bound: "\<forall>d \<in> set xs. targets t r (snd d) \<longrightarrow>
          (\<forall>q \<in> set (select_run t r (table @ [row])). step_value (ev_step_index q) < step_value (el_step_index (snd d)))"
        using Cons.prems(4) later(2) rows by auto
      from Cons.IH [OF _ later(1) sound bound] Cons.prems(1) ex True rows show ?thesis by simp
    qed
  qed
qed

text \<open>
  C27: the writer's chain verifies. Whatever appends for other runs and tenants are interleaved, and
  whatever appends are refused, if the steps handed in for one run increase, the run's rows verify
  with every accepted row counted. No assumption on collisions is needed: the constraint on
  tenant and chain digest refuses a row whose digest repeats.
\<close>

theorem appended_run_verifies:
  assumes "hex_digests rt" and "\<forall>c \<in> set xs. stored_secret (el_secret (snd c)) env = Inr key"
    and "sorted_wrt (\<lambda>c d. step_value (el_step_index (snd c)) < step_value (el_step_index (snd d)))
           (filter (\<lambda>c. targets t r (snd c)) xs)"
    and "run_ops (evidence_exec instant rt env) xs [] = (replies, table)"
    and "n = length (filter (\<lambda>e. targets t r (snd (fst e)) \<and> accepted e) replies)" and "0 < n"
    and "succeeds (readEvidenceChain t r [])" and "stored_secret secret env = Inr key"
  shows "\<exists>head. verifyRunChain rt env secret t r table = Inr \<lparr>cr_valid = True, cr_records = n,
    cr_verified = n, cr_head_hash = Some head, cr_breaks = []\<rparr>"
proof -
  let ?rows = "select_run t r table"
  have "run_sound rt key (select_run t r [])" by (simp add: run_sound_def select_run_def)
  from run_appends [OF assms(1-3) this, of instant] assms(4,5)
  have s: "run_sound rt key ?rows" and n: "length ?rows = n" by (simp_all add: select_run_def)
  have g: "ev_chain_hash q \<noteq> GENESIS_HASH" if "q \<in> set ?rows" for q
    using s that assms(1) by (auto simp: run_sound_def list_all_iff hex_digests_def dest!: evidence_intactD(5))
  have "GENESIS_HASH \<notin> ev_chain_hash ` set ?rows"
  proof
    assume "GENESIS_HASH \<in> ev_chain_hash ` set ?rows"
    then obtain q where "q \<in> set ?rows" "GENESIS_HASH = ev_chain_hash q" by blast
    with g [of q] show False by simp
  qed
  then have "distinct (GENESIS_HASH # map ev_chain_hash ?rows)"
    using s by (simp add: run_sound_def)
  moreover have "?rows \<noteq> []" using n assms(6) by auto
  moreover have "readEvidenceChain t r table = Inr ?rows"
    using assms(7) by (auto simp: readEvidenceChain_def succeeds_iff andThen_Inr_iff)
  ultimately show ?thesis
    using verify_complete [OF assms(8), of ?rows rt] s n by (simp add: verifyRunChain_def run_sound_def)
qed

text \<open>
  the tail query orders by step and then by evidence id, which is a digest, not by the links. Two
  effects of one step leave a run whose greatest row p may already have a successor q. From then
  on no append extends the chain: one that is accepted becomes a second child of p, and the run no
  longer verifies; one that holds the true head as its cursor is refused as stale.
\<close>

theorem tail_with_successor_forks:
  assumes "hex_digests rt" and "stored_secret (el_secret i) env = Inr key"
    and "targets t r i" and "select_tail t r table = Some p"
    and "q \<in> set (select_run t r table)" and "ev_previous q = ev_chain_hash p"
    and "ev_chain_hash q \<noteq> ev_chain_hash p"
  shows "(\<forall>row. fst (appendEvidence instant rt env now i table) = Inr row \<longrightarrow>
      ev_previous row = ev_chain_hash p
      \<and> (\<forall>report. verifyRunChain rt env secret t r (snd (appendEvidence instant rt env now i table)) = Inr report
           \<longrightarrow> \<not> cr_valid report))
    \<and> (el_previous i = Some (ev_chain_hash q) \<longrightarrow>
      \<not> succeeds (fst (appendEvidence instant rt env now i table)))"
proof -
  have tail: "tail_hash (el_tenant_id i) (el_run_id i) table = ev_chain_hash p"
    using assms(3,4) by (simp add: tail_hash_def select_tail_def select_run_same)
  have "ev_previous row = ev_chain_hash p
      \<and> (\<forall>report. verifyRunChain rt env secret t r (snd (appendEvidence instant rt env now i table)) = Inr report
           \<longrightarrow> \<not> cr_valid report)"
    if "fst (appendEvidence instant rt env now i table) = Inr row" for row
  proof (rule appendEvidence_cases [OF assms(1,2), of instant now table])
    fix row'
    assume ap: "appendEvidence instant rt env now i table = (Inr row', table @ [row'])"
      and row: "appended_row rt key i table row'"
    have prev: "ev_previous row' = ev_chain_hash p" using row tail by (simp add: appended_row_def)
    have "\<not> cr_valid report" if v: "verifyRunChain rt env secret t r (table @ [row']) = Inr report" for report
    proof
      assume "cr_valid report"
      let ?rows = "select_run t r (table @ [row'])"
      from v have "verifyEvidenceChain rt env secret ?rows = Inr report"
        by (auto simp: verifyRunChain_def readEvidenceChain_def andThen_Inr_iff)
      from evidence_report [OF this \<open>cr_valid report\<close>] obtain order
        where "walkChain (map evidence_link_of ?rows) = (order, [])" by metis
      then have one: "length (rows_of (map evidence_link_of ?rows) (ev_chain_hash p)) \<le> 1"
        by (rule walk_sound(4))
      have members: "q \<in> set ?rows" "row' \<in> set ?rows"
        using assms(3,5) row by (auto simp: select_run_def appended_row_def targets_def)
      then obtain a b where ab: "a < length ?rows" "?rows ! a = q" "b < length ?rows" "?rows ! b = row'"
        by (metis in_set_conv_nth)
      have "a \<in> set (rows_of (map evidence_link_of ?rows) (ev_chain_hash p))"
        "b \<in> set (rows_of (map evidence_link_of ?rows) (ev_chain_hash p))"
        using ab assms(6) prev by (simp_all add: set_rows_of)
      then have "a = b" using one by (cases "rows_of (map evidence_link_of ?rows) (ev_chain_hash p)") auto
      then have "q = row'" using ab by simp
      moreover have "q \<in> set table" "ev_tenant_id q = ev_tenant_id row'"
        using assms(3,5) row by (auto simp: select_run_def appended_row_def targets_def)
      ultimately show False using row by (auto simp: appended_row_def)
    qed
    with ap prev that show ?thesis by simp
  qed (use that in simp)
  moreover have "\<not> succeeds (fst (appendEvidence instant rt env now i table))"
    if "el_previous i = Some (ev_chain_hash q)"
    by (rule appendEvidence_cases [OF assms(1,2), of instant now table])
      (use that tail assms(7) in \<open>auto simp: appended_row_def\<close>)
  ultimately show ?thesis by blast
qed

subsection \<open>Closed examples\<close>

text \<open>A digest that tells three markers apart, and a tenant with one effect for each.\<close>

definition marker :: "string \<Rightarrow> char" where
  "marker t = (if CHR ''x'' \<in> set t then CHR ''7'' else if CHR ''y'' \<in> set t then CHR ''6''
     else if CHR ''z'' \<in> set t then CHR ''5'' else CHR ''c'')"

definition marker_runtime :: runtime where
  "marker_runtime = \<lparr>rt_sha256 = (\<lambda>t. replicate 64 (marker t)),
     rt_hmac = (\<lambda>_ _. replicate 64 CHR ''b''), rt_numtext = unary_text\<rparr>"

definition example_call :: "string \<Rightarrow> rat \<Rightarrow> evidence_call" where
  "example_call effect_key step = (''now'', \<lparr>el_tenant_id = example_tenant, el_run_id = ''run-1'',
     el_correlation_id = ''c-1'', el_step_index = Fin step, el_effect_key = effect_key,
     el_payload = [(''ok'', JBool True)], el_previous = None, el_secret = Some ''s'', el_created_at = None\<rparr>)"

lemma marker_runtime_hex: "hex_digests marker_runtime"
proof -
  have "marker t \<in> {CHR ''7'', CHR ''6'', CHR ''5'', CHR ''c''}" for t by (simp add: marker_def)
  moreover have "isSha256Hex (replicate 64 c)" "replicate 64 c \<noteq> GENESIS_HASH"
    if "c \<in> {CHR ''7'', CHR ''6'', CHR ''5'', CHR ''c''}" for c
    using that by (auto simp: isSha256Hex_def list_all_iff GENESIS_HASH_def numeral_eq_Suc)
  ultimately show ?thesis by (simp add: hex_digests_def marker_runtime_def)
qed

definition example_step :: "evidence_call \<Rightarrow> evidence_record list \<Rightarrow> evidence_record result \<times> evidence_record list" where
  "example_step = evidence_exec (\<lambda>_. None) marker_runtime None"

lemma example_guards:
  "append_guards (\<lambda>_. None) marker_runtime None (snd (example_call [c] (of_nat (Suc n))))
     = Inr (''s'', replicate 64 CHR ''c'')"
  if "\<not> is_ws c"
proof -
  have "assertPositiveInteger (Fin (of_nat (Suc n))) code = Inr ()" for code
    using is_int_rat_of_int [of "int (Suc n)"] by (simp del: is_int_rat_of_int)
  moreover have "text_of marker_runtime (JObj [(''ok'', JBool True)]) = ''{'' @ json_quote ''ok'' @ '':true}''"
    by (simp add: text_of_def join_with_def)
  moreover have "marker (''{'' @ json_quote ''ok'' @ '':true}'') = CHR ''c''"
    by (simp add: marker_def json_quote_def json_escape_def)
  ultimately show ?thesis using that
    by (simp add: append_guards_def example_call_def example_tenant_def assertIdentifier_def blank_def
        trim_def is_ws_def stored_secret_def stored_sha256_eq marker_runtime_def)
qed

definition example_row :: "char \<Rightarrow> nat \<Rightarrow> string \<Rightarrow> evidence_record" where
  "example_row c n previous =
     linked_row marker_runtime ''s'' ''now'' (snd (example_call [c] (of_nat (Suc n)))) previous"

lemma marker_between:
  "set a \<inter> set ''xyz'' = {} \<Longrightarrow> set b \<inter> set ''xyz'' = {} \<Longrightarrow> marker (a @ c # b) = marker [c]"
  by (auto simp: marker_def)

lemma example_row_digests:
  assumes "set previous \<inter> set ''xyz'' = {}"
  shows "ev_chain_hash (example_row c n previous) = replicate 64 (marker [c])"
    and "ev_evidence_id (example_row c n previous) = ''ev_'' @ replicate 16 (marker [c])"
proof -
  let ?i = "snd (example_call [c] (of_nat (Suc n)))"
  have u: "set (''|'' @ unary_text q) \<inter> set ''xyz'' = {}" for q using unary_text_set [of q] by auto
  define body where "body = rt_sha256 marker_runtime (text_of marker_runtime (JObj (el_payload ?i)))"
  have b: "set body \<inter> set ''xyz'' = {}" by (auto simp: body_def marker_runtime_def marker_def split: if_splits)
  have "marker ((previous @ ''|'' @ body @ ''|'') @ c # (''|'' @ unary_text (of_nat (Suc n)))) = marker [c]"
    by (rule marker_between [OF _ u]) (use assms b in auto)
  then show "ev_chain_hash (example_row c n previous) = replicate 64 (marker [c])"
    by (simp add: example_row_def linked_row_def Let_def body_def [symmetric] evidence_preimage_def
        del: of_nat_Suc) (simp add: marker_runtime_def example_call_def)
  have "marker ((example_tenant @ ''|run-1|'') @ c # (''|'' @ unary_text (of_nat (Suc n)))) = marker [c]"
    by (rule marker_between [OF _ u]) (simp add: example_tenant_def)
  then show "ev_evidence_id (example_row c n previous) = ''ev_'' @ replicate 16 (marker [c])"
    by (simp add: example_row_def linked_row_def Let_def evidence_id_of_def marker_runtime_def
        example_call_def del: of_nat_Suc)
qed

lemma example_row_members [simp]:
  "ev_previous (example_row c n previous) = previous" "ev_step_index (example_row c n previous) = Fin (of_nat (Suc n))"
  "ev_tenant_id (example_row c n previous) = uuid_text example_tenant" "ev_run_id (example_row c n previous) = ''run-1''"
  by (simp_all add: example_row_def linked_row_def Let_def example_call_def)

lemma example_accepts:
  assumes "tail_hash example_tenant ''run-1'' table = previous" and "isSha256Hex previous"
    and "\<not> is_ws c"
    and "\<forall>r \<in> set table. ev_evidence_id r \<noteq> ''ev_'' @ replicate 16 (marker [c])
      \<and> ev_chain_hash r \<noteq> replicate 64 (marker [c])"
  shows "example_step (example_call [c] (of_nat (Suc n))) table
    = (Inr (example_row c n previous), table @ [example_row c n previous])"
proof -
  let ?i = "snd (example_call [c] (of_nat (Suc n)))"
  have i: "el_tenant_id ?i = example_tenant" "el_run_id ?i = ''run-1''" "el_previous ?i = None"
    "el_created_at ?i = None" by (simp_all add: example_call_def)
  have "set previous \<subseteq> set ''0123456789abcdef''"
    using assms(2) unfolding isSha256Hex_def list_all_iff by blast
  moreover have "set ''0123456789abcdef'' \<inter> set ''xyz'' = {}" by code_simp
  ultimately have "set previous \<inter> set ''xyz'' = {}" by blast
  note d = example_row_digests [OF this, of c n]
  have "appendEvidence (\<lambda>_. None) marker_runtime None ''now'' ?i table
      = (Inr (linked_row marker_runtime ''s'' ''now'' ?i previous),
         table @ [linked_row marker_runtime ''s'' ''now'' ?i previous])"
  proof (rule appendEvidence_accepts [OF marker_runtime_hex example_guards [OF assms(3)]])
    show "\<forall>r \<in> set table. ev_evidence_id r \<noteq> ev_evidence_id (linked_row marker_runtime ''s'' ''now'' ?i previous)
      \<and> ev_chain_hash r \<noteq> ev_chain_hash (linked_row marker_runtime ''s'' ''now'' ?i previous)"
      using assms(4) d unfolding example_row_def by simp
  qed (use assms(1,2) i example_tenant_uuid in simp_all)
  then show ?thesis by (simp add: example_step_def evidence_exec_def example_row_def example_call_def)
qed

lemma marker_chars [simp]: "marker ''x'' = CHR ''7''" "marker ''y'' = CHR ''6''" "marker ''z'' = CHR ''5''"
  by (simp_all add: marker_def)

lemma example_hex [simp]: "isSha256Hex (replicate 64 CHR ''7'')" "isSha256Hex (replicate 64 CHR ''6'')"
  by (simp_all add: isSha256Hex_def list_all_iff)

abbreviation "x_row \<equiv> example_row CHR ''x'' 0 GENESIS_HASH"

lemma example_hashes [simp]:
  "ev_chain_hash x_row = replicate 64 CHR ''7''" "ev_evidence_id x_row = ''ev_'' @ replicate 16 CHR ''7''"
  "ev_chain_hash (example_row c n (replicate 64 CHR ''7'')) = replicate 64 (marker [c])"
  "ev_evidence_id (example_row c n (replicate 64 CHR ''7'')) = ''ev_'' @ replicate 16 (marker [c])"
  using example_row_digests [of GENESIS_HASH "CHR ''x''" 0] example_row_digests [of "replicate 64 CHR ''7''" c n]
  by (simp_all add: GENESIS_HASH_def)

lemma example_select_x: "select_run example_tenant ''run-1'' [x_row] = [x_row]"
  by (simp add: select_run_def)

lemma example_first: "example_step (example_call ''x'' 1) [] = (Inr x_row, [x_row])"
  using example_accepts [of "[]" GENESIS_HASH "CHR ''x''" 0]
  by (simp add: tail_hash_end select_run_def end_hash_def is_ws_def)

lemma example_second:
  assumes "c = CHR ''y'' \<or> c = CHR ''z''"
  shows "example_step (example_call [c] (of_nat (Suc n))) [x_row]
    = (Inr (example_row c n (replicate 64 CHR ''7'')), [x_row, example_row c n (replicate 64 CHR ''7'')])"
  using example_accepts [of "[x_row]" "replicate 64 CHR ''7''" c n] assms
  by (auto simp: tail_hash_end example_select_x end_hash_def is_ws_def)

lemma example_two_steps:
  "run_ops example_step [example_call ''x'' 1, example_call ''z'' 2] []
    = ([(example_call ''x'' 1, Inr x_row),
        (example_call ''z'' 2, Inr (example_row CHR ''z'' 1 (replicate 64 CHR ''7'')))],
       [x_row, example_row CHR ''z'' 1 (replicate 64 CHR ''7'')])"
  using example_first example_second [of "CHR ''z''" 1] by simp

theorem appended_run_verifies_witness:
  "\<exists>head. verifyRunChain marker_runtime None (Some ''s'') example_tenant ''run-1''
     (snd (run_ops example_step [example_call ''x'' 1, example_call ''z'' 2] []))
   = Inr \<lparr>cr_valid = True, cr_records = 2, cr_verified = 2, cr_head_hash = Some head, cr_breaks = []\<rparr>"
proof -
  let ?xs = "[example_call ''x'' 1, example_call ''z'' 2]"
  let ?run = "run_ops (evidence_exec (\<lambda>_. None) marker_runtime None) ?xs []"
  have t: "targets example_tenant ''run-1'' (snd (example_call k n))" for k n
    by (simp add: targets_def example_call_def)
  have replies: "length (filter (\<lambda>e. targets example_tenant ''run-1'' (snd (fst e)) \<and> accepted e) (fst ?run)) = 2"
    using example_two_steps t by (simp add: example_step_def)
  have read: "succeeds (readEvidenceChain example_tenant ''run-1'' [])" by code_simp
  have steps: "sorted_wrt (\<lambda>c d. step_value (el_step_index (snd c)) < step_value (el_step_index (snd d)))
      (filter (\<lambda>c. targets example_tenant ''run-1'' (snd c)) ?xs)"
    using t by (simp add: example_call_def)
  have secrets: "\<forall>c \<in> set ?xs. stored_secret (el_secret (snd c)) None = Inr ''s''"
    using example_secret by (simp add: example_call_def)
  from appended_run_verifies [OF marker_runtime_hex secrets steps surjective_pairing [of ?run]
      replies [symmetric] _ read example_secret]
  show ?thesis by (simp add: example_step_def)
qed

text \<open>Two effects of step 1, the second with the smaller \<open>evidence_id\<close>.\<close>

definition forked_table :: "evidence_record list" where
  "forked_table = snd (run_ops example_step [example_call ''x'' 1, example_call ''y'' 1] [])"

abbreviation "y_row \<equiv> example_row CHR ''y'' 0 (replicate 64 CHR ''7'')"

lemma forked_table_rows: "forked_table = [x_row, y_row]"
  using example_first example_second [of "CHR ''y''" 0] by (simp add: forked_table_def)

lemma forked_table_select: "select_run example_tenant ''run-1'' forked_table = [y_row, x_row]"
proof -
  have "\<not> ''ev_'' @ replicate 16 CHR ''7'' \<le> ''ev_'' @ replicate 16 CHR ''6''"
    "''ev_'' @ replicate 16 CHR ''6'' \<le> ''ev_'' @ replicate 16 CHR ''7''" by (code_simp, code_simp)
  then have "\<not> read_order x_row \<le> read_order y_row" "read_order y_row \<le> read_order x_row"
    by (simp_all add: read_order_def)
  then show ?thesis by (simp add: select_run_def forked_table_rows)
qed

theorem tail_with_successor_forks_witness:
  "\<exists>row. fst (example_step (example_call ''z'' 2) forked_table) = Inr row
     \<and> ev_previous row = ev_chain_hash x_row \<and> ev_previous y_row = ev_chain_hash x_row
     \<and> (\<forall>report. verifyRunChain marker_runtime None (Some ''s'') example_tenant ''run-1''
          (snd (example_step (example_call ''z'' 2) forked_table)) = Inr report \<longrightarrow> \<not> cr_valid report)"
proof -
  have tail: "select_tail example_tenant ''run-1'' forked_table = Some x_row"
    by (simp add: select_tail_def forked_table_select)
  have q: "y_row \<in> set (select_run example_tenant ''run-1'' forked_table)"
    "ev_previous y_row = ev_chain_hash x_row" "ev_chain_hash y_row \<noteq> ev_chain_hash x_row"
    by (simp_all add: forked_table_select)
  have t: "targets example_tenant ''run-1'' (snd (example_call ''z'' 2))"
    by (simp add: targets_def example_call_def)
  have s: "stored_secret (el_secret (snd (example_call ''z'' 2))) None = Inr ''s''"
    using example_secret by (simp add: example_call_def)
  have "tail_hash example_tenant ''run-1'' forked_table = replicate 64 CHR ''7''"
    by (simp add: tail_hash_end forked_table_select end_hash_def)
  from example_accepts [OF this, of "CHR ''z''" 1]
  obtain row where row: "fst (example_step (example_call ''z'' 2) forked_table) = Inr row"
    by (auto simp: is_ws_def forked_table_rows)
  have "fst (appendEvidence (\<lambda>_. None) marker_runtime None ''now'' (snd (example_call ''z'' 2)) forked_table) = Inr row"
    using row by (simp add: example_step_def evidence_exec_def example_call_def)
  with tail_with_successor_forks [OF marker_runtime_hex s t tail q, of "\<lambda>_. None" "''now''"
      "Some ''s''"]
  have "ev_previous row = ev_chain_hash x_row \<and> (\<forall>report. verifyRunChain marker_runtime None (Some ''s'')
      example_tenant ''run-1'' (snd (example_step (example_call ''z'' 2) forked_table)) = Inr report
      \<longrightarrow> \<not> cr_valid report)"
    by (simp add: example_step_def evidence_exec_def example_call_def)
  with row q(2) show ?thesis by blast
qed

end
