(* ===== verification/AuditStore.thy ===== *)
theory AuditStore
  imports EvidenceStore
begin

text \<open>
  The audit chain of a tenant and the operational run log: \<open>AuditRepository\<close> and the log methods of
  \<open>EvidenceRepository\<close> (\<open>packages/database/src/repositories/audit-evidence.ts\<close>), with
  \<open>prepareLedgerRecord\<close> of \<open>audit-evidence.sql.ts\<close>. The row identifier and the server's clock reading
  are arguments.
\<close>

definition EXECUTION_STATUSES :: "string list" where
  "EXECUTION_STATUSES = [''pending'', ''executing'', ''success'', ''failed'', ''denied'', ''aborted'']"

definition LEDGER_AUTHORITY_LEVELS :: "string list" where
  "LEDGER_AUTHORITY_LEVELS = [''AUTH-0'', ''AUTH-1'', ''AUTH-2'', ''AUTH-3'', ''AUTH-4'', ''AUTH-5'']"

definition canonicalJsonColumn :: "runtime \<Rightarrow> json \<Rightarrow> string \<Rightarrow> unit result" where
  "canonicalJsonColumn rt v code =
    (case database_canonicalizeJson rt v of Inl _ \<Rightarrow> Inl (ThrownError code) | Inr _ \<Rightarrow> Inr ())"

definition nullableJsonColumn :: "runtime \<Rightarrow> json \<Rightarrow> string \<Rightarrow> unit result" where
  "nullableJsonColumn rt v code =
    (if v = JUndef \<or> v = JNull then Inr () else canonicalJsonColumn rt v code)"

text \<open>The columns a prepared record stores: a nullable member is SQL \<open>NULL\<close>, read back as \<open>null\<close>.\<close>

definition stored_fields :: "audit_fields \<Rightarrow> audit_fields" where
  "stored_fields r = r\<lparr>af_approval := or_null (af_approval r), af_outcome := or_null (af_outcome r),
     af_error := or_null (af_error r)\<rparr>"

fun usable_latency :: "jnum \<Rightarrow> bool" where
  "usable_latency (Fin q) = (is_int_rat q \<and> 0 \<le> q)"
| "usable_latency _ = False"

definition prepareLedgerRecord :: "runtime \<Rightarrow> audit_fields \<Rightarrow> string \<Rightarrow> audit_fields result" where
  "prepareLedgerRecord rt r code =
    andThen (assertIdentifier (af_tenant_id r) 36 code) (\<lambda>_.
    andThen (assertIdentifier (af_run_id r) 64 code) (\<lambda>_.
    andThen (assertIdentifier (af_agent_id r) 32 code) (\<lambda>_.
    andThen (assertIdentifier (af_customer_or_entity_id r) 64 code) (\<lambda>_.
    andThen (assertIdentifier (af_trigger r) 128 code) (\<lambda>_.
    andThen (assertIdentifier (af_skill r) 64 code) (\<lambda>_.
    andThen (assertIdentifier (af_tool r) 64 code) (\<lambda>_.
     if af_execution_status r \<notin> set EXECUTION_STATUSES then Inl (ThrownError code)
     else if af_authority r \<notin> set LEDGER_AUTHORITY_LEVELS then Inl (ThrownError code)
     else if \<not> usable_latency (af_latency_ms r) then Inl (ThrownError code)
     else
    andThen (canonicalJsonColumn rt (af_context r) code) (\<lambda>_.
    andThen (canonicalJsonColumn rt (af_decision r) code) (\<lambda>_.
    andThen (nullableJsonColumn rt (af_approval r) code) (\<lambda>_.
    andThen (canonicalJsonColumn rt (af_action r) code) (\<lambda>_.
    andThen (canonicalJsonColumn rt (af_evidence r) code) (\<lambda>_.
    andThen (nullableJsonColumn rt (af_outcome r) code) (\<lambda>_.
    andThen (canonicalJsonColumn rt (af_cost r) code) (\<lambda>_.
    andThen (nullableJsonColumn rt (af_error r) code) (\<lambda>_.
      Inr (stored_fields r))))))))))))))))"

subsection \<open>The audit table\<close>

definition tenant_rows :: "string \<Rightarrow> audit_row list \<Rightarrow> audit_row list" where
  "tenant_rows tenant_id table = filter (\<lambda>r. af_tenant_id (au_fields r) = uuid_text tenant_id) table"

text \<open>\<open>SELECT_AUDIT_BY_TENANT\<close>; its last row is the one of \<open>SELECT_AUDIT_TAIL\<close>.\<close>

definition select_audit :: "string \<Rightarrow> audit_row list \<Rightarrow> audit_row list" where
  "select_audit tenant_id table = sort_key (\<lambda>r. (au_chain_seq r, au_id r)) (tenant_rows tenant_id table)"

definition audit_tail :: "string \<Rightarrow> audit_row list \<Rightarrow> string" where
  "audit_tail tenant_id table = end_hash au_chain_hash GENESIS_HASH (select_audit tenant_id table)"

definition next_chain_seq :: "string \<Rightarrow> audit_row list \<Rightarrow> nat" where
  "next_chain_seq tenant_id table = Suc (foldr max (map au_chain_seq (tenant_rows tenant_id table)) 0)"

definition insert_audit :: "audit_row \<Rightarrow> audit_row list \<Rightarrow> unit result \<times> audit_row list" where
  "insert_audit row table =
    (if list_ex (\<lambda>r. au_id r = au_id row
          \<or> (af_tenant_id (au_fields r) = af_tenant_id (au_fields row) \<and> au_chain_hash r = au_chain_hash row)) table
     then (Inl (ThrownError ''23505''), table) else (Inr (), table @ [row]))"

definition audit_append :: "runtime \<Rightarrow> string \<Rightarrow> string option \<Rightarrow> audit_fields \<Rightarrow> audit_row list \<Rightarrow>
    unit result \<times> audit_row list" where
  "audit_append rt new_id server_time r table =
    (case prepareLedgerRecord rt r ''AUDIT_INPUT_INVALID'' of Inl e \<Rightarrow> (Inl e, table) | Inr prepared \<Rightarrow>
     case assertTenantContext (af_tenant_id prepared) of Inl e \<Rightarrow> (Inl e, table) | Inr _ \<Rightarrow>
     (case server_time of
        None \<Rightarrow> (Inl (ThrownError ''AUDIT_SERVER_TIME_UNCONFIRMED''), table)
      | Some timestamp \<Rightarrow>
        (let prev_hash = audit_tail (af_tenant_id prepared) table in
         case auditChainHash rt prev_hash (buildAuditPayload r) timestamp of
           Inl e \<Rightarrow> (Inl e, table)
         | Inr chain_hash \<Rightarrow>
             insert_audit \<lparr>au_id = new_id, au_chain_seq = next_chain_seq (af_tenant_id prepared) table,
               au_fields = prepared\<lparr>af_tenant_id := uuid_text (af_tenant_id prepared)\<rparr>,
               au_timestamp = timestamp, au_prev_hash = prev_hash, au_chain_hash = chain_hash\<rparr> table)))"

definition readTenantChain :: "string \<Rightarrow> audit_row list \<Rightarrow> audit_row list result" where
  "readTenantChain tenant_id table =
    andThen (assertIdentifier tenant_id 36 ''AUDIT_INPUT_INVALID'') (\<lambda>_.
    andThen (assertTenantContext tenant_id) (\<lambda>_. Inr (select_audit tenant_id table)))"

definition verifyTenantChain :: "runtime \<Rightarrow> string \<Rightarrow> audit_row list \<Rightarrow> chain_report result" where
  "verifyTenantChain rt tenant_id table =
    andThen (readTenantChain tenant_id table) (\<lambda>rows. Inr (verifyAuditChain rt rows))"

subsection \<open>The run log\<close>

record run_log =
  rl_fields :: audit_fields
  rl_step_index :: jnum
  rl_started_at :: string
  rl_completed_at :: string

definition log_key :: "run_log \<Rightarrow> string \<times> string \<times> string \<times> jnum" where
  "log_key r = (af_tenant_id (rl_fields r), af_run_id (rl_fields r), af_skill (rl_fields r), rl_step_index r)"

definition assertInstant :: "(string \<Rightarrow> string option) \<Rightarrow> string \<Rightarrow> string \<Rightarrow> string result" where
  "assertInstant instant v code = (case instant v of None \<Rightarrow> Inl (ThrownError code) | Some t \<Rightarrow> Inr t)"

definition logAgentRun :: "(string \<Rightarrow> string option) \<Rightarrow> runtime \<Rightarrow> run_log \<Rightarrow> run_log list \<Rightarrow>
    unit result \<times> run_log list" where
  "logAgentRun instant rt r table =
    (case prepareLedgerRecord rt (rl_fields r) ''AGENT_RUN_LOG_INVALID'' of Inl e \<Rightarrow> (Inl e, table) | Inr prepared \<Rightarrow>
     case assertPositiveInteger (rl_step_index r) ''AGENT_RUN_LOG_INVALID'' of Inl e \<Rightarrow> (Inl e, table) | Inr _ \<Rightarrow>
     case assertInstant instant (rl_started_at r) ''AGENT_RUN_LOG_INVALID'' of Inl e \<Rightarrow> (Inl e, table) | Inr started \<Rightarrow>
     case assertInstant instant (rl_completed_at r) ''AGENT_RUN_LOG_INVALID'' of Inl e \<Rightarrow> (Inl e, table) | Inr completed \<Rightarrow>
     case assertTenantContext (af_tenant_id prepared) of Inl e \<Rightarrow> (Inl e, table) | Inr _ \<Rightarrow>
     (let row = \<lparr>rl_fields = prepared\<lparr>af_tenant_id := uuid_text (af_tenant_id prepared)\<rparr>,
                 rl_step_index = rl_step_index r, rl_started_at = started, rl_completed_at = completed\<rparr>
      in if list_ex (\<lambda>q. log_key q = log_key row) table
         then (Inl (ThrownError ''AGENT_RUN_LOG_APPENDED''), table)
         else (Inr (), table @ [row])))"

definition readRunLogs :: "string \<Rightarrow> string \<Rightarrow> run_log list \<Rightarrow> run_log list result" where
  "readRunLogs tenant_id run_id table =
    andThen (assertIdentifier tenant_id 36 ''EVIDENCE_INPUT_INVALID'') (\<lambda>_.
    andThen (assertIdentifier run_id 64 ''EVIDENCE_INPUT_INVALID'') (\<lambda>_.
    andThen (assertTenantContext tenant_id) (\<lambda>_.
      Inr (sort_key (\<lambda>r. (step_value (rl_step_index r), af_skill (rl_fields r)))
        (filter (\<lambda>r. af_tenant_id (rl_fields r) = uuid_text tenant_id \<and> af_run_id (rl_fields r) = run_id) table)))))"

subsection \<open>One audit append\<close>

definition appended_event :: "runtime \<Rightarrow> audit_fields \<Rightarrow> audit_row list \<Rightarrow> audit_row \<Rightarrow> bool" where
  "appended_event rt r table row \<longleftrightarrow>
     au_fields row = (stored_fields r)\<lparr>af_tenant_id := uuid_text (af_tenant_id r)\<rparr>
     \<and> au_chain_seq row = next_chain_seq (af_tenant_id r) table
     \<and> au_prev_hash row = audit_tail (af_tenant_id r) table \<and> isSha256Hex (au_prev_hash row)
     \<and> utc_iso_ms (au_timestamp row) \<and> canonical (JObj (buildAuditPayload r))
     \<and> au_chain_hash row = rt_sha256 rt (audit_preimage (au_prev_hash row)
          (text_of rt (JObj (buildAuditPayload r))) (au_timestamp row))
     \<and> (\<forall>q \<in> set table. \<not> (af_tenant_id (au_fields q) = af_tenant_id (au_fields row)
          \<and> au_chain_hash q = au_chain_hash row))"

lemma prepareLedgerRecord_Inr: "prepareLedgerRecord rt r code = Inr p \<Longrightarrow> p = stored_fields r"
  unfolding prepareLedgerRecord_def by (simp add: andThen_Inr_iff split: if_splits)

lemma stored_tenant [simp]: "af_tenant_id (stored_fields r) = af_tenant_id r"
  by (simp add: stored_fields_def)

lemma audit_append_cases:
  obtains (refused) e where "audit_append rt new_id server_time r table = (Inl e, table)"
  | (accepted) row where "audit_append rt new_id server_time r table = (Inr (), table @ [row])"
      "appended_event rt r table row" "tenant_uuid (af_tenant_id r)"
proof (cases "fst (audit_append rt new_id server_time r table)")
  case (Inl e)
  then have "audit_append rt new_id server_time r table = (Inl e, table)"
    by (auto simp: audit_append_def insert_audit_def Let_def split: sum.splits option.splits if_splits)
  then show ?thesis by (rule refused)
next
  case (Inr u)
  then obtain prepared where p: "prepareLedgerRecord rt r ''AUDIT_INPUT_INVALID'' = Inr prepared"
    by (auto simp: audit_append_def split: sum.splits)
  then have prep: "prepared = stored_fields r" by (rule prepareLedgerRecord_Inr)
  then show ?thesis using Inr p
    by (auto simp: audit_append_def insert_audit_def Let_def auditChainHash_eq assertTenantContext_def
        appended_event_def list_ex_iff simp del: canonical.simps
        split: sum.splits option.splits if_splits intro!: accepted)
qed

subsection \<open>The chain of one tenant\<close>

text \<open>The rows of a tenant in insertion order: a verified chain with increasing sequence numbers.\<close>

definition audit_sound :: "runtime \<Rightarrow> audit_row list \<Rightarrow> bool" where
  "audit_sound rt rows \<longleftrightarrow> list_all (audit_intact rt) rows
     \<and> chained au_prev_hash au_chain_hash GENESIS_HASH rows \<and> distinct (map au_chain_hash rows)
     \<and> sorted_wrt (<) (map au_chain_seq rows)"

lemma select_audit_sorted: "audit_sound rt (tenant_rows t table) \<Longrightarrow> select_audit t table = tenant_rows t table"
  unfolding select_audit_def audit_sound_def
  by (intro sort_key_id_if_sorted) (auto simp: sorted_wrt_map sorted_map intro: sorted_wrt_mono_rel)

lemma foldr_max_ge: "x \<in> set xs \<Longrightarrow> x \<le> foldr max xs (0 :: nat)"
  by (induction xs) auto

lemma buildAuditPayload_stored:
  "uuid_text (af_tenant_id r) = af_tenant_id r \<Longrightarrow>
   buildAuditPayload ((stored_fields r)\<lparr>af_tenant_id := uuid_text (af_tenant_id r)\<rparr>) = buildAuditPayload r"
  by (simp add: buildAuditPayload_def audit_payload_def stored_fields_def or_null_def)

lemma audit_sound_append:
  assumes "hex_digests rt" and "audit_sound rt (tenant_rows t table)"
    and "appended_event rt r table row" and "uuid_text (af_tenant_id r) = af_tenant_id r"
    and "uuid_text (af_tenant_id r) = uuid_text t"
  shows "audit_sound rt (tenant_rows t table @ [row])"
proof -
  have rows: "tenant_rows (af_tenant_id r) table = tenant_rows t table"
    using assms(5) by (simp add: tenant_rows_def)
  have "au_prev_hash row = end_hash au_chain_hash GENESIS_HASH (tenant_rows t table)"
    using assms(3) select_audit_sorted [OF assms(2)] rows
    by (simp add: appended_event_def audit_tail_def select_audit_def)
  moreover have "\<forall>q \<in> set (tenant_rows t table). au_chain_seq q < au_chain_seq row"
    using assms(3) rows foldr_max_ge [of _ "map au_chain_seq (tenant_rows t table)"]
    by (auto simp: appended_event_def next_chain_seq_def less_Suc_eq_le)
  moreover have "au_chain_hash row \<notin> au_chain_hash ` set (tenant_rows t table)"
    using assms(3,5) by (auto simp: appended_event_def tenant_rows_def)
  moreover have "audit_intact rt row"
  proof -
    have p: "buildAuditPayload (au_fields row) = buildAuditPayload r"
      using assms(3) buildAuditPayload_stored [OF assms(4)] by (simp add: appended_event_def)
    show ?thesis
      unfolding audit_intact_def audit_text_def p
      using assms(1,3) unfolding appended_event_def hex_digests_def by metis
  qed
  ultimately show ?thesis using assms(2)
    by (auto simp: audit_sound_def chained_append sorted_wrt_append)
qed

text \<open>A call of the writer: the row identifier, the server's clock reading and the event.\<close>

type_synonym audit_call = "string \<times> string option \<times> audit_fields"

definition audit_exec :: "runtime \<Rightarrow> audit_call \<Rightarrow> audit_row list \<Rightarrow> unit result \<times> audit_row list" where
  "audit_exec rt c table = audit_append rt (fst c) (fst (snd c)) (snd (snd c)) table"

definition for_tenant :: "string \<Rightarrow> audit_call \<Rightarrow> bool" where
  "for_tenant t c \<longleftrightarrow> uuid_text (af_tenant_id (snd (snd c))) = uuid_text t"

lemma run_audit_appends:
  assumes "hex_digests rt"
    and "\<forall>c \<in> set xs. for_tenant t c \<longrightarrow> uuid_text (af_tenant_id (snd (snd c))) = af_tenant_id (snd (snd c))"
    and "audit_sound rt (tenant_rows t table)"
  shows "audit_sound rt (tenant_rows t (snd (run_ops (audit_exec rt) xs table)))
    \<and> length (tenant_rows t (snd (run_ops (audit_exec rt) xs table)))
      = length (tenant_rows t table)
        + length (filter (\<lambda>e. for_tenant t (fst e) \<and> succeeds (snd e)) (fst (run_ops (audit_exec rt) xs table)))"
  using assms(2,3)
proof (induction xs arbitrary: table)
  case Nil
  then show ?case by simp
next
  case (Cons c xs)
  show ?case
  proof (rule audit_append_cases [of rt "fst c" "fst (snd c)" "snd (snd c)" table], goal_cases)
    case (1 e)
    then have "audit_exec rt c table = (Inl e, table)" by (simp add: audit_exec_def)
    then show ?thesis using Cons by simp
  next
    case (2 row)
    then have ex: "audit_exec rt c table = (Inr (), table @ [row])" by (simp add: audit_exec_def)
    have tenant: "af_tenant_id (au_fields row) = uuid_text (af_tenant_id (snd (snd c)))"
      using 2(2) by (simp add: appended_event_def)
    show ?thesis
    proof (cases "for_tenant t c")
      case False
      then have "tenant_rows t (table @ [row]) = tenant_rows t table"
        using tenant by (simp add: tenant_rows_def for_tenant_def)
      then show ?thesis using Cons ex False by simp
    next
      case True
      then have rows: "tenant_rows t (table @ [row]) = tenant_rows t table @ [row]"
        using tenant by (simp add: tenant_rows_def for_tenant_def)
      have "audit_sound rt (tenant_rows t (table @ [row]))"
        unfolding rows using audit_sound_append [OF assms(1) Cons.prems(2) 2(2)] Cons.prems(1) True
        by (simp add: for_tenant_def)
      from Cons.IH [OF _ this] Cons.prems(1) ex True rows show ?thesis by simp
    qed
  qed
qed

text \<open>
  C28: the audit ledger verifies. After any sequence of appends for any tenants, refused ones
  included, the chain of a tenant with at least one accepted event verifies with every event counted,
  provided the tenant is always written in the spelling the database publishes.
\<close>

theorem audit_ledger_verifies:
  assumes "hex_digests rt"
    and "\<forall>c \<in> set xs. for_tenant t c \<longrightarrow> uuid_text (af_tenant_id (snd (snd c))) = af_tenant_id (snd (snd c))"
    and "run_ops (audit_exec rt) xs [] = (replies, table)"
    and "n = length (filter (\<lambda>e. for_tenant t (fst e) \<and> succeeds (snd e)) replies)" and "0 < n"
    and "succeeds (readTenantChain t [])"
  shows "\<exists>head. verifyTenantChain rt t table = Inr \<lparr>cr_valid = True, cr_records = n,
    cr_verified = n, cr_head_hash = Some head, cr_breaks = []\<rparr>"
proof -
  let ?rows = "tenant_rows t table"
  have "audit_sound rt (tenant_rows t [])" by (simp add: audit_sound_def tenant_rows_def)
  from run_audit_appends [OF assms(1,2) this] assms(3,4)
  have s: "audit_sound rt ?rows" and n: "length ?rows = n" by (simp_all add: tenant_rows_def)
  have g: "\<forall>q \<in> set ?rows. au_chain_hash q \<noteq> GENESIS_HASH"
    using s assms(1) by (auto simp: audit_sound_def list_all_iff audit_intact_def hex_digests_def)
  then have "GENESIS_HASH \<notin> au_chain_hash ` set ?rows" by (metis imageE)
  then have "distinct (GENESIS_HASH # map au_chain_hash ?rows)"
    using s by (simp add: audit_sound_def)
  moreover have "?rows \<noteq> []" using n assms(5) by auto
  moreover have "readTenantChain t table = Inr ?rows"
    using assms(6) select_audit_sorted [OF s]
    by (auto simp: readTenantChain_def succeeds_iff andThen_Inr_iff)
  ultimately show ?thesis
    using verify_audit_complete [of ?rows rt] s n by (simp add: verifyTenantChain_def audit_sound_def)
qed

subsection \<open>The spelling of the tenant\<close>

lemma audit_members_sorted:
  "sort_key fst [(''run_id'', a), (''tenant_id'', b), (''agent_id'', c), (''customer_or_entity_id'', d),
     (''trigger'', e), (''context'', f), (''skill'', g), (''tool'', h), (''decision'', i), (''authority'', j),
     (''approval'', k), (''action'', l), (''execution_status'', m), (''evidence'', n), (''outcome'', p),
     (''latency_ms'', q), (''cost'', r), (''error'', u :: string)]
   = [(''action'', l), (''agent_id'', c), (''approval'', k), (''authority'', j), (''context'', f),
      (''cost'', r), (''customer_or_entity_id'', d), (''decision'', i), (''error'', u), (''evidence'', n),
      (''execution_status'', m), (''latency_ms'', q), (''outcome'', p), (''run_id'', a), (''skill'', g),
      (''tenant_id'', b), (''tool'', h), (''trigger'', e)]"
  by code_simp

lemma join_with_split: "\<exists>a b. \<forall>x. join_with sep (pre @ (c @ x) # post) = a @ x @ b"
proof (cases pre)
  case Nil
  then show ?thesis
    by (intro exI [of _ c] exI [of _ "concat (map (\<lambda>z. sep @ z) post)"]) (simp add: join_with_def)
next
  case (Cons y ys)
  then show ?thesis
    by (intro exI [of _ "y @ concat (map (\<lambda>z. sep @ z) ys) @ sep @ c"]
        exI [of _ "concat (map (\<lambda>z. sep @ z) post)"]) (simp add: join_with_def)
qed

lemma audit_text_split:
  assumes "canonical (JObj (buildAuditPayload r))"
  shows "\<exists>a b. \<forall>t. text_of rt (JObj (buildAuditPayload (r\<lparr>af_tenant_id := t\<rparr>))) = a @ json_quote t @ b"
proof -
  let ?entry = "\<lambda>(k, t). json_quote k @ '':'' @ t"
  let ?v = "\<lambda>v. text_of rt v"
  define pre where "pre = map ?entry [(''action'', ?v (af_action r)), (''agent_id'', ?v (JStr (af_agent_id r))),
      (''approval'', ?v (or_null (af_approval r))), (''authority'', ?v (JStr (af_authority r))),
      (''context'', ?v (af_context r)), (''cost'', ?v (af_cost r)),
      (''customer_or_entity_id'', ?v (JStr (af_customer_or_entity_id r))), (''decision'', ?v (af_decision r)),
      (''error'', ?v (or_null (af_error r))), (''evidence'', ?v (af_evidence r)),
      (''execution_status'', ?v (JStr (af_execution_status r))), (''latency_ms'', ?v (JNum (af_latency_ms r))),
      (''outcome'', ?v (or_null (af_outcome r))), (''run_id'', ?v (JStr (af_run_id r))),
      (''skill'', ?v (JStr (af_skill r)))]"
  define post where "post = map ?entry [(''tool'', ?v (JStr (af_tool r))), (''trigger'', ?v (JStr (af_trigger r)))]"
  have "text_of rt (JObj (buildAuditPayload (r\<lparr>af_tenant_id := t\<rparr>)))
      = ''{'' @ join_with '','' (pre @ ((json_quote ''tenant_id'' @ '':'') @ json_quote t) # post) @ ''}''" for t
  proof -
    let ?o = "buildAuditPayload (r\<lparr>af_tenant_id := t\<rparr>)"
    have "list_all (\<lambda>(k, v). canonical v) ?o"
      using assms by (simp add: buildAuditPayload_def audit_payload_def)
    then have "text_of rt (JObj ?o)
        = ''{'' @ join_with '','' (map ?entry (sort_key fst (map (\<lambda>(k, v). (k, ?v v)) ?o))) @ ''}''"
      unfolding text_of_def [of rt "JObj ?o"] serializeCanonical.simps serialize_members_text_of by simp
    also have "map (\<lambda>(k, v). (k, ?v v)) ?o = [(''run_id'', ?v (JStr (af_run_id r))), (''tenant_id'', json_quote t),
      (''agent_id'', ?v (JStr (af_agent_id r))),
      (''customer_or_entity_id'', ?v (JStr (af_customer_or_entity_id r))),
      (''trigger'', ?v (JStr (af_trigger r))), (''context'', ?v (af_context r)),
      (''skill'', ?v (JStr (af_skill r))), (''tool'', ?v (JStr (af_tool r))), (''decision'', ?v (af_decision r)),
      (''authority'', ?v (JStr (af_authority r))), (''approval'', ?v (or_null (af_approval r))),
      (''action'', ?v (af_action r)), (''execution_status'', ?v (JStr (af_execution_status r))),
      (''evidence'', ?v (af_evidence r)), (''outcome'', ?v (or_null (af_outcome r))),
      (''latency_ms'', ?v (JNum (af_latency_ms r))), (''cost'', ?v (af_cost r)),
      (''error'', ?v (or_null (af_error r)))]"
      by (simp add: buildAuditPayload_def audit_payload_def text_of_def)
    finally show ?thesis
      unfolding audit_members_sorted by (simp add: pre_def post_def)
  qed
  moreover obtain a b where "\<forall>x. join_with '','' (pre @ ((json_quote ''tenant_id'' @ '':'') @ x) # post) = a @ x @ b"
    using join_with_split [of "'',''" pre "json_quote ''tenant_id'' @ '':''" post] by blast
  ultimately have "text_of rt (JObj (buildAuditPayload (r\<lparr>af_tenant_id := t\<rparr>)))
      = (''{'' @ a) @ json_quote t @ (b @ ''}'')" for t by simp
  then show ?thesis by blast
qed

lemma audit_text_tenant:
  assumes "canonical (JObj (buildAuditPayload r))"
    and "text_of rt (JObj (buildAuditPayload r))
       = text_of rt (JObj (buildAuditPayload (r\<lparr>af_tenant_id := t\<rparr>)))"
  shows "t = af_tenant_id r"
proof -
  obtain a b where ab: "\<forall>t. text_of rt (JObj (buildAuditPayload (r\<lparr>af_tenant_id := t\<rparr>))) = a @ json_quote t @ b"
    using audit_text_split [OF assms(1)] by blast
  have "r = r\<lparr>af_tenant_id := af_tenant_id r\<rparr>" by simp
  then have "a @ json_quote (af_tenant_id r) @ b = a @ json_quote t @ b"
    using ab assms(2) by metis
  then have "json_quote (af_tenant_id r) @ b = json_quote t @ b" by simp
  then show ?thesis using json_quote_inj by blast
qed

text \<open>
  the tenant check accepts a tenant in upper case, and the event is hashed under that spelling; the
  UUID column publishes it in lower case, under which the verifier hashes again. Unless SHA-256
  collides, one such event makes the tenant's chain fail verification for good, whatever is appended
  later.
\<close>

theorem upper_case_tenant_breaks_the_ledger:
  assumes "audit_append rt new_id server_time r table = (Inr (), table')"
    and "uuid_text (af_tenant_id r) \<noteq> af_tenant_id r"
    and "\<And>h a b t. a \<noteq> b \<Longrightarrow> rt_sha256 rt (audit_preimage h a t) \<noteq> rt_sha256 rt (audit_preimage h b t)"
  shows "\<exists>report. verifyTenantChain rt (af_tenant_id r) (table' @ later) = Inr report \<and> \<not> cr_valid report"
proof -
  obtain row where row: "table' = table @ [row]" "appended_event rt r table row" "tenant_uuid (af_tenant_id r)"
    by (rule audit_append_cases [of rt new_id server_time r table]) (use assms(1) in auto)
  obtain p where "prepareLedgerRecord rt r ''AUDIT_INPUT_INVALID'' = Inr p"
    using assms(1) by (auto simp: audit_append_def split: sum.splits)
  then have "assertIdentifier (af_tenant_id r) 36 ''AUDIT_INPUT_INVALID'' = Inr ()"
    unfolding prepareLedgerRecord_def andThen_Inr_iff by auto
  then have read: "readTenantChain (af_tenant_id r) (table' @ later)
      = Inr (select_audit (af_tenant_id r) (table' @ later))"
    using row(3) by (simp add: readTenantChain_def assertTenantContext_def)
  let ?rows = "select_audit (af_tenant_id r) (table' @ later)"
  let ?t = "uuid_text (af_tenant_id r)"
  have "row \<in> set ?rows"
    using row(1,2) by (simp add: select_audit_def tenant_rows_def appended_event_def)
  have payload: "buildAuditPayload (au_fields row) = buildAuditPayload (r\<lparr>af_tenant_id := ?t\<rparr>)"
    using row(2) by (simp add: appended_event_def buildAuditPayload_def audit_payload_def stored_fields_def or_null_def)
  have canon: "canonical (JObj (buildAuditPayload r))"
    and hash: "au_chain_hash row = rt_sha256 rt (audit_preimage (au_prev_hash row)
      (text_of rt (JObj (buildAuditPayload r))) (au_timestamp row))"
    using row(2) unfolding appended_event_def by blast+
  have "text_of rt (JObj (buildAuditPayload r)) \<noteq> text_of rt (JObj (buildAuditPayload (r\<lparr>af_tenant_id := ?t\<rparr>)))"
    using audit_text_tenant [OF canon] assms(2) by blast
  then have "au_chain_hash row \<noteq> rt_sha256 rt (audit_text rt row)"
    unfolding hash audit_text_def payload by (rule assms(3))
  then have "\<not> audit_intact rt row" by (simp add: audit_intact_def)
  with \<open>row \<in> set ?rows\<close> have "\<not> list_all (audit_intact rt) ?rows" by (auto simp: list_all_iff)
  then have "\<not> cr_valid (verifyAuditChain rt ?rows)" using valid_audit_is_one_chain by metis
  with read show ?thesis by (simp add: verifyTenantChain_def)
qed

subsection \<open>Closed examples\<close>

definition example_event :: "string \<Rightarrow> audit_fields" where
  "example_event tenant = \<lparr>af_run_id = ''run-1'', af_tenant_id = tenant, af_agent_id = ''a-1'',
     af_customer_or_entity_id = ''c-1'', af_trigger = ''signal'', af_context = JNull, af_skill = ''s'',
     af_tool = ''t'', af_decision = JNull, af_authority = ''AUTH-1'', af_approval = JUndef,
     af_action = JNull, af_execution_status = ''success'', af_evidence = JNull, af_outcome = JUndef,
     af_latency_ms = Fin 0, af_cost = JNull, af_error = JUndef\<rparr>"

lemma example_event_accepted:
  assumes "tenant_uuid tenant" "\<not> blank tenant" "length tenant \<le> 36"
  shows "\<exists>row. audit_append rt ''id'' (Some ''2026-01-01T00:00:00.000Z'') (example_event tenant) [] = (Inr (), [row])"
proof -
  have c: "canonical (JObj (buildAuditPayload (example_event tenant)))"
    by (simp add: example_event_def buildAuditPayload_def audit_payload_def or_null_def)
  have u: "utc_iso_ms ''2026-01-01T00:00:00.000Z''" by (simp add: utc_iso_ms_def)
  have "prepareLedgerRecord rt (example_event tenant) code = Inr (stored_fields (example_event tenant))" for code
    using assms(2,3) unfolding prepareLedgerRecord_def
    by (simp add: example_event_def assertIdentifier_def EXECUTION_STATUSES_def LEDGER_AUTHORITY_LEVELS_def
        canonicalJsonColumn_def nullableJsonColumn_def database_canonicalizeJson_def blank_def trim_def is_ws_def)
  then show ?thesis
    using assms(1) c u
    by (simp add: audit_append_def insert_audit_def Let_def auditChainHash_eq assertTenantContext_def
        audit_tail_def select_audit_def tenant_rows_def end_hash_def example_event_def [of tenant] del: canonical.simps)
qed

theorem audit_ledger_verifies_witness:
  "\<exists>head. verifyTenantChain marker_runtime example_tenant
     (snd (run_ops (audit_exec marker_runtime)
       [(''id'', Some ''2026-01-01T00:00:00.000Z'', example_event example_tenant)] []))
   = Inr \<lparr>cr_valid = True, cr_records = 1, cr_verified = 1, cr_head_hash = Some head, cr_breaks = []\<rparr>"
proof -
  let ?c = "(''id'', Some ''2026-01-01T00:00:00.000Z'', example_event example_tenant)"
  have lower: "uuid_text example_tenant = example_tenant"
    by (simp add: uuid_text_def lower_hex_def example_tenant_def)
  have id: "\<not> blank example_tenant" "length example_tenant \<le> 36"
    by (simp_all add: example_tenant_def blank_def trim_def is_ws_def)
  have tenant: "af_tenant_id (example_event example_tenant) = example_tenant"
    by (simp add: example_event_def)
  obtain row where "audit_exec marker_runtime ?c [] = (Inr (), [row])"
    using example_event_accepted [OF example_tenant_uuid id] by (auto simp: audit_exec_def)
  then have run: "run_ops (audit_exec marker_runtime) [?c] [] = ([(?c, Inr ())], [row])" by simp
  have "succeeds (readTenantChain example_tenant [])"
    using example_tenant_uuid id by (simp add: readTenantChain_def assertIdentifier_def assertTenantContext_def)
  with audit_ledger_verifies [OF marker_runtime_hex _ run, of example_tenant 1] lower tenant run
  show ?thesis by (simp add: for_tenant_def)
qed

theorem upper_case_tenant_breaks_the_ledger_witness:
  "\<exists>table'. audit_append example_runtime ''id'' (Some ''2026-01-01T00:00:00.000Z'')
      (example_event ''0000000A-0000-0000-0000-000000000001'') [] = (Inr (), table')
    \<and> (\<forall>later. \<exists>report. verifyTenantChain example_runtime ''0000000A-0000-0000-0000-000000000001'' (table' @ later)
         = Inr report \<and> \<not> cr_valid report)"
proof -
  let ?t = "''0000000A-0000-0000-0000-000000000001''"
  have "tenant_uuid ?t" by (simp add: tenant_uuid_def hex_any_case_def)
  moreover have "\<not> blank ?t" "length ?t \<le> 36" by (simp_all add: blank_def trim_def is_ws_def)
  ultimately obtain row where ap: "audit_append example_runtime ''id'' (Some ''2026-01-01T00:00:00.000Z'')
      (example_event ?t) [] = (Inr (), [row])" using example_event_accepted by blast
  have tenant: "af_tenant_id (example_event ?t) = ?t" by (simp add: example_event_def)
  have "uuid_text ?t \<noteq> ?t" by (simp add: uuid_text_def lower_hex_def)
  then have upper: "uuid_text (af_tenant_id (example_event ?t)) \<noteq> af_tenant_id (example_event ?t)"
    unfolding tenant .
  have "rt_sha256 example_runtime (audit_preimage h a t) \<noteq> rt_sha256 example_runtime (audit_preimage h b t)"
    if "a \<noteq> b" for h a b t using that by (simp add: example_runtime_def audit_preimage_def)
  from upper_case_tenant_breaks_the_ledger [OF ap upper this] ap tenant show ?thesis by auto
qed

end
