(* ===== verification/EvidenceLogger.thy ===== *)
theory EvidenceLogger
  imports AuditStore "HOL-Library.Sublist"
begin

text \<open>
  The in-memory evidence logger, \<open>packages/core-engine/src/evidence/evidence-logger.ts\<close>: chained
  records per run, the append-only run log and the outcome watches. The writer takes its predecessor
  from the caller; the lemmas show that a caller who threads the returned digest leaves a run that the
  database's verifier accepts, and what a repeated append does. A map of the code is a partial
  function here; \<open>now\<close> is the clock reading and \<open>stamp\<close> renders it as \<open>toISOString\<close> does.
\<close>

definition OUTCOME_WATCH_WINDOW_MS :: int where
  "OUTCOME_WATCH_WINDOW_MS = 72 * 60 * 60 * 1000"

definition scopedKey :: "string list \<Rightarrow> string" where
  "scopedKey parts = join_with [CHR 0x00] parts"

text \<open>A stored record: the record itself, its receipt if it has one, and the canonical text.\<close>

record stored_evidence =
  se_record :: evidence_record
  se_receipt :: "json option"
  se_raw_payload :: string

record outcome_watch =
  ow_tenant_id :: string
  ow_run_id :: string
  ow_effect_key :: string
  ow_skill_id :: string
  ow_created_at :: int
  ow_expires_at :: int

record logger_state =
  lg_evidence :: "string \<rightharpoonup> stored_evidence list"
  lg_run_keys :: "string list"
  lg_runs :: "string \<rightharpoonup> run_log list"
  lg_watches :: "string \<rightharpoonup> outcome_watch"

definition empty_logger :: logger_state where
  "empty_logger = \<lparr>lg_evidence = Map.empty, lg_run_keys = [], lg_runs = Map.empty, lg_watches = Map.empty\<rparr>"

record record_params =
  rp_run_id :: string
  rp_tenant_id :: string
  rp_correlation_id :: string
  rp_step_index :: jnum
  rp_effect_key :: string
  rp_previous :: string
  rp_payload :: jobject

subsection \<open>The receipt of a record\<close>

text \<open>\<open>JSON.parse\<close> of the canonical text of a value: its members sorted.\<close>

fun reparsed :: "json \<Rightarrow> json" where
  "reparsed (JArr xs) = JArr (map reparsed xs)"
| "reparsed (JObj ms) = JObj (sort_key fst (map (\<lambda>(k, v). (k, reparsed v)) ms))"
| "reparsed v = v"

fun finite_number :: "json \<Rightarrow> bool" where
  "finite_number (JNum n) = is_finite n"
| "finite_number _ = False"

fun is_text :: "json \<Rightarrow> bool" where
  "is_text (JStr _) = True"
| "is_text _ = False"

definition execution_receipt :: "jobject \<Rightarrow> jobject \<Rightarrow> json" where
  "execution_receipt value token_usage = JObj
    [(''execution_id'', member value ''execution_id''), (''adapter_status'', member value ''adapter_status''),
     (''provider_reference'', member value ''provider_reference''),
     (''response_payload'', member value ''response_payload''), (''latency_ms'', member value ''latency_ms''),
     (''token_usage'', JObj [(''prompt'', member token_usage ''prompt''),
        (''completion'', member token_usage ''completion''),
        (''total_cost_usd'', member token_usage ''total_cost_usd'')])]"

definition projectExecutionReceipt :: "runtime \<Rightarrow> json \<Rightarrow> json option" where
  "projectExecutionReceipt rt v =
    (case as_record v of None \<Rightarrow> None | Some value \<Rightarrow>
     case as_record (member value ''token_usage'') of None \<Rightarrow> None | Some token_usage \<Rightarrow>
     if is_text (member value ''execution_id'')
        \<and> member value ''adapter_status'' \<in> {JStr ''SUCCESS'', JStr ''ERROR'', JStr ''TIMEOUT''}
        \<and> (member value ''provider_reference'' = JNull \<or> is_text (member value ''provider_reference''))
        \<and> as_record (member value ''response_payload'') \<noteq> None
        \<and> finite_number (member value ''latency_ms'')
        \<and> finite_number (member token_usage ''prompt'')
        \<and> finite_number (member token_usage ''completion'')
        \<and> finite_number (member token_usage ''total_cost_usd'')
        \<and> succeeds (effect_canonicalizeJson rt (execution_receipt value token_usage))
     then Some (reparsed (execution_receipt value token_usage)) else None)"

subsection \<open>Operations\<close>

text \<open>\<open>listEvidence\<close> and the list its callers append to.\<close>

definition listEvidence :: "string \<Rightarrow> string \<Rightarrow> logger_state \<Rightarrow> stored_evidence list" where
  "listEvidence tenant_id run_id s =
     (case lg_evidence s (scopedKey [tenant_id, run_id]) of None \<Rightarrow> [] | Some rows \<Rightarrow> rows)"

definition findImmutableRecord :: "string \<Rightarrow> string \<Rightarrow> string \<Rightarrow> jnum \<Rightarrow> logger_state \<Rightarrow> stored_evidence option" where
  "findImmutableRecord tenant_id run_id effect_key step_index s =
     (case lg_evidence s (scopedKey [tenant_id, run_id]) of None \<Rightarrow> None
      | Some rows \<Rightarrow> find (\<lambda>r. ev_effect_key (se_record r) = effect_key
          \<and> ev_step_index (se_record r) = step_index) rows)"

definition findImmutableRecordByStep :: "string \<Rightarrow> string \<Rightarrow> jnum \<Rightarrow> logger_state \<Rightarrow> stored_evidence option" where
  "findImmutableRecordByStep tenant_id run_id step_index s =
     (case lg_evidence s (scopedKey [tenant_id, run_id]) of None \<Rightarrow> None
      | Some rows \<Rightarrow> find (\<lambda>r. ev_step_index (se_record r) = step_index) rows)"

definition createImmutableRecord :: "runtime \<Rightarrow> (int \<Rightarrow> string) \<Rightarrow> string \<Rightarrow> int \<Rightarrow> record_params \<Rightarrow> logger_state \<Rightarrow>
    stored_evidence result \<times> logger_state" where
  "createImmutableRecord rt stamp hmacSecret now p s =
    (if hmacSecret = [] then (Inl (OrchestratorError ''AUDIT_SECRET_MISSING''), s)
     else if rp_previous p = [] then (Inl (OrchestratorError ''EVIDENCE_CHAIN_BROKEN''), s)
     else case effect_canonicalizeJson rt (JObj (rp_payload p)) of
       Inl e \<Rightarrow> (Inl e, s)
     | Inr raw_payload \<Rightarrow>
        (let payload_sha256 = rt_sha256 rt raw_payload;
             chain_hash = rt_sha256 rt
               (evidence_preimage rt (rp_previous p) payload_sha256 (rp_effect_key p) (rp_step_index p));
             row = \<lparr>se_record =
               \<lparr>ev_evidence_id = evidence_id_of rt (rp_tenant_id p) (rp_run_id p) (rp_effect_key p) (rp_step_index p),
                ev_run_id = rp_run_id p, ev_tenant_id = rp_tenant_id p,
                ev_correlation_id = rp_correlation_id p, ev_step_index = rp_step_index p,
                ev_effect_key = rp_effect_key p, ev_previous = rp_previous p,
                ev_payload_sha256 = payload_sha256, ev_chain_hash = chain_hash,
                ev_signature = rt_hmac rt hmacSecret chain_hash,
                ev_raw_payload = JObj (rp_payload p), ev_created_at = stamp now\<rparr>,
               se_receipt = projectExecutionReceipt rt (member (rp_payload p) ''receipt''),
               se_raw_payload = raw_payload\<rparr>
         in (Inr row, s\<lparr>lg_evidence := (lg_evidence s)(scopedKey [rp_tenant_id p, rp_run_id p] \<mapsto>
               listEvidence (rp_tenant_id p) (rp_run_id p) s @ [row])\<rparr>)))"

definition listAgentRuns :: "string \<Rightarrow> string \<Rightarrow> logger_state \<Rightarrow> run_log list" where
  "listAgentRuns tenant_id run_id s =
     (case lg_runs s (scopedKey [tenant_id, run_id]) of None \<Rightarrow> [] | Some rows \<Rightarrow> rows)"

definition run_log_key :: "runtime \<Rightarrow> run_log \<Rightarrow> string" where
  "run_log_key rt r = scopedKey [af_tenant_id (rl_fields r), af_run_id (rl_fields r), af_skill (rl_fields r),
     template_number rt (rl_step_index r)]"

definition memory_logAgentRun :: "runtime \<Rightarrow> run_log \<Rightarrow> logger_state \<Rightarrow> unit result \<times> logger_state" where
  "memory_logAgentRun rt runLog s =
    (let identity = run_log_key rt runLog;
         tenant_id = af_tenant_id (rl_fields runLog); run_id = af_run_id (rl_fields runLog) in
     if identity \<in> set (lg_run_keys s)
     then (Inl (OrchestratorError ''EVIDENCE_APPEND_ONLY_VIOLATION''), s)
     else (Inr (), s\<lparr>lg_runs := (lg_runs s)(scopedKey [tenant_id, run_id] \<mapsto>
              listAgentRuns tenant_id run_id s @ [runLog]),
            lg_run_keys := lg_run_keys s @ [identity]\<rparr>))"

definition initializeOutcomeWatch :: "int \<Rightarrow> string \<Rightarrow> string \<Rightarrow> string \<Rightarrow> string \<Rightarrow> logger_state \<Rightarrow> logger_state" where
  "initializeOutcomeWatch startedAt tenant_id run_id effect_key skill_id s =
    (let key = scopedKey [tenant_id, effect_key] in
     if lg_watches s key \<noteq> None then s
     else s\<lparr>lg_watches := (lg_watches s)(key \<mapsto>
       \<lparr>ow_tenant_id = tenant_id, ow_run_id = run_id, ow_effect_key = effect_key, ow_skill_id = skill_id,
        ow_created_at = startedAt, ow_expires_at = startedAt + OUTCOME_WATCH_WINDOW_MS\<rparr>)\<rparr>)"

definition getOutcomeWatch :: "string \<Rightarrow> string \<Rightarrow> logger_state \<Rightarrow> outcome_watch option" where
  "getOutcomeWatch tenant_id effect_key s = lg_watches s (scopedKey [tenant_id, effect_key])"

subsection \<open>Any use of the logger\<close>

datatype logger_op =
    CreateRecord int record_params
  | LogRun run_log
  | WatchOutcome int string string string string

fun logger_exec :: "runtime \<Rightarrow> (int \<Rightarrow> string) \<Rightarrow> string \<Rightarrow> logger_op \<Rightarrow> logger_state \<Rightarrow> bool \<times> logger_state" where
  "logger_exec rt stamp secret (CreateRecord now p) s =
     (let (r, s') = createImmutableRecord rt stamp secret now p s in (succeeds r, s'))"
| "logger_exec rt stamp secret (LogRun l) s = (let (r, s') = memory_logAgentRun rt l s in (succeeds r, s'))"
| "logger_exec rt stamp secret (WatchOutcome now t r k sk) s = (True, initializeOutcomeWatch now t r k sk s)"

lemma effect_canonical_iff:
  "effect_canonicalizeJson rt v = Inr raw \<longleftrightarrow> canonical v \<and> raw = text_of rt v"
  by (auto simp: effect_canonicalizeJson_def durable_canonicalizeJson_def database_canonicalizeJson_def
      serialize_text_of)

lemma listEvidence_create:
  "listEvidence t r (snd (createImmutableRecord rt stamp secret now p s)) =
    listEvidence t r s @
      (case fst (createImmutableRecord rt stamp secret now p s) of
         Inl _ \<Rightarrow> [] | Inr row \<Rightarrow> if scopedKey [t, r] = scopedKey [rp_tenant_id p, rp_run_id p] then [row] else [])"
  by (auto simp: createImmutableRecord_def listEvidence_def Let_def split: sum.split)

lemma created_record_row:
  assumes "createImmutableRecord rt stamp secret now p s = (Inr row, s')"
  shows "se_record row = \<lparr>ev_evidence_id = evidence_id_of rt (rp_tenant_id p) (rp_run_id p) (rp_effect_key p) (rp_step_index p),
      ev_run_id = rp_run_id p, ev_tenant_id = rp_tenant_id p, ev_correlation_id = rp_correlation_id p,
      ev_step_index = rp_step_index p, ev_effect_key = rp_effect_key p, ev_previous = rp_previous p,
      ev_payload_sha256 = rt_sha256 rt (text_of rt (JObj (rp_payload p))),
      ev_chain_hash = rt_sha256 rt (evidence_preimage rt (rp_previous p)
        (rt_sha256 rt (text_of rt (JObj (rp_payload p)))) (rp_effect_key p) (rp_step_index p)),
      ev_signature = rt_hmac rt secret (rt_sha256 rt (evidence_preimage rt (rp_previous p)
        (rt_sha256 rt (text_of rt (JObj (rp_payload p)))) (rp_effect_key p) (rp_step_index p))),
      ev_raw_payload = JObj (rp_payload p), ev_created_at = stamp now\<rparr>"
    and "canonical (JObj (rp_payload p))"
  using assms
  by (auto simp: createImmutableRecord_def Let_def effect_canonical_iff split: if_splits sum.splits
      simp del: canonical.simps)

lemma create_succeeds_iff:
  "succeeds (fst (createImmutableRecord rt stamp secret now p s)) \<longleftrightarrow>
     secret \<noteq> [] \<and> rp_previous p \<noteq> [] \<and> canonical (JObj (rp_payload p))"
proof (cases "canonical (JObj (rp_payload p))")
  case True
  then have "effect_canonicalizeJson rt (JObj (rp_payload p)) = Inr (text_of rt (JObj (rp_payload p)))"
    by (simp add: effect_canonical_iff del: canonical.simps)
  with True show ?thesis by (simp add: createImmutableRecord_def Let_def)
next
  case False
  then obtain e where "effect_canonicalizeJson rt (JObj (rp_payload p)) = Inl e"
    using effect_canonical_iff [of rt "JObj (rp_payload p)"]
    by (cases "effect_canonicalizeJson rt (JObj (rp_payload p))") auto
  with False show ?thesis by (simp add: createImmutableRecord_def del: canonical.simps)
qed

text \<open>What a reader can see of one run and one effect.\<close>

definition logger_view :: "string \<times> string \<times> string \<Rightarrow> logger_state \<Rightarrow>
    (stored_evidence list \<times> run_log list \<times> outcome_watch option) option" where
  "logger_view q s = (case q of (t, r, k) \<Rightarrow>
     Some (listEvidence t r s, listAgentRuns t r s, getOutcomeWatch t k s))"

fun view_grows :: "stored_evidence list \<times> run_log list \<times> outcome_watch option \<Rightarrow>
    stored_evidence list \<times> run_log list \<times> outcome_watch option \<Rightarrow> bool" where
  "view_grows (e, l, w) (e', l', w') \<longleftrightarrow>
     prefix e e' \<and> prefix l l' \<and> (w \<noteq> None \<longrightarrow> w' = w)"

lemma view_grows_refl: "view_grows v v"
  by (cases v) simp

lemma view_grows_trans: "view_grows u v \<Longrightarrow> view_grows v w \<Longrightarrow> view_grows u w"
  by (cases u; cases v; cases w) (auto intro: prefix_order.trans)

lemma log_view [simp]:
  "lg_evidence (snd (memory_logAgentRun rt l s)) = lg_evidence s"
  "lg_watches (snd (memory_logAgentRun rt l s)) = lg_watches s"
  by (simp_all add: memory_logAgentRun_def Let_def)

lemma create_view [simp]:
  "lg_runs (snd (createImmutableRecord rt stamp secret now p s)) = lg_runs s"
  "lg_run_keys (snd (createImmutableRecord rt stamp secret now p s)) = lg_run_keys s"
  "lg_watches (snd (createImmutableRecord rt stamp secret now p s)) = lg_watches s"
  by (simp_all add: createImmutableRecord_def Let_def split: sum.split)

lemma watch_view [simp]:
  "lg_runs (initializeOutcomeWatch now t r k sk s) = lg_runs s"
  "lg_run_keys (initializeOutcomeWatch now t r k sk s) = lg_run_keys s"
  "lg_evidence (initializeOutcomeWatch now t r k sk s) = lg_evidence s"
  by (simp_all add: initializeOutcomeWatch_def Let_def)

lemma listAgentRuns_log:
  "listAgentRuns t r (snd (memory_logAgentRun rt l s)) = listAgentRuns t r s @
     (if succeeds (fst (memory_logAgentRun rt l s))
         \<and> scopedKey [t, r] = scopedKey [af_tenant_id (rl_fields l), af_run_id (rl_fields l)] then [l] else [])"
  by (auto simp: memory_logAgentRun_def listAgentRuns_def Let_def)

lemma create_frame [simp]:
  "listAgentRuns t r (snd (createImmutableRecord rt stamp secret now p s)) = listAgentRuns t r s"
  "getOutcomeWatch t k (snd (createImmutableRecord rt stamp secret now p s)) = getOutcomeWatch t k s"
  by (simp_all add: listAgentRuns_def getOutcomeWatch_def)

lemma log_frame [simp]:
  "listEvidence t r (snd (memory_logAgentRun rt l s)) = listEvidence t r s"
  "getOutcomeWatch t k (snd (memory_logAgentRun rt l s)) = getOutcomeWatch t k s"
  by (simp_all add: listEvidence_def getOutcomeWatch_def)

lemma watch_frame [simp]:
  "listEvidence t r (initializeOutcomeWatch now a b c d s) = listEvidence t r s"
  "listAgentRuns t r (initializeOutcomeWatch now a b c d s) = listAgentRuns t r s"
  by (simp_all add: listEvidence_def listAgentRuns_def)

lemma watch_stays:
  "getOutcomeWatch t k s = Some w \<Longrightarrow> getOutcomeWatch t k (initializeOutcomeWatch now a b c d s) = Some w"
  by (auto simp: getOutcomeWatch_def initializeOutcomeWatch_def Let_def)

lemma logger_step_grows:
  assumes "logger_view q s = Some v"
  shows "\<exists>w. logger_view q (snd (logger_exec rt stamp secret x s)) = Some w \<and> view_grows v w"
proof -
  obtain t r k where q: "q = (t, r, k)" by (cases q)
  show ?thesis
  proof (cases x)
    case (CreateRecord now p)
    then show ?thesis using assms q
      by (auto simp: logger_view_def case_prod_beta Let_def listEvidence_create)
  next
    case (LogRun l)
    then show ?thesis using assms q
      by (auto simp: logger_view_def case_prod_beta Let_def listAgentRuns_log)
  next
    case (WatchOutcome now a b c d)
    then show ?thesis using assms q
      by (auto simp: logger_view_def watch_stays)
  qed
qed

interpretation logger_rows: tracked_rows "logger_exec rt stamp secret" logger_view view_grows
  for rt :: runtime and stamp :: "int \<Rightarrow> string" and secret :: string
  by unfold_locales (use logger_step_grows view_grows_refl view_grows_trans in blast)+

text \<open>The identities of the run log.\<close>

definition run_log_sound :: "runtime \<Rightarrow> logger_state \<Rightarrow> bool" where
  "run_log_sound rt s \<longleftrightarrow> (\<forall>key rows. lg_runs s key = Some rows \<longrightarrow>
     distinct (map (run_log_key rt) rows) \<and> run_log_key rt ` set rows \<subseteq> set (lg_run_keys s))"

lemma run_log_sound_empty: "run_log_sound rt empty_logger"
  by (simp add: run_log_sound_def empty_logger_def)

lemma run_log_sound_log: "run_log_sound rt s \<Longrightarrow> run_log_sound rt (snd (memory_logAgentRun rt l s))"
  by (auto simp: run_log_sound_def memory_logAgentRun_def Let_def listAgentRuns_def split: option.splits)

interpretation logger_log: invariant_system "logger_exec rt stamp secret" "run_log_sound rt"
  for rt :: runtime and stamp :: "int \<Rightarrow> string" and secret :: string
proof
  fix s x
  assume s: "run_log_sound rt s"
  show "run_log_sound rt (snd (logger_exec rt stamp secret x s))"
  proof (cases x)
    case (LogRun l)
    then show ?thesis using run_log_sound_log [OF s] by (simp add: case_prod_beta Let_def)
  qed (use s in \<open>simp_all add: run_log_sound_def case_prod_beta Let_def\<close>)
qed

subsection \<open>A threaded run\<close>

text \<open>
  What the caller does: the first record of a run starts at the genesis digest, each later one at the
  digest the last accepted call returned.
\<close>

fun thread_run :: "runtime \<Rightarrow> (int \<Rightarrow> string) \<Rightarrow> string \<Rightarrow> string \<Rightarrow> (int \<times> record_params) list \<Rightarrow>
    logger_state \<Rightarrow> logger_state" where
  "thread_run rt stamp secret cursor [] s = s"
| "thread_run rt stamp secret cursor ((now, p) # calls) s =
    (case createImmutableRecord rt stamp secret now (p\<lparr>rp_previous := cursor\<rparr>) s of
       (Inl _, s') \<Rightarrow> thread_run rt stamp secret cursor calls s'
     | (Inr row, s') \<Rightarrow> thread_run rt stamp secret (ev_chain_hash (se_record row)) calls s')"

definition run_rows :: "string \<Rightarrow> string \<Rightarrow> logger_state \<Rightarrow> evidence_record list" where
  "run_rows t r s = map se_record (listEvidence t r s)"

text \<open>The calls the orchestrator makes for one run.\<close>

definition run_call :: "string \<Rightarrow> string \<Rightarrow> int \<times> record_params \<Rightarrow> bool" where
  "run_call t r c \<longleftrightarrow> rp_tenant_id (snd c) = t \<and> rp_run_id (snd c) = r
     \<and> \<not> blank (rp_effect_key (snd c)) \<and> is_natural (rp_step_index (snd c))"

definition run_linked :: "runtime \<Rightarrow> string \<Rightarrow> string \<Rightarrow> evidence_record list \<Rightarrow> bool" where
  "run_linked rt secret cursor rows \<longleftrightarrow> list_all (evidence_intact rt secret) rows
     \<and> chained ev_previous ev_chain_hash GENESIS_HASH rows \<and> end_hash ev_chain_hash GENESIS_HASH rows = cursor
     \<and> sorted (map (\<lambda>q. step_value (ev_step_index q)) rows)"

lemma created_intact:
  assumes "hex_digests rt" and "isSha256Hex (rp_previous p)"
    and "run_call t r (now, p)"
    and "createImmutableRecord rt stamp secret now p s = (Inr row, s')"
  shows "evidence_intact rt secret (se_record row)"
proof -
  note row = created_record_row [OF assms(4)]
  have hex: "isSha256Hex (rt_sha256 rt t)" "isSha256Hex (rt_hmac rt k t)" for t k
    using assms(1) by (simp_all add: hex_digests_def)
  show ?thesis
    using row(2) assms(2,3) hex
    by (simp add: evidence_intact_def evidence_text_def row(1) run_call_def del: canonical.simps)
qed

lemma thread_run_linked:
  assumes "hex_digests rt" and "\<forall>c \<in> set calls. run_call t r c"
    and "sorted (map (\<lambda>c. step_value (rp_step_index (snd c))) calls)"
    and "run_linked rt secret cursor (run_rows t r s)"
    and "\<forall>q \<in> set (run_rows t r s). \<forall>c \<in> set calls.
      step_value (ev_step_index q) \<le> step_value (rp_step_index (snd c))"
    and "isSha256Hex cursor"
  shows "\<exists>cursor'. run_linked rt secret cursor' (run_rows t r (thread_run rt stamp secret cursor calls s))"
  using assms(2-6)
proof (induction calls arbitrary: cursor s)
  case Nil
  then show ?case by auto
next
  case (Cons c calls)
  obtain now p where c: "c = (now, p)" by (cases c)
  let ?p = "p\<lparr>rp_previous := cursor\<rparr>"
  have call: "run_call t r (now, ?p)" using Cons.prems(1) c by (simp add: run_call_def)
  show ?case
  proof (cases "createImmutableRecord rt stamp secret now ?p s")
    case (Pair out s')
    show ?thesis
    proof (cases out)
      case (Inl e)
      then have "s' = s" using Pair by (auto simp: createImmutableRecord_def Let_def split: if_splits sum.splits)
      then show ?thesis using Cons Pair Inl c by simp
    next
      case (Inr row)
      note made = Pair [unfolded Inr]
      have rows: "run_rows t r s' = run_rows t r s @ [se_record row]"
        using listEvidence_create [of t r rt stamp secret now ?p s] made call
        by (simp add: run_rows_def run_call_def)
      have members: "ev_previous (se_record row) = cursor" "ev_step_index (se_record row) = rp_step_index p"
        using created_record_row(1) [OF made] by simp_all
      have intact: "evidence_intact rt secret (se_record row)"
        by (rule created_intact [OF assms(1) _ call made]) (use Cons.prems(5) in simp)
      have linked: "run_linked rt secret (ev_chain_hash (se_record row)) (run_rows t r s')"
        using Cons.prems(3,4) intact members c
        by (auto simp: run_linked_def rows chained_append sorted_append end_hash_def)
      have below: "\<forall>q \<in> set (run_rows t r s'). \<forall>d \<in> set calls.
          step_value (ev_step_index q) \<le> step_value (rp_step_index (snd d))"
        using Cons.prems(2,4) members c by (auto simp: rows)
      have hex: "isSha256Hex (ev_chain_hash (se_record row))" by (rule evidence_intactD(3) [OF intact])
      from Cons.IH [OF _ _ linked below hex] Cons.prems(1,2) made c show ?thesis by simp
    qed
  qed
qed

subsection \<open>Properties\<close>

text \<open>
  whatever is called on the logger, a run's records and its run log are only extended at the end,
  a registered outcome watch keeps its first value, and no step of a skill has two rows in the run log.
\<close>

theorem logger_is_append_only:
  "prefix (listEvidence t r (snd (run_ops (logger_exec rt stamp secret) xs empty_logger)))
      (listEvidence t r (snd (run_ops (logger_exec rt stamp secret) (xs @ ys) empty_logger)))
   \<and> prefix (listAgentRuns t r (snd (run_ops (logger_exec rt stamp secret) xs empty_logger)))
      (listAgentRuns t r (snd (run_ops (logger_exec rt stamp secret) (xs @ ys) empty_logger)))
   \<and> getOutcomeWatch t k (snd (run_ops (logger_exec rt stamp secret) xs empty_logger))
      \<in> {None, getOutcomeWatch t k (snd (run_ops (logger_exec rt stamp secret) (xs @ ys) empty_logger))}
   \<and> distinct (map (run_log_key rt) (listAgentRuns t r (snd (run_ops (logger_exec rt stamp secret) xs empty_logger))))"
proof -
  let ?s = "snd (run_ops (logger_exec rt stamp secret) xs empty_logger)"
  have "run_log_sound rt ?s" by (rule logger_log.inv_run) (rule run_log_sound_empty)
  then have "distinct (map (run_log_key rt) (listAgentRuns t r ?s))"
    by (simp add: run_log_sound_def listAgentRuns_def split: option.split)
  moreover have "logger_view (t, r, k) ?s = Some (listEvidence t r ?s, listAgentRuns t r ?s, getOutcomeWatch t k ?s)"
    by (simp add: logger_view_def)
  from logger_rows.obs_run [OF this, of rt stamp secret ys]
  have "view_grows (listEvidence t r ?s, listAgentRuns t r ?s, getOutcomeWatch t k ?s)
      (listEvidence t r (snd (run_ops (logger_exec rt stamp secret) ys ?s)),
       listAgentRuns t r (snd (run_ops (logger_exec rt stamp secret) ys ?s)),
       getOutcomeWatch t k (snd (run_ops (logger_exec rt stamp secret) ys ?s)))"
    by (simp add: logger_view_def)
  ultimately show ?thesis by (auto simp: run_ops_append)
qed

text \<open>
  a run whose caller threads the returned digest, with the steps in order, is accepted by the
  verifier of the database package with every record counted, provided no digest repeats; refused
  calls leave no trace in it.
\<close>

theorem threaded_run_verifies:
  assumes "hex_digests rt" and "\<not> blank secret" and "listEvidence t r s = []"
    and "\<forall>c \<in> set calls. run_call t r c"
    and "sorted (map (\<lambda>c. step_value (rp_step_index (snd c))) calls)"
    and "run_rows t r (thread_run rt stamp secret GENESIS_HASH calls s) \<noteq> []"
    and "distinct (map ev_chain_hash (run_rows t r (thread_run rt stamp secret GENESIS_HASH calls s)))"
  shows "verifyEvidenceChain rt env (Some secret) (run_rows t r (thread_run rt stamp secret GENESIS_HASH calls s)) =
    (let rows = run_rows t r (thread_run rt stamp secret GENESIS_HASH calls s) in
     Inr \<lparr>cr_valid = True, cr_records = length rows, cr_verified = length rows,
       cr_head_hash = Some (ev_chain_hash (last rows)), cr_breaks = []\<rparr>)"
proof -
  let ?rows = "run_rows t r (thread_run rt stamp secret GENESIS_HASH calls s)"
  have "run_linked rt secret GENESIS_HASH (run_rows t r s)"
    using assms(3) by (simp add: run_linked_def run_rows_def end_hash_def)
  then obtain cursor where linked: "run_linked rt secret cursor ?rows"
    using thread_run_linked [OF assms(1,4,5), of secret GENESIS_HASH s stamp] assms(3)
    by (auto simp: run_rows_def)
  have "GENESIS_HASH \<notin> ev_chain_hash ` set ?rows"
  proof
    assume "GENESIS_HASH \<in> ev_chain_hash ` set ?rows"
    then obtain row where "evidence_intact rt secret row" "ev_chain_hash row = GENESIS_HASH"
      using linked by (auto simp: run_linked_def list_all_iff)
    then show False using evidence_intactD(5) assms(1) by (metis hex_digests_def)
  qed
  then have "distinct (GENESIS_HASH # map ev_chain_hash ?rows)" using assms(7) by simp
  moreover have "stored_secret (Some secret) env = Inr secret" using assms(2) by (simp add: stored_secret_def)
  ultimately show ?thesis
    using verify_complete [of "Some secret" env secret ?rows rt] linked assms(6)
    by (simp add: run_linked_def Let_def)
qed

text \<open>
  an append repeated with the same arguments is accepted again whatever happened in between. The
  run then holds two records of one evidence id and one chain digest, and the verifier refuses it from
  then on.
\<close>

theorem retried_append_breaks_the_run:
  assumes "succeeds (fst (createImmutableRecord rt stamp secret now p s))"
    and "rp_tenant_id p = t" and "rp_run_id p = r"
  shows "let rows = run_rows t r (snd (run_ops (logger_exec rt stamp secret)
           (CreateRecord now p # between @ CreateRecord later p # rest) s))
    in \<not> distinct (map ev_evidence_id rows)
      \<and> (\<forall>env key report. verifyEvidenceChain rt env key rows = Inr report \<longrightarrow> \<not> cr_valid report)"
proof -
  let ?x = "logger_exec rt stamp secret"
  let ?s1 = "snd (createImmutableRecord rt stamp secret now p s)"
  let ?s2 = "snd (run_ops ?x between ?s1)"
  let ?s3 = "snd (createImmutableRecord rt stamp secret later p ?s2)"
  let ?s4 = "snd (run_ops ?x rest ?s3)"
  have again: "succeeds (fst (createImmutableRecord rt stamp secret later p ?s2))"
    using assms(1) by (simp add: create_succeeds_iff)
  obtain a where a: "fst (createImmutableRecord rt stamp secret now p s) = Inr a"
    using assms(1) by (auto simp: succeeds_iff)
  obtain b where b: "fst (createImmutableRecord rt stamp secret later p ?s2) = Inr b"
    using again by (auto simp: succeeds_iff)
  have one: "listEvidence t r ?s1 = listEvidence t r s @ [a]"
    using listEvidence_create [of t r rt stamp secret now p s] a assms(2,3) by simp
  have grows: "prefix (listEvidence t r u) (listEvidence t r (snd (run_ops ?x ys u)))" for u ys
    using logger_rows.obs_run [of "(t, r, [])" u "(listEvidence t r u, listAgentRuns t r u, getOutcomeWatch t [] u)"
        rt stamp secret ys]
    by (auto simp: logger_view_def)
  obtain m where two: "listEvidence t r ?s2 = listEvidence t r s @ a # m"
    using grows [of ?s1 between] one by (auto simp: prefix_def)
  have three: "listEvidence t r ?s3 = listEvidence t r s @ a # m @ [b]"
    using listEvidence_create [of t r rt stamp secret later p ?s2] b two assms(2,3) by simp
  obtain n where rows: "listEvidence t r ?s4 = listEvidence t r s @ a # m @ b # n"
    using grows [of ?s3 rest] three by (auto simp: prefix_def)
  have same: "ev_evidence_id (se_record a) = ev_evidence_id (se_record b)"
    "ev_chain_hash (se_record a) = ev_chain_hash (se_record b)"
    using created_record_row(1) [of rt stamp secret now p s a ?s1] a
      created_record_row(1) [of rt stamp secret later p ?s2 b ?s3] b by (simp_all add: prod_eq_iff)
  have all: "snd (run_ops ?x (CreateRecord now p # between @ CreateRecord later p # rest) s) = ?s4"
    by (simp add: run_ops_append case_prod_beta Let_def)
  have "\<not> distinct (map ev_evidence_id (run_rows t r ?s4))" "\<not> distinct (map ev_chain_hash (run_rows t r ?s4))"
    using rows same by (simp_all add: run_rows_def)
  moreover have "distinct (map ev_chain_hash (run_rows t r ?s4))"
    if v: "verifyEvidenceChain rt env key (run_rows t r ?s4) = Inr report" and c: "cr_valid report" for env key report
  proof -
    obtain order where "walkChain (map evidence_link_of (run_rows t r ?s4)) = (order, [])"
      using evidence_report [OF v c] by metis
    then show ?thesis using walk_sound(2) by (fastforce simp: comp_def)
  qed
  ultimately show ?thesis unfolding all Let_def by blast
qed

subsection \<open>Closed examples\<close>

definition example_params :: record_params where
  "example_params = \<lparr>rp_run_id = ''run-1'', rp_tenant_id = ''t1'', rp_correlation_id = ''c-1'',
     rp_step_index = Fin 1, rp_effect_key = ''k-1'', rp_previous = GENESIS_HASH,
     rp_payload = [(''ok'', JBool True)]\<rparr>"

lemma example_created:
  "succeeds (fst (createImmutableRecord chain_runtime (\<lambda>_. []) ''s'' 1 example_params s))"
  by (simp add: create_succeeds_iff example_params_def GENESIS_HASH_def)

theorem threaded_run_verifies_witness:
  "\<exists>report. verifyEvidenceChain chain_runtime None (Some ''s'') (run_rows ''t1'' ''run-1''
      (thread_run chain_runtime (\<lambda>_. []) ''s'' GENESIS_HASH [(1, example_params)] empty_logger)) = Inr report
    \<and> cr_valid report \<and> cr_verified report = 1"
proof -
  have "example_params\<lparr>rp_previous := GENESIS_HASH\<rparr> = example_params" by (simp add: example_params_def)
  moreover obtain row s' where made:
    "createImmutableRecord chain_runtime (\<lambda>_. []) ''s'' 1 example_params empty_logger = (Inr row, s')"
    using example_created [of empty_logger]
    by (cases "createImmutableRecord chain_runtime (\<lambda>_. []) ''s'' 1 example_params empty_logger")
      (auto simp: succeeds_iff)
  moreover have "listEvidence ''t1'' ''run-1'' s' = [row]"
    using listEvidence_create [of "''t1''" "''run-1''" chain_runtime "\<lambda>_. []" "''s''" 1 example_params empty_logger] made
    by (simp add: example_params_def) (simp add: listEvidence_def empty_logger_def)
  ultimately have rows: "run_rows ''t1'' ''run-1''
      (thread_run chain_runtime (\<lambda>_. []) ''s'' GENESIS_HASH [(1, example_params)] empty_logger) = [se_record row]"
    by (simp add: run_rows_def)
  have "hex_digests chain_runtime" by (simp add: hex_digests_def)
  moreover have empty: "listEvidence ''t1'' ''run-1'' empty_logger = []"
    by (simp add: listEvidence_def empty_logger_def)
  moreover have "run_call ''t1'' ''run-1'' (1, example_params)"
    by (simp add: run_call_def example_params_def blank_def trim_def is_ws_def)
  ultimately show ?thesis
    using threaded_run_verifies [of chain_runtime "''s''" "''t1''" "''run-1''" empty_logger "[(1, example_params)]" "\<lambda>_. []" None]
      empty
    by (simp add: rows Let_def blank_def trim_def is_ws_def del: thread_run.simps)
qed

theorem retried_append_breaks_the_run_witness:
  "\<not> distinct (map ev_evidence_id (run_rows ''t1'' ''run-1'' (snd (run_ops (logger_exec chain_runtime (\<lambda>_. []) ''s'')
      [CreateRecord 1 example_params, CreateRecord 2 example_params] empty_logger))))"
  using retried_append_breaks_the_run [OF example_created [of empty_logger], of "''t1''" "''run-1''" "[]" 2 "[]"]
  by (simp add: example_params_def Let_def)

end
