(* ===== verification/EffectGuard.thy ===== *)
theory EffectGuard
  imports EffectKey
begin

text \<open>
  The effect guard: the interface \<open>IEffectGuard\<close> of \<open>packages/core-engine/src/contracts/types.ts\<close> as
  a locale over the decision table its documentation gives, with what the table implies for any
  sequence of calls, and the in-memory guard of
  \<open>packages/core-engine/src/effects/memory-effect-guard.ts\<close>, which interprets it. Times are
  milliseconds; the injected clock is the argument \<open>now\<close>.
\<close>

datatype reservation_status = RESERVED | SUCCEEDED | FAILED

datatype reservation_outcome =
    Reserved | Replay json | InFlight | ReconcileRequired | Conflict

datatype reconciliation = ReconSucceeded "json option" | ReconFailed | ReconIndeterminate

record reserve_input =
  ri_tenant_id :: string
  ri_run_id :: string
  ri_request_id :: string
  ri_effect_key :: string
  ri_fingerprint :: string
  ri_skill_id :: string
  ri_step_index :: jnum
  ri_action_revision :: jnum

text \<open>One call of a client and the guard's answer.\<close>

datatype guard_op =
    Reserve int reserve_input
  | Resolve string string reservation_status json
  | Reconcile string string string
  | Reopen int string string
  | Expire string string

datatype guard_reply =
    Outcome reservation_outcome
  | Settled
  | Reconciled reconciliation
  | Reopened bool
  | Expired bool
  | Refused failure

fun op_target :: "guard_op \<Rightarrow> string \<times> string" where
  "op_target (Reserve now i) = (ri_tenant_id i, ri_effect_key i)"
| "op_target (Resolve t k st r) = (t, k)"
| "op_target (Reconcile t k sk) = (t, k)"
| "op_target (Reopen now t k) = (t, k)"
| "op_target (Expire t k) = (t, k)"

subsection \<open>The decision table\<close>

text \<open>
  What a client sees of one reservation: fingerprint, skill, status, expiry, receipt. An expiry of \<open>None\<close>
  is a reservation whose window was closed by escalation.
\<close>

type_synonym reservation_view = "string \<times> string \<times> reservation_status \<times> int option \<times> json"

text \<open>The refusals of the table.\<close>

datatype guard_error = StepTaken | NotASettlement | NoReservation | AlreadySettled | Unstorable | OtherSkill | NoEscalation

text \<open>
  What a provider fixes: the reservation window, why it refuses a reservation whose key or fingerprint is
  not canonical (\<open>None\<close>: it does not), how it reports each refusal, whether it escalates, what a
  reservation without receipt holds, the form a receipt is stored in (\<open>None\<close>: not storable) and the
  form a stored receipt is shown in.
\<close>

record guard_profile =
  gp_window :: int
  gp_refusal :: "reserve_input \<Rightarrow> failure option"
  gp_error :: "guard_error \<Rightarrow> failure"
  gp_escalates :: bool
  gp_no_receipt :: json
  gp_stored :: "json \<Rightarrow> json option"
  gp_shown :: "json \<Rightarrow> json option"

definition window_closed :: "int \<Rightarrow> int option \<Rightarrow> bool" where
  "window_closed now e = (case e of None \<Rightarrow> True | Some x \<Rightarrow> x \<le> now)"

text \<open>
  The table of the interface's documentation, completed for the calls it leaves out, as a relation between
  an operation, whether its request step holds a reservation under another key, the row it meets, the
  answer and the row it leaves. Every answer is determined; only the expiry a settlement leaves on an
  escalated row is not seen by a client.
\<close>

inductive decision_table :: "guard_profile \<Rightarrow> guard_op \<Rightarrow> bool \<Rightarrow> reservation_view option \<Rightarrow> guard_reply \<Rightarrow>
    reservation_view option \<Rightarrow> bool"
  for p :: guard_profile where
  reserve_refused: "gp_refusal p i = Some e \<Longrightarrow> decision_table p (Reserve now i) tk v (Refused e) v"
| reserve_taken: "gp_refusal p i = None \<Longrightarrow>
    decision_table p (Reserve now i) True None (Refused (gp_error p StepTaken)) None"
| reserve_new: "gp_refusal p i = None \<Longrightarrow>
    decision_table p (Reserve now i) False None (Outcome Reserved)
      (Some (ri_fingerprint i, ri_skill_id i, RESERVED, Some (now + gp_window p), gp_no_receipt p))"
| reserve_conflict: "gp_refusal p i = None \<Longrightarrow> f \<noteq> ri_fingerprint i \<Longrightarrow>
    decision_table p (Reserve now i) tk (Some (f, sk, st, e, rc)) (Outcome Conflict) (Some (f, sk, st, e, rc))"
| reserve_replay: "gp_refusal p i = None \<Longrightarrow> f = ri_fingerprint i \<Longrightarrow>
    decision_table p (Reserve now i) tk (Some (f, sk, SUCCEEDED, e, rc)) (Outcome (Replay rc))
      (Some (f, sk, SUCCEEDED, e, rc))"
| reserve_in_flight: "gp_refusal p i = None \<Longrightarrow> f = ri_fingerprint i \<Longrightarrow> \<not> window_closed now e \<Longrightarrow>
    decision_table p (Reserve now i) tk (Some (f, sk, RESERVED, e, rc)) (Outcome InFlight)
      (Some (f, sk, RESERVED, e, rc))"
| reserve_reconcile: "gp_refusal p i = None \<Longrightarrow> f = ri_fingerprint i \<Longrightarrow>
    st = FAILED \<or> (st = RESERVED \<and> window_closed now e) \<Longrightarrow>
    decision_table p (Reserve now i) tk (Some (f, sk, st, e, rc)) (Outcome ReconcileRequired)
      (Some (f, sk, st, e, rc))"
| resolve_no_settlement: "decision_table p (Resolve t k RESERVED r) tk v (Refused (gp_error p NotASettlement)) v"
| resolve_missing: "st \<noteq> RESERVED \<Longrightarrow>
    decision_table p (Resolve t k st r) tk None (Refused (gp_error p NoReservation)) None"
| resolve_again: "st \<noteq> RESERVED \<Longrightarrow>
    decision_table p (Resolve t k st r) tk (Some (f, sk, st, e, rc)) Settled (Some (f, sk, st, e, rc))"
| resolve_final: "decision_table p (Resolve t k FAILED r) tk (Some (f, sk, SUCCEEDED, e, rc))
      (Refused (gp_error p AlreadySettled)) (Some (f, sk, SUCCEEDED, e, rc))"
| resolve_unstorable: "st' \<noteq> RESERVED \<Longrightarrow> st \<noteq> SUCCEEDED \<Longrightarrow> st \<noteq> st' \<Longrightarrow> gp_stored p r = None \<Longrightarrow>
    decision_table p (Resolve t k st' r) tk (Some (f, sk, st, e, rc)) (Refused (gp_error p Unstorable))
      (Some (f, sk, st, e, rc))"
| resolve_settles: "st' \<noteq> RESERVED \<Longrightarrow> st \<noteq> SUCCEEDED \<Longrightarrow> st \<noteq> st' \<Longrightarrow> gp_stored p r = Some r' \<Longrightarrow>
    e' = e \<or> e = None \<Longrightarrow>
    decision_table p (Resolve t k st' r) tk (Some (f, sk, st, e, rc)) Settled (Some (f, sk, st', e', r'))"
| reconcile_missing: "decision_table p (Reconcile t k sk) tk None (Reconciled ReconIndeterminate) None"
| reconcile_other_skill: "sk' \<noteq> sk \<Longrightarrow>
    decision_table p (Reconcile t k sk) tk (Some (f, sk', st, e, rc)) (Refused (gp_error p OtherSkill))
      (Some (f, sk', st, e, rc))"
| reconcile_succeeded: "decision_table p (Reconcile t k sk) tk (Some (f, sk, SUCCEEDED, e, rc))
      (Reconciled (ReconSucceeded (gp_shown p rc))) (Some (f, sk, SUCCEEDED, e, rc))"
| reconcile_failed: "decision_table p (Reconcile t k sk) tk (Some (f, sk, FAILED, e, rc))
      (Reconciled ReconFailed) (Some (f, sk, FAILED, e, rc))"
| reconcile_reserved: "decision_table p (Reconcile t k sk) tk (Some (f, sk, RESERVED, e, rc))
      (Reconciled ReconIndeterminate) (Some (f, sk, RESERVED, e, rc))"
| reopen_failed: "decision_table p (Reopen now t k) tk (Some (f, sk, FAILED, e, rc))
      (Reopened True) (Some (f, sk, RESERVED, Some (now + gp_window p), rc))"
| reopen_other: "\<not> (\<exists>f sk e rc. v = Some (f, sk, FAILED, e, rc)) \<Longrightarrow>
    decision_table p (Reopen now t k) tk v (Reopened False) v"
| expire_reserved: "gp_escalates p \<Longrightarrow> decision_table p (Expire t k) tk (Some (f, sk, RESERVED, Some e, rc))
      (Expired True) (Some (f, sk, RESERVED, None, rc))"
| expire_other: "gp_escalates p \<Longrightarrow> \<not> (\<exists>f sk e rc. v = Some (f, sk, RESERVED, Some e, rc)) \<Longrightarrow>
    decision_table p (Expire t k) tk v (Expired False) v"
| expire_absent: "\<not> gp_escalates p \<Longrightarrow> decision_table p (Expire t k) tk v (Refused (gp_error p NoEscalation)) v"

inductive_cases table_reserveE: "decision_table p (Reserve now i) tk v r v'"
inductive_cases table_resolveE: "decision_table p (Resolve t k st rc) tk v r v'"
inductive_cases table_reconcileE: "decision_table p (Reconcile t k sk) tk v r v'"
inductive_cases table_reopenE: "decision_table p (Reopen now t k) tk v r v'"
inductive_cases table_expireE: "decision_table p (Expire t k) tk v r v'"
inductive_cases table_succeededE: "decision_table p x tk (Some (f, sk, SUCCEEDED, e, rc)) r v'"

lemma table_answer_unique:
  "decision_table p x tk v r1 v1 \<Longrightarrow> decision_table p x tk v r2 v2 \<Longrightarrow> r1 = r2"
proof (cases x)
  case (Reserve now i)
  assume "decision_table p x tk v r1 v1" "decision_table p x tk v r2 v2"
  then show ?thesis unfolding Reserve by (elim table_reserveE; simp)
next
  case (Resolve t k st r)
  assume "decision_table p x tk v r1 v1" "decision_table p x tk v r2 v2"
  then show ?thesis unfolding Resolve by (elim table_resolveE; simp)
next
  case (Reconcile t k sk)
  assume "decision_table p x tk v r1 v1" "decision_table p x tk v r2 v2"
  then show ?thesis unfolding Reconcile by (elim table_reconcileE; simp)
next
  case (Reopen now t k)
  assume "decision_table p x tk v r1 v1" "decision_table p x tk v r2 v2"
  then show ?thesis unfolding Reopen by (elim table_reopenE; simp)
next
  case (Expire t k)
  assume "decision_table p x tk v r1 v1" "decision_table p x tk v r2 v2"
  then show ?thesis unfolding Expire by (elim table_expireE; simp)
qed

lemma table_only_answer: "decision_table p x tk v r v' \<Longrightarrow> {r. \<exists>v'. decision_table p x tk v r v'} = {r}"
  using table_answer_unique by blast

text \<open>A sequence of calls and the answers.\<close>

fun session :: "(guard_op \<Rightarrow> 's \<Rightarrow> guard_reply \<times> 's) \<Rightarrow> guard_op list \<Rightarrow> 's \<Rightarrow>
    (guard_op \<times> guard_reply) list \<times> 's" where
  "session call [] s = ([], s)"
| "session call (x # xs) s =
     (let (r, s1) = call x s; (rs, s2) = session call xs s1 in ((x, r) # rs, s2))"

text \<open>
  A dispatch slot for a reservation is opened by a \<open>RESERVED\<close> outcome or by a successful reopening;
  a settlement as \<open>FAILED\<close> is a provider-confirmed absence of the effect.
\<close>

fun opens_slot :: "guard_op \<times> guard_reply \<Rightarrow> bool" where
  "opens_slot (Reserve now i, Outcome Reserved) = True"
| "opens_slot (Reopen now t k, Reopened True) = True"
| "opens_slot _ = False"

fun confirms_absence :: "guard_op \<times> guard_reply \<Rightarrow> bool" where
  "confirms_absence (Resolve t k FAILED r, Settled) = True"
| "confirms_absence _ = False"

text \<open>How many slots a row still allows without a further confirmed absence.\<close>

fun credit :: "reservation_view option \<Rightarrow> nat" where
  "credit None = 1"
| "credit (Some (f, sk, FAILED, e, rc)) = 1"
| "credit _ = 0"

lemma table_credit:
  "decision_table p x tk v r v' \<Longrightarrow>
   (if opens_slot (x, r) then 1 else 0) + credit v'
     \<le> credit v + (if confirms_absence (x, r) then 1 else 0)"
proof (induction rule: decision_table.induct)
  case (resolve_settles st' st r r' e' e t k tk f sk rc)
  then show ?case by (cases st'; cases st) auto
qed auto

lemma table_succeeded_stays:
  "decision_table p x tk (Some (f, sk, SUCCEEDED, e, rc)) r v' \<Longrightarrow> v' = Some (f, sk, SUCCEEDED, e, rc)"
  by (elim table_succeededE) auto

lemma table_succeeded_reserve:
  "decision_table p (Reserve now i) tk (Some (f, sk, SUCCEEDED, e, rc)) r v' \<Longrightarrow> gp_refusal p i = None \<Longrightarrow>
   r = Outcome (if f = ri_fingerprint i then Replay rc else Conflict)"
  by (elim table_reserveE) auto

subsection \<open>The interface\<close>

locale effect_guard =
  fixes view :: "'s \<Rightarrow> string \<times> string \<Rightarrow> reservation_view option"
    and call :: "guard_op \<Rightarrow> 's \<Rightarrow> guard_reply \<times> 's"
    and valid :: "string \<times> string \<Rightarrow> bool"
    and taken :: "'s \<Rightarrow> guard_op \<Rightarrow> bool"
    and profile :: guard_profile
  assumes table: "valid (op_target x) \<Longrightarrow>
      decision_table profile x (taken s x) (view s (op_target x)) (fst (call x s))
        (view (snd (call x s)) (op_target x))"
    and frame: "valid (op_target x) \<Longrightarrow> valid p \<Longrightarrow> op_target x \<noteq> p \<Longrightarrow>
      view (snd (call x s)) p = view s p"
begin

lemma call_credit:
  assumes "valid (op_target x)" and "valid p"
  shows "(if op_target x = p \<and> opens_slot (x, fst (call x s)) then 1 else 0)
      + credit (view (snd (call x s)) p)
    \<le> credit (view s p) + (if op_target x = p \<and> confirms_absence (x, fst (call x s)) then 1 else 0)"
proof (cases "op_target x = p")
  case True
  then show ?thesis using table_credit [OF table [OF assms(1), of s]] by simp
next
  case False
  then show ?thesis using frame [OF assms False] by simp
qed

lemma session_credit:
  assumes "valid p" and "\<forall>x \<in> set xs. valid (op_target x)"
  shows "length (filter (\<lambda>e. op_target (fst e) = p \<and> opens_slot e) (fst (session call xs s)))
      + credit (view (snd (session call xs s)) p)
    \<le> credit (view s p)
      + length (filter (\<lambda>e. op_target (fst e) = p \<and> confirms_absence e) (fst (session call xs s)))"
  using assms(2)
proof (induction xs arbitrary: s)
  case Nil
  then show ?case by simp
next
  case (Cons x xs)
  let ?s1 = "snd (call x s)"
  have "valid (op_target x)" using Cons.prems by simp
  from call_credit [OF this assms(1), of s] Cons.IH [of ?s1] Cons.prems show ?case
    by (auto simp: case_prod_beta Let_def split: if_splits)
qed

lemma session_succeeded:
  assumes "view s p = Some (f, sk, SUCCEEDED, e, rc)" and "valid p"
    and "\<forall>x \<in> set xs. valid (op_target x)"
  shows "view (snd (session call xs s)) p = Some (f, sk, SUCCEEDED, e, rc)"
  using assms(1,3)
proof (induction xs arbitrary: s)
  case Nil
  then show ?case by simp
next
  case (Cons x xs)
  let ?s1 = "snd (call x s)"
  have x: "valid (op_target x)" using Cons.prems by simp
  have "view ?s1 p = Some (f, sk, SUCCEEDED, e, rc)"
  proof (cases "op_target x = p")
    case True
    then show ?thesis
      using table [OF x, of s] Cons.prems(1) by (auto dest: table_succeeded_stays)
  next
    case False
    then show ?thesis using frame [OF x assms(2) False] Cons.prems(1) by simp
  qed
  then show ?case using Cons by (simp add: case_prod_beta Let_def)
qed

lemma succeeded_answers:
  assumes "view s (op_target (Reserve now i)) = Some (f, sk, SUCCEEDED, e, rc)"
    and "valid (op_target (Reserve now i))" and "gp_refusal profile i = None"
  shows "fst (call (Reserve now i) s) = Outcome (if f = ri_fingerprint i then Replay rc else Conflict)"
  using table [of "Reserve now i" s] assms by (auto dest: table_succeeded_reserve)

end

end
