(* ===== verification/AutonomyTypes.thy ===== *)
theory AutonomyTypes
  imports Contracts
begin

text \<open>
  The data of controlled autonomy (\<open>packages/core-engine/src/autonomy/types.ts\<close>): policy rows, the
  requests of the service and the answer of an admission. An absent optional member is \<open>None\<close>.
\<close>

datatype autonomy_state = MINIMUM | PROMOTED | PAUSED | DEMOTED

datatype approved_state = ApprovedMinimum | ApprovedPromoted

datatype autonomy_workflow = UNCHANGED | AUTO_EXECUTE | PARKED_DRAFT

datatype autonomy_trigger =
    AUTHORITY_POLICY_VIOLATION | DUPLICATE_EFFECT | PROVIDER_AMBIGUITY | EVIDENCE_GAP | AUDIT_GAP
  | POLICY_DRIFT | OPERATOR_PAUSE | OPERATOR_KILL_SWITCH | FAILED_SAFETY_INVARIANT | OPERATOR_DEMOTE

fun trigger_label :: "autonomy_trigger \<Rightarrow> string" where
  "trigger_label AUTHORITY_POLICY_VIOLATION = ''AUTHORITY_POLICY_VIOLATION''"
| "trigger_label DUPLICATE_EFFECT = ''DUPLICATE_EFFECT''"
| "trigger_label PROVIDER_AMBIGUITY = ''PROVIDER_AMBIGUITY''"
| "trigger_label EVIDENCE_GAP = ''EVIDENCE_GAP''"
| "trigger_label AUDIT_GAP = ''AUDIT_GAP''"
| "trigger_label POLICY_DRIFT = ''POLICY_DRIFT''"
| "trigger_label OPERATOR_PAUSE = ''OPERATOR_PAUSE''"
| "trigger_label OPERATOR_KILL_SWITCH = ''OPERATOR_KILL_SWITCH''"
| "trigger_label FAILED_SAFETY_INVARIANT = ''FAILED_SAFETY_INVARIANT''"
| "trigger_label OPERATOR_DEMOTE = ''OPERATOR_DEMOTE''"

record policy_row =
  au_policy_id :: string
  au_policy_version :: string
  au_tenant_id :: string
  au_skill_id :: string
  au_state :: autonomy_state
  au_previous :: approved_state
  au_evidence_window_ref :: "string option"
  au_approver_id :: "string option"
  au_reason :: string
  au_parameters :: jobject
  au_effective_at :: string
  au_rollback_version :: string
  au_rollback_state :: approved_state
  au_audit_ref :: "string option"
  au_evidence_ref :: "string option"

record promotion_request =
  pr_policy_id :: "string option"
  pr_policy_version :: "string option"
  pr_tenant_id :: string
  pr_skill_id :: string
  pr_required_authority :: string
  pr_evidence_window_ref :: "string option"
  pr_evidence_ref :: "string option"
  pr_audit_ref :: "string option"
  pr_authority_violations :: "jnum option"
  pr_duplicate_effects :: "jnum option"
  pr_audit_complete :: "bool option"
  pr_evidence_complete :: "bool option"
  pr_approver_id :: "string option"
  pr_parameters :: "jobject option"
  pr_reason :: "string option"
  pr_latency :: json
  pr_cost :: json
  pr_latency_provenance_ref :: "string option"
  pr_cost_provenance_ref :: "string option"

record demotion_request =
  dr_tenant_id :: string
  dr_skill_id :: string
  dr_policy_version :: string
  dr_trigger :: string
  dr_reason :: "string option"
  dr_actor :: "string option"
  dr_audit_ref :: "string option"
  dr_evidence_ref :: "string option"
  dr_parameters :: "jobject option"

record admission_safety =
  sf_safety_ok :: "bool option"
  sf_authority_violations :: "jnum option"
  sf_duplicate_effects :: "jnum option"
  sf_audit_complete :: "bool option"
  sf_evidence_complete :: "bool option"
  sf_provider_ambiguity :: "bool option"
  sf_policy_drift :: "bool option"
  sf_trigger :: "string option"

definition no_safety :: admission_safety where
  "no_safety = \<lparr>sf_safety_ok = None, sf_authority_violations = None, sf_duplicate_effects = None,
     sf_audit_complete = None, sf_evidence_complete = None, sf_provider_ambiguity = None,
     sf_policy_drift = None, sf_trigger = None\<rparr>"

text \<open>An admission request carries the safety members itself and, optionally, a nested set of them.\<close>

record admission_request =
  aq_tenant_id :: string
  aq_skill_id :: string
  aq_policy_version :: string
  aq_required_authority :: "string option"
  aq_safety :: admission_safety
  aq_nested_safety :: "admission_safety option"

end
