(* ===== verification/Numbers.thy ===== *)
theory Numbers
  imports Prelude
begin

text \<open>
  Arithmetic on JavaScript numbers. \<open>fl\<close>, IEEE rounding of an exact value to the nearest double, is a
  parameter: no proof depends on more than its type. The sign of zero is not represented.
\<close>

type_synonym rounding = "rat \<Rightarrow> jnum"

fun num_mult :: "rounding \<Rightarrow> jnum \<Rightarrow> jnum \<Rightarrow> jnum" where
  "num_mult fl (Fin a) (Fin b) = fl (a * b)"
| "num_mult fl NaN _ = NaN"
| "num_mult fl _ NaN = NaN"
| "num_mult fl (Fin a) y = (if a = 0 then NaN else if (0 < a) = (y = PosInf) then PosInf else NegInf)"
| "num_mult fl x (Fin b) = (if b = 0 then NaN else if (0 < b) = (x = PosInf) then PosInf else NegInf)"
| "num_mult fl x y = (if x = y then PosInf else NegInf)"

fun num_plus :: "rounding \<Rightarrow> jnum \<Rightarrow> jnum \<Rightarrow> jnum" where
  "num_plus fl (Fin a) (Fin b) = fl (a + b)"
| "num_plus fl NaN _ = NaN"
| "num_plus fl _ NaN = NaN"
| "num_plus fl (Fin a) y = y"
| "num_plus fl x (Fin b) = x"
| "num_plus fl x y = (if x = y then x else NaN)"

fun num_minus :: "rounding \<Rightarrow> jnum \<Rightarrow> jnum \<Rightarrow> jnum" where
  "num_minus fl x (Fin b) = num_plus fl x (Fin (- b))"
| "num_minus fl x PosInf = num_plus fl x NegInf"
| "num_minus fl x NegInf = num_plus fl x PosInf"
| "num_minus fl x NaN = NaN"

text \<open>\<open>x / b\<close> for a finite divisor that is not zero.\<close>

fun num_div :: "rounding \<Rightarrow> jnum \<Rightarrow> rat \<Rightarrow> jnum" where
  "num_div fl (Fin a) b = fl (a / b)"
| "num_div fl NaN b = NaN"
| "num_div fl PosInf b = (if 0 < b then PosInf else NegInf)"
| "num_div fl NegInf b = (if 0 < b then NegInf else PosInf)"

text \<open>\<open>Math.round\<close> (ties towards \<open>+\<infinity>\<close>), \<open>Math.abs\<close>, \<open><=\<close>.\<close>

fun num_round :: "jnum \<Rightarrow> jnum" where
  "num_round (Fin q) = Fin (of_int \<lfloor>q + 1 / 2\<rfloor>)"
| "num_round x = x"

fun num_abs :: "jnum \<Rightarrow> jnum" where
  "num_abs (Fin q) = Fin \<bar>q\<bar>"
| "num_abs NegInf = PosInf"
| "num_abs x = x"

definition num_le :: "jnum \<Rightarrow> jnum \<Rightarrow> bool" where
  "num_le x y \<longleftrightarrow> num_less x y \<or> (x = y \<and> x \<noteq> NaN)"

text \<open>\<open>v / 1000\<close>.\<close>

fun per_thousand :: "rounding \<Rightarrow> jnum \<Rightarrow> jnum" where
  "per_thousand fl (Fin q) = fl (q / 1000)"
| "per_thousand fl v = v"

text \<open>\<open>Number.isFinite(v) && v >= 0\<close>.\<close>

fun nonneg_finite :: "jnum \<Rightarrow> bool" where
  "nonneg_finite (Fin q) = (0 \<le> q)"
| "nonneg_finite _ = False"

end
