(* ===== verification/SkillAttempt.thy ===== *)
theory SkillAttempt
  imports Contracts Numbers
begin

text \<open>
  Bounded execution of one skill invocation: the classification of a failed attempt and its backoff
  (\<open>packages/skills/src/runtime/retry.ts\<close>), and the retry loop (\<open>runtime/attempt.ts\<close>). The adapter is
  the sequence of what its attempts end in; \<open>Math.pow\<close> is a parameter next to IEEE rounding. The texts of
  errors are left out.
\<close>

record retry_policy =
  rp_max_retries :: jnum
  rp_initial_interval_ms :: jnum
  rp_backoff_multiplier :: jnum
  rp_retry_on_timeout :: bool
  rp_non_retryable_errors :: "string list"

record retry_env =
  re_rounding :: rounding
  re_pow :: "jnum \<Rightarrow> int \<Rightarrow> jnum"

datatype retry_class = RETRYABLE | FATAL | UNKNOWN

definition INDETERMINATE_TRANSPORT_ERRORS :: "string list" where
  "INDETERMINATE_TRANSPORT_ERRORS =
     [''ECONNRESET'', ''ETIMEDOUT'', ''EPIPE'', ''PROVIDER_INDETERMINATE'', ''UNPARSABLE_PROVIDER_RESPONSE'']"

text \<open>A thrown value; an \<open>Error\<close> that is no \<open>SkillError\<close> is the object of its properties.\<close>

datatype thrown = ThrownSkill string | ThrownValue json

definition readNonEmptyStringProperty :: "json \<Rightarrow> string \<Rightarrow> string option" where
  "readNonEmptyStringProperty v property =
    (case v of
       JObj ms \<Rightarrow> (case member ms property of JStr s \<Rightarrow> if s = [] then None else Some s | _ \<Rightarrow> None)
     | _ \<Rightarrow> None)"

definition errorCodeOf :: "thrown \<Rightarrow> bool \<Rightarrow> string" where
  "errorCodeOf err isAborted =
    (if isAborted then ''TIMEOUT''
     else case err of
         ThrownSkill code \<Rightarrow> code
       | ThrownValue v \<Rightarrow>
           (case readNonEmptyStringProperty v ''code'' of
              Some c \<Rightarrow> c
            | None \<Rightarrow> (case readNonEmptyStringProperty v ''message'' of
                Some m \<Rightarrow> m | None \<Rightarrow> ''UNKNOWN_ERROR'')))"

definition classifyFailure :: "retry_policy \<Rightarrow> string \<Rightarrow> bool \<Rightarrow> int \<Rightarrow> retry_class" where
  "classifyFailure p errorCode isAborted attempt =
    (let exhausted = num_less (rp_max_retries p) (Fin (of_int attempt));
         indeterminate = (isAborted \<or> List.member INDETERMINATE_TRANSPORT_ERRORS errorCode) in
     if indeterminate then
       if \<not> rp_retry_on_timeout p then UNKNOWN else if exhausted then FATAL else RETRYABLE
     else if List.member (rp_non_retryable_errors p) errorCode then FATAL
     else if exhausted then FATAL else RETRYABLE)"

fun positive_finite :: "jnum \<Rightarrow> bool" where
  "positive_finite (Fin q) = (0 < q)"
| "positive_finite _ = False"

definition backoffDelayMs :: "retry_env \<Rightarrow> retry_policy \<Rightarrow> int \<Rightarrow> jnum \<Rightarrow> jnum" where
  "backoffDelayMs env p attempt random =
    (let fl = re_rounding env;
         rawBase = num_mult fl (rp_initial_interval_ms p) (re_pow env (rp_backoff_multiplier p) (attempt - 1));
         base = (if positive_finite rawBase then rawBase else Fin 0) in
     if base = Fin 0 then Fin 0
     else let delay = num_plus fl base (num_mult fl random base) in
       if positive_finite delay then delay else Fin 0)"

text \<open>
  How an attempt ends: what \<open>runAttempt\<close> answers or throws (the deadline's own \<open>TIMEOUT\<close> included), whether
  the deadline fired, whether the caller's signal is aborted. The attempt's controller is aborted by both.
\<close>

record attempt_event =
  ae_result :: "thrown + json"
  ae_deadline :: bool
  ae_cancelled :: bool

text \<open>
  How an execution ends: its output, or its error and whether \<open>onAttemptFailure\<close> was called; with the
  number of attempts made and the delays slept.
\<close>

datatype bounded_end = Completed json | Ended failure bool

record bounded_run =
  br_end :: bounded_end
  br_attempts :: int
  br_sleeps :: "jnum list"

definition aborted :: "attempt_event \<Rightarrow> bool" where
  "aborted e \<longleftrightarrow> ae_deadline e \<or> ae_cancelled e"

definition attempt_class :: "retry_policy \<Rightarrow> attempt_event \<Rightarrow> thrown \<Rightarrow> int \<Rightarrow> retry_class" where
  "attempt_class p e err attempt = classifyFailure p (errorCodeOf err (aborted e)) (aborted e) attempt"

partial_function (option) attempt_loop :: "retry_env \<Rightarrow> retry_policy \<Rightarrow> (int \<Rightarrow> attempt_event) \<Rightarrow>
    (int \<Rightarrow> jnum) \<Rightarrow> int \<Rightarrow> jnum list \<Rightarrow> bounded_run option" where
  "attempt_loop env p ev rnd attempt sleeps =
    (case ae_result (ev attempt) of
       Inr out \<Rightarrow> Some \<lparr>br_end = Completed out, br_attempts = attempt, br_sleeps = sleeps\<rparr>
     | Inl err \<Rightarrow>
         (case attempt_class p (ev attempt) err attempt of
            UNKNOWN \<Rightarrow> Some \<lparr>br_end = Ended (SkillError ''EFFECT_UNKNOWN'') (\<not> ae_cancelled (ev attempt)),
              br_attempts = attempt, br_sleeps = sleeps\<rparr>
          | FATAL \<Rightarrow> Some \<lparr>br_end = Ended (SkillError ''SKILL_EXECUTION_FAILED'') True,
              br_attempts = attempt, br_sleeps = sleeps\<rparr>
          | RETRYABLE \<Rightarrow>
              if ae_cancelled (ev attempt)
              then Some \<lparr>br_end = Ended (SkillError ''SKILL_EXECUTION_FAILED'') False,
                br_attempts = attempt, br_sleeps = sleeps\<rparr>
              else attempt_loop env p ev rnd (attempt + 1)
                (sleeps @ [backoffDelayMs env p attempt (rnd attempt)])))"

definition executeBounded :: "retry_env \<Rightarrow> retry_policy \<Rightarrow> (int \<Rightarrow> attempt_event) \<Rightarrow> (int \<Rightarrow> jnum) \<Rightarrow>
    bounded_run option" where
  "executeBounded env p ev rnd = attempt_loop env p ev rnd 1 []"

subsection \<open>The loop is bounded\<close>

text \<open>A retry budget the registry accepts: a safe integer that is not negative.\<close>

definition retry_budget :: "retry_policy \<Rightarrow> int option" where
  "retry_budget p = (case rp_max_retries p of
     Fin q \<Rightarrow> if is_safe_integer (Fin q) \<and> 0 \<le> q then Some \<lfloor>q\<rfloor> else None | _ \<Rightarrow> None)"

lemma retry_budget_value: "retry_budget p = Some m \<Longrightarrow> rp_max_retries p = Fin (of_int m) \<and> 0 \<le> m"
  by (auto simp: retry_budget_def is_int_rat_def split: jnum.splits if_splits)

lemma backoff_nonneg: "backoffDelayMs env p attempt r = Fin 0 \<or> positive_finite (backoffDelayMs env p attempt r)"
  by (simp add: backoffDelayMs_def Let_def)

lemma retryable_within_budget:
  assumes "attempt_class p e err attempt = RETRYABLE" and "retry_budget p = Some m"
  shows "attempt \<le> m"
  using assms(1) retry_budget_value [OF assms(2)]
  by (auto simp: attempt_class_def classifyFailure_def Let_def split: if_splits)

text \<open>What the attempts before the last one were: failures the policy retries, not cancelled.\<close>

definition retried :: "retry_policy \<Rightarrow> (int \<Rightarrow> attempt_event) \<Rightarrow> int \<Rightarrow> bool" where
  "retried p ev i \<longleftrightarrow> (\<exists>err. ae_result (ev i) = Inl err \<and> attempt_class p (ev i) err i = RETRYABLE)
     \<and> \<not> ae_cancelled (ev i)"

text \<open>How the execution ends when this is its last attempt.\<close>

definition final_end :: "retry_policy \<Rightarrow> attempt_event \<Rightarrow> int \<Rightarrow> bounded_end" where
  "final_end p e attempt = (case ae_result e of
     Inr out \<Rightarrow> Completed out
   | Inl err \<Rightarrow> (case attempt_class p e err attempt of
       UNKNOWN \<Rightarrow> Ended (SkillError ''EFFECT_UNKNOWN'') (\<not> ae_cancelled e)
     | FATAL \<Rightarrow> Ended (SkillError ''SKILL_EXECUTION_FAILED'') True
     | RETRYABLE \<Rightarrow> Ended (SkillError ''SKILL_EXECUTION_FAILED'') False))"

lemma attempt_loop_total:
  assumes "retry_budget p = Some m" and "attempt \<le> m + 1"
  shows "\<exists>r. attempt_loop env p ev rnd attempt sleeps = Some r \<and> attempt \<le> br_attempts r \<and> br_attempts r \<le> m + 1
    \<and> (\<forall>i. attempt \<le> i \<and> i < br_attempts r \<longrightarrow> retried p ev i)
    \<and> br_end r = final_end p (ev (br_attempts r)) (br_attempts r)
    \<and> (\<exists>ds. br_sleeps r = sleeps @ ds \<and> int (length ds) = br_attempts r - attempt
        \<and> list_all (\<lambda>d. d = Fin 0 \<or> positive_finite d) ds)"
  using assms(2)
proof (induction "nat (m + 1 - attempt)" arbitrary: attempt sleeps rule: less_induct)
  case less
  let ?e = "ev attempt"
  show ?case
  proof (cases "retried p ev attempt")
    case True
    then obtain err where err: "ae_result ?e = Inl err" "attempt_class p ?e err attempt = RETRYABLE" "\<not> ae_cancelled ?e"
      by (auto simp: retried_def)
    have m: "attempt \<le> m" using retryable_within_budget [OF err(2) assms(1)] .
    obtain r ds where r: "attempt_loop env p ev rnd (attempt + 1) (sleeps @ [backoffDelayMs env p attempt (rnd attempt)]) = Some r"
      "attempt + 1 \<le> br_attempts r" "br_attempts r \<le> m + 1" "\<forall>i. attempt + 1 \<le> i \<and> i < br_attempts r \<longrightarrow> retried p ev i"
      "br_end r = final_end p (ev (br_attempts r)) (br_attempts r)"
      "br_sleeps r = (sleeps @ [backoffDelayMs env p attempt (rnd attempt)]) @ ds"
      "int (length ds) = br_attempts r - (attempt + 1)" "list_all (\<lambda>d. d = Fin 0 \<or> positive_finite d) ds"
      using less.hyps [of "attempt + 1" "sleeps @ [backoffDelayMs env p attempt (rnd attempt)]"] m by auto
    have "retried p ev i" if "attempt \<le> i" "i < br_attempts r" for i
      using r(4) True that by (cases "i = attempt") auto
    moreover have "attempt_loop env p ev rnd attempt sleeps = Some r"
      using err r(1) by (subst attempt_loop.simps) simp
    ultimately show ?thesis using r backoff_nonneg
      by (intro exI [of _ r] conjI exI [of _ "backoffDelayMs env p attempt (rnd attempt) # ds"]) auto
  next
    case False
    then have "attempt_loop env p ev rnd attempt sleeps
        = Some \<lparr>br_end = final_end p ?e attempt, br_attempts = attempt, br_sleeps = sleeps\<rparr>"
      by (subst attempt_loop.simps) (auto simp: retried_def final_end_def split: sum.split retry_class.split)
    then show ?thesis using less.prems by auto
  qed
qed

lemma executeBounded_runs:
  assumes "retry_budget p = Some m"
  shows "\<exists>r. executeBounded env p ev rnd = Some r \<and> 1 \<le> br_attempts r \<and> br_attempts r \<le> m + 1
    \<and> (\<forall>i. 1 \<le> i \<and> i < br_attempts r \<longrightarrow> retried p ev i)
    \<and> br_end r = final_end p (ev (br_attempts r)) (br_attempts r)
    \<and> int (length (br_sleeps r)) = br_attempts r - 1
    \<and> list_all (\<lambda>d. d = Fin 0 \<or> positive_finite d) (br_sleeps r)"
proof -
  have "1 \<le> m + 1" using retry_budget_value [OF assms] by simp
  from attempt_loop_total [OF assms this, of env ev rnd "[]"] show ?thesis
    unfolding executeBounded_def by force
qed

text \<open>Failures whose outcome at the provider is not known.\<close>

definition unconfirmed :: "attempt_event \<Rightarrow> bool" where
  "unconfirmed e \<longleftrightarrow> (\<exists>err. ae_result e = Inl err \<and>
     (aborted e \<or> List.member INDETERMINATE_TRANSPORT_ERRORS (errorCodeOf err (aborted e))))"

lemma retried_is_confirmed: "retried p ev i \<Longrightarrow> \<not> rp_retry_on_timeout p \<Longrightarrow> \<not> unconfirmed (ev i)"
  by (auto simp: retried_def unconfirmed_def attempt_class_def classifyFailure_def Let_def split: if_splits)

lemma unconfirmed_end: "unconfirmed e \<Longrightarrow> \<not> rp_retry_on_timeout p \<Longrightarrow>
    final_end p e n = Ended (SkillError ''EFFECT_UNKNOWN'') (\<not> ae_cancelled e)"
  by (auto simp: unconfirmed_def final_end_def attempt_class_def classifyFailure_def Let_def)

text \<open>
  A cancelled attempt that exhausts the budget of a row that retries timeouts is reported as a failure of the
  dependency.
\<close>

lemma exhausted_cancellation_is_reported:
  assumes "ae_result e = Inl err" and "ae_cancelled e" and "rp_retry_on_timeout p"
    and "retry_budget p = Some m" and "m < n"
  shows "final_end p e n = Ended (SkillError ''SKILL_EXECUTION_FAILED'') True"
  using assms retry_budget_value [OF assms(4)]
  by (simp add: final_end_def attempt_class_def classifyFailure_def aborted_def Let_def)

text \<open>
  C22: under a retry budget the registry accepts, an execution ends whatever the adapter does: after at least
  one and at most one attempt more than the budget, with one finite delay that is not negative before each
  further attempt, and every attempt but the last one failed in a way the policy retries and was not
  cancelled.
\<close>

theorem execution_is_bounded:
  assumes "retry_budget p = Some m"
  shows "\<exists>r. executeBounded env p ev rnd = Some r \<and> 1 \<le> br_attempts r \<and> br_attempts r \<le> m + 1
    \<and> (\<forall>i. 1 \<le> i \<and> i < br_attempts r \<longrightarrow> retried p ev i)
    \<and> int (length (br_sleeps r)) = br_attempts r - 1
    \<and> list_all (\<lambda>d. d = Fin 0 \<or> positive_finite d) (br_sleeps r)"
  using executeBounded_runs [OF assms, of env ev rnd] by blast

definition example_policy :: retry_policy where
  "example_policy = \<lparr>rp_max_retries = Fin 2, rp_initial_interval_ms = Fin 10, rp_backoff_multiplier = Fin 2,
     rp_retry_on_timeout = False, rp_non_retryable_errors = [''BAD_REQUEST'']\<rparr>"

definition example_retry_env :: retry_env where
  "example_retry_env = \<lparr>re_rounding = Fin, re_pow = (\<lambda>b n. case b of Fin q \<Rightarrow> Fin (q ^ nat n) | x \<Rightarrow> x)\<rparr>"

definition failing_adapter :: "int \<Rightarrow> attempt_event" where
  "failing_adapter i = \<lparr>ae_result = Inl (ThrownValue (JObj [(''code'', JStr ''RATE_LIMITED'')])),
     ae_deadline = False, ae_cancelled = False\<rparr>"

theorem execution_is_bounded_witness:
  "\<exists>r. executeBounded example_retry_env example_policy failing_adapter (\<lambda>_. Fin 0) = Some r
    \<and> 1 \<le> br_attempts r \<and> br_attempts r \<le> 3"
proof -
  have "retry_budget example_policy = Some 2"
    by (simp add: retry_budget_def example_policy_def max_safe_def)
  from execution_is_bounded [OF this, of example_retry_env failing_adapter "\<lambda>_. Fin 0"] show ?thesis by auto
qed

end
