(* ===== verification/RunTypes.thy ===== *)
theory RunTypes
  imports Programs Lifecycle TaskFsm Authority CrossDomainHandoff EvidenceLogger EffectGuard AutonomyTypes SkillAttempt
begin

text \<open>
  The data of a run of the revenue orchestrator (\<open>packages/core-engine/src/contracts/types.ts\<close>,
  \<open>contracts/ports.ts\<close>), the boundaries it calls, and its state. A record the orchestrator only hands
  on is kept with its object form as a \<^typ>\<open>json\<close>. A step ordinal is a number as JavaScript has it.

  A run talks to the outside through the ports of one \<open>orchestrator\<close>. What a port answers may
  depend on everything this run has done so far and is otherwise unconstrained, so that other runs,
  operators and providers may act between any two calls; every call and its answer is an \<open>event\<close> of the
  run, latest first. Tracing spans are left out, and so are the texts of messages and reasons.
\<close>

subsection \<open>Numbers\<close>

text \<open>\<open>a === b\<close> on numbers, and \<open>n + 1\<close> (exact on ordinals below \<open>2 ^ 53\<close>).\<close>

definition same_number :: "jnum \<Rightarrow> jnum \<Rightarrow> bool" where
  "same_number a b \<longleftrightarrow> a = b \<and> a \<noteq> NaN"

fun succ_num :: "jnum \<Rightarrow> jnum" where
  "succ_num (Fin q) = Fin (q + 1)"
| "succ_num n = n"

definition is_integer :: "jnum \<Rightarrow> bool" where
  "is_integer n = (case n of Fin q \<Rightarrow> is_int_rat q | _ \<Rightarrow> False)"

definition num :: "nat \<Rightarrow> jnum" where
  "num n = Fin (of_nat n)"

text \<open>The smallest natural number that is not below \<open>n\<close>.\<close>

fun ordinal :: "jnum \<Rightarrow> nat" where
  "ordinal (Fin q) = nat \<lceil>q\<rceil>"
| "ordinal _ = 0"

subsection \<open>Plans and signals\<close>

record planned_step =
  ps_step_index :: jnum
  ps_agent_id :: string
  ps_skill_id :: string
  ps_adapter_target :: string
  ps_input_parameters :: jobject
  ps_required_authority :: authority_level
  ps_mutating :: bool
  ps_price_bearing :: bool
  ps_timeout_ms :: jnum
  ps_depends_on_steps :: "jnum list option"
  ps_input_bindings :: "json option"
  ps_computed_price_floor :: "jnum option"
  ps_floor_source :: "string option"
  ps_proposed_price :: "jnum option"

record execution_plan =
  ep_plan_id :: string
  ep_steps :: "planned_step list"
  ep_handoff_intent :: "handoff_intent option"

record signal_subject =
  ss_session_id :: string
  ss_channel_identifier :: "string option"
  ss_object :: json

record signal_envelope =
  sg_signal_id :: string
  sg_tenant_id :: string
  sg_correlation_id :: string
  sg_source_channel :: string
  sg_event_type :: string
  sg_subject :: "signal_subject option"
  sg_object :: json

record hydrated_context =
  hc_session_id :: string
  hc_conversation_id :: "string option"
  hc_last_touch_channel :: json
  hc_response_skill_id :: json
  hc_response_adapter_target :: json
  hc_customer_id :: "string option"
  hc_object :: json

record hypothesis_record =
  hy_classification :: string
  hy_object :: json

record routing_decision =
  rd_target_agent :: string
  rd_requires_clarification :: bool
  rd_clarification_prompt :: "string option"
  rd_object :: json

record gate_result =
  gr_verdict :: authority_verdict
  gr_autonomy_workflow :: "autonomy_workflow option"

text \<open>A stored evidence record as the engine reads it: the record and its projected receipt.\<close>

type_synonym step_evidence = "evidence_record \<times> jobject option"

record reconciled_effect =
  rc_effect_key :: string
  rc_action_id :: string
  rc_replay :: "json option"

text \<open>\<open>rc_replay\<close>: the receipt of a \<open>REPLAY\<close>, \<open>None\<close> for a \<open>DISPATCH\<close>.\<close>

record handoff_admission =
  ha_handoff_id :: string
  ha_target_run_id :: string
  ha_admitted :: bool
  ha_lifecycle :: lifecycle_ref

subsection \<open>Durable tasks\<close>

record task_checkpoint =
  ck_signal :: "json option"
  ck_plan :: execution_plan
  ck_current_step :: jnum
  ck_pending_action :: "action_draft option"
  ck_context :: hydrated_context
  ck_previous :: string
  ck_request_id :: string

text \<open>What \<open>updateTaskProgress\<close> is given: the cursor of a started step, or a checkpoint.\<close>

datatype progress = Cursor string jnum string string | Saved task_checkpoint

text \<open>
  A member of a stored \<open>state_payload\<close> that should be an object: absent, \<open>null\<close>, another value that is
  no plain object, or an object, which then has its static type (the casts of the source).
\<close>

datatype 'a cell = Absent | Null | Junk | Held 'a

record stored_task =
  st_signal :: "json option"
  st_plan :: "execution_plan cell"
  st_current_step :: "jnum option"
  st_pending_action :: "action_draft cell"
  st_context :: "hydrated_context cell"
  st_previous :: json
  st_request_id :: json
  st_resume_event :: json

datatype task_payload = NoObject | Stored stored_task

text \<open>What a transition writes: a checkpoint the engine built, or the stored payload handed through.\<close>

datatype payload_write = Checkpoint task_checkpoint | Verbatim stored_task

text \<open>\<open>tv_lease_owner\<close>, \<open>tv_lease_expires_at\<close>: absent, \<open>null\<close> or a value, the second read by \<open>Date.parse\<close>.\<close>

record task_view =
  tv_state :: task_state
  tv_task_version :: int
  tv_correlation_id :: string
  tv_payload :: task_payload
  tv_retry_count :: "int option"
  tv_lease_owner :: "string option option"
  tv_lease_expires_at :: "jnum option option"

type_synonym write_fence = "(int \<times> string) option"

record resume_input =
  rv_tenant_id :: string
  rv_event_type :: string
  rv_approval_id :: "string option"
  rv_expected_payload_sha256 :: "string option"
  rv_operator_id :: "string option"
  rv_resolution :: "string option"
  rv_modifications :: "jobject option"
  rv_evidence_payload :: json
  rv_step_index :: "jnum option"
  rv_effect_key :: "string option"
  rv_reason :: "string option"
  rv_object :: json

record pause_order =
  pu_expected_version :: int
  pu_checkpoint :: task_checkpoint
  pu_action_id :: string
  pu_effect_key :: string
  pu_payload :: jobject

datatype human_decision = HumanApproved | HumanModified | HumanRejected | HumanPause | HumanCancelled

record claim_request =
  cq_tenant_id :: string
  cq_run_id :: string
  cq_approval_id :: string
  cq_effect_key :: string
  cq_expected_payload_sha256 :: string
  cq_authorized_action :: "action_draft option"
  cq_decision :: human_decision
  cq_operator_id :: string
  cq_review_comment :: "string option"
  cq_fence :: "(int \<times> string \<times> json) option"

subsection \<open>Events and ports\<close>

datatype provider_answer = Answered "jobject result" | DeadlinePassed

datatype reconciliation_status = ProviderSucceeded | ProviderFailed | ProviderIndeterminate

datatype lease_event =
    LeaseAcquired string string string "bool result"
  | LeaseReleased string string string "unit result"
  | LeaseAsserted string string "unit result"

datatype task_event =
    TaskCreated string string string "unit result"
  | TaskRead string string "task_view option result"
  | TaskMoved string string task_state "payload_write option" write_fence "unit result"
  | TaskProgressed string string jnum progress "unit result"
  | TaskPaused string string pause_order "string result"
  | TaskClaimed claim_request "bool result"
  | FailureRecorded string string retry_class string "unit result"
  | HandoffEvidenceCleared string string int json "unit result"

datatype stage_event =
    OrdinalRead string string "int result"
  | StageRecorded string string int jnum stage "unit result"
  | OtherJournal "stage list"

datatype derive_event =
    ContextHydrated string json string "hydrated_context result"
  | HypothesisDerived json json "hypothesis_record result"
  | RoutingResolved json json "routing_decision result"
  | PlanFormulated json json "execution_plan result"
  | InputsResolved string string jnum "json result"

datatype session_event =
    TakeoverRead string string "bool result"
  | ReturnedToAgent string string string "unit result"

datatype policy_event =
    ActionValidated action_draft "action_draft result"
  | AuthorityEvaluated action_draft "gate_result result"

datatype effect_event =
    EffectReserved reserve_input "reservation_outcome result"
  | EffectResolved string string reservation_status json "unit result"
  | EffectReopened string string "bool result"

datatype adapter_event =
    ProviderReconciled action_draft "(reconciliation_status \<times> json) result"
  | Dispatched action_draft jnum provider_answer

datatype evidence_event =
    EvidenceCreated record_params "step_evidence result"
  | EvidenceFound string string "string option" jnum "step_evidence option result"
  | OutcomeWatched string string string string "unit result"
  | RunLogged run_log "unit result"
  | AuditAppended run_log "unit result"

datatype closing_event =
    HandoffAdmitted handoff_draft "handoff_admission result"
  | ResponseRead string string "json option result"
  | ResponseFinalized string string string "json result"
  | ResponseSaved string string string json "unit result"

datatype event =
    is_lease: Lease lease_event
  | is_task: Task task_event
  | is_stage: Stage stage_event
  | is_derive: Derive derive_event
  | is_session: Session session_event
  | is_policy: Policy policy_event
  | is_effect: Effect effect_event
  | is_adapter: Adapter adapter_event
  | is_evidence: Evidence evidence_event
  | is_closing: Closing closing_event

text \<open>Every event but an attempt to reach a provider with an action.\<close>

fun quiet :: "event \<Rightarrow> bool" where
  "quiet (Adapter (Dispatched a t d)) = False"
| "quiet _ = True"

lemma quiet_kinds [simp]:
  "\<not> is_adapter ev \<Longrightarrow> quiet ev"
  by (cases ev) simp_all

end
