(* ===== verification/RunPorts.thy ===== *)
theory RunPorts
  imports RunTypes
begin

text \<open>
  The dependencies of the revenue orchestrator (\<open>contracts/ports.ts\<close> and the constructor of
  \<open>RevenueOrchestrator\<close>) and one program per call of a port: it asks the port, given all events of the
  run so far, and records the call with its answer. Every call of the orchestrator goes through one of
  these programs. \<open>emits\<close> says which kinds of event a program can add; its rules carry the frame
  arguments of the later theories.
\<close>

text \<open>\<open>rs_chain\<close> is the mutable \<open>EvidenceChain\<close> of the run, \<open>rs_journal\<close> its own stage journal.\<close>

record run_state =
  rs_events :: "event list"
  rs_journal :: "stage list"
  rs_chain :: string

type_synonym 'a run = "(run_state, 'a) prog"

type_synonym 'a port = "event list \<Rightarrow> 'a"

text \<open>
  The optional dependencies are options. \<open>or_journal_taken\<close>: \<open>this.journal\<close>, a field of the shared
  orchestrator, belongs meanwhile to another run, whose stages are the answer; \<open>or_stamp\<close> renders a
  clock reading as \<open>toISOString\<close> does. \<open>or_reports_duplicate\<close>: the message of a failure says that a row
  already exists (texts are not part of a \<^typ>\<open>failure\<close>).
\<close>

record orchestrator =
  or_runtime :: runtime
  or_worker_id :: string
  or_now :: "int port"
  or_stamp :: "int \<Rightarrow> string"
  or_uuid :: "string port"
  or_journal_taken :: "stage list option port"
  or_acquireLease :: "(string \<Rightarrow> string \<Rightarrow> string \<Rightarrow> bool result) port"
  or_releaseLease :: "(string \<Rightarrow> string \<Rightarrow> string \<Rightarrow> unit result) port"
  or_assertExecutionLease :: "(string \<Rightarrow> string \<Rightarrow> unit result) port option"
  or_reports_duplicate :: "failure \<Rightarrow> bool"
  or_createTask :: "(string \<Rightarrow> string \<Rightarrow> string \<Rightarrow> unit result) port"
  or_getTask :: "(string \<Rightarrow> string \<Rightarrow> task_view option result) port"
  or_transitionTask :: "(string \<Rightarrow> string \<Rightarrow> task_state \<Rightarrow> payload_write option \<Rightarrow> write_fence \<Rightarrow> unit result) port"
  or_updateTaskProgress :: "(string \<Rightarrow> string \<Rightarrow> jnum \<Rightarrow> progress \<Rightarrow> unit result) port"
  or_pauseForApproval :: "(string \<Rightarrow> string \<Rightarrow> pause_order \<Rightarrow> string result) port"
  or_claimApprovalAndResume :: "(claim_request \<Rightarrow> bool result) port"
  or_recordFailure :: "(string \<Rightarrow> string \<Rightarrow> retry_class \<Rightarrow> string \<Rightarrow> unit result) port"
  or_clearHandoffEvidence :: "(string \<Rightarrow> string \<Rightarrow> int \<Rightarrow> json \<Rightarrow> unit result) port"
  or_nextAttemptOrdinal :: "(string \<Rightarrow> string \<Rightarrow> int result) port option"
  or_appendStage :: "(string \<Rightarrow> string \<Rightarrow> int \<Rightarrow> jnum \<Rightarrow> stage \<Rightarrow> unit result) port"
  or_hydrateContext :: "(string \<Rightarrow> json \<Rightarrow> string \<Rightarrow> hydrated_context result) port"
  or_isTakenOver :: "(string \<Rightarrow> string \<Rightarrow> bool result) port"
  or_returnToAgent :: "(string \<Rightarrow> string \<Rightarrow> string \<Rightarrow> unit result) port"
  or_deriveHypothesis :: "(json \<Rightarrow> json \<Rightarrow> hypothesis_record result) port"
  or_resolveRouting :: "(json \<Rightarrow> json \<Rightarrow> json \<Rightarrow> routing_decision result) port"
  or_formulatePlan :: "(json \<Rightarrow> json \<Rightarrow> json \<Rightarrow> execution_plan result) port"
  or_validateAction :: "(action_draft \<Rightarrow> json \<Rightarrow> action_draft result) port"
  or_evaluateAuthority :: "(action_draft \<Rightarrow> json \<Rightarrow> gate_result result) port"
  or_computeEffectKey :: "effect_key_input \<Rightarrow> string result"
  or_computeRequestFingerprint :: "jobject \<Rightarrow> string result"
  or_reserve :: "(reserve_input \<Rightarrow> reservation_outcome result) port"
  or_resolve :: "(string \<Rightarrow> string \<Rightarrow> reservation_status \<Rightarrow> json \<Rightarrow> unit result) port"
  or_reopenForRetry :: "(string \<Rightarrow> string \<Rightarrow> bool result) port option"
  or_dispatch :: "(action_draft \<Rightarrow> jnum \<Rightarrow> provider_answer) port"
  or_reconcile :: "(action_draft \<Rightarrow> (reconciliation_status \<times> json) result) port option"
  or_createImmutableRecord :: "(record_params \<Rightarrow> step_evidence result) port"
  or_findImmutableRecord :: "(string \<Rightarrow> string \<Rightarrow> string \<Rightarrow> jnum \<Rightarrow> step_evidence option result) port option"
  or_findImmutableRecordByStep :: "(string \<Rightarrow> string \<Rightarrow> jnum \<Rightarrow> step_evidence option result) port option"
  or_initializeOutcomeWatch :: "(string \<Rightarrow> string \<Rightarrow> string \<Rightarrow> string \<Rightarrow> unit result) port"
  or_logAgentRun :: "(run_log \<Rightarrow> unit result) port"
  or_appendAudit :: "(run_log \<Rightarrow> unit result) port"
  or_resolveInputs :: "(planned_step \<Rightarrow> (string \<times> jobject) list \<Rightarrow> json \<Rightarrow> json result) port option"
  or_admitHandoff :: "(handoff_draft \<Rightarrow> handoff_admission result) port option"
  or_finalize :: "(string option \<Rightarrow> string \<Rightarrow> json \<Rightarrow> (step_evidence \<times> jobject) list \<Rightarrow> json result) port option"
  or_readResponse :: "(string \<Rightarrow> string \<Rightarrow> json option result) port option"
  or_saveResponse :: "(string \<Rightarrow> string \<Rightarrow> string option \<Rightarrow> string \<Rightarrow> json \<Rightarrow> unit result) port"

text \<open>
  \<open>or_nextAttemptOrdinal\<close> is bound iff a stage recorder is (\<open>or_appendStage\<close> is its other method), and
  \<open>or_readResponse\<close> iff a response store is.
\<close>

definition port :: "'a result port \<Rightarrow> ('a result \<Rightarrow> event) \<Rightarrow> 'a run" where
  "port f ev = (\<lambda>s. let r = f (rs_events s) in (r, s\<lparr>rs_events := ev r # rs_events s\<rparr>))"

definition add_event :: "event \<Rightarrow> unit run" where
  "add_event ev = modify (rs_events_update ((#) ev))"

definition reading :: "'a port \<Rightarrow> 'a run" where
  "reading f = look (\<lambda>s. f (rs_events s))"

subsection \<open>What a program adds to the history\<close>

definition emits :: "(event \<Rightarrow> bool) \<Rightarrow> 'a run \<Rightarrow> bool" where
  "emits K m \<longleftrightarrow> (\<forall>s. \<exists>new. rs_events (snd (m s)) = new @ rs_events s \<and> list_all K new)"

named_theorems emits_rules \<open>which events a program can add\<close>

lemma emitsI: "(\<And>s. \<exists>new. rs_events (snd (m s)) = new @ rs_events s \<and> list_all K new) \<Longrightarrow> emits K m"
  by (simp add: emits_def)

lemma emitsD:
  assumes "emits K m"
  obtains new where "rs_events (snd (m s)) = new @ rs_events s" "list_all K new"
  using assms by (auto simp: emits_def)

lemma emits_nothing: "(\<And>s. rs_events (snd (m s)) = rs_events s) \<Longrightarrow> emits K m"
  by (rule emitsI) (auto intro: exI [of _ "[]"])

lemma emits_mono: "emits K m \<Longrightarrow> (\<And>e. K e \<Longrightarrow> L e) \<Longrightarrow> emits L m"
  unfolding emits_def by (meson list_all_iff)

lemma emits_ret [emits_rules]: "emits K (ret x)"
  by (rule emits_nothing) (simp add: run_simps)

lemma emits_throw [emits_rules]: "emits K (throw e)"
  by (rule emits_nothing) (simp add: run_simps)

lemma emits_lift [emits_rules]: "emits K (lift r)"
  by (rule emits_nothing) (simp add: run_simps)

lemma emits_look [emits_rules]: "emits K (look f)"
  by (rule emits_nothing) (simp add: run_simps)

lemma emits_reading [emits_rules]: "emits K (reading f)"
  unfolding reading_def by (rule emits_look)

lemma emits_chain [emits_rules]: "emits K (modify (rs_chain_update f))"
  by (rule emits_nothing) (simp add: run_simps)

lemma emits_journal [emits_rules]: "emits K (modify (rs_journal_update f))"
  by (rule emits_nothing) (simp add: run_simps)

lemma emits_guard [emits_rules]: "emits K (guard_that ok code)"
  by (simp add: guard_that_def emits_ret emits_throw)

lemma emits_port: "(\<And>r. K (ev r)) \<Longrightarrow> emits K (port f ev)"
  by (rule emitsI) (auto simp: port_def Let_def intro!: exI [of _ "[_]"])

lemma emits_add_event: "K ev \<Longrightarrow> emits K (add_event ev)"
  by (rule emitsI) (auto simp: add_event_def run_simps intro!: exI [of _ "[_]"])

lemma emits_step:
  "emits K m \<Longrightarrow> (\<And>x t. \<exists>new. rs_events (snd (f x t)) = new @ rs_events t \<and> list_all K new) \<Longrightarrow>
   \<exists>new. rs_events (snd (f (fst (m s)) (snd (m s)))) = new @ rs_events s \<and> list_all K new"
proof -
  assume m: "emits K m" and f: "\<And>x t. \<exists>new. rs_events (snd (f x t)) = new @ rs_events t \<and> list_all K new"
  obtain a where "rs_events (snd (m s)) = a @ rs_events s" "list_all K a" using m by (rule emitsD)
  moreover obtain b where "rs_events (snd (f (fst (m s)) (snd (m s)))) = b @ rs_events (snd (m s))" "list_all K b"
    using f by blast
  ultimately show ?thesis by (intro exI [of _ "b @ a"]) simp
qed

lemma emits_bind [emits_rules]:
  assumes "emits K m" and "\<And>x. emits K (f x)"
  shows "emits K (bind m f)"
proof (rule emitsI)
  fix s
  let ?g = "\<lambda>r. case r of Inl e \<Rightarrow> Pair (Inl e) | Inr x \<Rightarrow> f x"
  have eq: "bind m f s = ?g (fst (m s)) (snd (m s))"
    by (auto simp: bind_def split: prod.split sum.split)
  have "\<exists>new. rs_events (snd (?g x t)) = new @ rs_events t \<and> list_all K new" for x t
    using assms(2) by (cases x) (auto simp: emits_def)
  then show "\<exists>new. rs_events (snd (bind m f s)) = new @ rs_events s \<and> list_all K new"
    unfolding eq by (rule emits_step [OF assms(1)])
qed

lemma emits_catch [emits_rules]:
  assumes "emits K m" and "\<And>e. emits K (h e)"
  shows "emits K (catch m h)"
proof (rule emitsI)
  fix s
  let ?g = "\<lambda>r. case r of Inl e \<Rightarrow> h e | Inr x \<Rightarrow> Pair (Inr x)"
  have eq: "catch m h s = ?g (fst (m s)) (snd (m s))"
    by (auto simp: catch_def split: prod.split sum.split)
  have "\<exists>new. rs_events (snd (?g x t)) = new @ rs_events t \<and> list_all K new" for x t
    using assms(2) by (cases x) (auto simp: emits_def)
  then show "\<exists>new. rs_events (snd (catch m h s)) = new @ rs_events s \<and> list_all K new"
    unfolding eq by (rule emits_step [OF assms(1)])
qed

lemma emits_finally [emits_rules]:
  assumes "emits K m" and "emits K c"
  shows "emits K (finally_do m c)"
proof (rule emitsI)
  fix s
  have "rs_events (snd (finally_do m c s)) = rs_events (snd (c (snd (m s))))"
    by (auto simp: finally_do_def split: prod.split sum.split)
  then show "\<exists>new. rs_events (snd (finally_do m c s)) = new @ rs_events s \<and> list_all K new"
    using emits_step [OF assms(1), of "\<lambda>_. c" s] assms(2) by (simp add: emits_def)
qed

lemma emits_perform_if [emits_rules]: "(c \<Longrightarrow> emits K m) \<Longrightarrow> emits K (perform_if c m)"
  by (simp add: perform_if_def emits_ret)

lemma emits_if [emits_rules]: "(c \<Longrightarrow> emits K m) \<Longrightarrow> (\<not> c \<Longrightarrow> emits K n) \<Longrightarrow> emits K (if c then m else n)"
  by simp

lemma emits_option [emits_rules]:
  "(v = None \<Longrightarrow> emits K m) \<Longrightarrow> (\<And>x. v = Some x \<Longrightarrow> emits K (f x)) \<Longrightarrow>
   emits K (case v of None \<Rightarrow> m | Some x \<Rightarrow> f x)"
  by (cases v) simp_all

lemma emits_sum [emits_rules]:
  "(\<And>x. v = Inl x \<Longrightarrow> emits K (f x)) \<Longrightarrow> (\<And>x. v = Inr x \<Longrightarrow> emits K (g x)) \<Longrightarrow>
   emits K (case v of Inl x \<Rightarrow> f x | Inr x \<Rightarrow> g x)"
  by (cases v) simp_all

lemma emits_prod [emits_rules]:
  "(\<And>a b. v = (a, b) \<Longrightarrow> emits K (f a b)) \<Longrightarrow> emits K (case v of (a, b) \<Rightarrow> f a b)"
  by (cases v) simp

text \<open>What a program keeps of an assertion about the history that its events do not disturb.\<close>

lemma keeps_emits:
  assumes "emits K m" and "\<And>ev es. K ev \<Longrightarrow> P es \<Longrightarrow> P (ev # es)"
  shows "keeps (\<lambda>s. P (rs_events s)) m"
proof (rule keepsI)
  fix s :: run_state
  assume P: "P (rs_events s)"
  obtain new where new: "rs_events (snd (m s)) = new @ rs_events s" "list_all K new"
    using assms(1) by (rule emitsD)
  from new(2) have "P (new @ rs_events s)"
    by (induction new) (use P assms(2) in auto)
  with new(1) show "P (rs_events (snd (m s)))" by simp
qed

subsection \<open>Calls\<close>

named_theorems emits_calls \<open>the event of each call\<close>

text \<open>\<open>await port?.method(...)\<close>: an unbound port is not called.\<close>

definition do_acquireLease :: "orchestrator \<Rightarrow> string \<Rightarrow> string \<Rightarrow> string \<Rightarrow> bool run" where
  "do_acquireLease e t r w =
     port (\<lambda>h. or_acquireLease e h t r w) (\<lambda>x. Lease (LeaseAcquired t r w x))"

definition do_releaseLease :: "orchestrator \<Rightarrow> string \<Rightarrow> string \<Rightarrow> string \<Rightarrow> unit run" where
  "do_releaseLease e t r w =
     port (\<lambda>h. or_releaseLease e h t r w) (\<lambda>x. Lease (LeaseReleased t r w x))"

definition do_assertExecutionLease :: "orchestrator \<Rightarrow> string \<Rightarrow> string \<Rightarrow> unit run" where
  "do_assertExecutionLease e t r =
     (case or_assertExecutionLease e of None \<Rightarrow> ret () | Some f \<Rightarrow>
     port (\<lambda>h. f h t r) (\<lambda>x. Lease (LeaseAsserted t r x)))"

definition do_createTask :: "orchestrator \<Rightarrow> string \<Rightarrow> string \<Rightarrow> string \<Rightarrow> unit run" where
  "do_createTask e t r c =
     port (\<lambda>h. or_createTask e h t r c) (\<lambda>x. Task (TaskCreated t r c x))"

definition do_getTask :: "orchestrator \<Rightarrow> string \<Rightarrow> string \<Rightarrow> (task_view option) run" where
  "do_getTask e t r =
     port (\<lambda>h. or_getTask e h t r) (\<lambda>x. Task (TaskRead t r x))"

definition do_transitionTask :: "orchestrator \<Rightarrow> string \<Rightarrow> string \<Rightarrow> task_state \<Rightarrow> payload_write option \<Rightarrow> write_fence \<Rightarrow> unit run" where
  "do_transitionTask e t r st c g =
     port (\<lambda>h. or_transitionTask e h t r st c g) (\<lambda>x. Task (TaskMoved t r st c g x))"

definition do_updateTaskProgress :: "orchestrator \<Rightarrow> string \<Rightarrow> string \<Rightarrow> jnum \<Rightarrow> progress \<Rightarrow> unit run" where
  "do_updateTaskProgress e t r n p =
     port (\<lambda>h. or_updateTaskProgress e h t r n p) (\<lambda>x. Task (TaskProgressed t r n p x))"

definition do_pauseForApproval :: "orchestrator \<Rightarrow> string \<Rightarrow> string \<Rightarrow> pause_order \<Rightarrow> string run" where
  "do_pauseForApproval e t r p =
     port (\<lambda>h. or_pauseForApproval e h t r p) (\<lambda>x. Task (TaskPaused t r p x))"

definition do_claimApprovalAndResume :: "orchestrator \<Rightarrow> claim_request \<Rightarrow> bool run" where
  "do_claimApprovalAndResume e q =
     port (\<lambda>h. or_claimApprovalAndResume e h q) (\<lambda>x. Task (TaskClaimed q x))"

definition do_recordFailure :: "orchestrator \<Rightarrow> string \<Rightarrow> string \<Rightarrow> retry_class \<Rightarrow> string \<Rightarrow> unit run" where
  "do_recordFailure e t r k c =
     port (\<lambda>h. or_recordFailure e h t r k c) (\<lambda>x. Task (FailureRecorded t r k c x))"

definition do_clearHandoffEvidence :: "orchestrator \<Rightarrow> string \<Rightarrow> string \<Rightarrow> int \<Rightarrow> json \<Rightarrow> unit run" where
  "do_clearHandoffEvidence e t r v j =
     port (\<lambda>h. or_clearHandoffEvidence e h t r v j) (\<lambda>x. Task (HandoffEvidenceCleared t r v j x))"

definition do_hydrateContext :: "orchestrator \<Rightarrow> string \<Rightarrow> json \<Rightarrow> string \<Rightarrow> hydrated_context run" where
  "do_hydrateContext e t j c =
     port (\<lambda>h. or_hydrateContext e h t j c) (\<lambda>x. Derive (ContextHydrated t j c x))"

definition do_isTakenOver :: "orchestrator \<Rightarrow> string \<Rightarrow> string \<Rightarrow> bool run" where
  "do_isTakenOver e t s =
     port (\<lambda>h. or_isTakenOver e h t s) (\<lambda>x. Session (TakeoverRead t s x))"

definition do_returnToAgent :: "orchestrator \<Rightarrow> string \<Rightarrow> string \<Rightarrow> string \<Rightarrow> unit run" where
  "do_returnToAgent e t s w =
     port (\<lambda>h. or_returnToAgent e h t s w) (\<lambda>x. Session (ReturnedToAgent t s w x))"

definition do_deriveHypothesis :: "orchestrator \<Rightarrow> json \<Rightarrow> json \<Rightarrow> hypothesis_record run" where
  "do_deriveHypothesis e i c =
     port (\<lambda>h. or_deriveHypothesis e h i c) (\<lambda>x. Derive (HypothesisDerived i c x))"

definition do_validateAction :: "orchestrator \<Rightarrow> action_draft \<Rightarrow> json \<Rightarrow> action_draft run" where
  "do_validateAction e a c =
     port (\<lambda>h. or_validateAction e h a c) (\<lambda>x. Policy (ActionValidated a x))"

definition do_evaluateAuthority :: "orchestrator \<Rightarrow> action_draft \<Rightarrow> json \<Rightarrow> gate_result run" where
  "do_evaluateAuthority e a c =
     port (\<lambda>h. or_evaluateAuthority e h a c) (\<lambda>x. Policy (AuthorityEvaluated a x))"

definition do_reserve :: "orchestrator \<Rightarrow> reserve_input \<Rightarrow> reservation_outcome run" where
  "do_reserve e i =
     port (\<lambda>h. or_reserve e h i) (\<lambda>x. Effect (EffectReserved i x))"

definition do_resolve :: "orchestrator \<Rightarrow> string \<Rightarrow> string \<Rightarrow> reservation_status \<Rightarrow> json \<Rightarrow> unit run" where
  "do_resolve e t k st rc =
     port (\<lambda>h. or_resolve e h t k st rc) (\<lambda>x. Effect (EffectResolved t k st rc x))"

definition do_createImmutableRecord :: "orchestrator \<Rightarrow> record_params \<Rightarrow> step_evidence run" where
  "do_createImmutableRecord e p =
     port (\<lambda>h. or_createImmutableRecord e h p) (\<lambda>x. Evidence (EvidenceCreated p x))"

definition do_initializeOutcomeWatch :: "orchestrator \<Rightarrow> string \<Rightarrow> string \<Rightarrow> string \<Rightarrow> string \<Rightarrow> unit run" where
  "do_initializeOutcomeWatch e t r k sk =
     port (\<lambda>h. or_initializeOutcomeWatch e h t r k sk) (\<lambda>x. Evidence (OutcomeWatched t r k sk x))"

definition do_logAgentRun :: "orchestrator \<Rightarrow> run_log \<Rightarrow> unit run" where
  "do_logAgentRun e l =
     port (\<lambda>h. or_logAgentRun e h l) (\<lambda>x. Evidence (RunLogged l x))"

definition do_appendAudit :: "orchestrator \<Rightarrow> run_log \<Rightarrow> unit run" where
  "do_appendAudit e l =
     port (\<lambda>h. or_appendAudit e h l) (\<lambda>x. Evidence (AuditAppended l x))"

text \<open>The two routing calls take the objects the earlier derivations produced.\<close>

definition do_resolveRouting :: "orchestrator \<Rightarrow> json \<Rightarrow> json \<Rightarrow> json \<Rightarrow> routing_decision run" where
  "do_resolveRouting e i c h =
     port (\<lambda>es. or_resolveRouting e es i c h) (\<lambda>x. Derive (RoutingResolved i c x))"

definition do_formulatePlan :: "orchestrator \<Rightarrow> json \<Rightarrow> json \<Rightarrow> json \<Rightarrow> execution_plan run" where
  "do_formulatePlan e ro c h =
     port (\<lambda>es. or_formulatePlan e es ro c h) (\<lambda>x. Derive (PlanFormulated ro c x))"

text \<open>The dispatcher is asked with the deadline of the step; the answer tells which comes first.\<close>

definition do_dispatch :: "orchestrator \<Rightarrow> action_draft \<Rightarrow> jnum \<Rightarrow> provider_answer run" where
  "do_dispatch e a timeout =
     (\<lambda>s. let d = or_dispatch e (rs_events s) a timeout
          in (Inr d, s\<lparr>rs_events := Adapter (Dispatched a timeout d) # rs_events s\<rparr>))"

lemma emits_acquireLease [emits_calls]: "(\<And>x. K (Lease (LeaseAcquired t r w x))) \<Longrightarrow> emits K (do_acquireLease e t r w)"
  by (simp add: do_acquireLease_def emits_port)

lemma emits_releaseLease [emits_calls]: "(\<And>x. K (Lease (LeaseReleased t r w x))) \<Longrightarrow> emits K (do_releaseLease e t r w)"
  by (simp add: do_releaseLease_def emits_port)

lemma emits_assertExecutionLease [emits_calls]: "(\<And>x. K (Lease (LeaseAsserted t r x))) \<Longrightarrow> emits K (do_assertExecutionLease e t r)"
  by (simp add: do_assertExecutionLease_def emits_port emits_ret split: option.split)

lemma emits_createTask [emits_calls]: "(\<And>x. K (Task (TaskCreated t r c x))) \<Longrightarrow> emits K (do_createTask e t r c)"
  by (simp add: do_createTask_def emits_port)

lemma emits_getTask [emits_calls]: "(\<And>x. K (Task (TaskRead t r x))) \<Longrightarrow> emits K (do_getTask e t r)"
  by (simp add: do_getTask_def emits_port)

lemma emits_transitionTask [emits_calls]: "(\<And>x. K (Task (TaskMoved t r st c g x))) \<Longrightarrow> emits K (do_transitionTask e t r st c g)"
  by (simp add: do_transitionTask_def emits_port)

lemma emits_updateTaskProgress [emits_calls]: "(\<And>x. K (Task (TaskProgressed t r n p x))) \<Longrightarrow> emits K (do_updateTaskProgress e t r n p)"
  by (simp add: do_updateTaskProgress_def emits_port)

lemma emits_pauseForApproval [emits_calls]: "(\<And>x. K (Task (TaskPaused t r p x))) \<Longrightarrow> emits K (do_pauseForApproval e t r p)"
  by (simp add: do_pauseForApproval_def emits_port)

lemma emits_claimApprovalAndResume [emits_calls]: "(\<And>x. K (Task (TaskClaimed q x))) \<Longrightarrow> emits K (do_claimApprovalAndResume e q)"
  by (simp add: do_claimApprovalAndResume_def emits_port)

lemma emits_recordFailure [emits_calls]: "(\<And>x. K (Task (FailureRecorded t r k c x))) \<Longrightarrow> emits K (do_recordFailure e t r k c)"
  by (simp add: do_recordFailure_def emits_port)

lemma emits_clearHandoffEvidence [emits_calls]: "(\<And>x. K (Task (HandoffEvidenceCleared t r v j x))) \<Longrightarrow> emits K (do_clearHandoffEvidence e t r v j)"
  by (simp add: do_clearHandoffEvidence_def emits_port)

lemma emits_hydrateContext [emits_calls]: "(\<And>x. K (Derive (ContextHydrated t j c x))) \<Longrightarrow> emits K (do_hydrateContext e t j c)"
  by (simp add: do_hydrateContext_def emits_port)

lemma emits_isTakenOver [emits_calls]: "(\<And>x. K (Session (TakeoverRead t s x))) \<Longrightarrow> emits K (do_isTakenOver e t s)"
  by (simp add: do_isTakenOver_def emits_port)

lemma emits_returnToAgent [emits_calls]: "(\<And>x. K (Session (ReturnedToAgent t s w x))) \<Longrightarrow> emits K (do_returnToAgent e t s w)"
  by (simp add: do_returnToAgent_def emits_port)

lemma emits_deriveHypothesis [emits_calls]: "(\<And>x. K (Derive (HypothesisDerived i c x))) \<Longrightarrow> emits K (do_deriveHypothesis e i c)"
  by (simp add: do_deriveHypothesis_def emits_port)

lemma emits_validateAction [emits_calls]: "(\<And>x. K (Policy (ActionValidated a x))) \<Longrightarrow> emits K (do_validateAction e a c)"
  by (simp add: do_validateAction_def emits_port)

lemma emits_evaluateAuthority [emits_calls]: "(\<And>x. K (Policy (AuthorityEvaluated a x))) \<Longrightarrow> emits K (do_evaluateAuthority e a c)"
  by (simp add: do_evaluateAuthority_def emits_port)

lemma emits_reserve [emits_calls]: "(\<And>x. K (Effect (EffectReserved i x))) \<Longrightarrow> emits K (do_reserve e i)"
  by (simp add: do_reserve_def emits_port)

lemma emits_resolve [emits_calls]: "(\<And>x. K (Effect (EffectResolved t k st rc x))) \<Longrightarrow> emits K (do_resolve e t k st rc)"
  by (simp add: do_resolve_def emits_port)

lemma emits_createImmutableRecord [emits_calls]: "(\<And>x. K (Evidence (EvidenceCreated p x))) \<Longrightarrow> emits K (do_createImmutableRecord e p)"
  by (simp add: do_createImmutableRecord_def emits_port)

lemma emits_initializeOutcomeWatch [emits_calls]: "(\<And>x. K (Evidence (OutcomeWatched t r k sk x))) \<Longrightarrow> emits K (do_initializeOutcomeWatch e t r k sk)"
  by (simp add: do_initializeOutcomeWatch_def emits_port)

lemma emits_logAgentRun [emits_calls]: "(\<And>x. K (Evidence (RunLogged l x))) \<Longrightarrow> emits K (do_logAgentRun e l)"
  by (simp add: do_logAgentRun_def emits_port)

lemma emits_appendAudit [emits_calls]: "(\<And>x. K (Evidence (AuditAppended l x))) \<Longrightarrow> emits K (do_appendAudit e l)"
  by (simp add: do_appendAudit_def emits_port)

lemma emits_resolveRouting [emits_calls]: "(\<And>x. K (Derive (RoutingResolved i c x))) \<Longrightarrow> emits K (do_resolveRouting e i c h)"
  by (simp add: do_resolveRouting_def emits_port)

lemma emits_formulatePlan [emits_calls]: "(\<And>x. K (Derive (PlanFormulated ro c x))) \<Longrightarrow> emits K (do_formulatePlan e ro c h)"
  by (simp add: do_formulatePlan_def emits_port)

lemma emits_dispatch [emits_calls]: "(\<And>d. K (Adapter (Dispatched a t d))) \<Longrightarrow> emits K (do_dispatch e a t)"
  by (rule emitsI) (auto simp: do_dispatch_def Let_def intro!: exI [of _ "[_]"])

end
