(* ===== verification/CheckpointGuards.thy ===== *)
theory CheckpointGuards
  imports RunPorts
begin

text \<open>
  The pure guards of the run engine (\<open>packages/core-engine/src/orchestrator/checkpoint-guards.ts\<close>): the
  validation of receipt bindings, checkpoints and signals, the floor price, and the classification of a
  failure. What an accepted plan promises is stated at the end.
\<close>

subsection \<open>Cursors\<close>

text \<open>\<open>Math.max\<close>.\<close>

definition num_max :: "jnum \<Rightarrow> jnum \<Rightarrow> jnum" where
  "num_max a b = (if a = NaN \<or> b = NaN then NaN else if num_less a b then b else a)"

definition nextStepCursor :: "execution_plan \<Rightarrow> jnum" where
  "nextStepCursor plan = succ_num (fold (\<lambda>step highest. num_max highest (ps_step_index step)) (ep_steps plan) (num 0))"

subsection \<open>Receipt bindings\<close>

definition isPlainJsonObject :: "json \<Rightarrow> bool" where
  "isPlainJsonObject v \<longleftrightarrow> as_record v \<noteq> None"

definition is_letter :: "char \<Rightarrow> bool" where
  "is_letter c \<longleftrightarrow> (CHR ''A'' \<le> c \<and> c \<le> CHR ''Z'') \<or> (CHR ''a'' \<le> c \<and> c \<le> CHR ''z'')"

definition is_digit :: "char \<Rightarrow> bool" where
  "is_digit c \<longleftrightarrow> CHR ''0'' \<le> c \<and> c \<le> CHR ''9''"

text \<open>\<open>[A-Za-z][A-Za-z0-9_]*\<close>\<close>

definition is_identifier :: "string \<Rightarrow> bool" where
  "is_identifier s \<longleftrightarrow> (case s of [] \<Rightarrow> False
     | c # cs \<Rightarrow> is_letter c \<and> list_all (\<lambda>x. is_letter x \<or> is_digit x \<or> x = CHR ''_'') cs)"

text \<open>\<open>0|[1-9][0-9]?\<close>\<close>

definition is_small_index :: "string \<Rightarrow> bool" where
  "is_small_index s \<longleftrightarrow> s = ''0'' \<or> (length s \<in> {1, 2} \<and> list_all is_digit s \<and> hd s \<noteq> CHR ''0'')"

text \<open>\<open>s.split('.')\<close>.\<close>

fun split_dots :: "string \<Rightarrow> string list" where
  "split_dots [] = [[]]"
| "split_dots (c # cs) =
    (if c = CHR ''.'' then [] # split_dots cs
     else case split_dots cs of [] \<Rightarrow> [[c]] | seg # segs \<Rightarrow> (c # seg) # segs)"

definition destinationPattern :: "string \<Rightarrow> bool" where
  "destinationPattern s \<longleftrightarrow> is_identifier s \<and> length s \<le> 64"

definition pathPattern :: "string \<Rightarrow> bool" where
  "pathPattern s \<longleftrightarrow> (case split_dots s of [] \<Rightarrow> False
     | seg # segs \<Rightarrow> is_identifier seg \<and> length segs \<le> 7 \<and> list_all (\<lambda>x. is_identifier x \<or> is_small_index x) segs)"

definition protectedDestinations :: "string list" where
  "protectedDestinations =
    [''tenant_id'', ''run_id'', ''request_id'', ''action_id'', ''agent_id'', ''skill_id'',
     ''adapter_target'', ''step_index'', ''mutating'', ''price_bearing'',
     ''required_authority'', ''action_revision'', ''effect_key'']"

text \<open>\<open>positions.get(index)\<close>: where in the plan the step with this index stands.\<close>

fun position :: "planned_step list \<Rightarrow> jnum \<Rightarrow> nat option" where
  "position [] n = None"
| "position (s # ss) n = (if ps_step_index s = n then Some 0 else map_option Suc (position ss n))"

fun indexes_valid :: "planned_step list \<Rightarrow> jnum list \<Rightarrow> bool" where
  "indexes_valid [] seen = True"
| "indexes_valid (s # ss) seen =
    (is_integer (ps_step_index s) \<and> \<not> num_less (ps_step_index s) (num 1) \<and> ps_step_index s \<notin> set seen
     \<and> indexes_valid ss (ps_step_index s # seen))"

definition binding_invalid :: "'a result" where
  "binding_invalid = Inl (OrchestratorError ''INPUT_BINDING_INVALID'')"

definition earlier_dependency :: "planned_step list \<Rightarrow> planned_step \<Rightarrow> json \<Rightarrow> bool" where
  "earlier_dependency steps step source =
    (case source of
       JNum n \<Rightarrow> is_integer n \<and> \<not> num_less n (num 1)
         \<and> (case (position steps n, position steps (ps_step_index step)) of
              (Some i, Some j) \<Rightarrow> i < j | _ \<Rightarrow> False)
         \<and> num_less n (ps_step_index step)
         \<and> (case ps_depends_on_steps step of None \<Rightarrow> False | Some ds \<Rightarrow> n \<in> set ds)
     | _ \<Rightarrow> False)"

definition validate_binding :: "planned_step list \<Rightarrow> planned_step \<Rightarrow> string \<times> json \<Rightarrow> unit result" where
  "validate_binding steps step b =
    (case b of (destination, rawBinding) \<Rightarrow>
     if \<not> destinationPattern destination \<or> destination \<in> set protectedDestinations \<or> \<not> isPlainJsonObject rawBinding
     then binding_invalid
     else case as_record rawBinding of None \<Rightarrow> binding_invalid | Some o1 \<Rightarrow>
       if sort (map fst o1) \<noteq> [''response_path'', ''source_step_index''] then binding_invalid
       else if \<not> earlier_dependency steps step (member o1 ''source_step_index'')
         \<or> (case member o1 ''response_path'' of JStr p \<Rightarrow> \<not> pathPattern p | _ \<Rightarrow> True)
       then binding_invalid else Inr ())"

definition validate_step_bindings :: "planned_step list \<Rightarrow> planned_step \<Rightarrow> unit result" where
  "validate_step_bindings steps step =
    (case ps_input_bindings step of None \<Rightarrow> Inr ()
     | Some v \<Rightarrow> (case as_record v of None \<Rightarrow> binding_invalid | Some bs \<Rightarrow> each (validate_binding steps step) bs))"

text \<open>\<open>None\<close>: \<open>plan.steps\<close> is no array.\<close>

definition validatePlanInputBindings :: "planned_step list option \<Rightarrow> unit result" where
  "validatePlanInputBindings plan_steps =
    (case plan_steps of
       None \<Rightarrow> Inl (OrchestratorError ''INPUT_BINDING_PLAN_INVALID'')
     | Some steps \<Rightarrow>
         if \<not> list_ex (\<lambda>s. ps_input_bindings s \<noteq> None) steps then Inr ()
         else if \<not> indexes_valid steps [] then Inl (OrchestratorError ''INPUT_BINDING_STEP_INVALID'')
         else each (validate_step_bindings steps) steps)"

subsection \<open>Checkpoints and signals\<close>

definition readCompleteResumeCheckpoint :: "task_payload \<Rightarrow> task_checkpoint result" where
  "readCompleteResumeCheckpoint value =
    (case value of NoObject \<Rightarrow> Inl (OrchestratorError ''CHECKPOINT_INCOMPLETE'') | Stored t \<Rightarrow>
     (case (st_plan t, st_current_step t, st_pending_action t, st_context t, st_previous t, st_request_id t) of
        (Held plan, Some n, pending, Held context, JStr hash, JStr request) \<Rightarrow>
          if \<not> is_integer n \<or> num_less n (num 1) \<or> pending = Absent \<or> pending = Junk
             \<or> \<not> isSha256Hex hash \<or> blank request
          then Inl (OrchestratorError ''CHECKPOINT_INCOMPLETE'')
          else Inr \<lparr>ck_signal = st_signal t, ck_plan = plan, ck_current_step = n,
            ck_pending_action = (case pending of Held a \<Rightarrow> Some a | _ \<Rightarrow> None), ck_context = context,
            ck_previous = hash, ck_request_id = request\<rparr>
      | _ \<Rightarrow> Inl (OrchestratorError ''CHECKPOINT_INCOMPLETE'')))"

text \<open>\<open>/^[0-9a-f]{8}-[0-9a-f]{4}-[0-9a-f]{4}-[0-9a-f]{4}-[0-9a-f]{12}$/i\<close>\<close>

definition is_hex_letter :: "char \<Rightarrow> bool" where
  "is_hex_letter c \<longleftrightarrow> is_digit c \<or> (CHR ''a'' \<le> c \<and> c \<le> CHR ''f'') \<or> (CHR ''A'' \<le> c \<and> c \<le> CHR ''F'')"

definition is_uuid :: "string \<Rightarrow> bool" where
  "is_uuid s \<longleftrightarrow> length s = 36
     \<and> list_all (\<lambda>i. if i \<in> {8, 13, 18, 23} then s ! i = CHR ''-'' else is_hex_letter (s ! i)) [0..<36]"

definition validateSignalEnvelope :: "signal_envelope \<Rightarrow> unit result" where
  "validateSignalEnvelope sig =
    (if \<not> is_uuid (sg_tenant_id sig) then Inl (OrchestratorError ''INVALID_TENANT_ID'')
     else if sg_signal_id sig = [] \<or> sg_correlation_id sig = [] \<or> sg_source_channel sig = []
     then Inl (OrchestratorError ''INVALID_SIGNAL'')
     else if (case sg_subject sig of None \<Rightarrow> True | Some sub \<Rightarrow> ss_session_id sub = [])
     then Inl (OrchestratorError ''INVALID_SESSION'') else Inr ())"

definition enforceEpistemicSeparation :: "hypothesis_record \<Rightarrow> unit result" where
  "enforceEpistemicSeparation h =
    (if hy_classification h \<noteq> ''HYPOTHESIS'' then Inl (OrchestratorError ''SECURITY_VIOLATION'') else Inr ())"

subsection \<open>Floor price\<close>

definition payload_price_bearing :: "action_draft \<Rightarrow> bool" where
  "payload_price_bearing a \<longleftrightarrow>
     member (ac_payload a) ''price_bearing'' = JBool True
     \<or> member (ac_payload a) ''offer_id'' \<noteq> JUndef
     \<or> member (ac_payload a) ''discount_amount'' \<noteq> JUndef
     \<or> member (ac_payload a) ''discount_percent'' \<noteq> JUndef
     \<or> ac_proposed_price a \<noteq> None"

definition verifyFloorPrice :: "action_draft \<Rightarrow> unit result" where
  "verifyFloorPrice a =
    (if \<not> ac_price_bearing a \<and> \<not> payload_price_bearing a then Inr ()
     else case (ac_proposed_price a, ac_computed_price_floor a) of
       (Some proposed, Some price_floor) \<Rightarrow>
         if \<not> is_finite proposed \<or> \<not> is_finite price_floor
            \<or> (case ac_floor_source a of None \<Rightarrow> True | Some src \<Rightarrow> trim src = [])
         then Inl (OrchestratorError ''P_FLOOR_UNAVAILABLE'')
         else if num_less proposed price_floor then Inl (OrchestratorError ''ERR_FLOOR_PRICE_VIOLATION'')
         else Inr ()
     | _ \<Rightarrow> Inl (OrchestratorError ''P_FLOOR_UNAVAILABLE''))"

subsection \<open>Failures\<close>

definition orchestrator_classifyFailure :: "failure \<Rightarrow> retry_class" where
  "orchestrator_classifyFailure e =
    (case e of
       OrchestratorError code \<Rightarrow>
         if code \<in> {''DISPATCH_TIMEOUT'', ''PROVIDER_INDETERMINATE'', ''EFFECT_UNKNOWN''} then UNKNOWN
         else if code \<in> {''PROVIDER_RATE_LIMITED'', ''PROVIDER_UNAVAILABLE'', ''CONCURRENT_TASK_LOCK''} then RETRYABLE
         else FATAL
     | _ \<Rightarrow> FATAL)"

text \<open>The member \<open>code\<close> of \<open>serializeError\<close>.\<close>

definition error_code :: "failure \<Rightarrow> string" where
  "error_code e = (case e of OrchestratorError code \<Rightarrow> code | _ \<Rightarrow> ''UNCLASSIFIED'')"

subsection \<open>What the guards promise\<close>

lemma each_Inr_iff: "each f xs = Inr () \<longleftrightarrow> (\<forall>x \<in> set xs. f x = Inr ())"
  by (induction xs) (auto simp: andThen_Inr_iff)

lemma position_Some: "position steps n = Some i \<Longrightarrow> i < length steps \<and> ps_step_index (steps ! i) = n"
  by (induction steps arbitrary: i) (auto split: if_splits)

lemma split_dots_segments: "length (split_dots s) = Suc (length (filter (\<lambda>c. c = CHR ''.'') s))"
  by (induction s) (auto split: list.split)

text \<open>What a receipt binding of an accepted plan refers to.\<close>

definition binding_grounded :: "planned_step list \<Rightarrow> planned_step \<Rightarrow> string \<times> json \<Rightarrow> bool" where
  "binding_grounded steps step b \<longleftrightarrow>
     (\<exists>o1 n p i j. snd b = JObj o1 \<and> member o1 ''source_step_index'' = JNum n \<and> member o1 ''response_path'' = JStr p
       \<and> i < j \<and> j < length steps \<and> ps_step_index (steps ! i) = n
       \<and> ps_step_index (steps ! j) = ps_step_index step \<and> num_less n (ps_step_index step)
       \<and> (\<exists>ds. ps_depends_on_steps step = Some ds \<and> n \<in> set ds)
       \<and> fst b \<notin> set protectedDestinations
       \<and> length (filter (\<lambda>c. c = CHR ''.'') p) \<le> 7)"

lemma validated_binding:
  assumes "validate_binding steps step b = Inr ()"
  shows "binding_grounded steps step b"
proof -
  obtain d raw where b: "b = (d, raw)" by force
  obtain o1 where o1: "raw = JObj o1" and d: "d \<notin> set protectedDestinations"
    and dep: "earlier_dependency steps step (member o1 ''source_step_index'')"
    and path: "case member o1 ''response_path'' of JStr p \<Rightarrow> pathPattern p | _ \<Rightarrow> False"
    using assms b
    by (auto simp: validate_binding_def binding_invalid_def isPlainJsonObject_def split: if_splits option.splits
        json.splits elim!: as_record.elims)
  obtain p where p: "member o1 ''response_path'' = JStr p" "pathPattern p"
    using path by (auto split: json.splits)
  then have seven: "length (filter (\<lambda>c. c = CHR ''.'') p) \<le> 7"
    using split_dots_segments [of p] by (auto simp: pathPattern_def split: list.splits)
  obtain n i j ds where "member o1 ''source_step_index'' = JNum n" "position steps n = Some i"
    "position steps (ps_step_index step) = Some j" "i < j" "num_less n (ps_step_index step)"
    "ps_depends_on_steps step = Some ds" "n \<in> set ds"
    using dep by (auto simp: earlier_dependency_def split: json.splits option.splits)
  then show ?thesis
    using b o1 d p seven position_Some [of steps n i] position_Some [of steps "ps_step_index step" j]
    unfolding binding_grounded_def by auto
qed

text \<open>
  C39: in a plan whose receipt bindings are accepted, every binding reads an earlier step that its step
  declares as a dependency, by a path of at most eight segments, and never writes an identity or policy
  field of the action.
\<close>

theorem accepted_bindings_point_back:
  assumes "validatePlanInputBindings (Some steps) = Inr ()"
    and "step \<in> set steps" and "ps_input_bindings step = Some (JObj bs)" and "b \<in> set bs"
  shows "binding_grounded steps step b"
proof -
  have "list_ex (\<lambda>s. ps_input_bindings s \<noteq> None) steps" using assms(2,3) by (auto simp: list_ex_iff)
  then have "each (validate_step_bindings steps) steps = Inr ()"
    using assms(1) by (auto simp: validatePlanInputBindings_def split: if_splits)
  then have "validate_step_bindings steps step = Inr ()" using assms(2) by (simp add: each_Inr_iff)
  then have "validate_binding steps step b = Inr ()"
    using assms(3,4) by (simp add: validate_step_bindings_def each_Inr_iff)
  then show ?thesis by (rule validated_binding)
qed

definition bound_step :: "nat \<Rightarrow> nat list \<Rightarrow> json option \<Rightarrow> planned_step" where
  "bound_step i ds bindings = \<lparr>ps_step_index = num i, ps_agent_id = ''SAL-01'', ps_skill_id = ''crm.read'',
     ps_adapter_target = ''crm'', ps_input_parameters = [], ps_required_authority = AUTH1, ps_mutating = False,
     ps_price_bearing = False, ps_timeout_ms = num 3000, ps_depends_on_steps = Some (map num ds),
     ps_input_bindings = bindings, ps_computed_price_floor = None, ps_floor_source = None, ps_proposed_price = None\<rparr>"

definition example_binding :: json where
  "example_binding = JObj [(''source_step_index'', JNum (num 1)), (''response_path'', JStr ''order.id'')]"

theorem accepted_bindings_point_back_witness:
  "binding_grounded [bound_step 1 [] None, bound_step 2 [1] (Some (JObj [(''order_id'', example_binding)]))]
     (bound_step 2 [1] (Some (JObj [(''order_id'', example_binding)]))) (''order_id'', example_binding)"
proof (rule accepted_bindings_point_back [where bs = "[(''order_id'', example_binding)]"])
  show "validatePlanInputBindings
      (Some [bound_step 1 [] None, bound_step 2 [1] (Some (JObj [(''order_id'', example_binding)]))]) = Inr ()"
    by (simp add: bound_step_def example_binding_def validatePlanInputBindings_def validate_step_bindings_def
        validate_binding_def earlier_dependency_def num_def is_integer_def is_int_rat_def destinationPattern_def
        protectedDestinations_def isPlainJsonObject_def member_def pathPattern_def is_identifier_def is_letter_def
        is_digit_def is_small_index_def)
qed (simp_all add: bound_step_def)

end
