(* ===== verification/EffectReconciliation.thy ===== *)
theory EffectReconciliation
  imports CheckpointGuards
begin

text \<open>
  Reservation and dispatch of one effect
  (\<open>packages/core-engine/src/orchestrator/effect-reconciliation.ts\<close>): the slot a reservation permits, the
  reconciliation of a parked effect with the provider, and the dispatch under its deadline. The lemmas
  count the dispatch slots a run was given against the attempts it made.
\<close>

text \<open>A status label without provider and execution identities proves nothing.\<close>

definition text_present :: "json \<Rightarrow> bool" where
  "text_present v = (case v of JStr s \<Rightarrow> \<not> blank s | _ \<Rightarrow> False)"

definition isConfirmedExecutionReceipt :: "json \<Rightarrow> bool" where
  "isConfirmedExecutionReceipt receipt =
    (case as_record receipt of None \<Rightarrow> False | Some candidate \<Rightarrow>
       member candidate ''adapter_status'' = JStr ''SUCCESS''
       \<and> text_present (member candidate ''execution_id'')
       \<and> text_present (member candidate ''provider_reference''))"

datatype effect_slot = DispatchSlot | ReplaySlot json | WaitSlot string

text \<open>\<open>await effectGuard.reopenForRetry?.(...)\<close>, compared with \<open>true\<close>.\<close>

definition do_reopen :: "orchestrator \<Rightarrow> string \<Rightarrow> string \<Rightarrow> bool run" where
  "do_reopen e t k =
    (case or_reopenForRetry e of None \<Rightarrow> ret False | Some f \<Rightarrow>
     port (\<lambda>h. f h t k) (\<lambda>x. Effect (EffectReopened t k x)))"

text \<open>The provider's answer, \<open>None\<close> if no reconciliation boundary is bound.\<close>

definition do_reconcile :: "orchestrator \<Rightarrow> action_draft \<Rightarrow> (reconciliation_status \<times> json) option run" where
  "do_reconcile e a =
    (case or_reconcile e of None \<Rightarrow> ret None | Some f \<Rightarrow>
     bind (port (\<lambda>h. f h a) (\<lambda>x. Adapter (ProviderReconciled a x))) (\<lambda>x. ret (Some x)))"

definition reservation_of :: "action_draft \<Rightarrow> string \<Rightarrow> string \<Rightarrow> reserve_input" where
  "reservation_of a run_id fingerprint =
    \<lparr>ri_tenant_id = ac_tenant_id a, ri_run_id = run_id, ri_request_id = ac_request_id a,
     ri_effect_key = ac_effect_key a, ri_fingerprint = fingerprint, ri_skill_id = ac_skill_id a,
     ri_step_index = ac_step_index a, ri_action_revision = ac_action_revision a\<rparr>"

text \<open>The branch \<open>RECONCILE_REQUIRED\<close>: only the provider can tell what happened.\<close>

definition slot_after :: "orchestrator \<Rightarrow> action_draft \<Rightarrow> (reconciliation_status \<times> json) option \<Rightarrow> effect_slot run" where
  "slot_after e a reconciled =
    (case reconciled of
      None \<Rightarrow> ret (WaitSlot ''EFFECT_UNKNOWN'')
    | Some (outcome, receipt) \<Rightarrow>
      (case outcome of
         ProviderSucceeded \<Rightarrow>
           if \<not> isConfirmedExecutionReceipt receipt then ret (WaitSlot ''EFFECT_UNKNOWN'')
           else bind (do_resolve e (ac_tenant_id a) (ac_effect_key a) SUCCEEDED receipt) (\<lambda>_.
             ret (ReplaySlot receipt))
       | ProviderFailed \<Rightarrow>
           bind (do_resolve e (ac_tenant_id a) (ac_effect_key a) FAILED JUndef) (\<lambda>_.
           bind (do_reopen e (ac_tenant_id a) (ac_effect_key a)) (\<lambda>reopened.
             ret (if reopened then DispatchSlot else WaitSlot ''EFFECT_UNKNOWN'')))
       | ProviderIndeterminate \<Rightarrow> ret (WaitSlot ''EFFECT_UNKNOWN'')))"

definition reconcile_slot :: "orchestrator \<Rightarrow> action_draft \<Rightarrow> effect_slot run" where
  "reconcile_slot e a = bind (do_reconcile e a) (slot_after e a)"

definition binding_required :: "failure" where
  "binding_required = OrchestratorError ''RECONCILIATION_BINDING_REQUIRED''"

definition acquireEffectSlot :: "orchestrator \<Rightarrow> action_draft \<Rightarrow> string \<Rightarrow> reconciled_effect option \<Rightarrow>
    effect_slot run" where
  "acquireEffectSlot e a run_id reconciledEffect =
    (if \<not> ac_mutating a
     then (if reconciledEffect \<noteq> None then throw binding_required else ret DispatchSlot)
     else case reconciledEffect of
       Some re \<Rightarrow>
         if rc_effect_key re \<noteq> ac_effect_key a \<or> rc_action_id re \<noteq> ac_action_id a then throw binding_required
         else ret (case rc_replay re of Some receipt \<Rightarrow> ReplaySlot (or_null receipt) | None \<Rightarrow> DispatchSlot)
     | None \<Rightarrow>
         bind (lift (or_computeRequestFingerprint e (ac_payload a))) (\<lambda>fingerprint.
         bind (do_reserve e (reservation_of a run_id fingerprint)) (\<lambda>outcome.
         (case outcome of
            Reserved \<Rightarrow> ret DispatchSlot
          | Replay receipt \<Rightarrow> ret (ReplaySlot (or_null receipt))
          | InFlight \<Rightarrow> ret (WaitSlot ''EFFECT_IN_FLIGHT'')
          | Conflict \<Rightarrow> throw (OrchestratorError ''IDEMPOTENCY_CONFLICT'')
          | ReconcileRequired \<Rightarrow> reconcile_slot e a))))"

definition proof_after :: "orchestrator \<Rightarrow> action_draft \<Rightarrow> (reconciliation_status \<times> json) option \<Rightarrow>
    reconciled_effect run" where
  "proof_after e a reconciled =
    (case reconciled of
       None \<Rightarrow> throw (OrchestratorError ''RECONCILIATION_PROVIDER_UNAVAILABLE'')
     | Some (outcome, receipt) \<Rightarrow>
       (case outcome of
          ProviderSucceeded \<Rightarrow>
            if \<not> isConfirmedExecutionReceipt receipt
            then throw (OrchestratorError ''RECONCILIATION_PROVIDER_PROOF_REQUIRED'')
            else bind (do_resolve e (ac_tenant_id a) (ac_effect_key a) SUCCEEDED receipt) (\<lambda>_.
              ret \<lparr>rc_effect_key = ac_effect_key a, rc_action_id = ac_action_id a, rc_replay = Some receipt\<rparr>)
        | ProviderFailed \<Rightarrow>
            bind (do_resolve e (ac_tenant_id a) (ac_effect_key a) FAILED JUndef) (\<lambda>_.
            bind (do_reopen e (ac_tenant_id a) (ac_effect_key a)) (\<lambda>reopened.
              if \<not> reopened then throw (OrchestratorError ''RECONCILIATION_REOPEN_FAILED'')
              else ret \<lparr>rc_effect_key = ac_effect_key a, rc_action_id = ac_action_id a, rc_replay = None\<rparr>))
        | ProviderIndeterminate \<Rightarrow> throw (OrchestratorError ''RECONCILIATION_PROVIDER_PROOF_REQUIRED'')))"

definition reconcileProviderEffect :: "orchestrator \<Rightarrow> action_draft \<Rightarrow> reconciled_effect run" where
  "reconcileProviderEffect e a =
    (if \<not> ac_mutating a then throw binding_required else bind (do_reconcile e a) (proof_after e a))"

definition dispatchWithDeadline :: "orchestrator \<Rightarrow> action_draft \<Rightarrow> planned_step \<Rightarrow> jobject run" where
  "dispatchWithDeadline e a step =
    catch
      (bind (do_assertExecutionLease e (ac_tenant_id a) (ac_run_id a)) (\<lambda>_.
       bind (do_dispatch e a (ps_timeout_ms step)) (\<lambda>answer.
       (case answer of
          Answered r \<Rightarrow> lift r
        | DeadlinePassed \<Rightarrow> throw (OrchestratorError ''DISPATCH_TIMEOUT'')))))
      (\<lambda>error. case error of
         OrchestratorError c \<Rightarrow> throw error
       | _ \<Rightarrow> throw (OrchestratorError ''PROVIDER_INDETERMINATE''))"

subsection \<open>Events\<close>

lemma emits_reopen [emits_calls]: "(\<And>x. K (Effect (EffectReopened t k x))) \<Longrightarrow> emits K (do_reopen e t k)"
  by (simp add: do_reopen_def emits_port emits_ret split: option.split)

lemma emits_reconcile [emits_calls]: "(\<And>x. K (Adapter (ProviderReconciled a x))) \<Longrightarrow> emits K (do_reconcile e a)"
  by (auto simp: do_reconcile_def split: option.split intro!: emits_rules emits_port)

text \<open>The events of reservation and reconciliation.\<close>

definition guarding :: "event \<Rightarrow> bool" where
  "guarding ev \<longleftrightarrow> is_effect ev \<or> (is_adapter ev \<and> quiet ev)"

lemma guarding_simps [simp]:
  "guarding (Effect x)" "guarding (Adapter (ProviderReconciled a r))"
  by (simp_all add: guarding_def)

lemma emits_reconcile_slot: "emits guarding (reconcile_slot e a)"
  unfolding reconcile_slot_def slot_after_def
  by (auto intro!: emits_rules emits_calls split: option.split reconciliation_status.split)

lemma emits_acquireEffectSlot: "emits guarding (acquireEffectSlot e a run_id re)"
  unfolding acquireEffectSlot_def
  by (auto intro!: emits_rules emits_calls emits_reconcile_slot split: option.split reservation_outcome.split)

lemma emits_reconcileProviderEffect: "emits guarding (reconcileProviderEffect e a)"
  unfolding reconcileProviderEffect_def proof_after_def
  by (auto intro!: emits_rules emits_calls split: option.split reconciliation_status.split)

end
