(* ===== verification/RunRecords.thy ===== *)
theory RunRecords
  imports EffectReconciliation
begin

text \<open>
  The shared subroutines of \<open>RevenueOrchestrator\<close>
  (\<open>packages/core-engine/src/orchestrator/revenue-orchestrator.ts\<close>): entering a stage, reading verified
  receipts and resolving the inputs of a step from them, drafting an action, the run log, and parking
  a task with its checkpoint.
\<close>

definition type_error :: failure where
  "type_error = ThrownError ''TypeError''"

subsection \<open>Stages\<close>

definition enter_journal :: "stage \<Rightarrow> unit run" where
  "enter_journal st = (\<lambda>s. case journal_enter (rs_journal s) st of
     Inl err \<Rightarrow> (Inl err, s) | Inr j \<Rightarrow> (Inr (), s\<lparr>rs_journal := j\<rparr>))"

text \<open>\<open>enterStage\<close>: the journal of the asynchronous context, then the durable recorder.\<close>

definition enterStage :: "orchestrator \<Rightarrow> string \<Rightarrow> string \<Rightarrow> int \<Rightarrow> jnum \<Rightarrow> stage \<Rightarrow> unit run" where
  "enterStage e t r attempt step st =
    bind (enter_journal st) (\<lambda>_.
    (case or_nextAttemptOrdinal e of None \<Rightarrow> ret ()
     | Some _ \<Rightarrow> port (\<lambda>h. or_appendStage e h t r attempt step st) (\<lambda>x. Stage (StageRecorded t r attempt step st x))))"

text \<open>\<open>this.journal.enter(...)\<close> four times in a row, on a journal that may be another run's by now.\<close>

definition enter_shared_journal :: "orchestrator \<Rightarrow> stage list \<Rightarrow> unit run" where
  "enter_shared_journal e sts =
    bind (reading (or_journal_taken e)) (\<lambda>taken. case taken of
      None \<Rightarrow> (\<lambda>s. case journal_run (rs_journal s) sts of
        Inl err \<Rightarrow> (Inl err, s) | Inr j \<Rightarrow> (Inr (), s\<lparr>rs_journal := j\<rparr>))
    | Some other \<Rightarrow> bind (lift (journal_run other sts)) (\<lambda>j. add_event (Stage (OtherJournal j))))"

definition traceStage :: "orchestrator \<Rightarrow> string \<Rightarrow> string \<Rightarrow> int \<Rightarrow> jnum \<Rightarrow> stage \<Rightarrow> 'a run \<Rightarrow> 'a run" where
  "traceStage e t r attempt step st operation = bind (enterStage e t r attempt step st) (\<lambda>_. operation)"

text \<open>\<open>await recorder?.nextAttemptOrdinal(...) ?? otherwise\<close>\<close>

definition attempt_of :: "orchestrator \<Rightarrow> string \<Rightarrow> string \<Rightarrow> int \<Rightarrow> int run" where
  "attempt_of e t r otherwise =
    (case or_nextAttemptOrdinal e of None \<Rightarrow> ret otherwise
     | Some f \<Rightarrow> port (\<lambda>h. f h t r) (\<lambda>x. Stage (OrdinalRead t r x)))"

definition replayCommittedStages :: "task_checkpoint \<Rightarrow> unit run" where
  "replayCommittedStages c = (\<lambda>s.
     case journal_run (rs_journal s) (run_opening @ concat (replicate (ordinal (ck_current_step c) - 1) plan_step)) of
       Inl err \<Rightarrow> (Inl err, s) | Inr j \<Rightarrow> (Inr (), s\<lparr>rs_journal := j\<rparr>))"

subsection \<open>Verified receipts\<close>

definition find_step :: "execution_plan \<Rightarrow> jnum \<Rightarrow> planned_step option" where
  "find_step plan n = find (\<lambda>s. same_number (ps_step_index s) n) (ep_steps plan)"

definition plan_effect_key :: "orchestrator \<Rightarrow> string \<Rightarrow> planned_step \<Rightarrow> jnum \<Rightarrow> string \<Rightarrow> string result" where
  "plan_effect_key e t step revision request_id =
    or_computeEffectKey e \<lparr>ek_tenant_id = t, ek_skill_id = ps_skill_id step, ek_step_index = ps_step_index step,
      ek_action_revision = revision, ek_request_id = request_id\<rparr>"

definition find_by_effect :: "orchestrator \<Rightarrow> string \<Rightarrow> string \<Rightarrow> string \<Rightarrow> planned_step \<Rightarrow> step_evidence option run" where
  "find_by_effect e t r request_id step =
    (case or_findImmutableRecord e of None \<Rightarrow> ret None
     | Some f \<Rightarrow> bind (lift (plan_effect_key e t step (num 0) request_id)) (\<lambda>k.
         port (\<lambda>h. f h t r k (ps_step_index step)) (\<lambda>x. Evidence (EvidenceFound t r (Some k) (ps_step_index step) x))))"

definition find_by_step :: "orchestrator \<Rightarrow> string \<Rightarrow> string \<Rightarrow> planned_step \<Rightarrow> step_evidence option run" where
  "find_by_step e t r step =
    (case or_findImmutableRecordByStep e of None \<Rightarrow> ret None
     | Some f \<Rightarrow> port (\<lambda>h. f h t r (ps_step_index step)) (\<lambda>x. Evidence (EvidenceFound t r None (ps_step_index step) x)))"

definition verify_receipt :: "string \<Rightarrow> string \<Rightarrow> planned_step \<Rightarrow> step_evidence \<Rightarrow> (evidence_record \<times> jobject) result" where
  "verify_receipt t r step found =
    (case found of (ev, receipt) \<Rightarrow>
     if ev_tenant_id ev \<noteq> t \<or> ev_run_id ev \<noteq> r \<or> \<not> same_number (ev_step_index ev) (ps_step_index step)
        \<or> blank (ev_effect_key ev)
     then Inl (OrchestratorError ''INPUT_BINDING_RECEIPT_INVALID'')
     else case receipt of None \<Rightarrow> Inl (OrchestratorError ''INPUT_BINDING_RECEIPT_INVALID'')
       | Some o1 \<Rightarrow>
           if member o1 ''adapter_status'' \<noteq> JStr ''SUCCESS'' \<or> \<not> isPlainJsonObject (member o1 ''response_payload'')
           then Inl (OrchestratorError ''INPUT_BINDING_RECEIPT_INVALID'') else Inr (ev, o1))"

definition findVerifiedStepReceipt :: "orchestrator \<Rightarrow> string \<Rightarrow> string \<Rightarrow> string \<Rightarrow> jnum \<Rightarrow> execution_plan \<Rightarrow>
    (evidence_record \<times> jobject) option run" where
  "findVerifiedStepReceipt e t r request_id n plan =
    (case find_step plan n of
       None \<Rightarrow> throw (OrchestratorError ''INPUT_BINDING_SOURCE_INVALID'')
     | Some step \<Rightarrow>
        if or_findImmutableRecord e = None \<and> or_findImmutableRecordByStep e = None
        then throw (OrchestratorError ''INPUT_BINDING_EVIDENCE_UNBOUND'')
        else bind (find_by_effect e t r request_id step) (\<lambda>by_effect.
        bind (case by_effect of None \<Rightarrow> find_by_step e t r step | Some x \<Rightarrow> ret (Some x)) (\<lambda>found.
        (case found of None \<Rightarrow> ret None
         | Some x \<Rightarrow> bind (lift (verify_receipt t r step x)) (\<lambda>v. ret (Some v))))))"

subsection \<open>Receipt-bound inputs\<close>

fun index_value :: "string \<Rightarrow> nat" where
  "index_value s = fold (\<lambda>c n. 10 * n + (of_char c - 48)) s 0"

fun walk_path :: "json \<Rightarrow> string list \<Rightarrow> json result" where
  "walk_path v [] = Inr v"
| "walk_path v (seg # segs) =
    (case v of
       JArr xs \<Rightarrow> if is_small_index seg \<and> index_value seg < length xs then walk_path (xs ! index_value seg) segs
                   else Inl (OrchestratorError ''INPUT_BINDING_RESPONSE_PATH_MISSING'')
     | JObj ms \<Rightarrow> (case map_of ms seg of None \<Rightarrow> Inl (OrchestratorError ''INPUT_BINDING_RESPONSE_PATH_MISSING'')
                   | Some x \<Rightarrow> walk_path x segs)
     | _ \<Rightarrow> Inl (OrchestratorError ''INPUT_BINDING_RESPONSE_PATH_MISSING''))"

definition readReceiptResponsePath :: "jobject \<Rightarrow> string \<Rightarrow> json result" where
  "readReceiptResponsePath receipt responsePath =
     walk_path (member receipt ''response_payload'') (split_dots responsePath)"

text \<open>The bindings of a step and the two members of a binding (its static type).\<close>

definition bindings_of :: "planned_step \<Rightarrow> jobject" where
  "bindings_of step = (case ps_input_bindings step of None \<Rightarrow> [] | Some v \<Rightarrow>
     (case as_record v of None \<Rightarrow> [] | Some bs \<Rightarrow> bs))"

definition binding_source :: "json \<Rightarrow> jnum" where
  "binding_source b = (case as_record b of None \<Rightarrow> NaN | Some o1 \<Rightarrow>
     (case member o1 ''source_step_index'' of JNum n \<Rightarrow> n | _ \<Rightarrow> NaN))"

definition binding_path :: "json \<Rightarrow> string" where
  "binding_path b = (case as_record b of None \<Rightarrow> [] | Some o1 \<Rightarrow>
     (case member o1 ''response_path'' of JStr p \<Rightarrow> p | _ \<Rightarrow> []))"

definition source_key :: "orchestrator \<Rightarrow> json \<Rightarrow> string" where
  "source_key e b = template_number (or_runtime e) (binding_source b)"

fun collect_receipts :: "orchestrator \<Rightarrow> string \<Rightarrow> string \<Rightarrow> string \<Rightarrow> execution_plan \<Rightarrow> json list \<Rightarrow>
    (string \<times> jobject) list \<Rightarrow> (string \<times> jobject) list run" where
  "collect_receipts e t r request_id plan [] acc = ret acc"
| "collect_receipts e t r request_id plan (b # bs) acc =
    (if map_of acc (source_key e b) \<noteq> None then collect_receipts e t r request_id plan bs acc
     else bind (findVerifiedStepReceipt e t r request_id (binding_source b) plan) (\<lambda>verified.
       (case verified of
          None \<Rightarrow> throw (OrchestratorError ''INPUT_BINDING_RECEIPT_MISSING'')
        | Some (_, receipt) \<Rightarrow>
            collect_receipts e t r request_id plan bs (acc @ [(source_key e b, receipt)]))))"

definition check_resolved :: "orchestrator \<Rightarrow> (string \<times> jobject) list \<Rightarrow> jobject \<Rightarrow> string \<times> json \<Rightarrow> unit result" where
  "check_resolved e receipts resolved b =
    (case map_of receipts (source_key e (snd b)) of
       None \<Rightarrow> Inl (OrchestratorError ''INPUT_BINDING_RECEIPT_MISSING'')
     | Some receipt \<Rightarrow> andThen (readReceiptResponsePath receipt (binding_path (snd b))) (\<lambda>expected.
         (case (durable_canonicalizeJson (or_runtime e) expected,
                durable_canonicalizeJson (or_runtime e) (member resolved (fst b))) of
            (Inr x, Inr y) \<Rightarrow> if x \<noteq> y then Inl (OrchestratorError ''INPUT_BINDING_RESOLUTION_INVALID'') else Inr ()
          | _ \<Rightarrow> Inl (OrchestratorError ''INPUT_BINDING_RESOLUTION_INVALID''))))"

definition resolveStepInputs :: "orchestrator \<Rightarrow> string \<Rightarrow> string \<Rightarrow> string \<Rightarrow> planned_step \<Rightarrow> execution_plan \<Rightarrow>
    hydrated_context \<Rightarrow> jobject option run" where
  "resolveStepInputs e t r request_id step plan context =
    (let bindings = bindings_of step in
     if bindings = [] then ret None
     else case or_resolveInputs e of
       None \<Rightarrow> throw (OrchestratorError ''INPUT_BINDING_RESOLVER_UNBOUND'')
     | Some f \<Rightarrow>
        bind (collect_receipts e t r request_id plan (map snd bindings) []) (\<lambda>receipts.
        bind (port (\<lambda>h. f h step receipts (hc_object context)) (\<lambda>x. Derive (InputsResolved t r (ps_step_index step) x))) (\<lambda>v.
        (case as_record v of
           None \<Rightarrow> throw (OrchestratorError ''INPUT_BINDING_RESOLUTION_INVALID'')
         | Some resolved \<Rightarrow>
             if sort (map fst bindings) \<noteq> sort (map fst resolved)
             then throw (OrchestratorError ''INPUT_BINDING_RESOLUTION_INVALID'')
             else bind (lift (each (check_resolved e receipts resolved) bindings)) (\<lambda>_.
               ret (Some resolved))))))"

subsection \<open>Drafting\<close>

definition draft_of :: "planned_step \<Rightarrow> string \<Rightarrow> string \<Rightarrow> string \<Rightarrow> string \<Rightarrow> jnum \<Rightarrow> string \<Rightarrow> jobject \<Rightarrow> action_draft" where
  "draft_of step action_id r t request_id revision effect_key inputs =
    \<lparr>ac_action_id = action_id, ac_run_id = r, ac_tenant_id = t, ac_agent_id = ps_agent_id step,
     ac_skill_id = ps_skill_id step, ac_adapter_target = ps_adapter_target step,
     ac_step_index = ps_step_index step, ac_mutating = ps_mutating step, ac_price_bearing = ps_price_bearing step,
     ac_request_id = request_id, ac_action_revision = revision, ac_effect_key = effect_key,
     ac_required_authority = JStr (level_label (ps_required_authority step)),
     ac_payload = spread inputs (if ps_mutating step
        then [(''tenant_id'', JStr t), (''effect_key'', JStr effect_key)] else [(''tenant_id'', JStr t)]),
     ac_computed_price_floor = ps_computed_price_floor step, ac_floor_source = ps_floor_source step,
     ac_proposed_price = ps_proposed_price step, ac_approval_payload_digest = None, ac_approval_id = None\<rparr>"

definition draftAction :: "orchestrator \<Rightarrow> planned_step \<Rightarrow> hydrated_context \<Rightarrow> string \<Rightarrow> string \<Rightarrow> string \<Rightarrow> jnum \<Rightarrow>
    jobject option \<Rightarrow> action_draft run" where
  "draftAction e step context r t request_id revision resolved =
    bind (lift (plan_effect_key e t step revision request_id)) (\<lambda>effect_key.
    bind (reading (or_uuid e)) (\<lambda>action_id.
      do_validateAction e (draft_of step action_id r t request_id revision effect_key
        (spread (ps_input_parameters step) (case resolved of None \<Rightarrow> [] | Some xs \<Rightarrow> xs))) (hc_object context)))"

definition applyModification :: "orchestrator \<Rightarrow> action_draft \<Rightarrow> jobject \<Rightarrow> hydrated_context \<Rightarrow> action_draft run" where
  "applyModification e base delta context =
    (let revision = succ_num (ac_action_revision base) in
     bind (lift (or_computeEffectKey e \<lparr>ek_tenant_id = ac_tenant_id base, ek_skill_id = ac_skill_id base,
       ek_step_index = ac_step_index base, ek_action_revision = revision, ek_request_id = ac_request_id base\<rparr>)) (\<lambda>k.
     do_validateAction e (base\<lparr>ac_payload := spread (ac_payload base) delta, ac_action_revision := revision,
       ac_effect_key := k\<rparr>) (hc_object context)))"

subsection \<open>Run log\<close>

record approval_ref =
  ar_approval_id :: "string option"
  ar_decision :: "string option"
  ar_operator_id :: "string option"

definition text_or_null :: "string option \<Rightarrow> json" where
  "text_or_null v = (case v of None \<Rightarrow> JNull | Some s \<Rightarrow> JStr s)"

definition approvalField :: "approval_ref option \<Rightarrow> json" where
  "approvalField ref = JObj (case ref of
     None \<Rightarrow> [(''verdict'', JStr ''AUTO_APPROVED'')]
   | Some x \<Rightarrow> [(''approval_id'', text_or_null (ar_approval_id x)),
       (''decision'', JStr (case ar_decision x of None \<Rightarrow> ''APPROVED'' | Some d \<Rightarrow> d)),
       (''operator_id'', text_or_null (ar_operator_id x))])"

definition evidence_object :: "step_evidence \<Rightarrow> json" where
  "evidence_object x = (case x of (ev, receipt) \<Rightarrow> JObj
    ([(''evidence_id'', JStr (ev_evidence_id ev)), (''run_id'', JStr (ev_run_id ev)),
      (''tenant_id'', JStr (ev_tenant_id ev)), (''correlation_id'', JStr (ev_correlation_id ev)),
      (''step_index'', JNum (ev_step_index ev)), (''effect_key'', JStr (ev_effect_key ev)),
      (''previous_evidence_hash'', JStr (ev_previous ev)), (''payload_sha256'', JStr (ev_payload_sha256 ev)),
      (''chain_hash'', JStr (ev_chain_hash ev)), (''signature'', JStr (ev_signature ev)),
      (''created_at'', JStr (ev_created_at ev))] @ opt_member ''receipt'' (map_option JObj receipt)))"

text \<open>What one entry says beyond the run and the step; \<open>le_terminal\<close> is the disposition.\<close>

record log_entry =
  le_status :: string
  le_authority :: string
  le_approval :: json
  le_action :: json
  le_evidence :: json
  le_error :: json
  le_cost :: "json option"
  le_terminal :: bool

record log_scope =
  ls_tenant_id :: string
  ls_run_id :: string
  ls_trigger :: string
  ls_step :: planned_step
  ls_context :: hydrated_context
  ls_started_at :: string
  ls_start_time :: int

definition no_cost :: json where
  "no_cost = JObj [(''prompt'', JNum (num 0)), (''completion'', JNum (num 0)), (''total_cost_usd'', JNum (num 0))]"

definition log_record :: "orchestrator \<Rightarrow> log_scope \<Rightarrow> log_entry \<Rightarrow> int \<Rightarrow> run_log" where
  "log_record e sc l now =
    \<lparr>rl_fields = \<lparr>af_run_id = ls_run_id sc, af_tenant_id = ls_tenant_id sc, af_agent_id = ps_agent_id (ls_step sc),
       af_customer_or_entity_id = (case hc_customer_id (ls_context sc) of None \<Rightarrow> hc_session_id (ls_context sc) | Some c \<Rightarrow> c),
       af_trigger = ls_trigger sc, af_context = hc_object (ls_context sc), af_skill = ps_skill_id (ls_step sc),
       af_tool = ps_adapter_target (ls_step sc),
       af_decision = JObj [(''planned_authority'', JStr (level_label (ps_required_authority (ls_step sc))))],
       af_authority = le_authority l, af_approval = le_approval l, af_action = le_action l,
       af_execution_status = le_status l, af_evidence = le_evidence l, af_outcome = JNull,
       af_latency_ms = Fin (of_int (now - ls_start_time sc)),
       af_cost = (case le_cost l of None \<Rightarrow> no_cost | Some c \<Rightarrow> c), af_error = le_error l\<rparr>,
     rl_step_index = ps_step_index (ls_step sc), rl_started_at = ls_started_at sc, rl_completed_at = or_stamp e now\<rparr>"

definition logRun :: "orchestrator \<Rightarrow> log_scope \<Rightarrow> log_entry \<Rightarrow> unit run" where
  "logRun e sc l =
    bind (reading (or_now e)) (\<lambda>now.
    bind (do_appendAudit e (log_record e sc l now)) (\<lambda>_.
      perform_if (le_terminal l) (do_logAgentRun e (log_record e sc l now))))"

subsection \<open>Parking\<close>

definition payload_signal :: "task_payload \<Rightarrow> json option" where
  "payload_signal p = (case p of NoObject \<Rightarrow> None | Stored t \<Rightarrow> st_signal t)"

definition parkTask :: "orchestrator \<Rightarrow> string \<Rightarrow> string \<Rightarrow> task_checkpoint \<Rightarrow> unit run" where
  "parkTask e t r c =
    bind (do_getTask e t r) (\<lambda>current.
      do_transitionTask e t r Waiting
        (Some (Checkpoint (c\<lparr>ck_signal := (case current of None \<Rightarrow> None | Some task \<Rightarrow> payload_signal (tv_payload task))\<rparr>))) None)"

end
