(* ===== verification/StepEngine.thy ===== *)
theory StepEngine
  imports RunRecords
begin

text \<open>
  The guarded step engine, \<open>RevenueOrchestrator.executeSteps\<close>: draft, floor, authority, reservation,
  dispatch, evidence, for every step of a plan from a cursor on. Each phase of the loop body is a
  definition; \<open>run_step\<close> composes them and \<open>step_loop\<close> iterates. The locals the loop carries (the
  reconciled action and effect and the latest evidence) are arguments; the cursor of the evidence chain
  is in the state.
\<close>

record step_params =
  sp_signal :: "signal_envelope option"
  sp_tenant_id :: string
  sp_run_id :: string
  sp_correlation_id :: string
  sp_request_id :: string
  sp_plan :: execution_plan
  sp_context :: hydrated_context
  sp_from_step :: jnum
  sp_approved_action :: "action_draft option"
  sp_approval_ref :: "approval_ref option"
  sp_attempt_ordinal :: int
  sp_assert_lease :: bool

record step_outcome =
  so_state :: task_state
  so_evidence :: "step_evidence option"

datatype step_result =
    Finished step_outcome
  | Continue "action_draft option" "reconciled_effect option" "step_evidence option"

definition stop_with :: "task_state \<Rightarrow> step_outcome" where
  "stop_with st = \<lparr>so_state = st, so_evidence = None\<rparr>"

definition scope_of :: "orchestrator \<Rightarrow> step_params \<Rightarrow> planned_step \<Rightarrow> int \<Rightarrow> log_scope" where
  "scope_of e p step startTime =
    \<lparr>ls_tenant_id = sp_tenant_id p, ls_run_id = sp_run_id p,
     ls_trigger = (case sp_signal p of None \<Rightarrow> ''task.resume'' | Some sig \<Rightarrow> sg_event_type sig),
     ls_step = step, ls_context = sp_context p, ls_started_at = or_stamp e startTime, ls_start_time = startTime\<rparr>"

definition checkpoint_of :: "step_params \<Rightarrow> jnum \<Rightarrow> action_draft option \<Rightarrow> string \<Rightarrow> task_checkpoint" where
  "checkpoint_of p current pending previous =
    \<lparr>ck_signal = map_option sg_object (sp_signal p), ck_plan = sp_plan p, ck_current_step = current,
     ck_pending_action = pending, ck_context = sp_context p, ck_previous = previous,
     ck_request_id = sp_request_id p\<rparr>"

definition save_progress :: "orchestrator \<Rightarrow> step_params \<Rightarrow> jnum \<Rightarrow> action_draft option \<Rightarrow> unit run" where
  "save_progress e p current pending =
    bind (look rs_chain) (\<lambda>previous.
      do_updateTaskProgress e (sp_tenant_id p) (sp_run_id p) current (Saved (checkpoint_of p current pending previous)))"

definition park_step :: "orchestrator \<Rightarrow> step_params \<Rightarrow> planned_step \<Rightarrow> action_draft \<Rightarrow> unit run" where
  "park_step e p step a =
    bind (look rs_chain) (\<lambda>previous.
      parkTask e (sp_tenant_id p) (sp_run_id p) (checkpoint_of p (ps_step_index step) (Some a) previous))"

definition log_marker :: "string \<Rightarrow> string \<Rightarrow> json" where
  "log_marker k reason = JObj [(k, JBool False), (''reason'', JStr reason)]"

definition error_object :: "string \<Rightarrow> jobject \<Rightarrow> json" where
  "error_object code rest = JObj ((''code'', JStr code) # rest)"

subsection \<open>Before the draft\<close>

definition stop_taken_over :: "orchestrator \<Rightarrow> step_params \<Rightarrow> planned_step \<Rightarrow> log_scope \<Rightarrow> step_result run" where
  "stop_taken_over e p step sc =
    bind (do_transitionTask e (sp_tenant_id p) (sp_run_id p) Stopped None None) (\<lambda>_.
    bind (logRun e sc \<lparr>le_status = ''aborted'', le_authority = level_label (ps_required_authority step),
        le_approval = JNull, le_action = log_marker ''drafted'' ''HUMAN_TAKEOVER'',
        le_evidence = log_marker ''recorded'' ''HUMAN_TAKEOVER'', le_error = error_object ''HUMAN_TAKEOVER'' [],
        le_cost = None, le_terminal = True\<rparr>) (\<lambda>_.
      ret (Finished (stop_with Stopped))))"

definition isReceiptSource :: "execution_plan \<Rightarrow> planned_step \<Rightarrow> bool" where
  "isReceiptSource plan step =
    list_ex (\<lambda>candidate. list_ex (\<lambda>b. same_number (binding_source (snd b)) (ps_step_index step))
      (bindings_of candidate)) (ep_steps plan)"

text \<open>A receipt source whose evidence exists is not run again; \<open>None\<close>: it has to run.\<close>

definition recover_receipt :: "orchestrator \<Rightarrow> step_params \<Rightarrow> planned_step \<Rightarrow> step_evidence option run" where
  "recover_receipt e p step =
    (if \<not> isReceiptSource (sp_plan p) step then ret None
     else bind (findVerifiedStepReceipt e (sp_tenant_id p) (sp_run_id p) (sp_request_id p) (ps_step_index step) (sp_plan p)) (\<lambda>recovered.
       (case recovered of
          None \<Rightarrow> ret None
        | Some (ev, receipt) \<Rightarrow>
            bind (look rs_chain) (\<lambda>previous.
            if ev_previous ev \<noteq> previous then throw (OrchestratorError ''INPUT_BINDING_RECEIPT_INVALID'')
            else
              bind (modify (rs_chain_update (\<lambda>_. ev_chain_hash ev))) (\<lambda>_.
              bind (enter_shared_journal e plan_step) (\<lambda>_.
              bind (save_progress e p (succ_num (ps_step_index step)) None) (\<lambda>_.
                ret (Some (ev, Some receipt)))))))))"

subsection \<open>Draft and authority\<close>

definition of_step :: "action_draft option \<Rightarrow> planned_step \<Rightarrow> bool" where
  "of_step a step = (case a of None \<Rightarrow> False | Some x \<Rightarrow> same_number (ac_step_index x) (ps_step_index step))"

definition draft_step :: "orchestrator \<Rightarrow> step_params \<Rightarrow> planned_step \<Rightarrow> action_draft option \<Rightarrow> reconciled_effect option \<Rightarrow>
    action_draft run" where
  "draft_step e p step ra re =
    (let released = of_step (sp_approved_action p) step; reconciled = of_step ra step in
     if re \<noteq> None \<and> \<not> reconciled then throw binding_required
     else
       bind (if released \<or> reconciled then ret None
         else resolveStepInputs e (sp_tenant_id p) (sp_run_id p) (sp_request_id p) step (sp_plan p) (sp_context p)) (\<lambda>inputs.
       bind (case (released, sp_approved_action p, reconciled, ra) of
           (True, Some a, _, _) \<Rightarrow> ret a
         | (_, _, True, Some a) \<Rightarrow> ret a
         | _ \<Rightarrow> draftAction e step (sp_context p) (sp_run_id p) (sp_tenant_id p) (sp_request_id p) (num 0) inputs) (\<lambda>drafted.
       bind (lift (verifyFloorPrice drafted)) (\<lambda>_.
       bind (save_progress e p (ps_step_index step) (Some drafted)) (\<lambda>_.
         ret drafted)))))"

definition check_released :: "step_params \<Rightarrow> action_draft \<Rightarrow> unit result" where
  "check_released p a =
    (case (sp_approval_ref p, sp_approved_action p) of
       (Some ref, Some approved) \<Rightarrow>
         (case ar_approval_id ref of
            None \<Rightarrow> Inl (OrchestratorError ''APPROVAL_BINDING_REQUIRED'')
          | Some approval_id \<Rightarrow>
              if ac_required_authority a \<noteq> JStr ''AUTH-4'' \<or> approval_id = [] \<or> ac_approval_id a \<noteq> Some approval_id
                 \<or> ac_effect_key approved \<noteq> ac_effect_key a
              then Inl (OrchestratorError ''APPROVAL_BINDING_REQUIRED'') else Inr ())
     | _ \<Rightarrow> Inl (OrchestratorError ''APPROVAL_BINDING_REQUIRED''))"

definition check_reconciled :: "action_draft option \<Rightarrow> reconciled_effect option \<Rightarrow> action_draft \<Rightarrow> unit result" where
  "check_reconciled ra re a =
    (case ra of
       None \<Rightarrow> Inl binding_required
     | Some r \<Rightarrow>
         if ac_action_id a \<noteq> ac_action_id r \<or> ac_effect_key a \<noteq> ac_effect_key r then Inl binding_required
         else case re of None \<Rightarrow> Inr ()
           | Some x \<Rightarrow> if rc_effect_key x \<noteq> ac_effect_key a \<or> rc_action_id x \<noteq> ac_action_id a
               then Inl binding_required else Inr ())"

definition stop_denied :: "orchestrator \<Rightarrow> step_params \<Rightarrow> log_scope \<Rightarrow> action_draft \<Rightarrow> string \<Rightarrow> step_result run" where
  "stop_denied e p sc a authority =
    bind (do_transitionTask e (sp_tenant_id p) (sp_run_id p) Stopped None None) (\<lambda>_.
    bind (logRun e sc \<lparr>le_status = ''denied'', le_authority = authority, le_approval = JNull,
        le_action = JObj (draft_object a), le_evidence = log_marker ''recorded'' ''AUTHORITY_DENIED'',
        le_error = error_object ''AUTHORITY_DENIED'' [], le_cost = None, le_terminal = True\<rparr>) (\<lambda>_.
      ret (Finished (stop_with Stopped))))"

definition pause_step :: "orchestrator \<Rightarrow> step_params \<Rightarrow> planned_step \<Rightarrow> log_scope \<Rightarrow> action_draft \<Rightarrow> string \<Rightarrow>
    step_result run" where
  "pause_step e p step sc a authority =
    (if of_step (sp_approved_action p) step then throw (OrchestratorError ''APPROVAL_CLAIM_NOT_RECOGNIZED'')
     else
       bind (do_getTask e (sp_tenant_id p) (sp_run_id p)) (\<lambda>current.
       (case current of
          None \<Rightarrow> throw (OrchestratorError ''TASK_NOT_FOUND'')
        | Some task \<Rightarrow>
            bind (look rs_chain) (\<lambda>previous.
            bind (do_pauseForApproval e (sp_tenant_id p) (sp_run_id p)
              \<lparr>pu_expected_version = tv_task_version task,
               pu_checkpoint = (checkpoint_of p (ps_step_index step) (Some a) previous)\<lparr>ck_signal := None\<rparr>,
               pu_action_id = ac_action_id a, pu_effect_key = ac_effect_key a, pu_payload = ac_payload a\<rparr>) (\<lambda>approval_id.
            bind (logRun e sc \<lparr>le_status = ''pending'', le_authority = authority,
                le_approval = JObj [(''approval_id'', JStr approval_id), (''verdict'', JStr ''AWAITING_HUMAN_APPROVAL'')],
                le_action = JObj (draft_object (a\<lparr>ac_approval_id := Some approval_id\<rparr>)),
                le_evidence = log_marker ''recorded'' ''AWAITING_HUMAN_APPROVAL'', le_error = JNull,
                le_cost = None, le_terminal = False\<rparr>) (\<lambda>_.
              ret (Finished (stop_with AwaitingHuman))))))))"

subsection \<open>Dispatch\<close>

definition failed_entry :: "string \<Rightarrow> json \<Rightarrow> action_draft \<Rightarrow> string \<Rightarrow> json \<Rightarrow> bool \<Rightarrow> log_entry" where
  "failed_entry authority approval a reason err terminal =
    \<lparr>le_status = ''failed'', le_authority = authority, le_approval = approval, le_action = JObj (draft_object a),
     le_evidence = log_marker ''recorded'' reason, le_error = err, le_cost = None, le_terminal = terminal\<rparr>"

text \<open>A read-only step has no effect to reconcile: its unknown outcome is a transient failure.\<close>

definition dispatch_failed :: "orchestrator \<Rightarrow> step_params \<Rightarrow> planned_step \<Rightarrow> log_scope \<Rightarrow> action_draft \<Rightarrow> string \<Rightarrow> json \<Rightarrow>
    failure \<Rightarrow> (step_outcome + jobject) run" where
  "dispatch_failed e p step sc a authority approval error =
    (let classified = orchestrator_classifyFailure error;
         known = ps_mutating step \<or> classified \<noteq> UNKNOWN;
         failure_class = (if known then classified else RETRYABLE);
         failure = (if known then error else OrchestratorError ''PROVIDER_UNAVAILABLE'') in
     bind (logRun e sc (failed_entry authority approval a ''DISPATCH_FAILED''
         (error_object (error_code failure)
           [(''outcome'', JStr (if failure_class = UNKNOWN then ''UNKNOWN'' else ''FAILED''))])
         (failure_class = FATAL))) (\<lambda>_.
     if failure_class = UNKNOWN
     then bind (park_step e p step a) (\<lambda>_. ret (Inl (stop_with Waiting)))
     else throw failure))"

definition provider_refused :: "orchestrator \<Rightarrow> step_params \<Rightarrow> planned_step \<Rightarrow> log_scope \<Rightarrow> action_draft \<Rightarrow> string \<Rightarrow> json \<Rightarrow>
    json \<Rightarrow> (step_outcome + jobject) run" where
  "provider_refused e p step sc a authority approval status =
    (if ps_mutating step
     then
       bind (logRun e sc (failed_entry authority approval a ''PROVIDER_INDETERMINATE''
         (error_object ''PROVIDER_INDETERMINATE'' [(''outcome'', JStr ''UNKNOWN''), (''adapter_status'', status)]) False)) (\<lambda>_.
       bind (park_step e p step a) (\<lambda>_. ret (Inl (stop_with Waiting))))
     else
       bind (logRun e sc (failed_entry authority approval a ''PROVIDER_ERROR''
         (error_object ''PROVIDER_ERROR'' [(''adapter_status'', status)]) True)) (\<lambda>_.
       throw (OrchestratorError ''PROVIDER_ERROR'')))"

text \<open>An admitted action that is not a replay: the run ends here, or the provider's receipt.\<close>

definition deliver :: "orchestrator \<Rightarrow> step_params \<Rightarrow> planned_step \<Rightarrow> log_scope \<Rightarrow> action_draft \<Rightarrow> string \<Rightarrow> json \<Rightarrow>
    autonomy_workflow option \<Rightarrow> (step_outcome + jobject) run" where
  "deliver e p step sc a authority approval workflow =
    (if workflow = Some PARKED_DRAFT
     then bind (park_step e p step a) (\<lambda>_. ret (Inl (stop_with Waiting)))
     else
       bind (enterStage e (sp_tenant_id p) (sp_run_id p) (sp_attempt_ordinal p) (ps_step_index step) EXECUTION) (\<lambda>_.
       bind (catch (bind (dispatchWithDeadline e a step) (\<lambda>receipt. ret (Inr receipt)))
              (dispatch_failed e p step sc a authority approval)) (\<lambda>sent.
       (case sent of
          Inl done \<Rightarrow> ret (Inl done)
        | Inr receipt \<Rightarrow>
            if member receipt ''adapter_status'' \<noteq> JStr ''SUCCESS''
            then provider_refused e p step sc a authority approval (member receipt ''adapter_status'')
            else if ac_skill_id a = ''skill.care.escalate_to_human'' then ret (Inl (stop_with AwaitingHuman))
            else bind (perform_if (ps_mutating step)
                (do_resolve e (ac_tenant_id a) (ac_effect_key a) SUCCEEDED (JObj receipt))) (\<lambda>_.
              ret (Inr receipt))))))"

subsection \<open>Evidence\<close>

definition write_evidence :: "orchestrator \<Rightarrow> step_params \<Rightarrow> planned_step \<Rightarrow> log_scope \<Rightarrow> action_draft \<Rightarrow> string \<Rightarrow> json \<Rightarrow>
    json \<Rightarrow> jobject option \<Rightarrow> bool \<Rightarrow> step_result run" where
  "write_evidence e p step sc a authority approval receipt dispatched replayed =
    bind (look rs_chain) (\<lambda>previous.
    bind (do_createImmutableRecord e
      \<lparr>rp_run_id = sp_run_id p, rp_tenant_id = sp_tenant_id p, rp_correlation_id = sp_correlation_id p,
       rp_step_index = ps_step_index step, rp_effect_key = ac_effect_key a, rp_previous = previous,
       rp_payload = [(''action'', JObj (draft_object a)), (''receipt'', receipt), (''replayed'', JBool replayed)]\<rparr>) (\<lambda>stepEvidence.
    bind (modify (rs_chain_update (\<lambda>_. ev_chain_hash (fst stepEvidence)))) (\<lambda>_.
    bind (logRun e sc \<lparr>le_status = ''success'', le_authority = authority, le_approval = approval,
        le_action = JObj (draft_object a), le_evidence = evidence_object stepEvidence, le_error = JNull,
        le_cost = (case dispatched of None \<Rightarrow> None | Some r \<Rightarrow> Some (member r ''token_usage'')), le_terminal = True\<rparr>) (\<lambda>_.
    bind (perform_if (ps_mutating step)
      (do_initializeOutcomeWatch e (sp_tenant_id p) (sp_run_id p) (ac_effect_key a) (ac_skill_id a))) (\<lambda>_.
    bind (save_progress e p (succ_num (ps_step_index step)) None) (\<lambda>_.
      ret (Continue None None (Some stepEvidence))))))))"

definition record_step :: "orchestrator \<Rightarrow> step_params \<Rightarrow> planned_step \<Rightarrow> log_scope \<Rightarrow> action_draft \<Rightarrow> string \<Rightarrow> json \<Rightarrow>
    json \<Rightarrow> jobject option \<Rightarrow> bool \<Rightarrow> step_result run" where
  "record_step e p step sc a authority approval receipt dispatched replayed =
    bind (enterStage e (sp_tenant_id p) (sp_run_id p) (sp_attempt_ordinal p) (ps_step_index step) EVIDENCE) (\<lambda>_.
    catch (write_evidence e p step sc a authority approval receipt dispatched replayed)
      (\<lambda>error.
        if \<not> (ps_mutating step \<and> (replayed \<or> dispatched \<noteq> None)) then throw error
        else bind (park_step e p step a) (\<lambda>_. ret (Finished (stop_with Waiting)))))"

subsection \<open>One step and the loop\<close>

text \<open>The text of an action's required authority.\<close>

definition authority_text :: "action_draft \<Rightarrow> string" where
  "authority_text a = (case ac_required_authority a of JStr s \<Rightarrow> s | _ \<Rightarrow> [])"

definition admitted_step :: "orchestrator \<Rightarrow> step_params \<Rightarrow> planned_step \<Rightarrow> log_scope \<Rightarrow> action_draft \<Rightarrow>
    reconciled_effect option \<Rightarrow> autonomy_workflow option \<Rightarrow> step_result run" where
  "admitted_step e p step sc a re workflow =
    (let approval = approvalField (if of_step (sp_approved_action p) step then sp_approval_ref p else None) in
     bind (acquireEffectSlot e a (sp_run_id p) re) (\<lambda>slot.
     (case slot of
        WaitSlot reason \<Rightarrow> bind (park_step e p step a) (\<lambda>_. ret (Finished (stop_with Waiting)))
      | ReplaySlot receipt \<Rightarrow>
          bind (traceStage e (sp_tenant_id p) (sp_run_id p) (sp_attempt_ordinal p) (ps_step_index step) EXECUTION (ret ())) (\<lambda>_.
            record_step e p step sc a (authority_text a) approval receipt None True)
      | DispatchSlot \<Rightarrow>
          bind (deliver e p step sc a (authority_text a) approval workflow) (\<lambda>sent.
          (case sent of
             Inl done \<Rightarrow> ret (Finished done)
           | Inr receipt \<Rightarrow>
               record_step e p step sc a (authority_text a) approval (JObj receipt) (Some receipt) False)))))"

definition authorize_step :: "orchestrator \<Rightarrow> step_params \<Rightarrow> planned_step \<Rightarrow> log_scope \<Rightarrow> action_draft \<Rightarrow>
    reconciled_effect option \<Rightarrow> step_result run" where
  "authorize_step e p step sc a re =
    bind (traceStage e (sp_tenant_id p) (sp_run_id p) (sp_attempt_ordinal p) (ps_step_index step) APPROVAL
      (do_evaluateAuthority e a (hc_object (sp_context p)))) (\<lambda>authorization.
    (case gr_verdict authorization of
       DENIED \<Rightarrow> stop_denied e p sc a (authority_text a)
     | AWAITING_HUMAN_APPROVAL \<Rightarrow> pause_step e p step sc a (authority_text a)
     | AUTO_APPROVED \<Rightarrow> admitted_step e p step sc a re (gr_autonomy_workflow authorization)))"

definition execute_step :: "orchestrator \<Rightarrow> step_params \<Rightarrow> planned_step \<Rightarrow> log_scope \<Rightarrow> action_draft option \<Rightarrow>
    reconciled_effect option \<Rightarrow> step_result run" where
  "execute_step e p step sc ra re =
    bind (do_updateTaskProgress e (sp_tenant_id p) (sp_run_id p) (ps_step_index step)
      (Cursor (ep_plan_id (sp_plan p)) (ps_step_index step) (ps_skill_id step) (ps_agent_id step))) (\<lambda>_.
    bind (traceStage e (sp_tenant_id p) (sp_run_id p) (sp_attempt_ordinal p) (ps_step_index step) ACTION
      (draft_step e p step ra re)) (\<lambda>a.
    bind (lift (if of_step (sp_approved_action p) step then check_released p a else Inr ())) (\<lambda>_.
    bind (lift (if of_step ra step then check_reconciled ra re a else Inr ())) (\<lambda>_.
      authorize_step e p step sc a re))))"

definition run_step :: "orchestrator \<Rightarrow> step_params \<Rightarrow> planned_step \<Rightarrow> action_draft option \<Rightarrow> reconciled_effect option \<Rightarrow>
    step_result run" where
  "run_step e p step ra re =
    bind (reading (or_now e)) (\<lambda>startTime.
    bind (perform_if (sp_assert_lease p) (do_assertExecutionLease e (sp_tenant_id p) (sp_run_id p))) (\<lambda>_.
    bind (do_isTakenOver e (sp_tenant_id p) (hc_session_id (sp_context p))) (\<lambda>taken.
    if taken then stop_taken_over e p step (scope_of e p step startTime)
    else bind (recover_receipt e p step) (\<lambda>recovered.
      (case recovered of
         Some ev \<Rightarrow> ret (Continue ra re (Some ev))
       | None \<Rightarrow> execute_step e p step (scope_of e p step startTime) ra re)))))"

fun step_loop :: "orchestrator \<Rightarrow> step_params \<Rightarrow> planned_step list \<Rightarrow> action_draft option \<Rightarrow> reconciled_effect option \<Rightarrow>
    step_evidence option \<Rightarrow> step_outcome run" where
  "step_loop e p [] ra re latest = ret \<lparr>so_state = task_state.Completed, so_evidence = latest\<rparr>"
| "step_loop e p (step # steps) ra re latest =
    (if num_less (ps_step_index step) (sp_from_step p) then step_loop e p steps ra re latest
     else bind (run_step e p step ra re) (\<lambda>r.
       (case r of
          Finished outcome \<Rightarrow> ret outcome
        | Continue ra' re' latest' \<Rightarrow> step_loop e p steps ra' re' latest')))"

definition executeSteps :: "orchestrator \<Rightarrow> step_params \<Rightarrow> action_draft option \<Rightarrow> reconciled_effect option \<Rightarrow>
    step_outcome run" where
  "executeSteps e p reconciled_action reconciled_effect =
    (let steps = ep_steps (sp_plan p) in
     bind (if num_less (num (length steps)) (sp_from_step p) \<and> steps \<noteq> []
       then findVerifiedStepReceipt e (sp_tenant_id p) (sp_run_id p) (sp_request_id p) (ps_step_index (last steps)) (sp_plan p)
       else ret None) (\<lambda>recovered.
     step_loop e p steps reconciled_action reconciled_effect
       (map_option (\<lambda>(ev, receipt). (ev, Some receipt)) recovered)))"

end
