(* ===== verification/RunEngine.thy ===== *)
theory RunEngine
  imports StepEngine
begin

text \<open>
  The entry points of the orchestrator that drive the step engine
  (\<open>revenue-orchestrator.ts\<close>, \<open>handoff-coordinator.ts\<close>, \<open>agent-boundary.ts\<close>): the guarded pipeline, the
  recovery envelope, \<open>processSignal\<close> and \<open>processQueuedSignal\<close>, and what settles a run: outcome and
  learning, the brokered handoff and the final response.
\<close>

record run_result =
  ru_run_id :: string
  ru_state :: task_state
  ru_evidence :: "step_evidence option"
  ru_response :: "json option"
  ru_handoff :: "handoff_admission option"

definition ends_as :: "string \<Rightarrow> task_state \<Rightarrow> step_evidence option \<Rightarrow> run_result" where
  "ends_as r st ev = \<lparr>ru_run_id = r, ru_state = st, ru_evidence = ev, ru_response = None, ru_handoff = None\<rparr>"

subsection \<open>The brokered handoff\<close>

definition handoffEvidenceRefs :: "runtime \<Rightarrow> string \<Rightarrow> execution_plan \<Rightarrow> string \<Rightarrow> json list" where
  "handoffEvidenceRefs rt r plan source_domain =
    (let n = template_number rt (num (length (ep_steps plan))) in
     JObj [(''classification'', JStr ''DECISION''),
       (''claim'', JStr (''Run '' @ r @ '' completed the '' @ source_domain @ '' leg of the customer journey ('' @ n
          @ '' planned step(s), plan '' @ ep_plan_id plan @ '')'')),
       (''source_uri'', JStr (''agentos://runs/'' @ r)), (''source_version'', JStr n),
       (''verified_by'', JStr ''agentos.orchestrator'')]
     # map (\<lambda>step. let i = template_number rt (ps_step_index step) in
        JObj [(''classification'', JStr ''ACTION''),
          (''claim'', JStr (ps_skill_id step @ '' executed by '' @ ps_agent_id step @ '' at step '' @ i)),
          (''source_uri'', JStr (''agentos://runs/'' @ r @ ''/steps/'' @ i)), (''source_version'', JStr i),
          (''verified_by'', JStr (ps_agent_id step))]) (filter ps_mutating (ep_steps plan)))"

definition buildHandoffDraft :: "orchestrator \<Rightarrow> string \<Rightarrow> string \<Rightarrow> string \<Rightarrow> execution_plan \<Rightarrow> hydrated_context \<Rightarrow> int \<Rightarrow>
    handoff_draft result" where
  "buildHandoffDraft e t r correlation plan context now =
    (case (ep_handoff_intent plan, ep_steps plan) of
       (Some intent, sourceStep # _) \<Rightarrow>
         Inr \<lparr>hd_tenant_id = t,
           hd_customer_id = (case hc_customer_id context of None \<Rightarrow> [] | Some c \<Rightarrow> c),
           hd_correlation_id = correlation, hd_source_domain = hi_source_domain intent,
           hd_source_agent = ps_agent_id sourceStep, hd_source_run_id = r,
           hd_source_authority = highestAuthority (map ps_required_authority (ep_steps plan)),
           hd_target_domain = hi_target_domain intent, hd_target_agent = hi_target_agent intent,
           hd_reason = hi_reason intent,
           hd_evidence = handoffEvidenceRefs (or_runtime e) r plan (hi_source_domain intent),
           hd_occurred_at = or_stamp e now\<rparr>
     | _ \<Rightarrow> Inl (OrchestratorError ''HANDOFF_PACKAGE_INVALID''))"

datatype brokered = NoHandoff | Admitted handoff_admission | HandoffParked

text \<open>A refusal of the broker's own guards is final; any other failure parks the run.\<close>

definition handoff_refused :: "failure \<Rightarrow> bool" where
  "handoff_refused error = (case error of
     OrchestratorError code \<Rightarrow> starts_with ''HANDOFF_'' code \<and> code \<noteq> ''HANDOFF_ADMISSION_UNRESOLVED''
   | _ \<Rightarrow> False)"

definition brokerPlanHandoff :: "orchestrator \<Rightarrow> string \<Rightarrow> string \<Rightarrow> string \<Rightarrow> execution_plan \<Rightarrow> hydrated_context \<Rightarrow>
    string \<Rightarrow> string \<Rightarrow> brokered run" where
  "brokerPlanHandoff e t r correlation plan context request_id previous =
    (case ep_handoff_intent plan of None \<Rightarrow> ret NoHandoff
     | Some intent \<Rightarrow>
        bind (lift (assertHandoffSourceDomain (hi_source_domain intent) (map ps_agent_id (ep_steps plan)))) (\<lambda>_.
        bind (reading (or_now e)) (\<lambda>now.
        bind (lift (buildHandoffDraft e t r correlation plan context now)) (\<lambda>draft.
        (case or_admitHandoff e of
           None \<Rightarrow> throw (OrchestratorError ''HANDOFF_BROKER_UNBOUND'')
         | Some f \<Rightarrow>
            catch (bind (port (\<lambda>h. f h draft) (\<lambda>x. Closing (HandoffAdmitted draft x))) (\<lambda>a. ret (Admitted a)))
              (\<lambda>error. if handoff_refused error then throw error
                else bind (parkTask e t r \<lparr>ck_signal = None, ck_plan = plan, ck_current_step = nextStepCursor plan,
                    ck_pending_action = None, ck_context = context, ck_previous = previous,
                    ck_request_id = request_id\<rparr>) (\<lambda>_. ret HandoffParked)))))))"

subsection \<open>The final response\<close>

definition responseDomain :: "execution_plan \<Rightarrow> string" where
  "responseDomain plan = (case ep_steps plan of [] \<Rightarrow> ''unknown'' | step # _ \<Rightarrow>
     if starts_with ''SAL-'' (ps_agent_id step) then ''sales''
     else if starts_with ''CS-'' (ps_agent_id step) then ''support''
     else if starts_with ''MKT-'' (ps_agent_id step) then ''marketing'' else ''unknown'')"

definition citation_valid :: "json \<Rightarrow> bool" where
  "citation_valid source = (case as_record source of None \<Rightarrow> False | Some o1 \<Rightarrow>
     text_present (member o1 ''source_record_id'') \<and> text_present (member o1 ''source_version'')
     \<and> text_present (member o1 ''source_file''))"

definition validateFinalResponse :: "json \<Rightarrow> json result" where
  "validateFinalResponse v = (case as_record v of None \<Rightarrow> Inl (OrchestratorError ''RESPONSE_INVALID'') | Some o1 \<Rightarrow>
     (case member o1 ''sources'' of
        JArr sources \<Rightarrow> if \<not> text_present (member o1 ''answer'') \<or> \<not> list_all citation_valid sources
          then Inl (OrchestratorError ''RESPONSE_INVALID'') else Inr v
      | _ \<Rightarrow> Inl (OrchestratorError ''RESPONSE_INVALID'')))"

text \<open>A stable sort by step index, as \<open>sort((left, right) => left.step_index - right.step_index)\<close>.\<close>

fun insert_step :: "planned_step \<Rightarrow> planned_step list \<Rightarrow> planned_step list" where
  "insert_step s [] = [s]"
| "insert_step s (x # xs) =
    (if num_less (ps_step_index x) (ps_step_index s) then x # insert_step s xs else s # x # xs)"

definition by_index :: "planned_step list \<Rightarrow> planned_step list" where
  "by_index steps = foldr insert_step steps []"

fun collect_evidence :: "orchestrator \<Rightarrow> string \<Rightarrow> string \<Rightarrow> string \<Rightarrow> execution_plan \<Rightarrow> planned_step list \<Rightarrow>
    (step_evidence \<times> jobject) list run" where
  "collect_evidence e t r request_id plan [] = ret []"
| "collect_evidence e t r request_id plan (step # steps) =
    bind (findVerifiedStepReceipt e t r request_id (ps_step_index step) plan) (\<lambda>verified.
    (case verified of
       None \<Rightarrow> throw (OrchestratorError ''RESPONSE_EVIDENCE_INVALID'')
     | Some (ev, receipt) \<Rightarrow>
         bind (collect_evidence e t r request_id plan steps) (\<lambda>rest. ret (((ev, Some receipt), receipt) # rest))))"

definition collectSuccessfulReceipts :: "orchestrator \<Rightarrow> string \<Rightarrow> string \<Rightarrow> string \<Rightarrow> execution_plan \<Rightarrow>
    (step_evidence \<times> jobject) list run" where
  "collectSuccessfulReceipts e t r request_id plan =
    (if ep_steps plan = [] then throw (OrchestratorError ''RESPONSE_EVIDENCE_MISSING'')
     else collect_evidence e t r request_id plan (by_index (ep_steps plan)))"

definition do_readResponse :: "orchestrator \<Rightarrow> string \<Rightarrow> string \<Rightarrow> json option run" where
  "do_readResponse e t r = (case or_readResponse e of None \<Rightarrow> throw (OrchestratorError ''RESPONSE_STORE_UNBOUND'')
     | Some f \<Rightarrow> port (\<lambda>h. f h t r) (\<lambda>x. Closing (ResponseRead t r x)))"

definition persistFinalResponse :: "orchestrator \<Rightarrow> string \<Rightarrow> string \<Rightarrow> string \<Rightarrow> hydrated_context \<Rightarrow> execution_plan \<Rightarrow>
    json option run" where
  "persistFinalResponse e t r request_id context plan =
    (case or_finalize e of None \<Rightarrow> ret None
     | Some finalize \<Rightarrow>
        bind (do_readResponse e t r) (\<lambda>existing.
        (case hc_conversation_id context of None \<Rightarrow> ret existing
         | Some conversation \<Rightarrow>
            bind (case existing of Some x \<Rightarrow> ret x
              | None \<Rightarrow> bind (collectSuccessfulReceipts e t r request_id plan) (\<lambda>receipts.
                  port (\<lambda>h. finalize h (Some conversation) (responseDomain plan) (hc_object context) receipts)
                    (\<lambda>x. Closing (ResponseFinalized t r (responseDomain plan) x)))) (\<lambda>response.
            bind (lift (validateFinalResponse response)) (\<lambda>verified.
            if ep_steps plan = [] then throw (OrchestratorError ''RESPONSE_SENDER_UNBOUND'')
            else
              bind (port (\<lambda>h. or_saveResponse e h t r (Some conversation) (ps_agent_id (last (ep_steps plan))) verified)
                (\<lambda>x. Closing (ResponseSaved t r (ps_agent_id (last (ep_steps plan))) verified x))) (\<lambda>_.
              ret (Some verified)))))))"

subsection \<open>Settling a run\<close>

definition updateLearningMemory :: "orchestrator \<Rightarrow> string \<Rightarrow> string \<Rightarrow> step_evidence \<Rightarrow> int \<Rightarrow> unit run" where
  "updateLearningMemory e t r ev attempt = traceStage e t r attempt (ev_step_index (fst ev)) LEARNING (ret ())"

definition record_outcome :: "orchestrator \<Rightarrow> string \<Rightarrow> string \<Rightarrow> int \<Rightarrow> step_evidence option \<Rightarrow> unit run" where
  "record_outcome e t r attempt evidence =
    (case evidence of None \<Rightarrow> ret ()
     | Some ev \<Rightarrow> bind (traceStage e t r attempt (ev_step_index (fst ev)) OUTCOME (ret ())) (\<lambda>_.
         updateLearningMemory e t r ev attempt))"

text \<open>The handoff, the response and the terminal transition, as every completing path performs them.\<close>

definition complete_run :: "orchestrator \<Rightarrow> string \<Rightarrow> string \<Rightarrow> string \<Rightarrow> execution_plan \<Rightarrow> hydrated_context \<Rightarrow> string \<Rightarrow>
    string \<Rightarrow> step_evidence option \<Rightarrow> run_result run" where
  "complete_run e t r correlation plan context request_id previous evidence =
    bind (brokerPlanHandoff e t r correlation plan context request_id previous) (\<lambda>handoff.
    if handoff = HandoffParked then ret (ends_as r Waiting None)
    else
      bind (persistFinalResponse e t r request_id context plan) (\<lambda>response.
      bind (do_transitionTask e t r task_state.Completed None None) (\<lambda>_.
      ret \<lparr>ru_run_id = r, ru_state = task_state.Completed, ru_evidence = evidence, ru_response = response,
        ru_handoff = (case handoff of Admitted a \<Rightarrow> Some a | _ \<Rightarrow> None)\<rparr>)))"

definition chain_of :: "step_evidence option \<Rightarrow> string \<Rightarrow> string" where
  "chain_of evidence previous = (case evidence of None \<Rightarrow> previous | Some ev \<Rightarrow> ev_chain_hash (fst ev))"

text \<open>What follows the step loop: the outcome of the run, or the state it stopped in.\<close>

definition settle_steps :: "orchestrator \<Rightarrow> step_params \<Rightarrow> step_outcome \<Rightarrow> string \<Rightarrow> run_result run" where
  "settle_steps e p outcome previous =
    (if so_state outcome \<noteq> task_state.Completed
     then ret (ends_as (sp_run_id p) (so_state outcome) (so_evidence outcome))
     else
       bind (record_outcome e (sp_tenant_id p) (sp_run_id p) (sp_attempt_ordinal p) (so_evidence outcome)) (\<lambda>_.
         complete_run e (sp_tenant_id p) (sp_run_id p) (sp_correlation_id p) (sp_plan p) (sp_context p)
           (sp_request_id p) (chain_of (so_evidence outcome) previous) (so_evidence outcome)))"

text \<open>The cursor of the chain has not moved in a loop that leaves no evidence, so it is \<open>previous\<close> there.\<close>

definition run_steps :: "orchestrator \<Rightarrow> step_params \<Rightarrow> string \<Rightarrow> action_draft option \<Rightarrow> reconciled_effect option \<Rightarrow>
    run_result run" where
  "run_steps e p previous ra re =
    bind (modify (rs_chain_update (\<lambda>_. previous))) (\<lambda>_.
    bind (executeSteps e p ra re) (\<lambda>outcome. settle_steps e p outcome previous))"

subsection \<open>The recovery envelope\<close>

definition needs_reconciliation :: "failure \<Rightarrow> bool" where
  "needs_reconciliation error \<longleftrightarrow> orchestrator_classifyFailure error = UNKNOWN
     \<or> error = OrchestratorError ''CHECKPOINT_REQUIRES_RECONCILIATION''"

definition recover_run :: "orchestrator \<Rightarrow> string \<Rightarrow> string \<Rightarrow> stored_task option \<Rightarrow> failure \<Rightarrow> run_result run" where
  "recover_run e t r checkpoint error =
    (if needs_reconciliation error
     then (case checkpoint of
        None \<Rightarrow> bind (do_recordFailure e t r FATAL (error_code error)) (\<lambda>_. throw error)
      | Some c \<Rightarrow> bind (do_transitionTask e t r Waiting (Some (Verbatim c)) None) (\<lambda>_. ret (ends_as r Waiting None)))
     else bind (do_recordFailure e t r (orchestrator_classifyFailure error) (error_code error)) (\<lambda>_. throw error))"

definition withDurableRecovery :: "orchestrator \<Rightarrow> string \<Rightarrow> string \<Rightarrow> string \<Rightarrow> stored_task option \<Rightarrow>
    run_result run \<Rightarrow> run_result run" where
  "withDurableRecovery e t r w checkpoint attempt =
    finally_do (catch attempt (recover_run e t r checkpoint)) (do_releaseLease e t r w)"

subsection \<open>The guarded pipeline\<close>

definition assertOrchestratorBrokered :: "routing_decision \<Rightarrow> routing_decision" where
  "assertOrchestratorBrokered decision = decision"

definition trimmed_text :: "json \<Rightarrow> string" where
  "trimmed_text v = (case v of JStr s \<Rightarrow> trim s | _ \<Rightarrow> [])"

definition buildClarificationPlan :: "string \<Rightarrow> routing_decision \<Rightarrow> signal_envelope \<Rightarrow> hydrated_context \<Rightarrow>
    execution_plan result" where
  "buildClarificationPlan uuid routing sig context =
    (let channel = trimmed_text (hc_last_touch_channel context);
         skill = trimmed_text (hc_response_skill_id context);
         target = trimmed_text (hc_response_adapter_target context) in
     if channel = [] \<or> skill = [] \<or> target = [] then Inl (OrchestratorError ''RESPONSE_SENDER_UNBOUND'')
     else Inr \<lparr>ep_plan_id = ''plan_'' @ uuid,
       ep_steps = [\<lparr>ps_step_index = num 1, ps_agent_id = rd_target_agent routing, ps_skill_id = skill,
         ps_adapter_target = target,
         ps_input_parameters = [(''tenant_id'', JStr (sg_tenant_id sig)),
           (''recipient_id'', JStr (case sg_subject sig of None \<Rightarrow> hc_session_id context
              | Some sub \<Rightarrow> (case ss_channel_identifier sub of None \<Rightarrow> hc_session_id context | Some c \<Rightarrow> c))),
           (''channel'', JStr channel),
           (''message_content'', JObj [(''text'', JStr (case rd_clarification_prompt routing of None \<Rightarrow> [] | Some x \<Rightarrow> x))])],
         ps_required_authority = AUTH3, ps_mutating = True, ps_price_bearing = False, ps_timeout_ms = num 3000,
         ps_depends_on_steps = Some [], ps_input_bindings = None, ps_computed_price_floor = None,
         ps_floor_source = None, ps_proposed_price = None\<rparr>],
       ep_handoff_intent = None\<rparr>)"

definition subject_object :: "signal_envelope \<Rightarrow> json" where
  "subject_object sig = (case sg_subject sig of None \<Rightarrow> JUndef | Some sub \<Rightarrow> ss_object sub)"

definition plan_phase :: "orchestrator \<Rightarrow> signal_envelope \<Rightarrow> hydrated_context \<Rightarrow> hypothesis_record \<Rightarrow> routing_decision \<Rightarrow>
    execution_plan run" where
  "plan_phase e sig context hypothesis routing =
    bind (if rd_requires_clarification routing
      then bind (reading (or_uuid e)) (\<lambda>uuid. lift (buildClarificationPlan uuid routing sig context))
      else do_formulatePlan e (rd_object routing) (hc_object context) (hy_object hypothesis)) (\<lambda>plan.
    bind (lift (validatePlanInputBindings (Some (ep_steps plan)))) (\<lambda>_. ret plan))"

definition pipeline_attempt :: "orchestrator \<Rightarrow> signal_envelope \<Rightarrow> string \<Rightarrow> string \<Rightarrow> int \<Rightarrow> bool \<Rightarrow> run_result run" where
  "pipeline_attempt e sig r request_id attempt assert_lease =
    (let t = sg_tenant_id sig in
     bind (traceStage e t r attempt (num 0) CONTEXT
       (do_hydrateContext e t (subject_object sig) (sg_correlation_id sig))) (\<lambda>context.
     bind (do_isTakenOver e t (hc_session_id context)) (\<lambda>taken.
     if taken then bind (do_transitionTask e t r Stopped None None) (\<lambda>_. ret (ends_as r Stopped None))
     else
       bind (traceStage e t r attempt (num 0) HYPOTHESIS
         (bind (do_deriveHypothesis e (sg_object sig) (hc_object context)) (\<lambda>derived.
          bind (lift (enforceEpistemicSeparation derived)) (\<lambda>_. ret derived)))) (\<lambda>hypothesis.
       bind (traceStage e t r attempt (num 0) DECISION
         (bind (do_resolveRouting e (sg_object sig) (hc_object context) (hy_object hypothesis)) (\<lambda>d.
          ret (assertOrchestratorBrokered d)))) (\<lambda>routing.
       bind (traceStage e t r attempt (num 0) PLAN (plan_phase e sig context hypothesis routing)) (\<lambda>plan.
       bind (look rs_chain) (\<lambda>previous.
       bind (do_updateTaskProgress e t r (num 1) (Saved \<lparr>ck_signal = Some (sg_object sig), ck_plan = plan,
           ck_current_step = num 1, ck_pending_action = None, ck_context = context, ck_previous = previous,
           ck_request_id = request_id\<rparr>)) (\<lambda>_.
         run_steps e \<lparr>sp_signal = Some sig, sp_tenant_id = t, sp_run_id = r, sp_correlation_id = sg_correlation_id sig,
           sp_request_id = request_id, sp_plan = plan, sp_context = context, sp_from_step = num 1,
           sp_approved_action = None, sp_approval_ref = None, sp_attempt_ordinal = attempt,
           sp_assert_lease = assert_lease\<rparr> previous None None))))))))"

definition runGuardedPipeline :: "orchestrator \<Rightarrow> signal_envelope \<Rightarrow> string \<Rightarrow> string \<Rightarrow> string \<Rightarrow> int \<Rightarrow> bool \<Rightarrow>
    run_result run" where
  "runGuardedPipeline e sig r request_id w attempt assert_lease =
    withDurableRecovery e (sg_tenant_id sig) r w None (pipeline_attempt e sig r request_id attempt assert_lease)"

subsection \<open>A first pass\<close>

definition fresh_run :: "unit run" where
  "fresh_run = bind (modify (rs_journal_update (\<lambda>_. []))) (\<lambda>_. modify (rs_chain_update (\<lambda>_. GENESIS_HASH)))"

definition open_run :: "orchestrator \<Rightarrow> signal_envelope \<Rightarrow> string \<Rightarrow> int run" where
  "open_run e sig r =
    bind (do_createTask e (sg_tenant_id sig) r (sg_correlation_id sig)) (\<lambda>_.
    bind (attempt_of e (sg_tenant_id sig) r 1) (\<lambda>attempt.
    bind (traceStage e (sg_tenant_id sig) r attempt (num 0) SIGNAL (ret ())) (\<lambda>_. ret attempt)))"

definition lead_run :: "orchestrator \<Rightarrow> signal_envelope \<Rightarrow> string \<Rightarrow> run_result run" where
  "lead_run e sig r =
    bind (do_acquireLease e (sg_tenant_id sig) r (or_worker_id e)) (\<lambda>leaseAcquired.
    if \<not> leaseAcquired then throw (OrchestratorError ''CONCURRENT_TASK_LOCK'')
    else
      bind (catch (open_run e sig r)
        (\<lambda>error. bind (do_releaseLease e (sg_tenant_id sig) r (or_worker_id e)) (\<lambda>_. throw error))) (\<lambda>attempt.
      runGuardedPipeline e sig r (sg_signal_id sig) (or_worker_id e) attempt False))"

definition processSignal :: "orchestrator \<Rightarrow> signal_envelope \<Rightarrow> run_result run" where
  "processSignal e sig =
    bind fresh_run (\<lambda>_.
    bind (lift (validateSignalEnvelope sig)) (\<lambda>_.
    bind (reading (or_uuid e)) (\<lambda>uuid.
      lead_run e sig (''run_'' @ uuid))))"

end
