(* ===== verification/RunResume.thy ===== *)
theory RunResume
  imports RunEngine
begin

text \<open>
  The two entry points that continue a durable task (\<open>revenue-orchestrator.ts\<close>): \<open>processQueuedSignal\<close>,
  which starts a queued task or reattempts a persisted plan, and \<open>resumeTask\<close>, which continues a parked
  task after a human decision, a reconciliation or a timer. \<open>returnToAgent\<close> closes the file.

  \<open>resumeTask\<close> keeps a flag \<open>executionResumed\<close> that is set where its preparation ends; here the
  preparation is a program of its own, and only what follows it is caught. A checkpoint member of a
  queued task that is truthy but no object fails like one that is missing its members.
\<close>

subsection \<open>A queued task\<close>

definition incomplete :: failure where
  "incomplete = OrchestratorError ''CHECKPOINT_INCOMPLETE''"

definition owner_of :: "task_view \<Rightarrow> string" where
  "owner_of task = (case tv_lease_owner task of Some (Some w) \<Rightarrow> w | _ \<Rightarrow> [])"

definition expiry_of :: "task_view \<Rightarrow> jnum" where
  "expiry_of task = (case tv_lease_expires_at task of Some (Some x) \<Rightarrow> x | _ \<Rightarrow> NaN)"

definition present :: "'a cell \<Rightarrow> bool" where
  "present c \<longleftrightarrow> c \<noteq> Absent"

definition same_canonical :: "runtime \<Rightarrow> json \<Rightarrow> json \<Rightarrow> bool result" where
  "same_canonical rt a b =
    andThen (durable_canonicalizeJson rt a) (\<lambda>x. andThen (durable_canonicalizeJson rt b) (\<lambda>y. Inr (x = y)))"

text \<open>The refusals about who may run the task, and the payload of the task they admit.\<close>

definition admit_queued :: "orchestrator \<Rightarrow> int \<Rightarrow> signal_envelope \<Rightarrow> string \<Rightarrow> task_view option \<Rightarrow>
    (task_view \<times> stored_task) result" where
  "admit_queued e now sig w found =
    (case found of None \<Rightarrow> Inl (OrchestratorError ''TASK_NOT_FOUND'') | Some task \<Rightarrow>
     if tv_state task \<noteq> Running \<and> tv_state task \<noteq> Queued then Inl (OrchestratorError ''INVALID_TASK_STATE'')
     else if owner_of task = [] \<or> owner_of task \<noteq> w then Inl (OrchestratorError ''CONCURRENT_TASK_LOCK'')
     else if \<not> is_finite (expiry_of task) \<or> \<not> num_less (Fin (of_int now)) (expiry_of task)
     then Inl (OrchestratorError ''TASK_LEASE_EXPIRED'')
     else if tv_correlation_id task \<noteq> sg_correlation_id sig then Inl (OrchestratorError ''SIGNAL_MISMATCH'')
     else case tv_payload task of NoObject \<Rightarrow> Inl incomplete | Stored payload \<Rightarrow>
       (case st_signal payload of None \<Rightarrow> Inl incomplete | Some stored \<Rightarrow>
         andThen (same_canonical (or_runtime e) stored (sg_object sig)) (\<lambda>same.
           if \<not> same then Inl (OrchestratorError ''SIGNAL_MISMATCH'') else Inr (task, payload))))"

text \<open>The complete plan cursor of a persisted plan.\<close>

definition persisted_cursor :: "stored_task \<Rightarrow> signal_envelope \<Rightarrow> task_checkpoint result" where
  "persisted_cursor payload sig =
    (case (st_plan payload, st_context payload, st_request_id payload, st_current_step payload, st_previous payload) of
       (Held plan, Held context, JStr request, Some n, JStr previous) \<Rightarrow>
         if request = [] \<or> request \<noteq> sg_signal_id sig \<or> \<not> is_integer n \<or> num_less n (num 1) \<or> previous = []
         then Inl incomplete
         else andThen (validatePlanInputBindings (Some (ep_steps plan))) (\<lambda>_.
           Inr \<lparr>ck_signal = st_signal payload, ck_plan = plan, ck_current_step = n,
             ck_pending_action = (case st_pending_action payload of Held a \<Rightarrow> Some a | _ \<Rightarrow> None),
             ck_context = context, ck_previous = previous, ck_request_id = request\<rparr>)
     | _ \<Rightarrow> Inl incomplete)"

definition nonempty_text :: "string option \<Rightarrow> bool" where
  "nonempty_text v = (case v of None \<Rightarrow> False | Some s \<Rightarrow> s \<noteq> [])"

text \<open>The only read-only action a recovery dispatches as persisted: a released, modified one.\<close>

definition released_read_only :: "action_draft option \<Rightarrow> action_draft option" where
  "released_read_only pending = (case pending of None \<Rightarrow> None | Some a \<Rightarrow>
     if num_less (num 0) (ac_action_revision a) \<and> ac_required_authority a = JStr ''AUTH-4''
        \<and> nonempty_text (ac_approval_id a) \<and> nonempty_text (ac_approval_payload_digest a) \<and> \<not> ac_mutating a
     then Some a else None)"

definition restarted_mutation :: "task_checkpoint \<Rightarrow> bool" where
  "restarted_mutation c = (case ck_pending_action c of None \<Rightarrow> False | Some a \<Rightarrow>
     ac_mutating a \<and> same_number (ac_step_index a) (ck_current_step c))"

definition reattempt_params :: "signal_envelope \<Rightarrow> string \<Rightarrow> task_checkpoint \<Rightarrow> int \<Rightarrow> step_params" where
  "reattempt_params sig r c attempt =
    (let released = released_read_only (ck_pending_action c) in
     \<lparr>sp_signal = Some sig, sp_tenant_id = sg_tenant_id sig, sp_run_id = r, sp_correlation_id = sg_correlation_id sig,
      sp_request_id = ck_request_id c, sp_plan = ck_plan c, sp_context = ck_context c,
      sp_from_step = ck_current_step c, sp_approved_action = released,
      sp_approval_ref = (case released of None \<Rightarrow> None | Some a \<Rightarrow>
        Some \<lparr>ar_approval_id = ac_approval_id a, ar_decision = Some ''MODIFIED'', ar_operator_id = None\<rparr>),
      sp_attempt_ordinal = attempt, sp_assert_lease = True\<rparr>)"

definition reattempt :: "orchestrator \<Rightarrow> signal_envelope \<Rightarrow> string \<Rightarrow> stored_task \<Rightarrow> int \<Rightarrow> run_result run" where
  "reattempt e sig r payload attempt =
    (let t = sg_tenant_id sig in
     bind (lift (persisted_cursor payload sig)) (\<lambda>c.
     bind (lift (if st_pending_action payload = Absent then Inl type_error else Inr ())) (\<lambda>_.
     if restarted_mutation c then throw (OrchestratorError ''CHECKPOINT_REQUIRES_RECONCILIATION'')
     else
       bind (replayCommittedStages c) (\<lambda>_.
       if num_less (num (length (ep_steps (ck_plan c)))) (ck_current_step c)
       then
         bind (if ep_steps (ck_plan c) = [] then ret None
           else findVerifiedStepReceipt e t r (ck_request_id c) (ps_step_index (last (ep_steps (ck_plan c)))) (ck_plan c)) (\<lambda>found.
         let recovered = map_option (\<lambda>(ev, receipt). (ev, Some receipt)) found in
         bind (record_outcome e t r attempt recovered) (\<lambda>_.
           complete_run e t r (sg_correlation_id sig) (ck_plan c) (ck_context c) (ck_request_id c) (ck_previous c) recovered))
       else
         run_steps e (reattempt_params sig r c attempt) (ck_previous c) None None))))"

definition claim_fence :: "task_view \<Rightarrow> string \<Rightarrow> write_fence" where
  "claim_fence task w = Some (tv_task_version task, w)"

definition processQueuedSignal :: "orchestrator \<Rightarrow> string \<Rightarrow> signal_envelope \<Rightarrow> string option \<Rightarrow> run_result run" where
  "processQueuedSignal e r sig worker_id =
    (let w = (case worker_id of None \<Rightarrow> or_worker_id e | Some x \<Rightarrow> x); t = sg_tenant_id sig in
     bind fresh_run (\<lambda>_.
     bind (lift (validateSignalEnvelope sig)) (\<lambda>_.
     bind (do_getTask e t r) (\<lambda>found.
     bind (reading (or_now e)) (\<lambda>now.
     bind (lift (admit_queued e now sig w found)) (\<lambda>admitted.
     let task = fst admitted; payload = snd admitted;
         persisted = present (st_plan payload) \<or> present (st_pending_action payload) in
     bind (attempt_of e t r ((case tv_retry_count task of None \<Rightarrow> 0 | Some n \<Rightarrow> n) + 1)) (\<lambda>attempt.
     if persisted
     then
       bind (perform_if (tv_state task = Queued) (do_transitionTask e t r Running None (claim_fence task w))) (\<lambda>_.
         withDurableRecovery e t r w (Some payload) (reattempt e sig r payload attempt))
     else
       bind (traceStage e t r attempt (num 0) SIGNAL (ret ())) (\<lambda>_.
       bind (perform_if (tv_state task = Queued) (do_transitionTask e t r Running None (claim_fence task w))) (\<lambda>_.
         runGuardedPipeline e sig r (sg_signal_id sig) w attempt True)))))))))"

subsection \<open>Resuming: who may\<close>

definition is_decision :: "resume_input \<Rightarrow> bool" where
  "is_decision ev \<longleftrightarrow> rv_event_type ev \<in>
     {''human.approval'', ''human.modify'', ''human.reject'', ''human.pause'', ''human.cancel''}"

definition is_reconciliation :: "resume_input \<Rightarrow> bool" where
  "is_reconciliation ev \<longleftrightarrow> rv_event_type ev = ''human.reconcile''"

definition is_automatic :: "resume_input \<Rightarrow> bool" where
  "is_automatic ev \<longleftrightarrow> rv_event_type ev \<in> {''timer.expired'', ''reconcile.completed''}"

definition is_handoff_evidence :: "resume_input \<Rightarrow> bool" where
  "is_handoff_evidence ev \<longleftrightarrow> rv_event_type ev = ''human.handoff.evidence''"

definition event_mismatch :: "resume_input \<Rightarrow> task_state \<Rightarrow> bool" where
  "event_mismatch ev st \<longleftrightarrow>
     (is_decision ev \<and> st \<noteq> AwaitingHuman) \<or> (is_handoff_evidence ev \<and> st \<noteq> AwaitingHuman)
     \<or> (is_reconciliation ev \<and> st \<noteq> Waiting) \<or> (is_automatic ev \<and> st \<noteq> Waiting)"

definition has_fence :: "task_view \<Rightarrow> bool" where
  "has_fence task \<longleftrightarrow> tv_lease_owner task \<noteq> None \<or> tv_lease_expires_at task \<noteq> None"

definition resume_event_of :: "task_view \<Rightarrow> json" where
  "resume_event_of task = (case tv_payload task of NoObject \<Rightarrow> JUndef | Stored p \<Rightarrow> st_resume_event p)"

definition check_fence :: "orchestrator \<Rightarrow> int \<Rightarrow> resume_input \<Rightarrow> task_view \<Rightarrow> unit result" where
  "check_fence e now ev task =
    (if tv_lease_owner task \<noteq> Some (Some (or_worker_id e))
        \<or> (case tv_lease_expires_at task of Some (Some x) \<Rightarrow> \<not> (num_less (Fin (of_int now)) x \<or> x = NaN) | _ \<Rightarrow> True)
     then Inl (OrchestratorError ''CONCURRENT_TASK_LOCK'')
     else if \<not> isPlainJsonObject (resume_event_of task) then Inl (OrchestratorError ''RESUME_EVENT_CONFLICT'')
     else andThen (same_canonical (or_runtime e) (resume_event_of task) (rv_object ev)) (\<lambda>same.
       if \<not> same then Inl (OrchestratorError ''RESUME_EVENT_CONFLICT'') else Inr ()))"

definition resume_fence :: "orchestrator \<Rightarrow> bool \<Rightarrow> task_view \<Rightarrow> write_fence" where
  "resume_fence e fenced task = (if fenced then Some (tv_task_version task, or_worker_id e) else None)"

definition clearResumeEvent :: "orchestrator \<Rightarrow> resume_input \<Rightarrow> string \<Rightarrow> bool \<Rightarrow> task_view \<Rightarrow> task_checkpoint \<Rightarrow> unit run" where
  "clearResumeEvent e ev r fenced task c =
    do_transitionTask e (rv_tenant_id ev) r Waiting
      (Some (Checkpoint (c\<lparr>ck_signal := payload_signal (tv_payload task)\<rparr>))) (resume_fence e fenced task)"

subsection \<open>Resuming: the three preparations\<close>

text \<open>What a preparation leaves: the run is over, or it continues from a task and a checkpoint.\<close>

record resumption =
  rm_task :: task_view
  rm_checkpoint :: task_checkpoint
  rm_released :: "action_draft option"
  rm_approval_ref :: "approval_ref option"
  rm_reconciled_action :: "action_draft option"
  rm_reconciled_effect :: "reconciled_effect option"
  rm_resumed :: bool
  rm_attempt :: int

definition plain :: "json \<Rightarrow> jobject option" where
  "plain v = as_record v"

definition handoff_action :: "jobject \<Rightarrow> action_draft option \<Rightarrow> jobject option" where
  "handoff_action payload pending = (case plain (member payload ''action'') of
     Some a \<Rightarrow> Some a | None \<Rightarrow> map_option draft_object pending)"

definition text_member :: "jobject \<Rightarrow> string \<Rightarrow> string" where
  "text_member o1 k = (case member o1 k of JStr s \<Rightarrow> s | _ \<Rightarrow> [])"

definition handoff_effect_key :: "jobject \<Rightarrow> resume_input \<Rightarrow> jobject \<Rightarrow> string" where
  "handoff_effect_key payload ev action =
    (case or_null (member payload ''effect_key'') of
       JStr s \<Rightarrow> s
     | JNull \<Rightarrow> (case rv_effect_key ev of Some k \<Rightarrow> k | None \<Rightarrow> text_member action ''effect_key'')
     | _ \<Rightarrow> text_member action ''effect_key'')"

definition handoff_step :: "task_checkpoint \<Rightarrow> jnum \<Rightarrow> planned_step option" where
  "handoff_step c n = (case find_step (ck_plan c) n of Some s \<Rightarrow> Some s
     | None \<Rightarrow> let i = ordinal (ck_current_step c) - 1 in
         if i < length (ep_steps (ck_plan c)) then Some (ep_steps (ck_plan c) ! i) else None)"

definition duplicate_row :: "orchestrator \<Rightarrow> failure \<Rightarrow> bool" where
  "duplicate_row e error \<longleftrightarrow>
     error \<in> OrchestratorError ` {''EVIDENCE_APPEND_ONLY_VIOLATION'', ''AGENT_RUN_LOG_APPENDED'', ''AUDIT_RECORD_APPENDED''}
     \<or> or_reports_duplicate e error"

text \<open>Repairing the evidence of an escalation whose queue row was already committed.\<close>

definition repair_handoff :: "orchestrator \<Rightarrow> resume_input \<Rightarrow> string \<Rightarrow> task_view \<Rightarrow> task_checkpoint \<Rightarrow> run_result run" where
  "repair_handoff e ev r task c =
    (let t = rv_tenant_id ev;
         n = (case rv_step_index ev of Some x \<Rightarrow> x | None \<Rightarrow> ck_current_step c) in
     (case plain (rv_evidence_payload ev) of
        None \<Rightarrow> throw (OrchestratorError ''HANDOFF_EVIDENCE_REPAIR_INVALID'')
      | Some payload \<Rightarrow>
     (case (handoff_action payload (ck_pending_action c), handoff_step c n) of
        (Some action, Some step) \<Rightarrow>
          let effect_key = handoff_effect_key payload ev action in
          if effect_key = [] then throw (OrchestratorError ''HANDOFF_EVIDENCE_REPAIR_INVALID'')
          else (case or_findImmutableRecord e of
            None \<Rightarrow> throw (OrchestratorError ''HANDOFF_EVIDENCE_REPAIR_UNBOUND'')
          | Some f \<Rightarrow>
            bind (port (\<lambda>h. f h t r effect_key n) (\<lambda>x. Evidence (EvidenceFound t r (Some effect_key) n x))) (\<lambda>existing.
            bind (case existing of Some x \<Rightarrow> ret x | None \<Rightarrow>
              do_createImmutableRecord e \<lparr>rp_run_id = r, rp_tenant_id = t, rp_correlation_id = tv_correlation_id task,
                rp_step_index = n, rp_effect_key = effect_key, rp_previous = ck_previous c, rp_payload = payload\<rparr>) (\<lambda>stepEvidence.
            bind (reading (or_now e)) (\<lambda>now.
            bind (catch
              (logRun e \<lparr>ls_tenant_id = t, ls_run_id = r, ls_trigger = ''signal'', ls_step = step,
                  ls_context = ck_context c, ls_started_at = or_stamp e now, ls_start_time = now\<rparr>
                \<lparr>le_status = ''success'', le_authority = text_member action ''required_authority'', le_approval = JNull,
                 le_action = JObj action, le_evidence = evidence_object stepEvidence, le_error = JNull,
                 le_cost = (case plain (member payload ''receipt'') of None \<Rightarrow> None | Some rec \<Rightarrow>
                    map_option JObj (plain (member rec ''token_usage''))),
                 le_terminal = True\<rparr>)
              (\<lambda>logError. if duplicate_row e logError then ret () else throw logError)) (\<lambda>_.
            bind (do_clearHandoffEvidence e t r (tv_task_version task) (rv_object ev)) (\<lambda>_.
              ret (ends_as r AwaitingHuman (Some stepEvidence))))))))
      | _ \<Rightarrow> throw (OrchestratorError ''HANDOFF_EVIDENCE_REPAIR_INVALID''))))"

definition without_signal :: "task_checkpoint \<Rightarrow> task_checkpoint" where
  "without_signal c = c\<lparr>ck_signal := None\<rparr>"

text \<open>\<open>human.reconcile\<close>: the provider's proof, made durable before the run continues.\<close>

definition prepare_reconciliation :: "orchestrator \<Rightarrow> resume_input \<Rightarrow> string \<Rightarrow> bool \<Rightarrow> resumption \<Rightarrow>
    (run_result + resumption) run" where
  "prepare_reconciliation e ev r fenced m =
    (let t = rv_tenant_id ev; c = rm_checkpoint m; task = rm_task m in
     (case ck_pending_action c of
        None \<Rightarrow> throw binding_required
      | Some pending \<Rightarrow>
        if \<not> nonempty_text (rv_operator_id ev) \<or> \<not> ac_mutating pending then throw binding_required
        else if rv_resolution ev = Some ''ESCALATE_MANUALLY''
        then bind (clearResumeEvent e ev r fenced task c) (\<lambda>_. ret (Inl (ends_as r Waiting None)))
        else
          bind (reconcileProviderEffect e pending) (\<lambda>proof.
          bind (do_transitionTask e t r Running (Some (Checkpoint (without_signal c))) (resume_fence e fenced task)) (\<lambda>_.
          bind (do_getTask e t r) (\<lambda>refreshed.
          (case refreshed of
             None \<Rightarrow> throw (OrchestratorError ''TASK_NOT_FOUND'')
           | Some task' \<Rightarrow>
              bind (lift (readCompleteResumeCheckpoint (tv_payload task'))) (\<lambda>c'.
                ret (Inr (m\<lparr>rm_task := task', rm_checkpoint := c', rm_reconciled_effect := Some proof,
                  rm_reconciled_action := Some (case ck_pending_action c' of Some a \<Rightarrow> a | None \<Rightarrow> pending),
                  rm_resumed := True\<rparr>)))))))))"

definition decision_of :: "resume_input \<Rightarrow> human_decision" where
  "decision_of ev =
    (if rv_event_type ev = ''human.approval'' then HumanApproved
     else if rv_event_type ev = ''human.modify'' then HumanModified
     else if rv_event_type ev = ''human.reject'' then HumanRejected
     else if rv_event_type ev = ''human.pause'' then HumanPause else HumanCancelled)"

definition authorized_action :: "runtime \<Rightarrow> human_decision \<Rightarrow> string \<Rightarrow> string \<Rightarrow> action_draft \<Rightarrow> action_draft option result" where
  "authorized_action rt decision approval_id expected candidate =
    (if decision = HumanApproved
     then Inr (Some (candidate\<lparr>ac_approval_id := Some approval_id, ac_approval_payload_digest := Some expected\<rparr>))
     else if decision = HumanModified
     then andThen (sha256CanonicalJson rt (JObj (ac_payload candidate))) (\<lambda>digest.
       Inr (Some (candidate\<lparr>ac_approval_id := Some approval_id, ac_approval_payload_digest := Some digest\<rparr>)))
     else Inr None)"

text \<open>A released action is still subject to floor, current policy and takeover before it is claimed.\<close>

definition check_release :: "orchestrator \<Rightarrow> string \<Rightarrow> task_checkpoint \<Rightarrow> action_draft \<Rightarrow> unit run" where
  "check_release e t c candidate =
    bind (lift (verifyFloorPrice candidate)) (\<lambda>_.
    bind (do_evaluateAuthority e candidate (hc_object (ck_context c))) (\<lambda>eligibility.
    if gr_verdict eligibility = DENIED then throw (OrchestratorError ''AUTHORITY_DENIED'')
    else bind (do_isTakenOver e t (hc_session_id (ck_context c))) (\<lambda>taken.
      if taken then throw (OrchestratorError ''HUMAN_TAKEOVER'') else ret ())))"

definition claim_of :: "resume_input \<Rightarrow> string \<Rightarrow> string \<Rightarrow> string \<Rightarrow> string \<Rightarrow> action_draft \<Rightarrow> action_draft option \<Rightarrow>
    human_decision \<Rightarrow> bool \<Rightarrow> orchestrator \<Rightarrow> task_view \<Rightarrow> claim_request" where
  "claim_of ev r approval_id operator_id expected pending authorized decision fenced e task =
    \<lparr>cq_tenant_id = rv_tenant_id ev, cq_run_id = r, cq_approval_id = approval_id,
     cq_effect_key = ac_effect_key pending, cq_expected_payload_sha256 = expected,
     cq_authorized_action = authorized, cq_decision = decision, cq_operator_id = operator_id,
     cq_review_comment = rv_reason ev,
     cq_fence = (if fenced \<and> isPlainJsonObject (resume_event_of task)
       then Some (tv_task_version task, or_worker_id e, resume_event_of task) else None)\<rparr>"

definition decision_label :: "human_decision \<Rightarrow> string" where
  "decision_label d = (case d of HumanApproved \<Rightarrow> ''APPROVED'' | HumanModified \<Rightarrow> ''MODIFIED'' | HumanRejected \<Rightarrow> ''REJECTED''
     | HumanPause \<Rightarrow> ''PAUSE'' | HumanCancelled \<Rightarrow> ''CANCELLED'')"

definition prepare_decision :: "orchestrator \<Rightarrow> resume_input \<Rightarrow> string \<Rightarrow> bool \<Rightarrow> resumption \<Rightarrow>
    (run_result + resumption) run" where
  "prepare_decision e ev r fenced m =
    (let t = rv_tenant_id ev; c = rm_checkpoint m; decision = decision_of ev in
     (case (rv_approval_id ev, ck_pending_action c, rv_operator_id ev, rv_expected_payload_sha256 ev) of
        (Some approval_id, Some pending, Some operator_id, Some expected) \<Rightarrow>
          if approval_id = [] \<or> operator_id = [] \<or> expected = []
          then throw (OrchestratorError ''APPROVAL_BINDING_REQUIRED'')
          else if decision = HumanModified \<and> rv_modifications ev = None
          then throw (OrchestratorError ''MODIFICATION_REQUIRED'')
          else
            bind (case (decision, rv_modifications ev) of
                (HumanModified, Some delta) \<Rightarrow> applyModification e pending delta (ck_context c)
              | _ \<Rightarrow> ret pending) (\<lambda>candidate.
            bind (lift (authorized_action (or_runtime e) decision approval_id expected candidate)) (\<lambda>authorized.
            bind (perform_if (authorized \<noteq> None) (check_release e t c candidate)) (\<lambda>_.
            bind (do_claimApprovalAndResume e (claim_of ev r approval_id operator_id expected pending authorized decision
              fenced e (rm_task m))) (\<lambda>claimed.
            if \<not> claimed then throw (OrchestratorError ''APPROVAL_NOT_CLAIMABLE'')
            else if decision = HumanPause then ret (Inl (ends_as r AwaitingHuman None))
            else if decision = HumanRejected \<or> decision = HumanCancelled then ret (Inl (ends_as r Stopped None))
            else ret (Inr (m\<lparr>rm_released := authorized,
              rm_approval_ref := Some \<lparr>ar_approval_id = Some approval_id,
                ar_decision = Some (decision_label decision), ar_operator_id = Some operator_id\<rparr>,
              rm_resumed := True\<rparr>))))))
      | _ \<Rightarrow> throw (OrchestratorError ''APPROVAL_BINDING_REQUIRED'')))"

definition prepare_automatic :: "orchestrator \<Rightarrow> resume_input \<Rightarrow> string \<Rightarrow> bool \<Rightarrow> resumption \<Rightarrow>
    (run_result + resumption) run" where
  "prepare_automatic e ev r fenced m =
    (let t = rv_tenant_id ev in
     bind (clearResumeEvent e ev r fenced (rm_task m) (rm_checkpoint m)) (\<lambda>_.
     bind (do_getTask e t r) (\<lambda>refreshed.
     (case refreshed of
        None \<Rightarrow> throw (OrchestratorError ''TASK_NOT_FOUND'')
      | Some task \<Rightarrow>
         bind (lift (readCompleteResumeCheckpoint (tv_payload task))) (\<lambda>c.
         bind (do_transitionTask e t r Running None (resume_fence e fenced task)) (\<lambda>_.
           ret (Inr (m\<lparr>rm_task := task, rm_checkpoint := c, rm_resumed := True\<rparr>))))))))"

definition prepare_resume :: "orchestrator \<Rightarrow> resume_input \<Rightarrow> string \<Rightarrow> bool \<Rightarrow> (run_result + resumption) run" where
  "prepare_resume e ev r fenced =
    (let t = rv_tenant_id ev in
     bind (do_getTask e t r) (\<lambda>found.
     (case found of
        None \<Rightarrow> throw (OrchestratorError ''TASK_NOT_FOUND'')
      | Some task \<Rightarrow>
        if event_mismatch ev (tv_state task) then throw (OrchestratorError ''CONCURRENT_TASK_LOCK'')
        else
          bind (reading (or_now e)) (\<lambda>now.
          bind (lift (if fenced then check_fence e now ev task else Inr ())) (\<lambda>_.
          bind (attempt_of e t r ((case tv_retry_count task of None \<Rightarrow> 0 | Some n \<Rightarrow> n) + 1)) (\<lambda>attempt.
          bind (lift (readCompleteResumeCheckpoint (tv_payload task))) (\<lambda>c.
          bind (replayCommittedStages c) (\<lambda>_.
          let m = \<lparr>rm_task = task, rm_checkpoint = c, rm_released = None, rm_approval_ref = None,
                rm_reconciled_action = None, rm_reconciled_effect = None, rm_resumed = False, rm_attempt = attempt\<rparr> in
          if is_handoff_evidence ev then bind (repair_handoff e ev r task c) (\<lambda>res. ret (Inl res))
          else if is_reconciliation ev then prepare_reconciliation e ev r fenced m
          else if is_decision ev then prepare_decision e ev r fenced m
          else if is_automatic ev then prepare_automatic e ev r fenced m
          else ret (Inr m)))))))))"

subsection \<open>Resuming: the guarded loop\<close>

definition resume_params :: "resume_input \<Rightarrow> string \<Rightarrow> resumption \<Rightarrow> step_params" where
  "resume_params ev r m =
    (let c = rm_checkpoint m in
     \<lparr>sp_signal = None, sp_tenant_id = rv_tenant_id ev, sp_run_id = r,
      sp_correlation_id = tv_correlation_id (rm_task m), sp_request_id = ck_request_id c, sp_plan = ck_plan c,
      sp_context = ck_context c, sp_from_step = ck_current_step c, sp_approved_action = rm_released m,
      sp_approval_ref = rm_approval_ref m, sp_attempt_ordinal = rm_attempt m, sp_assert_lease = True\<rparr>)"

definition resume_failed :: "orchestrator \<Rightarrow> resume_input \<Rightarrow> string \<Rightarrow> resumption \<Rightarrow> failure \<Rightarrow> run_result run" where
  "resume_failed e ev r m error =
    (if \<not> rm_resumed m then throw error
     else if orchestrator_classifyFailure error = UNKNOWN
     then bind (parkTask e (rv_tenant_id ev) r (rm_checkpoint m)) (\<lambda>_. ret (ends_as r Waiting None))
     else bind (do_recordFailure e (rv_tenant_id ev) r (orchestrator_classifyFailure error) (error_code error)) (\<lambda>_. throw error))"

definition resume_run :: "orchestrator \<Rightarrow> resume_input \<Rightarrow> string \<Rightarrow> bool \<Rightarrow> run_result run" where
  "resume_run e ev r fenced =
    bind (prepare_resume e ev r fenced) (\<lambda>prepared.
    (case prepared of
       Inl done \<Rightarrow> ret done
     | Inr m \<Rightarrow>
        catch (run_steps e (resume_params ev r m) (ck_previous (rm_checkpoint m)) (rm_reconciled_action m) (rm_reconciled_effect m))
          (resume_failed e ev r m)))"

definition resumeTask :: "orchestrator \<Rightarrow> string \<Rightarrow> resume_input \<Rightarrow> run_result run" where
  "resumeTask e r ev =
    (let t = rv_tenant_id ev in
     bind fresh_run (\<lambda>_.
     bind (do_getTask e t r) (\<lambda>found.
     (case found of
        None \<Rightarrow> throw (OrchestratorError ''TASK_NOT_FOUND'')
      | Some task \<Rightarrow>
        if tv_state task \<noteq> AwaitingHuman \<and> tv_state task \<noteq> Waiting
        then throw (OrchestratorError ''INVALID_TASK_STATE'')
        else
          bind (lift (readCompleteResumeCheckpoint (tv_payload task))) (\<lambda>_.
          if event_mismatch ev (tv_state task) then throw (OrchestratorError ''INVALID_TASK_STATE'')
          else
            bind (do_acquireLease e t r (or_worker_id e)) (\<lambda>leaseAcquired.
            if \<not> leaseAcquired then throw (OrchestratorError ''CONCURRENT_TASK_LOCK'')
            else finally_do (resume_run e ev r (has_fence task)) (do_releaseLease e t r (or_worker_id e))))))))"

definition returnToAgent :: "orchestrator \<Rightarrow> string \<Rightarrow> string \<Rightarrow> string \<Rightarrow> unit run" where
  "returnToAgent e t session_id operator_id = do_returnToAgent e t session_id operator_id"

end
