(* ===== verification/RunFrames.thy ===== *)
theory RunFrames
  imports RunResume
begin

text \<open>
  Which events the parts of the orchestrator can add. \<open>calm\<close> events neither reach a provider with an
  action nor read the takeover lock; all of the engine but its two takeover checks and \<open>deliver\<close> is calm.
\<close>

definition calm :: "event \<Rightarrow> bool" where
  "calm ev \<longleftrightarrow> quiet ev \<and> \<not> is_session ev"

lemma calm_simps [simp]:
  "calm (Lease x)" "calm (Task y)" "calm (Stage z)" "calm (Derive d)" "calm (Policy p)" "calm (Effect f)"
  "calm (Evidence v)" "calm (Closing c)" "calm (Adapter (ProviderReconciled a r))"
  by (simp_all add: calm_def)

lemma calm_quiet: "calm ev \<Longrightarrow> quiet ev"
  by (simp add: calm_def)

lemma guarding_calm: "guarding ev \<Longrightarrow> calm ev"
  by (cases ev) (auto simp: guarding_def calm_def)

lemma calm_acquire [emits_calls]: "emits calm (acquireEffectSlot e a r re)"
  by (rule emits_mono [OF emits_acquireEffectSlot guarding_calm])

lemma calm_reconcile [emits_calls]: "emits calm (reconcileProviderEffect e a)"
  by (rule emits_mono [OF emits_reconcileProviderEffect guarding_calm])

lemma emits_enter_journal [emits_rules]: "emits K (enter_journal st)"
  by (rule emits_nothing) (simp add: enter_journal_def split: sum.split)

lemma emits_replay [emits_rules]: "emits K (replayCommittedStages c)"
  by (rule emits_nothing) (simp add: replayCommittedStages_def split: sum.split)

lemma emits_enterStage: "(\<And>z. K (Stage z)) \<Longrightarrow> emits K (enterStage e t r n i st)"
  unfolding enterStage_def by (auto intro!: emits_rules emits_port)

lemma emits_traceStage: "(\<And>z. K (Stage z)) \<Longrightarrow> emits K m \<Longrightarrow> emits K (traceStage e t r n i st m)"
  unfolding traceStage_def by (auto intro!: emits_rules emits_enterStage)

lemma calm_enterStage [emits_calls]: "emits calm (enterStage e t r n i st)"
  by (simp add: emits_enterStage)

lemma calm_traceStage [emits_calls]: "emits calm m \<Longrightarrow> emits calm (traceStage e t r n i st m)"
  by (simp add: emits_traceStage)

lemma calm_shared_journal [emits_calls]: "emits calm (enter_shared_journal e sts)"
proof -
  have "emits calm (\<lambda>s. case journal_run (rs_journal s) sts of
        Inl err \<Rightarrow> (Inl err, s) | Inr j \<Rightarrow> (Inr (), s\<lparr>rs_journal := j\<rparr>))"
    by (rule emits_nothing) (simp split: sum.split)
  then show ?thesis
    unfolding enter_shared_journal_def by (auto intro!: emits_rules emits_add_event)
qed

lemma calm_attempt_of [emits_calls]: "emits calm (attempt_of e t r n)"
  unfolding attempt_of_def by (auto intro!: emits_rules emits_port)

lemma calm_findVerified [emits_calls]: "emits calm (findVerifiedStepReceipt e t r q n plan)"
  unfolding findVerifiedStepReceipt_def find_by_effect_def find_by_step_def
  by (auto intro!: emits_rules emits_port)

lemma calm_collect_receipts [emits_calls]: "emits calm (collect_receipts e t r q plan bs acc)"
  by (induction bs arbitrary: acc) (auto intro!: emits_rules emits_calls)

lemma calm_resolveStepInputs [emits_calls]: "emits calm (resolveStepInputs e t r q step plan c)"
  unfolding resolveStepInputs_def Let_def by (auto intro!: emits_rules emits_calls emits_port)

lemma calm_draftAction [emits_calls]: "emits calm (draftAction e step c r t q n xs)"
  unfolding draftAction_def by (auto intro!: emits_rules emits_calls)

lemma calm_applyModification [emits_calls]: "emits calm (applyModification e a d c)"
  unfolding applyModification_def Let_def by (auto intro!: emits_rules emits_calls)

lemma calm_logRun [emits_calls]: "emits calm (logRun e sc l)"
  unfolding logRun_def by (auto intro!: emits_rules emits_calls)

lemma calm_parkTask [emits_calls]: "emits calm (parkTask e t r c)"
  unfolding parkTask_def by (auto intro!: emits_rules emits_calls)

lemma calm_save_progress [emits_calls]: "emits calm (save_progress e p n a)"
  unfolding save_progress_def by (auto intro!: emits_rules emits_calls)

lemma calm_park_step [emits_calls]: "emits calm (park_step e p step a)"
  unfolding park_step_def by (auto intro!: emits_rules emits_calls)

lemma calm_stop_taken_over [emits_calls]: "emits calm (stop_taken_over e p step sc)"
  unfolding stop_taken_over_def by (auto intro!: emits_rules emits_calls)

lemma calm_recover_receipt [emits_calls]: "emits calm (recover_receipt e p step)"
  unfolding recover_receipt_def by (auto intro!: emits_rules emits_calls)

lemma calm_draft_step [emits_calls]: "emits calm (draft_step e p step ra re)"
  unfolding draft_step_def Let_def by (auto intro!: emits_rules emits_calls split: option.split bool.split)

lemma calm_stop_denied [emits_calls]: "emits calm (stop_denied e p sc a w)"
  unfolding stop_denied_def by (auto intro!: emits_rules emits_calls)

lemma calm_pause_step [emits_calls]: "emits calm (pause_step e p step sc a w)"
  unfolding pause_step_def by (auto intro!: emits_rules emits_calls)

lemma calm_dispatch_failed [emits_calls]: "emits calm (dispatch_failed e p step sc a w v err)"
  unfolding dispatch_failed_def Let_def by (auto intro!: emits_rules emits_calls)

lemma calm_provider_refused [emits_calls]: "emits calm (provider_refused e p step sc a w v st)"
  unfolding provider_refused_def by (auto intro!: emits_rules emits_calls)

lemma calm_record_step [emits_calls]: "emits calm (record_step e p step sc a w v rc d b)"
  unfolding record_step_def write_evidence_def by (auto intro!: emits_rules emits_calls)

lemma calm_broker [emits_calls]: "emits calm (brokerPlanHandoff e t r c plan cx q h)"
  unfolding brokerPlanHandoff_def by (auto intro!: emits_rules emits_calls emits_port)

lemma calm_collect_evidence [emits_calls]: "emits calm (collect_evidence e t r q plan steps)"
  by (induction steps) (auto intro!: emits_rules emits_calls)

lemma calm_persist [emits_calls]: "emits calm (persistFinalResponse e t r q cx plan)"
  unfolding persistFinalResponse_def do_readResponse_def collectSuccessfulReceipts_def
  by (auto intro!: emits_rules emits_calls emits_port)

lemma calm_record_outcome [emits_calls]: "emits calm (record_outcome e t r n ev)"
  unfolding record_outcome_def updateLearningMemory_def by (auto intro!: emits_rules emits_calls)

lemma calm_complete_run [emits_calls]: "emits calm (complete_run e t r c plan cx q h ev)"
  unfolding complete_run_def by (auto intro!: emits_rules emits_calls)

lemma calm_settle_steps [emits_calls]: "emits calm (settle_steps e p out h)"
  unfolding settle_steps_def by (auto intro!: emits_rules emits_calls)

lemma calm_recover_run [emits_calls]: "emits calm (recover_run e t r c err)"
  unfolding recover_run_def by (auto intro!: emits_rules emits_calls)

lemma calm_fresh_run [emits_calls]: "emits calm fresh_run"
  unfolding fresh_run_def by (auto intro!: emits_rules)

lemma calm_open_run [emits_calls]: "emits calm (open_run e sig r)"
  unfolding open_run_def by (auto intro!: emits_rules emits_calls)

lemma calm_plan_phase [emits_calls]: "emits calm (plan_phase e sig cx h ro)"
  unfolding plan_phase_def by (auto intro!: emits_rules emits_calls)

lemma calm_clearResumeEvent [emits_calls]: "emits calm (clearResumeEvent e ev r b task c)"
  unfolding clearResumeEvent_def by (auto intro!: emits_rules emits_calls)

lemma calm_repair_handoff [emits_calls]: "emits calm (repair_handoff e ev r task c)"
  unfolding repair_handoff_def Let_def by (auto intro!: emits_rules emits_calls emits_port split: option.split)

lemma calm_prepare_automatic [emits_calls]: "emits calm (prepare_automatic e ev r b m)"
  unfolding prepare_automatic_def Let_def by (auto intro!: emits_rules emits_calls)

text \<open>The release check reads the takeover lock, so it is only quiet.\<close>

lemma quiet_of_calm: "emits calm m \<Longrightarrow> emits quiet m"
  by (rule emits_mono [OF _ calm_quiet])

lemma quiet_check_release: "emits quiet (check_release e t c a)"
  unfolding check_release_def by (auto intro!: emits_rules emits_calls)

lemma quiet_prepare_decision: "emits quiet (prepare_decision e ev r b m)"
  unfolding prepare_decision_def Let_def
  by (auto intro!: emits_rules quiet_check_release quiet_of_calm [OF calm_applyModification] emits_claimApprovalAndResume
      split: option.split human_decision.split)

end
