(* ===== verification/RunSafety.thy ===== *)
theory RunSafety
  imports RunFrames
begin

text \<open>
  What holds whenever the engine reaches a provider with an action: the current policy approved exactly
  this action, the session was not taken over when last read, the run's \<open>EXECUTION\<close> stage is recorded, the
  lease was just asserted, and a mutating action has a slot of its effect key left. The triples follow
  the phases of the step engine.
\<close>

abbreviation hist :: "(event list \<Rightarrow> bool) \<Rightarrow> run_state \<Rightarrow> bool" where
  "hist P \<equiv> (\<lambda>s. P (rs_events s))"

subsection \<open>Readings of a history\<close>

fun last_verdict :: "event list \<Rightarrow> (action_draft \<times> gate_result result) option" where
  "last_verdict [] = None"
| "last_verdict (Policy (AuthorityEvaluated a r) # es) = Some (a, r)"
| "last_verdict (_ # es) = last_verdict es"

fun last_takeover :: "event list \<Rightarrow> bool result option" where
  "last_takeover [] = None"
| "last_takeover (Session (TakeoverRead t sid r) # es) = Some r"
| "last_takeover (_ # es) = last_takeover es"

fun last_stage :: "event list \<Rightarrow> stage_event option" where
  "last_stage [] = None"
| "last_stage (Stage z # es) = Some z"
| "last_stage (_ # es) = last_stage es"

text \<open>How often a slot of an effect key was opened, and how often a mutating action used one.\<close>

fun opens :: "string \<Rightarrow> event \<Rightarrow> bool" where
  "opens k (Effect (EffectReserved i (Inr Reserved))) = (ri_effect_key i = k)"
| "opens k (Effect (EffectReopened t k' (Inr True))) = (k' = k)"
| "opens k _ = False"

fun sends :: "string \<Rightarrow> event \<Rightarrow> bool" where
  "sends k (Adapter (Dispatched a t d)) = (ac_mutating a \<and> ac_effect_key a = k)"
| "sends k _ = False"

definition slots :: "string \<Rightarrow> event list \<Rightarrow> nat" where
  "slots k es = length (filter (opens k) es)"

definition sent :: "string \<Rightarrow> event list \<Rightarrow> nat" where
  "sent k es = length (filter (sends k) es)"

lemma slots_Cons [simp]: "slots k (ev # es) = (if opens k ev then 1 else 0) + slots k es"
  by (simp add: slots_def)

lemma sent_Cons [simp]: "sent k (ev # es) = (if sends k ev then 1 else 0) + sent k es"
  by (simp add: sent_def)

lemma quiet_sends [simp]: "quiet ev \<Longrightarrow> \<not> sends k ev"
  by (cases "(k, ev)" rule: sends.cases) auto

lemma last_takeover_calm: "calm ev \<Longrightarrow> last_takeover (ev # es) = last_takeover es"
  by (cases "ev # es" rule: last_takeover.cases) (auto simp: calm_def)

lemma last_verdict_other: "\<not> is_policy ev \<Longrightarrow> last_verdict (ev # es) = last_verdict es"
  by (cases "ev # es" rule: last_verdict.cases) auto

lemma last_stage_other: "\<not> is_stage ev \<Longrightarrow> last_stage (ev # es) = last_stage es"
  by (cases "ev # es" rule: last_stage.cases) auto

subsection \<open>Admitted dispatches\<close>

definition approved :: "action_draft \<Rightarrow> event list \<Rightarrow> bool" where
  "approved a es \<longleftrightarrow> (\<exists>g. last_verdict es = Some (a, Inr g) \<and> gr_verdict g = AUTO_APPROVED
     \<and> gr_autonomy_workflow g \<noteq> Some PARKED_DRAFT)"

definition staged :: "orchestrator \<Rightarrow> string \<Rightarrow> string \<Rightarrow> event list \<Rightarrow> bool" where
  "staged e t r es \<longleftrightarrow> (or_nextAttemptOrdinal e \<noteq> None \<longrightarrow>
     (\<exists>n i. last_stage es = Some (StageRecorded t r n i EXECUTION (Inr ()))))"

definition leased :: "orchestrator \<Rightarrow> action_draft \<Rightarrow> event list \<Rightarrow> bool" where
  "leased e a es \<longleftrightarrow> (or_assertExecutionLease e \<noteq> None \<longrightarrow>
     (\<exists>rest. es = Lease (LeaseAsserted (ac_tenant_id a) (ac_run_id a) (Inr ())) # rest))"

definition has_slot :: "action_draft \<Rightarrow> event list \<Rightarrow> bool" where
  "has_slot a es \<longleftrightarrow> (ac_mutating a \<longrightarrow> sent (ac_effect_key a) es < slots (ac_effect_key a) es)"

definition admitted :: "orchestrator \<Rightarrow> string \<Rightarrow> string \<Rightarrow> action_draft \<Rightarrow> event list \<Rightarrow> bool" where
  "admitted e t r a es \<longleftrightarrow> approved a es \<and> last_takeover es = Some (Inr False)
     \<and> staged e t r es \<and> leased e a es \<and> has_slot a es"

text \<open>Every attempt to reach a provider found the history before it in order.\<close>

fun all_admitted :: "orchestrator \<Rightarrow> string \<Rightarrow> string \<Rightarrow> event list \<Rightarrow> bool" where
  "all_admitted e t r [] = True"
| "all_admitted e t r (Adapter (Dispatched a tm d) # es) = (admitted e t r a es \<and> all_admitted e t r es)"
| "all_admitted e t r (_ # es) = all_admitted e t r es"

lemma all_admitted_quiet: "quiet ev \<Longrightarrow> all_admitted e t r (ev # es) = all_admitted e t r es"
  by (cases "(e, t, r, ev # es)" rule: all_admitted.cases) auto

lemma all_admitted_sent: "all_admitted e t r es \<Longrightarrow> sent k es \<le> slots k es"
proof (induction es)
  case Nil
  then show ?case by (simp add: sent_def)
next
  case (Cons ev es)
  show ?case
  proof (cases "quiet ev")
    case True
    with Cons show ?thesis by (simp add: all_admitted_quiet le_SucI)
  next
    case False
    then obtain a tm d where ev: "ev = Adapter (Dispatched a tm d)"
      by (cases ev rule: quiet.cases) auto
    with Cons show ?thesis by (auto simp: admitted_def has_slot_def)
  qed
qed

lemma all_admitted_append:
  "list_all quiet new \<Longrightarrow> all_admitted e t r (new @ es) = all_admitted e t r es"
  by (induction new) (auto simp: all_admitted_quiet)

text \<open>A reconciled effect that may be dispatched again holds the slot its reopening gave.\<close>

definition credited :: "reconciled_effect option \<Rightarrow> event list \<Rightarrow> bool" where
  "credited re es \<longleftrightarrow> (case re of Some x \<Rightarrow>
     rc_replay x = None \<longrightarrow> sent (rc_effect_key x) es < slots (rc_effect_key x) es | None \<Rightarrow> True)"

lemma credited_None [simp]: "credited None es"
  by (simp add: credited_def)

lemma credited_quiet: "quiet ev \<Longrightarrow> credited re es \<Longrightarrow> credited re (ev # es)"
  by (auto simp: credited_def split: option.splits)

lemma has_slot_quiet: "quiet ev \<Longrightarrow> has_slot a es \<Longrightarrow> has_slot a (ev # es)"
  by (auto simp: has_slot_def)

definition in_order :: "orchestrator \<Rightarrow> string \<Rightarrow> string \<Rightarrow> reconciled_effect option \<Rightarrow> event list \<Rightarrow> bool" where
  "in_order e t r re es \<longleftrightarrow> all_admitted e t r es \<and> credited re es"

lemma in_order_quiet: "quiet ev \<Longrightarrow> in_order e t r re es \<Longrightarrow> in_order e t r re (ev # es)"
  by (simp add: in_order_def all_admitted_quiet credited_quiet)

lemma in_order_weaken: "in_order e t r re es \<Longrightarrow> in_order e t r None es"
  by (simp add: in_order_def)

text \<open>The assertion every part of the engine returns to, and what it leaves when it throws.\<close>

abbreviation orderly :: "orchestrator \<Rightarrow> string \<Rightarrow> string \<Rightarrow> reconciled_effect option \<Rightarrow> run_state \<Rightarrow> bool" where
  "orderly e t r re \<equiv> hist (in_order e t r re)"

lemma keeps_quiet: "emits quiet m \<Longrightarrow> keeps (orderly e t r re) m"
  by (rule keeps_emits [where K = quiet and P = "in_order e t r re"]) (assumption, rule in_order_quiet)

lemma quiet_triple:
  "emits quiet m \<Longrightarrow> triple (orderly e t r re) m (\<lambda>_. orderly e t r re) (\<lambda>_. orderly e t r None)"
  using keeps_quiet [of m e t r re] unfolding keeps_def
  by (rule triple_conseq) (auto intro: in_order_weaken)

text \<open>The same with a reading the program does not disturb.\<close>

lemma calm_triple:
  assumes "emits K m" and "\<And>ev es. K ev \<Longrightarrow> A es \<Longrightarrow> A (ev # es)" and "\<And>ev. K ev \<Longrightarrow> quiet ev"
  shows "triple (hist (\<lambda>es. in_order e t r re es \<and> A es)) m (\<lambda>_. hist (\<lambda>es. in_order e t r re es \<and> A es))
    (\<lambda>_. orderly e t r None)"
proof -
  have "keeps (hist (\<lambda>es. in_order e t r re es \<and> A es)) m"
    by (rule keeps_emits [OF assms(1), where P = "\<lambda>es. in_order e t r re es \<and> A es"])
      (use assms(2,3) in_order_quiet in blast)
  then show ?thesis unfolding keeps_def by (rule triple_conseq) (auto intro: in_order_weaken)
qed

lemma triple_port:
  assumes "\<And>es x. P es \<Longrightarrow> f es = Inr x \<Longrightarrow> Q x (ev (Inr x) # es)"
    and "\<And>es err. P es \<Longrightarrow> f es = Inl err \<Longrightarrow> E err (ev (Inl err) # es)"
  shows "triple (hist P) (port f ev) (\<lambda>x. hist (Q x)) (\<lambda>err. hist (E err))"
proof (rule tripleI)
  fix s :: run_state
  assume P: "P (rs_events s)"
  show "case port f ev s of (Inl err, t) \<Rightarrow> E err (rs_events t) | (Inr x, t) \<Rightarrow> Q x (rs_events t)"
    by (cases "f (rs_events s)") (use P assms in \<open>auto simp: port_def Let_def\<close>)
qed

end
