(* ===== verification/RunTriples.thy ===== *)
theory RunTriples
  imports RunSafety
begin

text \<open>The triples of the step engine and of the entry points, phase by phase.\<close>

subsection \<open>Slots\<close>

lemma reopen_triple:
  assumes A: "\<And>ev es. guarding ev \<Longrightarrow> A es \<Longrightarrow> A (ev # es)"
  shows "triple (hist (\<lambda>es. in_order e t r None es \<and> A es)) (do_reopen e t' k)
    (\<lambda>b. hist (\<lambda>es. in_order e t r None es \<and> A es \<and> (b \<longrightarrow> sent k es < slots k es))) (\<lambda>_. orderly e t r None)"
proof (cases "or_reopenForRetry e")
  case None
  then show ?thesis by (simp add: do_reopen_def triple_ret)
next
  case (Some f)
  have "triple (hist (\<lambda>es. in_order e t r None es \<and> A es))
      (port (\<lambda>h. f h t' k) (\<lambda>x. Effect (EffectReopened t' k x)))
      (\<lambda>b. hist (\<lambda>es. in_order e t r None es \<and> A es \<and> (b \<longrightarrow> sent k es < slots k es))) (\<lambda>_. orderly e t r None)"
  proof (rule triple_port)
    fix es b
    assume "in_order e t r None es \<and> A es" and "f es t' k = Inr b"
    then show "in_order e t r None (Effect (EffectReopened t' k (Inr b)) # es) \<and> A (Effect (EffectReopened t' k (Inr b)) # es)
        \<and> (b \<longrightarrow> sent k (Effect (EffectReopened t' k (Inr b)) # es) < slots k (Effect (EffectReopened t' k (Inr b)) # es))"
      using all_admitted_sent [of e t r es k] A by (auto simp: in_order_def)
  next
    fix es err
    assume "in_order e t r None es \<and> A es"
    then show "in_order e t r None (Effect (EffectReopened t' k (Inl err)) # es)" by (simp add: in_order_def)
  qed
  with Some show ?thesis by (simp add: do_reopen_def)
qed

lemma guarding_quiet: "guarding ev \<Longrightarrow> quiet ev"
  by (rule calm_quiet [OF guarding_calm])

lemma emits_guarding_resolve: "emits guarding (do_resolve e t k st rc)"
  by (simp add: emits_resolve)

lemma emits_guarding_reconcile: "emits guarding (do_reconcile e a)"
  by (simp add: emits_reconcile)

lemmas guarding_triple = calm_triple [where K = guarding, OF _ _ guarding_quiet]

definition gives :: "action_draft \<Rightarrow> effect_slot \<Rightarrow> event list \<Rightarrow> bool" where
  "gives a slot es \<longleftrightarrow> (slot = DispatchSlot \<longrightarrow> has_slot a es)"

lemma reconcile_slot_triple:
  assumes A: "\<And>ev es. guarding ev \<Longrightarrow> A es \<Longrightarrow> A (ev # es)"
  shows "triple (hist (\<lambda>es. in_order e t r None es \<and> A es)) (reconcile_slot e a)
    (\<lambda>slot. hist (\<lambda>es. in_order e t r None es \<and> A es \<and> gives a slot es)) (\<lambda>_. orderly e t r None)"
proof -
  let ?P = "hist (\<lambda>es. in_order e t r None es \<and> A es)"
  let ?Q = "\<lambda>slot. hist (\<lambda>es. in_order e t r None es \<and> A es \<and> gives a slot es)"
  let ?E = "\<lambda>_ :: failure. orderly e t r None"
  have waits: "triple ?P (ret slot) ?Q ?E" if "slot \<noteq> DispatchSlot" for slot
    using that by (simp add: triple_ret gives_def)
  have resolves: "triple ?P (do_resolve e t' k st rc) (\<lambda>_. ?P) ?E" for t' k st rc
    using A by (rule guarding_triple [OF emits_guarding_resolve])
  have failed: "triple ?P (bind (do_resolve e t' k FAILED JUndef) (\<lambda>_. bind (do_reopen e t' k) (\<lambda>reopened.
      ret (if reopened then DispatchSlot else WaitSlot ''EFFECT_UNKNOWN'')))) ?Q ?E" if "k = ac_effect_key a" for t' k
  proof (rule triple_bind [OF resolves], rule triple_bind [OF reopen_triple [where A = A, OF A]], assumption, assumption)
    fix b
    show "triple (hist (\<lambda>es. in_order e t r None es \<and> A es \<and> (b \<longrightarrow> sent k es < slots k es)))
        (ret (if b then DispatchSlot else WaitSlot ''EFFECT_UNKNOWN'')) ?Q ?E"
      by (rule triple_ret) (use that in \<open>simp add: gives_def has_slot_def\<close>)
  qed
  have replays: "triple ?P (bind (do_resolve e t' k SUCCEEDED rc) (\<lambda>_. ret (ReplaySlot rc))) ?Q ?E" for t' k rc
    by (rule triple_bind [OF resolves waits]) simp
  have after: "triple ?P (slot_after e a reconciled) ?Q ?E" for reconciled
    using failed waits replays by (simp add: slot_after_def split: option.split reconciliation_status.split)
  have reads: "triple ?P (do_reconcile e a) (\<lambda>_. ?P) ?E"
    using A by (rule guarding_triple [OF emits_guarding_reconcile])
  show ?thesis unfolding reconcile_slot_def by (rule triple_bind [OF reads after])
qed

lemma acquire_triple:
  assumes A: "\<And>ev es. guarding ev \<Longrightarrow> A es \<Longrightarrow> A (ev # es)"
  shows "triple (hist (\<lambda>es. in_order e t r re es \<and> A es)) (acquireEffectSlot e a run_id re)
    (\<lambda>slot. hist (\<lambda>es. in_order e t r None es \<and> A es \<and> gives a slot es)) (\<lambda>_. orderly e t r None)"
proof -
  let ?Q = "\<lambda>slot. hist (\<lambda>es. in_order e t r None es \<and> A es \<and> gives a slot es)"
  let ?E = "\<lambda>_ :: failure. orderly e t r None"
  let ?R = "\<lambda>x. hist (\<lambda>es. in_order e t r None es \<and> A es \<and> (x = Reserved \<longrightarrow> has_slot a es))"
  have reserves: "triple (hist (\<lambda>es. in_order e t r None es \<and> A es)) (do_reserve e (reservation_of a run_id fp)) ?R ?E" for fp
    unfolding do_reserve_def
  proof (rule triple_port)
    fix es x
    let ?ev = "Effect (EffectReserved (reservation_of a run_id fp) (Inr x))"
    assume pre: "in_order e t r None es \<and> A es" and "or_reserve e es (reservation_of a run_id fp) = Inr x"
    have "x = Reserved \<longrightarrow> opens (ac_effect_key a) ?ev" by (simp add: reservation_of_def)
    then show "in_order e t r None (?ev # es) \<and> A (?ev # es) \<and> (x = Reserved \<longrightarrow> has_slot a (?ev # es))"
      using pre all_admitted_sent [of e t r es "ac_effect_key a"] A [of ?ev es]
      by (auto simp: in_order_def has_slot_def)
  next
    fix es err
    assume "in_order e t r None es \<and> A es"
    then show "in_order e t r None (Effect (EffectReserved (reservation_of a run_id fp) (Inl err)) # es)"
      by (simp add: in_order_def)
  qed
  have outcomes: "triple (?R x) (case x of
       Reserved \<Rightarrow> ret DispatchSlot | Replay receipt \<Rightarrow> ret (ReplaySlot (or_null receipt))
     | InFlight \<Rightarrow> ret (WaitSlot ''EFFECT_IN_FLIGHT'') | Conflict \<Rightarrow> throw (OrchestratorError ''IDEMPOTENCY_CONFLICT'')
     | ReconcileRequired \<Rightarrow> reconcile_slot e a) ?Q ?E" for x
  proof (cases x)
    case ReconcileRequired
    then show ?thesis
      by simp (rule triple_pre [OF reconcile_slot_triple [where A = A, OF A]], assumption, simp)
  qed (auto intro!: triple_ret triple_throw simp: gives_def)
  show ?thesis
  proof (cases "ac_mutating a")
    case False
    then show ?thesis
      by (cases re) (auto simp: acquireEffectSlot_def gives_def has_slot_def in_order_def intro!: triple_ret triple_throw)
  next
    case mutating: True
    show ?thesis
    proof (cases re)
      case None
      have "triple (hist (\<lambda>es. in_order e t r None es \<and> A es)) (bind (lift (or_computeRequestFingerprint e (ac_payload a))) (\<lambda>fp.
          bind (do_reserve e (reservation_of a run_id fp)) (\<lambda>x. case x of
             Reserved \<Rightarrow> ret DispatchSlot | Replay receipt \<Rightarrow> ret (ReplaySlot (or_null receipt))
           | InFlight \<Rightarrow> ret (WaitSlot ''EFFECT_IN_FLIGHT'') | Conflict \<Rightarrow> throw (OrchestratorError ''IDEMPOTENCY_CONFLICT'')
           | ReconcileRequired \<Rightarrow> reconcile_slot e a))) ?Q ?E"
      proof (rule triple_bind)
        show "triple (hist (\<lambda>es. in_order e t r None es \<and> A es)) (lift (or_computeRequestFingerprint e (ac_payload a)))
            (\<lambda>_. hist (\<lambda>es. in_order e t r None es \<and> A es)) ?E"
          by (rule triple_lift) simp_all
        show "triple (hist (\<lambda>es. in_order e t r None es \<and> A es)) (bind (do_reserve e (reservation_of a run_id fp)) (\<lambda>x. case x of
             Reserved \<Rightarrow> ret DispatchSlot | Replay receipt \<Rightarrow> ret (ReplaySlot (or_null receipt))
           | InFlight \<Rightarrow> ret (WaitSlot ''EFFECT_IN_FLIGHT'') | Conflict \<Rightarrow> throw (OrchestratorError ''IDEMPOTENCY_CONFLICT'')
           | ReconcileRequired \<Rightarrow> reconcile_slot e a)) ?Q ?E" for fp
          by (rule triple_bind [OF reserves outcomes])
      qed
      with None mutating show ?thesis by (simp add: acquireEffectSlot_def)
    next
      case (Some x)
      show ?thesis
      proof (cases "rc_effect_key x \<noteq> ac_effect_key a \<or> rc_action_id x \<noteq> ac_action_id a")
        case True
        with Some mutating show ?thesis
          by (auto simp: acquireEffectSlot_def in_order_def intro!: triple_throw)
      next
        case False
        with Some mutating show ?thesis
          by (cases "rc_replay x") (auto simp: acquireEffectSlot_def in_order_def gives_def has_slot_def credited_def
              intro!: triple_ret)
      qed
    qed
  qed
qed

lemma reconcile_effect_triple:
  "triple (orderly e t r None) (reconcileProviderEffect e a) (\<lambda>x. orderly e t r (Some x)) (\<lambda>_. orderly e t r None)"
proof -
  let ?P = "orderly e t r None"
  let ?Q = "\<lambda>x. orderly e t r (Some x)"
  let ?E = "\<lambda>_ :: failure. orderly e t r None"
  have resolves: "triple ?P (do_resolve e t' k st rc) (\<lambda>_. ?P) ?E" for t' k st rc
    using guarding_triple [OF emits_guarding_resolve, where A = "\<lambda>_. True"] by simp
  have reads: "triple ?P (do_reconcile e a) (\<lambda>_. ?P) ?E"
    using guarding_triple [OF emits_guarding_reconcile, where A = "\<lambda>_. True"] by simp
  have reopens: "triple ?P (do_reopen e t' k)
      (\<lambda>b. hist (\<lambda>es. in_order e t r None es \<and> (b \<longrightarrow> sent k es < slots k es))) ?E" for t' k
    using reopen_triple [where A = "\<lambda>_. True"] by simp
  have throws: "triple ?P (throw err) ?Q ?E" for err by (rule triple_throw) simp
  have replays: "triple ?P (ret x) ?Q ?E" if "rc_replay x \<noteq> None" for x
    by (rule triple_ret) (use that in \<open>auto simp: in_order_def credited_def\<close>)
  have failed: "triple ?P (bind (do_resolve e t' k FAILED JUndef) (\<lambda>_. bind (do_reopen e t' k) (\<lambda>reopened.
      if \<not> reopened then throw (OrchestratorError ''RECONCILIATION_REOPEN_FAILED'')
      else ret \<lparr>rc_effect_key = k, rc_action_id = i, rc_replay = None\<rparr>))) ?Q ?E" for t' k i
  proof (rule triple_bind [OF resolves], rule triple_bind [OF reopens])
    fix b
    show "triple (hist (\<lambda>es. in_order e t r None es \<and> (b \<longrightarrow> sent k es < slots k es)))
        (if \<not> b then throw (OrchestratorError ''RECONCILIATION_REOPEN_FAILED'')
         else ret \<lparr>rc_effect_key = k, rc_action_id = i, rc_replay = None\<rparr>) ?Q ?E"
      by (rule triple_if; (rule triple_throw | rule triple_ret)) (auto simp: in_order_def credited_def)
  qed
  have confirmed: "triple ?P (bind (do_resolve e t' k SUCCEEDED rc) (\<lambda>_.
      ret \<lparr>rc_effect_key = k, rc_action_id = i, rc_replay = Some rc\<rparr>)) ?Q ?E" for t' k i rc
    by (rule triple_bind [OF resolves replays]) simp
  have after: "triple ?P (proof_after e a reconciled) ?Q ?E" for reconciled
    using failed throws confirmed by (simp add: proof_after_def split: option.split reconciliation_status.split)
  have "triple ?P (bind (do_reconcile e a) (proof_after e a)) ?Q ?E" by (rule triple_bind [OF reads after])
  with throws show ?thesis by (simp add: reconcileProviderEffect_def)
qed

subsection \<open>Delivery\<close>

text \<open>What the engine knows between the verdict on an action and its dispatch.\<close>

definition cleared :: "action_draft \<Rightarrow> gate_result \<Rightarrow> event list \<Rightarrow> bool" where
  "cleared a g es \<longleftrightarrow> last_verdict es = Some (a, Inr g) \<and> last_takeover es = Some (Inr False)"

lemma cleared_stable: "calm ev \<Longrightarrow> \<not> is_policy ev \<Longrightarrow> cleared a g es \<Longrightarrow> cleared a g (ev # es)"
  by (simp add: cleared_def last_takeover_calm last_verdict_other)

lemma cleared_guarding: "guarding ev \<Longrightarrow> cleared a g es \<Longrightarrow> cleared a g (ev # es)"
  by (rule cleared_stable [OF guarding_calm]) (auto simp: guarding_def)

lemma stage_event_calm: "is_stage ev \<Longrightarrow> calm ev \<and> \<not> is_policy ev"
  by (cases ev) auto

lemma enterStage_triple:
  "triple (hist (\<lambda>es. in_order e t r None es \<and> cleared a g es \<and> has_slot a es)) (enterStage e t r n i EXECUTION)
    (\<lambda>_. hist (\<lambda>es. in_order e t r None es \<and> cleared a g es \<and> has_slot a es \<and> staged e t r es)) (\<lambda>_. orderly e t r None)"
proof -
  let ?P = "\<lambda>es. in_order e t r None es \<and> cleared a g es \<and> has_slot a es"
  let ?Q = "\<lambda>_ :: unit. hist (\<lambda>es. in_order e t r None es \<and> cleared a g es \<and> has_slot a es \<and> staged e t r es)"
  have step: "?P es \<Longrightarrow> ?P (Stage z # es)" for z es
    using cleared_stable [of "Stage z" a g es] by (simp add: in_order_quiet has_slot_quiet)
  have journal: "triple (hist ?P) (enter_journal EXECUTION) (\<lambda>_. hist ?P) (\<lambda>_. orderly e t r None)"
    by (rule tripleI) (auto simp: enter_journal_def split: sum.splits)
  have rest: "triple (hist ?P) (case or_nextAttemptOrdinal e of None \<Rightarrow> ret ()
     | Some _ \<Rightarrow> port (\<lambda>h. or_appendStage e h t r n i EXECUTION) (\<lambda>x. Stage (StageRecorded t r n i EXECUTION x)))
     ?Q (\<lambda>_. orderly e t r None)"
  proof (cases "or_nextAttemptOrdinal e")
    case None
    then show ?thesis by (auto intro!: triple_ret simp: staged_def)
  next
    case (Some f)
    have "triple (hist ?P) (port (\<lambda>h. or_appendStage e h t r n i EXECUTION) (\<lambda>x. Stage (StageRecorded t r n i EXECUTION x)))
      ?Q (\<lambda>_. orderly e t r None)"
      by (rule triple_port [where P = ?P]) (use step in \<open>auto simp: staged_def\<close>)
    with Some show ?thesis by simp
  qed
  show ?thesis unfolding enterStage_def by (rule triple_bind [OF journal rest])
qed

lemma lease_triple:
  "triple (hist (\<lambda>es. in_order e t r None es \<and> cleared a g es \<and> has_slot a es \<and> staged e t r es))
    (do_assertExecutionLease e (ac_tenant_id a) (ac_run_id a))
    (\<lambda>_. hist (\<lambda>es. in_order e t r None es \<and> cleared a g es \<and> has_slot a es \<and> staged e t r es \<and> leased e a es))
    (\<lambda>_. orderly e t r None)"
proof -
  let ?P = "\<lambda>es. in_order e t r None es \<and> cleared a g es \<and> has_slot a es \<and> staged e t r es"
  let ?ev = "\<lambda>x. Lease (LeaseAsserted (ac_tenant_id a) (ac_run_id a) x)"
  have step: "?P es \<Longrightarrow> ?P (?ev x # es)" for x es
    using cleared_stable [of "?ev x" a g es] by (simp add: in_order_quiet has_slot_quiet staged_def)
  show ?thesis
  proof (cases "or_assertExecutionLease e")
    case None
    then show ?thesis by (auto simp: do_assertExecutionLease_def leased_def intro!: triple_ret)
  next
    case (Some f)
    have "triple (hist ?P) (port (\<lambda>h. f h (ac_tenant_id a) (ac_run_id a)) ?ev)
      (\<lambda>_. hist (\<lambda>es. in_order e t r None es \<and> cleared a g es \<and> has_slot a es \<and> staged e t r es \<and> leased e a es))
      (\<lambda>_. orderly e t r None)"
      by (rule triple_port [where P = ?P]) (use step in \<open>auto simp: leased_def\<close>)
    with Some show ?thesis by (simp add: do_assertExecutionLease_def)
  qed
qed

lemma dispatch_triple:
  assumes "gr_verdict g = AUTO_APPROVED" and "gr_autonomy_workflow g \<noteq> Some PARKED_DRAFT"
  shows "triple (hist (\<lambda>es. in_order e t r None es \<and> cleared a g es \<and> has_slot a es \<and> staged e t r es))
    (dispatchWithDeadline e a step) (\<lambda>_. orderly e t r None) (\<lambda>_. orderly e t r None)"
proof -
  have send: "triple (hist (\<lambda>es. in_order e t r None es \<and> cleared a g es \<and> has_slot a es \<and> staged e t r es \<and> leased e a es))
      (do_dispatch e a tm) (\<lambda>_. orderly e t r None) (\<lambda>_. orderly e t r None)" for tm
    using assms
    by (auto simp: triple_def do_dispatch_def Let_def in_order_def admitted_def approved_def cleared_def)
  have answers: "triple (orderly e t r None) (case answer of
        Answered r \<Rightarrow> lift r | DeadlinePassed \<Rightarrow> throw (OrchestratorError ''DISPATCH_TIMEOUT''))
      (\<lambda>_. orderly e t r None) (\<lambda>_. orderly e t r None)" for answer
    by (cases answer) (auto intro!: triple_lift triple_throw)
  have handler: "triple (orderly e t r None) (case error of OrchestratorError c \<Rightarrow> throw error
       | _ \<Rightarrow> throw (OrchestratorError ''PROVIDER_INDETERMINATE'')) (\<lambda>_. orderly e t r None) (\<lambda>_. orderly e t r None)"
    for error :: failure
    by (cases error) (auto intro!: triple_throw)
  show ?thesis
    unfolding dispatchWithDeadline_def
    by (rule triple_catch [OF triple_bind [OF lease_triple triple_bind [OF send answers]] handler])
qed

lemma orderly_triple: "emits calm m \<Longrightarrow> triple (orderly e t r re) m (\<lambda>_. orderly e t r re) (\<lambda>_. orderly e t r None)"
  by (rule quiet_triple [OF quiet_of_calm])

lemma deliver_triple:
  assumes "gr_verdict g = AUTO_APPROVED"
  shows "triple (hist (\<lambda>es. in_order e (sp_tenant_id p) (sp_run_id p) None es \<and> cleared a g es \<and> has_slot a es))
    (deliver e p step sc a w v (gr_autonomy_workflow g))
    (\<lambda>_. orderly e (sp_tenant_id p) (sp_run_id p) None) (\<lambda>_. orderly e (sp_tenant_id p) (sp_run_id p) None)"
proof (cases "gr_autonomy_workflow g = Some PARKED_DRAFT")
  case True
  have "triple (orderly e (sp_tenant_id p) (sp_run_id p) None) (bind (park_step e p step a) (\<lambda>_. ret (Inl (stop_with Waiting))))
     (\<lambda>_. orderly e (sp_tenant_id p) (sp_run_id p) None) (\<lambda>_. orderly e (sp_tenant_id p) (sp_run_id p) None)"
    by (rule orderly_triple) (auto intro!: emits_rules emits_calls)
  then show ?thesis using True unfolding deliver_def by simp (erule triple_pre, simp)
next
  case False
  let ?O = "orderly e (sp_tenant_id p) (sp_run_id p) None"
  have failed: "triple ?O (dispatch_failed e p step sc a w v err) (\<lambda>_. ?O) (\<lambda>_. ?O)" for err
    by (rule orderly_triple) (rule emits_calls)
  have caught: "triple (hist (\<lambda>es. in_order e (sp_tenant_id p) (sp_run_id p) None es \<and> cleared a g es \<and> has_slot a es
        \<and> staged e (sp_tenant_id p) (sp_run_id p) es))
      (catch (bind (dispatchWithDeadline e a step) (\<lambda>receipt. ret (Inr receipt))) (dispatch_failed e p step sc a w v))
      (\<lambda>_. ?O) (\<lambda>_. ?O)"
    by (rule triple_catch [OF triple_bind [OF dispatch_triple [OF assms False]] failed]) (rule triple_ret)
  have after: "triple ?O (case sent of
          Inl done \<Rightarrow> ret (Inl done)
        | Inr receipt \<Rightarrow>
            if member receipt ''adapter_status'' \<noteq> JStr ''SUCCESS''
            then provider_refused e p step sc a w v (member receipt ''adapter_status'')
            else if ac_skill_id a = ''skill.care.escalate_to_human'' then ret (Inl (stop_with AwaitingHuman))
            else bind (perform_if (ps_mutating step)
                (do_resolve e (ac_tenant_id a) (ac_effect_key a) SUCCEEDED (JObj receipt))) (\<lambda>_.
              ret (Inr receipt))) (\<lambda>_. ?O) (\<lambda>_. ?O)" for sent
    by (rule orderly_triple) (auto intro!: emits_rules emits_calls)
  show ?thesis
    using False unfolding deliver_def
    by simp (rule triple_bind [OF enterStage_triple triple_bind [OF caught after]])
qed

subsection \<open>Steps\<close>

lemma admitted_step_triple:
  assumes "gr_verdict g = AUTO_APPROVED"
  shows "triple (hist (\<lambda>es. in_order e (sp_tenant_id p) (sp_run_id p) re es \<and> cleared a g es))
    (admitted_step e p step sc a re (gr_autonomy_workflow g))
    (\<lambda>_. orderly e (sp_tenant_id p) (sp_run_id p) None) (\<lambda>_. orderly e (sp_tenant_id p) (sp_run_id p) None)"
proof -
  let ?O = "orderly e (sp_tenant_id p) (sp_run_id p) None"
  let ?A = "\<lambda>slot. hist (\<lambda>es. in_order e (sp_tenant_id p) (sp_run_id p) None es \<and> cleared a g es \<and> gives a slot es)"
  have quiet: "triple (?A slot) m (\<lambda>_. ?O) (\<lambda>_. ?O)" if "emits calm m" for slot and m :: "step_result run"
    by (rule triple_pre [OF orderly_triple [OF that]]) simp
  have slot: "triple (?A slot) (case slot of
        WaitSlot reason \<Rightarrow> bind (park_step e p step a) (\<lambda>_. ret (Finished (stop_with Waiting)))
      | ReplaySlot receipt \<Rightarrow>
          bind (traceStage e (sp_tenant_id p) (sp_run_id p) (sp_attempt_ordinal p) (ps_step_index step) EXECUTION (ret ())) (\<lambda>_.
            record_step e p step sc a (authority_text a) approval receipt None True)
      | DispatchSlot \<Rightarrow>
          bind (deliver e p step sc a (authority_text a) approval (gr_autonomy_workflow g)) (\<lambda>sent.
          (case sent of
             Inl done \<Rightarrow> ret (Finished done)
           | Inr receipt \<Rightarrow>
               record_step e p step sc a (authority_text a) approval (JObj receipt) (Some receipt) False)))
     (\<lambda>_. ?O) (\<lambda>_. ?O)" for slot approval
  proof (cases slot)
    case DispatchSlot
    have after: "triple ?O (case sent of Inl done \<Rightarrow> ret (Finished done)
        | Inr receipt \<Rightarrow> record_step e p step sc a (authority_text a) approval (JObj receipt) (Some receipt) False)
        (\<lambda>_. ?O) (\<lambda>_. ?O)" for sent
      by (rule orderly_triple) (auto intro!: emits_rules emits_calls)
    have "triple (?A DispatchSlot) (deliver e p step sc a (authority_text a) approval (gr_autonomy_workflow g)) (\<lambda>_. ?O) (\<lambda>_. ?O)"
      by (rule triple_pre [OF deliver_triple [OF assms]]) (simp add: gives_def)
    from triple_bind [OF this after] DispatchSlot show ?thesis by simp
  next
    case (ReplaySlot receipt)
    show ?thesis unfolding ReplaySlot effect_slot.case
      by (rule quiet) (auto intro!: emits_rules emits_calls)
  next
    case (WaitSlot reason)
    show ?thesis unfolding WaitSlot effect_slot.case
      by (rule quiet) (auto intro!: emits_rules emits_calls)
  qed
  show ?thesis
    unfolding admitted_step_def Let_def
    by (rule triple_bind [OF acquire_triple [where A = "cleared a g", OF cleared_guarding] slot])
qed

text \<open>After the takeover check of a step; the next verdict clears the action.\<close>

definition watched :: "event list \<Rightarrow> bool" where
  "watched es \<longleftrightarrow> last_takeover es = Some (Inr False)"

lemma watched_calm: "calm ev \<Longrightarrow> watched es \<Longrightarrow> watched (ev # es)"
  by (simp add: watched_def last_takeover_calm)

lemmas watched_triple = calm_triple [where K = calm and A = watched, OF _ watched_calm calm_quiet]

lemma authorize_step_triple:
  fixes e :: orchestrator and p :: step_params
  defines "rest \<equiv> orderly e (sp_tenant_id p) (sp_run_id p) None"
  shows "triple (hist (\<lambda>es. in_order e (sp_tenant_id p) (sp_run_id p) re es \<and> watched es))
    (authorize_step e p step sc a re) (\<lambda>_. rest) (\<lambda>_. rest)"
proof -
  let ?P = "hist (\<lambda>es. in_order e (sp_tenant_id p) (sp_run_id p) re es \<and> watched es)"
  let ?R = "\<lambda>g. hist (\<lambda>es. in_order e (sp_tenant_id p) (sp_run_id p) re es \<and> cleared a g es)"
  have stage: "triple ?P (enterStage e (sp_tenant_id p) (sp_run_id p) (sp_attempt_ordinal p) (ps_step_index step) APPROVAL)
      (\<lambda>_. ?P) (\<lambda>_. rest)"
    unfolding rest_def by (rule watched_triple) (rule emits_calls)
  have verdict: "triple ?P (do_evaluateAuthority e a cx) ?R (\<lambda>_. rest)" for cx
    unfolding do_evaluateAuthority_def rest_def
    by (rule triple_port) (auto simp: cleared_def watched_def in_order_weaken intro: in_order_quiet)
  have quiet: "triple (?R g) m (\<lambda>_. rest) (\<lambda>_. rest)" if "emits calm m" for g and m :: "step_result run"
    unfolding rest_def
    by (rule triple_conseq [OF orderly_triple [OF that, of e "sp_tenant_id p" "sp_run_id p" re]])
      (auto intro: in_order_weaken)
  have after: "triple (?R g) (case gr_verdict g of
       DENIED \<Rightarrow> stop_denied e p sc a (authority_text a)
     | AWAITING_HUMAN_APPROVAL \<Rightarrow> pause_step e p step sc a (authority_text a)
     | AUTO_APPROVED \<Rightarrow> admitted_step e p step sc a re (gr_autonomy_workflow g)) (\<lambda>_. rest) (\<lambda>_. rest)" for g
  proof (cases "gr_verdict g")
    case AUTO_APPROVED
    then show ?thesis unfolding rest_def by (simp add: admitted_step_triple)
  next
    case AWAITING_HUMAN_APPROVAL
    then show ?thesis using quiet [OF calm_pause_step] by simp
  next
    case DENIED
    then show ?thesis using quiet [OF calm_stop_denied] by simp
  qed
  show ?thesis
    unfolding authorize_step_def traceStage_def
    by (rule triple_bind [OF triple_bind [OF stage verdict] after])
qed

text \<open>A step continues with a credit it still holds, or with none.\<close>

fun kept :: "step_result \<Rightarrow> reconciled_effect option" where
  "kept (Continue ra re latest) = re"
| "kept (Finished out) = None"

lemma authorize_step_keeps_nothing:
  "triple P (authorize_step e p step sc a re) (\<lambda>r _. kept r = None) (\<lambda>_ _. True)"
proof -
  have fin: "triple P (bind m (\<lambda>_. ret (Finished out))) (\<lambda>r _. kept r = None) (\<lambda>_ _. True)"
    for P and m :: "'x run" and out
    by (rule triple_bind [where R = "\<lambda>_ _. True"]) (auto simp: triple_def ret_def split: prod.splits sum.splits)
  have any: "triple P m (\<lambda>_ _. True) (\<lambda>_ _. True)" for P and m :: "'x run"
    by (auto simp: triple_def split: prod.splits sum.splits)
  have thr: "triple P (throw x) (\<lambda>r _. kept r = None) (\<lambda>_ _. True)" for P and x
    by (rule triple_throw) simp
  have rec: "triple P (record_step e p step sc a w v rc d b) (\<lambda>r _. kept r = None) (\<lambda>_ _. True)" for P w v rc d b
    unfolding record_step_def write_evidence_def
    by (intro triple_bind [OF any] triple_catch [where R = "\<lambda>_ _. True"] triple_if triple_ret thr fin) simp
  have adm: "triple P (admitted_step e p step sc a re wf) (\<lambda>r _. kept r = None) (\<lambda>_ _. True)" for P wf
    unfolding admitted_step_def Let_def
    by (rule triple_bind [OF any]) (auto intro!: fin rec triple_bind [OF any] triple_ret split: effect_slot.split sum.split)
  have stop: "triple P (stop_denied e p sc a w) (\<lambda>r _. kept r = None) (\<lambda>_ _. True)" for P w
    unfolding stop_denied_def by (intro triple_bind [OF any] fin)
  have pause: "triple P (pause_step e p step sc a w) (\<lambda>r _. kept r = None) (\<lambda>_ _. True)" for P w
    unfolding pause_step_def by (auto intro!: thr fin triple_bind [OF any] split: option.split)
  show ?thesis
    unfolding authorize_step_def
    by (rule triple_bind [OF any]) (auto intro: adm stop pause split: authority_verdict.split)
qed

lemma authorize_step_kept:
  "triple (hist (\<lambda>es. in_order e (sp_tenant_id p) (sp_run_id p) re es \<and> watched es)) (authorize_step e p step sc a re)
    (\<lambda>r. orderly e (sp_tenant_id p) (sp_run_id p) (kept r)) (\<lambda>_. orderly e (sp_tenant_id p) (sp_run_id p) None)"
  by (rule triple_conseq [OF triple_conj [OF authorize_step_triple authorize_step_keeps_nothing]]) auto

lemma execute_step_triple:
  "triple (hist (\<lambda>es. in_order e (sp_tenant_id p) (sp_run_id p) re es \<and> watched es)) (execute_step e p step sc ra re)
    (\<lambda>r. orderly e (sp_tenant_id p) (sp_run_id p) (kept r)) (\<lambda>_. orderly e (sp_tenant_id p) (sp_run_id p) None)"
proof -
  let ?P = "hist (\<lambda>es. in_order e (sp_tenant_id p) (sp_run_id p) re es \<and> watched es)"
  have quiet: "triple ?P m (\<lambda>_. ?P) (\<lambda>_. orderly e (sp_tenant_id p) (sp_run_id p) None)" if "emits calm m" for m :: "'x run"
    by (rule watched_triple [OF that])
  show ?thesis
    unfolding execute_step_def
    by (intro triple_bind [OF quiet] authorize_step_kept) (auto intro!: emits_rules emits_calls)
qed

lemma run_step_triple:
  "triple (orderly e (sp_tenant_id p) (sp_run_id p) re) (run_step e p step ra re)
    (\<lambda>r. orderly e (sp_tenant_id p) (sp_run_id p) (kept r)) (\<lambda>_. orderly e (sp_tenant_id p) (sp_run_id p) None)"
proof -
  let ?I = "orderly e (sp_tenant_id p) (sp_run_id p) re"
  let ?N = "orderly e (sp_tenant_id p) (sp_run_id p) None"
  let ?W = "\<lambda>taken. hist (\<lambda>es. in_order e (sp_tenant_id p) (sp_run_id p) re es \<and> (\<not> taken \<longrightarrow> watched es))"
  let ?Q = "\<lambda>r. orderly e (sp_tenant_id p) (sp_run_id p) (kept r)"
  have quiet: "triple ?I m (\<lambda>_. ?I) (\<lambda>_. ?N)" if "emits calm m" for m :: "'x run"
    by (rule orderly_triple [OF that])
  have read: "triple ?I (do_isTakenOver e t sid) ?W (\<lambda>_. ?N)" for t sid
    unfolding do_isTakenOver_def
    by (rule triple_port) (auto simp: watched_def in_order_weaken intro: in_order_quiet)
  have stop: "triple ?I (stop_taken_over e p step sc) ?Q (\<lambda>_. ?N)" for sc
    unfolding stop_taken_over_def
    by (rule triple_bind [OF quiet triple_bind [OF quiet triple_ret]]) (auto intro: emits_calls in_order_weaken)
  have recover: "triple (?W False) (recover_receipt e p step) (\<lambda>_. ?W False) (\<lambda>_. ?N)"
    using watched_triple [OF calm_recover_receipt] by simp
  have after: "triple (?W False) (case recovered of
         Some ev \<Rightarrow> ret (Continue ra re (Some ev))
       | None \<Rightarrow> execute_step e p step sc ra re) ?Q (\<lambda>_. ?N)" for recovered sc
    using execute_step_triple by (cases recovered) (auto intro!: triple_ret)
  have body: "triple (?W taken) (if taken then stop_taken_over e p step sc
      else bind (recover_receipt e p step) (\<lambda>recovered. case recovered of
         Some ev \<Rightarrow> ret (Continue ra re (Some ev))
       | None \<Rightarrow> execute_step e p step sc ra re)) ?Q (\<lambda>_. ?N)" for taken sc
  proof (cases taken)
    case True
    then show ?thesis by simp (rule triple_pre [OF stop], simp)
  next
    case False
    then show ?thesis using triple_bind [OF recover after] by simp
  qed
  have lease: "emits calm (perform_if (sp_assert_lease p) (do_assertExecutionLease e (sp_tenant_id p) (sp_run_id p)))"
    by (auto intro!: emits_rules emits_calls)
  show ?thesis
    unfolding run_step_def
    by (rule triple_bind [OF quiet [OF emits_reading] triple_bind [OF quiet [OF lease] triple_bind [OF read body]]])
qed

lemma step_loop_triple:
  "triple (orderly e (sp_tenant_id p) (sp_run_id p) re) (step_loop e p steps ra re latest)
    (\<lambda>_. orderly e (sp_tenant_id p) (sp_run_id p) None) (\<lambda>_. orderly e (sp_tenant_id p) (sp_run_id p) None)"
proof (induction steps arbitrary: ra re latest)
  case Nil
  show ?case by (auto intro!: triple_ret in_order_weaken)
next
  case (Cons step steps)
  have "triple (orderly e (sp_tenant_id p) (sp_run_id p) (kept r)) (case r of
          Finished outcome \<Rightarrow> ret outcome
        | Continue ra' re' latest' \<Rightarrow> step_loop e p steps ra' re' latest')
      (\<lambda>_. orderly e (sp_tenant_id p) (sp_run_id p) None) (\<lambda>_. orderly e (sp_tenant_id p) (sp_run_id p) None)" for r
    using Cons.IH by (cases r) (auto intro!: triple_ret)
  from triple_bind [OF run_step_triple this] Cons.IH show ?case by simp
qed

lemma executeSteps_triple:
  "triple (orderly e (sp_tenant_id p) (sp_run_id p) re) (executeSteps e p ra re)
    (\<lambda>_. orderly e (sp_tenant_id p) (sp_run_id p) None) (\<lambda>_. orderly e (sp_tenant_id p) (sp_run_id p) None)"
  unfolding executeSteps_def Let_def
  by (rule triple_bind [OF orderly_triple step_loop_triple]) (auto intro!: emits_rules emits_calls)

lemma run_steps_triple:
  "triple (orderly e (sp_tenant_id p) (sp_run_id p) re) (run_steps e p previous ra re)
    (\<lambda>_. orderly e (sp_tenant_id p) (sp_run_id p) None) (\<lambda>_. orderly e (sp_tenant_id p) (sp_run_id p) None)"
  unfolding run_steps_def
  by (rule triple_bind [OF orderly_triple triple_bind [OF executeSteps_triple orderly_triple]])
    (auto intro!: emits_rules emits_calls)

subsection \<open>Entry points\<close>

text \<open>A program that leaves the history of a run in order, whatever the run id turns out to be.\<close>

definition sound :: "orchestrator \<Rightarrow> string \<Rightarrow> string \<Rightarrow> 'a run \<Rightarrow> bool" where
  "sound e t r m \<longleftrightarrow> triple (orderly e t r None) m (\<lambda>_. orderly e t r None) (\<lambda>_. orderly e t r None)"

named_theorems sound_rules \<open>programs that leave the history in order\<close>

lemma sound_calm: "emits calm m \<Longrightarrow> sound e t r m"
  unfolding sound_def by (rule orderly_triple)

lemma sound_bind [sound_rules]: "sound e t r m \<Longrightarrow> (\<And>x. sound e t r (f x)) \<Longrightarrow> sound e t r (bind m f)"
  unfolding sound_def by (rule triple_bind)

lemma sound_catch [sound_rules]: "sound e t r m \<Longrightarrow> (\<And>x. sound e t r (h x)) \<Longrightarrow> sound e t r (catch m h)"
  unfolding sound_def by (rule triple_catch)

lemma sound_finally [sound_rules]: "sound e t r m \<Longrightarrow> sound e t r c \<Longrightarrow> sound e t r (finally_do m c)"
  unfolding sound_def by (rule triple_finally)

lemma sound_if [sound_rules]: "(c \<Longrightarrow> sound e t r m) \<Longrightarrow> (\<not> c \<Longrightarrow> sound e t r n) \<Longrightarrow> sound e t r (if c then m else n)"
  by simp

lemma sound_option [sound_rules]:
  "(v = None \<Longrightarrow> sound e t r m) \<Longrightarrow> (\<And>x. v = Some x \<Longrightarrow> sound e t r (f x)) \<Longrightarrow>
   sound e t r (case v of None \<Rightarrow> m | Some x \<Rightarrow> f x)"
  by (cases v) simp_all

lemma sound_isTakenOver [sound_rules]: "sound e t r (do_isTakenOver e t' sid)"
  unfolding sound_def by (rule quiet_triple) (simp add: emits_isTakenOver)

lemma sound_run_steps:
  "sp_tenant_id p = t \<Longrightarrow> sp_run_id p = r \<Longrightarrow> sound e t r (run_steps e p previous ra None)"
  unfolding sound_def using run_steps_triple [of e p None] by auto

lemma sound_trace: "sound e t r m \<Longrightarrow> sound e t r (traceStage e t' r' n i st m)"
  unfolding traceStage_def by (intro sound_bind sound_calm [OF calm_enterStage])

lemma sound_pipeline: "sound e (sg_tenant_id sig) r (runGuardedPipeline e sig r q w n b)"
  unfolding runGuardedPipeline_def withDurableRecovery_def pipeline_attempt_def Let_def
  by (intro sound_rules sound_run_steps sound_calm) (auto intro!: emits_rules emits_calls)

lemma sound_processQueuedSignal:
  "sound e (sg_tenant_id sig) r (processQueuedSignal e r sig w)"
  unfolding processQueuedSignal_def Let_def withDurableRecovery_def reattempt_def
  by (intro sound_rules sound_run_steps sound_pipeline sound_calm)
    (auto simp: reattempt_params_def Let_def intro!: emits_rules emits_calls sound_pipeline)

text \<open>The run id of a first pass is drawn before anything is called.\<close>

lemma processSignal_triple:
  assumes "r = ''run_'' @ or_uuid e es" and "t = sg_tenant_id sig"
  shows "triple (\<lambda>s. orderly e t r None s \<and> rs_events s = es) (processSignal e sig)
    (\<lambda>_. orderly e t r None) (\<lambda>_. orderly e t r None)"
proof -
  let ?P = "\<lambda>s. orderly e t r None s \<and> rs_events s = es"
  let ?I = "orderly e t r None"
  have fresh: "triple ?P fresh_run (\<lambda>_. ?P) (\<lambda>_. ?I)"
    by (auto simp: fresh_run_def triple_def bind_def modify_def)
  have valid: "triple ?P (lift (validateSignalEnvelope sig)) (\<lambda>_. ?P) (\<lambda>_. ?I)"
    by (rule triple_lift) auto
  have drawn: "triple ?P (reading (or_uuid e)) (\<lambda>uuid s. ?I s \<and> r = ''run_'' @ uuid) (\<lambda>_. ?I)"
    unfolding reading_def by (rule triple_look) (auto simp: assms)
  have lead: "sound e t r (lead_run e sig r)"
    unfolding lead_run_def assms(2)
    by (intro sound_rules sound_pipeline sound_calm) (auto intro!: emits_rules emits_calls)
  have body: "triple (\<lambda>s. ?I s \<and> r = ''run_'' @ uuid) (lead_run e sig (''run_'' @ uuid)) (\<lambda>_. ?I) (\<lambda>_. ?I)" for uuid
  proof (cases "r = ''run_'' @ uuid")
    case True
    have "triple (\<lambda>s. ?I s \<and> r = ''run_'' @ uuid) (lead_run e sig r) (\<lambda>_. ?I) (\<lambda>_. ?I)"
      by (rule triple_pre [OF lead [unfolded sound_def]]) (drule conjunct1, assumption)
    then show ?thesis by (simp only: True [symmetric])
  next
    case False
    then show ?thesis by (simp only: simp_thms) (simp add: triple_def)
  qed
  show ?thesis
    unfolding processSignal_def
    by (rule triple_bind [OF fresh triple_bind [OF valid triple_bind [OF drawn body]]])
qed

lemma sound_check_release: "sound e t r (check_release e t' c a)"
  unfolding check_release_def by (intro sound_rules sound_calm) (auto intro!: emits_rules emits_calls)

lemma sound_prepare_decision: "triple (orderly e t r None) (prepare_decision e ev r' b m)
    (\<lambda>_. orderly e t r None) (\<lambda>_. orderly e t r None)"
  by (rule quiet_triple [OF quiet_prepare_decision])

text \<open>A preparation leaves a credit exactly when it carries a reconciled effect.\<close>

fun carried :: "run_result + resumption \<Rightarrow> reconciled_effect option" where
  "carried (Inl res) = None"
| "carried (Inr m) = rm_reconciled_effect m"

lemma prepare_decision_carries:
  "triple P (prepare_decision e ev r b m) (\<lambda>x _. carried x = None \<or> carried x = rm_reconciled_effect m) (\<lambda>_ _. True)"
proof -
  have any: "triple P m (\<lambda>_ _. True) (\<lambda>_ _. True)" for P and m :: "'x run"
    by (auto simp: triple_def split: prod.splits sum.splits)
  show ?thesis
    unfolding prepare_decision_def Let_def
    by (auto intro!: triple_bind [OF any] triple_if triple_throw triple_ret split: option.split human_decision.split)
qed

lemma prepare_reconciliation_triple:
  assumes "rm_reconciled_effect m = None"
  shows "triple (orderly e t r None) (prepare_reconciliation e ev r' b m)
    (\<lambda>x. orderly e t r (carried x)) (\<lambda>_. orderly e t r None)"
proof (cases "ck_pending_action (rm_checkpoint m)")
  case None
  then show ?thesis by (auto simp: prepare_reconciliation_def Let_def intro!: triple_throw)
next
  case (Some pending)
  let ?I = "orderly e t r None"
  let ?Q = "\<lambda>x. orderly e t r (carried x)"
  have quiet: "triple (orderly e t r re) m (\<lambda>_. orderly e t r re) (\<lambda>_. ?I)" if "emits calm m" for re and m :: "'x run"
    by (rule orderly_triple [OF that])
  have escalate: "triple ?I (bind (clearResumeEvent e ev r' b task c) (\<lambda>_. ret (Inl (ends_as r' Waiting None)))) ?Q (\<lambda>_. ?I)"
    for task c
    by (rule triple_bind [OF quiet triple_ret]) (auto intro: emits_calls)
  have refreshed: "triple (orderly e t r (Some proof')) (case refreshed of
             None \<Rightarrow> throw (OrchestratorError ''TASK_NOT_FOUND'')
           | Some task' \<Rightarrow>
              bind (lift (readCompleteResumeCheckpoint (tv_payload task'))) (\<lambda>c'.
                ret (Inr (m\<lparr>rm_task := task', rm_checkpoint := c', rm_reconciled_effect := Some proof',
                  rm_reconciled_action := Some (case ck_pending_action c' of Some a \<Rightarrow> a | None \<Rightarrow> pending),
                  rm_resumed := True\<rparr>)))) ?Q (\<lambda>_. ?I)" for refreshed proof'
    by (cases refreshed) (auto intro!: triple_throw in_order_weaken triple_bind [OF quiet triple_ret] emits_rules)
  show ?thesis
    unfolding prepare_reconciliation_def Let_def
    by (simp only: Some option.case)
      (intro triple_if triple_throw escalate
        triple_bind [OF reconcile_effect_triple triple_bind [OF quiet triple_bind [OF quiet refreshed]]]; simp add: emits_calls)
qed

lemma prepare_resume_triple:
  "triple (orderly e t r None) (prepare_resume e ev r' b) (\<lambda>x. orderly e t r (carried x)) (\<lambda>_. orderly e t r None)"
proof -
  let ?I = "orderly e t r None"
  let ?Q = "\<lambda>x. orderly e t r (carried x)"
  have quiet: "triple ?I m (\<lambda>_. ?I) (\<lambda>_. ?I)" if "emits calm m" for m :: "'x run"
    by (rule orderly_triple [OF that])
  have repair: "triple ?I (bind (repair_handoff e ev r' task c) (\<lambda>res. ret (Inl res))) ?Q (\<lambda>_. ?I)" for task c
    by (rule triple_bind [OF quiet triple_ret]) (auto intro: emits_calls)
  have decide: "triple ?I (prepare_decision e ev r' b m) ?Q (\<lambda>_. ?I)" if "rm_reconciled_effect m = None" for m
    by (rule triple_conseq [OF triple_conj [OF sound_prepare_decision prepare_decision_carries]]) (use that in auto)
  have auto': "triple ?I (prepare_automatic e ev r' b m) ?Q (\<lambda>_. ?I)" if "rm_reconciled_effect m = None" for m
    unfolding prepare_automatic_def Let_def
    by (intro triple_bind [OF quiet] triple_option triple_throw triple_ret)
      (use that in \<open>auto intro!: emits_rules emits_calls\<close>)
  show ?thesis
    unfolding prepare_resume_def Let_def
    by (intro triple_bind [OF quiet] triple_option triple_throw triple_if triple_ret repair decide auto' prepare_reconciliation_triple)
      (auto intro!: emits_rules emits_calls)
qed

lemma sound_resumeTask:
  assumes "t = rv_tenant_id ev"
  shows "sound e t r (resumeTask e r ev)"
proof -
  let ?I = "orderly e t r None"
  have steps: "triple (orderly e t r (rm_reconciled_effect m))
      (catch (run_steps e (resume_params ev r m) (ck_previous (rm_checkpoint m)) (rm_reconciled_action m) (rm_reconciled_effect m))
          (resume_failed e ev r m)) (\<lambda>_. ?I) (\<lambda>_. ?I)" for m
  proof (rule triple_catch)
    show "triple (orderly e t r (rm_reconciled_effect m))
        (run_steps e (resume_params ev r m) (ck_previous (rm_checkpoint m)) (rm_reconciled_action m) (rm_reconciled_effect m))
        (\<lambda>_. ?I) (\<lambda>_. ?I)"
      using run_steps_triple [of e "resume_params ev r m"] assms by (simp add: resume_params_def Let_def)
    show "triple ?I (resume_failed e ev r m err) (\<lambda>_. ?I) (\<lambda>_. ?I)" for err
      unfolding resume_failed_def by (rule orderly_triple) (auto intro!: emits_rules emits_calls)
  qed
  have after: "triple (orderly e t r (carried prepared)) (case prepared of
       Inl done \<Rightarrow> ret done
     | Inr m \<Rightarrow>
        catch (run_steps e (resume_params ev r m) (ck_previous (rm_checkpoint m)) (rm_reconciled_action m) (rm_reconciled_effect m))
          (resume_failed e ev r m)) (\<lambda>_. ?I) (\<lambda>_. ?I)" for prepared
    using steps by (cases prepared) (auto intro!: triple_ret)
  have resumes: "sound e t r (resume_run e ev r b)" for b
    unfolding resume_run_def sound_def by (rule triple_bind [OF prepare_resume_triple after])
  show ?thesis
    unfolding resumeTask_def Let_def
    by (intro sound_rules resumes sound_calm) (auto intro!: emits_rules emits_calls)
qed

end
