(* ===== verification/ReservationStore.thy ===== *)
theory ReservationStore
  imports EffectKey DatabaseGuards Session
begin

text \<open>
  The durable effect reservations of \<open>packages/database/src/repositories/effect-reservations.ts\<close>: the
  table \<open>agentos.effect_reservations\<close> as the list of its rows, with its primary key
  \<open>(tenant_id, effect_key)\<close>, the constraint on \<open>(tenant_id, request_id, skill_id, step_index)\<close> and the
  \<open>UUID\<close> column, and one definition per method of \<open>EffectReservationRepository\<close>. A transaction that
  throws leaves the table as it was. \<open>dbnow\<close> is \<open>CURRENT_TIMESTAMP\<close>; instants are milliseconds. Values
  longer than their column are left out.
\<close>

datatype row_status = RowReserved | RowSucceeded | RowFailed | RowExpired

record reservation_row =
  rr_tenant_id :: string
  rr_effect_key :: string
  rr_request_id :: string
  rr_fingerprint :: string
  rr_run_id :: string
  rr_step_index :: jnum
  rr_skill_id :: string
  rr_status :: row_status
  rr_receipt :: json
  rr_reserved_at :: int
  rr_resolved_at :: "int option"
  rr_expires_at :: int

record reservation_request =
  rq_tenant_id :: string
  rq_run_id :: string
  rq_request_id :: string
  rq_effect_key :: string
  rq_fingerprint :: string
  rq_skill_id :: string
  rq_step_index :: jnum
  rq_expires_at :: "int option"

datatype repository_outcome =
  RepoReserved | RepoReplay json | RepoInFlight | RepoReconcileRequired | RepoConflict

datatype settlement_result = SETTLED | UNCHANGED | MISSING | REFUSED

subsection \<open>Guards\<close>

definition assertEffectKey :: "string \<Rightarrow> unit result" where
  "assertEffectKey k = (if blank k then Inl (ThrownError ''EFFECT_RESERVATION_KEY_REQUIRED'') else Inr ())"

text \<open>
  \<open>trim().toLowerCase()\<close>, then the digest pattern: only the letters A to F can become digits of it.
\<close>

definition normalizeFingerprint :: "string \<Rightarrow> string result" where
  "normalizeFingerprint f =
    (let normalized = map lower_hex (trim f) in
     if isSha256Hex normalized then Inr normalized
     else Inl (ThrownError ''EFFECT_RESERVATION_FINGERPRINT_INVALID''))"

text \<open>
  What \<open>JSON.stringify\<close> keeps of a value, read back: an undefined or unrepresentable member is dropped
  and an element becomes \<open>null\<close>, as does a number that is not finite. \<open>JOther\<close> is a function or symbol
  here.
\<close>

fun stringified :: "json \<Rightarrow> json option"
  and stringified_items :: "json list \<Rightarrow> json list"
  and stringified_members :: "(string \<times> json) list \<Rightarrow> (string \<times> json) list" where
  "stringified JUndef = None"
| "stringified JOther = None"
| "stringified JNull = Some JNull"
| "stringified (JBool b) = Some (JBool b)"
| "stringified (JNum n) = Some (if is_finite n then JNum n else JNull)"
| "stringified (JStr s) = Some (JStr s)"
| "stringified (JArr xs) = Some (JArr (stringified_items xs))"
| "stringified (JObj ms) = Some (JObj (stringified_members ms))"
| "stringified_items [] = []"
| "stringified_items (x # xs) = (case stringified x of None \<Rightarrow> JNull | Some v \<Rightarrow> v) # stringified_items xs"
| "stringified_members [] = []"
| "stringified_members ((k, x) # ms) =
    (case stringified x of None \<Rightarrow> stringified_members ms | Some v \<Rightarrow> (k, v) # stringified_members ms)"

definition serializeReceipt :: "json \<Rightarrow> json result" where
  "serializeReceipt r =
    (if r = JUndef \<or> r = JNull then Inr JNull
     else case stringified r of
       None \<Rightarrow> Inl (ThrownError ''EFFECT_RESERVATION_RECEIPT_UNSERIALIZABLE'')
     | Some v \<Rightarrow> Inr v)"

lemma normal_fingerprint: "isSha256Hex f \<Longrightarrow> normalizeFingerprint f = Inr f"
proof -
  assume f: "isSha256Hex f"
  then have hex: "\<forall>c \<in> set f. c \<in> set ''0123456789abcdef''"
    unfolding isSha256Hex_def list_all_iff by blast
  have ne: "f \<noteq> []" using hex_length [OF f] by auto
  have "\<forall>c \<in> set ''0123456789abcdef''. \<not> is_ws c \<and> lower_hex c = c"
    by (simp add: is_ws_def lower_hex_def)
  then have c: "\<forall>c \<in> set f. \<not> is_ws c \<and> lower_hex c = c" using hex by blast
  then have "trim f = f" using ne by (intro trim_fixed) auto
  moreover have "map lower_hex f = f" using c by (simp add: map_idI)
  ultimately show ?thesis using f by (simp add: normalizeFingerprint_def)
qed

subsection \<open>Statements\<close>

definition row_at :: "string \<Rightarrow> string \<Rightarrow> reservation_row \<Rightarrow> bool" where
  "row_at tenant_id effect_key r \<longleftrightarrow> rr_tenant_id r = uuid_text tenant_id \<and> rr_effect_key r = effect_key"

definition same_request :: "reservation_request \<Rightarrow> reservation_row \<Rightarrow> bool" where
  "same_request q r \<longleftrightarrow> rr_tenant_id r = uuid_text (rq_tenant_id q) \<and> rr_request_id r = rq_request_id q
     \<and> rr_skill_id r = rq_skill_id q \<and> rr_step_index r = rq_step_index q"

definition row_expired :: "int \<Rightarrow> reservation_row \<Rightarrow> bool" where
  "row_expired dbnow r \<longleftrightarrow> rr_expires_at r \<le> dbnow"

definition insertReservationRow :: "int \<Rightarrow> reservation_request \<Rightarrow> string \<Rightarrow> reservation_row list \<Rightarrow>
    reservation_row option result \<times> reservation_row list" where
  "insertReservationRow dbnow q fingerprint table =
    (case assertEffectKey (rq_effect_key q) of Inl e \<Rightarrow> (Inl e, table) | Inr _ \<Rightarrow>
     if list_ex (row_at (rq_tenant_id q) (rq_effect_key q)) table then (Inr None, table)
     else if list_ex (same_request q) table
     then (Inl (ThrownError ''EFFECT_RESERVATION_IDENTITY_IN_USE''), table)
     else let row = \<lparr>rr_tenant_id = uuid_text (rq_tenant_id q), rr_effect_key = rq_effect_key q,
              rr_request_id = rq_request_id q, rr_fingerprint = fingerprint, rr_run_id = rq_run_id q,
              rr_step_index = rq_step_index q, rr_skill_id = rq_skill_id q, rr_status = RowReserved,
              rr_receipt = JNull, rr_reserved_at = dbnow, rr_resolved_at = None,
              rr_expires_at = (case rq_expires_at q of None \<Rightarrow> dbnow + 72 * 60 * 60 * 1000 | Some e \<Rightarrow> e)\<rparr>
       in (Inr (Some row), table @ [row]))"

definition decideReservation :: "int \<Rightarrow> reservation_row \<Rightarrow> repository_outcome" where
  "decideReservation dbnow r =
    (case rr_status r of
       RowSucceeded \<Rightarrow> RepoReplay (or_null (rr_receipt r))
     | RowReserved \<Rightarrow> if row_expired dbnow r then RepoReconcileRequired else RepoInFlight
     | RowFailed \<Rightarrow> RepoReconcileRequired
     | RowExpired \<Rightarrow> RepoReconcileRequired)"

definition settleWithin :: "int \<Rightarrow> string \<Rightarrow> string \<Rightarrow> row_status \<Rightarrow> json \<Rightarrow> row_status list \<Rightarrow>
    reservation_row list \<Rightarrow> settlement_result result \<times> reservation_row list" where
  "settleWithin dbnow tenant_id effect_key status receipt settleable_from table =
    (case find (row_at tenant_id effect_key) table of
       None \<Rightarrow> (Inr MISSING, table)
     | Some existing \<Rightarrow>
         if rr_status existing = status then (Inr UNCHANGED, table)
         else if rr_status existing = RowSucceeded \<or> rr_status existing \<notin> set settleable_from
         then (Inr REFUSED, table)
         else case serializeReceipt receipt of
           Inl e \<Rightarrow> (Inl e, table)
         | Inr stored \<Rightarrow>
             (Inr SETTLED, update_first (row_at tenant_id effect_key)
                (\<lambda>r. r\<lparr>rr_status := status, rr_receipt := stored, rr_resolved_at := Some dbnow\<rparr>) table))"

text \<open>The transaction runner: the tenant check, then the work.\<close>

definition in_tenant :: "string \<Rightarrow> ('a result \<times> 't) \<Rightarrow> 't \<Rightarrow> 'a result \<times> 't" where
  "in_tenant tenant_id work table =
    (case assertTenantContext tenant_id of Inl e \<Rightarrow> (Inl e, table) | Inr _ \<Rightarrow> work)"

subsection \<open>The methods\<close>

definition repo_reserve :: "int \<Rightarrow> reservation_request \<Rightarrow> reservation_row list \<Rightarrow>
    repository_outcome result \<times> reservation_row list" where
  "repo_reserve dbnow q table =
    (case andThen (assertEffectKey (rq_effect_key q)) (\<lambda>_. normalizeFingerprint (rq_fingerprint q)) of
       Inl e \<Rightarrow> (Inl e, table)
     | Inr fingerprint \<Rightarrow> in_tenant (rq_tenant_id q)
         (case insertReservationRow dbnow q fingerprint table of
            (Inl e, t) \<Rightarrow> (Inl e, t)
          | (Inr (Some _), t) \<Rightarrow> (Inr RepoReserved, t)
          | (Inr None, t) \<Rightarrow>
              (case find (row_at (rq_tenant_id q) (rq_effect_key q)) t of
                 None \<Rightarrow> (Inl (ThrownError ''EFFECT_RESERVATION_UNSTABLE''), t)
               | Some existing \<Rightarrow>
                   (Inr (if rr_fingerprint existing \<noteq> fingerprint then RepoConflict
                         else decideReservation dbnow existing), t))) table)"

definition RESOLVABLE_FROM :: "row_status list" where
  "RESOLVABLE_FROM = [RowReserved, RowExpired, RowFailed]"

definition SETTLEABLE_FROM :: "row_status list" where
  "SETTLEABLE_FROM = [RowReserved]"

definition repo_resolve :: "int \<Rightarrow> string \<Rightarrow> string \<Rightarrow> row_status \<Rightarrow> json \<Rightarrow> reservation_row list \<Rightarrow>
    unit result \<times> reservation_row list" where
  "repo_resolve dbnow tenant_id effect_key status receipt table =
    (case assertEffectKey effect_key of Inl e \<Rightarrow> (Inl e, table) | Inr _ \<Rightarrow>
     in_tenant tenant_id
       (case settleWithin dbnow tenant_id effect_key status receipt RESOLVABLE_FROM table of
          (Inl e, t) \<Rightarrow> (Inl e, t)
        | (Inr MISSING, t) \<Rightarrow> (Inl (ThrownError ''EFFECT_RESERVATION_NOT_FOUND''), t)
        | (Inr REFUSED, t) \<Rightarrow> (Inl (ThrownError ''EFFECT_RESERVATION_TERMINAL''), t)
        | (Inr _, t) \<Rightarrow> (Inr (), t)) table)"

definition getReservation :: "string \<Rightarrow> string \<Rightarrow> reservation_row list \<Rightarrow> reservation_row option result" where
  "getReservation tenant_id effect_key table =
    andThen (assertEffectKey effect_key) (\<lambda>_. andThen (assertTenantContext tenant_id)
      (\<lambda>_. Inr (find (row_at tenant_id effect_key) table)))"

definition listOpenByRun :: "string \<Rightarrow> string \<Rightarrow> reservation_row list \<Rightarrow> reservation_row list result" where
  "listOpenByRun tenant_id run_id table =
    andThen (assertTenantContext tenant_id)
      (\<lambda>_. Inr (sort_key (\<lambda>r. case rr_step_index r of Fin q \<Rightarrow> q | _ \<Rightarrow> 0)
        (filter (\<lambda>r. rr_tenant_id r = uuid_text tenant_id \<and> rr_run_id r = run_id \<and> rr_status r = RowReserved) table)))"

definition insertReservation :: "int \<Rightarrow> reservation_request \<Rightarrow> reservation_row list \<Rightarrow>
    reservation_row option result \<times> reservation_row list" where
  "insertReservation dbnow q table =
    (case andThen (assertEffectKey (rq_effect_key q)) (\<lambda>_. normalizeFingerprint (rq_fingerprint q)) of
       Inl e \<Rightarrow> (Inl e, table)
     | Inr fingerprint \<Rightarrow> in_tenant (rq_tenant_id q) (insertReservationRow dbnow q fingerprint table) table)"

definition settleReservation :: "int \<Rightarrow> string \<Rightarrow> string \<Rightarrow> row_status \<Rightarrow> json \<Rightarrow> reservation_row list \<Rightarrow>
    bool result \<times> reservation_row list" where
  "settleReservation dbnow tenant_id effect_key status receipt table =
    (case assertEffectKey effect_key of Inl e \<Rightarrow> (Inl e, table) | Inr _ \<Rightarrow>
     in_tenant tenant_id
       (case settleWithin dbnow tenant_id effect_key status receipt SETTLEABLE_FROM table of
          (Inl e, t) \<Rightarrow> (Inl e, t) | (Inr r, t) \<Rightarrow> (Inr (r = SETTLED), t)) table)"

text \<open>\<open>UPDATE ... WHERE\<close> key and status: by the primary key at most one row has the key.\<close>

definition update_in_status :: "string \<Rightarrow> string \<Rightarrow> row_status \<Rightarrow> (reservation_row \<Rightarrow> reservation_row) \<Rightarrow>
    reservation_row list \<Rightarrow> bool \<times> reservation_row list" where
  "update_in_status tenant_id effect_key status f table =
    (case find (row_at tenant_id effect_key) table of
       None \<Rightarrow> (False, table)
     | Some r \<Rightarrow>
         if rr_status r = status then (True, update_first (row_at tenant_id effect_key) f table)
         else (False, table))"

definition reopenReservation :: "string \<Rightarrow> string \<Rightarrow> int \<Rightarrow> reservation_row list \<Rightarrow>
    bool result \<times> reservation_row list" where
  "reopenReservation tenant_id effect_key expires_at table =
    (case assertEffectKey effect_key of Inl e \<Rightarrow> (Inl e, table) | Inr _ \<Rightarrow>
     in_tenant tenant_id
       (let (applied, t) = update_in_status tenant_id effect_key RowFailed
          (\<lambda>r. r\<lparr>rr_status := RowReserved, rr_expires_at := expires_at, rr_resolved_at := None\<rparr>) table
        in (Inr applied, t)) table)"

definition expireReservation :: "int \<Rightarrow> string \<Rightarrow> string \<Rightarrow> reservation_row list \<Rightarrow>
    bool result \<times> reservation_row list" where
  "expireReservation dbnow tenant_id effect_key table =
    (case assertEffectKey effect_key of Inl e \<Rightarrow> (Inl e, table) | Inr _ \<Rightarrow>
     in_tenant tenant_id
       (let (applied, t) = update_in_status tenant_id effect_key RowReserved
          (\<lambda>r. r\<lparr>rr_status := RowExpired, rr_resolved_at := Some dbnow\<rparr>) table
        in (Inr applied, t)) table)"

subsection \<open>The constraints of the table\<close>

definition primary_key :: "reservation_row \<Rightarrow> string \<times> string" where
  "primary_key r = (rr_tenant_id r, rr_effect_key r)"

definition request_identity :: "reservation_row \<Rightarrow> string \<times> string \<times> string \<times> jnum" where
  "request_identity r = (rr_tenant_id r, rr_request_id r, rr_skill_id r, rr_step_index r)"

definition unique_reservations :: "reservation_row list \<Rightarrow> bool" where
  "unique_reservations table \<longleftrightarrow> distinct (map primary_key table) \<and> distinct (map request_identity table)"

text \<open>One call of the repository; every answer is reduced to whether it was refused.\<close>

datatype repo_op =
    OpReserve int reservation_request
  | OpInsert int reservation_request
  | OpResolve int string string row_status json
  | OpSettle int string string row_status json
  | OpReopen string string int
  | OpExpire int string string

fun repo_exec :: "repo_op \<Rightarrow> reservation_row list \<Rightarrow> bool \<times> reservation_row list" where
  "repo_exec (OpReserve dbnow q) table = (let (r, t) = repo_reserve dbnow q table in (succeeds r, t))"
| "repo_exec (OpInsert dbnow q) table = (let (r, t) = insertReservation dbnow q table in (succeeds r, t))"
| "repo_exec (OpResolve dbnow tid k st rc) table = (let (r, t) = repo_resolve dbnow tid k st rc table in (succeeds r, t))"
| "repo_exec (OpSettle dbnow tid k st rc) table = (let (r, t) = settleReservation dbnow tid k st rc table in (succeeds r, t))"
| "repo_exec (OpReopen tid k e) table = (let (r, t) = reopenReservation tid k e table in (succeeds r, t))"
| "repo_exec (OpExpire dbnow tid k) table = (let (r, t) = expireReservation dbnow tid k table in (succeeds r, t))"

lemma unique_update:
  "unique_reservations table \<Longrightarrow> (\<And>r. primary_key (f r) = primary_key r \<and> request_identity (f r) = request_identity r) \<Longrightarrow>
   unique_reservations (update_first P f table)"
  by (simp add: unique_reservations_def map_update_first)

lemma unique_insert:
  assumes "unique_reservations table"
  shows "unique_reservations (snd (insertReservationRow dbnow q fp table))"
proof -
  have "\<not> list_ex (row_at (rq_tenant_id q) (rq_effect_key q)) table \<Longrightarrow>
      (uuid_text (rq_tenant_id q), rq_effect_key q) \<notin> primary_key ` set table"
    by (auto simp: list_ex_iff row_at_def primary_key_def)
  moreover have "\<not> list_ex (same_request q) table \<Longrightarrow>
      (uuid_text (rq_tenant_id q), rq_request_id q, rq_skill_id q, rq_step_index q) \<notin> request_identity ` set table"
    by (auto simp: list_ex_iff same_request_def request_identity_def)
  ultimately show ?thesis using assms
    by (auto simp: insertReservationRow_def unique_reservations_def Let_def primary_key_def request_identity_def
        split: sum.split)
qed

lemma snd_in_tenant: "snd (in_tenant t w table) = (if succeeds (assertTenantContext t) then snd w else table)"
  by (simp add: in_tenant_def split: sum.split)

lemma settleWithin_table:
  "\<exists>stored. snd (settleWithin dbnow t k st rc from_list table) \<in>
     {table, update_first (row_at t k) (\<lambda>r. r\<lparr>rr_status := st, rr_receipt := stored, rr_resolved_at := Some dbnow\<rparr>) table}"
  by (auto simp: settleWithin_def split: option.split sum.split)

lemma unique_settle:
  "unique_reservations table \<Longrightarrow> unique_reservations (snd (settleWithin dbnow t k st rc from_list table))"
  using settleWithin_table [of dbnow t k st rc from_list table]
  by (auto simp: primary_key_def request_identity_def intro!: unique_update)

lemma unique_update_in_status:
  "unique_reservations table \<Longrightarrow> (\<And>r. primary_key (f r) = primary_key r \<and> request_identity (f r) = request_identity r) \<Longrightarrow>
   unique_reservations (snd (update_in_status t k st f table))"
  by (simp add: update_in_status_def unique_update split: option.split)

lemma repo_reserve_table:
  "snd (repo_reserve dbnow q table) = table \<or>
   (\<exists>fp. snd (repo_reserve dbnow q table) = snd (insertReservationRow dbnow q fp table))"
proof (cases "andThen (assertEffectKey (rq_effect_key q)) (\<lambda>_. normalizeFingerprint (rq_fingerprint q))")
  case (Inl e)
  then show ?thesis by (simp add: repo_reserve_def)
next
  case (Inr fp)
  obtain r t where rt: "insertReservationRow dbnow q fp table = (r, t)" by force
  then have "snd (repo_reserve dbnow q table) \<in> {table, t}"
    using Inr by (auto simp: repo_reserve_def in_tenant_def split: sum.split option.split)
  with rt show ?thesis by (auto intro: exI [of _ fp])
qed

lemma settle_tables:
  "snd (repo_resolve dbnow t k st rc table) \<in> {table, snd (settleWithin dbnow t k st rc RESOLVABLE_FROM table)}"
  "snd (settleReservation dbnow t k st rc table) \<in> {table, snd (settleWithin dbnow t k st rc SETTLEABLE_FROM table)}"
  by (auto simp: repo_resolve_def settleReservation_def in_tenant_def
      split: sum.splits prod.splits settlement_result.splits)

interpretation reservation_table: invariant_system repo_exec unique_reservations
proof
  fix table :: "reservation_row list" and x
  assume u: "unique_reservations table"
  show "unique_reservations (snd (repo_exec x table))"
  proof (cases x)
    case (OpReserve dbnow q)
    then show ?thesis using u unique_insert [OF u] repo_reserve_table [of dbnow q table]
      by (auto simp: case_prod_beta)
  next
    case (OpInsert dbnow q)
    then show ?thesis using u unique_insert [OF u]
      by (auto simp: insertReservation_def snd_in_tenant case_prod_beta split: sum.split)
  next
    case (OpResolve dbnow t k st rc)
    then show ?thesis using u unique_settle [OF u] settle_tables(1) [of dbnow t k st rc table]
      by (auto simp: case_prod_beta)
  next
    case (OpSettle dbnow t k st rc)
    then show ?thesis using u unique_settle [OF u] settle_tables(2) [of dbnow t k st rc table]
      by (auto simp: case_prod_beta)
  next
    case (OpReopen t k e)
    then show ?thesis using u
      by (auto simp: reopenReservation_def snd_in_tenant case_prod_beta Let_def primary_key_def request_identity_def
          intro!: unique_update_in_status split: sum.split)
  next
    case (OpExpire dbnow t k)
    then show ?thesis using u
      by (auto simp: expireReservation_def snd_in_tenant case_prod_beta Let_def primary_key_def request_identity_def
          intro!: unique_update_in_status split: sum.split)
  qed
qed

text \<open>
  whatever the repository is asked, in whatever order, the table holds at most one reservation for an
  effect key and at most one for an inbound request's step: no request of a tenant, in whatever
  spelling of its identifier, ever holds two effect keys for one skill and step.
\<close>

theorem one_reservation_per_request_step:
  assumes "run_ops repo_exec xs [] = (replies, table)" and "r \<in> set table" "q \<in> set table"
    and "primary_key r = primary_key q \<or> request_identity r = request_identity q"
  shows "r = q"
proof -
  have "unique_reservations []" by (simp add: unique_reservations_def)
  from reservation_table.inv_run [OF this, of xs] assms(1) have "unique_reservations table" by simp
  then have "inj_on primary_key (set table)" "inj_on request_identity (set table)"
    by (simp_all add: unique_reservations_def distinct_map)
  with assms(2-4) show ?thesis by (auto dest: inj_onD)
qed

definition example_request :: reservation_request where
  "example_request = \<lparr>rq_tenant_id = example_tenant, rq_run_id = ''run-1'', rq_request_id = ''sig-9'',
     rq_effect_key = ''k'', rq_fingerprint = replicate 64 CHR ''a'', rq_skill_id = ''s'', rq_step_index = Fin 1,
     rq_expires_at = Some 7\<rparr>"

lemma example_insert:
  "\<exists>row. run_ops repo_exec [OpInsert 0 example_request, OpInsert 1 (example_request\<lparr>rq_effect_key := ''k2''\<rparr>)] []
     = ([(OpInsert 0 example_request, True),
         (OpInsert 1 (example_request\<lparr>rq_effect_key := ''k2''\<rparr>), False)], [row])
     \<and> rr_effect_key row = ''k''"
proof -
  have "isSha256Hex (replicate 64 CHR ''a'')" by (simp add: isSha256Hex_def list_all_iff)
  note f = normal_fingerprint [OF this]
  show ?thesis
    using example_tenant_uuid
    by (simp add: insertReservation_def example_request_def f in_tenant_def assertTenantContext_def
        assertEffectKey_def insertReservationRow_def Let_def blank_def trim_def is_ws_def row_at_def same_request_def)
qed

theorem one_reservation_per_request_step_witness:
  "\<exists>replies table. run_ops repo_exec
      [OpInsert 0 example_request, OpInsert 1 (example_request\<lparr>rq_effect_key := ''k2''\<rparr>)] [] = (replies, table)
    \<and> table \<noteq> [] \<and> (\<forall>r \<in> set table. \<forall>q \<in> set table. primary_key r = primary_key q \<longrightarrow> r = q)"
proof -
  obtain replies row where run: "run_ops repo_exec
      [OpInsert 0 example_request, OpInsert 1 (example_request\<lparr>rq_effect_key := ''k2''\<rparr>)] [] = (replies, [row])"
    using example_insert by blast
  from one_reservation_per_request_step [OF run] run show ?thesis by blast
qed

end
