(* ===== verification/MemoryEffectGuard.thy ===== *)
theory MemoryEffectGuard
  imports EffectGuard
begin

text \<open>
  The in-memory effect guard of \<open>packages/core-engine/src/effects/memory-effect-guard.ts\<close>: its row,
  one definition per method, and the proof that it refines the decision table of the interface. The
  properties about whole sequences of calls rest on the lemmas of the locale \<open>effect_guard\<close>.
\<close>

definition EFFECT_RESERVATION_WINDOW_MS :: int where
  "EFFECT_RESERVATION_WINDOW_MS = 72 * 60 * 60 * 1000"

record effect_row =
  er_tenant_id :: string
  er_run_id :: string
  er_request_id :: string
  er_effect_key :: string
  er_fingerprint :: string
  er_skill_id :: string
  er_step_index :: jnum
  er_action_revision :: jnum
  er_status :: reservation_status
  er_reserved_at :: int
  er_expires_at :: int
  er_receipt :: json

type_synonym effect_rows = "string \<rightharpoonup> effect_row"

definition rowKey :: "string \<Rightarrow> string \<Rightarrow> string" where
  "rowKey tenant_id effect_key = tenant_id @ ''|'' @ effect_key"

definition reservation_identity :: "reserve_input \<Rightarrow> effect_key_input" where
  "reservation_identity i =
     \<lparr>ek_tenant_id = ri_tenant_id i, ek_skill_id = ri_skill_id i, ek_step_index = ri_step_index i,
      ek_action_revision = ri_action_revision i, ek_request_id = ri_request_id i\<rparr>"

definition reserve :: "runtime \<Rightarrow> int \<Rightarrow> int \<Rightarrow> reserve_input \<Rightarrow> effect_rows \<Rightarrow>
    reservation_outcome result \<times> effect_rows" where
  "reserve rt window now i rows =
    (case computeEffectKey rt (reservation_identity i) of
       Inl e \<Rightarrow> (Inl e, rows)
     | Inr canonicalKey \<Rightarrow>
       if canonicalKey \<noteq> ri_effect_key i then (Inl (OrchestratorError ''EFFECT_KEY_MISMATCH''), rows)
       else if \<not> isSha256Hex (ri_fingerprint i)
       then (Inl (OrchestratorError ''REQUEST_FINGERPRINT_INVALID''), rows)
       else let key = rowKey (ri_tenant_id i) (ri_effect_key i) in
       (case rows key of
          None \<Rightarrow>
            (Inr Reserved,
             rows(key \<mapsto> \<lparr>er_tenant_id = ri_tenant_id i, er_run_id = ri_run_id i,
               er_request_id = ri_request_id i, er_effect_key = ri_effect_key i,
               er_fingerprint = ri_fingerprint i, er_skill_id = ri_skill_id i,
               er_step_index = ri_step_index i, er_action_revision = ri_action_revision i,
               er_status = RESERVED, er_reserved_at = now, er_expires_at = now + window,
               er_receipt = JUndef\<rparr>))
        | Some row \<Rightarrow>
            (Inr (if er_fingerprint row \<noteq> ri_fingerprint i then Conflict
                  else if er_status row = SUCCEEDED then Replay (er_receipt row)
                  else if er_status row = FAILED then ReconcileRequired
                  else if er_expires_at row \<le> now then ReconcileRequired
                  else InFlight), rows)))"

definition resolve :: "string \<Rightarrow> string \<Rightarrow> reservation_status \<Rightarrow> json \<Rightarrow> effect_rows \<Rightarrow>
    unit result \<times> effect_rows" where
  "resolve tenant_id effect_key status receipt rows =
    (if status \<noteq> SUCCEEDED \<and> status \<noteq> FAILED
     then (Inl (OrchestratorError ''INVALID_RESERVATION_SETTLEMENT''), rows)
     else if \<not> isSha256Hex effect_key then (Inl (OrchestratorError ''EFFECT_KEY_INVALID''), rows)
     else let key = rowKey tenant_id effect_key in
     (case rows key of
        None \<Rightarrow> (Inl (OrchestratorError ''RESERVATION_NOT_FOUND''), rows)
      | Some row \<Rightarrow>
          if er_status row = status then (Inr (), rows)
          else if er_status row = SUCCEEDED
          then (Inl (OrchestratorError ''RESERVATION_NOT_SETTLEABLE''), rows)
          else (Inr (), rows(key \<mapsto> row\<lparr>er_status := status, er_receipt := receipt\<rparr>))))"

definition reconcile :: "string \<Rightarrow> string \<Rightarrow> string \<Rightarrow> effect_rows \<Rightarrow> reconciliation result" where
  "reconcile tenant_id effect_key skill_id rows =
    (case rows (rowKey tenant_id effect_key) of
       None \<Rightarrow> Inr ReconIndeterminate
     | Some row \<Rightarrow>
         if er_skill_id row \<noteq> skill_id then Inl (OrchestratorError ''EFFECT_SKILL_MISMATCH'')
         else if er_status row = SUCCEEDED
         then Inr (ReconSucceeded (if er_receipt row = JUndef then None else Some (er_receipt row)))
         else if er_status row = FAILED then Inr ReconFailed
         else Inr ReconIndeterminate)"

definition reopenForRetry :: "int \<Rightarrow> int \<Rightarrow> string \<Rightarrow> string \<Rightarrow> effect_rows \<Rightarrow> bool \<times> effect_rows" where
  "reopenForRetry window now tenant_id effect_key rows =
    (let key = rowKey tenant_id effect_key in
     case rows key of
       None \<Rightarrow> (False, rows)
     | Some row \<Rightarrow>
         if er_status row \<noteq> FAILED then (False, rows)
         else (True, rows(key \<mapsto> row\<lparr>er_status := RESERVED, er_expires_at := now + window\<rparr>)))"

definition peek :: "string \<Rightarrow> string \<Rightarrow> effect_rows \<Rightarrow> effect_row option" where
  "peek tenant_id effect_key rows = rows (rowKey tenant_id effect_key)"

subsection \<open>The guard as an instance of the interface\<close>

definition view_row :: "effect_row \<Rightarrow> reservation_view" where
  "view_row row = (er_fingerprint row, er_skill_id row, er_status row, Some (er_expires_at row), er_receipt row)"

definition guard_view :: "effect_rows \<Rightarrow> string \<times> string \<Rightarrow> reservation_view option" where
  "guard_view rows p = map_option view_row (peek (fst p) (snd p) rows)"

fun guard_call :: "runtime \<Rightarrow> int \<Rightarrow> guard_op \<Rightarrow> effect_rows \<Rightarrow> guard_reply \<times> effect_rows" where
  "guard_call rt window (Reserve now i) rows =
     (let (r, rows') = reserve rt window now i rows
      in (case r of Inl e \<Rightarrow> Refused e | Inr out \<Rightarrow> Outcome out, rows'))"
| "guard_call rt window (Resolve t k st receipt) rows =
     (let (r, rows') = resolve t k st receipt rows
      in (case r of Inl e \<Rightarrow> Refused e | Inr _ \<Rightarrow> Settled, rows'))"
| "guard_call rt window (Reconcile t k sk) rows =
     (case reconcile t k sk rows of Inl e \<Rightarrow> Refused e | Inr a \<Rightarrow> Reconciled a, rows)"
| "guard_call rt window (Reopen now t k) rows =
     (let (b, rows') = reopenForRetry window now t k rows in (Reopened b, rows'))"
| "guard_call rt window (Expire t k) rows = (Refused (ThrownError ''TypeError''), rows)"

definition admissible :: "runtime \<Rightarrow> reserve_input \<Rightarrow> bool" where
  "admissible rt i \<longleftrightarrow>
     computeEffectKey rt (reservation_identity i) = Inr (ri_effect_key i) \<and> isSha256Hex (ri_fingerprint i)"

text \<open>
  Why a reservation is refused before the table is looked at: its key is not the digest of its identity,
  or its fingerprint is no digest.
\<close>

definition refusal_of :: "runtime \<Rightarrow> reserve_input \<Rightarrow> failure option" where
  "refusal_of rt i =
    (if admissible rt i then None
     else Some (case computeEffectKey rt (reservation_identity i) of
         Inl e \<Rightarrow> e
       | Inr k \<Rightarrow> OrchestratorError (if k \<noteq> ri_effect_key i then ''EFFECT_KEY_MISMATCH''
           else ''REQUEST_FINGERPRINT_INVALID'')))"

lemma refusal_of_None [simp]: "refusal_of rt i = None \<longleftrightarrow> admissible rt i"
  by (simp add: refusal_of_def)

fun memory_error :: "guard_error \<Rightarrow> failure" where
  "memory_error NotASettlement = OrchestratorError ''INVALID_RESERVATION_SETTLEMENT''"
| "memory_error NoReservation = OrchestratorError ''RESERVATION_NOT_FOUND''"
| "memory_error AlreadySettled = OrchestratorError ''RESERVATION_NOT_SETTLEABLE''"
| "memory_error OtherSkill = OrchestratorError ''EFFECT_SKILL_MISMATCH''"
| "memory_error _ = ThrownError ''TypeError''"

text \<open>The in-memory guard keeps receipts as they are, has no escalation and no second key per request step.\<close>

definition memory_profile :: "runtime \<Rightarrow> int \<Rightarrow> guard_profile" where
  "memory_profile rt window = \<lparr>gp_window = window, gp_refusal = refusal_of rt, gp_error = memory_error,
     gp_escalates = False, gp_no_receipt = JUndef, gp_stored = Some,
     gp_shown = (\<lambda>r. if r = JUndef then None else Some r)\<rparr>"

lemma memory_profile_members [simp]:
  "gp_window (memory_profile rt window) = window" "gp_refusal (memory_profile rt window) = refusal_of rt"
  "gp_error (memory_profile rt window) = memory_error" "\<not> gp_escalates (memory_profile rt window)"
  "gp_no_receipt (memory_profile rt window) = JUndef" "gp_stored (memory_profile rt window) = Some"
  "gp_shown (memory_profile rt window) r = (if r = JUndef then None else Some r)"
  by (simp_all add: memory_profile_def)

lemmas memory_table_intros = decision_table.intros [where p = "memory_profile rt window" for rt window, simplified]

lemma window_closed_Some [simp]: "window_closed now (Some e) \<longleftrightarrow> e \<le> now"
  by (simp add: window_closed_def)

lemma rowKey_inj:
  "isSha256Hex k \<Longrightarrow> isSha256Hex k' \<Longrightarrow> rowKey t k = rowKey t' k' \<longleftrightarrow> t = t' \<and> k = k'"
  by (auto simp: rowKey_def dest!: hex_length)

lemma reserve_table:
  "decision_table (memory_profile rt window) (Reserve now i) False (guard_view rows (ri_tenant_id i, ri_effect_key i))
     (fst (guard_call rt window (Reserve now i) rows))
     (guard_view (snd (guard_call rt window (Reserve now i) rows)) (ri_tenant_id i, ri_effect_key i))"
proof (cases "admissible rt i")
  case False
  then have "reserve rt window now i rows = (Inl (the (refusal_of rt i)), rows)"
    by (cases "computeEffectKey rt (reservation_identity i)") (auto simp: admissible_def reserve_def refusal_of_def)
  moreover have "refusal_of rt i = Some (the (refusal_of rt i))" using False by (simp add: refusal_of_def)
  ultimately show ?thesis using reserve_refused [of "memory_profile rt window" i] by simp
next
  case True
  then have key: "computeEffectKey rt (reservation_identity i) = Inr (ri_effect_key i)"
    and fp: "isSha256Hex (ri_fingerprint i)" by (simp_all add: admissible_def)
  show ?thesis
  proof (cases "rows (rowKey (ri_tenant_id i) (ri_effect_key i))")
    case None
    then show ?thesis using True key fp
      by (simp add: guard_view_def peek_def reserve_def view_row_def memory_table_intros)
  next
    case (Some row)
    then have v: "guard_view rows (ri_tenant_id i, ri_effect_key i) = Some (view_row row)"
      by (simp add: guard_view_def peek_def)
    have r: "snd (guard_call rt window (Reserve now i) rows) = rows"
      using Some key fp by (simp add: reserve_def)
    show ?thesis
      unfolding r v using True Some key fp
      by (cases "er_status row") (auto simp: reserve_def view_row_def intro: memory_table_intros)
  qed
qed

lemma resolve_table:
  assumes "isSha256Hex k"
  shows "decision_table (memory_profile rt window) (Resolve t k st r) False (guard_view rows (t, k))
     (fst (guard_call rt window (Resolve t k st r) rows))
     (guard_view (snd (guard_call rt window (Resolve t k st r) rows)) (t, k))"
proof (cases "rows (rowKey t k)")
  case None
  then show ?thesis using assms
    by (cases st) (auto simp: guard_view_def peek_def resolve_def intro: memory_table_intros)
next
  case (Some row)
  then show ?thesis using assms
    by (cases st; cases "er_status row")
      (auto simp: guard_view_def peek_def resolve_def view_row_def intro: memory_table_intros)
qed

lemma reconcile_table:
  "decision_table (memory_profile rt window) (Reconcile t k sk) False (guard_view rows (t, k))
     (fst (guard_call rt window (Reconcile t k sk) rows)) (guard_view rows (t, k))"
proof (cases "rows (rowKey t k)")
  case None
  then show ?thesis by (simp add: guard_view_def peek_def reconcile_def memory_table_intros)
next
  case (Some row)
  then show ?thesis using reconcile_succeeded [of "memory_profile rt window" t k sk False]
    by (cases "er_status row") (auto simp: guard_view_def peek_def reconcile_def view_row_def intro: memory_table_intros)
qed

lemma reopen_table:
  "decision_table (memory_profile rt window) (Reopen now t k) False (guard_view rows (t, k))
     (fst (guard_call rt window (Reopen now t k) rows))
     (guard_view (snd (guard_call rt window (Reopen now t k) rows)) (t, k))"
proof (cases "rows (rowKey t k)")
  case None
  then show ?thesis by (simp add: guard_view_def peek_def reopenForRetry_def memory_table_intros)
next
  case (Some row)
  then show ?thesis
    by (cases "er_status row")
      (auto simp: guard_view_def peek_def reopenForRetry_def view_row_def intro: memory_table_intros)
qed

interpretation memory_guard: effect_guard guard_view "guard_call rt window" "isSha256Hex \<circ> snd" "\<lambda>_ _. False" "memory_profile rt window"
  for rt :: runtime and window :: int
proof
  fix x and s :: effect_rows
  assume "(isSha256Hex \<circ> snd) (op_target x)"
  then have hex: "isSha256Hex (snd (op_target x))" by simp
  show "decision_table (memory_profile rt window) x False (guard_view s (op_target x))
      (fst (guard_call rt window x s)) (guard_view (snd (guard_call rt window x s)) (op_target x))"
  proof (cases x)
    case (Reserve now i)
    then show ?thesis using reserve_table by simp
  next
    case (Resolve t k st r)
    then show ?thesis using resolve_table [of k] hex by simp
  next
    case (Reconcile t k sk)
    then show ?thesis using reconcile_table by simp
  next
    case (Reopen now t k)
    then show ?thesis using reopen_table by simp
  next
    case (Expire t k)
    then show ?thesis using expire_absent [of "memory_profile rt window"] by simp
  qed
next
  fix x p and s :: effect_rows
  assume "(isSha256Hex \<circ> snd) (op_target x)" "(isSha256Hex \<circ> snd) p" "op_target x \<noteq> p"
  then have "rowKey (fst p) (snd p) \<noteq> rowKey (fst (op_target x)) (snd (op_target x))"
    by (metis rowKey_inj prod.collapse comp_apply)
  then show "guard_view (snd (guard_call rt window x s)) p = guard_view s p"
    by (cases x) (auto simp: guard_view_def peek_def reserve_def resolve_def reopenForRetry_def Let_def
        split: sum.splits option.splits)
qed

text \<open>
  C13: every call of the in-memory guard - reservation, settlement, reconciliation, reopening - gives the one
  answer the interface's decision table admits for the row it meets, and leaves the row as the table says.
  Reconciliation answers what the row holds, and to no other skill. The key has the form of a digest.
\<close>

theorem memory_guard_refines_decision_table:
  assumes "isSha256Hex (snd (op_target x))"
  shows "{r. \<exists>v. decision_table (memory_profile rt window) x False (guard_view rows (op_target x)) r v}
      = {fst (guard_call rt window x rows)}
    \<and> decision_table (memory_profile rt window) x False (guard_view rows (op_target x))
      (fst (guard_call rt window x rows)) (guard_view (snd (guard_call rt window x rows)) (op_target x))"
  using memory_guard.table [of x rt window rows] table_only_answer assms by simp

text \<open>
  over any sequence of calls on a fresh guard, the number of dispatch slots opened for one
  effect (its reservation and every reopening) is at most one more than the number of times the
  provider confirmed that the effect did not happen. Without such a confirmation the effect is
  dispatched at most once, whatever retries, redeliveries and reconciliations occur.
\<close>

theorem at_most_one_dispatch_per_confirmed_absence:
  assumes "isSha256Hex k" and "\<forall>x \<in> set xs. isSha256Hex (snd (op_target x))"
  shows "length (filter (\<lambda>e. op_target (fst e) = (t, k) \<and> opens_slot e)
           (fst (session (guard_call rt window) xs Map.empty)))
    \<le> 1 + length (filter (\<lambda>e. op_target (fst e) = (t, k) \<and> confirms_absence e)
           (fst (session (guard_call rt window) xs Map.empty)))"
  using memory_guard.session_credit [of "(t, k)" xs rt window Map.empty] assms
  by (simp add: guard_view_def peek_def)

text \<open>
  a reservation settled as succeeded stays so: after any further calls, a redelivery of the
  same payload is answered with the stored receipt, and a different payload under the key is a
  conflict.
\<close>

theorem settled_success_is_replayed:
  assumes "guard_view rows (ri_tenant_id i, ri_effect_key i) = Some (f, sk, SUCCEEDED, e, receipt)"
    and "isSha256Hex (ri_effect_key i)" and "\<forall>x \<in> set xs. isSha256Hex (snd (op_target x))"
    and "admissible rt i"
  shows "fst (reserve rt window now i (snd (session (guard_call rt window) xs rows))) =
    Inr (if f = ri_fingerprint i then Replay receipt else Conflict)"
proof -
  let ?s = "snd (session (guard_call rt window) xs rows)"
  have "guard_view ?s (ri_tenant_id i, ri_effect_key i) = Some (f, sk, SUCCEEDED, e, receipt)"
    by (rule memory_guard.session_succeeded) (use assms in auto)
  then have "fst (guard_call rt window (Reserve now i) ?s) =
      Outcome (if f = ri_fingerprint i then Replay receipt else Conflict)"
    by (intro memory_guard.succeeded_answers) (use assms in auto)
  then show ?thesis
    by (auto simp: case_prod_beta Let_def split: sum.splits)
qed

subsection \<open>Closed examples\<close>

text \<open>A runtime whose digests are well-formed, and one reservation it admits.\<close>

definition hex_runtime :: runtime where
  "hex_runtime = example_runtime\<lparr>rt_sha256 := (\<lambda>_. replicate 64 CHR ''0'')\<rparr>"

definition example_reservation :: reserve_input where
  "example_reservation = \<lparr>ri_tenant_id = ''t1'', ri_run_id = ''run-1'', ri_request_id = ''sig-9'',
     ri_effect_key = replicate 64 CHR ''0'', ri_fingerprint = replicate 64 CHR ''a'',
     ri_skill_id = ''skill.sales.create_order'', ri_step_index = Fin 1, ri_action_revision = Fin 0\<rparr>"

lemma example_key: "isSha256Hex (replicate 64 CHR ''0'')" "isSha256Hex (replicate 64 CHR ''a'')"
  by (simp_all add: isSha256Hex_def list_all_iff)

lemma example_admissible: "admissible hex_runtime example_reservation"
  using example_key
  by (simp add: admissible_def hex_runtime_def example_runtime_def example_reservation_def
      reservation_identity_def computeEffectKey_def effect_identity_def trim_def is_ws_def
      effect_canonicalizeJson_def durable_canonicalizeJson_def database_canonicalizeJson_def)

lemma example_computed:
  "computeEffectKey hex_runtime (reservation_identity example_reservation) = Inr (replicate 64 CHR ''0'')"
  using example_admissible by (simp add: admissible_def example_reservation_def)

definition example_settled :: effect_rows where
  "example_settled = snd (session (guard_call hex_runtime EFFECT_RESERVATION_WINDOW_MS)
     [Reserve 5 example_reservation, Resolve ''t1'' (replicate 64 CHR ''0'') SUCCEEDED (JStr ''rcpt'')]
     Map.empty)"

lemma example_settled_view:
  "guard_view example_settled (ri_tenant_id example_reservation, ri_effect_key example_reservation) =
     Some (replicate 64 CHR ''a'', ''skill.sales.create_order'', SUCCEEDED, Some 259200005, JStr ''rcpt'')"
  using example_key
  by (simp add: example_settled_def reserve_def resolve_def example_computed guard_view_def peek_def
      view_row_def EFFECT_RESERVATION_WINDOW_MS_def case_prod_beta)
    (simp add: example_reservation_def)

theorem memory_guard_refines_decision_table_witness:
  "{r. \<exists>v. decision_table (memory_profile hex_runtime 7)
        (Reconcile ''t1'' (replicate 64 CHR ''0'') ''skill.sales.create_order'') False
        (guard_view example_settled (''t1'', replicate 64 CHR ''0'')) r v}
    = {Reconciled (ReconSucceeded (Some (JStr ''rcpt'')))}"
proof -
  let ?x = "Reconcile ''t1'' (replicate 64 CHR ''0'') ''skill.sales.create_order''"
  have "guard_view example_settled (''t1'', replicate 64 CHR ''0'') =
      Some (replicate 64 CHR ''a'', ''skill.sales.create_order'', SUCCEEDED, Some 259200005, JStr ''rcpt'')"
    using example_settled_view by (simp add: example_reservation_def)
  then have "fst (guard_call hex_runtime 7 ?x example_settled) = Reconciled (ReconSucceeded (Some (JStr ''rcpt'')))"
    by (auto simp: guard_view_def peek_def view_row_def reconcile_def)
  with memory_guard_refines_decision_table [of ?x hex_runtime 7 example_settled] example_key show ?thesis by simp
qed

theorem at_most_one_dispatch_per_confirmed_absence_witness:
  "length (filter (\<lambda>e. op_target (fst e) = (''t1'', replicate 64 CHR ''0'') \<and> opens_slot e)
      (fst (session (guard_call hex_runtime 7)
        [Reserve 5 example_reservation, Reserve 6 example_reservation] Map.empty))) \<le> 1
   \<and> opens_slot (Reserve 5 example_reservation,
        fst (guard_call hex_runtime 7 (Reserve 5 example_reservation) Map.empty))"
proof
  let ?xs = "[Reserve 5 example_reservation, Reserve 6 example_reservation]"
  have k: "isSha256Hex (ri_effect_key example_reservation)"
    by (simp add: example_reservation_def example_key)
  have "\<forall>x \<in> set ?xs. isSha256Hex (snd (op_target x))" using k by simp
  from at_most_one_dispatch_per_confirmed_absence [OF example_key(1) this, of "''t1''" hex_runtime 7]
  show "length (filter (\<lambda>e. op_target (fst e) = (''t1'', replicate 64 CHR ''0'') \<and> opens_slot e)
      (fst (session (guard_call hex_runtime 7) ?xs Map.empty))) \<le> 1"
    by (simp add: case_prod_beta Let_def)
  show "opens_slot (Reserve 5 example_reservation,
      fst (guard_call hex_runtime 7 (Reserve 5 example_reservation) Map.empty))"
    by (simp add: reserve_def example_computed) (simp add: example_reservation_def example_key)
qed

theorem settled_success_is_replayed_witness:
  "fst (reserve hex_runtime EFFECT_RESERVATION_WINDOW_MS 99 example_reservation
     (snd (session (guard_call hex_runtime EFFECT_RESERVATION_WINDOW_MS)
       [Reopen 9 ''t1'' (replicate 64 CHR ''0'')] example_settled))) = Inr (Replay (JStr ''rcpt''))"
proof -
  have "fst (reserve hex_runtime EFFECT_RESERVATION_WINDOW_MS 99 example_reservation
     (snd (session (guard_call hex_runtime EFFECT_RESERVATION_WINDOW_MS)
       [Reopen 9 ''t1'' (replicate 64 CHR ''0'')] example_settled))) =
    Inr (if replicate 64 CHR ''a'' = ri_fingerprint example_reservation then Replay (JStr ''rcpt'') else Conflict)"
    by (rule settled_success_is_replayed [OF example_settled_view _ _ example_admissible])
      (simp_all add: example_reservation_def example_key)
  then show ?thesis by (simp add: example_reservation_def)
qed

end
