(* ===== verification/DurableGuard.thy ===== *)
theory DurableGuard
  imports ReservationStore MemoryEffectGuard
begin

text \<open>
  The durable effect guard of \<open>packages/core-engine/src/durability/effect-guard.ts\<close> over the
  reservation repository: one definition per method, and the proof that guard and repository
  together follow the decision table of the interface. An escalated row (\<open>EXPIRED\<close>) appears to a
  client as a reservation whose window is closed for good. \<open>now\<close> and \<open>later\<close> are the two readings of
  the guard's clock in one call, \<open>dbnow\<close> is the database's.
\<close>

definition EFFECT_RESERVATION_TTL_MS :: int where
  "EFFECT_RESERVATION_TTL_MS = 72 * 60 * 60 * 1000"

definition durable_computeEffectKey :: "runtime \<Rightarrow> effect_key_input \<Rightarrow> string result" where
  "durable_computeEffectKey rt i =
    (if blank (ek_tenant_id i) then Inl (OrchestratorError ''TENANT_CONTEXT_REQUIRED'')
     else if blank (ek_skill_id i) then Inl (OrchestratorError ''SKILL_ID_REQUIRED'')
     else if blank (ek_request_id i) then Inl (OrchestratorError ''REQUEST_ID_REQUIRED'')
     else if \<not> is_natural (ek_step_index i) then Inl (OrchestratorError ''STEP_INDEX_INVALID'')
     else if \<not> is_natural (ek_action_revision i) then Inl (OrchestratorError ''ACTION_REVISION_INVALID'')
     else computeEffectKey rt i)"

definition durable_decide :: "int \<Rightarrow> string \<Rightarrow> reservation_row \<Rightarrow> reservation_outcome" where
  "durable_decide later fingerprint existing =
    (if rr_fingerprint existing \<noteq> fingerprint then Conflict
     else case rr_status existing of
       RowSucceeded \<Rightarrow> Replay (rr_receipt existing)
     | RowReserved \<Rightarrow> if rr_expires_at existing \<le> later then ReconcileRequired else InFlight
     | RowFailed \<Rightarrow> ReconcileRequired
     | RowExpired \<Rightarrow> ReconcileRequired)"

definition durable_reserve :: "runtime \<Rightarrow> int \<Rightarrow> int \<Rightarrow> int \<Rightarrow> int \<Rightarrow> reserve_input \<Rightarrow> reservation_row list \<Rightarrow>
    reservation_outcome result \<times> reservation_row list" where
  "durable_reserve rt ttl dbnow now later i table =
    (case durable_computeEffectKey rt (reservation_identity i) of
       Inl e \<Rightarrow> (Inl e, table)
     | Inr canonicalKey \<Rightarrow>
       if canonicalKey \<noteq> ri_effect_key i then (Inl (OrchestratorError ''EFFECT_KEY_MISMATCH''), table)
       else if \<not> isSha256Hex (ri_fingerprint i)
       then (Inl (OrchestratorError ''REQUEST_FINGERPRINT_INVALID''), table)
       else (case insertReservation dbnow
           \<lparr>rq_tenant_id = ri_tenant_id i, rq_run_id = ri_run_id i, rq_request_id = ri_request_id i,
            rq_effect_key = ri_effect_key i, rq_fingerprint = ri_fingerprint i, rq_skill_id = ri_skill_id i,
            rq_step_index = ri_step_index i, rq_expires_at = Some (now + ttl)\<rparr> table of
           (Inl e, t) \<Rightarrow> (Inl e, t)
         | (Inr (Some _), t) \<Rightarrow> (Inr Reserved, t)
         | (Inr None, t) \<Rightarrow>
             (case getReservation (ri_tenant_id i) (ri_effect_key i) t of
                Inl e \<Rightarrow> (Inl e, t)
              | Inr None \<Rightarrow> (Inl (OrchestratorError ''RESERVATION_NOT_DURABLE''), t)
              | Inr (Some existing) \<Rightarrow> (Inr (durable_decide later (ri_fingerprint i) existing), t))))"

text \<open>\<open>tolerant\<close>: the injected repository implements the optional \<open>resolve\<close>.\<close>

definition durable_resolve :: "bool \<Rightarrow> int \<Rightarrow> string \<Rightarrow> string \<Rightarrow> row_status \<Rightarrow> json \<Rightarrow> reservation_row list \<Rightarrow>
    unit result \<times> reservation_row list" where
  "durable_resolve tolerant dbnow tenant_id effect_key status receipt table =
    (if tolerant then repo_resolve dbnow tenant_id effect_key status receipt table
     else case settleReservation dbnow tenant_id effect_key status receipt table of
       (Inl e, t) \<Rightarrow> (Inl e, t)
     | (Inr True, t) \<Rightarrow> (Inr (), t)
     | (Inr False, t) \<Rightarrow>
         (case getReservation tenant_id effect_key t of
            Inl e \<Rightarrow> (Inl e, t)
          | Inr current \<Rightarrow>
              if map_option rr_status current = Some status then (Inr (), t)
              else (Inl (OrchestratorError ''RESERVATION_NOT_SETTLEABLE''), t)))"

definition durable_reconcile :: "string \<Rightarrow> string \<Rightarrow> string \<Rightarrow> reservation_row list \<Rightarrow> reconciliation result" where
  "durable_reconcile tenant_id effect_key skill_id table =
    andThen (getReservation tenant_id effect_key table) (\<lambda>r. case r of
       None \<Rightarrow> Inr ReconIndeterminate
     | Some reservation \<Rightarrow>
         if rr_skill_id reservation \<noteq> skill_id then Inl (OrchestratorError ''EFFECT_SKILL_MISMATCH'')
         else (case rr_status reservation of
           RowSucceeded \<Rightarrow> Inr (ReconSucceeded (Some (rr_receipt reservation)))
         | RowFailed \<Rightarrow> Inr ReconFailed
         | RowReserved \<Rightarrow> Inr ReconIndeterminate
         | RowExpired \<Rightarrow> Inr ReconIndeterminate))"

definition durable_reopenForRetry :: "int \<Rightarrow> int \<Rightarrow> string \<Rightarrow> string \<Rightarrow> reservation_row list \<Rightarrow>
    bool result \<times> reservation_row list" where
  "durable_reopenForRetry ttl now tenant_id effect_key table =
     reopenReservation tenant_id effect_key (now + ttl) table"

subsection \<open>The guard as an instance of the interface\<close>

fun row_status_of :: "reservation_status \<Rightarrow> row_status" where
  "row_status_of RESERVED = RowReserved"
| "row_status_of SUCCEEDED = RowSucceeded"
| "row_status_of FAILED = RowFailed"

text \<open>A settlement as \<open>RESERVED\<close> is outside the parameter type of \<open>resolve\<close>.\<close>

fun durable_call :: "runtime \<Rightarrow> int \<Rightarrow> int \<Rightarrow> guard_op \<Rightarrow> reservation_row list \<Rightarrow> guard_reply \<times> reservation_row list" where
  "durable_call rt ttl dbnow (Reserve now i) table =
     (let (r, t) = durable_reserve rt ttl dbnow now now i table
      in (case r of Inl e \<Rightarrow> Refused e | Inr out \<Rightarrow> Outcome out, t))"
| "durable_call rt ttl dbnow (Resolve tenant k RESERVED receipt) table = (Refused (ThrownError ''TypeError''), table)"
| "durable_call rt ttl dbnow (Resolve tenant k st receipt) table =
     (let (r, t) = durable_resolve True dbnow tenant k (row_status_of st) receipt table
      in (case r of Inl e \<Rightarrow> Refused e | Inr _ \<Rightarrow> Settled, t))"
| "durable_call rt ttl dbnow (Reconcile tenant k sk) table =
     (case durable_reconcile tenant k sk table of Inl e \<Rightarrow> Refused e | Inr a \<Rightarrow> Reconciled a, table)"
| "durable_call rt ttl dbnow (Reopen now tenant k) table =
     (let (r, t) = durable_reopenForRetry ttl now tenant k table
      in (case r of Inl e \<Rightarrow> Refused e | Inr b \<Rightarrow> Reopened b, t))"
| "durable_call rt ttl dbnow (Expire tenant k) table =
     (let (r, t) = expireReservation dbnow tenant k table
      in (case r of Inl e \<Rightarrow> Refused e | Inr b \<Rightarrow> Expired b, t))"

fun view_status :: "row_status \<Rightarrow> int \<Rightarrow> reservation_status \<times> int option" where
  "view_status RowReserved e = (RESERVED, Some e)"
| "view_status RowSucceeded e = (SUCCEEDED, Some e)"
| "view_status RowFailed e = (FAILED, Some e)"
| "view_status RowExpired e = (RESERVED, None)"

definition durable_row_view :: "reservation_row \<Rightarrow> reservation_view" where
  "durable_row_view r =
    (let (st, e) = view_status (rr_status r) (rr_expires_at r) in (rr_fingerprint r, rr_skill_id r, st, e, rr_receipt r))"

definition durable_view :: "reservation_row list \<Rightarrow> string \<times> string \<Rightarrow> reservation_view option" where
  "durable_view table p = map_option durable_row_view (find (row_at (fst p) (snd p)) table)"

text \<open>A key the database can hold, with the tenant in the spelling it publishes.\<close>

definition durable_key :: "string \<times> string \<Rightarrow> bool" where
  "durable_key p \<longleftrightarrow> tenant_uuid (fst p) \<and> uuid_text (fst p) = fst p \<and> \<not> blank (snd p)"

fun durable_error :: "guard_error \<Rightarrow> failure" where
  "durable_error StepTaken = ThrownError ''EFFECT_RESERVATION_IDENTITY_IN_USE''"
| "durable_error NoReservation = ThrownError ''EFFECT_RESERVATION_NOT_FOUND''"
| "durable_error AlreadySettled = ThrownError ''EFFECT_RESERVATION_TERMINAL''"
| "durable_error Unstorable = ThrownError ''EFFECT_RESERVATION_RECEIPT_UNSERIALIZABLE''"
| "durable_error OtherSkill = OrchestratorError ''EFFECT_SKILL_MISMATCH''"
| "durable_error _ = ThrownError ''TypeError''"

text \<open>The inbound request step already holds a reservation, under whatever key.\<close>

fun durable_taken :: "reservation_row list \<Rightarrow> guard_op \<Rightarrow> bool" where
  "durable_taken table (Reserve now i) =
     (\<exists>r \<in> set table. rr_tenant_id r = uuid_text (ri_tenant_id i) \<and> rr_request_id r = ri_request_id i
        \<and> rr_skill_id r = ri_skill_id i \<and> rr_step_index r = ri_step_index i)"
| "durable_taken table _ = False"

definition durable_profile :: "runtime \<Rightarrow> int \<Rightarrow> guard_profile" where
  "durable_profile rt ttl = \<lparr>gp_window = ttl, gp_refusal = refusal_of rt, gp_error = durable_error,
     gp_escalates = True, gp_no_receipt = JNull,
     gp_stored = (\<lambda>r. if r = JUndef then Some JNull else stringified r), gp_shown = Some\<rparr>"

lemma durable_profile_members [simp]:
  "gp_window (durable_profile rt ttl) = ttl" "gp_refusal (durable_profile rt ttl) = refusal_of rt"
  "gp_error (durable_profile rt ttl) = durable_error" "gp_escalates (durable_profile rt ttl)"
  "gp_no_receipt (durable_profile rt ttl) = JNull"
  "gp_stored (durable_profile rt ttl) r = (if r = JUndef then Some JNull else stringified r)"
  "gp_shown (durable_profile rt ttl) = Some"
  by (simp_all add: durable_profile_def)

lemmas durable_table_intros = decision_table.intros [where p = "durable_profile rt ttl" for rt ttl, simplified]

lemma serializeReceipt_stored:
  "serializeReceipt r = (case (if r = JUndef then Some JNull else stringified r) of
     None \<Rightarrow> Inl (ThrownError ''EFFECT_RESERVATION_RECEIPT_UNSERIALIZABLE'') | Some v \<Rightarrow> Inr v)"
  by (auto simp: serializeReceipt_def)

lemma durable_computeEffectKey_eq: "durable_computeEffectKey rt i = computeEffectKey rt i"
  by (simp add: durable_computeEffectKey_def computeEffectKey_def blank_def)

lemma durable_keyD:
  assumes "durable_key p"
  shows "assertEffectKey (snd p) = Inr ()" "assertTenantContext (fst p) = Inr ()" "uuid_text (fst p) = fst p"
  using assms by (simp_all add: durable_key_def assertEffectKey_def assertTenantContext_def)

lemma row_at_target: "durable_key p \<Longrightarrow> row_at (fst p) (snd p) r \<longleftrightarrow> (rr_tenant_id r, rr_effect_key r) = p"
  by (cases p) (simp add: row_at_def durable_key_def)

text \<open>An update of the row of one key, as a client sees it.\<close>

lemma durable_view_update:
  assumes "durable_key p" and "durable_key q"
    and "\<And>r. P r \<Longrightarrow> row_at (fst p) (snd p) r"
    and "\<And>r. rr_tenant_id (f r) = rr_tenant_id r \<and> rr_effect_key (f r) = rr_effect_key r"
    and "p \<noteq> q"
  shows "durable_view (update_first P f table) q = durable_view table q"
proof -
  have "find (row_at (fst q) (snd q)) (update_first P f table) = find (row_at (fst q) (snd q)) table"
    by (rule find_update_first_other) (use assms row_at_target in \<open>auto simp: row_at_def\<close>)
  then show ?thesis by (simp add: durable_view_def)
qed

lemma durable_view_found: "find (row_at t k) table = Some r \<Longrightarrow> durable_view table (t, k) = Some (durable_row_view r)"
  by (simp add: durable_view_def)

lemma durable_view_none: "find (row_at t k) table = None \<Longrightarrow> durable_view table (t, k) = None"
  by (simp add: durable_view_def)

lemma find_update_same:
  assumes "find (row_at t k) table = Some r" and "\<And>r. row_at t k (f r) = row_at t k r"
  shows "find (row_at t k) (update_first (row_at t k) f table) = Some (f r)"
  using find_update_first_same [of "row_at t k" f table] assms by simp

lemma row_at_kept [simp]:
  "row_at t k (r\<lparr>rr_status := st, rr_receipt := rc, rr_resolved_at := at'\<rparr>) = row_at t k r"
  "row_at t k (r\<lparr>rr_status := st, rr_expires_at := e, rr_resolved_at := at'\<rparr>) = row_at t k r"
  "row_at t k (r\<lparr>rr_status := st, rr_resolved_at := at'\<rparr>) = row_at t k r"
  by (simp_all add: row_at_def)

lemma list_ex_find: "list_ex P xs \<longleftrightarrow> find P xs \<noteq> None"
  by (induction xs) auto

lemma durable_insert_eq:
  assumes "durable_key (ri_tenant_id i, ri_effect_key i)" and "isSha256Hex (ri_fingerprint i)"
  shows "insertReservation dbnow \<lparr>rq_tenant_id = ri_tenant_id i, rq_run_id = ri_run_id i, rq_request_id = r,
      rq_effect_key = ri_effect_key i, rq_fingerprint = ri_fingerprint i, rq_skill_id = s,
      rq_step_index = n, rq_expires_at = e\<rparr> table
    = insertReservationRow dbnow \<lparr>rq_tenant_id = ri_tenant_id i, rq_run_id = ri_run_id i, rq_request_id = r,
      rq_effect_key = ri_effect_key i, rq_fingerprint = ri_fingerprint i, rq_skill_id = s,
      rq_step_index = n, rq_expires_at = e\<rparr> (ri_fingerprint i) table"
  using durable_keyD [OF assms(1)] normal_fingerprint [OF assms(2)]
  by (simp add: insertReservation_def in_tenant_def)

lemma durable_reserve_table:
  assumes key: "durable_key (ri_tenant_id i, ri_effect_key i)"
  shows "decision_table (durable_profile rt ttl) (Reserve now i) (durable_taken table (Reserve now i)) (durable_view table (ri_tenant_id i, ri_effect_key i))
     (fst (durable_call rt ttl dbnow (Reserve now i) table))
     (durable_view (snd (durable_call rt ttl dbnow (Reserve now i) table)) (ri_tenant_id i, ri_effect_key i))"
proof (cases "admissible rt i")
  case False
  then have "durable_reserve rt ttl dbnow now now i table = (Inl (the (refusal_of rt i)), table)"
    by (cases "computeEffectKey rt (reservation_identity i)")
      (auto simp: admissible_def durable_reserve_def durable_computeEffectKey_eq refusal_of_def)
  moreover have "refusal_of rt i = Some (the (refusal_of rt i))" using False by (simp add: refusal_of_def)
  ultimately show ?thesis using reserve_refused [of "durable_profile rt ttl" i] by simp
next
  case True
  then have ck: "durable_computeEffectKey rt (reservation_identity i) = Inr (ri_effect_key i)"
    and fp: "isSha256Hex (ri_fingerprint i)" by (simp_all add: admissible_def durable_computeEffectKey_eq)
  let ?q = "\<lparr>rq_tenant_id = ri_tenant_id i, rq_run_id = ri_run_id i, rq_request_id = ri_request_id i,
      rq_effect_key = ri_effect_key i, rq_fingerprint = ri_fingerprint i, rq_skill_id = ri_skill_id i,
      rq_step_index = ri_step_index i, rq_expires_at = Some (now + ttl)\<rparr>"
  note k = durable_keyD [OF key, simplified]
  have reserve: "durable_reserve rt ttl dbnow now now i table =
      (case insertReservationRow dbnow ?q (ri_fingerprint i) table of
           (Inl e, t) \<Rightarrow> (Inl e, t)
         | (Inr (Some _), t) \<Rightarrow> (Inr Reserved, t)
         | (Inr None, t) \<Rightarrow>
             (case getReservation (ri_tenant_id i) (ri_effect_key i) t of
                Inl e \<Rightarrow> (Inl e, t)
              | Inr None \<Rightarrow> (Inl (OrchestratorError ''RESERVATION_NOT_DURABLE''), t)
              | Inr (Some existing) \<Rightarrow> (Inr (durable_decide now (ri_fingerprint i) existing), t)))"
    using ck fp by (simp add: durable_reserve_def durable_insert_eq [OF key fp])
  show ?thesis
  proof (cases "find (row_at (ri_tenant_id i) (ri_effect_key i)) table")
    case None
    then have free: "\<not> list_ex (row_at (ri_tenant_id i) (ri_effect_key i)) table" by (simp add: list_ex_find)
    show ?thesis
    proof (cases "list_ex (same_request ?q) table")
      case True
      then have "durable_reserve rt ttl dbnow now now i table
          = (Inl (ThrownError ''EFFECT_RESERVATION_IDENTITY_IN_USE''), table)"
        using reserve free k by (simp add: insertReservationRow_def)
      moreover have "durable_taken table (Reserve now i)" using True by (auto simp: same_request_def list_ex_iff)
      ultimately show ?thesis using durable_view_none [OF None] \<open>admissible rt i\<close>
          reserve_taken [of "durable_profile rt ttl" i now] by (simp del: durable_taken.simps)
    next
      case False
      let ?row = "\<lparr>rr_tenant_id = uuid_text (ri_tenant_id i), rr_effect_key = ri_effect_key i,
              rr_request_id = ri_request_id i, rr_fingerprint = ri_fingerprint i, rr_run_id = ri_run_id i,
              rr_step_index = ri_step_index i, rr_skill_id = ri_skill_id i, rr_status = RowReserved,
              rr_receipt = JNull, rr_reserved_at = dbnow, rr_resolved_at = None, rr_expires_at = now + ttl\<rparr>"
      have r: "durable_reserve rt ttl dbnow now now i table = (Inr Reserved, table @ [?row])"
        using reserve free k False by (simp add: insertReservationRow_def Let_def)
      have "durable_view (table @ [?row]) (ri_tenant_id i, ri_effect_key i) = Some (durable_row_view ?row)"
        using None by (simp add: durable_view_def find_append row_at_def)
      moreover have "\<not> durable_taken table (Reserve now i)" using False by (auto simp: same_request_def list_ex_iff)
      ultimately show ?thesis
        using r durable_view_none [OF None] \<open>admissible rt i\<close> reserve_new [of "durable_profile rt ttl" i now]
        by (simp add: durable_row_view_def del: durable_taken.simps)
    qed
  next
    case (Some row)
    have taken: "list_ex (row_at (ri_tenant_id i) (ri_effect_key i)) table" using Some by (simp add: list_ex_find)
    have "durable_reserve rt ttl dbnow now now i table = (Inr (durable_decide now (ri_fingerprint i) row), table)"
      using reserve taken k Some by (simp add: insertReservationRow_def getReservation_def)
    then show ?thesis
      using durable_view_found [OF Some] True
      by (cases "rr_status row")
        (auto simp: durable_decide_def durable_row_view_def window_closed_def intro: durable_table_intros)
  qed
qed

lemma durable_resolve_table:
  assumes key: "durable_key (t, k)"
  shows "decision_table (durable_profile rt ttl) (Resolve t k st r) False (durable_view table (t, k))
     (fst (durable_call rt ttl dbnow (Resolve t k st r) table))
     (durable_view (snd (durable_call rt ttl dbnow (Resolve t k st r) table)) (t, k))"
proof (cases "st = RESERVED")
  case True
  then show ?thesis using resolve_no_settlement [of "durable_profile rt ttl"] by simp
next
  case False
  note d = durable_keyD [OF key, simplified]
  have call: "durable_call rt ttl dbnow (Resolve t k st r) table =
      (case repo_resolve dbnow t k (row_status_of st) r table of
         (Inl e, u) \<Rightarrow> (Refused e, u) | (Inr _, u) \<Rightarrow> (Settled, u))"
    using False by (cases st) (auto simp: durable_resolve_def split: prod.splits sum.splits)
  show ?thesis
  proof (cases "find (row_at t k) table")
    case None
    then show ?thesis
      using d durable_view_none [OF None] call False
      by (auto simp: repo_resolve_def in_tenant_def settleWithin_def intro: durable_table_intros)
  next
    case (Some row)
    note v = durable_view_found [OF Some]
    have u: "durable_view (update_first (row_at t k)
        (\<lambda>a. a\<lparr>rr_status := row_status_of st, rr_receipt := x, rr_resolved_at := Some dbnow\<rparr>) table) (t, k)
      = Some (durable_row_view (row\<lparr>rr_status := row_status_of st, rr_receipt := x, rr_resolved_at := Some dbnow\<rparr>))" for x
      by (rule durable_view_found) (rule find_update_same [OF Some], simp)
    show ?thesis
      using call d v Some False u
      by (cases st; cases "rr_status row"; cases "if r = JUndef then Some JNull else stringified r")
        (auto simp: repo_resolve_def in_tenant_def settleWithin_def RESOLVABLE_FROM_def durable_row_view_def
          serializeReceipt_stored intro: durable_table_intros split: if_splits)
  qed
qed

lemma durable_update_table:
  assumes "durable_key (t, k)" and "\<And>r. row_at t k (f r) = row_at t k r"
  shows "durable_view (snd (update_in_status t k st f table)) (t, k) =
    (if fst (update_in_status t k st f table)
     then map_option (\<lambda>r. durable_row_view (f r)) (find (row_at t k) table)
     else durable_view table (t, k))
    \<and> (fst (update_in_status t k st f table) \<longleftrightarrow> (\<exists>r. find (row_at t k) table = Some r \<and> rr_status r = st))"
proof (cases "find (row_at t k) table")
  case None
  then show ?thesis by (simp add: update_in_status_def)
next
  case (Some row)
  then show ?thesis
    using durable_view_found [OF find_update_same [OF Some assms(2)]] by (simp add: update_in_status_def)
qed

lemma durable_reopen_table:
  assumes key: "durable_key (t, k)"
  shows "decision_table (durable_profile rt ttl) (Reopen now t k) False (durable_view table (t, k))
     (fst (durable_call rt ttl dbnow (Reopen now t k) table))
     (durable_view (snd (durable_call rt ttl dbnow (Reopen now t k) table)) (t, k))"
proof -
  let ?f = "\<lambda>r. r\<lparr>rr_status := RowReserved, rr_expires_at := now + ttl, rr_resolved_at := None\<rparr>"
  have call: "durable_call rt ttl dbnow (Reopen now t k) table
      = (Reopened (fst (update_in_status t k RowFailed ?f table)), snd (update_in_status t k RowFailed ?f table))"
    using durable_keyD [OF key]
    by (simp add: durable_reopenForRetry_def reopenReservation_def in_tenant_def case_prod_beta Let_def)
  have "row_at t k (?f r) = row_at t k r" for r by simp
  note u = durable_update_table [OF key this, of RowFailed table]
  show ?thesis
  proof (cases "find (row_at t k) table")
    case None
    then show ?thesis using call u durable_view_none [OF None] by (simp add: durable_table_intros)
  next
    case (Some row)
    then show ?thesis
      using call u durable_view_found [OF Some] reopen_failed [of "durable_profile rt ttl" now]
      by (cases "rr_status row") (auto simp: durable_row_view_def intro: durable_table_intros)
  qed
qed

lemma durable_expire_table:
  assumes key: "durable_key (t, k)"
  shows "decision_table (durable_profile rt ttl) (Expire t k) False (durable_view table (t, k))
     (fst (durable_call rt ttl dbnow (Expire t k) table))
     (durable_view (snd (durable_call rt ttl dbnow (Expire t k) table)) (t, k))"
proof -
  let ?f = "\<lambda>r. r\<lparr>rr_status := RowExpired, rr_resolved_at := Some dbnow\<rparr>"
  have call: "durable_call rt ttl dbnow (Expire t k) table
      = (Expired (fst (update_in_status t k RowReserved ?f table)), snd (update_in_status t k RowReserved ?f table))"
    using durable_keyD [OF key] by (simp add: expireReservation_def in_tenant_def case_prod_beta Let_def)
  have "row_at t k (?f r) = row_at t k r" for r by simp
  note u = durable_update_table [OF key this, of RowReserved table]
  show ?thesis
  proof (cases "find (row_at t k) table")
    case None
    then show ?thesis using call u durable_view_none [OF None] by (simp add: durable_table_intros)
  next
    case (Some row)
    then show ?thesis
      using call u durable_view_found [OF Some]
      by (cases "rr_status row") (auto simp: durable_row_view_def intro: durable_table_intros)
  qed
qed

lemma durable_reconcile_table:
  assumes key: "durable_key (t, k)"
  shows "decision_table (durable_profile rt ttl) (Reconcile t k sk) False (durable_view table (t, k))
     (fst (durable_call rt ttl dbnow (Reconcile t k sk) table)) (durable_view table (t, k))"
proof (cases "find (row_at t k) table")
  case None
  then show ?thesis using durable_keyD [OF key] durable_view_none [OF None]
    by (simp add: durable_reconcile_def getReservation_def durable_table_intros)
next
  case (Some row)
  then show ?thesis
    using durable_keyD [OF key] durable_view_found [OF Some] reconcile_succeeded [of "durable_profile rt ttl" t k sk False]
    by (cases "rr_status row")
       (auto simp: durable_reconcile_def getReservation_def durable_row_view_def intro: durable_table_intros)
qed

lemma update_in_status_frame:
  assumes "durable_key (t, k)" "durable_key q" "(t, k) \<noteq> q"
    and "\<And>r. rr_tenant_id (f r) = rr_tenant_id r \<and> rr_effect_key (f r) = rr_effect_key r"
  shows "durable_view (snd (update_in_status t k st f table)) q = durable_view table q"
  using durable_view_update [OF assms(1,2), of "row_at t k" f table] assms(3,4)
  by (simp add: update_in_status_def split: option.split)

lemma durable_insert_frame:
  assumes "durable_key (rq_tenant_id q, rq_effect_key q)" "durable_key p" "(rq_tenant_id q, rq_effect_key q) \<noteq> p"
  shows "durable_view (snd (insertReservation dbnow q table)) p = durable_view table p"
proof -
  have "\<not> row_at (fst p) (snd p) row"
    if "rr_tenant_id row = uuid_text (rq_tenant_id q)" "rr_effect_key row = rq_effect_key q" for row
    using assms that row_at_target [OF assms(2), of row] durable_keyD(3) [OF assms(1)] by auto
  then show ?thesis
    by (auto simp: insertReservation_def in_tenant_def insertReservationRow_def durable_view_def find_append
        Let_def split: sum.splits option.splits)
qed

lemma durable_reserve_frame:
  assumes "durable_key (ri_tenant_id i, ri_effect_key i)" "durable_key p" "(ri_tenant_id i, ri_effect_key i) \<noteq> p"
  shows "durable_view (snd (durable_reserve rt ttl dbnow now later i table)) p = durable_view table p"
proof -
  let ?q = "\<lparr>rq_tenant_id = ri_tenant_id i, rq_run_id = ri_run_id i, rq_request_id = ri_request_id i,
      rq_effect_key = ri_effect_key i, rq_fingerprint = ri_fingerprint i, rq_skill_id = ri_skill_id i,
      rq_step_index = ri_step_index i, rq_expires_at = Some (now + ttl)\<rparr>"
  have "snd (durable_reserve rt ttl dbnow now later i table) = table
      \<or> snd (durable_reserve rt ttl dbnow now later i table) = snd (insertReservation dbnow ?q table)"
    by (auto simp: durable_reserve_def split: sum.splits option.splits prod.splits)
  then show ?thesis using durable_insert_frame [of ?q p dbnow table] assms by auto
qed

lemma durable_resolve_frame:
  assumes "durable_key (t, k)" "durable_key p" "(t, k) \<noteq> p"
  shows "durable_view (snd (repo_resolve dbnow t k st r table)) p = durable_view table p"
proof -
  have "durable_view (update_first (row_at t k) (\<lambda>r. r\<lparr>rr_status := st, rr_receipt := v, rr_resolved_at := Some dbnow\<rparr>) table) p
      = durable_view table p" for v
    by (rule durable_view_update [OF assms(1,2)]) (use assms(3) in simp_all)
  then show ?thesis
    by (auto simp: repo_resolve_def in_tenant_def settleWithin_def
        split: sum.splits option.splits settlement_result.splits prod.splits)
qed

lemma durable_frame:
  assumes "durable_key (op_target x)" "durable_key p" "op_target x \<noteq> p"
  shows "durable_view (snd (durable_call rt ttl dbnow x table)) p = durable_view table p"
proof (cases x)
  case (Reserve now i)
  then show ?thesis using durable_reserve_frame [of i p] assms by (simp add: case_prod_beta Let_def)
next
  case (Resolve t k st r)
  then show ?thesis using durable_resolve_frame [of t k p] assms
    by (cases st) (simp_all add: durable_resolve_def case_prod_beta Let_def)
next
  case (Reconcile t k sk)
  then show ?thesis by simp
next
  case (Reopen now t k)
  then show ?thesis using update_in_status_frame [of t k p] assms durable_keyD [of "(t, k)"]
    by (simp add: durable_reopenForRetry_def reopenReservation_def in_tenant_def case_prod_beta Let_def)
next
  case (Expire t k)
  then show ?thesis using update_in_status_frame [of t k p] assms durable_keyD [of "(t, k)"]
    by (simp add: expireReservation_def in_tenant_def case_prod_beta Let_def)
qed

interpretation durable_guard: effect_guard durable_view "durable_call rt ttl dbnow" durable_key durable_taken "durable_profile rt ttl"
  for rt :: runtime and ttl dbnow :: int
proof
  fix x and s :: "reservation_row list"
  assume key: "durable_key (op_target x)"
  show "decision_table (durable_profile rt ttl) x (durable_taken s x) (durable_view s (op_target x))
      (fst (durable_call rt ttl dbnow x s)) (durable_view (snd (durable_call rt ttl dbnow x s)) (op_target x))"
  proof (cases x)
    case (Reserve now i)
    then show ?thesis using durable_reserve_table key by simp
  next
    case (Resolve t k st r)
    then show ?thesis using durable_resolve_table [of t k] key by simp
  next
    case (Reconcile t k sk)
    then show ?thesis using durable_reconcile_table [of t k] key by simp
  next
    case (Reopen now t k)
    then show ?thesis using durable_reopen_table key by simp
  next
    case (Expire t k)
    then show ?thesis using durable_expire_table key by simp
  qed
next
  fix x p and s :: "reservation_row list"
  assume "durable_key (op_target x)" "durable_key p" "op_target x \<noteq> p"
  then show "durable_view (snd (durable_call rt ttl dbnow x s)) p = durable_view s p" by (rule durable_frame)
qed

subsection \<open>Properties\<close>

text \<open>
  C29: for a tenant in the spelling the database publishes and a key that is not blank, every call of the
  durable guard over the PostgreSQL repository - reservation, settlement, reconciliation, reopening,
  escalation - gives the one answer the interface's decision table admits for the row it meets, and leaves
  the row as the table says. A fresh key is refused exactly when the inbound request step already holds a
  reservation; reconciliation answers what the row holds; an open reservation, and no other, is escalated.
\<close>

theorem durable_guard_refines_decision_table:
  assumes "durable_key (op_target x)"
  shows "{r. \<exists>v. decision_table (durable_profile rt ttl) x (durable_taken table x) (durable_view table (op_target x)) r v}
      = {fst (durable_call rt ttl dbnow x table)}
    \<and> decision_table (durable_profile rt ttl) x (durable_taken table x) (durable_view table (op_target x))
      (fst (durable_call rt ttl dbnow x table))
      (durable_view (snd (durable_call rt ttl dbnow x table)) (op_target x))"
  using durable_guard.table [of x rt ttl table dbnow] table_only_answer assms by simp

text \<open>
  over any sequence of reservations, settlements, reconciliations, reopenings and escalations on
  the durable table, the dispatch slots opened for one effect number at most one more than the times
  the provider confirmed that the effect did not happen.
\<close>

theorem durable_effect_dispatched_once:
  assumes "durable_key (t, k)" and "\<forall>x \<in> set xs. durable_key (op_target x)"
  shows "length (filter (\<lambda>e. op_target (fst e) = (t, k) \<and> opens_slot e)
           (fst (session (durable_call rt ttl dbnow) xs [])))
    \<le> 1 + length (filter (\<lambda>e. op_target (fst e) = (t, k) \<and> confirms_absence e)
           (fst (session (durable_call rt ttl dbnow) xs [])))"
  using durable_guard.session_credit [of "(t, k)" xs rt ttl dbnow "[]"] assms
  by (simp add: durable_view_def)

text \<open>The outcome of the repository's own decision in the vocabulary of the guard.\<close>

fun guard_outcome :: "repository_outcome \<Rightarrow> reservation_outcome" where
  "guard_outcome RepoReserved = Reserved"
| "guard_outcome (RepoReplay r) = Replay r"
| "guard_outcome RepoInFlight = InFlight"
| "guard_outcome RepoReconcileRequired = ReconcileRequired"
| "guard_outcome RepoConflict = Conflict"

text \<open>
  the guard in the core engine and the composite in the database package decide alike: for an
  admissible reservation whose guard and database clocks agree, both give the same outcome, or refuse
  it with the same error, and leave the same table.
\<close>

theorem guard_and_repository_decide_alike:
  assumes "admissible rt i" and "durable_key (ri_tenant_id i, ri_effect_key i)"
    and "\<forall>r \<in> set table. rr_receipt r \<noteq> JUndef"
  shows "durable_reserve rt ttl now now now i table =
    (let (r, t) = repo_reserve now \<lparr>rq_tenant_id = ri_tenant_id i, rq_run_id = ri_run_id i,
         rq_request_id = ri_request_id i, rq_effect_key = ri_effect_key i, rq_fingerprint = ri_fingerprint i,
         rq_skill_id = ri_skill_id i, rq_step_index = ri_step_index i, rq_expires_at = Some (now + ttl)\<rparr> table
     in (case r of Inl e \<Rightarrow> Inl e | Inr out \<Rightarrow> Inr (guard_outcome out), t))"
proof -
  have ck: "durable_computeEffectKey rt (reservation_identity i) = Inr (ri_effect_key i)"
    and fp: "isSha256Hex (ri_fingerprint i)"
    using assms(1) by (simp_all add: admissible_def durable_computeEffectKey_eq)
  note k = durable_keyD [OF assms(2), simplified]
  note n = normal_fingerprint [OF fp]
  show ?thesis
  proof (cases "find (row_at (ri_tenant_id i) (ri_effect_key i)) table")
    case None
    then have "\<not> list_ex (row_at (ri_tenant_id i) (ri_effect_key i)) table" by (simp add: list_ex_find)
    then show ?thesis
      using ck fp k n
      by (simp add: durable_reserve_def durable_insert_eq [OF assms(2) fp] repo_reserve_def in_tenant_def
          insertReservationRow_def Let_def)
  next
    case (Some row)
    then have taken: "list_ex (row_at (ri_tenant_id i) (ri_effect_key i)) table" by (simp add: list_ex_find)
    have "rr_receipt row \<noteq> JUndef" using Some assms(3) by (auto dest: find_Some_set)
    then show ?thesis
      using ck fp k n taken Some
      by (cases "rr_status row")
        (simp_all add: durable_reserve_def durable_insert_eq [OF assms(2) fp] repo_reserve_def in_tenant_def
          insertReservationRow_def getReservation_def durable_decide_def decideReservation_def row_expired_def
          or_null_def)
  qed
qed

subsection \<open>Closed examples\<close>

lemma guard_outcome_reserved: "guard_outcome x = Reserved \<Longrightarrow> x = RepoReserved"
  by (cases x) simp_all

definition durable_reservation :: reserve_input where
  "durable_reservation = example_reservation\<lparr>ri_tenant_id := example_tenant\<rparr>"

lemma durable_reservation_members:
  "ri_tenant_id durable_reservation = example_tenant" "ri_effect_key durable_reservation = replicate 64 CHR ''0''"
  "ri_fingerprint durable_reservation = replicate 64 CHR ''a''"
  by (simp_all add: durable_reservation_def example_reservation_def)

lemma durable_example_key: "durable_key (ri_tenant_id durable_reservation, ri_effect_key durable_reservation)"
proof -
  have "replicate 64 CHR ''0'' = CHR ''0'' # replicate 63 CHR ''0''" by (simp add: numeral_eq_Suc)
  then show ?thesis
    by (simp add: durable_key_def durable_reservation_members example_tenant_uuid blank_def trim_def is_ws_def)
qed

lemma durable_example_admissible: "admissible hex_runtime durable_reservation"
  using example_key
  by (simp add: admissible_def hex_runtime_def example_runtime_def example_reservation_def durable_reservation_def
      example_tenant_def reservation_identity_def computeEffectKey_def effect_identity_def trim_def is_ws_def
      effect_canonicalizeJson_def durable_canonicalizeJson_def database_canonicalizeJson_def)

lemma durable_example_opens: "fst (durable_call hex_runtime 7 5 (Reserve 5 durable_reservation) []) = Outcome Reserved"
proof -
  have "computeEffectKey hex_runtime (reservation_identity durable_reservation) = Inr (ri_effect_key durable_reservation)"
    "isSha256Hex (ri_fingerprint durable_reservation)"
    using durable_example_admissible by (simp_all add: admissible_def)
  then show ?thesis
    using durable_insert_eq [OF durable_example_key] durable_keyD [OF durable_example_key]
    by (simp add: durable_reserve_def durable_computeEffectKey_eq insertReservationRow_def Let_def)
qed

theorem durable_guard_refines_decision_table_witness:
  "{r. \<exists>v. decision_table (durable_profile hex_runtime 7) (Reserve 5 durable_reservation)
        (durable_taken [] (Reserve 5 durable_reservation))
        (durable_view [] (op_target (Reserve 5 durable_reservation))) r v} = {Outcome Reserved}"
  using durable_guard_refines_decision_table [of "Reserve 5 durable_reservation" hex_runtime 7 "[]" 5]
    durable_example_key durable_example_opens by simp

theorem durable_effect_dispatched_once_witness:
  "length (filter (\<lambda>e. op_target (fst e) = (example_tenant, replicate 64 CHR ''0'') \<and> opens_slot e)
      (fst (session (durable_call hex_runtime 7 5)
        [Reserve 5 durable_reservation, Reserve 90 durable_reservation] []))) \<le> 1
   \<and> opens_slot (Reserve 5 durable_reservation,
        fst (durable_call hex_runtime 7 5 (Reserve 5 durable_reservation) []))"
proof
  let ?xs = "[Reserve 5 durable_reservation, Reserve 90 durable_reservation]"
  have k: "durable_key (example_tenant, replicate 64 CHR ''0'')"
    using durable_example_key by (simp add: durable_reservation_members)
  have "\<forall>x \<in> set ?xs. durable_key (op_target x)" using durable_example_key by simp
  from durable_effect_dispatched_once [OF k this, of hex_runtime 7 5]
  show "length (filter (\<lambda>e. op_target (fst e) = (example_tenant, replicate 64 CHR ''0'') \<and> opens_slot e)
      (fst (session (durable_call hex_runtime 7 5) ?xs []))) \<le> 1"
    by (simp add: case_prod_beta Let_def)
  show "opens_slot (Reserve 5 durable_reservation,
      fst (durable_call hex_runtime 7 5 (Reserve 5 durable_reservation) []))"
    unfolding durable_example_opens by simp
qed

theorem guard_and_repository_decide_alike_witness:
  "\<exists>table. durable_reserve hex_runtime 7 5 5 5 durable_reservation [] = (Inr Reserved, table)
    \<and> fst (repo_reserve 5 \<lparr>rq_tenant_id = ri_tenant_id durable_reservation, rq_run_id = ri_run_id durable_reservation,
         rq_request_id = ri_request_id durable_reservation, rq_effect_key = ri_effect_key durable_reservation,
         rq_fingerprint = ri_fingerprint durable_reservation, rq_skill_id = ri_skill_id durable_reservation,
         rq_step_index = ri_step_index durable_reservation, rq_expires_at = Some (5 + 7)\<rparr> []) = Inr RepoReserved"
proof -
  let ?q = "\<lparr>rq_tenant_id = ri_tenant_id durable_reservation, rq_run_id = ri_run_id durable_reservation,
         rq_request_id = ri_request_id durable_reservation, rq_effect_key = ri_effect_key durable_reservation,
         rq_fingerprint = ri_fingerprint durable_reservation, rq_skill_id = ri_skill_id durable_reservation,
         rq_step_index = ri_step_index durable_reservation, rq_expires_at = Some (5 + 7)\<rparr>"
  have e: "durable_reserve hex_runtime 7 5 5 5 durable_reservation [] =
    (let (r, t) = repo_reserve 5 ?q [] in (case r of Inl e \<Rightarrow> Inl e | Inr out \<Rightarrow> Inr (guard_outcome out), t))"
    by (rule guard_and_repository_decide_alike [OF durable_example_admissible durable_example_key]) simp
  obtain r where r: "durable_reserve hex_runtime 7 5 5 5 durable_reservation [] = (Inr Reserved, r)"
    using durable_example_opens
    by (cases "durable_reserve hex_runtime 7 5 5 5 durable_reservation []") (auto split: sum.splits)
  moreover have "fst (repo_reserve 5 ?q []) = Inr RepoReserved"
    using e r by (cases "repo_reserve 5 ?q []"; cases "fst (repo_reserve 5 ?q [])")
      (auto dest: guard_outcome_reserved [OF sym])
  ultimately show ?thesis by blast
qed

end
