(* ===== verification/RunProperties.thy ===== *)
theory RunProperties
  imports RunTriples DurableGuard
begin

text \<open>
  The properties of whole runs: an \<open>entry\<close> is a call of one of the three entry points, and its history
  is everything the run did, from nothing. The ports of the orchestrator are arbitrary throughout.
\<close>

datatype entry =
    FirstPass signal_envelope
  | QueuedPass string signal_envelope "string option"
  | ResumedPass string resume_input

definition new_run :: run_state where
  "new_run = \<lparr>rs_events = [], rs_journal = [], rs_chain = []\<rparr>"

fun start :: "orchestrator \<Rightarrow> entry \<Rightarrow> run_result run" where
  "start e (FirstPass sig) = processSignal e sig"
| "start e (QueuedPass r sig w) = processQueuedSignal e r sig w"
| "start e (ResumedPass r ev) = resumeTask e r ev"

fun entry_tenant :: "entry \<Rightarrow> string" where
  "entry_tenant (FirstPass sig) = sg_tenant_id sig"
| "entry_tenant (QueuedPass r sig w) = sg_tenant_id sig"
| "entry_tenant (ResumedPass r ev) = rv_tenant_id ev"

fun entry_run :: "orchestrator \<Rightarrow> entry \<Rightarrow> string" where
  "entry_run e (FirstPass sig) = ''run_'' @ or_uuid e []"
| "entry_run e (QueuedPass r sig w) = r"
| "entry_run e (ResumedPass r ev) = r"

definition run_history :: "orchestrator \<Rightarrow> entry \<Rightarrow> event list" where
  "run_history e x = rs_events (snd (start e x new_run))"

definition run_outcome :: "orchestrator \<Rightarrow> entry \<Rightarrow> run_result result" where
  "run_outcome e x = fst (start e x new_run)"

lemma in_order_new: "orderly e t r None new_run"
  by (simp add: in_order_def new_run_def)

lemma history_in_order: "in_order e (entry_tenant x) (entry_run e x) None (run_history e x)"
proof -
  have new: "rs_events new_run = []" by (simp add: new_run_def)
  have snd_of: "in_order e t r None (rs_events (snd (m s)))"
    if "triple P m (\<lambda>_. orderly e t r None) (\<lambda>_. orderly e t r None)" "P s" for t r P s and m :: "run_result run"
    using that by (cases "m s"; cases "fst (m s)") (auto simp: triple_def)
  show ?thesis
  proof (cases x)
    case (FirstPass sig)
    have "in_order e (sg_tenant_id sig) (''run_'' @ or_uuid e []) None (rs_events (snd (processSignal e sig new_run)))"
      by (rule snd_of [OF processSignal_triple [OF refl refl]]) (rule conjI [OF in_order_new new])
    then show ?thesis using FirstPass by (simp add: run_history_def)
  next
    case (QueuedPass r sig w)
    from snd_of [OF sound_processQueuedSignal [unfolded sound_def] in_order_new] QueuedPass show ?thesis
      by (simp add: run_history_def)
  next
    case (ResumedPass r ev)
    from snd_of [OF sound_resumeTask [OF refl, unfolded sound_def] in_order_new] ResumedPass show ?thesis
      by (simp add: run_history_def)
  qed
qed

text \<open>
  C1: whichever entry point a run comes through and whatever its ports answer, an action reaches a
  provider only when the last verdict was an approval of exactly this action without a parked draft, the
  last reading of the takeover lock was negative, the run's EXECUTION stage is the last one recorded, the
  call before was a successful assertion of the lease, and an effect-bearing action has a slot left.
\<close>

theorem run_dispatches_only_admitted_actions:
  "all_admitted e (entry_tenant x) (entry_run e x) (run_history e x)"
  using history_in_order [of e x] by (simp add: in_order_def)

lemma sent_within_slots: "sent k (run_history e x) \<le> slots k (run_history e x)"
  using history_in_order [of e x] all_admitted_sent by (auto simp: in_order_def)

text \<open>
  within a run, effect-bearing dispatches of one effect key never outnumber the slots the effect
  guard opened for it by a reservation or a reopening.
\<close>

theorem run_dispatches_within_slots:
  "sent k (run_history e x) \<le> slots k (run_history e x)"
  by (rule sent_within_slots)

subsection \<open>Many runs and the durable guard\<close>

text \<open>A call of the guard in the history of a run, and the same call in the log of the guard.\<close>

definition reply_to :: "('a \<Rightarrow> guard_reply) \<Rightarrow> 'a result \<Rightarrow> guard_reply" where
  "reply_to f x = (case x of Inl err \<Rightarrow> Refused err | Inr v \<Rightarrow> f v)"

fun effect_call :: "effect_event \<Rightarrow> guard_op \<Rightarrow> guard_reply \<Rightarrow> bool" where
  "effect_call (EffectReserved i x) op r = ((\<exists>now. op = Reserve now i) \<and> r = reply_to Outcome x)"
| "effect_call (EffectResolved t k st rc x) op r = (op = Resolve t k st rc \<and> r = reply_to (\<lambda>_. Settled) x)"
| "effect_call (EffectReopened t k x) op r = ((\<exists>now. op = Reopen now t k) \<and> r = reply_to Reopened x)"

definition same_call :: "event \<Rightarrow> guard_op \<times> guard_reply \<Rightarrow> bool" where
  "same_call ev c = (case ev of Effect f \<Rightarrow> effect_call f (fst c) (snd c) | _ \<Rightarrow> False)"

text \<open>
  The guard served the runs: its log contains, in some interleaving, exactly their calls, besides those
  of other clients.
\<close>

definition serves :: "(guard_op \<times> guard_reply) list \<Rightarrow> event list list \<Rightarrow> bool" where
  "serves calls_log histories \<longleftrightarrow> (\<exists>calls own. mset calls = mset (filter is_effect (concat histories))
     \<and> subseq own calls_log \<and> list_all2 same_call calls own)"

lemma same_call_opens:
  "same_call ev c \<Longrightarrow> opens k ev \<Longrightarrow> opens_slot c \<and> snd (op_target (fst c)) = k"
  by (cases c; cases "(k, ev)" rule: opens.cases) (auto simp: same_call_def reply_to_def)

lemma opens_effect: "opens k ev \<Longrightarrow> is_effect ev"
  by (cases "(k, ev)" rule: opens.cases) auto

lemma opens_matched:
  "list_all2 same_call calls own \<Longrightarrow>
   length (filter (opens k) calls) \<le> length (filter (\<lambda>c. opens_slot c \<and> snd (op_target (fst c)) = k) own)"
  by (induction rule: list_all2_induct) (auto dest: same_call_opens)

lemma filter_subseq_length: "subseq xs ys \<Longrightarrow> length (filter P xs) \<le> length (filter P ys)"
  by (induction rule: list_emb.induct) auto

lemma served_slots:
  assumes "serves calls_log histories"
  shows "sum_list (map (slots k) histories) \<le> length (filter (\<lambda>c. opens_slot c \<and> snd (op_target (fst c)) = k) calls_log)"
proof -
  obtain calls own where m: "mset calls = mset (filter is_effect (concat histories))"
    and own: "subseq own calls_log" "list_all2 same_call calls own"
    using assms by (auto simp: serves_def)
  have "sum_list (map (slots k) histories) = length (filter (opens k) (concat histories))"
    by (induction histories) (simp_all add: slots_def)
  also have "\<dots> = length (filter (opens k) (filter is_effect (concat histories)))"
  proof -
    have "(\<lambda>ev. is_effect ev \<and> opens k ev) = opens k" using opens_effect by blast
    then show ?thesis by simp
  qed
  also have "\<dots> = length (filter (opens k) calls)"
    using m by (metis mset_filter size_mset)
  also have "\<dots> \<le> length (filter (\<lambda>c. opens_slot c \<and> snd (op_target (fst c)) = k) own)"
    by (rule opens_matched [OF own(2)])
  also have "\<dots> \<le> length (filter (\<lambda>c. opens_slot c \<and> snd (op_target (fst c)) = k) calls_log)"
    by (rule filter_subseq_length [OF own(1)])
  finally show ?thesis .
qed

lemma session_ops: "map fst (fst (session call xs s)) = xs"
  by (induction xs arbitrary: s) (simp_all add: case_prod_beta Let_def)

text \<open>
  C2: over any number of runs of any orchestrators, first passes, reattempts and resumes in any
  interleaving, whose reservations go to one durable guard, an effect key is dispatched at most once more
  than the provider was found not to have applied it (all calls under the key being the same tenant's).
\<close>

theorem effect_sent_once_across_runs:
  assumes "durable_key (t, k)" and "\<forall>op \<in> set ops. durable_key (op_target op)"
    and "\<forall>op \<in> set ops. snd (op_target op) = k \<longrightarrow> fst (op_target op) = t"
    and "serves (fst (session (durable_call rt ttl dbnow) ops [])) (map (\<lambda>(e, x). run_history e x) runs)"
  shows "sum_list (map (\<lambda>(e, x). sent k (run_history e x)) runs)
    \<le> 1 + length (filter (\<lambda>c. op_target (fst c) = (t, k) \<and> confirms_absence c)
             (fst (session (durable_call rt ttl dbnow) ops [])))"
proof -
  let ?log = "fst (session (durable_call rt ttl dbnow) ops [])"
  have "sum_list (map (\<lambda>(e, x). sent k (run_history e x)) runs)
      \<le> sum_list (map (slots k) (map (\<lambda>(e, x). run_history e x) runs))"
    by (induction runs) (auto intro: add_mono sent_within_slots)
  also have "\<dots> \<le> length (filter (\<lambda>c. opens_slot c \<and> snd (op_target (fst c)) = k) ?log)"
    by (rule served_slots [OF assms(4)])
  also have "filter (\<lambda>c. opens_slot c \<and> snd (op_target (fst c)) = k) ?log
      = filter (\<lambda>c. op_target (fst c) = (t, k) \<and> opens_slot c) ?log"
  proof (rule filter_cong [OF refl])
    fix c
    assume "c \<in> set ?log"
    then have "fst c \<in> set ops" using session_ops [of "durable_call rt ttl dbnow" ops "[]"]
      by (metis image_eqI list.set_map)
    with assms(3) show "(opens_slot c \<and> snd (op_target (fst c)) = k) = (op_target (fst c) = (t, k) \<and> opens_slot c)"
      by (auto simp: prod_eq_iff)
  qed
  also have "length \<dots> \<le> 1 + length (filter (\<lambda>c. op_target (fst c) = (t, k) \<and> confirms_absence c) ?log)"
    using durable_guard.session_credit [of "(t, k)" ops rt ttl dbnow "[]"] assms(1,2) by (simp add: durable_view_def)
  finally show ?thesis .
qed

end
