(* ===== verification/RunExamples.thy ===== *)
theory RunExamples
  imports RunProperties
begin

text \<open>
  A concrete orchestrator, with constant answers, and the run of one signal whose plan has one
  effect-bearing step: the witness of the properties of whole runs.
\<close>

definition sample_subject :: signal_subject where
  "sample_subject = \<lparr>ss_session_id = ''s1'', ss_channel_identifier = None, ss_object = JNull\<rparr>"

definition sample_signal :: signal_envelope where
  "sample_signal = \<lparr>sg_signal_id = ri_request_id durable_reservation, sg_tenant_id = example_tenant, sg_correlation_id = ''c1'',
     sg_source_channel = ''web'', sg_event_type = ''message'', sg_subject = Some sample_subject, sg_object = JNull\<rparr>"

definition sample_reservation :: reserve_input where
  "sample_reservation = durable_reservation\<lparr>ri_run_id := ''run_1''\<rparr>"

definition sample_context :: hydrated_context where
  "sample_context = \<lparr>hc_session_id = ''s1'', hc_conversation_id = None, hc_last_touch_channel = JNull,
     hc_response_skill_id = JNull, hc_response_adapter_target = JNull, hc_customer_id = None, hc_object = JNull\<rparr>"

definition sample_step :: planned_step where
  "sample_step = \<lparr>ps_step_index = ri_step_index durable_reservation, ps_agent_id = ''SAL-01'',
     ps_skill_id = ri_skill_id durable_reservation, ps_adapter_target = ''crm'',
     ps_input_parameters = [], ps_required_authority = AUTH3, ps_mutating = True, ps_price_bearing = False,
     ps_timeout_ms = num 3000, ps_depends_on_steps = None, ps_input_bindings = None,
     ps_computed_price_floor = None, ps_floor_source = None, ps_proposed_price = None\<rparr>"

definition sample_plan :: execution_plan where
  "sample_plan = \<lparr>ep_plan_id = ''p1'', ep_steps = [sample_step], ep_handoff_intent = None\<rparr>"

definition sample_task :: task_view where
  "sample_task = \<lparr>tv_state = Running, tv_task_version = 1, tv_correlation_id = ''c1'', tv_payload = NoObject,
     tv_retry_count = None, tv_lease_owner = None, tv_lease_expires_at = None\<rparr>"

definition sample_evidence :: step_evidence where
  "sample_evidence = (\<lparr>ev_evidence_id = ''e1'', ev_run_id = ''run_1'', ev_tenant_id = example_tenant,
     ev_correlation_id = ''c1'', ev_step_index = ri_step_index durable_reservation, ev_effect_key = ri_effect_key durable_reservation,
     ev_previous = GENESIS_HASH, ev_payload_sha256 = ''h1'', ev_chain_hash = ''h2'', ev_signature = ''h3'',
     ev_raw_payload = JNull, ev_created_at = ''t1''\<rparr>, None)"

definition sample_hypothesis :: hypothesis_record where
  "sample_hypothesis = \<lparr>hy_classification = ''HYPOTHESIS'', hy_object = JNull\<rparr>"

definition sample_routing :: routing_decision where
  "sample_routing = \<lparr>rd_target_agent = ''SAL-01'', rd_requires_clarification = False,
     rd_clarification_prompt = None, rd_object = JNull\<rparr>"

definition sample_verdict :: gate_result where
  "sample_verdict = \<lparr>gr_verdict = AUTO_APPROVED, gr_autonomy_workflow = None\<rparr>"

definition sample_orchestrator :: "provider_answer \<Rightarrow> orchestrator" where
  "sample_orchestrator answer = \<lparr>or_runtime = hex_runtime, or_worker_id = ''w1'', or_now = (\<lambda>_. 0), or_stamp = (\<lambda>_. ''t0''),
     or_uuid = (\<lambda>_. ''1''), or_journal_taken = (\<lambda>_. None),
     or_acquireLease = (\<lambda>_ _ _ _. Inr True), or_releaseLease = (\<lambda>_ _ _ _. Inr ()),
     or_assertExecutionLease = Some (\<lambda>_ _ _. Inr ()), or_reports_duplicate = (\<lambda>_. False),
     or_createTask = (\<lambda>_ _ _ _. Inr ()), or_getTask = (\<lambda>_ _ _. Inr (Some sample_task)),
     or_transitionTask = (\<lambda>_ _ _ _ _ _. Inr ()), or_updateTaskProgress = (\<lambda>_ _ _ _ _. Inr ()),
     or_pauseForApproval = (\<lambda>_ _ _ _. Inr ''a1''), or_claimApprovalAndResume = (\<lambda>_ _. Inr True),
     or_recordFailure = (\<lambda>_ _ _ _ _. Inr ()), or_clearHandoffEvidence = (\<lambda>_ _ _ _ _. Inr ()),
     or_nextAttemptOrdinal = Some (\<lambda>_ _ _. Inr 1), or_appendStage = (\<lambda>_ _ _ _ _ _. Inr ()),
     or_hydrateContext = (\<lambda>_ _ _ _. Inr sample_context), or_isTakenOver = (\<lambda>_ _ _. Inr False),
     or_returnToAgent = (\<lambda>_ _ _ _. Inr ()),
     or_deriveHypothesis = (\<lambda>_ _ _. Inr sample_hypothesis),
     or_resolveRouting = (\<lambda>_ _ _ _. Inr sample_routing),
     or_formulatePlan = (\<lambda>_ _ _ _. Inr sample_plan), or_validateAction = (\<lambda>_ a _. Inr a),
     or_evaluateAuthority = (\<lambda>_ _ _. Inr sample_verdict),
     or_computeEffectKey = (\<lambda>_. Inr (ri_effect_key durable_reservation)),
     or_computeRequestFingerprint = (\<lambda>_. Inr (ri_fingerprint durable_reservation)),
     or_reserve = (\<lambda>_ _. Inr Reserved), or_resolve = (\<lambda>_ _ _ _ _. Inr ()),
     or_reopenForRetry = None, or_dispatch = (\<lambda>_ _ _. answer), or_reconcile = None,
     or_createImmutableRecord = (\<lambda>_ _. Inr sample_evidence), or_findImmutableRecord = None,
     or_findImmutableRecordByStep = None, or_initializeOutcomeWatch = (\<lambda>_ _ _ _ _. Inr ()),
     or_logAgentRun = (\<lambda>_ _. Inr ()), or_appendAudit = (\<lambda>_ _. Inr ()), or_resolveInputs = None,
     or_admitHandoff = None, or_finalize = None, or_readResponse = None, or_saveResponse = (\<lambda>_ _ _ _ _ _. Inr ())\<rparr>"

text \<open>What each call answers, so that a run unfolds call by call.\<close>

lemma sample_acquireLease:
  "do_acquireLease (sample_orchestrator d) t r w s = (Inr True, s\<lparr>rs_events := Lease (LeaseAcquired t r w (Inr True)) # rs_events s\<rparr>)"
  by (simp add: sample_orchestrator_def port_def Let_def do_acquireLease_def)

lemma sample_releaseLease:
  "do_releaseLease (sample_orchestrator d) t r w s = (Inr (), s\<lparr>rs_events := Lease (LeaseReleased t r w (Inr ())) # rs_events s\<rparr>)"
  by (simp add: sample_orchestrator_def port_def Let_def do_releaseLease_def)

lemma sample_assertExecutionLease:
  "do_assertExecutionLease (sample_orchestrator d) t r s = (Inr (), s\<lparr>rs_events := Lease (LeaseAsserted t r (Inr ())) # rs_events s\<rparr>)"
  by (simp add: sample_orchestrator_def port_def Let_def do_assertExecutionLease_def)

lemma sample_createTask:
  "do_createTask (sample_orchestrator d) t r c s = (Inr (), s\<lparr>rs_events := Task (TaskCreated t r c (Inr ())) # rs_events s\<rparr>)"
  by (simp add: sample_orchestrator_def port_def Let_def do_createTask_def)

lemma sample_getTask:
  "do_getTask (sample_orchestrator d) t r s = (Inr (Some sample_task), s\<lparr>rs_events := Task (TaskRead t r (Inr (Some sample_task))) # rs_events s\<rparr>)"
  by (simp add: sample_orchestrator_def port_def Let_def do_getTask_def)

lemma sample_transitionTask:
  "do_transitionTask (sample_orchestrator d) t r st c g s = (Inr (), s\<lparr>rs_events := Task (TaskMoved t r st c g (Inr ())) # rs_events s\<rparr>)"
  by (simp add: sample_orchestrator_def port_def Let_def do_transitionTask_def)

lemma sample_updateTaskProgress:
  "do_updateTaskProgress (sample_orchestrator d) t r n p s = (Inr (), s\<lparr>rs_events := Task (TaskProgressed t r n p (Inr ())) # rs_events s\<rparr>)"
  by (simp add: sample_orchestrator_def port_def Let_def do_updateTaskProgress_def)

lemma sample_hydrateContext:
  "do_hydrateContext (sample_orchestrator d) t j c s = (Inr sample_context, s\<lparr>rs_events := Derive (ContextHydrated t j c (Inr sample_context)) # rs_events s\<rparr>)"
  by (simp add: sample_orchestrator_def port_def Let_def do_hydrateContext_def)

lemma sample_isTakenOver:
  "do_isTakenOver (sample_orchestrator d) t u s = (Inr False, s\<lparr>rs_events := Session (TakeoverRead t u (Inr False)) # rs_events s\<rparr>)"
  by (simp add: sample_orchestrator_def port_def Let_def do_isTakenOver_def)

lemma sample_deriveHypothesis:
  "do_deriveHypothesis (sample_orchestrator d) i c s = (Inr sample_hypothesis, s\<lparr>rs_events := Derive (HypothesisDerived i c (Inr sample_hypothesis)) # rs_events s\<rparr>)"
  by (simp add: sample_orchestrator_def port_def Let_def do_deriveHypothesis_def)

lemma sample_validateAction:
  "do_validateAction (sample_orchestrator d) a c s = (Inr a, s\<lparr>rs_events := Policy (ActionValidated a (Inr a)) # rs_events s\<rparr>)"
  by (simp add: sample_orchestrator_def port_def Let_def do_validateAction_def)

lemma sample_evaluateAuthority:
  "do_evaluateAuthority (sample_orchestrator d) a c s = (Inr sample_verdict, s\<lparr>rs_events := Policy (AuthorityEvaluated a (Inr sample_verdict)) # rs_events s\<rparr>)"
  by (simp add: sample_orchestrator_def port_def Let_def do_evaluateAuthority_def)

lemma sample_reserve:
  "do_reserve (sample_orchestrator d) i s = (Inr Reserved, s\<lparr>rs_events := Effect (EffectReserved i (Inr Reserved)) # rs_events s\<rparr>)"
  by (simp add: sample_orchestrator_def port_def Let_def do_reserve_def)

lemma sample_resolve:
  "do_resolve (sample_orchestrator d) t k st rc s = (Inr (), s\<lparr>rs_events := Effect (EffectResolved t k st rc (Inr ())) # rs_events s\<rparr>)"
  by (simp add: sample_orchestrator_def port_def Let_def do_resolve_def)

lemma sample_createImmutableRecord:
  "do_createImmutableRecord (sample_orchestrator d) p s = (Inr sample_evidence, s\<lparr>rs_events := Evidence (EvidenceCreated p (Inr sample_evidence)) # rs_events s\<rparr>)"
  by (simp add: sample_orchestrator_def port_def Let_def do_createImmutableRecord_def)

lemma sample_initializeOutcomeWatch:
  "do_initializeOutcomeWatch (sample_orchestrator d) t r k sk s = (Inr (), s\<lparr>rs_events := Evidence (OutcomeWatched t r k sk (Inr ())) # rs_events s\<rparr>)"
  by (simp add: sample_orchestrator_def port_def Let_def do_initializeOutcomeWatch_def)

lemma sample_logAgentRun:
  "do_logAgentRun (sample_orchestrator d) l s = (Inr (), s\<lparr>rs_events := Evidence (RunLogged l (Inr ())) # rs_events s\<rparr>)"
  by (simp add: sample_orchestrator_def port_def Let_def do_logAgentRun_def)

lemma sample_appendAudit:
  "do_appendAudit (sample_orchestrator d) l s = (Inr (), s\<lparr>rs_events := Evidence (AuditAppended l (Inr ())) # rs_events s\<rparr>)"
  by (simp add: sample_orchestrator_def port_def Let_def do_appendAudit_def)

lemma sample_resolveRouting:
  "do_resolveRouting (sample_orchestrator d) i c h s = (Inr sample_routing, s\<lparr>rs_events := Derive (RoutingResolved i c (Inr sample_routing)) # rs_events s\<rparr>)"
  by (simp add: sample_orchestrator_def port_def Let_def do_resolveRouting_def)

lemma sample_formulatePlan:
  "do_formulatePlan (sample_orchestrator d) ro c h s = (Inr sample_plan, s\<lparr>rs_events := Derive (PlanFormulated ro c (Inr sample_plan)) # rs_events s\<rparr>)"
  by (simp add: sample_orchestrator_def port_def Let_def do_formulatePlan_def)

lemmas sample_calls = sample_acquireLease sample_releaseLease sample_assertExecutionLease sample_createTask sample_getTask sample_transitionTask sample_updateTaskProgress sample_hydrateContext sample_isTakenOver sample_deriveHypothesis sample_validateAction sample_evaluateAuthority sample_reserve sample_resolve sample_createImmutableRecord sample_initializeOutcomeWatch sample_logAgentRun sample_appendAudit sample_resolveRouting sample_formulatePlan

lemma sample_dispatch:
  "do_dispatch (sample_orchestrator d) a tm s = (Inr d, s\<lparr>rs_events := Adapter (Dispatched a tm d) # rs_events s\<rparr>)"
  by (simp add: sample_orchestrator_def do_dispatch_def)

lemma sample_stage:
  "enterStage (sample_orchestrator d) t r n i st s = (case journal_enter (rs_journal s) st of
     Inl err \<Rightarrow> (Inl err, s)
   | Inr j \<Rightarrow> (Inr (), s\<lparr>rs_journal := j, rs_events := Stage (StageRecorded t r n i st (Inr ())) # rs_events s\<rparr>))"
  by (simp add: sample_orchestrator_def enterStage_def enter_journal_def bind_def port_def Let_def split: sum.split)

lemma sample_attempt:
  "attempt_of (sample_orchestrator d) t r n s = (Inr 1, s\<lparr>rs_events := Stage (OrdinalRead t r (Inr 1)) # rs_events s\<rparr>)"
  by (simp add: sample_orchestrator_def attempt_of_def port_def Let_def)

lemma sample_readings:
  "reading (or_now (sample_orchestrator d)) s = (Inr 0, s)"
  "reading (or_uuid (sample_orchestrator d)) s = (Inr ''1'', s)"
  "or_worker_id (sample_orchestrator d) = ''w1''"
  "or_computeEffectKey (sample_orchestrator d) x = Inr (ri_effect_key durable_reservation)"
  "or_computeRequestFingerprint (sample_orchestrator d) y = Inr (ri_fingerprint durable_reservation)"
  by (simp_all add: sample_orchestrator_def reading_def look_def)

lemma sample_signal_valid: "validateSignalEnvelope sample_signal = Inr ()"
  by code_simp

lemmas sample_unfold = bind_def catch_def finally_do_def perform_if_def run_simps sample_calls sample_dispatch
  sample_stage sample_attempt sample_readings

lemma sample_journal:
  "journal_enter [] SIGNAL = Inr [SIGNAL]"
  "journal_enter [SIGNAL] CONTEXT = Inr [SIGNAL, CONTEXT]"
  "journal_enter [SIGNAL, CONTEXT] HYPOTHESIS = Inr [SIGNAL, CONTEXT, HYPOTHESIS]"
  "journal_enter [SIGNAL, CONTEXT, HYPOTHESIS] DECISION = Inr [SIGNAL, CONTEXT, HYPOTHESIS, DECISION]"
  "journal_enter [SIGNAL, CONTEXT, HYPOTHESIS, DECISION] PLAN = Inr [SIGNAL, CONTEXT, HYPOTHESIS, DECISION, PLAN]"
  "journal_enter [SIGNAL, CONTEXT, HYPOTHESIS, DECISION, PLAN] ACTION = Inr [SIGNAL, CONTEXT, HYPOTHESIS, DECISION, PLAN, ACTION]"
  "journal_enter [SIGNAL, CONTEXT, HYPOTHESIS, DECISION, PLAN, ACTION] APPROVAL = Inr [SIGNAL, CONTEXT, HYPOTHESIS, DECISION, PLAN, ACTION, APPROVAL]"
  "journal_enter [SIGNAL, CONTEXT, HYPOTHESIS, DECISION, PLAN, ACTION, APPROVAL] EXECUTION = Inr [SIGNAL, CONTEXT, HYPOTHESIS, DECISION, PLAN, ACTION, APPROVAL, EXECUTION]"
  "journal_enter [SIGNAL, CONTEXT, HYPOTHESIS, DECISION, PLAN, ACTION, APPROVAL, EXECUTION] EVIDENCE = Inr [SIGNAL, CONTEXT, HYPOTHESIS, DECISION, PLAN, ACTION, APPROVAL, EXECUTION, EVIDENCE]"
  by (simp_all add: journal_enter_iff successors_def)

lemma sample_index: "ps_step_index sample_step = Fin 1" "num (Suc 0) = Fin 1"
  by (simp_all add: sample_step_def durable_reservation_def example_reservation_def num_def)

lemma sample_values:
  "enforceEpistemicSeparation sample_hypothesis = Inr ()"
  "validatePlanInputBindings (Some [sample_step]) = Inr ()"
  "rd_requires_clarification sample_routing = False"
  "ep_steps sample_plan = [sample_step]"
  "isReceiptSource sample_plan sample_step = False"
  "resolveStepInputs e t r q sample_step pl cx = ret None"
  by (simp_all add: sample_hypothesis_def enforceEpistemicSeparation_def sample_routing_def sample_plan_def sample_step_def
    validatePlanInputBindings_def isReceiptSource_def bindings_of_def resolveStepInputs_def)

definition sample_draft :: action_draft where
  "sample_draft = draft_of sample_step ''1'' ''run_1'' example_tenant (ri_request_id durable_reservation) (num 0)
     (ri_effect_key durable_reservation) []"

lemma sample_drafted:
  "verifyFloorPrice sample_draft = Inr ()"
  "ac_mutating sample_draft"
  "reservation_of sample_draft ''run_1'' (ri_fingerprint durable_reservation) = sample_reservation"
  "ac_tenant_id sample_draft = example_tenant" "ac_run_id sample_draft = ''run_1''"
  by (simp_all add: sample_draft_def draft_of_def sample_step_def verifyFloorPrice_def payload_price_bearing_def member_def spread_def
    reservation_of_def sample_reservation_def durable_reservation_def example_reservation_def num_def)

lemma sample_drafts:
  "draftAction (sample_orchestrator d) sample_step cx ''run_1'' example_tenant (ri_request_id durable_reservation) (num 0) None s
   = (Inr sample_draft, s\<lparr>rs_events := Policy (ActionValidated sample_draft (Inr sample_draft)) # rs_events s\<rparr>)"
  by (simp add: draftAction_def plan_effect_key_def sample_unfold sample_draft_def spread_def sample_step_def)

lemma sample_signal_fields: "sg_tenant_id sample_signal = example_tenant" "sg_signal_id sample_signal = ri_request_id durable_reservation"
  by (simp_all add: sample_signal_def)

lemmas sample_phases = processSignal_def fresh_run_def lead_run_def open_run_def runGuardedPipeline_def withDurableRecovery_def
  pipeline_attempt_def plan_phase_def traceStage_def assertOrchestratorBrokered_def run_steps_def executeSteps_def
  run_step_def recover_receipt_def execute_step_def draft_step_def of_step_def save_progress_def authorize_step_def
  admitted_step_def acquireEffectSlot_def deliver_def dispatchWithDeadline_def dispatch_failed_def park_step_def parkTask_def
  logRun_def settle_steps_def stop_with_def

lemmas sample_facts = sample_journal sample_values sample_index sample_signal_fields sample_signal_valid sample_drafts sample_drafted
  sample_verdict_def Let_def new_run_def orchestrator_classifyFailure_def

text \<open>The provider times out: the run parks, and its history holds one reservation and one dispatch.\<close>

lemma sample_mutating: "ps_mutating sample_step" "ac_effect_key sample_draft = ri_effect_key durable_reservation"
  by (simp_all add: sample_step_def sample_draft_def draft_of_def)

lemma sample_history:
  "filter is_effect (run_history (sample_orchestrator DeadlinePassed) (FirstPass sample_signal))
     = [Effect (EffectReserved sample_reservation (Inr Reserved))]
   \<and> sent (ri_effect_key durable_reservation)
       (run_history (sample_orchestrator DeadlinePassed) (FirstPass sample_signal)) = 1"
  by (simp add: run_history_def sample_unfold sample_phases sample_facts sample_mutating failed_entry_def sent_def)

text \<open>The same reservation, made by this run, at the durable guard.\<close>

lemma sample_reservation_members:
  "ri_tenant_id sample_reservation = ri_tenant_id durable_reservation"
  "ri_effect_key sample_reservation = ri_effect_key durable_reservation"
  "ri_fingerprint sample_reservation = ri_fingerprint durable_reservation"
  "reservation_identity sample_reservation = reservation_identity durable_reservation"
  by (simp_all add: sample_reservation_def reservation_identity_def)

lemma sample_key: "durable_key (ri_tenant_id sample_reservation, ri_effect_key sample_reservation)"
  using durable_example_key by (simp add: sample_reservation_members)

lemma sample_reserved: "fst (durable_call hex_runtime 7 5 (Reserve 5 sample_reservation) []) = Outcome Reserved"
proof -
  have "computeEffectKey hex_runtime (reservation_identity sample_reservation) = Inr (ri_effect_key sample_reservation)"
    "isSha256Hex (ri_fingerprint sample_reservation)"
    using durable_example_admissible by (simp_all add: admissible_def sample_reservation_members)
  then show ?thesis
    using durable_insert_eq [OF sample_key] durable_keyD [OF sample_key]
    by (simp add: durable_reserve_def durable_computeEffectKey_eq insertReservationRow_def Let_def)
qed

lemma sample_session: "fst (session (durable_call hex_runtime 7 5) [Reserve 5 sample_reservation] [])
    = [(Reserve 5 sample_reservation, Outcome Reserved)]"
  using sample_reserved by (simp add: case_prod_beta Let_def)

theorem effect_sent_once_across_runs_witness:
  "sent (ri_effect_key durable_reservation)
     (run_history (sample_orchestrator DeadlinePassed) (FirstPass sample_signal)) = 1
   \<and> sum_list (map (\<lambda>(e, x). sent (ri_effect_key durable_reservation) (run_history e x))
        [(sample_orchestrator DeadlinePassed, FirstPass sample_signal)])
      \<le> 1 + length (filter (\<lambda>c. op_target (fst c) = (example_tenant, ri_effect_key durable_reservation) \<and> confirms_absence c)
          (fst (session (durable_call hex_runtime 7 5) [Reserve 5 sample_reservation] [])))"
proof (rule conjI [OF conjunct2 [OF sample_history] effect_sent_once_across_runs])
  show "durable_key (example_tenant, ri_effect_key durable_reservation)"
    using durable_example_key by (simp add: durable_reservation_members)
  show "\<forall>op \<in> set [Reserve 5 sample_reservation]. durable_key (op_target op)"
    using sample_key by simp
  show "\<forall>op \<in> set [Reserve 5 sample_reservation].
      snd (op_target op) = ri_effect_key durable_reservation \<longrightarrow> fst (op_target op) = example_tenant"
    by (simp add: sample_reservation_members durable_reservation_members)
  show "serves (fst (session (durable_call hex_runtime 7 5) [Reserve 5 sample_reservation] []))
     (map (\<lambda>(e, x). run_history e x) [(sample_orchestrator DeadlinePassed, FirstPass sample_signal)])"
    unfolding serves_def sample_session
    by (intro exI [of _ "[Effect (EffectReserved sample_reservation (Inr Reserved))]"]
         exI [of _ "[(Reserve 5 sample_reservation, Outcome Reserved)]"])
       (simp add: conjunct1 [OF sample_history] same_call_def reply_to_def)
qed

end
