(* ===== verification/Lease.thy ===== *)
theory Lease
  imports Prelude
begin

text \<open>
  The execution lease: the interface \<open>DurableLeaseManager\<close> of
  \<open>packages/core-engine/src/contracts/ports.ts\<close> as a locale, with what a client may conclude from its
  laws, and the in-memory manager of \<open>packages/core-engine/src/workflow/memory-lease.ts\<close>, which
  interprets it. The injected clock is the argument \<open>now\<close>.
\<close>

text \<open>One call of a client, and what the manager answers.\<close>

datatype lease_op =
    Acquire int string string string
  | Release string string string

fun op_run :: "lease_op \<Rightarrow> string \<times> string" where
  "op_run (Acquire now t r w) = (t, r)"
| "op_run (Release t r w) = (t, r)"

locale execution_lease =
  fixes holder :: "'s \<Rightarrow> string \<Rightarrow> string \<Rightarrow> (string \<times> int) option"
    and acquire :: "int \<Rightarrow> string \<Rightarrow> string \<Rightarrow> string \<Rightarrow> 's \<Rightarrow> bool \<times> 's"
    and release :: "string \<Rightarrow> string \<Rightarrow> string \<Rightarrow> 's \<Rightarrow> 's"
    and ttl :: int
    and plain :: "string \<Rightarrow> bool"
  assumes acquire_refused: "holder s t r = Some (w', e) \<Longrightarrow> w' \<noteq> w \<Longrightarrow> now < e \<Longrightarrow>
      acquire now t r w s = (False, s)"
    and acquire_granted: "\<not> (\<exists>w' e. holder s t r = Some (w', e) \<and> w' \<noteq> w \<and> now < e) \<Longrightarrow>
      fst (acquire now t r w s) \<and> holder (snd (acquire now t r w s)) t r = Some (w, now + ttl)"
    and acquire_frame: "list_all plain [t, r, t', r'] \<Longrightarrow> (t, r) \<noteq> (t', r') \<Longrightarrow>
      holder (snd (acquire now t r w s)) t' r' = holder s t' r'"
    and release_other: "holder s t r = Some (w', e) \<Longrightarrow> w' \<noteq> w \<Longrightarrow> release t r w s = s"
    and release_frame: "list_all plain [t, r, t', r'] \<Longrightarrow> (t, r) \<noteq> (t', r') \<Longrightarrow>
      holder (release t r w s) t' r' = holder s t' r'"
begin

fun exec_op :: "lease_op \<Rightarrow> 's \<Rightarrow> bool \<times> 's" where
  "exec_op (Acquire now t r w) s = acquire now t r w s"
| "exec_op (Release t r w) s = (True, release t r w s)"

fun exec_ops :: "lease_op list \<Rightarrow> 's \<Rightarrow> bool list \<times> 's" where
  "exec_ops [] s = ([], s)"
| "exec_ops (x # xs) s =
     (let (b, s1) = exec_op x s; (bs, s2) = exec_ops xs s1 in (b # bs, s2))"

text \<open>The lease is held by \<open>w\<close> at least until \<open>until\<close>.\<close>

definition held_by :: "'s \<Rightarrow> string \<Rightarrow> string \<Rightarrow> string \<Rightarrow> int \<Rightarrow> bool" where
  "held_by s t r w until \<longleftrightarrow> (\<exists>e. holder s t r = Some (w, e) \<and> until \<le> e)"

text \<open>
  An operation of the window \<open>[start, until)\<close> that does not give the lease up.
\<close>

fun in_window :: "int \<Rightarrow> int \<Rightarrow> string \<Rightarrow> string \<Rightarrow> string \<Rightarrow> lease_op \<Rightarrow> bool" where
  "in_window start until t r w (Acquire now t' r' w') \<longleftrightarrow>
     plain t' \<and> plain r' \<and> start \<le> now \<and> now < until"
| "in_window start until t r w (Release t' r' w') \<longleftrightarrow>
     plain t' \<and> plain r' \<and> (t', r', w') \<noteq> (t, r, w)"

lemma exec_op_held:
  assumes "held_by s t r w until" and "in_window start until t r w x" and "plain t" "plain r"
    and "until \<le> start + ttl"
  shows "held_by (snd (exec_op x s)) t r w until"
proof -
  from assms(1) obtain e where e: "holder s t r = Some (w, e)" "until \<le> e"
    by (auto simp: held_by_def)
  show ?thesis
  proof (cases x)
    case (Acquire now t' r' w')
    show ?thesis
    proof (cases "(t', r') = (t, r)")
      case True
      show ?thesis
      proof (cases "w' = w")
        case True
        then have "holder (snd (acquire now t r w s)) t r = Some (w, now + ttl)"
          using acquire_granted [of s t r w now] e by auto
        with True Acquire \<open>(t', r') = (t, r)\<close> assms(2,5) show ?thesis
          by (auto simp: held_by_def)
      next
        case False
        then have "acquire now t r w' s = (False, s)"
          using acquire_refused [OF e(1)] assms(2) Acquire e(2) by auto
        with Acquire \<open>(t', r') = (t, r)\<close> assms(1) show ?thesis by simp
      qed
    next
      case False
      then have "holder (snd (acquire now t' r' w' s)) t r = holder s t r"
        using assms(2-4) Acquire by (intro acquire_frame) auto
      then show ?thesis using Acquire e by (simp add: held_by_def)
    qed
  next
    case (Release t' r' w')
    show ?thesis
    proof (cases "(t', r') = (t, r)")
      case True
      then have "release t r w' s = s"
        using release_other [OF e(1)] assms(2) Release by auto
      then show ?thesis using Release True assms(1) by simp
    next
      case False
      then have "holder (release t' r' w' s) t r = holder s t r"
        using assms(2-4) Release by (intro release_frame) auto
      then show ?thesis using Release e by (simp add: held_by_def)
    qed
  qed
qed

lemma exec_ops_exclusive:
  assumes "held_by s t r w until" and "list_all (in_window start until t r w) xs"
    and "plain t" "plain r" and "until \<le> start + ttl"
    and "i < length xs" and "xs ! i = Acquire now t r w'" and "w' \<noteq> w"
  shows "\<not> fst (exec_ops xs s) ! i"
  using assms(1,2,6,7)
proof (induction xs arbitrary: s i)
  case Nil
  then show ?case by simp
next
  case (Cons x xs)
  let ?s1 = "snd (exec_op x s)"
  have split: "fst (exec_ops (x # xs) s) = fst (exec_op x s) # fst (exec_ops xs ?s1)"
    by (simp add: case_prod_beta Let_def)
  show ?case
  proof (cases i)
    case 0
    from Cons.prems(1) obtain e where e: "holder s t r = Some (w, e)" "until \<le> e"
      by (auto simp: held_by_def)
    have "acquire now t r w' s = (False, s)"
      using acquire_refused [OF e(1)] assms(8) Cons.prems 0 e(2) by auto
    then show ?thesis using 0 Cons.prems split by simp
  next
    case (Suc k)
    have "held_by ?s1 t r w until"
      using exec_op_held [OF Cons.prems(1) _ assms(3-5)] Cons.prems(2) by simp
    then have "\<not> fst (exec_ops xs ?s1) ! k"
      using Cons.IH [of ?s1 k] Cons.prems Suc by simp
    then show ?thesis using split Suc by simp
  qed
qed

end

subsection \<open>The in-memory manager\<close>

record lease_row =
  lr_owner :: string
  lr_expires_at :: int

type_synonym leases = "string \<rightharpoonup> lease_row"

definition DEFAULT_LEASE_TTL_MS :: int where
  "DEFAULT_LEASE_TTL_MS = 30000"

definition lease_key :: "string \<Rightarrow> string \<Rightarrow> string" where
  "lease_key tenant_id run_id = tenant_id @ CHR 0x00 # run_id"

definition acquireLease ::
    "int \<Rightarrow> int \<Rightarrow> string \<Rightarrow> string \<Rightarrow> string \<Rightarrow> leases \<Rightarrow> bool \<times> leases" where
  "acquireLease ttl now tenant_id run_id worker_id leases =
    (let key = lease_key tenant_id run_id;
         granted = leases(key \<mapsto> \<lparr>lr_owner = worker_id, lr_expires_at = now + ttl\<rparr>)
     in case leases key of
          Some held \<Rightarrow> if lr_owner held \<noteq> worker_id \<and> lr_expires_at held > now
                       then (False, leases) else (True, granted)
        | None \<Rightarrow> (True, granted))"

definition releaseLease :: "string \<Rightarrow> string \<Rightarrow> string \<Rightarrow> leases \<Rightarrow> leases" where
  "releaseLease tenant_id run_id worker_id leases =
    (let key = lease_key tenant_id run_id
     in case leases key of
          Some held \<Rightarrow> if lr_owner held = worker_id then leases(key := None) else leases
        | None \<Rightarrow> leases)"

definition lease_holder :: "leases \<Rightarrow> string \<Rightarrow> string \<Rightarrow> (string \<times> int) option" where
  "lease_holder leases t r = map_option (\<lambda>l. (lr_owner l, lr_expires_at l)) (leases (lease_key t r))"

text \<open>Identifiers free of the separator, so that the row key determines tenant and run.\<close>

definition no_nul :: "string \<Rightarrow> bool" where
  "no_nul s \<longleftrightarrow> CHR 0x00 \<notin> set s"

lemma lease_key_inj:
  "no_nul t \<Longrightarrow> no_nul t' \<Longrightarrow> lease_key t r = lease_key t' r' \<Longrightarrow> t = t' \<and> r = r'"
proof (induction t arbitrary: t')
  case Nil
  then show ?case by (cases t') (auto simp: lease_key_def no_nul_def)
next
  case (Cons c t)
  then show ?case by (cases t') (auto simp: lease_key_def no_nul_def)
qed

interpretation memory_lease: execution_lease lease_holder "acquireLease ttl" releaseLease ttl no_nul
  for ttl :: int
proof
  fix s :: leases and t r w' e w and now :: int
  assume "lease_holder s t r = Some (w', e)" "w' \<noteq> w" "now < e"
  then show "acquireLease ttl now t r w s = (False, s)"
    by (auto simp: lease_holder_def acquireLease_def)
next
  fix s :: leases and t r w and now :: int
  assume "\<not> (\<exists>w' e. lease_holder s t r = Some (w', e) \<and> w' \<noteq> w \<and> now < e)"
  then show "fst (acquireLease ttl now t r w s) \<and>
      lease_holder (snd (acquireLease ttl now t r w s)) t r = Some (w, now + ttl)"
    by (auto simp: lease_holder_def acquireLease_def Let_def split: option.splits)
next
  fix t r t' r' w :: string and s :: leases and now :: int
  assume "list_all no_nul [t, r, t', r']" "(t, r) \<noteq> (t', r')"
  then have "lease_key t' r' \<noteq> lease_key t r" using lease_key_inj [of t' t r' r] by auto
  then show "lease_holder (snd (acquireLease ttl now t r w s)) t' r' = lease_holder s t' r'"
    by (auto simp: lease_holder_def acquireLease_def Let_def split: option.splits)
next
  fix s :: leases and t r w' e w
  assume "lease_holder s t r = Some (w', e)" "w' \<noteq> w"
  then show "releaseLease t r w s = s"
    by (auto simp: lease_holder_def releaseLease_def)
next
  fix t r t' r' w :: string and s :: leases
  assume "list_all no_nul [t, r, t', r']" "(t, r) \<noteq> (t', r')"
  then have "lease_key t' r' \<noteq> lease_key t r" using lease_key_inj [of t' t r' r] by auto
  then show "lease_holder (releaseLease t r w s) t' r' = lease_holder s t' r'"
    by (auto simp: lease_holder_def releaseLease_def Let_def split: option.splits)
qed

text \<open>A session of a client with the in-memory manager: the answers to a list of calls.\<close>

fun lease_session :: "int \<Rightarrow> lease_op list \<Rightarrow> leases \<Rightarrow> bool list" where
  "lease_session ttl [] s = []"
| "lease_session ttl (Acquire now t r w # xs) s =
     (let (b, s1) = acquireLease ttl now t r w s in b # lease_session ttl xs s1)"
| "lease_session ttl (Release t r w # xs) s = True # lease_session ttl xs (releaseLease t r w s)"

text \<open>The calls of one lease period: inside its window, and none gives the lease up.\<close>

fun lease_period :: "int \<Rightarrow> int \<Rightarrow> string \<Rightarrow> string \<Rightarrow> string \<Rightarrow> lease_op \<Rightarrow> bool" where
  "lease_period start until t r w (Acquire now t' r' w') \<longleftrightarrow>
     no_nul t' \<and> no_nul r' \<and> start \<le> now \<and> now < until"
| "lease_period start until t r w (Release t' r' w') \<longleftrightarrow>
     no_nul t' \<and> no_nul r' \<and> (t', r', w') \<noteq> (t, r, w)"

lemma lease_session_exec: "lease_session ttl xs s = fst (memory_lease.exec_ops ttl xs s)"
  by (induction xs arbitrary: s rule: list.induct)
    (simp, case_tac x1, auto simp: case_prod_beta Let_def)

lemma lease_period_within:
  "lease_period start until t r w = memory_lease.in_window start until t r w"
proof
  fix x
  show "lease_period start until t r w x = memory_lease.in_window start until t r w x"
    by (cases x) auto
qed

text \<open>
  once a worker is granted the lease of a run, no other worker is granted it before its time to
  live has passed, whatever calls any workers make meanwhile, as long as the owner does not
  release it.
\<close>

theorem lease_is_exclusive:
  assumes "acquireLease ttl start t r w s = (True, s1)"
    and "list_all (lease_period start (start + ttl) t r w) xs"
    and "no_nul t" "no_nul r"
    and "i < length xs" and "xs ! i = Acquire now t r w'" and "w' \<noteq> w"
  shows "\<not> lease_session ttl xs s1 ! i"
proof -
  have "lease_holder s1 t r = Some (w, start + ttl)"
    using assms(1) by (auto simp: acquireLease_def lease_holder_def Let_def split: option.splits if_splits)
  then have "memory_lease.held_by s1 t r w (start + ttl)"
    by (simp add: memory_lease.held_by_def)
  then have "\<not> fst (memory_lease.exec_ops ttl xs s1) ! i"
    using assms(2-7) by (intro memory_lease.exec_ops_exclusive)
      (auto simp: lease_period_within)
  then show ?thesis by (simp add: lease_session_exec)
qed

theorem lease_is_exclusive_witness:
  "\<not> lease_session 30000 [Acquire 1500 ''t'' ''run'' ''A'', Acquire 30999 ''t'' ''run'' ''B'']
      (snd (acquireLease 30000 1000 ''t'' ''run'' ''A'' Map.empty)) ! 1"
proof (rule lease_is_exclusive [where start = 1000 and w = "''A''" and w' = "''B''" and now = 30999
      and t = "''t''" and r = "''run''" and s = "Map.empty"])
  show "acquireLease 30000 1000 ''t'' ''run'' ''A'' Map.empty =
      (True, snd (acquireLease 30000 1000 ''t'' ''run'' ''A'' Map.empty))"
    by (simp add: acquireLease_def)
qed (simp_all add: no_nul_def)

end
