(* ===== verification/WorkflowEngine.thy ===== *)
theory WorkflowEngine
  imports TaskFsm CanonicalJson Contracts Session
begin

text \<open>
  The durable task engine of \<open>packages/core-engine/src/workflow/memory-workflow-engine.ts\<close>: its two
  tables (tasks by tenant and run, approvals by tenant in insertion order), every operation, and
  the laws of its contract \<open>IStatefulWorkflowEngine\<close>. The clock is the timestamp an operation is
  given, \<open>randomUUID()\<close> an argument; an operation returns its reply and the new tables, since a
  refusal may leave a mutation behind. Counters are integers below \<open>2 ^ 53\<close>.
\<close>

datatype approval_decision = PENDING | APPROVED | MODIFIED | REJECTED | CANCELLED

datatype claim_decision = Approve | Modify | Reject | Pause | Cancel

record task_row =
  tk_tenant_id :: string
  tk_run_id :: string
  tk_correlation_id :: string
  tk_state :: task_state
  tk_current_step :: jnum
  tk_task_version :: int
  tk_retry_count :: int
  tk_last_error_class :: "string option"
  tk_error_details :: "jobject option"
  tk_state_payload :: "jobject option"
  tk_paused_for :: "string option"
  tk_created_at :: string
  tk_updated_at :: string

record approval_row =
  ap_approval_id :: string
  ap_tenant_id :: string
  ap_run_id :: string
  ap_action_id :: string
  ap_effect_key :: string
  ap_payload :: json
  ap_payload_sha256 :: string
  ap_reason :: string
  ap_decision :: approval_decision
  ap_is_paused :: bool
  ap_operator_id :: "string option"
  ap_review_comment :: "string option"
  ap_created_at :: string
  ap_decided_at :: "string option"

record engine =
  en_tasks :: "string \<times> string \<rightharpoonup> task_row"
  en_approvals :: "string \<Rightarrow> approval_row list"

definition empty_engine :: engine where
  "empty_engine = \<lparr>en_tasks = Map.empty, en_approvals = (\<lambda>_. [])\<rparr>"

subsection \<open>Rows\<close>

definition lookupTask :: "string \<Rightarrow> string \<Rightarrow> engine \<Rightarrow> task_row option" where
  "lookupTask tenant run e = en_tasks e (tenant, run)"

definition requireTask :: "string \<Rightarrow> string \<Rightarrow> engine \<Rightarrow> task_row result" where
  "requireTask tenant run e =
    (case lookupTask tenant run e of
       None \<Rightarrow> Inl (OrchestratorError ''TASK_NOT_FOUND'')
     | Some row \<Rightarrow> Inr row)"

definition listApprovalRows :: "string \<Rightarrow> string \<Rightarrow> engine \<Rightarrow> approval_row list" where
  "listApprovalRows tenant run e = filter (\<lambda>a. ap_run_id a = run) (en_approvals e tenant)"

text \<open>Mutating the row of a task, and the approval the engine found by id among a run's rows.\<close>

definition put_task :: "string \<Rightarrow> string \<Rightarrow> task_row \<Rightarrow> engine \<Rightarrow> engine" where
  "put_task tenant run row e = e\<lparr>en_tasks := (en_tasks e)((tenant, run) \<mapsto> row)\<rparr>"

definition edit_approval :: "string \<Rightarrow> string \<Rightarrow> string \<Rightarrow> (approval_row \<Rightarrow> approval_row) \<Rightarrow> engine \<Rightarrow> engine" where
  "edit_approval tenant run approval_id f e =
    e\<lparr>en_approvals := (en_approvals e)(tenant :=
        update_first (\<lambda>a. ap_run_id a = run \<and> ap_approval_id a = approval_id) f (en_approvals e tenant))\<rparr>"

definition push_approval :: "string \<Rightarrow> approval_row \<Rightarrow> engine \<Rightarrow> engine" where
  "push_approval tenant a e = e\<lparr>en_approvals := (en_approvals e)(tenant := en_approvals e tenant @ [a])\<rparr>"

text \<open>\<open>row.task_version += 1; row.updated_at = timestamp\<close>.\<close>

definition bump :: "string \<Rightarrow> task_row \<Rightarrow> task_row" where
  "bump ts row = row\<lparr>tk_task_version := tk_task_version row + 1, tk_updated_at := ts\<rparr>"

subsection \<open>Operations\<close>

definition createTask :: "string \<Rightarrow> string \<Rightarrow> string \<Rightarrow> string \<Rightarrow> jnum \<Rightarrow> task_state \<Rightarrow> engine \<Rightarrow>
    unit result \<times> engine" where
  "createTask ts run tenant correlation step state e =
    (if state \<noteq> Queued \<and> state \<noteq> Running
     then (Inl (OrchestratorError ''INVALID_TASK_STATE''), e)
     else if lookupTask tenant run e \<noteq> None
     then (Inl (OrchestratorError ''TASK_ALREADY_EXISTS''), e)
     else (Inr (), put_task tenant run
       \<lparr>tk_tenant_id = tenant, tk_run_id = run, tk_correlation_id = correlation, tk_state = state,
        tk_current_step = step, tk_task_version = 1, tk_retry_count = 0, tk_last_error_class = None,
        tk_error_details = None, tk_state_payload = None, tk_paused_for = None,
        tk_created_at = ts, tk_updated_at = ts\<rparr> e))"

record task_snapshot =
  sn_task_version :: int
  sn_state :: task_state
  sn_correlation_id :: string
  sn_state_payload :: "jobject option"
  sn_retry_count :: int

definition getTask :: "string \<Rightarrow> string \<Rightarrow> engine \<Rightarrow> task_snapshot option" where
  "getTask tenant run e = map_option (\<lambda>row.
      \<lparr>sn_task_version = tk_task_version row, sn_state = tk_state row,
       sn_correlation_id = tk_correlation_id row, sn_state_payload = tk_state_payload row,
       sn_retry_count = tk_retry_count row\<rparr>) (lookupTask tenant run e)"

definition updateTaskProgress :: "string \<Rightarrow> string \<Rightarrow> string \<Rightarrow> jnum \<Rightarrow> json \<Rightarrow> engine \<Rightarrow>
    unit result \<times> engine" where
  "updateTaskProgress ts tenant run stepIndex payload e =
    (case lookupTask tenant run e of
       None \<Rightarrow> (Inr (), e)
     | Some row \<Rightarrow>
         if tk_state row \<noteq> Running then (Inr (), e)
         else case as_record payload of
             None \<Rightarrow> (Inl (OrchestratorError ''CHECKPOINT_INCOMPLETE''), e)
           | Some p \<Rightarrow> (Inr (), put_task tenant run (bump ts (row
               \<lparr>tk_current_step := stepIndex,
                tk_state_payload := Some (spread (case tk_state_payload row of None \<Rightarrow> [] | Some q \<Rightarrow> q) p)\<rparr>)) e))"

text \<open>
  The last argument of \<open>transitionTask\<close> is an event name, a version guard or absent; the checkpoint
  argument is \<open>JUndef\<close> when it is omitted.
\<close>

datatype event_or_guard = NoGuard | EventName string | VersionGuard "int option"

definition transitionTask :: "string \<Rightarrow> string \<Rightarrow> string \<Rightarrow> task_state \<Rightarrow> json \<Rightarrow> event_or_guard \<Rightarrow> engine \<Rightarrow>
    unit result \<times> engine" where
  "transitionTask ts tenant run state checkpoint guard e =
    (case requireTask tenant run e of
       Inl err \<Rightarrow> (Inl err, e)
     | Inr row \<Rightarrow>
         let resolvedEvent = (case guard of EventName ev \<Rightarrow> Some ev | _ \<Rightarrow> taskTransitionEvent (tk_state row) state) in
         if (case guard of VersionGuard (Some v) \<Rightarrow> v \<noteq> tk_task_version row | _ \<Rightarrow> False)
         then (Inl (OrchestratorError ''CONCURRENT_TASK_LOCK''), e)
         else case resolvedEvent of
             None \<Rightarrow> (Inl (OrchestratorError ''INVALID_TASK_STATE''), e)
           | Some event \<Rightarrow>
               (case assertTaskTransition (tk_state row) state event of
                  Inl err \<Rightarrow> (Inl err, e)
                | Inr _ \<Rightarrow>
                    if checkpoint \<noteq> JUndef \<and> as_record checkpoint = None
                    then (Inl (OrchestratorError ''CHECKPOINT_INCOMPLETE''), e)
                    else (Inr (), put_task tenant run (bump ts (row
                      \<lparr>tk_state := state,
                       tk_paused_for := (if state \<noteq> AwaitingHuman then None else tk_paused_for row),
                       tk_state_payload := (if checkpoint \<noteq> JUndef then as_record checkpoint
                                            else tk_state_payload row)\<rparr>)) e)))"

text \<open>\<open>sha256Hex(canonicalizeJson(payload))\<close>.\<close>

definition payload_digest :: "runtime \<Rightarrow> json \<Rightarrow> string result" where
  "payload_digest rt v = andThen (effect_canonicalizeJson rt v) (\<lambda>t. Inr (rt_sha256 rt t))"

record pause_params =
  pp_action_id :: string
  pp_effect_key :: string
  pp_payload :: json
  pp_reason :: string

definition pauseForApproval :: "runtime \<Rightarrow> string \<Rightarrow> string \<Rightarrow> string \<Rightarrow> string \<Rightarrow> int \<Rightarrow> json \<Rightarrow>
    pause_params \<Rightarrow> engine \<Rightarrow> string result \<times> engine" where
  "pauseForApproval rt ts uuid tenant run expected checkpoint p e =
    (case requireTask tenant run e of
       Inl err \<Rightarrow> (Inl err, e)
     | Inr row \<Rightarrow>
         case find (\<lambda>a. ap_decision a = PENDING) (listApprovalRows tenant run e) of
           Some pending \<Rightarrow>
             if ap_effect_key pending = pp_effect_key p \<and> ap_action_id pending = pp_action_id p
             then (case payload_digest rt (pp_payload p) of
                     Inl err \<Rightarrow> (Inl err, e)
                   | Inr payloadDigest \<Rightarrow>
                       if payloadDigest \<noteq> ap_payload_sha256 pending
                       then (Inl (OrchestratorError ''APPROVAL_BINDING_MISMATCH''), e)
                       else (Inr (ap_approval_id pending), e))
             else (Inl (OrchestratorError ''APPROVAL_ALREADY_PENDING''), e)
         | None \<Rightarrow>
             if tk_task_version row \<noteq> expected
             then (Inl (OrchestratorError ''CONCURRENT_TASK_LOCK''), e)
             else case assertTaskTransition (tk_state row) AwaitingHuman ''task.require_auth4'' of
                 Inl err \<Rightarrow> (Inl err, e)
               | Inr _ \<Rightarrow>
                   case as_record checkpoint of
                     None \<Rightarrow> (Inl (OrchestratorError ''CHECKPOINT_INCOMPLETE''), e)
                   | Some cp \<Rightarrow>
                       case payload_digest rt (pp_payload p) of
                         Inl err \<Rightarrow> (Inl err, e)
                       | Inr digest \<Rightarrow>
                           (Inr uuid,
                            put_task tenant run (bump ts (row
                              \<lparr>tk_state := AwaitingHuman, tk_paused_for := Some uuid,
                               tk_state_payload := Some cp\<rparr>))
                            (push_approval tenant
                              \<lparr>ap_approval_id = uuid, ap_tenant_id = tenant, ap_run_id = run,
                               ap_action_id = pp_action_id p, ap_effect_key = pp_effect_key p,
                               ap_payload = pp_payload p, ap_payload_sha256 = digest,
                               ap_reason = pp_reason p, ap_decision = PENDING, ap_is_paused = False,
                               ap_operator_id = None, ap_review_comment = None,
                               ap_created_at = ts, ap_decided_at = None\<rparr> e)))"

record claim_params =
  cp_approval_id :: string
  cp_effect_key :: string
  cp_expected_payload_sha256 :: string
  cp_authorized_action :: "action_draft option"
  cp_decision :: claim_decision
  cp_operator_id :: string
  cp_review_comment :: "string option"

text \<open>
  The guards of \<open>claimApprovalAndResume\<close> up to the test that the row is undecided: \<open>Inr None\<close> is
  \<open>{ claimed: false }\<close>, \<open>Inr (Some a)\<close> the approval the decision may be written to.
\<close>

definition claim_guards :: "runtime \<Rightarrow> string \<Rightarrow> string \<Rightarrow> claim_params \<Rightarrow> task_row \<Rightarrow> engine \<Rightarrow>
    approval_row option result" where
  "claim_guards rt tenant run p row e =
    (case find (\<lambda>c. ap_approval_id c = cp_approval_id p) (listApprovalRows tenant run e) of
       None \<Rightarrow> Inr None
     | Some a \<Rightarrow>
         if \<not> (ap_run_id a = run \<and> ap_effect_key a = cp_effect_key p
                \<and> tk_paused_for row = Some (ap_approval_id a) \<and> tk_state row = AwaitingHuman)
         then Inr None
         else if blank (cp_operator_id p) then Inr None
         else if ap_payload_sha256 a \<noteq> cp_expected_payload_sha256 p then Inr None
         else if cp_decision p \<noteq> Approve \<and> cp_decision p \<noteq> Modify \<and> cp_authorized_action p \<noteq> None
         then Inr None
         else andThen
           (case cp_authorized_action p of
              Some authorized \<Rightarrow>
                if cp_decision p \<noteq> Approve then Inr True
                else if ac_action_id authorized \<noteq> ap_action_id a \<or> ac_effect_key authorized \<noteq> ap_effect_key a
                then Inr False
                else andThen (payload_digest rt (JObj (ac_payload authorized)))
                       (\<lambda>d. Inr (d = ap_payload_sha256 a))
            | None \<Rightarrow> Inr True)
           (\<lambda>same. Inr (if \<not> same then None
                        else if ap_decision a \<noteq> PENDING then None else Some a)))"

fun claim_target :: "claim_decision \<Rightarrow> task_state" where
  "claim_target Reject = Stopped"
| "claim_target Cancel = Stopped"
| "claim_target _ = Running"

fun claim_event :: "claim_decision \<Rightarrow> string" where
  "claim_event Approve = ''human.approval''"
| "claim_event Modify = ''human.modify''"
| "claim_event Reject = ''human.reject''"
| "claim_event _ = ''human.cancel''"

fun stored_decision :: "claim_decision \<Rightarrow> approval_decision" where
  "stored_decision Approve = APPROVED"
| "stored_decision Modify = MODIFIED"
| "stored_decision Reject = REJECTED"
| "stored_decision _ = CANCELLED"

text \<open>The row of the approval once the decision is written, and after a MODIFY rebinds it.\<close>

definition decide_approval :: "string \<Rightarrow> claim_params \<Rightarrow> approval_row \<Rightarrow> approval_row" where
  "decide_approval ts p a = a
    \<lparr>ap_decision := stored_decision (cp_decision p), ap_is_paused := False,
     ap_operator_id := Some (cp_operator_id p), ap_review_comment := cp_review_comment p,
     ap_decided_at := Some ts\<rparr>"

definition rebind_approval :: "action_draft \<Rightarrow> approval_row \<Rightarrow> approval_row" where
  "rebind_approval authorized a = a
    \<lparr>ap_payload := JObj (ac_payload authorized), ap_effect_key := ac_effect_key authorized\<rparr>"

definition pause_approval :: "claim_params \<Rightarrow> approval_row \<Rightarrow> approval_row" where
  "pause_approval p a = a
    \<lparr>ap_is_paused := True, ap_operator_id := Some (cp_operator_id p),
     ap_review_comment := cp_review_comment p\<rparr>"

text \<open>The checkpoint's pending action, rewritten with the action the operator released.\<close>

definition with_pending_action :: "action_draft \<Rightarrow> task_row \<Rightarrow> task_row" where
  "with_pending_action d row = row\<lparr>tk_state_payload :=
     map_option (\<lambda>q. spread q [(''pending_action'', JObj (draft_object d))]) (tk_state_payload row)\<rparr>"

definition resume_task :: "string \<Rightarrow> task_state \<Rightarrow> task_row \<Rightarrow> task_row" where
  "resume_task ts target row = bump ts (row\<lparr>tk_state := target, tk_paused_for := None\<rparr>)"

definition claimApprovalAndResume :: "runtime \<Rightarrow> string \<Rightarrow> string \<Rightarrow> string \<Rightarrow> claim_params \<Rightarrow> engine \<Rightarrow>
    bool result \<times> engine" where
  "claimApprovalAndResume rt ts tenant run p e =
    (case requireTask tenant run e of
       Inl err \<Rightarrow> (Inl err, e)
     | Inr row \<Rightarrow>
         case claim_guards rt tenant run p row e of
           Inl err \<Rightarrow> (Inl err, e)
         | Inr None \<Rightarrow> (Inr False, e)
         | Inr (Some a) \<Rightarrow>
             let edit = edit_approval tenant run (cp_approval_id p); decision = cp_decision p in
             if decision = Pause
             then (if ap_is_paused a then (Inr False, e)
                   else (Inr True, put_task tenant run (bump ts row) (edit (pause_approval p) e)))
             else case assertTaskTransition (tk_state row) (claim_target decision) (claim_event decision) of
                 Inl err \<Rightarrow> (Inl err, e)
               | Inr _ \<Rightarrow>
                   let decided = edit (decide_approval ts p) e in
                   case cp_authorized_action p of
                     None \<Rightarrow>
                       (Inr True, put_task tenant run (resume_task ts (claim_target decision) row) decided)
                   | Some authorized \<Rightarrow>
                       if decision \<noteq> Modify
                       then (Inr True, put_task tenant run
                              (resume_task ts (claim_target decision) (with_pending_action authorized row)) decided)
                       else let rebound = edit (rebind_approval authorized) decided in
                         case payload_digest rt (JObj (ac_payload authorized)) of
                           Inl err \<Rightarrow> (Inl err, rebound)
                         | Inr d \<Rightarrow>
                             (Inr True, put_task tenant run
                               (resume_task ts (claim_target decision) (with_pending_action
                                 (authorized\<lparr>ac_approval_id := Some (ap_approval_id a),
                                   ac_approval_payload_digest := Some d\<rparr>) row))
                               (edit (\<lambda>x. x\<lparr>ap_payload_sha256 := d\<rparr>) rebound)))"

definition fail_row :: "string \<Rightarrow> task_row \<Rightarrow> task_row" where
  "fail_row error_class row = row
    \<lparr>tk_last_error_class := Some error_class,
     tk_state := (case taskTransitionEvent (tk_state row) Failed of None \<Rightarrow> tk_state row | Some _ \<Rightarrow> Failed)\<rparr>"

definition requeue_row :: "task_row \<Rightarrow> task_row" where
  "requeue_row row = row
    \<lparr>tk_retry_count := tk_retry_count row + 1, tk_last_error_class := Some ''RETRYABLE'',
     tk_state := (case taskTransitionEvent (tk_state row) Queued of None \<Rightarrow> tk_state row | Some _ \<Rightarrow> Queued)\<rparr>"

text \<open>
  The engine asserts each transition it has just derived the event of; that assertion passes
  (\<open>derived_event_passes_guard\<close>), so the branch in which it throws is left out.
\<close>

definition recordFailure :: "int \<Rightarrow> string \<Rightarrow> string \<Rightarrow> string \<Rightarrow> string \<Rightarrow> jobject \<Rightarrow> engine \<Rightarrow>
    bool result \<times> engine" where
  "recordFailure max_retries ts tenant run error_class details e =
    (if error_class \<noteq> ''RETRYABLE'' \<and> error_class \<noteq> ''FATAL''
     then (Inl (OrchestratorError ''INVALID_ERROR_CLASS''), e)
     else case lookupTask tenant run e of
         None \<Rightarrow> (Inr False, e)
       | Some row0 \<Rightarrow>
           let row = row0\<lparr>tk_error_details := Some details\<rparr> in
           if error_class = ''RETRYABLE'' \<and> tk_retry_count row < max_retries
           then (Inr True, put_task tenant run (bump ts (requeue_row row)) e)
           else (Inr False, put_task tenant run (bump ts (fail_row error_class row)) e))"

record evidence_params =
  ev_expected_version :: "int option"
  ev_evidence_payload :: jobject
  ev_step_index :: "jnum option"
  ev_effect_key :: "string option"
  ev_reason :: "string option"

definition resume_event :: "string \<Rightarrow> string \<Rightarrow> evidence_params \<Rightarrow> json" where
  "resume_event tenant run p = JObj
    ([(''tenant_id'', JStr tenant), (''run_id'', JStr run),
      (''event_type'', JStr ''human.handoff.evidence''),
      (''evidence_payload'', JObj (ev_evidence_payload p))]
     @ opt_member ''step_index'' (map_option JNum (ev_step_index p))
     @ opt_member ''effect_key'' (map_option JStr (ev_effect_key p))
     @ opt_member ''reason'' (map_option JStr (ev_reason p)))"

definition payload_of :: "task_row \<Rightarrow> jobject" where
  "payload_of row = (case tk_state_payload row of None \<Rightarrow> [] | Some q \<Rightarrow> q)"

text \<open>\<open>canonicalizeJson(a) === canonicalizeJson(b)\<close>, \<open>a\<close> first.\<close>

definition same_canonical :: "runtime \<Rightarrow> json \<Rightarrow> json \<Rightarrow> bool result" where
  "same_canonical rt a b = andThen (effect_canonicalizeJson rt a)
     (\<lambda>s. andThen (effect_canonicalizeJson rt b) (\<lambda>t. Inr (s = t)))"

definition queueHandoffEvidence :: "runtime \<Rightarrow> string \<Rightarrow> string \<Rightarrow> string \<Rightarrow> evidence_params \<Rightarrow> engine \<Rightarrow>
    int result \<times> engine" where
  "queueHandoffEvidence rt ts tenant run p e =
    (case requireTask tenant run e of
       Inl err \<Rightarrow> (Inl err, e)
     | Inr row \<Rightarrow>
         if (case ev_expected_version p of None \<Rightarrow> False | Some v \<Rightarrow> tk_task_version row \<noteq> v)
         then (Inl (OrchestratorError ''CONCURRENT_TASK_LOCK''), e)
         else if tk_state row \<noteq> AwaitingHuman
         then (Inl (OrchestratorError ''INVALID_TASK_STATE''), e)
         else let existing = member (payload_of row) ''resume_event'';
                  event = resume_event tenant run p in
           if existing \<noteq> JUndef
           then (case same_canonical rt existing event of
                   Inl err \<Rightarrow> (Inl err, e)
                 | Inr same \<Rightarrow>
                     if \<not> same then (Inl (OrchestratorError ''RESUME_EVENT_CONFLICT''), e)
                     else (Inr (tk_task_version row), e))
           else (Inr (tk_task_version row + 1),
                 put_task tenant run (bump ts (row
                   \<lparr>tk_state_payload := Some (spread (payload_of row) [(''resume_event'', event)])\<rparr>)) e))"

definition clearHandoffEvidence :: "runtime \<Rightarrow> string \<Rightarrow> string \<Rightarrow> string \<Rightarrow> int \<Rightarrow> jobject \<Rightarrow> engine \<Rightarrow>
    int result \<times> engine" where
  "clearHandoffEvidence rt ts tenant run expected expected_event e =
    (case requireTask tenant run e of
       Inl err \<Rightarrow> (Inl err, e)
     | Inr row \<Rightarrow>
         if tk_state row \<noteq> AwaitingHuman \<or> tk_task_version row \<noteq> expected
         then (Inl (OrchestratorError ''CONCURRENT_TASK_LOCK''), e)
         else let existing = member (payload_of row) ''resume_event'' in
           if existing = JUndef
           then (Inl (OrchestratorError ''HANDOFF_EVIDENCE_EVENT_CONFLICT''), e)
           else (case same_canonical rt existing (JObj expected_event) of
                   Inl err \<Rightarrow> (Inl err, e)
                 | Inr same \<Rightarrow>
                     if \<not> same then (Inl (OrchestratorError ''HANDOFF_EVIDENCE_EVENT_CONFLICT''), e)
                     else (Inr (tk_task_version row + 1),
                           put_task tenant run (bump ts (row
                             \<lparr>tk_state_payload := Some (AList.delete ''resume_event'' (payload_of row))\<rparr>)) e)))"

definition listApprovals :: "string \<Rightarrow> string \<Rightarrow> engine \<Rightarrow> approval_row list" where
  "listApprovals tenant run e = listApprovalRows tenant run e"

subsection \<open>The operations as one step function\<close>

datatype engine_op =
    CreateTask string string string jnum task_state
  | UpdateProgress string string jnum json
  | Transition string string task_state json event_or_guard
  | PauseFor string string string int json pause_params
  | Claim string string claim_params
  | RecordFailure string string string jobject
  | QueueEvidence string string evidence_params
  | ClearEvidence string string int jobject

datatype engine_reply = Done | Refused failure | ApprovalId string | Flag bool | Version int

definition reply :: "('a \<Rightarrow> engine_reply) \<Rightarrow> 'a result \<times> engine \<Rightarrow> engine_reply \<times> engine" where
  "reply f r = ((case fst r of Inl err \<Rightarrow> Refused err | Inr x \<Rightarrow> f x), snd r)"

fun engine_exec :: "runtime \<Rightarrow> int \<Rightarrow> string \<times> engine_op \<Rightarrow> engine \<Rightarrow> engine_reply \<times> engine" where
  "engine_exec rt m (ts, CreateTask tn r c i s) e = reply (\<lambda>_. Done) (createTask ts r tn c i s e)"
| "engine_exec rt m (ts, UpdateProgress tn r i p) e = reply (\<lambda>_. Done) (updateTaskProgress ts tn r i p e)"
| "engine_exec rt m (ts, Transition tn r s cp g) e = reply (\<lambda>_. Done) (transitionTask ts tn r s cp g e)"
| "engine_exec rt m (ts, PauseFor tn r u v cp p) e = reply ApprovalId (pauseForApproval rt ts u tn r v cp p e)"
| "engine_exec rt m (ts, Claim tn r p) e = reply Flag (claimApprovalAndResume rt ts tn r p e)"
| "engine_exec rt m (ts, RecordFailure tn r c d) e = reply Flag (recordFailure m ts tn r c d e)"
| "engine_exec rt m (ts, QueueEvidence tn r p) e = reply Version (queueHandoffEvidence rt ts tn r p e)"
| "engine_exec rt m (ts, ClearEvidence tn r v ev) e = reply Version (clearHandoffEvidence rt ts tn r v ev e)"

fun op_key :: "engine_op \<Rightarrow> string \<times> string" where
  "op_key (CreateTask tn r _ _ _) = (tn, r)"
| "op_key (UpdateProgress tn r _ _) = (tn, r)"
| "op_key (Transition tn r _ _ _) = (tn, r)"
| "op_key (PauseFor tn r _ _ _ _) = (tn, r)"
| "op_key (Claim tn r _) = (tn, r)"
| "op_key (RecordFailure tn r _ _) = (tn, r)"
| "op_key (QueueEvidence tn r _) = (tn, r)"
| "op_key (ClearEvidence tn r _ _) = (tn, r)"

subsection \<open>The tables after an operation\<close>

named_theorems tables

lemma put_task_tables [simp, tables]:
  "en_tasks (put_task tn r row e) = (en_tasks e)((tn, r) \<mapsto> row)"
  "en_approvals (put_task tn r row e) = en_approvals e"
  by (simp_all add: put_task_def)

lemma edit_approval_tables [simp, tables]:
  "en_tasks (edit_approval tn r i f e) = en_tasks e"
  "en_approvals (edit_approval tn r i f e) t =
    (if t = tn then update_first (\<lambda>a. ap_run_id a = r \<and> ap_approval_id a = i) f (en_approvals e tn)
     else en_approvals e t)"
  by (simp_all add: edit_approval_def)

lemma push_approval_tables [simp, tables]:
  "en_tasks (push_approval tn a e) = en_tasks e"
  "en_approvals (push_approval tn a e) t =
    (if t = tn then en_approvals e tn @ [a] else en_approvals e t)"
  by (simp_all add: push_approval_def)

lemma put_same [simp]:
  "en_tasks (put_task tn r row e) (tn, r) = Some row"
  by simp

lemma reply_simps [simp]: "snd (reply f r) = snd r" "fst (reply f (Inl err, e)) = Refused err"
  "fst (reply f (Inr x, e)) = f x"
  by (simp_all add: reply_def)

lemmas engine_ops = createTask_def updateTaskProgress_def transitionTask_def pauseForApproval_def
  claimApprovalAndResume_def recordFailure_def queueHandoffEvidence_def clearHandoffEvidence_def
  Let_def

definition tenant_view :: "string \<Rightarrow> engine \<Rightarrow> (string \<Rightarrow> task_row option) \<times> approval_row list" where
  "tenant_view t e = ((\<lambda>r. en_tasks e (t, r)), en_approvals e t)"

lemma engine_foreign:
  "fst (op_key x) \<noteq> t \<Longrightarrow> tenant_view t (snd (engine_exec rt m (ts, x) e)) = tenant_view t e"
  by (cases x) (auto simp: tenant_view_def engine_ops fun_eq_iff split: option.splits sum.splits if_splits)

lemma view_reads:
  assumes "tenant_view tn e = tenant_view tn e'"
  shows "en_tasks e (tn, r) = en_tasks e' (tn, r)" "en_approvals e tn = en_approvals e' tn"
    "lookupTask tn r e = lookupTask tn r e'" "requireTask tn r e = requireTask tn r e'"
    "listApprovalRows tn r e = listApprovalRows tn r e'"
    "claim_guards rt tn r p row e = claim_guards rt tn r p row e'"
proof -
  show t: "en_tasks e (tn, r) = en_tasks e' (tn, r)" and a: "en_approvals e tn = en_approvals e' tn"
    using assms by (auto simp: tenant_view_def dest: fun_cong)
  then show "lookupTask tn r e = lookupTask tn r e'" "requireTask tn r e = requireTask tn r e'"
    "listApprovalRows tn r e = listApprovalRows tn r e'"
    "claim_guards rt tn r p row e = claim_guards rt tn r p row e'"
    by (simp_all add: lookupTask_def requireTask_def listApprovalRows_def claim_guards_def)
qed

lemma tenant_view_put [simp]:
  "tenant_view tn (put_task tn r row e) = ((fst (tenant_view tn e))(r := Some row), snd (tenant_view tn e))"
  by (auto simp: tenant_view_def fun_eq_iff)

lemma tenant_view_edit [simp]:
  "tenant_view tn (edit_approval tn r i f e) = (fst (tenant_view tn e),
     update_first (\<lambda>a. ap_run_id a = r \<and> ap_approval_id a = i) f (snd (tenant_view tn e)))"
  by (auto simp: tenant_view_def fun_eq_iff)

lemma tenant_view_push [simp]:
  "tenant_view tn (push_approval tn a e) = (fst (tenant_view tn e), snd (tenant_view tn e) @ [a])"
  by (auto simp: tenant_view_def fun_eq_iff)

lemma engine_own:
  assumes v: "tenant_view (fst (op_key x)) e = tenant_view (fst (op_key x)) e'"
  shows "fst (engine_exec rt m (ts, x) e) = fst (engine_exec rt m (ts, x) e') \<and>
    tenant_view (fst (op_key x)) (snd (engine_exec rt m (ts, x) e))
      = tenant_view (fst (op_key x)) (snd (engine_exec rt m (ts, x) e'))"
proof (cases x)
  case (Claim tn r p)
  with v have "tenant_view tn e = tenant_view tn e'" by simp
  note w = this view_reads [OF this]
  show ?thesis unfolding Claim
    by (simp add: claimApprovalAndResume_def w Let_def reply_def split: option.split sum.split)
next
  case (PauseFor tn r u n cp p)
  with v have "tenant_view tn e = tenant_view tn e'" by simp
  note w = this view_reads [OF this]
  show ?thesis unfolding PauseFor
    by (simp add: pauseForApproval_def w Let_def reply_def split: option.split sum.split)
next
  case (Transition tn r st cp g)
  with v have "tenant_view tn e = tenant_view tn e'" by simp
  note w = this view_reads [OF this]
  show ?thesis unfolding Transition
    by (cases g; cases "requireTask tn r e'") (auto simp: transitionTask_def w Let_def reply_def split: option.split sum.split)
next
  case (CreateTask tn r c i st)
  with v have "tenant_view tn e = tenant_view tn e'" by simp
  note w = this view_reads [OF this]
  show ?thesis unfolding CreateTask by (simp add: createTask_def w reply_def)
next
  case (UpdateProgress tn r i p)
  with v have "tenant_view tn e = tenant_view tn e'" by simp
  note w = this view_reads [OF this]
  show ?thesis unfolding UpdateProgress
    by (simp add: updateTaskProgress_def w reply_def split: option.split)
next
  case (RecordFailure tn r c d)
  with v have "tenant_view tn e = tenant_view tn e'" by simp
  note w = this view_reads [OF this]
  show ?thesis unfolding RecordFailure
    by (simp add: recordFailure_def w Let_def reply_def split: option.split)
next
  case (QueueEvidence tn r p)
  with v have "tenant_view tn e = tenant_view tn e'" by simp
  note w = this view_reads [OF this]
  show ?thesis unfolding QueueEvidence
    by (simp add: queueHandoffEvidence_def w Let_def reply_def split: option.split sum.split)
next
  case (ClearEvidence tn r n ev)
  with v have "tenant_view tn e = tenant_view tn e'" by simp
  note w = this view_reads [OF this]
  show ?thesis unfolding ClearEvidence
    by (simp add: clearHandoffEvidence_def w Let_def reply_def split: option.split sum.split)
qed

definition op_tenant :: "string \<times> engine_op \<Rightarrow> string" where
  "op_tenant x = fst (op_key (snd x))"

interpretation engine_tenants: tenant_isolated "engine_exec rt m" op_tenant tenant_view for rt m
proof
  fix x t s
  show "op_tenant x \<noteq> t \<Longrightarrow> tenant_view t (snd (engine_exec rt m x s)) = tenant_view t s"
    using engine_foreign [of "snd x" t rt m "fst x" s] by (simp add: op_tenant_def)
next
  fix x s s'
  assume "tenant_view (op_tenant x) s = tenant_view (op_tenant x) s'"
  then show "fst (engine_exec rt m x s) = fst (engine_exec rt m x s')"
    using engine_own [of "snd x" s s' rt m "fst x"] by (simp add: op_tenant_def)
next
  fix x s s'
  assume "tenant_view (op_tenant x) s = tenant_view (op_tenant x) s'"
  then show "tenant_view (op_tenant x) (snd (engine_exec rt m x s))
      = tenant_view (op_tenant x) (snd (engine_exec rt m x s'))"
    using engine_own [of "snd x" s s' rt m "fst x"] by (simp add: op_tenant_def)
qed

subsection \<open>What an operation does to a task row\<close>

definition row_step :: "int \<Rightarrow> task_row \<Rightarrow> task_row \<Rightarrow> bool" where
  "row_step m row row' \<longleftrightarrow>
     tk_task_version row' = tk_task_version row + 1
   \<and> tk_tenant_id row' = tk_tenant_id row \<and> tk_run_id row' = tk_run_id row
   \<and> tk_correlation_id row' = tk_correlation_id row \<and> tk_created_at row' = tk_created_at row
   \<and> (tk_state row' = tk_state row \<or> (\<exists>ev. task_step (tk_state row) ev (tk_state row')))
   \<and> (tk_retry_count row' = tk_retry_count row
        \<or> tk_retry_count row' = tk_retry_count row + 1 \<and> tk_retry_count row < m)
   \<and> (tk_paused_for row' = None \<or> tk_state row' = AwaitingHuman
        \<or> tk_paused_for row' = tk_paused_for row \<and> (tk_state row' = tk_state row \<or> tk_state row \<noteq> AwaitingHuman))"

lemma task_step_intros:
  "assertTaskTransition s t ev = Inr () \<Longrightarrow> \<exists>ev. task_step s ev t"
  "taskTransitionEvent s t = Some ev \<Longrightarrow> \<exists>ev. task_step s ev t"
  by (auto intro: task_step.intros dest: derived_event_passes_guard)

lemma claim_guards_Some:
  "claim_guards rt tn r p row e = Inr (Some a) \<longleftrightarrow>
     find (\<lambda>c. ap_approval_id c = cp_approval_id p) (listApprovalRows tn r e) = Some a
   \<and> ap_run_id a = r \<and> ap_effect_key a = cp_effect_key p
   \<and> tk_paused_for row = Some (ap_approval_id a) \<and> tk_state row = AwaitingHuman
   \<and> \<not> blank (cp_operator_id p) \<and> ap_payload_sha256 a = cp_expected_payload_sha256 p
   \<and> ap_decision a = PENDING
   \<and> (case cp_authorized_action p of None \<Rightarrow> True
      | Some d \<Rightarrow> cp_decision p = Modify \<or> (cp_decision p = Approve \<and> ac_action_id d = ap_action_id a
          \<and> ac_effect_key d = ap_effect_key a
          \<and> payload_digest rt (JObj (ac_payload d)) = Inr (ap_payload_sha256 a)))"
proof (cases "find (\<lambda>c. ap_approval_id c = cp_approval_id p) (listApprovalRows tn r e)")
  case None
  then show ?thesis by (simp add: claim_guards_def)
next
  case (Some c)
  show ?thesis
  proof (cases "cp_authorized_action p")
    case None
    show ?thesis unfolding claim_guards_def Some None by auto
  next
    case d: (Some d)
    show ?thesis unfolding claim_guards_def Some d
      by (cases "payload_digest rt (JObj (ac_payload d))") (auto simp: andThen_Inr_iff)
  qed
qed

lemma row_step_bump:
  "row_step m row (bump ts row') \<longleftrightarrow>
     tk_task_version row' = tk_task_version row
   \<and> tk_tenant_id row' = tk_tenant_id row \<and> tk_run_id row' = tk_run_id row
   \<and> tk_correlation_id row' = tk_correlation_id row \<and> tk_created_at row' = tk_created_at row
   \<and> (tk_state row' = tk_state row \<or> (\<exists>ev. task_step (tk_state row) ev (tk_state row')))
   \<and> (tk_retry_count row' = tk_retry_count row
        \<or> tk_retry_count row' = tk_retry_count row + 1 \<and> tk_retry_count row < m)
   \<and> (tk_paused_for row' = None \<or> tk_state row' = AwaitingHuman
        \<or> tk_paused_for row' = tk_paused_for row \<and> (tk_state row' = tk_state row \<or> tk_state row \<noteq> AwaitingHuman))"
  by (simp add: row_step_def bump_def)

lemma row_step_resume:
  "assertTaskTransition (tk_state row) target ev = Inr () \<Longrightarrow> row_step m row (resume_task ts target row)"
  "assertTaskTransition (tk_state row) target ev = Inr () \<Longrightarrow>
     row_step m row (resume_task ts target (with_pending_action d row))"
  by (auto simp: resume_task_def row_step_bump with_pending_action_def intro: task_step_intros)

lemma parked_never_fails:
  "taskTransitionEvent AwaitingHuman Queued = None" "taskTransitionEvent AwaitingHuman Failed = None"
  by (simp_all add: taskTransitionEvent_def TASK_TRANSITIONS_def)

lemma row_step_failure:
  "tk_retry_count row < m \<Longrightarrow> row_step m row (bump ts (requeue_row (row\<lparr>tk_error_details := d\<rparr>)))"
  "row_step m row (bump ts (fail_row c (row\<lparr>tk_error_details := d\<rparr>)))"
  by (auto simp: row_step_bump requeue_row_def fail_row_def parked_never_fails
      split: option.splits intro: task_step_intros)

text \<open>What each operation leaves in the entry of its own task.\<close>

lemma claim_entry:
  assumes "en_tasks e (tn, r) = Some row"
  shows "\<exists>row'. en_tasks (snd (claimApprovalAndResume rt ts tn r p e)) (tn, r) = Some row'
    \<and> (row' = row \<or> row_step m row row')"
proof -
  have b: "row_step m row (bump ts row)" by (simp add: row_step_bump)
  show ?thesis
    using assms b
    by (auto simp: claimApprovalAndResume_def lookupTask_def requireTask_def Let_def
        split: option.split sum.split intro: row_step_resume)
qed

lemma pause_entry:
  assumes "en_tasks e (tn, r) = Some row"
  shows "\<exists>row'. en_tasks (snd (pauseForApproval rt ts u tn r v cp p e)) (tn, r) = Some row'
    \<and> (row' = row \<or> row_step m row row')"
proof -
  have b: "assertTaskTransition (tk_state row) AwaitingHuman ''task.require_auth4'' = Inr () \<Longrightarrow>
      row_step m row (bump ts (row\<lparr>tk_state := AwaitingHuman, tk_paused_for := Some u, tk_state_payload := Some q\<rparr>))"
    for q by (auto simp: row_step_bump intro: task_step_intros)
  show ?thesis
    using assms b
    by (auto simp: pauseForApproval_def lookupTask_def requireTask_def split: option.split sum.split)
qed

lemma transition_entry:
  assumes "en_tasks e (tn, r) = Some row"
  shows "\<exists>row'. en_tasks (snd (transitionTask ts tn r st cp g e)) (tn, r) = Some row'
    \<and> (row' = row \<or> row_step m row row')"
  using assms
  by (auto simp: transitionTask_def lookupTask_def requireTask_def Let_def row_step_bump
      split: option.split sum.split dest: task_step_intros)

lemma evidence_entry:
  assumes "en_tasks e (tn, r) = Some row"
  shows "\<exists>row'. en_tasks (snd (queueHandoffEvidence rt ts tn r q e)) (tn, r) = Some row'
      \<and> (row' = row \<or> row_step m row row')"
    and "\<exists>row'. en_tasks (snd (clearHandoffEvidence rt ts tn r v ev e)) (tn, r) = Some row'
      \<and> (row' = row \<or> row_step m row row')"
    and "\<exists>row'. en_tasks (snd (updateTaskProgress ts tn r i p e)) (tn, r) = Some row'
      \<and> (row' = row \<or> row_step m row row')"
    and "\<exists>row'. en_tasks (snd (createTask ts r tn c i st e)) (tn, r) = Some row'
      \<and> (row' = row \<or> row_step m row row')"
    and "\<exists>row'. en_tasks (snd (recordFailure m ts tn r ec d e)) (tn, r) = Some row'
      \<and> (row' = row \<or> row_step m row row')"
proof -
  have b: "row_step m row (bump ts (row\<lparr>tk_state_payload := q\<rparr>))"
    "row_step m row (bump ts (row\<lparr>tk_current_step := i, tk_state_payload := q\<rparr>))" for q
    by (simp_all add: row_step_bump)
  note defs = lookupTask_def requireTask_def Let_def assms
  show "\<exists>row'. en_tasks (snd (queueHandoffEvidence rt ts tn r q e)) (tn, r) = Some row'
      \<and> (row' = row \<or> row_step m row row')"
    using b by (auto simp: queueHandoffEvidence_def defs split: option.split sum.split)
  show "\<exists>row'. en_tasks (snd (clearHandoffEvidence rt ts tn r v ev e)) (tn, r) = Some row'
      \<and> (row' = row \<or> row_step m row row')"
    using b by (auto simp: clearHandoffEvidence_def defs split: option.split sum.split)
  show "\<exists>row'. en_tasks (snd (updateTaskProgress ts tn r i p e)) (tn, r) = Some row'
      \<and> (row' = row \<or> row_step m row row')"
    using b by (auto simp: updateTaskProgress_def defs split: option.split)
  show "\<exists>row'. en_tasks (snd (createTask ts r tn c i st e)) (tn, r) = Some row'
      \<and> (row' = row \<or> row_step m row row')"
    by (auto simp: createTask_def defs)
  show "\<exists>row'. en_tasks (snd (recordFailure m ts tn r ec d e)) (tn, r) = Some row'
      \<and> (row' = row \<or> row_step m row row')"
    using row_step_failure by (auto simp: recordFailure_def defs)
qed

lemma engine_other_key:
  assumes "op_key x \<noteq> k"
  shows "en_tasks (snd (engine_exec rt m (ts, x) e)) k = en_tasks e k"
  using assms
  by (cases x) (auto simp: engine_ops split: option.split sum.split)

lemma engine_row_step:
  assumes k: "en_tasks e k = Some row"
  shows "\<exists>row'. en_tasks (snd (engine_exec rt m (ts, x) e)) k = Some row' \<and> (row' = row \<or> row_step m row row')"
proof (cases "op_key x = k")
  case False
  with k show ?thesis by (simp add: engine_other_key)
next
  case True
  with k show ?thesis
    by (cases x) (auto simp: claim_entry pause_entry transition_entry evidence_entry)
qed

definition row_follows :: "task_row \<Rightarrow> task_row \<Rightarrow> bool" where
  "row_follows row row' \<longleftrightarrow> tk_task_version row \<le> tk_task_version row'
     \<and> tk_correlation_id row' = tk_correlation_id row \<and> tk_created_at row' = tk_created_at row
     \<and> task_path (tk_state row) (tk_state row')"

lemma task_path_trans: "task_path t u \<Longrightarrow> task_path s t \<Longrightarrow> task_path s u"
  by (induction rule: task_path.induct) (auto intro: task_path.intros)

interpretation engine_rows: tracked_rows "engine_exec rt m" "\<lambda>k e. en_tasks e k" row_follows for rt m
proof
  fix k :: "string \<times> string" and e :: engine and row and x :: "string \<times> engine_op"
  assume "en_tasks e k = Some row"
  from engine_row_step [OF this, of rt m "fst x" "snd x"] obtain row' where
    "en_tasks (snd (engine_exec rt m x e)) k = Some row'" "row' = row \<or> row_step m row row'" by auto
  then show "\<exists>w. en_tasks (snd (engine_exec rt m x e)) k = Some w \<and> row_follows row w"
    by (auto simp: row_follows_def row_step_def intro: task_path.intros)
qed (auto simp: row_follows_def intro: task_path.intros task_path_trans)

subsection \<open>The invariant of the tables\<close>

definition row_wf :: "int \<Rightarrow> task_row \<Rightarrow> bool" where
  "row_wf m row \<longleftrightarrow> 1 \<le> tk_task_version row \<and> 0 \<le> tk_retry_count row
     \<and> (tk_retry_count row = 0 \<or> tk_retry_count row \<le> m)
     \<and> (tk_paused_for row \<noteq> None \<longrightarrow> tk_state row = AwaitingHuman)"

definition pending_in_run :: "string \<Rightarrow> string \<Rightarrow> engine \<Rightarrow> approval_row list" where
  "pending_in_run tn r e = filter (\<lambda>a. ap_run_id a = r \<and> ap_decision a = PENDING) (en_approvals e tn)"

definition engine_inv :: "int \<Rightarrow> engine \<Rightarrow> bool" where
  "engine_inv m e \<longleftrightarrow> (\<forall>k row. en_tasks e k = Some row \<longrightarrow> row_wf m row)
     \<and> (\<forall>tn r. length (pending_in_run tn r e) \<le> 1)"

lemma row_step_wf: "row_step m row row' \<Longrightarrow> row_wf m row \<Longrightarrow> row_wf m row'"
  by (auto simp: row_step_def row_wf_def)

lemma created_row:
  assumes "en_tasks e k = None" and "en_tasks (snd (engine_exec rt m (ts, x) e)) k = Some row'"
  shows "row_wf m row'"
proof (cases "op_key x = k")
  case False
  with assms show ?thesis by (simp add: engine_other_key)
next
  case True
  with assms show ?thesis
    by (cases x) (auto simp: engine_ops lookupTask_def requireTask_def row_wf_def split: if_splits)
qed

lemma row_wf_step:
  assumes "\<And>k row. en_tasks e k = Some row \<Longrightarrow> row_wf m row"
    and "en_tasks (snd (engine_exec rt m (ts, x) e)) k = Some row'"
  shows "row_wf m row'"
proof (cases "en_tasks e k")
  case None
  then show ?thesis using created_row assms(2) by blast
next
  case (Some row)
  then show ?thesis using engine_row_step [OF Some, of rt m ts x] assms row_step_wf by fastforce
qed

lemma stored_not_pending [simp]: "stored_decision d \<noteq> PENDING"
  by (cases d) auto

lemma approval_edits [simp]:
  "ap_approval_id (decide_approval ts p a) = ap_approval_id a" "ap_run_id (decide_approval ts p a) = ap_run_id a"
  "ap_decision (decide_approval ts p a) = stored_decision (cp_decision p)"
  "ap_approval_id (rebind_approval d a) = ap_approval_id a" "ap_run_id (rebind_approval d a) = ap_run_id a"
  "ap_decision (rebind_approval d a) = ap_decision a"
  "ap_approval_id (pause_approval p a) = ap_approval_id a" "ap_run_id (pause_approval p a) = ap_run_id a"
  "ap_decision (pause_approval p a) = ap_decision a"
  by (simp_all add: decide_approval_def rebind_approval_def pause_approval_def)

text \<open>Only a pause adds an approval; only a claim edits one. What an edit may do to the rows:\<close>

definition edits_approval :: "(approval_row \<Rightarrow> approval_row) \<Rightarrow> bool" where
  "edits_approval f \<longleftrightarrow> (\<forall>a. ap_approval_id (f a) = ap_approval_id a \<and> ap_run_id (f a) = ap_run_id a
     \<and> (ap_decision (f a) = PENDING \<longrightarrow> ap_decision a = PENDING))"

lemma edits_approval_intros [simp]:
  "edits_approval (decide_approval ts p)" "edits_approval (rebind_approval d)" "edits_approval (pause_approval p)"
  "edits_approval (\<lambda>x. x\<lparr>ap_payload_sha256 := h\<rparr>)"
  by (auto simp: edits_approval_def)

text \<open>The tables of a tenant after any operation: unchanged, one row appended, or rows edited.\<close>

inductive approvals_step :: "string \<Rightarrow> engine \<Rightarrow> engine \<Rightarrow> bool" where
  kept: "en_approvals e' = en_approvals e \<Longrightarrow> approvals_step tn e e'"
| pushed: "pending_in_run tn (ap_run_id a) e = [] \<Longrightarrow> en_approvals e' = en_approvals (push_approval tn a e) \<Longrightarrow>
    approvals_step tn e e'"
| edited: "edits_approval f \<Longrightarrow> approvals_step tn e d \<Longrightarrow>
    en_approvals e' = en_approvals (edit_approval tn r i f d) \<Longrightarrow> approvals_step tn e e'"

lemma approvals_step_edit:
  "edits_approval f \<Longrightarrow> approvals_step tn e d \<Longrightarrow> approvals_step tn e (edit_approval tn r i f d)"
  "approvals_step tn e d \<Longrightarrow> approvals_step tn e (put_task tn' r' row d)"
proof -
  show "edits_approval f \<Longrightarrow> approvals_step tn e d \<Longrightarrow> approvals_step tn e (edit_approval tn r i f d)"
    by (rule edited) simp_all
  assume "approvals_step tn e d"
  then show "approvals_step tn e (put_task tn' r' row d)"
    by (cases rule: approvals_step.cases) (auto intro: approvals_step.intros)
qed

lemma approvals_step_refl: "approvals_step tn e e"
  by (rule kept) simp

lemma approvals_step_push:
  "(\<And>x. x \<in> set (en_approvals e tn) \<Longrightarrow> ap_run_id x = ap_run_id a \<Longrightarrow> ap_decision x \<noteq> PENDING) \<Longrightarrow>
   approvals_step tn e (push_approval tn a e)"
  by (rule pushed) (auto simp: pending_in_run_def filter_empty_conv)

lemma engine_approvals_step:
  "approvals_step (fst (op_key x)) e (snd (engine_exec rt m (ts, x) e))"
proof (cases x)
  case (Claim tn r p)
  show ?thesis unfolding Claim
    by (auto simp: claimApprovalAndResume_def Let_def split: option.split sum.split
        intro!: approvals_step_edit approvals_step_refl)
next
  case (PauseFor tn r u n cp p)
  show ?thesis unfolding PauseFor
    by (auto simp: pauseForApproval_def listApprovalRows_def find_None_set
        split: option.split sum.split
        intro!: approvals_step_refl approvals_step_edit(2) approvals_step_push)
qed (auto simp: engine_ops split: option.split sum.split intro: approvals_step_refl approvals_step_edit(2))

lemma pending_append:
  "ap_run_id a = r \<Longrightarrow> pending_in_run tn r e = [] \<Longrightarrow>
   length (filter (\<lambda>a. ap_run_id a = r \<and> ap_decision a = PENDING) (en_approvals e tn @ [a])) \<le> 1"
  by (simp add: pending_in_run_def)

lemma approvals_step_pending:
  "approvals_step tn e e' \<Longrightarrow> length (pending_in_run t r e) \<le> 1 \<Longrightarrow> length (pending_in_run t r e') \<le> 1"
proof (induction rule: approvals_step.induct)
  case (kept e' e tn)
  then show ?case by (simp add: pending_in_run_def)
next
  case (pushed tn a e e')
  then show ?case by (cases "t = tn"; cases "ap_run_id a = r") (auto simp: pending_in_run_def)
next
  case (edited f tn e d e' r' i)
  have "length (pending_in_run t r e') \<le> length (pending_in_run t r d)"
  proof (cases "t = tn")
    case True
    have "length (pending_in_run t r e') \<le> length (filter (\<lambda>a. ap_run_id a = r \<and> ap_decision a = PENDING) (en_approvals d tn))"
      unfolding pending_in_run_def edited.hyps(3) using True edited.hyps(1)
      by (auto simp: edits_approval_def intro!: length_filter_update_first)
    then show ?thesis using True by (simp add: pending_in_run_def)
  next
    case False
    then show ?thesis by (simp add: pending_in_run_def edited.hyps(3))
  qed
  with edited show ?case by linarith
qed

interpretation engine_tables: invariant_system "engine_exec rt m" "engine_inv m" for rt m
proof
  fix e and x :: "string \<times> engine_op"
  assume inv: "engine_inv m e"
  have "row_wf m row" if "en_tasks (snd (engine_exec rt m (fst x, snd x) e)) k = Some row" for k row
    by (rule row_wf_step [OF _ that]) (use inv in \<open>auto simp: engine_inv_def\<close>)
  moreover have "length (pending_in_run tn r (snd (engine_exec rt m (fst x, snd x) e))) \<le> 1" for tn r
    by (rule approvals_step_pending [OF engine_approvals_step]) (use inv in \<open>auto simp: engine_inv_def\<close>)
  ultimately show "engine_inv m (snd (engine_exec rt m x e))" by (simp add: engine_inv_def)
qed

subsection \<open>An approval is spent by one decision\<close>

definition find_approval :: "string \<times> string \<times> string \<Rightarrow> engine \<Rightarrow> approval_row option" where
  "find_approval k e = (case k of (tn, r, i) \<Rightarrow>
     find (\<lambda>a. ap_run_id a = r \<and> ap_approval_id a = i) (en_approvals e tn))"

definition decided :: "string \<times> string \<times> string \<Rightarrow> engine \<Rightarrow> bool" where
  "decided k e = (case find_approval k e of None \<Rightarrow> False | Some a \<Rightarrow> ap_decision a \<noteq> PENDING)"

fun decides :: "string \<times> string \<times> string \<Rightarrow> (string \<times> engine_op) \<times> engine_reply \<Rightarrow> bool" where
  "decides k ((ts, Claim tn r p), rp) =
     (k = (tn, r, cp_approval_id p) \<and> cp_decision p \<noteq> Pause \<and> rp = Flag True)"
| "decides _ _ = False"

lemma find_listApprovalRows:
  "find (\<lambda>c. ap_approval_id c = i) (listApprovalRows tn r e) = find_approval (tn, r, i) e"
  by (simp add: listApprovalRows_def find_approval_def find_filter)

lemma approvals_step_decided: "approvals_step tn e e' \<Longrightarrow> decided k e \<Longrightarrow> decided k e'"
proof (induction rule: approvals_step.induct)
  case (kept e' e tn)
  then show ?case by (simp add: decided_def find_approval_def split: prod.splits)
next
  case (pushed tn a e e')
  then show ?case
    by (auto simp: decided_def find_approval_def find_append split: prod.splits option.splits)
next
  case (edited f tn e d e' r i)
  obtain t q j where k: "k = (t, q, j)" by (cases k) auto
  from edited have "decided k d" by simp
  then obtain a where a: "find (\<lambda>a. ap_run_id a = q \<and> ap_approval_id a = j) (en_approvals d t) = Some a"
    and n: "ap_decision a \<noteq> PENDING" by (auto simp: decided_def find_approval_def k split: option.splits)
  have fn: "ap_decision (f a) \<noteq> PENDING" using n edited.hyps(1) by (auto simp: edits_approval_def)
  have f: "ap_run_id (f x) = ap_run_id x" "ap_approval_id (f x) = ap_approval_id x" for x
    using edited.hyps(1) by (auto simp: edits_approval_def)
  consider (other) "t \<noteq> tn \<or> q \<noteq> r \<or> j \<noteq> i" | (same) "t = tn" "q = r" "j = i" by blast
  then show ?case
  proof cases
    case other
    then have "find_approval k e' = find_approval k d"
      by (auto simp: find_approval_def k edited.hyps(3) f intro!: find_update_first_other)
    then show ?thesis using a n by (simp add: decided_def find_approval_def k)
  next
    case same
    then have "find_approval k e' = Some (f a)"
      using a by (simp add: find_approval_def k edited.hyps(3) find_update_first_same f)
    then show ?thesis using fn by (simp add: decided_def)
  qed
qed

lemma claim_granted:
  assumes "fst (claimApprovalAndResume rt ts tn r p e) = Inr True"
  obtains row a where "en_tasks e (tn, r) = Some row" "claim_guards rt tn r p row e = Inr (Some a)"
  using assms that
  by (auto simp: claimApprovalAndResume_def requireTask_def lookupTask_def split: option.splits sum.splits)

lemma decided_put [simp]: "decided k (put_task tn r row e) = decided k e"
  by (simp add: decided_def find_approval_def split: prod.split)

lemma find_approval_edit:
  assumes "edits_approval f"
  shows "find_approval (tn, r, i) (edit_approval tn r i f e) = map_option f (find_approval (tn, r, i) e)"
  using assms by (simp add: find_approval_def edits_approval_def find_update_first_same)

lemma decided_edit:
  assumes "find_approval (tn, r, i) e = Some a" and "edits_approval f" and "ap_decision (f a) \<noteq> PENDING"
  shows "decided (tn, r, i) (edit_approval tn r i f e)"
  by (simp add: decided_def find_approval_edit [OF assms(2)] assms)

lemma decided_edit_keeps:
  "decided (tn, r, i) e \<Longrightarrow> edits_approval f \<Longrightarrow> decided (tn, r, i) (edit_approval tn r i f e)"
  using approvals_step_decided approvals_step_edit(1) approvals_step_refl by blast

lemma claim_decides:
  assumes "fst (claimApprovalAndResume rt ts tn r p e) = Inr True" and "cp_decision p \<noteq> Pause"
  shows "decided (tn, r, cp_approval_id p) (snd (claimApprovalAndResume rt ts tn r p e))"
proof -
  from claim_granted [OF assms(1)] obtain row a where
    t: "en_tasks e (tn, r) = Some row" and g: "claim_guards rt tn r p row e = Inr (Some a)" by blast
  from g have f: "find_approval (tn, r, cp_approval_id p) e = Some a"
    by (simp add: claim_guards_Some find_listApprovalRows)
  have d: "decided (tn, r, cp_approval_id p)
      (edit_approval tn r (cp_approval_id p) (decide_approval ts p) e)"
    by (rule decided_edit [OF f]) simp_all
  show ?thesis
    using assms d
    by (auto simp: claimApprovalAndResume_def requireTask_def lookupTask_def t g Let_def
        split: sum.split option.split intro!: decided_edit_keeps edits_approval_intros)
qed

interpretation engine_claims: single_use "engine_exec rt m" decides decided for rt m
proof
  fix k and x :: "string \<times> engine_op" and e
  assume d: "decides k (x, fst (engine_exec rt m x e))"
  obtain ts y where x: "x = (ts, y)" by (cases x)
  from d obtain tn r p where y: "y = Claim tn r p" and k: "k = (tn, r, cp_approval_id p)"
    and n: "cp_decision p \<noteq> Pause" and f: "fst (engine_exec rt m x e) = Flag True"
    unfolding x by (cases y) auto
  from f have "fst (claimApprovalAndResume rt ts tn r p e) = Inr True"
    by (simp add: x y reply_def split: sum.splits)
  from claim_decides [OF this n] show "decided k (snd (engine_exec rt m x e))" by (simp add: x y k)
next
  fix k and x :: "string \<times> engine_op" and e
  assume d: "decided k e"
  obtain ts y where x: "x = (ts, y)" by (cases x)
  show "\<not> decides k (x, fst (engine_exec rt m x e))"
  proof
    assume "decides k (x, fst (engine_exec rt m x e))"
    then obtain tn r p where y: "y = Claim tn r p" and k: "k = (tn, r, cp_approval_id p)"
      and f: "fst (engine_exec rt m x e) = Flag True"
      unfolding x by (cases y) auto
    from f have "fst (claimApprovalAndResume rt ts tn r p e) = Inr True"
      by (simp add: x y reply_def split: sum.splits)
    then obtain row a where "claim_guards rt tn r p row e = Inr (Some a)" by (rule claim_granted)
    then show False using d by (simp add: claim_guards_Some find_listApprovalRows k decided_def)
  qed
next
  fix k and x :: "string \<times> engine_op" and e
  assume "decided k e"
  then show "decided k (snd (engine_exec rt m x e))"
    using approvals_step_decided [OF engine_approvals_step [of "snd x" e rt m "fst x"]] by simp
qed

text \<open>
  C12: whatever operations are run, an approval is claimed by at most one decision: the first approve,
  modify, reject or cancel that is granted makes every later one on the same approval refused.
\<close>

theorem approval_decided_at_most_once:
  "length (filter (decides (tenant, run, approval_id)) (fst (run_ops (engine_exec rt max_retries) ops e))) \<le> 1"
  by (rule engine_claims.granted_once)

text \<open>
  C15: a tenant's replies and rows depend on that tenant's operations only: they are the same whether or
  not other tenants' operations are interleaved with them.
\<close>

theorem engine_tenants_do_not_interfere:
  "filter (\<lambda>p. op_tenant (fst p) = t) (fst (run_ops (engine_exec rt max_retries) ops e))
     = fst (run_ops (engine_exec rt max_retries) (filter (\<lambda>x. op_tenant x = t) ops) e)
   \<and> tenant_view t (snd (run_ops (engine_exec rt max_retries) ops e))
     = tenant_view t (snd (run_ops (engine_exec rt max_retries) (filter (\<lambda>x. op_tenant x = t) ops) e))"
  by (rule engine_tenants.noninterference) (simp_all add: list.pred_True)

text \<open>
  C16: starting from empty tables, after any operations a run has at most one pending approval, no task
  has been retried more often than the budget allows, and only a task that is awaiting a human holds
  an approval.
\<close>

theorem engine_tables_sound:
  "engine_inv max_retries (snd (run_ops (engine_exec rt max_retries) ops empty_engine))"
  by (rule engine_tables.inv_run) (simp add: engine_inv_def empty_engine_def pending_in_run_def)

text \<open>
  a task row survives every sequence of operations, its version never goes back and its state only
  moves along the transition matrix; in particular a completed, failed or stopped task stays so.
\<close>

theorem task_rows_follow_the_matrix:
  assumes "en_tasks e k = Some row"
  shows "\<exists>row'. en_tasks (snd (run_ops (engine_exec rt max_retries) ops e)) k = Some row'
    \<and> row_follows row row'"
  using assms by (rule engine_rows.obs_run)

text \<open>A parked task with its pending approval, and its engine.\<close>

definition example_task :: task_row where
  "example_task = \<lparr>tk_tenant_id = ''t1'', tk_run_id = ''r1'', tk_correlation_id = ''c1'',
    tk_state = AwaitingHuman, tk_current_step = Fin 0, tk_task_version = 3, tk_retry_count = 0,
    tk_last_error_class = None, tk_error_details = None, tk_state_payload = Some [],
    tk_paused_for = Some ''a1'', tk_created_at = ''2026'', tk_updated_at = ''2026''\<rparr>"

definition example_approval :: approval_row where
  "example_approval = \<lparr>ap_approval_id = ''a1'', ap_tenant_id = ''t1'', ap_run_id = ''r1'',
    ap_action_id = ''act'', ap_effect_key = ''k1'', ap_payload = JNull, ap_payload_sha256 = ''d1'',
    ap_reason = [], ap_decision = PENDING, ap_is_paused = False, ap_operator_id = None,
    ap_review_comment = None, ap_created_at = ''2026'', ap_decided_at = None\<rparr>"

definition example_engine :: engine where
  "example_engine = \<lparr>en_tasks = [(''t1'', ''r1'') \<mapsto> example_task],
    en_approvals = (\<lambda>t. if t = ''t1'' then [example_approval] else [])\<rparr>"

text \<open>
  C14: a decision is granted exactly when the task is parked for that approval, the approval is
  pending, bound to the effect key and digest the operator reviewed, the operator is identified, an
  approved action is the reviewed one, only approve and modify carry an action, a pause is the first
  one and a modified payload has a canonical form.
\<close>

theorem claim_granted_iff:
  "fst (claimApprovalAndResume rt ts tenant run p e) = Inr True \<longleftrightarrow>
    (\<exists>row a. en_tasks e (tenant, run) = Some row
     \<and> find_approval (tenant, run, cp_approval_id p) e = Some a
     \<and> ap_decision a = PENDING \<and> ap_effect_key a = cp_effect_key p
     \<and> ap_payload_sha256 a = cp_expected_payload_sha256 p
     \<and> tk_paused_for row = Some (cp_approval_id p) \<and> tk_state row = AwaitingHuman
     \<and> \<not> blank (cp_operator_id p)
     \<and> (case cp_authorized_action p of
          None \<Rightarrow> True
        | Some d \<Rightarrow>
            cp_decision p = Approve \<and> ac_action_id d = ap_action_id a \<and> ac_effect_key d = ap_effect_key a
              \<and> payload_digest rt (JObj (ac_payload d)) = Inr (ap_payload_sha256 a)
          \<or> cp_decision p = Modify \<and> succeeds (payload_digest rt (JObj (ac_payload d))))
     \<and> (cp_decision p = Pause \<longrightarrow> \<not> ap_is_paused a))"
proof -
  have id: "find_approval (tenant, run, i) e = Some a \<Longrightarrow> ap_approval_id a = i \<and> ap_run_id a = run" for i a
    by (auto simp: find_approval_def dest: find_Some_set)
  have legal: "assertTaskTransition AwaitingHuman (claim_target d) (claim_event d) = Inr ()" if "d \<noteq> Pause" for d
    using that by (cases d) (simp_all add: assertTaskTransition_iff TASK_TRANSITIONS_def)
  show ?thesis (is "?l \<longleftrightarrow> ?r")
  proof
    assume l: ?l
    then obtain row a where t: "en_tasks e (tenant, run) = Some row"
      and g: "claim_guards rt tenant run p row e = Inr (Some a)" by (rule claim_granted)
    have "find_approval (tenant, run, cp_approval_id p) e = Some a"
      using g by (simp add: claim_guards_Some find_listApprovalRows)
    moreover have "cp_decision p = Pause \<longrightarrow> \<not> ap_is_paused a"
      using l by (auto simp: claimApprovalAndResume_def requireTask_def lookupTask_def t g)
    moreover have "cp_decision p = Modify \<longrightarrow> (case cp_authorized_action p of None \<Rightarrow> True
        | Some d \<Rightarrow> succeeds (payload_digest rt (JObj (ac_payload d))))"
      using l by (auto simp: claimApprovalAndResume_def requireTask_def lookupTask_def t g Let_def succeeds_iff
          split: sum.splits option.splits)
    ultimately show ?r using t g id
      by (intro exI [of _ row] exI [of _ a]) (auto simp: claim_guards_Some split: option.splits)
  next
    assume ?r
    then obtain row a where t: "en_tasks e (tenant, run) = Some row"
      and f: "find_approval (tenant, run, cp_approval_id p) e = Some a"
      and p: "cp_decision p = Pause \<longrightarrow> \<not> ap_is_paused a" and s: "tk_state row = AwaitingHuman"
      and g: "claim_guards rt tenant run p row e = Inr (Some a)"
      and m: "cp_decision p = Modify \<longrightarrow> (case cp_authorized_action p of None \<Rightarrow> True
        | Some d \<Rightarrow> succeeds (payload_digest rt (JObj (ac_payload d))))"
      using id by (fastforce simp: claim_guards_Some find_listApprovalRows split: option.splits)
    show ?l
      using p m legal
      by (auto simp: claimApprovalAndResume_def requireTask_def lookupTask_def t g s Let_def succeeds_iff
          split: option.splits)
  qed
qed

lemma pause_replay:
  assumes "requireTask tn r e = Inr row"
    and "find (\<lambda>a. ap_decision a = PENDING) (listApprovalRows tn r e) = Some a"
    and "ap_effect_key a = pp_effect_key p" and "ap_action_id a = pp_action_id p"
    and "payload_digest rt (pp_payload p) = Inr (ap_payload_sha256 a)"
  shows "pauseForApproval rt ts u tn r v cp p e = (Inr (ap_approval_id a), e)"
  using assms by (simp add: pauseForApproval_def)

lemma pause_success:
  assumes "fst (pauseForApproval rt ts u tn r v cp p e) = Inr i"
  obtains row a where "requireTask tn r (snd (pauseForApproval rt ts u tn r v cp p e)) = Inr row"
    "find (\<lambda>a. ap_decision a = PENDING) (listApprovalRows tn r (snd (pauseForApproval rt ts u tn r v cp p e))) = Some a"
    "ap_effect_key a = pp_effect_key p" "ap_action_id a = pp_action_id p"
    "payload_digest rt (pp_payload p) = Inr (ap_payload_sha256 a)" "ap_approval_id a = i"
proof -
  let ?e = "snd (pauseForApproval rt ts u tn r v cp p e)"
  obtain row where rq: "requireTask tn r e = Inr row"
    using assms by (cases "requireTask tn r e") (simp_all add: pauseForApproval_def)
  show thesis
  proof (cases "find (\<lambda>a. ap_decision a = PENDING) (listApprovalRows tn r e)")
    case (Some a)
    then have "?e = e" "ap_effect_key a = pp_effect_key p" "ap_action_id a = pp_action_id p"
      "payload_digest rt (pp_payload p) = Inr (ap_payload_sha256 a)" "ap_approval_id a = i"
      using assms by (auto simp: pauseForApproval_def rq split: if_splits sum.splits)
    then show ?thesis using that [of row a] rq Some by simp
  next
    case None
    note P = pauseForApproval_def rq None
    have v: "tk_task_version row = v"
      using assms by (cases "tk_task_version row = v") (simp_all add: P)
    obtain x where as: "assertTaskTransition (tk_state row) AwaitingHuman ''task.require_auth4'' = Inr x"
      using assms v by (cases "assertTaskTransition (tk_state row) AwaitingHuman ''task.require_auth4''") (simp_all add: P)
    obtain cp' where c: "as_record cp = Some cp'"
      using assms v as by (cases "as_record cp") (simp_all add: P)
    obtain digest where d: "payload_digest rt (pp_payload p) = Inr digest"
      using assms v as c by (cases "payload_digest rt (pp_payload p)") (simp_all add: P)
    have i: "i = u" using assms by (simp add: P v as c d)
    have ex: "?e = put_task tn r (bump ts (row\<lparr>tk_state := AwaitingHuman, tk_paused_for := Some u, tk_state_payload := Some cp'\<rparr>))
            (push_approval tn \<lparr>ap_approval_id = u, ap_tenant_id = tn, ap_run_id = r,
               ap_action_id = pp_action_id p, ap_effect_key = pp_effect_key p,
               ap_payload = pp_payload p, ap_payload_sha256 = digest,
               ap_reason = pp_reason p, ap_decision = PENDING, ap_is_paused = False,
               ap_operator_id = None, ap_review_comment = None,
               ap_created_at = ts, ap_decided_at = None\<rparr> e)"
      by (simp add: P v as c d)
    obtain row' a where
      e: "?e = put_task tn r row' (push_approval tn a e)"
      and a: "ap_run_id a = r" "ap_decision a = PENDING"
        "ap_effect_key a = pp_effect_key p" "ap_action_id a = pp_action_id p" "ap_approval_id a = i"
        "payload_digest rt (pp_payload p) = Inr (ap_payload_sha256 a)"
      by (rule that [OF ex]) (simp_all add: d i)
    have "requireTask tn r ?e = Inr row'" by (simp add: e requireTask_def lookupTask_def)
    moreover have "find (\<lambda>a. ap_decision a = PENDING) (listApprovalRows tn r ?e) = Some a"
      using None a(1,2) by (simp add: e listApprovalRows_def find_filter find_append)
    ultimately show ?thesis using that [of row' a] a by blast
  qed
qed

text \<open>
  pausing for an approval is idempotent: after a pause that returned an approval id, pausing again
  for the same action returns the same id and changes nothing, at whatever version and with whatever
  checkpoint it is retried.
\<close>

theorem pause_is_idempotent:
  assumes "pauseForApproval rt ts uuid tenant run v checkpoint p e = (Inr i, e')"
  shows "pauseForApproval rt ts' uuid' tenant run v' checkpoint' p e' = (Inr i, e')"
proof -
  have "fst (pauseForApproval rt ts uuid tenant run v checkpoint p e) = Inr i" by (simp add: assms)
  from pause_success [OF this] pause_replay show ?thesis unfolding assms snd_conv by metis
qed

text \<open>
  a modified action whose payload has no canonical form makes the claim throw after the approval
  was already decided: the task stays parked for it and no later claim of that approval is granted.
\<close>

theorem modify_refusal_strands_the_task:
  assumes "en_tasks e (tenant, run) = Some row"
    and "claim_guards rt tenant run p row e = Inr (Some a)"
    and "cp_decision p = Modify" and "cp_authorized_action p = Some d"
    and "payload_digest rt (JObj (ac_payload d)) = Inl err"
    and "claimApprovalAndResume rt ts tenant run p e = (r, e')"
  shows "r = Inl err
    \<and> en_tasks e' (tenant, run) = Some row \<and> tk_state row = AwaitingHuman
    \<and> filter (decides (tenant, run, cp_approval_id p)) (fst (run_ops (engine_exec rt m) ops e')) = []"
proof -
  from assms(2) have s: "tk_state row = AwaitingHuman"
    and f: "find_approval (tenant, run, cp_approval_id p) e = Some a"
    by (auto simp: claim_guards_Some find_listApprovalRows)
  have legal: "assertTaskTransition AwaitingHuman Running ''human.modify'' = Inr ()"
    by (simp add: assertTaskTransition_iff TASK_TRANSITIONS_def)
  let ?decided = "edit_approval tenant run (cp_approval_id p) (decide_approval ts p) e"
  have c: "claimApprovalAndResume rt ts tenant run p e =
      (Inl err, edit_approval tenant run (cp_approval_id p) (rebind_approval d) ?decided)"
    by (simp add: claimApprovalAndResume_def requireTask_def lookupTask_def assms(1-5) s legal Let_def)
  have "decided (tenant, run, cp_approval_id p) e'"
    using assms(6) unfolding c by (auto simp: decided_edit_keeps decided_edit [OF f])
  from engine_claims.spent_grants_none [OF this]
  have n: "filter (decides (tenant, run, cp_approval_id p)) (fst (run_ops (engine_exec rt m) ops e')) = []" .
  have t: "en_tasks e' (tenant, run) = Some row" using assms(6) by (auto simp: c assms(1))
  show ?thesis using t n s assms(6) by (simp add: c)
qed

lemma terminal_not_requeued:
  "s \<in> {Completed, Failed, Stopped} \<Longrightarrow> taskTransitionEvent s Queued = None"
  by (auto simp: taskTransitionEvent_def TASK_TRANSITIONS_def)

text \<open>
  recording a retryable failure of a task that is already completed, failed or stopped does not
  leave it alone: within the retry budget it reports the task as re-queued and raises its version and
  its retry count, while the state stays terminal.
\<close>

theorem terminal_failure_reports_requeue:
  assumes "en_tasks e (tenant, run) = Some row" and "tk_state row \<in> {Completed, Failed, Stopped}"
    and "tk_retry_count row < max_retries"
  shows "\<exists>row'. fst (recordFailure max_retries ts tenant run ''RETRYABLE'' details e) = Inr True
    \<and> en_tasks (snd (recordFailure max_retries ts tenant run ''RETRYABLE'' details e)) (tenant, run) = Some row'
    \<and> tk_state row' = tk_state row \<and> tk_task_version row' = tk_task_version row + 1
    \<and> tk_retry_count row' = tk_retry_count row + 1"
  using assms terminal_not_requeued
  by (auto simp: recordFailure_def lookupTask_def requeue_row_def bump_def)

text \<open>
  a task resumed through transitionTask while its approval is pending leaves the approval behind: it can
  no longer be claimed, and a later pause for the same action answers with it without parking the task,
  which stays running.
\<close>

theorem resumed_task_keeps_a_dead_approval:
  assumes "en_tasks e (tenant, run) = Some row" and "tk_state row = AwaitingHuman"
    and "find (\<lambda>a. ap_decision a = PENDING) (listApprovalRows tenant run e) = Some a"
    and "payload_digest rt (pp_payload p) = Inr (ap_payload_sha256 a)"
    and "ap_effect_key a = pp_effect_key p" and "ap_action_id a = pp_action_id p"
    and "transitionTask ts tenant run Running JUndef NoGuard e = (r, e')"
  shows "r = Inr ()
    \<and> fst (claimApprovalAndResume rt ts' tenant run c e') \<noteq> Inr True
    \<and> pauseForApproval rt ts'' uuid tenant run v checkpoint p e' = (Inr (ap_approval_id a), e')
    \<and> map_option tk_state (en_tasks e' (tenant, run)) = Some Running"
proof -
  have ev: "taskTransitionEvent AwaitingHuman Running = Some ''human.approval''"
    by (simp add: taskTransitionEvent_def TASK_TRANSITIONS_def)
  have tr: "transitionTask ts tenant run Running JUndef NoGuard e = (Inr (), put_task tenant run
      (bump ts (row\<lparr>tk_state := Running, tk_paused_for := None, tk_state_payload := tk_state_payload row\<rparr>)) e)"
    by (simp add: transitionTask_def requireTask_def lookupTask_def assms(1-2) ev derived_event_passes_guard)
  from assms(7) have e': "e' = put_task tenant run
      (bump ts (row\<lparr>tk_state := Running, tk_paused_for := None, tk_state_payload := tk_state_payload row\<rparr>)) e"
    by (simp add: tr)
  obtain row' where t: "en_tasks e' (tenant, run) = Some row'" and s: "tk_state row' = Running"
    and pf: "tk_paused_for row' = None"
    by (simp add: e' bump_def)
  have l: "listApprovalRows tenant run e' = listApprovalRows tenant run e"
    by (simp add: e' listApprovalRows_def)
  have "pauseForApproval rt ts'' uuid tenant run v checkpoint p e' = (Inr (ap_approval_id a), e')"
    by (rule pause_replay [where row = row']) (use assms l t in \<open>simp_all add: requireTask_def lookupTask_def\<close>)
  moreover have "fst (claimApprovalAndResume rt ts' tenant run c e') \<noteq> Inr True"
    using claim_granted claim_guards_Some t pf by fastforce
  ultimately show ?thesis using t s assms(7) by (simp add: tr)
qed

subsection \<open>Concrete runs\<close>

definition example_running :: engine where
  "example_running = \<lparr>en_tasks = [(''t1'', ''r1'') \<mapsto> example_task\<lparr>tk_state := Running, tk_paused_for := None\<rparr>],
    en_approvals = (\<lambda>_. [])\<rparr>"

definition example_pause :: pause_params where
  "example_pause = \<lparr>pp_action_id = ''act'', pp_effect_key = ''k1'', pp_payload = JNull, pp_reason = ''price''\<rparr>"

lemmas engine_examples = example_running_def example_pause_def example_task_def example_engine_def
  example_approval_def echo_runtime_def

lemma null_digest: "payload_digest echo_runtime JNull = Inr ''null''"
  by (simp add: payload_digest_def effect_canonicalizeJson_def durable_canonicalizeJson_def
      database_canonicalizeJson_def echo_runtime_def)

lemma example_pause_result:
  "\<exists>e'. pauseForApproval echo_runtime ''2027'' ''a7'' ''t1'' ''r1'' 3 (JObj []) example_pause example_running
     = (Inr ''a7'', e')"
proof -
  have "assertTaskTransition Running AwaitingHuman ''task.require_auth4'' = Inr ()"
    by (simp add: assertTaskTransition_iff TASK_TRANSITIONS_def)
  then show ?thesis
    by (simp add: pauseForApproval_def requireTask_def lookupTask_def listApprovalRows_def example_running_def
        example_task_def example_pause_def null_digest)
qed

theorem pause_is_idempotent_witness:
  "\<exists>e'. pauseForApproval echo_runtime ''2028'' ''a8'' ''t1'' ''r1'' 9 JNull example_pause e' = (Inr ''a7'', e')"
proof -
  from example_pause_result obtain e' where
    "pauseForApproval echo_runtime ''2027'' ''a7'' ''t1'' ''r1'' 3 (JObj []) example_pause example_running
      = (Inr ''a7'', e')" by blast
  from pause_is_idempotent [OF this] show ?thesis by blast
qed

definition example_action :: action_draft where
  "example_action = \<lparr>ac_action_id = ''act'', ac_run_id = ''r1'', ac_tenant_id = ''t1'', ac_agent_id = ''SAL'',
    ac_skill_id = ''SKL-1'', ac_adapter_target = ''erp'', ac_step_index = Fin 0, ac_mutating = True,
    ac_price_bearing = False, ac_request_id = ''q1'', ac_action_revision = Fin 1, ac_effect_key = ''k2'',
    ac_required_authority = JStr ''AUTH-4'', ac_payload = [(''n'', JNum NaN)],
    ac_computed_price_floor = None, ac_floor_source = None, ac_proposed_price = None,
    ac_approval_payload_digest = None, ac_approval_id = None\<rparr>"

definition example_claim :: claim_params where
  "example_claim = \<lparr>cp_approval_id = ''a1'', cp_effect_key = ''k1'', cp_expected_payload_sha256 = ''d1'',
    cp_authorized_action = Some example_action, cp_decision = Modify, cp_operator_id = ''op'',
    cp_review_comment = None\<rparr>"

theorem modify_refusal_strands_the_task_witness:
  "\<exists>r e' err. claimApprovalAndResume echo_runtime ''2027'' ''t1'' ''r1'' example_claim example_engine = (r, e')
    \<and> r = Inl err \<and> en_tasks e' (''t1'', ''r1'') = Some example_task \<and> tk_state example_task = AwaitingHuman
    \<and> filter (decides (''t1'', ''r1'', ''a1'')) (fst (run_ops (engine_exec echo_runtime 3) [] e')) = []"
proof -
  have t: "en_tasks example_engine (''t1'', ''r1'') = Some example_task" by (simp add: example_engine_def)
  have g: "claim_guards echo_runtime ''t1'' ''r1'' example_claim example_task example_engine = Inr (Some example_approval)"
    by (simp add: claim_guards_Some listApprovalRows_def example_claim_def example_engine_def example_approval_def
        example_task_def blank_def trim_def is_ws_def)
  have d: "payload_digest echo_runtime (JObj (ac_payload example_action))
      = Inl (OrchestratorError ''CANONICAL_JSON_UNSUPPORTED'')"
    by (simp add: payload_digest_def effect_canonicalizeJson_def durable_canonicalizeJson_def
        database_canonicalizeJson_def example_action_def)
  obtain r e' where c: "claimApprovalAndResume echo_runtime ''2027'' ''t1'' ''r1'' example_claim example_engine = (r, e')"
    by (cases "claimApprovalAndResume echo_runtime ''2027'' ''t1'' ''r1'' example_claim example_engine")
  have m: "cp_decision example_claim = Modify" "cp_authorized_action example_claim = Some example_action"
    "cp_approval_id example_claim = ''a1''" by (simp_all add: example_claim_def)
  from modify_refusal_strands_the_task [OF t g m(1,2) d c, of 3 "[]"] c m(3) show ?thesis by auto
qed

theorem task_rows_follow_the_matrix_witness:
  "\<exists>row'. en_tasks (snd (run_ops (engine_exec echo_runtime 3)
      [(''2027'', Transition ''t1'' ''r1'' Stopped JUndef NoGuard),
       (''2028'', RecordFailure ''t1'' ''r1'' ''FATAL'' [])] example_engine)) (''t1'', ''r1'') = Some row'
    \<and> row_follows example_task row'"
proof -
  have "en_tasks example_engine (''t1'', ''r1'') = Some example_task" by (simp add: example_engine_def)
  from task_rows_follow_the_matrix [OF this] show ?thesis .
qed

theorem claim_granted_iff_witness:
  "fst (claimApprovalAndResume echo_runtime ''2027'' ''t1'' ''r1''
     (example_claim\<lparr>cp_decision := Approve, cp_authorized_action := None\<rparr>) example_engine) = Inr True"
  unfolding claim_granted_iff
  by (intro exI [of _ example_task] exI [of _ example_approval])
    (simp add: example_claim_def example_engine_def example_approval_def example_task_def find_approval_def
      blank_def trim_def is_ws_def)

theorem terminal_failure_reports_requeue_witness:
  "\<exists>row' :: task_row. fst (recordFailure 3 ''2027'' ''t1'' ''r1'' ''RETRYABLE'' []
      \<lparr>en_tasks = [(''t1'', ''r1'') \<mapsto> example_task\<lparr>tk_state := Completed\<rparr>], en_approvals = (\<lambda>_. [])\<rparr>) = Inr True
    \<and> tk_state row' = Completed \<and> tk_retry_count row' = 1"
proof -
  let ?row = "example_task\<lparr>tk_state := Completed\<rparr>"
  let ?e = "\<lparr>en_tasks = [(''t1'', ''r1'') \<mapsto> ?row], en_approvals = (\<lambda>_. [])\<rparr>"
  have "en_tasks ?e (''t1'', ''r1'') = Some ?row" "tk_state ?row \<in> {Completed, Failed, Stopped}"
    "tk_retry_count ?row < 3" by (simp_all add: example_task_def)
  from terminal_failure_reports_requeue [OF this, of "''2027''" "[]"] obtain row' :: task_row where
    f: "fst (recordFailure 3 ''2027'' ''t1'' ''r1'' ''RETRYABLE'' [] ?e) = Inr True"
    and r: "tk_state row' = tk_state ?row" "tk_retry_count row' = tk_retry_count ?row + 1"
    by (elim exE conjE) (rule that)
  from r have "tk_state row' = Completed" "tk_retry_count row' = 1" by (simp_all add: example_task_def)
  with f show ?thesis by (intro exI conjI)
qed

theorem resumed_task_keeps_a_dead_approval_witness:
  "\<exists>e'. fst (claimApprovalAndResume echo_runtime ''2028'' ''t1'' ''r1'' example_claim e') \<noteq> Inr True
    \<and> pauseForApproval echo_runtime ''2029'' ''a8'' ''t1'' ''r1'' 4 (JObj []) example_pause e' = (Inr ''a1'', e')
    \<and> map_option tk_state (en_tasks e' (''t1'', ''r1'')) = Some Running"
proof -
  let ?a = "example_approval\<lparr>ap_payload_sha256 := ''null''\<rparr>"
  let ?e = "example_engine\<lparr>en_approvals := (\<lambda>t. if t = ''t1'' then [?a] else [])\<rparr>"
  obtain r e' where c: "transitionTask ''2027'' ''t1'' ''r1'' Running JUndef NoGuard ?e = (r, e')"
    by (cases "transitionTask ''2027'' ''t1'' ''r1'' Running JUndef NoGuard ?e")
  have t: "en_tasks ?e (''t1'', ''r1'') = Some example_task" "tk_state example_task = AwaitingHuman"
    by (simp_all add: example_engine_def example_task_def)
  have f: "find (\<lambda>a. ap_decision a = PENDING) (listApprovalRows ''t1'' ''r1'' ?e) = Some ?a"
    by (simp add: listApprovalRows_def example_approval_def)
  have p: "payload_digest echo_runtime (pp_payload example_pause) = Inr (ap_payload_sha256 ?a)"
    "ap_effect_key ?a = pp_effect_key example_pause" "ap_action_id ?a = pp_action_id example_pause"
    by (simp_all add: null_digest example_pause_def example_approval_def)
  from resumed_task_keeps_a_dead_approval [OF t f p c, of "''2028''" example_claim "''2029''" "''a8''" 4 "JObj []"]
  show ?thesis by (auto simp: example_approval_def)
qed

end
