(* ===== verification/PolicyTypes.thy ===== *)
theory PolicyTypes
  imports Authority AutonomyTypes
begin

text \<open>
  The contracts of the policy enforcement point (\<open>packages/core-engine/src/policy/types.ts\<close>): refusal
  codes, the decision, the registry rows, the trusted inputs and the ports. A port the process does
  not inject is \<open>None\<close>; an injected one is the function from the request to the answer it gives, a
  rejected promise or a throw being \<open>Inl\<close>. Reasons are renderings of the other members and left out.
\<close>

datatype enforcement_code = PERMIT | REQUIRE_HUMAN_APPROVAL | LIMIT_EXCEEDED | DENY_PROHIBITED

datatype policy_rule =
    PEP_BINDING | PEP_TOPOLOGY | PEP_EPISTEMIC | PEP_TAKEOVER
  | BR001 | BR002 | BR003 | BR004 | BR005 | BR006 | BR007 | BR008 | BR009 | BR010

text \<open>The codes of the authority gate are among the refusal codes of the enforcement point.\<close>

datatype policy_deny_code =
    TENANT_CONTEXT_REQUIRED | CROSS_TENANT_ASSERTION | CROSS_CUSTOMER_ASSERTION | IDENTITY_UNVERIFIED
  | AGENT_TO_AGENT_FORBIDDEN | UNKNOWN_AGENT | UNKNOWN_SKILL | UNAUTHORIZED_AGENT
  | GateRefusal authority_deny_code
  | PROMPT_INJECTION_BLOCKED | HYPOTHESIS_PROMOTION_REJECTED | CONSENT_REQUIRED | P_FLOOR_UNAVAILABLE
  | ERR_ARBITRARY_PRICING | ERR_FLOOR_PRICE_VIOLATION | AUTHORITATIVE_SOURCE_UNAVAILABLE
  | EFFECT_KEY_REQUIRED | IDEMPOTENCY_CONFLICT | POLICY_INPUT_INVALID | HUMAN_TAKEOVER
  | EVIDENCE_REQUIRED | AUDIT_SECRET_MISSING | AUDIT_UNAVAILABLE | APPROVAL_QUEUE_UNAVAILABLE
  | APPROVAL_BINDING_INVALID

datatype requirement_source = FromRegistry | FromProposal

datatype audit_status = RECORDED | AUDIT_FAILED | NOT_APPLICABLE

record policy_decision =
  pd_verdict :: authority_verdict
  pd_decisionCode :: enforcement_code
  pd_authorized :: bool
  pd_ruleId :: "policy_rule option"
  pd_errorCode :: "policy_deny_code option"
  pd_autonomyWorkflow :: "autonomy_workflow option"
  pd_tenantId :: string
  pd_agentId :: string
  pd_skillId :: string
  pd_runId :: string
  pd_correlationId :: string
  pd_toolName :: string
  pd_grantedAuthority :: "authority_level option"
  pd_resolvedRequirement :: "authority_level option"
  pd_requirementSource :: "requirement_source option"
  pd_approvalTicketId :: "string option"
  pd_effectKey :: "string option"
  pd_payloadSha256 :: "string option"
  pd_evaluatedAt :: string
  pd_auditStatus :: audit_status

datatype epistemic_class = FACT | SIGNAL | HYPOTHESIS | DECISION | ACTION

datatype write_target = FactTarget | HypothesisTarget

record registry_skill =
  rs_skill_id :: string
  rs_required_authority :: string
  rs_allowed_agents :: "string list"
  rs_mutating :: bool
  rs_price_bearing :: bool
  rs_idempotent :: bool
  rs_epistemic_class :: epistemic_class
  rs_write_target :: write_target
  rs_requires_consent :: bool
  rs_requires_verified_identity :: bool
  rs_timeout_ms :: jnum
  rs_policy_version :: "string option"

record registry_agent =
  ra_agent_id :: string
  ra_assigned_authority :: string

record tenant_parameters =
  tp_maxAutonomousDiscountRate :: "jnum option"
  tp_maxAutonomousRefundAmount :: "jnum option"
  tp_maxAutonomousAudienceSize :: "jnum option"
  tp_maxAutonomousReminderCount :: "jnum option"

record catalog_record =
  cr_catalog_ref_id :: string
  cr_price :: jnum
  cr_currency :: string

record floor_decision =
  fd_floor_price :: jnum
  fd_floor_source :: string
  fd_owner_approved :: bool

record consent_state =
  cs_consent_marketing :: bool
  cs_suppression_active :: bool

record pending_request =
  pq_tenant_id :: string
  pq_run_id :: string
  pq_request_id :: string
  pq_skill_id :: string
  pq_agent_id :: string
  pq_effect_key :: "string option"
  pq_payload_sha256 :: string
  pq_route :: enforcement_code
  pq_created_at :: string

record audit_record =
  ar_tenant_id :: string
  ar_run_id :: string
  ar_correlation_id :: string
  ar_agent_id :: string
  ar_skill_id :: string
  ar_tool_name :: string
  ar_authority :: "authority_level option"
  ar_verdict :: authority_verdict
  ar_decision_code :: enforcement_code
  ar_rule_id :: "policy_rule option"
  ar_error_code :: "policy_deny_code option"
  ar_approval_id :: "string option"
  ar_effect_key :: "string option"
  ar_payload_sha256 :: "string option"
  ar_occurred_at :: string

record security_context =
  sc_tenant_id :: string
  sc_agent_id :: string
  sc_run_id :: string
  sc_request_id :: string
  sc_correlation_id :: string
  sc_session_id :: string
  sc_verified_customer_id :: "string option"
  sc_takeover_active :: bool

record action_proposal =
  pa_skill_id :: string
  pa_tool_name :: string
  pa_payload :: jobject
  pa_required_authority :: json
  pa_target_agent_id :: "string option"
  pa_approval_id :: "string option"

record pep =
  pe_getSkill :: "string \<Rightarrow> registry_skill option"
  pe_getAgent :: "string \<Rightarrow> string \<Rightarrow> registry_agent option"
  pe_approvals :: "pending_request \<Rightarrow> string result"
  pe_tenantPolicy :: "(string \<Rightarrow> tenant_parameters option) option"
  pe_authoritativeSource :: "(string \<Rightarrow> string \<Rightarrow> catalog_record option result) option"
  pe_priceFloor :: "(string \<Rightarrow> string \<Rightarrow> floor_decision option result) option"
  pe_consent :: "(string \<Rightarrow> string \<Rightarrow> consent_state option result) option"
  pe_injectionDetector :: "(jobject \<Rightarrow> bool) option"
  pe_audit :: "(audit_record \<Rightarrow> unit result) option"
  pe_auditSecret :: "string option"
  pe_envSecret :: "string option"
  pe_autonomy :: "(admission_request \<Rightarrow> autonomy_workflow result) option"

text \<open>What an evaluation asked its effectful ports, in order, with their answers.\<close>

datatype pep_event =
    AuditAppend audit_record "unit result"
  | CreatePending pending_request "string result"
  | Admit admission_request "autonomy_workflow result"

end
