(* ===== verification/RuleChecks.thy ===== *)
theory RuleChecks
  imports PolicyTypes
begin

text \<open>
  The payload readers and the trusted-input checks of the policy
  (\<open>packages/core-engine/src/policy/payload-readers.ts\<close> and \<open>rule-checks.ts\<close>).
\<close>

datatype 'a field_read = ABSENT | VALID 'a | INVALID

datatype policy_outcome =
    Deny policy_rule policy_deny_code
  | Route enforcement_code policy_rule
  | Permit

definition TENANT_ASSERTION_FIELDS :: "string list" where
  "TENANT_ASSERTION_FIELDS = [''tenant_id'', ''tenantId'']"

definition CUSTOMER_ASSERTION_FIELDS :: "string list" where
  "CUSTOMER_ASSERTION_FIELDS = [''customer_id'', ''customerId'', ''customer_or_entity_id'']"

definition TARGET_AGENT_FIELDS :: "string list" where
  "TARGET_AGENT_FIELDS = [''target_agent_id'', ''targetAgentId'']"

definition CATALOG_REFERENCE_FIELDS :: "string list" where
  "CATALOG_REFERENCE_FIELDS = [''catalog_ref_id'', ''catalogRefId'']"

definition EFFECTIVE_PRICE_FIELDS :: "string list" where
  "EFFECTIVE_PRICE_FIELDS = [''effective_price'', ''offered_price'', ''proposed_price'']"

definition EFFECT_KEY_FIELDS :: "string list" where
  "EFFECT_KEY_FIELDS = [''effect_key'', ''effectKey'']"

definition RETRY_ATTEMPT_FIELDS :: "string list" where
  "RETRY_ATTEMPT_FIELDS = [''retry_attempt'', ''attempt'']"

definition AUTONOMY_LIMITS :: "((tenant_parameters \<Rightarrow> jnum option) \<times> string list) list" where
  "AUTONOMY_LIMITS =
    [(tp_maxAutonomousDiscountRate, [''discount_rate'']),
     (tp_maxAutonomousRefundAmount, [''refund_amount'', ''refund_amount_twd'']),
     (tp_maxAutonomousAudienceSize, [''audience_size'']),
     (tp_maxAutonomousReminderCount, [''reminder_count''])]"

subsection \<open>Readers\<close>

fun readMember :: "jobject \<Rightarrow> string list \<Rightarrow> json field_read" where
  "readMember payload [] = ABSENT"
| "readMember payload (name # names) =
    (case map_of payload name of
       Some v \<Rightarrow> if v = JUndef then ABSENT else VALID v
     | None \<Rightarrow> readMember payload names)"

definition readStringField :: "jobject \<Rightarrow> string list \<Rightarrow> string field_read" where
  "readStringField payload candidates =
    (case readMember payload candidates of
       ABSENT \<Rightarrow> ABSENT
     | INVALID \<Rightarrow> INVALID
     | VALID v \<Rightarrow> (case v of JStr s \<Rightarrow> if blank s then INVALID else VALID (trim s) | _ \<Rightarrow> INVALID))"

definition readNumberField :: "jobject \<Rightarrow> string list \<Rightarrow> jnum field_read" where
  "readNumberField payload candidates =
    (case readMember payload candidates of
       ABSENT \<Rightarrow> ABSENT
     | INVALID \<Rightarrow> INVALID
     | VALID v \<Rightarrow> (case v of JNum n \<Rightarrow> if is_finite n then VALID n else INVALID | _ \<Rightarrow> INVALID))"

definition stringValue :: "jobject \<Rightarrow> string list \<Rightarrow> string option" where
  "stringValue payload candidates =
    (case readStringField payload candidates of VALID s \<Rightarrow> Some s | _ \<Rightarrow> None)"

subsection \<open>Checks\<close>

definition trimmed :: "string option \<Rightarrow> string" where
  "trimmed s = (case s of None \<Rightarrow> [] | Some x \<Rightarrow> trim x)"

definition checkBinding :: "security_context \<Rightarrow> action_proposal \<Rightarrow>
    (string \<Rightarrow> string \<Rightarrow> registry_agent option) \<Rightarrow> policy_outcome option" where
  "checkBinding context proposal getAgent =
    (let tenantAssertion = readStringField (pa_payload proposal) TENANT_ASSERTION_FIELDS;
         customerAssertion = readStringField (pa_payload proposal) CUSTOMER_ASSERTION_FIELDS;
         target = (case pa_target_agent_id proposal of
             Some t \<Rightarrow> trim t
           | None \<Rightarrow> (case stringValue (pa_payload proposal) TARGET_AGENT_FIELDS of Some t \<Rightarrow> t | None \<Rightarrow> [])) in
     if (case tenantAssertion of INVALID \<Rightarrow> True | VALID v \<Rightarrow> v \<noteq> trim (sc_tenant_id context) | ABSENT \<Rightarrow> False)
     then Some (Deny PEP_BINDING CROSS_TENANT_ASSERTION)
     else if (case customerAssertion of INVALID \<Rightarrow> True
               | VALID v \<Rightarrow> v \<noteq> trimmed (sc_verified_customer_id context) | ABSENT \<Rightarrow> False)
     then Some (Deny PEP_BINDING CROSS_CUSTOMER_ASSERTION)
     else if target \<noteq> [] \<and> target \<noteq> trim (sc_agent_id context)
          \<and> getAgent target (sc_tenant_id context) \<noteq> None
     then Some (Deny PEP_TOPOLOGY AGENT_TO_AGENT_FORBIDDEN)
     else None)"

text \<open>The floor decision a price is held to: approved by the owner, with provenance, and a number.\<close>

definition usable_floor :: "floor_decision \<Rightarrow> bool" where
  "usable_floor f \<longleftrightarrow> fd_owner_approved f \<and> \<not> blank (fd_floor_source f) \<and> is_finite (fd_floor_price f)"

definition checkPrice :: "string \<Rightarrow> bool \<Rightarrow> jobject \<Rightarrow>
    (string \<Rightarrow> string \<Rightarrow> catalog_record option result) option \<Rightarrow>
    (string \<Rightarrow> string \<Rightarrow> floor_decision option result) option \<Rightarrow> policy_outcome option" where
  "checkPrice tenant mutating payload source priceFloor =
    (case readStringField payload CATALOG_REFERENCE_FIELDS of
       VALID reference \<Rightarrow>
         let effective = readNumberField payload EFFECTIVE_PRICE_FIELDS in
         if mutating \<and> effective = ABSENT then Some (Deny BR001 ERR_ARBITRARY_PRICING)
         else (case source of
             None \<Rightarrow> Some (Deny BR003 AUTHORITATIVE_SOURCE_UNAVAILABLE)
           | Some resolve \<Rightarrow>
               (case resolve tenant reference of
                  Inl _ \<Rightarrow> Some (Deny BR003 AUTHORITATIVE_SOURCE_UNAVAILABLE)
                | Inr entry \<Rightarrow>
                    if (case entry of None \<Rightarrow> True | Some c \<Rightarrow> cr_catalog_ref_id c \<noteq> reference)
                    then Some (Deny BR001 ERR_ARBITRARY_PRICING)
                    else (case priceFloor of
                        None \<Rightarrow> Some (Deny BR001 P_FLOOR_UNAVAILABLE)
                      | Some getFloor \<Rightarrow>
                          (case (case getFloor tenant reference of Inl _ \<Rightarrow> None | Inr f \<Rightarrow> f) of
                             None \<Rightarrow> Some (Deny BR001 P_FLOOR_UNAVAILABLE)
                           | Some f \<Rightarrow>
                               if \<not> usable_floor f then Some (Deny BR001 P_FLOOR_UNAVAILABLE)
                               else (case effective of
                                   INVALID \<Rightarrow> Some (Deny BR002 POLICY_INPUT_INVALID)
                                 | VALID price \<Rightarrow>
                                     if num_less price (fd_floor_price f)
                                     then Some (Deny BR002 ERR_FLOOR_PRICE_VIOLATION) else None
                                 | ABSENT \<Rightarrow> None)))))
     | _ \<Rightarrow> Some (Deny BR001 ERR_ARBITRARY_PRICING))"

fun limit_routes :: "jobject \<Rightarrow> tenant_parameters option \<Rightarrow>
    ((tenant_parameters \<Rightarrow> jnum option) \<times> string list) list \<Rightarrow> policy_outcome option" where
  "limit_routes payload parameters [] = None"
| "limit_routes payload parameters ((parameter, names) # limits) =
    (case readNumberField payload names of
       ABSENT \<Rightarrow> limit_routes payload parameters limits
     | INVALID \<Rightarrow> Some (Route REQUIRE_HUMAN_APPROVAL BR007)
     | VALID governed \<Rightarrow>
         (case Option.bind parameters parameter of
            None \<Rightarrow> Some (Route REQUIRE_HUMAN_APPROVAL BR007)
          | Some approved \<Rightarrow>
              if \<not> is_finite approved then Some (Route REQUIRE_HUMAN_APPROVAL BR007)
              else if num_less approved governed then Some (Route LIMIT_EXCEEDED BR007)
              else limit_routes payload parameters limits))"

definition checkAutonomyLimits :: "string \<Rightarrow> jobject \<Rightarrow> (string \<Rightarrow> tenant_parameters option) option \<Rightarrow>
    policy_outcome option" where
  "checkAutonomyLimits tenant payload tenantPolicy =
    limit_routes payload (Option.bind tenantPolicy (\<lambda>get. get tenant)) AUTONOMY_LIMITS"

end
