(* ===== verification/Enforcement.thy ===== *)
theory Enforcement
  imports RuleChecks ChainPrimitives CanonicalJson
begin

text \<open>
  The policy enforcement point (\<open>packages/core-engine/src/policy/PolicyEnforcementPoint.ts\<close>). Every path
  of \<open>enforce\<close> ends in one call of \<open>settle\<close>: \<open>evaluate\<close> computes that call's arguments, \<open>settle\<close> the
  decision and the calls made on the audit sink, the approval store and the autonomy port, in order.
\<close>

record evaluation_base =
  eb_tenant_id :: string
  eb_agent_id :: string
  eb_skill_id :: string
  eb_tool_name :: string
  eb_run_id :: string
  eb_request_id :: string
  eb_correlation_id :: string
  eb_evaluated_at :: string
  eb_payload_sha256 :: "string option"
  eb_effect_key :: "string option"
  eb_claimed_approval_id :: "string option"

record authority_facts =
  af_granted :: "authority_level option"
  af_requirement :: "authority_level option"
  af_source :: "requirement_source option"

definition NO_AUTHORITY :: authority_facts where
  "NO_AUTHORITY = \<lparr>af_granted = None, af_requirement = None, af_source = None\<rparr>"

subsection \<open>Guards of other modules\<close>

definition assertNoHypothesisPromotion :: "write_target \<Rightarrow> epistemic_class \<Rightarrow> unit result" where
  "assertNoHypothesisPromotion target source =
    (if target \<noteq> FactTarget \<or> source = FACT then Inr ()
     else Inl (OrchestratorError ''HYPOTHESIS_PROMOTION_REJECTED''))"

subsection \<open>The applicable checks\<close>

definition consent_denial :: "pep \<Rightarrow> string \<Rightarrow> string \<Rightarrow> policy_outcome option" where
  "consent_denial pe tenant customer =
    (if customer = [] then Some (Deny BR004 IDENTITY_UNVERIFIED)
     else case pe_consent pe of
         None \<Rightarrow> Some (Deny BR004 CONSENT_REQUIRED)
       | Some getConsent \<Rightarrow>
           (case (case getConsent tenant customer of Inl _ \<Rightarrow> None | Inr c \<Rightarrow> c) of
              None \<Rightarrow> Some (Deny BR004 CONSENT_REQUIRED)
            | Some c \<Rightarrow>
                if \<not> cs_consent_marketing c \<or> cs_suppression_active c
                then Some (Deny BR004 CONSENT_REQUIRED) else None))"

text \<open>\<open>a ?? b\<close> on refusals: the first check that answers.\<close>

definition first_of :: "'a option \<Rightarrow> 'a option \<Rightarrow> 'a option" where
  "first_of a b = (case a of Some x \<Rightarrow> Some x | None \<Rightarrow> b)"

definition runChecks :: "pep \<Rightarrow> security_context \<Rightarrow> registry_skill \<Rightarrow> action_proposal \<Rightarrow> string option \<Rightarrow>
    policy_outcome option" where
  "runChecks pe context skill proposal effect_key =
    (let tenant = trim (sc_tenant_id context);
         customer = trimmed (sc_verified_customer_id context);
         payload = pa_payload proposal in
     if \<not> succeeds (assertNoHypothesisPromotion (rs_write_target skill) (rs_epistemic_class skill))
     then Some (Deny PEP_EPISTEMIC HYPOTHESIS_PROMOTION_REJECTED)
     else if rs_requires_verified_identity skill \<and> customer = []
     then Some (Deny PEP_BINDING IDENTITY_UNVERIFIED)
     else if sc_takeover_active context \<and> rs_mutating skill
     then Some (Deny PEP_TAKEOVER HUMAN_TAKEOVER)
     else first_of (if rs_requires_consent skill then consent_denial pe tenant customer else None)
       (first_of (if rs_price_bearing skill
                  then checkPrice tenant (rs_mutating skill) payload (pe_authoritativeSource pe) (pe_priceFloor pe)
                  else None)
         (if rs_mutating skill \<and> effect_key = None then Some (Deny BR005 EFFECT_KEY_REQUIRED)
          else let retry = readNumberField payload RETRY_ATTEMPT_FIELDS in
          if retry = INVALID then Some (Deny BR006 POLICY_INPUT_INVALID)
          else if (case retry of VALID n \<Rightarrow> num_less (Fin 0) n | _ \<Rightarrow> False)
               \<and> rs_mutating skill \<and> \<not> rs_idempotent skill
          then Some (Deny BR006 IDEMPOTENCY_CONFLICT)
          else checkAutonomyLimits tenant payload (pe_tenantPolicy pe))))"

definition auditPrecondition :: "pep \<Rightarrow> bool \<Rightarrow> policy_outcome option" where
  "auditPrecondition pe requiresSigning =
    (if pe_audit pe = None then Some (Deny BR010 EVIDENCE_REQUIRED)
     else if \<not> requiresSigning then None
     else if \<not> succeeds (requireAuditHmacSecret (pe_auditSecret pe) (pe_envSecret pe))
     then Some (Deny BR010 AUDIT_SECRET_MISSING) else None)"

subsection \<open>Evaluation\<close>

text \<open>
  Stage 3, the registry admission: the refusal, or the skill, its requirement folded with the one the
  proposal declares, and the verdict of the authority gate.
\<close>

definition admission :: "pep \<Rightarrow> security_context \<Rightarrow> action_proposal \<Rightarrow>
    policy_outcome + (registry_skill \<times> authority_level \<times> authority_level \<times> authority_decision)" where
  "admission pe context proposal =
    (case pe_getSkill pe (trim (pa_skill_id proposal)) of
       None \<Rightarrow> Inl (Deny BR008 UNKNOWN_SKILL)
     | Some skill \<Rightarrow>
         let agent_id = trim (sc_agent_id context) in
         (case (if agent_id = [] then None else pe_getAgent pe agent_id (sc_tenant_id context)) of
            None \<Rightarrow> Inl (Deny BR008 UNKNOWN_AGENT)
          | Some agent \<Rightarrow>
              if \<not> list_ex (\<lambda>allowed. allowed = agent_id) (rs_allowed_agents skill)
              then Inl (Deny BR008 UNAUTHORIZED_AGENT)
              else (case level_of (JStr (rs_required_authority skill)) of
                  None \<Rightarrow> Inl (Deny BR008 (GateRefusal INVALID_AUTHORITY_REQUIREMENT))
                | Some registered \<Rightarrow>
                    if pa_required_authority proposal = JUndef
                    then Inr (skill, registered, registered,
                         evaluateAuthorityVerdict (JStr (ra_assigned_authority agent)) (JStr (level_label registered)))
                    else (case level_of (pa_required_authority proposal) of
                        None \<Rightarrow> Inl (Deny BR008 (GateRefusal INVALID_AUTHORITY_REQUIREMENT))
                      | Some declared \<Rightarrow>
                          let folded = strictestRequirement registered declared in
                          Inr (skill, registered, folded,
                            evaluateAuthorityVerdict (JStr (ra_assigned_authority agent))
                              (JStr (level_label folded)))))))"

text \<open>Stages 4 to 6: what is decided for an admitted action, before its audit intent is written.\<close>

definition route_or_permit :: "pep \<Rightarrow> registry_skill \<Rightarrow> authority_level \<Rightarrow> authority_decision \<Rightarrow> bool \<Rightarrow>
    policy_outcome option \<Rightarrow> policy_outcome" where
  "route_or_permit pe skill folded verdict claimed checked =
    (if claimed \<and> folded \<noteq> AUTH4 then Deny BR007 APPROVAL_BINDING_INVALID
     else if claimed \<and> checked \<noteq> None then Deny BR007 APPROVAL_BINDING_INVALID
     else let route = (if claimed then None
             else if ad_verdict verdict = AWAITING_HUMAN_APPROVAL then Some (Route REQUIRE_HUMAN_APPROVAL BR007)
             else checked) in
       case (if rs_mutating skill \<or> route \<noteq> None then auditPrecondition pe (rs_mutating skill) else None) of
         Some refusal \<Rightarrow> refusal
       | None \<Rightarrow> (case route of Some r \<Rightarrow> r | None \<Rightarrow> Permit))"

definition decide :: "pep \<Rightarrow> security_context \<Rightarrow> action_proposal \<Rightarrow> evaluation_base \<Rightarrow> registry_skill \<Rightarrow>
    authority_level \<Rightarrow> authority_decision \<Rightarrow> policy_outcome" where
  "decide pe context proposal base skill folded verdict =
    (if ad_verdict verdict = DENIED
     then Deny BR008 (GateRefusal (case ad_errorCode verdict of Some c \<Rightarrow> c | None \<Rightarrow> INVALID_CLEARANCE))
     else if (case pe_injectionDetector pe of None \<Rightarrow> False | Some scan \<Rightarrow> scan (pa_payload proposal))
     then Deny BR009 PROMPT_INJECTION_BLOCKED
     else let checked = runChecks pe context skill proposal (eb_effect_key base) in
     case checked of
       Some (Deny r c) \<Rightarrow> Deny r c
     | _ \<Rightarrow> route_or_permit pe skill folded verdict (eb_claimed_approval_id base \<noteq> None) checked)"

definition initial_base :: "string \<Rightarrow> security_context \<Rightarrow> action_proposal \<Rightarrow> evaluation_base" where
  "initial_base now context proposal =
    \<lparr>eb_tenant_id = sc_tenant_id context, eb_agent_id = sc_agent_id context,
     eb_skill_id = pa_skill_id proposal, eb_tool_name = pa_tool_name proposal,
     eb_run_id = sc_run_id context, eb_request_id = sc_request_id context,
     eb_correlation_id = sc_correlation_id context, eb_evaluated_at = now,
     eb_payload_sha256 = None, eb_effect_key = None, eb_claimed_approval_id = None\<rparr>"

definition evaluate :: "runtime \<Rightarrow> pep \<Rightarrow> string \<Rightarrow> security_context \<Rightarrow> action_proposal \<Rightarrow>
    evaluation_base \<times> authority_facts \<times> policy_outcome" where
  "evaluate rt pe now context proposal =
    (let initial = initial_base now context proposal;
         claimed = map_option trim (pa_approval_id proposal) in
     if claimed = Some [] then (initial, NO_AUTHORITY, Deny BR007 APPROVAL_BINDING_INVALID)
     else if blank (sc_tenant_id context)
     then (initial, NO_AUTHORITY, Deny PEP_BINDING TENANT_CONTEXT_REQUIRED)
     else case sha256CanonicalJson rt (JObj (pa_payload proposal)) of
         Inl _ \<Rightarrow> (initial, NO_AUTHORITY, Deny PEP_BINDING POLICY_INPUT_INVALID)
       | Inr payload_sha256 \<Rightarrow>
           let base = initial\<lparr>eb_claimed_approval_id := claimed, eb_payload_sha256 := Some payload_sha256,
                 eb_effect_key := stringValue (pa_payload proposal) EFFECT_KEY_FIELDS\<rparr> in
           case checkBinding context proposal (pe_getAgent pe) of
             Some refusal \<Rightarrow> (base, NO_AUTHORITY, refusal)
           | None \<Rightarrow>
               (case admission pe context proposal of
                  Inl refusal \<Rightarrow> (base, NO_AUTHORITY, refusal)
                | Inr (skill, registered, folded, verdict) \<Rightarrow>
                    (base,
                     \<lparr>af_granted = ad_granted verdict, af_requirement = ad_required verdict,
                      af_source = Some (if folded = registered then FromRegistry else FromProposal)\<rparr>,
                     decide pe context proposal base skill folded verdict)))"

subsection \<open>Durability: the audit intent, the approval row, the autonomy annotation\<close>

definition buildDecision :: "evaluation_base \<Rightarrow> authority_facts \<Rightarrow> policy_outcome \<Rightarrow> string option \<Rightarrow>
    audit_status \<Rightarrow> policy_decision" where
  "buildDecision base authority outcome ticket status =
    (let common = (\<lambda>verdict code authorized rule err ticket.
       \<lparr>pd_verdict = verdict, pd_decisionCode = code, pd_authorized = authorized, pd_ruleId = rule,
        pd_errorCode = err, pd_autonomyWorkflow = None, pd_tenantId = eb_tenant_id base,
        pd_agentId = eb_agent_id base, pd_skillId = eb_skill_id base, pd_runId = eb_run_id base,
        pd_correlationId = eb_correlation_id base, pd_toolName = eb_tool_name base,
        pd_grantedAuthority = af_granted authority, pd_resolvedRequirement = af_requirement authority,
        pd_requirementSource = af_source authority, pd_approvalTicketId = ticket,
        pd_effectKey = eb_effect_key base, pd_payloadSha256 = eb_payload_sha256 base,
        pd_evaluatedAt = eb_evaluated_at base, pd_auditStatus = status\<rparr>) in
     case outcome of
       Deny rule err \<Rightarrow> common DENIED DENY_PROHIBITED False (Some rule) (Some err) None
     | Route code rule \<Rightarrow> common AWAITING_HUMAN_APPROVAL code False (Some rule) None ticket
     | Permit \<Rightarrow> common AUTO_APPROVED PERMIT True None None None)"

definition audit_intent :: "policy_decision \<Rightarrow> audit_record" where
  "audit_intent d =
    \<lparr>ar_tenant_id = pd_tenantId d, ar_run_id = pd_runId d, ar_correlation_id = pd_correlationId d,
     ar_agent_id = pd_agentId d, ar_skill_id = pd_skillId d, ar_tool_name = pd_toolName d,
     ar_authority = pd_resolvedRequirement d, ar_verdict = pd_verdict d,
     ar_decision_code = pd_decisionCode d, ar_rule_id = pd_ruleId d, ar_error_code = pd_errorCode d,
     ar_approval_id = pd_approvalTicketId d, ar_effect_key = pd_effectKey d,
     ar_payload_sha256 = pd_payloadSha256 d, ar_occurred_at = pd_evaluatedAt d\<rparr>"

definition appendAudit :: "pep \<Rightarrow> policy_decision \<Rightarrow> audit_status \<times> pep_event list" where
  "appendAudit pe decision =
    (case pe_audit pe of
       None \<Rightarrow> (NOT_APPLICABLE, [])
     | Some sink \<Rightarrow>
         (case sink (audit_intent decision) of
            Inl err \<Rightarrow> (AUDIT_FAILED, [AuditAppend (audit_intent decision) (Inl err)])
          | Inr _ \<Rightarrow> (RECORDED, [AuditAppend (audit_intent decision) (Inr ())])))"

definition pending_of :: "evaluation_base \<Rightarrow> string \<Rightarrow> enforcement_code \<Rightarrow> pending_request" where
  "pending_of base digest code =
    \<lparr>pq_tenant_id = trim (eb_tenant_id base), pq_run_id = eb_run_id base,
     pq_request_id = eb_request_id base, pq_skill_id = eb_skill_id base,
     pq_agent_id = trim (eb_agent_id base), pq_effect_key = eb_effect_key base,
     pq_payload_sha256 = digest, pq_route = code, pq_created_at = eb_evaluated_at base\<rparr>"

definition createPendingApproval :: "pep \<Rightarrow> evaluation_base \<Rightarrow> enforcement_code \<Rightarrow>
    (policy_outcome + string) \<times> pep_event list" where
  "createPendingApproval pe base code =
    (case eb_payload_sha256 base of
       None \<Rightarrow> (Inl (Deny BR007 APPROVAL_QUEUE_UNAVAILABLE), [])
     | Some digest \<Rightarrow>
         let request = pending_of base digest code; answer = pe_approvals pe request in
         (case answer of
            Inl _ \<Rightarrow> Inl (Deny BR007 APPROVAL_QUEUE_UNAVAILABLE)
          | Inr approval_id \<Rightarrow>
              if blank approval_id then Inl (Deny BR007 APPROVAL_QUEUE_UNAVAILABLE) else Inr approval_id,
          [CreatePending request answer]))"

definition applyAutonomy :: "pep \<Rightarrow> policy_decision \<Rightarrow> policy_decision \<times> pep_event list" where
  "applyAutonomy pe decision =
    (case pe_autonomy pe of
       None \<Rightarrow> (decision, [])
     | Some admit \<Rightarrow>
         let skill = pe_getSkill pe (pd_skillId decision);
             request = \<lparr>aq_tenant_id = pd_tenantId decision, aq_skill_id = pd_skillId decision,
               aq_policy_version = trimmed (Option.bind skill rs_policy_version),
               aq_required_authority = Some (trimmed (map_option rs_required_authority skill)),
               aq_safety = no_safety, aq_nested_safety = None\<rparr>;
             answer = admit request in
         (if pd_verdict decision \<noteq> AUTO_APPROVED then decision
          else decision\<lparr>pd_autonomyWorkflow :=
            Some (case answer of Inl _ \<Rightarrow> PARKED_DRAFT | Inr workflow \<Rightarrow> workflow)\<rparr>,
          [Admit request answer]))"

text \<open>Running a step after the calls already made.\<close>

definition after :: "pep_event list \<Rightarrow> 'a \<times> pep_event list \<Rightarrow> 'a \<times> pep_event list" where
  "after evs r = (fst r, evs @ snd r)"

definition settle :: "pep \<Rightarrow> evaluation_base \<Rightarrow> authority_facts \<Rightarrow> policy_outcome \<Rightarrow>
    policy_decision \<times> pep_event list" where
  "settle pe base authority outcome =
    (case outcome of
       Route code rule \<Rightarrow>
         let (intent_status, e1) = appendAudit pe (buildDecision base authority outcome None NOT_APPLICABLE) in
         if intent_status = AUDIT_FAILED
         then after e1 (applyAutonomy pe
                (buildDecision base authority (Deny BR010 AUDIT_UNAVAILABLE) None AUDIT_FAILED))
         else let (queued, e2) = createPendingApproval pe base code in
           (case queued of
              Inl refusal \<Rightarrow>
                let (status, e3) = appendAudit pe (buildDecision base authority refusal None NOT_APPLICABLE) in
                after (e1 @ e2 @ e3) (applyAutonomy pe (buildDecision base authority refusal None status))
            | Inr approval_id \<Rightarrow>
                after (e1 @ e2) (applyAutonomy pe
                  (buildDecision base authority outcome (Some approval_id) intent_status)))
     | _ \<Rightarrow>
         let provisional = buildDecision base authority outcome (eb_claimed_approval_id base) NOT_APPLICABLE;
             (status, e1) = appendAudit pe provisional in
         if outcome = Permit \<and> status = AUDIT_FAILED
         then after e1 (applyAutonomy pe
                (buildDecision base authority (Deny BR010 AUDIT_UNAVAILABLE) None AUDIT_FAILED))
         else after e1 (applyAutonomy pe (provisional\<lparr>pd_auditStatus := status\<rparr>)))"

definition enforce :: "runtime \<Rightarrow> pep \<Rightarrow> string \<Rightarrow> security_context \<Rightarrow> action_proposal \<Rightarrow>
    policy_decision \<times> pep_event list" where
  "enforce rt pe now context proposal =
    (case evaluate rt pe now context proposal of
       (base, facts, outcome) \<Rightarrow> settle pe base facts outcome)"

end
