(* ===== verification/PolicyProperties.thy ===== *)
theory PolicyProperties
  imports Enforcement
begin

text \<open>
  What the policy enforcement point guarantees: what a permit implies, prohibited actions, the order
  of the audit intent and the approval row, the price floor, the autonomy annotation; and the limits
  of the payload readers.
\<close>

subsection \<open>Settling\<close>

lemma applyAutonomy_keeps [simp]:
  "pd_verdict (fst (applyAutonomy pe d)) = pd_verdict d"
  "pd_errorCode (fst (applyAutonomy pe d)) = pd_errorCode d"
  "pd_approvalTicketId (fst (applyAutonomy pe d)) = pd_approvalTicketId d"
  "pd_auditStatus (fst (applyAutonomy pe d)) = pd_auditStatus d"
  by (simp_all add: applyAutonomy_def Let_def split: option.split)

lemma applyAutonomy_erased [simp]:
  "(fst (applyAutonomy pe d))\<lparr>pd_autonomyWorkflow := None\<rparr> = d\<lparr>pd_autonomyWorkflow := None\<rparr>"
  by (simp add: applyAutonomy_def Let_def split: option.split)

lemma applyAutonomy_trace [simp]:
  "CreatePending q a \<notin> set (snd (applyAutonomy pe d))"
  "AuditAppend r s \<notin> set (snd (applyAutonomy pe d))"
  by (simp_all add: applyAutonomy_def Let_def split: option.split)

lemma fst_after [simp]: "fst (after evs r) = fst r"
  by (simp add: after_def)

lemma snd_after [simp]: "snd (after evs r) = evs @ snd r"
  by (simp add: after_def)

lemma build_verdict [simp]:
  "pd_verdict (buildDecision b f (Deny r c) t s) = DENIED"
  "pd_verdict (buildDecision b f (Route k r) t s) = AWAITING_HUMAN_APPROVAL"
  "pd_verdict (buildDecision b f Permit t s) = AUTO_APPROVED"
  "pd_auditStatus (buildDecision b f x t s) = s"
  "pd_payloadSha256 (buildDecision b f x t s) = eb_payload_sha256 b"
  by (simp_all add: buildDecision_def Let_def split: policy_outcome.split)

lemma appendAudit_cases:
  obtains "pe_audit pe = None" "appendAudit pe d = (NOT_APPLICABLE, [])"
  | sink err where "pe_audit pe = Some sink" "sink (audit_intent d) = Inl err"
      "appendAudit pe d = (AUDIT_FAILED, [AuditAppend (audit_intent d) (Inl err)])"
  | sink where "pe_audit pe = Some sink" "sink (audit_intent d) = Inr ()"
      "appendAudit pe d = (RECORDED, [AuditAppend (audit_intent d) (Inr ())])"
proof (cases "pe_audit pe")
  case None
  then show ?thesis using that(1) by (simp add: appendAudit_def)
next
  case (Some sink)
  then show ?thesis using that(2,3) by (cases "sink (audit_intent d)") (auto simp: appendAudit_def)
qed

lemma appendAudit_trace [simp]: "CreatePending q a \<notin> set (snd (appendAudit pe d))"
  by (cases rule: appendAudit_cases [of pe d]) simp_all

lemma settle_deny:
  "pd_verdict (fst (settle pe b f (Deny r c))) = DENIED"
  "CreatePending q a \<notin> set (snd (settle pe b f (Deny r c)))"
  by (simp_all add: settle_def split_def Let_def)

lemma settle_permit:
  "pd_verdict (fst (settle pe b f Permit)) =
     (if fst (appendAudit pe (buildDecision b f Permit (eb_claimed_approval_id b) NOT_APPLICABLE)) = AUDIT_FAILED
      then DENIED else AUTO_APPROVED)"
  "CreatePending q a \<notin> set (snd (settle pe b f Permit))"
  by (simp_all add: settle_def split_def Let_def)

lemma createPending_denial: "fst (createPendingApproval pe b k) = Inl x \<Longrightarrow> \<exists>r c. x = Deny r c"
  by (auto simp: createPendingApproval_def Let_def split: option.splits sum.splits if_splits)

lemma settle_route:
  assumes "appendAudit pe (buildDecision b f (Route k r) None NOT_APPLICABLE) = (s, e1)"
  shows "settle pe b f (Route k r) =
    (if s = AUDIT_FAILED
     then after e1 (applyAutonomy pe (buildDecision b f (Deny BR010 AUDIT_UNAVAILABLE) None AUDIT_FAILED))
     else case createPendingApproval pe b k of
        (Inl x, e2) \<Rightarrow>
          after (e1 @ e2 @ snd (appendAudit pe (buildDecision b f x None NOT_APPLICABLE)))
            (applyAutonomy pe (buildDecision b f x None
              (fst (appendAudit pe (buildDecision b f x None NOT_APPLICABLE)))))
      | (Inr i, e2) \<Rightarrow>
          after (e1 @ e2) (applyAutonomy pe (buildDecision b f (Route k r) (Some i) s)))"
  by (simp add: settle_def assms split_def Let_def split: sum.split)

lemma settle_route_verdict: "pd_verdict (fst (settle pe b f (Route k r))) \<noteq> AUTO_APPROVED"
proof -
  obtain s e1 where a: "appendAudit pe (buildDecision b f (Route k r) None NOT_APPLICABLE) = (s, e1)"
    by fastforce
  obtain o1 e2 where c: "createPendingApproval pe b k = (o1, e2)" by fastforce
  show ?thesis
  proof (cases o1)
    case (Inl x)
    then obtain r' c' where "x = Deny r' c'" using createPending_denial [of pe b k x] c by auto
    then show ?thesis by (simp add: settle_route [OF a] c Inl)
  next
    case (Inr i)
    then show ?thesis by (simp add: settle_route [OF a] c)
  qed
qed

text \<open>A pending row is asked for only after the intent to route was recorded, and binds its digest.\<close>

lemma settle_pending:
  assumes "CreatePending q a \<in> set (snd (settle pe b f x))" and "pe_audit pe \<noteq> None"
  shows "\<exists>i rest. snd (settle pe b f x) = AuditAppend i (Inr ()) # CreatePending q a # rest
    \<and> ar_verdict i = AWAITING_HUMAN_APPROVAL \<and> ar_payload_sha256 i = Some (pq_payload_sha256 q)"
proof (cases x)
  case (Route k r)
  let ?d = "buildDecision b f (Route k r) None NOT_APPLICABLE"
  obtain o1 e2 where c: "createPendingApproval pe b k = (o1, e2)" by fastforce
  show ?thesis
  proof (cases rule: appendAudit_cases [of pe ?d])
    case 1
    then show ?thesis using assms(2) by simp
  next
    case (2 sink err)
    then show ?thesis using assms(1) by (simp add: Route settle_route [OF 2(3)])
  next
    case (3 sink)
    from assms(1) have "CreatePending q a \<in> set e2"
      by (cases o1) (simp_all add: Route settle_route [OF 3(3)] c)
    then have e2: "e2 = [CreatePending q a]" and d: "eb_payload_sha256 b = Some (pq_payload_sha256 q)"
      using c by (auto simp: createPendingApproval_def Let_def pending_of_def split: option.splits)
    show ?thesis
      by (cases o1) (simp_all add: Route settle_route [OF 3(3)] c e2 d audit_intent_def)
  qed
qed (use assms in \<open>simp_all add: settle_deny settle_permit\<close>)

subsection \<open>Evaluating\<close>

fun is_deny :: "policy_outcome \<Rightarrow> bool" where
  "is_deny (Deny _ _) = True"
| "is_deny _ = False"

lemma limit_routes_range: "limit_routes payload ps ls = Some x \<Longrightarrow> \<exists>k r. x = Route k r"
  by (induction ls) (auto split: field_read.splits option.splits if_splits)

lemma checkAutonomyLimits_range: "checkAutonomyLimits t payload tp = Some x \<Longrightarrow> \<exists>k r. x = Route k r"
  by (auto simp: checkAutonomyLimits_def dest: limit_routes_range)

lemma checkPrice_range: "checkPrice t m payload src fl = Some x \<Longrightarrow> \<exists>r c. x = Deny r c"
  by (auto simp: checkPrice_def Let_def split: field_read.splits option.splits sum.splits if_splits)

lemma consent_range: "consent_denial pe t c = Some x \<Longrightarrow> \<exists>r k. x = Deny r k"
  by (auto simp: consent_denial_def split: option.splits sum.splits if_splits)

lemma first_of_simps [simp]: "first_of None b = b" "first_of (Some x) b = Some x"
  by (simp_all add: first_of_def)

text \<open>What holds of an action whose checks do not refuse it.\<close>

lemma runChecks_not_refused:
  assumes "\<And>r c. runChecks pe context skill proposal key \<noteq> Some (Deny r c)"
  shows "\<not> (sc_takeover_active context \<and> rs_mutating skill)"
    and "rs_mutating skill \<Longrightarrow> key \<noteq> None"
    and "rs_price_bearing skill \<Longrightarrow> checkPrice (trim (sc_tenant_id context)) (rs_mutating skill)
      (pa_payload proposal) (pe_authoritativeSource pe) (pe_priceFloor pe) = None"
    and "rs_requires_consent skill \<Longrightarrow>
      consent_denial pe (trim (sc_tenant_id context)) (trimmed (sc_verified_customer_id context)) = None"
    and "rs_write_target skill = FactTarget \<Longrightarrow> rs_epistemic_class skill = FACT"
    and "runChecks pe context skill proposal key
      = checkAutonomyLimits (trim (sc_tenant_id context)) (pa_payload proposal) (pe_tenantPolicy pe)"
proof -
  let ?t = "trim (sc_tenant_id context)" and ?c = "trimmed (sc_verified_customer_id context)"
  let ?k = "runChecks pe context skill proposal key"
  let ?price = "checkPrice ?t (rs_mutating skill) (pa_payload proposal) (pe_authoritativeSource pe) (pe_priceFloor pe)"
  note base = runChecks_def Let_def
  have ok: "succeeds (assertNoHypothesisPromotion (rs_write_target skill) (rs_epistemic_class skill))"
  proof (rule ccontr)
    assume "\<not> succeeds (assertNoHypothesisPromotion (rs_write_target skill) (rs_epistemic_class skill))"
    then have "?k = Some (Deny PEP_EPISTEMIC HYPOTHESIS_PROMOTION_REJECTED)" by (simp add: base)
    then show False using assms by blast
  qed
  then show e: "rs_write_target skill = FactTarget \<Longrightarrow> rs_epistemic_class skill = FACT"
    by (simp add: assertNoHypothesisPromotion_def split: if_splits)
  have i: "\<not> (rs_requires_verified_identity skill \<and> ?c = [])"
  proof
    assume "rs_requires_verified_identity skill \<and> ?c = []"
    then have "?k = Some (Deny PEP_BINDING IDENTITY_UNVERIFIED)" by (simp add: base ok)
    then show False using assms by blast
  qed
  show h: "\<not> (sc_takeover_active context \<and> rs_mutating skill)"
  proof
    assume "sc_takeover_active context \<and> rs_mutating skill"
    then have "?k = Some (Deny PEP_TAKEOVER HUMAN_TAKEOVER)" using i by (simp add: base ok)
    then show False using assms by blast
  qed
  have eq: "?k = first_of (if rs_requires_consent skill then consent_denial pe ?t ?c else None)
      (first_of (if rs_price_bearing skill then ?price else None)
        (if rs_mutating skill \<and> key = None then Some (Deny BR005 EFFECT_KEY_REQUIRED)
          else let retry = readNumberField (pa_payload proposal) RETRY_ATTEMPT_FIELDS in
          if retry = INVALID then Some (Deny BR006 POLICY_INPUT_INVALID)
          else if (case retry of VALID n \<Rightarrow> num_less (Fin 0) n | _ \<Rightarrow> False)
               \<and> rs_mutating skill \<and> \<not> rs_idempotent skill
          then Some (Deny BR006 IDEMPOTENCY_CONFLICT)
          else checkAutonomyLimits ?t (pa_payload proposal) (pe_tenantPolicy pe)))"
    unfolding base using ok i h by argo
  show c: "consent_denial pe ?t ?c = None" if "rs_requires_consent skill"
  proof (rule ccontr)
    assume "consent_denial pe ?t ?c \<noteq> None"
    then obtain r k where "consent_denial pe ?t ?c = Some (Deny r k)" using consent_range by blast
    then have "?k = Some (Deny r k)" using that by (simp add: eq)
    then show False using assms by blast
  qed
  show p: "?price = None" if "rs_price_bearing skill"
  proof (rule ccontr)
    assume "?price \<noteq> None"
    then obtain r k where "?price = Some (Deny r k)" using checkPrice_range by blast
    then have "?k = Some (Deny r k)" using that c by (simp add: eq)
    then show False using assms by blast
  qed
  show m: "key \<noteq> None" if "rs_mutating skill"
  proof
    assume "key = None"
    then have "?k = Some (Deny BR005 EFFECT_KEY_REQUIRED)" using that c p unfolding eq by simp
    then show False using assms by blast
  qed
  have "(if rs_requires_consent skill then consent_denial pe ?t ?c else None) = None"
    "(if rs_price_bearing skill then ?price else None) = None" "\<not> (rs_mutating skill \<and> key = None)"
    using c p m by auto
  note eq = eq [unfolded this first_of_simps if_False]
  have "?k \<noteq> Some (Deny BR006 POLICY_INPUT_INVALID)" "?k \<noteq> Some (Deny BR006 IDEMPOTENCY_CONFLICT)"
    using assms by blast+
  then show "?k = checkAutonomyLimits ?t (pa_payload proposal) (pe_tenantPolicy pe)"
    using m unfolding eq by (auto simp: Let_def split: if_splits)
qed

lemma runChecks_range:
  "runChecks pe context skill proposal key = Some x \<Longrightarrow> (\<exists>r c. x = Deny r c) \<or> (\<exists>k r. x = Route k r)"
proof -
  assume x: "runChecks pe context skill proposal key = Some x"
  show ?thesis
  proof (cases "\<exists>r c. x = Deny r c")
    case False
    then have "\<And>r c. runChecks pe context skill proposal key \<noteq> Some (Deny r c)" using x by auto
    from runChecks_not_refused(6) [OF this] x checkAutonomyLimits_range show ?thesis by metis
  qed simp
qed

lemma auditPrecondition_range: "auditPrecondition pe m = Some x \<Longrightarrow> \<exists>r c. x = Deny r c"
  by (auto simp: auditPrecondition_def split: if_splits)

lemma auditPrecondition_None:
  "auditPrecondition pe m = None \<longleftrightarrow> pe_audit pe \<noteq> None
     \<and> (m \<longrightarrow> succeeds (requireAuditHmacSecret (pe_auditSecret pe) (pe_envSecret pe)))"
  by (auto simp: auditPrecondition_def)

text \<open>What holds of an action that is decided to be permitted or routed.\<close>

lemma decide_not_denied:
  assumes "decide pe context proposal base skill folded v = x" and "\<not> is_deny x"
  shows "ad_verdict v \<noteq> DENIED"
    and "\<And>r c. runChecks pe context skill proposal (eb_effect_key base) \<noteq> Some (Deny r c)"
    and "eb_claimed_approval_id base \<noteq> None \<Longrightarrow> folded = AUTH4 \<and> x = Permit"
    and "rs_mutating skill \<or> x \<noteq> Permit \<Longrightarrow> auditPrecondition pe (rs_mutating skill) = None"
    and "eb_claimed_approval_id base = None \<Longrightarrow> x = Permit \<Longrightarrow> ad_verdict v = AUTO_APPROVED"
proof -
  let ?k = "runChecks pe context skill proposal (eb_effect_key base)"
  let ?claimed = "eb_claimed_approval_id base"
  show d: "ad_verdict v \<noteq> DENIED" using assms by (auto simp: decide_def)
  have i: "\<not> (case pe_injectionDetector pe of None \<Rightarrow> False | Some scan \<Rightarrow> scan (pa_payload proposal))"
    using assms d by (auto simp: decide_def)
  show c: "\<And>r c. ?k \<noteq> Some (Deny r c)"
    using assms d i by (auto simp: decide_def)
  have x: "x = route_or_permit pe skill folded v (?claimed \<noteq> None) ?k"
    using assms(1) d i c by (cases ?k) (auto simp: decide_def Let_def split: policy_outcome.splits)
  show "?claimed \<noteq> None \<Longrightarrow> folded = AUTH4 \<and> x = Permit"
    using x assms(2) auditPrecondition_range [of pe "rs_mutating skill"]
    by (auto simp: route_or_permit_def Let_def split: if_splits option.splits)
  show "auditPrecondition pe (rs_mutating skill) = None" if m: "rs_mutating skill \<or> x \<noteq> Permit"
  proof (rule ccontr)
    assume "auditPrecondition pe (rs_mutating skill) \<noteq> None"
    then obtain r c where y: "auditPrecondition pe (rs_mutating skill) = Some (Deny r c)"
      using auditPrecondition_range by blast
    show False using x assms(2) m y
      by (cases "rs_mutating skill") (auto simp: route_or_permit_def Let_def split: if_splits option.splits)
  qed
  show "ad_verdict v = AUTO_APPROVED" if n: "?claimed = None" and p: "x = Permit"
  proof (rule ccontr)
    assume "ad_verdict v \<noteq> AUTO_APPROVED"
    with d have "ad_verdict v = AWAITING_HUMAN_APPROVAL" by (cases "ad_verdict v") simp_all
    then have r: "x = (case auditPrecondition pe (rs_mutating skill) of
        Some refusal \<Rightarrow> refusal | None \<Rightarrow> Route REQUIRE_HUMAN_APPROVAL BR007)"
      using x n by (simp add: route_or_permit_def split: option.split)
    show False using r p auditPrecondition_range [of pe "rs_mutating skill"] by (auto split: option.splits)
  qed
qed

lemma admission_Inr:
  assumes "admission pe context proposal = Inr (skill, registered, folded, v)"
  obtains agent where "pe_getSkill pe (trim (pa_skill_id proposal)) = Some skill"
    "trim (sc_agent_id context) \<noteq> []"
    "pe_getAgent pe (trim (sc_agent_id context)) (sc_tenant_id context) = Some agent"
    "trim (sc_agent_id context) \<in> set (rs_allowed_agents skill)"
    "rs_required_authority skill = level_label registered"
    "registered \<le> folded" "\<forall>l. level_of (pa_required_authority proposal) = Some l \<longrightarrow> l \<le> folded"
    "v = evaluateAuthorityVerdict (JStr (ra_assigned_authority agent)) (JStr (level_label folded))"
proof -
  obtain agent where s: "pe_getSkill pe (trim (pa_skill_id proposal)) = Some skill"
    and n: "trim (sc_agent_id context) \<noteq> []"
    and a: "pe_getAgent pe (trim (sc_agent_id context)) (sc_tenant_id context) = Some agent"
    and l: "list_ex (\<lambda>allowed. allowed = trim (sc_agent_id context)) (rs_allowed_agents skill)"
    and r: "level_of (JStr (rs_required_authority skill)) = Some registered"
    and f: "pa_required_authority proposal = JUndef \<and> folded = registered
       \<or> (\<exists>d. level_of (pa_required_authority proposal) = Some d \<and> folded = strictestRequirement registered d)"
    and v: "v = evaluateAuthorityVerdict (JStr (ra_assigned_authority agent)) (JStr (level_label folded))"
    using assms by (auto simp: admission_def Let_def split: option.splits if_splits)
  have "trim (sc_agent_id context) \<in> set (rs_allowed_agents skill)" using l by (auto simp: list_ex_iff)
  moreover have "rs_required_authority skill = level_label registered" using r by (simp only: level_of_Some json.inject)
  moreover have "registered \<le> folded" using f by (auto simp: strictestRequirement_max)
  moreover have "\<forall>l. level_of (pa_required_authority proposal) = Some l \<longrightarrow> l \<le> folded"
    using f by (auto simp: strictestRequirement_max)
  ultimately show ?thesis using that s n a v by blast
qed

lemma evaluate_not_denied:
  assumes "evaluate rt pe now context proposal = (b, f, x)" and "\<not> is_deny x"
  obtains skill registered folded v where
    "\<not> blank (sc_tenant_id context)" "checkBinding context proposal (pe_getAgent pe) = None"
    "admission pe context proposal = Inr (skill, registered, folded, v)"
    "x = decide pe context proposal b skill folded v"
    "eb_claimed_approval_id b = map_option trim (pa_approval_id proposal)"
    "map_option trim (pa_approval_id proposal) \<noteq> Some []"
    "eb_effect_key b = stringValue (pa_payload proposal) EFFECT_KEY_FIELDS"
    "\<exists>h. sha256CanonicalJson rt (JObj (pa_payload proposal)) = Inr h \<and> eb_payload_sha256 b = Some h"
proof -
  have bd: "checkBinding context proposal (pe_getAgent pe) = Some y \<Longrightarrow> is_deny y" for y
    by (auto simp: checkBinding_def Let_def split: if_splits)
  have ad: "admission pe context proposal = Inl y \<Longrightarrow> is_deny y" for y
    by (auto simp: admission_def Let_def split: option.splits if_splits)
  note ev = assms(1) [unfolded evaluate_def Let_def]
  have c: "map_option trim (pa_approval_id proposal) \<noteq> Some []" using ev assms(2) by (auto split: if_splits)
  note ev = ev [unfolded if_not_P [OF c]]
  have t: "\<not> blank (sc_tenant_id context)" using ev assms(2) by (auto split: if_splits)
  note ev = ev [unfolded if_not_P [OF t]]
  obtain h where h: "sha256CanonicalJson rt (JObj (pa_payload proposal)) = Inr h"
    using ev assms(2) by (cases "sha256CanonicalJson rt (JObj (pa_payload proposal))") auto
  note ev = ev [unfolded h sum.case]
  have bn: "checkBinding context proposal (pe_getAgent pe) = None"
    using ev assms(2) bd by (cases "checkBinding context proposal (pe_getAgent pe)") auto
  note ev = ev [unfolded bn option.case]
  obtain skill registered folded v where a: "admission pe context proposal = Inr (skill, registered, folded, v)"
    using ev assms(2) ad by (cases "admission pe context proposal") auto
  note ev = ev [unfolded a sum.case prod.case]
  from ev show ?thesis using c h by (intro that [OF t bn a]) auto
qed

lemma gate_not_denied:
  assumes "ad_verdict (evaluateAuthorityVerdict (JStr s) (JStr (level_label r))) \<noteq> DENIED"
  obtains g where "s = level_label g" "g \<le> AUTH3" "r = AUTH4 \<or> r \<le> g"
    "ad_verdict (evaluateAuthorityVerdict (JStr s) (JStr (level_label r))) = AUTO_APPROVED \<longleftrightarrow> r \<le> g"
proof -
  from assms have "isAssignableAuthority (JStr s)" using verdict_bad_grant by blast
  then obtain g where g: "s = level_label g" "g \<le> AUTH3" by (auto simp: isAssignableAuthority_iff)
  have "r = AUTH4 \<Longrightarrow> \<not> r \<le> g" using g(2) by (cases g) (simp_all add: level_order)
  with assms g show ?thesis
    by (intro that [of g]) (auto simp: verdict_levels split: if_splits)
qed

subsection \<open>The guarantees\<close>

text \<open>
  C3: a permit means that the server-bound tenant is present, the skill and the agent are registered, the
  agent is bound to the skill, the stricter of the registered and the declared requirement is covered
  by the assigned grant or is AUTH-4 with a claimed approval, and for a mutating skill that no operator
  holds the session, an effect key is present, a signing secret is configured and the intent was recorded.
\<close>

theorem permit_implies_authority:
  assumes "pd_verdict (fst (enforce rt pe now context proposal)) = AUTO_APPROVED"
  shows "\<exists>skill agent registered folded g.
      \<not> blank (sc_tenant_id context)
    \<and> pe_getSkill pe (trim (pa_skill_id proposal)) = Some skill
    \<and> pe_getAgent pe (trim (sc_agent_id context)) (sc_tenant_id context) = Some agent
    \<and> trim (sc_agent_id context) \<in> set (rs_allowed_agents skill)
    \<and> rs_required_authority skill = level_label registered
    \<and> registered \<le> folded
    \<and> (\<forall>l. level_of (pa_required_authority proposal) = Some l \<longrightarrow> l \<le> folded)
    \<and> ra_assigned_authority agent = level_label g \<and> g \<le> AUTH3
    \<and> (folded \<le> g \<or> folded = AUTH4 \<and> (\<exists>i. pa_approval_id proposal = Some i \<and> \<not> blank i))
    \<and> (rs_mutating skill \<longrightarrow> \<not> sc_takeover_active context
        \<and> stringValue (pa_payload proposal) EFFECT_KEY_FIELDS \<noteq> None
        \<and> succeeds (requireAuditHmacSecret (pe_auditSecret pe) (pe_envSecret pe))
        \<and> pd_auditStatus (fst (enforce rt pe now context proposal)) = RECORDED)"
proof -
  obtain b f x where e: "evaluate rt pe now context proposal = (b, f, x)"
    by (cases "evaluate rt pe now context proposal")
  have x: "x = Permit"
    using assms settle_deny(1) settle_route_verdict by (cases x) (auto simp: enforce_def e)
  then have nd: "\<not> is_deny x" by simp
  from evaluate_not_denied [OF e nd] obtain skill registered folded v where
    t: "\<not> blank (sc_tenant_id context)" and a: "admission pe context proposal = Inr (skill, registered, folded, v)"
    and d: "decide pe context proposal b skill folded v = x"
    and c: "eb_claimed_approval_id b = map_option trim (pa_approval_id proposal)"
      "map_option trim (pa_approval_id proposal) \<noteq> Some []"
    and k: "eb_effect_key b = stringValue (pa_payload proposal) EFFECT_KEY_FIELDS" by metis
  obtain agent where ag: "pe_getSkill pe (trim (pa_skill_id proposal)) = Some skill"
    "pe_getAgent pe (trim (sc_agent_id context)) (sc_tenant_id context) = Some agent"
    "trim (sc_agent_id context) \<in> set (rs_allowed_agents skill)"
    "rs_required_authority skill = level_label registered" "registered \<le> folded"
    "\<forall>l. level_of (pa_required_authority proposal) = Some l \<longrightarrow> l \<le> folded"
    and v: "v = evaluateAuthorityVerdict (JStr (ra_assigned_authority agent)) (JStr (level_label folded))"
    using admission_Inr [OF a] by metis
  note nd4 = decide_not_denied [OF d nd]
  obtain g where g: "ra_assigned_authority agent = level_label g" "g \<le> AUTH3"
    "ad_verdict v = AUTO_APPROVED \<longleftrightarrow> folded \<le> g"
    using gate_not_denied nd4(1) unfolding v by metis
  have cover: "folded \<le> g \<or> folded = AUTH4 \<and> (\<exists>i. pa_approval_id proposal = Some i \<and> \<not> blank i)"
  proof (cases "pa_approval_id proposal")
    case None
    then show ?thesis using nd4(5) x c(1) g(3) by simp
  next
    case (Some i)
    then show ?thesis using nd4(3) c by (simp add: blank_def)
  qed
  have mut: "rs_mutating skill \<longrightarrow> \<not> sc_takeover_active context
      \<and> stringValue (pa_payload proposal) EFFECT_KEY_FIELDS \<noteq> None
      \<and> succeeds (requireAuditHmacSecret (pe_auditSecret pe) (pe_envSecret pe))
      \<and> pd_auditStatus (fst (enforce rt pe now context proposal)) = RECORDED"
  proof
    assume m: "rs_mutating skill"
    then have ap: "pe_audit pe \<noteq> None" "succeeds (requireAuditHmacSecret (pe_auditSecret pe) (pe_envSecret pe))"
      using nd4(4) by (simp_all add: auditPrecondition_None)
    have r: "pd_auditStatus (fst (enforce rt pe now context proposal)) = RECORDED"
      using assms ap(1)
      by (cases rule: appendAudit_cases [of pe "buildDecision b f Permit (eb_claimed_approval_id b) NOT_APPLICABLE"])
        (simp_all add: enforce_def e x settle_def Let_def)
    show "\<not> sc_takeover_active context \<and> stringValue (pa_payload proposal) EFFECT_KEY_FIELDS \<noteq> None
      \<and> succeeds (requireAuditHmacSecret (pe_auditSecret pe) (pe_envSecret pe))
      \<and> pd_auditStatus (fst (enforce rt pe now context proposal)) = RECORDED"
      using runChecks_not_refused(1,2) [OF nd4(2)] m ap(2) r k by auto
  qed
  show ?thesis
    using t ag g(1,2) cover mut
    by (intro exI [of _ skill] exI [of _ agent] exI [of _ registered] exI [of _ folded] exI [of _ g] conjI)
qed

text \<open>
  C4: a prohibited action is never permitted and never queued, whether the registry or the proposal itself
  declares AUTH-5 and whatever approval is claimed.
\<close>

theorem prohibited_action_is_refused:
  assumes "\<exists>skill. pe_getSkill pe (trim (pa_skill_id proposal)) = Some skill \<and> rs_required_authority skill = ''AUTH-5''
    \<or> pa_required_authority proposal = JStr ''AUTH-5''"
  shows "pd_verdict (fst (enforce rt pe now context proposal)) = DENIED
    \<and> CreatePending q a \<notin> set (snd (enforce rt pe now context proposal))"
proof -
  obtain b f x where e: "evaluate rt pe now context proposal = (b, f, x)"
    by (cases "evaluate rt pe now context proposal")
  have "is_deny x"
  proof (rule ccontr)
    assume nd: "\<not> is_deny x"
    from evaluate_not_denied [OF e nd] obtain skill registered folded v where
      ad: "admission pe context proposal = Inr (skill, registered, folded, v)"
      and d: "decide pe context proposal b skill folded v = x" by metis
    obtain agent :: registry_agent where s: "pe_getSkill pe (trim (pa_skill_id proposal)) = Some skill"
      "rs_required_authority skill = level_label registered" "registered \<le> folded"
      and l: "\<forall>l. level_of (pa_required_authority proposal) = Some l \<longrightarrow> l \<le> folded"
      and v: "v = evaluateAuthorityVerdict (JStr (ra_assigned_authority agent)) (JStr (level_label folded))"
      using admission_Inr [OF ad] by metis
    have five: "''AUTH-5'' = level_label r \<longleftrightarrow> r = AUTH5" for r by (cases r) simp_all
    have "AUTH5 \<le> folded"
      using assms s l [rule_format, of AUTH5] five [of registered] by (auto simp: level_of_Some)
    then have "folded = AUTH5" by (cases folded) (simp_all add: level_order)
    moreover obtain g where "folded = AUTH4 \<or> folded \<le> g" "g \<le> AUTH3"
      using gate_not_denied decide_not_denied(1) [OF d nd] unfolding v by metis
    ultimately show False by (cases g) (auto simp: level_order)
  qed
  then obtain r c where "x = Deny r c" by (cases x) auto
  then show ?thesis by (simp add: enforce_def e settle_deny)
qed

text \<open>
  a pending approval is only asked for right after the intent to route was recorded by the audit
  sink, and it binds the digest that intent carries.
\<close>

theorem approval_row_follows_recorded_intent:
  assumes "CreatePending q a \<in> set (snd (enforce rt pe now context proposal))"
  shows "\<exists>i rest. snd (enforce rt pe now context proposal) = AuditAppend i (Inr ()) # CreatePending q a # rest
    \<and> ar_verdict i = AWAITING_HUMAN_APPROVAL \<and> ar_payload_sha256 i = Some (pq_payload_sha256 q)"
proof -
  obtain b f x where e: "evaluate rt pe now context proposal = (b, f, x)"
    by (cases "evaluate rt pe now context proposal")
  have m: "CreatePending q a \<in> set (snd (settle pe b f x))" using assms by (simp add: enforce_def e)
  have nd: "\<not> is_deny x" and np: "x \<noteq> Permit"
    using m settle_deny(2) settle_permit(2) by (cases x; auto)+
  from evaluate_not_denied [OF e nd] obtain skill registered folded v where
    d: "decide pe context proposal b skill folded v = x" by metis
  have "pe_audit pe \<noteq> None" using decide_not_denied(4) [OF d nd] np by (simp add: auditPrecondition_None)
  from settle_pending [OF m this] show ?thesis by (simp add: enforce_def e)
qed

lemma autonomy_selectors:
  "pe_getSkill (pe\<lparr>pe_autonomy := p\<rparr>) = pe_getSkill pe" "pe_getAgent (pe\<lparr>pe_autonomy := p\<rparr>) = pe_getAgent pe"
  "pe_approvals (pe\<lparr>pe_autonomy := p\<rparr>) = pe_approvals pe" "pe_audit (pe\<lparr>pe_autonomy := p\<rparr>) = pe_audit pe"
  "pe_tenantPolicy (pe\<lparr>pe_autonomy := p\<rparr>) = pe_tenantPolicy pe" "pe_consent (pe\<lparr>pe_autonomy := p\<rparr>) = pe_consent pe"
  "pe_authoritativeSource (pe\<lparr>pe_autonomy := p\<rparr>) = pe_authoritativeSource pe"
  "pe_priceFloor (pe\<lparr>pe_autonomy := p\<rparr>) = pe_priceFloor pe"
  "pe_injectionDetector (pe\<lparr>pe_autonomy := p\<rparr>) = pe_injectionDetector pe"
  "pe_auditSecret (pe\<lparr>pe_autonomy := p\<rparr>) = pe_auditSecret pe" "pe_envSecret (pe\<lparr>pe_autonomy := p\<rparr>) = pe_envSecret pe"
  by simp_all

lemma settle_autonomy:
  "(fst (settle (pe\<lparr>pe_autonomy := p1\<rparr>) b f x))\<lparr>pd_autonomyWorkflow := None\<rparr>
     = (fst (settle (pe\<lparr>pe_autonomy := p2\<rparr>) b f x))\<lparr>pd_autonomyWorkflow := None\<rparr>"
proof -
  have a: "appendAudit (pe\<lparr>pe_autonomy := p\<rparr>) d = appendAudit pe d" for d p
    unfolding appendAudit_def autonomy_selectors by (rule refl)
  have c: "createPendingApproval (pe\<lparr>pe_autonomy := p\<rparr>) b k = createPendingApproval pe b k" for k p
    unfolding createPendingApproval_def autonomy_selectors by (rule refl)
  show ?thesis
    by (cases x) (simp_all add: settle_def a c Let_def split_def split: sum.split)
qed

lemma evaluate_autonomy:
  "evaluate rt (pe\<lparr>pe_autonomy := p\<rparr>) now context proposal = evaluate rt pe now context proposal"
  unfolding evaluate_def admission_def decide_def route_or_permit_def auditPrecondition_def runChecks_def
    consent_denial_def autonomy_selectors
  by (rule refl)

text \<open>
  the autonomy port can annotate a decision and nothing else: with any two ports, or none, the
  decision is the same up to the annotation.
\<close>

theorem autonomy_only_annotates:
  "(fst (enforce rt (pe\<lparr>pe_autonomy := p1\<rparr>) now context proposal))\<lparr>pd_autonomyWorkflow := None\<rparr>
     = (fst (enforce rt (pe\<lparr>pe_autonomy := p2\<rparr>) now context proposal))\<lparr>pd_autonomyWorkflow := None\<rparr>"
  by (simp add: enforce_def evaluate_autonomy settle_autonomy split: prod.split)

lemma checkPrice_None:
  assumes "checkPrice tenant m payload source priceFloor = None"
  obtains reference resolve c getFloor fl where
    "readStringField payload CATALOG_REFERENCE_FIELDS = VALID reference"
    "source = Some resolve" "resolve tenant reference = Inr (Some c)" "cr_catalog_ref_id c = reference"
    "priceFloor = Some getFloor" "getFloor tenant reference = Inr (Some fl)" "usable_floor fl"
    "readNumberField payload EFFECTIVE_PRICE_FIELDS \<noteq> INVALID"
    "m \<Longrightarrow> readNumberField payload EFFECTIVE_PRICE_FIELDS \<noteq> ABSENT"
    "\<forall>price. readNumberField payload EFFECTIVE_PRICE_FIELDS = VALID price \<longrightarrow> \<not> num_less price (fd_floor_price fl)"
  using assms
  by (auto simp: checkPrice_def Let_def split: field_read.splits option.splits sum.splits if_splits)

text \<open>
  The price a payload leads with: the first of the three price members it has. The source reads that one
  member and none of the others.
\<close>

definition leading_price :: "jobject \<Rightarrow> json \<Rightarrow> bool" where
  "leading_price payload v \<longleftrightarrow> v \<noteq> JUndef \<and>
     (map_of payload ''effective_price'' = Some v
      \<or> map_of payload ''effective_price'' = None \<and> map_of payload ''offered_price'' = Some v
      \<or> map_of payload ''effective_price'' = None \<and> map_of payload ''offered_price'' = None
          \<and> map_of payload ''proposed_price'' = Some v)"

lemma leading_price_read:
  "leading_price payload v \<Longrightarrow> readNumberField payload EFFECTIVE_PRICE_FIELDS
     = (case v of JNum n \<Rightarrow> if is_finite n then VALID n else INVALID | _ \<Rightarrow> INVALID)"
  by (auto simp: leading_price_def readNumberField_def EFFECTIVE_PRICE_FIELDS_def)

lemma no_leading_price:
  "\<nexists>v. leading_price payload v \<Longrightarrow> readNumberField payload EFFECTIVE_PRICE_FIELDS = ABSENT"
  by (auto simp: leading_price_def readNumberField_def EFFECTIVE_PRICE_FIELDS_def split: option.splits)

text \<open>
  C17: a price-bearing action that is permitted or routed names a catalog reference that the system of
  record resolved to itself, and the owner approved a floor for it, with provenance. The first price member
  of the payload, if there is one, is a finite number not below that floor, and a mutating action has one.
  Later price members are not looked at.
\<close>

theorem leading_price_respects_approved_floor:
  assumes "pd_verdict (fst (enforce rt pe now context proposal)) \<noteq> DENIED"
    and "pe_getSkill pe (trim (pa_skill_id proposal)) = Some skill" and "rs_price_bearing skill"
  shows "\<exists>reference resolve c get fl p.
      readStringField (pa_payload proposal) CATALOG_REFERENCE_FIELDS = VALID reference
    \<and> pe_authoritativeSource pe = Some resolve \<and> resolve (trim (sc_tenant_id context)) reference = Inr (Some c)
    \<and> cr_catalog_ref_id c = reference
    \<and> pe_priceFloor pe = Some get \<and> get (trim (sc_tenant_id context)) reference = Inr (Some fl)
    \<and> fd_owner_approved fl \<and> \<not> blank (fd_floor_source fl) \<and> fd_floor_price fl = Fin p
    \<and> (\<forall>v. leading_price (pa_payload proposal) v \<longrightarrow> (\<exists>q. v = JNum (Fin q) \<and> p \<le> q))
    \<and> (rs_mutating skill \<longrightarrow> (\<exists>v. leading_price (pa_payload proposal) v))"
proof -
  let ?t = "trim (sc_tenant_id context)" and ?pay = "pa_payload proposal"
  obtain b f x where e: "evaluate rt pe now context proposal = (b, f, x)"
    by (cases "evaluate rt pe now context proposal")
  have nd: "\<not> is_deny x" using assms(1) settle_deny(1) by (cases x) (auto simp: enforce_def e)
  from evaluate_not_denied [OF e nd] obtain s registered folded v where
    ad: "admission pe context proposal = Inr (s, registered, folded, v)"
    and d: "decide pe context proposal b s folded v = x" by metis
  have "s = skill" using admission_Inr [OF ad] assms(2) by (metis option.inject)
  with runChecks_not_refused(3) [OF decide_not_denied(2) [OF d nd]] assms(3)
  have "checkPrice ?t (rs_mutating skill) ?pay (pe_authoritativeSource pe) (pe_priceFloor pe) = None" by simp
  then obtain reference resolve c get fl where
    r: "readStringField ?pay CATALOG_REFERENCE_FIELDS = VALID reference"
      "pe_authoritativeSource pe = Some resolve" "resolve ?t reference = Inr (Some c)" "cr_catalog_ref_id c = reference"
      "pe_priceFloor pe = Some get" "get ?t reference = Inr (Some fl)" and u: "usable_floor fl"
    and n: "readNumberField ?pay EFFECTIVE_PRICE_FIELDS \<noteq> INVALID"
      "rs_mutating skill \<Longrightarrow> readNumberField ?pay EFFECTIVE_PRICE_FIELDS \<noteq> ABSENT"
      "\<forall>price. readNumberField ?pay EFFECTIVE_PRICE_FIELDS = VALID price \<longrightarrow> \<not> num_less price (fd_floor_price fl)"
    by (rule checkPrice_None) auto
  obtain p where p: "fd_floor_price fl = Fin p" using u by (cases "fd_floor_price fl") (simp_all add: usable_floor_def)
  have "\<exists>q. v = JNum (Fin q) \<and> p \<le> q" if l: "leading_price ?pay v" for v
  proof -
    obtain m where m: "v = JNum m" "is_finite m" using n(1) leading_price_read [OF l] by (auto split: json.splits if_splits)
    then obtain q where "v = JNum (Fin q)" by (cases m) simp_all
    moreover from this have "\<not> num_less (Fin q) (Fin p)" using n(3) leading_price_read [OF l] p by simp
    ultimately show ?thesis by simp
  qed
  moreover have "rs_mutating skill \<Longrightarrow> \<exists>v. leading_price ?pay v" using n(2) no_leading_price by blast
  ultimately show ?thesis using r u p unfolding usable_floor_def by blast
qed

text \<open>
  when the audit sink refuses every record nothing is permitted and nothing is queued.
\<close>

theorem audit_failure_denies:
  assumes "pe_audit pe = Some sink" and "\<And>r. sink r = Inl (err r)"
  shows "pd_verdict (fst (enforce rt pe now context proposal)) = DENIED
    \<and> CreatePending q a \<notin> set (snd (enforce rt pe now context proposal))"
proof -
  obtain b f x where e: "evaluate rt pe now context proposal = (b, f, x)"
    by (cases "evaluate rt pe now context proposal")
  have ap: "appendAudit pe d = (AUDIT_FAILED, [AuditAppend (audit_intent d) (Inl (err (audit_intent d)))])" for d
    by (simp add: appendAudit_def assms)
  show ?thesis
    by (cases x) (simp_all add: enforce_def e settle_def ap Let_def)
qed

lemma readMember_cong:
  "(\<And>n. n \<in> set names \<Longrightarrow> map_of p' n = map_of p n) \<Longrightarrow> readMember p' names = readMember p names"
  by (induction names) (auto split: option.split)

lemma read_cong:
  assumes "\<And>n. n \<in> set names \<Longrightarrow> map_of p' n = map_of p n"
  shows "readStringField p' names = readStringField p names"
    and "readNumberField p' names = readNumberField p names"
    and "stringValue p' names = stringValue p names"
  using readMember_cong [OF assms] by (simp_all add: readStringField_def readNumberField_def stringValue_def)

lemma limit_routes_cong:
  "(\<And>ns. ns \<in> snd ` set ls \<Longrightarrow> readNumberField p' ns = readNumberField p ns) \<Longrightarrow>
   limit_routes p' ps ls = limit_routes p ps ls"
  by (induction ls) (auto split: field_read.split option.split)

lemmas field_lists = TENANT_ASSERTION_FIELDS_def CUSTOMER_ASSERTION_FIELDS_def TARGET_AGENT_FIELDS_def
  CATALOG_REFERENCE_FIELDS_def EFFECTIVE_PRICE_FIELDS_def RETRY_ATTEMPT_FIELDS_def

text \<open>
  the effective price is the first of its members that is present: the floor is not compared with an
  offered or proposed price when an effective price is present too.
\<close>

theorem price_alias_is_not_checked:
  assumes "map_of payload ''effective_price'' = Some v" and "v \<noteq> JUndef"
    and "k \<in> {''offered_price'', ''proposed_price''}"
  shows "checkPrice tenant m (AList.update k w payload) source priceFloor = checkPrice tenant m payload source priceFloor"
proof -
  have k: "k = ''offered_price'' \<or> k = ''proposed_price''" using assms(3) by simp
  have s: "readStringField (AList.update k w payload) CATALOG_REFERENCE_FIELDS
      = readStringField payload CATALOG_REFERENCE_FIELDS"
    by (rule read_cong(1)) (use k in \<open>auto simp: field_lists map_of_update\<close>)
  have n: "readNumberField (AList.update k w payload) EFFECTIVE_PRICE_FIELDS
      = readNumberField payload EFFECTIVE_PRICE_FIELDS"
    using k assms(1,2) by (elim disjE) (simp_all add: readNumberField_def field_lists map_of_update)
  show ?thesis unfolding checkPrice_def s n by (rule refl)
qed

text \<open>
  likewise a payload that names the bound tenant under tenant_id may name any other tenant under
  tenantId, and a payload whose refund_amount is within the limit may carry any refund_amount_twd.
\<close>

theorem assertion_alias_is_not_checked:
  assumes "map_of (pa_payload proposal) ''tenant_id'' = Some v" and "v \<noteq> JUndef"
    and "map_of (pa_payload proposal) ''refund_amount'' = Some r" and "r \<noteq> JUndef"
    and "proposal' = proposal\<lparr>pa_payload := AList.update ''tenantId'' w
           (AList.update ''refund_amount_twd'' w' (pa_payload proposal))\<rparr>"
  shows "checkBinding context proposal' getAgent = checkBinding context proposal getAgent
    \<and> checkAutonomyLimits tenant (pa_payload proposal') policy = checkAutonomyLimits tenant (pa_payload proposal) policy"
proof -
  let ?p = "pa_payload proposal" and ?p' = "AList.update ''tenantId'' w (AList.update ''refund_amount_twd'' w' (pa_payload proposal))"
  have t: "readStringField ?p' TENANT_ASSERTION_FIELDS = readStringField ?p TENANT_ASSERTION_FIELDS"
    using assms(1,2) by (simp add: readStringField_def field_lists map_of_update)
  have c: "readStringField ?p' CUSTOMER_ASSERTION_FIELDS = readStringField ?p CUSTOMER_ASSERTION_FIELDS"
    by (rule read_cong(1)) (auto simp: field_lists map_of_update)
  have g: "stringValue ?p' TARGET_AGENT_FIELDS = stringValue ?p TARGET_AGENT_FIELDS"
    by (rule read_cong(3)) (auto simp: field_lists map_of_update)
  have r: "readNumberField ?p' [''refund_amount'', ''refund_amount_twd''] = readNumberField ?p [''refund_amount'', ''refund_amount_twd'']"
    using assms(3,4) by (simp add: readNumberField_def map_of_update)
  have o1: "readNumberField ?p' [n] = readNumberField ?p [n]" if "n \<in> {''discount_rate'', ''audience_size'', ''reminder_count''}" for n
    by (rule read_cong(2)) (use that in \<open>auto simp: map_of_update\<close>)
  have l: "limit_routes ?p' ps AUTONOMY_LIMITS = limit_routes ?p ps AUTONOMY_LIMITS" for ps
    by (rule limit_routes_cong) (use r o1 in \<open>auto simp: AUTONOMY_LIMITS_def\<close>)
  have p: "pa_payload proposal' = ?p'" "pa_target_agent_id proposal' = pa_target_agent_id proposal"
    unfolding assms(5) by simp_all
  show ?thesis unfolding checkBinding_def checkAutonomyLimits_def p t c g l by simp
qed

text \<open>
  a negative retry counter is accepted as if it were a first attempt.
\<close>

theorem negative_retry_is_accepted:
  assumes "q < 0" and "map_of payload ''retry_attempt'' = None" and "map_of payload ''attempt'' = None"
  shows "runChecks pe context skill (proposal\<lparr>pa_payload := (''retry_attempt'', JNum (Fin q)) # payload\<rparr>) key
    = runChecks pe context skill (proposal\<lparr>pa_payload := payload\<rparr>) key"
proof -
  let ?p = "(''retry_attempt'', JNum (Fin q)) # payload"
  have s: "readStringField ?p CATALOG_REFERENCE_FIELDS = readStringField payload CATALOG_REFERENCE_FIELDS"
    by (rule read_cong(1)) (auto simp: field_lists)
  have n: "readNumberField ?p EFFECTIVE_PRICE_FIELDS = readNumberField payload EFFECTIVE_PRICE_FIELDS"
    by (rule read_cong(2)) (auto simp: field_lists)
  have o1: "readNumberField ?p ns = readNumberField payload ns"
    if "ns \<in> {[''discount_rate''], [''refund_amount'', ''refund_amount_twd''], [''audience_size''], [''reminder_count'']}" for ns
    by (rule read_cong(2)) (use that in auto)
  have l: "checkAutonomyLimits t ?p tp = checkAutonomyLimits t payload tp" for t tp
    unfolding checkAutonomyLimits_def by (rule limit_routes_cong) (auto simp: AUTONOMY_LIMITS_def intro!: o1)
  have c: "checkPrice t m ?p src fl = checkPrice t m payload src fl" for t m src fl
    unfolding checkPrice_def s n by (rule refl)
  have r: "readNumberField ?p RETRY_ATTEMPT_FIELDS = VALID (Fin q)"
    "readNumberField payload RETRY_ATTEMPT_FIELDS = ABSENT"
    using assms(2,3) by (simp_all add: readNumberField_def RETRY_ATTEMPT_FIELDS_def)
  show ?thesis using assms(1) by (simp add: runChecks_def Let_def c l r)
qed

text \<open>
  a permit under a claimed approval does not name that approval: neither the decision nor the audit
  intent it leaves carries its id.
\<close>

theorem claimed_permit_omits_the_approval:
  assumes "pd_verdict (fst (enforce rt pe now context proposal)) = AUTO_APPROVED"
  shows "pd_approvalTicketId (fst (enforce rt pe now context proposal)) = None
    \<and> list_all (\<lambda>ev. case ev of AuditAppend i _ \<Rightarrow> ar_approval_id i = None | _ \<Rightarrow> True)
        (snd (enforce rt pe now context proposal))"
proof -
  obtain b f x where e: "evaluate rt pe now context proposal = (b, f, x)"
    by (cases "evaluate rt pe now context proposal")
  have x: "x = Permit"
    using assms settle_deny(1) settle_route_verdict by (cases x) (auto simp: enforce_def e)
  let ?d = "buildDecision b f Permit (eb_claimed_approval_id b) NOT_APPLICABLE"
  have t: "pd_approvalTicketId ?d = None" by (simp add: buildDecision_def Let_def)
  then have i: "ar_approval_id (audit_intent ?d) = None" by (simp add: audit_intent_def)
  have o1: "list_all (\<lambda>ev. case ev of AuditAppend i _ \<Rightarrow> ar_approval_id i = None | _ \<Rightarrow> True) (snd (applyAutonomy pe d))" for d
    by (simp add: applyAutonomy_def Let_def split: option.split)
  show ?thesis
    using assms t i o1
    by (cases rule: appendAudit_cases [of pe ?d]) (simp_all add: enforce_def e x settle_def Let_def)
qed

subsection \<open>A concrete enforcement point\<close>

definition example_skill :: registry_skill where
  "example_skill = \<lparr>rs_skill_id = ''skill'', rs_required_authority = ''AUTH-2'', rs_allowed_agents = [''SAL-01''],
    rs_mutating = True, rs_price_bearing = True, rs_idempotent = True, rs_epistemic_class = ACTION,
    rs_write_target = HypothesisTarget, rs_requires_consent = False, rs_requires_verified_identity = False,
    rs_timeout_ms = Fin 1000, rs_policy_version = None\<rparr>"

definition example_pep :: "string \<Rightarrow> pep" where
  "example_pep requirement = \<lparr>
    pe_getSkill = (\<lambda>s. if s = ''skill'' then Some (example_skill\<lparr>rs_required_authority := requirement\<rparr>) else None),
    pe_getAgent = (\<lambda>a t. if a = ''SAL-01'' then Some \<lparr>ra_agent_id = a, ra_assigned_authority = ''AUTH-2''\<rparr> else None),
    pe_approvals = (\<lambda>q. Inr ''a1''), pe_tenantPolicy = None,
    pe_authoritativeSource = Some (\<lambda>t r. Inr (Some \<lparr>cr_catalog_ref_id = r, cr_price = Fin 150, cr_currency = ''TWD''\<rparr>)),
    pe_priceFloor = Some (\<lambda>t r. Inr (Some \<lparr>fd_floor_price = Fin 100, fd_floor_source = ''owner'', fd_owner_approved = True\<rparr>)),
    pe_consent = None, pe_injectionDetector = None, pe_audit = Some (\<lambda>r. Inr ()),
    pe_auditSecret = Some ''s'', pe_envSecret = None, pe_autonomy = None\<rparr>"

definition example_context :: security_context where
  "example_context = \<lparr>sc_tenant_id = ''t1'', sc_agent_id = ''SAL-01'', sc_run_id = ''r1'', sc_request_id = ''q1'',
    sc_correlation_id = ''c1'', sc_session_id = ''s1'', sc_verified_customer_id = None, sc_takeover_active = False\<rparr>"

definition example_proposal :: action_proposal where
  "example_proposal = \<lparr>pa_skill_id = ''skill'', pa_tool_name = ''erp'',
    pa_payload = [(''catalog_ref_id'', JStr ''c1''), (''effect_key'', JStr ''k1''), (''effective_price'', JNum (Fin 120))],
    pa_required_authority = JUndef, pa_target_agent_id = None, pa_approval_id = None\<rparr>"

lemma example_permit:
  "pd_verdict (fst (enforce echo_runtime (example_pep ''AUTH-2'') ''now'' example_context example_proposal)) = AUTO_APPROVED"
  by code_simp

lemma example_route:
  "CreatePending (pending_of ((initial_base ''now'' example_context example_proposal)\<lparr>
       eb_effect_key := Some ''k1''\<rparr>)
     (''{\"catalog_ref_id\":\"c1\",\"effect_key\":\"k1\",\"effective_price\":0}'') REQUIRE_HUMAN_APPROVAL) (Inr ''a1'')
   \<in> set (snd (enforce echo_runtime (example_pep ''AUTH-4'') ''now'' example_context example_proposal))"
  by code_simp

theorem permit_implies_authority_witness:
  "pd_auditStatus (fst (enforce echo_runtime (example_pep ''AUTH-2'') ''now'' example_context example_proposal)) = RECORDED"
proof -
  have "rs_mutating s" if "pe_getSkill (example_pep ''AUTH-2'') n = Some s" for n s
    using that by (auto simp: example_pep_def example_skill_def split: if_splits)
  then show ?thesis using permit_implies_authority [OF example_permit] by blast
qed

theorem prohibited_action_is_refused_witness:
  "pd_verdict (fst (enforce echo_runtime (example_pep ''AUTH-5'') ''now'' example_context example_proposal)) = DENIED"
proof -
  have "\<exists>skill. pe_getSkill (example_pep ''AUTH-5'') (trim (pa_skill_id example_proposal)) = Some skill
      \<and> rs_required_authority skill = ''AUTH-5'' \<or> pa_required_authority example_proposal = JStr ''AUTH-5''"
    by (simp add: example_pep_def example_proposal_def trim_def is_ws_def)
  from prohibited_action_is_refused [OF this] show ?thesis by blast
qed

theorem approval_row_follows_recorded_intent_witness:
  "\<exists>i q rest. snd (enforce echo_runtime (example_pep ''AUTH-4'') ''now'' example_context example_proposal)
    = AuditAppend i (Inr ()) # CreatePending q (Inr ''a1'') # rest"
  using approval_row_follows_recorded_intent [OF example_route] by blast

theorem leading_price_respects_approved_floor_witness:
  "\<exists>get fl p. pe_priceFloor (example_pep ''AUTH-2'') = Some get \<and> get ''t1'' ''c1'' = Inr (Some fl)
    \<and> fd_floor_price fl = Fin p \<and> p \<le> 120"
proof -
  let ?s = "example_skill\<lparr>rs_required_authority := ''AUTH-2''\<rparr>"
  have d: "pd_verdict (fst (enforce echo_runtime (example_pep ''AUTH-2'') ''now'' example_context example_proposal)) \<noteq> DENIED"
    by (simp add: example_permit)
  have s: "pe_getSkill (example_pep ''AUTH-2'') (trim (pa_skill_id example_proposal)) = Some ?s" "rs_price_bearing ?s"
    by (simp_all add: example_pep_def example_proposal_def example_skill_def trim_def is_ws_def)
  have f: "readStringField (pa_payload example_proposal) CATALOG_REFERENCE_FIELDS = VALID ''c1''"
    "trim (sc_tenant_id example_context) = ''t1''"
    by (simp_all add: readStringField_def field_lists example_proposal_def example_context_def
        blank_def trim_def is_ws_def)
  have "leading_price (pa_payload example_proposal) (JNum (Fin 120))"
    by (simp add: leading_price_def example_proposal_def)
  with leading_price_respects_approved_floor [OF d s] show ?thesis unfolding f by auto
qed

theorem audit_failure_denies_witness:
  "pd_verdict (fst (enforce echo_runtime ((example_pep ''AUTH-2'')\<lparr>pe_audit := Some (\<lambda>r. Inl (ThrownError ''down''))\<rparr>)
     ''now'' example_context example_proposal)) = DENIED"
proof -
  let ?pe = "(example_pep ''AUTH-2'')\<lparr>pe_audit := Some (\<lambda>r. Inl (ThrownError ''down''))\<rparr>"
  have "pe_audit ?pe = Some (\<lambda>r. Inl (ThrownError ''down''))" by simp
  from audit_failure_denies [OF this, of "\<lambda>r. ThrownError ''down''"] show ?thesis by simp
qed

theorem price_alias_is_not_checked_witness:
  "checkPrice ''t1'' True (AList.update ''proposed_price'' (JNum (Fin 1)) (pa_payload example_proposal))
     (pe_authoritativeSource (example_pep ''AUTH-2'')) (pe_priceFloor (example_pep ''AUTH-2'')) = None"
proof -
  have "map_of (pa_payload example_proposal) ''effective_price'' = Some (JNum (Fin 120))"
    by (simp add: example_proposal_def)
  from price_alias_is_not_checked [OF this, of "''proposed_price''" "''t1''" True "JNum (Fin 1)"]
  have "checkPrice ''t1'' True (AList.update ''proposed_price'' (JNum (Fin 1)) (pa_payload example_proposal))
     (pe_authoritativeSource (example_pep ''AUTH-2'')) (pe_priceFloor (example_pep ''AUTH-2''))
    = checkPrice ''t1'' True (pa_payload example_proposal)
     (pe_authoritativeSource (example_pep ''AUTH-2'')) (pe_priceFloor (example_pep ''AUTH-2''))" by simp
  also have "\<dots> = None" by code_simp
  finally show ?thesis .
qed

theorem assertion_alias_is_not_checked_witness:
  "checkBinding example_context (example_proposal\<lparr>pa_payload := AList.update ''tenantId'' (JStr ''t2'')
      (AList.update ''refund_amount_twd'' (JNum (Fin 900)) [(''tenant_id'', JStr ''t1''), (''refund_amount'', JNum (Fin 1))])\<rparr>)
     (pe_getAgent (example_pep ''AUTH-2'')) = None"
proof -
  let ?p = "example_proposal\<lparr>pa_payload := [(''tenant_id'', JStr ''t1''), (''refund_amount'', JNum (Fin 1))]\<rparr>"
  let ?p' = "?p\<lparr>pa_payload := AList.update ''tenantId'' (JStr ''t2'')
      (AList.update ''refund_amount_twd'' (JNum (Fin 900)) (pa_payload ?p))\<rparr>"
  have m: "map_of (pa_payload ?p) ''tenant_id'' = Some (JStr ''t1'')" "JStr ''t1'' \<noteq> JUndef"
    "map_of (pa_payload ?p) ''refund_amount'' = Some (JNum (Fin 1))" "JNum (Fin 1) \<noteq> JUndef" by simp_all
  have "checkBinding example_context ?p' (pe_getAgent (example_pep ''AUTH-2''))
      = checkBinding example_context ?p (pe_getAgent (example_pep ''AUTH-2''))"
    using assertion_alias_is_not_checked [OF m refl] by blast
  also have "\<dots> = None" by code_simp
  finally show ?thesis by simp
qed

theorem negative_retry_is_accepted_witness:
  "runChecks (example_pep ''AUTH-2'') example_context (example_skill\<lparr>rs_idempotent := False\<rparr>)
     (example_proposal\<lparr>pa_payload := (''retry_attempt'', JNum (Fin (- 3))) # pa_payload example_proposal\<rparr>) (Some ''k1'') = None"
proof -
  have m: "(- 3 :: rat) < 0" "map_of (pa_payload example_proposal) ''retry_attempt'' = None"
    "map_of (pa_payload example_proposal) ''attempt'' = None" by (simp_all add: example_proposal_def)
  have "runChecks (example_pep ''AUTH-2'') example_context (example_skill\<lparr>rs_idempotent := False\<rparr>)
      (example_proposal\<lparr>pa_payload := pa_payload example_proposal\<rparr>) (Some ''k1'') = None" by code_simp
  then show ?thesis by (simp only: negative_retry_is_accepted [OF m])
qed

theorem claimed_permit_omits_the_approval_witness:
  "pd_approvalTicketId (fst (enforce echo_runtime (example_pep ''AUTH-4'') ''now'' example_context
     (example_proposal\<lparr>pa_approval_id := Some ''a1''\<rparr>))) = None"
proof -
  have "pd_verdict (fst (enforce echo_runtime (example_pep ''AUTH-4'') ''now'' example_context
      (example_proposal\<lparr>pa_approval_id := Some ''a1''\<rparr>))) = AUTO_APPROVED" by code_simp
  from claimed_permit_omits_the_approval [OF this] show ?thesis by blast
qed

end
