(* ===== verification/AutonomyStore.thy ===== *)
theory AutonomyStore
  imports AutonomyTypes Session "HOL-Library.List_Lexorder" "HOL-Library.Char_ord"
begin

text \<open>
  The store of controlled autonomy and its contract. The contract is a locale over the operations the
  service calls; \<open>packages/core-engine/src/autonomy/store.ts\<close> is its interpretation: rows in the order
  their keys were first inserted, the events of each key, and two sets of tenants.
\<close>

subsection \<open>The contract\<close>

locale autonomy_store =
  fixes get :: "string \<times> string \<times> string \<Rightarrow> 's \<Rightarrow> policy_row option"
    and put :: "policy_row \<Rightarrow> 's \<Rightarrow> 's"
    and rows :: "'s \<Rightarrow> policy_row list"
    and paused killed :: "string \<Rightarrow> 's \<Rightarrow> bool"
    and well_keyed :: "'s \<Rightarrow> bool"
  assumes get_in_rows: "get k s = Some r \<Longrightarrow> r \<in> set (rows s)"
    and put_rows: "set (rows (put r s)) \<subseteq> insert r (set (rows s))"
    and put_keeps_flags: "paused t (put r s) = paused t s" "killed t (put r s) = killed t s"
    and put_replaces: "well_keyed s \<Longrightarrow> get (au_tenant_id r, au_skill_id r, au_policy_version r) s = Some q \<Longrightarrow>
      q \<noteq> r \<Longrightarrow> q \<notin> set (rows (put r s))"
begin

text \<open>A property of rows that the written row has is kept by a write.\<close>

lemma put_all: "(\<And>q. q \<in> set (rows s) \<Longrightarrow> P q) \<Longrightarrow> P r \<Longrightarrow> q \<in> set (rows (put r s)) \<Longrightarrow> P q"
  using put_rows by blast

end

subsection \<open>The in-memory store\<close>

record autonomy_state_store =
  as_current :: "(string \<times> policy_row) list"
  as_history :: "(string \<times> policy_row list) list"
  as_paused :: "string set"
  as_killed :: "string set"

definition empty_store :: autonomy_state_store where
  "empty_store = \<lparr>as_current = [], as_history = [], as_paused = {}, as_killed = {}\<rparr>"

definition store_key :: "string \<Rightarrow> string \<Rightarrow> string \<Rightarrow> string" where
  "store_key tenant skill version = tenant @ [CHR 0x00] @ skill @ [CHR 0x00] @ version"

definition row_key :: "policy_row \<Rightarrow> string" where
  "row_key r = store_key (au_tenant_id r) (au_skill_id r) (au_policy_version r)"

definition getCurrent :: "string \<Rightarrow> string \<Rightarrow> string \<Rightarrow> autonomy_state_store \<Rightarrow> policy_row option" where
  "getCurrent tenant skill version s = map_of (as_current s) (store_key tenant skill version)"

definition put_row :: "policy_row \<Rightarrow> autonomy_state_store \<Rightarrow> autonomy_state_store" where
  "put_row r s = s\<lparr>as_current := AList.update (row_key r) r (as_current s),
     as_history := AList.update (row_key r)
       ((case map_of (as_history s) (row_key r) of None \<Rightarrow> [] | Some events \<Rightarrow> events) @ [r]) (as_history s)\<rparr>"

definition listCurrent :: "string \<Rightarrow> autonomy_state_store \<Rightarrow> policy_row list" where
  "listCurrent tenant s = filter (\<lambda>r. au_tenant_id r = tenant) (map snd (as_current s))"

definition listHistory :: "string \<Rightarrow> autonomy_state_store \<Rightarrow> policy_row list" where
  "listHistory tenant s = filter (\<lambda>r. au_tenant_id r = tenant) (concat (map snd (as_history s)))"

definition isTenantPaused :: "string \<Rightarrow> autonomy_state_store \<Rightarrow> bool" where
  "isTenantPaused tenant s \<longleftrightarrow> tenant \<in> as_paused s"

definition setTenantPaused :: "string \<Rightarrow> bool \<Rightarrow> autonomy_state_store \<Rightarrow> autonomy_state_store" where
  "setTenantPaused tenant on s = s\<lparr>as_paused := if on then insert tenant (as_paused s) else as_paused s - {tenant}\<rparr>"

definition isKillSwitchSet :: "string \<Rightarrow> autonomy_state_store \<Rightarrow> bool" where
  "isKillSwitchSet tenant s \<longleftrightarrow> tenant \<in> as_killed s"

definition setKillSwitch :: "string \<Rightarrow> bool \<Rightarrow> autonomy_state_store \<Rightarrow> autonomy_state_store" where
  "setKillSwitch tenant on s = s\<lparr>as_killed := if on then insert tenant (as_killed s) else as_killed s - {tenant}\<rparr>"

text \<open>The rows of the store, and the store's own invariant: every row is held under its key.\<close>

definition all_rows :: "autonomy_state_store \<Rightarrow> policy_row list" where
  "all_rows s = map snd (as_current s)"

definition keyed :: "autonomy_state_store \<Rightarrow> bool" where
  "keyed s \<longleftrightarrow> distinct (map fst (as_current s)) \<and> list_all (\<lambda>(k, r). k = row_key r) (as_current s)"

lemma set_update_rows: "set (map snd (AList.update k v al)) \<subseteq> insert v (set (map snd al))"
  by (induction al) auto

lemma put_row_fields [simp]:
  "as_paused (put_row r s) = as_paused s" "as_killed (put_row r s) = as_killed s"
  "as_current (put_row r s) = AList.update (row_key r) r (as_current s)"
  by (simp_all add: put_row_def)

lemma keyed_put: "keyed s \<Longrightarrow> keyed (put_row r s)"
proof -
  have "list_all (\<lambda>(k, r). k = row_key r) al \<Longrightarrow> list_all (\<lambda>(k, r). k = row_key r) (AList.update (row_key r) r al)" for al
    by (induction al) auto
  then show "keyed s \<Longrightarrow> keyed (put_row r s)" by (auto simp: keyed_def intro: distinct_update)
qed

lemma keyed_empty [simp]: "keyed empty_store"
  by (simp add: keyed_def empty_store_def)

lemma getCurrent_row: "getCurrent t k v s = Some r \<Longrightarrow> r \<in> set (all_rows s)"
  by (force simp: getCurrent_def all_rows_def dest: map_of_SomeD)

lemma keyed_getCurrent:
  "keyed s \<Longrightarrow> r \<in> set (all_rows s) \<Longrightarrow> getCurrent (au_tenant_id r) (au_skill_id r) (au_policy_version r) s = Some r"
  by (auto simp: keyed_def all_rows_def getCurrent_def row_key_def list_all_iff)

interpretation memory_store: autonomy_store "\<lambda>(t, k, v). getCurrent t k v" put_row all_rows isTenantPaused isKillSwitchSet keyed
proof
  fix r q :: policy_row and s
  assume k: "keyed s" and n: "q \<noteq> r"
    and g: "(case (au_tenant_id r, au_skill_id r, au_policy_version r) of (t, k, v) \<Rightarrow> getCurrent t k v) s = Some q"
  then have q: "(row_key r, q) \<in> set (as_current s)"
    by (auto simp: getCurrent_def row_key_def dest: map_of_SomeD)
  then have rk: "row_key q = row_key r" using k by (auto simp: keyed_def list_all_iff)
  show "q \<notin> set (all_rows (put_row r s))"
  proof
    assume "q \<in> set (all_rows (put_row r s))"
    moreover from keyed_put [OF k] have "list_all (\<lambda>(k, r). k = row_key r) (as_current (put_row r s))"
      by (simp add: keyed_def)
    ultimately have "(row_key q, q) \<in> set (as_current (put_row r s))"
      by (auto simp: all_rows_def list_all_iff)
    moreover have "distinct (map fst (as_current (put_row r s)))" using keyed_put [OF k] by (simp add: keyed_def)
    ultimately have "map_of (as_current (put_row r s)) (row_key r) = Some q" using rk by simp
    then show False using n by (simp add: map_of_update)
  qed
next
  fix k s r
  assume "(case k of (t, k, v) \<Rightarrow> getCurrent t k v) s = Some r"
  then show "r \<in> set (all_rows s)" by (auto simp: getCurrent_row split: prod.splits)
next
  fix r s
  show "set (all_rows (put_row r s)) \<subseteq> insert r (set (all_rows s))"
    unfolding all_rows_def put_row_fields by (rule set_update_rows)
qed (simp_all add: isTenantPaused_def isKillSwitchSet_def)

end
