(* ===== verification/Autonomy.thy ===== *)
theory Autonomy
  imports AutonomyStore
begin

text \<open>
  Controlled autonomy (\<open>packages/core-engine/src/autonomy\<close>): which skills may be promoted
  (\<open>never-promotable.ts\<close>), promotion eligibility (\<open>eligibility.ts\<close>) and the service (\<open>service.ts\<close>). The
  clock is the timestamp an operation is given, \<open>Date.parse\<close> an argument; the audit port is the function
  from an event to the answer it gives, and its throw ends an operation after the row was stored.
\<close>

subsection \<open>Promotable skills\<close>

definition PROMOTABLE_SKILL_IDS :: "string list" where
  "PROMOTABLE_SKILL_IDS =
    [''skill.sales.check_stock'', ''skill.sales.search_product'', ''skill.sales.retrieve_customer'',
     ''skill.care.search_faq'', ''skill.mkt.segment_audience'', ''skill.mkt.generate_content'']"

definition NEVER_PROMOTABLE_SKILL_IDS :: "string list" where
  "NEVER_PROMOTABLE_SKILL_IDS =
    [''skill.sales.create_cart'', ''skill.sales.create_order'', ''skill.sales.send_message'',
     ''skill.mkt.dispatch_campaign'', ''skill.care.issue_retention_offer'', ''skill.care.initiate_return'']"

definition isAutonomousAuthority :: "json \<Rightarrow> bool" where
  "isAutonomousAuthority v \<longleftrightarrow> v = JStr ''AUTH-0'' \<or> v = JStr ''AUTH-1'' \<or> v = JStr ''AUTH-2'' \<or> v = JStr ''AUTH-3''"

definition isNeverPromotableSkill :: "string \<Rightarrow> json \<Rightarrow> bool" where
  "isNeverPromotableSkill skill authority \<longleftrightarrow> List.member NEVER_PROMOTABLE_SKILL_IDS (trim skill)
     \<or> authority = JStr ''AUTH-4'' \<or> authority = JStr ''AUTH-5''"

definition isPromotableSkill :: "string \<Rightarrow> json \<Rightarrow> bool" where
  "isPromotableSkill skill authority \<longleftrightarrow> List.member PROMOTABLE_SKILL_IDS (trim skill)
     \<and> \<not> isNeverPromotableSkill skill authority \<and> isAutonomousAuthority authority"

subsection \<open>Eligibility\<close>

datatype eligibility_code =
    ELIGIBLE | EVIDENCE_WINDOW_REQUIRED | AUTHORITY_VIOLATION | DUPLICATE_EFFECT_FOUND | AUDIT_GAP_FOUND
  | EVIDENCE_GAP_FOUND | APPROVER_REQUIRED | POLICY_VERSION_REQUIRED | SKILL_NOT_PROMOTABLE
  | AUTHORITY_NOT_AUTONOMOUS | LATENCY_COST_PROVENANCE_REQUIRED

definition missing_text :: "string option \<Rightarrow> bool" where
  "missing_text s = (case s of None \<Rightarrow> True | Some x \<Rightarrow> blank x)"

text \<open>\<open>a ?? b\<close> on values: \<open>undefined\<close> and \<open>null\<close> fall through.\<close>

definition nullish :: "json \<Rightarrow> json \<Rightarrow> json" where
  "nullish a b = (if a = JUndef \<or> a = JNull then b else a)"

definition opt_json :: "string option \<Rightarrow> json" where
  "opt_json s = (case s of None \<Rightarrow> JUndef | Some x \<Rightarrow> JStr x)"

text \<open>A measured value without a non-blank provenance reference.\<close>

definition lacks_provenance :: "json \<Rightarrow> json \<Rightarrow> bool" where
  "lacks_provenance v ref \<longleftrightarrow> v \<noteq> JUndef \<and> v \<noteq> JStr ''UNAVAILABLE''
     \<and> (case ref of JStr r \<Rightarrow> blank r | _ \<Rightarrow> True)"

definition checkPromotionEligibility :: "promotion_request \<Rightarrow> eligibility_code" where
  "checkPromotionEligibility i =
    (let parameters = (case pr_parameters i of None \<Rightarrow> [] | Some p \<Rightarrow> p);
         latency = nullish (nullish (pr_latency i) (member parameters ''latency'')) (member parameters ''latency_ms'');
         cost = nullish (nullish (pr_cost i) (member parameters ''cost'')) (member parameters ''cost_amount'');
         latencyRef = nullish (nullish (opt_json (pr_latency_provenance_ref i))
           (member parameters ''latency_provenance_ref'')) (member parameters ''latency_ref'');
         costRef = nullish (nullish (opt_json (pr_cost_provenance_ref i))
           (member parameters ''cost_provenance_ref'')) (member parameters ''cost_ref'') in
     if missing_text (pr_policy_version i) then POLICY_VERSION_REQUIRED
     else if \<not> isAutonomousAuthority (JStr (pr_required_authority i)) then AUTHORITY_NOT_AUTONOMOUS
     else if \<not> isPromotableSkill (pr_skill_id i) (JStr (pr_required_authority i)) then SKILL_NOT_PROMOTABLE
     else if missing_text (pr_evidence_window_ref i) then EVIDENCE_WINDOW_REQUIRED
     else if pr_authority_violations i \<noteq> Some (Fin 0) then AUTHORITY_VIOLATION
     else if pr_duplicate_effects i \<noteq> Some (Fin 0) then DUPLICATE_EFFECT_FOUND
     else if pr_audit_complete i \<noteq> Some True then AUDIT_GAP_FOUND
     else if pr_evidence_complete i \<noteq> Some True then EVIDENCE_GAP_FOUND
     else if missing_text (pr_approver_id i) then APPROVER_REQUIRED
     else if lacks_provenance latency latencyRef then LATENCY_COST_PROVENANCE_REQUIRED
     else if lacks_provenance cost costRef then LATENCY_COST_PROVENANCE_REQUIRED
     else ELIGIBLE)"

subsection \<open>The service\<close>

datatype autonomy_event_kind =
    CALLER_ASSERTION_REJECTED | EvPromoted | EvDemoted | EvPaused | EvResumed | KILL_SWITCH

record autonomy_event =
  ae_tenant_id :: string
  ae_skill_id :: "string option"
  ae_policy_version :: "string option"
  ae_event :: autonomy_event_kind
  ae_reason :: string
  ae_actor :: "string option"
  ae_occurred_at :: string
  ae_record :: "policy_row option"

type_synonym audit_port = "(autonomy_event \<Rightarrow> unit result) option"

definition append_event :: "audit_port \<Rightarrow> autonomy_event \<Rightarrow> unit result" where
  "append_event audit ev = (case audit of None \<Rightarrow> Inr () | Some sink \<Rightarrow> sink ev)"

definition row_event :: "autonomy_event_kind \<Rightarrow> string option \<Rightarrow> policy_row \<Rightarrow> autonomy_event" where
  "row_event kind actor r = \<lparr>ae_tenant_id = au_tenant_id r, ae_skill_id = Some (au_skill_id r),
     ae_policy_version = Some (au_policy_version r), ae_event = kind, ae_reason = au_reason r,
     ae_actor = actor, ae_occurred_at = au_effective_at r, ae_record = Some r\<rparr>"

text \<open>\<open>await this.store.put(record); await this.appendAudit(...)\<close>.\<close>

definition store_and_audit :: "audit_port \<Rightarrow> autonomy_event_kind \<Rightarrow> string option \<Rightarrow> policy_row \<Rightarrow>
    autonomy_state_store \<Rightarrow> policy_row result \<times> autonomy_state_store" where
  "store_and_audit audit kind actor r s =
    (andThen (append_event audit (row_event kind actor r)) (\<lambda>_. Inr r), put_row r s)"

definition TRIGGERS :: "string list" where
  "TRIGGERS = map trigger_label
    [AUTHORITY_POLICY_VIOLATION, DUPLICATE_EFFECT, PROVIDER_AMBIGUITY, EVIDENCE_GAP, AUDIT_GAP,
     POLICY_DRIFT, OPERATOR_PAUSE, OPERATOR_KILL_SWITCH, FAILED_SAFETY_INVARIANT, OPERATOR_DEMOTE]"

definition normalizedTrigger :: "string \<Rightarrow> string" where
  "normalizedTrigger v = (if List.member TRIGGERS v then v else trigger_label FAILED_SAFETY_INVARIANT)"

text \<open>\<open>a?.trim() || b\<close> where \<open>b\<close> may be null.\<close>

definition trimmed_or_opt :: "string option \<Rightarrow> string option \<Rightarrow> string option" where
  "trimmed_or_opt a b = (case a of Some s \<Rightarrow> if trim s = [] then b else Some (trim s) | None \<Rightarrow> b)"

definition trim_opt :: "string option \<Rightarrow> string" where
  "trim_opt s = (case s of None \<Rightarrow> [] | Some x \<Rightarrow> trim x)"

text \<open>An operation that may decline answers \<open>None\<close>; one that stores a row answers that row.\<close>

definition promote :: "audit_port \<Rightarrow> string \<Rightarrow> promotion_request \<Rightarrow> autonomy_state_store \<Rightarrow>
    policy_row option result \<times> autonomy_state_store" where
  "promote audit ts q s =
    (let tenant = trim (pr_tenant_id q); skill = trim (pr_skill_id q); version = trim_opt (pr_policy_version q) in
     if checkPromotionEligibility q \<noteq> ELIGIBLE then (Inr None, s)
     else if isKillSwitchSet tenant s then (Inr None, s)
     else if isTenantPaused tenant s then (Inr None, s)
     else let current = getCurrent tenant skill version s;
       r = \<lparr>au_policy_id = trimmed_or (pr_policy_id q) (tenant @ '':'' @ skill @ '':'' @ version),
         au_policy_version = version, au_tenant_id = tenant, au_skill_id = skill, au_state = PROMOTED,
         au_previous = (case current of None \<Rightarrow> ApprovedMinimum
            | Some c \<Rightarrow> if au_state c = PROMOTED then ApprovedPromoted else au_previous c),
         au_evidence_window_ref = map_option trim (pr_evidence_window_ref q),
         au_approver_id = Some (trim_opt (pr_approver_id q)),
         au_reason = trimmed_or (pr_reason q) ''Server-approved autonomy promotion.'',
         au_parameters = spread (case pr_parameters q of None \<Rightarrow> [] | Some p \<Rightarrow> p)
           [(''required_authority'', JStr (trim (pr_required_authority q)))],
         au_effective_at = ts,
         au_rollback_version = (case current of None \<Rightarrow> version | Some c \<Rightarrow> au_rollback_version c),
         au_rollback_state = (case current of None \<Rightarrow> ApprovedMinimum | Some c \<Rightarrow> au_rollback_state c),
         au_audit_ref = map_option trim (pr_audit_ref q),
         au_evidence_ref = map_option trim (pr_evidence_ref q)\<rparr> in
     (case store_and_audit audit EvPromoted (pr_approver_id q) r s of
        (res, s') \<Rightarrow> (andThen res (\<lambda>x. Inr (Some x)), s')))"

definition demoted_row :: "string \<Rightarrow> demotion_request \<Rightarrow> policy_row \<Rightarrow> policy_row" where
  "demoted_row ts q current =
    (let trigger = normalizedTrigger (dr_trigger q) in
     current\<lparr>au_state := DEMOTED,
       au_previous := (if au_state current = PROMOTED then ApprovedPromoted else au_previous current),
       au_reason := trimmed_or (dr_reason q) (''Autonomy demoted by '' @ trigger @ ''.''),
       au_parameters := spread (spread (au_parameters current)
         (case dr_parameters q of None \<Rightarrow> [] | Some p \<Rightarrow> p)) [(''trigger'', JStr trigger)],
       au_effective_at := ts,
       au_audit_ref := trimmed_or_opt (dr_audit_ref q) (au_audit_ref current),
       au_evidence_ref := trimmed_or_opt (dr_evidence_ref q) (au_evidence_ref current)\<rparr>)"

definition demote :: "audit_port \<Rightarrow> string \<Rightarrow> demotion_request \<Rightarrow> autonomy_state_store \<Rightarrow>
    policy_row option result \<times> autonomy_state_store" where
  "demote audit ts q s =
    (case getCurrent (trim (dr_tenant_id q)) (trim (dr_skill_id q)) (trim (dr_policy_version q)) s of
       None \<Rightarrow> (Inr None, s)
     | Some current \<Rightarrow>
         (case store_and_audit audit EvDemoted
             (Some (case dr_actor q of Some a \<Rightarrow> a | None \<Rightarrow> ''system:'' @ normalizedTrigger (dr_trigger q)))
             (demoted_row ts q current) s of
            (res, s') \<Rightarrow> (andThen res (\<lambda>x. Inr (Some x)), s')))"

record tenant_request =
  tr_tenant_id :: string
  tr_reason :: "string option"
  tr_audit_ref :: "string option"
  tr_actor :: "string option"

text \<open>
  The loops of \<open>pauseTenant\<close>, \<open>resumeTenant\<close> and \<open>killSwitch\<close> over the rows read at their start: each
  row is stored and audited in turn, and the first throw of the audit port ends the loop.
\<close>

fun each_row :: "(policy_row \<Rightarrow> autonomy_state_store \<Rightarrow> policy_row option result \<times> autonomy_state_store) \<Rightarrow>
    policy_row list \<Rightarrow> autonomy_state_store \<Rightarrow> policy_row list result \<times> autonomy_state_store" where
  "each_row step [] s = (Inr [], s)"
| "each_row step (r # rs) s =
    (case step r s of
       (Inl err, s') \<Rightarrow> (Inl err, s')
     | (Inr x, s') \<Rightarrow>
         (case each_row step rs s' of
            (Inl err, t) \<Rightarrow> (Inl err, t)
          | (Inr xs, t) \<Rightarrow> (Inr (case x of None \<Rightarrow> xs | Some y \<Rightarrow> y # xs), t)))"

definition rewritten :: "audit_port \<Rightarrow> autonomy_event_kind \<Rightarrow> string option \<Rightarrow> policy_row \<Rightarrow>
    autonomy_state_store \<Rightarrow> policy_row option result \<times> autonomy_state_store" where
  "rewritten audit kind actor r s =
    (case store_and_audit audit kind actor r s of (res, s') \<Rightarrow> (andThen res (\<lambda>x. Inr (Some x)), s'))"

definition paused_row :: "string \<Rightarrow> tenant_request \<Rightarrow> policy_row \<Rightarrow> policy_row" where
  "paused_row ts q r = r\<lparr>au_state := PAUSED, au_previous := ApprovedPromoted,
     au_reason := trimmed_or (tr_reason q) ''Tenant autonomy paused by operator.'',
     au_parameters := spread (au_parameters r) [(''trigger'', JStr ''OPERATOR_PAUSE'')],
     au_effective_at := ts, au_audit_ref := trimmed_or_opt (tr_audit_ref q) (au_audit_ref r)\<rparr>"

definition pauseTenant :: "audit_port \<Rightarrow> string \<Rightarrow> tenant_request \<Rightarrow> autonomy_state_store \<Rightarrow>
    policy_row list result \<times> autonomy_state_store" where
  "pauseTenant audit ts q s =
    (let tenant = trim (tr_tenant_id q); s1 = setTenantPaused tenant True s in
     each_row (\<lambda>r s. if au_state r \<noteq> PROMOTED then (Inr None, s)
         else rewritten audit EvPaused (tr_actor q) (paused_row ts q r) s)
       (listCurrent tenant s1) s1)"

definition resumed_row :: "string \<Rightarrow> tenant_request \<Rightarrow> policy_row \<Rightarrow> policy_row" where
  "resumed_row ts q r = r\<lparr>au_state := PROMOTED,
     au_reason := trimmed_or (tr_reason q) ''Tenant autonomy resumed to the prior approved state.'',
     au_parameters := spread (au_parameters r) [(''trigger'', JStr ''OPERATOR_PAUSE'')],
     au_effective_at := ts, au_audit_ref := trimmed_or_opt (tr_audit_ref q) (au_audit_ref r)\<rparr>"

definition resumeTenant :: "audit_port \<Rightarrow> string \<Rightarrow> tenant_request \<Rightarrow> autonomy_state_store \<Rightarrow>
    policy_row list result \<times> autonomy_state_store" where
  "resumeTenant audit ts q s =
    (let tenant = trim (tr_tenant_id q) in
     if isKillSwitchSet tenant s then (Inl (ThrownError ''NOT_ELIGIBLE''), s)
     else each_row (\<lambda>r s. if au_state r \<noteq> PAUSED \<or> au_previous r \<noteq> ApprovedPromoted then (Inr None, s)
         else rewritten audit EvResumed (tr_actor q) (resumed_row ts q r) s)
       (listCurrent tenant s) (setTenantPaused tenant False s))"

definition killSwitch :: "audit_port \<Rightarrow> string \<Rightarrow> tenant_request \<Rightarrow> autonomy_state_store \<Rightarrow>
    policy_row list result \<times> autonomy_state_store" where
  "killSwitch audit ts q s =
    (let tenant = trim (tr_tenant_id q); s1 = setKillSwitch tenant True s;
         reason = trimmed_or (tr_reason q) ''Tenant autonomy killed by operator.'' in
     case each_row (\<lambda>r s. if au_state r \<noteq> PROMOTED \<and> au_state r \<noteq> PAUSED then (Inr None, s)
         else demote audit ts \<lparr>dr_tenant_id = tenant, dr_skill_id = au_skill_id r,
           dr_policy_version = au_policy_version r, dr_trigger = ''OPERATOR_KILL_SWITCH'',
           dr_reason = Some reason, dr_actor = tr_actor q, dr_audit_ref = tr_audit_ref q,
           dr_evidence_ref = None, dr_parameters = None\<rparr> s)
       (listCurrent tenant s1) s1 of
       (Inl err, s2) \<Rightarrow> (Inl err, s2)
     | (Inr demoted, s2) \<Rightarrow>
         (andThen (append_event audit \<lparr>ae_tenant_id = tenant, ae_skill_id = None, ae_policy_version = None,
             ae_event = KILL_SWITCH, ae_reason = reason, ae_actor = tr_actor q, ae_occurred_at = ts,
             ae_record = None\<rparr>) (\<lambda>_. Inr demoted),
          setTenantPaused tenant True s2))"

definition inspect :: "string \<Rightarrow> autonomy_state_store \<Rightarrow> string \<times> bool \<times> policy_row list \<times> policy_row list" where
  "inspect tenant s = (trim tenant, isTenantPaused (trim tenant) s, listCurrent (trim tenant) s, listHistory (trim tenant) s)"

definition rejectCallerAssertion :: "audit_port \<Rightarrow> string \<Rightarrow> string \<Rightarrow> string option \<Rightarrow> string option \<Rightarrow>
    string option \<Rightarrow> string result" where
  "rejectCallerAssertion audit ts tenant skill version reason =
    (let why = trimmed_or reason ''Caller-declared autonomy is not an authority source.'' in
     andThen (append_event audit \<lparr>ae_tenant_id = trim tenant, ae_skill_id = map_option trim skill,
         ae_policy_version = map_option trim version, ae_event = CALLER_ASSERTION_REJECTED, ae_reason = why,
         ae_actor = Some ''caller-assertion'', ae_occurred_at = ts, ae_record = None\<rparr>) (\<lambda>_. Inr why))"

subsection \<open>Admission\<close>

text \<open>The sign of \<open>compareEffectiveAt\<close>: by the parsed times when both parse, by the texts otherwise.\<close>

definition compareEffectiveAt :: "(string \<Rightarrow> jnum) \<Rightarrow> string \<Rightarrow> string \<Rightarrow> int" where
  "compareEffectiveAt parse left right =
    (if is_finite (parse left) \<and> is_finite (parse right)
     then (if num_less (parse left) (parse right) then -1 else if num_less (parse right) (parse left) then 1 else 0)
     else if left = right then 0 else if right < left then 1 else -1)"

text \<open>The latest of a skill's rows and whether another one shares its time.\<close>

fun latest :: "(string \<Rightarrow> jnum) \<Rightarrow> policy_row list \<Rightarrow> policy_row \<Rightarrow> bool \<Rightarrow> policy_row \<times> bool" where
  "latest parse [] current ambiguous = (current, ambiguous)"
| "latest parse (candidate # cs) current ambiguous =
    (let comparison = compareEffectiveAt parse (au_effective_at candidate) (au_effective_at current) in
     if comparison > 0 then latest parse cs candidate False
     else if comparison = 0 then latest parse cs current True
     else latest parse cs current ambiguous)"

definition override :: "'a option \<Rightarrow> 'a option \<Rightarrow> 'a option" where
  "override new old = (case new of None \<Rightarrow> old | Some v \<Rightarrow> Some v)"

text \<open>\<open>{ ...request, ...(request.safety ?? {}) }\<close>.\<close>

definition effective_safety :: "admission_request \<Rightarrow> admission_safety" where
  "effective_safety q =
    (case aq_nested_safety q of
       None \<Rightarrow> aq_safety q
     | Some n \<Rightarrow> let o1 = aq_safety q in
         \<lparr>sf_safety_ok = override (sf_safety_ok n) (sf_safety_ok o1),
          sf_authority_violations = override (sf_authority_violations n) (sf_authority_violations o1),
          sf_duplicate_effects = override (sf_duplicate_effects n) (sf_duplicate_effects o1),
          sf_audit_complete = override (sf_audit_complete n) (sf_audit_complete o1),
          sf_evidence_complete = override (sf_evidence_complete n) (sf_evidence_complete o1),
          sf_provider_ambiguity = override (sf_provider_ambiguity n) (sf_provider_ambiguity o1),
          sf_policy_drift = override (sf_policy_drift n) (sf_policy_drift o1),
          sf_trigger = override (sf_trigger n) (sf_trigger o1)\<rparr>)"

definition admissionTrigger :: "admission_safety \<Rightarrow> string option" where
  "admissionTrigger f =
    (if sf_authority_violations f \<noteq> None \<and> sf_authority_violations f \<noteq> Some (Fin 0)
     then Some (trigger_label AUTHORITY_POLICY_VIOLATION)
     else if sf_duplicate_effects f \<noteq> None \<and> sf_duplicate_effects f \<noteq> Some (Fin 0)
     then Some (trigger_label DUPLICATE_EFFECT)
     else if sf_provider_ambiguity f = Some True then Some (trigger_label PROVIDER_AMBIGUITY)
     else if sf_evidence_complete f = Some False then Some (trigger_label EVIDENCE_GAP)
     else if sf_audit_complete f = Some False then Some (trigger_label AUDIT_GAP)
     else if sf_policy_drift f = Some True then Some (trigger_label POLICY_DRIFT)
     else if sf_safety_ok f = Some False then Some (trigger_label FAILED_SAFETY_INVARIANT)
     else map_option normalizedTrigger (sf_trigger f))"

definition system_demotion :: "string \<Rightarrow> string \<Rightarrow> string \<Rightarrow> string \<Rightarrow> string \<Rightarrow> demotion_request" where
  "system_demotion tenant skill version trigger reason =
    \<lparr>dr_tenant_id = tenant, dr_skill_id = skill, dr_policy_version = version, dr_trigger = trigger,
     dr_reason = Some reason, dr_actor = Some (''system:'' @ trigger), dr_audit_ref = None,
     dr_evidence_ref = None, dr_parameters = None\<rparr>"

text \<open>An admission: the workflow and the row it rests on. A demotion parks the draft.\<close>

definition parked_by_demotion :: "policy_row option result \<times> autonomy_state_store \<Rightarrow>
    (autonomy_workflow \<times> policy_row option) result \<times> autonomy_state_store" where
  "parked_by_demotion d = (andThen (fst d) (\<lambda>r. Inr (PARKED_DRAFT, r)), snd d)"

definition admit_current :: "audit_port \<Rightarrow> string \<Rightarrow> admission_request \<Rightarrow> policy_row \<Rightarrow> autonomy_state_store \<Rightarrow>
    (autonomy_workflow \<times> policy_row option) result \<times> autonomy_state_store" where
  "admit_current audit ts q current s =
    (let tenant = trim (aq_tenant_id q); skill = trim (aq_skill_id q);
         version = or_else (trim (aq_policy_version q)) (au_policy_version current);
         recorded = member (au_parameters current) ''required_authority'';
         drifted = (case (aq_required_authority q, recorded) of
           (Some a, JStr b) \<Rightarrow> a \<noteq> b | _ \<Rightarrow> False) in
     if au_state current = PROMOTED \<and> drifted
     then parked_by_demotion (demote audit ts (system_demotion tenant skill version ''POLICY_DRIFT''
            ''Autonomy demoted by POLICY_DRIFT: required authority changed.'') s)
     else case (if au_state current = PROMOTED \<or> au_state current = PAUSED
                then admissionTrigger (effective_safety q) else None) of
         Some trigger \<Rightarrow>
           parked_by_demotion (demote audit ts (system_demotion tenant skill version trigger
             (''Autonomy demoted by '' @ trigger @ ''.'')) s)
       | None \<Rightarrow>
           let admissionAuthority = (case aq_required_authority q of Some a \<Rightarrow> JStr a
             | None \<Rightarrow> (case recorded of JStr b \<Rightarrow> JStr b | _ \<Rightarrow> JStr [])) in
           if au_state current = PROMOTED \<and> \<not> isTenantPaused tenant s \<and> \<not> isKillSwitchSet tenant s
              \<and> isAutonomousAuthority admissionAuthority
           then (Inr (AUTO_EXECUTE, Some current), s)
           else (Inr (PARKED_DRAFT, Some current), s))"

definition admit :: "(string \<Rightarrow> jnum) \<Rightarrow> audit_port \<Rightarrow> string \<Rightarrow> admission_request \<Rightarrow> autonomy_state_store \<Rightarrow>
    (autonomy_workflow \<times> policy_row option) result \<times> autonomy_state_store" where
  "admit parse audit ts q s =
    (let tenant = trim (aq_tenant_id q); skill = trim (aq_skill_id q); version = trim (aq_policy_version q) in
     if tenant = [] \<or> skill = [] then (Inr (UNCHANGED, None), s)
     else if isNeverPromotableSkill skill (opt_json (aq_required_authority q)) then (Inr (UNCHANGED, None), s)
     else let found = (if version = []
         then (case filter (\<lambda>r. au_skill_id r = skill) (listCurrent tenant s) of
                 [] \<Rightarrow> None
               | first # others \<Rightarrow> Some (latest parse others first False))
         else map_option (\<lambda>r. (r, False)) (getCurrent tenant skill version s)) in
     case found of
       None \<Rightarrow> (Inr (UNCHANGED, None), s)
     | Some (current, ambiguous) \<Rightarrow>
         if ambiguous then (Inr (PARKED_DRAFT, Some current), s) else admit_current audit ts q current s)"

subsection \<open>The operations as one step function\<close>

datatype autonomy_op =
    Promote promotion_request | Demote demotion_request | PauseTenant tenant_request
  | ResumeTenant tenant_request | KillSwitch tenant_request | AdmitOp admission_request

datatype autonomy_reply =
    RowReply "policy_row option result" | RowsReply "policy_row list result"
  | AdmitReply "(autonomy_workflow \<times> policy_row option) result"

fun autonomy_exec :: "(string \<Rightarrow> jnum) \<Rightarrow> audit_port \<Rightarrow> string \<times> autonomy_op \<Rightarrow> autonomy_state_store \<Rightarrow>
    autonomy_reply \<times> autonomy_state_store" where
  "autonomy_exec parse audit (ts, Promote q) s = map_prod RowReply id (promote audit ts q s)"
| "autonomy_exec parse audit (ts, Demote q) s = map_prod RowReply id (demote audit ts q s)"
| "autonomy_exec parse audit (ts, PauseTenant q) s = map_prod RowsReply id (pauseTenant audit ts q s)"
| "autonomy_exec parse audit (ts, ResumeTenant q) s = map_prod RowsReply id (resumeTenant audit ts q s)"
| "autonomy_exec parse audit (ts, KillSwitch q) s = map_prod RowsReply id (killSwitch audit ts q s)"
| "autonomy_exec parse audit (ts, AdmitOp q) s = map_prod AdmitReply id (admit parse audit ts q s)"

end
