(* ===== verification/AutonomyProperties.thy ===== *)
theory AutonomyProperties
  imports Autonomy
begin

text \<open>
  What controlled autonomy guarantees over any sequence of operations on an initially empty store: only
  promotable skills are ever promoted or admitted to automatic execution, and the kill switch of a
  tenant is final and leaves no promoted row.
\<close>

definition active :: "policy_row \<Rightarrow> bool" where
  "active r \<longleftrightarrow> au_state r = PROMOTED \<or> au_state r = PAUSED"

definition recorded_authority :: "policy_row \<Rightarrow> json" where
  "recorded_authority r = member (au_parameters r) ''required_authority''"

definition row_sound :: "policy_row \<Rightarrow> bool" where
  "row_sound r \<longleftrightarrow> trim (au_tenant_id r) = au_tenant_id r \<and> trim (au_skill_id r) = au_skill_id r
     \<and> trim (au_policy_version r) = au_policy_version r
     \<and> (active r \<longrightarrow> isPromotableSkill (au_skill_id r) (recorded_authority r))"

definition store_sound :: "autonomy_state_store \<Rightarrow> bool" where
  "store_sound s \<longleftrightarrow> keyed s \<and> (\<forall>r \<in> set (all_rows s). row_sound r)"

lemma store_sound_put: "store_sound s \<Longrightarrow> row_sound r \<Longrightarrow> store_sound (put_row r s)"
  unfolding store_sound_def using keyed_put memory_store.put_all by blast

lemma store_sound_flags [simp]:
  "store_sound (setTenantPaused t b s) = store_sound s" "store_sound (setKillSwitch t b s) = store_sound s"
  by (simp_all add: store_sound_def keyed_def all_rows_def setTenantPaused_def setKillSwitch_def)

lemma all_rows_flags [simp]:
  "all_rows (setTenantPaused t b s) = all_rows s" "all_rows (setKillSwitch t b s) = all_rows s"
  by (simp_all add: all_rows_def setTenantPaused_def setKillSwitch_def)

lemma listCurrent_row: "r \<in> set (listCurrent t s) \<longleftrightarrow> r \<in> set (all_rows s) \<and> au_tenant_id r = t"
  by (auto simp: listCurrent_def all_rows_def)

subsection \<open>The rewritten rows are sound\<close>

lemma autonomous_trim: "isAutonomousAuthority (JStr a) \<Longrightarrow> trim a = a"
  by (auto simp: isAutonomousAuthority_def trim_def is_ws_def)

lemma promotable_trim [simp]: "isPromotableSkill (trim s) a = isPromotableSkill s a"
  by (simp add: isPromotableSkill_def isNeverPromotableSkill_def)

lemma eligible_promotable:
  "checkPromotionEligibility q = ELIGIBLE \<Longrightarrow>
     isPromotableSkill (pr_skill_id q) (JStr (trim (pr_required_authority q)))"
  by (auto simp: checkPromotionEligibility_def Let_def autonomous_trim split: if_splits)

lemma rewritten_sound:
  "row_sound r \<Longrightarrow> row_sound (demoted_row ts q r)"
  "row_sound r \<Longrightarrow> au_state r = PROMOTED \<Longrightarrow> row_sound (paused_row ts p r)"
  "row_sound r \<Longrightarrow> au_state r = PAUSED \<Longrightarrow> row_sound (resumed_row ts p r)"
  by (simp_all add: row_sound_def active_def recorded_authority_def demoted_row_def paused_row_def
      resumed_row_def Let_def member_update)

lemma each_row_keeps:
  assumes "\<And>r s. r \<in> set rs \<Longrightarrow> P s \<Longrightarrow> P (snd (step r s))"
  shows "P s \<Longrightarrow> P (snd (each_row step rs s))"
  using assms
proof (induction rs arbitrary: s)
  case Nil
  then show ?case by simp
next
  case (Cons r rs)
  have "P (snd (step r s))" using Cons.prems by simp
  then have "P (snd (each_row step rs (snd (step r s))))" using Cons.IH Cons.prems(2) by simp
  with \<open>P (snd (step r s))\<close> show ?case
    by (cases "step r s"; cases "fst (step r s)"; cases "each_row step rs (snd (step r s))")
      (auto split: sum.splits)
qed

lemma demote_store:
  "snd (demote audit ts q s) = s \<or> (\<exists>c. getCurrent (trim (dr_tenant_id q)) (trim (dr_skill_id q))
     (trim (dr_policy_version q)) s = Some c \<and> snd (demote audit ts q s) = put_row (demoted_row ts q c) s)"
  by (simp add: demote_def store_and_audit_def split: option.split)

lemma demote_sound: "store_sound s \<Longrightarrow> store_sound (snd (demote audit ts q s))"
  using demote_store [of audit ts q s] getCurrent_row store_sound_put rewritten_sound(1)
  by (metis store_sound_def)

lemma rewritten_store [simp]: "snd (rewritten audit k a r s) = put_row r s"
  by (simp add: rewritten_def store_and_audit_def)

lemma promote_sound: "store_sound s \<Longrightarrow> store_sound (snd (promote audit ts q s))"
proof -
  assume s: "store_sound s"
  have t: "trim (trim_opt v) = trim_opt v" for v by (simp add: trim_opt_def split: option.split)
  show ?thesis
    using s eligible_promotable [of q]
    by (auto simp: promote_def Let_def store_and_audit_def row_sound_def recorded_authority_def member_update t
        intro!: store_sound_put)
qed

lemma listed_sound: "r \<in> set (listCurrent t s) \<Longrightarrow> store_sound s \<Longrightarrow> row_sound r"
  by (simp add: listCurrent_row store_sound_def)

lemma pause_sound:
  assumes "store_sound s"
  shows "store_sound (snd (pauseTenant audit ts q s))"
  unfolding pauseTenant_def Let_def
proof (rule each_row_keeps)
  fix r s'
  assume "r \<in> set (listCurrent (trim (tr_tenant_id q)) (setTenantPaused (trim (tr_tenant_id q)) True s))"
    and s': "store_sound s'"
  then have "row_sound r" using listed_sound assms by simp
  then show "store_sound (snd (if au_state r \<noteq> PROMOTED then (Inr None, s')
      else rewritten audit EvPaused (tr_actor q) (paused_row ts q r) s'))"
    using s' store_sound_put rewritten_sound(2) by simp
qed (use assms in simp)

lemma resume_sound:
  assumes "store_sound s"
  shows "store_sound (snd (resumeTenant audit ts q s))"
proof -
  have "store_sound (snd (each_row (\<lambda>r s. if au_state r \<noteq> PAUSED \<or> au_previous r \<noteq> ApprovedPromoted then (Inr None, s)
         else rewritten audit EvResumed (tr_actor q) (resumed_row ts q r) s)
       (listCurrent (trim (tr_tenant_id q)) s) (setTenantPaused (trim (tr_tenant_id q)) False s)))"
  proof (rule each_row_keeps)
    fix r s'
    assume "r \<in> set (listCurrent (trim (tr_tenant_id q)) s)" and s': "store_sound s'"
    then have "row_sound r" using listed_sound assms by simp
    then show "store_sound (snd (if au_state r \<noteq> PAUSED \<or> au_previous r \<noteq> ApprovedPromoted then (Inr None, s')
         else rewritten audit EvResumed (tr_actor q) (resumed_row ts q r) s'))"
      using s' store_sound_put rewritten_sound(3) by simp
  qed (use assms in simp)
  then show ?thesis using assms by (simp add: resumeTenant_def Let_def)
qed

text \<open>The loop of the kill switch, as a step on one row.\<close>

definition kill_row :: "audit_port \<Rightarrow> string \<Rightarrow> tenant_request \<Rightarrow> policy_row \<Rightarrow> autonomy_state_store \<Rightarrow>
    policy_row option result \<times> autonomy_state_store" where
  "kill_row audit ts q r s = (if au_state r \<noteq> PROMOTED \<and> au_state r \<noteq> PAUSED then (Inr None, s)
     else demote audit ts \<lparr>dr_tenant_id = trim (tr_tenant_id q), dr_skill_id = au_skill_id r,
       dr_policy_version = au_policy_version r, dr_trigger = ''OPERATOR_KILL_SWITCH'',
       dr_reason = Some (trimmed_or (tr_reason q) ''Tenant autonomy killed by operator.''),
       dr_actor = tr_actor q, dr_audit_ref = tr_audit_ref q, dr_evidence_ref = None, dr_parameters = None\<rparr> s)"

lemma killSwitch_loop:
  "snd (killSwitch audit ts q s) =
    (let s1 = setKillSwitch (trim (tr_tenant_id q)) True s;
         loop = each_row (kill_row audit ts q) (listCurrent (trim (tr_tenant_id q)) s1) s1 in
     if succeeds (fst loop) then setTenantPaused (trim (tr_tenant_id q)) True (snd loop) else snd loop)"
  "succeeds (fst (killSwitch audit ts q s)) \<Longrightarrow>
     succeeds (fst (each_row (kill_row audit ts q)
       (listCurrent (trim (tr_tenant_id q)) (setKillSwitch (trim (tr_tenant_id q)) True s))
       (setKillSwitch (trim (tr_tenant_id q)) True s)))"
  by (auto simp: killSwitch_def kill_row_def [abs_def] Let_def split_def split: sum.splits)

lemma kill_sound:
  assumes "store_sound s"
  shows "store_sound (snd (killSwitch audit ts q s))"
proof -
  let ?s1 = "setKillSwitch (trim (tr_tenant_id q)) True s"
  have "store_sound (snd (each_row (kill_row audit ts q) (listCurrent (trim (tr_tenant_id q)) ?s1) ?s1))"
    by (rule each_row_keeps) (use assms demote_sound in \<open>auto simp: kill_row_def\<close>)
  then show ?thesis by (simp add: killSwitch_loop Let_def)
qed

lemma admit_sound: "store_sound s \<Longrightarrow> store_sound (snd (admit parse audit ts q s))"
  by (auto simp: admit_def admit_current_def parked_by_demotion_def Let_def demote_sound
      split: option.split list.split prod.split)

interpretation autonomy_tables: invariant_system "autonomy_exec parse audit" store_sound for parse audit
proof
  fix s and x :: "string \<times> autonomy_op"
  assume s: "store_sound s"
  obtain ts y where x: "x = (ts, y)" by (cases x)
  show "store_sound (snd (autonomy_exec parse audit x s))"
    unfolding x using s
    by (cases y) (simp_all add: promote_sound demote_sound pause_sound resume_sound kill_sound admit_sound)
qed

subsection \<open>The kill switch\<close>

lemma put_flags [simp]:
  "isKillSwitchSet t (put_row r s) = isKillSwitchSet t s" "isTenantPaused t (put_row r s) = isTenantPaused t s"
  by (rule memory_store.put_keeps_flags)+

lemma killed_flags [simp]:
  "isKillSwitchSet t (setTenantPaused t' b s) = isKillSwitchSet t s"
  "isKillSwitchSet t (setKillSwitch t' True s) = (t = t' \<or> isKillSwitchSet t s)"
  by (simp_all add: isKillSwitchSet_def setTenantPaused_def setKillSwitch_def)

lemma demote_killed [simp]: "isKillSwitchSet t (snd (demote audit ts q s)) = isKillSwitchSet t s"
  using demote_store [of audit ts q s] by auto

lemma each_row_killed:
  assumes "\<And>r s. isKillSwitchSet t s \<Longrightarrow> isKillSwitchSet t (snd (step r s))"
  shows "isKillSwitchSet t s \<Longrightarrow> isKillSwitchSet t (snd (each_row step rs s))"
  by (rule each_row_keeps [where P = "isKillSwitchSet t"]) (use assms in simp_all)

lemma operations_keep_kill_switch:
  assumes "isKillSwitchSet t s"
  shows "isKillSwitchSet t (snd (promote audit ts p s))" "isKillSwitchSet t (snd (pauseTenant audit ts q s))"
    "isKillSwitchSet t (snd (resumeTenant audit ts q s))" "isKillSwitchSet t (snd (killSwitch audit ts q s))"
    "isKillSwitchSet t (snd (admit parse audit ts a s))"
proof -
  show "isKillSwitchSet t (snd (promote audit ts p s))"
    using assms by (simp add: promote_def Let_def store_and_audit_def)
  show "isKillSwitchSet t (snd (pauseTenant audit ts q s))"
    unfolding pauseTenant_def Let_def by (rule each_row_killed) (use assms in simp_all)
  show "isKillSwitchSet t (snd (resumeTenant audit ts q s))"
    using assms by (auto simp: resumeTenant_def Let_def intro!: each_row_killed)
  show "isKillSwitchSet t (snd (killSwitch audit ts q s))"
    using assms by (auto simp: killSwitch_loop Let_def kill_row_def [abs_def] intro!: each_row_killed)
  show "isKillSwitchSet t (snd (admit parse audit ts a s))"
    using assms by (auto simp: admit_def admit_current_def parked_by_demotion_def Let_def
      split: option.split list.split prod.split)
qed

interpretation kill_latch: invariant_system "autonomy_exec parse audit" "isKillSwitchSet t" for parse audit t
proof
  fix s and x :: "string \<times> autonomy_op"
  assume s: "isKillSwitchSet t s"
  obtain ts y where x: "x = (ts, y)" by (cases x)
  show "isKillSwitchSet t (snd (autonomy_exec parse audit x s))"
    unfolding x using s by (cases y) (simp_all add: operations_keep_kill_switch)
qed

lemma admit_current_executes:
  assumes "fst (admit_current audit ts q c s) = Inr (AUTO_EXECUTE, r)"
  shows "r = Some c \<and> au_state c = PROMOTED
    \<and> \<not> isTenantPaused (trim (aq_tenant_id q)) s \<and> \<not> isKillSwitchSet (trim (aq_tenant_id q)) s
    \<and> (case aq_required_authority q of None \<Rightarrow> True
       | Some a \<Rightarrow> isAutonomousAuthority (JStr a) \<and> (\<forall>b. recorded_authority c = JStr b \<longrightarrow> a = b))"
  using assms
  by (auto simp: admit_current_def parked_by_demotion_def recorded_authority_def Let_def andThen_Inr_iff
      split: option.splits if_splits json.splits)

lemma latest_member: "fst (latest parse cs c am) \<in> insert c (set cs)"
  by (induction cs arbitrary: c am) (auto simp: Let_def split: if_splits)

lemma latest_beats:
  assumes "\<forall>d \<in> insert c0 (S \<union> set cs). parse (au_effective_at d) = Fin (f d)"
    and "\<forall>d \<in> S. d \<noteq> c0 \<longrightarrow> f d < f c0 \<or> (am \<and> f d = f c0)" and "latest parse cs c0 am = (c, False)"
  shows "\<forall>d \<in> insert c0 (S \<union> set cs). d \<noteq> c \<longrightarrow> f d < f c"
  using assms
proof (induction cs arbitrary: c0 S am)
  case Nil
  then show ?case by auto
next
  case (Cons x cs)
  have fin: "parse (au_effective_at x) = Fin (f x)" "parse (au_effective_at c0) = Fin (f c0)" using Cons.prems(1) by auto
  then have cmp: "compareEffectiveAt parse (au_effective_at x) (au_effective_at c0)
      = (if f x < f c0 then -1 else if f c0 < f x then 1 else 0)" by (simp add: compareEffectiveAt_def)
  let ?S = "insert c0 (insert x S)"
  have all: "insert c0 (S \<union> set (x # cs)) = insert c0 (?S \<union> set cs)"
    "insert c0 (S \<union> set (x # cs)) = insert x (?S \<union> set cs)" by auto
  consider (less) "f x < f c0" | (more) "f c0 < f x" | (same) "f x = f c0" by (meson not_less_iff_gr_or_eq)
  then show ?case
  proof cases
    case less
    then have "latest parse cs c0 am = (c, False)" using Cons.prems(3) cmp by (simp add: Let_def)
    moreover have "\<forall>d \<in> ?S. d \<noteq> c0 \<longrightarrow> f d < f c0 \<or> (am \<and> f d = f c0)" using less Cons.prems(2) by auto
    ultimately show ?thesis unfolding all(1) using Cons.IH [of c0 ?S am] Cons.prems(1) by simp
  next
    case more
    then have "latest parse cs x False = (c, False)" using Cons.prems(3) cmp by (simp add: Let_def)
    moreover have "\<forall>d \<in> ?S. d \<noteq> x \<longrightarrow> f d < f x \<or> (False \<and> f d = f x)" using more Cons.prems(2) by auto
    ultimately show ?thesis unfolding all(2) using Cons.IH [of x ?S False] Cons.prems(1) by simp
  next
    case same
    then have "latest parse cs c0 True = (c, False)" using Cons.prems(3) cmp by (simp add: Let_def)
    moreover have "\<forall>d \<in> ?S. d \<noteq> c0 \<longrightarrow> f d < f c0 \<or> (True \<and> f d = f c0)" using same Cons.prems(2) by auto
    ultimately show ?thesis unfolding all(1) using Cons.IH [of c0 ?S True] Cons.prems(1) by simp
  qed
qed

text \<open>
  The row an admission may rest on: of its tenant and skill; of the version it names, or, when it names none,
  the one row of that tenant and skill with the latest effective date, if the dates can be compared.
\<close>

definition requested_row :: "(string \<Rightarrow> jnum) \<Rightarrow> admission_request \<Rightarrow> autonomy_state_store \<Rightarrow> policy_row \<Rightarrow> bool" where
  "requested_row parse q s c \<longleftrightarrow> c \<in> set (all_rows s) \<and> au_tenant_id c = trim (aq_tenant_id q)
     \<and> au_skill_id c = trim (aq_skill_id q)
     \<and> (trim (aq_policy_version q) \<noteq> [] \<longrightarrow> au_policy_version c = trim (aq_policy_version q))
     \<and> (trim (aq_policy_version q) = [] \<longrightarrow>
          (let rivals = {d \<in> set (all_rows s). au_tenant_id d = au_tenant_id c \<and> au_skill_id d = au_skill_id c}
           in (\<forall>d \<in> rivals. is_finite (parse (au_effective_at d))) \<longrightarrow>
              (\<forall>d \<in> rivals. d \<noteq> c \<longrightarrow> num_less (parse (au_effective_at d)) (parse (au_effective_at c)))))"

text \<open>The key of a row joins its parts by NUL characters, and names them when the parts hold none.\<close>

definition nul_free :: "string \<Rightarrow> bool" where
  "nul_free s \<longleftrightarrow> CHR 0x00 \<notin> set s"

lemma joined_nul:
  "nul_free a \<Longrightarrow> a @ CHR 0x00 # b = a' @ CHR 0x00 # b' \<Longrightarrow> nul_free a' \<Longrightarrow> a = a' \<and> b = b'"
  by (induction a arbitrary: a') (auto simp: nul_free_def Cons_eq_append_conv)

lemma count_nul: "count_list (store_key t k v) CHR 0x00 = count_list t CHR 0x00 + count_list k CHR 0x00 + count_list v CHR 0x00 + 2"
  by (simp add: store_key_def)

lemma store_key_parts:
  assumes "store_key t k v = store_key t' k' v'" and "nul_free t" "nul_free k" "nul_free v"
  shows "t = t' \<and> k = k' \<and> v = v'"
proof -
  have z: "nul_free x \<longleftrightarrow> count_list x CHR 0x00 = 0" for x by (simp add: nul_free_def count_list_0_iff)
  have "count_list t' CHR 0x00 + count_list k' CHR 0x00 + count_list v' CHR 0x00 = 0"
    using count_nul [of t k v] count_nul [of t' k' v'] assms unfolding z by simp
  then have f: "nul_free t'" "nul_free k'" unfolding z by simp_all
  have "t @ CHR 0x00 # (k @ CHR 0x00 # v) = t' @ CHR 0x00 # (k' @ CHR 0x00 # v')"
    using assms(1) by (simp add: store_key_def)
  from joined_nul [OF assms(2) this f(1)] joined_nul [OF assms(3) _ f(2)] show ?thesis by blast
qed

lemma keyed_lookup:
  assumes "keyed s" "getCurrent t k v s = Some c" "nul_free t" "nul_free k" "nul_free v"
  shows "au_tenant_id c = t \<and> au_skill_id c = k \<and> au_policy_version c = v"
proof -
  have "(store_key t k v, c) \<in> set (as_current s)" using assms(2) by (auto simp: getCurrent_def dest: map_of_SomeD)
  then have "store_key t k v = store_key (au_tenant_id c) (au_skill_id c) (au_policy_version c)"
    using assms(1) by (auto simp: keyed_def list_all_iff row_key_def)
  from store_key_parts [OF this assms(3-5)] show ?thesis by simp
qed

definition nul_free_request :: "admission_request \<Rightarrow> bool" where
  "nul_free_request q \<longleftrightarrow> nul_free (trim (aq_tenant_id q)) \<and> nul_free (trim (aq_skill_id q))
     \<and> nul_free (trim (aq_policy_version q))"

lemma admit_executing:
  assumes "fst (admit parse audit ts q s) = Inr (AUTO_EXECUTE, r)"
  shows "\<exists>c. fst (admit_current audit ts q c s) = Inr (AUTO_EXECUTE, r)"
  using assms by (auto simp: admit_def Let_def split: if_splits option.splits list.splits prod.splits)

lemma admit_executes:
  assumes "fst (admit parse audit ts q s) = Inr (AUTO_EXECUTE, r)" and "keyed s"
  obtains c where "nul_free_request q \<Longrightarrow> requested_row parse q s c" "c \<in> set (all_rows s)" "fst (admit_current audit ts q c s) = Inr (AUTO_EXECUTE, r)"
proof -
  let ?t = "trim (aq_tenant_id q)" and ?k = "trim (aq_skill_id q)" and ?v = "trim (aq_policy_version q)"
  let ?cands = "filter (\<lambda>r. au_skill_id r = ?k) (listCurrent ?t s)"
  show ?thesis
  proof (cases "?v = []")
    case True
    then obtain first others where f: "?cands = first # others"
      using assms(1) by (cases ?cands) (auto simp: admit_def Let_def split: if_splits)
    obtain c am where l: "latest parse others first False = (c, am)" by fastforce
    have a: "\<not> am" "fst (admit_current audit ts q c s) = Inr (AUTO_EXECUTE, r)"
      using assms(1) True f l by (auto simp: admit_def Let_def split: if_splits)
    have cs: "insert first (set others) = {d \<in> set (all_rows s). au_tenant_id d = ?t \<and> au_skill_id d = ?k}"
      unfolding list.set(2) [symmetric] f [symmetric] by (auto simp: listCurrent_row)
    have "c \<in> insert first (set others)" using latest_member [of parse others first False] l by auto
    then have c: "c \<in> set (all_rows s)" "au_tenant_id c = ?t" "au_skill_id c = ?k" unfolding cs by simp_all
    have "num_less (parse (au_effective_at d)) (parse (au_effective_at c))"
      if fin: "\<forall>d \<in> insert first (set others). is_finite (parse (au_effective_at d))"
        and d: "d \<in> insert first (set others)" "d \<noteq> c" for d
    proof -
      have "\<exists>q. n = Fin q" if "is_finite n" for n using that by (cases n) simp_all
      then have "\<forall>d \<in> insert first (set others). \<exists>q. parse (au_effective_at d) = Fin q" using fin by blast
      then obtain g where g: "\<forall>d \<in> insert first (set others). parse (au_effective_at d) = Fin (g d)" by metis
      from latest_beats [of first "{}" others parse g False c] g l a(1)
      have "\<forall>d \<in> insert first (set others). d \<noteq> c \<longrightarrow> g d < g c" by simp
      then have "g d < g c" using d by blast
      moreover have "parse (au_effective_at d) = Fin (g d)" "parse (au_effective_at c) = Fin (g c)"
        using g d(1) \<open>c \<in> insert first (set others)\<close> by blast+
      ultimately show ?thesis by simp
    qed
    then have "requested_row parse q s c"
      unfolding requested_row_def Let_def c(2,3) cs [symmetric] using c True by simp
    then show ?thesis using that a(2) c(1) by blast
  next
    case False
    then obtain c where g: "getCurrent ?t ?k ?v s = Some c"
      using assms(1) by (auto simp: admit_def Let_def split: if_splits option.splits)
    have "nul_free_request q \<Longrightarrow> requested_row parse q s c"
      using getCurrent_row [OF g] keyed_lookup [OF assms(2) g] False by (simp add: requested_row_def nul_free_request_def)
    then show ?thesis using getCurrent_row [OF g]
      by (rule that) (use assms(1) False g in \<open>auto simp: admit_def Let_def split: if_splits\<close>)
  qed
qed

lemma admit_current_untriggered:
  "fst (admit_current audit ts q c s) = Inr (AUTO_EXECUTE, r) \<Longrightarrow> admissionTrigger (effective_safety q) = None"
  by (auto simp: admit_current_def parked_by_demotion_def Let_def andThen_Inr_iff split: option.splits if_splits json.splits)

text \<open>
  C18: whatever operations were run on an initially empty store, an admission to automatic execution rests
  on a stored row of the requested tenant and skill - of the requested version, or else the strictly latest
  one where the dates can be compared - that is promoted, for a promotable skill and an autonomous
  authority; the tenant is neither paused nor killed, no safety signal of the request asks for a demotion,
  and the authority required now is the one recorded at promotion. The request holds no NUL character,
  by which the store joins the parts of its keys.
\<close>

theorem automatic_execution_is_earned:
  assumes "s = snd (run_ops (autonomy_exec parse audit) ops empty_store)"
    and "fst (admit parse audit ts q s) = Inr (AUTO_EXECUTE, r)" and "nul_free_request q"
  shows "\<exists>c. r = Some c \<and> requested_row parse q s c \<and> au_state c = PROMOTED
    \<and> isPromotableSkill (au_skill_id c) (recorded_authority c)
    \<and> \<not> isTenantPaused (trim (aq_tenant_id q)) s \<and> \<not> isKillSwitchSet (trim (aq_tenant_id q)) s
    \<and> admissionTrigger (effective_safety q) = None
    \<and> (case aq_required_authority q of None \<Rightarrow> True | Some a \<Rightarrow> recorded_authority c = JStr a)"
proof -
  have "store_sound empty_store" by (simp add: store_sound_def all_rows_def empty_store_def keyed_def)
  then have s: "store_sound s" unfolding assms(1) by (rule autonomy_tables.inv_run)
  then have "keyed s" by (simp add: store_sound_def)
  then obtain c where c: "requested_row parse q s c" "fst (admit_current audit ts q c s) = Inr (AUTO_EXECUTE, r)"
    using admit_executes [OF assms(2)] assms(3) by blast
  note a = admit_current_executes [OF c(2)]
  have "c \<in> set (all_rows s)" using c(1) by (simp add: requested_row_def)
  then have p: "isPromotableSkill (au_skill_id c) (recorded_authority c)"
    using s a by (auto simp: store_sound_def row_sound_def active_def)
  then obtain b where "recorded_authority c = JStr b"
    by (auto simp: isPromotableSkill_def isAutonomousAuthority_def)
  then show ?thesis using a c p admit_current_untriggered [OF c(2)] by (intro exI [of _ c]) (auto split: option.splits)
qed

text \<open>
  C19: the kill switch of a tenant is final: after it was thrown, even if the audit port failed on the
  way, no later admission of that tenant is automatic, no promotion is accepted and no resumption
  succeeds, whatever operations come in between.
\<close>

theorem kill_switch_is_final:
  assumes "s = snd (run_ops (autonomy_exec parse audit) ops (snd (killSwitch audit ts k s0)))"
    and "trim (aq_tenant_id q) = trim (tr_tenant_id k)" and "trim (pr_tenant_id p) = trim (tr_tenant_id k)"
    and "trim (tr_tenant_id m) = trim (tr_tenant_id k)"
  shows "fst (admit parse audit ts' q s) \<noteq> Inr (AUTO_EXECUTE, r)
    \<and> fst (promote audit ts' p s) = Inr None \<and> \<not> succeeds (fst (resumeTenant audit ts' m s))"
proof -
  have "isKillSwitchSet (trim (tr_tenant_id k)) (snd (killSwitch audit ts k s0))"
    by (auto simp: killSwitch_loop Let_def kill_row_def [abs_def] intro!: each_row_killed)
  then have kl: "isKillSwitchSet (trim (tr_tenant_id k)) s" unfolding assms(1) by (rule kill_latch.inv_run)
  have "fst (admit parse audit ts' q s) \<noteq> Inr (AUTO_EXECUTE, r)"
  proof
    assume "fst (admit parse audit ts' q s) = Inr (AUTO_EXECUTE, r)"
    from admit_executing [OF this] obtain c where "fst (admit_current audit ts' q c s) = Inr (AUTO_EXECUTE, r)" by blast
    from admit_current_executes [OF this] show False using kl assms(2) by simp
  qed
  moreover have "fst (promote audit ts' p s) = Inr None" using kl assms(3) by (simp add: promote_def Let_def)
  moreover have "\<not> succeeds (fst (resumeTenant audit ts' m s))"
    using kl assms(4) by (simp add: resumeTenant_def Let_def)
  ultimately show ?thesis by simp
qed

lemma demoted_fields [simp]:
  "au_tenant_id (demoted_row ts d c) = au_tenant_id c" "au_skill_id (demoted_row ts d c) = au_skill_id c"
  "au_policy_version (demoted_row ts d c) = au_policy_version c"
  by (simp_all add: demoted_row_def Let_def)

lemma kill_row_active:
  assumes "store_sound s" and "row_sound r" and "au_tenant_id r = trim (tr_tenant_id q)"
  shows "{x \<in> set (all_rows (snd (kill_row audit ts q r s))). active x} \<subseteq> {x \<in> set (all_rows s). active x} - {r}"
proof (cases "active r")
  case False
  then show ?thesis by (auto simp: kill_row_def active_def)
next
  case True
  let ?d = "\<lparr>dr_tenant_id = trim (tr_tenant_id q), dr_skill_id = au_skill_id r,
       dr_policy_version = au_policy_version r, dr_trigger = ''OPERATOR_KILL_SWITCH'',
       dr_reason = Some (trimmed_or (tr_reason q) ''Tenant autonomy killed by operator.''),
       dr_actor = tr_actor q, dr_audit_ref = tr_audit_ref q, dr_evidence_ref = None, dr_parameters = None\<rparr>"
  have k: "kill_row audit ts q r s = demote audit ts ?d s" using True by (auto simp: kill_row_def active_def)
  have key: "getCurrent (trim (dr_tenant_id ?d)) (trim (dr_skill_id ?d)) (trim (dr_policy_version ?d)) s
      = getCurrent (au_tenant_id r) (au_skill_id r) (au_policy_version r) s"
    using assms(2,3) by (simp add: row_sound_def)
  show ?thesis
  proof (cases "getCurrent (au_tenant_id r) (au_skill_id r) (au_policy_version r) s")
    case None
    then have "r \<notin> set (all_rows s)" using keyed_getCurrent assms(1) by (fastforce simp: store_sound_def)
    moreover have "snd (kill_row audit ts q r s) = s" unfolding k demote_def key None by simp
    ultimately show ?thesis by auto
  next
    case (Some c)
    have snd: "snd (kill_row audit ts q r s) = put_row (demoted_row ts ?d c) s"
      unfolding k demote_def key Some store_and_audit_def by simp
    have dem: "\<not> active (demoted_row ts ?d c)" by (simp add: active_def demoted_row_def Let_def)
    have r: "r \<notin> set (all_rows (put_row (demoted_row ts ?d c) s))"
    proof (cases "r \<in> set (all_rows s)")
      case True
      with assms(1) Some have cr: "c = r" using keyed_getCurrent by (fastforce simp: store_sound_def)
      have "r \<noteq> demoted_row ts ?d c" using dem \<open>active r\<close> by metis
      with memory_store.put_replaces [of s "demoted_row ts ?d c" r] show ?thesis
        using assms(1) Some cr by (simp add: store_sound_def)
    next
      case False
      then show ?thesis using memory_store.put_rows [of "demoted_row ts ?d c" s] dem \<open>active r\<close> by auto
    qed
    show ?thesis unfolding snd using r dem memory_store.put_rows [of "demoted_row ts ?d c" s] by auto
  qed
qed

lemma kill_row_sound: "store_sound s \<Longrightarrow> store_sound (snd (kill_row audit ts q r s))"
  by (simp add: kill_row_def demote_sound)

lemma kill_loop_clears:
  assumes "store_sound s" and "\<And>r. r \<in> set rs \<Longrightarrow> row_sound r \<and> au_tenant_id r = trim (tr_tenant_id q)"
    and "succeeds (fst (each_row (kill_row audit ts q) rs s))"
  shows "{x \<in> set (all_rows (snd (each_row (kill_row audit ts q) rs s))). active x}
    \<subseteq> {x \<in> set (all_rows s). active x} - set rs"
  using assms
proof (induction rs arbitrary: s)
  case Nil
  then show ?case by simp
next
  case (Cons r rs)
  let ?s = "snd (kill_row audit ts q r s)"
  obtain x where x: "fst (kill_row audit ts q r s) = Inr x"
    using Cons.prems(3) by (cases "kill_row audit ts q r s"; cases "fst (kill_row audit ts q r s)") auto
  have su: "succeeds (fst (each_row (kill_row audit ts q) rs ?s))"
    using Cons.prems(3) x
    by (cases "kill_row audit ts q r s"; cases "each_row (kill_row audit ts q) rs ?s") (auto split: sum.splits)
  have e: "snd (each_row (kill_row audit ts q) (r # rs) s) = snd (each_row (kill_row audit ts q) rs ?s)"
    using x by (cases "kill_row audit ts q r s"; cases "each_row (kill_row audit ts q) rs ?s") (auto split: sum.splits)
  have "{x \<in> set (all_rows ?s). active x} \<subseteq> {x \<in> set (all_rows s). active x} - {r}"
    by (rule kill_row_active) (use Cons.prems in auto)
  moreover have "{x \<in> set (all_rows (snd (each_row (kill_row audit ts q) rs ?s))). active x}
    \<subseteq> {x \<in> set (all_rows ?s). active x} - set rs"
    by (rule Cons.IH [OF kill_row_sound [OF Cons.prems(1)] _ su]) (use Cons.prems(2) in auto)
  ultimately show ?case unfolding e by auto
qed

text \<open>
  when the kill switch returns, no row of the tenant is promoted or paused any more.
\<close>

theorem kill_switch_demotes_every_row:
  assumes "s = snd (run_ops (autonomy_exec parse audit) ops empty_store)"
    and "succeeds (fst (killSwitch audit ts q s))"
  shows "list_all (\<lambda>r. \<not> active r) (listCurrent (trim (tr_tenant_id q)) (snd (killSwitch audit ts q s)))"
proof -
  have "store_sound empty_store" by (simp add: store_sound_def all_rows_def empty_store_def keyed_def)
  then have s: "store_sound s" unfolding assms(1) by (rule autonomy_tables.inv_run)
  let ?t = "trim (tr_tenant_id q)"
  let ?s1 = "setKillSwitch ?t True s"
  note ok = killSwitch_loop(2) [OF assms(2)]
  have ss: "store_sound ?s1" using s by simp
  have "{x \<in> set (all_rows (snd (each_row (kill_row audit ts q) (listCurrent ?t ?s1) ?s1))). active x}
      \<subseteq> {x \<in> set (all_rows ?s1). active x} - set (listCurrent ?t ?s1)"
    by (rule kill_loop_clears [OF ss _ ok]) (use listed_sound [OF _ ss] in \<open>simp add: listCurrent_row\<close>)
  then show ?thesis
    using ok by (auto simp: killSwitch_loop(1) Let_def list_all_iff listCurrent_row)
qed

subsection \<open>A concrete session\<close>

definition example_promotion :: promotion_request where
  "example_promotion = \<lparr>pr_policy_id = None, pr_policy_version = Some ''v1'', pr_tenant_id = ''t1'',
    pr_skill_id = ''skill.care.search_faq'', pr_required_authority = ''AUTH-1'',
    pr_evidence_window_ref = Some ''w1'', pr_evidence_ref = None, pr_audit_ref = None,
    pr_authority_violations = Some (Fin 0), pr_duplicate_effects = Some (Fin 0), pr_audit_complete = Some True,
    pr_evidence_complete = Some True, pr_approver_id = Some ''ann'', pr_parameters = None, pr_reason = None,
    pr_latency = JUndef, pr_cost = JUndef, pr_latency_provenance_ref = None, pr_cost_provenance_ref = None\<rparr>"

definition example_admission :: admission_request where
  "example_admission = \<lparr>aq_tenant_id = ''t1'', aq_skill_id = ''skill.care.search_faq'', aq_policy_version = ''v1'',
    aq_required_authority = Some ''AUTH-1'', aq_safety = no_safety, aq_nested_safety = None\<rparr>"

definition example_kill :: tenant_request where
  "example_kill = \<lparr>tr_tenant_id = '' t1 '', tr_reason = None, tr_audit_ref = None, tr_actor = Some ''ann''\<rparr>"

theorem automatic_execution_is_earned_witness:
  "\<exists>c. fst (admit (\<lambda>_. NaN) None ''2027'' example_admission
      (snd (run_ops (autonomy_exec (\<lambda>_. NaN) None) [(''2026'', Promote example_promotion)] empty_store)))
    = Inr (AUTO_EXECUTE, Some c) \<and> isPromotableSkill (au_skill_id c) (recorded_authority c)"
proof -
  let ?s = "snd (run_ops (autonomy_exec (\<lambda>_. NaN) None) [(''2026'', Promote example_promotion)] empty_store)"
  have "case fst (admit (\<lambda>_. NaN) None ''2027'' example_admission ?s) of Inr (AUTO_EXECUTE, _) \<Rightarrow> True | _ \<Rightarrow> False"
    by code_simp
  then obtain r where r: "fst (admit (\<lambda>_. NaN) None ''2027'' example_admission ?s) = Inr (AUTO_EXECUTE, r)"
    by (auto split: sum.splits prod.splits autonomy_workflow.splits)
  have "nul_free_request example_admission"
    by (simp add: nul_free_request_def nul_free_def example_admission_def trim_def is_ws_def)
  from automatic_execution_is_earned [OF refl r this] show ?thesis using r by auto
qed

theorem kill_switch_is_final_witness:
  "fst (promote None ''2027'' example_promotion
     (snd (run_ops (autonomy_exec (\<lambda>_. NaN) None) [(''2026'', Promote example_promotion)]
       (snd (killSwitch None ''2025'' example_kill empty_store))))) = Inr None"
proof -
  have t: "trim (aq_tenant_id example_admission) = trim (tr_tenant_id example_kill)"
    "trim (pr_tenant_id example_promotion) = trim (tr_tenant_id example_kill)"
    by (simp_all add: example_admission_def example_promotion_def example_kill_def trim_def is_ws_def)
  from kill_switch_is_final [OF refl t refl] show ?thesis by blast
qed

theorem kill_switch_demotes_every_row_witness:
  "list_all (\<lambda>r. \<not> active r) (listCurrent ''t1'' (snd (killSwitch None ''2027'' example_kill
     (snd (run_ops (autonomy_exec (\<lambda>_. NaN) None) [(''2026'', Promote example_promotion)] empty_store)))))"
proof -
  have "succeeds (fst (killSwitch None ''2027'' example_kill
     (snd (run_ops (autonomy_exec (\<lambda>_. NaN) None) [(''2026'', Promote example_promotion)] empty_store))))"
    by code_simp
  from kill_switch_demotes_every_row [OF refl this] show ?thesis
    by (simp add: example_kill_def trim_def is_ws_def)
qed

end
