(* ===== verification/Budget.thy ===== *)
theory Budget
  imports Contracts Session
begin

text \<open>
  The token budget guard of \<open>packages/core-engine/src/cost/budget.ts\<close>. Token counts are integers: every
  count that enters a comparison is a safe integer or a sum of a few of them, and such a sum compares
  with a safe limit as its rounding does; without a limit the reported totals are exact below
  \<open>2 ^ 53\<close> only.
\<close>

datatype budget_exceed = FAIL_CLOSED | PARK

record budget_guard =
  bg_tokenBudget :: "int option"
  bg_perRunTokenBudget :: "int option"
  bg_onExceed :: budget_exceed
  bg_useCache :: bool
  bg_usedTokens :: int
  bg_tenantUsage :: "string \<rightharpoonup> int"
  bg_runUsage :: "string \<rightharpoonup> int"

record budget_usage =
  bu_run_id :: string
  bu_tenant_id :: "string option"
  bu_input_tokens :: "jnum option"
  bu_output_tokens :: "jnum option"
  bu_cached_tokens :: "jnum option"

datatype budget_status = ALLOWED | PARKED | BUDGET_FAILED

datatype budget_action = ACTION_ALLOW | ACTION_PARK | ACTION_FAIL_CLOSED

datatype budget_reason = WITHIN_BUDGET | NO_BUDGET_CONFIGURED | TOKEN_BUDGET_EXCEEDED

record budget_decision =
  bd_status :: budget_status
  bd_action :: budget_action
  bd_allowed :: bool
  bd_reason :: budget_reason
  bd_requested_tokens :: int
  bd_total_tokens :: int
  bd_run_tokens :: int
  bd_token_budget :: "int option"
  bd_per_run_token_budget :: "int option"
  bd_run_id :: string
  bd_tenant_id :: "string option"

text \<open>\<open>normalizeUsage\<close> and \<open>normalizeLimit\<close>: a safe integer that is not negative.\<close>

fun safe_count :: "jnum \<Rightarrow> int option" where
  "safe_count (Fin q) = (if is_safe_integer (Fin q) \<and> 0 \<le> q then Some \<lfloor>q\<rfloor> else None)"
| "safe_count _ = None"

definition normalizeUsage :: "jnum option \<Rightarrow> string \<Rightarrow> int result" where
  "normalizeUsage v code = (case v of None \<Rightarrow> Inr 0
     | Some n \<Rightarrow> (case safe_count n of None \<Rightarrow> Inl (ThrownError code) | Some k \<Rightarrow> Inr k))"

definition normalizeLimit :: "jnum option \<Rightarrow> string \<Rightarrow> int option result" where
  "normalizeLimit v code = (case v of None \<Rightarrow> Inr None
     | Some n \<Rightarrow> (case safe_count n of None \<Rightarrow> Inl (ThrownError code) | Some k \<Rightarrow> Inr (Some k)))"

definition TokenBudgetGuard :: "jnum option \<Rightarrow> jnum option \<Rightarrow> budget_exceed option \<Rightarrow> bool option \<Rightarrow>
    budget_guard result" where
  "TokenBudgetGuard token_budget per_run on_exceed use_cache =
    andThen (normalizeLimit token_budget ''TOKEN_BUDGET_INVALID'') (\<lambda>tb.
    andThen (normalizeLimit per_run ''PER_RUN_TOKEN_BUDGET_INVALID'') (\<lambda>rb.
      Inr \<lparr>bg_tokenBudget = tb, bg_perRunTokenBudget = rb,
        bg_onExceed = (case on_exceed of None \<Rightarrow> FAIL_CLOSED | Some x \<Rightarrow> x),
        bg_useCache = (case use_cache of None \<Rightarrow> False | Some b \<Rightarrow> b),
        bg_usedTokens = 0, bg_tenantUsage = Map.empty, bg_runUsage = Map.empty\<rparr>))"

definition countTokens :: "budget_usage \<Rightarrow> bool \<Rightarrow> int result" where
  "countTokens u useCache =
    andThen (normalizeUsage (bu_input_tokens u) ''INPUT_TOKENS_INVALID'') (\<lambda>i.
    andThen (normalizeUsage (bu_output_tokens u) ''OUTPUT_TOKENS_INVALID'') (\<lambda>k.
    andThen (normalizeUsage (bu_cached_tokens u) ''CACHED_TOKENS_INVALID'') (\<lambda>c.
      let tokens = i + k + (if useCache then c else 0) in
      if tokens \<le> max_safe then Inr tokens else Inl (ThrownError ''TOKEN_USAGE_OVERFLOW''))))"

definition run_key :: "string option \<Rightarrow> string \<Rightarrow> string" where
  "run_key tenant run = (case tenant of None \<Rightarrow> [] | Some t \<Rightarrow> t) @ '':'' @ run"

definition stored_count :: "(string \<rightharpoonup> int) \<Rightarrow> string \<Rightarrow> int" where
  "stored_count f k = (case f k of None \<Rightarrow> 0 | Some n \<Rightarrow> n)"

definition used_in_scope :: "budget_guard \<Rightarrow> string option \<Rightarrow> int" where
  "used_in_scope g tenant = (case tenant of None \<Rightarrow> bg_usedTokens g | Some t \<Rightarrow> stored_count (bg_tenantUsage g) t)"

text \<open>\<open>used + requested > limit || (requested === 0 && used >= limit)\<close> under a configured limit.\<close>

definition over_limit :: "int option \<Rightarrow> int \<Rightarrow> int \<Rightarrow> bool" where
  "over_limit limit used requested = (case limit of None \<Rightarrow> False
     | Some l \<Rightarrow> used + requested > l \<or> (requested = 0 \<and> used \<ge> l))"

definition check_budget :: "budget_usage \<Rightarrow> budget_guard \<Rightarrow> budget_decision result" where
  "check_budget u g = andThen (countTokens u (bg_useCache g)) (\<lambda>requested.
    let used = used_in_scope g (bu_tenant_id u);
        runTokens = stored_count (bg_runUsage g) (run_key (bu_tenant_id u) (bu_run_id u));
        exceeds = over_limit (bg_tokenBudget g) used requested
          \<or> over_limit (bg_perRunTokenBudget g) runTokens requested;
        configured = (bg_tokenBudget g \<noteq> None \<or> bg_perRunTokenBudget g \<noteq> None) in
    Inr \<lparr>bd_status = (if \<not> exceeds then ALLOWED else if bg_onExceed g = PARK then PARKED else BUDGET_FAILED),
      bd_action = (if \<not> exceeds then ACTION_ALLOW
                   else if bg_onExceed g = PARK then ACTION_PARK else ACTION_FAIL_CLOSED),
      bd_allowed = (\<not> exceeds),
      bd_reason = (if exceeds then TOKEN_BUDGET_EXCEEDED
                   else if configured then WITHIN_BUDGET else NO_BUDGET_CONFIGURED),
      bd_requested_tokens = requested, bd_total_tokens = used + requested,
      bd_run_tokens = runTokens + requested,
      bd_token_budget = bg_tokenBudget g, bd_per_run_token_budget = bg_perRunTokenBudget g,
      bd_run_id = bu_run_id u, bd_tenant_id = bu_tenant_id u\<rparr>)"

definition admit_usage :: "budget_usage \<Rightarrow> budget_guard \<Rightarrow> budget_decision result \<times> budget_guard" where
  "admit_usage u g =
    (case check_budget u g of
       Inl err \<Rightarrow> (Inl err, g)
     | Inr d \<Rightarrow>
         if bd_allowed d
         then (Inr d, (case bu_tenant_id u of
                 None \<Rightarrow> g\<lparr>bg_usedTokens := bd_total_tokens d\<rparr>
               | Some t \<Rightarrow> g\<lparr>bg_tenantUsage := (bg_tenantUsage g)(t \<mapsto> bd_total_tokens d)\<rparr>)
               \<lparr>bg_runUsage := (bg_runUsage g)(run_key (bu_tenant_id u) (bu_run_id u) \<mapsto> bd_run_tokens d)\<rparr>)
         else (Inr d, g))"

definition setUsedTokens :: "string \<Rightarrow> jnum \<Rightarrow> budget_guard \<Rightarrow> unit result \<times> budget_guard" where
  "setUsedTokens tenant tokens g =
    (case normalizeUsage (Some tokens) ''TOKEN_USAGE_INVALID'' of
       Inl err \<Rightarrow> (Inl err, g)
     | Inr n \<Rightarrow> (Inr (), g\<lparr>bg_tenantUsage := (bg_tenantUsage g)(tenant \<mapsto> n)\<rparr>))"

definition usedTokensForRun :: "string \<Rightarrow> string option \<Rightarrow> budget_guard \<Rightarrow> int" where
  "usedTokensForRun run tenant g = stored_count (bg_runUsage g) (run_key tenant run)"

subsection \<open>Accounting\<close>

lemma safe_count_nonneg: "safe_count n = Some k \<Longrightarrow> 0 \<le> k"
  by (cases n) (auto split: if_splits)

lemma countTokens_nonneg: "countTokens u c = Inr n \<Longrightarrow> 0 \<le> n"
  by (auto simp: countTokens_def normalizeUsage_def andThen_Inr_iff Let_def
      split: option.splits if_splits dest!: safe_count_nonneg)

text \<open>What an admission does to the counts, in one equation for every scope.\<close>

lemma check_budget_counts:
  assumes "check_budget u g = Inr d"
  shows "bd_total_tokens d = used_in_scope g (bu_tenant_id u) + bd_requested_tokens d"
    and "bd_run_tokens d = stored_count (bg_runUsage g) (run_key (bu_tenant_id u) (bu_run_id u)) + bd_requested_tokens d"
    and "bd_allowed d \<Longrightarrow> \<not> over_limit (bg_tokenBudget g) (used_in_scope g (bu_tenant_id u)) (bd_requested_tokens d)"
    and "bd_allowed d \<Longrightarrow> \<not> over_limit (bg_perRunTokenBudget g)
          (stored_count (bg_runUsage g) (run_key (bu_tenant_id u) (bu_run_id u))) (bd_requested_tokens d)"
  using assms by (auto simp: check_budget_def andThen_Inr_iff Let_def)

lemma admit_usage_denied:
  "admit_usage u g = (rp, g') \<Longrightarrow> (\<And>d. rp = Inr d \<Longrightarrow> \<not> bd_allowed d) \<Longrightarrow> g' = g"
  by (auto simp: admit_usage_def split: sum.splits if_splits)

lemma admit_usage_check: "admit_usage u g = (Inr d, g') \<Longrightarrow> check_budget u g = Inr d"
  by (auto simp: admit_usage_def split: sum.splits if_splits)

lemma admit_usage_granted:
  assumes "admit_usage u g = (Inr d, g')" and "bd_allowed d"
  shows "used_in_scope g' t = used_in_scope g t + (if bu_tenant_id u = t then bd_requested_tokens d else 0)"
    and "stored_count (bg_runUsage g') k = stored_count (bg_runUsage g) k
      + (if run_key (bu_tenant_id u) (bu_run_id u) = k then bd_requested_tokens d else 0)"
    and "bg_tokenBudget g' = bg_tokenBudget g" and "bg_perRunTokenBudget g' = bg_perRunTokenBudget g"
proof -
  note d = admit_usage_check [OF assms(1)]
  have g': "g' = (case bu_tenant_id u of
                 None \<Rightarrow> g\<lparr>bg_usedTokens := bd_total_tokens d\<rparr>
               | Some t \<Rightarrow> g\<lparr>bg_tenantUsage := (bg_tenantUsage g)(t \<mapsto> bd_total_tokens d)\<rparr>)
               \<lparr>bg_runUsage := (bg_runUsage g)(run_key (bu_tenant_id u) (bu_run_id u) \<mapsto> bd_run_tokens d)\<rparr>"
    using assms d by (simp add: admit_usage_def)
  show "used_in_scope g' t = used_in_scope g t + (if bu_tenant_id u = t then bd_requested_tokens d else 0)"
    unfolding g' using check_budget_counts(1) [OF d]
    by (cases "bu_tenant_id u"; cases t) (auto simp: used_in_scope_def stored_count_def)
  show "stored_count (bg_runUsage g') k = stored_count (bg_runUsage g) k
      + (if run_key (bu_tenant_id u) (bu_run_id u) = k then bd_requested_tokens d else 0)"
    unfolding g' using check_budget_counts(2) [OF d]
    by (cases "bu_tenant_id u") (auto simp: stored_count_def)
  show "bg_tokenBudget g' = bg_tokenBudget g" "bg_perRunTokenBudget g' = bg_perRunTokenBudget g"
    unfolding g' by (cases "bu_tenant_id u"; simp)+
qed

lemma admit_usage_counts:
  assumes "admit_usage u g = (rp, g')"
  shows "used_in_scope g' t = used_in_scope g t
      + (case rp of Inr d \<Rightarrow> if bd_allowed d \<and> bu_tenant_id u = t then bd_requested_tokens d else 0 | _ \<Rightarrow> 0)"
    and "stored_count (bg_runUsage g') k = stored_count (bg_runUsage g) k
      + (case rp of Inr d \<Rightarrow> if bd_allowed d \<and> run_key (bu_tenant_id u) (bu_run_id u) = k
           then bd_requested_tokens d else 0 | _ \<Rightarrow> 0)"
    and "bg_tokenBudget g' = bg_tokenBudget g" and "bg_perRunTokenBudget g' = bg_perRunTokenBudget g"
proof -
  consider (denied) "g' = g" "\<And>d. rp = Inr d \<Longrightarrow> \<not> bd_allowed d" | (granted) d where "rp = Inr d" "bd_allowed d"
    using admit_usage_denied [OF assms] by blast
  note split = this
  show "used_in_scope g' t = used_in_scope g t
      + (case rp of Inr d \<Rightarrow> if bd_allowed d \<and> bu_tenant_id u = t then bd_requested_tokens d else 0 | _ \<Rightarrow> 0)"
    using split by cases (use assms in \<open>auto simp: admit_usage_granted(1) split: sum.split\<close>)
  show "stored_count (bg_runUsage g') k = stored_count (bg_runUsage g) k
      + (case rp of Inr d \<Rightarrow> if bd_allowed d \<and> run_key (bu_tenant_id u) (bu_run_id u) = k
           then bd_requested_tokens d else 0 | _ \<Rightarrow> 0)"
    using split by cases (use assms in \<open>auto simp: admit_usage_granted(2) split: sum.split\<close>)
  show "bg_tokenBudget g' = bg_tokenBudget g" "bg_perRunTokenBudget g' = bg_perRunTokenBudget g"
    using split by (cases; use assms in \<open>auto simp: admit_usage_granted(3,4)\<close>)+
qed

definition within_budget :: "budget_guard \<Rightarrow> bool" where
  "within_budget g \<longleftrightarrow>
     (case bg_tokenBudget g of None \<Rightarrow> True | Some b \<Rightarrow> \<forall>t. used_in_scope g t \<le> b)
   \<and> (case bg_perRunTokenBudget g of None \<Rightarrow> True | Some b \<Rightarrow> \<forall>k. stored_count (bg_runUsage g) k \<le> b)"

lemma admit_usage_within: "within_budget g \<Longrightarrow> within_budget (snd (admit_usage u g))"
proof -
  assume w: "within_budget g"
  obtain rp g' where a: "admit_usage u g = (rp, g')" by fastforce
  note c = admit_usage_counts [OF a]
  have "used_in_scope g' t \<le> b" if b: "bg_tokenBudget g = Some b" for t b
  proof -
    have "used_in_scope g t \<le> b" using w b by (simp add: within_budget_def)
    then show ?thesis unfolding c(1) [of t] using check_budget_counts(3) [OF admit_usage_check, of u g _ g'] a b
      by (auto simp: over_limit_def split: sum.split)
  qed
  moreover have "stored_count (bg_runUsage g') k \<le> b" if b: "bg_perRunTokenBudget g = Some b" for k b
  proof -
    have "stored_count (bg_runUsage g) k \<le> b" using w b by (simp add: within_budget_def)
    then show ?thesis unfolding c(2) [of k] using check_budget_counts(4) [OF admit_usage_check, of u g _ g'] a b
      by (auto simp: over_limit_def split: sum.split)
  qed
  ultimately show ?thesis by (simp add: within_budget_def a c(3) c(4) split: option.split)
qed

interpretation budget_limits: invariant_system admit_usage within_budget
  by unfold_locales (rule admit_usage_within)

lemma fresh_guard:
  assumes "TokenBudgetGuard tb rb oe uc = Inr g"
  shows "used_in_scope g t = 0" and "stored_count (bg_runUsage g) k = 0"
    and "normalizeLimit tb ''TOKEN_BUDGET_INVALID'' = Inr (bg_tokenBudget g)"
    and "normalizeLimit rb ''PER_RUN_TOKEN_BUDGET_INVALID'' = Inr (bg_perRunTokenBudget g)"
  using assms
  by (auto simp: TokenBudgetGuard_def andThen_Inr_iff used_in_scope_def stored_count_def split: option.split)

lemma normalizeLimit_nonneg: "normalizeLimit v c = Inr (Some b) \<Longrightarrow> 0 \<le> b"
  by (auto simp: normalizeLimit_def split: option.splits dest: safe_count_nonneg)

lemma fresh_within:
  assumes "TokenBudgetGuard tb rb oe uc = Inr g"
  shows "within_budget g"
  using fresh_guard(3,4) [OF assms]
  by (auto simp: within_budget_def fresh_guard(1,2) [OF assms] split: option.split dest: normalizeLimit_nonneg)

end
