(* ===== verification/Ledger.thy ===== *)
theory Ledger
  imports Budget CanonicalJson Numbers
begin

text \<open>
  The cost ledger of \<open>packages/core-engine/src/cost/ledger.ts\<close> and the usage recorder of
  \<open>cost/llm-usage.ts\<close>. Every product, quotient and sum of rates passes through the rounding \<open>fl\<close>. A pricing function or lookup object is the caller's code: it is a
  member of the pricing source. The constructor's overloads are one configuration here, so the test
  that tells an options object from a pricing source is left out.
\<close>

subsection \<open>Prices\<close>

record provider_pricing =
  pp_provider :: string
  pp_model :: string
  pp_model_version :: "string option"
  pp_currency :: string
  pp_input_per_1k :: "jnum option"
  pp_output_per_1k :: "jnum option"
  pp_cached_per_1k :: "jnum option"
  pp_input_per_token :: "jnum option"
  pp_output_per_token :: "jnum option"
  pp_cached_per_token :: "jnum option"
  pp_provenance :: string

record pricing_query =
  pq_provider :: string
  pq_model :: string
  pq_model_version :: "string option"

datatype pricing_source =
    PricingEntry provider_pricing
  | PricingList "provider_pricing list"
  | PricingLookup "pricing_query \<Rightarrow> provider_pricing option result"
  | PricingFunction "pricing_query \<Rightarrow> provider_pricing option result"

definition hasValidRate :: "jnum option \<Rightarrow> jnum option \<Rightarrow> bool" where
  "hasValidRate perToken perThousand =
    (case (case perToken of Some r \<Rightarrow> Some r | None \<Rightarrow> perThousand) of
       None \<Rightarrow> False | Some r \<Rightarrow> nonneg_finite r)"

definition isUsablePricing :: "provider_pricing \<Rightarrow> bool" where
  "isUsablePricing p \<longleftrightarrow>
      (\<not> blank (pp_currency p) \<and> \<not> blank (pp_provenance p) \<and> hasValidRate (pp_input_per_token p) (pp_input_per_1k p))
    \<or> (\<not> blank (pp_currency p) \<and> \<not> blank (pp_provenance p) \<and> hasValidRate (pp_output_per_token p) (pp_output_per_1k p))
    \<or> (\<not> blank (pp_currency p) \<and> \<not> blank (pp_provenance p) \<and> hasValidRate (pp_cached_per_token p) (pp_cached_per_1k p))"

definition resolvePricing :: "pricing_source option \<Rightarrow> string \<Rightarrow> string \<Rightarrow> string option \<Rightarrow>
    provider_pricing option result" where
  "resolvePricing source provider model version =
    (let query = \<lparr>pq_provider = provider, pq_model = model, pq_model_version = version\<rparr> in
     case source of
       None \<Rightarrow> Inr None
     | Some (PricingFunction f) \<Rightarrow> f query
     | Some (PricingLookup f) \<Rightarrow> f query
     | Some (PricingList ps) \<Rightarrow>
         let matches = filter (\<lambda>c. pp_provider c = provider \<and> pp_model c = model) ps;
             unversioned = find (\<lambda>c. pp_model_version c = None) matches in
         Inr (case version of
                None \<Rightarrow> (case unversioned of
                    Some c \<Rightarrow> Some c
                  | None \<Rightarrow> (case matches of [] \<Rightarrow> None | c # _ \<Rightarrow> Some c))
              | Some v \<Rightarrow> (case find (\<lambda>c. pp_model_version c = Some v) matches of
                    Some c \<Rightarrow> Some c
                  | None \<Rightarrow> unversioned))
     | Some (PricingEntry p) \<Rightarrow>
         Inr (if pp_provider p = provider \<and> pp_model p = model
                \<and> (pp_model_version p = None \<or> version = None \<or> pp_model_version p = version)
              then Some p else None))"

text \<open>The two price members of a token kind, then \<open>ratePerToken\<close>.\<close>

datatype token_kind = INPUT | OUTPUT | CACHED

fun price_members :: "provider_pricing \<Rightarrow> token_kind \<Rightarrow> jnum option \<times> jnum option" where
  "price_members p INPUT = (pp_input_per_token p, pp_input_per_1k p)"
| "price_members p OUTPUT = (pp_output_per_token p, pp_output_per_1k p)"
| "price_members p CACHED = (pp_cached_per_token p, pp_cached_per_1k p)"

definition ratePerToken :: "rounding \<Rightarrow> provider_pricing \<Rightarrow> token_kind \<Rightarrow> jnum option" where
  "ratePerToken fl p kind =
    (case price_members p kind of
       (Some r, _) \<Rightarrow> if hasValidRate (Some r) None then Some r else None
     | (None, Some t) \<Rightarrow> if hasValidRate (Some t) None then Some (per_thousand fl t) else None
     | (None, None) \<Rightarrow> None)"

definition tokenCost :: "rounding \<Rightarrow> int option \<Rightarrow> jnum option \<Rightarrow> jnum option" where
  "tokenCost fl tokens rate =
    (case tokens of
       None \<Rightarrow> None
     | Some n \<Rightarrow>
         if n = 0 then Some (Fin 0)
         else (case rate of
             None \<Rightarrow> None
           | Some r \<Rightarrow> let amount = num_mult fl (Fin (of_int n)) r in
               if nonneg_finite amount then Some amount else None))"

definition normalizeTokens :: "jnum option \<Rightarrow> int option result" where
  "normalizeTokens v = normalizeLimit v ''COST_TOKEN_COUNT_INVALID''"

definition normalizeAmount :: "jnum \<Rightarrow> jnum option" where
  "normalizeAmount v = (if nonneg_finite v then Some v else None)"

subsection \<open>Cost records\<close>

text \<open>\<open>CostRecordInput\<close>; of an execution receipt the ledger reads the two token counts.\<close>

record cost_input =
  ci_input_tokens :: "jnum option"
  ci_output_tokens :: "jnum option"
  ci_cached_tokens :: "jnum option"
  ci_receipt_usage :: "(jnum \<times> jnum) option"
  ci_model :: "string option"
  ci_provider :: "string option"
  ci_model_version :: "string option"
  ci_estimated_cost :: "jnum option"
  ci_currency :: "string option"
  ci_provenance :: "string option"
  ci_run_id :: "string option"
  ci_tenant_id :: "string option"
  ci_correlation_id :: "string option"
  ci_timestamp :: "string option"

datatype cost_status = AVAILABLE | UNAVAILABLE

record cost_record =
  cr_model :: "string option"
  cr_provider :: "string option"
  cr_input_tokens :: "int option"
  cr_output_tokens :: "int option"
  cr_cached_tokens :: "int option"
  cr_estimated_cost :: "jnum option"
  cr_estimated_amount :: "jnum option"
  cr_currency :: "string option"
  cr_provenance :: "string option"
  cr_cost_status :: cost_status
  cr_run_id :: "string option"
  cr_tenant_id :: "string option"
  cr_correlation_id :: "string option"
  cr_timestamp :: string
  cr_model_version :: "string option"

text \<open>The summation loop of \<open>calculateAmount\<close>.\<close>

fun sum_costs :: "rounding \<Rightarrow> jnum option list \<Rightarrow> jnum option \<Rightarrow> jnum option" where
  "sum_costs fl [] amount = amount"
| "sum_costs fl (None # cs) amount = sum_costs fl cs amount"
| "sum_costs fl (Some c # cs) amount =
     sum_costs fl cs (Some (case amount of None \<Rightarrow> c | Some a \<Rightarrow> num_plus fl a c))"

definition unpriced :: "int option \<Rightarrow> jnum option \<Rightarrow> bool" where
  "unpriced tokens cost = (case tokens of None \<Rightarrow> False | Some n \<Rightarrow> n > 0 \<and> cost = None)"

definition calculateAmount :: "rounding \<Rightarrow> cost_input \<Rightarrow> provider_pricing \<Rightarrow> int option \<Rightarrow> int option \<Rightarrow>
    int option \<Rightarrow> jnum option" where
  "calculateAmount fl inp p i k c =
    (if \<not> isUsablePricing p then None
     else (case ci_estimated_cost inp of
         Some e \<Rightarrow> normalizeAmount e
       | None \<Rightarrow>
           let ic = tokenCost fl i (ratePerToken fl p INPUT);
               kc = tokenCost fl k (ratePerToken fl p OUTPUT);
               cc = tokenCost fl c (ratePerToken fl p CACHED) in
           if unpriced i ic \<or> unpriced k kc \<or> unpriced c cc then None
           else (case sum_costs fl [ic, kc, cc] None of
               None \<Rightarrow> None
             | Some a \<Rightarrow> if nonneg_finite a then Some a else None)))"

text \<open>\<open>a ?? b\<close>.\<close>

definition coalesce :: "'a option \<Rightarrow> 'a option \<Rightarrow> 'a option" where
  "coalesce a b = (case a of None \<Rightarrow> b | Some x \<Rightarrow> Some x)"

definition buildCostRecord :: "rounding \<Rightarrow> cost_input \<Rightarrow> pricing_source option \<Rightarrow> string \<Rightarrow> cost_record result" where
  "buildCostRecord fl inp source now =
    andThen (normalizeTokens (coalesce (ci_input_tokens inp) (map_option fst (ci_receipt_usage inp)))) (\<lambda>i.
    andThen (normalizeTokens (coalesce (ci_output_tokens inp) (map_option snd (ci_receipt_usage inp)))) (\<lambda>k.
    andThen (normalizeTokens (ci_cached_tokens inp)) (\<lambda>c.
    andThen (case (ci_model inp, ci_provider inp) of
               (Some m, Some pr) \<Rightarrow> resolvePricing source pr m (ci_model_version inp)
             | _ \<Rightarrow> Inr None) (\<lambda>pricing.
      let amount = (case pricing of None \<Rightarrow> None | Some p \<Rightarrow> calculateAmount fl inp p i k c);
          available = (pricing \<noteq> None \<and> amount \<noteq> None) in
      Inr \<lparr>cr_model = ci_model inp, cr_provider = ci_provider inp,
        cr_input_tokens = i, cr_output_tokens = k, cr_cached_tokens = c,
        cr_estimated_cost = (if available then amount else None),
        cr_estimated_amount = (if available then amount else None),
        cr_currency = coalesce (map_option pp_currency pricing) (ci_currency inp),
        cr_provenance = coalesce (map_option pp_provenance pricing) (ci_provenance inp),
        cr_cost_status = (if available then AVAILABLE else UNAVAILABLE),
        cr_run_id = ci_run_id inp, cr_tenant_id = ci_tenant_id inp,
        cr_correlation_id = ci_correlation_id inp,
        cr_timestamp = (case ci_timestamp inp of None \<Rightarrow> now | Some t \<Rightarrow> t),
        cr_model_version = ci_model_version inp\<rparr>))))"

record cost_ledger =
  cl_pricing :: "pricing_source option"
  cl_rows :: "cost_record list"

definition CostLedger :: "pricing_source option \<Rightarrow> cost_ledger" where
  "CostLedger source = \<lparr>cl_pricing = source, cl_rows = []\<rparr>"

definition ledger_record :: "rounding \<Rightarrow> string \<Rightarrow> cost_input \<Rightarrow> cost_ledger \<Rightarrow> cost_record result \<times> cost_ledger" where
  "ledger_record fl now inp l =
    (case buildCostRecord fl inp (cl_pricing l) now of
       Inl err \<Rightarrow> (Inl err, l)
     | Inr row \<Rightarrow> (Inr row, l\<lparr>cl_rows := cl_rows l @ [row]\<rparr>))"

text \<open>\<open>recordReceipt\<close>: the token counts of the receipt join the caller's metadata.\<close>

definition recordReceipt :: "rounding \<Rightarrow> string \<Rightarrow> jnum \<times> jnum \<Rightarrow> cost_input \<Rightarrow> cost_ledger \<Rightarrow>
    cost_record result \<times> cost_ledger" where
  "recordReceipt fl now usage metadata l = ledger_record fl now (metadata\<lparr>ci_receipt_usage := Some usage\<rparr>) l"

definition forRun :: "string \<Rightarrow> cost_ledger \<Rightarrow> cost_record list" where
  "forRun run l = filter (\<lambda>r. cr_run_id r = Some run) (cl_rows l)"

subsection \<open>Which costs are available\<close>

lemma calculateAmount_Some:
  assumes "calculateAmount fl inp p i k c = Some a"
  shows "isUsablePricing p" and "nonneg_finite a"
    and "ci_estimated_cost inp = None \<Longrightarrow> \<not> unpriced i (tokenCost fl i (ratePerToken fl p INPUT))
      \<and> \<not> unpriced k (tokenCost fl k (ratePerToken fl p OUTPUT))
      \<and> \<not> unpriced c (tokenCost fl c (ratePerToken fl p CACHED))"
  using assms
  by (auto simp: calculateAmount_def normalizeAmount_def Let_def split: if_splits option.splits)

lemma priced_rate: "\<not> unpriced (Some n) (tokenCost fl (Some n) rate) \<Longrightarrow> 0 < n \<Longrightarrow> rate \<noteq> None"
  by (cases rate) (auto simp: unpriced_def tokenCost_def)

lemma rate_is_valid: "ratePerToken fl p kind \<noteq> None \<Longrightarrow> hasValidRate (fst (price_members p kind)) (snd (price_members p kind))"
  by (cases "price_members p kind") (auto simp: ratePerToken_def hasValidRate_def split: option.splits if_splits)

lemma priced_kind_has_rate:
  "\<not> unpriced (Some n) (tokenCost fl (Some n) (ratePerToken fl p kind)) \<Longrightarrow> 0 < n \<Longrightarrow>
   hasValidRate (fst (price_members p kind)) (snd (price_members p kind))"
  by (rule rate_is_valid, rule priced_rate)

lemma usable_pricing_texts: "isUsablePricing p \<Longrightarrow> \<not> blank (pp_currency p) \<and> \<not> blank (pp_provenance p)"
  by (auto simp: isUsablePricing_def)

lemma buildCostRecord_available:
  assumes "buildCostRecord fl inp source now = Inr row" and "cr_cost_status row = AVAILABLE"
  obtains m pr p a where "ci_model inp = Some m" "ci_provider inp = Some pr"
    "resolvePricing source pr m (ci_model_version inp) = Inr (Some p)"
    "calculateAmount fl inp p (cr_input_tokens row) (cr_output_tokens row) (cr_cached_tokens row) = Some a"
    "cr_estimated_amount row = Some a" "cr_currency row = Some (pp_currency p)"
    "cr_provenance row = Some (pp_provenance p)"
  using assms
  by (auto simp: buildCostRecord_def andThen_Inr_iff Let_def coalesce_def split: option.splits if_splits)

lemma resolvePricing_list:
  assumes "resolvePricing (Some (PricingList ps)) pr m v = Inr (Some p)"
  shows "p \<in> set ps \<and> pp_provider p = pr \<and> pp_model p = m
    \<and> (v \<noteq> None \<longrightarrow> pp_model_version p = v \<or> pp_model_version p = None)"
proof -
  let ?ms = "filter (\<lambda>c. pp_provider c = pr \<and> pp_model c = m) ps"
  have "p \<in> set ?ms \<and> (v \<noteq> None \<longrightarrow> pp_model_version p = v \<or> pp_model_version p = None)"
    using assms
    by (auto simp: resolvePricing_def Let_def simp del: set_filter split: option.splits list.splits dest!: find_Some_set)
  then show ?thesis by simp
qed

text \<open>
  a cost is reported as available only on the strength of a configured price. With a price list, a
  record marked available names its model and provider, and the list holds a price for exactly that
  provider and model (and for the requested version, or for no version in particular) with a currency
  and a provenance that are not blank; both are the record's, its amount is finite and not negative,
  and without a caller's estimate every token kind that was consumed has a valid rate in that price.
\<close>

theorem available_cost_rests_on_a_listed_price:
  assumes "ledger_record fl now inp l = (Inr row, l')" and "cl_pricing l = Some (PricingList ps)"
    and "cr_cost_status row = AVAILABLE"
  shows "\<exists>p \<in> set ps. cr_provider row = Some (pp_provider p) \<and> cr_model row = Some (pp_model p)
    \<and> (cr_model_version row \<noteq> None \<longrightarrow> pp_model_version p \<in> {cr_model_version row, None})
    \<and> cr_currency row = Some (pp_currency p) \<and> \<not> blank (pp_currency p)
    \<and> cr_provenance row = Some (pp_provenance p) \<and> \<not> blank (pp_provenance p)
    \<and> (\<exists>a. cr_estimated_amount row = Some a \<and> nonneg_finite a)
    \<and> (ci_estimated_cost inp = None \<longrightarrow>
        (\<forall>(tokens, kind) \<in> {(cr_input_tokens row, INPUT), (cr_output_tokens row, OUTPUT), (cr_cached_tokens row, CACHED)}.
          \<forall>n. tokens = Some n \<and> 0 < n \<longrightarrow>
            hasValidRate (fst (price_members p kind)) (snd (price_members p kind))))"
proof -
  have b: "buildCostRecord fl inp (Some (PricingList ps)) now = Inr row"
    using assms(1,2) by (auto simp: ledger_record_def split: sum.splits)
  from buildCostRecord_available [OF b assms(3)] obtain m pr p a where
    q: "ci_model inp = Some m" "ci_provider inp = Some pr"
    "resolvePricing (Some (PricingList ps)) pr m (ci_model_version inp) = Inr (Some p)"
    "calculateAmount fl inp p (cr_input_tokens row) (cr_output_tokens row) (cr_cached_tokens row) = Some a"
    "cr_estimated_amount row = Some a" "cr_currency row = Some (pp_currency p)"
    "cr_provenance row = Some (pp_provenance p)" by metis
  have f: "cr_model row = ci_model inp" "cr_provider row = ci_provider inp" "cr_model_version row = ci_model_version inp"
    using b by (auto simp: buildCostRecord_def andThen_Inr_iff Let_def)
  note s = calculateAmount_Some [OF q(4)]
  have kinds: "ci_estimated_cost inp = None \<longrightarrow>
        (\<forall>(tokens, kind) \<in> {(cr_input_tokens row, INPUT), (cr_output_tokens row, OUTPUT), (cr_cached_tokens row, CACHED)}.
          \<forall>n. tokens = Some n \<and> 0 < n \<longrightarrow>
            hasValidRate (fst (price_members p kind)) (snd (price_members p kind)))"
    using s(3) by (auto dest: priced_kind_has_rate simp del: price_members.simps)
  note p = resolvePricing_list [OF q(3)]
  show ?thesis
  proof (rule bexI [where x = p], intro conjI)
    show "cr_provider row = Some (pp_provider p)" "cr_model row = Some (pp_model p)"
      using p q(1,2) f by simp_all
    show "cr_model_version row \<noteq> None \<longrightarrow> pp_model_version p \<in> {cr_model_version row, None}"
      using p f(3) by auto
    show "\<not> blank (pp_currency p)" "\<not> blank (pp_provenance p)"
      using usable_pricing_texts [OF s(1)] by simp_all
    show "\<exists>a. cr_estimated_amount row = Some a \<and> nonneg_finite a" using q(5) s(2) by blast
  qed (use p q(6,7) kinds in simp_all)
qed

definition example_pricing :: provider_pricing where
  "example_pricing = \<lparr>pp_provider = ''p'', pp_model = ''m'', pp_model_version = None, pp_currency = ''USD'',
    pp_input_per_1k = None, pp_output_per_1k = Some (Fin 2), pp_cached_per_1k = None,
    pp_input_per_token = Some (Fin 3), pp_output_per_token = None, pp_cached_per_token = None,
    pp_provenance = ''contract''\<rparr>"

definition example_cost_input :: cost_input where
  "example_cost_input = \<lparr>ci_input_tokens = Some (Fin 5), ci_output_tokens = Some (Fin 1000), ci_cached_tokens = None,
    ci_receipt_usage = None, ci_model = Some ''m'', ci_provider = Some ''p'', ci_model_version = None,
    ci_estimated_cost = None, ci_currency = None, ci_provenance = None, ci_run_id = Some ''r1'',
    ci_tenant_id = Some ''t1'', ci_correlation_id = None, ci_timestamp = None\<rparr>"

theorem available_cost_rests_on_a_listed_price_witness:
  "\<exists>row l'. ledger_record Fin ''now'' example_cost_input (CostLedger (Some (PricingList [example_pricing]))) = (Inr row, l')
    \<and> cr_estimated_amount row = Some (Fin 17)
    \<and> (\<exists>p \<in> set [example_pricing]. cr_provider row = Some (pp_provider p) \<and> cr_currency row = Some (pp_currency p))"
proof -
  have t: "trim ''USD'' = ''USD''" "trim ''contract'' = ''contract''" by (simp_all add: trim_fixed is_ws_def)
  obtain row l' where r: "ledger_record Fin ''now'' example_cost_input
      (CostLedger (Some (PricingList [example_pricing]))) = (Inr row, l')"
    and a: "cr_cost_status row = AVAILABLE" "cr_estimated_amount row = Some (Fin 17)"
    by (simp add: ledger_record_def CostLedger_def buildCostRecord_def example_cost_input_def example_pricing_def
        coalesce_def normalizeTokens_def normalizeLimit_def max_safe_def resolvePricing_def calculateAmount_def
        isUsablePricing_def blank_def t hasValidRate_def tokenCost_def ratePerToken_def unpriced_def Let_def)
  have c: "cl_pricing (CostLedger (Some (PricingList [example_pricing]))) = Some (PricingList [example_pricing])"
    by (simp add: CostLedger_def)
  from available_cost_rests_on_a_listed_price [OF r c a(1)] r a show ?thesis by blast
qed

end
