(* ===== verification/LlmUsage.thy ===== *)
theory LlmUsage
  imports Ledger
begin

text \<open>
  The usage recorder of \<open>packages/core-engine/src/cost/llm-usage.ts\<close>: budget admission before a call
  to the language model, and the booking of the usage the provider reports. What the persistence ports
  answer (the tenant's stored total, whether the append succeeded) is an argument of the operation.
\<close>

record llm_call =
  lc_tenant_id :: string
  lc_run_id :: string
  lc_correlation_id :: string
  lc_step_index :: jnum
  lc_attempt :: jnum

record llm_usage =
  lu_prompt_tokens :: jnum
  lu_completion_tokens :: jnum
  lu_cached_tokens :: "jnum option"

record llm_usage_call = llm_call +
  lc_provider :: string
  lc_model :: string
  lc_request_id :: "string option"
  lc_usage :: "llm_usage option"

datatype llm_cost_status = RECORDED | NOT_AVAILABLE

text \<open>\<open>LlmCostRecordInput\<close>; its provenance names the step, the attempt and the request.\<close>

record llm_cost_row =
  lk_tenant_id :: string
  lk_record_id :: string
  lk_idempotency_key :: string
  lk_run_id :: string
  lk_correlation_id :: string
  lk_model :: string
  lk_provider :: string
  lk_input_tokens :: int
  lk_output_tokens :: int
  lk_cached_tokens :: "int option"
  lk_estimated_cost_amount :: "jnum option"
  lk_currency :: "string option"
  lk_cost_status :: llm_cost_status
  lk_step_index :: jnum
  lk_attempt :: jnum
  lk_request_id :: "string option"
  lk_recorded_at :: string

record llm_warning =
  lw_code :: string
  lw_tenant_id :: string
  lw_run_id :: string

text \<open>
  The recorder with what it wrote to its ports: \<open>lr_sink\<close> holds the rows passed to a configured sink,
  \<open>lr_warnings\<close> the warnings.
\<close>

record llm_recorder =
  lr_ledger :: cost_ledger
  lr_budget :: budget_guard
  lr_has_sink :: bool
  lr_has_reader :: bool
  lr_sink :: "llm_cost_row list"
  lr_warnings :: "llm_warning list"

datatype llm_reply = Admitted | Booked "cost_record option"

fun number_text :: "runtime \<Rightarrow> jnum \<Rightarrow> string" where
  "number_text rt (Fin q) = rt_numtext rt q"
| "number_text rt NaN = ''NaN''"
| "number_text rt PosInf = ''Infinity''"
| "number_text rt NegInf = ''-Infinity''"

definition llm_raw_key :: "runtime \<Rightarrow> string \<Rightarrow> jnum \<Rightarrow> jnum \<Rightarrow> string" where
  "llm_raw_key rt run step attempt = ''llm:'' @ run @ '':'' @ number_text rt step @ '':'' @ number_text rt attempt"

definition llmIdempotencyKey :: "runtime \<Rightarrow> string \<Rightarrow> jnum \<Rightarrow> jnum \<Rightarrow> string" where
  "llmIdempotencyKey rt run step attempt =
    (let raw = llm_raw_key rt run step attempt in
     if length raw \<le> 128 then raw else ''llm:'' @ rt_sha256 rt raw)"

text \<open>
  \<open>beforeCall\<close>: the tenant's total is synchronised with the reader, then zero tokens are checked.
  \<open>stored\<close> is what \<open>totalTokensForTenant\<close> answers, \<open>None\<close> when it rejects.
\<close>

definition synchronize :: "jnum option \<Rightarrow> string \<Rightarrow> llm_recorder \<Rightarrow> unit result \<times> budget_guard" where
  "synchronize stored tenant r =
     (if lr_has_reader r
      then (case stored of
          None \<Rightarrow> (Inl (ThrownError ''LLM_TOKEN_BUDGET_UNAVAILABLE''), lr_budget r)
        | Some n \<Rightarrow> setUsedTokens tenant n (lr_budget r))
      else (Inr (), lr_budget r))"

definition beforeCall :: "jnum option \<Rightarrow> 'a llm_call_scheme \<Rightarrow> llm_recorder \<Rightarrow> llm_reply result \<times> llm_recorder" where
  "beforeCall stored c r =
    (let (sync, g) = synchronize stored (lc_tenant_id c) r; r' = r\<lparr>lr_budget := g\<rparr> in
     case sync of
       Inl err \<Rightarrow> (Inl err, r')
     | Inr _ \<Rightarrow>
         (case check_budget \<lparr>bu_run_id = lc_run_id c, bu_tenant_id = Some (lc_tenant_id c),
             bu_input_tokens = Some (Fin 0), bu_output_tokens = Some (Fin 0), bu_cached_tokens = None\<rparr> g of
            Inl err \<Rightarrow> (Inl err, r')
          | Inr d \<Rightarrow> if bd_allowed d then (Inr Admitted, r')
              else (Inl (ThrownError ''LLM_TOKEN_BUDGET_EXHAUSTED''), r')))"

definition usage_cost_input :: "string \<Rightarrow> llm_usage_call \<Rightarrow> llm_usage \<Rightarrow> cost_input" where
  "usage_cost_input now c u = \<lparr>ci_input_tokens = Some (lu_prompt_tokens u),
     ci_output_tokens = Some (lu_completion_tokens u), ci_cached_tokens = lu_cached_tokens u,
     ci_receipt_usage = None, ci_model = Some (lc_model c), ci_provider = Some (lc_provider c),
     ci_model_version = None, ci_estimated_cost = None, ci_currency = None, ci_provenance = None,
     ci_run_id = Some (lc_run_id c), ci_tenant_id = Some (lc_tenant_id c),
     ci_correlation_id = Some (lc_correlation_id c), ci_timestamp = Some now\<rparr>"

definition usage_budget_input :: "llm_usage_call \<Rightarrow> llm_usage \<Rightarrow> budget_usage" where
  "usage_budget_input c u = \<lparr>bu_run_id = lc_run_id c, bu_tenant_id = Some (lc_tenant_id c),
     bu_input_tokens = Some (lu_prompt_tokens u), bu_output_tokens = Some (lu_completion_tokens u),
     bu_cached_tokens = lu_cached_tokens u\<rparr>"

definition sink_row :: "runtime \<Rightarrow> string \<Rightarrow> llm_usage_call \<Rightarrow> cost_record \<Rightarrow> llm_cost_row" where
  "sink_row rt record_id c row = \<lparr>lk_tenant_id = lc_tenant_id c, lk_record_id = record_id,
     lk_idempotency_key = llmIdempotencyKey rt (lc_run_id c) (lc_step_index c) (lc_attempt c),
     lk_run_id = lc_run_id c, lk_correlation_id = lc_correlation_id c, lk_model = lc_model c,
     lk_provider = lc_provider c,
     lk_input_tokens = (case cr_input_tokens row of None \<Rightarrow> 0 | Some n \<Rightarrow> n),
     lk_output_tokens = (case cr_output_tokens row of None \<Rightarrow> 0 | Some n \<Rightarrow> n),
     lk_cached_tokens = cr_cached_tokens row, lk_estimated_cost_amount = cr_estimated_amount row,
     lk_currency = cr_currency row,
     lk_cost_status = (if cr_cost_status row = AVAILABLE then RECORDED else NOT_AVAILABLE),
     lk_step_index = lc_step_index c, lk_attempt = lc_attempt c, lk_request_id = lc_request_id c,
     lk_recorded_at = cr_timestamp row\<rparr>"

definition llm_warn :: "string \<Rightarrow> llm_usage_call \<Rightarrow> llm_recorder \<Rightarrow> llm_recorder" where
  "llm_warn code c r = r\<lparr>lr_warnings := lr_warnings r
     @ [\<lparr>lw_code = code, lw_tenant_id = lc_tenant_id c, lw_run_id = lc_run_id c\<rparr>]\<rparr>"

text \<open>
  \<open>record\<close>. The ledger row is written first; the reply of the budget's \<open>consume\<close> is not looked at, its
  exceptions propagate. \<open>stored\<close> says whether the sink's append resolves.
\<close>

definition record_usage :: "rounding \<Rightarrow> runtime \<Rightarrow> string \<Rightarrow> string \<Rightarrow> bool \<Rightarrow> llm_usage_call \<Rightarrow> llm_recorder \<Rightarrow>
    llm_reply result \<times> llm_recorder" where
  "record_usage fl rt now record_id stored c r =
    (case lc_usage c of
       None \<Rightarrow> (Inr (Booked None), llm_warn ''LLM_USAGE_MISSING'' c r)
     | Some u \<Rightarrow>
         (case ledger_record fl now (usage_cost_input now c u) (lr_ledger r) of
            (Inl err, l) \<Rightarrow> (Inl err, r\<lparr>lr_ledger := l\<rparr>)
          | (Inr row, l) \<Rightarrow>
              let (consumed, g) = admit_usage (usage_budget_input c u) (lr_budget r);
                  r1 = r\<lparr>lr_ledger := l, lr_budget := g\<rparr> in
              (case consumed of
                 Inl err \<Rightarrow> (Inl err, r1)
               | Inr _ \<Rightarrow> (Inr (Booked (Some row)),
                   if \<not> lr_has_sink r then r1
                   else let r2 = r1\<lparr>lr_sink := lr_sink r @ [sink_row rt record_id c row]\<rparr> in
                     if stored then r2 else llm_warn ''LLM_USAGE_RECORD_FAILED'' c r2))))"

datatype llm_op =
    BeforeCall "jnum option" llm_call
  | RecordUsage string string bool llm_usage_call

fun llm_exec :: "rounding \<Rightarrow> runtime \<Rightarrow> llm_op \<Rightarrow> llm_recorder \<Rightarrow> llm_reply result \<times> llm_recorder" where
  "llm_exec fl rt (BeforeCall stored c) r = beforeCall stored c r"
| "llm_exec fl rt (RecordUsage now record_id stored c) r = record_usage fl rt now record_id stored c r"

subsection \<open>Usage beyond the run budget\<close>

text \<open>
  The state in which a run still has room, but less than one call consumes. The persistent reader, when
  there is one, answers with a valid total.
\<close>

definition nearly_spent :: "int \<Rightarrow> int \<Rightarrow> llm_usage_call \<Rightarrow> jnum option \<Rightarrow> llm_recorder \<Rightarrow> bool" where
  "nearly_spent b used c stored r \<longleftrightarrow>
     cl_pricing (lr_ledger r) = None \<and> bg_tokenBudget (lr_budget r) = None
   \<and> bg_perRunTokenBudget (lr_budget r) = Some b \<and> used < b
   \<and> usedTokensForRun (lc_run_id c) (Some (lc_tenant_id c)) (lr_budget r) = used
   \<and> (\<exists>u n. lc_usage c = Some u \<and> countTokens (usage_budget_input c u) (bg_useCache (lr_budget r)) = Inr n \<and> b < used + n)
   \<and> (lr_has_reader r \<longrightarrow> (\<exists>t k. stored = Some t \<and> safe_count t = Some k))"

lemma no_tokens_requested: "countTokens \<lparr>bu_run_id = run, bu_tenant_id = t, bu_input_tokens = Some (Fin 0),
    bu_output_tokens = Some (Fin 0), bu_cached_tokens = None\<rparr> uc = Inr 0"
  by (simp add: countTokens_def normalizeUsage_def andThen_def max_safe_def Let_def)

lemma synchronize_nearly_spent:
  assumes "nearly_spent b used c stored r"
  obtains f where "synchronize stored tenant r = (Inr (), (lr_budget r)\<lparr>bg_tenantUsage := f\<rparr>)"
proof (cases "lr_has_reader r")
  case True
  with assms obtain t k where "stored = Some t" "safe_count t = Some k" by (auto simp: nearly_spent_def)
  then show thesis using that True by (simp add: synchronize_def setUsedTokens_def normalizeUsage_def)
next
  case False
  then show thesis using that [of "bg_tenantUsage (lr_budget r)"] by (simp add: synchronize_def)
qed

lemma beforeCall_nearly_spent:
  assumes s: "nearly_spent b used c stored r"
  shows "\<exists>r'. beforeCall stored (llm_call.truncate c) r = (Inr Admitted, r')
    \<and> nearly_spent b used c stored r' \<and> lr_ledger r' = lr_ledger r"
proof -
  obtain f where f: "synchronize stored (lc_tenant_id c) r = (Inr (), (lr_budget r)\<lparr>bg_tenantUsage := f\<rparr>)"
    using synchronize_nearly_spent [OF s] .
  have t: "lc_tenant_id (llm_call.truncate c) = lc_tenant_id c" "lc_run_id (llm_call.truncate c) = lc_run_id c"
    by (simp_all add: llm_call.defs)
  have "stored_count (bg_runUsage (lr_budget r)) (run_key (Some (lc_tenant_id c)) (lc_run_id c)) < b"
    "bg_tokenBudget (lr_budget r) = None" "bg_perRunTokenBudget (lr_budget r) = Some b"
    using s by (auto simp: nearly_spent_def usedTokensForRun_def)
  then have "beforeCall stored (llm_call.truncate c) r
      = (Inr Admitted, r\<lparr>lr_budget := (lr_budget r)\<lparr>bg_tenantUsage := f\<rparr>\<rparr>)"
    unfolding beforeCall_def t f
    by (simp add: check_budget_def no_tokens_requested andThen_def over_limit_def Let_def)
  moreover have "nearly_spent b used c stored (r\<lparr>lr_budget := (lr_budget r)\<lparr>bg_tenantUsage := f\<rparr>\<rparr>)"
    using s by (simp add: nearly_spent_def usedTokensForRun_def)
  ultimately show ?thesis by simp
qed

lemma usage_is_a_token_count: "normalizeUsage v code = Inr k \<Longrightarrow> \<exists>k'. normalizeTokens v = Inr k'"
  by (auto simp: normalizeUsage_def normalizeTokens_def normalizeLimit_def split: option.splits)

lemma unpriced_record:
  assumes "normalizeTokens (ci_input_tokens inp) = Inr i" and "normalizeTokens (ci_output_tokens inp) = Inr k"
    and "normalizeTokens (ci_cached_tokens inp) = Inr c" and "ci_receipt_usage inp = None"
  shows "\<exists>row. buildCostRecord fl inp None now = Inr row"
proof -
  have "coalesce x None = x" for x :: "jnum option" by (simp add: coalesce_def split: option.split)
  moreover have "(case (ci_model inp, ci_provider inp) of
      (Some m, Some pr) \<Rightarrow> resolvePricing None pr m (ci_model_version inp) | _ \<Rightarrow> Inr None) = Inr None"
    by (simp add: resolvePricing_def Let_def split: option.split)
  ultimately show ?thesis using assms by (simp add: buildCostRecord_def andThen_def Let_def)
qed

lemma countTokens_normalizes:
  assumes "countTokens (usage_budget_input c u) uc = Inr n" and "cl_pricing l = None"
  shows "\<exists>row. ledger_record fl now (usage_cost_input now c u) l = (Inr row, l\<lparr>cl_rows := cl_rows l @ [row]\<rparr>)"
proof -
  obtain i k m where "normalizeUsage (Some (lu_prompt_tokens u)) ''INPUT_TOKENS_INVALID'' = Inr i"
    "normalizeUsage (Some (lu_completion_tokens u)) ''OUTPUT_TOKENS_INVALID'' = Inr k"
    "normalizeUsage (lu_cached_tokens u) ''CACHED_TOKENS_INVALID'' = Inr m"
    using assms(1) by (auto simp: countTokens_def usage_budget_input_def andThen_Inr_iff)
  then obtain i' k' m' where "normalizeTokens (Some (lu_prompt_tokens u)) = Inr i'"
    "normalizeTokens (Some (lu_completion_tokens u)) = Inr k'" "normalizeTokens (lu_cached_tokens u) = Inr m'"
    using usage_is_a_token_count by metis
  then have "\<exists>row. buildCostRecord fl (usage_cost_input now c u) None now = Inr row"
    by (intro unpriced_record) (simp_all add: usage_cost_input_def)
  then show ?thesis using assms(2) by (auto simp: ledger_record_def)
qed

lemma record_nearly_spent:
  assumes s: "nearly_spent b used c stored r"
  shows "\<exists>row r'. record_usage fl rt now rid ok c r = (Inr (Booked (Some row)), r')
    \<and> nearly_spent b used c stored r' \<and> length (cl_rows (lr_ledger r')) = Suc (length (cl_rows (lr_ledger r)))"
proof -
  obtain u n where u: "lc_usage c = Some u" "countTokens (usage_budget_input c u) (bg_useCache (lr_budget r)) = Inr n"
    "b < used + n" using s by (auto simp: nearly_spent_def)
  have p: "cl_pricing (lr_ledger r) = None" using s by (simp add: nearly_spent_def)
  obtain row where l: "ledger_record fl now (usage_cost_input now c u) (lr_ledger r)
      = (Inr row, (lr_ledger r)\<lparr>cl_rows := cl_rows (lr_ledger r) @ [row]\<rparr>)"
    using countTokens_normalizes [OF u(2) p] by blast
  have k: "run_key (bu_tenant_id (usage_budget_input c u)) (bu_run_id (usage_budget_input c u))
      = run_key (Some (lc_tenant_id c)) (lc_run_id c)" by (simp add: usage_budget_input_def)
  have "\<exists>d. admit_usage (usage_budget_input c u) (lr_budget r) = (Inr d, lr_budget r)"
    using s u by (simp add: admit_usage_def check_budget_def andThen_def over_limit_def nearly_spent_def
        usedTokensForRun_def k Let_def)
  then obtain d where a: "admit_usage (usage_budget_input c u) (lr_budget r) = (Inr d, lr_budget r)" by blast
  show ?thesis
    using s by (simp add: record_usage_def u(1) l a Let_def llm_warn_def nearly_spent_def)
qed

text \<open>
  a call that would exceed the budget of its run is booked in the ledger but never charged to the run, so
  the run stays admitted: however often such calls are made, every admission before a call succeeds.
\<close>

theorem overshooting_calls_are_never_charged:
  assumes "nearly_spent b used c stored r"
    and "run_ops (llm_exec fl rt)
      (concat (replicate k [BeforeCall stored (llm_call.truncate c), RecordUsage now rid ok c])) r = (entries, r')"
  shows "(\<forall>(x, reply) \<in> set entries. case x of BeforeCall _ _ \<Rightarrow> reply = Inr Admitted | _ \<Rightarrow> True)
    \<and> length (cl_rows (lr_ledger r')) = length (cl_rows (lr_ledger r)) + k
    \<and> usedTokensForRun (lc_run_id c) (Some (lc_tenant_id c)) (lr_budget r') = used"
  using assms
proof (induction k arbitrary: r entries r')
  case 0
  then show ?case by (simp add: nearly_spent_def)
next
  case (Suc k)
  obtain r1 where 1: "beforeCall stored (llm_call.truncate c) r = (Inr Admitted, r1)"
    "nearly_spent b used c stored r1" "lr_ledger r1 = lr_ledger r"
    using beforeCall_nearly_spent [OF Suc.prems(1)] by blast
  obtain row r2 where 2: "record_usage fl rt now rid ok c r1 = (Inr (Booked (Some row)), r2)"
    "nearly_spent b used c stored r2" "length (cl_rows (lr_ledger r2)) = Suc (length (cl_rows (lr_ledger r1)))"
    using record_nearly_spent [OF 1(2)] by blast
  obtain es where es: "run_ops (llm_exec fl rt)
      (concat (replicate k [BeforeCall stored (llm_call.truncate c), RecordUsage now rid ok c])) r2 = (es, r')"
    and e: "entries = (BeforeCall stored (llm_call.truncate c), Inr Admitted)
      # (RecordUsage now rid ok c, Inr (Booked (Some row))) # es"
    using Suc.prems(2) 1(1) 2(1)
    by (cases "run_ops (llm_exec fl rt)
      (concat (replicate k [BeforeCall stored (llm_call.truncate c), RecordUsage now rid ok c])) r2") auto
  from Suc.IH [OF 2(2) es] show ?case by (auto simp: e 1(3) 2(3))
qed

definition example_recorder :: llm_recorder where
  "example_recorder = \<lparr>lr_ledger = CostLedger None,
     lr_budget = \<lparr>bg_tokenBudget = None, bg_perRunTokenBudget = Some 100, bg_onExceed = FAIL_CLOSED,
       bg_useCache = False, bg_usedTokens = 0, bg_tenantUsage = Map.empty, bg_runUsage = Map.empty\<rparr>,
     lr_has_sink = True, lr_has_reader = True, lr_sink = [], lr_warnings = []\<rparr>"

definition example_llm_call :: llm_usage_call where
  "example_llm_call = \<lparr>lc_tenant_id = ''t1'', lc_run_id = ''r1'', lc_correlation_id = ''c1'', lc_step_index = Fin 0,
     lc_attempt = Fin 0, lc_provider = ''p'', lc_model = ''m'', lc_request_id = None,
     lc_usage = Some \<lparr>lu_prompt_tokens = Fin 90, lu_completion_tokens = Fin 60, lu_cached_tokens = None\<rparr>\<rparr>"

theorem overshooting_calls_are_never_charged_witness:
  "\<exists>entries r'. run_ops (llm_exec Fin echo_runtime) (concat (replicate 1000
      [BeforeCall (Some (Fin 7)) (llm_call.truncate example_llm_call), RecordUsage ''now'' ''id'' True example_llm_call]))
      example_recorder = (entries, r')
    \<and> length (cl_rows (lr_ledger r')) = 1000
    \<and> usedTokensForRun ''r1'' (Some ''t1'') (lr_budget r') = 0"
proof -
  have n: "nearly_spent 100 0 example_llm_call (Some (Fin 7)) example_recorder"
    by (simp add: nearly_spent_def example_recorder_def example_llm_call_def CostLedger_def usedTokensForRun_def
        stored_count_def usage_budget_input_def countTokens_def normalizeUsage_def andThen_def max_safe_def)
  obtain entries r' where e: "run_ops (llm_exec Fin echo_runtime) (concat (replicate 1000
      [BeforeCall (Some (Fin 7)) (llm_call.truncate example_llm_call), RecordUsage ''now'' ''id'' True example_llm_call]))
      example_recorder = (entries, r')" by fastforce
  from overshooting_calls_are_never_charged [OF n e] e show ?thesis
    by (simp add: example_recorder_def example_llm_call_def CostLedger_def)
qed

end
