(* ===== verification/BudgetHistory.thy ===== *)
theory BudgetHistory
  imports Budget
begin

text \<open>
  The token budget guard as a function of its history: what a usage costs, what the usages before it were
  granted, and whether it still fits. None of the guard's counters occur in this specification.
\<close>

subsection \<open>Specification\<close>

text \<open>A count of a usage is left out, or a whole number that a double holds exactly.\<close>

definition counts_as :: "jnum option \<Rightarrow> int \<Rightarrow> bool" where
  "counts_as v k \<longleftrightarrow> (v = None \<and> k = 0) \<or> (v = Some (Fin (of_int k)) \<and> 0 \<le> k \<and> k \<le> 2 ^ 53 - 1)"

definition costs :: "bool \<Rightarrow> budget_usage \<Rightarrow> int \<Rightarrow> bool" where
  "costs cache u n \<longleftrightarrow> (\<exists>i k c. counts_as (bu_input_tokens u) i \<and> counts_as (bu_output_tokens u) k
     \<and> counts_as (bu_cached_tokens u) c \<and> n = (if cache then i + k + c else i + k) \<and> n \<le> 2 ^ 53 - 1)"

text \<open>Usages granted together draw on one tenant's account, or the account of usages without a tenant.\<close>

definition same_scope :: "budget_usage \<Rightarrow> budget_usage \<Rightarrow> bool" where
  "same_scope u v \<longleftrightarrow> bu_tenant_id u = bu_tenant_id v"

text \<open>A run's account is named \<open>tenant:run\<close>, with no tenant written as the empty string.\<close>

definition same_run :: "budget_usage \<Rightarrow> budget_usage \<Rightarrow> bool" where
  "same_run u v \<longleftrightarrow> (case bu_tenant_id u of None \<Rightarrow> [] | Some t \<Rightarrow> t) @ '':'' @ bu_run_id u
     = (case bu_tenant_id v of None \<Rightarrow> [] | Some t \<Rightarrow> t) @ '':'' @ bu_run_id v"

definition granted_so_far :: "(budget_usage \<Rightarrow> bool) \<Rightarrow> (budget_usage \<times> budget_decision result) list \<Rightarrow> int" where
  "granted_so_far P past = sum_list (map (\<lambda>x. case snd x of
     Inr d \<Rightarrow> if bd_allowed d \<and> P (fst x) then bd_requested_tokens d else 0 | Inl _ \<Rightarrow> 0) past)"

definition fits :: "jnum option \<Rightarrow> int \<Rightarrow> int \<Rightarrow> bool" where
  "fits limit spent n \<longleftrightarrow> (case limit of None \<Rightarrow> True
     | Some l \<Rightarrow> (\<exists>b. l = Fin (of_int b) \<and> spent + n \<le> b \<and> (n = 0 \<longrightarrow> spent < b)))"

text \<open>What is spent stays within a limit.\<close>

definition bounded_by :: "jnum option \<Rightarrow> int \<Rightarrow> bool" where
  "bounded_by limit n \<longleftrightarrow> (case limit of None \<Rightarrow> True | Some l \<Rightarrow> (\<exists>b. l = Fin (of_int b) \<and> n \<le> b))"

text \<open>The answer to one usage after those of \<open>past\<close>.\<close>

definition budget_answer :: "jnum option \<Rightarrow> jnum option \<Rightarrow> budget_exceed option \<Rightarrow> bool option \<Rightarrow>
    (budget_usage \<times> budget_decision result) list \<Rightarrow> budget_usage \<Rightarrow> budget_decision result \<Rightarrow> bool" where
  "budget_answer tb rb oe uc past u answer \<longleftrightarrow>
     (case answer of
        Inl _ \<Rightarrow> \<not> (\<exists>n. costs (uc = Some True) u n)
      | Inr d \<Rightarrow> costs (uc = Some True) u (bd_requested_tokens d)
          \<and> (let spent = granted_so_far (same_scope u) past; run = granted_so_far (same_run u) past; n = bd_requested_tokens d in
             bd_total_tokens d = spent + n \<and> bd_run_tokens d = run + n
             \<and> (if fits tb spent n \<and> fits rb run n
                then bd_allowed d \<and> bd_status d = ALLOWED \<and> bd_action d = ACTION_ALLOW
                  \<and> bd_reason d = (if tb = None \<and> rb = None then NO_BUDGET_CONFIGURED else WITHIN_BUDGET)
                else \<not> bd_allowed d \<and> bd_reason d = TOKEN_BUDGET_EXCEEDED
                  \<and> (if oe = Some PARK then bd_status d = PARKED \<and> bd_action d = ACTION_PARK
                     else bd_status d = BUDGET_FAILED \<and> bd_action d = ACTION_FAIL_CLOSED))))"

subsection \<open>Counts and limits\<close>

lemma counts_as_iff: "normalizeUsage v code = Inr k \<longleftrightarrow> counts_as v k"
proof (cases v)
  case (Some n)
  show ?thesis
  proof (cases n)
    case (Fin q)
    have "is_int_rat q \<Longrightarrow> q = of_int \<lfloor>q\<rfloor>" by (auto simp: is_int_rat_def)
    then show ?thesis using Some Fin
      by (auto simp: normalizeUsage_def counts_as_def is_int_rat_def max_safe_def split: option.splits if_splits)
  qed (use Some in \<open>auto simp: normalizeUsage_def counts_as_def\<close>)
qed (auto simp: normalizeUsage_def counts_as_def)

lemma counts_as_unique: "counts_as v k \<Longrightarrow> counts_as v l \<Longrightarrow> k = l"
  by (auto simp: counts_as_def)

lemma costs_iff: "countTokens u cache = Inr n \<longleftrightarrow> costs cache u n"
proof
  assume "countTokens u cache = Inr n"
  then obtain i k c where "counts_as (bu_input_tokens u) i" "counts_as (bu_output_tokens u) k" "counts_as (bu_cached_tokens u) c"
    "n = (if cache then i + k + c else i + k)" "n \<le> max_safe"
    by (auto simp: countTokens_def andThen_Inr_iff counts_as_iff Let_def split: if_splits)
  then show "costs cache u n" unfolding costs_def max_safe_def by auto
next
  assume "costs cache u n"
  then obtain i k c where "counts_as (bu_input_tokens u) i" "counts_as (bu_output_tokens u) k" "counts_as (bu_cached_tokens u) c"
    "n = (if cache then i + k + c else i + k)" "n \<le> max_safe"
    unfolding costs_def max_safe_def by auto
  moreover from this have "normalizeUsage (bu_input_tokens u) a = Inr i" "normalizeUsage (bu_output_tokens u) a = Inr k"
    "normalizeUsage (bu_cached_tokens u) a = Inr c" for a
    by (simp_all add: counts_as_iff)
  ultimately show "countTokens u cache = Inr n"
    by (auto simp: countTokens_def Let_def)
qed

lemma costs_failure: "countTokens u cache = Inl e \<Longrightarrow> \<not> costs cache u n"
  using costs_iff [of u cache n] by simp

lemma limit_whole: "normalizeLimit v code = Inr (Some b) \<Longrightarrow> v = Some (Fin (of_int b))"
proof (cases v)
  case (Some l)
  assume "normalizeLimit v code = Inr (Some b)"
  then have "safe_count l = Some b" using Some by (auto simp: normalizeLimit_def split: option.splits)
  then have "counts_as v b" using Some counts_as_iff [of v code b] by (simp add: normalizeUsage_def)
  then show ?thesis using Some by (simp add: counts_as_def)
qed (simp add: normalizeLimit_def)

lemma limit_absent: "normalizeLimit v code = Inr cap \<Longrightarrow> cap = None \<longleftrightarrow> v = None"
  by (cases v; cases "safe_count (the v)") (auto simp: normalizeLimit_def)

lemma fits_iff: "normalizeLimit v code = Inr cap \<Longrightarrow> fits v spent n \<longleftrightarrow> \<not> over_limit cap spent n"
  using limit_whole [of v code] limit_absent [of v code cap]
  by (cases cap) (auto simp: fits_def over_limit_def)

subsection \<open>The guard keeps its history\<close>

definition keeps_history :: "jnum option \<Rightarrow> jnum option \<Rightarrow> budget_exceed option \<Rightarrow> bool option \<Rightarrow>
    (budget_usage \<times> budget_decision result) list \<Rightarrow> budget_guard \<Rightarrow> bool" where
  "keeps_history tb rb oe uc past g \<longleftrightarrow>
     normalizeLimit tb ''TOKEN_BUDGET_INVALID'' = Inr (bg_tokenBudget g)
     \<and> normalizeLimit rb ''PER_RUN_TOKEN_BUDGET_INVALID'' = Inr (bg_perRunTokenBudget g)
     \<and> (bg_onExceed g = PARK \<longleftrightarrow> oe = Some PARK) \<and> bg_useCache g = (uc = Some True)
     \<and> (\<forall>u. used_in_scope g (bu_tenant_id u) = granted_so_far (same_scope u) past)
     \<and> (\<forall>u. stored_count (bg_runUsage g) (run_key (bu_tenant_id u) (bu_run_id u)) = granted_so_far (same_run u) past)"

lemma run_key_eq: "run_key (bu_tenant_id u) (bu_run_id u) = run_key (bu_tenant_id v) (bu_run_id v) \<longleftrightarrow> same_run u v"
  by (simp only: same_run_def run_key_def)

lemma same_run_sym: "same_run u v = same_run v u"
  unfolding same_run_def by (rule eq_commute)

lemma history_starts:
  assumes "TokenBudgetGuard tb rb oe uc = Inr g"
  shows "keeps_history tb rb oe uc [] g"
proof -
  have "bg_onExceed g = PARK \<longleftrightarrow> oe = Some PARK" "bg_useCache g = (uc = Some True)"
    using assms by (auto simp: TokenBudgetGuard_def andThen_Inr_iff split: option.splits)
  then show ?thesis using fresh_guard [OF assms] by (simp add: keeps_history_def granted_so_far_def)
qed

lemma admission_configured:
  assumes "admit_usage u g = (answer, g')"
  shows "bg_tokenBudget g' = bg_tokenBudget g" "bg_perRunTokenBudget g' = bg_perRunTokenBudget g"
    "bg_onExceed g' = bg_onExceed g" "bg_useCache g' = bg_useCache g"
  using assms by (auto simp: admit_usage_def split: sum.splits if_splits option.splits)

lemma granted_so_far_snoc:
  "granted_so_far P (past @ [(u, answer)]) = granted_so_far P past
     + (case answer of Inr d \<Rightarrow> if bd_allowed d \<and> P u then bd_requested_tokens d else 0 | Inl _ \<Rightarrow> 0)"
  by (cases answer) (simp_all add: granted_so_far_def)

lemma history_grows:
  assumes "keeps_history tb rb oe uc past g" "admit_usage u g = (answer, g')"
  shows "keeps_history tb rb oe uc (past @ [(u, answer)]) g'"
proof -
  have "used_in_scope g' (bu_tenant_id v) = granted_so_far (same_scope v) (past @ [(u, answer)])" for v
    using assms(1) admit_usage_counts(1) [OF assms(2), of "bu_tenant_id v"]
    by (auto simp: granted_so_far_snoc keeps_history_def same_scope_def split: sum.splits)
  moreover have "stored_count (bg_runUsage g') (run_key (bu_tenant_id v) (bu_run_id v))
      = granted_so_far (same_run v) (past @ [(u, answer)])" for v
    using assms(1) admit_usage_counts(2) [OF assms(2), of "run_key (bu_tenant_id v) (bu_run_id v)"]
    by (auto simp: granted_so_far_snoc keeps_history_def run_key_eq same_run_sym [of u] split: sum.splits)
  ultimately show ?thesis using assms(1) by (simp add: keeps_history_def admission_configured [OF assms(2)])
qed

lemma history_answers:
  assumes "keeps_history tb rb oe uc past g" "admit_usage u g = (answer, g')"
  shows "budget_answer tb rb oe uc past u answer"
proof -
  have k: "bg_useCache g = (uc = Some True)" "bg_onExceed g = PARK \<longleftrightarrow> oe = Some PARK"
    "used_in_scope g (bu_tenant_id u) = granted_so_far (same_scope u) past"
    "stored_count (bg_runUsage g) (run_key (bu_tenant_id u) (bu_run_id u)) = granted_so_far (same_run u) past"
    using assms(1) by (simp_all add: keeps_history_def)
  have l: "normalizeLimit tb ''TOKEN_BUDGET_INVALID'' = Inr (bg_tokenBudget g)"
    "normalizeLimit rb ''PER_RUN_TOKEN_BUDGET_INVALID'' = Inr (bg_perRunTokenBudget g)"
    using assms(1) by (simp_all add: keeps_history_def)
  have c: "check_budget u g = answer" using assms(2) by (auto simp: admit_usage_def split: sum.splits if_splits)
  show ?thesis
  proof (cases "countTokens u (bg_useCache g)")
    case (Inl e)
    then show ?thesis using c costs_failure [OF Inl] k(1) by (auto simp: check_budget_def budget_answer_def)
  next
    case (Inr n)
    then have "costs (uc = Some True) u n" using costs_iff k(1) by simp
    moreover have "over_limit (bg_tokenBudget g) x n = (\<not> fits tb x n)" "over_limit (bg_perRunTokenBudget g) x n = (\<not> fits rb x n)" for x
      by (simp_all add: fits_iff [OF l(1)] fits_iff [OF l(2)])
    moreover note limit_absent [OF l(1)] limit_absent [OF l(2)]
    ultimately show ?thesis
      using c Inr k by (auto simp: check_budget_def budget_answer_def Let_def)
  qed
qed

lemma history_run:
  assumes "keeps_history tb rb oe uc past g" "run_ops admit_usage us g = (entries, g')" "i < length us"
  shows "fst (entries ! i) = us ! i
    \<and> budget_answer tb rb oe uc (past @ take i entries) (us ! i) (snd (entries ! i))"
  using assms
proof (induction us arbitrary: past g entries i)
  case (Cons u us)
  obtain answer g1 where a: "admit_usage u g = (answer, g1)" by force
  obtain es where es: "run_ops admit_usage us g1 = (es, g')" "entries = (u, answer) # es"
    using Cons.prems(2) a by (cases "run_ops admit_usage us g1") auto
  show ?case
  proof (cases i)
    case 0
    then show ?thesis using history_answers [OF Cons.prems(1) a] es by simp
  next
    case (Suc j)
    then show ?thesis
      using Cons.IH [OF history_grows [OF Cons.prems(1) a] es(1), of j] Cons.prems(3) es(2) by simp
  qed
qed simp

lemma history_ends:
  "keeps_history tb rb oe uc past g \<Longrightarrow> run_ops admit_usage us g = (entries, g')
    \<Longrightarrow> keeps_history tb rb oe uc (past @ entries) g'"
proof (induction us arbitrary: past g entries)
  case (Cons u us)
  obtain answer g1 where a: "admit_usage u g = (answer, g1)" by force
  obtain es where es: "run_ops admit_usage us g1 = (es, g')" "entries = (u, answer) # es"
    using Cons.prems(2) a by (cases "run_ops admit_usage us g1") auto
  show ?case using Cons.IH [OF history_grows [OF Cons.prems(1) a] es(1)] es(2) by simp
qed simp

lemma bounded_by_iff: "normalizeLimit v code = Inr cap \<Longrightarrow> (case cap of None \<Rightarrow> True | Some b \<Rightarrow> n \<le> b) \<Longrightarrow> bounded_by v n"
  using limit_whole [of v code] limit_absent [of v code cap] by (cases cap) (auto simp: bounded_by_def)

lemma grants_are_bounded:
  assumes "TokenBudgetGuard tb rb oe uc = Inr g" "run_ops admit_usage us g = (entries, g')"
  shows "bounded_by tb (granted_so_far (same_scope u) entries) \<and> bounded_by rb (granted_so_far (same_run u) entries)"
proof -
  have h: "keeps_history tb rb oe uc entries g'" using history_ends [OF history_starts [OF assms(1)] assms(2)] by simp
  have w: "within_budget g'" using budget_limits.inv_run [OF fresh_within [OF assms(1)], of us] assms(2) by simp
  have "granted_so_far (same_scope u) entries = used_in_scope g' (bu_tenant_id u)"
    "granted_so_far (same_run u) entries = stored_count (bg_runUsage g') (run_key (bu_tenant_id u) (bu_run_id u))"
    using h by (simp_all add: keeps_history_def)
  then have "case bg_tokenBudget g' of None \<Rightarrow> True | Some b \<Rightarrow> granted_so_far (same_scope u) entries \<le> b"
    "case bg_perRunTokenBudget g' of None \<Rightarrow> True | Some b \<Rightarrow> granted_so_far (same_run u) entries \<le> b"
    using w by (auto simp: within_budget_def split: option.splits)
  then show ?thesis using h bounded_by_iff unfolding keeps_history_def by blast
qed

text \<open>
  C40: the answer to every usage follows from the guard's configuration and from what was granted before it:
  a usage whose counts are not whole, or too large, is refused as an error; any other is granted exactly
  when the tokens granted before on its tenant's account and on its run's account leave room for it (a
  usage of no tokens needs room to spare), and is otherwise parked or failed as configured. The totals
  reported are those of the two accounts with this usage, and a usage that is not granted takes nothing. So
  the tokens granted on an account never exceed its limit.
\<close>

theorem budget_follows_its_history:
  assumes "TokenBudgetGuard tb rb oe uc = Inr g" and "run_ops admit_usage us g = (entries, g')" and "i < length us"
  shows "fst (entries ! i) = us ! i
    \<and> budget_answer tb rb oe uc (take i entries) (us ! i) (snd (entries ! i))
    \<and> bounded_by tb (granted_so_far (same_scope u) entries) \<and> bounded_by rb (granted_so_far (same_run u) entries)"
  using history_run [OF history_starts [OF assms(1)] assms(2,3)] grants_are_bounded [OF assms(1,2)] by simp

definition example_usage :: "rat \<Rightarrow> budget_usage" where
  "example_usage n = \<lparr>bu_run_id = ''r1'', bu_tenant_id = Some ''t1'', bu_input_tokens = Some (Fin n),
    bu_output_tokens = None, bu_cached_tokens = None\<rparr>"

text \<open>Of 60, 50 and 40 tokens under a budget of 100 the second is refused and the third still fits.\<close>

theorem budget_follows_its_history_witness:
  "\<exists>g entries g'. TokenBudgetGuard (Some (Fin 100)) None None None = Inr g
    \<and> run_ops admit_usage [example_usage 60, example_usage 50, example_usage 40] g = (entries, g')
    \<and> map (\<lambda>x. case snd x of Inl _ \<Rightarrow> False | Inr d \<Rightarrow> bd_allowed d) entries = [True, False, True]
    \<and> budget_answer (Some (Fin 100)) None None None (take 2 entries) (example_usage 40) (snd (entries ! 2))
    \<and> bounded_by (Some (Fin 100)) (granted_so_far (same_scope (example_usage 60)) entries)"
proof -
  let ?g = "\<lparr>bg_tokenBudget = Some 100, bg_perRunTokenBudget = None, bg_onExceed = FAIL_CLOSED, bg_useCache = False,
    bg_usedTokens = 0, bg_tenantUsage = Map.empty, bg_runUsage = Map.empty\<rparr>"
  have g: "TokenBudgetGuard (Some (Fin 100)) None None None = Inr ?g"
    by (simp add: TokenBudgetGuard_def normalizeLimit_def max_safe_def)
  obtain entries g' where r: "run_ops admit_usage [example_usage 60, example_usage 50, example_usage 40] ?g = (entries, g')"
    by fastforce
  have c: "countTokens (example_usage 60) False = Inr 60" "countTokens (example_usage 50) False = Inr 50"
    "countTokens (example_usage 40) False = Inr 40"
    by (simp_all add: countTokens_def normalizeUsage_def example_usage_def max_safe_def)
  have u: "bu_tenant_id (example_usage n) = Some ''t1''" "bu_run_id (example_usage n) = ''r1''" for n
    by (simp_all add: example_usage_def)
  have "map (\<lambda>x. case snd x of Inl _ \<Rightarrow> False | Inr d \<Rightarrow> bd_allowed d) entries = [True, False, True]"
    unfolding arg_cong [OF r [symmetric], of fst, simplified]
    by (simp add: admit_usage_def check_budget_def c u used_in_scope_def stored_count_def over_limit_def)
  with budget_follows_its_history [OF g r, of 2] g r show ?thesis by (intro exI [of _ ?g] exI [of _ entries] exI [of _ g']) simp
qed

end
