(* ===== verification/SchemaTypes.thy ===== *)
theory SchemaTypes
  imports CanonicalJson Contracts Numbers
begin

text \<open>
  The schema layer of the skills, without the validator itself: the closed keyword vocabulary
  (\<open>packages/skills/src/schema/keywords.ts\<close>), the registration gate (\<open>assert-supported.ts\<close>), the stable
  form values are compared by (\<open>canonical.ts\<close>) and the formats (\<open>formats.ts\<close>). \<open>new RegExp\<close> and
  \<open>new URL\<close> are members of a \<open>schema_env\<close>, with the decimal rendering of a number and IEEE rounding.
  In this layer \<open>JOther\<close> is a function. The texts of refusals and violations are left out.
\<close>

record schema_env =
  se_numtext :: "rat \<Rightarrow> string"
  se_regexp :: "string \<Rightarrow> (string \<Rightarrow> bool) option"
  se_url_protocol :: "string \<Rightarrow> string option"
  se_rounding :: rounding

subsection \<open>The vocabulary\<close>

definition SUPPORTED_SCHEMA_KEYWORDS :: "string list" where
  "SUPPORTED_SCHEMA_KEYWORDS = [''$id'', ''$schema'', ''additionalProperties'', ''allOf'', ''anyOf'', ''const'',
     ''default'', ''deprecated'', ''description'', ''enum'', ''examples'', ''exclusiveMaximum'',
     ''exclusiveMinimum'', ''format'', ''items'', ''maxItems'', ''maxLength'', ''maxProperties'', ''maximum'',
     ''minItems'', ''minLength'', ''minProperties'', ''minimum'', ''multipleOf'', ''not'', ''oneOf'', ''pattern'',
     ''prefixItems'', ''properties'', ''required'', ''title'', ''type'', ''uniqueItems'']"

definition SUPPORTED_FORMATS :: "string list" where
  "SUPPORTED_FORMATS = [''date'', ''date-time'', ''email'', ''time'', ''uri'', ''uuid'']"

definition SUPPORTED_TYPE_NAMES :: "string list" where
  "SUPPORTED_TYPE_NAMES = [''array'', ''boolean'', ''integer'', ''null'', ''number'', ''object'', ''string'']"

definition SUBSCHEMA_KEYWORDS :: "string list" where
  "SUBSCHEMA_KEYWORDS = [''additionalProperties'', ''items'', ''not'']"

definition SUBSCHEMA_LIST_KEYWORDS :: "string list" where
  "SUBSCHEMA_LIST_KEYWORDS = [''allOf'', ''anyOf'', ''oneOf'', ''prefixItems'']"

definition SUBSCHEMA_MAP_KEYWORDS :: "string list" where
  "SUBSCHEMA_MAP_KEYWORDS = [''properties'']"

definition STRING_KEYWORDS :: "string list" where
  "STRING_KEYWORDS = [''$id'', ''$schema'', ''description'', ''title'']"

definition BOOLEAN_KEYWORDS :: "string list" where
  "BOOLEAN_KEYWORDS = [''deprecated'', ''uniqueItems'']"

definition FINITE_NUMBER_KEYWORDS :: "string list" where
  "FINITE_NUMBER_KEYWORDS = [''exclusiveMaximum'', ''exclusiveMinimum'', ''maximum'', ''minimum'']"

definition POSITIVE_NUMBER_KEYWORDS :: "string list" where
  "POSITIVE_NUMBER_KEYWORDS = [''multipleOf'']"

definition COUNT_KEYWORDS :: "string list" where
  "COUNT_KEYWORDS = [''maxItems'', ''maxLength'', ''maxProperties'', ''minItems'', ''minLength'', ''minProperties'']"

definition STRING_LIST_KEYWORDS :: "string list" where
  "STRING_LIST_KEYWORDS = [''examples'', ''required'']"

definition NON_EMPTY_ARRAY_KEYWORDS :: "string list" where
  "NON_EMPTY_ARRAY_KEYWORDS = [''enum'']"

lemmas keyword_lists = STRING_KEYWORDS_def BOOLEAN_KEYWORDS_def FINITE_NUMBER_KEYWORDS_def
  POSITIVE_NUMBER_KEYWORDS_def COUNT_KEYWORDS_def STRING_LIST_KEYWORDS_def NON_EMPTY_ARRAY_KEYWORDS_def
  SUBSCHEMA_KEYWORDS_def SUBSCHEMA_LIST_KEYWORDS_def SUBSCHEMA_MAP_KEYWORDS_def

subsection \<open>The registration gate\<close>

text \<open>
  Every refusal of the gate is \<open>INVALID_SCHEMA\<close>, so the walk is a test. \<open>assertNode\<close> on a node is
  \<open>assert_members\<close> on its members; the cases of \<open>assertKeyword\<close> come in the order of the source.
\<close>

fun isStringArray :: "json \<Rightarrow> bool \<Rightarrow> bool" where
  "isStringArray (JArr xs) nonEmpty =
     list_all (\<lambda>x. case x of JStr s \<Rightarrow> \<not> nonEmpty \<or> s \<noteq> [] | _ \<Rightarrow> False) xs"
| "isStringArray _ _ = False"

definition assertTypeKeyword :: "json \<Rightarrow> bool" where
  "assertTypeKeyword v =
    (let names = (case v of JArr xs \<Rightarrow> xs | _ \<Rightarrow> [v]) in
     names \<noteq> [] \<and> list_all (\<lambda>n. case n of JStr s \<Rightarrow> List.member SUPPORTED_TYPE_NAMES s | _ \<Rightarrow> False) names
     \<and> distinct names)"

fun count_value :: "json \<Rightarrow> bool" where
  "count_value (JNum (Fin q)) = (is_safe_integer (Fin q) \<and> 0 \<le> q)"
| "count_value _ = False"

text \<open>The keywords whose value holds no schema.\<close>

definition plain_keyword :: "schema_env \<Rightarrow> string \<Rightarrow> json \<Rightarrow> bool" where
  "plain_keyword env k v =
    (if List.member STRING_KEYWORDS k then (case v of JStr _ \<Rightarrow> True | _ \<Rightarrow> False)
     else if List.member BOOLEAN_KEYWORDS k then (case v of JBool _ \<Rightarrow> True | _ \<Rightarrow> False)
     else if List.member FINITE_NUMBER_KEYWORDS k then (case v of JNum n \<Rightarrow> is_finite n | _ \<Rightarrow> False)
     else if List.member POSITIVE_NUMBER_KEYWORDS k then (case v of JNum (Fin q) \<Rightarrow> 0 < q | _ \<Rightarrow> False)
     else if List.member COUNT_KEYWORDS k then count_value v
     else if List.member STRING_LIST_KEYWORDS k then isStringArray v (k = ''required'')
     else if List.member NON_EMPTY_ARRAY_KEYWORDS k then (case v of JArr xs \<Rightarrow> xs \<noteq> [] | _ \<Rightarrow> False)
     else if k = ''type'' then assertTypeKeyword v
     else if k = ''format'' then (case v of JStr f \<Rightarrow> List.member SUPPORTED_FORMATS f | _ \<Rightarrow> False)
     else if k = ''pattern'' then (case v of JStr p \<Rightarrow> se_regexp env p \<noteq> None | _ \<Rightarrow> False)
     else True)"

fun assertKeyword :: "schema_env \<Rightarrow> string \<Rightarrow> json \<Rightarrow> bool"
  and assert_members :: "schema_env \<Rightarrow> jobject \<Rightarrow> bool"
  and assert_items :: "schema_env \<Rightarrow> json list \<Rightarrow> bool"
  and assert_map :: "schema_env \<Rightarrow> jobject \<Rightarrow> bool" where
  "assertKeyword env k v =
    (if List.member SUBSCHEMA_KEYWORDS k then
       (case v of JBool _ \<Rightarrow> k = ''additionalProperties'' | JObj ms \<Rightarrow> assert_members env ms | _ \<Rightarrow> False)
     else if List.member SUBSCHEMA_LIST_KEYWORDS k then
       (case v of JArr xs \<Rightarrow> xs \<noteq> [] \<and> assert_items env xs | _ \<Rightarrow> False)
     else if List.member SUBSCHEMA_MAP_KEYWORDS k then
       (case v of JObj ms \<Rightarrow> assert_map env ms | _ \<Rightarrow> False)
     else plain_keyword env k v)"
| "assert_members env [] = True"
| "assert_members env ((k, v) # ms) =
    (List.member SUPPORTED_SCHEMA_KEYWORDS k \<and> assertKeyword env k v \<and> assert_members env ms)"
| "assert_items env [] = True"
| "assert_items env (x # xs) = ((case x of JObj ms \<Rightarrow> assert_members env ms | _ \<Rightarrow> False) \<and> assert_items env xs)"
| "assert_map env [] = True"
| "assert_map env ((k, v) # ms) = ((case v of JObj s \<Rightarrow> assert_members env s | _ \<Rightarrow> False) \<and> assert_map env ms)"

definition assertNode :: "schema_env \<Rightarrow> json \<Rightarrow> bool" where
  "assertNode env node = (case node of JObj ms \<Rightarrow> assert_members env ms | _ \<Rightarrow> False)"

definition assertSupportedSchema :: "schema_env \<Rightarrow> json \<Rightarrow> unit result" where
  "assertSupportedSchema env schema =
    (if assertNode env schema then Inr () else Inl (SkillError ''INVALID_SCHEMA''))"

subsection \<open>The stable form\<close>

fun stableJson :: "schema_env \<Rightarrow> json \<Rightarrow> string"
  and stable_items :: "schema_env \<Rightarrow> json list \<Rightarrow> string list"
  and stable_members :: "schema_env \<Rightarrow> jobject \<Rightarrow> (string \<times> string) list" where
  "stableJson env (JBool b) = (if b then ''true'' else ''false'')"
| "stableJson env (JNum (Fin q)) = se_numtext env q"
| "stableJson env (JNum _) = ''['' @ json_quote ''<non-finite number>'' @ '']''"
| "stableJson env (JStr s) = json_quote s"
| "stableJson env JNull = ''null''"
| "stableJson env (JArr xs) = ''['' @ join_with '','' (stable_items env xs) @ '']''"
| "stableJson env (JObj ms) = ''{'' @ join_with '',''
     (map (\<lambda>(k, t). json_quote k @ '':'' @ t) (sort_key fst (stable_members env ms))) @ ''}''"
| "stableJson env JUndef = ''['' @ json_quote ''<undefined>'' @ '']''"
| "stableJson env JOther = ''['' @ json_quote ''<function>'' @ '']''"
| "stable_items env [] = []"
| "stable_items env (x # xs) = stableJson env x # stable_items env xs"
| "stable_members env [] = []"
| "stable_members env ((k, x) # ms) = (k, stableJson env x) # stable_members env ms"

subsection \<open>Formats\<close>

definition is_digit :: "char \<Rightarrow> bool" where
  "is_digit c \<longleftrightarrow> c \<in> set ''0123456789''"

definition is_hex :: "char \<Rightarrow> bool" where
  "is_hex c \<longleftrightarrow> c \<in> set ''0123456789abcdefABCDEF''"

definition digits_value :: "string \<Rightarrow> nat" where
  "digits_value s = foldl (\<lambda>n c. 10 * n + (of_char c - 48)) 0 s"

text \<open>
  The regular expressions, as readers that consume a prefix: \<open>n\<close> characters of a class, one character of
  a list. A reader answers with what it read and what is left.
\<close>

definition read_class :: "(char \<Rightarrow> bool) \<Rightarrow> nat \<Rightarrow> string \<Rightarrow> (string \<times> string) option" where
  "read_class P n s = (if length (take n s) = n \<and> list_all P (take n s) then Some (take n s, drop n s) else None)"

definition read_one :: "string \<Rightarrow> string \<Rightarrow> string option" where
  "read_one cs s = (case s of [] \<Rightarrow> None | c # r \<Rightarrow> if c \<in> set cs then Some r else None)"

text \<open>\<open>(\d{4})-(\d{2})-(\d{2})\<close>, \<open>(\d{2}):(\d{2}):(\d{2})\<close>, and \<open>(?:\.\d+)?(?:[Zz]|[+-]\d{2}:\d{2})$\<close>.\<close>

definition read_date :: "string \<Rightarrow> (string \<times> string \<times> string \<times> string) option" where
  "read_date s = Option.bind (read_class is_digit 4 s) (\<lambda>(y, s1). Option.bind (read_one ''-'' s1) (\<lambda>s2.
     Option.bind (read_class is_digit 2 s2) (\<lambda>(m, s3). Option.bind (read_one ''-'' s3) (\<lambda>s4.
     Option.bind (read_class is_digit 2 s4) (\<lambda>(d, s5). Some (y, m, d, s5))))))"

definition read_clock :: "string \<Rightarrow> (string \<times> string \<times> string \<times> string) option" where
  "read_clock s = Option.bind (read_class is_digit 2 s) (\<lambda>(h, s1). Option.bind (read_one '':'' s1) (\<lambda>s2.
     Option.bind (read_class is_digit 2 s2) (\<lambda>(m, s3). Option.bind (read_one '':'' s3) (\<lambda>s4.
     Option.bind (read_class is_digit 2 s4) (\<lambda>(d, s5). Some (h, m, d, s5))))))"

definition zone_ok :: "string \<Rightarrow> bool" where
  "zone_ok s \<longleftrightarrow> s = ''Z'' \<or> s = ''z''
    \<or> (case Option.bind (read_one ''+-'' s) (\<lambda>s1. Option.bind (read_class is_digit 2 s1) (\<lambda>(_, s2).
          Option.bind (read_one '':'' s2) (read_class is_digit 2))) of
         Some (_, []) \<Rightarrow> True | _ \<Rightarrow> False)"

definition fraction_and_zone_ok :: "string \<Rightarrow> bool" where
  "fraction_and_zone_ok s =
    (case read_one ''.'' s of
       None \<Rightarrow> zone_ok s
     | Some r \<Rightarrow> takeWhile is_digit r \<noteq> [] \<and> zone_ok (dropWhile is_digit r))"

definition daysInMonth :: "nat \<Rightarrow> nat \<Rightarrow> nat" where
  "daysInMonth year month =
    (if month = 2 then
       (if year mod 4 = 0 \<and> (year mod 100 \<noteq> 0 \<or> year mod 400 = 0) then 29 else 28)
     else if 1 \<le> month \<and> month \<le> 12 then [31, 28, 31, 30, 31, 30, 31, 31, 30, 31, 30, 31] ! (month - 1) else 0)"

definition isCalendarDate :: "string \<Rightarrow> string \<Rightarrow> string \<Rightarrow> bool" where
  "isCalendarDate year month day \<longleftrightarrow>
     1 \<le> digits_value month \<and> digits_value month \<le> 12 \<and> 1 \<le> digits_value day
   \<and> digits_value day \<le> daysInMonth (digits_value year) (digits_value month)"

definition isClockTime :: "string \<Rightarrow> string \<Rightarrow> string \<Rightarrow> bool" where
  "isClockTime hour minute second \<longleftrightarrow>
     digits_value hour \<le> 23 \<and> digits_value minute \<le> 59 \<and> digits_value second \<le> 60"

text \<open>\<open>^[^\s@]+@[^\s@]+\.[^\s@]+$\<close>: one \<open>@\<close>, and a dot inside the domain.\<close>

definition email_ok :: "string \<Rightarrow> bool" where
  "email_ok s =
    (let local = takeWhile (\<lambda>c. c \<noteq> CHR ''@'') s in
     case dropWhile (\<lambda>c. c \<noteq> CHR ''@'') s of
       [] \<Rightarrow> False
     | _ # domain \<Rightarrow>
         local \<noteq> [] \<and> list_all (\<lambda>c. \<not> is_ws c) local
         \<and> list_all (\<lambda>c. \<not> is_ws c \<and> c \<noteq> CHR ''@'') domain \<and> CHR ''.'' \<in> set (butlast (tl domain)))"

text \<open>The 8-4-4-4-12 shape.\<close>

definition uuid_ok :: "string \<Rightarrow> bool" where
  "uuid_ok s \<longleftrightarrow> length s = 36 \<and>
     list_all (\<lambda>i. if i \<in> {8, 13, 18, 23} then s ! i = CHR ''-'' else is_hex (s ! i)) [0..<36]"

definition matchesFormat :: "schema_env \<Rightarrow> string \<Rightarrow> string \<Rightarrow> bool" where
  "matchesFormat env format v =
    (if format = ''date-time'' then
       (case Option.bind (read_date v) (\<lambda>(y, m, d, r). Option.bind (read_one ''Tt'' r) (\<lambda>r1.
             Option.bind (read_clock r1) (\<lambda>(h, mi, sec, r2). Some (y, m, d, h, mi, sec, r2)))) of
          None \<Rightarrow> False
        | Some (y, m, d, h, mi, sec, r) \<Rightarrow>
            fraction_and_zone_ok r \<and> isCalendarDate y m d \<and> isClockTime h mi sec)
     else if format = ''date'' then
       (case read_date v of None \<Rightarrow> False | Some (y, m, d, r) \<Rightarrow> r = [] \<and> isCalendarDate y m d)
     else if format = ''time'' then
       (case read_clock v of None \<Rightarrow> False | Some (h, m, d, r) \<Rightarrow> fraction_and_zone_ok r \<and> isClockTime h m d)
     else if format = ''email'' then email_ok v
     else if format = ''uuid'' then uuid_ok v
     else if format = ''uri'' then (case se_url_protocol env v of None \<Rightarrow> False | Some p \<Rightarrow> length p > 1)
     else False)"

end
