(* ===== verification/SchemaValidation.thy ===== *)
theory SchemaValidation
  imports SchemaTypes
begin

text \<open>
  The validator (\<open>packages/skills/src/schema/validate.ts\<close>) and the normalizer (\<open>normalize.ts\<close>) of the
  skill schemas. The accumulator of the source is the list a check returns, in the order of its pushes. A
  violation keeps its path and keyword; its message is left out. A pattern that does not compile, on which
  the source throws, counts as violated: the registration gate refuses it.
\<close>

record schema_violation =
  sv_path :: string
  sv_keyword :: string

fun as_array :: "json \<Rightarrow> json list option" where
  "as_array (JArr xs) = Some xs"
| "as_array _ = None"

fun finite_value :: "json \<Rightarrow> rat option" where
  "finite_value (JNum (Fin q)) = Some q"
| "finite_value _ = None"

text \<open>\<open>declaredTypes\<close>, \<open>matchesType\<close>, \<open>readNumber\<close>.\<close>

definition declaredTypes :: "jobject \<Rightarrow> json list option" where
  "declaredTypes s = (case member s ''type'' of JStr t \<Rightarrow> Some [JStr t] | JArr ts \<Rightarrow> Some ts | _ \<Rightarrow> None)"

definition matchesType :: "json \<Rightarrow> json \<Rightarrow> bool" where
  "matchesType name v =
    (if name = JStr ''object'' then as_record v \<noteq> None
     else if name = JStr ''array'' then as_array v \<noteq> None
     else if name = JStr ''string'' then (case v of JStr _ \<Rightarrow> True | _ \<Rightarrow> False)
     else if name = JStr ''boolean'' then (case v of JBool _ \<Rightarrow> True | _ \<Rightarrow> False)
     else if name = JStr ''number'' then (case v of JNum n \<Rightarrow> is_finite n | _ \<Rightarrow> False)
     else if name = JStr ''integer'' then (case v of JNum n \<Rightarrow> is_safe_integer n | _ \<Rightarrow> False)
     else if name = JStr ''null'' then v = JNull
     else False)"

definition readNumber :: "jobject \<Rightarrow> string \<Rightarrow> rat option" where
  "readNumber s k = finite_value (member s k)"

definition violated :: "string \<Rightarrow> string \<Rightarrow> bool \<Rightarrow> schema_violation list" where
  "violated path k b = (if b then [\<lparr>sv_path = path, sv_keyword = k\<rparr>] else [])"

text \<open>A keyword that is compared with a finite bound; without the bound nothing is violated.\<close>

definition against :: "jobject \<Rightarrow> string \<Rightarrow> string \<Rightarrow> (jnum \<Rightarrow> bool) \<Rightarrow> schema_violation list" where
  "against s path k test = violated path k (case readNumber s k of None \<Rightarrow> False | Some q \<Rightarrow> test (Fin q))"

definition off_multiple :: "rounding \<Rightarrow> jnum \<Rightarrow> jnum \<Rightarrow> bool" where
  "off_multiple fl v d = (case d of
     Fin q \<Rightarrow> 0 < q \<and> (let r = num_div fl v q in
       num_less (fl (1 / 1000000000)) (num_abs (num_minus fl r (num_round r))))
   | _ \<Rightarrow> False)"

definition checkNumeric :: "schema_env \<Rightarrow> jobject \<Rightarrow> jnum \<Rightarrow> string \<Rightarrow> schema_violation list" where
  "checkNumeric env s v path =
     against s path ''minimum'' (\<lambda>q. num_less v q)
   @ against s path ''maximum'' (\<lambda>q. num_less q v)
   @ against s path ''exclusiveMinimum'' (\<lambda>q. num_le v q)
   @ against s path ''exclusiveMaximum'' (\<lambda>q. num_le q v)
   @ against s path ''multipleOf'' (\<lambda>q. off_multiple (se_rounding env) v q)"

definition size_num :: "nat \<Rightarrow> jnum" where
  "size_num n = Fin (of_nat n)"

definition checkString :: "schema_env \<Rightarrow> jobject \<Rightarrow> string \<Rightarrow> string \<Rightarrow> schema_violation list" where
  "checkString env s v path =
     against s path ''minLength'' (\<lambda>q. num_less (size_num (length v)) q)
   @ against s path ''maxLength'' (\<lambda>q. num_less q (size_num (length v)))
   @ violated path ''pattern'' (case member s ''pattern'' of
       JStr p \<Rightarrow> (case se_regexp env p of None \<Rightarrow> True | Some t \<Rightarrow> \<not> t v) | _ \<Rightarrow> False)
   @ violated path ''format'' (case member s ''format'' of JStr f \<Rightarrow> \<not> matchesFormat env f v | _ \<Rightarrow> False)"

text \<open>The tests of \<open>checkArray\<close> and \<open>checkObject\<close> that look at no member.\<close>

definition array_bounds :: "schema_env \<Rightarrow> jobject \<Rightarrow> json list \<Rightarrow> string \<Rightarrow> schema_violation list" where
  "array_bounds env s xs path =
     against s path ''minItems'' (\<lambda>q. num_less (size_num (length xs)) q)
   @ against s path ''maxItems'' (\<lambda>q. num_less q (size_num (length xs)))
   @ violated path ''uniqueItems''
       (member s ''uniqueItems'' = JBool True \<and> \<not> distinct (map (stableJson env) xs))"

definition string_items :: "json list \<Rightarrow> string list" where
  "string_items xs = List.map_filter (\<lambda>x. case x of JStr s \<Rightarrow> Some s | _ \<Rightarrow> None) xs"

definition own_keys :: "jobject \<Rightarrow> string list" where
  "own_keys ms = map fst ms"

definition has_own :: "jobject \<Rightarrow> string \<Rightarrow> bool" where
  "has_own ms k = List.member (own_keys ms) k"

definition object_bounds :: "jobject \<Rightarrow> jobject \<Rightarrow> string \<Rightarrow> schema_violation list" where
  "object_bounds s ms path =
     against s path ''minProperties'' (\<lambda>q. num_less (size_num (length ms)) q)
   @ against s path ''maxProperties'' (\<lambda>q. num_less q (size_num (length ms)))
   @ (case member s ''required'' of
        JArr req \<Rightarrow> concat (map (\<lambda>k. violated path ''required'' (\<not> has_own ms k)) (sort (string_items req)))
      | _ \<Rightarrow> [])"

definition value_checks :: "schema_env \<Rightarrow> jobject \<Rightarrow> json \<Rightarrow> string \<Rightarrow> schema_violation list" where
  "value_checks env s v path =
     violated path ''const''
       (has_own s ''const'' \<and> stableJson env v \<noteq> stableJson env (member s ''const''))
   @ violated path ''enum'' (case member s ''enum'' of
       JArr allowed \<Rightarrow> \<not> list_ex (\<lambda>m. stableJson env m = stableJson env v) allowed | _ \<Rightarrow> False)"

definition declared_members :: "jobject \<Rightarrow> string list" where
  "declared_members s = (case member s ''properties'' of JObj ps \<Rightarrow> own_keys ps | _ \<Rightarrow> [])"

definition prefix_schemas :: "jobject \<Rightarrow> json list" where
  "prefix_schemas s = (case as_array (member s ''prefixItems'') of None \<Rightarrow> [] | Some bs \<Rightarrow> bs)"

definition item_path :: "schema_env \<Rightarrow> string \<Rightarrow> nat \<Rightarrow> string" where
  "item_path env path i = path @ ''['' @ se_numtext env (of_nat i) @ '']''"

definition member_path :: "string \<Rightarrow> string \<Rightarrow> string" where
  "member_path path k = path @ ''.'' @ k"

text \<open>The schemas a node holds are smaller than the node.\<close>

lemma member_in: "member ms k \<noteq> JUndef \<Longrightarrow> (k, member ms k) \<in> set ms"
  by (auto simp: member_def split: option.splits dest: map_of_SomeD)

lemma size_in_object: "(k, v) \<in> set ms \<Longrightarrow> size v < size (JObj ms)"
  by (induction ms) auto

lemma size_in_array: "v \<in> set xs \<Longrightarrow> size v < size (JArr xs)"
  by (induction xs) auto

lemma size_member: "member ms k \<noteq> JUndef \<Longrightarrow> size (member ms k) < size (JObj ms)"
  using size_in_object [OF member_in] .

lemma size_sub_object: "member ms k = JObj s \<Longrightarrow> size (JObj s) < size (JObj ms)"
  using size_member [of ms k] by simp

lemma size_sub_item:
  assumes "member ms k = JArr xs" and "JObj s \<in> set xs"
  shows "size (JObj s) < size (JObj ms)"
proof -
  have "size (JArr xs) < size (JObj ms)" using size_member [of ms k] assms(1) by simp
  then show ?thesis using size_in_array [OF assms(2)] by (rule less_trans [rotated])
qed

lemma size_sub_map: "member ms k = JObj ps \<Longrightarrow> member ps k' = JObj s \<Longrightarrow> size (JObj s) < size (JObj ms)"
  using size_sub_object [of ps k' s] size_sub_object [of ms k ps] by (rule less_trans)

lemma size_prefix: "i < length (prefix_schemas s) \<Longrightarrow> prefix_schemas s ! i = JObj s' \<Longrightarrow> size (JObj s') < size (JObj s)"
proof (cases "member s ''prefixItems''")
  case (JArr bs)
  then show "i < length (prefix_schemas s) \<Longrightarrow> prefix_schemas s ! i = JObj s' \<Longrightarrow> size (JObj s') < size (JObj s)"
    using size_sub_item [OF JArr, of s'] by (auto simp: prefix_schemas_def simp del: json.size dest: nth_mem)
qed (simp_all add: prefix_schemas_def)

subsection \<open>The validator\<close>

function collect :: "schema_env \<Rightarrow> jobject \<Rightarrow> json \<Rightarrow> string \<Rightarrow> schema_violation list" where
  "collect env s v path =
    (if (case declaredTypes s of None \<Rightarrow> False | Some ts \<Rightarrow> \<not> list_ex (\<lambda>n. matchesType n v) ts)
     then violated path ''type'' True
     else value_checks env s v path
       @ (case v of
            JNum n \<Rightarrow> checkNumeric env s n path
          | JStr t \<Rightarrow> checkString env s t path
          | JArr xs \<Rightarrow> array_bounds env s xs path
              @ (case member s ''prefixItems'' of
                   JArr bs \<Rightarrow> concat (map (\<lambda>(b, i). case b of
                       JObj s' \<Rightarrow> if i < length xs then collect env s' (xs ! i) (item_path env path i) else []
                     | _ \<Rightarrow> []) (zip bs [0..<length bs]))
                 | _ \<Rightarrow> [])
              @ (case member s ''items'' of
                   JObj s' \<Rightarrow> concat (map (\<lambda>i. collect env s' (xs ! i) (item_path env path i))
                     [length (prefix_schemas s)..<length xs])
                 | _ \<Rightarrow> [])
          | JObj ms \<Rightarrow> object_bounds s ms path
              @ (case member s ''properties'' of
                   JObj ps \<Rightarrow> concat (map (\<lambda>k. if has_own ms k then
                       (case member ps k of
                          JObj s' \<Rightarrow> collect env s' (member ms k) (member_path path k) | _ \<Rightarrow> [])
                       else []) (sort (own_keys ps)))
                 | _ \<Rightarrow> [])
              @ (case member s ''additionalProperties'' of
                   JBool b \<Rightarrow> if b then [] else concat (map (\<lambda>k. violated path ''additionalProperties''
                       (\<not> List.member (declared_members s) k)) (sort (own_keys ms)))
                 | JObj s' \<Rightarrow> concat (map (\<lambda>k. if List.member (declared_members s) k then []
                       else collect env s' (member ms k) (member_path path k)) (sort (own_keys ms)))
                 | _ \<Rightarrow> [])
          | _ \<Rightarrow> [])
       @ concat (map (\<lambda>k. case member s k of
            JArr bs \<Rightarrow>
              let passing = length (filter (\<lambda>b. case b of JObj s' \<Rightarrow> collect env s' v path = [] | _ \<Rightarrow> True) bs) in
              violated path k (if k = ''allOf'' then passing \<noteq> length bs
                else if k = ''anyOf'' then passing = 0 else passing \<noteq> 1)
          | _ \<Rightarrow> []) [''allOf'', ''anyOf'', ''oneOf''])
       @ (case member s ''not'' of
            JObj s' \<Rightarrow> violated path ''not'' (collect env s' v path = []) | _ \<Rightarrow> []))"
  by auto
termination
  by (relation "measure (\<lambda>(env, s, v, path). size (JObj s))")
    (auto simp del: json.size dest: size_sub_object size_sub_map size_sub_item set_zip_leftD)

declare collect.simps [simp del]

definition validateAgainstSchema :: "schema_env \<Rightarrow> jobject \<Rightarrow> json \<Rightarrow> schema_violation list" where
  "validateAgainstSchema env s v = collect env s v ''$''"

subsection \<open>The normalizer\<close>

text \<open>
  A write to the member \<open>__proto__\<close> of a fresh object sets its prototype: no own member appears. Read from
  the declared members, \<open>__proto__\<close> is \<open>Object.prototype\<close> unless it is declared.
\<close>

definition own_entry :: "string \<Rightarrow> json \<Rightarrow> jobject" where
  "own_entry k v = (if k = ''__proto__'' then [] else [(k, v)])"

definition declared_schema :: "jobject \<Rightarrow> string \<Rightarrow> json" where
  "declared_schema s k = (case member s ''properties'' of
     JObj ps \<Rightarrow> if has_own ps k then member ps k else if k = ''__proto__'' then JObj [] else JUndef
   | _ \<Rightarrow> JUndef)"

fun cloneJson :: "json \<Rightarrow> json"
  and clone_items :: "json list \<Rightarrow> json list"
  and clone_members :: "jobject \<Rightarrow> jobject" where
  "cloneJson (JArr xs) = JArr (clone_items xs)"
| "cloneJson (JObj ms) = JObj (clone_members ms)"
| "cloneJson v = v"
| "clone_items [] = []"
| "clone_items (x # xs) = cloneJson x # clone_items xs"
| "clone_members [] = []"
| "clone_members ((k, x) # ms) = own_entry k (cloneJson x) @ clone_members ms"

text \<open>The members of an object that are supplied from the defaults of its schema.\<close>

definition supplied_defaults :: "jobject \<Rightarrow> jobject \<Rightarrow> jobject" where
  "supplied_defaults s ms = concat (map (\<lambda>k. if has_own ms k then [] else
     (case declared_schema s k of
        JObj s' \<Rightarrow> if has_own s' ''default'' then own_entry k (cloneJson (member s' ''default'')) else []
      | _ \<Rightarrow> [])) (declared_members s))"

lemma size_declared: "declared_schema s k = JObj s' \<Longrightarrow> size (JObj s') < size (JObj s)"
proof (cases "member s ''properties''")
  case (JObj ps)
  assume d: "declared_schema s k = JObj s'"
  show ?thesis
  proof (cases "has_own ps k")
    case True
    then show ?thesis using d JObj size_sub_map [of s "''properties''" ps k s'] by (simp add: declared_schema_def)
  next
    case False
    then have "s' = []" using d JObj by (simp add: declared_schema_def split: if_splits)
    moreover have "size (JObj []) \<le> size (JObj ps)" by simp
    ultimately show ?thesis using size_sub_object [OF JObj] by simp
  qed
qed (simp_all add: declared_schema_def)

function normalizeNode :: "jobject \<Rightarrow> json \<Rightarrow> json" where
  "normalizeNode s v =
    (case v of
       JObj ms \<Rightarrow> JObj (concat (map (\<lambda>(k, x).
           case declared_schema s k of
             JObj s' \<Rightarrow> own_entry k (normalizeNode s' x)
           | _ \<Rightarrow> (case member s ''additionalProperties'' of
               JBool b \<Rightarrow> if b then own_entry k (cloneJson x) else []
             | JObj s' \<Rightarrow> own_entry k (normalizeNode s' x)
             | _ \<Rightarrow> own_entry k (cloneJson x))) ms)
         @ supplied_defaults s ms)
     | JArr xs \<Rightarrow>
         if as_array (member s ''prefixItems'') = None \<and> as_record (member s ''items'') = None then v
         else JArr (map (\<lambda>(x, i).
           if i < length (prefix_schemas s) then (case prefix_schemas s ! i of JObj s' \<Rightarrow> normalizeNode s' x | _ \<Rightarrow> x)
           else (case member s ''items'' of JObj s' \<Rightarrow> normalizeNode s' x | _ \<Rightarrow> x)) (zip xs [0..<length xs]))
     | _ \<Rightarrow> v)"
  by auto
termination
proof (relation "measure (\<lambda>(s, v). size (JObj s))", goal_cases)
  case 1
  then show ?case by simp
qed (auto simp del: json.size dest: size_sub_object size_declared size_prefix)

declare normalizeNode.simps [simp del]

definition normalizeAgainstSchema :: "schema_env \<Rightarrow> jobject \<Rightarrow> json \<Rightarrow> json result" where
  "normalizeAgainstSchema env s v =
    (let normalized = normalizeNode s v in
     if validateAgainstSchema env s normalized = [] then Inr normalized
     else Inl (SkillError ''SCHEMA_VALIDATION_ERROR''))"

end
