(* ===== verification/SchemaProperties.thy ===== *)
theory SchemaProperties
  imports SchemaValidation
begin

text \<open>
  What the schema layer guarantees: normalization is idempotent as long as the declared defaults are
  normal themselves, a closed schema lets no undeclared member through, and where the layer falls short of
  its comments.
\<close>

lemma has_own_iff: "has_own ms k \<longleftrightarrow> k \<in> fst ` set ms"
  by (simp add: has_own_def own_keys_def member_def)

lemma cloneJson_idem [simp]:
  "cloneJson (cloneJson v) = cloneJson v"
  "clone_items (clone_items xs) = clone_items xs"
  "clone_members (clone_members ms) = clone_members ms"
  by (induction v and xs and ms rule: cloneJson_clone_items_clone_members.induct) (auto simp: own_entry_def)

text \<open>What normalization makes of one member.\<close>

definition normal_entry :: "jobject \<Rightarrow> string \<Rightarrow> json \<Rightarrow> jobject" where
  "normal_entry s k x = (case declared_schema s k of
     JObj s' \<Rightarrow> own_entry k (normalizeNode s' x)
   | _ \<Rightarrow> (case member s ''additionalProperties'' of
       JBool b \<Rightarrow> if b then own_entry k (cloneJson x) else []
     | JObj s' \<Rightarrow> own_entry k (normalizeNode s' x)
     | _ \<Rightarrow> own_entry k (cloneJson x)))"

definition normal_item :: "jobject \<Rightarrow> json \<Rightarrow> nat \<Rightarrow> json" where
  "normal_item s x i =
    (if i < length (prefix_schemas s) then (case prefix_schemas s ! i of JObj s' \<Rightarrow> normalizeNode s' x | _ \<Rightarrow> x)
     else (case member s ''items'' of JObj s' \<Rightarrow> normalizeNode s' x | _ \<Rightarrow> x))"

lemma normalizeNode_object:
  "normalizeNode s (JObj ms) = JObj (concat (map (\<lambda>(k, x). normal_entry s k x) ms) @ supplied_defaults s ms)"
  unfolding normal_entry_def by (subst normalizeNode.simps) simp

lemma normalizeNode_array:
  "normalizeNode s (JArr xs) =
    (if as_array (member s ''prefixItems'') = None \<and> as_record (member s ''items'') = None then JArr xs
     else JArr (map (\<lambda>(x, i). normal_item s x i) (zip xs [0..<length xs])))"
  unfolding normal_item_def by (subst normalizeNode.simps) simp

lemma normalizeNode_other [simp]:
  "normalizeNode s JUndef = JUndef" "normalizeNode s JNull = JNull" "normalizeNode s (JBool b) = JBool b"
  "normalizeNode s (JNum n) = JNum n" "normalizeNode s (JStr t) = JStr t" "normalizeNode s JOther = JOther"
  by (subst normalizeNode.simps, simp)+

lemma normal_entry_key: "(k', y) \<in> set (normal_entry s k x) \<Longrightarrow> k' = k \<and> k \<noteq> ''__proto__''"
  by (auto simp: normal_entry_def own_entry_def split: json.splits if_splits)

lemma declared_is_member: "declared_schema s k = JObj s' \<Longrightarrow> k \<noteq> ''__proto__'' \<Longrightarrow> k \<in> set (declared_members s)"
  by (auto simp: declared_schema_def declared_members_def has_own_def member_def split: json.splits if_splits)

definition default_entry :: "jobject \<Rightarrow> string \<Rightarrow> jobject" where
  "default_entry s k = (case declared_schema s k of
     JObj s' \<Rightarrow> if has_own s' ''default'' then own_entry k (cloneJson (member s' ''default'')) else []
   | _ \<Rightarrow> [])"

lemma default_entry_iff: "(k', y) \<in> set (default_entry s k) \<longleftrightarrow> k' = k \<and> k \<noteq> ''__proto__''
    \<and> (\<exists>s'. declared_schema s k = JObj s' \<and> has_own s' ''default'' \<and> y = cloneJson (member s' ''default''))"
  by (cases "declared_schema s k") (auto simp: default_entry_def own_entry_def)

lemma supplied_default_iff: "(k, y) \<in> set (supplied_defaults s ms) \<longleftrightarrow>
    k \<in> set (declared_members s) \<and> \<not> has_own ms k \<and> k \<noteq> ''__proto__''
    \<and> (\<exists>s'. declared_schema s k = JObj s' \<and> has_own s' ''default'' \<and> y = cloneJson (member s' ''default''))"
proof -
  have "(k, y) \<in> set (supplied_defaults s ms) \<longleftrightarrow>
      (\<exists>k' \<in> set (declared_members s). \<not> has_own ms k' \<and> (k, y) \<in> set (default_entry s k'))"
    unfolding supplied_defaults_def default_entry_def [symmetric] by auto
  then show ?thesis by (auto simp: default_entry_iff)
qed

text \<open>
  The defaults of a schema are settled when normalizing one by its own schema changes nothing, at every depth
  a payload is normalized at.
\<close>

function settled :: "jobject \<Rightarrow> bool" where
  "settled s =
    (list_all (\<lambda>k. case declared_schema s k of
        JObj s' \<Rightarrow> settled s' \<and> (has_own s' ''default'' \<longrightarrow>
          normalizeNode s' (cloneJson (member s' ''default'')) = cloneJson (member s' ''default''))
      | _ \<Rightarrow> True) (declared_members s)
   \<and> (case member s ''additionalProperties'' of JObj s' \<Rightarrow> settled s' | _ \<Rightarrow> True)
   \<and> (case member s ''items'' of JObj s' \<Rightarrow> settled s' | _ \<Rightarrow> True)
   \<and> list_all (\<lambda>b. case b of JObj s' \<Rightarrow> settled s' | _ \<Rightarrow> True) (prefix_schemas s))"
  by auto
termination
  by (relation "measure (\<lambda>s. size (JObj s))")
    (auto simp del: json.size simp: in_set_conv_nth dest: size_sub_object size_declared size_prefix)

declare settled.simps [simp del]

lemma settled_parts:
  assumes "settled s"
  shows "declared_schema s k = JObj s' \<Longrightarrow> k \<noteq> ''__proto__'' \<Longrightarrow> settled s'"
    and "declared_schema s k = JObj s' \<Longrightarrow> k \<noteq> ''__proto__'' \<Longrightarrow> has_own s' ''default'' \<Longrightarrow>
      normalizeNode s' (cloneJson (member s' ''default'')) = cloneJson (member s' ''default'')"
    and "member s ''additionalProperties'' = JObj s' \<Longrightarrow> settled s'"
    and "member s ''items'' = JObj s' \<Longrightarrow> settled s'"
    and "i < length (prefix_schemas s) \<Longrightarrow> prefix_schemas s ! i = JObj s' \<Longrightarrow> settled s'"
proof -
  note all = assms [unfolded settled.simps [of s] list_all_iff]
  show "declared_schema s k = JObj s' \<Longrightarrow> k \<noteq> ''__proto__'' \<Longrightarrow> settled s'"
    using all declared_is_member [of s k s'] by force
  show "declared_schema s k = JObj s' \<Longrightarrow> k \<noteq> ''__proto__'' \<Longrightarrow> has_own s' ''default'' \<Longrightarrow>
      normalizeNode s' (cloneJson (member s' ''default'')) = cloneJson (member s' ''default'')"
    using all declared_is_member [of s k s'] by force
  show "member s ''additionalProperties'' = JObj s' \<Longrightarrow> settled s'" "member s ''items'' = JObj s' \<Longrightarrow> settled s'"
    using all by simp_all
  show "i < length (prefix_schemas s) \<Longrightarrow> prefix_schemas s ! i = JObj s' \<Longrightarrow> settled s'"
    using all nth_mem [of i "prefix_schemas s"] by force
qed

text \<open>A list whose entries normalize to themselves is its own normal form.\<close>

lemma fixed_entries:
  "(\<And>k y. (k, y) \<in> set L \<Longrightarrow> normal_entry s k y = [(k, y)]) \<Longrightarrow> concat (map (\<lambda>(k, x). normal_entry s k x) L) = L"
  by (induction L) auto

lemma no_further_defaults:
  assumes "L = concat (map (\<lambda>(k, x). normal_entry s k x) ms) @ supplied_defaults s ms"
  shows "supplied_defaults s L = []"
proof -
  have "(k, y) \<notin> set (supplied_defaults s L)" for k y
  proof
    assume "(k, y) \<in> set (supplied_defaults s L)"
    then obtain s' where k: "k \<in> set (declared_members s)" "\<not> has_own L k" "k \<noteq> ''__proto__''"
      "declared_schema s k = JObj s'" "has_own s' ''default''" by (auto simp: supplied_default_iff)
    show False
    proof (cases "has_own ms k")
      case True
      then obtain x where "(k, x) \<in> set ms" by (auto simp: has_own_iff)
      moreover have "(k, normalizeNode s' x) \<in> set (normal_entry s k x)"
        using k by (simp add: normal_entry_def own_entry_def)
      ultimately have "(k, normalizeNode s' x) \<in> set L" unfolding assms by auto
      then show False using k(2) by (force simp: has_own_iff)
    next
      case False
      then have "(k, cloneJson (member s' ''default'')) \<in> set L" unfolding assms using k by (simp add: supplied_default_iff)
      then show False using k(2) by (force simp: has_own_iff)
    qed
  qed
  then show ?thesis by (metis list.set_intros(1) neq_Nil_conv surj_pair)
qed

lemma normal_entry_fixed:
  assumes s: "settled s"
    and IH: "\<And>s' x. size (JObj s') < size (JObj s) \<Longrightarrow> settled s' \<Longrightarrow> normalizeNode s' (normalizeNode s' x) = normalizeNode s' x"
    and y: "(k, y) \<in> set (normal_entry s k x)"
  shows "normal_entry s k y = [(k, y)]"
proof -
  have k: "k \<noteq> ''__proto__''" using normal_entry_key [OF y] by simp
  note parts = settled_parts [OF s]
  show ?thesis
  proof (cases "\<exists>s'. declared_schema s k = JObj s'")
    case True
    then obtain s' where d: "declared_schema s k = JObj s'" by blast
    then have "normalizeNode s' (normalizeNode s' x) = normalizeNode s' x"
      using IH size_declared [OF d] parts(1) [OF d k] by blast
    then show ?thesis using y d k by (simp add: normal_entry_def own_entry_def)
  next
    case False
    show ?thesis
    proof (cases "\<exists>s'. member s ''additionalProperties'' = JObj s'")
      case True
      then obtain s' where d: "member s ''additionalProperties'' = JObj s'" by blast
      then have "normalizeNode s' (normalizeNode s' x) = normalizeNode s' x"
        using IH size_sub_object [OF d] parts(3) [OF d] by blast
      then show ?thesis using y d k False by (auto simp: normal_entry_def own_entry_def split: json.splits)
    next
      case no: False
      then show ?thesis using y k False by (auto simp: normal_entry_def own_entry_def split: json.splits if_splits)
    qed
  qed
qed

lemma normal_item_fixed:
  assumes s: "settled s"
    and IH: "\<And>s' x. size (JObj s') < size (JObj s) \<Longrightarrow> settled s' \<Longrightarrow> normalizeNode s' (normalizeNode s' x) = normalizeNode s' x"
  shows "normal_item s (normal_item s x i) i = normal_item s x i"
proof (cases "i < length (prefix_schemas s)")
  case True
  then show ?thesis using IH [OF size_prefix settled_parts(5) [OF s], of i]
    by (auto simp: normal_item_def split: json.split)
next
  case False
  then show ?thesis using IH [OF size_sub_object settled_parts(4) [OF s]]
    by (auto simp: normal_item_def split: json.split)
qed

lemma normalizeNode_idem: "settled s \<Longrightarrow> normalizeNode s (normalizeNode s v) = normalizeNode s v"
proof (induction "size (JObj s)" arbitrary: s v rule: less_induct)
  case less
  show ?case
  proof (cases v)
    case (JArr xs)
    show ?thesis
    proof (cases "as_array (member s ''prefixItems'') = None \<and> as_record (member s ''items'') = None")
      case True
      then show ?thesis by (simp add: JArr normalizeNode_array)
    next
      case False
      have "map (\<lambda>(x, i). normal_item s x i) (zip (map (\<lambda>(x, i). normal_item s x i) (zip xs [0..<length xs])) [0..<length xs])
          = map (\<lambda>(x, i). normal_item s x i) (zip xs [0..<length xs])"
        using normal_item_fixed [OF less.prems] less.hyps by (intro nth_equalityI) simp_all
      then show ?thesis using False by (simp add: JArr normalizeNode_array)
    qed
  next
    case (JObj ms)
    let ?L = "concat (map (\<lambda>(k, x). normal_entry s k x) ms) @ supplied_defaults s ms"
    have "normal_entry s k y = [(k, y)]" if e: "(k, y) \<in> set ?L" for k y
    proof (cases "(k, y) \<in> set (supplied_defaults s ms)")
      case True
      then show ?thesis using settled_parts(2) [OF less.prems]
        by (auto simp: supplied_default_iff normal_entry_def own_entry_def)
    next
      case False
      then obtain k' x where "(k, y) \<in> set (normal_entry s k' x)" using e by auto
      then show ?thesis using normal_entry_fixed [OF less.prems] less.hyps normal_entry_key by metis
    qed
    then have "concat (map (\<lambda>(k, x). normal_entry s k x) ?L) = ?L" by (rule fixed_entries)
    then show ?thesis using no_further_defaults [OF refl, of s ms] by (simp add: JObj normalizeNode_object)
  qed simp_all
qed

lemma closed_members:
  assumes "member s ''additionalProperties'' = JBool False" and "normalizeNode s (JObj ms) = JObj ms'"
  shows "set (own_keys ms') \<subseteq> set (declared_members s)"
proof
  fix k assume "k \<in> set (own_keys ms')"
  then obtain y where "(k, y) \<in> set ms'" by (auto simp: own_keys_def)
  then consider k' x where "(k, y) \<in> set (normal_entry s k' x)" | "(k, y) \<in> set (supplied_defaults s ms)"
    using assms(2) by (auto simp: normalizeNode_object)
  then show "k \<in> set (declared_members s)"
  proof cases
    case 1
    then show ?thesis using assms(1) normal_entry_key [OF 1] declared_is_member [of s k]
      by (auto simp: normal_entry_def split: json.splits)
  next
    case 2
    then show ?thesis by (simp add: supplied_default_iff)
  qed
qed

text \<open>
  C24: a payload the skill layer accepted is a fixed point of it. When the declared defaults are settled,
  submitting an accepted payload again is accepted and changes nothing, so the digest an approval was bound
  to stays matchable; and under a closed schema the accepted object has declared members only.
\<close>

theorem accepted_payload_is_stable:
  assumes "settled s" and "normalizeAgainstSchema env s v = Inr w"
  shows "normalizeAgainstSchema env s w = Inr w
    \<and> (member s ''additionalProperties'' = JBool False \<longrightarrow>
        (\<forall>ms. v = JObj ms \<longrightarrow> (\<exists>ms'. w = JObj ms' \<and> set (own_keys ms') \<subseteq> set (declared_members s))))"
proof
  have w: "w = normalizeNode s v" "validateAgainstSchema env s w = []"
    using assms(2) by (auto simp: normalizeAgainstSchema_def Let_def split: if_splits)
  then show "normalizeAgainstSchema env s w = Inr w"
    by (simp add: normalizeAgainstSchema_def normalizeNode_idem [OF assms(1)])
  show "member s ''additionalProperties'' = JBool False \<longrightarrow>
        (\<forall>ms. v = JObj ms \<longrightarrow> (\<exists>ms'. w = JObj ms' \<and> set (own_keys ms') \<subseteq> set (declared_members s)))"
    using closed_members [of s] w(1) by (auto simp: normalizeNode_object)
qed

definition example_env :: schema_env where
  "example_env = \<lparr>se_numtext = (\<lambda>_. ''0''), se_regexp = (\<lambda>_. None), se_url_protocol = (\<lambda>_. None), se_rounding = Fin\<rparr>"

definition example_schema :: jobject where
  "example_schema = [(''type'', JStr ''object''), (''additionalProperties'', JBool False), (''required'', JArr [JStr ''sku'']),
     (''properties'', JObj [(''sku'', JObj [(''type'', JStr ''string''), (''minLength'', JNum (Fin 1))]),
       (''express'', JObj [(''type'', JStr ''boolean''), (''default'', JBool False)])])]"

lemma example_accepted: "normalizeAgainstSchema example_env example_schema
      (JObj [(''note'', JNull), (''sku'', JStr ''A1'')]) = Inr (JObj [(''sku'', JStr ''A1''), (''express'', JBool False)])"
  by code_simp

theorem accepted_payload_is_stable_witness:
  "normalizeAgainstSchema example_env example_schema (JObj [(''sku'', JStr ''A1''), (''express'', JBool False)])
     = Inr (JObj [(''sku'', JStr ''A1''), (''express'', JBool False)])"
proof -
  have "settled example_schema" by code_simp
  from accepted_payload_is_stable [OF this example_accepted] show ?thesis by simp
qed

text \<open>
  C2: a default is supplied as it is declared, not normalized by its own schema. There is a schema the
  registration gate accepts and a payload such that the accepted payload, submitted again, is accepted as a
  different one: a default nested in a defaulted object appears on the second pass only.
\<close>

definition nested_default_schema :: jobject where
  "nested_default_schema = [(''properties'', JObj [(''a'', JObj [(''default'', JObj []),
     (''properties'', JObj [(''b'', JObj [(''default'', JBool True)])])])])]"

theorem nested_default_is_not_supplied:
  "assertSupportedSchema example_env (JObj nested_default_schema) = Inr ()
   \<and> normalizeAgainstSchema example_env nested_default_schema (JObj []) = Inr (JObj [(''a'', JObj [])])
   \<and> normalizeAgainstSchema example_env nested_default_schema (JObj [(''a'', JObj [])])
       = Inr (JObj [(''a'', JObj [(''b'', JBool True)])])"
  by code_simp

text \<open>
  C3: the stable form names a value that is not JSON by an array that is: \<open>undefined\<close>, a function and a
  number that is not finite compare equal to a one-element array of a string.
\<close>

theorem stable_form_is_not_injective:
  "stableJson env JUndef = stableJson env (JArr [JStr ''<undefined>''])
   \<and> stableJson env JOther = stableJson env (JArr [JStr ''<function>''])
   \<and> stableJson env (JNum NaN) = stableJson env (JArr [JStr ''<non-finite number>''])"
  by (simp add: join_with_def)

end
