(* ===== verification/SkillRegistry.thy ===== *)
theory SkillRegistry
  imports SchemaProperties SkillAttempt Authority Session
begin

text \<open>
  The skill contract and its registry: the row (\<open>packages/skills/src/contracts/types.ts\<close>,
  \<open>platform/row.ts\<close>), the registration gate (\<open>registration.ts\<close>) and the registry (\<open>registry.ts\<close>). A row
  has the static types of its interface, so the gate's tests that a field is an object, an array or of its
  enumeration are left out; the requirement is unchecked data, as the gate treats it. Of a test case and
  of the audit specification the row keeps what the gate reads.
\<close>

datatype effect_class = READ | INTERNAL | EFFECT | APPROVAL

record platform_spec =
  sk_skill_id :: string
  sk_purpose :: string
  sk_effect_class :: effect_class
  sk_guarded_dependency :: string
  sk_input_schema :: jobject
  sk_output_schema :: jobject
  sk_allowed_agents :: "string list"
  sk_required_authority :: json
  sk_tool_binding :: string
  sk_retry_policy :: retry_policy
  sk_timeout_ms :: jnum
  sk_evidence_card :: string
  sk_test_cases :: "string list"

text \<open>
  \<open>execute\<close> dispatches to the tool port: what it answers reaches the model as the events of its attempts.
\<close>

record skill_row = platform_spec +
  sk_enabled :: bool
  sk_validateInput :: "json \<Rightarrow> json result"

definition definePlatformRow :: "schema_env \<Rightarrow> bool \<Rightarrow> platform_spec \<Rightarrow> skill_row" where
  "definePlatformRow env enabled spec = platform_spec.extend spec
     \<lparr>sk_enabled = enabled, sk_validateInput = normalizeAgainstSchema env (sk_input_schema spec)\<rparr>"

definition BASELINE_TEST_CASE_IDS :: "string list" where
  "BASELINE_TEST_CASE_IDS = [''TC-SKILL-01'', ''TC-SKILL-02'', ''TC-SKILL-03'', ''TC-SKILL-04'', ''TC-SKILL-05'']"

definition CANONICAL_AGENT_IDS :: "string list" where
  "CANONICAL_AGENT_IDS = [''MKT-01'', ''MKT-02'', ''MKT-03'', ''MKT-04'', ''MKT-05'', ''MKT-06'',
     ''SAL-01'', ''SAL-02'', ''SAL-03'', ''SAL-04'', ''SAL-05'', ''CS-01'', ''CS-02'']"

definition EFFECT_BEARING :: "effect_class list" where
  "EFFECT_BEARING = [EFFECT, APPROVAL]"

text \<open>\<open>/^skill\.[a-z][a-z0-9_]*\.[a-z][a-z0-9_]*$/\<close>.\<close>

definition is_lower :: "char \<Rightarrow> bool" where
  "is_lower c \<longleftrightarrow> c \<in> set ''abcdefghijklmnopqrstuvwxyz''"

definition id_segment :: "string \<Rightarrow> bool" where
  "id_segment s = (case s of [] \<Rightarrow> False
     | c # r \<Rightarrow> is_lower c \<and> list_all (\<lambda>x. is_lower x \<or> is_digit x \<or> x = CHR ''_'') r)"

definition canonical_skill_id :: "string \<Rightarrow> bool" where
  "canonical_skill_id s \<longleftrightarrow> take 6 s = ''skill.'' \<and>
     (let rest = drop 6 s in
      id_segment (takeWhile (\<lambda>c. c \<noteq> CHR ''.'') rest)
      \<and> (case dropWhile (\<lambda>c. c \<noteq> CHR ''.'') rest of [] \<Rightarrow> False | _ # action \<Rightarrow> id_segment action))"

definition usable_retry_policy :: "retry_policy \<Rightarrow> bool" where
  "usable_retry_policy p \<longleftrightarrow> retry_budget p \<noteq> None \<and> nonneg_finite (rp_initial_interval_ms p)
     \<and> (case rp_backoff_multiplier p of Fin q \<Rightarrow> 1 \<le> q | _ \<Rightarrow> False)"

definition invalid_contract :: "'a result" where
  "invalid_contract = Inl (SkillError ''INVALID_SKILL_CONTRACT'')"

fun positive_integer :: "jnum \<Rightarrow> bool" where
  "positive_integer (Fin q) = (is_safe_integer (Fin q) \<and> 0 < q)"
| "positive_integer _ = False"

definition assertRegistrable :: "schema_env \<Rightarrow> 'a skill_row_scheme \<Rightarrow> string list \<Rightarrow> unit result" where
  "assertRegistrable env sk registered_ids =
    (if \<not> blank (sk_skill_id sk) \<and> List.member registered_ids (sk_skill_id sk)
     then Inl (SkillError ''SKILL_ALREADY_REGISTERED'')
     else if \<not> canonical_skill_id (sk_skill_id sk) then invalid_contract
     else if blank (sk_purpose sk) then invalid_contract
     else if \<not> positive_integer (sk_timeout_ms sk) then invalid_contract
     else if blank (sk_guarded_dependency sk) then invalid_contract
     else if blank (sk_tool_binding sk) then invalid_contract
     else if sk_allowed_agents sk = [] then Inl (SkillError ''MISSING_ALLOWED_AGENTS'')
     else if \<not> list_all (List.member CANONICAL_AGENT_IDS) (sk_allowed_agents sk) then invalid_contract
     else if sk_required_authority sk = JStr ''AUTH-5'' then Inl (SkillError ''PROHIBITED_AUTHORITY_REQUIREMENT'')
     else if \<not> isAuthorityLevel (sk_required_authority sk) then Inl (SkillError ''INVALID_AUTHORITY_REQUIREMENT'')
     else if sk_effect_class sk = APPROVAL \<and> sk_required_authority sk \<noteq> JStr ''AUTH-4'' then invalid_contract
     else if List.member EFFECT_BEARING (sk_effect_class sk) \<and> rp_retry_on_timeout (sk_retry_policy sk)
     then invalid_contract
     else if \<not> usable_retry_policy (sk_retry_policy sk) then invalid_contract
     else if \<not> list_all (List.member (sk_test_cases sk)) BASELINE_TEST_CASE_IDS
     then Inl (SkillError ''MISSING_BASELINE_TEST_CASES'')
     else if blank (sk_evidence_card sk) then invalid_contract
     else andThen (assertSupportedSchema env (JObj (sk_input_schema sk)))
       (\<lambda>_. assertSupportedSchema env (JObj (sk_output_schema sk))))"

subsection \<open>The registry\<close>

text \<open>The rows in registration order, keyed by their id.\<close>

type_synonym skill_registry = "(string \<times> skill_row) list"

definition register :: "schema_env \<Rightarrow> skill_row \<Rightarrow> skill_registry \<Rightarrow> unit result \<times> skill_registry" where
  "register env sk rows =
    (case assertRegistrable env sk (map fst rows) of
       Inl err \<Rightarrow> (Inl err, rows)
     | Inr _ \<Rightarrow> (Inr (), AList.update (sk_skill_id sk) sk rows))"

definition resolve_skill :: "skill_registry \<Rightarrow> string \<Rightarrow> skill_row result" where
  "resolve_skill rows k = (case map_of rows k of None \<Rightarrow> Inl (SkillError ''SKILL_NOT_FOUND'') | Some sk \<Rightarrow> Inr sk)"

definition has_skill :: "skill_registry \<Rightarrow> string \<Rightarrow> bool" where
  "has_skill rows k \<longleftrightarrow> map_of rows k \<noteq> None"

definition list_skills :: "skill_registry \<Rightarrow> skill_row list" where
  "list_skills rows = map snd rows"

subsection \<open>What a registered row satisfies\<close>

definition sound_row :: "schema_env \<Rightarrow> skill_row \<Rightarrow> bool" where
  "sound_row env sk \<longleftrightarrow>
     (sk_effect_class sk \<in> {EFFECT, APPROVAL} \<longrightarrow> \<not> rp_retry_on_timeout (sk_retry_policy sk))
   \<and> (sk_effect_class sk = APPROVAL \<longrightarrow> sk_required_authority sk = JStr ''AUTH-4'')
   \<and> (\<exists>l. level_of (sk_required_authority sk) = Some l \<and> l < AUTH5)
   \<and> retry_budget (sk_retry_policy sk) \<noteq> None
   \<and> sk_allowed_agents sk \<noteq> [] \<and> set (sk_allowed_agents sk) \<subseteq> set CANONICAL_AGENT_IDS
   \<and> set BASELINE_TEST_CASE_IDS \<subseteq> set (sk_test_cases sk)
   \<and> assertNode env (JObj (sk_input_schema sk)) \<and> assertNode env (JObj (sk_output_schema sk))"

definition sound_registry :: "schema_env \<Rightarrow> skill_registry \<Rightarrow> bool" where
  "sound_registry env rows \<longleftrightarrow> distinct (map fst rows)
     \<and> list_all (\<lambda>(k, sk). sk_skill_id sk = k \<and> canonical_skill_id k \<and> sound_row env sk) rows"

lemma level_of_known: "isAuthorityLevel v \<Longrightarrow> v \<noteq> JStr ''AUTH-5'' \<Longrightarrow> \<exists>l. level_of v = Some l \<and> l < AUTH5"
proof -
  assume v: "isAuthorityLevel v" "v \<noteq> JStr ''AUTH-5''"
  then obtain l where l: "v = JStr (level_label l)" by (cases v) (auto simp: isAuthorityLevel_def list_ex_iff)
  then have "l \<noteq> AUTH5" using v(2) by auto
  then have "l < AUTH5" by (cases l) (simp_all add: level_order)
  then show ?thesis using l by simp
qed

lemma registrable_sound:
  assumes "assertRegistrable env sk ids = Inr ()"
  shows "sound_row env sk" and "canonical_skill_id (sk_skill_id sk)" and "sk_skill_id sk \<notin> set ids"
proof -
  have all: "canonical_skill_id (sk_skill_id sk)" "\<not> (\<not> blank (sk_skill_id sk) \<and> sk_skill_id sk \<in> set ids)"
    "sk_allowed_agents sk \<noteq> []" "list_all (List.member CANONICAL_AGENT_IDS) (sk_allowed_agents sk)"
    "sk_required_authority sk \<noteq> JStr ''AUTH-5''" "isAuthorityLevel (sk_required_authority sk)"
    "\<not> (sk_effect_class sk = APPROVAL \<and> sk_required_authority sk \<noteq> JStr ''AUTH-4'')"
    "\<not> (List.member EFFECT_BEARING (sk_effect_class sk) \<and> rp_retry_on_timeout (sk_retry_policy sk))"
    "usable_retry_policy (sk_retry_policy sk)" "list_all (List.member (sk_test_cases sk)) BASELINE_TEST_CASE_IDS"
    "assertNode env (JObj (sk_input_schema sk))" "assertNode env (JObj (sk_output_schema sk))"
    using assms unfolding assertRegistrable_def invalid_contract_def assertSupportedSchema_def
    by (auto split: if_splits simp: member_def)
  then show "canonical_skill_id (sk_skill_id sk)" by simp
  have "take 6 (sk_skill_id sk) = ''skill.''" using all(1) by (simp add: canonical_skill_id_def)
  then obtain r where "sk_skill_id sk = ''skill.'' @ r" by (metis append_take_drop_id)
  then have "\<not> blank (sk_skill_id sk)" by (simp add: blank_def trim_def is_ws_def)
  then show "sk_skill_id sk \<notin> set ids" using all(2) by simp
  show "sound_row env sk"
    using all level_of_known [OF all(6) all(5)]
    by (auto simp: sound_row_def EFFECT_BEARING_def usable_retry_policy_def list_all_iff member_def)
qed

lemma update_fresh: "k \<notin> set (map fst rows) \<Longrightarrow> AList.update k v rows = rows @ [(k, v)]"
  by (induction rows) auto

lemma register_sound:
  assumes "sound_registry env rows"
  shows "sound_registry env (snd (register env sk rows))"
proof (cases "assertRegistrable env sk (map fst rows)")
  case (Inl e)
  then show ?thesis using assms by (simp add: register_def)
next
  case (Inr u)
  then have r: "assertRegistrable env sk (map fst rows) = Inr ()" by simp
  note s = registrable_sound [OF r]
  show ?thesis using assms s by (auto simp: register_def r update_fresh sound_registry_def)
qed

text \<open>Registrations as a session; \<open>env\<close> is fixed, each operation offers one row.\<close>

interpretation registries: invariant_system "register env" "sound_registry env" for env
  by unfold_locales (rule register_sound)

lemma sound_registry_resolves:
  assumes "sound_registry env rows" and "resolve_skill rows k = Inr sk"
  shows "sk_skill_id sk = k \<and> canonical_skill_id k \<and> sound_row env sk"
  using assms by (auto simp: sound_registry_def resolve_skill_def list_all_iff split: option.splits dest: map_of_SomeD)

text \<open>
  whatever rows are offered for registration, a row the registry resolves is filed under its own
  canonical id and meets the registry invariants: an effect-bearing row never consents to retrying a timeout,
  an approval row requires AUTH-4 and no row AUTH-5, the retry budget is finite, the row names canonical
  agents only and carries the baseline cases, and both its schemas use enforced constructs only.
\<close>

theorem registered_rows_are_sound:
  assumes "run_ops (register env) offers [] = (replies, rows)" and "resolve_skill rows k = Inr sk"
  shows "sk_skill_id sk = k \<and> canonical_skill_id k \<and> sound_row env sk \<and> distinct (map fst rows)"
proof -
  have "sound_registry env []" by (simp add: sound_registry_def)
  from registries.inv_run [OF this, of offers] have s: "sound_registry env rows" using assms(1) by simp
  show ?thesis using sound_registry_resolves [OF s assms(2)] s by (simp add: sound_registry_def)
qed

definition example_spec :: platform_spec where
  "example_spec = \<lparr>sk_skill_id = ''skill.sales.create_order'', sk_purpose = ''orders'', sk_effect_class = EFFECT,
     sk_guarded_dependency = ''erp'', sk_input_schema = example_schema, sk_output_schema = [],
     sk_allowed_agents = [''SAL-01''], sk_required_authority = JStr ''AUTH-2'', sk_tool_binding = ''API-001'',
     sk_retry_policy = example_policy, sk_timeout_ms = Fin 1000, sk_evidence_card = ''card'',
     sk_test_cases = BASELINE_TEST_CASE_IDS\<rparr>"

definition example_row :: skill_row where
  "example_row = definePlatformRow example_env True example_spec"

lemma example_row_simps [simp]:
  "sk_skill_id example_row = ''skill.sales.create_order''" "sk_purpose example_row = ''orders''"
  "sk_effect_class example_row = EFFECT" "sk_guarded_dependency example_row = ''erp''"
  "sk_input_schema example_row = example_schema" "sk_output_schema example_row = []"
  "sk_allowed_agents example_row = [''SAL-01'']" "sk_required_authority example_row = JStr ''AUTH-2''"
  "sk_tool_binding example_row = ''API-001''" "sk_retry_policy example_row = example_policy"
  "sk_timeout_ms example_row = Fin 1000" "sk_evidence_card example_row = ''card''"
  "sk_test_cases example_row = BASELINE_TEST_CASE_IDS" "sk_enabled example_row = True"
  "sk_validateInput example_row = normalizeAgainstSchema example_env example_schema"
  by (simp_all add: example_row_def definePlatformRow_def platform_spec.defs example_spec_def)

lemma example_row_registers: "assertRegistrable example_env example_row [] = Inr ()"
proof -
  have t: "trim ''orders'' = ''orders''" "trim ''erp'' = ''erp''" "trim ''API-001'' = ''API-001''" "trim ''card'' = ''card''"
    by (simp_all add: trim_fixed is_ws_def)
  have i: "canonical_skill_id ''skill.sales.create_order''"
    by (simp add: canonical_skill_id_def id_segment_def is_lower_def is_digit_def)
  have p: "usable_retry_policy example_policy"
    by (simp add: usable_retry_policy_def retry_budget_def example_policy_def max_safe_def)
  have q: "\<not> rp_retry_on_timeout example_policy" by (simp add: example_policy_def)
  have s: "assertNode example_env (JObj example_schema)" "assertNode example_env (JObj [])"
    by code_simp+
  have a: "isAuthorityLevel (JStr ''AUTH-2'')" by code_simp
  show ?thesis
    by (simp add: assertRegistrable_def invalid_contract_def assertSupportedSchema_def blank_def t i p q s a max_safe_def
        CANONICAL_AGENT_IDS_def BASELINE_TEST_CASE_IDS_def EFFECT_BEARING_def)
qed

theorem registered_rows_are_sound_witness:
  "\<exists>replies rows. run_ops (register example_env) [example_row, example_row] [] = (replies, rows)
    \<and> resolve_skill rows ''skill.sales.create_order'' = Inr example_row \<and> sound_row example_env example_row"
proof -
  have d: "assertRegistrable example_env example_row [''skill.sales.create_order'']
      = Inl (SkillError ''SKILL_ALREADY_REGISTERED'')"
    by (simp add: assertRegistrable_def blank_def trim_def is_ws_def)
  obtain replies rows where r: "run_ops (register example_env) [example_row, example_row] [] = (replies, rows)"
    and e: "resolve_skill rows ''skill.sales.create_order'' = Inr example_row"
    by (simp add: register_def example_row_registers d resolve_skill_def)
  from registered_rows_are_sound [OF r e] r e show ?thesis by blast
qed

end
