(* ===== verification/CircuitBreaker.thy ===== *)
theory CircuitBreaker
  imports Session
begin

text \<open>
  The circuit breaker of \<open>packages/skills/src/runtime/circuit-breaker.ts\<close>. Every reading of the injected
  clock is an argument of the operation that reads it; the failure count and the clock are integers.
\<close>

datatype circuit_state = CLOSED | OPEN | HALF_OPEN

record breaker =
  cb_state :: circuit_state
  cb_failureCount :: int
  cb_halfOpenProbeInFlight :: bool
  cb_lastStateChangedAt :: int
  cb_failureThreshold :: int
  cb_resetTimeoutMs :: int

definition DEFAULT_FAILURE_THRESHOLD :: int where
  "DEFAULT_FAILURE_THRESHOLD = 5"

definition DEFAULT_RESET_TIMEOUT_MS :: int where
  "DEFAULT_RESET_TIMEOUT_MS = 30000"

definition CircuitBreaker :: "int \<Rightarrow> int \<Rightarrow> int \<Rightarrow> breaker" where
  "CircuitBreaker threshold reset now = \<lparr>cb_state = CLOSED, cb_failureCount = 0, cb_halfOpenProbeInFlight = False,
     cb_lastStateChangedAt = now, cb_failureThreshold = threshold, cb_resetTimeoutMs = reset\<rparr>"

definition canExecute :: "int \<Rightarrow> breaker \<Rightarrow> bool \<times> breaker" where
  "canExecute time b =
    (if cb_state b = OPEN then
       if time - cb_lastStateChangedAt b \<ge> cb_resetTimeoutMs b
       then (True, b\<lparr>cb_state := HALF_OPEN, cb_lastStateChangedAt := time, cb_halfOpenProbeInFlight := True\<rparr>)
       else (False, b)
     else if cb_state b = HALF_OPEN then
       if cb_halfOpenProbeInFlight b then (False, b) else (True, b\<lparr>cb_halfOpenProbeInFlight := True\<rparr>)
     else (True, b))"

definition recordSuccess :: "breaker \<Rightarrow> breaker" where
  "recordSuccess b = b\<lparr>cb_failureCount := 0, cb_state := CLOSED, cb_halfOpenProbeInFlight := False\<rparr>"

definition breaker_recordFailure :: "int \<Rightarrow> breaker \<Rightarrow> breaker" where
  "breaker_recordFailure time b =
    (let b1 = b\<lparr>cb_failureCount := cb_failureCount b + 1, cb_halfOpenProbeInFlight := False\<rparr> in
     if cb_failureCount b1 \<ge> cb_failureThreshold b \<or> cb_state b = HALF_OPEN
     then b1\<lparr>cb_state := OPEN, cb_lastStateChangedAt := time\<rparr> else b1)"

datatype breaker_op = CanExecute int | RecordSuccess | RecordFailure int

fun breaker_exec :: "breaker_op \<Rightarrow> breaker \<Rightarrow> bool \<times> breaker" where
  "breaker_exec (CanExecute time) b = canExecute time b"
| "breaker_exec RecordSuccess b = (True, recordSuccess b)"
| "breaker_exec (RecordFailure time) b = (True, breaker_recordFailure time b)"

lemmas breaker_ops = canExecute_def recordSuccess_def breaker_recordFailure_def Let_def

subsection \<open>The state a history leads to\<close>

text \<open>
  The failures recorded since the last success. In every reachable state the breaker is closed exactly
  while they stay below the threshold, and a probe is in flight exactly while it is half open: the branch of
  \<open>canExecute\<close> that admits a second probe is never taken.
\<close>

fun failures_since_success :: "breaker_op list \<Rightarrow> int" where
  "failures_since_success [] = 0"
| "failures_since_success (CanExecute _ # xs) = failures_since_success xs"
| "failures_since_success (RecordFailure _ # xs) = failures_since_success xs + 1"
| "failures_since_success (RecordSuccess # xs) = 0"

definition breaker_inv :: "breaker \<Rightarrow> bool" where
  "breaker_inv b \<longleftrightarrow> 0 < cb_failureThreshold b
     \<and> (cb_state b = CLOSED \<longleftrightarrow> cb_failureCount b < cb_failureThreshold b)
     \<and> (cb_halfOpenProbeInFlight b \<longleftrightarrow> cb_state b = HALF_OPEN)"

lemma breaker_inv_step: "breaker_inv b \<Longrightarrow> breaker_inv (snd (breaker_exec x b))"
  by (cases x) (auto simp: breaker_inv_def breaker_ops)

interpretation breaker_states: invariant_system breaker_exec breaker_inv
  by unfold_locales (rule breaker_inv_step)

lemma breaker_inv_fresh: "0 < threshold \<Longrightarrow> breaker_inv (CircuitBreaker threshold reset now)"
  by (simp add: breaker_inv_def CircuitBreaker_def)

lemma breaker_exec_constants [simp]:
  "cb_failureThreshold (snd (breaker_exec x b)) = cb_failureThreshold b"
  "cb_resetTimeoutMs (snd (breaker_exec x b)) = cb_resetTimeoutMs b"
  by (cases x; simp add: breaker_ops)+

lemma breaker_constants:
  "cb_failureThreshold (snd (run_ops breaker_exec xs b)) = cb_failureThreshold b
   \<and> cb_resetTimeoutMs (snd (run_ops breaker_exec xs b)) = cb_resetTimeoutMs b"
  by (induction xs arbitrary: b) simp_all

lemma failure_count_step: "cb_failureCount (snd (breaker_exec x b)) =
    (case x of CanExecute _ \<Rightarrow> cb_failureCount b | RecordFailure _ \<Rightarrow> cb_failureCount b + 1 | RecordSuccess \<Rightarrow> 0)"
  by (cases x) (simp_all add: breaker_ops)

lemma failure_count_history:
  "cb_failureCount b = 0 \<Longrightarrow>
   cb_failureCount (snd (run_ops breaker_exec xs b)) = failures_since_success (rev xs)"
proof (induction xs rule: rev_induct)
  case (snoc x xs)
  have "snd (run_ops breaker_exec (xs @ [x]) b) = snd (breaker_exec x (snd (run_ops breaker_exec xs b)))"
    by (simp add: run_ops_append)
  then show ?case using snoc failure_count_step [of x "snd (run_ops breaker_exec xs b)"] by (cases x) simp_all
qed simp

text \<open>
  C23: whatever calls are admitted and whatever results are recorded, a breaker is closed exactly while fewer
  failures than its threshold were recorded since the last success; then every call is admitted. Otherwise a
  call is admitted exactly when the breaker is open and its reset window has elapsed, and that call is the
  only probe until a result is recorded.
\<close>

theorem breaker_follows_its_history:
  assumes "0 < threshold" and "b = snd (run_ops breaker_exec xs (CircuitBreaker threshold reset t0))"
  shows "(cb_state b = CLOSED \<longleftrightarrow> failures_since_success (rev xs) < threshold)
    \<and> (fst (canExecute time b) \<longleftrightarrow>
        cb_state b = CLOSED \<or> (cb_state b = OPEN \<and> time - cb_lastStateChangedAt b \<ge> reset))
    \<and> (cb_state b \<noteq> CLOSED \<and> fst (canExecute time b) \<longrightarrow> cb_state (snd (canExecute time b)) = HALF_OPEN)"
proof -
  have inv: "breaker_inv b"
    using breaker_states.inv_run [OF breaker_inv_fresh [OF assms(1)]] assms(2) by simp
  have c: "cb_failureCount b = failures_since_success (rev xs)" "cb_failureThreshold b = threshold" "cb_resetTimeoutMs b = reset"
    using failure_count_history [of "CircuitBreaker threshold reset t0" xs]
      breaker_constants [of xs "CircuitBreaker threshold reset t0"] assms(2)
    by (simp_all add: CircuitBreaker_def)
  show ?thesis using inv c by (cases "cb_state b") (auto simp: breaker_inv_def canExecute_def)
qed

theorem breaker_follows_its_history_witness:
  "cb_state (snd (run_ops breaker_exec [RecordFailure 1, RecordFailure 2, CanExecute 3] (CircuitBreaker 2 100 0))) = OPEN
   \<and> fst (canExecute 102 (snd (run_ops breaker_exec [RecordFailure 1, RecordFailure 2, CanExecute 3] (CircuitBreaker 2 100 0))))"
proof -
  let ?b = "snd (run_ops breaker_exec [RecordFailure 1, RecordFailure 2, CanExecute 3] (CircuitBreaker 2 100 0))"
  have "cb_state ?b = OPEN" "cb_lastStateChangedAt ?b = 2" by (simp_all add: breaker_ops CircuitBreaker_def)
  moreover from breaker_follows_its_history [of 2 ?b "[RecordFailure 1, RecordFailure 2, CanExecute 3]" 100 0 102]
  have "fst (canExecute 102 ?b) \<longleftrightarrow> cb_state ?b = CLOSED \<or> (cb_state ?b = OPEN \<and> 102 - cb_lastStateChangedAt ?b \<ge> 100)"
    by simp
  ultimately show ?thesis by simp
qed

text \<open>A half-open breaker refuses every call, at any time, until a result is recorded.\<close>

lemma half_open_refuses:
  "breaker_inv b \<Longrightarrow> cb_state b = HALF_OPEN \<Longrightarrow> canExecute time b = (False, b)"
  by (simp add: breaker_inv_def canExecute_def)

end
