(* ===== verification/SkillEngine.thy ===== *)
theory SkillEngine
  imports SkillRegistry CircuitBreaker EffectKey
begin

text \<open>
  The dispatch pipeline of the skill runtime: \<open>packages/skills/src/runtime/engine.ts\<close> with its gates
  \<open>authority.ts\<close>, \<open>approval.ts\<close> and \<open>effect.ts\<close>, over the breakers it keeps per tenant and skill. The
  pipeline runs synchronously up to the first attempt and again from the end of the execution, so a
  dispatch is two operations, \<open>Admit\<close> and \<open>Finish\<close>, and dispatches interleave. The injected primitives are a
  \<open>skill_seams\<close>; the clock readings are arguments. A breaker made for a stream is stamped with the reading
  its first admission uses.
\<close>

record skill_seams =
  ss_digestPayload :: "json \<Rightarrow> string result"
  ss_deriveEffectKey :: "effect_key_input \<Rightarrow> string result"
  ss_evaluateAuthority :: "json \<Rightarrow> json \<Rightarrow> authority_decision"

definition ORCHESTRATOR_BROKER :: string where
  "ORCHESTRATOR_BROKER = ''REVENUE_ORCHESTRATOR''"

record dispatch_request =
  dr_broker :: string
  dr_skill_id :: string
  dr_run_id :: string
  dr_tenant_id :: string
  dr_correlation_id :: string
  dr_caller_agent :: string
  dr_granted_authority :: json
  dr_request_id :: string
  dr_step_index :: jnum
  dr_action_revision :: jnum
  dr_effect_key :: "string option"
  dr_approval_id :: "string option"
  dr_approval_payload_digest :: "string option"
  dr_input :: json

text \<open>What an admitted dispatch carries to its execution: the row and the execution context.\<close>

record dispatch_ticket =
  dt_skill :: skill_row
  dt_input :: json
  dt_verdict :: authority_verdict
  dt_run_id :: string
  dt_tenant_id :: string
  dt_caller_agent :: string
  dt_correlation_id :: string
  dt_granted_authority :: json
  dt_effect_key :: string
  dt_approval_id :: "string option"
  dt_approval_payload_digest :: "string option"
  dt_startedAt :: int

record dispatch_result =
  dx_skill_id :: string
  dx_verdict :: authority_verdict
  dx_effect_class :: effect_class
  dx_effect_key :: string
  dx_approval_id :: "string option"
  dx_output :: json
  dx_attempts :: int
  dx_latency_ms :: int

record skill_engine =
  sn_registry :: skill_registry
  sn_breakers :: "string \<rightharpoonup> breaker"

subsection \<open>The gates\<close>

definition requireResolvedText :: "string \<Rightarrow> unit result" where
  "requireResolvedText s = (if blank s then Inl (SkillError ''MISSING_DISPATCH_CONTEXT'') else Inr ())"

fun DENIAL_CODES :: "authority_deny_code \<Rightarrow> string" where
  "DENIAL_CODES CLEARANCE_REQUIRED = ''CLEARANCE_REQUIRED''"
| "DENIAL_CODES INVALID_CLEARANCE = ''INVALID_CLEARANCE''"
| "DENIAL_CODES INVALID_AUTHORITY_REQUIREMENT = ''INVALID_AUTHORITY_REQUIREMENT''"
| "DENIAL_CODES PROHIBITED_ACTION = ''PROHIBITED_ACTION''"
| "DENIAL_CODES INSUFFICIENT_AUTHORITY = ''INSUFFICIENT_AUTHORITY''"

definition enforceAuthorityAdmission :: "skill_seams \<Rightarrow> skill_row \<Rightarrow> string \<Rightarrow> json \<Rightarrow> authority_verdict result" where
  "enforceAuthorityAdmission seams sk caller granted =
    (if \<not> List.member (sk_allowed_agents sk) caller then Inl (SkillError ''UNAUTHORIZED_AGENT'')
     else let d = ss_evaluateAuthority seams granted (sk_required_authority sk) in
       if ad_verdict d = DENIED
       then Inl (SkillError (case ad_errorCode d of None \<Rightarrow> ''INVALID_CLEARANCE'' | Some c \<Rightarrow> DENIAL_CODES c))
       else Inr (ad_verdict d))"

definition assertApprovalCoversPayload :: "skill_seams \<Rightarrow> json \<Rightarrow> dispatch_request \<Rightarrow> string result" where
  "assertApprovalCoversPayload seams normalized q =
    (case dr_approval_id q of
       None \<Rightarrow> Inl (SkillError ''APPROVAL_REQUIRED'')
     | Some approval \<Rightarrow>
         if approval = [] then Inl (SkillError ''APPROVAL_REQUIRED'')
         else andThen (ss_digestPayload seams normalized) (\<lambda>digest.
           if dr_approval_payload_digest q \<noteq> Some digest then Inl (SkillError ''APPROVAL_PAYLOAD_MISMATCH'')
           else Inr approval))"

definition requireIdentity :: "string \<Rightarrow> unit result" where
  "requireIdentity s = (if s = [] then Inl (SkillError ''MISSING_DISPATCH_CONTEXT'') else Inr ())"

definition requireCoordinate :: "jnum \<Rightarrow> unit result" where
  "requireCoordinate n = (case n of
     Fin q \<Rightarrow> if is_safe_integer (Fin q) \<and> 0 \<le> q then Inr () else Inl (SkillError ''MISSING_DISPATCH_CONTEXT'')
   | _ \<Rightarrow> Inl (SkillError ''MISSING_DISPATCH_CONTEXT''))"

definition dispatch_identity :: "dispatch_request \<Rightarrow> effect_key_input" where
  "dispatch_identity q = \<lparr>ek_tenant_id = dr_tenant_id q, ek_skill_id = dr_skill_id q,
     ek_step_index = dr_step_index q, ek_action_revision = dr_action_revision q, ek_request_id = dr_request_id q\<rparr>"

definition resolveDispatchEffectKey :: "skill_seams \<Rightarrow> dispatch_request \<Rightarrow> string result" where
  "resolveDispatchEffectKey seams q =
    andThen (requireIdentity (dr_tenant_id q)) (\<lambda>_.
    andThen (requireIdentity (dr_skill_id q)) (\<lambda>_.
    andThen (requireCoordinate (dr_step_index q)) (\<lambda>_.
    andThen (requireCoordinate (dr_action_revision q)) (\<lambda>_.
    andThen (requireIdentity (dr_request_id q)) (\<lambda>_.
    andThen (ss_deriveEffectKey seams (dispatch_identity q)) (\<lambda>derived.
      case dr_effect_key q of
        None \<Rightarrow> Inr derived
      | Some k \<Rightarrow> if k \<noteq> derived then Inl (SkillError ''EFFECT_KEY_NOT_DETERMINISTIC'') else Inr derived))))))"

text \<open>The two tests of a payload's own members: a supplied effect key, another tenant.\<close>

definition check_own :: "json \<Rightarrow> (jobject \<Rightarrow> bool) \<Rightarrow> string \<Rightarrow> unit result" where
  "check_own v bad code = (case as_record v of
     Some ms \<Rightarrow> if bad ms then Inl (SkillError code) else Inr () | None \<Rightarrow> Inr ())"

definition foreign_tenant :: "string \<Rightarrow> jobject \<Rightarrow> bool" where
  "foreign_tenant tenant ms \<longleftrightarrow> has_own ms ''tenant_id'' \<and> member ms ''tenant_id'' \<noteq> JStr tenant"

subsection \<open>The pipeline\<close>

definition stream_key :: "string \<Rightarrow> string \<Rightarrow> string" where
  "stream_key tenant skill = tenant @ CHR 0x00 # skill"

definition breaker_of :: "int \<Rightarrow> string \<Rightarrow> skill_engine \<Rightarrow> breaker" where
  "breaker_of now k eng = (case sn_breakers eng k of
     Some b \<Rightarrow> b | None \<Rightarrow> CircuitBreaker DEFAULT_FAILURE_THRESHOLD DEFAULT_RESET_TIMEOUT_MS now)"

definition put_breaker :: "string \<Rightarrow> breaker \<Rightarrow> skill_engine \<Rightarrow> skill_engine" where
  "put_breaker k b eng = eng\<lparr>sn_breakers := (sn_breakers eng)(k \<mapsto> b)\<rparr>"

text \<open>Steps 1 to 9: everything that refuses without touching a breaker.\<close>

definition dispatch_checks :: "skill_seams \<Rightarrow> int \<Rightarrow> dispatch_request \<Rightarrow> skill_registry \<Rightarrow> dispatch_ticket result" where
  "dispatch_checks seams startedAt q rows =
    andThen (resolve_skill rows (dr_skill_id q)) (\<lambda>sk.
    andThen (if dr_broker q \<noteq> ORCHESTRATOR_BROKER then Inl (SkillError ''UNBROKERED_INVOCATION'') else Inr ()) (\<lambda>_.
    andThen (requireResolvedText (dr_run_id q)) (\<lambda>_.
    andThen (requireResolvedText (dr_tenant_id q)) (\<lambda>_.
    andThen (requireResolvedText (dr_correlation_id q)) (\<lambda>_.
    andThen (requireResolvedText (dr_caller_agent q)) (\<lambda>_.
    andThen (if \<not> sk_enabled sk then Inl (SkillError ''SKILL_DISABLED'') else Inr ()) (\<lambda>_.
    andThen (enforceAuthorityAdmission seams sk (dr_caller_agent q) (dr_granted_authority q)) (\<lambda>verdict.
    andThen (check_own (dr_input q) (\<lambda>ms. has_own ms ''effect_key'') ''EFFECT_KEY_IN_INPUT'') (\<lambda>_.
    andThen (check_own (dr_input q) (foreign_tenant (dr_tenant_id q)) ''CROSS_TENANT_ASSERTION'') (\<lambda>_.
    andThen (sk_validateInput sk (dr_input q)) (\<lambda>normalized.
    andThen (check_own normalized (foreign_tenant (dr_tenant_id q)) ''CROSS_TENANT_ASSERTION'') (\<lambda>_.
    andThen (if verdict = AWAITING_HUMAN_APPROVAL
             then andThen (assertApprovalCoversPayload seams normalized q) (\<lambda>a. Inr (Some a)) else Inr None) (\<lambda>approval.
    andThen (resolveDispatchEffectKey seams q) (\<lambda>effect_key.
      Inr \<lparr>dt_skill = sk, dt_input = normalized, dt_verdict = verdict, dt_run_id = dr_run_id q,
        dt_tenant_id = dr_tenant_id q, dt_caller_agent = dr_caller_agent q,
        dt_correlation_id = dr_correlation_id q, dt_granted_authority = dr_granted_authority q,
        dt_effect_key = effect_key, dt_approval_id = approval,
        dt_approval_payload_digest = (if approval = None then None else dr_approval_payload_digest q),
        dt_startedAt = startedAt\<rparr>))))))))))))))"

definition ticket_key :: "dispatch_ticket \<Rightarrow> string" where
  "ticket_key t = stream_key (dt_tenant_id t) (sk_skill_id (dt_skill t))"

text \<open>Step 10: the breaker of the stream admits the call.\<close>

definition dispatch_admit :: "skill_seams \<Rightarrow> int \<Rightarrow> int \<Rightarrow> dispatch_request \<Rightarrow> skill_engine \<Rightarrow>
    dispatch_ticket result \<times> skill_engine" where
  "dispatch_admit seams startedAt now q eng =
    (case dispatch_checks seams startedAt q (sn_registry eng) of
       Inl err \<Rightarrow> (Inl err, eng)
     | Inr t \<Rightarrow>
         let (admitted, b) = canExecute now (breaker_of now (ticket_key t) eng) in
         (if admitted then Inr t else Inl (SkillError ''CIRCUIT_BREAKER_OPEN''), put_breaker (ticket_key t) b eng))"

text \<open>
  Steps 11 and 12: the end of the execution, the response check, the verdict for the breaker. \<open>now\<close> is what
  the clock shows when a failure is recorded, \<open>finishedAt\<close> at the end.
\<close>

definition dispatch_settle :: "schema_env \<Rightarrow> int \<Rightarrow> int \<Rightarrow> dispatch_ticket \<Rightarrow> bounded_run \<Rightarrow> skill_engine \<Rightarrow>
    dispatch_result result \<times> skill_engine" where
  "dispatch_settle env now finishedAt t r eng =
    (let k = ticket_key t; b = breaker_of now k eng; sk = dt_skill t in
     case br_end r of
       Ended err reported \<Rightarrow> (Inl err, if reported then put_breaker k (breaker_recordFailure now b) eng else eng)
     | Completed out \<Rightarrow>
         if validateAgainstSchema env (sk_output_schema sk) out \<noteq> [] then
           if sk_effect_class sk = EFFECT \<or> sk_effect_class sk = APPROVAL
           then (Inl (SkillError ''EFFECT_UNKNOWN''), put_breaker k (breaker_recordFailure now b) eng)
           else (Inl (SkillError ''OUTPUT_SCHEMA_VALIDATION_ERROR''), eng)
         else (Inr \<lparr>dx_skill_id = sk_skill_id sk, dx_verdict = dt_verdict t, dx_effect_class = sk_effect_class sk,
             dx_effect_key = dt_effect_key t, dx_approval_id = dt_approval_id t, dx_output = out,
             dx_attempts = br_attempts r, dx_latency_ms = finishedAt - dt_startedAt t\<rparr>,
           put_breaker k (recordSuccess b) eng))"

datatype dispatch_op =
    Admit int int dispatch_request
  | Finish int int dispatch_ticket "int \<Rightarrow> attempt_event" "int \<Rightarrow> jnum"

datatype dispatch_answer = Ticket dispatch_ticket | Outcome dispatch_result | Refusal failure | NoReply

definition answer :: "('a \<Rightarrow> dispatch_answer) \<Rightarrow> 'a result \<times> skill_engine \<Rightarrow> dispatch_answer \<times> skill_engine" where
  "answer f r = (case fst r of Inl e \<Rightarrow> Refusal e | Inr x \<Rightarrow> f x, snd r)"

fun dispatch_exec :: "skill_seams \<Rightarrow> schema_env \<Rightarrow> retry_env \<Rightarrow> dispatch_op \<Rightarrow> skill_engine \<Rightarrow>
    dispatch_answer \<times> skill_engine" where
  "dispatch_exec seams env renv (Admit startedAt now q) eng = answer Ticket (dispatch_admit seams startedAt now q eng)"
| "dispatch_exec seams env renv (Finish now finishedAt t ev rnd) eng =
    (case executeBounded renv (sk_retry_policy (dt_skill t)) ev rnd of
       None \<Rightarrow> (NoReply, eng)
     | Some r \<Rightarrow> answer Outcome (dispatch_settle env now finishedAt t r eng))"

end
