(* ===== verification/SkillProperties.thy ===== *)
theory SkillProperties
  imports SkillEngine
begin

text \<open>
  What the skill runtime guarantees, over the primitives the composition roots inject
  (\<open>apps/worker/src/runtime/sales/skills/index.ts\<close>): what an admitted dispatch rests on, that an external
  effect is never resent blindly, isolation of the tenants' streams, and how a probe without a recorded
  result closes its stream.
\<close>

subsection \<open>The authority gate as an interface\<close>

text \<open>What the skill layer relies on of the injected gate.\<close>

locale authority_gate =
  fixes evaluate :: "json \<Rightarrow> json \<Rightarrow> authority_decision"
  assumes auto_covers: "ad_verdict (evaluate g q) = AUTO_APPROVED \<Longrightarrow>
      \<exists>a b. level_of g = Some a \<and> level_of q = Some b \<and> b \<le> a \<and> a \<le> AUTH3"
    and awaiting_routes: "ad_verdict (evaluate g q) = AWAITING_HUMAN_APPROVAL \<Longrightarrow> level_of q = Some AUTH4"
begin

lemma admission:
  assumes "enforceAuthorityAdmission seams sk caller g = Inr v" and "ss_evaluateAuthority seams = evaluate"
  shows "caller \<in> set (sk_allowed_agents sk)
    \<and> ((v = AUTO_APPROVED \<and> (\<exists>a b. level_of g = Some a \<and> level_of (sk_required_authority sk) = Some b \<and> b \<le> a \<and> a \<le> AUTH3))
     \<or> (v = AWAITING_HUMAN_APPROVAL \<and> level_of (sk_required_authority sk) = Some AUTH4))"
proof -
  let ?d = "evaluate g (sk_required_authority sk)"
  have v: "v = ad_verdict ?d" "v \<noteq> DENIED" "caller \<in> set (sk_allowed_agents sk)"
    using assms by (auto simp: enforceAuthorityAdmission_def Let_def split: if_splits)
  show ?thesis
  proof (cases v)
    case AUTO_APPROVED
    then show ?thesis using v auto_covers [of g "sk_required_authority sk"] by simp
  next
    case AWAITING_HUMAN_APPROVAL
    then show ?thesis using v awaiting_routes [of g "sk_required_authority sk"] by simp
  qed (use v in simp)
qed

end

lemma level_of_authority: "isAuthorityLevel v \<Longrightarrow> \<exists>l. v = JStr (level_label l)"
  by (cases v) (auto simp: isAuthorityLevel_def list_ex_iff)

lemma level_of_assignable: "isAssignableAuthority v \<Longrightarrow> \<exists>l. v = JStr (level_label l) \<and> AUTHORITY_RANK l \<noteq> None"
  by (cases v) (auto simp: isAssignableAuthority_def list_ex_iff)

lemma verdict_auto:
  assumes "ad_verdict (evaluateAuthorityVerdict g q) = AUTO_APPROVED"
  shows "\<exists>a b. level_of g = Some a \<and> level_of q = Some b \<and> b \<le> a \<and> a \<le> AUTH3"
proof -
  have "isAssignableAuthority g" "isAuthorityLevel q"
    using assms by (auto simp: evaluateAuthorityVerdict_def Let_def split: if_splits)
  then obtain a b where ab: "g = JStr (level_label a)" "AUTHORITY_RANK a \<noteq> None" "q = JStr (level_label b)"
    using level_of_assignable level_of_authority by blast
  then have l: "level_of g = Some a" "level_of q = Some b" by (simp_all del: level_label.simps)
  then have "b \<noteq> AUTH5" "b \<noteq> AUTH4" "\<not> rank_below (AUTHORITY_RANK a) (AUTHORITY_RANK b)"
    using assms by (auto simp: evaluateAuthorityVerdict_def Let_def split: if_splits)
  then have "b \<le> a \<and> a \<le> AUTH3" using ab(2) by (cases a; cases b) (simp_all add: level_order)
  then show ?thesis using l by simp
qed

lemma verdict_awaiting:
  "ad_verdict (evaluateAuthorityVerdict g q) = AWAITING_HUMAN_APPROVAL \<Longrightarrow> level_of q = Some AUTH4"
  by (auto simp: evaluateAuthorityVerdict_def Let_def split: if_splits)

interpretation core_gate: authority_gate evaluateAuthorityVerdict
  by unfold_locales (fact verdict_auto, fact verdict_awaiting)

subsection \<open>Admission\<close>

text \<open>The primitives of the core engine, as the composition roots inject them.\<close>

definition skill_payload_digest :: "runtime \<Rightarrow> json \<Rightarrow> string result" where
  "skill_payload_digest rt v = andThen (effect_canonicalizeJson rt v) (\<lambda>t. Inr (rt_sha256 rt t))"

definition core_seams :: "runtime \<Rightarrow> skill_seams" where
  "core_seams rt = \<lparr>ss_digestPayload = skill_payload_digest rt, ss_deriveEffectKey = computeEffectKey rt,
     ss_evaluateAuthority = evaluateAuthorityVerdict\<rparr>"

lemma core_seams_simps [simp]:
  "ss_digestPayload (core_seams rt) = skill_payload_digest rt" "ss_deriveEffectKey (core_seams rt) = computeEffectKey rt"
  "ss_evaluateAuthority (core_seams rt) = evaluateAuthorityVerdict"
  by (simp_all add: core_seams_def)

lemma checks_facts:
  assumes "dispatch_checks seams startedAt q rows = Inr t"
  shows "resolve_skill rows (dr_skill_id q) = Inr (dt_skill t)" and "dr_broker q = ORCHESTRATOR_BROKER"
    and "sk_enabled (dt_skill t)" and "dt_tenant_id t = dr_tenant_id q"
    and "enforceAuthorityAdmission seams (dt_skill t) (dr_caller_agent q) (dr_granted_authority q) = Inr (dt_verdict t)"
    and "sk_validateInput (dt_skill t) (dr_input q) = Inr (dt_input t)"
    and "check_own (dt_input t) (foreign_tenant (dr_tenant_id q)) ''CROSS_TENANT_ASSERTION'' = Inr ()"
    and "(if dt_verdict t = AWAITING_HUMAN_APPROVAL
      then andThen (assertApprovalCoversPayload seams (dt_input t) q) (\<lambda>a. Inr (Some a)) else Inr None) = Inr (dt_approval_id t)"
    and "resolveDispatchEffectKey seams q = Inr (dt_effect_key t)"
  using assms unfolding dispatch_checks_def by (auto simp: andThen_Inr_iff split: if_splits)

lemma effect_key_derived:
  "resolveDispatchEffectKey seams q = Inr k \<Longrightarrow> ss_deriveEffectKey seams (dispatch_identity q) = Inr k"
  by (auto simp: resolveDispatchEffectKey_def andThen_Inr_iff split: option.splits if_splits)

lemma approval_covers:
  "assertApprovalCoversPayload seams v q = Inr a \<Longrightarrow> a \<noteq> [] \<and> dr_approval_id q = Some a
     \<and> (\<exists>d. ss_digestPayload seams v = Inr d \<and> dr_approval_payload_digest q = Some d)"
  by (auto simp: assertApprovalCoversPayload_def andThen_Inr_iff split: option.splits if_splits)

lemma admit_checks: "dispatch_admit seams startedAt now q eng = (Inr t, eng') \<Longrightarrow>
    dispatch_checks seams startedAt q (sn_registry eng) = Inr t"
  by (auto simp: dispatch_admit_def Let_def split: sum.splits prod.splits if_splits)

text \<open>
  C20: nothing reaches an adapter unless the orchestrator brokered it for an enabled row of the registry, the
  caller is bound to the row, the payload is the row's own normalization of the input and asserts no other
  tenant, the effect key is the one derived from the inbound identity, and the authority suffices: either the
  grant, at most AUTH-3, covers the requirement, or the row is an AUTH-4 route and the request carries an
  approval of the digest of exactly this payload.
\<close>

theorem admitted_dispatch_is_authorized:
  assumes "dispatch_admit (core_seams rt) startedAt now q eng = (Inr t, eng')"
  shows "resolve_skill (sn_registry eng) (dr_skill_id q) = Inr (dt_skill t) \<and> sk_enabled (dt_skill t)
    \<and> dr_broker q = ORCHESTRATOR_BROKER \<and> dr_caller_agent q \<in> set (sk_allowed_agents (dt_skill t))
    \<and> sk_validateInput (dt_skill t) (dr_input q) = Inr (dt_input t)
    \<and> (\<forall>ms. dt_input t = JObj ms \<and> has_own ms ''tenant_id'' \<longrightarrow> member ms ''tenant_id'' = JStr (dr_tenant_id q))
    \<and> computeEffectKey rt (dispatch_identity q) = Inr (dt_effect_key t)
    \<and> ((dt_approval_id t = None \<and> (\<exists>a b. level_of (dr_granted_authority q) = Some a
           \<and> level_of (sk_required_authority (dt_skill t)) = Some b \<and> b \<le> a \<and> a \<le> AUTH3))
     \<or> (level_of (sk_required_authority (dt_skill t)) = Some AUTH4
         \<and> (\<exists>approval d. approval \<noteq> [] \<and> dt_approval_id t = Some approval \<and> dr_approval_id q = Some approval
              \<and> skill_payload_digest rt (dt_input t) = Inr d \<and> dr_approval_payload_digest q = Some d)))"
proof -
  note c = checks_facts [OF admit_checks [OF assms]]
  have gate: "dr_caller_agent q \<in> set (sk_allowed_agents (dt_skill t))
    \<and> ((dt_verdict t = AUTO_APPROVED \<and> (\<exists>a b. level_of (dr_granted_authority q) = Some a
           \<and> level_of (sk_required_authority (dt_skill t)) = Some b \<and> b \<le> a \<and> a \<le> AUTH3))
     \<or> (dt_verdict t = AWAITING_HUMAN_APPROVAL \<and> level_of (sk_required_authority (dt_skill t)) = Some AUTH4))"
    by (rule core_gate.admission [OF c(5)]) simp
  have key: "computeEffectKey rt (dispatch_identity q) = Inr (dt_effect_key t)"
    using effect_key_derived [OF c(9)] by simp
  have tenant: "\<forall>ms. dt_input t = JObj ms \<and> has_own ms ''tenant_id'' \<longrightarrow> member ms ''tenant_id'' = JStr (dr_tenant_id q)"
    using c(7) by (auto simp: check_own_def foreign_tenant_def split: if_splits)
  have approval: "dt_verdict t = AWAITING_HUMAN_APPROVAL \<Longrightarrow>
      \<exists>approval d. approval \<noteq> [] \<and> dt_approval_id t = Some approval \<and> dr_approval_id q = Some approval
        \<and> skill_payload_digest rt (dt_input t) = Inr d \<and> dr_approval_payload_digest q = Some d"
    "dt_verdict t = AUTO_APPROVED \<Longrightarrow> dt_approval_id t = None"
    using c(8) approval_covers [of "core_seams rt" "dt_input t" q] by (auto simp: andThen_Inr_iff)
  show ?thesis using c(1,2,3,6) gate key tenant approval by blast
qed

subsection \<open>Effects are not resent\<close>

text \<open>
  C21: whatever rows were registered, the execution of an effect-bearing one ends, makes a further attempt only
  after an attempt whose outcome at the provider is known, and reports EFFECT_UNKNOWN when the outcome of
  its last attempt is not known, a response that fails the output schema included.
\<close>

theorem effects_are_never_resent_blindly:
  assumes "run_ops (register env) offers [] = (replies, rows)" and "resolve_skill rows k = Inr (dt_skill t)"
    and "sk_effect_class (dt_skill t) \<in> {EFFECT, APPROVAL}"
  shows "\<exists>r. executeBounded renv (sk_retry_policy (dt_skill t)) ev rnd = Some r
    \<and> (\<forall>i. 1 \<le> i \<and> i < br_attempts r \<longrightarrow> \<not> unconfirmed (ev i))
    \<and> (unconfirmed (ev (br_attempts r))
        \<or> (\<exists>out. br_end r = Completed out \<and> validateAgainstSchema env (sk_output_schema (dt_skill t)) out \<noteq> []) \<longrightarrow>
       fst (dispatch_exec seams env renv (Finish now finishedAt t ev rnd) eng) = Refusal (SkillError ''EFFECT_UNKNOWN''))"
proof -
  let ?p = "sk_retry_policy (dt_skill t)"
  have "sound_registry env []" by (simp add: sound_registry_def)
  from registries.inv_run [OF this, of offers] have "sound_registry env rows" using assms(1) by simp
  from sound_registry_resolves [OF this assms(2)] have s: "sound_row env (dt_skill t)" by simp
  then have nt: "\<not> rp_retry_on_timeout ?p" using assms(3) by (auto simp: sound_row_def)
  obtain m where m: "retry_budget ?p = Some m" using s by (auto simp: sound_row_def)
  obtain r where r: "executeBounded renv ?p ev rnd = Some r" "\<forall>i. 1 \<le> i \<and> i < br_attempts r \<longrightarrow> retried ?p ev i"
    "br_end r = final_end ?p (ev (br_attempts r)) (br_attempts r)"
    using executeBounded_runs [OF m, of renv ev rnd] by blast
  have "fst (dispatch_exec seams env renv (Finish now finishedAt t ev rnd) eng) = Refusal (SkillError ''EFFECT_UNKNOWN'')"
    if "unconfirmed (ev (br_attempts r))
        \<or> (\<exists>out. br_end r = Completed out \<and> validateAgainstSchema env (sk_output_schema (dt_skill t)) out \<noteq> [])"
    using that
  proof
    assume "unconfirmed (ev (br_attempts r))"
    then show ?thesis using unconfirmed_end [OF _ nt] r(1,3) by (simp add: answer_def dispatch_settle_def Let_def)
  next
    assume "\<exists>out. br_end r = Completed out \<and> validateAgainstSchema env (sk_output_schema (dt_skill t)) out \<noteq> []"
    then show ?thesis using r(1) assms(3) by (auto simp: answer_def dispatch_settle_def Let_def)
  qed
  then show ?thesis using r(1,2) retried_is_confirmed [OF _ nt] by blast
qed

subsection \<open>Streams of tenants\<close>

fun dispatch_tenant :: "dispatch_op \<Rightarrow> string" where
  "dispatch_tenant (Admit startedAt now q) = dr_tenant_id q"
| "dispatch_tenant (Finish now finishedAt t ev rnd) = dt_tenant_id t"

fun genuine :: "dispatch_op \<Rightarrow> bool" where
  "genuine (Finish now finishedAt t ev rnd) = canonical_skill_id (sk_skill_id (dt_skill t))"
| "genuine (Admit startedAt now q) = True"

definition streams :: "string \<Rightarrow> skill_engine \<Rightarrow> skill_registry \<times> (string \<rightharpoonup> breaker)" where
  "streams tenant eng = (sn_registry eng,
     \<lambda>k. if CHR 0x00 \<in> set k then None else sn_breakers eng (stream_key tenant k))"

lemma canonical_no_nul: "canonical_skill_id s \<Longrightarrow> CHR 0x00 \<notin> set s"
proof -
  assume c: "canonical_skill_id s"
  have seg: "CHR 0x00 \<notin> set x" if "id_segment x" for x
    using that by (cases x) (auto simp: id_segment_def is_lower_def is_digit_def list_all_iff)
  let ?r = "drop 6 s"
  have "s = ''skill.'' @ ?r" using c append_take_drop_id [of 6 s] by (simp add: canonical_skill_id_def)
  moreover have "CHR 0x00 \<notin> set (takeWhile (\<lambda>c. c \<noteq> CHR ''.'') ?r)"
    using c seg by (simp add: canonical_skill_id_def Let_def)
  moreover have "CHR 0x00 \<notin> set (dropWhile (\<lambda>c. c \<noteq> CHR ''.'') ?r)"
  proof (cases "dropWhile (\<lambda>c. c \<noteq> CHR ''.'') ?r")
    case (Cons c a)
    moreover have "c = CHR ''.''" using hd_dropWhile [of "\<lambda>c. c \<noteq> CHR ''.''" ?r] Cons by simp
    moreover have "id_segment a" using c Cons by (simp add: canonical_skill_id_def Let_def)
    ultimately show ?thesis using seg by simp
  next
    case Nil
    then show ?thesis by (metis list.set(1) empty_iff)
  qed
  moreover have "?r = takeWhile (\<lambda>c. c \<noteq> CHR ''.'') ?r @ dropWhile (\<lambda>c. c \<noteq> CHR ''.'') ?r" by simp
  ultimately have "CHR 0x00 \<notin> set ?r" by (metis Un_iff set_append)
  moreover have "CHR 0x00 \<notin> set ''skill.''" by simp
  ultimately show ?thesis using \<open>s = ''skill.'' @ ?r\<close> by (metis Un_iff set_append)
qed

lemma stream_key_inj:
  "CHR 0x00 \<notin> set a \<Longrightarrow> CHR 0x00 \<notin> set b \<Longrightarrow> stream_key t a = stream_key u b \<longleftrightarrow> t = u \<and> a = b"
proof -
  assume a: "CHR 0x00 \<notin> set a" "CHR 0x00 \<notin> set b"
  have "t = u \<and> a = b" if "stream_key t a = stream_key u b"
  proof -
    have "rev a @ CHR 0x00 # rev t = rev b @ CHR 0x00 # rev u"
      using arg_cong [OF that, of rev] by (simp add: stream_key_def)
    from take_until [OF _ _ this] a show ?thesis by simp
  qed
  then show ?thesis by auto
qed

definition nul_free :: "skill_engine \<Rightarrow> bool" where
  "nul_free eng \<longleftrightarrow> (\<forall>k sk. resolve_skill (sn_registry eng) k = Inr sk \<longrightarrow> CHR 0x00 \<notin> set (sk_skill_id sk))"

lemma put_breaker_registry [simp]: "sn_registry (put_breaker k b eng) = sn_registry eng"
  by (simp add: put_breaker_def)

lemma streams_put_foreign:
  "CHR 0x00 \<notin> set k \<Longrightarrow> u \<noteq> t \<Longrightarrow> streams t (put_breaker (stream_key u k) b eng) = streams t eng"
  by (auto simp: streams_def put_breaker_def stream_key_inj)

lemma streams_put_own: "CHR 0x00 \<notin> set k \<Longrightarrow> streams t eng = streams t eng' \<Longrightarrow>
    streams t (put_breaker (stream_key t k) b eng) = streams t (put_breaker (stream_key t k) b eng')"
proof -
  assume k: "CHR 0x00 \<notin> set k" and s: "streams t eng = streams t eng'"
  have "sn_breakers eng (stream_key t x) = sn_breakers eng' (stream_key t x)" if "CHR 0x00 \<notin> set x" for x
    using fun_cong [OF arg_cong [OF s, of snd], of x] that by (simp add: streams_def)
  then show ?thesis using k s by (auto simp: streams_def put_breaker_def stream_key_inj fun_eq_iff)
qed

lemma breaker_of_streams: "CHR 0x00 \<notin> set k \<Longrightarrow> streams t eng = streams t eng' \<Longrightarrow>
    breaker_of now (stream_key t k) eng = breaker_of now (stream_key t k) eng'"
proof -
  assume k: "CHR 0x00 \<notin> set k" and s: "streams t eng = streams t eng'"
  have "snd (streams t eng) k = snd (streams t eng') k" using s by simp
  then show ?thesis using k by (simp add: streams_def breaker_of_def)
qed

text \<open>
  Every operation works on one stream: it is a function of the registry and that stream's breaker, and
  writes no other breaker.
\<close>

lemma admit_ticket_key:
  assumes "dispatch_checks seams startedAt q (sn_registry eng) = Inr t" and "nul_free eng"
  shows "ticket_key t = stream_key (dr_tenant_id q) (sk_skill_id (dt_skill t))" "CHR 0x00 \<notin> set (sk_skill_id (dt_skill t))"
  using checks_facts(1,4) [OF assms(1)] assms(2) by (auto simp: ticket_key_def nul_free_def)

interpretation skill_streams: tenant_isolated_within "dispatch_exec seams env renv" dispatch_tenant streams nul_free genuine
  for seams env renv
proof unfold_locales
  fix eng eng' x t
  assume inv: "nul_free eng" and legal: "genuine x"
  show "nul_free (snd (dispatch_exec seams env renv x eng))"
    using inv
    by (cases x) (auto simp: nul_free_def answer_def dispatch_admit_def dispatch_settle_def Let_def
        split: sum.split option.split prod.split bounded_end.split)
  show "streams t (snd (dispatch_exec seams env renv x eng)) = streams t eng" if "dispatch_tenant x \<noteq> t"
  proof (cases x)
    case (Admit startedAt now q)
    then show ?thesis using that admit_ticket_key [OF _ inv] streams_put_foreign
      by (auto simp: answer_def dispatch_admit_def Let_def split: sum.split prod.split)
  next
    case (Finish now finishedAt tk ev rnd)
    then have k: "CHR 0x00 \<notin> set (sk_skill_id (dt_skill tk))" using legal canonical_no_nul by simp
    show ?thesis using that k Finish streams_put_foreign
      by (auto simp: answer_def dispatch_settle_def ticket_key_def Let_def split: option.split bounded_end.split)
  qed
  assume inv': "nul_free eng'" and v: "streams (dispatch_tenant x) eng = streams (dispatch_tenant x) eng'"
  have reg: "sn_registry eng' = sn_registry eng" using v by (simp add: streams_def)
  have "fst (dispatch_exec seams env renv x eng) = fst (dispatch_exec seams env renv x eng')
    \<and> streams (dispatch_tenant x) (snd (dispatch_exec seams env renv x eng))
      = streams (dispatch_tenant x) (snd (dispatch_exec seams env renv x eng'))"
  proof (cases x)
    case (Admit startedAt now q)
    show ?thesis
    proof (cases "dispatch_checks seams startedAt q (sn_registry eng)")
      case (Inl e)
      then show ?thesis using Admit v reg by (simp add: answer_def dispatch_admit_def)
    next
      case (Inr tk)
      note k = admit_ticket_key [OF Inr inv]
      have "breaker_of now (ticket_key tk) eng = breaker_of now (ticket_key tk) eng'"
        using breaker_of_streams [OF k(2), of "dr_tenant_id q" eng eng' now] v k(1) Admit by simp
      then show ?thesis using Admit Inr reg v k(1) streams_put_own [OF k(2), of "dr_tenant_id q" eng eng']
        by (auto simp: answer_def dispatch_admit_def Let_def split: prod.split)
    qed
  next
    case (Finish now finishedAt tk ev rnd)
    then have k: "CHR 0x00 \<notin> set (sk_skill_id (dt_skill tk))" using legal canonical_no_nul by simp
    have "breaker_of now (ticket_key tk) eng = breaker_of now (ticket_key tk) eng'"
      using breaker_of_streams [OF k, of "dt_tenant_id tk" eng eng' now] v Finish by (simp add: ticket_key_def)
    then show ?thesis using Finish v streams_put_own [OF k, of "dt_tenant_id tk" eng eng']
      by (auto simp: answer_def dispatch_settle_def ticket_key_def Let_def split: option.split bounded_end.split)
  qed
  then show "fst (dispatch_exec seams env renv x eng) = fst (dispatch_exec seams env renv x eng')"
    "streams (dispatch_tenant x) (snd (dispatch_exec seams env renv x eng))
      = streams (dispatch_tenant x) (snd (dispatch_exec seams env renv x eng'))" by simp_all
qed

text \<open>
  one tenant's failures never suppress another tenant. Over any interleaving of admissions and ends of
  executions, the answers to a tenant's dispatches are the ones it gets when the other tenants make none.
\<close>

theorem tenant_streams_do_not_interfere:
  assumes "run_ops (register env) offers [] = (replies, sn_registry eng)" and "list_all genuine ops"
  shows "filter (\<lambda>p. dispatch_tenant (fst p) = t) (fst (run_ops (dispatch_exec seams env renv) ops eng))
    = fst (run_ops (dispatch_exec seams env renv) (filter (\<lambda>x. dispatch_tenant x = t) ops) eng)"
proof -
  have "sound_registry env []" by (simp add: sound_registry_def)
  from registries.inv_run [OF this, of offers] have r: "sound_registry env (sn_registry eng)" using assms(1) by simp
  have "nul_free eng"
    using sound_registry_resolves [OF r] canonical_no_nul by (auto simp: nul_free_def)
  from skill_streams.noninterference [OF this this assms(2) refl] show ?thesis by blast
qed

subsection \<open>Probes without a result\<close>

definition ends_stream :: "string \<Rightarrow> dispatch_op \<Rightarrow> bool" where
  "ends_stream k x = (case x of Finish _ _ t _ _ \<Rightarrow> ticket_key t = k | _ \<Rightarrow> False)"

lemma half_open_stays:
  assumes b: "sn_breakers eng k = Some b" "breaker_inv b" "cb_state b = HALF_OPEN"
    and x: "\<not> ends_stream k x" and e: "dispatch_exec seams env renv x eng = (a, eng')"
  shows "sn_breakers eng' k = Some b \<and> (\<forall>t. a = Ticket t \<longrightarrow> ticket_key t \<noteq> k)"
proof (cases x)
  case (Admit startedAt now q)
  show ?thesis
  proof (cases "dispatch_checks seams startedAt q (sn_registry eng)")
    case (Inr t)
    show ?thesis
    proof (cases "ticket_key t = k")
      case True
      then have "breaker_of now (ticket_key t) eng = b" using b(1) by (simp add: breaker_of_def)
      then show ?thesis using e Admit Inr True half_open_refuses [OF b(2,3)]
        by (auto simp: answer_def dispatch_admit_def put_breaker_def)
    next
      case False
      then show ?thesis using e Admit Inr b(1)
        by (auto simp: answer_def dispatch_admit_def put_breaker_def Let_def split: prod.splits if_splits)
    qed
  qed (use e Admit b(1) in \<open>auto simp: answer_def dispatch_admit_def\<close>)
next
  case (Finish now finishedAt t ev rnd)
  then show ?thesis using x e b(1)
    by (auto simp: ends_stream_def answer_def dispatch_settle_def put_breaker_def Let_def
        split: option.splits bounded_end.splits if_splits sum.splits)
qed

lemma half_open_run:
  "sn_breakers eng k = Some b \<Longrightarrow> breaker_inv b \<Longrightarrow> cb_state b = HALF_OPEN \<Longrightarrow> list_all (\<lambda>x. \<not> ends_stream k x) ops \<Longrightarrow>
   \<forall>(x, a) \<in> set (fst (run_ops (dispatch_exec seams env renv) ops eng)). \<forall>t. a = Ticket t \<longrightarrow> ticket_key t \<noteq> k"
proof (induction ops arbitrary: eng)
  case (Cons x ops)
  obtain a eng' where e: "dispatch_exec seams env renv x eng = (a, eng')" by fastforce
  have "sn_breakers eng' k = Some b" "\<forall>t. a = Ticket t \<longrightarrow> ticket_key t \<noteq> k"
    using half_open_stays [OF Cons.prems(1-3) _ e] Cons.prems(4) by simp_all
  then show ?case using Cons by (auto simp: e)
qed simp

text \<open>
  An end of the execution the breaker is not told about: a cancelled attempt that does not exhaust the
  budget, or a malformed response of a row without external effect.
\<close>

definition untold_end :: "schema_env \<Rightarrow> skill_row \<Rightarrow> bounded_end \<Rightarrow> bool" where
  "untold_end env sk z = (case z of
     Ended _ reported \<Rightarrow> \<not> reported
   | Completed out \<Rightarrow> validateAgainstSchema env (sk_output_schema sk) out \<noteq> [] \<and> sk_effect_class sk \<in> {READ, INTERNAL})"

lemma untold_end_keeps: "untold_end env (dt_skill t) (br_end r) \<Longrightarrow>
    \<exists>e. dispatch_settle env now finishedAt t r eng = (Inl e, eng)"
  by (auto simp: untold_end_def dispatch_settle_def Let_def split: bounded_end.splits)

text \<open>
  when the half-open probe of a stream ends without a result being recorded, the stream is closed for
  good: however much time passes and whatever is dispatched, no later call of that tenant and skill is
  admitted.
\<close>

theorem abandoned_probe_closes_its_stream:
  assumes "sn_breakers eng (ticket_key t) = Some b" and "breaker_inv b" and "cb_state b = HALF_OPEN"
    and "executeBounded renv (sk_retry_policy (dt_skill t)) ev rnd = Some r"
    and "untold_end env (dt_skill t) (br_end r)"
    and "list_all (\<lambda>x. \<not> ends_stream (ticket_key t) x) ops"
    and "run_ops (dispatch_exec seams env renv) (Finish now finishedAt t ev rnd # ops) eng = (entries, eng')"
  shows "\<forall>(x, a) \<in> set entries. \<forall>t'. a = Ticket t' \<longrightarrow> ticket_key t' \<noteq> ticket_key t"
proof -
  obtain e where "dispatch_settle env now finishedAt t r eng = (Inl e, eng)"
    using untold_end_keeps [OF assms(5)] by blast
  then have f: "dispatch_exec seams env renv (Finish now finishedAt t ev rnd) eng = (Refusal e, eng)"
    using assms(4) by (simp add: answer_def)
  have "entries = (Finish now finishedAt t ev rnd, Refusal e) # fst (run_ops (dispatch_exec seams env renv) ops eng)"
    using assms(7) unfolding run_ops_Cons f by simp
  then show ?thesis using half_open_run [OF assms(1-3,6), of seams env renv] by simp
qed

subsection \<open>Witnesses\<close>

definition example_request :: dispatch_request where
  "example_request = \<lparr>dr_broker = ''REVENUE_ORCHESTRATOR'', dr_skill_id = ''skill.sales.create_order'',
     dr_run_id = ''r'', dr_tenant_id = ''t'', dr_correlation_id = ''c'', dr_caller_agent = ''SAL-01'',
     dr_granted_authority = JStr ''AUTH-2'', dr_request_id = ''q'', dr_step_index = Fin 0, dr_action_revision = Fin 0,
     dr_effect_key = None, dr_approval_id = None, dr_approval_payload_digest = None,
     dr_input = JObj [(''note'', JNull), (''sku'', JStr ''A1'')]\<rparr>"

definition example_skill_engine :: skill_engine where
  "example_skill_engine = \<lparr>sn_registry = [(''skill.sales.create_order'', example_row)], sn_breakers = Map.empty\<rparr>"

lemma example_texts: "\<not> blank ''r''" "\<not> blank ''t''" "\<not> blank ''c''" "\<not> blank ''SAL-01''" "\<not> blank ''q''"
  by (simp_all add: blank_def trim_def is_ws_def)

lemma example_dispatch_key: "\<exists>k. computeEffectKey echo_runtime (dispatch_identity example_request) = Inr k"
  by (simp add: computeEffectKey_def dispatch_identity_def example_request_def trim_def is_ws_def effect_identity_def
      effect_canonicalizeJson_def durable_canonicalizeJson_def database_canonicalizeJson_def echo_runtime_def)

lemma example_checks: "\<exists>t. dispatch_checks (core_seams echo_runtime) 0 example_request (sn_registry example_skill_engine) = Inr t
    \<and> dt_skill t = example_row"
proof -
  obtain k where k: "computeEffectKey echo_runtime (dispatch_identity example_request) = Inr k"
    using example_dispatch_key by blast
  have v: "ad_verdict (evaluateAuthorityVerdict (JStr ''AUTH-2'') (JStr ''AUTH-2'')) = AUTO_APPROVED"
    by code_simp
  have e: "resolveDispatchEffectKey (core_seams echo_runtime) example_request = Inr k"
    using k by (simp add: resolveDispatchEffectKey_def requireIdentity_def requireCoordinate_def max_safe_def
        example_request_def)
  show ?thesis
    using e example_accepted
    by (simp add: dispatch_checks_def resolve_skill_def example_skill_engine_def example_request_def ORCHESTRATOR_BROKER_def
        requireResolvedText_def example_texts enforceAuthorityAdmission_def v check_own_def foreign_tenant_def
        has_own_def own_keys_def)
qed

lemma example_admits: "\<exists>t eng'. dispatch_admit (core_seams echo_runtime) 0 0 example_request example_skill_engine = (Inr t, eng')
    \<and> dt_skill t = example_row"
  using example_checks
  by (auto simp: dispatch_admit_def breaker_of_def example_skill_engine_def CircuitBreaker_def canExecute_def)

theorem admitted_dispatch_is_authorized_witness:
  "\<exists>t eng'. dispatch_admit (core_seams echo_runtime) 0 0 example_request example_skill_engine = (Inr t, eng')
    \<and> dr_caller_agent example_request \<in> set (sk_allowed_agents (dt_skill t))"
  using example_admits admitted_dispatch_is_authorized by blast

lemma example_registration: "\<exists>replies. run_ops (register example_env) [example_row] [] = (replies, sn_registry example_skill_engine)"
  by (simp add: register_def example_row_registers example_skill_engine_def)

definition dropping_adapter :: "int \<Rightarrow> attempt_event" where
  "dropping_adapter i = \<lparr>ae_result = Inl (ThrownValue (JObj [(''code'', JStr ''ECONNRESET'')])),
     ae_deadline = False, ae_cancelled = True\<rparr>"

theorem effects_are_never_resent_blindly_witness:
  "\<exists>(t :: dispatch_ticket) r. executeBounded example_retry_env (sk_retry_policy (dt_skill t)) dropping_adapter (\<lambda>_. Fin 0) = Some r
    \<and> (\<forall>i. 1 \<le> i \<and> i < br_attempts r \<longrightarrow> \<not> unconfirmed (dropping_adapter i))"
proof -
  obtain t :: dispatch_ticket where t: "dt_skill t = example_row" using example_admits by fast
  obtain replies where r: "run_ops (register example_env) [example_row] [] = (replies, sn_registry example_skill_engine)"
    using example_registration by blast
  have k: "resolve_skill (sn_registry example_skill_engine) ''skill.sales.create_order'' = Inr (dt_skill t)"
    by (simp add: resolve_skill_def example_skill_engine_def t)
  have c: "sk_effect_class (dt_skill t) \<in> {EFFECT, APPROVAL}" by (simp add: t)
  from effects_are_never_resent_blindly [OF r k c, of example_retry_env dropping_adapter "\<lambda>_. Fin 0"]
  show ?thesis by blast
qed

theorem tenant_streams_do_not_interfere_witness:
  "filter (\<lambda>p. dispatch_tenant (fst p) = ''t'')
      (fst (run_ops (dispatch_exec (core_seams echo_runtime) example_env example_retry_env)
        [Admit 0 0 (example_request\<lparr>dr_tenant_id := ''u''\<rparr>), Admit 0 0 example_request] example_skill_engine))
    = fst (run_ops (dispatch_exec (core_seams echo_runtime) example_env example_retry_env)
        [Admit 0 0 example_request] example_skill_engine)"
proof -
  obtain replies where r: "run_ops (register example_env) [example_row] [] = (replies, sn_registry example_skill_engine)"
    using example_registration by blast
  have g: "list_all genuine [Admit 0 0 (example_request\<lparr>dr_tenant_id := ''u''\<rparr>), Admit 0 0 example_request]" by simp
  from tenant_streams_do_not_interfere [OF r g, of "''t''"] show ?thesis by (simp add: example_request_def)
qed

theorem abandoned_probe_closes_its_stream_witness:
  "\<exists>(t :: dispatch_ticket) (b :: breaker) entries eng'. cb_state b = HALF_OPEN
    \<and> run_ops (dispatch_exec (core_seams echo_runtime) example_env example_retry_env)
        [Finish 0 0 t dropping_adapter (\<lambda>_. Fin 0), Admit 90000000 90000000 example_request]
        (put_breaker (ticket_key t) b example_skill_engine) = (entries, eng')
    \<and> (\<forall>(x, a) \<in> set entries. \<forall>t'. a = Ticket t' \<longrightarrow> ticket_key t' \<noteq> ticket_key t)"
proof -
  obtain t :: dispatch_ticket where t: "dt_skill t = example_row" using example_admits by fast
  define b where "b = snd (canExecute 30001 (breaker_recordFailure 1 (CircuitBreaker 1 30000 0)))"
  have b: "breaker_inv b" "cb_state b = HALF_OPEN"
    by (simp_all add: b_def breaker_inv_def breaker_ops CircuitBreaker_def)
  let ?eng = "put_breaker (ticket_key t) b example_skill_engine"
  have s: "sn_breakers ?eng (ticket_key t) = Some b" by (simp add: put_breaker_def)
  have "retry_budget example_policy = Some 2" by (simp add: retry_budget_def example_policy_def max_safe_def)
  have e: "executeBounded example_retry_env (sk_retry_policy (dt_skill t)) dropping_adapter (\<lambda>_. Fin 0)
      = Some \<lparr>br_end = Ended (SkillError ''EFFECT_UNKNOWN'') False, br_attempts = 1, br_sleeps = []\<rparr>"
    by (simp add: t executeBounded_def attempt_loop.simps [of _ _ _ _ 1] dropping_adapter_def attempt_class_def
        aborted_def classifyFailure_def example_policy_def)
  have u: "untold_end example_env (dt_skill t) (br_end \<lparr>br_end = Ended (SkillError ''EFFECT_UNKNOWN'') False,
      br_attempts = 1, br_sleeps = []\<rparr>)" by (simp add: untold_end_def)
  have l: "list_all (\<lambda>x. \<not> ends_stream (ticket_key t) x) [Admit 90000000 90000000 example_request]"
    by (simp add: ends_stream_def)
  obtain entries eng' where r: "run_ops (dispatch_exec (core_seams echo_runtime) example_env example_retry_env)
        [Finish 0 0 t dropping_adapter (\<lambda>_. Fin 0), Admit 90000000 90000000 example_request] ?eng = (entries, eng')"
    by fastforce
  from abandoned_probe_closes_its_stream [OF s b e u l r] b(2) r show ?thesis by blast
qed

end
