(* ===== verification/TaskGuards.thy ===== *)
theory TaskGuards
  imports DatabaseGuards ReservationStore TaskFsm Contracts CanonicalJson
begin

text \<open>
  The row of \<open>agentos.platform_durable_tasks\<close>, the guards of
  \<open>packages/database/src/repositories/durable-workflows.guards.ts\<close> and the \<open>jsonb\<close> operators its
  statements use. A database instant counts microseconds, as \<open>TIMESTAMPTZ\<close> does; the driver hands it
  over as a \<open>Date\<close>, which counts whole milliseconds (\<open>iso_ms\<close>).
\<close>

record durable_task =
  dt_task_id :: string
  dt_tenant_id :: string
  dt_run_id :: string
  dt_correlation_id :: string
  dt_current_step :: int
  dt_state :: task_state
  dt_task_version :: int
  dt_lease_owner :: "string option"
  dt_lease_expires_at :: "int option"
  dt_retry_count :: int
  dt_max_retries :: int
  dt_last_error_class :: "string option"
  dt_paused_for_approval_id :: "string option"
  dt_state_payload :: json
  dt_error_details :: json
  dt_created_at :: int
  dt_updated_at :: int

definition iso_ms :: "int \<Rightarrow> int" where
  "iso_ms t = t div 1000"

subsection \<open>Closed vocabularies\<close>

definition DURABLE_TASK_STATES :: "task_state list" where
  "DURABLE_TASK_STATES = [Queued, Running, Waiting, AwaitingHuman, Completed, Stopped, Failed]"

definition TERMINAL_STATES :: "task_state list" where
  "TERMINAL_STATES = [Completed, Stopped, Failed]"

definition PARKED_STATES :: "task_state list" where
  "PARKED_STATES = [Waiting, AwaitingHuman]"

definition OPEN_STATES :: "task_state list" where
  "OPEN_STATES = [Queued, Running, Waiting]"

definition CHECKPOINT_MEMBERS :: "string list" where
  "CHECKPOINT_MEMBERS =
    [''plan'', ''current_step'', ''pending_action'', ''context'', ''previous_evidence_hash'', ''request_id'']"

subsection \<open>\<open>jsonb\<close>\<close>

text \<open>\<open>isPlainObject\<close>: an instance of a class is \<open>JOther\<close>.\<close>

definition isPlainObject :: "json \<Rightarrow> bool" where
  "isPlainObject v \<longleftrightarrow> as_record v \<noteq> None"

text \<open>\<open>isPlainObject(v) ? v : {}\<close>.\<close>

definition plain_members :: "json \<Rightarrow> jobject" where
  "plain_members v = (case as_record v of None \<Rightarrow> [] | Some o1 \<Rightarrow> o1)"

definition serializeJsonb :: "json \<Rightarrow> string \<Rightarrow> json result" where
  "serializeJsonb v code = (case stringified v of None \<Rightarrow> Inl (ThrownError code) | Some w \<Rightarrow> Inr w)"

text \<open>The operator \<open>?\<close>: a top-level key of an object, or a string element.\<close>

fun jsonb_has :: "json \<Rightarrow> string \<Rightarrow> bool" where
  "jsonb_has (JObj ms) k = (k \<in> fst ` set ms)"
| "jsonb_has (JArr xs) k = (JStr k \<in> set xs)"
| "jsonb_has (JStr s) k = (s = k)"
| "jsonb_has _ k = False"

text \<open>
  The operator \<open>||\<close>: two objects merge, the right one wins; in all other cases each side that is no
  array becomes the array of itself, and the arrays are concatenated.
\<close>

fun jsonb_items :: "json \<Rightarrow> json list" where
  "jsonb_items (JArr xs) = xs"
| "jsonb_items v = [v]"

definition jsonb_concat :: "json \<Rightarrow> json \<Rightarrow> json" where
  "jsonb_concat a b =
    (case (as_record a, as_record b) of
       (Some x, Some y) \<Rightarrow> JObj (spread x y)
     | _ \<Rightarrow> JArr (jsonb_items a @ jsonb_items b))"

subsection \<open>Event identity\<close>

definition event_unserializable :: failure where
  "event_unserializable = ThrownError ''TASK_PAYLOAD_UNSERIALIZABLE''"

text \<open>The keys are sorted first, then the members are serialized in that order.\<close>

fun canonicalizeEvent :: "runtime \<Rightarrow> json \<Rightarrow> string result"
  and event_items :: "runtime \<Rightarrow> json list \<Rightarrow> string list result"
  and event_members :: "runtime \<Rightarrow> (string \<times> json) list \<Rightarrow> (string \<times> string) list result" where
  "canonicalizeEvent rt JNull = Inr ''null''"
| "canonicalizeEvent rt (JBool b) = Inr (if b then ''true'' else ''false'')"
| "canonicalizeEvent rt (JNum n) = Inr (case n of Fin q \<Rightarrow> rt_numtext rt q | _ \<Rightarrow> ''null'')"
| "canonicalizeEvent rt (JStr s) = Inr (json_quote s)"
| "canonicalizeEvent rt (JArr xs) =
     andThen (event_items rt xs) (\<lambda>parts. Inr (''['' @ join_with '','' parts @ '']''))"
| "canonicalizeEvent rt (JObj ms) =
     andThen (event_members rt ms)
       (\<lambda>parts. Inr (''{'' @ join_with '',''
          (map (\<lambda>(k, t). json_quote k @ '':'' @ t) (sort_key fst parts)) @ ''}''))"
| "canonicalizeEvent rt JUndef = Inl event_unserializable"
| "canonicalizeEvent rt JOther = Inl event_unserializable"
| "event_items rt [] = Inr []"
| "event_items rt (x # xs) =
     andThen (canonicalizeEvent rt x) (\<lambda>t. andThen (event_items rt xs) (\<lambda>ts. Inr (t # ts)))"
| "event_members rt [] = Inr []"
| "event_members rt ((k, x) # ms) =
     andThen (canonicalizeEvent rt x)
       (\<lambda>t. andThen (event_members rt ms) (\<lambda>ts. Inr ((k, t) # ts)))"

text \<open>\<open>canonicalizeEvent(a) === canonicalizeEvent(b)\<close> when \<open>b\<close> is the text computed before.\<close>

definition same_event :: "runtime \<Rightarrow> json \<Rightarrow> string \<Rightarrow> bool result" where
  "same_event rt a t = andThen (canonicalizeEvent rt a) (\<lambda>s. Inr (s = t))"

text \<open>An event that has a canonical text is stored, and what is stored has the same text.\<close>

lemma stored_event_text:
  "canonicalizeEvent rt v = Inr t \<Longrightarrow> \<exists>w. stringified v = Some w \<and> canonicalizeEvent rt w = Inr t"
  "event_items rt xs = Inr ts \<Longrightarrow> event_items rt (stringified_items xs) = Inr ts"
  "event_members rt ms = Inr ps \<Longrightarrow> event_members rt (stringified_members ms) = Inr ps"
proof (induction rt v and rt xs and rt ms arbitrary: t and ts and ps
    rule: canonicalizeEvent_event_items_event_members.induct)
  case (3 rt n)
  then show ?case by (cases n) auto
next
  case (10 rt x xs)
  then show ?case by (fastforce simp: andThen_Inr_iff)
next
  case (12 rt k x ms)
  then show ?case by (fastforce simp: andThen_Inr_iff)
qed (auto simp: andThen_Inr_iff)

subsection \<open>Checkpoints\<close>

definition checkpoint_incomplete :: failure where
  "checkpoint_incomplete = ThrownError ''CHECKPOINT_INCOMPLETE''"

definition assertCompleteCheckpoint :: "json \<Rightarrow> unit result" where
  "assertCompleteCheckpoint checkpoint =
    (case as_record checkpoint of
       None \<Rightarrow> Inl checkpoint_incomplete
     | Some o1 \<Rightarrow>
         if list_ex (\<lambda>k. member o1 k = JUndef) CHECKPOINT_MEMBERS then Inl checkpoint_incomplete
         else if \<not> (case member o1 ''current_step'' of JNum (Fin q) \<Rightarrow> is_int_rat q \<and> 1 \<le> q | _ \<Rightarrow> False)
         then Inl checkpoint_incomplete
         else if \<not> isPlainObject (member o1 ''plan'') \<or> \<not> isPlainObject (member o1 ''context'')
         then Inl checkpoint_incomplete
         else if member o1 ''pending_action'' \<noteq> JNull \<and> \<not> isPlainObject (member o1 ''pending_action'')
         then Inl checkpoint_incomplete
         else if \<not> (case member o1 ''previous_evidence_hash'' of JStr s \<Rightarrow> isSha256Hex s | _ \<Rightarrow> False)
         then Inl checkpoint_incomplete
         else if \<not> (case member o1 ''request_id'' of JStr s \<Rightarrow> \<not> blank s | _ \<Rightarrow> False)
         then Inl checkpoint_incomplete
         else Inr ())"

definition complete_payload :: "json \<Rightarrow> bool" where
  "complete_payload v \<longleftrightarrow> succeeds (assertCompleteCheckpoint v)"

lemma complete_iff: "assertCompleteCheckpoint v = (if complete_payload v then Inr () else Inl checkpoint_incomplete)"
  by (cases "as_record v") (simp_all add: complete_payload_def assertCompleteCheckpoint_def)

lemma complete_object: "complete_payload v \<Longrightarrow> \<exists>o1. v = JObj o1"
  by (cases v) (simp_all add: complete_payload_def assertCompleteCheckpoint_def)

text \<open>Completeness reads six members only, and what is stored of them keeps what it asks.\<close>

lemma stringified_member:
  "stringified (member ms k) = Some w \<Longrightarrow> member (stringified_members ms) k = w"
  by (induction ms) (auto simp: member_Cons member_def split: if_splits option.splits)

definition checkpoint_shape :: "(string \<Rightarrow> json) \<Rightarrow> bool" where
  "checkpoint_shape m \<longleftrightarrow>
     (\<exists>q. m ''current_step'' = JNum (Fin q) \<and> is_int_rat q \<and> 1 \<le> q)
     \<and> isPlainObject (m ''plan'') \<and> isPlainObject (m ''context'')
     \<and> (m ''pending_action'' = JNull \<or> isPlainObject (m ''pending_action''))
     \<and> (\<exists>h. m ''previous_evidence_hash'' = JStr h \<and> isSha256Hex h)
     \<and> (\<exists>r. m ''request_id'' = JStr r \<and> \<not> blank r)"

lemma plain_object_iff [simp]: "isPlainObject v \<longleftrightarrow> (\<exists>o1. v = JObj o1)"
  by (cases v) (simp_all add: isPlainObject_def)

lemma step_test: "(case v of JNum (Fin q) \<Rightarrow> P q | _ \<Rightarrow> False) \<longleftrightarrow> (\<exists>q. v = JNum (Fin q) \<and> P q)"
  by (simp split: json.split jnum.split)

lemma text_test: "(case v of JStr s \<Rightarrow> P s | _ \<Rightarrow> False) \<longleftrightarrow> (\<exists>s. v = JStr s \<and> P s)"
  by (simp split: json.split)

lemma complete_object_iff: "complete_payload (JObj o1) \<longleftrightarrow> checkpoint_shape (member o1)"
proof -
  have "checkpoint_shape (member o1) \<Longrightarrow> \<not> list_ex (\<lambda>k. member o1 k = JUndef) CHECKPOINT_MEMBERS"
    unfolding checkpoint_shape_def CHECKPOINT_MEMBERS_def by (elim conjE exE) auto
  then show ?thesis
    unfolding complete_payload_def assertCompleteCheckpoint_def step_test text_test
    by (cases "list_ex (\<lambda>k. member o1 k = JUndef) CHECKPOINT_MEMBERS")
       (simp_all add: checkpoint_shape_def, (argo | blast)+)
qed

lemma complete_stored:
  assumes "complete_payload v"
  shows "\<exists>w. stringified v = Some w \<and> complete_payload w"
proof -
  obtain ms where v: "v = JObj ms" using complete_object [OF assms] by blast
  have c: "checkpoint_shape (member ms)" using assms v complete_object_iff by simp
  have num: "member ms k = JNum (Fin q) \<Longrightarrow> member (stringified_members ms) k = JNum (Fin q)" for k q
    using stringified_member [of ms k] by simp
  have str: "member ms k = JStr s \<Longrightarrow> member (stringified_members ms) k = JStr s" for k s
    using stringified_member [of ms k] by simp
  have obj: "member ms k = JObj o1 \<Longrightarrow> member (stringified_members ms) k = JObj (stringified_members o1)" for k o1
    using stringified_member [of ms k] by simp
  have null: "member ms k = JNull \<Longrightarrow> member (stringified_members ms) k = JNull" for k
    using stringified_member [of ms k] by simp
  have "checkpoint_shape (member (stringified_members ms))"
    using c unfolding checkpoint_shape_def plain_object_iff by (blast dest: num str obj null)
  then show ?thesis by (simp add: v complete_object_iff)
qed

text \<open>A merge that leaves the six members alone keeps a complete checkpoint complete.\<close>

lemma complete_same_members:
  assumes "\<And>k. k \<in> set CHECKPOINT_MEMBERS \<Longrightarrow> member o1 k = member o2 k"
  shows "complete_payload (JObj o1) = complete_payload (JObj o2)"
proof -
  have "member o1 ''plan'' = member o2 ''plan''" "member o1 ''current_step'' = member o2 ''current_step''"
    "member o1 ''pending_action'' = member o2 ''pending_action''" "member o1 ''context'' = member o2 ''context''"
    "member o1 ''previous_evidence_hash'' = member o2 ''previous_evidence_hash''"
    "member o1 ''request_id'' = member o2 ''request_id''"
    using assms by (simp_all add: CHECKPOINT_MEMBERS_def)
  then show ?thesis by (simp add: complete_object_iff checkpoint_shape_def)
qed

subsection \<open>Guards of a write\<close>

definition assertTaskState :: "task_state \<Rightarrow> unit result" where
  "assertTaskState s = (if s \<notin> set DURABLE_TASK_STATES then Inl (ThrownError ''TASK_STATE_INVALID'') else Inr ())"

lemma known_state: "s \<in> set DURABLE_TASK_STATES \<longleftrightarrow> isTaskLifecycleState s"
  by (cases s) (simp_all add: DURABLE_TASK_STATES_def)

text \<open>\<open>now\<close> is the clock of the process in milliseconds, not the database's.\<close>

definition assertLeaseHeld :: "int \<Rightarrow> durable_task \<Rightarrow> string option \<Rightarrow> unit result" where
  "assertLeaseHeld now r lease_owner =
    (case lease_owner of
       None \<Rightarrow> Inr ()
     | Some w \<Rightarrow>
         if blank w then Inl (ThrownError ''TASK_LEASE_OWNER_REQUIRED'')
         else if dt_state r \<notin> {Running, Waiting, AwaitingHuman} \<or> dt_lease_owner r \<noteq> Some w
           \<or> (case dt_lease_expires_at r of None \<Rightarrow> True | Some e \<Rightarrow> iso_ms e \<le> now)
         then Inl (ThrownError ''TASK_LEASE_NOT_HELD'')
         else Inr ())"

definition assertGuard :: "durable_task \<Rightarrow> jnum option \<Rightarrow> int result" where
  "assertGuard locked guard =
    (case guard of
       None \<Rightarrow> Inr (dt_task_version locked)
     | Some n \<Rightarrow>
         (case assertPositiveInteger n ''TASK_VERSION_INVALID'' of
            Inl e \<Rightarrow> Inl e
          | Inr _ \<Rightarrow> if Fin (of_int (dt_task_version locked)) \<noteq> n then Inl (ThrownError ''TASK_VERSION_CONFLICT'')
                    else Inr (dt_task_version locked)))"

lemma assertGuard_version: "assertGuard r g = Inr v \<Longrightarrow> v = dt_task_version r"
  by (auto simp: assertGuard_def split: option.splits sum.splits if_splits)

lemma assertGuard_stale:
  "assertGuard r (Some n) = Inr v \<Longrightarrow> n = Fin (of_int (dt_task_version r))"
  by (auto simp: assertGuard_def split: sum.splits if_splits)

lemma assertLeaseHeld_owner:
  "assertLeaseHeld now r (Some w) = Inr u \<Longrightarrow>
   dt_lease_owner r = Some w \<and> dt_state r \<in> {Running, Waiting, AwaitingHuman}
   \<and> (\<exists>e. dt_lease_expires_at r = Some e \<and> now < iso_ms e)"
  by (auto simp: assertLeaseHeld_def split: if_splits option.splits)

subsection \<open>The cursor of a page\<close>

text \<open>
  \<open>dt_text\<close> is \<open>toISOString\<close>, \<open>dt_parse\<close> is \<open>new Date(s).getTime()\<close>: \<open>None\<close> is \<open>NaN\<close>.
\<close>

record date_text =
  date_iso :: "int \<Rightarrow> string"
  date_parse :: "string \<Rightarrow> int option"

definition task_list_cursor :: "date_text \<Rightarrow> durable_task \<Rightarrow> string" where
  "task_list_cursor d r = date_iso d (iso_ms (dt_created_at r)) @ ''|'' @ dt_run_id r"

definition parseTaskListCursor :: "date_text \<Rightarrow> string \<Rightarrow> (int \<times> string) result" where
  "parseTaskListCursor d cursor =
    (let invalid = Inl (ThrownError ''TASK_LIST_CURSOR_INVALID'');
         created_at = takeWhile (\<lambda>c. c \<noteq> CHR ''|'') cursor;
         run_id = drop 1 (dropWhile (\<lambda>c. c \<noteq> CHR ''|'') cursor)
     in if CHR ''|'' \<notin> set cursor then invalid
        else case date_parse d created_at of
          None \<Rightarrow> invalid
        | Some t \<Rightarrow>
            if date_iso d t \<noteq> created_at \<or> blank run_id \<or> 64 < length run_id \<or> CHR ''|'' \<in> set run_id
            then invalid else Inr (t, run_id))"

text \<open>ECMAScript: an ISO text is parsed back, and holds no bar.\<close>

definition iso_dates :: "date_text \<Rightarrow> bool" where
  "iso_dates d \<longleftrightarrow> (\<forall>t. date_parse d (date_iso d t) = Some t \<and> CHR ''|'' \<notin> set (date_iso d t))"

lemma parse_published_cursor:
  assumes "iso_dates d" and "\<not> blank (dt_run_id r)" "length (dt_run_id r) \<le> 64" "CHR ''|'' \<notin> set (dt_run_id r)"
  shows "parseTaskListCursor d (task_list_cursor d r) = Inr (iso_ms (dt_created_at r), dt_run_id r)"
proof -
  let ?s = "date_iso d (iso_ms (dt_created_at r))"
  have s: "date_parse d ?s = Some (iso_ms (dt_created_at r))" "CHR ''|'' \<notin> set ?s"
    using assms(1) by (auto simp: iso_dates_def)
  have t: "takeWhile (\<lambda>c. c \<noteq> CHR ''|'') (?s @ CHR ''|'' # x) = ?s"
    "dropWhile (\<lambda>c. c \<noteq> CHR ''|'') (?s @ CHR ''|'' # x) = CHR ''|'' # x" for x
    using s(2) by (auto simp: takeWhile_append dropWhile_append)
  show ?thesis using s assms(2-4)
    by (simp add: parseTaskListCursor_def task_list_cursor_def t Let_def)
qed

end
