(* ===== verification/TaskStore.thy ===== *)
theory TaskStore
  imports TaskGuards "HOL-Library.Product_Lexorder"
begin

text \<open>
  The durable task repository, \<open>packages/database/src/repositories/durable-workflows.ts\<close> with the
  statements of \<open>durable-workflows.sql.ts\<close>. The table is the list of its rows in insertion order;
  \<open>(tenant_id, run_id)\<close> is unique. Every method is one transaction, and one that throws leaves the
  table as it was. \<open>dbnow\<close> is \<open>CURRENT_TIMESTAMP\<close> in microseconds, \<open>now\<close> the clock of the process in
  milliseconds, \<open>new_id\<close> what \<open>uuid_generate_v7()\<close> answers.
\<close>

type_synonym task_table = "durable_task list"

definition task_at :: "string \<Rightarrow> string \<Rightarrow> durable_task \<Rightarrow> bool" where
  "task_at tenant_id run_id r \<longleftrightarrow> dt_tenant_id r = uuid_text tenant_id \<and> dt_run_id r = run_id"

definition lockDurableTask :: "string \<Rightarrow> string \<Rightarrow> task_table \<Rightarrow> durable_task option" where
  "lockDurableTask tenant_id run_id table = find (task_at tenant_id run_id) table"

definition thrown :: "string \<Rightarrow> 'a result" where
  "thrown code = Inl (ThrownError code)"

text \<open>An \<open>UPDATE ... RETURNING\<close>, read by \<open>assertSingleRow\<close>.\<close>

definition write_task :: "string \<Rightarrow> string \<Rightarrow> (durable_task \<Rightarrow> bool) \<Rightarrow> (durable_task \<Rightarrow> durable_task) \<Rightarrow>
    task_table \<Rightarrow> durable_task result \<times> task_table" where
  "write_task tenant_id run_id wher f table =
    (case find (\<lambda>r. task_at tenant_id run_id r \<and> wher r) table of
       None \<Rightarrow> (thrown ''TASK_WRITE_LOST'', table)
     | Some r \<Rightarrow> (Inr (f r), update_first (\<lambda>r. task_at tenant_id run_id r \<and> wher r) f table))"

text \<open>\<open>task_version = task_version + 1, updated_at = CURRENT_TIMESTAMP\<close>.\<close>

definition next_version :: "int \<Rightarrow> durable_task \<Rightarrow> durable_task" where
  "next_version dbnow r = r\<lparr>dt_task_version := dt_task_version r + 1, dt_updated_at := dbnow\<rparr>"

definition without_lease :: "durable_task \<Rightarrow> durable_task" where
  "without_lease r = r\<lparr>dt_lease_owner := None, dt_lease_expires_at := None\<rparr>"

definition at_version :: "int \<Rightarrow> durable_task \<Rightarrow> bool" where
  "at_version v r \<longleftrightarrow> dt_task_version r = v"

text \<open>What an \<open>INT\<close> column holds of a number that passed its guard.\<close>

fun int_column :: "jnum \<Rightarrow> int" where
  "int_column (Fin q) = \<lfloor>q\<rfloor>"
| "int_column _ = 0"

subsection \<open>Creation\<close>

record create_task_input =
  ct_tenant_id :: string
  ct_run_id :: string
  ct_correlation_id :: string
  ct_current_step :: "jnum option"
  ct_state :: "task_state option"
  ct_max_retries :: "jnum option"
  ct_state_payload :: json

definition or_default :: "'a option \<Rightarrow> 'a \<Rightarrow> 'a" where
  "or_default v d = (case v of None \<Rightarrow> d | Some x \<Rightarrow> x)"

definition assert_task_identity :: "create_task_input \<Rightarrow> unit result" where
  "assert_task_identity input =
    andThen (assertIdentifier (ct_tenant_id input) 36 ''TASK_TENANT_ID_REQUIRED'') (\<lambda>_.
    andThen (assertIdentifier (ct_run_id input) 64 ''TASK_RUN_ID_REQUIRED'') (\<lambda>_.
    assertIdentifier (ct_correlation_id input) 64 ''TASK_CORRELATION_ID_REQUIRED''))"

definition assert_retries_and_park :: "create_task_input \<Rightarrow> unit result" where
  "assert_retries_and_park input =
    (if \<not> is_natural (or_default (ct_max_retries input) (Fin 3)) then thrown ''TASK_MAX_RETRIES_INVALID''
     else if or_default (ct_state input) Queued \<in> set PARKED_STATES
     then assertCompleteCheckpoint (ct_state_payload input)
     else Inr ())"

definition checked_payload :: "create_task_input \<Rightarrow> json result" where
  "checked_payload input =
    (let step = or_default (ct_current_step input) (Fin 1);
         payload = (if ct_state_payload input = JUndef \<or> ct_state_payload input = JNull then JObj []
                    else ct_state_payload input)
     in andThen (assert_task_identity input) (\<lambda>_.
        andThen (assertTaskState (or_default (ct_state input) Queued)) (\<lambda>_.
        andThen (if \<not> is_natural step then thrown ''TASK_CURRENT_STEP_INVALID'' else Inr ()) (\<lambda>_.
        andThen (assert_retries_and_park input) (\<lambda>_.
        serializeJsonb payload ''TASK_PAYLOAD_UNSERIALIZABLE'')))))"

text \<open>The row \<open>INSERT_TASK\<close> returns, the column defaults included.\<close>

definition opening_row :: "string \<Rightarrow> int \<Rightarrow> create_task_input \<Rightarrow> json \<Rightarrow> durable_task" where
  "opening_row new_id dbnow input stored =
    \<lparr>dt_task_id = new_id, dt_tenant_id = uuid_text (ct_tenant_id input),
     dt_run_id = ct_run_id input, dt_correlation_id = ct_correlation_id input,
     dt_current_step = int_column (or_default (ct_current_step input) (Fin 1)),
     dt_state = or_default (ct_state input) Queued, dt_task_version = 1,
     dt_lease_owner = None, dt_lease_expires_at = None, dt_retry_count = 0,
     dt_max_retries = int_column (or_default (ct_max_retries input) (Fin 3)),
     dt_last_error_class = None, dt_paused_for_approval_id = None,
     dt_state_payload = stored, dt_error_details = JNull,
     dt_created_at = dbnow, dt_updated_at = dbnow\<rparr>"

definition insertDurableTask :: "string \<Rightarrow> int \<Rightarrow> create_task_input \<Rightarrow> task_table \<Rightarrow>
    durable_task result \<times> task_table" where
  "insertDurableTask new_id dbnow input table =
    (case checked_payload input of
        Inl e \<Rightarrow> (Inl e, table)
      | Inr stored \<Rightarrow>
          if list_ex (task_at (ct_tenant_id input) (ct_run_id input)) table
          then (thrown ''DURABLE_TASK_EXISTS'', table)
          else (Inr (opening_row new_id dbnow input stored), table @ [opening_row new_id dbnow input stored]))"

definition durable_createTask :: "string \<Rightarrow> int \<Rightarrow> create_task_input \<Rightarrow> task_table \<Rightarrow>
    durable_task result \<times> task_table" where
  "durable_createTask new_id dbnow input table =
    (case andThen (assert_task_identity input) (\<lambda>_.
        andThen (assertTaskState (or_default (ct_state input) Queued)) (\<lambda>_.
        andThen (assertPositiveInteger (or_default (ct_current_step input) (Fin 1)) ''TASK_CURRENT_STEP_INVALID'') (\<lambda>_.
        assert_retries_and_park input))) of
       Inl e \<Rightarrow> (Inl e, table)
     | Inr _ \<Rightarrow> in_tenant (ct_tenant_id input) (insertDurableTask new_id dbnow input table) table)"

definition createQueuedAdmissionTask :: "string \<Rightarrow> int \<Rightarrow> create_task_input \<Rightarrow> task_table \<Rightarrow>
    durable_task result \<times> task_table" where
  "createQueuedAdmissionTask new_id dbnow input table =
    (case assert_task_identity input of
       Inl e \<Rightarrow> (Inl e, table)
     | Inr _ \<Rightarrow> in_tenant (ct_tenant_id input)
         (insertDurableTask new_id dbnow
            (input\<lparr>ct_state := Some Queued, ct_current_step := Some (Fin 0)\<rparr>) table) table)"

subsection \<open>Leases\<close>

text \<open>The condition \<open>SELECT_CLAIMABLE_TASK\<close> and \<open>UPDATE_CLAIM_TASK\<close> share.\<close>

definition lapsed :: "int \<Rightarrow> durable_task \<Rightarrow> bool" where
  "lapsed dbnow r \<longleftrightarrow> (case dt_lease_expires_at r of None \<Rightarrow> False | Some e \<Rightarrow> e < dbnow)"

definition claimable :: "int \<Rightarrow> durable_task \<Rightarrow> bool" where
  "claimable dbnow r \<longleftrightarrow>
     dt_state r = Queued
     \<or> (dt_state r = Running \<and> lapsed dbnow r)
     \<or> (dt_state r \<in> {Waiting, AwaitingHuman} \<and> jsonb_has (dt_state_payload r) ''resume_event''
        \<and> (dt_lease_owner r = None \<or> dt_lease_expires_at r = None \<or> lapsed dbnow r))"

definition claimed :: "int \<Rightarrow> string \<Rightarrow> int \<Rightarrow> durable_task \<Rightarrow> durable_task" where
  "claimed dbnow lease_owner ttl r = next_version dbnow (r
     \<lparr>dt_state := (if dt_state r \<in> {Waiting, AwaitingHuman} then dt_state r else Running),
      dt_lease_owner := Some lease_owner, dt_lease_expires_at := Some (dbnow + ttl * 1000)\<rparr>)"

text \<open>
  \<open>ORDER BY created_at ASC LIMIT 1 FOR UPDATE SKIP LOCKED\<close>: \<open>skipped\<close> are the runs whose rows other
  transactions hold locked at this instant. \<open>lease_owner\<close> is a \<open>VARCHAR(64)\<close>.
\<close>

fun oldest :: "durable_task list \<Rightarrow> durable_task option" where
  "oldest [] = None"
| "oldest (r # rs) = (case oldest rs of None \<Rightarrow> Some r
     | Some s \<Rightarrow> if dt_created_at r \<le> dt_created_at s then Some r else Some s)"

definition lease_ttl :: "jnum option \<Rightarrow> int result" where
  "lease_ttl duration =
    (let ttl = or_default duration (Fin 30000) in
     case assertPositiveInteger ttl ''TASK_LEASE_DURATION_INVALID'' of
       Inl e \<Rightarrow> Inl e | Inr _ \<Rightarrow> Inr (int_column ttl))"

definition claimNextQueuedTask :: "int \<Rightarrow> string list \<Rightarrow> string \<Rightarrow> string \<Rightarrow> jnum option \<Rightarrow>
    task_table \<Rightarrow> durable_task option result \<times> task_table" where
  "claimNextQueuedTask dbnow skipped tenant_id lease_owner duration table =
    (case andThen (assertIdentifier tenant_id 36 ''TASK_TENANT_ID_REQUIRED'') (\<lambda>_.
        andThen (assertIdentifier lease_owner 128 ''TASK_LEASE_OWNER_REQUIRED'') (\<lambda>_. lease_ttl duration)) of
       Inl e \<Rightarrow> (Inl e, table)
     | Inr ttl \<Rightarrow> in_tenant tenant_id
         (case oldest (filter (\<lambda>r. dt_tenant_id r = uuid_text tenant_id \<and> claimable dbnow r \<and> dt_run_id r \<notin> set skipped) table) of
            None \<Rightarrow> (Inr None, table)
          | Some r \<Rightarrow>
              if 64 < length lease_owner then (thrown ''22001'', table)
              else (case write_task tenant_id (dt_run_id r)
                       (\<lambda>s. at_version (dt_task_version r) s \<and> claimable dbnow s) (claimed dbnow lease_owner ttl) table of
                      (Inl e, t) \<Rightarrow> (Inl e, t)
                    | (Inr s, t) \<Rightarrow> (Inr (Some s), t))) table)"

definition owned_by :: "string \<Rightarrow> durable_task \<Rightarrow> bool" where
  "owned_by lease_owner r \<longleftrightarrow> dt_lease_owner r = Some lease_owner"

text \<open>The lock, the lease and the version every lease operation starts with.\<close>

definition locked_lease :: "int \<Rightarrow> string \<Rightarrow> string \<Rightarrow> string \<Rightarrow> jnum \<Rightarrow> task_table \<Rightarrow> durable_task result" where
  "locked_lease now tenant_id run_id lease_owner task_version table =
    (case lockDurableTask tenant_id run_id table of
       None \<Rightarrow> thrown ''DURABLE_TASK_NOT_FOUND''
     | Some r \<Rightarrow> andThen (assertLeaseHeld now r (Some lease_owner)) (\<lambda>_.
         if Fin (of_int (dt_task_version r)) \<noteq> task_version then thrown ''TASK_VERSION_CONFLICT'' else Inr r))"

definition assert_address :: "string \<Rightarrow> string \<Rightarrow> unit result" where
  "assert_address tenant_id run_id =
    andThen (assertIdentifier tenant_id 36 ''TASK_TENANT_ID_REQUIRED'') (\<lambda>_.
    assertIdentifier run_id 64 ''TASK_RUN_ID_REQUIRED'')"

definition renewTaskLease :: "int \<Rightarrow> int \<Rightarrow> string \<Rightarrow> string \<Rightarrow> string \<Rightarrow> jnum \<Rightarrow> jnum option \<Rightarrow> task_table \<Rightarrow>
    durable_task result \<times> task_table" where
  "renewTaskLease dbnow now tenant_id run_id lease_owner task_version duration table =
    (case andThen (assert_address tenant_id run_id) (\<lambda>_. lease_ttl duration) of
       Inl e \<Rightarrow> (Inl e, table)
     | Inr ttl \<Rightarrow> in_tenant tenant_id
         (case locked_lease now tenant_id run_id lease_owner task_version table of
            Inl e \<Rightarrow> (Inl e, table)
          | Inr r \<Rightarrow> write_task tenant_id run_id
              (\<lambda>s. at_version (dt_task_version r) s \<and> owned_by lease_owner s)
              (\<lambda>s. next_version dbnow (s\<lparr>dt_lease_expires_at := Some (dbnow + ttl * 1000)\<rparr>)) table) table)"

definition has_own :: "json \<Rightarrow> string \<Rightarrow> bool" where
  "has_own v k \<longleftrightarrow> (case as_record v of None \<Rightarrow> False | Some o1 \<Rightarrow> k \<in> fst ` set o1)"

definition releaseTaskLease :: "int \<Rightarrow> int \<Rightarrow> string \<Rightarrow> string \<Rightarrow> string \<Rightarrow> jnum \<Rightarrow> task_state option \<Rightarrow>
    task_table \<Rightarrow> durable_task result \<times> task_table" where
  "releaseTaskLease dbnow now tenant_id run_id lease_owner task_version target_state table =
    (case assert_address tenant_id run_id of
       Inl e \<Rightarrow> (Inl e, table)
     | Inr _ \<Rightarrow> in_tenant tenant_id
         (let target = or_default target_state Queued in
          case andThen (locked_lease now tenant_id run_id lease_owner task_version table) (\<lambda>r.
            andThen (assertTaskState target) (\<lambda>_.
              if target \<notin> {Queued, Waiting, AwaitingHuman} then thrown ''TASK_LEASE_RELEASE_STATE_INVALID''
              else if target = AwaitingHuman \<and> \<not> has_own (dt_state_payload r) ''resume_event''
              then thrown ''TASK_LEASE_RELEASE_STATE_INVALID''
              else Inr r)) of
            Inl e \<Rightarrow> (Inl e, table)
          | Inr r \<Rightarrow> write_task tenant_id run_id
              (\<lambda>s. at_version (dt_task_version r) s \<and> owned_by lease_owner s)
              (\<lambda>s. next_version dbnow (without_lease (s\<lparr>dt_state := target\<rparr>))) table) table)"

subsection \<open>Reads\<close>

definition durable_getTask :: "string \<Rightarrow> string \<Rightarrow> task_table \<Rightarrow> durable_task option result" where
  "durable_getTask tenant_id run_id table =
    andThen (assertIdentifier run_id 64 ''TASK_RUN_ID_REQUIRED'') (\<lambda>_.
    andThen (assertTenantContext tenant_id) (\<lambda>_. Inr (lockDurableTask tenant_id run_id table)))"

text \<open>
  A bound of the page: an instant in microseconds, or a text \<open>Date.parse\<close> refuses. \<open>acted\<close> are the
  \<open>(tenant_id, run_id, agent_id)\<close> of \<open>agent_run_logs\<close>.
\<close>

datatype page_bound = NoBound | BadBound | Bound int

record list_tasks_input =
  lt_tenant_id :: string
  lt_state :: "task_state option"
  lt_agent_id :: "string option"
  lt_from :: page_bound
  lt_to :: page_bound
  lt_limit :: "jnum option"
  lt_cursor :: "string option"

fun assertInstant :: "page_bound \<Rightarrow> int option result" where
  "assertInstant NoBound = Inr None"
| "assertInstant BadBound = Inl (ThrownError ''TASK_LIST_RANGE_INVALID'')"
| "assertInstant (Bound t) = Inr (Some t)"

definition assertAgentId :: "string option \<Rightarrow> unit result" where
  "assertAgentId agent = (case agent of None \<Rightarrow> Inr ()
     | Some a \<Rightarrow> if blank a \<or> 32 < length a then thrown ''TASK_AGENT_ID_INVALID'' else Inr ())"

definition page_limit :: "jnum option \<Rightarrow> nat result" where
  "page_limit limit =
    (case or_default limit (Fin 50) of
       Fin q \<Rightarrow> if is_int_rat q \<and> 1 \<le> q \<and> q \<le> 200 then Inr (nat \<lfloor>q\<rfloor>) else thrown ''TASK_LIST_LIMIT_INVALID''
     | _ \<Rightarrow> thrown ''TASK_LIST_LIMIT_INVALID'')"

text \<open>
  The key \<open>(created_at, run_id)\<close> of the page: microseconds, then the code units of the run (the
  collation \<open>C\<close>).
\<close>

definition page_key :: "durable_task \<Rightarrow> int \<times> string" where
  "page_key r = (dt_created_at r, dt_run_id r)"

definition in_page_scope :: "(string \<times> string \<times> string) list \<Rightarrow> list_tasks_input \<Rightarrow> int option \<Rightarrow> int option \<Rightarrow>
    durable_task \<Rightarrow> bool" where
  "in_page_scope acted input lo hi r \<longleftrightarrow>
     dt_tenant_id r = uuid_text (lt_tenant_id input)
     \<and> (case lt_state input of None \<Rightarrow> True | Some s \<Rightarrow> dt_state r = s)
     \<and> (case lo of None \<Rightarrow> True | Some t \<Rightarrow> t \<le> dt_created_at r)
     \<and> (case hi of None \<Rightarrow> True | Some t \<Rightarrow> dt_created_at r \<le> t)
     \<and> (case lt_agent_id input of None \<Rightarrow> True | Some a \<Rightarrow> (dt_tenant_id r, dt_run_id r, a) \<in> set acted)"

definition newest_first :: "durable_task list \<Rightarrow> durable_task list" where
  "newest_first rows = rev (sort_key page_key rows)"

record task_page =
  tp_items :: "durable_task list"
  tp_next_cursor :: "string option"

text \<open>\<open>SELECT_TASK_PAGE\<close> and the page made of its rows; the cursor's milliseconds are bound into \<open>$6\<close>.\<close>

definition read_page :: "date_text \<Rightarrow> (durable_task \<Rightarrow> bool) \<Rightarrow> nat \<Rightarrow> (int \<times> string) option \<Rightarrow> task_table \<Rightarrow>
    task_page" where
  "read_page d scope limit cursor table =
    (let found = take (limit + 1) (newest_first (filter (\<lambda>r. scope r
            \<and> (case cursor of None \<Rightarrow> True | Some (c, i) \<Rightarrow> page_key r < (c * 1000, i))) table));
         rows = take limit found
     in \<lparr>tp_items = rows,
         tp_next_cursor = (if limit < length found \<and> rows \<noteq> []
            then Some (task_list_cursor d (last rows)) else None)\<rparr>)"

definition listTasks :: "date_text \<Rightarrow> (string \<times> string \<times> string) list \<Rightarrow> list_tasks_input \<Rightarrow> task_table \<Rightarrow>
    task_page result" where
  "listTasks d acted input table =
    andThen (assertIdentifier (lt_tenant_id input) 36 ''TASK_TENANT_ID_REQUIRED'') (\<lambda>_.
    andThen (case lt_state input of None \<Rightarrow> Inr () | Some s \<Rightarrow> assertTaskState s) (\<lambda>_.
    andThen (assertAgentId (lt_agent_id input)) (\<lambda>_.
    andThen (assertInstant (lt_from input)) (\<lambda>lo.
    andThen (assertInstant (lt_to input)) (\<lambda>hi.
    andThen (page_limit (lt_limit input)) (\<lambda>limit.
    andThen (case lt_cursor input of None \<Rightarrow> Inr None
             | Some c \<Rightarrow> andThen (parseTaskListCursor d c) (\<lambda>k. Inr (Some k))) (\<lambda>cursor.
    andThen (assertTenantContext (lt_tenant_id input)) (\<lambda>_.
      Inr (read_page d (in_page_scope acted input lo hi) limit cursor table)))))))))"

subsection \<open>Progress and transitions\<close>

definition assertOpen :: "durable_task option \<Rightarrow> string \<Rightarrow> durable_task result" where
  "assertOpen locked parked_code =
    (case locked of
       None \<Rightarrow> thrown ''DURABLE_TASK_NOT_FOUND''
     | Some r \<Rightarrow>
         if dt_state r \<in> set TERMINAL_STATES then thrown ''TASK_ALREADY_TERMINAL''
         else if dt_state r \<notin> set OPEN_STATES then thrown parked_code
         else Inr r)"

record task_guard =
  tg_expected_task_version :: jnum
  tg_lease_owner :: "string option"

definition guard_version :: "task_guard option \<Rightarrow> jnum option" where
  "guard_version g = map_option tg_expected_task_version g"

definition guard_owner :: "task_guard option \<Rightarrow> string option" where
  "guard_owner g = (case g of None \<Rightarrow> None | Some g \<Rightarrow> tg_lease_owner g)"

text \<open>The locked row a fenced writer may write: opened, at the guarded version, under its lease.\<close>

definition writable :: "int \<Rightarrow> string \<Rightarrow> string \<Rightarrow> string \<Rightarrow> jnum option \<Rightarrow> string option \<Rightarrow> task_table \<Rightarrow>
    durable_task result" where
  "writable now tenant_id run_id parked_code version lease_owner table =
    andThen (assertOpen (lockDurableTask tenant_id run_id table) parked_code) (\<lambda>opened.
    andThen (assertGuard opened version) (\<lambda>_.
    andThen (assertLeaseHeld now opened lease_owner) (\<lambda>_. Inr opened)))"

definition durable_updateTaskProgress :: "int \<Rightarrow> int \<Rightarrow> string \<Rightarrow> string \<Rightarrow> jnum \<Rightarrow> json \<Rightarrow> task_guard option \<Rightarrow>
    task_table \<Rightarrow> durable_task result \<times> task_table" where
  "durable_updateTaskProgress dbnow now tenant_id run_id stepIndex checkpointPayload guard table =
    (case andThen (assertIdentifier run_id 64 ''TASK_RUN_ID_REQUIRED'') (\<lambda>_.
        andThen (assertPositiveInteger stepIndex ''TASK_CURRENT_STEP_INVALID'') (\<lambda>_.
        if \<not> isPlainObject checkpointPayload then thrown ''TASK_PROGRESS_PAYLOAD_INVALID''
        else serializeJsonb checkpointPayload ''TASK_PAYLOAD_UNSERIALIZABLE'')) of
       Inl e \<Rightarrow> (Inl e, table)
     | Inr state_payload \<Rightarrow> in_tenant tenant_id
         (case writable now tenant_id run_id ''TASK_NOT_PROGRESSABLE'' (guard_version guard) (guard_owner guard) table of
            Inl e \<Rightarrow> (Inl e, table)
          | Inr opened \<Rightarrow> write_task tenant_id run_id (at_version (dt_task_version opened))
              (\<lambda>r. next_version dbnow (r\<lparr>dt_current_step := int_column stepIndex,
                 dt_state_payload := jsonb_concat (dt_state_payload r) state_payload\<rparr>)) table) table)"

text \<open>\<open>UPDATE_TASK_STATE\<close> and its two variants: what becomes of the lease, then of the payload.\<close>

definition moved_to :: "task_state \<Rightarrow> durable_task \<Rightarrow> durable_task" where
  "moved_to state r =
    (let r' = r\<lparr>dt_state := state\<rparr> in if state \<in> {Completed, Stopped, Failed} then without_lease r' else r')"

definition transition_row :: "int \<Rightarrow> task_state \<Rightarrow> json option \<Rightarrow> durable_task \<Rightarrow> durable_task" where
  "transition_row dbnow state payload r = next_version dbnow (moved_to state r)
     \<lparr>dt_state_payload := (case payload of
        None \<Rightarrow> dt_state_payload r
      | Some p \<Rightarrow> if state \<in> set PARKED_STATES then p else jsonb_concat (dt_state_payload r) p)\<rparr>"

definition durable_transitionTask :: "int \<Rightarrow> int \<Rightarrow> string \<Rightarrow> string \<Rightarrow> task_state \<Rightarrow> string \<Rightarrow> json \<Rightarrow>
    task_guard option \<Rightarrow> task_table \<Rightarrow> durable_task result \<times> task_table" where
  "durable_transitionTask dbnow now tenant_id run_id state reason checkpointPayload guard table =
    (case andThen (assertIdentifier run_id 64 ''TASK_RUN_ID_REQUIRED'') (\<lambda>_.
        andThen (assertTaskState state) (\<lambda>_.
        andThen (if blank reason then thrown ''TASK_TRANSITION_REASON_REQUIRED'' else Inr ()) (\<lambda>_.
        andThen (if state \<in> set PARKED_STATES then assertCompleteCheckpoint checkpointPayload
                 else if checkpointPayload \<noteq> JUndef \<and> \<not> isPlainObject checkpointPayload
                 then thrown ''TASK_PROGRESS_PAYLOAD_INVALID'' else Inr ()) (\<lambda>_.
        andThen (if state = AwaitingHuman then thrown ''TASK_PAUSE_REQUIRES_APPROVAL'' else Inr ()) (\<lambda>_.
        if checkpointPayload = JUndef then Inr None
        else andThen (serializeJsonb checkpointPayload ''TASK_PAYLOAD_UNSERIALIZABLE'') (\<lambda>p. Inr (Some p))))))) of
       Inl e \<Rightarrow> (Inl e, table)
     | Inr payload \<Rightarrow> in_tenant tenant_id
         (case writable now tenant_id run_id ''TASK_PAUSE_RESUME_REQUIRES_DECISION''
             (guard_version guard) (guard_owner guard) table of
            Inl e \<Rightarrow> (Inl e, table)
          | Inr opened \<Rightarrow> write_task tenant_id run_id (at_version (dt_task_version opened))
              (transition_row dbnow state payload) table) table)"

subsection \<open>Failures\<close>

definition requeued_row :: "int \<Rightarrow> string \<Rightarrow> json \<Rightarrow> durable_task \<Rightarrow> durable_task" where
  "requeued_row dbnow error_class details r = next_version dbnow (without_lease (r
     \<lparr>dt_state := Queued, dt_retry_count := dt_retry_count r + 1, dt_last_error_class := Some error_class,
      dt_error_details := details\<rparr>))"

definition terminal_row :: "int \<Rightarrow> string \<Rightarrow> json \<Rightarrow> durable_task \<Rightarrow> durable_task" where
  "terminal_row dbnow error_class details r = next_version dbnow (without_lease (r
     \<lparr>dt_state := Failed, dt_last_error_class := Some error_class, dt_error_details := details\<rparr>))"

record failure_input =
  fi_tenant_id :: string
  fi_run_id :: string
  fi_error_class :: string
  fi_error_details :: json
  fi_expected_task_version :: "jnum option"
  fi_lease_owner :: "string option"

definition checked_details :: "failure_input \<Rightarrow> json result" where
  "checked_details input =
    andThen (assert_address (fi_tenant_id input) (fi_run_id input)) (\<lambda>_.
    if fi_error_class input \<noteq> ''RETRYABLE'' \<and> fi_error_class input \<noteq> ''FATAL''
    then thrown ''TASK_ERROR_CLASS_INVALID''
    else if \<not> isPlainObject (fi_error_details input) then thrown ''TASK_ERROR_DETAILS_INVALID''
    else serializeJsonb (fi_error_details input) ''TASK_ERROR_DETAILS_INVALID'')"

text \<open>\<open>requeued\<close> and the row whose members the outcome repeats.\<close>

definition durable_recordFailure :: "int \<Rightarrow> int \<Rightarrow> failure_input \<Rightarrow> task_table \<Rightarrow>
    (bool \<times> durable_task) result \<times> task_table" where
  "durable_recordFailure dbnow now input table =
    (case checked_details input of
       Inl e \<Rightarrow> (Inl e, table)
     | Inr details \<Rightarrow> in_tenant (fi_tenant_id input)
         (case writable now (fi_tenant_id input) (fi_run_id input) ''TASK_NOT_PROGRESSABLE''
             (fi_expected_task_version input) (fi_lease_owner input) table of
            Inl e \<Rightarrow> (Inl e, table)
          | Inr opened \<Rightarrow>
              let requeued = (fi_error_class input = ''RETRYABLE'' \<and> dt_retry_count opened < dt_max_retries opened)
              in case write_task (fi_tenant_id input) (fi_run_id input) (at_version (dt_task_version opened))
                   (if requeued then requeued_row dbnow (fi_error_class input) details
                    else terminal_row dbnow (fi_error_class input) details) table of
                   (Inl e, t) \<Rightarrow> (Inl e, t)
                 | (Inr r, t) \<Rightarrow> (Inr (requeued, r), t)) table)"

definition assertRequeueable :: "durable_task option \<Rightarrow> durable_task result" where
  "assertRequeueable locked =
    (case locked of
       None \<Rightarrow> thrown ''DURABLE_TASK_NOT_FOUND''
     | Some r \<Rightarrow> if dt_state r = Failed then Inr r else thrown ''TASK_REQUEUE_NOT_FAILED'')"

definition requeueFailed :: "int \<Rightarrow> string \<Rightarrow> string \<Rightarrow> string \<Rightarrow> jnum option \<Rightarrow> task_table \<Rightarrow>
    durable_task result \<times> task_table" where
  "requeueFailed dbnow tenant_id run_id reason expected_task_version table =
    (case andThen (assert_address tenant_id run_id) (\<lambda>_.
        if blank reason then thrown ''TASK_REQUEUE_REASON_REQUIRED'' else Inr ()) of
       Inl e \<Rightarrow> (Inl e, table)
     | Inr _ \<Rightarrow> in_tenant tenant_id
         (case andThen (assertRequeueable (lockDurableTask tenant_id run_id table)) (\<lambda>failed.
             assertGuard failed expected_task_version) of
            Inl e \<Rightarrow> (Inl e, table)
          | Inr base \<Rightarrow> write_task tenant_id run_id (at_version base)
              (\<lambda>r. next_version dbnow (without_lease (r\<lparr>dt_state := Queued, dt_last_error_class := None,
                 dt_error_details := JNull\<rparr>))) table) table)"

subsection \<open>Resume events\<close>

text \<open>\<open>state_payload || payload\<close>, no lease, the state as the statement spells it.\<close>

definition event_row :: "int \<Rightarrow> task_state \<Rightarrow> json \<Rightarrow> durable_task \<Rightarrow> durable_task" where
  "event_row dbnow state payload r = next_version dbnow (without_lease (r
     \<lparr>dt_state := state, dt_state_payload := jsonb_concat (dt_state_payload r) payload\<rparr>))"

text \<open>
  The part \<open>queueReconciliation\<close> and \<open>queueHandoffEvidence\<close> write alike: an event that is already
  queued is repeated or refused, another one is merged into the checkpoint.
\<close>

definition queue_event :: "runtime \<Rightarrow> int \<Rightarrow> string \<Rightarrow> string \<Rightarrow> json \<Rightarrow> string \<Rightarrow> string \<Rightarrow> durable_task \<Rightarrow>
    task_table \<Rightarrow> durable_task result \<times> task_table" where
  "queue_event rt dbnow tenant_id run_id event event_text conflict locked table =
    (case assertCompleteCheckpoint (dt_state_payload locked) of
       Inl e \<Rightarrow> (Inl e, table)
     | Inr _ \<Rightarrow>
         let existingPayload = plain_members (dt_state_payload locked);
             existingEvent = member existingPayload ''resume_event''
         in if existingEvent \<noteq> JUndef
            then (case same_event rt existingEvent event_text of
                    Inl e \<Rightarrow> (Inl e, table)
                  | Inr same \<Rightarrow> if \<not> same then (thrown conflict, table) else (Inr locked, table))
            else (case serializeJsonb (JObj (spread existingPayload [(''resume_event'', event)]))
                     ''TASK_PAYLOAD_UNSERIALIZABLE'' of
                    Inl e \<Rightarrow> (Inl e, table)
                  | Inr newPayload \<Rightarrow> write_task tenant_id run_id (at_version (dt_task_version locked))
                      (event_row dbnow (dt_state locked) newPayload) table))"

record reconciliation_input =
  rc_tenant_id :: string
  rc_run_id :: string
  rc_resolution :: string
  rc_reason :: string
  rc_operator_id :: string
  rc_receipt :: "jobject option"

definition reconciliation_event :: "reconciliation_input \<Rightarrow> json" where
  "reconciliation_event input = JObj
    ([(''tenant_id'', JStr (rc_tenant_id input)), (''event_type'', JStr ''human.reconcile''),
      (''operator_id'', JStr (rc_operator_id input)),
      (''reconciliation_resolution'', JStr (rc_resolution input))]
     @ opt_member ''reconciliation_receipt'' (map_option JObj (rc_receipt input))
     @ [(''reason'', JStr (rc_reason input))])"

definition checked_reconciliation :: "runtime \<Rightarrow> reconciliation_input \<Rightarrow> string result" where
  "checked_reconciliation rt input =
    andThen (assert_address (rc_tenant_id input) (rc_run_id input)) (\<lambda>_.
    andThen (assertIdentifier (rc_operator_id input) 128 ''OPERATOR_ID_REQUIRED'') (\<lambda>_.
    if blank (rc_reason input) then thrown ''TASK_TRANSITION_REASON_REQUIRED''
    else if rc_resolution input \<notin>
      {''PROVIDER_CONFIRMED_SUCCEEDED'', ''PROVIDER_CONFIRMED_ABSENT'', ''ESCALATE_MANUALLY''}
    then thrown ''RECONCILIATION_RESOLUTION_INVALID''
    else canonicalizeEvent rt (reconciliation_event input)))"

definition queueReconciliation :: "runtime \<Rightarrow> int \<Rightarrow> reconciliation_input \<Rightarrow> task_table \<Rightarrow>
    durable_task result \<times> task_table" where
  "queueReconciliation rt dbnow input table =
    (case checked_reconciliation rt input of
       Inl e \<Rightarrow> (Inl e, table)
     | Inr event_text \<Rightarrow> in_tenant (rc_tenant_id input)
         (case lockDurableTask (rc_tenant_id input) (rc_run_id input) table of
            None \<Rightarrow> (thrown ''DURABLE_TASK_NOT_FOUND'', table)
          | Some locked \<Rightarrow>
              if dt_state locked \<in> set TERMINAL_STATES then (thrown ''TASK_ALREADY_TERMINAL'', table)
              else if dt_state locked \<noteq> Waiting then (thrown ''RUN_NOT_RECONCILABLE'', table)
              else queue_event rt dbnow (rc_tenant_id input) (rc_run_id input) (reconciliation_event input)
                event_text ''RECONCILIATION_EVENT_CONFLICT'' locked table) table)"

record handoff_evidence_input =
  he_tenant_id :: string
  he_run_id :: string
  he_evidence_payload :: json
  he_step_index :: "jnum option"
  he_effect_key :: "string option"
  he_reason :: "string option"
  he_expected_task_version :: "jnum option"

definition handoff_evidence_event :: "handoff_evidence_input \<Rightarrow> json" where
  "handoff_evidence_event input = JObj
    ([(''tenant_id'', JStr (he_tenant_id input)), (''run_id'', JStr (he_run_id input)),
      (''event_type'', JStr ''human.handoff.evidence''), (''evidence_payload'', he_evidence_payload input)]
     @ opt_member ''step_index'' (map_option JNum (he_step_index input))
     @ opt_member ''effect_key'' (map_option JStr (he_effect_key input))
     @ opt_member ''reason'' (map_option JStr (he_reason input)))"

text \<open>The answer is \<open>{ queued: true, task_version }\<close> of the returned row.\<close>

definition durable_queueHandoffEvidence :: "runtime \<Rightarrow> int \<Rightarrow> handoff_evidence_input \<Rightarrow> task_table \<Rightarrow>
    durable_task result \<times> task_table" where
  "durable_queueHandoffEvidence rt dbnow input table =
    (case andThen (assert_address (he_tenant_id input) (he_run_id input)) (\<lambda>_.
        if \<not> isPlainObject (he_evidence_payload input) then thrown ''HANDOFF_EVIDENCE_PAYLOAD_INVALID''
        else canonicalizeEvent rt (handoff_evidence_event input)) of
       Inl e \<Rightarrow> (Inl e, table)
     | Inr event_text \<Rightarrow> in_tenant (he_tenant_id input)
         (case lockDurableTask (he_tenant_id input) (he_run_id input) table of
            None \<Rightarrow> (thrown ''DURABLE_TASK_NOT_FOUND'', table)
          | Some locked \<Rightarrow>
              if dt_state locked \<in> set TERMINAL_STATES then (thrown ''TASK_ALREADY_TERMINAL'', table)
              else if dt_state locked \<noteq> AwaitingHuman then (thrown ''TASK_NOT_AWAITING_HUMAN'', table)
              else if (case he_expected_task_version input of None \<Rightarrow> False
                       | Some v \<Rightarrow> Fin (of_int (dt_task_version locked)) \<noteq> v)
              then (thrown ''TASK_VERSION_CONFLICT'', table)
              else queue_event rt dbnow (he_tenant_id input) (he_run_id input) (handoff_evidence_event input)
                event_text ''HANDOFF_EVIDENCE_EVENT_CONFLICT'' locked table) table)"

text \<open>\<open>UPDATE_CLEAR_HANDOFF_EVIDENCE_TASK\<close> clears the lease with the event.\<close>

definition durable_clearHandoffEvidence :: "runtime \<Rightarrow> int \<Rightarrow> int \<Rightarrow> string \<Rightarrow> string \<Rightarrow> jnum \<Rightarrow> string \<Rightarrow> json \<Rightarrow>
    task_table \<Rightarrow> durable_task result \<times> task_table" where
  "durable_clearHandoffEvidence rt dbnow now tenant_id run_id expected lease_owner expected_event table =
    (case andThen (assert_address tenant_id run_id) (\<lambda>_.
        andThen (assertIdentifier lease_owner 128 ''TASK_LEASE_OWNER_REQUIRED'') (\<lambda>_.
        canonicalizeEvent rt expected_event)) of
       Inl e \<Rightarrow> (Inl e, table)
     | Inr event_text \<Rightarrow> in_tenant tenant_id
         (case lockDurableTask tenant_id run_id table of
            None \<Rightarrow> (thrown ''DURABLE_TASK_NOT_FOUND'', table)
          | Some locked \<Rightarrow>
              if dt_state locked \<noteq> AwaitingHuman then (thrown ''TASK_NOT_AWAITING_HUMAN'', table)
              else case assertLeaseHeld now locked (Some lease_owner) of
                Inl e \<Rightarrow> (Inl e, table)
              | Inr _ \<Rightarrow>
                  if Fin (of_int (dt_task_version locked)) \<noteq> expected then (thrown ''TASK_VERSION_CONFLICT'', table)
                  else let payload = plain_members (dt_state_payload locked);
                           existingEvent = member payload ''resume_event''
                    in if \<not> isPlainObject existingEvent then (thrown ''HANDOFF_EVIDENCE_EVENT_CONFLICT'', table)
                       else case same_event rt existingEvent event_text of
                         Inl e \<Rightarrow> (Inl e, table)
                       | Inr same \<Rightarrow>
                           if \<not> same then (thrown ''HANDOFF_EVIDENCE_EVENT_CONFLICT'', table)
                           else case serializeJsonb (JObj (AList.delete ''resume_event'' payload))
                               ''TASK_PAYLOAD_UNSERIALIZABLE'' of
                             Inl e \<Rightarrow> (Inl e, table)
                           | Inr serialized \<Rightarrow> write_task tenant_id run_id
                               (\<lambda>r. dt_state r = AwaitingHuman \<and> at_version (int_column expected) r \<and> owned_by lease_owner r)
                               (\<lambda>r. next_version dbnow (without_lease (r\<lparr>dt_state_payload := serialized\<rparr>))) table) table)"

end
