(* ===== verification/TaskSteps.thy ===== *)
theory TaskSteps
  imports TaskStore Session
begin

text \<open>
  The repository of durable tasks as a step function, and the relation its invariants are proved from:
  \<open>row_write x r r'\<close> says when the operation \<open>x\<close> may write a row \<open>r\<close> and what the row becomes, in the
  terms of the code (the contract in other terms is TaskContract). Every
  operation leaves the table as it is, appends the row it creates, or rewrites the one row it locked
  along that relation (\<open>task_exec_effect\<close>).
\<close>

datatype task_op =
    OpCreate string int create_task_input
  | OpAdmit string int create_task_input
  | OpClaim int "string list" string string "jnum option"
  | OpRenew int int string string string jnum "jnum option"
  | OpRelease int int string string string jnum "task_state option"
  | OpProgress int int string string jnum json "task_guard option"
  | OpTransition int int string string task_state string json "task_guard option"
  | OpFail int int failure_input
  | OpRequeue int string string string "jnum option"
  | OpReconcile int reconciliation_input
  | OpEvidence int handoff_evidence_input
  | OpClear int int string string jnum string json

datatype task_reply = TaskDenied failure | TaskWritten durable_task | TaskIdle | FailureRecorded bool durable_task

definition written :: "durable_task result \<times> task_table \<Rightarrow> task_reply \<times> task_table" where
  "written p = (case fst p of Inl e \<Rightarrow> (TaskDenied e, snd p) | Inr r \<Rightarrow> (TaskWritten r, snd p))"

fun task_exec :: "runtime \<Rightarrow> task_op \<Rightarrow> task_table \<Rightarrow> task_reply \<times> task_table" where
  "task_exec rt (OpCreate i dbnow input) T = written (durable_createTask i dbnow input T)"
| "task_exec rt (OpAdmit i dbnow input) T = written (createQueuedAdmissionTask i dbnow input T)"
| "task_exec rt (OpClaim dbnow skipped t w d) T =
    (case claimNextQueuedTask dbnow skipped t w d T of
       (Inl e, T') \<Rightarrow> (TaskDenied e, T') | (Inr None, T') \<Rightarrow> (TaskIdle, T') | (Inr (Some r), T') \<Rightarrow> (TaskWritten r, T'))"
| "task_exec rt (OpRenew dbnow now t k w v d) T = written (renewTaskLease dbnow now t k w v d T)"
| "task_exec rt (OpRelease dbnow now t k w v target) T = written (releaseTaskLease dbnow now t k w v target T)"
| "task_exec rt (OpProgress dbnow now t k n p g) T = written (durable_updateTaskProgress dbnow now t k n p g T)"
| "task_exec rt (OpTransition dbnow now t k s reason p g) T =
    written (durable_transitionTask dbnow now t k s reason p g T)"
| "task_exec rt (OpFail dbnow now input) T =
    (case durable_recordFailure dbnow now input T of
       (Inl e, T') \<Rightarrow> (TaskDenied e, T') | (Inr (q, r), T') \<Rightarrow> (FailureRecorded q r, T'))"
| "task_exec rt (OpRequeue dbnow t k reason v) T = written (requeueFailed dbnow t k reason v T)"
| "task_exec rt (OpReconcile dbnow input) T = written (queueReconciliation rt dbnow input T)"
| "task_exec rt (OpEvidence dbnow input) T = written (durable_queueHandoffEvidence rt dbnow input T)"
| "task_exec rt (OpClear dbnow now t k v w ev) T = written (durable_clearHandoffEvidence rt dbnow now t k v w ev T)"

fun task_op_tenant :: "task_op \<Rightarrow> string" where
  "task_op_tenant (OpCreate _ _ input) = ct_tenant_id input"
| "task_op_tenant (OpAdmit _ _ input) = ct_tenant_id input"
| "task_op_tenant (OpClaim _ _ t _ _) = t"
| "task_op_tenant (OpRenew _ _ t _ _ _ _) = t"
| "task_op_tenant (OpRelease _ _ t _ _ _ _) = t"
| "task_op_tenant (OpProgress _ _ t _ _ _ _) = t"
| "task_op_tenant (OpTransition _ _ t _ _ _ _ _) = t"
| "task_op_tenant (OpFail _ _ input) = fi_tenant_id input"
| "task_op_tenant (OpRequeue _ t _ _ _) = t"
| "task_op_tenant (OpReconcile _ input) = rc_tenant_id input"
| "task_op_tenant (OpEvidence _ input) = he_tenant_id input"
| "task_op_tenant (OpClear _ _ t _ _ _ _) = t"

text \<open>The run an operation names; a claim names none.\<close>

fun task_op_run :: "task_op \<Rightarrow> string option" where
  "task_op_run (OpCreate _ _ input) = Some (ct_run_id input)"
| "task_op_run (OpAdmit _ _ input) = Some (ct_run_id input)"
| "task_op_run (OpClaim _ _ _ _ _) = None"
| "task_op_run (OpRenew _ _ _ k _ _ _) = Some k"
| "task_op_run (OpRelease _ _ _ k _ _ _) = Some k"
| "task_op_run (OpProgress _ _ _ k _ _ _) = Some k"
| "task_op_run (OpTransition _ _ _ k _ _ _ _) = Some k"
| "task_op_run (OpFail _ _ input) = Some (fi_run_id input)"
| "task_op_run (OpRequeue _ _ k _ _) = Some k"
| "task_op_run (OpReconcile _ input) = Some (rc_run_id input)"
| "task_op_run (OpEvidence _ input) = Some (he_run_id input)"
| "task_op_run (OpClear _ _ _ k _ _ _) = Some k"

subsection \<open>The writes\<close>

definition held :: "int \<Rightarrow> string \<Rightarrow> durable_task \<Rightarrow> bool" where
  "held now w r \<longleftrightarrow> succeeds (assertLeaseHeld now r (Some w))"

definition versioned :: "jnum \<Rightarrow> durable_task \<Rightarrow> bool" where
  "versioned v r \<longleftrightarrow> v = Fin (of_int (dt_task_version r))"

definition fenced :: "int \<Rightarrow> jnum option \<Rightarrow> string option \<Rightarrow> durable_task \<Rightarrow> bool" where
  "fenced now v w r \<longleftrightarrow> dt_state r \<in> set OPEN_STATES \<and> (\<forall>n. v = Some n \<longrightarrow> versioned n r)
     \<and> (\<forall>u. w = Some u \<longrightarrow> held now u r)"

definition event_queued :: "int \<Rightarrow> json \<Rightarrow> durable_task \<Rightarrow> durable_task \<Rightarrow> bool" where
  "event_queued dbnow ev r r' \<longleftrightarrow> complete_payload (dt_state_payload r)
     \<and> member (plain_members (dt_state_payload r)) ''resume_event'' = JUndef
     \<and> (\<exists>p. stringified (JObj (spread (plain_members (dt_state_payload r)) [(''resume_event'', ev)])) = Some p
          \<and> r' = event_row dbnow (dt_state r) p r)"

fun row_write :: "task_op \<Rightarrow> durable_task \<Rightarrow> durable_task \<Rightarrow> bool" where
  "row_write (OpClaim dbnow skipped t w d) r r' =
    (claimable dbnow r \<and> (\<exists>ttl. lease_ttl d = Inr ttl \<and> r' = claimed dbnow w ttl r))"
| "row_write (OpRenew dbnow now t k w v d) r r' =
    (held now w r \<and> versioned v r \<and> (\<exists>ttl. lease_ttl d = Inr ttl
       \<and> r' = next_version dbnow (r\<lparr>dt_lease_expires_at := Some (dbnow + ttl * 1000)\<rparr>)))"
| "row_write (OpRelease dbnow now t k w v target) r r' =
    (held now w r \<and> versioned v r \<and> or_default target Queued \<in> {Queued, Waiting, AwaitingHuman}
     \<and> (or_default target Queued = AwaitingHuman \<longrightarrow> has_own (dt_state_payload r) ''resume_event'')
     \<and> r' = next_version dbnow (without_lease (r\<lparr>dt_state := or_default target Queued\<rparr>)))"
| "row_write (OpProgress dbnow now t k n p g) r r' =
    (fenced now (guard_version g) (guard_owner g) r \<and> isPlainObject p \<and> (\<exists>q. stringified p = Some q
       \<and> r' = next_version dbnow (r\<lparr>dt_current_step := int_column n,
                dt_state_payload := jsonb_concat (dt_state_payload r) q\<rparr>)))"
| "row_write (OpTransition dbnow now t k s reason p g) r r' =
    (fenced now (guard_version g) (guard_owner g) r \<and> isTaskLifecycleState s \<and> s \<noteq> AwaitingHuman
     \<and> (s = Waiting \<longrightarrow> complete_payload p) \<and> (p = JUndef \<or> isPlainObject p)
     \<and> r' = transition_row dbnow s (stringified p) r)"
| "row_write (OpFail dbnow now input) r r' =
    (fenced now (fi_expected_task_version input) (fi_lease_owner input) r
     \<and> fi_error_class input \<in> {''RETRYABLE'', ''FATAL''}
     \<and> (\<exists>d. stringified (fi_error_details input) = Some d \<and> r' = (if fi_error_class input = ''RETRYABLE'' \<and> dt_retry_count r < dt_max_retries r
               then requeued_row dbnow (fi_error_class input) d r
               else terminal_row dbnow (fi_error_class input) d r)))"
| "row_write (OpRequeue dbnow t k reason v) r r' =
    (dt_state r = Failed \<and> (\<forall>n. v = Some n \<longrightarrow> versioned n r)
     \<and> r' = next_version dbnow (without_lease (r\<lparr>dt_state := Queued, dt_last_error_class := None,
              dt_error_details := JNull\<rparr>)))"
| "row_write (OpReconcile dbnow input) r r' = 
    (dt_state r = Waiting \<and> event_queued dbnow (reconciliation_event input) r r')"
| "row_write (OpEvidence dbnow input) r r' = 
    (dt_state r = AwaitingHuman \<and> event_queued dbnow (handoff_evidence_event input) r r')"
| "row_write (OpClear dbnow now t k v w ev) r r' =
    (dt_state r = AwaitingHuman \<and> held now w r \<and> versioned v r
     \<and> (\<exists>p. stringified (JObj (AList.delete ''resume_event'' (plain_members (dt_state_payload r)))) = Some p
          \<and> r' = next_version dbnow (without_lease (r\<lparr>dt_state_payload := p\<rparr>))))"
| "row_write (OpCreate _ _ _) r r' = False"
| "row_write (OpAdmit _ _ _) r r' = False"

text \<open>The input an insertion runs on.\<close>

fun creation :: "task_op \<Rightarrow> (string \<times> int \<times> create_task_input) option" where
  "creation (OpCreate i dbnow input) = Some (i, dbnow, input)"
| "creation (OpAdmit i dbnow input) = Some (i, dbnow, input\<lparr>ct_state := Some Queued, ct_current_step := Some (Fin 0)\<rparr>)"
| "creation _ = None"

definition fresh_row :: "task_op \<Rightarrow> durable_task \<Rightarrow> bool" where
  "fresh_row x r \<longleftrightarrow> (\<exists>i dbnow input p. creation x = Some (i, dbnow, input) \<and> checked_payload input = Inr p
     \<and> r = opening_row i dbnow input p)"

subsection \<open>The refinement\<close>

lemma find_narrowed:
  "find P xs = Some x \<Longrightarrow> Q x \<Longrightarrow> find (\<lambda>y. P y \<and> Q y) xs = Some x"
  by (induction xs) (auto split: if_splits)

text \<open>What a table becomes, with the operation that did it.\<close>

definition task_effect :: "task_op \<Rightarrow> task_table \<Rightarrow> task_table \<Rightarrow> bool" where
  "task_effect x T T' \<longleftrightarrow> T' = T
     \<or> (\<exists>r. fresh_row x r \<and> \<not> list_ex (task_at (task_op_tenant x) (dt_run_id r)) T \<and> T' = T @ [r])
     \<or> (\<exists>k P f r. (\<forall>s. P s \<longrightarrow> task_at (task_op_tenant x) k s) \<and> (\<forall>k'. task_op_run x = Some k' \<longrightarrow> k' = k)
          \<and> find P T = Some r \<and> row_write x r (f r) \<and> T' = update_first P f T)"

lemma task_effect_same [simp, intro]: "task_effect x T T"
  by (simp add: task_effect_def)

lemma task_effect_update:
  assumes "\<And>s. P s \<Longrightarrow> task_at (task_op_tenant x) k s" and "\<And>k'. task_op_run x = Some k' \<Longrightarrow> k' = k"
    and "find P T = Some r" "row_write x r (f r)"
  shows "task_effect x T (update_first P f T)"
  unfolding task_effect_def
  by (intro disjI2, rule exI [of _ k], rule exI [of _ P], rule exI [of _ f], rule exI [of _ r])
     (use assms in simp)

text \<open>What no write changes, and what every write does.\<close>

definition task_identity :: "durable_task \<Rightarrow> string \<times> string \<times> string \<times> string \<times> int \<times> int" where
  "task_identity r = (dt_task_id r, dt_tenant_id r, dt_run_id r, dt_correlation_id r, dt_max_retries r, dt_created_at r)"

lemmas row_defs = next_version_def without_lease_def claimed_def transition_row_def moved_to_def requeued_row_def
  terminal_row_def event_row_def Let_def

lemma row_write_version: "row_write x r r' \<Longrightarrow> dt_task_version r' = dt_task_version r + 1"
  by (cases x) (auto simp: row_defs event_queued_def split: if_splits)

lemma row_write_identity: "row_write x r r' \<Longrightarrow> task_identity r' = task_identity r"
  by (cases x) (auto simp: row_defs event_queued_def task_identity_def split: if_splits)

lemma row_write_key: "row_write x r r' \<Longrightarrow> task_at t k r' = task_at t k r"
  using row_write_identity [of x r r'] by (simp add: task_identity_def task_at_def)

lemma find_update_found:
  "find P xs = Some r0 \<Longrightarrow> (\<And>s. P s \<Longrightarrow> Q s) \<Longrightarrow> Q (f r0) \<Longrightarrow>
   find Q (update_first P f xs) = (case find Q xs of None \<Rightarrow> None | Some r \<Rightarrow> Some (if P r then f r0 else r))"
  by (induction xs) auto

lemma find_update_elsewhere:
  "find P xs = Some r0 \<Longrightarrow> (\<And>s. P s \<Longrightarrow> \<not> Q s) \<Longrightarrow> \<not> Q (f r0) \<Longrightarrow> find Q (update_first P f xs) = find Q xs"
  by (induction xs) (auto split: if_splits)

lemma find_both: "find P xs = Some r0 \<Longrightarrow> find Q xs = Some r \<Longrightarrow> (\<And>s. P s \<Longrightarrow> Q s) \<Longrightarrow> P r \<Longrightarrow> r = r0"
  by (induction xs) (auto split: if_splits)

text \<open>An answer that is a row is the row as it was written.\<close>

definition task_done :: "task_op \<Rightarrow> string \<Rightarrow> string \<Rightarrow> task_table \<Rightarrow> durable_task result \<times> task_table \<Rightarrow> bool" where
  "task_done x t k T p \<longleftrightarrow> task_effect x T (snd p)
     \<and> (\<forall>r'. fst p = Inr r' \<longrightarrow> (\<exists>r. lockDurableTask t k T = Some r \<and> row_write x r r'
          \<and> lockDurableTask t k (snd p) = Some r'))"

text \<open>The write of a row that was locked and found at the version the statement restates.\<close>

lemma locked_write_effect:
  assumes "lockDurableTask t k T = Some r" and "wher r" and "row_write x r (f r)"
    and "task_op_tenant x = t" "task_op_run x = Some k"
  shows "task_effect x T (snd (write_task t k wher f T))"
    and "fst (write_task t k wher f T) = Inr (f r)"
proof -
  have f: "find (\<lambda>s. task_at t k s \<and> wher s) T = Some r"
    using find_narrowed [of "task_at t k" T r wher] assms(1,2) by (simp add: lockDurableTask_def)
  show "fst (write_task t k wher f T) = Inr (f r)" by (simp add: write_task_def f)
  have s: "snd (write_task t k wher f T) = update_first (\<lambda>s. task_at t k s \<and> wher s) f T"
    by (simp add: write_task_def f)
  show "task_effect x T (snd (write_task t k wher f T))"
    unfolding s by (rule task_effect_update [where k = k and r = r]) (use f assms(3-5) in simp_all)
qed

lemma locked_write_done:
  assumes "lockDurableTask t k T = Some r" and "wher r" and "row_write x r (f r)"
    and "task_op_tenant x = t" "task_op_run x = Some k"
  shows "task_done x t k T (write_task t k wher f T)"
proof -
  have f: "find (\<lambda>s. task_at t k s \<and> wher s) T = Some r"
    using find_narrowed [of "task_at t k" T r wher] assms(1,2) by (simp add: lockDurableTask_def)
  have "task_at t k r" using find_Some_set [OF assms(1) [unfolded lockDurableTask_def]] by simp
  then have "task_at t k (f r)" using row_write_key [OF assms(3)] by simp
  then have "lockDurableTask t k (snd (write_task t k wher f T)) = Some (f r)"
    using find_update_found [where P = "\<lambda>s. task_at t k s \<and> wher s" and Q = "task_at t k" and f = f, OF f]
      assms(1,2) f \<open>task_at t k r\<close>
    by (simp add: write_task_def lockDurableTask_def)
  then show ?thesis
    using locked_write_effect [where wher = wher and f = f, OF assms] assms(1,3) by (auto simp: task_done_def)
qed

lemma task_done_refused [simp]: "task_done x t k T (Inl e, T)" "task_done x t k T (thrown c, T)"
  by (simp_all add: task_done_def thrown_def)

lemma in_tenant_done: "task_done x t k T work \<Longrightarrow> task_done x t k T (in_tenant t' work T)"
  by (simp add: in_tenant_def split: sum.split)

lemma locked_lease_facts:
  "locked_lease now t k w v T = Inr r \<Longrightarrow> lockDurableTask t k T = Some r \<and> held now w r \<and> versioned v r"
  by (auto simp: locked_lease_def held_def versioned_def thrown_def andThen_Inr_iff split: option.splits if_splits)

lemma held_owned: "held now w r \<Longrightarrow> owned_by w r"
  using assertLeaseHeld_owner [of now r w] by (auto simp: held_def owned_by_def succeeds_iff)

lemma writable_facts:
  "writable now t k code v w T = Inr r \<Longrightarrow> lockDurableTask t k T = Some r \<and> fenced now v w r"
  by (auto simp: writable_def assertOpen_def fenced_def held_def versioned_def andThen_Inr_iff thrown_def
      split: option.splits if_splits dest: assertGuard_stale)

lemma at_version_refl [simp]: "at_version (dt_task_version r) r"
  by (simp add: at_version_def)

text \<open>Creation.\<close>

lemma natural_column: "is_natural n \<Longrightarrow> 0 \<le> int_column n"
  by (cases n) auto

lemma opening_row_sel [simp]:
  "dt_tenant_id (opening_row i n input p) = uuid_text (ct_tenant_id input)"
  "dt_run_id (opening_row i n input p) = ct_run_id input"
  "dt_task_version (opening_row i n input p) = 1"
  "dt_lease_owner (opening_row i n input p) = None"
  "dt_lease_expires_at (opening_row i n input p) = None"
  "dt_retry_count (opening_row i n input p) = 0"
  "dt_max_retries (opening_row i n input p) = int_column (or_default (ct_max_retries input) (Fin 3))"
  "dt_state (opening_row i n input p) = or_default (ct_state input) Queued"
  "dt_state_payload (opening_row i n input p) = p"
  by (simp_all add: opening_row_def)

lemma checked_payload_facts:
  assumes "checked_payload input = Inr p"
  shows "isTaskLifecycleState (or_default (ct_state input) Queued)"
    and "0 \<le> int_column (or_default (ct_max_retries input) (Fin 3))"
    and "or_default (ct_state input) Queued \<in> set PARKED_STATES \<Longrightarrow> complete_payload p"
proof -
  show "isTaskLifecycleState (or_default (ct_state input) Queued)"
    using assms by (auto simp: checked_payload_def Let_def andThen_Inr_iff assertTaskState_def known_state
        split: if_splits)
  have r: "assert_retries_and_park input = Inr ()"
    using assms by (auto simp: checked_payload_def Let_def andThen_Inr_iff)
  then show "0 \<le> int_column (or_default (ct_max_retries input) (Fin 3))"
    by (auto simp: assert_retries_and_park_def thrown_def natural_column split: if_splits)
  assume park: "or_default (ct_state input) Queued \<in> set PARKED_STATES"
  have c: "complete_payload (ct_state_payload input)"
    using r park by (auto simp: assert_retries_and_park_def thrown_def complete_iff split: if_splits)
  then obtain o1 where o: "ct_state_payload input = JObj o1" using complete_object by blast
  have "serializeJsonb (JObj o1) ''TASK_PAYLOAD_UNSERIALIZABLE'' = Inr p"
    using assms o by (auto simp: checked_payload_def Let_def andThen_Inr_iff)
  then show "complete_payload p" using complete_stored [OF c] o by (simp add: serializeJsonb_def)
qed

lemma fresh_row_facts:
  assumes "fresh_row x r"
  shows "task_at (task_op_tenant x) (dt_run_id r) r" "task_op_run x = Some (dt_run_id r)"
    and "dt_task_version r = 1" "dt_lease_owner r = None" "dt_lease_expires_at r = None" "dt_retry_count r = 0"
    and "0 \<le> dt_max_retries r" "isTaskLifecycleState (dt_state r)"
    and "dt_state r \<in> set PARKED_STATES \<Longrightarrow> complete_payload (dt_state_payload r)"
proof -
  from assms obtain i dbnow input p where r: "creation x = Some (i, dbnow, input)" "checked_payload input = Inr p"
    "r = opening_row i dbnow input p"
    by (auto simp: fresh_row_def)
  have "uuid_text (task_op_tenant x) = uuid_text (ct_tenant_id input)" "task_op_run x = Some (ct_run_id input)"
    using r(1) by (cases x; auto)+
  then show "task_at (task_op_tenant x) (dt_run_id r) r" "task_op_run x = Some (dt_run_id r)"
    using r(3) by (simp_all add: task_at_def)
  show "dt_task_version r = 1" "dt_lease_owner r = None" "dt_lease_expires_at r = None" "dt_retry_count r = 0"
    "0 \<le> dt_max_retries r" "isTaskLifecycleState (dt_state r)"
    "dt_state r \<in> set PARKED_STATES \<Longrightarrow> complete_payload (dt_state_payload r)"
    using checked_payload_facts [OF r(2)] r(3) by simp_all
qed

lemma insert_effect:
  assumes "creation x = Some (i, dbnow, input)" "task_op_tenant x = ct_tenant_id input"
  shows "task_effect x T (snd (insertDurableTask i dbnow input T))"
proof (cases "checked_payload input")
  case (Inl e)
  then show ?thesis by (simp add: insertDurableTask_def)
next
  case (Inr p)
  let ?r = "opening_row i dbnow input p"
  have "fresh_row x ?r" using Inr assms by (simp add: fresh_row_def)
  then have "\<not> list_ex (task_at (ct_tenant_id input) (ct_run_id input)) T \<Longrightarrow> task_effect x T (T @ [?r])"
    unfolding task_effect_def using assms by (metis opening_row_sel(2))
  then show ?thesis using Inr by (simp add: insertDurableTask_def)
qed

lemma snd_written [simp]: "snd (written p) = snd p"
  by (simp add: written_def split: sum.split)

lemma in_tenant_effect: "task_effect x T (snd work) \<Longrightarrow> task_effect x T (snd (in_tenant t work T))"
  by (simp add: in_tenant_def split: sum.split)

lemma create_effect: "task_effect (OpCreate i dbnow input) T (snd (durable_createTask i dbnow input T))"
  unfolding durable_createTask_def
  by (simp add: in_tenant_effect insert_effect split: sum.split)

lemma admit_effect: "task_effect (OpAdmit i dbnow input) T (snd (createQueuedAdmissionTask i dbnow input T))"
  unfolding createQueuedAdmissionTask_def
  by (simp add: in_tenant_effect insert_effect split: sum.split)

text \<open>Leases.\<close>

lemma oldest_in: "oldest rs = Some r \<Longrightarrow> r \<in> set rs"
  by (induction rs arbitrary: r) (auto split: option.splits if_splits)

lemma claim_effect:
  "task_effect (OpClaim dbnow skipped t w d) T (snd (claimNextQueuedTask dbnow skipped t w d T))"
proof (cases "andThen (assertIdentifier t 36 ''TASK_TENANT_ID_REQUIRED'') (\<lambda>_.
        andThen (assertIdentifier w 128 ''TASK_LEASE_OWNER_REQUIRED'') (\<lambda>_. lease_ttl d))")
  case (Inl e)
  then show ?thesis by (simp add: claimNextQueuedTask_def)
next
  case (Inr ttl)
  then have ttl: "lease_ttl d = Inr ttl" by (auto simp: andThen_Inr_iff)
  let ?x = "OpClaim dbnow skipped t w d"
  have "task_effect ?x T (snd (write_task t k (\<lambda>s. at_version v s \<and> claimable dbnow s) (claimed dbnow w ttl) T))" for k v
  proof (cases "find (\<lambda>s. task_at t k s \<and> at_version v s \<and> claimable dbnow s) T")
    case None
    then show ?thesis by (simp add: write_task_def)
  next
    case (Some r)
    then have "row_write ?x r (claimed dbnow w ttl r)" using find_Some_set [OF Some] ttl by auto
    then show ?thesis
      using task_effect_update [where x = ?x and k = k and T = T and r = r and f = "claimed dbnow w ttl"
          and P = "\<lambda>s. task_at t k s \<and> at_version v s \<and> claimable dbnow s"] Some
      by (simp add: write_task_def)
  qed
  then have wr: "write_task t k (\<lambda>s. at_version v s \<and> claimable dbnow s) (claimed dbnow w ttl) T = (res, T') \<Longrightarrow>
      task_effect ?x T T'" for k v res T'
    by (metis snd_conv)
  show ?thesis unfolding claimNextQueuedTask_def Inr
    by (auto intro!: in_tenant_effect intro: wr split: option.split prod.split sum.split)
qed

text \<open>
  A method checks its arguments, opens the tenant's transaction, checks the locked row and writes it.
\<close>

lemma checked_write_done:
  assumes "\<And>v r. g = Inr v \<Longrightarrow> h v = Inr r \<Longrightarrow>
      lockDurableTask t k T = Some r \<and> wher v r r \<and> row_write x r (f v r r)"
    and "task_op_tenant x = t" "task_op_run x = Some k"
  shows "task_done x t k T (case g of Inl e \<Rightarrow> (Inl e, T) | Inr v \<Rightarrow> in_tenant t
     (case h v of Inl e \<Rightarrow> (Inl e, T) | Inr r \<Rightarrow> write_task t k (wher v r) (f v r) T) T)"
proof (cases g)
  case (Inr v)
  have "task_done x t k T (case h v of Inl e \<Rightarrow> (Inl e, T) | Inr r \<Rightarrow> write_task t k (wher v r) (f v r) T)"
  proof (cases "h v")
    case (Inr r)
    from assms(1) [OF \<open>g = Inr v\<close> Inr] have l: "lockDurableTask t k T = Some r" "wher v r r" "row_write x r (f v r r)"
      by auto
    show ?thesis using locked_write_done [where wher = "wher v r" and f = "f v r" and x = x, OF l assms(2,3)]
      by (simp add: Inr)
  qed simp
  with Inr show ?thesis by (simp add: in_tenant_done)
qed simp

lemma renew_done:
  "task_done (OpRenew dbnow now t k w v d) t k T (renewTaskLease dbnow now t k w v d T)"
  unfolding renewTaskLease_def
  by (rule checked_write_done)
     (auto simp: andThen_Inr_iff held_owned dest!: locked_lease_facts)

lemma release_done:
  "task_done (OpRelease dbnow now t k w v target) t k T (releaseTaskLease dbnow now t k w v target T)"
  unfolding releaseTaskLease_def Let_def
  by (rule checked_write_done)
     (auto simp: andThen_Inr_iff held_owned thrown_def dest!: locked_lease_facts split: if_splits)

lemma progress_done:
  "task_done (OpProgress dbnow now t k n p g) t k T (durable_updateTaskProgress dbnow now t k n p g T)"
  unfolding durable_updateTaskProgress_def
  by (rule checked_write_done)
     (auto simp: andThen_Inr_iff thrown_def serializeJsonb_def dest!: writable_facts split: if_splits option.splits)

lemma transition_done:
  "task_done (OpTransition dbnow now t k s reason p g) t k T (durable_transitionTask dbnow now t k s reason p g T)"
  unfolding durable_transitionTask_def
proof (rule checked_write_done, goal_cases)
  case (1 q r)
  from 1(1) have g: "isTaskLifecycleState s" "s \<noteq> AwaitingHuman"
    "(if s \<in> set PARKED_STATES then assertCompleteCheckpoint p
      else if p \<noteq> JUndef \<and> \<not> isPlainObject p then thrown ''TASK_PROGRESS_PAYLOAD_INVALID'' else Inr ()) = Inr ()"
    "(if p = JUndef then Inr None
      else andThen (serializeJsonb p ''TASK_PAYLOAD_UNSERIALIZABLE'') (\<lambda>p. Inr (Some p))) = Inr q"
    by (auto simp: andThen_Inr_iff thrown_def assertTaskState_def known_state simp del: plain_object_iff split: if_splits)
  have q: "q = stringified p" using g(4)
    by (auto simp: andThen_Inr_iff serializeJsonb_def split: if_splits option.splits)
  have p: "s = Waiting \<longrightarrow> complete_payload p" "p = JUndef \<or> isPlainObject p"
    using g(3) complete_object by (auto simp: thrown_def PARKED_STATES_def complete_iff split: if_splits)
  have "lockDurableTask t k T = Some r \<and> fenced now (guard_version g) (guard_owner g) r"
    using 1(2) by (rule writable_facts)
  with g(1,2) p q show ?case by (auto simp del: plain_object_iff)
qed simp_all

lemma fail_done:
  shows "task_effect (OpFail dbnow now input) T (snd (durable_recordFailure dbnow now input T))"
    and "fst (durable_recordFailure dbnow now input T) = Inr (q, r') \<Longrightarrow>
      \<exists>r. lockDurableTask (fi_tenant_id input) (fi_run_id input) T = Some r \<and> row_write (OpFail dbnow now input) r r'
        \<and> lockDurableTask (fi_tenant_id input) (fi_run_id input) (snd (durable_recordFailure dbnow now input T)) = Some r'
        \<and> q = (fi_error_class input = ''RETRYABLE'' \<and> dt_retry_count r < dt_max_retries r)"
proof -
  let ?t = "fi_tenant_id input" and ?k = "fi_run_id input" and ?x = "OpFail dbnow now input"
  let ?q = "\<lambda>r. fi_error_class input = ''RETRYABLE'' \<and> dt_retry_count r < dt_max_retries r"
  let ?f = "\<lambda>details r. (if ?q r then requeued_row dbnow (fi_error_class input) details
      else terminal_row dbnow (fi_error_class input) details)"
  let ?h = "writable now ?t ?k ''TASK_NOT_PROGRESSABLE'' (fi_expected_task_version input) (fi_lease_owner input) T"
  let ?w = "\<lambda>details r. write_task ?t ?k (at_version (dt_task_version r)) (?f details r) T"
  have d: "task_done ?x ?t ?k T (?w details r)" and l: "lockDurableTask ?t ?k T = Some r"
    if "?h = Inr r" and c: "checked_details input = Inr details" for details r
  proof -
    have c': "stringified (fi_error_details input) = Some details" "fi_error_class input \<in> {''RETRYABLE'', ''FATAL''}"
      using c by (auto simp: checked_details_def andThen_Inr_iff thrown_def serializeJsonb_def
          split: if_splits option.splits)
    from writable_facts [OF that(1)] show l: "lockDurableTask ?t ?k T = Some r" by simp
    show "task_done ?x ?t ?k T (?w details r)"
      by (rule locked_write_done [OF l]) (use writable_facts [OF that(1)] c' in auto)
  qed
  define answer where "answer = (\<lambda>q (w :: durable_task result \<times> task_table).
    (case w of (Inl e, t) \<Rightarrow> (Inl e, t) | (Inr r, t) \<Rightarrow> (Inr (q :: bool, r), t)))"
  have s: "snd (answer q w) = snd w" and a: "fst (answer q w) = Inr (q', r') \<longleftrightarrow> fst w = Inr r' \<and> q' = q" for w q q'
    unfolding answer_def by (auto split: prod.split sum.split)
  consider (refusal) e where "durable_recordFailure dbnow now input T = (Inl e, T)"
    | (wrote) details opened where "checked_details input = Inr details" "?h = Inr opened"
        "durable_recordFailure dbnow now input T = answer (?q opened) (?w details opened)"
    unfolding durable_recordFailure_def Let_def in_tenant_def answer_def
    by (cases "checked_details input"; cases "assertTenantContext ?t"; cases ?h) simp_all
  note parts = this
  show "task_effect ?x T (snd (durable_recordFailure dbnow now input T))"
  proof (cases rule: parts)
    case (wrote details opened)
    then show ?thesis using d [OF wrote(2,1)] by (simp add: s task_done_def)
  qed simp
  assume r: "fst (durable_recordFailure dbnow now input T) = Inr (q, r')"
  show "\<exists>r. lockDurableTask ?t ?k T = Some r \<and> row_write ?x r r'
      \<and> lockDurableTask ?t ?k (snd (durable_recordFailure dbnow now input T)) = Some r' \<and> q = ?q r"
  proof (cases rule: parts)
    case refusal
    with r show ?thesis by simp
  next
    case (wrote details opened)
    with r have w: "fst (?w details opened) = Inr r'" "q = ?q opened"
      "snd (durable_recordFailure dbnow now input T) = snd (?w details opened)" by (simp_all add: s a)
    then show ?thesis using d [OF wrote(2,1), unfolded task_done_def] l [OF wrote(2,1)] by (metis option.inject)
  qed
qed

lemma requeue_done: "task_done (OpRequeue dbnow t k reason v) t k T (requeueFailed dbnow t k reason v T)"
proof -
  let ?f = "\<lambda>r. next_version dbnow (without_lease (r\<lparr>dt_state := Queued, dt_last_error_class := None,
                 dt_error_details := JNull\<rparr>))"
  have "task_done (OpRequeue dbnow t k reason v) t k T (write_task t k (at_version base) ?f T)"
    if b: "andThen (assertRequeueable (lockDurableTask t k T)) (\<lambda>failed. assertGuard failed v) = Inr base" for base
  proof -
    from b obtain r where r: "lockDurableTask t k T = Some r" "dt_state r = Failed" "assertGuard r v = Inr base"
      by (auto simp: andThen_Inr_iff assertRequeueable_def thrown_def split: option.splits if_splits)
    then have base: "base = dt_task_version r" "\<forall>n. v = Some n \<longrightarrow> versioned n r"
      by (auto dest: assertGuard_version assertGuard_stale simp: versioned_def)
    show ?thesis unfolding base(1)
      by (rule locked_write_done [OF r(1)]) (use r base in auto)
  qed
  then show ?thesis unfolding requeueFailed_def by (auto intro!: in_tenant_done split: sum.split)
qed

text \<open>Events.\<close>

lemma queue_event_effect:
  assumes "lockDurableTask t k T = Some r" and "\<And>f. event_queued dbnow ev r (f r) \<Longrightarrow> row_write x r (f r)"
    and "task_op_tenant x = t" "task_op_run x = Some k"
  shows "task_effect x T (snd (queue_event rt dbnow t k ev text code r T))"
proof -
  have "task_effect x T (snd (write_task t k (at_version (dt_task_version r)) (event_row dbnow (dt_state r) p) T))"
    if "complete_payload (dt_state_payload r)" "member (plain_members (dt_state_payload r)) ''resume_event'' = JUndef"
      "stringified (JObj (spread (plain_members (dt_state_payload r)) [(''resume_event'', ev)])) = Some p" for p
  proof (rule locked_write_effect(1) [OF assms(1)])
    have "event_queued dbnow ev r (event_row dbnow (dt_state r) p r)"
      unfolding event_queued_def using that by blast
    then show "row_write x r (event_row dbnow (dt_state r) p r)" by (rule assms(2))
  qed (use assms in simp_all)
  then show ?thesis
    by (simp add: queue_event_def Let_def complete_iff serializeJsonb_def split: sum.split option.split)
qed

lemma reconcile_effect: "task_effect (OpReconcile dbnow input) T (snd (queueReconciliation rt dbnow input T))"
  unfolding queueReconciliation_def
  by (auto intro!: in_tenant_effect queue_event_effect split: sum.split option.split)

lemma evidence_effect:
  "task_effect (OpEvidence dbnow input) T (snd (durable_queueHandoffEvidence rt dbnow input T))"
  unfolding durable_queueHandoffEvidence_def
  by (auto intro!: in_tenant_effect queue_event_effect split: sum.split option.split)

lemma int_column_version: "versioned v r \<Longrightarrow> at_version (int_column v) r"
  by (simp add: versioned_def at_version_def)

lemma clear_done:
  "task_done (OpClear dbnow now t k v w ev) t k T (durable_clearHandoffEvidence rt dbnow now t k v w ev T)"
proof -
  have "task_done (OpClear dbnow now t k v w ev) t k T (write_task t k
      (\<lambda>r. dt_state r = AwaitingHuman \<and> at_version (int_column v) r \<and> owned_by w r)
      (\<lambda>r. next_version dbnow (without_lease (r\<lparr>dt_state_payload := p\<rparr>))) T)"
    if "lockDurableTask t k T = Some r" "dt_state r = AwaitingHuman" "assertLeaseHeld now r (Some w) = Inr u"
      "versioned v r" "stringified (JObj (AList.delete ''resume_event'' (plain_members (dt_state_payload r)))) = Some p"
    for r p u
    by (rule locked_write_done [OF that(1)])
       (use that held_owned [of now w r] int_column_version [OF that(4)] in \<open>auto simp: held_def\<close>)
  then show ?thesis unfolding durable_clearHandoffEvidence_def Let_def
    by (auto simp: versioned_def serializeJsonb_def intro!: in_tenant_done split: sum.split option.split)
qed

lemma task_done_effect: "task_done x t k T p \<Longrightarrow> task_effect x T (snd p)"
  by (simp add: task_done_def)

lemmas task_op_done = renew_done release_done progress_done transition_done requeue_done clear_done

theorem task_exec_effect: "task_effect x T (snd (task_exec rt x T))"
proof (cases x)
  case (OpClaim dbnow skipped t w d)
  then show ?thesis using claim_effect [of dbnow skipped t w d T]
    by (auto split: prod.splits sum.splits option.splits)
next
  case (OpFail dbnow now input)
  then show ?thesis using fail_done(1) [of dbnow now input T]
    by (auto split: prod.splits sum.splits)
qed (simp_all add: create_effect admit_effect task_op_done [THEN task_done_effect] reconcile_effect evidence_effect)

subsection \<open>What becomes of one row\<close>

definition same_tenant :: "string \<Rightarrow> string \<Rightarrow> bool" where
  "same_tenant t u \<longleftrightarrow> uuid_text t = uuid_text u"

definition concerns :: "task_op \<Rightarrow> string \<Rightarrow> string \<Rightarrow> bool" where
  "concerns x t k \<longleftrightarrow> same_tenant (task_op_tenant x) t \<and> (\<forall>k'. task_op_run x = Some k' \<longrightarrow> k' = k)"

lemma lock_same_tenant: "same_tenant t u \<Longrightarrow> lockDurableTask t k T = lockDurableTask u k T"
  by (simp add: same_tenant_def lockDurableTask_def task_at_def [abs_def])

lemma locked_key: "lockDurableTask t k T = Some r \<Longrightarrow> r \<in> set T \<and> task_at t k r"
  unfolding lockDurableTask_def by (rule find_Some_set)

lemma task_exec_row:
  assumes "lockDurableTask t k T = Some r"
  shows "\<exists>r'. lockDurableTask t k (snd (task_exec rt x T)) = Some r'
    \<and> (r' = r \<or> (row_write x r r' \<and> concerns x t k))"
proof -
  note f = assms [unfolded lockDurableTask_def]
  from task_exec_effect [of x T rt] consider
      (same) "snd (task_exec rt x T) = T"
    | (new) n where "snd (task_exec rt x T) = T @ [n]"
    | (upd) k' P f r0 where "\<And>s. P s \<Longrightarrow> task_at (task_op_tenant x) k' s" "\<And>k''. task_op_run x = Some k'' \<Longrightarrow> k'' = k'"
        "find P T = Some r0" "row_write x r0 (f r0)" "snd (task_exec rt x T) = update_first P f T"
    unfolding task_effect_def by blast
  then show ?thesis
  proof cases
    case same
    then show ?thesis using assms by auto
  next
    case new
    then show ?thesis using f by (simp add: lockDurableTask_def find_append)
  next
    case upd
    have r0: "task_at (task_op_tenant x) k' r0" using find_Some_set [OF upd(3)] upd(1) by blast
    show ?thesis
    proof (cases "same_tenant (task_op_tenant x) t \<and> k' = k")
      case True
      then have q: "P s \<Longrightarrow> task_at t k s" for s using upd(1) by (auto simp: task_at_def same_tenant_def)
      have q': "task_at t k (f r0)" using row_write_key [OF upd(4)] q find_Some_set [OF upd(3)] by simp
      have "find (task_at t k) (update_first P f T) = Some (if P r then f r0 else r)"
        using find_update_found [where P = P and Q = "task_at t k" and f = f, OF upd(3) q q'] f by simp
      moreover have "P r \<Longrightarrow> r = r0" using find_both [OF upd(3) f q] .
      ultimately show ?thesis using upd(2,4,5) True
        by (auto simp: lockDurableTask_def concerns_def)
    next
      case False
      then have q: "P s \<Longrightarrow> \<not> task_at t k s" for s
        using upd(1) by (auto simp: task_at_def same_tenant_def)
      then have "\<not> task_at t k (f r0)" using row_write_key [OF upd(4)] find_Some_set [OF upd(3)] by simp
      then have "find (task_at t k) (update_first P f T) = Some r"
        using find_update_elsewhere [where P = P and Q = "task_at t k" and f = f, OF upd(3) q] f by simp
      then show ?thesis using upd(5) by (simp add: lockDurableTask_def)
    qed
  qed
qed

lemma task_exec_new:
  assumes "lockDurableTask t k T = None"
    and "lockDurableTask t k (snd (task_exec rt x T)) = Some r'"
  shows "fresh_row x r'"
proof -
  note f = assms(1) [unfolded lockDurableTask_def]
  from task_exec_effect [of x T rt] consider
      (same) "snd (task_exec rt x T) = T"
    | (new) n where "snd (task_exec rt x T) = T @ [n]" "fresh_row x n"
    | (upd) k' P f r0 where "\<And>s. P s \<Longrightarrow> task_at (task_op_tenant x) k' s"
        "find P T = Some r0" "row_write x r0 (f r0)" "snd (task_exec rt x T) = update_first P f T"
    unfolding task_effect_def by blast
  then show ?thesis
  proof cases
    case same
    then show ?thesis using assms by simp
  next
    case new
    then show ?thesis using f assms(2) by (auto simp: lockDurableTask_def find_append split: if_splits)
  next
    case upd
    have n: "\<not> task_at t k s" if "s \<in> set T" for s using f that by (simp add: find_None_set)
    then have "\<not> task_at t k r0" using find_Some_set [OF upd(2)] by blast
    then have "\<not> task_at t k (f r0)" using row_write_key [OF upd(3)] by simp
    then have "find (task_at t k) (update_first P f T) = None"
      using n upd(2) by (induction T) (auto simp: find_None_set split: if_splits)
    then show ?thesis using assms(2) upd(4) by (simp add: lockDurableTask_def)
  qed
qed

text \<open>A guarded write that is answered was made on the guarded row.\<close>

fun op_version :: "task_op \<Rightarrow> jnum option" where
  "op_version (OpRenew _ _ _ _ _ v _) = Some v"
| "op_version (OpRelease _ _ _ _ _ v _) = Some v"
| "op_version (OpProgress _ _ _ _ _ _ g) = guard_version g"
| "op_version (OpTransition _ _ _ _ _ _ _ g) = guard_version g"
| "op_version (OpFail _ _ input) = fi_expected_task_version input"
| "op_version (OpRequeue _ _ _ _ v) = v"
| "op_version (OpClear _ _ _ _ v _ _) = Some v"
| "op_version _ = None"

fun op_fence :: "task_op \<Rightarrow> string option" where
  "op_fence (OpRenew _ _ _ _ w _ _) = Some w"
| "op_fence (OpRelease _ _ _ _ w _ _) = Some w"
| "op_fence (OpProgress _ _ _ _ _ _ g) = guard_owner g"
| "op_fence (OpTransition _ _ _ _ _ _ _ g) = guard_owner g"
| "op_fence (OpFail _ _ input) = fi_lease_owner input"
| "op_fence (OpClear _ _ _ _ _ w _) = Some w"
| "op_fence _ = None"

definition refused :: "task_reply \<Rightarrow> bool" where
  "refused a \<longleftrightarrow> (\<exists>e. a = TaskDenied e)"

lemma written_reply: "\<not> refused (fst (written p)) \<Longrightarrow> \<exists>r. fst p = Inr r"
  by (auto simp: written_def refused_def split: sum.splits)

lemma done_reply:
  "task_done x t k T p \<Longrightarrow> \<not> refused (fst (written p)) \<Longrightarrow>
   \<exists>r r'. lockDurableTask t k T = Some r \<and> row_write x r r' \<and> lockDurableTask t k (snd p) = Some r'"
  using written_reply [of p] by (auto simp: task_done_def)

lemma guarded_write:
  assumes "op_version x = Some n \<or> op_fence x = Some w" and "task_op_run x = Some k"
    and "\<not> refused (fst (task_exec rt x T))"
  shows "\<exists>r r'. lockDurableTask (task_op_tenant x) k T = Some r \<and> row_write x r r'
    \<and> lockDurableTask (task_op_tenant x) k (snd (task_exec rt x T)) = Some r'"
proof (cases x)
  case (OpFail dbnow now input)
  from assms(3) obtain q r' where "fst (durable_recordFailure dbnow now input T) = Inr (q, r')"
    by (cases "durable_recordFailure dbnow now input T") (auto simp: OpFail refused_def split: sum.splits)
  from fail_done(2) [OF this] show ?thesis using assms(2)
    by (cases "durable_recordFailure dbnow now input T") (auto simp: OpFail split: sum.splits)
next
  case (OpRequeue dbnow t k' reason v)
  then show ?thesis using assms done_reply [OF requeue_done [of dbnow t k' reason v T]] by simp
qed (use assms task_op_done [THEN done_reply] in \<open>simp_all\<close>)

end
