(* ===== verification/TaskProperties.thy ===== *)
theory TaskProperties
  imports TaskSteps
begin

text \<open>
  What the durable task repository guarantees over whole sequences of its operations: rows are never
  lost or revived, a version is spent once, a superseded worker writes nothing, the retry budget
  bounds the automatic retries. Each rests on \<open>row_write\<close>, the relation of TaskSteps.
\<close>

subsection \<open>The history of a row\<close>

definition task_moved :: "durable_task \<Rightarrow> durable_task \<Rightarrow> bool" where
  "task_moved r r' \<longleftrightarrow> task_identity r' = task_identity r \<and> dt_task_version r \<le> dt_task_version r'
     \<and> (dt_task_version r' = dt_task_version r \<longrightarrow> r' = r) \<and> dt_retry_count r \<le> dt_retry_count r'
     \<and> (dt_retry_count r \<le> dt_max_retries r \<longrightarrow> dt_retry_count r' \<le> dt_max_retries r')
     \<and> (dt_state r \<in> {Completed, Stopped} \<longrightarrow> r' = r)"

lemma row_write_open: "row_write x r r' \<Longrightarrow> dt_state r \<notin> {Completed, Stopped}"
  by (cases x) (auto simp: claimable_def held_def fenced_def OPEN_STATES_def assertLeaseHeld_def event_queued_def
      split: if_splits option.splits)

lemma row_write_retries:
  "row_write x r r' \<Longrightarrow> dt_retry_count r \<le> dt_retry_count r'
     \<and> (dt_retry_count r \<le> dt_max_retries r \<longrightarrow> dt_retry_count r' \<le> dt_max_retries r')"
proof (cases x)
  case (OpFail dbnow now input)
  assume "row_write x r r'"
  then show ?thesis
    by (cases "fi_error_class input = ''RETRYABLE'' \<and> dt_retry_count r < dt_max_retries r")
       (auto simp: OpFail requeued_row_def terminal_row_def next_version_def without_lease_def)
qed (auto simp: row_defs event_queued_def split: if_splits)

lemma row_write_moved: "row_write x r r' \<Longrightarrow> task_moved r r'"
  using row_write_open [of x r r'] row_write_retries [of x r r'] row_write_version [of x r r']
    row_write_identity [of x r r']
  by (simp add: task_moved_def)

lemma task_moved_refl [simp]: "task_moved r r"
  by (simp add: task_moved_def)

lemma task_moved_trans: "task_moved r s \<Longrightarrow> task_moved s u \<Longrightarrow> task_moved r u"
  by (auto simp: task_moved_def task_identity_def)

interpretation task_rows: tracked_rows "task_exec rt" "\<lambda>(t, k). lockDurableTask t k" task_moved for rt
proof
  fix k :: "string \<times> string" and s v x
  assume "(case k of (t, k) \<Rightarrow> lockDurableTask t k) s = Some v"
  then show "\<exists>w. (case k of (t, k) \<Rightarrow> lockDurableTask t k) (snd (task_exec rt x s)) = Some w \<and> task_moved v w"
    using task_exec_row [of "fst k" "snd k" s v rt x] by (auto simp: case_prod_beta intro: row_write_moved)
qed (auto intro: task_moved_trans)

text \<open>
  C5: whatever is asked of the repository, in whatever order and by whomever, a run's row is never lost and
  keeps its identity and its retry limit; its version never decreases and moves with every change;
  the retries it counts stay within the limit; and a completed or stopped run is never touched again.
\<close>

theorem durable_run_is_never_lost_or_revived:
  assumes "lockDurableTask t k T = Some r"
  shows "\<exists>r'. lockDurableTask t k (snd (run_ops (task_exec rt) xs T)) = Some r'
    \<and> task_identity r' = task_identity r \<and> dt_task_version r \<le> dt_task_version r'
    \<and> (dt_task_version r' = dt_task_version r \<longrightarrow> r' = r)
    \<and> (dt_retry_count r \<le> dt_max_retries r \<longrightarrow> dt_retry_count r' \<le> dt_max_retries r')
    \<and> (dt_state r \<in> {Completed, Stopped} \<longrightarrow> r' = r)"
  using task_rows.obs_run [of "(t, k)" T r rt xs] assms by (auto simp: task_moved_def)

subsection \<open>A version is spent once\<close>

text \<open>The guarded writes of one run at one version.\<close>

definition writes_at :: "string \<times> string \<times> int \<Rightarrow> task_op \<times> task_reply \<Rightarrow> bool" where
  "writes_at key p = (case key of (t, k, v) \<Rightarrow> same_tenant (task_op_tenant (fst p)) t
     \<and> task_op_run (fst p) = Some k \<and> op_version (fst p) = Some (Fin (of_int v)) \<and> \<not> refused (snd p))"

definition version_passed :: "string \<times> string \<times> int \<Rightarrow> task_table \<Rightarrow> bool" where
  "version_passed key T = (case key of (t, k, v) \<Rightarrow>
     \<exists>r. lockDurableTask t k T = Some r \<and> v < dt_task_version r)"

lemma row_write_versioned: "row_write x r r' \<Longrightarrow> op_version x = Some n \<Longrightarrow> versioned n r"
  by (cases x) (auto simp: fenced_def guard_version_def)

interpretation task_versions: single_use "task_exec rt" writes_at version_passed for rt
proof
  fix key :: "string \<times> string \<times> int" and x T
  obtain t k v where key: "key = (t, k, v)" by (cases key)
  have grant: "version_passed key (snd (task_exec rt x T)) \<and> \<not> version_passed key T"
    if g: "writes_at key (x, fst (task_exec rt x T))"
  proof -
    from g have w: "same_tenant (task_op_tenant x) t" "op_version x = Some (Fin (of_int v))" "task_op_run x = Some k"
      by (auto simp: writes_at_def key)
    then have l: "lockDurableTask (task_op_tenant x) k T' = lockDurableTask t k T'" for T'
      by (simp add: lock_same_tenant)
    from guarded_write [of x "Fin (of_int v)" "[]" k rt T] w g l obtain r r' where
      r: "lockDurableTask t k T = Some r" "row_write x r r'" "lockDurableTask t k (snd (task_exec rt x T)) = Some r'"
      by (auto simp: writes_at_def key)
    then have "dt_task_version r = v" using row_write_versioned [OF r(2) w(2)] by (simp add: versioned_def)
    with r row_write_version [OF r(2)] show ?thesis by (auto simp: version_passed_def key)
  qed
  show "writes_at key (x, fst (task_exec rt x T)) \<Longrightarrow> version_passed key (snd (task_exec rt x T))"
    using grant by blast
  assume p: "version_passed key T"
  then show "\<not> writes_at key (x, fst (task_exec rt x T))" using grant by blast
  from p obtain r where "lockDurableTask t k T = Some r" "v < dt_task_version r"
    by (auto simp: version_passed_def key)
  with task_exec_row [of t k T r rt x] row_write_version [of x r]
  show "version_passed key (snd (task_exec rt x T))" by (fastforce simp: version_passed_def key)
qed

text \<open>
  C9: of all the writes that name one version of a run - the progress, transitions, failures, requeues,
  renewals and releases of any number of callers, in any order - at most one is ever made.
\<close>

theorem version_admits_one_guarded_write:
  "length (filter (writes_at (t, k, v)) (fst (run_ops (task_exec rt) xs T))) \<le> 1"
  by (rule task_versions.granted_once)

subsection \<open>Fencing\<close>

lemma run_ops_at:
  "(x, a) \<in> set (fst (run_ops exec xs s)) \<Longrightarrow>
   \<exists>ys zs. xs = ys @ x # zs \<and> a = fst (exec x (snd (run_ops exec ys s)))"
proof (induction xs arbitrary: s)
  case Nil
  then show ?case by simp
next
  case (Cons y xs)
  show ?case
  proof (cases "(x, a) = (y, fst (exec y s))")
    case True
    then show ?thesis by (auto intro: exI [of _ "[]"])
  next
    case False
    then have "(x, a) \<in> set (fst (run_ops exec xs (snd (exec y s))))" using Cons.prems by auto
    from Cons.IH [OF this] obtain ys zs where "xs = ys @ x # zs" "a = fst (exec x (snd (run_ops exec ys (snd (exec y s)))))"
      by blast
    then show ?thesis by (intro exI [of _ "y # ys"] exI [of _ zs]) simp
  qed
qed

fun claims_for :: "string \<Rightarrow> string \<Rightarrow> task_op \<Rightarrow> bool" where
  "claims_for t w (OpClaim _ _ t' w' _) = (same_tenant t' t \<and> w' = w)"
| "claims_for t w _ = False"

definition not_owner :: "string \<Rightarrow> string \<Rightarrow> string \<Rightarrow> task_table \<Rightarrow> bool" where
  "not_owner t k w T \<longleftrightarrow> (\<forall>r. lockDurableTask t k T = Some r \<longrightarrow> dt_lease_owner r \<noteq> Some w)"

lemma row_write_owner:
  "row_write x r r' \<Longrightarrow> dt_lease_owner r' = dt_lease_owner r \<or> dt_lease_owner r' = None
     \<or> (\<exists>w. dt_lease_owner r' = Some w \<and> claims_for (task_op_tenant x) w x)"
  by (cases x) (auto simp: row_defs event_queued_def same_tenant_def split: if_splits)

lemma claims_for_tenant: "claims_for t w x \<Longrightarrow> same_tenant t u \<Longrightarrow> claims_for u w x"
  by (cases x) (auto simp: same_tenant_def)

lemma not_owner_step:
  assumes "not_owner t k w T" "\<not> claims_for t w x"
  shows "not_owner t k w (snd (task_exec rt x T))"
proof (cases "lockDurableTask t k T")
  case None
  then show ?thesis using task_exec_new [OF None, of rt x] by (auto simp: not_owner_def fresh_row_facts(4))
next
  case (Some r)
  from task_exec_row [OF Some, of rt x] obtain r' where
    r': "lockDurableTask t k (snd (task_exec rt x T)) = Some r'" "r' = r \<or> row_write x r r' \<and> concerns x t k"
    by blast
  have "dt_lease_owner r' \<noteq> Some w"
    using r'(2) row_write_owner [of x r r'] assms Some claims_for_tenant [of "task_op_tenant x" w x t]
    by (auto simp: not_owner_def concerns_def)
  then show ?thesis using r'(1) by (simp add: not_owner_def)
qed

lemma not_owner_run:
  "not_owner t k w T \<Longrightarrow> \<forall>x \<in> set xs. \<not> claims_for t w x \<Longrightarrow> not_owner t k w (snd (run_ops (task_exec rt) xs T))"
  by (induction xs arbitrary: T) (auto intro: not_owner_step)

lemma row_write_fenced: "row_write x r r' \<Longrightarrow> op_fence x = Some w \<Longrightarrow> dt_lease_owner r = Some w"
  by (cases x) (auto simp: fenced_def guard_owner_def owned_by_def dest!: held_owned split: option.splits)

text \<open>
  C6: once a run's lease belongs to someone else, or to nobody, a worker that still believes it holds it
  changes nothing: every write it fences with its own identity is refused, whatever the others do in
  between and whatever its clock says, until it claims a task of the tenant again.
\<close>

theorem superseded_worker_writes_nothing:
  assumes "lockDurableTask t k T = Some r" and "dt_lease_owner r \<noteq> Some w"
    and "\<forall>x \<in> set xs. \<not> claims_for t w x"
    and "(x, a) \<in> set (fst (run_ops (task_exec rt) xs T))"
    and "op_fence x = Some w" "task_op_run x = Some k" "same_tenant (task_op_tenant x) t"
  shows "\<exists>e. a = TaskDenied e"
proof -
  from run_ops_at [OF assms(4)] obtain ys zs where s: "xs = ys @ x # zs"
    "a = fst (task_exec rt x (snd (run_ops (task_exec rt) ys T)))" by blast
  let ?T = "snd (run_ops (task_exec rt) ys T)"
  have "not_owner t k w ?T" using not_owner_run [of t k w T ys rt] assms(1-3) s(1) by (auto simp: not_owner_def)
  then have "\<not> (\<exists>r r'. lockDurableTask t k ?T = Some r \<and> row_write x r r')"
    using row_write_fenced assms(5) by (auto simp: not_owner_def)
  then have "refused a"
    using guarded_write [of x undefined w k rt ?T] assms(5-7) s(2) lock_same_tenant by metis
  then show ?thesis by (simp add: refused_def)
qed

subsection \<open>The retry budget\<close>

definition retried :: "string \<Rightarrow> string \<Rightarrow> task_op \<times> task_reply \<Rightarrow> bool" where
  "retried t k p \<longleftrightarrow> same_tenant (task_op_tenant (fst p)) t \<and> task_op_run (fst p) = Some k
     \<and> (\<exists>r. snd p = FailureRecorded True r)"

lemma retried_step:
  assumes "lockDurableTask t k T = Some r" "dt_retry_count r \<le> dt_max_retries r"
    and "lockDurableTask t k (snd (task_exec rt x T)) = Some r'"
  shows "(if retried t k (x, fst (task_exec rt x T)) then 1 else 0) + dt_retry_count r \<le> dt_retry_count r'"
proof (cases "retried t k (x, fst (task_exec rt x T))")
  case False
  from task_exec_row [OF assms(1), of rt x] assms(3) row_write_retries [of x r r'] False
  show ?thesis by auto
next
  case True
  then obtain q where a: "fst (task_exec rt x T) = FailureRecorded True q" by (auto simp: retried_def)
  then obtain dbnow now input where x: "x = OpFail dbnow now input"
    by (cases x) (auto simp: written_def split: sum.splits prod.splits option.splits)
  have f: "fst (durable_recordFailure dbnow now input T) = Inr (True, q)"
    using a x by (auto split: prod.splits sum.splits)
  have s: "snd (task_exec rt x T) = snd (durable_recordFailure dbnow now input T)"
    using x by (auto split: prod.splits sum.splits)
  from True x have k: "same_tenant (fi_tenant_id input) t" "fi_run_id input = k" by (auto simp: retried_def)
  from fail_done(2) [OF f] k obtain r0 where "lockDurableTask t k T = Some r0" "row_write x r0 q"
    "lockDurableTask t k (snd (task_exec rt x T)) = Some q"
    "fi_error_class input = ''RETRYABLE'' \<and> dt_retry_count r0 < dt_max_retries r0"
    using x s lock_same_tenant [OF k(1)] by metis
  then have "dt_retry_count q = dt_retry_count r + 1" "r' = q"
    using assms(1,3) x by (auto simp: row_defs)
  then show ?thesis using True by simp
qed

text \<open>
  C30: a run is requeued by recordFailure at most as often as its retry limit allows, over its whole life
  and whatever happens in between, operators' requeues included.
\<close>

theorem automatic_retries_are_bounded:
  assumes "lockDurableTask t k T = Some r" and "dt_retry_count r \<le> dt_max_retries r"
  shows "int (length (filter (retried t k) (fst (run_ops (task_exec rt) xs T)))) \<le> dt_max_retries r - dt_retry_count r"
  using assms
proof (induction xs arbitrary: T r)
  case Nil
  then show ?case by simp
next
  case (Cons x xs)
  from task_rows.obs_step [of "(t, k)" T r rt x] Cons.prems(1) obtain r' where
    r': "lockDurableTask t k (snd (task_exec rt x T)) = Some r'" "task_moved r r'" by auto
  have "dt_retry_count r' \<le> dt_max_retries r'" "dt_max_retries r' = dt_max_retries r"
    using r'(2) Cons.prems(2) by (auto simp: task_moved_def task_identity_def)
  with Cons.IH [OF r'(1)] retried_step [OF Cons.prems r'(1)] show ?case by (auto split: if_splits)
qed

end
