(* ===== verification/TaskPages.thy ===== *)
theory TaskPages
  imports TaskSteps
begin

text \<open>
  The page of runs: following the cursors lists every run in scope once, newest first, as long as rows
  are created on whole milliseconds; the cursor rounds the instant down, so a row created later in
  the millisecond of the row a page ended on is on no later page.
\<close>

text \<open>A reader that follows the cursor for at most \<open>n\<close> pages.\<close>

fun drain_pages :: "nat \<Rightarrow> date_text \<Rightarrow> (string \<times> string \<times> string) list \<Rightarrow> list_tasks_input \<Rightarrow> task_table \<Rightarrow>
    durable_task list result" where
  "drain_pages 0 d acted input T = Inl (ThrownError ''PAGES_LEFT'')"
| "drain_pages (Suc n) d acted input T =
    andThen (listTasks d acted input T) (\<lambda>p. case tp_next_cursor p of
       None \<Rightarrow> Inr (tp_items p)
     | Some c \<Rightarrow> andThen (drain_pages n d acted (input\<lparr>lt_cursor := Some c\<rparr>) T)
         (\<lambda>rest. Inr (tp_items p @ rest)))"

definition cursor_safe :: "durable_task \<Rightarrow> bool" where
  "cursor_safe r \<longleftrightarrow> \<not> blank (dt_run_id r) \<and> length (dt_run_id r) \<le> 64 \<and> CHR ''|'' \<notin> set (dt_run_id r)"

definition whole_ms :: "durable_task \<Rightarrow> bool" where
  "whole_ms r \<longleftrightarrow> dt_created_at r mod 1000 = 0"

definition unique_tasks :: "task_table \<Rightarrow> bool" where
  "unique_tasks T \<longleftrightarrow> distinct (map (\<lambda>r. (dt_tenant_id r, dt_run_id r)) T)"

subsection \<open>The order of the page\<close>

lemma newest_filter: "newest_first (filter P xs) = filter P (newest_first xs)"
  by (simp add: newest_first_def filter_sort [symmetric] rev_filter)

lemma newest_descending: "distinct (map page_key xs) \<Longrightarrow> sorted_wrt (\<lambda>a b. page_key b < page_key a) (newest_first xs)"
proof -
  assume d: "distinct (map page_key xs)"
  have "distinct (map page_key (sort_key page_key xs))" "sorted (map page_key (sort_key page_key xs))"
    using d by (simp_all add: distinct_map)
  then have "sorted_wrt (<) (map page_key (sort_key page_key xs))" by (simp add: strict_sorted_iff)
  then show ?thesis by (simp add: newest_first_def sorted_wrt_rev sorted_wrt_map)
qed

lemma filter_after:
  "sorted_wrt (\<lambda>a b. (f b :: 'k :: linorder) < f a) xs \<Longrightarrow> i < length xs \<Longrightarrow>
   filter (\<lambda>r. f r < f (xs ! i)) xs = drop (Suc i) xs"
proof (induction xs arbitrary: i)
  case Nil
  then show ?case by simp
next
  case (Cons x xs)
  show ?case
  proof (cases i)
    case 0
    then show ?thesis using Cons.prems by (auto intro!: filter_True)
  next
    case (Suc j)
    then have "f (xs ! j) < f x" using Cons.prems by auto
    then have "\<not> f x < f (xs ! j)" by simp
    then show ?thesis using Suc Cons by auto
  qed
qed

subsection \<open>Following the cursors\<close>

lemma page_cursor_key: "whole_ms r \<Longrightarrow> (iso_ms (dt_created_at r) * 1000, dt_run_id r) = page_key r"
  by (auto simp: whole_ms_def iso_ms_def page_key_def)

lemma page_of_rest:
  assumes "newest_first (filter (\<lambda>r. scope r \<and> (case cursor of None \<Rightarrow> True
      | Some (c, i) \<Rightarrow> page_key r < (c * 1000, i))) T) = drop j L" and "1 \<le> limit"
  shows "if j + limit < length L
    then read_page d scope limit cursor T = \<lparr>tp_items = take limit (drop j L),
           tp_next_cursor = Some (task_list_cursor d (L ! (j + limit - 1)))\<rparr>
    else read_page d scope limit cursor T = \<lparr>tp_items = drop j L, tp_next_cursor = None\<rparr>"
proof -
  have "limit < length (take (limit + 1) (drop j L)) \<longleftrightarrow> j + limit < length L" by auto
  moreover have "j + limit < length L \<Longrightarrow> last (take limit (drop j L)) = L ! (j + limit - 1)"
    using assms(2) by (simp add: last_conv_nth)
  moreover have "j + limit < length L \<Longrightarrow> take limit (drop j L) \<noteq> []" using assms(2) by simp
  ultimately show ?thesis unfolding read_page_def assms(1) Let_def by (auto simp: min_def)
qed

lemma drain_rest:
  assumes L: "L = newest_first (filter scope T)" "sorted_wrt (\<lambda>a b. page_key b < page_key a) L"
    and ok: "iso_dates d" "\<forall>r \<in> set L. cursor_safe r \<and> whole_ms r" "1 \<le> limit"
    and list: "\<And>cur k. (cur = None \<and> k = None) \<or> (\<exists>c q. cur = Some c \<and> parseTaskListCursor d c = Inr q \<and> k = Some q) \<Longrightarrow>
      listTasks d acted (input\<lparr>lt_cursor := cur\<rparr>) T = Inr (read_page d scope limit k T)"
  shows "length L \<le> j + n * limit \<Longrightarrow> n \<noteq> 0 \<Longrightarrow>
    (j = 0 \<and> cur = None) \<or> (\<exists>i < length L. j = Suc i \<and> cur = Some (task_list_cursor d (L ! i))) \<Longrightarrow>
    drain_pages n d acted (input\<lparr>lt_cursor := cur\<rparr>) T = Inr (drop j L)"
proof (induction n arbitrary: j cur)
  case 0
  then show ?case by simp
next
  case (Suc n)
  obtain k where k: "listTasks d acted (input\<lparr>lt_cursor := cur\<rparr>) T = Inr (read_page d scope limit k T)"
    "newest_first (filter (\<lambda>r. scope r \<and> (case k of None \<Rightarrow> True | Some (c, i) \<Rightarrow> page_key r < (c * 1000, i))) T) = drop j L"
  proof (cases "j = 0 \<and> cur = None")
    case True
    have "listTasks d acted (input\<lparr>lt_cursor := cur\<rparr>) T = Inr (read_page d scope limit None T)"
      by (rule list) (use True in simp)
    then show ?thesis by (rule that) (simp add: L(1) True)
  next
    case False
    with Suc.prems(3) obtain i where i: "i < length L" "j = Suc i" "cur = Some (task_list_cursor d (L ! i))" by blast
    let ?r = "L ! i"
    have r: "cursor_safe ?r" "whole_ms ?r" using ok(2) i(1) by auto
    have p: "parseTaskListCursor d (task_list_cursor d ?r) = Inr (iso_ms (dt_created_at ?r), dt_run_id ?r)"
      using parse_published_cursor [OF ok(1)] r(1) by (simp add: cursor_safe_def)
    have "listTasks d acted (input\<lparr>lt_cursor := cur\<rparr>) T
        = Inr (read_page d scope limit (Some (iso_ms (dt_created_at ?r), dt_run_id ?r)) T)"
      by (rule list) (use i(3) p in blast)
    then show ?thesis
    proof (rule that)
      have "newest_first (filter (\<lambda>r. scope r \<and> page_key r < page_key ?r) T) = filter (\<lambda>r. page_key r < page_key ?r) L"
        by (simp add: L(1) newest_filter conj_commute)
      then show "newest_first (filter (\<lambda>r. scope r \<and> (case Some (iso_ms (dt_created_at ?r), dt_run_id ?r) of None \<Rightarrow> True
          | Some (c, i) \<Rightarrow> page_key r < (c * 1000, i))) T) = drop j L"
        using filter_after [OF L(2) i(1)] i(2) page_cursor_key [OF r(2)] by simp
    qed
  qed
  show ?case
  proof (cases "j + limit < length L")
    case True
    have p: "read_page d scope limit k T = \<lparr>tp_items = take limit (drop j L),
        tp_next_cursor = Some (task_list_cursor d (L ! (j + limit - 1)))\<rparr>"
      using page_of_rest [OF k(2) ok(3), of d] True by simp
    have n: "n \<noteq> 0" using Suc.prems(1) True by (cases n) auto
    have "drain_pages n d acted (input\<lparr>lt_cursor := Some (task_list_cursor d (L ! (j + limit - 1)))\<rparr>) T
        = Inr (drop (j + limit) L)"
    proof (rule Suc.IH)
      show "(j + limit = 0 \<and> Some (task_list_cursor d (L ! (j + limit - 1))) = None) \<or>
          (\<exists>i < length L. j + limit = Suc i \<and>
            Some (task_list_cursor d (L ! (j + limit - 1))) = Some (task_list_cursor d (L ! i)))"
        by (intro disjI2 exI [of _ "j + limit - 1"]) (use True ok(3) in simp)
    qed (use Suc.prems(1) n in simp_all)
    then show ?thesis using append_take_drop_id [of limit "drop j L"] by (simp add: k(1) p add.commute)
  next
    case False
    then have "read_page d scope limit k T = \<lparr>tp_items = drop j L, tp_next_cursor = None\<rparr>"
      using page_of_rest [OF k(2) ok(3), of d] by simp
    then show ?thesis by (simp add: k(1))
  qed
qed

lemma listTasks_page:
  assumes "listTasks d acted input T = Inr p" "lt_cursor input = None"
  shows "\<exists>lo hi limit. 1 \<le> limit \<and> assertInstant (lt_from input) = Inr lo \<and> assertInstant (lt_to input) = Inr hi
    \<and> (\<forall>cur k. (cur = None \<and> k = None) \<or> (\<exists>c q. cur = Some c \<and> parseTaskListCursor d c = Inr q \<and> k = Some q) \<longrightarrow>
      listTasks d acted (input\<lparr>lt_cursor := cur\<rparr>) T = Inr (read_page d (in_page_scope acted input lo hi) limit k T))"
proof -
  obtain lo hi limit where g: "assertIdentifier (lt_tenant_id input) 36 ''TASK_TENANT_ID_REQUIRED'' = Inr ()"
    "(case lt_state input of None \<Rightarrow> Inr () | Some s \<Rightarrow> assertTaskState s) = Inr ()"
    "assertAgentId (lt_agent_id input) = Inr ()" "assertInstant (lt_from input) = Inr lo"
    "assertInstant (lt_to input) = Inr hi" "page_limit (lt_limit input) = Inr limit"
    "assertTenantContext (lt_tenant_id input) = Inr ()"
    using assms(1) by (auto simp: listTasks_def andThen_Inr_iff)
  have "1 \<le> limit" using g(6)
    by (auto simp: page_limit_def thrown_def le_nat_iff le_floor_iff split: jnum.splits if_splits)
  moreover have "in_page_scope acted (input\<lparr>lt_cursor := cur\<rparr>) lo hi = in_page_scope acted input lo hi" for cur
    by (rule ext) (simp add: in_page_scope_def)
  ultimately show ?thesis using g
    by (intro exI [of _ lo] exI [of _ hi] exI [of _ limit]) (auto simp: listTasks_def)
qed

definition scoped :: "(string \<times> string \<times> string) list \<Rightarrow> list_tasks_input \<Rightarrow> durable_task \<Rightarrow> bool" where
  "scoped acted input r = in_page_scope acted input
     (case assertInstant (lt_from input) of Inr lo \<Rightarrow> lo | Inl _ \<Rightarrow> None)
     (case assertInstant (lt_to input) of Inr hi \<Rightarrow> hi | Inl _ \<Rightarrow> None) r"

lemma scoped_keys:
  assumes "unique_tasks T"
  shows "distinct (map page_key (filter (scoped acted input) T))"
proof -
  have "inj_on (\<lambda>r. (dt_tenant_id r, dt_run_id r)) (set T)" "distinct T"
    using assms by (simp_all add: unique_tasks_def distinct_map)
  then show ?thesis
    by (auto simp: distinct_map inj_on_def page_key_def scoped_def in_page_scope_def)
qed

text \<open>
  with rows created on whole milliseconds, a reader that follows the cursors gets every run of the
  tenant that matches its filters exactly once, newest first, and then the end, whatever the page
  size.
\<close>

theorem pages_list_every_run_once:
  assumes "listTasks d acted input T = Inr p" "lt_cursor input = None" and "iso_dates d" "unique_tasks T"
    and "\<forall>r \<in> set T. cursor_safe r \<and> whole_ms r"
  shows "drain_pages (length T + 1) d acted input T = Inr (newest_first (filter (scoped acted input) T))"
proof -
  obtain lo hi limit where l: "1 \<le> limit" "assertInstant (lt_from input) = Inr lo" "assertInstant (lt_to input) = Inr hi"
    "\<And>cur k. (cur = None \<and> k = None) \<or> (\<exists>c q. cur = Some c \<and> parseTaskListCursor d c = Inr q \<and> k = Some q) \<Longrightarrow>
      listTasks d acted (input\<lparr>lt_cursor := cur\<rparr>) T = Inr (read_page d (in_page_scope acted input lo hi) limit k T)"
    using listTasks_page [OF assms(1,2)] by blast
  have sc: "scoped acted input = in_page_scope acted input lo hi" using l by (intro ext) (simp add: scoped_def)
  let ?L = "newest_first (filter (scoped acted input) T)"
  have "sorted_wrt (\<lambda>a b. page_key b < page_key a) ?L"
    by (rule newest_descending) (rule scoped_keys [OF assms(4)])
  moreover have "\<forall>r \<in> set ?L. cursor_safe r \<and> whole_ms r" using assms(5) by (auto simp: newest_first_def)
  moreover have "length ?L \<le> 0 + (length T + 1) * limit"
  proof -
    have "length ?L \<le> length T" by (simp add: newest_first_def)
    also have "\<dots> \<le> (length T + 1) * limit" using l(1) by (cases limit) auto
    finally show ?thesis by simp
  qed
  ultimately have "drain_pages (length T + 1) d acted (input\<lparr>lt_cursor := None\<rparr>) T = Inr (drop 0 ?L)"
    by (intro drain_rest [where limit = limit and scope = "scoped acted input"]) (use assms(3) l sc in auto)
  moreover have "input\<lparr>lt_cursor := None\<rparr> = input" using assms(2) by simp
  ultimately show ?thesis by (metis drop0)
qed

text \<open>
  the cursor a page ends on is the millisecond of its last row, not the row's instant: a row that was
  created in that same millisecond, but not on it, is on no page that follows - earlier rows of the
  same millisecond are skipped.
\<close>

theorem cursor_skips_its_millisecond:
  assumes "iso_dates d" "cursor_safe l" and "lt_cursor input = Some (task_list_cursor d l)"
    and "listTasks d acted input T = Inr p" and "r \<in> set (tp_items p)"
  shows "dt_created_at r \<le> iso_ms (dt_created_at l) * 1000"
proof -
  have "parseTaskListCursor d (task_list_cursor d l) = Inr (iso_ms (dt_created_at l), dt_run_id l)"
    using parse_published_cursor [OF assms(1)] assms(2) by (simp add: cursor_safe_def)
  then obtain scope limit where "p = read_page d scope limit (Some (iso_ms (dt_created_at l), dt_run_id l)) T"
    using assms(3,4) by (auto simp: listTasks_def andThen_Inr_iff)
  then have "page_key r < (iso_ms (dt_created_at l) * 1000, dt_run_id l)"
    using assms(5) by (auto simp: read_page_def Let_def newest_first_def dest!: in_set_takeD)
  then show ?thesis by (auto simp: page_key_def)
qed

end
