(* ===== verification/TaskContract.thy ===== *)
theory TaskContract
  imports TaskProperties TaskPages
begin

text \<open>
  What the durable task repository promises, written without its functions: the table is a map from a
  tenant and a run to a row, and each operation is a condition on its arguments, a condition on the row it
  addresses and the row it leaves, field by field. The refinement theorem says that every history of the
  repository, answers included, is a history of this contract.
\<close>

type_synonym task_view = "string \<times> string \<Rightarrow> durable_task option"

definition task_view :: "task_table \<Rightarrow> task_view" where
  "task_view T key = find (\<lambda>r. dt_tenant_id r = fst key \<and> dt_run_id r = snd key) T"

subsection \<open>Arguments\<close>

definition short_text :: "nat \<Rightarrow> string \<Rightarrow> bool" where
  "short_text n s \<longleftrightarrow> \<not> blank s \<and> length s \<le> n"

definition address :: "string \<Rightarrow> string \<Rightarrow> bool" where
  "address t k \<longleftrightarrow> tenant_uuid t \<and> short_text 64 k"

definition whole_from :: "int \<Rightarrow> jnum \<Rightarrow> bool" where
  "whole_from l n \<longleftrightarrow> (\<exists>i \<ge> l. n = Fin (of_int i))"

definition whole :: "jnum \<Rightarrow> int" where
  "whole n = (case n of Fin q \<Rightarrow> \<lfloor>q\<rfloor> | _ \<Rightarrow> 0)"

definition stored_json :: "json \<Rightarrow> json" where
  "stored_json v = the (stringified v)"

definition complete_checkpoint :: "json \<Rightarrow> bool" where
  "complete_checkpoint v \<longleftrightarrow> (\<exists>ms. v = JObj ms \<and> checkpoint_shape (member ms))"

definition creatable :: "create_task_input \<Rightarrow> jnum \<Rightarrow> task_state \<Rightarrow> bool" where
  "creatable ci step s \<longleftrightarrow> address (ct_tenant_id ci) (ct_run_id ci) \<and> short_text 64 (ct_correlation_id ci)
     \<and> isTaskLifecycleState s
     \<and> (case ct_max_retries ci of None \<Rightarrow> True | Some n \<Rightarrow> whole_from 0 n)
     \<and> (s \<in> {Waiting, AwaitingHuman} \<longrightarrow> complete_checkpoint (ct_state_payload ci))
     \<and> (ct_state_payload ci \<noteq> JUndef \<longrightarrow> stringified (ct_state_payload ci) \<noteq> None)"

definition created_row :: "string \<Rightarrow> int \<Rightarrow> create_task_input \<Rightarrow> jnum \<Rightarrow> task_state \<Rightarrow> durable_task" where
  "created_row i dbnow ci step s =
    \<lparr>dt_task_id = i, dt_tenant_id = uuid_text (ct_tenant_id ci), dt_run_id = ct_run_id ci,
     dt_correlation_id = ct_correlation_id ci, dt_current_step = whole step, dt_state = s, dt_task_version = 1,
     dt_lease_owner = None, dt_lease_expires_at = None, dt_retry_count = 0,
     dt_max_retries = (case ct_max_retries ci of None \<Rightarrow> 3 | Some n \<Rightarrow> whole n),
     dt_last_error_class = None, dt_paused_for_approval_id = None,
     dt_state_payload = (if ct_state_payload ci \<in> {JUndef, JNull} then JObj [] else stored_json (ct_state_payload ci)),
     dt_error_details = JNull, dt_created_at = dbnow, dt_updated_at = dbnow\<rparr>"

fun well_called :: "runtime \<Rightarrow> task_op \<Rightarrow> bool" where
  "well_called rt (OpCreate i dbnow ci) \<longleftrightarrow>
     whole_from 1 (case ct_current_step ci of None \<Rightarrow> Fin 1 | Some n \<Rightarrow> n)
     \<and> creatable ci (case ct_current_step ci of None \<Rightarrow> Fin 1 | Some n \<Rightarrow> n)
         (case ct_state ci of None \<Rightarrow> Queued | Some s \<Rightarrow> s)"
| "well_called rt (OpAdmit i dbnow ci) \<longleftrightarrow> creatable ci (Fin 0) Queued"
| "well_called rt (OpClaim dbnow skipped t w d) \<longleftrightarrow> tenant_uuid t \<and> short_text 128 w
     \<and> (\<forall>n. d = Some n \<longrightarrow> whole_from 1 n)"
| "well_called rt (OpRenew dbnow now t k w v d) \<longleftrightarrow> address t k \<and> (\<forall>n. d = Some n \<longrightarrow> whole_from 1 n)"
| "well_called rt (OpRelease dbnow now t k w v target) \<longleftrightarrow> address t k"
| "well_called rt (OpProgress dbnow now t k n p g) \<longleftrightarrow> address t k \<and> whole_from 1 n \<and> (\<exists>ms. p = JObj ms)"
| "well_called rt (OpTransition dbnow now t k s reason p g) \<longleftrightarrow> address t k \<and> isTaskLifecycleState s
     \<and> s \<noteq> AwaitingHuman \<and> \<not> blank reason
     \<and> (if s = Waiting then complete_checkpoint p else p = JUndef \<or> (\<exists>ms. p = JObj ms))"
| "well_called rt (OpFail dbnow now input) \<longleftrightarrow> address (fi_tenant_id input) (fi_run_id input)
     \<and> fi_error_class input \<in> {''RETRYABLE'', ''FATAL''} \<and> (\<exists>ms. fi_error_details input = JObj ms)"
| "well_called rt (OpRequeue dbnow t k reason v) \<longleftrightarrow> address t k \<and> \<not> blank reason"
| "well_called rt (OpReconcile dbnow input) \<longleftrightarrow> address (rc_tenant_id input) (rc_run_id input)
     \<and> short_text 128 (rc_operator_id input) \<and> \<not> blank (rc_reason input)
     \<and> rc_resolution input \<in> {''PROVIDER_CONFIRMED_SUCCEEDED'', ''PROVIDER_CONFIRMED_ABSENT'', ''ESCALATE_MANUALLY''}
     \<and> (\<exists>c. canonicalizeEvent rt (reconciliation_event input) = Inr c)"
| "well_called rt (OpEvidence dbnow input) \<longleftrightarrow> address (he_tenant_id input) (he_run_id input)
     \<and> (\<exists>ms. he_evidence_payload input = JObj ms)
     \<and> (\<exists>c. canonicalizeEvent rt (handoff_evidence_event input) = Inr c)"
| "well_called rt (OpClear dbnow now t k v w ev) \<longleftrightarrow> address t k \<and> short_text 128 w
     \<and> (\<exists>c. canonicalizeEvent rt ev = Inr c)"

subsection \<open>The addressed row\<close>

definition under_lease :: "int \<Rightarrow> string \<Rightarrow> durable_task \<Rightarrow> bool" where
  "under_lease now w r \<longleftrightarrow> \<not> blank w \<and> dt_lease_owner r = Some w
     \<and> dt_state r \<in> {Running, Waiting, AwaitingHuman}
     \<and> (\<exists>e. dt_lease_expires_at r = Some e \<and> now < e div 1000)"

definition open_row :: "int \<Rightarrow> jnum option \<Rightarrow> string option \<Rightarrow> durable_task \<Rightarrow> bool" where
  "open_row now v w r \<longleftrightarrow> dt_state r \<in> {Queued, Running, Waiting}
     \<and> (\<forall>n. v = Some n \<longrightarrow> n = Fin (of_int (dt_task_version r)) \<and> 1 \<le> dt_task_version r)
     \<and> (\<forall>u. w = Some u \<longrightarrow> under_lease now u r)"

definition expired :: "int \<Rightarrow> durable_task \<Rightarrow> bool" where
  "expired dbnow r \<longleftrightarrow> (\<exists>e. dt_lease_expires_at r = Some e \<and> e < dbnow)"

definition takeable :: "int \<Rightarrow> durable_task \<Rightarrow> bool" where
  "takeable dbnow r \<longleftrightarrow> dt_state r = Queued \<or> dt_state r = Running \<and> expired dbnow r
     \<or> dt_state r \<in> {Waiting, AwaitingHuman} \<and> jsonb_has (dt_state_payload r) ''resume_event''
       \<and> (dt_lease_owner r = None \<or> dt_lease_expires_at r = None \<or> expired dbnow r)"

text \<open>The event a row holds, if its payload is an object with that member.\<close>

definition held_event :: "durable_task \<Rightarrow> json" where
  "held_event r = (case dt_state_payload r of JObj ms \<Rightarrow> member ms ''resume_event'' | _ \<Rightarrow> JUndef)"

definition row_members :: "durable_task \<Rightarrow> jobject" where
  "row_members r = (case dt_state_payload r of JObj ms \<Rightarrow> ms | _ \<Rightarrow> [])"

definition same_text :: "runtime \<Rightarrow> json \<Rightarrow> json \<Rightarrow> bool" where
  "same_text rt a b \<longleftrightarrow> (\<exists>c. canonicalizeEvent rt a = Inr c \<and> canonicalizeEvent rt b = Inr c)"

fun may_write :: "runtime \<Rightarrow> task_op \<Rightarrow> durable_task \<Rightarrow> bool" where
  "may_write rt (OpClaim dbnow skipped t w d) r \<longleftrightarrow> takeable dbnow r \<and> length w \<le> 64"
| "may_write rt (OpRenew dbnow now t k w v d) r \<longleftrightarrow> under_lease now w r \<and> v = Fin (of_int (dt_task_version r))"
| "may_write rt (OpRelease dbnow now t k w v target) r \<longleftrightarrow> under_lease now w r \<and> v = Fin (of_int (dt_task_version r))
     \<and> (\<forall>s. target = Some s \<longrightarrow> s \<in> {Queued, Waiting, AwaitingHuman})
     \<and> (target = Some AwaitingHuman \<longrightarrow> ''resume_event'' \<in> fst ` set (row_members r))"
| "may_write rt (OpProgress dbnow now t k n p g) r \<longleftrightarrow> open_row now (guard_version g) (guard_owner g) r"
| "may_write rt (OpTransition dbnow now t k s reason p g) r \<longleftrightarrow> open_row now (guard_version g) (guard_owner g) r"
| "may_write rt (OpFail dbnow now input) r \<longleftrightarrow> open_row now (fi_expected_task_version input) (fi_lease_owner input) r"
| "may_write rt (OpRequeue dbnow t k reason v) r \<longleftrightarrow> dt_state r = Failed
     \<and> (\<forall>n. v = Some n \<longrightarrow> n = Fin (of_int (dt_task_version r)) \<and> 1 \<le> dt_task_version r)"
| "may_write rt (OpReconcile dbnow input) r \<longleftrightarrow> dt_state r = Waiting \<and> complete_checkpoint (dt_state_payload r)
     \<and> (held_event r \<noteq> JUndef \<longrightarrow> same_text rt (held_event r) (reconciliation_event input))"
| "may_write rt (OpEvidence dbnow input) r \<longleftrightarrow> dt_state r = AwaitingHuman
     \<and> (\<forall>n. he_expected_task_version input = Some n \<longrightarrow> n = Fin (of_int (dt_task_version r)))
     \<and> complete_checkpoint (dt_state_payload r)
     \<and> (held_event r \<noteq> JUndef \<longrightarrow> same_text rt (held_event r) (handoff_evidence_event input))"
| "may_write rt (OpClear dbnow now t k v w ev) r \<longleftrightarrow> dt_state r = AwaitingHuman \<and> under_lease now w r
     \<and> v = Fin (of_int (dt_task_version r)) \<and> (\<exists>ms. held_event r = JObj ms) \<and> same_text rt (held_event r) ev"
| "may_write rt _ r \<longleftrightarrow> False"

text \<open>An event is merged into the payload and gives the lease up; one that is held already is answered as it is.\<close>

definition with_event :: "int \<Rightarrow> json \<Rightarrow> durable_task \<Rightarrow> durable_task" where
  "with_event dbnow ev r = (if held_event r \<noteq> JUndef then r
     else r\<lparr>dt_task_version := dt_task_version r + 1, dt_lease_owner := None, dt_lease_expires_at := None,
       dt_state_payload := jsonb_concat (dt_state_payload r)
         (stored_json (JObj (AList.update ''resume_event'' ev (row_members r)))),
       dt_updated_at := dbnow\<rparr>)"

fun row_after :: "task_op \<Rightarrow> durable_task \<Rightarrow> durable_task" where
  "row_after (OpClaim dbnow skipped t w d) r =
    r\<lparr>dt_state := (if dt_state r \<in> {Queued, Running} then Running else dt_state r),
      dt_task_version := dt_task_version r + 1, dt_lease_owner := Some w,
      dt_lease_expires_at := Some (dbnow + 1000 * (case d of None \<Rightarrow> 30000 | Some n \<Rightarrow> whole n)), dt_updated_at := dbnow\<rparr>"
| "row_after (OpRenew dbnow now t k w v d) r =
    r\<lparr>dt_task_version := dt_task_version r + 1,
      dt_lease_expires_at := Some (dbnow + 1000 * (case d of None \<Rightarrow> 30000 | Some n \<Rightarrow> whole n)), dt_updated_at := dbnow\<rparr>"
| "row_after (OpRelease dbnow now t k w v target) r =
    r\<lparr>dt_state := (case target of None \<Rightarrow> Queued | Some s \<Rightarrow> s), dt_task_version := dt_task_version r + 1,
      dt_lease_owner := None, dt_lease_expires_at := None, dt_updated_at := dbnow\<rparr>"
| "row_after (OpProgress dbnow now t k n p g) r =
    r\<lparr>dt_current_step := whole n, dt_task_version := dt_task_version r + 1,
      dt_state_payload := jsonb_concat (dt_state_payload r) (stored_json p), dt_updated_at := dbnow\<rparr>"
| "row_after (OpTransition dbnow now t k s reason p g) r =
    r\<lparr>dt_state := s, dt_task_version := dt_task_version r + 1,
      dt_lease_owner := (if s \<in> {Completed, Stopped, Failed} then None else dt_lease_owner r),
      dt_lease_expires_at := (if s \<in> {Completed, Stopped, Failed} then None else dt_lease_expires_at r),
      dt_state_payload := (if p = JUndef then dt_state_payload r else if s = Waiting then stored_json p
        else jsonb_concat (dt_state_payload r) (stored_json p)), dt_updated_at := dbnow\<rparr>"
| "row_after (OpFail dbnow now input) r =
    (let again = fi_error_class input = ''RETRYABLE'' \<and> dt_retry_count r < dt_max_retries r in
     r\<lparr>dt_state := (if again then Queued else Failed), dt_task_version := dt_task_version r + 1,
      dt_lease_owner := None, dt_lease_expires_at := None,
      dt_retry_count := (if again then dt_retry_count r + 1 else dt_retry_count r),
      dt_last_error_class := Some (fi_error_class input),
      dt_error_details := stored_json (fi_error_details input), dt_updated_at := dbnow\<rparr>)"
| "row_after (OpRequeue dbnow t k reason v) r =
    r\<lparr>dt_state := Queued, dt_task_version := dt_task_version r + 1, dt_lease_owner := None,
      dt_lease_expires_at := None, dt_last_error_class := None, dt_error_details := JNull, dt_updated_at := dbnow\<rparr>"
| "row_after (OpReconcile dbnow input) r = with_event dbnow (reconciliation_event input) r"
| "row_after (OpEvidence dbnow input) r = with_event dbnow (handoff_evidence_event input) r"
| "row_after (OpClear dbnow now t k v w ev) r =
    r\<lparr>dt_task_version := dt_task_version r + 1, dt_lease_owner := None, dt_lease_expires_at := None,
      dt_state_payload := stored_json (JObj (AList.delete ''resume_event'' (row_members r))), dt_updated_at := dbnow\<rparr>"
| "row_after x r = r"

subsection \<open>One operation\<close>

fun answer_for :: "task_op \<Rightarrow> durable_task \<Rightarrow> task_reply" where
  "answer_for (OpFail dbnow now input) r =
     FailureRecorded (fi_error_class input = ''RETRYABLE'' \<and> dt_retry_count r < dt_max_retries r) (row_after (OpFail dbnow now input) r)"
| "answer_for x r = TaskWritten (row_after x r)"

text \<open>The candidates of a claim, and what the two creations insert.\<close>

definition candidates :: "task_op \<Rightarrow> task_view \<Rightarrow> durable_task set" where
  "candidates x V = (case x of OpClaim dbnow skipped t w d \<Rightarrow>
       {r. (\<exists>k. V (uuid_text t, k) = Some r) \<and> takeable dbnow r \<and> dt_run_id r \<notin> set skipped}
     | _ \<Rightarrow> {})"

fun created :: "task_op \<Rightarrow> durable_task option" where
  "created (OpCreate i dbnow ci) = Some (created_row i dbnow ci
     (case ct_current_step ci of None \<Rightarrow> Fin 1 | Some n \<Rightarrow> n) (case ct_state ci of None \<Rightarrow> Queued | Some s \<Rightarrow> s))"
| "created (OpAdmit i dbnow ci) = Some (created_row i dbnow ci (Fin 0) Queued)"
| "created _ = None"

text \<open>
  An operation does its work or is refused, and a refusal changes nothing. A creation adds its row where there
  is none. A claim takes a candidate that no other one is older than, and answers idle when there is none.
  Every other operation writes the one row it addresses, and answers what it wrote.
\<close>

definition task_contract :: "runtime \<Rightarrow> task_op \<Rightarrow> task_view \<Rightarrow> task_reply \<Rightarrow> task_view \<Rightarrow> bool" where
  "task_contract rt x V a V' \<longleftrightarrow>
    (let u = uuid_text (task_op_tenant x); refusal = refused a \<and> V' = V in
     if \<not> well_called rt x then refusal
     else case created x of
       Some r \<Rightarrow> if V (u, dt_run_id r) = None then a = TaskWritten r \<and> V' = V((u, dt_run_id r) \<mapsto> r) else refusal
     | None \<Rightarrow> (case task_op_run x of
         Some k \<Rightarrow> (case V (u, k) of
             None \<Rightarrow> refusal
           | Some r \<Rightarrow> if may_write rt x r then a = answer_for x r \<and> V' = V((u, k) \<mapsto> row_after x r) else refusal)
       | None \<Rightarrow> if candidates x V = {} then a = TaskIdle \<and> V' = V
           else \<exists>r \<in> candidates x V. (\<forall>s \<in> candidates x V. dt_created_at r \<le> dt_created_at s)
             \<and> (if may_write rt x r then a = answer_for x r \<and> V' = V((u, dt_run_id r) \<mapsto> row_after x r) else refusal)))"

text \<open>A history: operations with their answers.\<close>

fun contract_history :: "runtime \<Rightarrow> (task_op \<times> task_reply) list \<Rightarrow> task_view \<Rightarrow> task_view \<Rightarrow> bool" where
  "contract_history rt [] V V' \<longleftrightarrow> V' = V"
| "contract_history rt ((x, a) # h) V V' \<longleftrightarrow> (\<exists>W. task_contract rt x V a W \<and> contract_history rt h W V')"

subsection \<open>The guards of the code decide the conditions of the contract\<close>

lemma identifier_ok: "assertIdentifier s n code = Inr () \<longleftrightarrow> short_text n s"
  by (simp add: assertIdentifier_def short_text_def)

lemma uuid_short: "tenant_uuid t \<Longrightarrow> short_text 36 t"
proof -
  assume t: "tenant_uuid t"
  have l: "length t = 36" using list_all2_lengthD [OF t [unfolded tenant_uuid_def]] by simp
  have "t ! 8 = CHR ''-''"
    using list_all2_nthD [OF t [unfolded tenant_uuid_def], of 8] by simp
  then have "CHR ''-'' \<in> set t" using l nth_mem [of 8 t] by simp
  moreover have "\<forall>c \<in> set t. is_ws c" if "blank t"
  proof -
    have "dropWhile is_ws (rev (dropWhile is_ws t)) = []" using that by (simp add: blank_def trim_def)
    then have "\<forall>c \<in> set (dropWhile is_ws t). is_ws c" by (simp add: dropWhile_eq_Nil_conv)
    moreover have "set t \<subseteq> set (takeWhile is_ws t) \<union> set (dropWhile is_ws t)"
      by (metis set_append subset_refl takeWhile_dropWhile_id)
    ultimately show ?thesis by (auto dest: set_takeWhileD)
  qed
  moreover have "\<not> is_ws (CHR ''-'')" by (simp add: is_ws_def)
  ultimately have "\<not> blank t" by blast
  then show ?thesis using l by (simp add: short_text_def)
qed

lemma tenant_ok: "assertTenantContext t = Inr () \<longleftrightarrow> tenant_uuid t"
  by (simp add: assertTenantContext_def)

lemma address_ok:
  "assert_address t k = Inr () \<and> tenant_uuid t \<longleftrightarrow> address t k"
  using uuid_short [of t] by (auto simp: assert_address_def andThen_Inr_iff identifier_ok address_def)

lemma whole_iff: "is_int_rat q \<and> of_int l \<le> q \<longleftrightarrow> whole_from l (Fin q)"
proof
  assume q: "is_int_rat q \<and> of_int l \<le> q"
  then have "of_int \<lfloor>q\<rfloor> = q" "l \<le> \<lfloor>q\<rfloor>" by (simp_all only: is_int_rat_def le_floor_iff)
  then show "whole_from l (Fin q)" unfolding whole_from_def by metis
qed (auto simp: whole_from_def)

lemma positive_ok: "assertPositiveInteger n code = Inr () \<longleftrightarrow> whole_from 1 n"
  using whole_iff [of _ 1] by (cases n) (auto simp: whole_from_def not_less)

lemma natural_ok: "is_natural n \<longleftrightarrow> whole_from 0 n"
  using whole_iff [of _ 0] by (cases n) (auto simp: whole_from_def)

lemma whole_column [simp]: "int_column = whole"
  by (rule ext) (auto simp: whole_def split: jnum.split)

lemma lease_ttl_ok:
  "lease_ttl d = Inr ttl \<longleftrightarrow> (\<forall>n. d = Some n \<longrightarrow> whole_from 1 n) \<and> ttl = (case d of None \<Rightarrow> 30000 | Some n \<Rightarrow> whole n)"
proof (cases d)
  case None
  have "whole_from 1 (Fin 30000)" unfolding whole_from_def by (rule exI [of _ 30000]) simp
  then have "assertPositiveInteger (Fin 30000) ''TASK_LEASE_DURATION_INVALID'' = Inr ()" by (simp only: positive_ok)
  then show ?thesis using None by (auto simp: lease_ttl_def or_default_def whole_def Let_def simp del: assertPositiveInteger.simps)
next
  case (Some n)
  then show ?thesis
    by (cases "assertPositiveInteger n ''TASK_LEASE_DURATION_INVALID''")
       (auto simp: lease_ttl_def or_default_def Let_def positive_ok [symmetric, of n "''TASK_LEASE_DURATION_INVALID''"])
qed

lemma complete_ok: "complete_payload v \<longleftrightarrow> complete_checkpoint v"
  using complete_object [of v] complete_object_iff by (auto simp: complete_checkpoint_def)

lemma lease_ok: "assertLeaseHeld now r (Some w) = Inr () \<longleftrightarrow> under_lease now w r"
  by (auto simp: assertLeaseHeld_def under_lease_def iso_ms_def split: option.split)

lemma guard_ok:
  "(\<exists>b. assertGuard r v = Inr b) \<longleftrightarrow> (\<forall>n. v = Some n \<longrightarrow> n = Fin (of_int (dt_task_version r)) \<and> 1 \<le> dt_task_version r)"
proof (cases v)
  case None
  then show ?thesis by (simp add: assertGuard_def)
next
  case (Some n)
  have "whole_from 1 n \<and> Fin (of_int (dt_task_version r)) = n
      \<longleftrightarrow> n = Fin (of_int (dt_task_version r)) \<and> 1 \<le> dt_task_version r"
    by (auto simp: whole_from_def)
  then show ?thesis using Some
    by (cases "assertPositiveInteger n ''TASK_VERSION_INVALID''")
       (auto simp: assertGuard_def positive_ok [symmetric, of n "''TASK_VERSION_INVALID''"])
qed

lemma writable_ok:
  "writable now t k code v w T = Inr r \<longleftrightarrow> lockDurableTask t k T = Some r \<and> open_row now v w r"
proof -
  have o: "assertOpen (lockDurableTask t k T) code = Inr s \<longleftrightarrow>
      lockDurableTask t k T = Some s \<and> dt_state s \<in> {Queued, Running, Waiting}" for s
    by (auto simp: assertOpen_def thrown_def OPEN_STATES_def TERMINAL_STATES_def split: option.splits if_splits)
  have l: "assertLeaseHeld now s w = Inr () \<longleftrightarrow> (\<forall>u. w = Some u \<longrightarrow> under_lease now u s)" for s
    using lease_ok by (cases w) (auto simp: assertLeaseHeld_def)
  show ?thesis using guard_ok [of r v]
    by (auto simp: writable_def andThen_Inr_iff o l open_row_def)
qed

lemma takeable_ok [simp]: "claimable = takeable"
  by (intro ext) (auto simp: claimable_def takeable_def lapsed_def expired_def split: option.split)

lemma members_ok: "plain_members (dt_state_payload r) = row_members r"
  "member (row_members r) ''resume_event'' = held_event r"
  by (cases "dt_state_payload r"; simp add: plain_members_def row_members_def held_event_def member_def)+

lemma own_ok: "has_own (dt_state_payload r) k \<longleftrightarrow> k \<in> fst ` set (row_members r)"
  by (cases "dt_state_payload r") (simp_all add: has_own_def row_members_def)

lemma stored_object [simp]: "stored_json (JObj ms) = JObj (stringified_members ms)"
  by (simp add: stored_json_def)

subsection \<open>The table as a map\<close>

lemma view_lock: "task_view T (uuid_text t, k) = lockDurableTask t k T"
  by (simp add: task_view_def lockDurableTask_def task_at_def [abs_def])

lemma view_append:
  "task_view T (dt_tenant_id r, dt_run_id r) = None \<Longrightarrow>
   task_view (T @ [r]) = (task_view T)((dt_tenant_id r, dt_run_id r) \<mapsto> r)"
  by (rule ext) (auto simp: task_view_def find_append split: option.split)

lemma view_update:
  assumes "find (\<lambda>r. task_at t k r \<and> wher r) T = Some r" "lockDurableTask t k T = Some r" "task_at t k (f r)"
  shows "task_view (update_first (\<lambda>r. task_at t k r \<and> wher r) f T) = (task_view T)((uuid_text t, k) \<mapsto> f r)"
proof (rule ext)
  fix key :: "string \<times> string"
  let ?P = "\<lambda>r. task_at t k r \<and> wher r" and ?Q = "\<lambda>r. dt_tenant_id r = fst key \<and> dt_run_id r = snd key"
  have r: "?P r" using find_Some_set [OF assms(1)] by simp
  show "task_view (update_first ?P f T) key = ((task_view T)((uuid_text t, k) \<mapsto> f r)) key"
  proof (cases "key = (uuid_text t, k)")
    case True
    then have q: "?Q = task_at t k" by (auto simp: task_at_def)
    have "find (task_at t k) (update_first ?P f T) = Some (f r)"
      using find_update_found [where P = ?P and Q = "task_at t k" and f = f, OF assms(1)] assms(2,3) r
      by (simp add: lockDurableTask_def)
    then have "task_view (update_first ?P f T) key = Some (f r)" unfolding task_view_def q .
    then show ?thesis using True by simp
  next
    case False
    then have "\<not> ?Q s" if "task_at t k s" for s using that by (cases key) (auto simp: task_at_def)
    then have "find ?Q (update_first ?P f T) = find ?Q T"
      using find_update_elsewhere [where P = ?P and Q = ?Q and f = f, OF assms(1)] assms(3) by blast
    then show ?thesis using False by (simp add: task_view_def)
  qed
qed

lemma view_write:
  assumes "lockDurableTask t k T = Some r" "wher r" "task_at t k (f r)"
  shows "fst (write_task t k wher f T) = Inr (f r)"
    and "task_view (snd (write_task t k wher f T)) = (task_view T)((uuid_text t, k) \<mapsto> f r)"
proof -
  have f: "find (\<lambda>s. task_at t k s \<and> wher s) T = Some r"
    using find_narrowed [of "task_at t k" T r wher] assms(1,2) by (simp add: lockDurableTask_def)
  then show "fst (write_task t k wher f T) = Inr (f r)" by (simp add: write_task_def)
  show "task_view (snd (write_task t k wher f T)) = (task_view T)((uuid_text t, k) \<mapsto> f r)"
    using view_update [where f = f, OF f assms(1,3)] by (simp add: write_task_def f)
qed

subsection \<open>Operations on an addressed row\<close>

definition reply_of :: "durable_task result \<Rightarrow> task_reply" where
  "reply_of r = (case r of Inl e \<Rightarrow> TaskDenied e | Inr s \<Rightarrow> TaskWritten s)"

lemma fst_written: "fst (written p) = reply_of (fst p)"
  by (simp add: written_def reply_of_def split: sum.split)

lemma reply_of_simps [simp]: "reply_of (Inl e) = TaskDenied e" "reply_of (Inr r) = TaskWritten r"
  "reply_of (thrown c) = TaskDenied (ThrownError c)"
  by (simp_all add: reply_of_def thrown_def)

lemma refused_simps [simp]: "refused (TaskDenied e)" "\<not> refused (TaskWritten r)"
  by (simp_all add: refused_def)

lemma row_after_key: "task_at t k (row_after x r) = task_at t k r"
  by (cases x) (simp_all add: task_at_def with_event_def Let_def)

text \<open>
  A method checks its arguments, opens the tenant's transaction and works on the row it locked there.
\<close>

lemma addressed_op:
  assumes x: "task_op_tenant x = t" "task_op_run x = Some k" "created x = None"
    and called: "well_called rt x \<longleftrightarrow> (\<exists>v. g = Inr v) \<and> tenant_uuid t"
    and missing: "\<And>v. g = Inr v \<Longrightarrow> lockDurableTask t k T = None \<Longrightarrow> \<exists>e. W v = (Inl e, T)"
    and found: "\<And>v r. g = Inr v \<Longrightarrow> lockDurableTask t k T = Some r \<Longrightarrow> well_called rt x \<Longrightarrow>
      if may_write rt x r then reply (fst (W v)) = answer_for x r
        \<and> task_view (snd (W v)) = (task_view T)((uuid_text t, k) \<mapsto> row_after x r)
      else \<exists>e. W v = (Inl e, T)"
    and reply: "\<And>e. reply (Inl e) = TaskDenied e"
    and p: "p = (case g of Inl e \<Rightarrow> (Inl e, T) | Inr v \<Rightarrow> in_tenant t (W v) T)"
  shows "task_contract rt x (task_view T) (reply (fst p)) (task_view (snd p))"
proof (cases "well_called rt x")
  case False
  then have "\<exists>e. p = (Inl e, T)" using called tenant_ok [of t]
    by (cases g; cases "assertTenantContext t") (auto simp: p in_tenant_def)
  then show ?thesis using False reply by (auto simp: task_contract_def Let_def)
next
  case True
  then obtain v where v: "g = Inr v" "tenant_uuid t" using called by blast
  then have "p = W v" using tenant_ok [of t] by (simp add: p in_tenant_def)
  then show ?thesis
    using True x missing [OF v(1)] found [OF v(1)] reply
    by (cases "lockDurableTask t k T") (auto simp: task_contract_def view_lock Let_def split: if_splits)
qed

lemma locked_op:
  assumes x: "task_op_tenant x = t" "task_op_run x = Some k" "created x = None" "\<And>r. answer_for x r = TaskWritten (row_after x r)"
    and called: "well_called rt x \<longleftrightarrow> (\<exists>v. g = Inr v) \<and> tenant_uuid t"
    and locked: "\<And>v r. g = Inr v \<Longrightarrow> well_called rt x \<Longrightarrow> h v = Inr r \<longleftrightarrow> lockDurableTask t k T = Some r \<and> may_write rt x r"
    and row: "\<And>v r. g = Inr v \<Longrightarrow> well_called rt x \<Longrightarrow> may_write rt x r \<Longrightarrow> wher v r r \<and> f v r r = row_after x r"
    and none: "\<And>v r. g = Inr v \<Longrightarrow> h v = Inr r \<Longrightarrow> lockDurableTask t k T \<noteq> None"
    and p: "p = (case g of Inl e \<Rightarrow> (Inl e, T) | Inr v \<Rightarrow> in_tenant t
      (case h v of Inl e \<Rightarrow> (Inl e, T) | Inr r \<Rightarrow> write_task t k (wher v r) (f v r) T) T)"
  shows "task_contract rt x (task_view T) (fst (written p)) (task_view (snd p))"
  unfolding fst_written
proof (rule addressed_op [OF x(1-3) called _ _ _ p], goal_cases)
  case (1 v)
  then show ?case using none [of v] by (cases "h v") auto
next
  case (2 v r)
  show ?case
  proof (cases "may_write rt x r")
    case True
    then have h: "h v = Inr r" using locked [OF 2(1,3)] 2(2) by simp
    have w: "wher v r r" "f v r r = row_after x r" using row [OF 2(1,3) True] by auto
    have "task_at t k (f v r r)" using find_Some_set [OF 2(2) [unfolded lockDurableTask_def]] by (simp add: w(2) row_after_key)
    from view_write [where f = "f v r" and wher = "wher v r", OF 2(2) w(1) this] show ?thesis
      using True by (simp add: h w(2) x(4))
  next
    case False
    then have "h v \<noteq> Inr s" for s using locked [OF 2(1,3), of s] 2(2) by auto
    then show ?thesis using False by (cases "h v") auto
  qed
qed simp

definition follows_contract :: "runtime \<Rightarrow> task_op \<Rightarrow> task_table \<Rightarrow> bool" where
  "follows_contract rt x T \<longleftrightarrow>
     task_contract rt x (task_view T) (fst (task_exec rt x T)) (task_view (snd (task_exec rt x T)))"

lemma locked_lease_ok:
  "locked_lease now t k w v T = Inr r \<longleftrightarrow> lockDurableTask t k T = Some r \<and> under_lease now w r
     \<and> v = Fin (of_int (dt_task_version r))"
  by (auto simp: locked_lease_def andThen_Inr_iff lease_ok thrown_def split: option.split)

lemma under_lease_owned: "under_lease now w r \<Longrightarrow> owned_by w r"
  by (simp add: under_lease_def owned_by_def)

lemmas bump = next_version_def without_lease_def

lemma renew_contract: "follows_contract rt (OpRenew dbnow now t k w v d) T"
  unfolding follows_contract_def task_exec.simps snd_written renewTaskLease_def
  by (rule locked_op [OF _ _ _ _ _ _ _ _ refl])
     (auto simp: andThen_Inr_iff address_ok [symmetric] lease_ttl_ok locked_lease_ok under_lease_owned bump mult.commute)

lemma release_contract: "follows_contract rt (OpRelease dbnow now t k w v target) T"
  unfolding follows_contract_def task_exec.simps snd_written releaseTaskLease_def Let_def
  by (rule locked_op [OF _ _ _ _ _ _ _ _ refl])
     (auto simp: andThen_Inr_iff address_ok [symmetric] locked_lease_ok under_lease_owned bump or_default_def own_ok thrown_def
        assertTaskState_def DURABLE_TASK_STATES_def split: option.splits if_splits)

lemma progress_contract: "follows_contract rt (OpProgress dbnow now t k n p g) T"
  unfolding follows_contract_def task_exec.simps snd_written durable_updateTaskProgress_def
  by (rule locked_op [OF _ _ _ _ _ _ _ _ refl])
     (auto simp: andThen_Inr_iff identifier_ok address_def positive_ok writable_ok serializeJsonb_def thrown_def bump stored_json_def
       split: if_splits)

lemma transition_arguments:
  "(\<exists>q. andThen (assertIdentifier k 64 ''TASK_RUN_ID_REQUIRED'') (\<lambda>_.
        andThen (assertTaskState s) (\<lambda>_.
        andThen (if blank reason then thrown ''TASK_TRANSITION_REASON_REQUIRED'' else Inr ()) (\<lambda>_.
        andThen (if s \<in> set PARKED_STATES then assertCompleteCheckpoint p
                 else if p \<noteq> JUndef \<and> \<not> isPlainObject p then thrown ''TASK_PROGRESS_PAYLOAD_INVALID'' else Inr ()) (\<lambda>_.
        andThen (if s = AwaitingHuman then thrown ''TASK_PAUSE_REQUIRES_APPROVAL'' else Inr ()) (\<lambda>_.
        if p = JUndef then Inr None
        else andThen (serializeJsonb p ''TASK_PAYLOAD_UNSERIALIZABLE'') (\<lambda>p. Inr (Some p))))))) = Inr q)
   \<and> tenant_uuid t \<longleftrightarrow> well_called rt (OpTransition dbnow now t k s reason p g)" (is "?a \<longleftrightarrow> ?b")
proof -
  have o: "complete_checkpoint p \<Longrightarrow> \<exists>ms. p = JObj ms" by (auto simp: complete_checkpoint_def)
  have st: "assertTaskState s = Inr () \<longleftrightarrow> isTaskLifecycleState s" by (simp add: assertTaskState_def known_state)
  have ck: "assertCompleteCheckpoint p = Inr () \<longleftrightarrow> complete_checkpoint p" by (simp add: complete_iff complete_ok)
  have th: "\<not> (thrown c = Inr u)" for c and u :: unit by (simp add: thrown_def)
  show ?thesis
  proof (cases "s = Waiting")
    case True
    then show ?thesis using o st ck th
      by (auto simp: andThen_Inr_iff identifier_ok address_def PARKED_STATES_def serializeJsonb_def split: if_splits)
  next
    case False
    have "(\<exists>q. (if p = JUndef then Inr None else andThen (serializeJsonb p ''TASK_PAYLOAD_UNSERIALIZABLE'') (\<lambda>p. Inr (Some p)))
        = Inr q)" if "p = JUndef \<or> (\<exists>ms. p = JObj ms)"
      using that by (auto simp: serializeJsonb_def)
    then show ?thesis using False st th
      by (auto simp: andThen_Inr_iff identifier_ok address_def PARKED_STATES_def simp del: not_all split: if_splits)
  qed
qed

lemma transition_payload:
  assumes "andThen (assertIdentifier k 64 ''TASK_RUN_ID_REQUIRED'') (\<lambda>_.
        andThen (assertTaskState s) (\<lambda>_.
        andThen (if blank reason then thrown ''TASK_TRANSITION_REASON_REQUIRED'' else Inr ()) (\<lambda>_.
        andThen (if s \<in> set PARKED_STATES then assertCompleteCheckpoint p
                 else if p \<noteq> JUndef \<and> \<not> isPlainObject p then thrown ''TASK_PROGRESS_PAYLOAD_INVALID'' else Inr ()) (\<lambda>_.
        andThen (if s = AwaitingHuman then thrown ''TASK_PAUSE_REQUIRES_APPROVAL'' else Inr ()) (\<lambda>_.
        if p = JUndef then Inr None
        else andThen (serializeJsonb p ''TASK_PAYLOAD_UNSERIALIZABLE'') (\<lambda>p. Inr (Some p))))))) = Inr q"
  shows "q = (if p = JUndef then None else Some (stored_json p))" "s \<noteq> AwaitingHuman"
  using assms by (auto simp: andThen_Inr_iff serializeJsonb_def stored_json_def thrown_def eq_commute [of "Some _"]
      split: if_splits option.splits)

lemma transition_contract: "follows_contract rt (OpTransition dbnow now t k s reason p g) T"
  unfolding follows_contract_def task_exec.simps snd_written durable_transitionTask_def
proof (rule locked_op [OF _ _ _ _ _ _ _ _ refl], goal_cases)
  case (5)
  show ?case by (rule transition_arguments [symmetric])
next
  case (7 v r)
  have "transition_row dbnow s v r = row_after (OpTransition dbnow now t k s reason p g) r"
    using transition_payload [OF 7(1)]
    by (simp add: transition_row_def moved_to_def bump PARKED_STATES_def Let_def)
  then show ?case by simp
qed (auto simp: writable_ok)

lemma requeue_contract: "follows_contract rt (OpRequeue dbnow t k reason v) T"
  unfolding follows_contract_def task_exec.simps snd_written fst_written
proof (rule addressed_op [where k = k, OF _ _ _ _ _ _ _ requeueFailed_def], goal_cases)
  case (6 u r)
  let ?h = "andThen (assertRequeueable (lockDurableTask t k T)) (\<lambda>failed. assertGuard failed v)"
  show ?case
  proof (cases "may_write rt (OpRequeue dbnow t k reason v) r")
    case True
    then obtain b where b: "assertGuard r v = Inr b" using guard_ok [of r v] by auto
    then have "?h = Inr (dt_task_version r)" using 6(2) True assertGuard_version [OF b] by (simp add: assertRequeueable_def)
    moreover have "task_at t k r" using find_Some_set [OF 6(2) [unfolded lockDurableTask_def]] by simp
    moreover have "(\<lambda>r. next_version dbnow (without_lease (r\<lparr>dt_state := Queued, dt_last_error_class := None,
                 dt_error_details := JNull\<rparr>))) = row_after (OpRequeue dbnow t k reason v)"
      by (rule ext) (simp add: bump)
    ultimately show ?thesis
      using True view_write [OF 6(2), of "at_version (dt_task_version r)"
          "row_after (OpRequeue dbnow t k reason v)"] row_after_key [of t k "OpRequeue dbnow t k reason v" r]
      by (simp del: row_after.simps)
  next
    case False
    then have "\<not> (\<exists>b. ?h = Inr b)" using guard_ok [of r v] 6(2) by (auto simp: assertRequeueable_def thrown_def andThen_Inr_iff split: if_splits)
    then show ?thesis using False by (cases ?h) auto
  qed
next
  case (5 u)
  then show ?case by (auto simp: assertRequeueable_def thrown_def)
qed (auto simp: andThen_Inr_iff address_ok [symmetric] thrown_def split: if_splits)

lemma fail_contract: "follows_contract rt (OpFail dbnow now input) T"
proof -
  let ?x = "OpFail dbnow now input" and ?t = "fi_tenant_id input" and ?k = "fi_run_id input"
  define reply where "reply = (\<lambda>r :: (bool \<times> durable_task) result. case r of Inl e \<Rightarrow> TaskDenied e | Inr (q, r) \<Rightarrow> FailureRecorded q r)"
  have e: "task_exec rt ?x T = (reply (fst (durable_recordFailure dbnow now input T)), snd (durable_recordFailure dbnow now input T))"
    by (auto simp: reply_def split: prod.split sum.split)
  show ?thesis
    unfolding follows_contract_def e fst_conv snd_conv
  proof (rule addressed_op [where k = ?k, OF _ _ _ _ _ _ _ durable_recordFailure_def], goal_cases)
    case (6 details r)
    let ?h = "writable now ?t ?k ''TASK_NOT_PROGRESSABLE'' (fi_expected_task_version input) (fi_lease_owner input) T"
    show ?case
    proof (cases "may_write rt ?x r")
      case True
      then have h: "?h = Inr r" using 6(2) by (simp add: writable_ok)
      have d: "details = stored_json (fi_error_details input)"
        using 6(1) by (auto simp: checked_details_def andThen_Inr_iff thrown_def serializeJsonb_def stored_json_def
            split: if_splits option.splits)
      let ?q = "fi_error_class input = ''RETRYABLE'' \<and> dt_retry_count r < dt_max_retries r"
      let ?f = "if ?q then requeued_row dbnow (fi_error_class input) details else terminal_row dbnow (fi_error_class input) details"
      have f: "?f r = row_after ?x r" by (auto simp: requeued_row_def terminal_row_def bump d Let_def)
      have "task_at ?t ?k r" using find_Some_set [OF 6(2) [unfolded lockDurableTask_def]] by simp
      then have "task_at ?t ?k (?f r)" unfolding f by (simp only: row_after_key)
      from view_write [where wher = "at_version (dt_task_version r)" and f = ?f, OF 6(2) _ this]
      have w: "fst (write_task ?t ?k (at_version (dt_task_version r)) ?f T) = Inr (row_after ?x r)"
        "task_view (snd (write_task ?t ?k (at_version (dt_task_version r)) ?f T)) = (task_view T)((uuid_text ?t, ?k) \<mapsto> row_after ?x r)"
        by (simp_all only: f at_version_refl simp_thms)
      obtain a T' where aT: "write_task ?t ?k (at_version (dt_task_version r)) ?f T = (a, T')" by force
      show ?thesis using w True unfolding h sum.case Let_def aT by (simp add: reply_def)
    next
      case False
      then have "?h \<noteq> Inr s" for s using 6(2) by (auto simp: writable_ok)
      then show ?thesis using False by (cases ?h) auto
    qed
  next
    case (5 details)
    then show ?case by (auto simp: writable_def assertOpen_def thrown_def)
  next
    case (4)
    show ?case by (auto simp: checked_details_def andThen_Inr_iff address_ok [symmetric] thrown_def serializeJsonb_def split: if_splits)
  qed (simp_all add: reply_def)
qed

text \<open>Events.\<close>

lemma same_event_ok:
  "canonicalizeEvent rt ev = Inr c \<Longrightarrow> same_event rt a c = Inr True \<longleftrightarrow> same_text rt a ev"
  by (auto simp: same_event_def andThen_Inr_iff same_text_def)

lemma queue_event_contract:
  assumes r: "lockDurableTask t k T = Some r" and c: "canonicalizeEvent rt ev = Inr c"
  shows "if complete_checkpoint (dt_state_payload r) \<and> (held_event r \<noteq> JUndef \<longrightarrow> same_text rt (held_event r) ev)
    then fst (queue_event rt dbnow t k ev c code r T) = Inr (with_event dbnow ev r)
      \<and> task_view (snd (queue_event rt dbnow t k ev c code r T)) = (task_view T)((uuid_text t, k) \<mapsto> with_event dbnow ev r)
    else \<exists>e. queue_event rt dbnow t k ev c code r T = (Inl e, T)"
proof (cases "complete_checkpoint (dt_state_payload r)")
  case False
  then show ?thesis by (simp add: queue_event_def complete_iff complete_ok)
next
  case complete: True
  show ?thesis
  proof (cases "held_event r = JUndef")
    case True
    let ?p = "stored_json (JObj (AList.update ''resume_event'' ev (row_members r)))"
    have w: "event_row dbnow (dt_state r) ?p r = with_event dbnow ev r"
      using True by (simp add: with_event_def event_row_def bump)
    have "task_at t k r" using find_Some_set [OF r [unfolded lockDurableTask_def]] by simp
    then have "task_at t k (event_row dbnow (dt_state r) ?p r)" unfolding w by (simp add: with_event_def task_at_def)
    from view_write [where wher = "at_version (dt_task_version r)" and f = "event_row dbnow (dt_state r) ?p", OF r _ this]
    have "fst (write_task t k (at_version (dt_task_version r)) (event_row dbnow (dt_state r) ?p) T) = Inr (with_event dbnow ev r)"
      "task_view (snd (write_task t k (at_version (dt_task_version r)) (event_row dbnow (dt_state r) ?p) T))
        = (task_view T)((uuid_text t, k) \<mapsto> with_event dbnow ev r)"
      by (simp_all only: w at_version_refl simp_thms)
    moreover have "queue_event rt dbnow t k ev c code r T
        = write_task t k (at_version (dt_task_version r)) (event_row dbnow (dt_state r) ?p) T"
      using True complete
      by (simp add: queue_event_def complete_iff complete_ok members_ok serializeJsonb_def Let_def)
    ultimately show ?thesis using True complete by simp
  next
    case False
    have v: "(task_view T)((uuid_text t, k) \<mapsto> r) = task_view T" using r by (simp add: view_lock fun_upd_idem)
    show ?thesis
      using False complete same_event_ok [OF c, of "held_event r"] v
      by (cases "same_event rt (held_event r) c")
         (auto simp: queue_event_def complete_iff complete_ok members_ok Let_def with_event_def thrown_def)
  qed
qed

lemma event_case:
  assumes "lockDurableTask t k T = Some r" "canonicalizeEvent rt ev = Inr c" "P \<longleftrightarrow> Q \<and> complete_checkpoint (dt_state_payload r)
    \<and> (held_event r \<noteq> JUndef \<longrightarrow> same_text rt (held_event r) ev)"
    and "Q \<Longrightarrow> w = queue_event rt dbnow t k ev c code r T" and "\<not> Q \<Longrightarrow> \<exists>e. w = (Inl e, T)"
  shows "if P then reply_of (fst w) = TaskWritten (with_event dbnow ev r)
      \<and> task_view (snd w) = (task_view T)((uuid_text t, k) \<mapsto> with_event dbnow ev r)
    else \<exists>e. w = (Inl e, T)"
  using queue_event_contract [OF assms(1,2), of dbnow code] assms(3-5) by (cases Q) (auto split: if_splits)

lemma reconcile_contract: "follows_contract rt (OpReconcile dbnow input) T"
  unfolding follows_contract_def task_exec.simps snd_written fst_written
proof (rule addressed_op [where k = "rc_run_id input", OF _ _ _ _ _ _ _ queueReconciliation_def], goal_cases)
  case (6 c r)
  have c: "canonicalizeEvent rt (reconciliation_event input) = Inr c"
    using 6(1) by (auto simp: checked_reconciliation_def andThen_Inr_iff thrown_def split: if_splits)
  show ?case unfolding answer_for.simps row_after.simps
    by (rule event_case [OF 6(2) c, where Q = "dt_state r = Waiting"])
       (auto simp: 6(2) thrown_def TERMINAL_STATES_def)
next
  case 4
  show ?case
    by (auto simp: checked_reconciliation_def andThen_Inr_iff address_ok [symmetric] identifier_ok thrown_def split: if_splits)
qed (auto simp: thrown_def)

lemma evidence_contract: "follows_contract rt (OpEvidence dbnow input) T"
  unfolding follows_contract_def task_exec.simps snd_written fst_written
proof (rule addressed_op [where k = "he_run_id input", OF _ _ _ _ _ _ _ durable_queueHandoffEvidence_def], goal_cases)
  case (6 c r)
  have c: "canonicalizeEvent rt (handoff_evidence_event input) = Inr c"
    using 6(1) by (auto simp: andThen_Inr_iff thrown_def split: if_splits)
  show ?case unfolding answer_for.simps row_after.simps
    by (rule event_case [OF 6(2) c, where Q = "dt_state r = AwaitingHuman
          \<and> (\<forall>n. he_expected_task_version input = Some n \<longrightarrow> n = Fin (of_int (dt_task_version r)))"])
       (auto simp: 6(2) thrown_def TERMINAL_STATES_def split: option.splits)
next
  case 4
  show ?case
    by (auto simp: andThen_Inr_iff address_ok [symmetric] thrown_def split: if_splits)
qed (auto simp: thrown_def)

lemma clear_contract: "follows_contract rt (OpClear dbnow now t k v w ev) T"
  unfolding follows_contract_def task_exec.simps snd_written fst_written
proof (rule addressed_op [where k = k, OF _ _ _ _ _ _ _ durable_clearHandoffEvidence_def], goal_cases)
  case (6 c r)
  let ?x = "OpClear dbnow now t k v w ev"
  have c: "canonicalizeEvent rt ev = Inr c" using 6(1) by (auto simp: andThen_Inr_iff)
  let ?f = "\<lambda>r'. next_version dbnow (without_lease (r'\<lparr>dt_state_payload := stored_json (JObj (AList.delete ''resume_event'' (row_members r)))\<rparr>))"
  let ?wher = "\<lambda>r. dt_state r = AwaitingHuman \<and> at_version (int_column v) r \<and> owned_by w r"
  have f: "?f r = row_after ?x r" by (simp add: bump)
  have "task_at t k r" using find_Some_set [OF 6(2) [unfolded lockDurableTask_def]] by simp
  then have k: "task_at t k (?f r)" unfolding f by (simp only: row_after_key)
  show ?case
  proof (cases "may_write rt ?x r")
    case True
    then have w: "?wher r" using under_lease_owned by (auto simp: at_version_def whole_def)
    from True obtain u where u: "assertLeaseHeld now r (Some w) = Inr u" using lease_ok by auto
    show ?thesis
      using True view_write [where wher = ?wher and f = ?f, OF 6(2) w k] u same_event_ok [OF c, of "held_event r"]
      unfolding f by (auto simp: 6(2) members_ok serializeJsonb_def Let_def)
  next
    case False
    then show ?thesis
      using lease_ok [of now r w] same_event_ok [OF c, of "held_event r"]
      by (cases "assertLeaseHeld now r (Some w)"; cases "same_event rt (held_event r) c")
         (auto simp: 6(2) members_ok thrown_def Let_def)
  qed
next
  case 4
  show ?case by (auto simp: andThen_Inr_iff address_ok [symmetric] identifier_ok)
qed (auto simp: thrown_def)

subsection \<open>Creations and claims\<close>

lemma view_free: "list_ex (task_at t k) T \<longleftrightarrow> task_view T (uuid_text t, k) \<noteq> None"
  by (auto simp: view_lock lockDurableTask_def list_ex_iff find_None_set)

lemma identity_ok: "tenant_uuid (ct_tenant_id ci) \<Longrightarrow> assert_task_identity ci = Inr ()
    \<longleftrightarrow> address (ct_tenant_id ci) (ct_run_id ci) \<and> short_text 64 (ct_correlation_id ci)"
  using uuid_short [of "ct_tenant_id ci"] by (auto simp: assert_task_identity_def andThen_Inr_iff identifier_ok address_def)

lemma creatable_ok:
  assumes "whole_from 0 step" "ct_current_step ci = Some step \<or> ct_current_step ci = None \<and> step = Fin 1"
    and "ct_state ci = Some s \<or> ct_state ci = None \<and> s = Queued" "tenant_uuid (ct_tenant_id ci)"
  shows "(\<exists>p. checked_payload ci = Inr p) \<longleftrightarrow> creatable ci step s"
    and "checked_payload ci = Inr p \<Longrightarrow> opening_row i dbnow ci p = created_row i dbnow ci step s"
proof -
  have d: "or_default (ct_current_step ci) (Fin 1) = step" "or_default (ct_state ci) Queued = s"
    using assms(2,3) by (auto simp: or_default_def)
  have n: "is_natural (or_default (ct_max_retries ci) (Fin 3)) \<longleftrightarrow> (case ct_max_retries ci of None \<Rightarrow> True | Some n \<Rightarrow> whole_from 0 n)"
    by (auto simp: or_default_def natural_ok simp del: is_natural.simps split: option.split) (auto simp: whole_from_def intro: exI [of _ 3])
  have id: "assert_task_identity ci = Inr () \<longleftrightarrow> address (ct_tenant_id ci) (ct_run_id ci) \<and> short_text 64 (ct_correlation_id ci)"
    by (rule identity_ok [OF assms(4)])
  have st: "assertTaskState s = Inr () \<longleftrightarrow> isTaskLifecycleState s" by (simp add: assertTaskState_def known_state)
  have rp: "assert_retries_and_park ci = Inr () \<longleftrightarrow> (case ct_max_retries ci of None \<Rightarrow> True | Some n \<Rightarrow> whole_from 0 n)
      \<and> (s \<in> {Waiting, AwaitingHuman} \<longrightarrow> complete_checkpoint (ct_state_payload ci))"
    unfolding assert_retries_and_park_def n d by (auto simp: thrown_def PARKED_STATES_def complete_iff complete_ok)
  have un: "serializeJsonb (if ct_state_payload ci = JUndef \<or> ct_state_payload ci = JNull then JObj [] else ct_state_payload ci)
      ''TASK_PAYLOAD_UNSERIALIZABLE'' = Inr p \<longleftrightarrow> (ct_state_payload ci \<noteq> JUndef \<longrightarrow> stringified (ct_state_payload ci) \<noteq> None)
      \<and> p = (if ct_state_payload ci \<in> {JUndef, JNull} then JObj [] else stored_json (ct_state_payload ci))" for p
    by (auto simp: serializeJsonb_def stored_json_def split: option.split)
  have nat: "is_natural step" using assms(1) by (simp only: natural_ok)
  have all: "checked_payload ci = Inr p \<longleftrightarrow> creatable ci step s
      \<and> p = (if ct_state_payload ci \<in> {JUndef, JNull} then JObj [] else stored_json (ct_state_payload ci))" for p
    unfolding checked_payload_def Let_def d andThen_Inr_iff
    using nat id st rp un [of p] by (auto simp: creatable_def)
  then show "(\<exists>p. checked_payload ci = Inr p) \<longleftrightarrow> creatable ci step s" by blast
  show "opening_row i dbnow ci p = created_row i dbnow ci step s" if "checked_payload ci = Inr p"
    using that all d by (simp add: opening_row_def created_row_def or_default_def whole_def split: option.split)
qed

lemma insert_contract:
  assumes "created x = Some (created_row i dbnow ci step s)" "task_op_tenant x = ct_tenant_id ci"
    and "whole_from 0 step" "ct_current_step ci = Some step \<or> ct_current_step ci = None \<and> step = Fin 1"
    and "ct_state ci = Some s \<or> ct_state ci = None \<and> s = Queued"
    and "well_called rt x \<longleftrightarrow> creatable ci step s" "tenant_uuid (ct_tenant_id ci)"
  shows "task_contract rt x (task_view T) (fst (written (insertDurableTask i dbnow ci T))) (task_view (snd (insertDurableTask i dbnow ci T)))"
proof -
  note ok = creatable_ok [OF assms(3-5,7)]
  let ?r = "created_row i dbnow ci step s"
  have k: "dt_run_id ?r = ct_run_id ci" "dt_tenant_id ?r = uuid_text (ct_tenant_id ci)" by (simp_all add: created_row_def)
  show ?thesis
  proof (cases "checked_payload ci")
    case (Inl e)
    then have "\<not> creatable ci step s" using ok(1) by simp
    then show ?thesis using Inl assms(6) by (simp add: task_contract_def insertDurableTask_def fst_written Let_def)
  next
    case (Inr p)
    then have "creatable ci step s" "opening_row i dbnow ci p = ?r" using ok by auto
    then show ?thesis
      using Inr assms(1,2,6) view_append [of T ?r] k
      by (simp add: task_contract_def insertDurableTask_def fst_written view_free Let_def)
  qed
qed

lemma created_input [simp]: "creatable (ci\<lparr>ct_state := a, ct_current_step := b\<rparr>) step s = creatable ci step s"
  "created_row i n (ci\<lparr>ct_state := a, ct_current_step := b\<rparr>) step s = created_row i n ci step s"
  by (simp_all add: creatable_def created_row_def)

lemma not_called: "\<not> well_called rt x \<Longrightarrow> task_contract rt x V (TaskDenied e) V"
  by (simp add: task_contract_def)

lemma admit_contract: "follows_contract rt (OpAdmit i dbnow ci) T"
proof -
  let ?x = "OpAdmit i dbnow ci" and ?ci = "ci\<lparr>ct_state := Some Queued, ct_current_step := Some (Fin 0)\<rparr>"
  have z: "whole_from 0 (Fin 0)" by (auto simp: whole_from_def)
  show ?thesis
  proof (cases "assert_task_identity ci = Inr () \<and> tenant_uuid (ct_tenant_id ci)")
    case True
    have "task_contract rt ?x (task_view T) (fst (written (insertDurableTask i dbnow ?ci T))) (task_view (snd (insertDurableTask i dbnow ?ci T)))"
      by (rule insert_contract [where s = Queued, OF _ _ z]) (use True in auto)
    then show ?thesis using True tenant_ok [of "ct_tenant_id ci"]
      by (simp add: follows_contract_def createQueuedAdmissionTask_def in_tenant_def)
  next
    case False
    then have w: "\<not> well_called rt ?x"
      using identity_ok [of ci] by (auto simp: creatable_def address_def)
    obtain e where "createQueuedAdmissionTask i dbnow ci T = (Inl e, T)"
      using False tenant_ok [of "ct_tenant_id ci"]
      by (cases "assert_task_identity ci"; cases "assertTenantContext (ct_tenant_id ci)")
         (auto simp: createQueuedAdmissionTask_def in_tenant_def)
    then show ?thesis using not_called [OF w] by (simp add: follows_contract_def fst_written)
  qed
qed

lemma create_contract: "follows_contract rt (OpCreate i dbnow ci) T"
proof -
  let ?x = "OpCreate i dbnow ci"
  let ?step = "case ct_current_step ci of None \<Rightarrow> Fin 1 | Some n \<Rightarrow> n" and ?s = "case ct_state ci of None \<Rightarrow> Queued | Some s \<Rightarrow> s"
  let ?g = "andThen (assert_task_identity ci) (\<lambda>_.
        andThen (assertTaskState (or_default (ct_state ci) Queued)) (\<lambda>_.
        andThen (assertPositiveInteger (or_default (ct_current_step ci) (Fin 1)) ''TASK_CURRENT_STEP_INVALID'') (\<lambda>_.
        assert_retries_and_park ci)))"
  have d: "or_default (ct_current_step ci) (Fin 1) = ?step" by (simp add: or_default_def)
  show ?thesis
  proof (cases "?g = Inr () \<and> tenant_uuid (ct_tenant_id ci)")
    case True
    then have p: "whole_from 1 ?step" by (simp add: andThen_Inr_iff positive_ok d)
    then have z: "whole_from 0 ?step" by (force simp: whole_from_def)
    have "task_contract rt ?x (task_view T) (fst (written (insertDurableTask i dbnow ci T))) (task_view (snd (insertDurableTask i dbnow ci T)))"
      by (rule insert_contract [where s = ?s, OF _ _ z]) (use True p in \<open>auto split: option.split\<close>)
    then show ?thesis using True tenant_ok [of "ct_tenant_id ci"]
      by (simp add: follows_contract_def durable_createTask_def in_tenant_def)
  next
    case False
    have "\<not> well_called rt ?x"
    proof
      assume w: "well_called rt ?x"
      then have t: "tenant_uuid (ct_tenant_id ci)" "whole_from 1 ?step" by (simp_all add: creatable_def address_def)
      then have z: "whole_from 0 ?step" by (force simp: whole_from_def)
      have "\<exists>p. checked_payload ci = Inr p"
        using creatable_ok(1) [OF z _ _ t(1), of ?s] w by (auto split: option.splits)
      then have "?g = Inr ()" using t(2) by (auto simp: checked_payload_def andThen_Inr_iff positive_ok d Let_def)
      then show False using False t by simp
    qed
    moreover obtain e where "durable_createTask i dbnow ci T = (Inl e, T)"
      using False tenant_ok [of "ct_tenant_id ci"]
      by (cases ?g; cases "assertTenantContext (ct_tenant_id ci)") (auto simp: durable_createTask_def in_tenant_def)
    ultimately show ?thesis using not_called by (simp add: follows_contract_def fst_written)
  qed
qed

lemma oldest_None: "oldest rs = None \<longleftrightarrow> rs = []"
  by (induction rs) (auto split: option.split)

lemma oldest_Some: "oldest rs = Some r \<Longrightarrow> r \<in> set rs \<and> (\<forall>s \<in> set rs. dt_created_at r \<le> dt_created_at s)"
proof (induction rs arbitrary: r)
  case Nil
  then show ?case by simp
next
  case (Cons a rs)
  show ?case
  proof (cases "oldest rs")
    case None
    then show ?thesis using Cons.prems by (simp add: oldest_None)
  next
    case (Some q)
    from Cons.IH [OF Some] Cons.prems Some show ?thesis by (auto split: if_splits)
  qed
qed

lemma unique_lock:
  assumes "unique_tasks T" "r \<in> set T" "dt_tenant_id r = uuid_text t"
  shows "lockDurableTask t (dt_run_id r) T = Some r"
proof -
  have "find (task_at t (dt_run_id r)) T \<noteq> None" using assms(2,3) by (auto simp: find_None_set task_at_def)
  then obtain s where s: "find (task_at t (dt_run_id r)) T = Some s" by auto
  then have "s \<in> set T" "(dt_tenant_id s, dt_run_id s) = (dt_tenant_id r, dt_run_id r)"
    using find_Some_set [OF s] assms(3) by (auto simp: task_at_def)
  then have "s = r" using assms(1,2) by (auto simp: unique_tasks_def distinct_map dest: inj_onD)
  then show ?thesis using s by (simp add: lockDurableTask_def)
qed

lemma candidate_rows:
  assumes "unique_tasks T"
  shows "candidates (OpClaim dbnow skipped t w d) (task_view T)
    = set (filter (\<lambda>r. dt_tenant_id r = uuid_text t \<and> claimable dbnow r \<and> dt_run_id r \<notin> set skipped) T)"
    (is "?c = ?f")
proof (rule set_eqI)
  fix r
  have "(\<exists>k. lockDurableTask t k T = Some r) \<longleftrightarrow> r \<in> set T \<and> dt_tenant_id r = uuid_text t"
    using unique_lock [OF assms, of r t] locked_key [of t _ T r] by (auto simp: task_at_def)
  then show "r \<in> ?c \<longleftrightarrow> r \<in> ?f" by (auto simp: candidates_def view_lock)
qed

lemma claim_contract:
  assumes "unique_tasks T"
  shows "follows_contract rt (OpClaim dbnow skipped t w d) T"
proof -
  let ?x = "OpClaim dbnow skipped t w d"
  let ?g = "andThen (assertIdentifier t 36 ''TASK_TENANT_ID_REQUIRED'') (\<lambda>_.
        andThen (assertIdentifier w 128 ''TASK_LEASE_OWNER_REQUIRED'') (\<lambda>_. lease_ttl d))"
  let ?rows = "filter (\<lambda>r. dt_tenant_id r = uuid_text t \<and> claimable dbnow r \<and> dt_run_id r \<notin> set skipped) T"
  show ?thesis
  proof (cases "(\<exists>ttl. ?g = Inr ttl) \<and> tenant_uuid t")
    case False
    then have w: "\<not> well_called rt ?x" using uuid_short [of t] by (auto simp: andThen_Inr_iff identifier_ok lease_ttl_ok)
    obtain e where "claimNextQueuedTask dbnow skipped t w d T = (Inl e, T)"
      using False tenant_ok [of t]
      by (cases ?g; cases "assertTenantContext t") (auto simp: claimNextQueuedTask_def in_tenant_def)
    then show ?thesis using not_called [OF w] by (simp add: follows_contract_def)
  next
    case True
    then obtain ttl where g: "?g = Inr ttl" and t: "tenant_uuid t" by blast
    then have w: "well_called rt ?x" and ttl: "ttl = (case d of None \<Rightarrow> 30000 | Some n \<Rightarrow> whole n)"
      by (auto simp: andThen_Inr_iff identifier_ok lease_ttl_ok)
    note c = claimNextQueuedTask_def [of dbnow skipped t w d T, unfolded g sum.case in_tenant_def tenant_ok [THEN iffD2, OF t]]
    note cand = candidate_rows [OF assms, of dbnow skipped t w d]
    show ?thesis
    proof (cases "oldest ?rows")
      case None
      then have "candidates ?x (task_view T) = {}" unfolding cand by (simp add: oldest_None)
      then show ?thesis using w None by (simp add: follows_contract_def task_contract_def c)
    next
      case (Some r)
      have r: "r \<in> candidates ?x (task_view T)" "\<forall>s \<in> candidates ?x (task_view T). dt_created_at r \<le> dt_created_at s"
        using oldest_Some [OF Some] unfolding cand by auto
      then have "r \<in> set T" "dt_tenant_id r = uuid_text t" and tk: "takeable dbnow r" unfolding cand by auto
      from unique_lock [OF assms this(1,2)] have l: "lockDurableTask t (dt_run_id r) T = Some r" .
      show ?thesis
      proof (cases "length w \<le> 64")
        case False
        then have "task_exec rt ?x T = (TaskDenied (ThrownError ''22001''), T)" using Some by (simp add: c thrown_def)
        then show ?thesis using w r False unfolding follows_contract_def task_contract_def Let_def
          by (auto intro!: bexI [of _ r])
      next
        case True
        let ?wher = "\<lambda>s. at_version (dt_task_version r) s \<and> claimable dbnow s"
        have f: "claimed dbnow w ttl r = row_after ?x r"
          using tk by (auto simp: claimed_def bump ttl takeable_def mult.commute split: option.split)
        have "task_at t (dt_run_id r) r" using locked_key [OF l] by simp
        then have "task_at t (dt_run_id r) (claimed dbnow w ttl r)" unfolding f by (simp only: row_after_key)
        from view_write [where wher = ?wher and f = "claimed dbnow w ttl", OF l _ this] tk
        have v: "fst (write_task t (dt_run_id r) ?wher (claimed dbnow w ttl) T) = Inr (row_after ?x r)"
          "task_view (snd (write_task t (dt_run_id r) ?wher (claimed dbnow w ttl) T))
            = (task_view T)((uuid_text t, dt_run_id r) \<mapsto> row_after ?x r)" unfolding f by simp_all
        obtain a T' where aT: "write_task t (dt_run_id r) ?wher (claimed dbnow w ttl) T = (a, T')" by force
        have e: "task_exec rt ?x T = (TaskWritten (row_after ?x r), T')"
          using v(1) True Some unfolding aT by (simp add: c aT del: row_after.simps takeable_ok)
        show ?thesis
          unfolding follows_contract_def e task_contract_def Let_def
          using w r v(2) True tk unfolding aT by (auto simp del: row_after.simps intro!: bexI [of _ r])
      qed
    qed
  qed
qed

lemma unique_step: "unique_tasks T \<Longrightarrow> unique_tasks (snd (task_exec rt x T))"
proof -
  assume u: "unique_tasks T"
  from task_exec_effect [of x T rt] consider
      (same) "snd (task_exec rt x T) = T"
    | (new) n where "fresh_row x n" "\<not> list_ex (task_at (task_op_tenant x) (dt_run_id n)) T" "snd (task_exec rt x T) = T @ [n]"
    | (upd) P f r0 where "find P T = Some r0" "row_write x r0 (f r0)" "snd (task_exec rt x T) = update_first P f T"
    unfolding task_effect_def by blast
  then show ?thesis
  proof cases
    case same
    then show ?thesis using u by simp
  next
    case new
    then have "dt_tenant_id n = uuid_text (task_op_tenant x)" using fresh_row_facts(1) by (simp add: task_at_def)
    then show ?thesis using u new(2,3) by (auto simp: unique_tasks_def list_ex_iff task_at_def)
  next
    case upd
    have "map (\<lambda>r. (dt_tenant_id r, dt_run_id r)) (update_first P f T) = map (\<lambda>r. (dt_tenant_id r, dt_run_id r)) T"
      using upd(1) row_write_identity [OF upd(2)]
      by (induction T) (auto simp: task_identity_def split: if_splits)
    then show ?thesis using u upd(3) by (simp add: unique_tasks_def)
  qed
qed

lemma task_exec_contract: "unique_tasks T \<Longrightarrow> follows_contract rt x T"
  by (cases x) (simp_all only: create_contract admit_contract claim_contract renew_contract release_contract progress_contract
    transition_contract fail_contract requeue_contract reconcile_contract evidence_contract clear_contract)

lemma contract_simulates:
  "unique_tasks T \<Longrightarrow>
   contract_history rt (fst (run_ops (task_exec rt) xs T)) (task_view T) (task_view (snd (run_ops (task_exec rt) xs T)))"
proof (induction xs arbitrary: T)
  case Nil
  then show ?case by simp
next
  case (Cons x xs)
  then show ?case
    using task_exec_contract [OF Cons.prems, of rt x] Cons.IH [OF unique_step [OF Cons.prems, of rt x]]
    by (auto simp: follows_contract_def)
qed

text \<open>
  C8: the repository refines its contract: in every history from the empty table, whatever operations are asked
  in whatever order, each one is refused and changes nothing, exactly when its arguments or the row it addresses
  do not meet the contract's conditions, or does to the one row it addresses what the contract spells out field
  by field, and answers that row; a claim takes a row that no claimable row of the tenant is older than.
\<close>

theorem repository_implements_its_contract:
  "contract_history rt (fst (run_ops (task_exec rt) xs [])) Map.empty (task_view (snd (run_ops (task_exec rt) xs [])))"
proof -
  have "task_view [] = Map.empty" by (rule ext) (simp add: task_view_def)
  then show ?thesis using contract_simulates [of "[]" rt xs] by (simp add: unique_tasks_def)
qed

end
