(* ===== verification/TaskParking.thy ===== *)
theory TaskParking
  imports TaskProperties
begin

text \<open>
  Parked runs in the durable task table: what a resume event leaves of the checkpoint, who may queue
  one, which operations keep a parked row resumable and which do not.
\<close>

subsection \<open>Merging an event into a checkpoint\<close>

text \<open>A JavaScript object and a \<open>jsonb\<close> object have one member per key.\<close>

definition plain_keys :: "json \<Rightarrow> bool" where
  "plain_keys v \<longleftrightarrow> (\<forall>o1. v = JObj o1 \<longrightarrow> distinct (map fst o1))"

lemma stringified_keys: "k \<in> set (map fst (stringified_members ms)) \<Longrightarrow> k \<in> set (map fst ms)"
proof (induction ms)
  case (Cons m ms)
  then show ?case by (cases m; cases "stringified (snd m)") auto
qed simp

lemma distinct_stringified: "distinct (map fst ms) \<Longrightarrow> distinct (map fst (stringified_members ms))"
proof (induction ms)
  case (Cons m ms)
  then show ?case using stringified_keys [of "fst m" ms] by (cases m; cases "stringified (snd m)") auto
qed simp

lemma distinct_spread: "distinct (map fst a) \<Longrightarrow> distinct (map fst (spread a b))"
  by (induction b arbitrary: a) (auto simp: distinct_update)

lemma member_spread: "distinct (map fst b) \<Longrightarrow> member b k \<noteq> JUndef \<Longrightarrow> member (spread a b) k = member b k"
  by (auto simp: member_def map_of_spread split: option.splits)

lemma complete_member: "complete_payload (JObj o1) \<Longrightarrow> k \<in> set CHECKPOINT_MEMBERS \<Longrightarrow> member o1 k \<noteq> JUndef"
  by (auto simp: complete_payload_def assertCompleteCheckpoint_def list_ex_iff split: if_splits)

lemma complete_merged:
  assumes "complete_payload (JObj b)" "distinct (map fst b)"
  shows "complete_payload (JObj (spread a b))"
  using assms complete_same_members [of "spread a b" b] by (simp add: member_spread complete_member)

lemma resume_event_is_no_member: "k \<in> set CHECKPOINT_MEMBERS \<Longrightarrow> k \<noteq> ''resume_event''"
  by (auto simp: CHECKPOINT_MEMBERS_def)

lemma merged_event:
  assumes "complete_payload (JObj o1)" "distinct (map fst o1)"
    and "stringified (JObj (spread o1 [(''resume_event'', ev)])) = Some p" "stringified ev = Some w"
  shows "\<exists>y. jsonb_concat (JObj o1) p = JObj y \<and> distinct (map fst y) \<and> complete_payload (JObj y)
    \<and> member y ''resume_event'' = w"
proof -
  let ?s = "spread o1 [(''resume_event'', ev)]" and ?b = "stringified_members (spread o1 [(''resume_event'', ev)])"
  have p: "p = JObj ?b" using assms(3) by simp
  have d: "distinct (map fst ?b)" using assms(2) by (intro distinct_stringified distinct_spread)
  have "complete_payload (JObj ?s)"
    using assms(1) complete_same_members [of ?s o1] by (simp add: member_update resume_event_is_no_member)
  then have c: "complete_payload (JObj ?b)" using complete_stored by fastforce
  have "w \<noteq> JUndef" using assms(4) by (cases ev) (auto split: if_splits)
  then have "member (spread o1 ?b) ''resume_event'' = w"
    using stringified_member [of ?s "''resume_event''" w] assms(4) member_spread [OF d]
    by (simp add: member_update)
  moreover have "jsonb_concat (JObj o1) p = JObj (spread o1 ?b)" by (simp add: jsonb_concat_def p)
  ultimately show ?thesis using d c complete_merged assms(2) distinct_spread by auto
qed

subsection \<open>The first reconciliation decides\<close>


lemma event_row_key [simp]: "task_at t k (event_row n s p r) = task_at t k r"
  by (simp add: event_row_def next_version_def without_lease_def task_at_def)

lemma event_row_sel [simp]:
  "dt_state (event_row n s p r) = s" "dt_state_payload (event_row n s p r) = jsonb_concat (dt_state_payload r) p"
  "dt_lease_owner (event_row n s p r) = None"
  by (simp_all add: event_row_def next_version_def without_lease_def)



subsection \<open>What keeps a parked row resumable\<close>

definition resumable :: "durable_task \<Rightarrow> bool" where
  "resumable r \<longleftrightarrow> plain_keys (dt_state_payload r)
     \<and> (dt_state r \<in> set PARKED_STATES \<longrightarrow> complete_payload (dt_state_payload r))"

text \<open>What each of the six members of a checkpoint has to look like.\<close>

definition member_fits :: "string \<Rightarrow> json \<Rightarrow> bool" where
  "member_fits k v \<longleftrightarrow>
     (if k = ''current_step'' then \<exists>q. v = JNum (Fin q) \<and> is_int_rat q \<and> 1 \<le> q
      else if k \<in> {''plan'', ''context''} then \<exists>o1. v = JObj o1
      else if k = ''pending_action'' then v = JNull \<or> (\<exists>o1. v = JObj o1)
      else if k = ''previous_evidence_hash'' then \<exists>h. v = JStr h \<and> isSha256Hex h
      else k = ''request_id'' \<and> (\<exists>r. v = JStr r \<and> \<not> blank r))"

lemma shape_members: "checkpoint_shape m \<longleftrightarrow> (\<forall>k \<in> set CHECKPOINT_MEMBERS. member_fits k (m k))"
  by (simp add: checkpoint_shape_def member_fits_def CHECKPOINT_MEMBERS_def conj_ac)

lemma member_fits_stored: "member_fits k v \<Longrightarrow> \<exists>w. stringified v = Some w \<and> member_fits k w"
  by (auto simp: member_fits_def split: if_splits)

text \<open>A part of a checkpoint: an object with one member per key, those of the six that it has in shape.\<close>

definition checkpoint_part :: "json \<Rightarrow> bool" where
  "checkpoint_part p \<longleftrightarrow> (\<exists>ms. p = JObj ms \<and> distinct (map fst ms)
     \<and> (\<forall>k \<in> set CHECKPOINT_MEMBERS. member ms k = JUndef \<or> member_fits k (member ms k)))"

text \<open>
  What a caller minds for the sake of parked runs. A payload it hands over is an object with one member per
  key; a progress write to a waiting run hands over a part of a checkpoint; a release into a parked state is
  made of a run that is parked already. The repository checks neither of the last two.
\<close>

fun minds_parked :: "task_op \<Rightarrow> task_table \<Rightarrow> bool" where
  "minds_parked (OpProgress _ _ t k _ p _) T \<longleftrightarrow> (\<forall>r \<in> set T. task_at t k r \<and> dt_state r = Waiting \<longrightarrow> checkpoint_part p)"
| "minds_parked (OpRelease _ _ t k _ _ target) T \<longleftrightarrow>
     (\<forall>r \<in> set T. task_at t k r \<and> or_default target Queued \<in> set PARKED_STATES \<longrightarrow> dt_state r \<in> set PARKED_STATES)"
| "minds_parked (OpCreate _ _ input) T \<longleftrightarrow> plain_keys (ct_state_payload input)"
| "minds_parked (OpAdmit _ _ input) T \<longleftrightarrow> plain_keys (ct_state_payload input)"
| "minds_parked (OpTransition _ _ _ _ _ _ p _) T \<longleftrightarrow> plain_keys p"
| "minds_parked _ T \<longleftrightarrow> True"

fun all_mind_parked :: "runtime \<Rightarrow> task_op list \<Rightarrow> task_table \<Rightarrow> bool" where
  "all_mind_parked rt [] T \<longleftrightarrow> True"
| "all_mind_parked rt (x # xs) T \<longleftrightarrow> minds_parked x T \<and> all_mind_parked rt xs (snd (task_exec rt x T))"

lemma plain_stringified: "plain_keys v \<Longrightarrow> stringified v = Some w \<Longrightarrow> plain_keys w"
  by (cases v) (auto simp: plain_keys_def distinct_stringified split: if_splits)

lemma plain_concat: "plain_keys a \<Longrightarrow> plain_keys (jsonb_concat a b)"
  by (cases a; cases b) (simp_all add: plain_keys_def jsonb_concat_def distinct_spread)

lemma resumable_event:
  assumes "event_queued n ev r r'" "resumable r" "stringified ev \<noteq> None"
  shows "resumable r'"
proof -
  have "complete_payload (dt_state_payload r)" using assms(1) by (simp add: event_queued_def)
  then obtain o1 where o: "dt_state_payload r = JObj o1" "complete_payload (JObj o1)"
    using complete_object by (metis (full_types))
  obtain w where w: "stringified ev = Some w" using assms(3) by blast
  obtain p where p: "stringified (JObj (spread o1 [(''resume_event'', ev)])) = Some p"
    "r' = event_row n (dt_state r) p r" using assms(1) o by (auto simp: event_queued_def plain_members_def)
  from merged_event [OF o(2) _ p(1) w] assms(2) o obtain y where
    "jsonb_concat (JObj o1) p = JObj y" "distinct (map fst y)" "complete_payload (JObj y)"
    by (auto simp: resumable_def plain_keys_def)
  then show ?thesis using p(2) o(1) by (simp add: resumable_def plain_keys_def)
qed

lemma complete_cleared:
  assumes "resumable r" "dt_state r = AwaitingHuman"
    and "stringified (JObj (AList.delete ''resume_event'' (plain_members (dt_state_payload r)))) = Some p"
  shows "plain_keys p \<and> complete_payload p"
proof -
  have c: "complete_payload (dt_state_payload r)" using assms(1,2) by (simp add: resumable_def PARKED_STATES_def)
  then obtain o1 where o: "dt_state_payload r = JObj o1" using complete_object by blast
  let ?d = "AList.delete ''resume_event'' o1"
  have "complete_payload (JObj ?d)"
    using c o complete_same_members [of ?d o1] by (simp add: member_delete resume_event_is_no_member)
  then obtain w where "stringified (JObj ?d) = Some w" "complete_payload w" using complete_stored by blast
  moreover have "plain_keys (JObj ?d)"
    using assms(1) o by (simp add: resumable_def plain_keys_def distinct_delete)
  ultimately show ?thesis using assms(3) o plain_stringified by (auto simp: plain_members_def)
qed

lemma resumable_transition:
  assumes "resumable r" "isTaskLifecycleState s" "s \<noteq> AwaitingHuman" "s = Waiting \<longrightarrow> complete_payload p" "plain_keys p"
  shows "resumable (transition_row n s (stringified p) r)"
proof -
  have st: "dt_state (transition_row n s q r) = s" for q
    by (simp add: transition_row_def moved_to_def without_lease_def next_version_def Let_def)
  have pay: "dt_state_payload (transition_row n s q r) = (case q of None \<Rightarrow> dt_state_payload r
      | Some w \<Rightarrow> if s \<in> set PARKED_STATES then w else jsonb_concat (dt_state_payload r) w)" for q
    by (simp add: transition_row_def)
  show ?thesis
  proof (cases "s = Waiting")
    case True
    then obtain w where "stringified p = Some w" "complete_payload w" using assms(4) complete_stored by blast
    then show ?thesis unfolding resumable_def st pay using plain_stringified [OF assms(5)] True
      by (simp add: PARKED_STATES_def)
  next
    case False
    then show ?thesis unfolding resumable_def st pay using assms(1,3) False
      by (simp add: resumable_def PARKED_STATES_def plain_concat split: option.split)
  qed
qed

text \<open>A part of a checkpoint merged into a complete one leaves it complete.\<close>

lemma member_stringified:
  "distinct (map fst ms) \<Longrightarrow> member (stringified_members ms) k
     = (case stringified (member ms k) of None \<Rightarrow> JUndef | Some w \<Rightarrow> w)"
proof (induction ms)
  case Nil
  then show ?case by (simp add: member_def)
next
  case (Cons m ms)
  then have "fst m = k \<Longrightarrow> k \<notin> fst ` set (stringified_members ms)" using stringified_keys [of k ms] by auto
  then have "fst m = k \<Longrightarrow> member (stringified_members ms) k = JUndef"
    by (simp add: member_def map_of_eq_None_iff [THEN iffD2])
  then show ?case using Cons by (cases m; cases "stringified (snd m)") (auto simp: member_Cons)
qed

lemma complete_part:
  assumes "complete_payload (JObj o1)" "checkpoint_part p" "stringified p = Some q"
  shows "complete_payload (jsonb_concat (JObj o1) q)"
proof -
  obtain ms where ms: "p = JObj ms" "distinct (map fst ms)"
    "\<forall>k \<in> set CHECKPOINT_MEMBERS. member ms k = JUndef \<or> member_fits k (member ms k)"
    using assms(2) by (auto simp: checkpoint_part_def)
  let ?b = "stringified_members ms"
  have d: "distinct (map fst ?b)" using ms(2) by (rule distinct_stringified)
  have "member_fits k (member (spread o1 ?b) k)" if k: "k \<in> set CHECKPOINT_MEMBERS" for k
  proof (cases "member ?b k = JUndef")
    case True
    have "k \<notin> fst ` set ?b"
    proof
      assume "k \<in> fst ` set ?b"
      then obtain v where v: "map_of ?b k = Some v" by (metis map_of_eq_None_iff not_Some_eq)
      then have "(k, v) \<in> set ?b" by (rule map_of_SomeD)
      moreover have "(k, v) \<in> set (stringified_members ns) \<Longrightarrow> v \<noteq> JUndef" for ns
      proof (induction ns)
        case (Cons n ns)
        then show ?case by (cases n; cases "snd n") (auto split: if_splits)
      qed simp
      ultimately show False using True v by (simp add: member_def)
    qed
    then have "member (spread o1 ?b) k = member o1 k" by (simp add: member_def map_of_spread_absent)
    then show ?thesis using assms(1) k complete_object_iff shape_members by auto
  next
    case False
    then have "member (spread o1 ?b) k = member ?b k" by (rule member_spread [OF d])
    moreover have "member ms k \<noteq> JUndef" using False member_stringified [OF ms(2), of k] by auto
    then obtain w where "stringified (member ms k) = Some w" "member_fits k w" using ms(3) k member_fits_stored by blast
    ultimately show ?thesis using member_stringified [OF ms(2), of k] by simp
  qed
  then have "complete_payload (JObj (spread o1 ?b))" unfolding complete_object_iff shape_members by blast
  then show ?thesis using assms(3) ms(1) by (auto simp: jsonb_concat_def)
qed

lemma resumable_progress:
  assumes "resumable r" "dt_state r \<in> set OPEN_STATES" "dt_state r = Waiting \<longrightarrow> checkpoint_part p" "stringified p = Some q"
  shows "resumable (next_version n (r\<lparr>dt_current_step := c, dt_state_payload := jsonb_concat (dt_state_payload r) q\<rparr>))"
proof -
  have "complete_payload (jsonb_concat (dt_state_payload r) q)" if "dt_state r \<in> set PARKED_STATES"
  proof -
    have w: "dt_state r = Waiting" using assms(2) that by (auto simp: OPEN_STATES_def PARKED_STATES_def)
    have c: "complete_payload (dt_state_payload r)" using assms(1) that by (simp add: resumable_def)
    then obtain o1 where "dt_state_payload r = JObj o1" using complete_object by blast
    then show ?thesis using complete_part [of o1 p q] c w assms(3,4) by simp
  qed
  then show ?thesis using assms(1) plain_concat by (simp add: resumable_def next_version_def)
qed

lemma resumable_write:
  assumes "row_write x r r'" "minds_parked x T" "resumable r" "r \<in> set T"
    and "task_at (task_op_tenant x) k r" "\<And>k'. task_op_run x = Some k' \<Longrightarrow> k' = k"
  shows "resumable r'"
proof (cases x)
  case (OpProgress n now t k1 c p g)
  then have "dt_state r = Waiting \<longrightarrow> checkpoint_part p" using assms(2,4-6) by auto
  then show ?thesis using OpProgress assms(1,3) resumable_progress [of r p] by (auto simp: fenced_def simp del: plain_object_iff)
next
  case (OpRelease n now t k1 w v target)
  then have "or_default target Queued \<in> set PARKED_STATES \<longrightarrow> dt_state r \<in> set PARKED_STATES" using assms(2,4-6) by auto
  then show ?thesis using OpRelease assms(1,3) by (auto simp: resumable_def next_version_def without_lease_def)
next
  case (OpTransition n now t k s reason p g)
  then show ?thesis using assms(1-3) resumable_transition [of r s p n] by simp
next
  case (OpReconcile n input)
  then show ?thesis using assms resumable_event [of n "reconciliation_event input" r r']
    by (simp add: reconciliation_event_def)
next
  case (OpEvidence n input)
  then show ?thesis using assms resumable_event [of n "handoff_evidence_event input" r r']
    by (simp add: handoff_evidence_event_def)
next
  case (OpClear n now t k v w ev)
  then obtain p where p: "dt_state r = AwaitingHuman"
    "stringified (JObj (AList.delete ''resume_event'' (plain_members (dt_state_payload r)))) = Some p"
    "r' = next_version n (without_lease (r\<lparr>dt_state_payload := p\<rparr>))" using assms(1) by auto
  show ?thesis using complete_cleared [OF assms(3) p(1,2)] p(3)
    by (simp add: resumable_def next_version_def without_lease_def)
next
  case (OpFail n now input)
  then obtain d where "r' = requeued_row n (fi_error_class input) d r \<or> r' = terminal_row n (fi_error_class input) d r"
    using assms(1) by (cases "fi_error_class input = ''RETRYABLE'' \<and> dt_retry_count r < dt_max_retries r") auto
  then have "dt_state_payload r' = dt_state_payload r" "dt_state r' = Queued \<or> dt_state r' = Failed"
    by (elim disjE; simp add: requeued_row_def terminal_row_def next_version_def without_lease_def)+
  then show ?thesis using assms(3) by (auto simp: resumable_def PARKED_STATES_def)
qed (use assms(1-3) in \<open>auto simp: resumable_def claimed_def next_version_def without_lease_def PARKED_STATES_def\<close>)

lemma resumable_fresh: "fresh_row x r \<Longrightarrow> minds_parked x T \<Longrightarrow> resumable r"
proof -
  assume f: "fresh_row x r" and k: "minds_parked x T"
  then obtain i n input p where c: "creation x = Some (i, n, input)" "checked_payload input = Inr p"
    "r = opening_row i n input p" by (auto simp: fresh_row_def)
  have "plain_keys (ct_state_payload input)" using c(1) k by (cases x) auto
  moreover have "serializeJsonb (if ct_state_payload input = JUndef \<or> ct_state_payload input = JNull then JObj []
      else ct_state_payload input) ''TASK_PAYLOAD_UNSERIALIZABLE'' = Inr p"
    using c(2) by (auto simp: checked_payload_def Let_def andThen_Inr_iff)
  then have "stringified (JObj []) = Some p \<or> stringified (ct_state_payload input) = Some p"
    by (auto simp: serializeJsonb_def split: if_splits option.splits)
  moreover have "plain_keys (JObj [])" by (simp add: plain_keys_def)
  ultimately have "plain_keys p" using plain_stringified by blast
  then show ?thesis using fresh_row_facts(9) [OF f] c(3) by (simp add: resumable_def)
qed

lemma set_update_found:
  "find P xs = Some r0 \<Longrightarrow> set (update_first P f xs) \<subseteq> insert (f r0) (set xs)"
  by (induction xs) (auto split: if_splits)

lemma resumable_step:
  assumes "\<forall>r \<in> set T. resumable r" "minds_parked x T"
  shows "\<forall>r \<in> set (snd (task_exec rt x T)). resumable r"
proof -
  from task_exec_effect [of x T rt] consider
      "snd (task_exec rt x T) = T"
    | (new) r where "fresh_row x r" "snd (task_exec rt x T) = T @ [r]"
    | (upd) k P f r where "\<And>s. P s \<Longrightarrow> task_at (task_op_tenant x) k s" "\<And>k'. task_op_run x = Some k' \<Longrightarrow> k' = k"
        "find P T = Some r" "row_write x r (f r)" "snd (task_exec rt x T) = update_first P f T"
    unfolding task_effect_def by blast
  then show ?thesis
  proof cases
    case upd
    have r: "r \<in> set T" "task_at (task_op_tenant x) k r" using find_Some_set [OF upd(3)] upd(1) by blast+
    have "resumable (f r)" using resumable_write [OF upd(4) assms(2) _ r upd(2)] assms(1) r(1) by blast
    then show ?thesis using set_update_found [OF upd(3), of f] upd(5) assms(1) by auto
  qed (use assms resumable_fresh in auto)
qed

text \<open>
  C35: whatever the repository is asked, a run that waits for a provider or for a human keeps a complete
  checkpoint to resume from, with or without a queued event, as long as the callers mind two things that
  the repository does not check: a progress write to a waiting run hands over members of the checkpoint
  only in their shape, and a release puts only a run that is parked already into a parked state. Payloads
  are objects with one member per key.
\<close>

theorem parked_runs_stay_resumable:
  assumes "\<forall>r \<in> set T. resumable r" and "all_mind_parked rt xs T"
  shows "\<forall>r \<in> set (snd (run_ops (task_exec rt) xs T)). resumable r"
  using assms
proof (induction xs arbitrary: T)
  case Nil
  then show ?case by simp
next
  case (Cons x xs)
  then show ?case using resumable_step [of T x rt] by simp
qed

subsection \<open>A reconciliation that was consumed is still there\<close>

text \<open>
  C1: the transition into \<open>running\<close> that consumes a reconciliation merges its checkpoint into the stored
  payload, so the event survives it: if that worker then loses its lease, the run is claimed again
  with the event it has already acted on.
\<close>

theorem consumed_event_survives_the_resume:
  assumes "durable_transitionTask n now t k Running reason (JObj checkpoint) g T = (Inr r', T')"
    and "lockDurableTask t k T = Some r" "dt_state_payload r = JObj stored"
    and "member checkpoint ''resume_event'' = JUndef" "member stored ''resume_event'' \<noteq> JUndef"
    and "distinct (map fst checkpoint)"
  shows "dt_state r' = Running \<and> member (plain_members (dt_state_payload r')) ''resume_event'' = member stored ''resume_event''
    \<and> (\<forall>e later. dt_lease_expires_at r = Some e \<and> e < later \<longrightarrow> claimable later r')"
proof -
  have "task_done (OpTransition n now t k Running reason (JObj checkpoint) g) t k T (Inr r', T')"
    using transition_done [of n now t k Running reason "JObj checkpoint" g T] assms(1) by simp
  then have r': "r' = transition_row n Running (stringified (JObj checkpoint)) r"
    using assms(2) by (auto simp: task_done_def)
  let ?c = "stringified_members checkpoint"
  have "''resume_event'' \<notin> fst ` set checkpoint \<or> stringified (member checkpoint ''resume_event'') = None"
    using assms(4) by simp
  then have "''resume_event'' \<notin> fst ` set ?c"
    using assms(4,6)
  proof (induction checkpoint)
    case (Cons m ms)
    then show ?case using stringified_keys [of "''resume_event''" ms]
      by (cases m; cases "stringified (snd m)") (auto simp: member_Cons split: if_splits)
  qed simp
  then have m: "member (spread stored ?c) ''resume_event'' = member stored ''resume_event''"
    by (simp add: member_def map_of_spread_absent)
  then show ?thesis
    using assms(3) by (auto simp: r' transition_row_def moved_to_def next_version_def Let_def PARKED_STATES_def
        jsonb_concat_def plain_members_def claimable_def lapsed_def)
qed

end
