(* ===== verification/TaskExamples.thy ===== *)
theory TaskExamples
  imports TaskParking TaskPages
begin

text \<open>Concrete runs of the durable task repository: the witnesses of its theorems.\<close>

definition example_row :: "task_state \<Rightarrow> jobject \<Rightarrow> string option \<Rightarrow> durable_task" where
  "example_row s p w = \<lparr>dt_task_id = ''t'', dt_tenant_id = example_tenant, dt_run_id = ''r'',
     dt_correlation_id = ''c'', dt_current_step = 1, dt_state = s, dt_task_version = 4, dt_lease_owner = w,
     dt_lease_expires_at = map_option (\<lambda>_. 9000) w, dt_retry_count = 1, dt_max_retries = 3,
     dt_last_error_class = None, dt_paused_for_approval_id = None, dt_state_payload = JObj p,
     dt_error_details = JNull, dt_created_at = 7000, dt_updated_at = 7000\<rparr>"

lemma example_row_sel [simp]:
  "dt_run_id (example_row s p w) = ''r''" "dt_state (example_row s p w) = s"
  "dt_task_version (example_row s p w) = 4" "dt_lease_owner (example_row s p w) = w"
  "dt_retry_count (example_row s p w) = 1" "dt_max_retries (example_row s p w) = 3"
  "dt_state_payload (example_row s p w) = JObj p" "dt_created_at (example_row s p w) = 7000"
  "dt_tenant_id (example_row s p w) = example_tenant"
  "dt_lease_expires_at (example_row s p w) = map_option (\<lambda>_. 9000) w"
  by (simp_all add: example_row_def)

lemma example_lock [simp]: "lockDurableTask example_tenant ''r'' [example_row s p w] = Some (example_row s p w)"
  by (simp add: lockDurableTask_def task_at_def)

theorem durable_run_is_never_lost_or_revived_witness:
  "\<exists>r'. lockDurableTask example_tenant ''r'' (snd (run_ops (task_exec echo_runtime)
      [OpClaim 9 [] example_tenant ''w'' None] [example_row Completed [] None])) = Some r'
    \<and> r' = example_row Completed [] None"
  using durable_run_is_never_lost_or_revived [of example_tenant "''r''" "[example_row Completed [] None]" _ echo_runtime
      "[OpClaim 9 [] example_tenant ''w'' None]"]
  by auto

theorem superseded_worker_writes_nothing_witness:
  "\<exists>e. fst (task_exec echo_runtime (OpRenew 0 0 example_tenant ''r'' ''a'' (Fin 4) None)
     [example_row Running [] (Some ''b'')]) = TaskDenied e"
  by (rule superseded_worker_writes_nothing [of example_tenant "''r''" "[example_row Running [] (Some ''b'')]"
        "example_row Running [] (Some ''b'')" "''a''"
        "[OpRenew 0 0 example_tenant ''r'' ''a'' (Fin 4) None]" "OpRenew 0 0 example_tenant ''r'' ''a'' (Fin 4) None" _
        echo_runtime])
     (simp_all add: same_tenant_def)

theorem automatic_retries_are_bounded_witness:
  "int (length (filter (retried example_tenant ''r'') (fst (run_ops (task_exec echo_runtime)
      [OpRequeue 9 example_tenant ''r'' ''again'' None] [example_row Failed [] None])))) \<le> 2"
  using automatic_retries_are_bounded [of example_tenant "''r''" "[example_row Failed [] None]" _ echo_runtime
      "[OpRequeue 9 example_tenant ''r'' ''again'' None]"]
  by simp

subsection \<open>A parked run\<close>

definition example_checkpoint :: jobject where
  "example_checkpoint = [(''plan'', JObj []), (''current_step'', JNum (Fin 1)), (''pending_action'', JNull),
     (''context'', JObj []), (''previous_evidence_hash'', JStr (replicate 64 CHR ''0'')), (''request_id'', JStr ''q'')]"

lemma example_checkpoint_complete: "complete_payload (JObj example_checkpoint)"
  by (simp add: complete_object_iff checkpoint_shape_def example_checkpoint_def member_def isSha256Hex_def list_all_iff
      blank_def trim_def is_ws_def)

lemma example_checkpoint_keys: "distinct (map fst example_checkpoint)"
  by (simp add: example_checkpoint_def)


definition example_reconciliation :: reconciliation_input where
  "example_reconciliation = \<lparr>rc_tenant_id = example_tenant, rc_run_id = ''r'',
     rc_resolution = ''ESCALATE_MANUALLY'', rc_reason = ''x'', rc_operator_id = ''o'', rc_receipt = None\<rparr>"

lemma example_part: "checkpoint_part (JObj [(''current_step'', JNum (Fin 2))])"
  by (simp add: checkpoint_part_def CHECKPOINT_MEMBERS_def member_def member_fits_def)

theorem parked_runs_stay_resumable_witness:
  "list_all resumable (snd (run_ops (task_exec echo_runtime)
      [OpProgress 8 1 example_tenant ''r'' (Fin 2) (JObj [(''current_step'', JNum (Fin 2))]) None,
       OpReconcile 9 example_reconciliation, OpClaim 10 [] example_tenant ''w'' None]
      [example_row Waiting example_checkpoint None]))"
  unfolding list_all_iff
  by (rule parked_runs_stay_resumable)
     (simp_all add: resumable_def plain_keys_def example_checkpoint_complete example_checkpoint_keys example_part)

lemma example_identifiers [simp]:
  "assertIdentifier example_tenant 36 c = Inr ()" "assertTenantContext example_tenant = Inr ()"
  using example_tenant_uuid
  by (simp_all add: assertIdentifier_def assertTenantContext_def) (simp add: example_tenant_def)

lemma example_run_identifier [simp]: "assertIdentifier ''r'' 64 c = Inr ()"
  by (simp add: assertIdentifier_def blank_def trim_def is_ws_def)




definition example_event :: "string \<times> json" where
  "example_event = (''resume_event'', JObj [])"

theorem consumed_event_survives_the_resume_witness:
  "\<exists>r' T'. durable_transitionTask 9 8 example_tenant ''r'' Running ''x'' (JObj []) None
      [example_row Waiting (example_event # example_checkpoint) (Some ''w'')] = (Inr r', T')
    \<and> member (plain_members (dt_state_payload r')) ''resume_event'' = JObj [] \<and> claimable 9001 r'"
proof -
  let ?r = "example_row Waiting (example_event # example_checkpoint) (Some ''w'')"
  have "\<exists>r' T'. durable_transitionTask 9 8 example_tenant ''r'' Running ''x'' (JObj []) None [?r] = (Inr r', T')"
    by (simp add: durable_transitionTask_def assertTaskState_def DURABLE_TASK_STATES_def PARKED_STATES_def blank_def trim_def
        is_ws_def serializeJsonb_def in_tenant_def writable_def assertOpen_def TERMINAL_STATES_def OPEN_STATES_def
        guard_version_def guard_owner_def assertGuard_def assertLeaseHeld_def write_task_def task_at_def at_version_def)
  then obtain r' T' where t: "durable_transitionTask 9 8 example_tenant ''r'' Running ''x'' (JObj []) None [?r] = (Inr r', T')"
    by blast
  have "dt_state r' = Running \<and> member (plain_members (dt_state_payload r')) ''resume_event''
      = member (example_event # example_checkpoint) ''resume_event''
    \<and> (\<forall>e later. dt_lease_expires_at ?r = Some e \<and> e < later \<longrightarrow> claimable later r')"
    by (rule consumed_event_survives_the_resume [OF t]) (simp_all add: member_def example_event_def)
  then show ?thesis using t by (auto simp: member_Cons example_event_def)
qed

subsection \<open>Pages\<close>

definition example_dates :: date_text where
  "example_dates = \<lparr>date_iso = (\<lambda>t. (if t < 0 then ''-'' else []) @ replicate (nat \<bar>t\<bar>) CHR ''0''),
     date_parse = (\<lambda>s. Some (case s of CHR ''-'' # u \<Rightarrow> - int (length u) | _ \<Rightarrow> int (length s)))\<rparr>"

lemma example_dates_iso: "iso_dates example_dates"
proof -
  have "date_parse example_dates (date_iso example_dates t) = Some t" for t
    by (cases "nat \<bar>t\<bar>") (auto simp: example_dates_def)
  moreover have "CHR ''|'' \<notin> set (date_iso example_dates t)" for t
    by (simp add: example_dates_def)
  ultimately show ?thesis by (simp add: iso_dates_def)
qed

definition example_list :: "string option \<Rightarrow> list_tasks_input" where
  "example_list c = \<lparr>lt_tenant_id = example_tenant, lt_state = None, lt_agent_id = None, lt_from = NoBound,
     lt_to = NoBound, lt_limit = Some (Fin 1), lt_cursor = c\<rparr>"

lemma example_safe: "cursor_safe (example_row s p w)"
  by (simp add: cursor_safe_def blank_def trim_def is_ws_def)

lemma example_page: "\<exists>p. listTasks example_dates [] (example_list None) T = Inr p"
  by (simp add: listTasks_def example_list_def assertAgentId_def page_limit_def or_default_def)

lemma page_rows: "set (tp_items (read_page d scope limit k T)) \<subseteq> set T"
  using set_take_subset by (fastforce simp: read_page_def Let_def newest_first_def)

theorem pages_list_every_run_once_witness:
  "drain_pages 2 example_dates [] (example_list None) [example_row Queued [] None] = Inr [example_row Queued [] None]"
proof -
  obtain p where p: "listTasks example_dates [] (example_list None) [example_row Queued [] None] = Inr p"
    using example_page by blast
  have "drain_pages (length [example_row Queued [] None] + 1) example_dates [] (example_list None) [example_row Queued [] None]
      = Inr (newest_first (filter (scoped [] (example_list None)) [example_row Queued [] None]))"
    by (rule pages_list_every_run_once [OF p _ example_dates_iso])
       (simp_all add: example_list_def unique_tasks_def example_safe whole_ms_def)
  then show ?thesis by (simp add: numeral_2_eq_2 newest_first_def scoped_def in_page_scope_def example_list_def
        del: drain_pages.simps)
qed

text \<open>Two runs of one millisecond: the second is listed by no page.\<close>

theorem cursor_skips_its_millisecond_witness:
  "\<exists>p q. listTasks example_dates [] (example_list None)
      [(example_row Queued [] None)\<lparr>dt_created_at := 7900\<rparr>, (example_row Queued [] None)\<lparr>dt_run_id := ''s'', dt_created_at := 7200\<rparr>]
      = Inr p
    \<and> map dt_run_id (tp_items p) = [''r'']
    \<and> listTasks example_dates [] (example_list (tp_next_cursor p))
      [(example_row Queued [] None)\<lparr>dt_created_at := 7900\<rparr>, (example_row Queued [] None)\<lparr>dt_run_id := ''s'', dt_created_at := 7200\<rparr>]
      = Inr q
    \<and> tp_items q = []"
proof -
  let ?l = "(example_row Queued [] None)\<lparr>dt_created_at := 7900\<rparr>"
  let ?m = "(example_row Queued [] None)\<lparr>dt_run_id := ''s'', dt_created_at := 7200\<rparr>"
  let ?c = "task_list_cursor example_dates ?l"
  have first: "listTasks example_dates [] (example_list None) [?l, ?m] = Inr \<lparr>tp_items = [?l], tp_next_cursor = Some ?c\<rparr>"
    by (simp add: listTasks_def example_list_def assertAgentId_def page_limit_def or_default_def read_page_def Let_def newest_first_def
        in_page_scope_def page_key_def)
  have safe: "cursor_safe ?l" using example_safe [of Queued "[]" None] by (simp add: cursor_safe_def)
  have "parseTaskListCursor example_dates ?c = Inr (iso_ms (dt_created_at ?l), dt_run_id ?l)"
    using parse_published_cursor [OF example_dates_iso] safe by (simp add: cursor_safe_def)
  then obtain q where q: "listTasks example_dates [] (example_list (Some ?c)) [?l, ?m] = Inr q"
    by (simp add: listTasks_def example_list_def assertAgentId_def page_limit_def or_default_def)
  have le: "dt_created_at r \<le> iso_ms (dt_created_at ?l) * 1000" if "r \<in> set (tp_items q)" for r
    by (rule cursor_skips_its_millisecond [OF example_dates_iso safe _ q that]) (simp add: example_list_def)
  have "set (tp_items q) \<subseteq> {?l, ?m}"
    using q page_rows [of example_dates] by (fastforce simp: listTasks_def andThen_Inr_iff)
  then have "7000 < dt_created_at r" if "r \<in> set (tp_items q)" for r using that by auto
  then have "r \<notin> set (tp_items q)" for r using le [of r] by (force simp: iso_ms_def)
  then have "tp_items q = []" by (cases "tp_items q") auto
  then show ?thesis using first q by auto
qed

end
