(* ===== verification/HandoffLedger.thy ===== *)
theory HandoffLedger
  imports TaskStore CrossDomainHandoff DurableGuard
begin

text \<open>
  The durable admission of a cross-domain handoff: the repository
  \<open>packages/database/src/repositories/cross-domain-handoffs.ts\<close> and the broker
  \<open>apps/worker/src/runtime/shared/cross-domain-handoff.ts\<close> over it. The state holds the tables the one
  transaction writes - reservations, durable tasks, the ledger \<open>cross_domain_handoffs\<close> with the
  constraints of migration 0005, the Customer 360 stream - and the two it reads, \<open>evidences\<close> and
  \<open>customers\<close>. A thrown refusal, and the rollback to the savepoint, leave the state as it was.
\<close>

record handoff_row =
  hr_id :: string
  hr_tenant_id :: string
  hr_customer_id :: string
  hr_correlation_id :: string
  hr_idempotency_key :: string
  hr_request_fingerprint :: string
  hr_source_domain :: string
  hr_source_agent :: string
  hr_source_run_id :: string
  hr_target_domain :: string
  hr_target_agent :: string
  hr_target_module :: string
  hr_target_run_id :: string
  hr_reason :: string
  hr_classification :: string
  hr_evidence :: "json list"
  hr_lifecycle_state :: string
  hr_lifecycle_version :: int
  hr_hop_count :: nat
  hr_visited_domains :: "string list"
  hr_occurred_at :: string
  hr_created_at :: int

record timeline_event =
  te_source_event_id :: string
  te_event_name :: string
  te_session_id :: string
  te_occurred_at :: string
  te_channel :: string
  te_payload :: json

text \<open>A row of \<open>customer_events\<close>: the tenant, the customer and the event as it was stored.\<close>

record timeline_row =
  tl_tenant_id :: string
  tl_customer_id :: string
  tl_event :: timeline_event

text \<open>The columns \<open>VERIFY_FACT\<close> compares in a \<open>FACT\<close> row of \<open>evidences\<close>.\<close>

record fact_row =
  fr_tenant_id :: string
  fr_run_id :: string
  fr_claim :: json
  fr_source_uri :: json
  fr_source_version :: json
  fr_verified_by :: json

record handoff_db =
  hb_reservations :: "reservation_row list"
  hb_tasks :: task_table
  hb_handoffs :: "handoff_row list"
  hb_timeline :: "timeline_row list"
  hb_facts :: "fact_row list"
  hb_customers :: "(string \<times> string) list"

record admit_input =
  ai_handoff_id :: string
  ai_tenant_id :: string
  ai_customer_id :: string
  ai_correlation_id :: string
  ai_idempotency_key :: string
  ai_request_fingerprint :: string
  ai_source_domain :: string
  ai_source_agent :: string
  ai_source_run_id :: string
  ai_target_domain :: string
  ai_target_agent :: string
  ai_target_module :: string
  ai_reason :: string
  ai_classification :: string
  ai_evidence :: "json list"
  ai_lifecycle_state :: string
  ai_lifecycle_version :: int
  ai_hop_count :: nat
  ai_visited_domains :: "string list"
  ai_occurred_at :: string
  ai_run_id :: string
  ai_signal :: json
  ai_timeline_event :: timeline_event
  ai_reservation_ttl_ms :: jnum

datatype admission =
    Admitted string string
  | Replay string string json
  | InFlight string string
  | ReconcileRequired
  | HandoffConflict

subsection \<open>Statements\<close>

definition HANDOFF_SKILL_ID :: string where
  "HANDOFF_SKILL_ID = ''orchestrator.cross_domain_handoff''"

definition handoff_at :: "string \<Rightarrow> string \<Rightarrow> handoff_row \<Rightarrow> bool" where
  "handoff_at tenant_id key h \<longleftrightarrow> hr_tenant_id h = uuid_text tenant_id \<and> hr_idempotency_key h = key"

definition selectHandoff :: "string \<Rightarrow> string \<Rightarrow> handoff_db \<Rightarrow> handoff_row option" where
  "selectHandoff tenant_id key db = find (handoff_at tenant_id key) (hb_handoffs db)"

definition fact_verified :: "admit_input \<Rightarrow> handoff_db \<Rightarrow> json \<Rightarrow> bool" where
  "fact_verified input db evidence =
    (case as_record evidence of
       None \<Rightarrow> True
     | Some e \<Rightarrow> member e ''classification'' = JStr ''FACT'' \<longrightarrow>
         list_ex (\<lambda>f. fr_tenant_id f = uuid_text (ai_tenant_id input) \<and> fr_run_id f = ai_source_run_id input
           \<and> fr_claim f = member e ''claim'' \<and> fr_source_uri f = member e ''source_uri''
           \<and> fr_source_version f = member e ''source_version'' \<and> fr_verified_by f = member e ''verified_by'') (hb_facts db))"

definition verifyFacts :: "admit_input \<Rightarrow> handoff_db \<Rightarrow> unit result" where
  "verifyFacts input db =
    (if list_all (fact_verified input db) (ai_evidence input) then Inr () else thrown ''HANDOFF_EVIDENCE_UNVERIFIED'')"

definition handoff_row_of :: "int \<Rightarrow> admit_input \<Rightarrow> string \<Rightarrow> handoff_row" where
  "handoff_row_of dbnow input target_run_id =
    \<lparr>hr_id = uuid_text (ai_handoff_id input), hr_tenant_id = uuid_text (ai_tenant_id input),
     hr_customer_id = uuid_text (ai_customer_id input), hr_correlation_id = ai_correlation_id input,
     hr_idempotency_key = ai_idempotency_key input, hr_request_fingerprint = ai_request_fingerprint input,
     hr_source_domain = ai_source_domain input, hr_source_agent = ai_source_agent input,
     hr_source_run_id = ai_source_run_id input, hr_target_domain = ai_target_domain input,
     hr_target_agent = ai_target_agent input, hr_target_module = ai_target_module input,
     hr_target_run_id = target_run_id, hr_reason = ai_reason input,
     hr_classification = ai_classification input, hr_evidence = stringified_items (ai_evidence input),
     hr_lifecycle_state = ai_lifecycle_state input, hr_lifecycle_version = ai_lifecycle_version input,
     hr_hop_count = ai_hop_count input, hr_visited_domains = ai_visited_domains input,
     hr_occurred_at = ai_occurred_at input, hr_created_at = dbnow\<rparr>"

text \<open>The \<open>CHECK\<close>s of the ledger.\<close>

definition row_checks :: "handoff_row \<Rightarrow> bool" where
  "row_checks h \<longleftrightarrow> isSha256Hex (hr_idempotency_key h) \<and> isSha256Hex (hr_request_fingerprint h)
     \<and> hr_classification h \<in> {''FACT'', ''SIGNAL'', ''HYPOTHESIS'', ''DECISION'', ''ACTION''}
     \<and> 1 \<le> hr_lifecycle_version h \<and> 1 \<le> hr_hop_count h \<and> hr_visited_domains h \<noteq> []"

definition same_lifecycle :: "handoff_row \<Rightarrow> handoff_row \<Rightarrow> bool" where
  "same_lifecycle h g \<longleftrightarrow> hr_tenant_id g = hr_tenant_id h \<and> hr_customer_id g = hr_customer_id h
     \<and> hr_lifecycle_version g = hr_lifecycle_version h"

text \<open>
  \<open>INSERT_HANDOFF\<close>: the parameters' types, the checks, the arbiter \<open>uq_cross_domain_handoffs_lifecycle\<close>
  that does nothing on conflict, the other unique keys, and the two foreign keys. A violation is
  thrown as its \<open>SQLSTATE\<close>.
\<close>

definition insertLedgerRow :: "int \<Rightarrow> admit_input \<Rightarrow> string \<Rightarrow> handoff_db \<Rightarrow> handoff_row option result \<times> handoff_db" where
  "insertLedgerRow dbnow input target_run_id db =
    (let h = handoff_row_of dbnow input target_run_id in
     if \<not> tenant_uuid (ai_handoff_id input) \<or> \<not> tenant_uuid (ai_customer_id input) then (thrown ''22P02'', db)
     else if \<not> row_checks h then (thrown ''23514'', db)
     else if list_ex (same_lifecycle h) (hb_handoffs db) then (Inr None, db)
     else if list_ex (\<lambda>g. hr_id g = hr_id h) (hb_handoffs db)
       \<or> list_ex (handoff_at (ai_tenant_id input) (ai_idempotency_key input)) (hb_handoffs db)
     then (thrown ''23505'', db)
     else if (hr_tenant_id h, hr_customer_id h) \<notin> set (hb_customers db)
       \<or> \<not> list_ex (task_at (ai_tenant_id input) target_run_id) (hb_tasks db)
     then (thrown ''23503'', db)
     else (Inr (Some h), db\<lparr>hb_handoffs := hb_handoffs db @ [h]\<rparr>))"

definition event_stored :: "string \<Rightarrow> string \<Rightarrow> timeline_row \<Rightarrow> bool" where
  "event_stored tenant_id source_event_id l \<longleftrightarrow> tl_tenant_id l = uuid_text tenant_id
     \<and> te_source_event_id (tl_event l) = source_event_id"

definition insertTimelineEvent :: "admit_input \<Rightarrow> string \<Rightarrow> handoff_db \<Rightarrow> handoff_db" where
  "insertTimelineEvent input handoff_id db =
    (let event = ai_timeline_event input;
         payload = JObj (spread (plain_members (te_payload event)) [(''evidence_reference'', JStr handoff_id)])
     in if list_ex (event_stored (ai_tenant_id input) (te_source_event_id event)) (hb_timeline db) then db
        else db\<lparr>hb_timeline := hb_timeline db @
          [\<lparr>tl_tenant_id = uuid_text (ai_tenant_id input), tl_customer_id = uuid_text (ai_customer_id input),
            tl_event = event\<lparr>te_payload := (case stringified payload of None \<Rightarrow> JNull | Some p \<Rightarrow> p)\<rparr>\<rparr>]\<rparr>)"

subsection \<open>Admission\<close>

definition assertTimelineEvent :: "admit_input \<Rightarrow> unit result" where
  "assertTimelineEvent input =
    (let event = ai_timeline_event input in
     if te_source_event_id event \<noteq> ai_idempotency_key input then thrown ''HANDOFF_TIMELINE_EVENT_UNKEYED''
     else if te_occurred_at event \<noteq> ai_occurred_at input then thrown ''HANDOFF_TIMELINE_EVENT_MISPLACED''
     else case as_record (te_payload event) of
       None \<Rightarrow> thrown ''HANDOFF_TIMELINE_EVENT_UNMARKED''
     | Some p \<Rightarrow>
         if member p ''classification_authority'' \<noteq> JStr ''SERVER''
           \<or> member p ''classification'' \<noteq> JStr (ai_classification input)
         then thrown ''HANDOFF_TIMELINE_EVENT_UNMARKED'' else Inr ())"

text \<open>\<open>receiptObject\<close>.\<close>

definition receipt_object :: "json \<Rightarrow> json" where
  "receipt_object v = (if isPlainObject v then v else JNull)"

definition receipt_run :: "json \<Rightarrow> string \<Rightarrow> string" where
  "receipt_run receipt run_id =
    (case as_record receipt of None \<Rightarrow> run_id
     | Some o1 \<Rightarrow> (case member o1 ''target_run_id'' of JStr s \<Rightarrow> s | _ \<Rightarrow> run_id))"

definition replay_answer :: "handoff_row \<Rightarrow> json \<Rightarrow> admission" where
  "replay_answer h receipt = Replay (hr_id h) (hr_target_run_id h) receipt"

definition completeSettledReplay :: "int \<Rightarrow> admit_input \<Rightarrow> reservation_row \<Rightarrow> json \<Rightarrow> handoff_db \<Rightarrow>
    admission result \<times> handoff_db" where
  "completeSettledReplay dbnow input reservation receipt db =
    (case selectHandoff (ai_tenant_id input) (ai_idempotency_key input) db of
       Some h \<Rightarrow> (Inr (replay_answer h receipt), db)
     | None \<Rightarrow>
         (case insertLedgerRow dbnow input (receipt_run receipt (rr_run_id reservation)) db of
            (Inl e, _) \<Rightarrow> (Inl e, db)
          | (Inr (Some h), db') \<Rightarrow> (Inr (replay_answer h receipt), insertTimelineEvent input (hr_id h) db')
          | (Inr None, db') \<Rightarrow>
              (case selectHandoff (ai_tenant_id input) (ai_idempotency_key input) db' of
                 Some h \<Rightarrow> (Inr (replay_answer h receipt), db')
               | None \<Rightarrow> (thrown ''HANDOFF_REPLAY_LEDGER_MISSING'', db))))"

definition handoff_reservation :: "int \<Rightarrow> admit_input \<Rightarrow> reservation_request" where
  "handoff_reservation expires_at input =
    \<lparr>rq_tenant_id = ai_tenant_id input, rq_run_id = ai_run_id input, rq_request_id = ai_idempotency_key input,
     rq_effect_key = ai_idempotency_key input, rq_fingerprint = ai_request_fingerprint input,
     rq_skill_id = HANDOFF_SKILL_ID, rq_step_index = Fin 0, rq_expires_at = Some expires_at\<rparr>"

definition handoff_task :: "admit_input \<Rightarrow> create_task_input" where
  "handoff_task input =
    \<lparr>ct_tenant_id = ai_tenant_id input, ct_run_id = ai_run_id input, ct_correlation_id = ai_correlation_id input,
     ct_current_step = Some (Fin 0), ct_state = Some Queued, ct_max_retries = None,
     ct_state_payload = JObj [(''signal'', ai_signal input)]\<rparr>"

text \<open>The branch of a fresh reservation: task, ledger row and timeline row, or the savepoint.\<close>

definition admit_fresh :: "string \<Rightarrow> int \<Rightarrow> admit_input \<Rightarrow> handoff_db \<Rightarrow> handoff_db \<Rightarrow> admission result \<times> handoff_db" where
  "admit_fresh task_id dbnow input savepoint db =
    (case insertDurableTask task_id dbnow (handoff_task input) (hb_tasks db) of
       (Inl e, _) \<Rightarrow> (Inl e, savepoint)
     | (Inr task, tasks) \<Rightarrow>
         (case insertLedgerRow dbnow input (ai_run_id input) (db\<lparr>hb_tasks := tasks\<rparr>) of
            (Inl e, _) \<Rightarrow> (Inl e, savepoint)
          | (Inr None, _) \<Rightarrow> (Inr HandoffConflict, savepoint)
          | (Inr (Some h), db') \<Rightarrow>
              (Inr (Admitted (hr_id h) (ai_run_id input)), insertTimelineEvent input (hr_id h) db')))"

definition admit_existing :: "int \<Rightarrow> admit_input \<Rightarrow> handoff_db \<Rightarrow> admission result \<times> handoff_db" where
  "admit_existing dbnow input db =
    (case find (row_at (ai_tenant_id input) (ai_idempotency_key input)) (hb_reservations db) of
       None \<Rightarrow> (thrown ''HANDOFF_RESERVATION_UNSTABLE'', db)
     | Some existing \<Rightarrow>
         if rr_fingerprint existing \<noteq> ai_request_fingerprint input then (Inr HandoffConflict, db)
         else if rr_status existing = RowSucceeded
           \<or> (rr_status existing = RowFailed \<and> rr_receipt existing \<noteq> JNull)
         then completeSettledReplay dbnow input existing (receipt_object (rr_receipt existing)) db
         else if rr_status existing = RowReserved
         then if row_expired (iso_ms dbnow) existing then (Inr ReconcileRequired, db)
              else (case selectHandoff (ai_tenant_id input) (ai_idempotency_key input) db of
                      None \<Rightarrow> (thrown ''HANDOFF_LEDGER_MISSING'', db)
                    | Some h \<Rightarrow> (Inr (InFlight (hr_id h) (hr_target_run_id h)), db))
         else (Inr ReconcileRequired, db))"

definition admitWithRunner :: "string \<Rightarrow> int \<Rightarrow> int \<Rightarrow> admit_input \<Rightarrow> handoff_db \<Rightarrow> admission result \<times> handoff_db" where
  "admitWithRunner task_id dbnow now input db =
    (case assertPositiveInteger (ai_reservation_ttl_ms input) ''HANDOFF_RESERVATION_TTL_INVALID'' of
       Inl e \<Rightarrow> (Inl e, db)
     | Inr _ \<Rightarrow>
         (case assertTimelineEvent input of
            Inl e \<Rightarrow> (Inl e, db)
          | Inr _ \<Rightarrow> in_tenant (ai_tenant_id input)
              (case verifyFacts input db of
                 Inl e \<Rightarrow> (Inl e, db)
               | Inr _ \<Rightarrow>
                   (case insertReservationRow (iso_ms dbnow)
                       (handoff_reservation (now + int_column (ai_reservation_ttl_ms input)) input)
                       (ai_request_fingerprint input) (hb_reservations db) of
                      (Inl e, _) \<Rightarrow> (Inl e, db)
                    | (Inr (Some _), rs) \<Rightarrow> admit_fresh task_id dbnow input db (db\<lparr>hb_reservations := rs\<rparr>)
                    | (Inr None, _) \<Rightarrow> admit_existing dbnow input db)) db))"

subsection \<open>Reads\<close>

record lifecycle_record =
  lr_state :: string
  lr_version :: int
  lr_hop_count :: nat
  lr_domains :: "string list"
  lr_source_run_id :: string

definition of_customer :: "string \<Rightarrow> string \<Rightarrow> handoff_row \<Rightarrow> bool" where
  "of_customer tenant_id customer_id h \<longleftrightarrow> hr_tenant_id h = uuid_text tenant_id \<and> hr_customer_id h = uuid_text customer_id"

text \<open>\<open>ORDER BY lifecycle_version DESC, id DESC LIMIT 1\<close>; a customer's versions are distinct.\<close>

fun latest_hop :: "handoff_row list \<Rightarrow> handoff_row option" where
  "latest_hop [] = None"
| "latest_hop (h # hs) = (case latest_hop hs of None \<Rightarrow> Some h
     | Some g \<Rightarrow> if hr_lifecycle_version g \<le> hr_lifecycle_version h then Some h else Some g)"

definition readCrossDomainLifecycle :: "string \<Rightarrow> string \<Rightarrow> handoff_db \<Rightarrow> lifecycle_record option result" where
  "readCrossDomainLifecycle tenant_id customer_id db =
    andThen (assertTenantContext tenant_id) (\<lambda>_.
      if \<not> tenant_uuid customer_id then thrown ''22P02''
      else Inr (map_option (\<lambda>h. \<lparr>lr_state = hr_lifecycle_state h, lr_version = hr_lifecycle_version h,
             lr_hop_count = hr_hop_count h, lr_domains = hr_visited_domains h, lr_source_run_id = hr_source_run_id h\<rparr>)
           (latest_hop (filter (of_customer tenant_id customer_id) (hb_handoffs db)))))"

definition readCrossDomainHandoff :: "string \<Rightarrow> string \<Rightarrow> handoff_db \<Rightarrow> handoff_row option result" where
  "readCrossDomainHandoff tenant_id key db = andThen (assertTenantContext tenant_id) (\<lambda>_. Inr (selectHandoff tenant_id key db))"

text \<open>\<open>ORDER BY occurred_at, id\<close>; \<open>instant_order\<close> is the order of the instants a text denotes.\<close>

definition listCrossDomainHandoffs :: "(string \<Rightarrow> int) \<Rightarrow> string \<Rightarrow> string \<Rightarrow> jnum option \<Rightarrow> handoff_db \<Rightarrow>
    handoff_row list result" where
  "listCrossDomainHandoffs instant_order tenant_id customer_id limit db =
    (case page_limit limit of
       Inl _ \<Rightarrow> thrown ''HANDOFF_LIMIT_INVALID''
     | Inr n \<Rightarrow> andThen (assertTenantContext tenant_id) (\<lambda>_.
         if \<not> tenant_uuid customer_id then thrown ''22P02'' else Inr (take n
         (sort_key (\<lambda>h. (instant_order (hr_occurred_at h), hr_id h))
           (filter (of_customer tenant_id customer_id) (hb_handoffs db))))))"

end
