(* ===== verification/HandoffBroker.thy ===== *)
theory HandoffBroker
  imports HandoffLedger TaskSteps
begin

text \<open>
  The broker of cross-domain handoffs, \<open>apps/worker/src/runtime/shared/cross-domain-handoff.ts\<close>: it reads
  the durable journey, derives the package of the next hop, holds it to the contract and admits it.
\<close>

definition LIFECYCLE_STATES :: "string list" where
  "LIFECYCLE_STATES = [''ENTERED'', ''IN_PROGRESS'', ''HANDED_OFF'', ''COMPLETED'']"

definition lifecycle_invalid :: failure where
  "lifecycle_invalid = OrchestratorError ''HANDOFF_LIFECYCLE_INVALID''"

definition lifecycleState :: "string \<Rightarrow> string result" where
  "lifecycleState v = (if v \<in> set LIFECYCLE_STATES then Inr v else Inl lifecycle_invalid)"

record journey_facts =
  jf_lifecycle :: "lifecycle_ref option"
  jf_visited_domains :: "string list"
  jf_previous_hop_count :: nat
  jf_latest_hop_source_run_id :: "string option"

definition readDurableJourneyFacts :: "lifecycle_record option \<Rightarrow> journey_facts result" where
  "readDurableJourneyFacts record =
    (case record of
       None \<Rightarrow> Inr \<lparr>jf_lifecycle = None, jf_visited_domains = [], jf_previous_hop_count = 0,
                 jf_latest_hop_source_run_id = None\<rparr>
     | Some l \<Rightarrow>
         if lr_version l < 1 then Inl lifecycle_invalid
         else if \<not> list_all isJourneyDomain (lr_domains l) then Inl lifecycle_invalid
         else andThen (lifecycleState (lr_state l)) (\<lambda>state.
           Inr \<lparr>jf_lifecycle = Some \<lparr>hl_version = lr_version l, hl_state = state\<rparr>,
             jf_visited_domains = lr_domains l, jf_previous_hop_count = lr_hop_count l,
             jf_latest_hop_source_run_id = Some (lr_source_run_id l)\<rparr>))"

text \<open>The facts before the hop this very run already made: a retry derives the same package again.\<close>

definition preHopJourneyFacts :: "journey_facts \<Rightarrow> string \<Rightarrow> journey_facts" where
  "preHopJourneyFacts durable source_run_id =
    (if jf_latest_hop_source_run_id durable \<noteq> Some source_run_id \<or> jf_previous_hop_count durable < 1
        \<or> jf_visited_domains durable = []
     then durable
     else \<lparr>jf_lifecycle = (case jf_lifecycle durable of None \<Rightarrow> None
             | Some l \<Rightarrow> if hl_version l - 1 > 0 then Some (l\<lparr>hl_version := hl_version l - 1\<rparr>) else None),
           jf_visited_domains = butlast (jf_visited_domains durable),
           jf_previous_hop_count = jf_previous_hop_count durable - 1,
           jf_latest_hop_source_run_id = None\<rparr>)"

definition request_identity_json :: "handoff_draft \<Rightarrow> handoff_package \<Rightarrow> json" where
  "request_identity_json d pkg = JObj
    [(''tenant_id'', JStr (hd_tenant_id d)), (''customer_id'', JStr (hd_customer_id d)),
     (''source_run_id'', JStr (hd_source_run_id d)), (''source_domain'', JStr (hd_source_domain d)),
     (''target_domain'', JStr (hd_target_domain d)), (''target_agent'', JStr (hd_target_agent d)),
     (''lifecycle_version'', JNum (Fin (of_int (hl_version (hp_lifecycle pkg))))), (''reason'', JStr (hd_reason d))]"

definition requestFingerprint :: "runtime \<Rightarrow> handoff_draft \<Rightarrow> handoff_package \<Rightarrow> string result" where
  "requestFingerprint rt d pkg =
    andThen (effect_canonicalizeJson rt (request_identity_json d pkg)) (\<lambda>t. Inr (rt_sha256 rt t))"

definition package_json :: "handoff_package \<Rightarrow> json" where
  "package_json p = JObj
    [(''handoff_id'', JStr (hp_handoff_id p)), (''tenant_id'', JStr (hp_tenant_id p)),
     (''customer_id'', JStr (hp_customer_id p)), (''correlation_id'', JStr (hp_correlation_id p)),
     (''source_domain'', JStr (hp_source_domain p)), (''source_agent'', JStr (hp_source_agent p)),
     (''source_run_id'', JStr (hp_source_run_id p)), (''target_domain'', JStr (hp_target_domain p)),
     (''target_agent'', JStr (hp_target_agent p)), (''reason'', JStr (hp_reason p)),
     (''evidence'', JArr (hp_evidence p)), (''classification'', JStr (hp_classification p)),
     (''lifecycle'', JObj [(''version'', JNum (Fin (of_int (hl_version (hp_lifecycle p))))),
        (''state'', JStr (hl_state (hp_lifecycle p)))]),
     (''idempotency_key'', JStr (hp_idempotency_key p)), (''hop_count'', JNum (Fin (of_nat (hp_hop_count p)))),
     (''visited_domains'', JArr (map JStr (hp_visited_domains p))), (''occurred_at'', JStr (hp_occurred_at p))]"

definition domain_module :: "string \<Rightarrow> string" where
  "domain_module d = (case map_of JOURNEY_DOMAIN_MODULES d of None \<Rightarrow> [] | Some m \<Rightarrow> m)"

definition buildCrossDomainHandoffSignal :: "handoff_package \<Rightarrow> string \<Rightarrow> string \<Rightarrow> json" where
  "buildCrossDomainHandoffSignal p session_id signal_id = JObj
    [(''signal_id'', JStr signal_id), (''tenant_id'', JStr (hp_tenant_id p)),
     (''correlation_id'', JStr (hp_correlation_id p)), (''source_channel'', JStr ''ORCHESTRATOR_HANDOFF''),
     (''event_type'', JStr (''handoff.'' @ hp_source_domain p @ ''_to_'' @ hp_target_domain p)),
     (''payload'', JObj [(''module'', JStr (domain_module (hp_target_domain p))), (''handoff'', package_json p),
        (''handoff_reason'', JStr (hp_reason p))]),
     (''subject'', JObj [(''session_id'', JStr session_id), (''channel_type'', JStr ''orchestrator''),
        (''verified_customer_id'', JStr (hp_customer_id p))]),
     (''timestamp'', JStr (hp_occurred_at p))]"

definition timelineEvent :: "handoff_package \<Rightarrow> string \<Rightarrow> timeline_event" where
  "timelineEvent p session_id =
    \<lparr>te_source_event_id = hp_idempotency_key p, te_event_name = ''ext.lifecycle.handoff'',
     te_session_id = session_id, te_occurred_at = hp_occurred_at p, te_channel = ''orchestrator'',
     te_payload = JObj [(''classification'', JStr (hp_classification p)), (''classification_authority'', JStr ''SERVER''),
       (''domain'', JStr (hp_target_domain p)), (''stage'', JStr ''HANDOFF''), (''summary'', JStr (hp_reason p)),
       (''source_domain'', JStr (hp_source_domain p)), (''target_domain'', JStr (hp_target_domain p)),
       (''lifecycle_version'', JNum (Fin (of_int (hl_version (hp_lifecycle p)))))]\<rparr>"

text \<open>What \<open>randomUUID\<close> answers for the hop, the target run and its signal, and the database for the task.\<close>

record hop_ids =
  id_handoff :: string
  id_run :: string
  id_signal :: string
  id_task :: string

definition admit_input_of :: "hop_ids \<Rightarrow> jnum \<Rightarrow> handoff_draft \<Rightarrow> handoff_package \<Rightarrow> string \<Rightarrow> admit_input" where
  "admit_input_of ids ttl d p fingerprint =
    \<lparr>ai_handoff_id = hp_handoff_id p, ai_tenant_id = hd_tenant_id d, ai_customer_id = hd_customer_id d,
     ai_correlation_id = hd_correlation_id d, ai_idempotency_key = hp_idempotency_key p,
     ai_request_fingerprint = fingerprint, ai_source_domain = hp_source_domain p,
     ai_source_agent = hp_source_agent p, ai_source_run_id = hp_source_run_id p,
     ai_target_domain = hp_target_domain p, ai_target_agent = hp_target_agent p,
     ai_target_module = domain_module (hp_target_domain p), ai_reason = hp_reason p,
     ai_classification = hp_classification p, ai_evidence = hp_evidence p,
     ai_lifecycle_state = hl_state (hp_lifecycle p), ai_lifecycle_version = hl_version (hp_lifecycle p),
     ai_hop_count = hp_hop_count p, ai_visited_domains = hp_visited_domains p,
     ai_occurred_at = hp_occurred_at p, ai_run_id = id_run ids,
     ai_signal = buildCrossDomainHandoffSignal p (hd_source_run_id d) (id_signal ids),
     ai_timeline_event = timelineEvent p (hd_source_run_id d), ai_reservation_ttl_ms = ttl\<rparr>"

record handoff_answer =
  ha_handoff_id :: string
  ha_target_run_id :: string
  ha_admitted :: bool
  ha_lifecycle :: lifecycle_ref

text \<open>The package and the input of the admission, before anything is written.\<close>

definition derive_hop :: "(string \<Rightarrow> string option) \<Rightarrow> runtime \<Rightarrow> hop_ids \<Rightarrow> jnum \<Rightarrow> handoff_draft \<Rightarrow> handoff_db \<Rightarrow>
    (handoff_package \<times> admit_input) result" where
  "derive_hop instant rt ids ttl d db =
    andThen (readCrossDomainLifecycle (hd_tenant_id d) (hd_customer_id d) db) (\<lambda>record.
    andThen (readDurableJourneyFacts record) (\<lambda>facts.
    let durable = preHopJourneyFacts facts (hd_source_run_id d) in
    andThen (createCrossDomainHandoffPackage rt (id_handoff ids) d (jf_lifecycle durable)
        (jf_previous_hop_count durable) (jf_visited_domains durable)) (\<lambda>pkg.
    andThen (assertHandoffAdmissible instant rt pkg
        \<lparr>hx_tenant_id = hd_tenant_id d, hx_customer_id = hd_customer_id d, hx_lifecycle = jf_lifecycle durable,
         hx_visited_domains = jf_visited_domains durable, hx_previous_hop_count = jf_previous_hop_count durable,
         hx_source_authority = hd_source_authority d\<rparr>) (\<lambda>_.
    andThen (requestFingerprint rt d pkg) (\<lambda>fingerprint.
      Inr (pkg, admit_input_of ids ttl d pkg fingerprint))))))"

definition broker_answer :: "handoff_package \<Rightarrow> admission \<Rightarrow> handoff_answer result" where
  "broker_answer pkg admission =
    (case admission of
       HandoffConflict \<Rightarrow> Inl (OrchestratorError ''HANDOFF_ADMISSION_UNRESOLVED'')
     | ReconcileRequired \<Rightarrow> Inl (OrchestratorError ''HANDOFF_ADMISSION_UNRESOLVED'')
     | Admitted h r \<Rightarrow> Inr \<lparr>ha_handoff_id = h, ha_target_run_id = r, ha_admitted = True, ha_lifecycle = hp_lifecycle pkg\<rparr>
     | Replay h r _ \<Rightarrow> Inr \<lparr>ha_handoff_id = h, ha_target_run_id = r, ha_admitted = False, ha_lifecycle = hp_lifecycle pkg\<rparr>
     | InFlight h r \<Rightarrow> Inr \<lparr>ha_handoff_id = h, ha_target_run_id = r, ha_admitted = False, ha_lifecycle = hp_lifecycle pkg\<rparr>)"

definition broker_admit :: "(string \<Rightarrow> string option) \<Rightarrow> runtime \<Rightarrow> hop_ids \<Rightarrow> jnum \<Rightarrow> int \<Rightarrow> int \<Rightarrow> handoff_draft \<Rightarrow>
    handoff_db \<Rightarrow> handoff_answer result \<times> handoff_db" where
  "broker_admit instant rt ids ttl dbnow now d db =
    (case derive_hop instant rt ids ttl d db of
       Inl e \<Rightarrow> (Inl e, db)
     | Inr (pkg, input) \<Rightarrow>
         (case admitWithRunner (id_task ids) dbnow now input db of
            (Inl e, db') \<Rightarrow> (Inl e, db')
          | (Inr admission, db') \<Rightarrow> (broker_answer pkg admission, db')))"

subsection \<open>A session\<close>

text \<open>
  Brokered admissions, with whatever the reservation and the task repositories are asked in between.
\<close>

datatype handoff_op =
    Hop hop_ids jnum int int handoff_draft
  | OnReservations repo_op
  | OnTasks task_op

end
