(* ===== verification/HandoffProperties.thy ===== *)
theory HandoffProperties
  imports HandoffBroker TaskProperties
begin

text \<open>
  What brokered handoffs guarantee: a customer's hops in the ledger are bounded and never go back, every
  hop is backed by a task and a timeline row, and a repeated handoff is recognised.
\<close>

fun handoff_exec :: "(string \<Rightarrow> string option) \<Rightarrow> runtime \<Rightarrow> handoff_op \<Rightarrow> handoff_db \<Rightarrow>
    handoff_answer result option \<times> handoff_db" where
  "handoff_exec instant rt (Hop ids ttl dbnow now d) db =
    (let (r, db') = broker_admit instant rt ids ttl dbnow now d db in (Some r, db'))"
| "handoff_exec instant rt (OnReservations x) db =
    (None, db\<lparr>hb_reservations := snd (repo_exec x (hb_reservations db))\<rparr>)"
| "handoff_exec instant rt (OnTasks x) db = (None, db\<lparr>hb_tasks := snd (task_exec rt x (hb_tasks db))\<rparr>)"

subsection \<open>What an admission writes\<close>

definition ledger_grows :: "int \<Rightarrow> admit_input \<Rightarrow> handoff_db \<Rightarrow> handoff_db \<Rightarrow> bool" where
  "ledger_grows dbnow input db db' \<longleftrightarrow> (\<exists>rs ts run h db2. set (hb_tasks db) \<subseteq> set ts
     \<and> insertLedgerRow dbnow input run (db\<lparr>hb_reservations := rs, hb_tasks := ts\<rparr>) = (Inr (Some h), db2)
     \<and> db' = insertTimelineEvent input (hr_id h) db2)"

lemma ledger_growsI:
  "set (hb_tasks db) \<subseteq> set ts \<Longrightarrow>
   insertLedgerRow n input run (db\<lparr>hb_reservations := rs, hb_tasks := ts\<rparr>) = (Inr (Some h), db2) \<Longrightarrow>
   db' = insertTimelineEvent input (hr_id h) db2 \<Longrightarrow> ledger_grows n input db db'"
  unfolding ledger_grows_def by blast

lemma insertLedgerRow_None: "insertLedgerRow n input run db = (Inr None, db') \<Longrightarrow> db' = db"
  by (auto simp: insertLedgerRow_def Let_def thrown_def split: if_splits)

lemma insertDurableTask_grows: "insertDurableTask i n input T = (Inr r, T') \<Longrightarrow> T' = T @ [r]"
  by (auto simp: insertDurableTask_def thrown_def split: sum.splits if_splits)

lemma fresh_grows:
  assumes "admit_fresh i n input db (db\<lparr>hb_reservations := rs\<rparr>) = (res, db')"
  shows "db' = db \<or> ledger_grows n input db db'"
proof (cases "insertDurableTask i n (handoff_task input) (hb_tasks db)")
  case (Pair a ts)
  show ?thesis
  proof (cases a)
    case (Inl e)
    with assms Pair show ?thesis by (simp add: admit_fresh_def)
  next
    case (Inr r)
    have ts: "set (hb_tasks db) \<subseteq> set ts" using insertDurableTask_grows Pair Inr by fastforce
    obtain b db2 where l: "insertLedgerRow n input (ai_run_id input) (db\<lparr>hb_reservations := rs, hb_tasks := ts\<rparr>) = (b, db2)"
      by fastforce
    have a: "admit_fresh i n input db (db\<lparr>hb_reservations := rs\<rparr>) = (case b of Inl e \<Rightarrow> (Inl e, db)
        | Inr None \<Rightarrow> (Inr HandoffConflict, db)
        | Inr (Some h) \<Rightarrow> (Inr (Admitted (hr_id h) (ai_run_id input)), insertTimelineEvent input (hr_id h) db2))"
      using Pair Inr l by (simp add: admit_fresh_def split: sum.split option.split)
    show ?thesis
    proof (cases "\<exists>h. b = Inr (Some h)")
      case True
      then obtain h where "b = Inr (Some h)" by blast
      then have "db' = insertTimelineEvent input (hr_id h) db2" using assms a by simp
      with \<open>b = Inr (Some h)\<close> l show ?thesis using ledger_growsI [OF ts] by blast
    next
      case False
      then show ?thesis using assms a by (auto split: sum.splits option.splits)
    qed
  qed
qed

lemma settled_grows:
  assumes "completeSettledReplay n input r rc db = (res, db')"
  shows "db' = db \<or> ledger_grows n input db db'"
proof (cases "selectHandoff (ai_tenant_id input) (ai_idempotency_key input) db")
  case (Some h)
  with assms show ?thesis by (simp add: completeSettledReplay_def)
next
  case None
  obtain b db2 where l: "insertLedgerRow n input (receipt_run rc (rr_run_id r)) db = (b, db2)" by fastforce
  show ?thesis
  proof (cases b)
    case (Inl e)
    with assms None l show ?thesis by (simp add: completeSettledReplay_def)
  next
    case (Inr m)
    show ?thesis
    proof (cases m)
      case None2: None
      then have "db2 = db" using insertLedgerRow_None l Inr by blast
      with assms None l Inr None2 show ?thesis by (auto simp: completeSettledReplay_def split: option.splits)
    next
      case (Some h)
      then have "db' = insertTimelineEvent input (hr_id h) db2"
        using assms None l Inr by (simp add: completeSettledReplay_def)
      then show ?thesis
        using ledger_growsI [of db "hb_tasks db" n input "receipt_run rc (rr_run_id r)" "hb_reservations db" h db2] l Inr Some
        by simp
    qed
  qed
qed

lemma existing_grows:
  assumes "admit_existing n input db = (res, db')"
  shows "db' = db \<or> ledger_grows n input db db'"
  using assms settled_grows
  by (auto simp: admit_existing_def thrown_def split: option.splits if_splits)

lemma admit_grows:
  assumes "admitWithRunner i n now input db = (res, db')"
  shows "db' = db \<or> ledger_grows n input db db'"
proof -
  define w where "w = (case insertReservationRow (iso_ms n)
                       (handoff_reservation (now + int_column (ai_reservation_ttl_ms input)) input)
                       (ai_request_fingerprint input) (hb_reservations db) of
                      (Inl e, _) \<Rightarrow> (Inl e, db)
                    | (Inr (Some _), rs) \<Rightarrow> admit_fresh i n input db (db\<lparr>hb_reservations := rs\<rparr>)
                    | (Inr None, _) \<Rightarrow> admit_existing n input db)"
  have "db' = db \<or> (res, db') = w"
    using assms unfolding admitWithRunner_def in_tenant_def w_def [symmetric]
    by (cases "assertPositiveInteger (ai_reservation_ttl_ms input) ''HANDOFF_RESERVATION_TTL_INVALID''";
        cases "assertTimelineEvent input"; cases "assertTenantContext (ai_tenant_id input)"; cases "verifyFacts input db")
       simp_all
  moreover have "db' = db \<or> ledger_grows n input db db'" if w: "(res, db') = w"
  proof (cases "insertReservationRow (iso_ms n)
      (handoff_reservation (now + int_column (ai_reservation_ttl_ms input)) input)
      (ai_request_fingerprint input) (hb_reservations db)")
    case (Pair a rs)
    show ?thesis
    proof (cases a)
      case (Inl e)
      with w Pair show ?thesis by (simp add: w_def)
    next
      case (Inr m)
      show ?thesis
      proof (cases m)
        case None
        with w Pair Inr have "admit_existing n input db = (res, db')" by (simp add: w_def)
        then show ?thesis by (rule existing_grows)
      next
        case (Some r)
        with w Pair Inr have "admit_fresh i n input db (db\<lparr>hb_reservations := rs\<rparr>) = (res, db')" by (simp add: w_def)
        then show ?thesis by (rule fresh_grows)
      qed
    qed
  qed
  ultimately show ?thesis by blast
qed

subsection \<open>Journeys\<close>

text \<open>A customer's hops, in the order they were admitted.\<close>

definition hops :: "string \<Rightarrow> string \<Rightarrow> handoff_db \<Rightarrow> handoff_row list" where
  "hops t c db = filter (of_customer t c) (hb_handoffs db)"

text \<open>The legs of the journey graph, each with the agent that takes the customer over.\<close>

definition leg :: "handoff_row \<Rightarrow> bool" where
  "leg h \<longleftrightarrow> (hr_source_domain h, hr_target_domain h, hr_target_agent h)
     \<in> {(''marketing'', ''sales'', ''SAL-02''), (''sales'', ''care'', ''CS-01''), (''care'', ''retention'', ''CS-02'')}"

text \<open>
  The hop at a position. Nothing relates its source domain to the target of the hop before: the code does not
  compare them, so the legs of a customer need not join.
\<close>

definition hop_at :: "handoff_row list \<Rightarrow> nat \<Rightarrow> bool" where
  "hop_at hs i \<longleftrightarrow> leg (hs ! i) \<and> hr_lifecycle_version (hs ! i) = int i + 1 \<and> hr_hop_count (hs ! i) = i + 1
     \<and> hr_visited_domains (hs ! i) = map hr_source_domain (take (i + 1) hs)
     \<and> hr_target_domain (hs ! i) \<notin> set (hr_visited_domains (hs ! i))
     \<and> hr_lifecycle_state (hs ! i) = ''HANDED_OFF''"

definition journey :: "handoff_row list \<Rightarrow> bool" where
  "journey hs \<longleftrightarrow> length hs \<le> MAX_HANDOFF_HOPS \<and> distinct (map hr_source_domain hs) \<and> (\<forall>i < length hs. hop_at hs i)"

lemma journey_Nil [simp]: "journey []"
  by (simp add: journey_def)

lemma journey_snoc:
  assumes "journey hs" "length hs < MAX_HANDOFF_HOPS" "hr_source_domain h \<notin> hr_source_domain ` set hs"
    and "hop_at (hs @ [h]) (length hs)"
  shows "journey (hs @ [h])"
proof -
  have "hop_at (hs @ [h]) i" if "i < length hs" for i
  proof -
    have "(hs @ [h]) ! i = hs ! i" "take (i + 1) (hs @ [h]) = take (i + 1) hs" using that by (simp_all add: nth_append)
    then have "hop_at (hs @ [h]) i = hop_at hs i" unfolding hop_at_def by (simp only:)
    then show ?thesis using assms(1) that by (simp add: journey_def)
  qed
  then show ?thesis using assms by (auto simp: journey_def less_Suc_eq)
qed

lemma latest_of_journey: "journey hs \<Longrightarrow> latest_hop hs = (if hs = [] then None else Some (last hs))"
proof -
  have "\<forall>i < length hs. hr_lifecycle_version (hs ! i) = int k + int i \<Longrightarrow>
      latest_hop hs = (if hs = [] then None else Some (last hs))" for k
  proof (induction hs arbitrary: k)
    case Nil
    then show ?case by simp
  next
    case (Cons h hs)
    have t: "\<forall>i < length hs. hr_lifecycle_version (hs ! i) = int (Suc k) + int i"
      using Cons.prems by force
    show ?case
    proof (cases "hs = []")
      case True
      then show ?thesis by simp
    next
      case False
      have "hr_lifecycle_version (last hs) = int (Suc k) + int (length hs - 1)"
        using t False by (simp add: last_conv_nth)
      moreover have "hr_lifecycle_version h = int k" using Cons.prems by force
      ultimately show ?thesis using Cons.IH [OF t] False by simp
    qed
  qed
  from this [of 1] show "journey hs \<Longrightarrow> ?thesis" by (simp add: journey_def hop_at_def)
qed

lemma journey_last:
  assumes "journey hs" "hs \<noteq> []"
  shows "hr_lifecycle_version (last hs) = int (length hs)" "hr_hop_count (last hs) = length hs"
    and "hr_visited_domains (last hs) = map hr_source_domain hs"
    and "hr_lifecycle_state (last hs) = ''HANDED_OFF''"
proof -
  have "hop_at hs (length hs - 1)" using assms by (simp add: journey_def)
  then show "hr_lifecycle_version (last hs) = int (length hs)" "hr_hop_count (last hs) = length hs"
    "hr_visited_domains (last hs) = map hr_source_domain hs" "hr_lifecycle_state (last hs) = ''HANDED_OFF''"
    using assms(2) by (cases "length hs"; simp add: hop_at_def last_conv_nth)+
qed

text \<open>The facts the broker reads from a journey, before it looks at who made the last hop.\<close>

lemma journey_facts_read:
  assumes "journey (hops t c db)" "readCrossDomainLifecycle t c db = Inr rec" "readDurableJourneyFacts rec = Inr facts"
  shows "if hops t c db = [] then facts = \<lparr>jf_lifecycle = None, jf_visited_domains = [], jf_previous_hop_count = 0,
      jf_latest_hop_source_run_id = None\<rparr>
    else facts = \<lparr>jf_lifecycle = Some \<lparr>hl_version = int (length (hops t c db)), hl_state = ''HANDED_OFF''\<rparr>,
      jf_visited_domains = map hr_source_domain (hops t c db), jf_previous_hop_count = length (hops t c db),
      jf_latest_hop_source_run_id = Some (hr_source_run_id (last (hops t c db)))\<rparr>"
proof (cases "hops t c db = []")
  case True
  then show ?thesis using assms(2,3) latest_of_journey [OF assms(1)]
    by (auto simp: readCrossDomainLifecycle_def andThen_Inr_iff thrown_def hops_def readDurableJourneyFacts_def
        split: if_splits)
next
  case False
  then show ?thesis using assms(2,3) latest_of_journey [OF assms(1)] journey_last [OF assms(1) False]
    by (auto simp: readCrossDomainLifecycle_def andThen_Inr_iff thrown_def hops_def [symmetric] readDurableJourneyFacts_def
        lifecycleState_def split: if_splits)
qed

text \<open>What admits a package, as far as the ledger row keeps it.\<close>

lemma require_Inr: "require b c = Inr u \<longleftrightarrow> b"
  by (simp add: require_def)

lemma admissible_facts:
  assumes "assertHandoffAdmissible instant rt pkg ctx = Inr u"
  shows "hp_target_domain pkg \<notin> set (hp_visited_domains pkg)" "hp_hop_count pkg \<le> MAX_HANDOFF_HOPS"
    and "(hp_source_domain pkg, hp_target_domain pkg, hp_target_agent pkg)
      \<in> {(''marketing'', ''sales'', ''SAL-02''), (''sales'', ''care'', ''CS-01''), (''care'', ''retention'', ''CS-02'')}"
    and "hx_lifecycle ctx \<noteq> None \<Longrightarrow> hp_source_domain pkg \<notin> set (hx_visited_domains ctx)"
proof -
  obtain e where e: "find (\<lambda>c. he_target c = hp_target_domain pkg) (edges_of (hp_source_domain pkg)) = Some e"
    "hp_target_agent pkg \<in> set (he_allowed_agents e)"
    using assms by (auto simp: assertHandoffAdmissible_def andThen_Inr_iff require_Inr split: option.splits)
  have "e \<in> set (edges_of (hp_source_domain pkg))" "he_target e = hp_target_domain pkg" using find_Some_set [OF e(1)] by simp_all
  then show "(hp_source_domain pkg, hp_target_domain pkg, hp_target_agent pkg)
      \<in> {(''marketing'', ''sales'', ''SAL-02''), (''sales'', ''care'', ''CS-01''), (''care'', ''retention'', ''CS-02'')}"
    using e(2) by (auto simp: edges_of_def HANDOFF_DOMAIN_EDGES_def split: if_splits)
  have l: "hp_target_domain pkg \<notin> set (hp_visited_domains pkg) \<and> hp_hop_count pkg \<le> MAX_HANDOFF_HOPS"
    and st: "not_stale pkg ctx = Inr u"
    using assms by (auto simp: assertHandoffAdmissible_def andThen_Inr_iff require_Inr split: option.splits)
  from l show "hp_target_domain pkg \<notin> set (hp_visited_domains pkg)" "hp_hop_count pkg \<le> MAX_HANDOFF_HOPS" by auto
  show "hx_lifecycle ctx \<noteq> None \<Longrightarrow> hp_source_domain pkg \<notin> set (hx_visited_domains ctx)"
    using st by (auto simp: not_stale_def split: option.splits if_splits)
qed

lemma package_facts:
  assumes "createCrossDomainHandoffPackage rt i d l n visited = Inr pkg"
  shows "hl_version (hp_lifecycle pkg) = (case l of None \<Rightarrow> 0 | Some l \<Rightarrow> hl_version l) + 1"
    and "hl_state (hp_lifecycle pkg) = ''HANDED_OFF''" "hp_hop_count pkg = n + 1"
    and "hp_visited_domains pkg = visited @ [hd_source_domain d]" "hp_source_domain pkg = hd_source_domain d"
    and "hp_tenant_id pkg = hd_tenant_id d" "hp_customer_id pkg = hd_customer_id d"
    and "hp_source_run_id pkg = hd_source_run_id d" "hp_handoff_id pkg = i"
    and "hp_target_domain pkg = hd_target_domain d" "hp_target_agent pkg = hd_target_agent d"
  using assms by (auto simp: createCrossDomainHandoffPackage_def andThen_Inr_iff Let_def)

text \<open>The row a derived hop would add extends the journey, or its position is taken.\<close>

definition handoff_key :: "admit_input \<Rightarrow> string \<times> string" where
  "handoff_key input = (uuid_text (ai_tenant_id input), ai_idempotency_key input)"

lemma derived_hop:
  assumes "derive_hop instant rt ids ttl d db = Inr (pkg, input)"
    and j: "journey (hops (hd_tenant_id d) (hd_customer_id d) db)"
  shows "ai_tenant_id input = hd_tenant_id d \<and> ai_customer_id input = hd_customer_id d
    \<and> (let hs = hops (hd_tenant_id d) (hd_customer_id d) db; h = handoff_row_of n input run in
       (hs \<noteq> [] \<and> same_lifecycle h (last hs)) \<or> journey (hs @ [h]))"
proof -
  let ?hs = "hops (hd_tenant_id d) (hd_customer_id d) db"
  obtain rec facts u fp where r: "readCrossDomainLifecycle (hd_tenant_id d) (hd_customer_id d) db = Inr rec"
    "readDurableJourneyFacts rec = Inr facts"
    and c: "createCrossDomainHandoffPackage rt (id_handoff ids) d (jf_lifecycle (preHopJourneyFacts facts (hd_source_run_id d)))
        (jf_previous_hop_count (preHopJourneyFacts facts (hd_source_run_id d)))
        (jf_visited_domains (preHopJourneyFacts facts (hd_source_run_id d))) = Inr pkg"
    and a: "assertHandoffAdmissible instant rt pkg
        \<lparr>hx_tenant_id = hd_tenant_id d, hx_customer_id = hd_customer_id d,
         hx_lifecycle = jf_lifecycle (preHopJourneyFacts facts (hd_source_run_id d)),
         hx_visited_domains = jf_visited_domains (preHopJourneyFacts facts (hd_source_run_id d)),
         hx_previous_hop_count = jf_previous_hop_count (preHopJourneyFacts facts (hd_source_run_id d)),
         hx_source_authority = hd_source_authority d\<rparr> = Inr u"
    and i: "input = admit_input_of ids ttl d pkg fp"
    using assms(1) by (auto simp: derive_hop_def andThen_Inr_iff Let_def)
  note facts = journey_facts_read [OF j r]
  note pk = package_facts [OF c]
  note ad = admissible_facts [OF a]
  let ?h = "handoff_row_of n input run"
  have h: "hr_tenant_id ?h = uuid_text (hd_tenant_id d)" "hr_customer_id ?h = uuid_text (hd_customer_id d)"
    "hr_lifecycle_version ?h = hl_version (hp_lifecycle pkg)" "hr_hop_count ?h = hp_hop_count pkg"
    "hr_visited_domains ?h = hp_visited_domains pkg" "hr_target_domain ?h = hp_target_domain pkg"
    "hr_source_domain ?h = hd_source_domain d" "hr_lifecycle_state ?h = ''HANDED_OFF''"
    "hr_target_agent ?h = hp_target_agent pkg"
    using pk i by (simp_all add: handoff_row_of_def admit_input_of_def)
  have io: "ai_tenant_id input = hd_tenant_id d" "ai_customer_id input = hd_customer_id d"
    using i by (simp_all add: admit_input_of_def)
  have "(?hs \<noteq> [] \<and> same_lifecycle ?h (last ?hs)) \<or> journey (?hs @ [?h])"
  proof (cases "?hs = []")
    case True
    then have "facts = \<lparr>jf_lifecycle = None, jf_visited_domains = [], jf_previous_hop_count = 0,
      jf_latest_hop_source_run_id = None\<rparr>" using facts by simp
    then have "hop_at [?h] 0"
      using pk ad h by (simp add: hop_at_def leg_def preHopJourneyFacts_def)
    then show ?thesis using True journey_snoc [of "[]" ?h] by (simp add: MAX_HANDOFF_HOPS_def)
  next
    case False
    let ?n = "length ?hs"
    have f: "facts = \<lparr>jf_lifecycle = Some \<lparr>hl_version = int ?n, hl_state = ''HANDED_OFF''\<rparr>,
      jf_visited_domains = map hr_source_domain ?hs, jf_previous_hop_count = ?n,
      jf_latest_hop_source_run_id = Some (hr_source_run_id (last ?hs))\<rparr>" using facts False by simp
    show ?thesis
    proof (cases "hr_source_run_id (last ?hs) = hd_source_run_id d")
      case True
      have "?n = 1 \<or> 1 < ?n" using False by (cases "?hs"; cases "tl ?hs") auto
      then have "hl_version (hp_lifecycle pkg) = int ?n"
        using pk(1) f True False by (auto simp: preHopJourneyFacts_def split: if_splits)
      moreover have "last ?hs \<in> set ?hs" using False by simp
      then have "of_customer (hd_tenant_id d) (hd_customer_id d) (last ?hs)" by (simp add: hops_def)
      ultimately have "same_lifecycle ?h (last ?hs)"
        using h journey_last(1) [OF j False] by (simp add: same_lifecycle_def of_customer_def)
      with False show ?thesis by simp
    next
      case other: False
      then have p: "preHopJourneyFacts facts (hd_source_run_id d) = facts" using f by (simp add: preHopJourneyFacts_def)
      have v: "hp_visited_domains pkg = map hr_source_domain ?hs @ [hd_source_domain d]" "hp_hop_count pkg = ?n + 1"
        "hl_version (hp_lifecycle pkg) = int ?n + 1"
        using pk p f by simp_all
      have "hd_source_domain d \<notin> hr_source_domain ` set ?hs" using ad(4) pk(5) p f by simp
      moreover have "?n < MAX_HANDOFF_HOPS" using ad(2) v(2) by simp
      moreover have "hop_at (?hs @ [?h]) ?n" using h v ad(1,3) pk(5) by (simp add: hop_at_def leg_def)
      ultimately show ?thesis using journey_snoc [OF j] h(7) by simp
    qed
  qed
  with io show ?thesis by (simp add: Let_def)
qed

subsection \<open>Every session\<close>

definition journeys :: "handoff_db \<Rightarrow> bool" where
  "journeys db \<longleftrightarrow> (\<forall>t c. journey (hops t c db))"

definition backed :: "handoff_db \<Rightarrow> bool" where
  "backed db \<longleftrightarrow> (\<forall>h \<in> set (hb_handoffs db). list_ex (task_at (hr_tenant_id h) (hr_target_run_id h)) (hb_tasks db)
     \<and> list_ex (event_stored (hr_tenant_id h) (hr_idempotency_key h)) (hb_timeline db))
   \<and> distinct (map (\<lambda>h. (hr_tenant_id h, hr_idempotency_key h)) (hb_handoffs db))"

lemma insertLedgerRow_Some:
  assumes "insertLedgerRow n input run db = (Inr (Some h), db')"
  shows "h = handoff_row_of n input run" "db' = db\<lparr>hb_handoffs := hb_handoffs db @ [h]\<rparr>"
    and "\<not> list_ex (same_lifecycle h) (hb_handoffs db)"
    and "\<not> list_ex (handoff_at (ai_tenant_id input) (ai_idempotency_key input)) (hb_handoffs db)"
    and "list_ex (task_at (ai_tenant_id input) run) (hb_tasks db)"
  using assms by (auto simp: insertLedgerRow_def Let_def thrown_def split: if_splits)

lemma insertTimelineEvent_sel [simp]:
  "hb_handoffs (insertTimelineEvent input i db) = hb_handoffs db"
  "hb_tasks (insertTimelineEvent input i db) = hb_tasks db"
  "hb_reservations (insertTimelineEvent input i db) = hb_reservations db"
  "hb_facts (insertTimelineEvent input i db) = hb_facts db"
  by (simp_all add: insertTimelineEvent_def Let_def)

lemma timeline_kept: "set (hb_timeline db) \<subseteq> set (hb_timeline (insertTimelineEvent input i db))"
  by (auto simp: insertTimelineEvent_def Let_def)

lemma timeline_added:
  "list_ex (event_stored (ai_tenant_id input) (te_source_event_id (ai_timeline_event input)))
     (hb_timeline (insertTimelineEvent input i db))"
  by (simp add: insertTimelineEvent_def Let_def event_stored_def)

lemma list_ex_mono: "list_ex P xs \<Longrightarrow> set xs \<subseteq> set ys \<Longrightarrow> list_ex P ys"
  by (auto simp: list_ex_iff)

lemma hops_grown:
  "hb_handoffs db' = hb_handoffs db @ [h] \<Longrightarrow>
   hops t c db' = (if of_customer t c h then hops t c db @ [h] else hops t c db)"
  by (simp add: hops_def)

lemma hops_spelling:
  "of_customer t c h \<Longrightarrow> hr_tenant_id h = uuid_text u \<Longrightarrow> hr_customer_id h = uuid_text v \<Longrightarrow> hops t c db = hops u v db"
  by (simp add: of_customer_def [abs_def] hops_def)

lemma grown_journeys:
  assumes "journeys db" and "derive_hop instant rt ids ttl d db = Inr (pkg, input)" "ledger_grows n input db db'"
  shows "journeys db'"
proof -
  obtain rs ts run h db2 where l: "insertLedgerRow n input run (db\<lparr>hb_reservations := rs, hb_tasks := ts\<rparr>) = (Inr (Some h), db2)"
    and db': "db' = insertTimelineEvent input (hr_id h) db2"
    using assms(3) unfolding ledger_grows_def by blast
  note li = insertLedgerRow_Some [OF l]
  let ?hs = "hops (hd_tenant_id d) (hd_customer_id d) db"
  have j: "journey ?hs" using assms(1) by (simp add: journeys_def)
  have g: "hb_handoffs db' = hb_handoffs db @ [h]" using li(2) db' by simp
  note dh = derived_hop [OF assms(2) j, of n run, folded li(1)]
  have "\<not> (?hs \<noteq> [] \<and> same_lifecycle h (last ?hs))"
  proof
    assume c: "?hs \<noteq> [] \<and> same_lifecycle h (last ?hs)"
    then have "last ?hs \<in> set (hb_handoffs db)" using last_in_set [of ?hs] by (auto simp: hops_def)
    then show False using c li(3) by (auto simp: list_ex_iff)
  qed
  then have k: "journey (?hs @ [h])" using dh by (auto simp: Let_def)
  have key: "hr_tenant_id h = uuid_text (hd_tenant_id d)" "hr_customer_id h = uuid_text (hd_customer_id d)"
    using li(1) dh by (simp_all add: handoff_row_of_def)
  show ?thesis unfolding journeys_def
  proof (intro allI)
    fix t c
    show "journey (hops t c db')"
      using hops_grown [OF g, of t c] hops_spelling [of t c h] key k assms(1) by (auto simp: journeys_def)
  qed
qed

lemma broker_step:
  assumes "broker_admit instant rt ids ttl n now d db = (r, db')"
  shows "db' = db \<or> (\<exists>pkg input. derive_hop instant rt ids ttl d db = Inr (pkg, input) \<and> ledger_grows n input db db')"
proof (cases "derive_hop instant rt ids ttl d db")
  case (Inl e)
  with assms show ?thesis by (simp add: broker_admit_def)
next
  case (Inr p)
  obtain pkg input where p: "p = (pkg, input)" by force
  obtain a db2 where a: "admitWithRunner (id_task ids) n now input db = (a, db2)" by force
  have "db' = db2" using assms Inr p a by (auto simp: broker_admit_def split: sum.splits)
  with admit_grows [OF a] Inr p show ?thesis by blast
qed

interpretation handoff_journeys: invariant_system "handoff_exec instant rt" journeys for instant rt
proof
  fix db x
  assume j: "journeys db"
  show "journeys (snd (handoff_exec instant rt x db))"
  proof (cases x)
    case (Hop ids ttl n now d)
    obtain r db' where b: "broker_admit instant rt ids ttl n now d db = (r, db')" by force
    from broker_step [OF b] grown_journeys [OF j] have "journeys db'" using j by blast
    with Hop b show ?thesis by simp
  qed (use j in \<open>simp_all add: journeys_def hops_def\<close>)
qed


lemma derived_event:
  "derive_hop instant rt ids ttl d db = Inr (pkg, input) \<Longrightarrow>
   te_source_event_id (ai_timeline_event input) = ai_idempotency_key input"
  by (auto simp: derive_hop_def andThen_Inr_iff Let_def admit_input_of_def timelineEvent_def)

lemma tasks_kept:
  "list_ex (task_at t k) T \<Longrightarrow> list_ex (task_at t k) (snd (task_exec rt x T))"
proof -
  assume "list_ex (task_at t k) T"
  then obtain r where "lockDurableTask t k T = Some r"
    by (cases "lockDurableTask t k T") (auto simp: lockDurableTask_def find_None_set list_ex_iff)
  from task_exec_row [OF this, of rt x] obtain r' where "lockDurableTask t k (snd (task_exec rt x T)) = Some r'" by blast
  then show ?thesis using locked_key unfolding list_ex_iff by blast
qed

lemma grown_backed:
  assumes "backed db" and "derive_hop instant rt ids ttl d db = Inr (pkg, input)" "ledger_grows n input db db'"
  shows "backed db'"
proof -
  obtain rs ts run h db2 where ts: "set (hb_tasks db) \<subseteq> set ts"
    and l: "insertLedgerRow n input run (db\<lparr>hb_reservations := rs, hb_tasks := ts\<rparr>) = (Inr (Some h), db2)"
    and db': "db' = insertTimelineEvent input (hr_id h) db2"
    using assms(3) unfolding ledger_grows_def by blast
  note li = insertLedgerRow_Some [OF l]
  have g: "hb_handoffs db' = hb_handoffs db @ [h]" "hb_tasks db' = ts" using li(2) db' by simp_all
  have tl: "set (hb_timeline db) \<subseteq> set (hb_timeline db')"
    using timeline_kept [of db2 input "hr_id h"] li(2) db' by simp
  have key: "hr_tenant_id h = uuid_text (ai_tenant_id input)" "hr_target_run_id h = run"
    "hr_idempotency_key h = ai_idempotency_key input" using li(1) by (simp_all add: handoff_row_of_def)
  have "list_ex (task_at (hr_tenant_id h) (hr_target_run_id h)) ts"
    using li(5) key by (simp add: list_ex_iff task_at_def)
  moreover have "list_ex (event_stored (hr_tenant_id h) (hr_idempotency_key h)) (hb_timeline db')"
    using timeline_added [of input "hr_id h" db2] derived_event [OF assms(2)] db' key
    by (simp add: list_ex_iff event_stored_def)
  moreover have "(hr_tenant_id h, hr_idempotency_key h) \<notin> (\<lambda>h. (hr_tenant_id h, hr_idempotency_key h)) ` set (hb_handoffs db)"
    using li(4) key by (auto simp: list_ex_iff handoff_at_def)
  moreover have "list_ex (task_at (hr_tenant_id k) (hr_target_run_id k)) ts
      \<and> list_ex (event_stored (hr_tenant_id k) (hr_idempotency_key k)) (hb_timeline db')"
    if "k \<in> set (hb_handoffs db)" for k
    using assms(1) that list_ex_mono [OF _ ts] list_ex_mono [OF _ tl] by (auto simp: backed_def)
  ultimately show ?thesis using assms(1) g by (auto simp: backed_def)
qed

interpretation handoff_backing: invariant_system "handoff_exec instant rt" backed for instant rt
proof
  fix db x
  assume j: "backed db"
  show "backed (snd (handoff_exec instant rt x db))"
  proof (cases x)
    case (Hop ids ttl n now d)
    obtain r db' where b: "broker_admit instant rt ids ttl n now d db = (r, db')" by force
    from broker_step [OF b] grown_backed [OF j] have "backed db'" using j by blast
    with Hop b show ?thesis by simp
  qed (use j in \<open>simp_all add: backed_def tasks_kept\<close>)
qed

text \<open>
  C11: every hop in the ledger has the task its target run starts from and its row on the customer's
  timeline, and one idempotency key never has two hops, whatever was asked before, in whatever order.
\<close>

theorem admitted_hops_are_backed:
  assumes "hb_handoffs db = []" and "h \<in> set (hb_handoffs (snd (run_ops (handoff_exec instant rt) xs db)))"
  shows "\<exists>r e. r \<in> set (hb_tasks (snd (run_ops (handoff_exec instant rt) xs db)))
    \<and> task_at (hr_tenant_id h) (hr_target_run_id h) r
    \<and> e \<in> set (hb_timeline (snd (run_ops (handoff_exec instant rt) xs db)))
    \<and> event_stored (hr_tenant_id h) (hr_idempotency_key h) e
    \<and> (\<forall>g \<in> set (hb_handoffs (snd (run_ops (handoff_exec instant rt) xs db))).
         hr_tenant_id g = hr_tenant_id h \<and> hr_idempotency_key g = hr_idempotency_key h \<longrightarrow> g = h)"
proof -
  let ?db = "snd (run_ops (handoff_exec instant rt) xs db)"
  have "backed db" using assms(1) by (simp add: backed_def)
  from handoff_backing.inv_run [OF this] have b: "backed ?db" .
  then have "inj_on (\<lambda>h. (hr_tenant_id h, hr_idempotency_key h)) (set (hb_handoffs ?db))"
    by (simp add: backed_def distinct_map)
  then have "\<forall>g \<in> set (hb_handoffs ?db). hr_tenant_id g = hr_tenant_id h \<and> hr_idempotency_key g = hr_idempotency_key h
      \<longrightarrow> g = h" using assms(2) by (auto simp: inj_on_def)
  moreover have "list_ex (task_at (hr_tenant_id h) (hr_target_run_id h)) (hb_tasks ?db)"
    "list_ex (event_stored (hr_tenant_id h) (hr_idempotency_key h)) (hb_timeline ?db)"
    using b assms(2) by (auto simp: backed_def)
  ultimately show ?thesis by (auto simp: list_ex_iff)
qed

subsection \<open>A repeated handoff\<close>

lemma existing_never_admits: "admit_existing n input db = (Inr a, db') \<Longrightarrow> a \<noteq> Admitted h r"
  by (auto simp: admit_existing_def completeSettledReplay_def replay_answer_def thrown_def
      split: option.splits if_splits sum.splits prod.splits)

lemma reserved_row:
  assumes "insertReservationRow m q fp table = (Inr (Some r), table')" "rq_expires_at q = Some e"
  shows "find (row_at (rq_tenant_id q) (rq_effect_key q)) table' = Some r" "rr_fingerprint r = fp"
    and "rr_status r = RowReserved" "rr_expires_at r = e" "\<not> blank (rq_effect_key q)"
proof -
  have n: "\<not> list_ex (row_at (rq_tenant_id q) (rq_effect_key q)) table" and t: "table' = table @ [r]"
    and r: "row_at (rq_tenant_id q) (rq_effect_key q) r" "rr_fingerprint r = fp" "rr_status r = RowReserved"
      "rr_expires_at r = e" and k: "\<not> blank (rq_effect_key q)"
    using assms by (auto simp: insertReservationRow_def assertEffectKey_def Let_def row_at_def split: if_splits)
  have "find (row_at (rq_tenant_id q) (rq_effect_key q)) table = None"
    using n by (simp add: find_None_set list_ex_iff)
  then show "find (row_at (rq_tenant_id q) (rq_effect_key q)) table' = Some r" using t r by (simp add: find_append)
  show "rr_fingerprint r = fp" "rr_status r = RowReserved" "rr_expires_at r = e" "\<not> blank (rq_effect_key q)"
    using r k by simp_all
qed

text \<open>What an admission that wrote has left behind.\<close>

lemma admitted_trace:
  assumes "admitWithRunner i n now input db = (Inr (Admitted hid run), db')"
  shows "\<exists>r rs h. insertReservationRow (iso_ms n) (handoff_reservation (now + int_column (ai_reservation_ttl_ms input)) input)
        (ai_request_fingerprint input) (hb_reservations db) = (Inr (Some r), rs)
    \<and> hb_reservations db' = rs \<and> hb_handoffs db' = hb_handoffs db @ [h] \<and> hb_facts db' = hb_facts db
    \<and> h = handoff_row_of n input run \<and> hr_id h = hid
    \<and> \<not> list_ex (same_lifecycle h) (hb_handoffs db)
    \<and> \<not> list_ex (handoff_at (ai_tenant_id input) (ai_idempotency_key input)) (hb_handoffs db)
    \<and> verifyFacts input db = Inr () \<and> assertTenantContext (ai_tenant_id input) = Inr ()
    \<and> assertPositiveInteger (ai_reservation_ttl_ms input) ''HANDOFF_RESERVATION_TTL_INVALID'' = Inr ()"
proof -
  have g: "assertPositiveInteger (ai_reservation_ttl_ms input) ''HANDOFF_RESERVATION_TTL_INVALID'' = Inr ()"
    "assertTimelineEvent input = Inr ()" "assertTenantContext (ai_tenant_id input) = Inr ()" "verifyFacts input db = Inr ()"
    using assms unfolding admitWithRunner_def in_tenant_def
    by (cases "assertPositiveInteger (ai_reservation_ttl_ms input) ''HANDOFF_RESERVATION_TTL_INVALID''";
        cases "assertTimelineEvent input"; cases "assertTenantContext (ai_tenant_id input)"; cases "verifyFacts input db"; simp)+
  obtain a rs where ir: "insertReservationRow (iso_ms n) (handoff_reservation (now + int_column (ai_reservation_ttl_ms input)) input)
        (ai_request_fingerprint input) (hb_reservations db) = (a, rs)" by force
  have "\<exists>r. a = Inr (Some r)"
  proof (cases a)
    case (Inl e)
    then show ?thesis using assms g ir by (simp add: admitWithRunner_def in_tenant_def)
  next
    case (Inr m)
    show ?thesis
    proof (cases m)
      case None
      then have "admit_existing n input db = (Inr (Admitted hid run), db')"
        using assms g ir Inr by (simp add: admitWithRunner_def in_tenant_def)
      from existing_never_admits [OF this, of hid run] show ?thesis by simp
    qed (use Inr in simp)
  qed
  then obtain r where a: "a = Inr (Some r)" by blast
  have f: "admit_fresh i n input db (db\<lparr>hb_reservations := rs\<rparr>) = (Inr (Admitted hid run), db')"
    using assms g ir a by (simp add: admitWithRunner_def in_tenant_def)
  obtain b ts where t: "insertDurableTask i n (handoff_task input) (hb_tasks db) = (b, ts)" by force
  then obtain task where b: "b = Inr task" using f by (cases b) (auto simp: admit_fresh_def)
  obtain c db2 where l: "insertLedgerRow n input (ai_run_id input) (db\<lparr>hb_reservations := rs, hb_tasks := ts\<rparr>) = (c, db2)" by force
  have "\<exists>h. c = Inr (Some h)"
    using f t b l by (auto simp: admit_fresh_def split: sum.splits option.splits)
  then obtain h where c: "c = Inr (Some h)" by blast
  have db': "db' = insertTimelineEvent input (hr_id h) db2" "hid = hr_id h" "run = ai_run_id input"
    using f t b l c by (auto simp: admit_fresh_def)
  note li = insertLedgerRow_Some [OF l [unfolded c]]
  show ?thesis
    by (rule exI [of _ r], rule exI [of _ rs], rule exI [of _ h])
       (use ir a g db' li in simp)
qed

lemma renamed_package:
  "createCrossDomainHandoffPackage rt i d l n v = Inr pkg \<Longrightarrow>
   createCrossDomainHandoffPackage rt j d l n v = Inr (pkg\<lparr>hp_handoff_id := j\<rparr>)"
  by (auto simp: createCrossDomainHandoffPackage_def andThen_Inr_iff Let_def)

lemma renamed_admissible:
  assumes "assertHandoffAdmissible instant rt pkg ctx = Inr u" "assertText (JStr j) 128 = Inr ()"
  shows "assertHandoffAdmissible instant rt (pkg\<lparr>hp_handoff_id := j\<rparr>) ctx = Inr u"
proof -
  have "package_consistent instant rt pkg = Inr ()"
    using assms(1) by (simp add: assertHandoffAdmissible_def andThen_Inr_iff)
  then have p: "package_consistent instant rt (pkg\<lparr>hp_handoff_id := j\<rparr>) = Inr ()"
    using assms(2) by (simp add: package_consistent_def andThen_Inr_iff)
  have s: "not_stale (pkg\<lparr>hp_handoff_id := j\<rparr>) ctx = not_stale pkg ctx" by (simp add: not_stale_def cong: option.case_cong)
  show ?thesis
    using assms(1) by (simp add: assertHandoffAdmissible_def p s andThen_Inr_iff split: option.split_asm option.split)
qed

lemma admit_input_sel [simp]:
  "ai_tenant_id (admit_input_of ids ttl d p fp) = hd_tenant_id d"
  "ai_customer_id (admit_input_of ids ttl d p fp) = hd_customer_id d"
  "ai_source_run_id (admit_input_of ids ttl d p fp) = hp_source_run_id p"
  "ai_idempotency_key (admit_input_of ids ttl d p fp) = hp_idempotency_key p"
  "ai_request_fingerprint (admit_input_of ids ttl d p fp) = fp"
  "ai_evidence (admit_input_of ids ttl d p fp) = hp_evidence p"
  "ai_lifecycle_version (admit_input_of ids ttl d p fp) = hl_version (hp_lifecycle p)"
  "ai_reservation_ttl_ms (admit_input_of ids ttl d p fp) = ttl"
  by (simp_all add: admit_input_of_def)

lemma derived_input:
  assumes "derive_hop instant rt ids ttl d db = Inr (pkg, input)"
  shows "input = admit_input_of ids ttl d pkg (ai_request_fingerprint input)"
  using assms by (auto simp: derive_hop_def andThen_Inr_iff Let_def)

lemma row_of_sel:
  "of_customer (ai_tenant_id input) (ai_customer_id input) (handoff_row_of n input run)"
  "hr_source_run_id (handoff_row_of n input run) = ai_source_run_id input"
  "hr_lifecycle_version (handoff_row_of n input run) = ai_lifecycle_version input"
  "handoff_at (ai_tenant_id input) (ai_idempotency_key input) (handoff_row_of n input run)"
  "hr_target_run_id (handoff_row_of n input run) = run"
  by (simp_all add: of_customer_def handoff_at_def handoff_row_of_def)

text \<open>After its own hop, a run derives the very same hop again.\<close>

lemma derive_again:
  assumes j: "journeys db" and d: "derive_hop instant rt ids ttl d db = Inr (pkg, input)"
    and g: "hb_handoffs db' = hb_handoffs db @ [h]" "h = handoff_row_of n input run"
    and new: "\<not> list_ex (same_lifecycle h) (hb_handoffs db)" and t: "assertText (JStr (id_handoff ids')) 128 = Inr ()"
  shows "derive_hop instant rt ids' ttl d db' = Inr (pkg\<lparr>hp_handoff_id := id_handoff ids'\<rparr>,
    admit_input_of ids' ttl d (pkg\<lparr>hp_handoff_id := id_handoff ids'\<rparr>) (ai_request_fingerprint input))"
proof -
  let ?hs = "hops (hd_tenant_id d) (hd_customer_id d) db"
  have jh: "journey ?hs" using j by (simp add: journeys_def)
  obtain rec facts where r: "readCrossDomainLifecycle (hd_tenant_id d) (hd_customer_id d) db = Inr rec"
    "readDurableJourneyFacts rec = Inr facts"
    and c: "createCrossDomainHandoffPackage rt (id_handoff ids) d (jf_lifecycle (preHopJourneyFacts facts (hd_source_run_id d)))
        (jf_previous_hop_count (preHopJourneyFacts facts (hd_source_run_id d)))
        (jf_visited_domains (preHopJourneyFacts facts (hd_source_run_id d))) = Inr pkg"
    and a: "assertHandoffAdmissible instant rt pkg
        \<lparr>hx_tenant_id = hd_tenant_id d, hx_customer_id = hd_customer_id d,
         hx_lifecycle = jf_lifecycle (preHopJourneyFacts facts (hd_source_run_id d)),
         hx_visited_domains = jf_visited_domains (preHopJourneyFacts facts (hd_source_run_id d)),
         hx_previous_hop_count = jf_previous_hop_count (preHopJourneyFacts facts (hd_source_run_id d)),
         hx_source_authority = hd_source_authority d\<rparr> = Inr ()"
    and fp: "requestFingerprint rt d pkg = Inr (ai_request_fingerprint input)"
    and i: "input = admit_input_of ids ttl d pkg (ai_request_fingerprint input)"
    using d derived_input [OF d] by (auto simp: derive_hop_def andThen_Inr_iff Let_def)
  note facts = journey_facts_read [OF jh r]
  have sel: "ai_tenant_id input = hd_tenant_id d" "ai_customer_id input = hd_customer_id d"
    "ai_source_run_id input = hd_source_run_id d" "ai_lifecycle_version input = hl_version (hp_lifecycle pkg)"
    by (subst i, simp add: package_facts [OF c])+
  have key: "of_customer (hd_tenant_id d) (hd_customer_id d) h" "hr_source_run_id h = hd_source_run_id d"
    and hv: "hr_lifecycle_version h = hl_version (hp_lifecycle pkg)"
    unfolding g(2) row_of_sel sel(3,4) by (rule row_of_sel(1) [of input n run, unfolded sel(1,2)] refl)+
  have hs': "hops (hd_tenant_id d) (hd_customer_id d) db' = ?hs @ [h]" using hops_grown [OF g(1)] key(1) by simp
  have "\<not> (?hs \<noteq> [] \<and> same_lifecycle h (last ?hs))"
  proof
    assume x: "?hs \<noteq> [] \<and> same_lifecycle h (last ?hs)"
    then have "last ?hs \<in> set (hb_handoffs db)" using last_in_set [of ?hs] by (auto simp: hops_def)
    then show False using x new by (auto simp: list_ex_iff)
  qed
  then have j': "journey (?hs @ [h])" using derived_hop [OF d jh, of n run, folded g(2)] by (auto simp: Let_def)
  have last': "hr_lifecycle_version h = int (length ?hs) + 1" "hr_hop_count h = length ?hs + 1"
    "hr_visited_domains h = map hr_source_domain ?hs @ [hr_source_domain h]" "hr_lifecycle_state h = ''HANDED_OFF''"
    using journey_last [OF j'] by simp_all
  obtain rec' facts' where r': "readCrossDomainLifecycle (hd_tenant_id d) (hd_customer_id d) db' = Inr rec'"
    "readDurableJourneyFacts rec' = Inr facts'"
  proof -
    have ok: "assertTenantContext (hd_tenant_id d) = Inr ()" "tenant_uuid (hd_customer_id d)"
      using r(1) by (auto simp: readCrossDomainLifecycle_def andThen_Inr_iff thrown_def split: if_splits)
    have dom: "list_all isJourneyDomain (hr_visited_domains h)"
    proof -
      have "\<forall>i < length (?hs @ [h]). isJourneyDomain (hr_source_domain ((?hs @ [h]) ! i))"
        using j' by (auto simp: journey_def hop_at_def leg_def isJourneyDomain_def JOURNEY_DOMAINS_def)
      then show ?thesis unfolding last'(3) by (auto simp: list_all_iff in_set_conv_nth nth_append split: if_splits)
         (metis less_Suc_eq, metis less_Suc_eq)?
    qed
    have "latest_hop (filter (of_customer (hd_tenant_id d) (hd_customer_id d)) (hb_handoffs db')) = Some h"
      using latest_of_journey [OF j'] hs' by (simp add: hops_def)
    then show thesis using that ok dom last'
      by (simp add: readCrossDomainLifecycle_def readDurableJourneyFacts_def lifecycleState_def LIFECYCLE_STATES_def)
  qed
  have j2: "journey (hops (hd_tenant_id d) (hd_customer_id d) db')" using j' hs' by simp
  note facts' = journey_facts_read [OF j2 r']
  have pre': "preHopJourneyFacts facts' (hd_source_run_id d)
      = \<lparr>jf_lifecycle = (if ?hs = [] then None else Some \<lparr>hl_version = int (length ?hs), hl_state = ''HANDED_OFF''\<rparr>),
         jf_visited_domains = map hr_source_domain ?hs, jf_previous_hop_count = length ?hs,
         jf_latest_hop_source_run_id = None\<rparr>"
    using facts' hs' key(2) by (simp add: preHopJourneyFacts_def butlast_append)
  have pk: "hl_version (hp_lifecycle pkg) = int (length ?hs) + 1"
    using last'(1) hv by simp
  have same: "jf_lifecycle (preHopJourneyFacts facts' (hd_source_run_id d)) = jf_lifecycle (preHopJourneyFacts facts (hd_source_run_id d))
    \<and> jf_visited_domains (preHopJourneyFacts facts' (hd_source_run_id d)) = jf_visited_domains (preHopJourneyFacts facts (hd_source_run_id d))
    \<and> jf_previous_hop_count (preHopJourneyFacts facts' (hd_source_run_id d))
       = jf_previous_hop_count (preHopJourneyFacts facts (hd_source_run_id d))"
  proof (cases "?hs = []")
    case True
    then show ?thesis using facts pre' by (simp add: preHopJourneyFacts_def)
  next
    case False
    then have "preHopJourneyFacts facts (hd_source_run_id d) = facts"
      using facts pk package_facts(1) [OF c] by (auto simp: preHopJourneyFacts_def split: if_splits)
    then show ?thesis using facts pre' False by simp
  qed
  have fp': "requestFingerprint rt d (pkg\<lparr>hp_handoff_id := id_handoff ids'\<rparr>) = Inr (ai_request_fingerprint input)"
    using fp by (simp add: requestFingerprint_def request_identity_json_def)
  show ?thesis
    using r' renamed_package [OF c, of "id_handoff ids'"] renamed_admissible [OF a t] same fp'
    by (simp add: derive_hop_def Let_def)
qed

text \<open>The admission a repeated hop meets.\<close>

lemma admit_again:
  assumes j: "journeys db" and b: "broker_admit instant rt ids ttl n now d db = (Inr a, db')" and ad: "ha_admitted a"
    and t: "assertText (JStr (id_handoff ids')) 128 = Inr ()"
    and e': "hb_handoffs e = hb_handoffs db'" "hb_reservations e = hb_reservations db'" "hb_facts e = hb_facts db'"
  shows "broker_admit instant rt ids' ttl n' now' d e
    = (if iso_ms n' < now + int_column ttl then Inr (a\<lparr>ha_admitted := False\<rparr>)
       else Inl (OrchestratorError ''HANDOFF_ADMISSION_UNRESOLVED''), e)"
proof -
  obtain pkg input where d: "derive_hop instant rt ids ttl d db = Inr (pkg, input)"
    using b by (cases "derive_hop instant rt ids ttl d db") (auto simp: broker_admit_def)
  obtain x db2 where w: "admitWithRunner (id_task ids) n now input db = (x, db2)" by force
  obtain hid run where x: "x = Inr (Admitted hid run)" "db2 = db'"
    "a = \<lparr>ha_handoff_id = hid, ha_target_run_id = run, ha_admitted = True, ha_lifecycle = hp_lifecycle pkg\<rparr>"
    using b ad d w by (auto simp: broker_admit_def broker_answer_def split: sum.splits admission.splits)
  from admitted_trace [OF w [unfolded x(1,2)]] show ?thesis
  proof (elim exE conjE)
  fix r rs h
  assume tr: "insertReservationRow (iso_ms n) (handoff_reservation (now + int_column (ai_reservation_ttl_ms input)) input)
        (ai_request_fingerprint input) (hb_reservations db) = (Inr (Some r), rs)"
    "hb_reservations db' = rs" "hb_handoffs db' = hb_handoffs db @ [h]" "hb_facts db' = hb_facts db"
    "h = handoff_row_of n input run" "hr_id h = hid" "\<not> list_ex (same_lifecycle h) (hb_handoffs db)"
    "\<not> list_ex (handoff_at (ai_tenant_id input) (ai_idempotency_key input)) (hb_handoffs db)"
    "verifyFacts input db = Inr ()" "assertTenantContext (ai_tenant_id input) = Inr ()"
    "assertPositiveInteger (ai_reservation_ttl_ms input) ''HANDOFF_RESERVATION_TTL_INVALID'' = Inr ()"
  define pkg' where "pkg' = pkg\<lparr>hp_handoff_id := id_handoff ids'\<rparr>"
  define input' where "input' = admit_input_of ids' ttl d pkg' (ai_request_fingerprint input)"
  have d': "derive_hop instant rt ids' ttl d e = Inr (pkg', input')"
    unfolding pkg'_def input'_def by (rule derive_again [OF j d tr(3) [folded e'(1)] tr(5,7) t])
  have i: "input = admit_input_of ids ttl d pkg (ai_request_fingerprint input)"
    by (rule derived_input [OF d])
  have ai: "ai_tenant_id input' = ai_tenant_id input" "ai_idempotency_key input' = ai_idempotency_key input"
    "ai_request_fingerprint input' = ai_request_fingerprint input" "ai_evidence input' = ai_evidence input"
    "ai_source_run_id input' = ai_source_run_id input" "ai_reservation_ttl_ms input' = ai_reservation_ttl_ms input"
    "ai_reservation_ttl_ms input = ttl"
    by (simp_all add: input'_def pkg'_def) (subst i, simp)+
  have ev: "assertTimelineEvent input' = Inr ()"
    by (simp add: assertTimelineEvent_def input'_def admit_input_of_def timelineEvent_def member_def)
  have vf: "verifyFacts input' e = Inr ()"
  proof -
    have "fact_verified input' e = fact_verified input db"
      by (rule ext) (simp add: fact_verified_def ai e'(3) tr(4) cong: option.case_cong)
    then show ?thesis using tr(9) by (simp add: verifyFacts_def ai)
  qed
  let ?q = "handoff_reservation (now + int_column (ai_reservation_ttl_ms input)) input"
  have q: "rq_tenant_id ?q = ai_tenant_id input" "rq_effect_key ?q = ai_idempotency_key input"
    "rq_expires_at ?q = Some (now + int_column ttl)" by (simp_all add: handoff_reservation_def ai(7))
  note rr = reserved_row [OF tr(1) q(3), unfolded q(1,2)]
  have res: "insertReservationRow (iso_ms n') (handoff_reservation (now' + int_column (ai_reservation_ttl_ms input')) input')
      (ai_request_fingerprint input') (hb_reservations e) = (Inr None, hb_reservations e)"
  proof -
    have "list_ex (row_at (ai_tenant_id input) (ai_idempotency_key input)) rs"
      using find_Some_set [OF rr(1)] by (auto simp: list_ex_iff)
    then show ?thesis using rr(5) tr(2) e'(2) by (simp add: insertReservationRow_def assertEffectKey_def handoff_reservation_def ai)
  qed
  have hkey: "handoff_at (ai_tenant_id input) (ai_idempotency_key input) h"
    unfolding tr(5) by (rule row_of_sel(4))
  have "find (handoff_at (ai_tenant_id input) (ai_idempotency_key input)) (hb_handoffs db) = None"
    using tr(8) by (simp add: find_None_set list_ex_iff)
  then have sel: "selectHandoff (ai_tenant_id input) (ai_idempotency_key input) e = Some h"
    using tr(3) e'(1) hkey by (simp add: selectHandoff_def find_append)
  have hrun: "hr_target_run_id h = run" unfolding tr(5) by (rule row_of_sel(5))
  have "admitWithRunner (id_task ids') n' now' input' e
      = (Inr (if iso_ms n' < now + int_column ttl then InFlight hid run else ReconcileRequired), e)"
    using tr(2,6,10,11) e'(2) ev vf res rr sel hrun
    by (simp add: admitWithRunner_def in_tenant_def ai admit_existing_def row_expired_def)
  then show ?thesis using d' x(3) by (simp add: broker_admit_def broker_answer_def pkg'_def)
  qed
qed

lemma session_journeys:
  "hb_handoffs db = [] \<Longrightarrow> journeys (snd (run_ops (handoff_exec instant rt) xs db))"
  by (rule handoff_journeys.inv_run) (simp add: journeys_def hops_def)

lemma task_ops_elsewhere:
  "hb_handoffs (snd (run_ops (handoff_exec instant rt) (map OnTasks ys) db)) = hb_handoffs db"
  "hb_reservations (snd (run_ops (handoff_exec instant rt) (map OnTasks ys) db)) = hb_reservations db"
  "hb_facts (snd (run_ops (handoff_exec instant rt) (map OnTasks ys) db)) = hb_facts db"
  by (induction ys arbitrary: db) simp_all

text \<open>
  C37: a run that repeats the handoff it has had admitted - after a crash, on another worker, with fresh
  identifiers - before the reservation's time to live has passed, and with nothing but work on tasks in between,
  is answered the hop it made: the same handoff, the same target run, the same life cycle, marked as not
  admitted now, and the database is left as it was. Its own hop does not read as history to it. Once that time
  has passed the repeat is refused as unresolved, and the database is left as it was too.
\<close>

theorem repeated_handoff_is_recognised:
  assumes "hb_handoffs db0 = []" and db: "db = snd (run_ops (handoff_exec instant rt) xs db0)"
    and b: "broker_admit instant rt ids ttl n now d db = (Inr a, db')" and ad: "ha_admitted a"
    and e: "e = snd (run_ops (handoff_exec instant rt) (map OnTasks ys) db')"
    and t: "assertText (JStr (id_handoff ids')) 128 = Inr ()"
  shows "broker_admit instant rt ids' ttl n' now' d e
    = (if iso_ms n' < now + int_column ttl then Inr (a\<lparr>ha_admitted := False\<rparr>)
       else Inl (OrchestratorError ''HANDOFF_ADMISSION_UNRESOLVED''), e)"
  unfolding e
  by (rule admit_again [OF _ b ad t task_ops_elsewhere]) (use session_journeys [OF assms(1)] db in simp)

text \<open>
  the reservation an admission writes is never settled by the admission itself, so once its expiry has
  passed the very same repeat is refused as unresolved, although the hop stands in the ledger and its
  target run was created.
\<close>

theorem lapsed_handoff_is_unanswerable:
  assumes "hb_handoffs db0 = []" and db: "db = snd (run_ops (handoff_exec instant rt) xs db0)"
    and b: "broker_admit instant rt ids ttl n now d db = (Inr a, db')" and ad: "ha_admitted a"
    and t: "assertText (JStr (id_handoff ids')) 128 = Inr ()" and late: "now + int_column ttl \<le> iso_ms n'"
  shows "broker_admit instant rt ids' ttl n' now' d db' = (Inl (OrchestratorError ''HANDOFF_ADMISSION_UNRESOLVED''), db')"
  using admit_again [OF _ b ad t refl refl refl, of n' now'] session_journeys [OF assms(1)] db late by simp

end
