(* ===== verification/HandoffExamples.thy ===== *)
theory HandoffExamples
  imports HandoffProperties EvidenceLogger
begin

text \<open>A concrete brokered handoff: the witnesses of the theorems of \<open>HandoffProperties\<close>.\<close>

definition example_digest :: string where
  "example_digest = replicate 64 CHR ''0''"

definition digest_runtime :: runtime where
  "digest_runtime = echo_runtime\<lparr>rt_sha256 := (\<lambda>_. example_digest)\<rparr>"

lemma digested: "canonical v \<Longrightarrow>
  andThen (effect_canonicalizeJson digest_runtime v) (\<lambda>t. Inr (rt_sha256 digest_runtime t)) = Inr example_digest"
  using effect_canonical_iff [of digest_runtime v "text_of digest_runtime v"]
  by (simp add: digest_runtime_def)

definition example_ref :: jobject where
  "example_ref = [(''classification'', JStr ''SIGNAL''), (''claim'', JStr ''c''), (''source_uri'', JStr ''u''),
     (''source_version'', JStr ''1''), (''verified_by'', JStr ''v'')]"

definition example_draft :: handoff_draft where
  "example_draft = \<lparr>hd_tenant_id = example_tenant, hd_customer_id = example_tenant, hd_correlation_id = ''c'',
     hd_source_domain = ''marketing'', hd_source_agent = ''MKT-01'', hd_source_run_id = ''r'',
     hd_source_authority = AUTH1, hd_target_domain = ''sales'', hd_target_agent = ''SAL-02'',
     hd_reason = ''ready'', hd_evidence = [JObj example_ref], hd_occurred_at = ''now''\<rparr>"

definition example_ids :: hop_ids where
  "example_ids = \<lparr>id_handoff = example_tenant, id_run = ''s'', id_signal = ''g'', id_task = ''t''\<rparr>"

definition empty_ledger :: handoff_db where
  "empty_ledger = \<lparr>hb_reservations = [], hb_tasks = [], hb_handoffs = [], hb_timeline = [], hb_facts = [],
     hb_customers = [(uuid_text example_tenant, uuid_text example_tenant)]\<rparr>"

definition example_package :: handoff_package where
  "example_package = \<lparr>hp_handoff_id = example_tenant, hp_tenant_id = example_tenant, hp_customer_id = example_tenant,
     hp_correlation_id = ''c'', hp_source_domain = ''marketing'', hp_source_agent = ''MKT-01'', hp_source_run_id = ''r'',
     hp_target_domain = ''sales'', hp_target_agent = ''SAL-02'', hp_reason = ''ready'', hp_evidence = [JObj example_ref],
     hp_classification = ''SIGNAL'', hp_lifecycle = \<lparr>hl_version = 1, hl_state = ''HANDED_OFF''\<rparr>,
     hp_idempotency_key = example_digest, hp_hop_count = 1, hp_visited_domains = [''marketing''], hp_occurred_at = ''now''\<rparr>"

lemma example_text: "length example_tenant = 36" "\<not> blank example_tenant"
  by (simp_all add: example_tenant_def blank_def trim_def is_ws_def)

lemma example_context: "assertTenantContext example_tenant = Inr ()" "tenant_uuid example_tenant"
  using example_tenant_uuid by (simp_all add: assertTenantContext_def)

lemma short_text: "\<not> blank s \<Longrightarrow> length s \<le> m \<Longrightarrow> assertText (JStr s) m = Inr ()"
  by (simp add: assertText_def)

lemma example_words: "\<not> blank ''c''" "\<not> blank ''r''" "\<not> blank ''ready''" "\<not> blank ''u''" "\<not> blank ''1''" "\<not> blank ''v''"
  by (simp_all add: blank_def trim_def is_ws_def)

lemma example_class: "ref_class (JObj example_ref) = JStr ''SIGNAL''"
  by (simp add: ref_class_def example_ref_def member_def)

lemma example_derived: "deriveHandoffClassification [JObj example_ref] = Inr (JStr ''SIGNAL'')"
  by (simp add: deriveHandoffClassification_def strongest_def example_class)

lemma example_shape: "assertEvidenceRefShape (JObj example_ref) = Inr ()"
  by (simp add: assertEvidenceRefShape_def example_ref_def member_def short_text example_words)

lemma hop_key: "computeHandoffIdempotencyKey digest_runtime example_tenant example_tenant ''r'' ''sales'' ''SAL-02'' v ''ready''
   = Inr example_digest"
  unfolding computeHandoffIdempotencyKey_def by (rule digested) (simp add: handoff_identity_def)

lemma hop_created: "createCrossDomainHandoffPackage digest_runtime example_tenant example_draft None 0 [] = Inr example_package"
  by (simp add: createCrossDomainHandoffPackage_def example_draft_def example_derived hop_key example_package_def)

lemma example_consistent: "package_consistent Some digest_runtime example_package = Inr ()"
  by (simp add: package_consistent_def example_package_def short_text example_text example_words require_def
      isJourneyDomain_def JOURNEY_DOMAINS_def isCanonicalInstant_def MAX_HANDOFF_EVIDENCE_REFS_def example_shape
      example_derived hop_key MAX_HANDOFF_REASON_LENGTH_def)

lemma hop_admissible:
  "assertHandoffAdmissible Some digest_runtime example_package
     \<lparr>hx_tenant_id = example_tenant, hx_customer_id = example_tenant, hx_lifecycle = None, hx_visited_domains = [],
      hx_previous_hop_count = 0, hx_source_authority = AUTH1\<rparr> = Inr ()"
  unfolding assertHandoffAdmissible_def example_consistent
  by (simp add: example_package_def require_def example_text edges_of_def HANDOFF_DOMAIN_EDGES_def authorityRank_def
      MAX_HANDOFF_HOPS_def not_stale_def)

lemma example_fingerprint: "requestFingerprint digest_runtime example_draft example_package = Inr example_digest"
  unfolding requestFingerprint_def by (rule digested) (simp add: request_identity_json_def)

definition example_input :: admit_input where
  "example_input = admit_input_of example_ids (Fin 1000) example_draft example_package example_digest"

lemma example_hop: "derive_hop Some digest_runtime example_ids (Fin 1000) example_draft empty_ledger
   = Inr (example_package, example_input)"
proof -
  have d: "hd_tenant_id example_draft = example_tenant" "hd_customer_id example_draft = example_tenant"
    "hd_source_authority example_draft = AUTH1" "hd_source_run_id example_draft = ''r''"
    "id_handoff example_ids = example_tenant"
    by (simp_all add: example_draft_def example_ids_def)
  have r: "readCrossDomainLifecycle example_tenant example_tenant empty_ledger = Inr None"
    by (simp add: readCrossDomainLifecycle_def example_context empty_ledger_def)
  show ?thesis
    by (simp add: derive_hop_def d r readDurableJourneyFacts_def preHopJourneyFacts_def hop_created
        hop_admissible example_fingerprint example_input_def)
qed

definition example_hop_row :: handoff_row where
  "example_hop_row = handoff_row_of 0 example_input ''s''"

text \<open>The admission of it, half an hour's reservation behind it.\<close>

lemma example_input_sel [simp]:
  "ai_tenant_id example_input = example_tenant" "ai_customer_id example_input = example_tenant"
  "ai_handoff_id example_input = example_tenant" "ai_idempotency_key example_input = example_digest"
  "ai_request_fingerprint example_input = example_digest" "ai_reservation_ttl_ms example_input = Fin 1000"
  "ai_run_id example_input = ''s''" "ai_correlation_id example_input = ''c''"
  "ai_evidence example_input = [JObj example_ref]"
  by (simp_all add: example_input_def admit_input_of_def example_draft_def example_package_def example_ids_def)

lemma example_digest_text: "isSha256Hex example_digest" "\<not> blank example_digest"
  by (simp_all add: example_digest_def isSha256Hex_def list_all_iff blank_def trim_def is_ws_def)

lemma example_event: "assertTimelineEvent example_input = Inr ()"
  by (simp add: assertTimelineEvent_def example_input_def admit_input_of_def timelineEvent_def member_def)

lemma example_facts: "verifyFacts example_input empty_ledger = Inr ()"
  by (simp add: verifyFacts_def fact_verified_def example_ref_def member_def)

lemma example_signal: "\<exists>s. stringified (JObj [(''signal'', ai_signal example_input)]) = Some s"
  by simp

lemma example_request: "ct_tenant_id (handoff_task example_input) = example_tenant"
  "ct_run_id (handoff_task example_input) = ''s''" "ct_correlation_id (handoff_task example_input) = ''c''"
  "ct_current_step (handoff_task example_input) = Some (Fin 0)" "ct_state (handoff_task example_input) = Some Queued"
  "ct_max_retries (handoff_task example_input) = None"
  "ct_state_payload (handoff_task example_input) = JObj [(''signal'', ai_signal example_input)]"
  by (simp_all add: handoff_task_def)

lemma example_identifier: "assertIdentifier example_tenant 36 c = Inr ()" "assertIdentifier ''s'' 64 c = Inr ()"
  "assertIdentifier ''c'' 64 c = Inr ()"
  by (simp add: assertIdentifier_def example_text) (simp_all add: assertIdentifier_def blank_def trim_def is_ws_def)

lemma example_checked: "\<exists>p. checked_payload (handoff_task example_input) = Inr p"
  by (simp add: checked_payload_def example_request assert_task_identity_def example_identifier or_default_def assertTaskState_def DURABLE_TASK_STATES_def is_int_rat_def
      assert_retries_and_park_def PARKED_STATES_def serializeJsonb_def)

lemma example_task: "\<exists>task. insertDurableTask ''t'' 0 (handoff_task example_input) [] = (Inr task, [task])
    \<and> task_at example_tenant ''s'' task"
proof -
  obtain p where p: "checked_payload (handoff_task example_input) = Inr p" using example_checked by blast
  show ?thesis
    by (simp add: insertDurableTask_def p task_at_def opening_row_def example_request)
qed

lemma example_row_checks: "row_checks example_hop_row" "hr_tenant_id example_hop_row = uuid_text example_tenant"
    "hr_customer_id example_hop_row = uuid_text example_tenant"
  by (simp_all add: row_checks_def example_hop_row_def handoff_row_of_def example_digest_text)
    (simp_all add: example_input_def admit_input_of_def example_package_def)

lemma example_ledger:
  assumes "task_at example_tenant ''s'' task"
  shows "insertLedgerRow 0 example_input ''s'' (empty_ledger\<lparr>hb_reservations := rs, hb_tasks := [task]\<rparr>)
    = (Inr (Some example_hop_row), empty_ledger\<lparr>hb_reservations := rs, hb_tasks := [task], hb_handoffs := [example_hop_row]\<rparr>)"
  using assms unfolding insertLedgerRow_def example_hop_row_def [symmetric]
  by (simp add: example_row_checks example_context empty_ledger_def)

lemma example_admitted:
  "\<exists>db'. admitWithRunner ''t'' 0 0 example_input empty_ledger = (Inr (Admitted (hr_id example_hop_row) ''s''), db')"
proof -
  obtain task where t: "insertDurableTask ''t'' 0 (handoff_task example_input) [] = (Inr task, [task])"
    "task_at example_tenant ''s'' task" using example_task by blast
  have e: "hb_reservations empty_ledger = []" "hb_tasks (empty_ledger\<lparr>hb_reservations := rs\<rparr>) = []" for rs
    by (simp_all add: empty_ledger_def)
  have "\<exists>r rs. insertReservationRow (iso_ms 0) (handoff_reservation (0 + int_column (ai_reservation_ttl_ms example_input))
      example_input) (ai_request_fingerprint example_input) [] = (Inr (Some r), rs)"
    by (simp add: insertReservationRow_def assertEffectKey_def handoff_reservation_def example_digest_text Let_def)
  then obtain r rs where r: "insertReservationRow (iso_ms 0) (handoff_reservation
      (0 + int_column (ai_reservation_ttl_ms example_input)) example_input) (ai_request_fingerprint example_input) []
      = (Inr (Some r), rs)" by blast
  have p: "assertPositiveInteger (Fin 1000) c = Inr ()" for c by (simp add: is_int_rat_def)
  have f: "\<exists>db'. admit_fresh ''t'' 0 example_input empty_ledger (empty_ledger\<lparr>hb_reservations := rs\<rparr>)
      = (Inr (Admitted (hr_id example_hop_row) ''s''), db')"
    by (simp add: admit_fresh_def e t(1) example_ledger [OF t(2)])
  show ?thesis
    using f r by (simp add: admitWithRunner_def p example_event in_tenant_def example_context example_facts e)
qed

text \<open>The broker's answer.\<close>

lemma example_brokered:
  "\<exists>db'. broker_admit Some digest_runtime example_ids (Fin 1000) 0 0 example_draft empty_ledger
    = (Inr \<lparr>ha_handoff_id = hr_id example_hop_row, ha_target_run_id = ''s'', ha_admitted = True,
         ha_lifecycle = \<lparr>hl_version = 1, hl_state = ''HANDED_OFF''\<rparr>\<rparr>, db')"
proof -
  have i: "id_task example_ids = ''t''" by (simp add: example_ids_def)
  have l: "hp_lifecycle example_package = \<lparr>hl_version = 1, hl_state = ''HANDED_OFF''\<rparr>" by (simp add: example_package_def)
  from example_admitted obtain db' where
    "admitWithRunner ''t'' 0 0 example_input empty_ledger = (Inr (Admitted (hr_id example_hop_row) ''s''), db')" by blast
  then show ?thesis by (simp add: broker_admit_def example_hop i broker_answer_def l)
qed

lemma empty_ledger_handoffs: "hb_handoffs empty_ledger = []"
  by (simp add: empty_ledger_def)


lemma example_last_admission:
  "broker_admit instant rt ids ttl n now d db = (Inr a, db') \<Longrightarrow> ha_admitted a \<Longrightarrow>
   \<exists>h. hb_handoffs db' = hb_handoffs db @ [h]"
proof -
  assume b: "broker_admit instant rt ids ttl n now d db = (Inr a, db')" "ha_admitted a"
  then obtain pkg input where d: "derive_hop instant rt ids ttl d db = Inr (pkg, input)"
    by (cases "derive_hop instant rt ids ttl d db") (auto simp: broker_admit_def)
  obtain x db2 where w: "admitWithRunner (id_task ids) n now input db = (x, db2)" by force
  obtain hid run where x: "x = Inr (Admitted hid run)" "db2 = db'"
    using b d w by (auto simp: broker_admit_def broker_answer_def split: sum.splits admission.splits)
  from admitted_trace [OF w [unfolded x]] show ?thesis by (elim exE conjE) (rule exI)
qed

theorem admitted_hops_are_backed_witness:
  "\<exists>h r. h \<in> set (hb_handoffs (snd (run_ops (handoff_exec Some digest_runtime)
        [Hop example_ids (Fin 1000) 0 0 example_draft] empty_ledger)))
    \<and> r \<in> set (hb_tasks (snd (run_ops (handoff_exec Some digest_runtime)
        [Hop example_ids (Fin 1000) 0 0 example_draft] empty_ledger)))
    \<and> task_at (hr_tenant_id h) (hr_target_run_id h) r"
proof -
  obtain a db' where b: "broker_admit Some digest_runtime example_ids (Fin 1000) 0 0 example_draft empty_ledger = (Inr a, db')"
    "ha_admitted a" using example_brokered by force
  obtain h where h: "hb_handoffs db' = [h]" using example_last_admission [OF b] empty_ledger_handoffs by auto
  have e: "snd (run_ops (handoff_exec Some digest_runtime) [Hop example_ids (Fin 1000) 0 0 example_draft] empty_ledger) = db'"
    using b(1) by simp
  show ?thesis
    using admitted_hops_are_backed [of empty_ledger h Some digest_runtime "[Hop example_ids (Fin 1000) 0 0 example_draft]",
      unfolded e, OF empty_ledger_handoffs] h unfolding e by auto
qed

theorem repeated_handoff_is_recognised_witness:
  "\<exists>a db'. broker_admit Some digest_runtime example_ids (Fin 1000) 0 0 example_draft empty_ledger = (Inr a, db') \<and> ha_admitted a
    \<and> broker_admit Some digest_runtime example_ids (Fin 1000) 0 0 example_draft db' = (Inr (a\<lparr>ha_admitted := False\<rparr>), db')"
proof -
  obtain a db' where b: "broker_admit Some digest_runtime example_ids (Fin 1000) 0 0 example_draft empty_ledger = (Inr a, db')"
    "ha_admitted a" using example_brokered by force
  have t: "assertText (JStr (id_handoff example_ids)) 128 = Inr ()" by (simp add: example_ids_def short_text example_text)
  have "broker_admit Some digest_runtime example_ids (Fin 1000) 0 0 example_draft db' = (Inr (a\<lparr>ha_admitted := False\<rparr>), db')"
    using repeated_handoff_is_recognised [OF empty_ledger_handoffs _ b _ t, of "[]" db' "[]" 0 0] by (simp add: iso_ms_def)
  with b show ?thesis by blast
qed

theorem lapsed_handoff_is_unanswerable_witness:
  "\<exists>a db'. broker_admit Some digest_runtime example_ids (Fin 1000) 0 0 example_draft empty_ledger = (Inr a, db') \<and> ha_admitted a
    \<and> broker_admit Some digest_runtime example_ids (Fin 1000) 2000000 0 example_draft db'
      = (Inl (OrchestratorError ''HANDOFF_ADMISSION_UNRESOLVED''), db')"
proof -
  obtain a db' where b: "broker_admit Some digest_runtime example_ids (Fin 1000) 0 0 example_draft empty_ledger = (Inr a, db')"
    "ha_admitted a" using example_brokered by force
  have t: "assertText (JStr (id_handoff example_ids)) 128 = Inr ()" by (simp add: example_ids_def short_text example_text)
  have "broker_admit Some digest_runtime example_ids (Fin 1000) 2000000 0 example_draft db'
      = (Inl (OrchestratorError ''HANDOFF_ADMISSION_UNRESOLVED''), db')"
    by (rule lapsed_handoff_is_unanswerable [OF empty_ledger_handoffs _ b t, of "[]"]) (simp_all add: iso_ms_def)
  with b show ?thesis by blast
qed

end
