(* ===== verification/WorkerDispatch.thy ===== *)
theory WorkerDispatch
  imports TaskParking CrossDomainHandoff
begin

text \<open>
  The worker's dispatch of a claimed task, \<open>apps/worker/src/worker.ts\<close> (\<open>processClaimedTask\<close>,
  \<open>releaseLeaseIfHeld\<close>) and \<open>apps/worker/src/runtime/domain-registry.ts\<close>, over the task repository. The
  orchestrator a binding creates is a value of the registry, as in the code: two functions on the task
  table. The calls made to it are recorded beside the table.
\<close>

subsection \<open>The registry of domains\<close>

record signal_contract =
  sc_module :: string
  sc_source_channels :: "string list"
  sc_event_types :: "string list"
  sc_signal_invalid_code :: string

record worker_orchestrator =
  wo_resumeTask :: "string \<Rightarrow> json \<Rightarrow> task_table \<Rightarrow> unit result \<times> task_table"
  wo_processQueuedSignal :: "string \<Rightarrow> json \<Rightarrow> string \<Rightarrow> task_table \<Rightarrow> unit result \<times> task_table"

record runtime_binding =
  rb_contract :: signal_contract
  rb_createOrchestrator :: "string \<Rightarrow> worker_orchestrator option result"

type_synonym domain_registry = "(string \<times> runtime_binding) list"

definition createDomainRuntimeRegistry :: "runtime_binding list \<Rightarrow> domain_registry" where
  "createDomainRuntimeRegistry bindings = fold (\<lambda>b. AList.update (sc_module (rb_contract b)) b) bindings []"

definition registry_resolve :: "domain_registry \<Rightarrow> string \<Rightarrow> runtime_binding option" where
  "registry_resolve reg module_name = map_of reg module_name"

definition registry_modules :: "domain_registry \<Rightarrow> string list" where
  "registry_modules reg = map fst reg"

definition string_of :: "json \<Rightarrow> string option" where
  "string_of v = (case v of JStr s \<Rightarrow> Some s | _ \<Rightarrow> None)"

definition filled :: "json \<Rightarrow> bool" where
  "filled v \<longleftrightarrow> (case v of JStr s \<Rightarrow> s \<noteq> [] | _ \<Rightarrow> False)"

text \<open>The channel pair: a handoff event travels only on the internal channel, which carries only those.\<close>

definition channel_pair :: "string \<Rightarrow> string \<Rightarrow> bool" where
  "channel_pair source_channel event_type \<longleftrightarrow>
     starts_with ''handoff.'' event_type = (source_channel = ''ORCHESTRATOR_HANDOFF'')"

definition registry_accepts :: "domain_registry \<Rightarrow> json \<Rightarrow> string option \<Rightarrow> string option \<Rightarrow> runtime_binding option" where
  "registry_accepts reg signal tenant_id correlation_id =
    (case as_record signal of
       None \<Rightarrow> None
     | Some s \<Rightarrow>
         if \<not> filled (member s ''tenant_id'') \<or> (tenant_id \<noteq> None \<and> string_of (member s ''tenant_id'') \<noteq> tenant_id)
         then None
         else if \<not> filled (member s ''correlation_id'')
           \<or> (correlation_id \<noteq> None \<and> string_of (member s ''correlation_id'') \<noteq> correlation_id) then None
         else if \<not> filled (member s ''signal_id'') then None
         else (case (string_of (member s ''source_channel''), string_of (member s ''event_type''),
                     as_record (member s ''payload'')) of
             (Some channel, Some event_type, Some payload) \<Rightarrow>
               (case string_of (member payload ''module'') of
                  None \<Rightarrow> None
                | Some m \<Rightarrow>
                    (case registry_resolve reg m of
                       None \<Rightarrow> None
                     | Some b \<Rightarrow>
                         if channel \<notin> set (sc_source_channels (rb_contract b)) then None
                         else if event_type \<notin> set (sc_event_types (rb_contract b)) then None
                         else if \<not> channel_pair channel event_type then None
                         else Some b))
           | _ \<Rightarrow> None))"

subsection \<open>A claimed task\<close>

definition RESUME_EVENT_TYPES :: "string list" where
  "RESUME_EVENT_TYPES = [''human.approval'', ''human.modify'', ''human.reject'', ''human.pause'', ''human.cancel'',
     ''human.reconcile'', ''timer.expired'', ''reconcile.completed'', ''human.handoff.evidence'',
     ''handoff.marketing_to_sales'', ''handoff.sales_to_care'', ''handoff.care_to_retention'']"

definition hasResumeEvent :: "json \<Rightarrow> bool" where
  "hasResumeEvent v \<longleftrightarrow> (case as_record v of None \<Rightarrow> False
     | Some o1 \<Rightarrow> as_record (member o1 ''resume_event'') \<noteq> None)"

text \<open>\<open>pending_action\<close> is an object whose member \<open>mutating\<close> is \<open>true\<close>.\<close>

definition pending_mutates :: "json \<Rightarrow> bool" where
  "pending_mutates v \<longleftrightarrow> (case as_record (member (plain_members v) ''pending_action'') of None \<Rightarrow> False
     | Some p \<Rightarrow> member p ''mutating'' = JBool True)"

definition signal_module :: "jobject \<Rightarrow> string option" where
  "signal_module payload =
    (case as_record (member payload ''signal'') of None \<Rightarrow> None
     | Some s \<Rightarrow> (case as_record (member s ''payload'') of None \<Rightarrow> None
         | Some p \<Rightarrow> string_of (member p ''module'')))"

datatype worker_call = Resumed string string json | Processed string string json

record worker_state =
  ws_tasks :: task_table
  ws_calls :: "worker_call list"

text \<open>
  \<open>dp_aborted k\<close> is what the abort signal reads at its \<open>k\<close>-th check; \<open>dp_clock\<close> and \<open>dp_now\<close> are the
  database's clock and \<open>Date.now()\<close> at the write of the attempt (0) and at the release (1).
\<close>

record dispatch =
  dp_tenant :: string
  dp_worker :: string
  dp_registry :: domain_registry
  dp_aborted :: "nat \<Rightarrow> bool"
  dp_clock :: "nat \<Rightarrow> int"
  dp_now :: "nat \<Rightarrow> int"

type_synonym attempt = "unit result \<times> worker_state"

definition stored :: "worker_state \<Rightarrow> 'a result \<times> task_table \<Rightarrow> attempt" where
  "stored st p = (andThen (fst p) (\<lambda>_. Inr ()), st\<lparr>ws_tasks := snd p\<rparr>)"

definition throwIfAborted :: "dispatch \<Rightarrow> nat \<Rightarrow> unit result" where
  "throwIfAborted c k = (if dp_aborted c k then thrown ''AbortError'' else Inr ())"

definition parked_state :: "task_state \<Rightarrow> bool" where
  "parked_state s \<longleftrightarrow> s = Waiting \<or> s = AwaitingHuman"

definition fail_closed :: "dispatch \<Rightarrow> durable_task \<Rightarrow> jobject \<Rightarrow> worker_state \<Rightarrow> attempt" where
  "fail_closed c task details st = stored st (durable_recordFailure (dp_clock c 0) (dp_now c 0)
     \<lparr>fi_tenant_id = dp_tenant c, fi_run_id = dt_run_id task, fi_error_class = ''FATAL'',
      fi_error_details = JObj details, fi_expected_task_version = Some (Fin (of_int (dt_task_version task))),
      fi_lease_owner = Some (dp_worker c)\<rparr> (ws_tasks st))"

definition code_only :: "string \<Rightarrow> jobject" where
  "code_only code = [(''code'', JStr code)]"

definition not_enabled :: "string \<Rightarrow> jobject" where
  "not_enabled m = [(''code'', JStr ''CAPABILITY_NOT_ENABLED''), (''module'', JStr m),
     (''message'', JStr (''module '' @ [CHR 0x27] @ m @ [CHR 0x27] @ '' is not enabled''))]"

text \<open>\<open>toUpperCase\<close> of a module name, whose letters are ASCII.\<close>

definition upper_letter :: "char \<Rightarrow> char" where
  "upper_letter ch = (if CHR ''a'' \<le> ch \<and> ch \<le> CHR ''z'' then char_of (of_char ch - 32 :: nat) else ch)"

definition unbound_code :: "string \<Rightarrow> string" where
  "unbound_code m = (if m = ''support'' then ''CARE_ORCHESTRATOR_UNBOUND''
     else map upper_letter m @ ''_ORCHESTRATOR_UNBOUND'')"

text \<open>Both branches end alike: the orchestrator is created, then called between two checks of the signal.\<close>

definition call_orchestrator :: "dispatch \<Rightarrow> durable_task \<Rightarrow> runtime_binding \<Rightarrow> worker_call \<Rightarrow>
    (worker_orchestrator \<Rightarrow> task_table \<Rightarrow> unit result \<times> task_table) \<Rightarrow> worker_state \<Rightarrow> attempt" where
  "call_orchestrator c task b call work st =
    (case rb_createOrchestrator b (dp_tenant c) of
       Inl e \<Rightarrow> (Inl e, st)
     | Inr None \<Rightarrow> fail_closed c task (code_only (unbound_code (sc_module (rb_contract b)))) st
     | Inr (Some orchestrator) \<Rightarrow>
         (case throwIfAborted c 1 of
            Inl e \<Rightarrow> (Inl e, st)
          | Inr _ \<Rightarrow>
              let (r, T) = work orchestrator (ws_tasks st) in
              (andThen r (\<lambda>_. throwIfAborted c 2), st\<lparr>ws_tasks := T, ws_calls := ws_calls st @ [call]\<rparr>)))"

definition resume_event_valid :: "dispatch \<Rightarrow> json \<Rightarrow> bool" where
  "resume_event_valid c event \<longleftrightarrow>
    (case as_record event of None \<Rightarrow> False
     | Some e \<Rightarrow> member e ''tenant_id'' = JStr (dp_tenant c)
         \<and> (case string_of (member e ''event_type'') of None \<Rightarrow> False | Some t \<Rightarrow> t \<in> set RESUME_EVENT_TYPES))"

definition resume_claimed :: "dispatch \<Rightarrow> durable_task \<Rightarrow> json \<Rightarrow> worker_state \<Rightarrow> attempt" where
  "resume_claimed c task event st =
    (let payload = plain_members (dt_state_payload task) in
     if \<not> resume_event_valid c event then fail_closed c task (code_only ''RESUME_EVENT_INVALID'') st
     else case assertCompleteCheckpoint (JObj (AList.delete ''resume_event'' payload)) of
       Inl _ \<Rightarrow> fail_closed c task (code_only ''CHECKPOINT_INCOMPLETE'') st
     | Inr _ \<Rightarrow>
         let m = or_default (signal_module payload) [] in
         if m = [] then fail_closed c task (code_only ''CARE_SIGNAL_INVALID'') st
         else case registry_resolve (dp_registry c) m of
           None \<Rightarrow> fail_closed c task (not_enabled m) st
         | Some b \<Rightarrow> call_orchestrator c task b (Resumed m (dt_run_id task) event)
             (\<lambda>orch. wo_resumeTask orch (dt_run_id task) event) st)"

definition process_signal :: "dispatch \<Rightarrow> durable_task \<Rightarrow> string \<Rightarrow> json \<Rightarrow> worker_state \<Rightarrow> attempt" where
  "process_signal c task m signal st =
    (case registry_resolve (dp_registry c) m of
       None \<Rightarrow> fail_closed c task (not_enabled m) st
     | Some b \<Rightarrow>
         (case registry_accepts (dp_registry c) signal (Some (dp_tenant c)) (Some (dt_correlation_id task)) of
            None \<Rightarrow> fail_closed c task (code_only (sc_signal_invalid_code (rb_contract b))) st
          | Some accepted \<Rightarrow> call_orchestrator c task accepted (Processed m (dt_run_id task) signal)
              (\<lambda>orch. wo_processQueuedSignal orch (dt_run_id task) signal (dp_worker c)) st))"

definition park_unknown_effect :: "dispatch \<Rightarrow> durable_task \<Rightarrow> worker_state \<Rightarrow> attempt" where
  "park_unknown_effect c task st = stored st (durable_transitionTask (dp_clock c 0) (dp_now c 0) (dp_tenant c)
     (dt_run_id task) Waiting ''EFFECT_UNKNOWN: reclaimed mutating action requires provider reconciliation''
     (dt_state_payload task) (Some \<lparr>tg_expected_task_version = Fin (of_int (dt_task_version task)),
       tg_lease_owner = Some (dp_worker c)\<rparr>) (ws_tasks st))"

definition attempt_task :: "dispatch \<Rightarrow> durable_task \<Rightarrow> worker_state \<Rightarrow> attempt" where
  "attempt_task c task st =
    (let payload = plain_members (dt_state_payload task); event = member payload ''resume_event'' in
     if parked_state (dt_state task) \<and> \<not> hasResumeEvent (dt_state_payload task) then (Inr (), st)
     else case throwIfAborted c 0 of
       Inl e \<Rightarrow> (Inl e, st)
     | Inr _ \<Rightarrow>
         if event \<noteq> JUndef then resume_claimed c task event st
         else if pending_mutates (dt_state_payload task) then park_unknown_effect c task st
         else case signal_module payload of
           Some m \<Rightarrow> process_signal c task m (member payload ''signal'') st
         | None \<Rightarrow> fail_closed c task (code_only ''CARE_SIGNAL_INVALID'') st)"

subsection \<open>The lease afterwards\<close>

definition release_target :: "task_state \<Rightarrow> task_state" where
  "release_target s = (if s = AwaitingHuman then AwaitingHuman else if s = Waiting then Waiting else Queued)"

definition releaseLeaseIfHeld :: "dispatch \<Rightarrow> string \<Rightarrow> bool \<Rightarrow> task_table \<Rightarrow> bool result \<times> task_table" where
  "releaseLeaseIfHeld c run_id releaseParkedWithoutEvent T =
    (case durable_getTask (dp_tenant c) run_id T of
       Inl e \<Rightarrow> (Inl e, T)
     | Inr None \<Rightarrow> (Inr False, T)
     | Inr (Some task) \<Rightarrow>
         if dt_lease_owner task \<noteq> Some (dp_worker c) then (Inr False, T)
         else if dt_state task \<noteq> Running \<and> \<not> (hasResumeEvent (dt_state_payload task) \<and> parked_state (dt_state task))
           \<and> \<not> (releaseParkedWithoutEvent \<and> parked_state (dt_state task))
         then (Inr False, T)
         else case releaseTaskLease (dp_clock c 1) (dp_now c 1) (dp_tenant c) run_id (dp_worker c)
             (Fin (of_int (dt_task_version task))) (Some (release_target (dt_state task))) T of
           (Inr _, T') \<Rightarrow> (Inr True, T')
         | (Inl e, T') \<Rightarrow>
             if e = ThrownError ''TASK_VERSION_CONFLICT'' \<or> e = ThrownError ''TASK_LEASE_NOT_HELD''
             then (Inr False, T') else (Inl e, T'))"

definition finish_attempt :: "dispatch \<Rightarrow> durable_task \<Rightarrow> worker_state \<Rightarrow> attempt" where
  "finish_attempt c task st =
    (let hadResumeEvent = hasResumeEvent (dt_state_payload task);
         parkedWithoutResumeEvent = (parked_state (dt_state task) \<and> \<not> hadResumeEvent) in
     if dp_aborted c 3 then (Inr (), st)
     else case durable_getTask (dp_tenant c) (dt_run_id task) (ws_tasks st) of
       Inl e \<Rightarrow> (Inl e, st)
     | Inr current \<Rightarrow>
         let payload = (case current of None \<Rightarrow> JUndef | Some r \<Rightarrow> dt_state_payload r) in
         if \<not> dp_aborted c 4 \<and> (hadResumeEvent \<or> hasResumeEvent payload \<or> \<not> pending_mutates payload)
         then stored st (releaseLeaseIfHeld c (dt_run_id task) (hadResumeEvent \<or> parkedWithoutResumeEvent) (ws_tasks st))
         else (Inr (), st))"

text \<open>\<open>try ... finally\<close>: what the attempt threw is thrown again, unless the release throws.\<close>

definition processClaimedTask :: "dispatch \<Rightarrow> durable_task \<Rightarrow> worker_state \<Rightarrow> attempt" where
  "processClaimedTask c task st =
    (case attempt_task c task st of (result, st1) \<Rightarrow>
       (case finish_attempt c task st1 of
          (Inl e, st2) \<Rightarrow> (Inl e, st2)
        | (Inr _, st2) \<Rightarrow> (result, st2)))"

end
