(* ===== verification/WorkerPolling.thy ===== *)
theory WorkerPolling
  imports WorkerDispatch
begin

text \<open>
  The worker's poller, \<open>apps/worker/src/worker-polling.ts\<close>: polls that claim tasks tenant by tenant under
  a shared cap, attempts with a heartbeat, and a stop that drains. Several polls and attempts are in
  progress at once, so the model is a transition system: an event is what the next callback does between
  two suspensions, and the events come in any order.
\<close>

subsection \<open>State\<close>

record polling_options =
  wp_tenants :: "string list"
  wp_concurrency :: nat
  wp_ready :: bool
  wp_has_modules :: bool
  wp_auto_start :: bool

text \<open>A poll waits for a claim of a tenant, the tenants behind it, or for the attempts it started.\<close>

datatype poll_pc = Claiming string "string list" | AwaitingTasks

record poll =
  pl_id :: nat
  pl_pc :: poll_pc
  pl_attempts :: "nat list"
  pl_claimed :: nat

text \<open>
  An attempt until its slot is given back; \<open>ended\<close> once its \<open>finally\<close> has run, \<open>done\<close> once the promise of
  \<open>processTask\<close> has settled. The attempt waits for a race of that promise and the loss of the lease, so a
  task may still run when its attempt has ended: such a task outlives it.
\<close>

record poll_attempt =
  pa_id :: nat
  pa_tenant :: string
  pa_key :: string
  pa_settled :: bool
  pa_aborted :: bool
  pa_timed_out :: bool
  pa_ended :: bool
  pa_done :: bool

datatype drain_state = NotStopped | DrainPending | Drained bool nat

record poller =
  po_accepting :: bool
  po_running :: bool
  po_in_flight :: "(string \<times> nat) list"
  po_active_polls :: nat
  po_polls :: "poll list"
  po_attempts :: "poll_attempt list"
  po_outliving :: "poll_attempt list"
  po_active :: "(string \<times> nat) list"
  po_drain :: drain_state
  po_drain_reason :: bool
  po_next :: nat

definition createWorkerPoller :: "polling_options \<Rightarrow> jnum \<Rightarrow> jnum \<Rightarrow> poller result" where
  "createWorkerPoller opt tenantConcurrency drainTimeoutMs =
    (if \<not> is_safe_integer tenantConcurrency \<or> num_less tenantConcurrency (Fin 1)
     then thrown ''WORKER_TENANT_CONCURRENCY_INVALID''
     else if \<not> is_safe_integer drainTimeoutMs \<or> num_less drainTimeoutMs (Fin 1)
     then thrown ''WORKER_DRAIN_TIMEOUT_INVALID''
     else Inr \<lparr>po_accepting = True,
       po_running = (wp_auto_start opt \<and> wp_ready opt \<and> wp_tenants opt \<noteq> [] \<and> wp_has_modules opt),
       po_in_flight = [], po_active_polls = 0, po_polls = [], po_attempts = [], po_outliving = [], po_active = [],
       po_drain = NotStopped, po_drain_reason = False, po_next = 0\<rparr>)"

subsection \<open>Slots and the drain\<close>

definition incrementInFlight :: "string \<Rightarrow> poller \<Rightarrow> poller" where
  "incrementInFlight t s = s\<lparr>po_in_flight := AList.update t (or_default (map_of (po_in_flight s) t) 0 + 1) (po_in_flight s)\<rparr>"

definition totalInFlight :: "poller \<Rightarrow> nat" where
  "totalInFlight s = sum_list (map snd (po_in_flight s))"

definition isDrained :: "poller \<Rightarrow> bool" where
  "isDrained s \<longleftrightarrow> po_active_polls s = 0 \<and> totalInFlight s = 0"

definition notifyDrainWaiter :: "poller \<Rightarrow> poller" where
  "notifyDrainWaiter s = (if po_drain s = DrainPending \<and> isDrained s then s\<lparr>po_drain := Drained False 0\<rparr> else s)"

definition decrementInFlight :: "string \<Rightarrow> poller \<Rightarrow> poller" where
  "decrementInFlight t s =
    (let next_count = or_default (map_of (po_in_flight s) t) 1 - 1 in
     notifyDrainWaiter (s\<lparr>po_in_flight := (if 0 < next_count then AList.update t next_count (po_in_flight s)
       else AList.delete t (po_in_flight s))\<rparr>))"

subsection \<open>Polls\<close>

text \<open>The loops over the tenants, up to the next claim or to the wait for the attempts.\<close>

fun poll_loop :: "polling_options \<Rightarrow> string list \<Rightarrow> poller \<Rightarrow> poller \<times> poll_pc" where
  "poll_loop opt [] s = (s, AwaitingTasks)"
| "poll_loop opt (t # ts) s =
    (if \<not> po_accepting s then poll_loop opt ts s
     else if wp_concurrency opt \<le> or_default (map_of (po_in_flight s) t) 0 then poll_loop opt ts s
     else (incrementInFlight t s, Claiming t ts))"

definition set_poll :: "poll \<Rightarrow> poller \<Rightarrow> poller" where
  "set_poll p s = s\<lparr>po_polls := map (\<lambda>q. if pl_id q = pl_id p then p else q) (po_polls s)\<rparr>"

definition resume_poll :: "polling_options \<Rightarrow> string list \<Rightarrow> poll \<Rightarrow> poller \<Rightarrow> poller" where
  "resume_poll opt ts p s = (let (s', pc) = poll_loop opt ts s in set_poll (p\<lparr>pl_pc := pc\<rparr>) s')"

definition close_poll :: "nat \<Rightarrow> poller \<Rightarrow> poller" where
  "close_poll i s = notifyDrainWaiter (s\<lparr>po_active_polls := po_active_polls s - 1,
     po_polls := filter (\<lambda>p. pl_id p \<noteq> i) (po_polls s)\<rparr>)"

definition pollOnce :: "polling_options \<Rightarrow> poller \<Rightarrow> poller" where
  "pollOnce opt s0 =
    (let p = \<lparr>pl_id = po_next s0, pl_pc = AwaitingTasks, pl_attempts = [], pl_claimed = 0\<rparr>;
         s = s0\<lparr>po_active_polls := po_active_polls s0 + 1, po_polls := po_polls s0 @ [p], po_next := po_next s0 + 1\<rparr> in
     if \<not> po_accepting s \<or> \<not> wp_ready opt \<or> wp_tenants opt = [] \<or> \<not> wp_has_modules opt
     then close_poll (pl_id p) s
     else resume_poll opt (wp_tenants opt) p s)"

subsection \<open>Attempts\<close>

text \<open>\<open>failLease\<close>: nothing once the attempt has settled.\<close>

definition failLease :: "poll_attempt \<Rightarrow> poll_attempt" where
  "failLease a = (if pa_settled a then a else a\<lparr>pa_settled := True, pa_aborted := True\<rparr>)"

definition attempt_key :: "string \<Rightarrow> string \<Rightarrow> string" where
  "attempt_key t run = t @ '':'' @ run"

text \<open>The attempt of a claimed run; a claim that answers after the drain timed out is aborted at once.\<close>

definition start_attempt :: "string \<Rightarrow> string \<Rightarrow> poll \<Rightarrow> poller \<Rightarrow> poll \<times> poller" where
  "start_attempt t run p s =
    (let a = \<lparr>pa_id = po_next s, pa_tenant = t, pa_key = attempt_key t run, pa_settled = False, pa_aborted = False,
              pa_timed_out = False, pa_ended = False, pa_done = False\<rparr>;
         a' = (if po_drain_reason s then failLease (a\<lparr>pa_timed_out := True\<rparr>) else a) in
     (p\<lparr>pl_attempts := pl_attempts p @ [pa_id a], pl_claimed := pl_claimed p + 1\<rparr>,
      s\<lparr>po_attempts := po_attempts s @ [a'], po_active := AList.update (pa_key a) (pa_id a) (po_active s),
        po_next := po_next s + 1\<rparr>))"

definition on_attempt :: "nat \<Rightarrow> (poll_attempt \<Rightarrow> poll_attempt) \<Rightarrow> poller \<Rightarrow> poller" where
  "on_attempt i f s = s\<lparr>po_attempts := map (\<lambda>a. if pa_id a = i then f a else a) (po_attempts s)\<rparr>"

text \<open>\<open>stopHeartbeat(); activeAttempts.delete(attemptKey)\<close>.\<close>

definition end_attempt :: "poll_attempt \<Rightarrow> poller \<Rightarrow> poller" where
  "end_attempt a s = on_attempt (pa_id a) (\<lambda>a. a\<lparr>pa_settled := True, pa_ended := True\<rparr>) s
     \<lparr>po_active := AList.delete (pa_key a) (po_active s)\<rparr>"

text \<open>The task of an attempt whose slot is given back, if its promise has not settled.\<close>

definition outlives :: "poll_attempt \<Rightarrow> poller \<Rightarrow> poller" where
  "outlives a s = (if pa_done a then s else s\<lparr>po_outliving := po_outliving s @ [a]\<rparr>)"

subsection \<open>Stop\<close>

definition poller_stop :: "jnum \<Rightarrow> poller \<Rightarrow> unit result \<times> poller" where
  "poller_stop timeout s =
    (if po_drain s \<noteq> NotStopped then (Inr (), s)
     else if \<not> is_safe_integer timeout \<or> num_less timeout (Fin 1) then (thrown ''WORKER_DRAIN_TIMEOUT_INVALID'', s)
     else let s' = s\<lparr>po_accepting := False, po_running := False\<rparr> in
       (Inr (), s'\<lparr>po_drain := (if isDrained s' then Drained False 0 else DrainPending)\<rparr>))"

definition drain_timeout :: "poller \<Rightarrow> poller" where
  "drain_timeout s =
    (if isDrained s then s\<lparr>po_drain := Drained False 0\<rparr>
     else s\<lparr>po_drain_reason := True, po_drain := Drained True (totalInFlight s),
        po_attempts := map (\<lambda>a. if (pa_key a, pa_id a) \<in> set (po_active s)
          then failLease (a\<lparr>pa_timed_out := True\<rparr>) else a) (po_attempts s)\<rparr>)"

subsection \<open>Events\<close>

datatype poll_event =
    PollStarts
  | ClaimThrows nat
  | ClaimEmpty nat
  | ClaimAnswers nat string
  | LeaseLost nat
  | RunStopped nat
  | TaskSettles nat
  | AttemptEnds nat
  | SlotReturned nat
  | PollEnds nat
  | StopCalled jnum
  | DrainTimesOut

definition find_poll :: "nat \<Rightarrow> poller \<Rightarrow> poll option" where
  "find_poll i s = find (\<lambda>p. pl_id p = i) (po_polls s)"

definition find_attempt :: "nat \<Rightarrow> poller \<Rightarrow> poll_attempt option" where
  "find_attempt i s = find (\<lambda>a. pa_id a = i) (po_attempts s)"

text \<open>The state after an event; \<open>None\<close> where the event cannot happen.\<close>

definition claim_answered :: "nat \<Rightarrow> (poll \<Rightarrow> string \<Rightarrow> string list \<Rightarrow> poller) \<Rightarrow> poller \<Rightarrow> poller option" where
  "claim_answered i f s =
    (case find_poll i s of None \<Rightarrow> None
     | Some p \<Rightarrow> (case pl_pc p of Claiming t ts \<Rightarrow> Some (f p t ts) | AwaitingTasks \<Rightarrow> None))"

fun poller_event :: "polling_options \<Rightarrow> poll_event \<Rightarrow> poller \<Rightarrow> poller option" where
  "poller_event opt PollStarts s = Some (pollOnce opt s)"
| "poller_event opt (ClaimThrows i) s =
    claim_answered i (\<lambda>p t ts. resume_poll opt (t # ts) p (decrementInFlight t s)) s"
| "poller_event opt (ClaimEmpty i) s =
    claim_answered i (\<lambda>p t ts. resume_poll opt ts p (decrementInFlight t s)) s"
| "poller_event opt (ClaimAnswers i run) s =
    claim_answered i (\<lambda>p t ts. let (p', s') = start_attempt t run p s in resume_poll opt (t # ts) p' s') s"
| "poller_event opt (LeaseLost i) s =
    (case find_attempt i s of None \<Rightarrow> None | Some a \<Rightarrow> if pa_ended a then None else Some (on_attempt i failLease s))"
| "poller_event opt (RunStopped i) s =
    (case find_attempt i s of None \<Rightarrow> None
     | Some a \<Rightarrow> if pa_settled a then None else Some (on_attempt i (\<lambda>a. a\<lparr>pa_settled := True\<rparr>) s))"
| "poller_event opt (TaskSettles i) s =
    (case find_attempt i s of
       Some a \<Rightarrow> if pa_done a then None else Some (on_attempt i (\<lambda>a. a\<lparr>pa_done := True\<rparr>) s)
     | None \<Rightarrow> if list_ex (\<lambda>a. pa_id a = i) (po_outliving s)
         then Some (s\<lparr>po_outliving := filter (\<lambda>a. pa_id a \<noteq> i) (po_outliving s)\<rparr>) else None)"
| "poller_event opt (AttemptEnds i) s =
    (case find_attempt i s of None \<Rightarrow> None
     | Some a \<Rightarrow> if pa_ended a \<or> \<not> pa_done a \<and> \<not> pa_aborted a then None else Some (end_attempt a s))"
| "poller_event opt (SlotReturned i) s =
    (case find_attempt i s of None \<Rightarrow> None
     | Some a \<Rightarrow> if \<not> pa_ended a then None
         else Some (outlives a (decrementInFlight (pa_tenant a) (s\<lparr>po_attempts := filter (\<lambda>b. pa_id b \<noteq> i) (po_attempts s)\<rparr>))))"
| "poller_event opt (PollEnds i) s =
    (case find_poll i s of None \<Rightarrow> None
     | Some p \<Rightarrow> if pl_pc p = AwaitingTasks \<and> list_all (\<lambda>j. find_attempt j s = None) (pl_attempts p)
         then Some (close_poll i s) else None)"
| "poller_event opt (StopCalled timeout) s = Some (snd (poller_stop timeout s))"
| "poller_event opt DrainTimesOut s = (if po_drain s = DrainPending then Some (drain_timeout s) else None)"

text \<open>The states a poller can reach.\<close>

inductive polled :: "polling_options \<Rightarrow> poller \<Rightarrow> bool" for opt :: polling_options where
  poller_created: "createWorkerPoller opt (Fin (of_nat (wp_concurrency opt))) drain = Inr s \<Longrightarrow> polled opt s"
| poller_stepped: "polled opt s \<Longrightarrow> poller_event opt e s = Some s' \<Longrightarrow> polled opt s'"

subsection \<open>The heartbeat\<close>

datatype heartbeat_verdict = BeatsAgain | StopsBeating | LosesLease failure

text \<open>A lease of the row that lives beyond \<open>now\<close>.\<close>

definition lives :: "int \<Rightarrow> durable_task \<Rightarrow> bool" where
  "lives now r \<longleftrightarrow> (case dt_lease_expires_at r of None \<Rightarrow> False | Some e \<Rightarrow> now < iso_ms e)"

text \<open>
  One \<open>heartbeat\<close>: the row is read, then, in a second transaction, the lease of the version read is
  renewed. \<open>T\<close> is the table at the read and \<open>T2\<close> at the renewal; \<open>now1\<close>, \<open>now2\<close>, \<open>now3\<close> are \<open>Date.now()\<close> at the
  check, in the renewal and after it.
\<close>

definition beat_read :: "string \<Rightarrow> int \<Rightarrow> durable_task option \<Rightarrow> heartbeat_verdict option" where
  "beat_read worker_id now1 current =
    (case current of
       None \<Rightarrow> Some (LosesLease (ThrownError ''TASK_LEASE_NOT_HELD''))
     | Some r \<Rightarrow>
         if dt_state r = Stopped then Some StopsBeating
         else if (dt_state r \<noteq> Running \<and> \<not> parked_state (dt_state r)) \<or> dt_lease_owner r \<noteq> Some worker_id
         then Some (LosesLease (ThrownError ''TASK_LEASE_NOT_HELD''))
         else if \<not> lives now1 r then Some (LosesLease (ThrownError ''TASK_LEASE_EXPIRED''))
         else None)"

definition beat_renew :: "string \<Rightarrow> jnum \<Rightarrow> int \<Rightarrow> int \<Rightarrow> int \<Rightarrow> string \<Rightarrow> string \<Rightarrow> durable_task \<Rightarrow> task_table \<Rightarrow>
    heartbeat_verdict \<times> task_table" where
  "beat_renew worker_id leaseDurationMs dbnow now2 now3 tenant_id run_id r T2 =
    (case renewTaskLease dbnow now2 tenant_id run_id worker_id (Fin (of_int (dt_task_version r))) (Some leaseDurationMs) T2 of
       (Inl e, T') \<Rightarrow> (LosesLease e, T')
     | (Inr renewed, T') \<Rightarrow>
         if dt_lease_owner renewed \<noteq> Some worker_id \<or> \<not> lives now3 renewed
         then (LosesLease (ThrownError ''TASK_LEASE_NOT_HELD''), T') else (BeatsAgain, T'))"

definition heartbeat :: "string \<Rightarrow> jnum \<Rightarrow> int \<Rightarrow> int \<Rightarrow> int \<Rightarrow> int \<Rightarrow> string \<Rightarrow> string \<Rightarrow> task_table \<Rightarrow> task_table \<Rightarrow>
    heartbeat_verdict \<times> task_table" where
  "heartbeat worker_id leaseDurationMs dbnow now1 now2 now3 tenant_id run_id T T2 =
    (case durable_getTask tenant_id run_id T of
       Inl e \<Rightarrow> (LosesLease e, T2)
     | Inr current \<Rightarrow>
         (case (beat_read worker_id now1 current, current) of
            (None, Some r) \<Rightarrow> beat_renew worker_id leaseDurationMs dbnow now2 now3 tenant_id run_id r T2
          | (Some verdict, _) \<Rightarrow> (verdict, T2)
          | (None, None) \<Rightarrow> (StopsBeating, T2)))"

end
