(* ===== verification/WorkerProperties.thy ===== *)
theory WorkerProperties
  imports WorkerDispatch
begin

text \<open>
  What the dispatch guarantees: an orchestrator is called only on an admitted signal or an admitted
  resume event, a reclaimed mutating action is parked and never repeated, a finished attempt returns its
  lease, and - the loop the code leaves open - a decision the worker cannot deliver is claimed for ever.
\<close>

subsection \<open>Calls\<close>

lemma stored_calls [simp]: "ws_calls (snd (stored st p)) = ws_calls st"
  by (simp add: stored_def)

lemma fail_closed_calls [simp]: "ws_calls (snd (fail_closed c task d st)) = ws_calls st"
  by (simp add: fail_closed_def)

lemma finish_calls [simp]: "ws_calls (snd (finish_attempt c task st)) = ws_calls st"
  by (simp add: finish_attempt_def Let_def split: sum.split)

lemma throwIfAborted_iff: "throwIfAborted c k = Inr () \<longleftrightarrow> \<not> dp_aborted c k"
  by (simp add: throwIfAborted_def thrown_def)

text \<open>A call is made to an orchestrator the binding created for this tenant, before the signal aborts.\<close>

lemma call_orchestrator_calls:
  assumes "x \<in> set (ws_calls (snd (call_orchestrator c task b call work st)))" "x \<notin> set (ws_calls st)"
  shows "x = call" "\<exists>orch. rb_createOrchestrator b (dp_tenant c) = Inr (Some orch)" "\<not> dp_aborted c 1"
  using assms
  using throwIfAborted_iff [of c 1]
  by (auto simp: call_orchestrator_def split: sum.splits option.splits prod.splits)

lemma process_calls: "ws_calls (snd (processClaimedTask c task st)) = ws_calls (snd (attempt_task c task st))"
proof -
  obtain r st1 where a: "attempt_task c task st = (r, st1)" by force
  obtain f st2 where "finish_attempt c task st1 = (f, st2)" by force
  with a finish_calls [of c task st1] show ?thesis by (cases f) (simp_all add: processClaimedTask_def)
qed

text \<open>
  A signal the registry admits for a module, written out: an object with the tenant and the correlation of
  the row and an id of its own, whose payload names the module, on a channel and of an event type that the
  contract of the module's binding lists, and that belong together.
\<close>

definition admitted_signal :: "runtime_binding \<Rightarrow> string \<Rightarrow> string \<Rightarrow> string \<Rightarrow> json \<Rightarrow> bool" where
  "admitted_signal b tenant_id correlation_id m signal \<longleftrightarrow> (\<exists>s p sid ch ev. signal = JObj s
     \<and> member s ''tenant_id'' = JStr tenant_id \<and> tenant_id \<noteq> []
     \<and> member s ''correlation_id'' = JStr correlation_id \<and> correlation_id \<noteq> []
     \<and> member s ''signal_id'' = JStr sid \<and> sid \<noteq> []
     \<and> member s ''source_channel'' = JStr ch \<and> ch \<in> set (sc_source_channels (rb_contract b))
     \<and> member s ''event_type'' = JStr ev \<and> ev \<in> set (sc_event_types (rb_contract b))
     \<and> ((\<exists>rest. ev = ''handoff.'' @ rest) \<longleftrightarrow> ch = ''ORCHESTRATOR_HANDOFF'')
     \<and> member s ''payload'' = JObj p \<and> member p ''module'' = JStr m)"

text \<open>The module is bound, its binding satisfies a condition and makes an orchestrator for the tenant.\<close>

definition served :: "dispatch \<Rightarrow> string \<Rightarrow> (runtime_binding \<Rightarrow> bool) \<Rightarrow> bool" where
  "served c m admits \<longleftrightarrow> (\<exists>b orch. map_of (dp_registry c) m = Some b \<and> admits b
     \<and> rb_createOrchestrator b (dp_tenant c) = Inr (Some orch)) \<and> \<not> dp_aborted c 0 \<and> \<not> dp_aborted c 1"

text \<open>What an admitted call looks like, for the row the worker had claimed.\<close>

fun admitted_call :: "dispatch \<Rightarrow> durable_task \<Rightarrow> worker_call \<Rightarrow> bool" where
  "admitted_call c task (Resumed m run event) \<longleftrightarrow>
     run = dt_run_id task
     \<and> (\<exists>p s sp e ty. dt_state_payload task = JObj p \<and> member p ''resume_event'' = event \<and> event = JObj e
          \<and> member e ''tenant_id'' = JStr (dp_tenant c)
          \<and> member e ''event_type'' = JStr ty \<and> ty \<in> set RESUME_EVENT_TYPES
          \<and> checkpoint_shape (member p)
          \<and> member p ''signal'' = JObj s \<and> member s ''payload'' = JObj sp \<and> member sp ''module'' = JStr m)
     \<and> m \<noteq> [] \<and> served c m (\<lambda>b. True)"
| "admitted_call c task (Processed m run signal) \<longleftrightarrow>
     run = dt_run_id task \<and> dt_state task \<noteq> Waiting \<and> dt_state task \<noteq> AwaitingHuman
     \<and> (\<exists>p. dt_state_payload task = JObj p \<and> member p ''signal'' = signal \<and> member p ''resume_event'' = JUndef
          \<and> (\<nexists>a. member p ''pending_action'' = JObj a \<and> member a ''mutating'' = JBool True))
     \<and> served c m (\<lambda>b. admitted_signal b (dp_tenant c) (dt_correlation_id task) m signal)"

lemma string_of_iff [simp]: "string_of v = Some s \<longleftrightarrow> v = JStr s"
  by (cases v) (simp_all add: string_of_def)

lemma as_record_iff [simp]: "as_record v = Some r \<longleftrightarrow> v = JObj r"
  by (cases v) simp_all

lemma filled_iff: "filled v \<longleftrightarrow> (\<exists>t. v = JStr t \<and> t \<noteq> [])"
  by (cases v) (simp_all add: filled_def)

lemma starts_with_iff: "starts_with p s \<longleftrightarrow> (\<exists>rest. s = p @ rest)"
  by (auto simp: starts_with_def intro: exI [of _ "drop (length p) s"]) (metis append_take_drop_id)

lemma signal_module_iff:
  "signal_module p = Some m \<longleftrightarrow> (\<exists>s sp. member p ''signal'' = JObj s \<and> member s ''payload'' = JObj sp
     \<and> member sp ''module'' = JStr m)"
  by (auto simp: signal_module_def split: option.splits)

lemma plain_payload: "member (plain_members v) k \<noteq> JUndef \<Longrightarrow> \<exists>p. v = JObj p \<and> plain_members v = p"
  by (cases v) (simp_all add: plain_members_def member_def)

lemma accepted_signal:
  assumes "registry_accepts reg signal (Some t) (Some k) = Some b"
    and "signal = JObj s" "member s ''payload'' = JObj sp" "member sp ''module'' = JStr m"
  shows "map_of reg m = Some b \<and> admitted_signal b t k m signal"
  using assms
  by (auto simp: registry_accepts_def registry_resolve_def admitted_signal_def filled_iff channel_pair_def starts_with_iff
      split: if_splits option.splits)

lemma resume_calls:
  assumes "event = member (plain_members (dt_state_payload task)) ''resume_event''" "event \<noteq> JUndef" "\<not> dp_aborted c 0"
    and "call \<in> set (ws_calls (snd (resume_claimed c task event st)))" "call \<notin> set (ws_calls st)"
  shows "admitted_call c task call"
proof -
  let ?p = "plain_members (dt_state_payload task)"
  let ?m = "or_default (signal_module ?p) []"
  have v: "resume_event_valid c event"
    using assms(4,5) by (cases "resume_event_valid c event") (simp_all add: resume_claimed_def Let_def)
  have k: "complete_payload (JObj (AList.delete ''resume_event'' ?p))"
    using assms(4,5) v by (cases "complete_payload (JObj (AList.delete ''resume_event'' ?p))")
      (simp_all add: resume_claimed_def complete_iff Let_def)
  have m: "?m \<noteq> []"
    using assms(4,5) v k by (cases "?m = []") (simp_all add: resume_claimed_def complete_iff Let_def)
  obtain b where b: "registry_resolve (dp_registry c) ?m = Some b"
    using assms(4,5) v k m by (cases "registry_resolve (dp_registry c) ?m") (simp_all add: resume_claimed_def complete_iff Let_def)
  have "resume_claimed c task event st = call_orchestrator c task b (Resumed ?m (dt_run_id task) event)
      (\<lambda>orch. wo_resumeTask orch (dt_run_id task) event) st"
    using v k m b by (simp add: resume_claimed_def complete_iff Let_def)
  note call = call_orchestrator_calls [OF assms(4) [unfolded this] assms(5)]
  have "signal_module ?p = Some ?m" using m by (cases "signal_module ?p") (simp_all add: or_default_def)
  moreover obtain p where p: "dt_state_payload task = JObj p" "?p = p"
    using plain_payload assms(1,2) by metis
  moreover have "checkpoint_shape (member p)"
    using k unfolding p(2) complete_object_iff checkpoint_shape_def by (simp add: member_def delete_conv')
  moreover have "\<exists>e ty. event = JObj e \<and> member e ''tenant_id'' = JStr (dp_tenant c)
      \<and> member e ''event_type'' = JStr ty \<and> ty \<in> set RESUME_EVENT_TYPES"
    using v by (auto simp: resume_event_valid_def split: option.splits)
  ultimately show ?thesis
    using call b m assms(1,3) unfolding call(1) admitted_call.simps served_def
    by (auto simp: registry_resolve_def signal_module_iff)
qed

lemma process_signal_calls:
  assumes "call \<in> set (ws_calls (snd (process_signal c task m signal st)))" "call \<notin> set (ws_calls st)"
    and "\<not> dp_aborted c 0" "signal = JObj s" "member s ''payload'' = JObj sp" "member sp ''module'' = JStr m"
  shows "call = Processed m (dt_run_id task) signal
    \<and> served c m (\<lambda>b. admitted_signal b (dp_tenant c) (dt_correlation_id task) m signal)"
proof -
  let ?accepts = "registry_accepts (dp_registry c) signal (Some (dp_tenant c)) (Some (dt_correlation_id task))"
  obtain b where b: "registry_resolve (dp_registry c) m = Some b"
    using assms(1,2) by (cases "registry_resolve (dp_registry c) m") (auto simp: process_signal_def)
  obtain a where a: "?accepts = Some a"
    using assms(1,2) b by (cases ?accepts) (auto simp: process_signal_def)
  have "process_signal c task m signal st = call_orchestrator c task a (Processed m (dt_run_id task) signal)
      (\<lambda>orch. wo_processQueuedSignal orch (dt_run_id task) signal (dp_worker c)) st"
    by (simp add: process_signal_def b a)
  note call = call_orchestrator_calls [OF assms(1) [unfolded this] assms(2)]
  from call accepted_signal [OF a assms(4-6)] assms(3) show ?thesis by (auto simp: served_def)
qed

text \<open>
  C7: whatever the orchestrators do, a claimed task reaches one only along an admitted path, and then one
  that the binding of the module its signal names makes for this tenant, before the attempt is aborted. Either
  by a resume event of the tenant, of a type the worker knows, over a complete checkpoint; or, for a run that
  is not parked, holds no resume event and has no mutating action in doubt, by a stored signal of this tenant
  and this correlation with an id, on a channel and of an event type that the module's contract lists, a
  handoff event on the internal channel and no other event on it.
\<close>

theorem dispatch_is_admitted:
  assumes "call \<in> set (ws_calls (snd (processClaimedTask c task st)))" and "call \<notin> set (ws_calls st)"
  shows "admitted_call c task call"
proof -
  let ?p = "plain_members (dt_state_payload task)"
  let ?e = "member ?p ''resume_event''"
  have n: "call \<in> set (ws_calls (snd (attempt_task c task st)))" using assms(1) process_calls by simp
  have park: "\<not> (parked_state (dt_state task) \<and> \<not> hasResumeEvent (dt_state_payload task))"
    using n assms(2) by (auto simp: attempt_task_def Let_def split: if_splits)
  have ab: "throwIfAborted c 0 = Inr ()"
    using n assms(2) park by (cases "throwIfAborted c 0") (auto simp: attempt_task_def Let_def split: if_splits)
  then have up: "\<not> dp_aborted c 0" by (simp add: throwIfAborted_iff)
  show ?thesis
  proof (cases "?e = JUndef")
    case False
    with n park ab have "call \<in> set (ws_calls (snd (resume_claimed c task ?e st)))" by (simp add: attempt_task_def Let_def)
    from resume_calls [OF refl False up this assms(2)] show ?thesis .
  next
    case True
    have q: "\<not> parked_state (dt_state task)"
      using park True by (auto simp: hasResumeEvent_def plain_members_def split: option.splits)
    have u: "\<not> pending_mutates (dt_state_payload task)"
      using n assms(2) park ab True by (auto simp: attempt_task_def park_unknown_effect_def Let_def split: if_splits)
    obtain m where m: "signal_module ?p = Some m"
      using n assms(2) park ab True u by (cases "signal_module ?p") (auto simp: attempt_task_def Let_def split: if_splits)
    then obtain s sp where s: "member ?p ''signal'' = JObj s" "member s ''payload'' = JObj sp" "member sp ''module'' = JStr m"
      unfolding signal_module_iff by blast
    obtain p where p: "dt_state_payload task = JObj p" "?p = p" using plain_payload [of "dt_state_payload task" "''signal''"] s(1) by auto
    have "call \<in> set (ws_calls (snd (process_signal c task m (member ?p ''signal'') st)))"
      using n park ab True u m by (simp add: attempt_task_def Let_def)
    from process_signal_calls [OF this assms(2) up s] show ?thesis
      using q u True p by (auto simp: parked_state_def pending_mutates_def)
  qed
qed

subsection \<open>Addressed writes\<close>

definition addressed :: "dispatch \<Rightarrow> string \<Rightarrow> bool" where
  "addressed c run_id \<longleftrightarrow> assert_address (dp_tenant c) run_id = Inr () \<and> assertTenantContext (dp_tenant c) = Inr ()"

lemma addressed_get: "addressed c k \<Longrightarrow> durable_getTask (dp_tenant c) k T = Inr (lockDurableTask (dp_tenant c) k T)"
  by (simp add: addressed_def durable_getTask_def assert_address_def andThen_Inr_iff)

lemma locked_write:
  assumes "lockDurableTask t k T = Some r" "wher r" "task_at t k (f r)"
  shows "\<exists>T'. write_task t k wher f T = (Inr (f r), T') \<and> lockDurableTask t k T' = Some (f r)"
proof -
  have f: "find (\<lambda>s. task_at t k s \<and> wher s) T = Some r"
    using find_narrowed [of "task_at t k" T r wher] assms(1,2) by (simp add: lockDurableTask_def)
  show ?thesis
    using find_update_found [where P = "\<lambda>s. task_at t k s \<and> wher s" and Q = "task_at t k" and f = f, OF f] assms
      locked_key [OF assms(1)]
    by (auto simp: write_task_def f lockDurableTask_def)
qed

lemma fenced_lease:
  assumes "lockDurableTask t k T = Some r" "held now w r"
  shows "locked_lease now t k w (Fin (of_int (dt_task_version r))) T = Inr r"
  using assms by (simp add: locked_lease_def held_def succeeds_iff)

text \<open>A release under a live lease of the row that was read writes it.\<close>

definition released :: "int \<Rightarrow> task_state \<Rightarrow> durable_task \<Rightarrow> durable_task" where
  "released n s r = next_version n (without_lease (r\<lparr>dt_state := s\<rparr>))"

lemma released_sel [simp]:
  "dt_state (released n s r) = s" "dt_lease_owner (released n s r) = None"
  "dt_state_payload (released n s r) = dt_state_payload r" "dt_retry_count (released n s r) = dt_retry_count r"
  "dt_task_version (released n s r) = dt_task_version r + 1" "dt_tenant_id (released n s r) = dt_tenant_id r"
  "dt_run_id (released n s r) = dt_run_id r" "task_at t k (released n s r) = task_at t k r"
  by (simp_all add: released_def next_version_def without_lease_def task_at_def)

lemma release_held:
  assumes "addressed c k" "lockDurableTask (dp_tenant c) k T = Some r" "held now w r"
    and "s \<in> {Queued, Waiting, AwaitingHuman}" "s = AwaitingHuman \<longrightarrow> has_own (dt_state_payload r) ''resume_event''"
  shows "\<exists>T'. releaseTaskLease n now (dp_tenant c) k w (Fin (of_int (dt_task_version r))) (Some s) T
      = (Inr (released n s r), T') \<and> lockDurableTask (dp_tenant c) k T' = Some (released n s r)"
proof -
  have st: "assertTaskState s = Inr ()" using assms(4) by (auto simp: assertTaskState_def DURABLE_TASK_STATES_def)
  have k: "task_at (dp_tenant c) k r" using locked_key [OF assms(2)] by simp
  have "releaseTaskLease n now (dp_tenant c) k w (Fin (of_int (dt_task_version r))) (Some s) T
      = write_task (dp_tenant c) k (\<lambda>u. at_version (dt_task_version r) u \<and> owned_by w u)
        (\<lambda>u. next_version n (without_lease (u\<lparr>dt_state := s\<rparr>))) T"
    using assms(1,4,5) st
    by (auto simp: releaseTaskLease_def addressed_def in_tenant_def or_default_def fenced_lease [OF assms(2,3)] Let_def)
  then show ?thesis
    using locked_write [OF assms(2), of "\<lambda>u. at_version (dt_task_version r) u \<and> owned_by w u"
        "\<lambda>u. next_version n (without_lease (u\<lparr>dt_state := s\<rparr>))"] held_owned [OF assms(3)] k
    by (simp add: released_def [symmetric])
qed


lemma event_own: "hasResumeEvent v \<Longrightarrow> has_own v ''resume_event'' \<and> jsonb_has v ''resume_event''
    \<and> member (plain_members v) ''resume_event'' \<noteq> JUndef"
  by (cases v) (force simp: hasResumeEvent_def has_own_def member_def plain_members_def dest: map_of_SomeD
      split: option.splits)+

subsection \<open>The lease is returned\<close>


subsection \<open>A reclaimed mutating action\<close>

lemma versioned_guard: "0 < dt_task_version r \<Longrightarrow>
  assertGuard r (Some (Fin (of_int (dt_task_version r)))) = Inr (dt_task_version r)"
  by (simp add: assertGuard_def is_int_rat_def)

lemma held_state: "held now w r \<Longrightarrow> dt_state r \<in> {Running, Waiting, AwaitingHuman}"
  by (auto simp: held_def assertLeaseHeld_def split: if_splits)

lemma parked_for_reconciliation:
  assumes a: "addressed c (dt_run_id task)" and l: "lockDurableTask (dp_tenant c) (dt_run_id task) (ws_tasks st) = Some task"
    and h: "held (dp_now c 0) (dp_worker c) task" "dt_state task = Running" "0 < dt_task_version task"
    and k: "complete_payload (dt_state_payload task)"
  shows "\<exists>p T'. stringified (dt_state_payload task) = Some p
    \<and> park_unknown_effect c task st = (Inr (), st\<lparr>ws_tasks := T'\<rparr>)
    \<and> lockDurableTask (dp_tenant c) (dt_run_id task) T' = Some (transition_row (dp_clock c 0) Waiting (Some p) task)"
proof -
  let ?k = "dt_run_id task"
  let ?f = "\<lambda>p. transition_row (dp_clock c 0) Waiting (Some p)"
  obtain o1 where o: "dt_state_payload task = JObj o1" using complete_object [OF k] by blast
  then obtain p where p: "stringified (dt_state_payload task) = Some p" by simp
  have tu: "dt_state_payload task \<noteq> JUndef" using o by simp
  have w: "writable (dp_now c 0) (dp_tenant c) ?k code (Some (Fin (of_int (dt_task_version task)))) (Some (dp_worker c))
      (ws_tasks st) = Inr task" for code
    using h l versioned_guard [OF h(3)]
    by (simp add: writable_def assertOpen_def TERMINAL_STATES_def OPEN_STATES_def held_def succeeds_iff)
  have "task_at (dp_tenant c) ?k (?f p task)"
    using locked_key [OF l] by (simp add: transition_row_def next_version_def moved_to_def task_at_def)
  from locked_write [OF l, of "at_version (dt_task_version task)" "?f p", OF at_version_refl this] obtain T' where
    T': "write_task (dp_tenant c) ?k (at_version (dt_task_version task)) (?f p) (ws_tasks st) = (Inr (?f p task), T')"
    "lockDurableTask (dp_tenant c) ?k T' = Some (?f p task)" by blast
  have "\<not> blank ''EFFECT_UNKNOWN: reclaimed mutating action requires provider reconciliation''"
    by (simp add: blank_def trim_def is_ws_def)
  then have "durable_transitionTask (dp_clock c 0) (dp_now c 0) (dp_tenant c) ?k Waiting
      ''EFFECT_UNKNOWN: reclaimed mutating action requires provider reconciliation'' (dt_state_payload task)
      (Some \<lparr>tg_expected_task_version = Fin (of_int (dt_task_version task)), tg_lease_owner = Some (dp_worker c)\<rparr>)
      (ws_tasks st) = (Inr (?f p task), T')"
    using a p tu k w T'(1)
    by (simp add: durable_transitionTask_def addressed_def assert_address_def andThen_Inr_iff assertTaskState_def
        DURABLE_TASK_STATES_def PARKED_STATES_def complete_iff serializeJsonb_def in_tenant_def guard_version_def guard_owner_def)
  then show ?thesis using p T'(2) by (intro exI [of _ p] exI [of _ T']) (simp add: park_unknown_effect_def stored_def)
qed

lemma transition_waiting:
  "dt_state (transition_row n Waiting (Some p) r) = Waiting"
  "dt_lease_owner (transition_row n Waiting (Some p) r) = dt_lease_owner r"
  "dt_lease_expires_at (transition_row n Waiting (Some p) r) = dt_lease_expires_at r"
  "dt_state_payload (transition_row n Waiting (Some p) r) = p"
  by (simp_all add: transition_row_def next_version_def moved_to_def PARKED_STATES_def)

lemma no_event_stored:
  assumes "\<not> jsonb_has v ''resume_event''" "stringified v = Some p" "complete_payload v"
  shows "\<not> jsonb_has p ''resume_event'' \<and> \<not> hasResumeEvent p"
proof -
  obtain o1 where o: "v = JObj o1" using complete_object [OF assms(3)] by blast
  then have p: "p = JObj (stringified_members o1)" using assms(2) by simp
  have "''resume_event'' \<notin> set (map fst (stringified_members o1))"
    using stringified_keys [of "''resume_event''" o1] assms(1) o by auto
  then have n: "\<not> jsonb_has p ''resume_event''" using p by simp
  then show ?thesis using event_own [of p] by blast
qed

text \<open>
  C33: a run reclaimed with a mutating action in doubt is never carried on by the worker. Whatever
  domains are registered, no orchestrator is called: the run is parked as waiting under the lease, its
  checkpoint kept as it is stored, and from then on no claim takes it until an event is queued for it -
  not even when the lease has run out.
\<close>

theorem reclaimed_mutation_is_parked:
  assumes a: "addressed c (dt_run_id task)" and l: "lockDurableTask (dp_tenant c) (dt_run_id task) (ws_tasks st) = Some task"
    and h: "held (dp_now c 0) (dp_worker c) task" "dt_state task = Running" "0 < dt_task_version task"
    and k: "complete_payload (dt_state_payload task)" "\<not> jsonb_has (dt_state_payload task) ''resume_event''"
    and m: "pending_mutates (dt_state_payload task)" and ab: "\<not> dp_aborted c 0"
  shows "\<exists>T' r. processClaimedTask c task st = (Inr (), st\<lparr>ws_tasks := T'\<rparr>)
    \<and> lockDurableTask (dp_tenant c) (dt_run_id task) T' = Some r \<and> dt_state r = Waiting
    \<and> stringified (dt_state_payload task) = Some (dt_state_payload r)
    \<and> dt_lease_owner r = dt_lease_owner task \<and> (\<forall>later. \<not> claimable later r)"
proof -
  obtain p T' where p: "stringified (dt_state_payload task) = Some p"
    "park_unknown_effect c task st = (Inr (), st\<lparr>ws_tasks := T'\<rparr>)"
    "lockDurableTask (dp_tenant c) (dt_run_id task) T' = Some (transition_row (dp_clock c 0) Waiting (Some p) task)"
    using parked_for_reconciliation [OF a l h k(1)] by blast
  let ?r = "transition_row (dp_clock c 0) Waiting (Some p) task"
  have e: "member (plain_members (dt_state_payload task)) ''resume_event'' = JUndef" "\<not> hasResumeEvent (dt_state_payload task)"
    using k by (auto simp: hasResumeEvent_def member_def plain_members_def split: option.splits dest!: complete_object map_of_SomeD)
      (metis fst_conv image_eqI jsonb_has.simps(1))+
  have at: "attempt_task c task st = (Inr (), st\<lparr>ws_tasks := T'\<rparr>)"
    using ab m p(2) e h(2) by (simp add: attempt_task_def throwIfAborted_def parked_state_def Let_def)
  note n = no_event_stored [OF k(2) p(1) k(1)]
  have rel: "releaseLeaseIfHeld c (dt_run_id task) False T' = (Inr False, T')"
    using n p(3) by (simp add: releaseLeaseIfHeld_def addressed_get [OF a] transition_waiting)
  have "finish_attempt c task (st\<lparr>ws_tasks := T'\<rparr>) = (Inr (), st\<lparr>ws_tasks := T'\<rparr>)"
    using e(2) h(2) rel p(3) by (simp add: finish_attempt_def addressed_get [OF a] parked_state_def stored_def Let_def)
  with at have "processClaimedTask c task st = (Inr (), st\<lparr>ws_tasks := T'\<rparr>)" by (simp add: processClaimedTask_def)
  moreover have "\<forall>later. \<not> claimable later ?r" using n by (simp add: claimable_def transition_waiting)
  ultimately show ?thesis using p(1,3) by (intro exI [of _ T'] exI [of _ ?r]) (simp add: transition_waiting)
qed

subsection \<open>A decision the worker cannot deliver\<close>

text \<open>The resume paths on which the worker gives the run up, for the row's payload.\<close>

definition undeliverable :: "dispatch \<Rightarrow> json \<Rightarrow> bool" where
  "undeliverable c v \<longleftrightarrow> hasResumeEvent v
     \<and> (\<not> resume_event_valid c (member (plain_members v) ''resume_event'')
        \<or> \<not> complete_payload (JObj (AList.delete ''resume_event'' (plain_members v)))
        \<or> or_default (signal_module (plain_members v)) [] = []
        \<or> registry_resolve (dp_registry c) (or_default (signal_module (plain_members v)) []) = None)"

text \<open>One turn of a worker: the claim, and what it claimed.\<close>

definition work_once :: "int \<Rightarrow> jnum option \<Rightarrow> dispatch \<Rightarrow> worker_state \<Rightarrow> attempt" where
  "work_once dbnow duration c st =
    (case claimNextQueuedTask dbnow [] (dp_tenant c) (dp_worker c) duration (ws_tasks st) of
       (Inl e, T) \<Rightarrow> (Inl e, st\<lparr>ws_tasks := T\<rparr>)
     | (Inr None, T) \<Rightarrow> (Inr (), st\<lparr>ws_tasks := T\<rparr>)
     | (Inr (Some task), T) \<Rightarrow> processClaimedTask c task (st\<lparr>ws_tasks := T\<rparr>))"

text \<open>A worker that turns up in good order: its address, its name, its lease of half a minute, no abort.\<close>

definition in_order :: "string \<Rightarrow> string \<Rightarrow> int \<Rightarrow> dispatch \<Rightarrow> bool" where
  "in_order t k dbnow c \<longleftrightarrow> dp_tenant c = t \<and> addressed c k \<and> \<not> blank (dp_worker c) \<and> length (dp_worker c) \<le> 64
     \<and> (\<forall>i. \<not> dp_aborted c i) \<and> dp_now c 1 < iso_ms (dbnow + 30000 * 1000)"

definition stuck :: "string \<Rightarrow> string \<Rightarrow> json \<Rightarrow> int \<Rightarrow> durable_task \<Rightarrow> bool" where
  "stuck t k p n r \<longleftrightarrow> task_at t k r \<and> dt_state r = AwaitingHuman \<and> dt_lease_owner r = None
     \<and> dt_state_payload r = p \<and> dt_retry_count r = n"

lemma refused_failure:
  assumes "addressed c (dt_run_id task)" "lockDurableTask (dp_tenant c) (dt_run_id task) (ws_tasks st) = Some task"
    and "dt_state task = AwaitingHuman" "stringified (JObj details) \<noteq> None"
  shows "fail_closed c task details st = (thrown ''TASK_NOT_PROGRESSABLE'', st)"
  using assms
  by (auto simp: fail_closed_def durable_recordFailure_def checked_details_def addressed_def serializeJsonb_def in_tenant_def
      writable_def assertOpen_def TERMINAL_STATES_def OPEN_STATES_def stored_def thrown_def)

lemma undelivered_attempt:
  assumes "addressed c (dt_run_id task)" "lockDurableTask (dp_tenant c) (dt_run_id task) (ws_tasks st) = Some task"
    and s: "dt_state task = AwaitingHuman" and u: "undeliverable c (dt_state_payload task)" and "\<not> dp_aborted c 0"
  shows "attempt_task c task st = (thrown ''TASK_NOT_PROGRESSABLE'', st)"
proof -
  let ?p = "plain_members (dt_state_payload task)"
  note f = refused_failure [OF assms(1-3)]
  have h: "hasResumeEvent (dt_state_payload task)" using u by (simp add: undeliverable_def)
  have "resume_claimed c task (member ?p ''resume_event'') st = (thrown ''TASK_NOT_PROGRESSABLE'', st)"
    using u by (auto simp: undeliverable_def resume_claimed_def complete_iff f code_only_def not_enabled_def Let_def)
  then show ?thesis using h event_own [OF h] assms(5) by (simp add: attempt_task_def throwIfAborted_def Let_def)
qed

lemma stuck_round:
  assumes s: "stuck t k p n r" and u: "undeliverable c p" and o: "in_order t k dbnow c"
  shows "\<exists>r'. work_once dbnow None c \<lparr>ws_tasks = [r], ws_calls = cs\<rparr>
      = (thrown ''TASK_NOT_PROGRESSABLE'', \<lparr>ws_tasks = [r'], ws_calls = cs\<rparr>) \<and> stuck t k p n r'
      \<and> dt_task_version r' = dt_task_version r + 2"
proof -
  let ?task = "claimed dbnow (dp_worker c) 30000 r"
  have e: "hasResumeEvent p" using u by (simp add: undeliverable_def)
  note ev = event_own [OF e]
  have k: "dt_run_id r = k" "dt_tenant_id r = uuid_text t" using s by (auto simp: stuck_def task_at_def)
  have cl: "claimable dbnow r" using s ev by (simp add: stuck_def claimable_def)
  have ct: "task_at t k ?task" "dt_state ?task = AwaitingHuman" "dt_state_payload ?task = p" "dt_run_id ?task = k"
    "dt_lease_owner ?task = Some (dp_worker c)" "dt_task_version ?task = dt_task_version r + 1" "dt_retry_count ?task = n"
    "dt_lease_expires_at ?task = Some (dbnow + 30000 * 1000)"
    using s by (simp_all add: stuck_def claimed_def next_version_def task_at_def)
  have w: "assertIdentifier (dp_worker c) 128 code = Inr ()" for code
    using o by (simp add: in_order_def assertIdentifier_def)
  have oo: "dp_tenant c = t" "assertIdentifier t 36 ''TASK_TENANT_ID_REQUIRED'' = Inr ()" "assertTenantContext t = Inr ()"
    "length (dp_worker c) \<le> 64"
    using o by (auto simp: in_order_def addressed_def assert_address_def andThen_Inr_iff)
  have claim: "claimNextQueuedTask dbnow [] (dp_tenant c) (dp_worker c) None [r] = (Inr (Some ?task), [?task])"
    using oo cl k w
    by (simp add: claimNextQueuedTask_def lease_ttl_def
        or_default_def is_int_rat_def in_tenant_def write_task_def task_at_def)
  let ?st = "\<lparr>ws_tasks = [?task], ws_calls = cs\<rparr>"
  have a: "addressed c (dt_run_id ?task)" and t: "dp_tenant c = t" using o ct(4) by (simp_all add: in_order_def)
  have l: "lockDurableTask (dp_tenant c) (dt_run_id ?task) (ws_tasks ?st) = Some ?task"
    using ct(1,4) t by (simp add: lockDurableTask_def)
  have tried: "attempt_task c ?task ?st = (thrown ''TASK_NOT_PROGRESSABLE'', ?st)"
    by (rule undelivered_attempt [OF a l ct(2)]) (use u o ct(3) in \<open>simp_all add: in_order_def\<close>)
  have h: "held (dp_now c 1) (dp_worker c) ?task"
    using o ct(2,5,8) by (simp add: held_def assertLeaseHeld_def in_order_def)
  let ?r = "released (dp_clock c 1) AwaitingHuman ?task"
  obtain T' where rel: "releaseTaskLease (dp_clock c 1) (dp_now c 1) (dp_tenant c) (dt_run_id ?task) (dp_worker c)
      (Fin (of_int (dt_task_version ?task))) (Some AwaitingHuman) [?task] = (Inr ?r, T')"
    using release_held [OF a l h, of AwaitingHuman "dp_clock c 1"] ev ct(3) by auto
  have T': "T' = [?r]"
  proof -
    have "task_done (OpRelease (dp_clock c 1) (dp_now c 1) (dp_tenant c) (dt_run_id ?task) (dp_worker c)
        (Fin (of_int (dt_task_version ?task))) (Some AwaitingHuman)) (dp_tenant c) (dt_run_id ?task) [?task] (Inr ?r, T')"
      using release_done rel by metis
    then have "lockDurableTask (dp_tenant c) (dt_run_id ?task) T' = Some ?r" "length T' = 1"
      by (auto simp: task_done_def task_effect_def fresh_row_def)
    then show ?thesis by (cases T') (auto simp: lockDurableTask_def split: if_splits)
  qed
  have g: "durable_getTask t k [?task] = Inr (Some ?task)" using addressed_get [OF a, of "[?task]"] l t ct(4) by simp
  have ab: "\<not> dp_aborted c i" for i using o by (simp add: in_order_def)
  have fin: "finish_attempt c ?task ?st = (Inr (), \<lparr>ws_tasks = [?r], ws_calls = cs\<rparr>)"
    using g ab oo(1) e ct rel T'
    by (simp add: finish_attempt_def stored_def releaseLeaseIfHeld_def parked_state_def
        release_target_def Let_def)
  have "work_once dbnow None c \<lparr>ws_tasks = [r], ws_calls = cs\<rparr>
      = (thrown ''TASK_NOT_PROGRESSABLE'', \<lparr>ws_tasks = [?r], ws_calls = cs\<rparr>)"
    using claim tried fin by (simp add: work_once_def processClaimedTask_def)
  moreover have "stuck t k p n ?r" using ct by (simp add: stuck_def)
  ultimately show ?thesis using ct(6) by auto
qed

text \<open>
  C38: a decided approval the worker cannot deliver - its checkpoint names no module, or the module is not
  enabled - is claimed and put back for ever. Each turn raises TASK_NOT_PROGRESSABLE, because a run that
  awaits a human cannot be failed; the lease goes back with the decision still queued, and the run ends the
  turn as claimable as it began it: not failed, not retried, no orchestrator called, two versions on.
\<close>

theorem undeliverable_decision_is_claimed_for_ever:
  assumes "stuck t k p n r" and "\<And>dbnow c. (dbnow, c) \<in> set turns \<Longrightarrow> undeliverable c p \<and> in_order t k dbnow c"
  shows "\<exists>r'. fold (\<lambda>(dbnow, c) st. snd (work_once dbnow None c st)) turns \<lparr>ws_tasks = [r], ws_calls = []\<rparr>
      = \<lparr>ws_tasks = [r'], ws_calls = []\<rparr>
    \<and> dt_state r' = AwaitingHuman \<and> dt_state_payload r' = p \<and> dt_retry_count r' = n
    \<and> dt_task_version r' = dt_task_version r + 2 * int (length turns)
    \<and> (turns \<noteq> [] \<longrightarrow> (\<forall>later. claimable later r'))"
proof -
  have "\<exists>r'. fold (\<lambda>(dbnow, c) st. snd (work_once dbnow None c st)) turns \<lparr>ws_tasks = [r], ws_calls = []\<rparr>
      = \<lparr>ws_tasks = [r'], ws_calls = []\<rparr> \<and> stuck t k p n r'
    \<and> dt_task_version r' = dt_task_version r + 2 * int (length turns)"
    using assms
  proof (induction turns arbitrary: r)
    case (Cons x turns)
    obtain dbnow c where x: "x = (dbnow, c)" by force
    from Cons.prems(2) [of dbnow c] x have u: "undeliverable c p" "in_order t k dbnow c" by simp_all
    from stuck_round [OF Cons.prems(1) u, of "[]"] obtain r1 where r1: "stuck t k p n r1"
      "work_once dbnow None c \<lparr>ws_tasks = [r], ws_calls = []\<rparr>
        = (thrown ''TASK_NOT_PROGRESSABLE'', \<lparr>ws_tasks = [r1], ws_calls = []\<rparr>)"
      "dt_task_version r1 = dt_task_version r + 2" by blast
    from Cons.IH [OF r1(1)] Cons.prems(2) obtain r' where
      "fold (\<lambda>(dbnow, c) st. snd (work_once dbnow None c st)) turns \<lparr>ws_tasks = [r1], ws_calls = []\<rparr>
        = \<lparr>ws_tasks = [r'], ws_calls = []\<rparr>" "stuck t k p n r'"
      "dt_task_version r' = dt_task_version r1 + 2 * int (length turns)" by auto
    with x r1 show ?case by auto
  qed simp
  then obtain r' where r': "fold (\<lambda>(dbnow, c) st. snd (work_once dbnow None c st)) turns \<lparr>ws_tasks = [r], ws_calls = []\<rparr>
      = \<lparr>ws_tasks = [r'], ws_calls = []\<rparr>" "stuck t k p n r'"
    "dt_task_version r' = dt_task_version r + 2 * int (length turns)" by blast
  have "turns \<noteq> [] \<longrightarrow> hasResumeEvent p"
    using assms(2) by (cases turns) (force simp: undeliverable_def)+
  then have "turns \<noteq> [] \<longrightarrow> (\<forall>later. claimable later r')"
    using r'(2) event_own [of p] by (auto simp: stuck_def claimable_def)
  with r' show ?thesis by (auto simp: stuck_def)
qed

end
