(* ===== verification/PollingProperties.thy ===== *)
theory PollingProperties
  imports WorkerPolling WorkerProperties
begin

text \<open>
  What the poller guarantees in every interleaving of polls, claims, attempts and a stop: the cap of a
  tenant holds, a clean drain leaves no poll, claim or attempt and only aborted tasks - and where a drain or
  a claim loop goes wrong.
\<close>

subsection \<open>Counting\<close>

definition load :: "poller \<Rightarrow> string \<Rightarrow> nat" where
  "load s t = or_default (map_of (po_in_flight s) t) 0"

definition claim_of :: "string \<Rightarrow> poll \<Rightarrow> nat" where
  "claim_of t p = (case pl_pc p of Claiming u _ \<Rightarrow> if u = t then 1 else 0 | AwaitingTasks \<Rightarrow> 0)"

definition claims :: "poller \<Rightarrow> string \<Rightarrow> nat" where
  "claims s t = sum_list (map (claim_of t) (po_polls s))"

definition slots :: "poller \<Rightarrow> string \<Rightarrow> nat" where
  "slots s t = length (filter (\<lambda>a. pa_tenant a = t) (po_attempts s))"

text \<open>A registered attempt has settled: it was aborted, or its run was stopped.\<close>

definition registered_settled :: "poller \<Rightarrow> bool" where
  "registered_settled s \<longleftrightarrow> (\<forall>a \<in> set (po_attempts s). (pa_key a, pa_id a) \<in> set (po_active s) \<longrightarrow> pa_settled a)"

definition balanced_rest :: "polling_options \<Rightarrow> poller \<Rightarrow> bool" where
  "balanced_rest opt s \<longleftrightarrow>
     distinct (map pl_id (po_polls s)) \<and> (\<forall>p \<in> set (po_polls s). pl_id p < po_next s)
     \<and> distinct (map pa_id (po_attempts s)) \<and> (\<forall>a \<in> set (po_attempts s). pa_id a < po_next s)
     \<and> (\<forall>(k, i) \<in> set (po_active s). i < po_next s)
     \<and> po_active_polls s = length (po_polls s) \<and> (\<forall>t. load s t \<le> wp_concurrency opt)
     \<and> (po_drain s \<noteq> NotStopped \<longrightarrow> \<not> po_accepting s) \<and> (po_drain_reason s \<longrightarrow> registered_settled s)"

definition counted :: "poller \<Rightarrow> bool" where
  "counted s \<longleftrightarrow> (\<forall>t. load s t = claims s t + slots s t)"

definition answered :: "poller \<Rightarrow> bool" where
  "answered s \<longleftrightarrow> (\<forall>n. po_drain s = Drained False n \<longrightarrow> po_polls s = [] \<and> po_attempts s = [])
     \<and> (po_drain s = DrainPending \<longrightarrow> \<not> isDrained s)"

definition orderly :: "polling_options \<Rightarrow> poller \<Rightarrow> bool" where
  "orderly opt s \<longleftrightarrow> balanced_rest opt s \<and> counted s \<and> answered s"

lemma load_increment: "load (incrementInFlight t s) u = load s u + (if u = t then 1 else 0)"
  by (simp add: load_def incrementInFlight_def map_of_update or_default_def)

lemma load_congs [simp]:
  "load (s\<lparr>po_polls := x\<rparr>) = load s" "load (s\<lparr>po_attempts := y\<rparr>) = load s" "load (s\<lparr>po_active_polls := n\<rparr>) = load s"
  "load (s\<lparr>po_next := n\<rparr>) = load s" "load (s\<lparr>po_active := z\<rparr>) = load s" "load (s\<lparr>po_drain := d\<rparr>) = load s"
  "load (s\<lparr>po_accepting := b\<rparr>) = load s" "load (s\<lparr>po_running := b\<rparr>) = load s" "load (s\<lparr>po_drain_reason := b\<rparr>) = load s"
  by (simp_all add: load_def fun_eq_iff)

lemma notify_sel [simp]:
  "po_polls (notifyDrainWaiter s) = po_polls s" "po_attempts (notifyDrainWaiter s) = po_attempts s"
  "po_in_flight (notifyDrainWaiter s) = po_in_flight s" "po_active_polls (notifyDrainWaiter s) = po_active_polls s"
  "po_active (notifyDrainWaiter s) = po_active s" "po_next (notifyDrainWaiter s) = po_next s"
  "po_accepting (notifyDrainWaiter s) = po_accepting s" "po_drain_reason (notifyDrainWaiter s) = po_drain_reason s"
  "po_running (notifyDrainWaiter s) = po_running s"
  by (simp_all add: notifyDrainWaiter_def)

lemma notify_same [simp]:
  "load (notifyDrainWaiter s) = load s" "registered_settled (notifyDrainWaiter s) = registered_settled s"
  "po_drain (notifyDrainWaiter s) = NotStopped \<longleftrightarrow> po_drain s = NotStopped"
  "claims (notifyDrainWaiter s) = claims s" "slots (notifyDrainWaiter s) = slots s"
  by (simp_all add: load_def registered_settled_def claims_def slots_def fun_eq_iff) (simp add: notifyDrainWaiter_def)

lemma increment_sel [simp]:
  "po_polls (incrementInFlight t s) = po_polls s" "po_attempts (incrementInFlight t s) = po_attempts s"
  "po_active_polls (incrementInFlight t s) = po_active_polls s" "po_active (incrementInFlight t s) = po_active s"
  "po_next (incrementInFlight t s) = po_next s" "po_accepting (incrementInFlight t s) = po_accepting s"
  "po_drain (incrementInFlight t s) = po_drain s" "po_drain_reason (incrementInFlight t s) = po_drain_reason s"
  by (simp_all add: incrementInFlight_def)

lemma outliving_orderly [simp]: "orderly opt (s\<lparr>po_outliving := xs\<rparr>) = orderly opt s"
  by (simp add: orderly_def balanced_rest_def counted_def answered_def registered_settled_def load_def claims_def slots_def
      isDrained_def totalInFlight_def)

lemma outlives_orderly [simp]: "orderly opt (outlives a s) = orderly opt s"
  by (simp add: outlives_def)

lemma notify_busy: "po_active_polls s \<noteq> 0 \<Longrightarrow> notifyDrainWaiter s = s"
  by (simp add: notifyDrainWaiter_def isDrained_def)

definition freed :: "string \<Rightarrow> poller \<Rightarrow> poller" where
  "freed t s = (let next_count = or_default (map_of (po_in_flight s) t) 1 - 1 in
     s\<lparr>po_in_flight := (if 0 < next_count then AList.update t next_count (po_in_flight s)
       else AList.delete t (po_in_flight s))\<rparr>)"

lemma decrement_freed: "decrementInFlight t s = notifyDrainWaiter (freed t s)"
  by (simp add: decrementInFlight_def freed_def Let_def)

lemma freed_sel [simp]:
  "po_polls (freed t s) = po_polls s" "po_attempts (freed t s) = po_attempts s"
  "po_active_polls (freed t s) = po_active_polls s" "po_active (freed t s) = po_active s"
  "po_next (freed t s) = po_next s" "po_accepting (freed t s) = po_accepting s" "po_drain (freed t s) = po_drain s"
  "po_drain_reason (freed t s) = po_drain_reason s"
  by (simp_all add: freed_def Let_def)

lemma load_freed: "load (freed t s) u = load s u - (if u = t then 1 else 0)"
  by (cases "map_of (po_in_flight s) t")
    (auto simp: load_def freed_def Let_def map_of_update or_default_def delete_conv)

lemma drained_empty:
  assumes "isDrained s" "counted s" "po_active_polls s = length (po_polls s)"
  shows "po_polls s = [] \<and> po_attempts s = []"
proof -
  have z: "\<forall>x \<in> set (po_in_flight s). snd x = 0" using assms(1) by (simp add: isDrained_def totalInFlight_def)
  have "load s t = 0" for t
    using z map_of_SomeD [of "po_in_flight s" t] by (cases "map_of (po_in_flight s) t") (force simp: load_def or_default_def)+
  then have n: "slots s t = 0" for t using assms(2) by (simp add: counted_def)
  have "po_attempts s = []"
  proof (cases "po_attempts s")
    case (Cons a as)
    then show ?thesis using n [of "pa_tenant a"] by (simp add: slots_def)
  qed simp
  then show ?thesis using assms(1,3) by (simp add: isDrained_def)
qed

text \<open>A notification turns a balanced state into an answered one.\<close>

lemma notify_orderly:
  assumes "balanced_rest opt s" "counted s" "\<And>n. po_drain s = Drained False n \<Longrightarrow> po_polls s = [] \<and> po_attempts s = []"
  shows "orderly opt (notifyDrainWaiter s)"
proof -
  have b: "balanced_rest opt (notifyDrainWaiter s)"
    using assms(1) by (simp add: balanced_rest_def)
  have c: "counted (notifyDrainWaiter s)"
    using assms(2) by (simp add: counted_def)
  have "answered (notifyDrainWaiter s)"
    using assms drained_empty [of s] by (auto simp: answered_def notifyDrainWaiter_def balanced_rest_def isDrained_def)
  with b c show ?thesis by (simp add: orderly_def)
qed

lemma poll_loop_result:
  "poll_loop opt ts s = (s', pc) \<Longrightarrow> (pc = AwaitingTasks \<and> s' = s)
    \<or> (\<exists>t ts'. pc = Claiming t ts' \<and> s' = incrementInFlight t s \<and> load s t < wp_concurrency opt \<and> po_accepting s)"
  by (induction ts arbitrary: s' pc) (auto simp: load_def split: if_splits)

lemma replaced_sum:
  fixes f :: "poll \<Rightarrow> nat"
  assumes "distinct (map pl_id ps)" "find (\<lambda>p. pl_id p = i) ps = Some q"
  shows "sum_list (map f (map (\<lambda>p. if pl_id p = i then p' else p) ps)) + f q = sum_list (map f ps) + f p'"
  using assms
proof (induction ps)
  case (Cons p ps)
  show ?case
  proof (cases "pl_id p = i")
    case True
    then have "map (\<lambda>p. if pl_id p = i then p' else p) ps = ps"
      using Cons.prems(1) by (intro map_idI) (metis distinct.simps(2) imageI list.set_map list.simps(9))
    then show ?thesis using True Cons.prems by simp
  next
    case False
    then show ?thesis using Cons by simp
  qed
qed simp

lemma balance:
  fixes a b c d e p q :: nat
  shows "a + q = b + p \<Longrightarrow> c = d + p \<Longrightarrow> e = f \<Longrightarrow> d + q = b + f \<Longrightarrow> c = a + e"
  by linarith

text \<open>A suspended poll goes on: its own reservation is the only one not counted yet.\<close>

lemma resume_orderly:
  assumes b: "balanced_rest opt s" and q: "find_poll (pl_id p) s = Some q"
    and c: "\<And>t. load s t + claim_of t q = claims s t + slots s t"
    and d: "\<And>n. po_drain s \<noteq> Drained False n"
  shows "orderly opt (resume_poll opt ts p s)"
proof -
  obtain s' pc where l: "poll_loop opt ts s = (s', pc)" by force
  let ?p = "p\<lparr>pl_pc := pc\<rparr>"
  let ?s = "resume_poll opt ts p s"
  have e: "?s = set_poll ?p s'" by (simp add: resume_poll_def l)
  have s': "po_polls s' = po_polls s" "po_attempts s' = po_attempts s" "po_active s' = po_active s" "po_next s' = po_next s"
    "po_active_polls s' = po_active_polls s" "po_accepting s' = po_accepting s" "po_drain s' = po_drain s"
    "po_drain_reason s' = po_drain_reason s" "load s' t = load s t + claim_of t ?p" "load s' t \<le> wp_concurrency opt" for t
    using poll_loop_result [OF l] b
    by (auto simp: load_increment claim_of_def balanced_rest_def Suc_leI split: if_splits)
  have ids: "map pl_id (po_polls ?s) = map pl_id (po_polls s)"
    by (simp add: e set_poll_def s' comp_def if_distrib cong: if_cong)
  have n: "po_polls s \<noteq> []" using q by (auto simp: find_poll_def)
  have "claims ?s t + claim_of t q = claims s t + claim_of t ?p" for t
    using replaced_sum [of "po_polls s" "pl_id p" q "claim_of t" ?p] b q
    by (simp add: e set_poll_def claims_def s' balanced_rest_def find_poll_def)
  moreover have "load ?s t = load s t + claim_of t ?p" "slots ?s t = slots s t" for t
    using s'(9) by (simp_all add: e set_poll_def slots_def s')
  ultimately have "load ?s t = claims ?s t + slots ?s t" for t
    by (rule balance) (rule c)
  then have "counted ?s" by (simp add: counted_def)
  moreover have "balanced_rest opt ?s"
  proof -
    have sel: "po_attempts ?s = po_attempts s" "po_active ?s = po_active s" "po_next ?s = po_next s"
      "po_active_polls ?s = po_active_polls s" "po_accepting ?s = po_accepting s" "po_drain ?s = po_drain s"
      "po_drain_reason ?s = po_drain_reason s" "load ?s = load s'"
      by (simp_all add: e set_poll_def s' fun_eq_iff)
    have len: "length (po_polls ?s) = length (po_polls s)" using ids by (metis length_map)
    have small: "(\<forall>r \<in> set (po_polls ?s). pl_id r < n) \<longleftrightarrow> (\<forall>r \<in> set (po_polls s). pl_id r < n)" for n
      using arg_cong [OF ids, of "list_all (\<lambda>i. i < n)"] by (simp add: list_all_iff)
    have "registered_settled ?s = registered_settled s" by (simp only: registered_settled_def sel)
    then show ?thesis using b s'(10) unfolding balanced_rest_def ids len small sel by simp
  qed
  moreover have "answered ?s" using d n b
    by (simp add: answered_def e set_poll_def s' isDrained_def balanced_rest_def)
  ultimately show ?thesis by (simp add: orderly_def)
qed

lemma find_poll_facts: "find_poll i s = Some p \<Longrightarrow> p \<in> set (po_polls s) \<and> pl_id p = i"
  using find_Some_set [of "\<lambda>p. pl_id p = i" "po_polls s" p] by (simp add: find_poll_def)

lemma find_attempt_facts: "find_attempt i s = Some a \<Longrightarrow> a \<in> set (po_attempts s) \<and> pa_id a = i"
  using find_Some_set [of "\<lambda>a. pa_id a = i" "po_attempts s" a] by (simp add: find_attempt_def)

lemma orderly_busy:
  assumes "orderly opt s" "find_poll i s = Some p"
  shows "po_active_polls s \<noteq> 0" "po_drain s \<noteq> Drained False n"
  using assms find_poll_facts [OF assms(2)] by (auto simp: orderly_def answered_def balanced_rest_def)

text \<open>The events, one by one.\<close>

lemma claims_freed: "claims (freed t s) = claims s" "slots (freed t s) = slots s"
  by (simp_all add: claims_def slots_def fun_eq_iff)

lemma set_update: "set (AList.update k v xs) \<subseteq> insert (k, v) (set xs)"
  by (induction xs) auto

lemma freed_rest: "balanced_rest opt s \<Longrightarrow> balanced_rest opt (freed t s)"
  by (simp add: balanced_rest_def load_freed registered_settled_def le_trans [OF diff_le_self])

lemma claim_freed_orderly:
  assumes o: "orderly opt s" and p: "find_poll i s = Some p" "pl_pc p = Claiming t ts"
  shows "orderly opt (resume_poll opt us p (decrementInFlight t s))"
proof -
  have b: "balanced_rest opt s" and c: "counted s" using o by (simp_all add: orderly_def)
  note busy = orderly_busy [OF o p(1)]
  have d: "decrementInFlight t s = freed t s" unfolding decrement_freed by (rule notify_busy) (simp add: busy)
  have "claim_of u p \<le> claims s u" for u
    using find_poll_facts [OF p(1)] by (simp add: claims_def member_le_sum_list)
  moreover have "claim_of u p = (if u = t then 1 else 0)" for u using p(2) by (simp add: claim_of_def)
  ultimately have "load (freed t s) u + claim_of u p = claims (freed t s) u + slots (freed t s) u" for u
    using c by (auto simp: load_freed counted_def claims_freed) (metis Suc_pred add_gr_0 le_simps(3) One_nat_def)
  then show ?thesis unfolding d
    by (intro resume_orderly [OF freed_rest [OF b], where p = p and q = p]) (use p(1) find_poll_facts [OF p(1)] busy(2) in \<open>auto simp: find_poll_def\<close>)
qed

lemma claim_answered_orderly:
  assumes o: "orderly opt s" and p: "find_poll i s = Some p" "pl_pc p = Claiming t ts"
    and st: "start_attempt t run p s = (p', s')"
  shows "orderly opt (resume_poll opt us p' s')"
proof -
  have b: "balanced_rest opt s" and c: "counted s" using o by (simp_all add: orderly_def)
  note busy = orderly_busy [OF o p(1)]
  have i: "pl_id p' = pl_id p" using st by (auto simp: start_attempt_def Let_def)
  have "claim_of u p = (if u = t then 1 else 0)" for u using p(2) by (simp add: claim_of_def)
  then have n: "load s' u + claim_of u p = claims s' u + slots s' u" for u
    using c st by (auto simp: start_attempt_def counted_def claims_def slots_def failLease_def Let_def load_def)
  obtain a where a: "po_attempts s' = po_attempts s @ [a]" "pa_id a = po_next s" "po_drain_reason s \<longrightarrow> pa_settled a"
    and s': "po_polls s' = po_polls s" "po_active s' = AList.update (pa_key a) (po_next s) (po_active s)"
      "po_next s' = po_next s + 1" "po_drain s' = po_drain s" "po_drain_reason s' = po_drain_reason s"
      "po_accepting s' = po_accepting s" "po_active_polls s' = po_active_polls s" "load s' = load s"
    using st by (auto simp: start_attempt_def failLease_def Let_def load_def fun_eq_iff split: if_splits)
  have u: "(k, j) = (pa_key a, po_next s) \<or> (k, j) \<in> set (po_active s)"
    if "(k, j) \<in> set (AList.update (pa_key a) (po_next s) (po_active s))" for k j
    using that set_update [of "pa_key a" "po_next s" "po_active s"] by blast
  have "po_drain_reason s \<longrightarrow> registered_settled s'"
    using b a by (auto dest!: u simp: registered_settled_def balanced_rest_def s')
  then have r: "balanced_rest opt s'"
  proof -
    have "\<forall>(k, j) \<in> set (po_active s'). j < po_next s'" using b u by (fastforce simp: balanced_rest_def s')
    moreover have "distinct (map pa_id (po_attempts s'))" using b a by (auto simp: balanced_rest_def)
    moreover have "\<forall>c \<in> set (po_attempts s'). pa_id c < po_next s'" using b a by (auto simp: balanced_rest_def s' less_SucI)
    moreover have "\<forall>q \<in> set (po_polls s). pl_id q < po_next s'" using b by (auto simp: balanced_rest_def s' less_SucI)
    ultimately show ?thesis using b \<open>po_drain_reason s \<longrightarrow> registered_settled s'\<close>
      by (simp add: balanced_rest_def s')
  qed
  have f: "find_poll (pl_id p') s' = Some p"
  proof -
    have "find_poll (pl_id p') s' = find_poll (pl_id p) s" by (simp add: find_poll_def s' i)
    then show ?thesis using p(1) find_poll_facts [OF p(1)] by simp
  qed
  have d: "po_drain s' \<noteq> Drained False m" for m using busy(2) by (simp add: s')
  show ?thesis by (rule resume_orderly [OF r f n d])
qed

lemma poll_starts_orderly:
  assumes o: "orderly opt s"
  shows "orderly opt (pollOnce opt s)"
proof -
  let ?p = "\<lparr>pl_id = po_next s, pl_pc = AwaitingTasks, pl_attempts = [], pl_claimed = 0\<rparr>"
  let ?s = "s\<lparr>po_active_polls := po_active_polls s + 1, po_polls := po_polls s @ [?p], po_next := po_next s + 1\<rparr>"
  have b: "balanced_rest opt s" and c: "counted s" and w: "answered s" using o by (simp_all add: orderly_def)
  have b': "balanced_rest opt ?s" using b by (auto simp: balanced_rest_def registered_settled_def less_SucI)
  have fresh: "\<forall>q \<in> set (po_polls s). pl_id q \<noteq> po_next s" using b by (auto simp: balanced_rest_def)
  show ?thesis
  proof (cases "\<not> po_accepting s \<or> \<not> wp_ready opt \<or> wp_tenants opt = [] \<or> \<not> wp_has_modules opt")
    case True
    let ?c = "s\<lparr>po_next := po_next s + 1\<rparr>"
    have "filter (\<lambda>q. pl_id q \<noteq> po_next s) (po_polls s) = po_polls s" using fresh by (simp add: filter_id_conv)
    then have "pollOnce opt s = notifyDrainWaiter ?c"
      using True by (simp add: pollOnce_def close_poll_def Let_def)
    moreover have "balanced_rest opt ?c" using b by (auto simp: balanced_rest_def registered_settled_def less_SucI)
    moreover have "counted ?c" using c by (simp add: counted_def claims_def slots_def)
    ultimately show ?thesis using notify_orderly [of opt ?c] w by (simp add: answered_def)
  next
    case False
    then have e: "pollOnce opt s = resume_poll opt (wp_tenants opt) ?p ?s" by (simp add: pollOnce_def Let_def)
    have "find (\<lambda>q. pl_id q = po_next s) (po_polls s) = None" using fresh by (simp add: find_None_set)
    then have f: "find_poll (pl_id ?p) ?s = Some ?p" by (simp add: find_poll_def find_append)
    have n: "load ?s t + claim_of t ?p = claims ?s t + slots ?s t" for t
      using c by (simp add: counted_def claims_def slots_def claim_of_def)
    have d: "po_drain ?s \<noteq> Drained False m" for m using False b by (auto simp: balanced_rest_def)
    show ?thesis unfolding e by (rule resume_orderly [OF b' f n d])
  qed
qed

text \<open>What changes only flags of attempts, or unregisters one.\<close>

lemma attempts_orderly:
  assumes o: "orderly opt s" and f: "\<And>a. pa_id (f a) = pa_id a \<and> pa_tenant (f a) = pa_tenant a \<and> pa_key (f a) = pa_key a"
    and r: "\<And>a. pa_settled a \<Longrightarrow> pa_settled (f a)"
    and k: "set act \<subseteq> set (po_active s)"
  shows "orderly opt (s\<lparr>po_attempts := map f (po_attempts s), po_active := act\<rparr>)"
proof -
  have m: "map pa_id (map f (po_attempts s)) = map pa_id (po_attempts s)" using f by simp
  have "slots (s\<lparr>po_attempts := map f (po_attempts s), po_active := act\<rparr>) t = slots s t" for t
    using f by (simp add: slots_def filter_map comp_def)
  moreover have "claims (s\<lparr>po_attempts := map f (po_attempts s), po_active := act\<rparr>) t = claims s t" for t
    by (simp add: claims_def)
  moreover have "registered_settled s \<Longrightarrow> registered_settled (s\<lparr>po_attempts := map f (po_attempts s), po_active := act\<rparr>)"
    using f r k by (auto simp: registered_settled_def)
  ultimately show ?thesis
    using o m f k unfolding orderly_def balanced_rest_def counted_def answered_def isDrained_def totalInFlight_def
    by (auto simp: comp_def)
qed

lemma close_orderly:
  assumes o: "orderly opt s" and p: "find_poll i s = Some p" "pl_pc p = AwaitingTasks"
  shows "orderly opt (close_poll i s)"
proof -
  let ?f = "\<lambda>ps. filter (\<lambda>q. pl_id q \<noteq> i) ps"
  have b: "balanced_rest opt s" and c: "counted s" and w: "answered s" using o by (simp_all add: orderly_def)
  have d: "distinct (map pl_id (po_polls s))" using b by (simp add: balanced_rest_def)
  have f: "find (\<lambda>q. pl_id q = i) (po_polls s) = Some p" using p(1) by (simp add: find_poll_def)
  have len: "length (?f ps) = length ps - 1 \<and> sum_list (map (claim_of t) (?f ps)) = sum_list (map (claim_of t) ps)"
    if "distinct (map pl_id ps)" "find (\<lambda>q. pl_id q = i) ps = Some p" for ps t
    using that
  proof (induction ps)
    case (Cons q ps)
    show ?case
    proof (cases "pl_id q = i")
      case True
      then have "?f ps = ps" using Cons.prems(1) by (intro filter_True) (force simp: image_iff)
      then show ?thesis using True Cons.prems p(2) by (simp add: claim_of_def)
    next
      case False
      then have "length ps \<noteq> 0" using Cons.prems by auto
      then show ?thesis using False Cons by simp
    qed
  qed simp
  let ?s = "s\<lparr>po_active_polls := po_active_polls s - 1, po_polls := ?f (po_polls s)\<rparr>"
  have "balanced_rest opt ?s"
    using b len [OF d f] by (auto simp: balanced_rest_def registered_settled_def distinct_map_filter)
  moreover have "counted ?s" using c len [OF d f] by (simp add: counted_def claims_def slots_def)
  ultimately show ?thesis
    unfolding close_poll_def using notify_orderly [of opt ?s] w by (simp add: answered_def)
qed

lemma returned_orderly:
  assumes o: "orderly opt s" and a: "find_attempt i s = Some a"
  shows "orderly opt (decrementInFlight (pa_tenant a) (s\<lparr>po_attempts := filter (\<lambda>b. pa_id b \<noteq> i) (po_attempts s)\<rparr>))"
proof -
  let ?f = "\<lambda>xs. filter (\<lambda>b. pa_id b \<noteq> i) xs"
  let ?n = "\<lambda>xs t. length (filter (\<lambda>b. pa_tenant b = t) xs)"
  let ?s = "s\<lparr>po_attempts := ?f (po_attempts s)\<rparr>"
  have b: "balanced_rest opt s" and c: "counted s" and w: "answered s" using o by (simp_all add: orderly_def)
  have d: "distinct (map pa_id (po_attempts s))" using b by (simp add: balanced_rest_def)
  have f: "find (\<lambda>b. pa_id b = i) (po_attempts s) = Some a" using a by (simp add: find_attempt_def)
  have n: "?n xs t = ?n (?f xs) t + (if t = pa_tenant a then 1 else 0)"
    if "distinct (map pa_id xs)" "find (\<lambda>b. pa_id b = i) xs = Some a" for xs t
    using that
  proof (induction xs)
    case (Cons x xs)
    show ?case
    proof (cases "pa_id x = i")
      case True
      then have "?f xs = xs" using Cons.prems(1) by (intro filter_True) (force simp: image_iff)
      then show ?thesis using True Cons.prems by simp
    qed (use Cons in auto)
  qed simp
  have "balanced_rest opt ?s" using b by (auto simp: balanced_rest_def registered_settled_def distinct_map_filter)
  then have b': "balanced_rest opt (freed (pa_tenant a) ?s)" by (rule freed_rest)
  have "counted (freed (pa_tenant a) ?s)"
    using c n [OF d f] by (simp add: counted_def load_freed claims_freed) (simp add: claims_def slots_def)
  then show ?thesis
    unfolding decrement_freed using notify_orderly [OF b'] w by (simp add: answered_def)
qed

lemma stop_orderly:
  assumes o: "orderly opt s"
  shows "orderly opt (snd (poller_stop timeout s))"
proof -
  let ?s = "s\<lparr>po_accepting := False, po_running := False\<rparr>"
  let ?t = "?s\<lparr>po_drain := (if isDrained ?s then Drained False 0 else DrainPending)\<rparr>"
  have b: "balanced_rest opt s" and c: "counted s" using o by (simp_all add: orderly_def)
  have l: "load ?t = load s" "claims ?t = claims s" "slots ?t = slots s" "isDrained ?s = isDrained s" "isDrained ?t = isDrained s"
    by (simp_all add: load_def claims_def slots_def fun_eq_iff isDrained_def totalInFlight_def)
  have "registered_settled ?t = registered_settled s" by (simp add: registered_settled_def)
  then have "balanced_rest opt ?t" using b unfolding balanced_rest_def l by simp
  moreover have "counted ?t" using c by (simp add: counted_def) (simp add: claims_def slots_def)
  moreover have "answered ?t"
    using drained_empty [OF _ c] b by (simp add: answered_def balanced_rest_def) (simp add: isDrained_def totalInFlight_def)
  ultimately have "orderly opt ?t" by (simp add: orderly_def)
  then show ?thesis using o by (auto simp: poller_stop_def Let_def)
qed

lemma timeout_orderly:
  assumes o: "orderly opt s" and p: "po_drain s = DrainPending"
  shows "orderly opt (drain_timeout s)"
proof -
  let ?f = "\<lambda>a. if (pa_key a, pa_id a) \<in> set (po_active s) then failLease (a\<lparr>pa_timed_out := True\<rparr>) else a"
  have f: "pa_id (?f a) = pa_id a \<and> pa_tenant (?f a) = pa_tenant a \<and> pa_key (?f a) = pa_key a" for a
    by (simp add: failLease_def)
  have "orderly opt (s\<lparr>po_attempts := map ?f (po_attempts s), po_active := po_active s\<rparr>)"
    by (rule attempts_orderly [OF o f]) (simp_all add: failLease_def)
  then have t: "orderly opt (s\<lparr>po_attempts := map ?f (po_attempts s)\<rparr>)" by simp
  have n: "\<not> isDrained s" using o p by (simp add: orderly_def answered_def)
  let ?t = "s\<lparr>po_drain_reason := True, po_drain := Drained True (totalInFlight s), po_attempts := map ?f (po_attempts s)\<rparr>"
  have r: "registered_settled ?t" by (auto simp: registered_settled_def failLease_def)
  have l: "load ?t = load s" "claims ?t = claims s" by (simp_all add: load_def claims_def fun_eq_iff)
  have "slots ?t = slots (s\<lparr>po_attempts := map ?f (po_attempts s)\<rparr>)" by (simp add: slots_def fun_eq_iff)
  then have "counted ?t" using t l by (simp add: orderly_def counted_def) (simp add: claims_def)
  moreover have "balanced_rest opt ?t" using t r l p by (simp add: orderly_def balanced_rest_def)
  ultimately have "orderly opt ?t" by (simp add: orderly_def answered_def)
  with n show ?thesis by (simp add: drain_timeout_def)
qed

lemma event_orderly:
  assumes o: "orderly opt s" and e: "poller_event opt e s = Some s'"
  shows "orderly opt s'"
proof (cases e)
  case PollStarts
  then show ?thesis using e poll_starts_orderly [OF o] by simp
next
  case (ClaimThrows i)
  then show ?thesis using e claim_freed_orderly [OF o] by (auto simp: claim_answered_def split: option.splits poll_pc.splits)
next
  case (ClaimEmpty i)
  then show ?thesis using e claim_freed_orderly [OF o] by (auto simp: claim_answered_def split: option.splits poll_pc.splits)
next
  case (ClaimAnswers i run)
  then show ?thesis using e claim_answered_orderly [OF o]
    by (auto simp: claim_answered_def split: option.splits poll_pc.splits prod.splits)
next
  case (LeaseLost i)
  have "orderly opt (s\<lparr>po_attempts := map (\<lambda>a. if pa_id a = i then failLease a else a) (po_attempts s), po_active := po_active s\<rparr>)"
    by (rule attempts_orderly [OF o]) (simp_all add: failLease_def)
  then show ?thesis using e LeaseLost by (auto simp: on_attempt_def split: option.splits if_splits)
next
  case (RunStopped i)
  have "orderly opt (s\<lparr>po_attempts := map (\<lambda>a. if pa_id a = i then a\<lparr>pa_settled := True\<rparr> else a) (po_attempts s), po_active := po_active s\<rparr>)"
    by (rule attempts_orderly [OF o]) simp_all
  then show ?thesis using e RunStopped by (auto simp: on_attempt_def split: option.splits if_splits)
next
  case (TaskSettles i)
  have "orderly opt (s\<lparr>po_attempts := map (\<lambda>a. if pa_id a = i then a\<lparr>pa_done := True\<rparr> else a) (po_attempts s), po_active := po_active s\<rparr>)"
    by (rule attempts_orderly [OF o]) simp_all
  then show ?thesis using e TaskSettles o by (auto simp: on_attempt_def split: option.splits if_splits)
next
  case (AttemptEnds i)
  then obtain a where a: "s' = end_attempt a s" using e by (auto split: option.splits if_splits)
  have "set (AList.delete (pa_key a) (po_active s)) \<subseteq> set (po_active s)" by (simp add: AList.delete_eq)
  from attempts_orderly [OF o, of "\<lambda>b. if pa_id b = pa_id a then b\<lparr>pa_settled := True, pa_ended := True\<rparr> else b", OF _ _ this]
  show ?thesis by (simp add: a end_attempt_def on_attempt_def)
next
  case (SlotReturned i)
  then show ?thesis using e returned_orderly [OF o] by (auto split: option.splits if_splits)
next
  case (PollEnds i)
  then show ?thesis using e close_orderly [OF o] by (auto split: option.splits if_splits)
next
  case (StopCalled timeout)
  then show ?thesis using e stop_orderly [OF o, of timeout] by simp
next
  case DrainTimesOut
  then show ?thesis using e timeout_orderly [OF o] by (auto split: if_splits)
qed

lemma polled_orderly: "polled opt s \<Longrightarrow> orderly opt s"
proof (induction rule: polled.induct)
  case (poller_created drain s)
  then show ?case
    by (auto simp: createWorkerPoller_def thrown_def orderly_def balanced_rest_def counted_def answered_def load_def claims_def
        slots_def or_default_def split: if_splits)
qed (rule event_orderly)

subsection \<open>What holds in every interleaving\<close>

fun poller_events :: "polling_options \<Rightarrow> poll_event list \<Rightarrow> poller \<Rightarrow> poller option" where
  "poller_events opt [] s = Some s"
| "poller_events opt (e # es) s = Option.bind (poller_event opt e s) (poller_events opt es)"

text \<open>
  C31: however many polls overlap and in whatever order claims answer, fail or come back empty, attempts
  end and leases are lost, a tenant never has more claims and attempts in progress than its share of the
  worker: the slot is taken before the claim is awaited and given back once, on every path.
\<close>

theorem tenant_cap_holds:
  assumes "polled opt s"
  shows "claims s t + slots s t \<le> wp_concurrency opt"
  using polled_orderly [OF assms] by (auto simp: orderly_def balanced_rest_def counted_def)

lemma polled_events: "polled opt s \<Longrightarrow> poller_events opt es s = Some s' \<Longrightarrow> polled opt s'"
  by (induction es arbitrary: s) (auto simp: bind_eq_Some_conv intro: poller_stepped)

lemma event_keeps_drained:
  assumes "orderly opt s" "po_drain s = Drained False n" "poller_event opt e s = Some s'"
  shows "po_drain s' = Drained False n"
proof -
  have e: "po_polls s = []" "po_attempts s = []" and a: "\<not> po_accepting s"
    using assms(1,2) by (auto simp: orderly_def answered_def balanced_rest_def)
  show ?thesis
    using assms(2,3) e a
    by (cases e) (auto simp: claim_answered_def find_poll_def find_attempt_def pollOnce_def close_poll_def notifyDrainWaiter_def
        poller_stop_def Let_def split: if_splits)
qed

text \<open>
  What a task without an attempt has gone through, and that the counters of the slots have one entry a tenant.
\<close>

definition let_go :: "poller \<Rightarrow> bool" where
  "let_go s \<longleftrightarrow> (\<forall>a \<in> set (po_attempts s). pa_ended a \<longrightarrow> pa_done a \<or> pa_aborted a)
     \<and> (\<forall>a \<in> set (po_outliving s). pa_aborted a) \<and> distinct (map fst (po_in_flight s))"

lemma let_go_congs [simp]:
  "let_go (set_poll p s) = let_go s" "let_go (notifyDrainWaiter s) = let_go s" "let_go (s\<lparr>po_drain := d\<rparr>) = let_go s"
  "let_go (s\<lparr>po_active_polls := n, po_polls := ps\<rparr>) = let_go s" "let_go (close_poll i s) = let_go s"
  by (simp_all add: let_go_def set_poll_def notifyDrainWaiter_def close_poll_def)

lemma let_go_increment: "let_go s \<Longrightarrow> let_go (incrementInFlight t s)"
  by (simp add: let_go_def incrementInFlight_def distinct_update)

lemma let_go_decrement: "let_go s \<Longrightarrow> let_go (decrementInFlight t s)"
  by (simp add: decrement_freed) (simp add: let_go_def freed_def Let_def distinct_update distinct_delete)

lemma let_go_resumed: "let_go s \<Longrightarrow> let_go (resume_poll opt ts p s)"
  by (cases "poll_loop opt ts s") (auto simp: resume_poll_def let_go_increment dest!: poll_loop_result)

lemma let_go_started: "let_go s \<Longrightarrow> start_attempt t run p s = (p', s') \<Longrightarrow> let_go s'"
  by (auto simp: start_attempt_def let_go_def failLease_def Let_def split: if_splits)

lemma let_go_attempts:
  assumes "let_go s" "\<And>a. a \<in> set (po_attempts s) \<Longrightarrow> pa_ended (f a) \<Longrightarrow> pa_done (f a) \<or> pa_aborted (f a)"
  shows "let_go (s\<lparr>po_attempts := map f (po_attempts s)\<rparr>)"
  using assms by (auto simp: let_go_def)

lemma let_go_flagged:
  assumes "let_go s" "\<And>a. pa_ended (f a) = pa_ended a" "\<And>a. pa_done a \<Longrightarrow> pa_done (f a)" "\<And>a. pa_aborted a \<Longrightarrow> pa_aborted (f a)"
  shows "let_go (on_attempt i f s)"
  unfolding on_attempt_def by (rule let_go_attempts [OF assms(1)]) (use assms in \<open>auto simp: let_go_def\<close>)

lemma the_attempt:
  assumes "orderly opt s" "find_attempt i s = Some a" "b \<in> set (po_attempts s)" "pa_id b = i"
  shows "b = a"
  using assms find_attempt_facts [OF assms(2)]
  by (auto simp: orderly_def balanced_rest_def distinct_map dest: inj_onD)

lemma let_go_ended:
  assumes "let_go s" "orderly opt s" "find_attempt i s = Some a" "pa_done a \<or> pa_aborted a"
  shows "let_go (end_attempt a s)"
proof -
  have "let_go (on_attempt (pa_id a) (\<lambda>a. a\<lparr>pa_settled := True, pa_ended := True\<rparr>) s)"
    unfolding on_attempt_def
  proof (rule let_go_attempts [OF assms(1)])
    fix b assume b: "b \<in> set (po_attempts s)"
      "pa_ended (if pa_id b = pa_id a then b\<lparr>pa_settled := True, pa_ended := True\<rparr> else b)"
    show "pa_done (if pa_id b = pa_id a then b\<lparr>pa_settled := True, pa_ended := True\<rparr> else b)
      \<or> pa_aborted (if pa_id b = pa_id a then b\<lparr>pa_settled := True, pa_ended := True\<rparr> else b)"
    proof (cases "pa_id b = pa_id a")
      case True
      then have "b = a" using the_attempt [OF assms(2,3) b(1)] find_attempt_facts [OF assms(3)] by simp
      then show ?thesis using assms(4) by simp
    next
      case False
      then show ?thesis using assms(1) b by (simp add: let_go_def)
    qed
  qed
  then show ?thesis by (simp add: end_attempt_def let_go_def)
qed

lemma let_go_returned:
  assumes "let_go s" "find_attempt i s = Some a" "pa_ended a"
  shows "let_go (outlives a (decrementInFlight t (s\<lparr>po_attempts := filter (\<lambda>b. pa_id b \<noteq> i) (po_attempts s)\<rparr>)))"
proof -
  have "let_go (decrementInFlight t (s\<lparr>po_attempts := filter (\<lambda>b. pa_id b \<noteq> i) (po_attempts s)\<rparr>))"
    by (rule let_go_decrement) (use assms(1) in \<open>simp add: let_go_def\<close>)
  moreover have "pa_done a \<or> pa_aborted a"
    using assms find_attempt_facts [OF assms(2)] by (simp add: let_go_def)
  ultimately show ?thesis by (auto simp: outlives_def let_go_def)
qed

lemma event_lets_go:
  assumes "let_go s" "orderly opt s" "poller_event opt e s = Some s'"
  shows "let_go s'"
proof (cases e)
  case PollStarts
  have "let_go (s\<lparr>po_active_polls := n, po_polls := ps, po_next := m\<rparr>)" for n ps m using assms(1) by (simp add: let_go_def)
  then show ?thesis using assms PollStarts by (auto simp: pollOnce_def Let_def let_go_resumed)
next
  case (ClaimThrows i)
  then show ?thesis using assms
    by (auto simp: claim_answered_def let_go_resumed let_go_decrement simp del: poll_loop.simps split: option.splits poll_pc.splits)
next
  case (ClaimEmpty i)
  then show ?thesis using assms
    by (auto simp: claim_answered_def let_go_resumed let_go_decrement split: option.splits poll_pc.splits)
next
  case (ClaimAnswers i run)
  then show ?thesis using assms
    by (auto simp: claim_answered_def split: option.splits poll_pc.splits prod.splits intro: let_go_resumed let_go_started)
next
  case (LeaseLost i)
  then show ?thesis using assms by (auto intro!: let_go_flagged simp: failLease_def split: option.splits if_splits)
next
  case (RunStopped i)
  then show ?thesis using assms by (auto intro!: let_go_flagged split: option.splits if_splits)
next
  case (TaskSettles i)
  then show ?thesis using assms
    by (auto intro!: let_go_flagged split: option.splits if_splits) (auto simp: let_go_def)
next
  case (AttemptEnds i)
  then show ?thesis using assms by (auto intro!: let_go_ended split: option.splits if_splits)
next
  case (SlotReturned i)
  then show ?thesis using assms by (auto intro!: let_go_returned split: option.splits if_splits)
next
  case (PollEnds i)
  then show ?thesis using assms by (auto split: option.splits if_splits)
next
  case (StopCalled timeout)
  have "po_attempts (snd (poller_stop timeout s)) = po_attempts s" "po_outliving (snd (poller_stop timeout s)) = po_outliving s"
    "po_in_flight (snd (poller_stop timeout s)) = po_in_flight s"
    by (simp_all add: poller_stop_def Let_def)
  then show ?thesis using assms StopCalled by (simp add: let_go_def)
next
  case DrainTimesOut
  let ?f = "\<lambda>a. if (pa_key a, pa_id a) \<in> set (po_active s) then failLease (a\<lparr>pa_timed_out := True\<rparr>) else a"
  have "let_go (s\<lparr>po_attempts := map ?f (po_attempts s)\<rparr>)"
    by (rule let_go_attempts [OF assms(1)]) (use assms(1) in \<open>auto simp: let_go_def failLease_def split: if_splits\<close>)
  moreover have "let_go (x\<lparr>po_drain_reason := b, po_drain := d\<rparr>) = let_go x" for x b d by (simp add: let_go_def)
  ultimately show ?thesis using assms DrainTimesOut by (auto simp: drain_timeout_def let_go_def split: if_splits)
qed

lemma polled_lets_go: "polled opt s \<Longrightarrow> let_go s"
proof (induction rule: polled.induct)
  case (poller_created drain s)
  then show ?case by (auto simp: createWorkerPoller_def thrown_def let_go_def split: if_splits)
next
  case (poller_stepped s e s')
  then show ?case using event_lets_go polled_orderly by blast
qed

lemma idle_drained:
  assumes "orderly opt s" "let_go s" "po_polls s = []" "po_attempts s = []"
  shows "isDrained s"
proof -
  have "load s t = 0" for t using assms by (simp add: orderly_def counted_def claims_def slots_def)
  moreover have "load s t = n" if "(t, n) \<in> set (po_in_flight s)" for t n
    using assms(2) that by (simp add: load_def let_go_def or_default_def)
  ultimately have "\<forall>x \<in> set (po_in_flight s). snd x = 0" by (metis prod.collapse)
  then show ?thesis using assms by (simp add: isDrained_def totalInFlight_def orderly_def balanced_rest_def)
qed

lemma event_keeps_outliving:
  assumes "po_attempts s = []" "po_polls s = []" "\<not> po_accepting s" "poller_event opt e s = Some s'"
  shows "set (po_outliving s') \<subseteq> set (po_outliving s)"
  using assms
  by (cases e) (auto simp: claim_answered_def find_poll_def find_attempt_def pollOnce_def close_poll_def notifyDrainWaiter_def
      poller_stop_def drain_timeout_def Let_def split: if_splits)

lemma drained_for_ever:
  "polled opt s \<Longrightarrow> po_drain s = Drained False n \<Longrightarrow> poller_events opt es s = Some s'
    \<Longrightarrow> po_drain s' = Drained False n \<and> set (po_outliving s') \<subseteq> set (po_outliving s)"
proof (induction es arbitrary: s)
  case (Cons e es)
  then obtain s1 where s1: "poller_event opt e s = Some s1" "poller_events opt es s1 = Some s'"
    by (auto simp: bind_eq_Some_conv)
  have o: "orderly opt s" by (rule polled_orderly [OF Cons.prems(1)])
  then have "po_attempts s = []" "po_polls s = []" "\<not> po_accepting s"
    using Cons.prems(2) by (auto simp: orderly_def answered_def balanced_rest_def)
  then have "set (po_outliving s1) \<subseteq> set (po_outliving s)" by (rule event_keeps_outliving [OF _ _ _ s1(1)])
  moreover have "po_drain s' = Drained False n \<and> set (po_outliving s') \<subseteq> set (po_outliving s1)"
    by (rule Cons.IH [OF poller_stepped [OF Cons.prems(1) s1(1)] event_keeps_drained [OF o Cons.prems(2) s1(1)] s1(2)])
  ultimately show ?case by blast
qed simp

text \<open>
  C32: a stop that has not answered has a poll or an attempt in progress, and one that answers "not timed
  out" is the end of what the poller does: no poll, no claim and no attempt is left, whatever happens
  afterwards none begins again and the answer stands. It does not wait for every task: a task may still run
  whose attempt ended with the loss of its lease. Each of those has been told to abort, and none is added.
\<close>

theorem clean_drain_is_final:
  assumes "polled opt s"
  shows "(po_drain s = DrainPending \<longrightarrow> po_polls s \<noteq> [] \<or> po_attempts s \<noteq> [])
    \<and> (\<forall>n es s'. po_drain s = Drained False n \<longrightarrow> poller_events opt es s = Some s' \<longrightarrow>
         po_drain s' = Drained False n \<and> po_polls s' = [] \<and> po_attempts s' = []
         \<and> (\<forall>a \<in> set (po_outliving s'). pa_aborted a \<and> a \<in> set (po_outliving s)))"
proof (intro conjI allI impI)
  have o: "orderly opt s" and g: "let_go s" by (rule polled_orderly [OF assms], rule polled_lets_go [OF assms])
  show "po_polls s \<noteq> [] \<or> po_attempts s \<noteq> []" if "po_drain s = DrainPending"
    using idle_drained [OF o g] o that by (auto simp: orderly_def answered_def)
  fix n es s' assume d: "po_drain s = Drained False n" and e: "poller_events opt es s = Some s'"
  have "polled opt s'" by (rule polled_events [OF assms e])
  then have "orderly opt s'" "let_go s'" by (simp_all add: polled_orderly polled_lets_go)
  with drained_for_ever [OF assms d e]
  show "po_drain s' = Drained False n" "po_polls s' = []" "po_attempts s' = []"
    "\<forall>a \<in> set (po_outliving s'). pa_aborted a \<and> a \<in> set (po_outliving s)"
    by (auto simp: orderly_def answered_def let_go_def)
qed

lemma claim_retried:
  assumes "polled opt s" "find_poll i s = Some p" "pl_pc p = Claiming t ts" "po_accepting s"
  shows "\<exists>s'. poller_event opt (ClaimThrows i) s = Some s' \<and> find_poll i s' = Some p \<and> po_accepting s' \<and> po_polls s' = po_polls s"
proof -
  have o: "orderly opt s" by (rule polled_orderly [OF assms(1)])
  have d: "decrementInFlight t s = freed t s"
    unfolding decrement_freed by (rule notify_busy) (use orderly_busy [OF o assms(2)] in simp)
  have "claim_of t p \<le> claims s t"
    using find_poll_facts [OF assms(2)] by (simp add: claims_def member_le_sum_list)
  then have "1 \<le> load s t" using o assms(3) by (simp add: orderly_def counted_def claim_of_def)
  moreover have "load s t \<le> wp_concurrency opt" using o by (simp add: orderly_def balanced_rest_def)
  ultimately have "load (freed t s) t < wp_concurrency opt" by (simp add: load_freed)
  then have l: "poll_loop opt (t # ts) (freed t s) = (incrementInFlight t (freed t s), Claiming t ts)"
    using assms(4) by (simp add: load_def)
  have pc: "p\<lparr>pl_pc := Claiming t ts\<rparr> = p" using assms(3) by (cases p) simp
  have same: "map (\<lambda>q. if pl_id q = pl_id p then p else q) (po_polls s) = po_polls s"
  proof (rule map_idI)
    fix q assume "q \<in> set (po_polls s)"
    moreover have "distinct (map pl_id (po_polls s))" using o by (simp add: orderly_def balanced_rest_def)
    ultimately show "(if pl_id q = pl_id p then p else q) = q"
      using find_poll_facts [OF assms(2)] by (auto simp: distinct_map dest: inj_onD)
  qed
  have "poller_event opt (ClaimThrows i) s = Some (set_poll p (incrementInFlight t (freed t s)))"
    using assms(2,3) l by (simp add: claim_answered_def d resume_poll_def del: poll_loop.simps) (simp only: pc)
  then show ?thesis using assms(2,4) same by (simp add: set_poll_def find_poll_def)
qed

text \<open>
  a claim that fails is tried again at once, for the same tenant: as long as the claims of one tenant
  fail and the worker is not stopped, its poll asks again and again without a pause, and never reaches the
  tenants behind it.
\<close>

theorem failing_claim_starves_the_others:
  assumes "polled opt s" "find_poll i s = Some p" "pl_pc p = Claiming t ts" "po_accepting s"
  shows "\<exists>s'. poller_events opt (replicate n (ClaimThrows i)) s = Some s' \<and> find_poll i s' = Some p"
  using assms
proof (induction n arbitrary: s)
  case (Suc n)
  obtain s1 where s1: "poller_event opt (ClaimThrows i) s = Some s1" "find_poll i s1 = Some p" "po_accepting s1"
    using claim_retried [OF Suc.prems] by blast
  have "polled opt s1" by (rule poller_stepped [OF Suc.prems(1) s1(1)])
  from Suc.IH [OF this s1(2) Suc.prems(3) s1(3)] s1(1) show ?case by (simp del: poller_event.simps)
qed simp

text \<open>
  an attempt can escape the drain. When the worker has the same run twice - its first attempt has let
  the row go or lost it, and the claim loop took it again - the end of the first attempt unregisters the
  second, which the timeout of the drain then does not abort: the stop reports it as in flight, and it works on.
\<close>

theorem attempt_escapes_the_drain:
  "\<exists>es s a. poller_events \<lparr>wp_tenants = [t], wp_concurrency = 2, wp_ready = True, wp_has_modules = True, wp_auto_start = True\<rparr> es
      \<lparr>po_accepting = True, po_running = True, po_in_flight = [], po_active_polls = 0, po_polls = [], po_attempts = [],
       po_outliving = [], po_active = [], po_drain = NotStopped, po_drain_reason = False, po_next = 0\<rparr> = Some s
    \<and> po_drain s = Drained True 1 \<and> po_attempts s = [a] \<and> \<not> pa_aborted a \<and> \<not> pa_settled a \<and> \<not> pa_ended a"
  by (rule exI [of _ "[PollStarts, ClaimAnswers 0 run, ClaimAnswers 0 run, LeaseLost 1, AttemptEnds 1, SlotReturned 1,
        StopCalled (Fin 1), DrainTimesOut]"])
    (simp add: pollOnce_def resume_poll_def set_poll_def incrementInFlight_def or_default_def claim_answered_def find_poll_def
      start_attempt_def find_attempt_def end_attempt_def on_attempt_def outlives_def decrementInFlight_def notifyDrainWaiter_def
      poller_stop_def is_int_rat_def max_safe_def isDrained_def totalInFlight_def drain_timeout_def failLease_def Let_def)

subsection \<open>The heartbeat\<close>

text \<open>
  the heartbeat loses a lease the worker holds. It reads the row and renews the version it read; when the
  run's own write - a checkpoint, a transition - lands between the two, the renewal is refused as a version
  conflict and the heartbeat fails the attempt, although the lease is still this worker's and still alive.
\<close>

theorem own_write_costs_the_lease:
  assumes "durable_getTask tenant_id run_id T = Inr (Some r)" "beat_read worker_id now1 (Some r) = None"
    and "assert_address tenant_id run_id = Inr ()" "lease_ttl (Some duration) = Inr ttl"
    and "lockDurableTask tenant_id run_id T2 = Some r2" "held now2 worker_id r2" "dt_task_version r2 \<noteq> dt_task_version r"
  shows "heartbeat worker_id duration dbnow now1 now2 now3 tenant_id run_id T T2
    = (LosesLease (ThrownError ''TASK_VERSION_CONFLICT''), T2)"
  using assms
  by (simp add: heartbeat_def beat_renew_def renewTaskLease_def durable_getTask_def andThen_Inr_iff in_tenant_def locked_lease_def
      held_def succeeds_iff thrown_def)

end
