(* ===== verification/WorkerExamples.thy ===== *)
theory WorkerExamples
  imports WorkerProperties TaskExamples
begin

text \<open>A worker with one domain: the witnesses of the theorems of \<open>WorkerProperties\<close>.\<close>

definition example_contract :: signal_contract where
  "example_contract = \<lparr>sc_module = ''support'', sc_source_channels = [''WEB_CHAT''],
     sc_event_types = [''message.received''], sc_signal_invalid_code = ''CARE_SIGNAL_INVALID''\<rparr>"

definition mutating_payload :: jobject where
  "mutating_payload = (''pending_action'', JObj [(''mutating'', JBool True)])
     # filter (\<lambda>m. fst m \<noteq> ''pending_action'') example_checkpoint"

text \<open>An orchestrator that leaves the run with a mutating action in doubt.\<close>

definition example_orchestrator :: worker_orchestrator where
  "example_orchestrator = \<lparr>wo_resumeTask = (\<lambda>run event T. (Inr (), T)),
     wo_processQueuedSignal = (\<lambda>run signal w T. (Inr (), [example_row Running mutating_payload (Some ''w'')]))\<rparr>"

definition example_dispatch :: dispatch where
  "example_dispatch = \<lparr>dp_tenant = example_tenant, dp_worker = ''w'',
     dp_registry = [(''support'', \<lparr>rb_contract = example_contract, rb_createOrchestrator = (\<lambda>t. Inr (Some example_orchestrator))\<rparr>)],
     dp_aborted = (\<lambda>i. False), dp_clock = (\<lambda>i. 1000), dp_now = (\<lambda>i. 1)\<rparr>"

lemma example_dispatch_sel [simp]:
  "dp_tenant example_dispatch = example_tenant" "dp_worker example_dispatch = ''w''"
  "dp_aborted example_dispatch i = False" "dp_now example_dispatch i = 1" "dp_clock example_dispatch i = 1000"
  by (simp_all add: example_dispatch_def)

definition example_signal :: json where
  "example_signal = JObj [(''tenant_id'', JStr example_tenant), (''correlation_id'', JStr ''c''), (''signal_id'', JStr ''s''),
     (''source_channel'', JStr ''WEB_CHAT''), (''event_type'', JStr ''message.received''),
     (''payload'', JObj [(''module'', JStr ''support'')])]"

definition signal_row :: durable_task where
  "signal_row = example_row Running [(''signal'', example_signal)] (Some ''w'')"

lemma example_tenant_filled: "example_tenant \<noteq> []"
  by (simp add: example_tenant_def)

lemma worker_accepted:
  "registry_accepts (dp_registry example_dispatch) example_signal (Some example_tenant) (Some ''c'')
    = Some \<lparr>rb_contract = example_contract, rb_createOrchestrator = (\<lambda>t. Inr (Some example_orchestrator))\<rparr>"
  by (simp add: registry_accepts_def example_signal_def member_def filled_def string_of_def registry_resolve_def
      example_dispatch_def example_contract_def channel_pair_def starts_with_def example_tenant_filled)

lemma signal_row_sel [simp]: "dt_state signal_row = Running" "dt_run_id signal_row = ''r''"
  "dt_correlation_id signal_row = ''c''" "dt_state_payload signal_row = JObj [(''signal'', example_signal)]"
  by (simp_all add: signal_row_def) (simp add: example_row_def)

lemma example_attempt:
  "attempt_task example_dispatch signal_row \<lparr>ws_tasks = [signal_row], ws_calls = []\<rparr>
    = (Inr (), \<lparr>ws_tasks = [example_row Running mutating_payload (Some ''w'')],
         ws_calls = [Processed ''support'' ''r'' example_signal]\<rparr>)"
proof -
  have m: "signal_module [(''signal'', example_signal)] = Some ''support''"
    by (simp add: signal_module_def member_def example_signal_def string_of_def)
  have r: "registry_resolve (dp_registry example_dispatch) ''support''
      = Some \<lparr>rb_contract = example_contract, rb_createOrchestrator = (\<lambda>t. Inr (Some example_orchestrator))\<rparr>"
    by (simp add: registry_resolve_def example_dispatch_def)
  have p: "plain_members (JObj [(''signal'', example_signal)]) = [(''signal'', example_signal)]"
    by (simp add: plain_members_def)
  show ?thesis
    by (simp add: attempt_task_def parked_state_def throwIfAborted_def p member_def pending_mutates_def m process_signal_def r
        worker_accepted call_orchestrator_def example_orchestrator_def)
qed

lemma example_finish:
  "finish_attempt example_dispatch signal_row \<lparr>ws_tasks = [example_row Running mutating_payload (Some ''w'')], ws_calls = cs\<rparr>
    = (Inr (), \<lparr>ws_tasks = [example_row Running mutating_payload (Some ''w'')], ws_calls = cs\<rparr>)"
proof -
  have g: "durable_getTask example_tenant ''r'' [example_row Running mutating_payload (Some ''w'')]
      = Inr (Some (example_row Running mutating_payload (Some ''w'')))"
    by (simp add: durable_getTask_def)
  have p: "pending_mutates (JObj mutating_payload)" "\<not> hasResumeEvent (JObj mutating_payload)"
    by (simp_all add: pending_mutates_def hasResumeEvent_def plain_members_def mutating_payload_def member_def example_checkpoint_def)
  have s: "\<not> hasResumeEvent (JObj [(''signal'', example_signal)])" by (simp add: hasResumeEvent_def member_def)
  show ?thesis by (simp add: finish_attempt_def g p s)
qed

lemma example_processed:
  "processClaimedTask example_dispatch signal_row \<lparr>ws_tasks = [signal_row], ws_calls = []\<rparr>
    = (Inr (), \<lparr>ws_tasks = [example_row Running mutating_payload (Some ''w'')],
         ws_calls = [Processed ''support'' ''r'' example_signal]\<rparr>)"
  unfolding processClaimedTask_def example_attempt by (simp add: example_finish)

theorem dispatch_is_admitted_witness:
  "admitted_call example_dispatch signal_row (Processed ''support'' ''r'' example_signal)"
  by (rule dispatch_is_admitted [where st = "\<lparr>ws_tasks = [signal_row], ws_calls = []\<rparr>"]) (simp_all add: example_processed)

lemma example_addressed: "addressed example_dispatch ''r''"
  by (simp add: addressed_def assert_address_def)

lemma example_held: "held 1 ''w'' (example_row s p (Some ''w'')) \<longleftrightarrow> s \<in> {Running, Waiting, AwaitingHuman}"
  by (simp add: held_def assertLeaseHeld_def blank_def trim_def is_ws_def iso_ms_def succeeds_iff)


theorem reclaimed_mutation_is_parked_witness:
  "\<exists>T' r. processClaimedTask example_dispatch (example_row Running mutating_payload (Some ''w''))
      \<lparr>ws_tasks = [example_row Running mutating_payload (Some ''w'')], ws_calls = []\<rparr>
      = (Inr (), \<lparr>ws_tasks = T', ws_calls = []\<rparr>) \<and> lockDurableTask example_tenant ''r'' T' = Some r \<and> dt_state r = Waiting"
proof -
  have k: "complete_payload (JObj mutating_payload)" "\<not> jsonb_has (JObj mutating_payload) ''resume_event''"
    "pending_mutates (JObj mutating_payload)"
    by (simp_all add: complete_object_iff checkpoint_shape_def mutating_payload_def example_checkpoint_def member_def
        isSha256Hex_def list_all_iff blank_def trim_def is_ws_def pending_mutates_def plain_members_def)
  show ?thesis
    using reclaimed_mutation_is_parked [of example_dispatch "example_row Running mutating_payload (Some ''w'')"
        "\<lparr>ws_tasks = [example_row Running mutating_payload (Some ''w'')], ws_calls = []\<rparr>"] k
    by (auto simp: example_addressed example_held)
qed

text \<open>An approval, decided, over a checkpoint that carries no signal.\<close>

definition approved_event :: "string \<times> json" where
  "approved_event = (''resume_event'', JObj [(''tenant_id'', JStr example_tenant), (''event_type'', JStr ''human.approval'')])"

theorem undeliverable_decision_is_claimed_for_ever_witness:
  "\<exists>r'. fold (\<lambda>(dbnow, c) st. snd (work_once dbnow None c st)) [(0, example_dispatch), (1, example_dispatch)]
      \<lparr>ws_tasks = [example_row AwaitingHuman (approved_event # example_checkpoint) None], ws_calls = []\<rparr>
      = \<lparr>ws_tasks = [r'], ws_calls = []\<rparr> \<and> dt_task_version r' = 8 \<and> claimable 0 r'"
proof -
  let ?p = "JObj (approved_event # example_checkpoint)"
  have s: "stuck example_tenant ''r'' ?p 1 (example_row AwaitingHuman (approved_event # example_checkpoint) None)"
    by (simp add: stuck_def) (simp add: task_at_def example_row_def)
  have u: "undeliverable example_dispatch ?p"
    by (simp add: undeliverable_def hasResumeEvent_def approved_event_def member_def plain_members_def signal_module_def
        example_checkpoint_def or_default_def)
  have o: "in_order example_tenant ''r'' dbnow example_dispatch" if "0 \<le> dbnow" for dbnow
    using that by (simp add: in_order_def example_addressed blank_def trim_def is_ws_def iso_ms_def)
  let ?turns = "[(0, example_dispatch), (1, example_dispatch)]"
  have w: "undeliverable c ?p \<and> in_order example_tenant ''r'' dbnow c"
    if "(dbnow, c) \<in> set ?turns" for dbnow c
    using that u o by auto
  from undeliverable_decision_is_claimed_for_ever [OF s, of ?turns, OF w] show ?thesis by auto
qed

end
