(* ===== verification/PollingExamples.thy ===== *)
theory PollingExamples
  imports PollingProperties WorkerExamples
begin

text \<open>A poller with one tenant: the witnesses of the theorems of \<open>PollingProperties\<close>.\<close>

definition example_options :: polling_options where
  "example_options = \<lparr>wp_tenants = [''t''], wp_concurrency = 2, wp_ready = True, wp_has_modules = True, wp_auto_start = True\<rparr>"

definition fresh_poller :: poller where
  "fresh_poller = \<lparr>po_accepting = True, po_running = True, po_in_flight = [], po_active_polls = 0, po_polls = [],
     po_attempts = [], po_outliving = [], po_active = [], po_drain = NotStopped, po_drain_reason = False, po_next = 0\<rparr>"

lemma fresh_polled: "polled example_options fresh_poller"
  by (rule poller_created [of _ "Fin 1"])
    (simp add: createWorkerPoller_def example_options_def fresh_poller_def is_int_rat_def max_safe_def)

definition example_poll :: poll where
  "example_poll = \<lparr>pl_id = 0, pl_pc = Claiming ''t'' [], pl_attempts = [], pl_claimed = 0\<rparr>"

definition claiming_poller :: poller where
  "claiming_poller = fresh_poller\<lparr>po_active_polls := 1, po_polls := [example_poll], po_in_flight := [(''t'', 1)], po_next := 1\<rparr>"

lemma claiming_starts: "poller_event example_options PollStarts fresh_poller = Some claiming_poller"
  by (simp add: pollOnce_def fresh_poller_def example_options_def resume_poll_def set_poll_def incrementInFlight_def
      or_default_def claiming_poller_def example_poll_def Let_def)

lemma claiming_polled: "polled example_options claiming_poller"
  by (rule poller_stepped [OF fresh_polled claiming_starts])

theorem tenant_cap_holds_witness:
  "claims claiming_poller ''t'' + slots claiming_poller ''t'' \<le> 2"
  using tenant_cap_holds [OF claiming_polled, of "''t''"] by (simp add: example_options_def)

theorem failing_claim_starves_the_others_witness:
  "\<exists>s'. poller_events example_options (replicate 1000 (ClaimThrows 0)) claiming_poller = Some s' \<and> find_poll 0 s' = Some example_poll"
  by (rule failing_claim_starves_the_others [OF claiming_polled])
    (simp_all add: find_poll_def claiming_poller_def example_poll_def fresh_poller_def)

text \<open>A task that runs on: its lease is lost, its attempt ends, its slot is returned, and the stop answers at once.\<close>

definition lost_task :: poll_attempt where
  "lost_task = \<lparr>pa_id = 1, pa_tenant = ''t'', pa_key = ''t:r'', pa_settled = True, pa_aborted = True, pa_timed_out = False,
     pa_ended = True, pa_done = False\<rparr>"

definition drained_poller :: poller where
  "drained_poller = fresh_poller\<lparr>po_accepting := False, po_running := False, po_outliving := [lost_task],
     po_drain := Drained False 0, po_next := 2\<rparr>"

lemma drained_events:
  "poller_events example_options [PollStarts, ClaimAnswers 0 ''r'', ClaimEmpty 0, LeaseLost 1, AttemptEnds 1, SlotReturned 1,
     PollEnds 0, StopCalled (Fin 5)] fresh_poller = Some drained_poller"
  by (simp add: fresh_poller_def example_options_def drained_poller_def lost_task_def attempt_key_def pollOnce_def resume_poll_def
      set_poll_def incrementInFlight_def or_default_def claim_answered_def find_poll_def start_attempt_def find_attempt_def
      end_attempt_def on_attempt_def outlives_def decrementInFlight_def notifyDrainWaiter_def close_poll_def poller_stop_def
      is_int_rat_def max_safe_def isDrained_def totalInFlight_def failLease_def Let_def)

theorem clean_drain_is_final_witness:
  "po_drain drained_poller = Drained False 0
    \<and> (case poller_events example_options [PollStarts, StopCalled (Fin 7)] drained_poller of None \<Rightarrow> False
       | Some s \<Rightarrow> po_drain s = Drained False 0 \<and> po_polls s = [] \<and> po_attempts s = [] \<and> po_outliving s = [lost_task] \<and> pa_aborted lost_task)"
proof -
  have p: "polled example_options drained_poller" by (rule polled_events [OF fresh_polled drained_events])
  have d: "po_drain drained_poller = Drained False 0" by (simp add: drained_poller_def)
  have "\<exists>s. poller_events example_options [PollStarts, StopCalled (Fin 7)] drained_poller = Some s \<and> po_outliving s = [lost_task]"
    by (simp add: drained_poller_def fresh_poller_def example_options_def pollOnce_def close_poll_def notifyDrainWaiter_def
        poller_stop_def Let_def)
  then show ?thesis using clean_drain_is_final [OF p] d by (auto simp del: poller_events.simps)
qed

theorem own_write_costs_the_lease_witness:
  "heartbeat ''w'' (Fin 30000) 0 1 1 1 example_tenant ''r'' [example_row Running [] (Some ''w'')]
      [(example_row Running [] (Some ''w''))\<lparr>dt_task_version := 5\<rparr>]
    = (LosesLease (ThrownError ''TASK_VERSION_CONFLICT''), [(example_row Running [] (Some ''w''))\<lparr>dt_task_version := 5\<rparr>])"
proof (rule own_write_costs_the_lease [of _ _ _ "example_row Running [] (Some ''w'')" _ _ _ 30000])
  show "durable_getTask example_tenant ''r'' [example_row Running [] (Some ''w'')] = Inr (Some (example_row Running [] (Some ''w'')))"
    by (simp add: durable_getTask_def)
  show "beat_read ''w'' 1 (Some (example_row Running [] (Some ''w''))) = None"
    by (simp add: beat_read_def lives_def iso_ms_def)
  show "lockDurableTask example_tenant ''r'' [(example_row Running [] (Some ''w''))\<lparr>dt_task_version := 5\<rparr>]
      = Some ((example_row Running [] (Some ''w''))\<lparr>dt_task_version := 5\<rparr>)"
    by (simp add: lockDurableTask_def task_at_def example_row_def)
  show "held 1 ''w'' ((example_row Running [] (Some ''w''))\<lparr>dt_task_version := 5\<rparr>)"
    by (simp add: held_def assertLeaseHeld_def blank_def trim_def is_ws_def iso_ms_def succeeds_iff)
qed (simp_all add: assert_address_def lease_ttl_def or_default_def is_int_rat_def)

end
