(* ===== verification/Spec2Isabelle.thy ===== *)
theory Spec2Isabelle
  imports RunExamples CrossDomainHandoff EvidenceLogger DurableGuard TaskFsm Lifecycle Authority MemoryEffectGuard Lease
    WorkflowEngine PolicyProperties AutonomyProperties LlmUsage BudgetHistory SkillProperties
    TaskContract TaskExamples HandoffExamples PollingExamples
begin

text \<open>
  A verification development of AgentOS: the core engine (\<open>packages/core-engine\<close>), the skill runtime
  (\<open>packages/skills\<close>), the durable repositories of the database package (\<open>packages/database\<close>) and the worker that
  claims and runs durable tasks (\<open>apps/worker\<close>), all TypeScript.

  \<^bold>\<open>The program.\<close> A signal of a tenant starts a run. The revenue orchestrator
  (\<open>orchestrator/revenue-orchestrator.ts\<close>) takes a lease, hydrates a context, lets an agent derive a
  hypothesis, a routing and a plan, and then executes the steps of the plan one by one: it drafts an action,
  asks the policy for a verdict, reserves the effect of the action, dispatches it to a provider and appends
  evidence. A verdict may park the task for a human decision, an unclear outcome parks it for reconciliation,
  and a worker claims it from the task table
  later, under a lease it renews by a heartbeat, and resumes it. A finished step may hand the customer over to the
  next domain of the journey: the handoff broker admits the hop and queues the task of the target run. Around this loop stand the components it calls: the policy enforcement point
  with the authority ladder and controlled autonomy, the effect guard over a table of reservations, the
  evidence and audit chains, the durable task engine, the lease manager, the skill runtime that executes an
  action, and the budget that meters the language model.

  \<^bold>\<open>How the code is modelled.\<close> A record or class is a \<open>record\<close>, an enumeration a \<open>datatype\<close>, a dictionary or
  table a partial function or a list of rows, a number a \<open>jnum\<close> (rational, \<open>NaN\<close> or infinite) where
  JavaScript's arithmetic shows, and an integer otherwise. An error is a value: every throw is an
  \<open>Inl\<close> with the class and code of the error, and its message is left out. A method is a function from its
  arguments, the readings of its clock and the state to its answer and the new state, also where it throws.
  Ports, the library calls (\<open>sha256\<close>, \<open>hmac\<close>, number formatting, \<open>RegExp\<close>, \<open>URL\<close>, \<open>Date.parse\<close>, IEEE rounding,
  \<open>Math.pow\<close>) and generated identifiers are parameters; a hypothesis about one of them is stated in the theorem
  that needs it (only the digest is ever assumed to have no collisions, on the texts at hand). SQL statements
  are written out over lists of rows with the constraints of the migrations.

  \<^bold>\<open>Theories.\<close>
  \<^item> \<open>Prelude\<close>, \<open>Numbers\<close>, \<open>Session\<close>, \<open>Programs\<close>: JavaScript values, lists and results; the locales that lift a law of
    one operation to every sequence of operations; asynchronous methods as programs with a Hoare logic.
  \<^item> \<open>Contracts\<close>, \<open>TaskFsm\<close>, \<open>Lifecycle\<close>, \<open>Authority\<close>: shared records, the task state machine, the stage journal,
    the authority verdict (\<open>contracts/types.ts\<close>, \<open>workflow/task-fsm.ts\<close>, \<open>lifecycle/stages.ts\<close>, \<open>policy/authority.ts\<close>).
  \<^item> \<open>WorkflowEngine\<close>, \<open>Lease\<close>: the in-memory task engine and lease manager (\<open>workflow/\<close>) with every operation,
    as interpretations of their contracts.
  \<^item> \<open>PolicyTypes\<close>, \<open>RuleChecks\<close>, \<open>Enforcement\<close>, \<open>PolicyProperties\<close>: the policy enforcement point (\<open>policy/\<close>).
  \<^item> \<open>AutonomyTypes\<close>, \<open>AutonomyStore\<close>, \<open>Autonomy\<close>, \<open>AutonomyProperties\<close>: controlled autonomy (\<open>autonomy/\<close>).
  \<^item> \<open>Budget\<close>, \<open>BudgetHistory\<close>, \<open>Ledger\<close>, \<open>LlmUsage\<close>: token budget, its answers as a function of what was granted
    before, cost ledger and usage recorder (\<open>cost/\<close>).
  \<^item> \<open>CanonicalJson\<close>, \<open>EffectKey\<close>: canonical texts, digests, effect keys (\<open>effects/\<close>, \<open>durability/\<close>).
  \<^item> \<open>EffectGuard\<close>, \<open>MemoryEffectGuard\<close>, \<open>ReservationStore\<close>, \<open>DurableGuard\<close>: the decision table of the effect guard as a
    locale, the in-memory guard and the durable guard over the reservation repository as its two interpretations.
  \<^item> \<open>ChainPrimitives\<close>, \<open>ChainVerification\<close>, \<open>ChainWalk\<close>, \<open>ChainProperties\<close>, \<open>EvidenceStore\<close>, \<open>AuditStore\<close>, \<open>EvidenceLogger\<close>,
    \<open>DatabaseGuards\<close>: the two hash chains, their verifiers, the repositories that append to them and the in-memory
    logger.
  \<^item> \<open>SchemaTypes\<close>, \<open>SchemaValidation\<close>, \<open>SchemaProperties\<close>, \<open>CircuitBreaker\<close>, \<open>SkillAttempt\<close>, \<open>SkillRegistry\<close>,
    \<open>SkillEngine\<close>, \<open>SkillProperties\<close>: the skill runtime (\<open>packages/skills/src\<close>).
  \<^item> \<open>CrossDomainHandoff\<close>: the contract of a handoff between the domains of a customer's journey.
  \<^item> \<open>TaskGuards\<close>, \<open>TaskStore\<close>: the row and guards of the durable task table and every method of its repository
    (\<open>repositories/durable-workflows*.ts\<close>), with the SQL over lists of rows and instants in microseconds. \<open>TaskSteps\<close> makes
    them one step function with the relation every write of a row is in (\<open>row_write\<close>, \<open>fresh_row\<close>), from which
    \<open>TaskProperties\<close>, \<open>TaskParking\<close> and \<open>TaskPages\<close> argue; \<open>TaskContract\<close> says field by field what each method answers and
    leaves, on a map of rows and without a function of the repository, and proves that it does; \<open>TaskExamples\<close> runs it.
  \<^item> \<open>HandoffLedger\<close>, \<open>HandoffBroker\<close>: the ledger of hops with its admission transaction
    (\<open>repositories/cross-domain-handoffs.ts\<close>) over the reservation and task repositories, and the broker above it
    (\<open>runtime/shared/cross-domain-handoff.ts\<close>); \<open>HandoffProperties\<close>, \<open>HandoffExamples\<close>.
  \<^item> \<open>WorkerDispatch\<close>, \<open>WorkerPolling\<close>: what the worker does with a claimed task (\<open>worker.ts\<close>, \<open>runtime/domain-registry.ts\<close>),
    the orchestrator being any function on the task table, and the poller with its heartbeat and drain
    (\<open>worker-polling.ts\<close>) as a machine whose events are the answers it awaits, in any order; \<open>WorkerProperties\<close>,
    \<open>PollingProperties\<close>, \<open>WorkerExamples\<close>, \<open>PollingExamples\<close>.
  \<^item> \<open>RunTypes\<close>, \<open>RunPorts\<close>, \<open>CheckpointGuards\<close>, \<open>EffectReconciliation\<close>, \<open>RunRecords\<close>, \<open>StepEngine\<close>, \<open>RunEngine\<close>,
    \<open>RunResume\<close>: the revenue orchestrator. A run is a program over its history: every call of a port is an event,
    and the answer of a port is an arbitrary function of the events before it, so that other runs, operators and
    providers may act between any two calls. \<open>RunFrames\<close> says which events a part can add, \<open>RunSafety\<close> and
    \<open>RunTriples\<close> prove the invariant of a dispatch phase by phase, \<open>RunProperties\<close> states it for the three entry
    points and composes it with the durable guard, and \<open>RunExamples\<close> runs a concrete orchestrator.

  \<^bold>\<open>What the theorems show.\<close> For the orchestrator: in every run, an action reaches a provider only when the
  policy approved exactly this action, no operator had taken over, the stage and the lease were recorded, and an
  effect had a slot; and over any number of runs on the durable guard an effect is sent at most once more than the
  provider was found not to have applied it. For the policy: what a permit implies. For the stores: tenants do not
  interfere, rows follow the state machine, approvals are decided once, both effect guards follow one decision
  table. For the chains: a valid report means one intact chain, ordered appends verify, and the head digest fixes
  the history. For the skill runtime: what an admitted dispatch rests on, bounded retries, no blind resend. For
  the durable tasks: every history of the repository is one of its contract, over any sequence of operations a row is
  never lost or revived, a version is spent once, a worker without the lease writes nothing, retries are bounded, and
  a parked run keeps a complete checkpoint as long as its callers keep to the shape the repository does not check. For the handoffs: a
  customer's hops never go back on the way through the domains, though they may leave out or repeat a leg, each is
  backed by its task, and a repeated handoff is recognised until its reservation lapses. For the worker: what a
  dispatched task rests on, which leases an attempt gives back, the cap per tenant, and what a clean drain leaves: no
  poll, claim or attempt, and of the tasks only those that lost their lease and were told to abort. For the budget:
  every answer follows from what was granted before. A theorem that states behaviour the comments of the code do
  not promise says so in its text; such are the theorems of kind \<open>liveness\<close>, and the lemmas on lost
  leases, escaped attempts, skipped rows and lapsed handoffs at the end of their theories.

  \<^bold>\<open>Bounds.\<close> No definition needs fuel: loops recurse on their lists, and the retry loop on the remaining budget of
  attempts; the loop of the poller, which may not end, is a machine whose runs are lists of events, and the reader of
  \<open>TaskPages\<close> follows at most one page more than there are rows, which is enough. Counters, clocks and token counts are unbounded integers; they stand for numbers below \<open>2 ^ 53\<close>.
  Characters are code units below 256.

  \<^bold>\<open>Not modelled.\<close> Tracing spans, log and error texts; HTTP routes, process wiring, consoles, widgets and other user
  interface; the HTTP clients of external systems; the load harness; generated types; the declarative rows of the
  skill catalogue; of the database package, the repositories other than evidence, audit, reservations, durable tasks
  and handoffs (approvals among them); and of the worker, the reading of its environment, the wiring of connectors and
  the firing of timers, which are events of the poller.
  Values longer than their column and concurrent interleavings inside one database transaction are left out: the
  locks the code takes make the transactions on one key a sequence.

  \<^bold>\<open>Next.\<close> The approval repository against the contract of \<open>WorkflowEngine\<close>, and the connectors of the worker.
\<close>

end
